(* ===== verification/Prelude.thy ===== *)
theory Prelude
  imports Main "HOL-Library.Word" "HOL-Library.Char_ord" "HOL-Library.List_Lexorder"
begin

text \<open>
  Shared vocabulary of the development: the fixed-width integers of the Rust sources with
  their saturating and checked operations, results and fallible state transformers (Rust's
  \<open>Result\<close> and the \<open>?\<close> operator on \<open>&mut self\<close> methods), ordered finite maps
  (\<open>BTreeMap\<close>, and \<open>HashMap\<close> where no operation depends on the iteration order),
  durations, and the ASCII character classes used by every identifier check.
\<close>

named_theorems word_bounds \<open>how the saturating and checked operations read as natural numbers\<close>
named_theorems eff_simps \<open>evaluation rules of fallible state transformers\<close>
named_theorems omap_simps \<open>lookup and key rules of ordered maps\<close>

section \<open>Fixed-width integers\<close>

type_synonym u8 = "8 word"
type_synonym u16 = "16 word"
type_synonym u32 = "32 word"
type_synonym u64 = "64 word"
type_synonym bytes = "8 word list"

text \<open>\<open>saturating_add\<close>, \<open>saturating_sub\<close>, \<open>checked_add\<close> of the Rust integer types.\<close>

definition sat_add :: "'a::len word \<Rightarrow> 'a word \<Rightarrow> 'a word" where
  "sat_add a b = (if unat a + unat b < 2 ^ LENGTH('a) then a + b else - 1)"

definition sat_sub :: "'a::len word \<Rightarrow> 'a word \<Rightarrow> 'a word" where
  "sat_sub a b = (if b \<le> a then a - b else 0)"

definition checked_add :: "'a::len word \<Rightarrow> 'a word \<Rightarrow> 'a word option" where
  "checked_add a b = (if unat a + unat b < 2 ^ LENGTH('a) then Some (a + b) else None)"

lemma unat_minus_one_word_eq: "unat (- 1 :: 'a::len word) = 2 ^ LENGTH('a) - 1"
  by (simp add: unsigned_minus_1_eq_mask mask_eq_exp_minus_1)

lemma unat_sat_add [word_bounds]:
  "unat (sat_add a b) = min (unat a + unat b) (2 ^ LENGTH('a) - 1)" for a b :: "'a::len word"
proof (cases "unat a + unat b < 2 ^ LENGTH('a)")
  case True
  then have "unat (a + b) = unat a + unat b"
    by (simp add: unat_word_ariths)
  with True show ?thesis by (simp add: sat_add_def)
next
  case False
  then show ?thesis by (simp add: sat_add_def unat_minus_one_word_eq)
qed

lemma unat_sat_sub [word_bounds]: "unat (sat_sub a b) = unat a - unat b"
  by (auto simp: sat_sub_def unat_sub word_le_nat_alt)

lemma checked_add_SomeD [dest]:
  "checked_add a b = Some c \<Longrightarrow> unat c = unat a + unat b"
  by (auto simp: checked_add_def unat_word_ariths split: if_splits)

lemma checked_add_Some_iff:
  "checked_add a b = Some c \<longleftrightarrow> unat c = unat a + unat b" for a b :: "'a::len word"
proof
  assume "unat c = unat a + unat b"
  moreover from this have "unat a + unat b < 2 ^ LENGTH('a)"
    by (metis unsigned_less)
  moreover from this have "unat (a + b) = unat a + unat b"
    by (simp add: unat_word_ariths)
  ultimately have "c = a + b" by (metis word_unat_eq_iff)
  with \<open>unat a + unat b < 2 ^ LENGTH('a)\<close> show "checked_add a b = Some c"
    by (simp add: checked_add_def)
qed auto

lemma checked_add_None_iff:
  "checked_add a b = None \<longleftrightarrow> 2 ^ LENGTH('a) \<le> unat a + unat b" for a b :: "'a::len word"
  by (auto simp: checked_add_def)

lemmas word_nat = word_le_nat_alt word_less_nat_alt word_unat_eq_iff

lemma sat_sub_le: "sat_sub a b \<le> a"
  by (simp add: word_le_nat_alt unat_sat_sub)

lemma sat_add_ge: "a \<le> sat_add a b" for a b :: "'a::len word"
proof -
  have "unat a < 2 ^ LENGTH('a)" by (rule unsigned_less)
  then have "unat a \<le> 2 ^ LENGTH('a) - 1" by linarith
  then show ?thesis by (simp add: word_le_nat_alt unat_sat_add)
qed

lemma sat_sub_mono: "a \<le> a' \<Longrightarrow> sat_sub a b \<le> sat_sub a' b"
  by (simp add: word_le_nat_alt unat_sat_sub)

section \<open>Results and fallible state transformers\<close>

abbreviation Ok :: "'a \<Rightarrow> 'e + 'a" where "Ok \<equiv> Inr"
abbreviation Err :: "'e \<Rightarrow> 'e + 'a" where "Err \<equiv> Inl"

definition rbind :: "'e + 'a \<Rightarrow> ('a \<Rightarrow> 'e + 'b) \<Rightarrow> 'e + 'b" where
  "rbind r f = (case r of Inl e \<Rightarrow> Inl e | Inr x \<Rightarrow> f x)"

lemma rbind_simps [simp]: "rbind (Inl e) f = Inl e" "rbind (Inr x) f = f x"
  by (simp_all add: rbind_def)

lemma rbind_Inr_iff: "rbind r f = Inr y \<longleftrightarrow> (\<exists>x. r = Inr x \<and> f x = Inr y)"
  by (cases r) auto

lemma rbind_Inl_iff: "rbind r f = Inl e \<longleftrightarrow> r = Inl e \<or> (\<exists>x. r = Inr x \<and> f x = Inl e)"
  by (cases r) auto

definition map_err :: "('e \<Rightarrow> 'f) \<Rightarrow> 'e + 'a \<Rightarrow> 'f + 'a" where
  "map_err f r = (case r of Inl e \<Rightarrow> Inl (f e) | Inr x \<Rightarrow> Inr x)"

lemma map_err_simps [simp]:
  "map_err f (Inl e) = Inl (f e)" "map_err f (Inr x) = Inr x" "map_err f r = Inr y \<longleftrightarrow> r = Inr y"
  by (auto simp: map_err_def split: sum.splits)

definition ok_or :: "'e \<Rightarrow> 'a option \<Rightarrow> 'e + 'a" where
  "ok_or e opt = (case opt of None \<Rightarrow> Inl e | Some x \<Rightarrow> Inr x)"

lemma ok_or_simps [simp]: "ok_or e None = Inl e" "ok_or e (Some x) = Inr x"
  by (simp_all add: ok_or_def)

definition is_ok :: "'e + 'a \<Rightarrow> bool" where
  "is_ok r = (case r of Inl _ \<Rightarrow> False | Inr _ \<Rightarrow> True)"

lemma is_ok_simps [simp]: "\<not> is_ok (Inl e)" "is_ok (Inr x)"
  by (simp_all add: is_ok_def)

text \<open>
  A method that takes \<open>&mut self\<close> and returns a \<open>Result\<close> keeps what it wrote before an
  error, so the state is returned on both branches; \<open>ebind\<close> is the \<open>?\<close> operator.
\<close>

type_synonym ('s, 'e, 'a) eff = "'s \<Rightarrow> ('e + 'a) \<times> 's"

definition eret :: "'a \<Rightarrow> ('s, 'e, 'a) eff" where
  "eret x = (\<lambda>s. (Inr x, s))"

definition efail :: "'e \<Rightarrow> ('s, 'e, 'a) eff" where
  "efail e = (\<lambda>s. (Inl e, s))"

definition elift :: "('s \<Rightarrow> 'e + 'a) \<Rightarrow> ('s, 'e, 'a) eff" where
  "elift f = (\<lambda>s. (f s, s))"

definition emod :: "('s \<Rightarrow> 's) \<Rightarrow> ('s, 'e, unit) eff" where
  "emod f = (\<lambda>s. (Inr (), f s))"

definition ebind :: "('s, 'e, 'a) eff \<Rightarrow> ('a \<Rightarrow> ('s, 'e, 'b) eff) \<Rightarrow> ('s, 'e, 'b) eff" where
  "ebind m f = (\<lambda>s. case m s of (Inl e, s') \<Rightarrow> (Inl e, s') | (Inr x, s') \<Rightarrow> f x s')"

lemma eff_eval [simp, eff_simps]:
  "eret x s = (Inr x, s)"
  "efail e s = (Inl e, s)"
  "elift g s = (g s, s)"
  "emod h s = (Inr (), h s)"
  by (simp_all add: eret_def efail_def elift_def emod_def)

lemma ebind_eval [eff_simps]:
  "ebind m f s = (case m s of (Inl e, s') \<Rightarrow> (Inl e, s') | (Inr x, s') \<Rightarrow> f x s')"
  by (simp add: ebind_def)

lemma ebind_Ok_iff:
  "ebind m f s = (Inr y, s'') \<longleftrightarrow> (\<exists>x s'. m s = (Inr x, s') \<and> f x s' = (Inr y, s''))"
  by (cases "m s"; cases "fst (m s)") (auto simp: ebind_eval)

lemma eret_Ok_iff: "eret x s = (Inr y, s') \<longleftrightarrow> y = x \<and> s' = s"
  by auto

text \<open>
  An effect keeps a relation \<open>R\<close> between the state before and after, from states that satisfy
  \<open>P\<close>, when every such run does. With \<open>R\<close> reflexive and transitive and \<open>P\<close> stable under \<open>R\<close> the
  rules below are compositional: they carry the frame proofs of the components.
\<close>

definition keeps :: "('s \<Rightarrow> bool) \<Rightarrow> ('s \<Rightarrow> 's \<Rightarrow> bool) \<Rightarrow> ('s, 'e, 'a) eff \<Rightarrow> bool" where
  "keeps P R m = (\<forall>s. P s \<longrightarrow> R s (snd (m s)))"

lemma keepsI: "(\<And>s. P s \<Longrightarrow> R s (snd (m s))) \<Longrightarrow> keeps P R m"
  by (simp add: keeps_def)

lemma keepsD: "keeps P R m \<Longrightarrow> P s \<Longrightarrow> m s = (r, s') \<Longrightarrow> R s s'"
  unfolding keeps_def by (metis snd_conv)

lemma keeps_run: "keeps (\<lambda>_. True) R m \<Longrightarrow> R s (snd (m s))"
  by (simp add: keeps_def)

lemma keeps_ebind:
  assumes "transp R" and stable: "\<And>s s'. P s \<Longrightarrow> R s s' \<Longrightarrow> P s'"
    and "keeps P R m" and "\<And>x. keeps P R (f x)"
  shows "keeps P R (ebind m f)"
proof (rule keepsI)
  fix s assume P: "P s"
  obtain r s1 where m: "m s = (r, s1)" by (cases "m s")
  with assms(3) P have 1: "R s s1" by (blast dest: keepsD)
  show "R s (snd (ebind m f s))"
  proof (cases r)
    case (Inl e)
    with m 1 show ?thesis by (simp add: ebind_eval)
  next
    case (Inr x)
    have "R s1 (snd (f x s1))" using assms(4) stable [OF P 1] by (simp add: keeps_def)
    with 1 assms(1) have "R s (snd (f x s1))" by (meson transpD)
    with m Inr show ?thesis by (simp add: ebind_eval)
  qed
qed

lemma keeps_pure:
  assumes "reflp R"
  shows "keeps P R (eret x)" "keeps P R (efail e)" "keeps P R (elift g)" "keeps P R (Pair r)"
  using assms by (auto simp: keeps_def reflp_def)

lemma keeps_True: "keeps (\<lambda>_. True) R m \<Longrightarrow> keeps P R m"
  by (simp add: keeps_def)

text \<open>A \<open>for\<close> loop whose body may leave with an error.\<close>

fun eforeach :: "'a list \<Rightarrow> ('a \<Rightarrow> ('s, 'e, unit) eff) \<Rightarrow> ('s, 'e, unit) eff" where
  "eforeach [] f = eret ()"
| "eforeach (x # xs) f = ebind (f x) (\<lambda>_. eforeach xs f)"

lemma keeps_eforeach:
  assumes "reflp R" "transp R" and "\<And>s s'. P s \<Longrightarrow> R s s' \<Longrightarrow> P s'"
    and "\<And>x. x \<in> set xs \<Longrightarrow> keeps P R (f x)"
  shows "keeps P R (eforeach xs f)"
  using assms(4)
proof (induction xs)
  case Nil
  show ?case unfolding eforeach.simps using assms(1) by (rule keeps_pure(1))
next
  case (Cons x xs)
  then have "keeps P R (f x)" and "keeps P R (eforeach xs f)" by simp_all
  then show ?case using assms(2,3) by (simp add: keeps_ebind)
qed

section \<open>Ordered maps\<close>

text \<open>
  \<open>BTreeMap\<close>: an association list in increasing key order. The operations keep it sorted
  (\<open>omap_ok\<close>), lookup is \<^const>\<open>map_of\<close>, and iteration is the list itself.
\<close>

type_synonym ('k, 'v) omap = "('k \<times> 'v) list"

definition omap_ok :: "('k::linorder, 'v) omap \<Rightarrow> bool" where
  "omap_ok m = sorted_wrt (<) (map fst m)"

fun om_put :: "'k::linorder \<Rightarrow> 'v \<Rightarrow> ('k, 'v) omap \<Rightarrow> ('k, 'v) omap" where
  "om_put k v [] = [(k, v)]"
| "om_put k v ((k', v') # m) =
     (if k < k' then (k, v) # (k', v') # m
      else if k = k' then (k, v) # m
      else (k', v') # om_put k v m)"

definition om_del :: "'k \<Rightarrow> ('k, 'v) omap \<Rightarrow> ('k, 'v) omap" where
  "om_del k m = filter (\<lambda>p. fst p \<noteq> k) m"

definition om_retain :: "('k \<Rightarrow> 'v \<Rightarrow> bool) \<Rightarrow> ('k, 'v) omap \<Rightarrow> ('k, 'v) omap" where
  "om_retain P m = filter (\<lambda>p. P (fst p) (snd p)) m"

definition om_has :: "('k, 'v) omap \<Rightarrow> 'k \<Rightarrow> bool" where
  "om_has m k = (map_of m k \<noteq> None)"

definition om_keys :: "('k, 'v) omap \<Rightarrow> 'k list" where
  "om_keys m = map fst m"

lemma om_has_iff: "om_has m k \<longleftrightarrow> k \<in> fst ` set m"
  by (simp add: om_has_def map_of_eq_None_iff)

lemma set_om_keys [omap_simps]: "set (om_keys m) = dom (map_of m)"
  by (simp add: om_keys_def dom_map_of_conv_image_fst)

lemma omap_ok_Nil [simp]: "omap_ok []"
  by (simp add: omap_ok_def)

lemma omap_ok_Cons: "omap_ok (p # m) \<longleftrightarrow> (\<forall>k\<in>fst ` set m. fst p < k) \<and> omap_ok m"
  by (auto simp: omap_ok_def)

lemma omap_ok_distinct: "omap_ok m \<Longrightarrow> distinct (om_keys m)"
  by (simp add: omap_ok_def om_keys_def strict_sorted_iff)

lemma fst_om_put: "fst ` set (om_put k v m) = insert k (fst ` set m)"
proof (induction m)
  case (Cons p m)
  then show ?case by (cases p) (simp add: insert_commute)
qed simp

lemma omap_ok_put [intro]: "omap_ok m \<Longrightarrow> omap_ok (om_put k v m)"
proof (induction m)
  case (Cons p m)
  obtain k' v' where p: "p = (k', v')" by (cases p)
  from Cons.prems p have ok: "omap_ok m" and gt: "\<forall>x\<in>fst ` set m. k' < x"
    by (auto simp: omap_ok_Cons)
  have "\<forall>x\<in>fst ` set m. k < x" if "k < k'" using gt that by (meson less_trans)
  then show ?case
    using Cons.IH ok gt p by (auto simp: omap_ok_Cons fst_om_put not_less order_le_less)
qed (simp add: omap_ok_Cons)

lemma map_of_om_put [simp, omap_simps]: "omap_ok m \<Longrightarrow> map_of (om_put k v m) = (map_of m)(k \<mapsto> v)"
proof (induction m)
  case (Cons p m)
  obtain k' v' where p: "p = (k', v')" by (cases p)
  from Cons.prems p have ok: "omap_ok m" and gt: "\<forall>x\<in>fst ` set m. k' < x"
    by (auto simp: omap_ok_Cons)
  from Cons.IH ok have IH: "map_of (om_put k v m) = (map_of m)(k \<mapsto> v)" by blast
  show ?case using IH p gt by (auto simp: fun_eq_iff)
qed simp

lemma omap_ok_filter: "omap_ok m \<Longrightarrow> omap_ok (filter P m)"
  by (induction m) (auto simp: omap_ok_Cons)

lemma omap_ok_del [intro]: "omap_ok m \<Longrightarrow> omap_ok (om_del k m)"
  by (simp add: om_del_def omap_ok_filter)

lemma omap_ok_retain [intro]: "omap_ok m \<Longrightarrow> omap_ok (om_retain P m)"
  by (simp add: om_retain_def omap_ok_filter)

lemma map_of_om_del [simp, omap_simps]: "map_of (om_del k m) = (map_of m)(k := None)"
  by (induction m) (auto simp: om_del_def fun_eq_iff)

lemma map_of_om_retain:
  "omap_ok m \<Longrightarrow> map_of (om_retain P m) k =
     (case map_of m k of None \<Rightarrow> None | Some v \<Rightarrow> if P k v then Some v else None)"
proof (induction m)
  case (Cons p m)
  obtain k' v' where p: "p = (k', v')" by (cases p)
  from Cons.prems p have ok: "omap_ok m" and ni: "k' \<notin> fst ` set m"
    by (auto simp: omap_ok_Cons)
  from ni have "map_of m k' = None" by (simp add: map_of_eq_None_iff)
  with Cons.IH ok p show ?case
    by (auto simp: om_retain_def)
qed (simp add: om_retain_def)

lemma om_has_put [simp, omap_simps]: "omap_ok m \<Longrightarrow> om_has (om_put k v m) k' \<longleftrightarrow> k' = k \<or> om_has m k'"
  by (auto simp: om_has_def)

lemma om_put_put [simp]: "om_put k v (om_put k v' m) = om_put k v m"
  by (induction m) auto

lemma om_put_length:
  "omap_ok m \<Longrightarrow> length (om_put k v m) = (if om_has m k then length m else Suc (length m))"
proof (induction m)
  case (Cons p m)
  obtain k' v' where p: "p = (k', v')" by (cases p)
  from Cons.prems p have ok: "omap_ok m" and gt: "\<forall>x\<in>fst ` set m. k' < x"
    by (auto simp: omap_ok_Cons)
  have "k < k' \<Longrightarrow> k \<notin> fst ` set m" using gt by (meson less_asym)
  with Cons.IH ok p show ?case by (auto simp: om_has_iff)
qed (simp add: om_has_def)

lemma om_retain_length_le: "length (om_retain P m) \<le> length m"
  by (simp add: om_retain_def)

text \<open>Two ordered maps with the same lookup are equal: iteration order is determined.\<close>

lemma omap_set:
  assumes "omap_ok m"
  shows "(k, v) \<in> set m \<longleftrightarrow> map_of m k = Some v"
  using omap_ok_distinct [OF assms] by (simp add: om_keys_def)

lemma omap_ext:
  assumes "omap_ok m" "omap_ok m'" "map_of m = map_of m'"
  shows "m = m'"
proof -
  have sets: "set m = set m'"
    using assms by (auto simp: omap_set)
  then have "set (map fst m) = set (map fst m')" by simp
  then have "map fst m = map fst m'"
    using assms(1,2) by (simp add: omap_ok_def strict_sorted_equal)
  moreover have "map snd m = map (\<lambda>k. the (map_of m k)) (map fst m)" if "omap_ok m" for m :: "('a, 'b) omap"
    using omap_set [OF that] by (auto simp: comp_def)
  ultimately have "map snd m = map snd m'"
    using assms by metis
  with \<open>map fst m = map fst m'\<close> show ?thesis
    by (metis zip_map_fst_snd)
qed

lemma length_filter_mono:
  "(\<And>x. x \<in> set xs \<Longrightarrow> P x \<Longrightarrow> Q x) \<Longrightarrow> length (filter P xs) \<le> length (filter Q xs)"
  by (induction xs) (auto simp: le_Suc_eq)

section \<open>Durations\<close>

text \<open>
  \<open>std::time::Duration\<close> is a whole number of nanoseconds below \<open>2^64\<close> seconds.
  \<open>duration_ms\<close> is the helper of the supervisor that truncates to milliseconds and clamps
  to \<open>u64::MAX\<close>.
\<close>

type_synonym duration = nat

definition duration_max :: duration where
  "duration_max = 2 ^ 64 * 10 ^ 9 - 1"

definition from_millis :: "u64 \<Rightarrow> duration" where
  "from_millis ms = unat ms * 10 ^ 6"

definition from_secs :: "u64 \<Rightarrow> duration" where
  "from_secs s = unat s * 10 ^ 9"

definition dur_sat_add :: "duration \<Rightarrow> duration \<Rightarrow> duration" where
  "dur_sat_add d e = min (d + e) duration_max"

definition duration_ms :: "duration \<Rightarrow> u64" where
  "duration_ms d = (if d div 10 ^ 6 < 2 ^ 64 then of_nat (d div 10 ^ 6) else - 1)"

lemma unat_duration_ms [word_bounds]: "unat (duration_ms d) = min (d div 10 ^ 6) (2 ^ 64 - 1)"
  by (simp add: duration_ms_def unat_minus_one_word_eq unat_of_nat)

lemma duration_ms_from_millis [simp]: "duration_ms (from_millis ms) = ms"
proof -
  have "unat ms < 2 ^ 64" using unsigned_less [of ms] by simp
  then show ?thesis by (simp add: duration_ms_def from_millis_def)
qed

lemma duration_ms_mono: "d \<le> e \<Longrightarrow> duration_ms d \<le> duration_ms e"
  by (simp add: word_le_nat_alt unat_duration_ms div_le_mono min.coboundedI1)

section \<open>Character classes\<close>

text \<open>
  A Rust \<open>String\<close> is modelled by the list of its UTF-8 bytes, each byte as a \<^typ>\<open>char\<close>, so
  that \<open>len()\<close> is the list length and the derived order is the byte order. The predicates
  are those of \<open>u8\<close> and, on bytes below 128, of \<open>char\<close>.
\<close>

definition byte_of :: "char \<Rightarrow> nat" where
  "byte_of c = of_char c"

definition is_ascii_digit :: "char \<Rightarrow> bool" where
  "is_ascii_digit c = (48 \<le> byte_of c \<and> byte_of c \<le> 57)"

definition is_ascii_lowercase :: "char \<Rightarrow> bool" where
  "is_ascii_lowercase c = (97 \<le> byte_of c \<and> byte_of c \<le> 122)"

definition is_ascii_uppercase :: "char \<Rightarrow> bool" where
  "is_ascii_uppercase c = (65 \<le> byte_of c \<and> byte_of c \<le> 90)"

definition is_ascii_alphanumeric :: "char \<Rightarrow> bool" where
  "is_ascii_alphanumeric c = (is_ascii_digit c \<or> is_ascii_lowercase c \<or> is_ascii_uppercase c)"

text \<open>
  \<open>str::chars().any(char::is_control)\<close> on UTF-8 bytes: the C0 controls, DEL, and the C1
  controls, which are encoded as \<open>C2\<close> followed by \<open>80\<close> to \<open>9F\<close>.
\<close>

fun has_control :: "string \<Rightarrow> bool" where
  "has_control [] = False"
| "has_control (c # cs) =
     (byte_of c < 32 \<or> byte_of c = 127 \<or>
      (byte_of c = 194 \<and> (case cs of [] \<Rightarrow> False | d # _ \<Rightarrow> 128 \<le> byte_of d \<and> byte_of d < 160)) \<or>
      has_control cs)"

lemmas char_class_defs = byte_of_def is_ascii_digit_def is_ascii_lowercase_def
  is_ascii_uppercase_def is_ascii_alphanumeric_def

section \<open>Decimal numerals\<close>

text \<open>
  \<open>format!("{}", n)\<close> of an unsigned integer, and the value of a digit string; the round trip
  makes every identifier built from a formatted counter unique.
\<close>

definition digit_char :: "nat \<Rightarrow> char" where
  "digit_char d = char_of (48 + d)"

definition digit_value :: "char \<Rightarrow> nat" where
  "digit_value c = byte_of c - 48"

fun nat_dec :: "nat \<Rightarrow> string" where
  "nat_dec n = (if n < 10 then [digit_char n] else nat_dec (n div 10) @ [digit_char (n mod 10)])"

declare nat_dec.simps [simp del]

definition dec_nat :: "string \<Rightarrow> nat" where
  "dec_nat cs = foldl (\<lambda>acc c. acc * 10 + digit_value c) 0 cs"

lemma byte_of_digit_char: "d < 10 \<Longrightarrow> byte_of (digit_char d) = 48 + d"
  by (simp add: byte_of_def digit_char_def)

lemma digit_value_char [simp]: "d < 10 \<Longrightarrow> digit_value (digit_char d) = d"
  by (simp add: digit_value_def byte_of_digit_char)

lemma dec_nat_snoc: "dec_nat (cs @ [c]) = dec_nat cs * 10 + digit_value c"
  by (simp add: dec_nat_def)

lemma dec_nat_dec [simp]: "dec_nat (nat_dec n) = n"
proof (induction n rule: nat_dec.induct)
  case (1 n)
  show ?case
  proof (cases "n < 10")
    case True
    then show ?thesis by (simp add: nat_dec.simps [of n] dec_nat_def)
  next
    case False
    with 1 show ?thesis by (simp add: nat_dec.simps [of n] dec_nat_snoc)
  qed
qed

lemma nat_dec_inj: "nat_dec m = nat_dec n \<longleftrightarrow> m = n"
  by (metis dec_nat_dec)

lemma nat_dec_digits: "list_all is_ascii_digit (nat_dec n)"
proof (induction n rule: nat_dec.induct)
  case (1 n)
  have "n mod 10 < 10" by simp
  then have "n mod 10 \<le> 9" by linarith
  with 1 show ?case
    by (simp add: nat_dec.simps [of n] is_ascii_digit_def byte_of_digit_char)
qed

lemma nat_dec_not_Nil [simp]: "nat_dec n \<noteq> []"
  by (simp add: nat_dec.simps)

end
