(* ===== verification/Sup_Service.thy ===== *)
theory Sup_Service
  imports Prelude
begin

text \<open>
  The data model of \<open>appcore-supervisor\<close>: service health, activation and runtime states
  (\<open>health.rs\<close>), restart policies (\<open>policy.rs\<close>), errors (\<open>error.rs\<close>), dependency contracts,
  descriptors and the \<open>ManagedService\<close> trait (\<open>service.rs\<close>), and the bounded event record
  (\<open>events.rs\<close>). A trait object is a record of its methods over a world \<open>'w\<close>: the interior
  mutability behind \<open>Arc<dyn ManagedService>\<close> is the world each method takes and returns.
\<close>

named_theorems sup_defs \<open>definitions of the supervisor data model unfolded together\<close>

section \<open>Health, activation and runtime states\<close>

datatype service_health =
  H_Ready | H_Healthy | H_Degraded | H_Failed | H_Starting | H_Stopping | H_Unknown

definition dependency_ready :: "service_health \<Rightarrow> bool" where
  "dependency_ready h = (h \<in> {H_Ready, H_Healthy, H_Degraded})"

definition is_failed :: "service_health \<Rightarrow> bool" where
  "is_failed h = (h = H_Failed)"

datatype service_activation_state = A_Enabled | A_Disabled | A_NotConfigured

definition is_enabled :: "service_activation_state \<Rightarrow> bool" where
  "is_enabled a = (a = A_Enabled)"

definition is_configured :: "service_activation_state \<Rightarrow> bool" where
  "is_configured a = (a \<noteq> A_NotConfigured)"

datatype service_runtime_state =
  R_Starting | R_Running | R_StopRequested | R_Stopping | R_Stopped
  | R_RestartScheduled | R_Restarting | R_Orphaned | R_Quarantined | R_Failed

definition owns_resource :: "service_runtime_state \<Rightarrow> bool" where
  "owns_resource r =
     (r \<in> {R_Starting, R_Running, R_StopRequested, R_Stopping, R_Restarting, R_Orphaned})"

datatype dependency_requirement = Req_Ready | Req_Healthy | Req_DegradedAllowed | Req_Optional

definition accepts :: "dependency_requirement \<Rightarrow> service_health \<Rightarrow> bool" where
  "accepts r h = (case r of
     Req_Ready \<Rightarrow> h \<in> {H_Ready, H_Healthy}
   | Req_Healthy \<Rightarrow> h = H_Healthy
   | Req_DegradedAllowed \<Rightarrow> dependency_ready h
   | Req_Optional \<Rightarrow> True)"

text \<open>The requirements form a chain: each one accepts everything a stricter one accepts.\<close>

lemma accepts_chain:
  "accepts Req_Healthy h \<Longrightarrow> accepts Req_Ready h"
  "accepts Req_Ready h \<Longrightarrow> accepts Req_DegradedAllowed h"
  "accepts Req_DegradedAllowed h \<Longrightarrow> accepts Req_Optional h"
  by (auto simp: accepts_def dependency_ready_def)

lemma accepts_not_failed: "r \<noteq> Req_Optional \<Longrightarrow> accepts r h \<Longrightarrow> \<not> is_failed h"
  by (cases r) (auto simp: accepts_def dependency_ready_def is_failed_def)

section \<open>Errors\<close>

datatype supervisor_error =
    InvalidConfiguration string
  | ServiceAlreadyRegistered string
  | ServiceNotFound string
  | DependencyNotFound string string
  | DependencyCycle "string list"
  | DependencyUnavailable string string
  | ServiceFailure string string
  | ShutdownTimeout string
  | ServiceOrphaned string
  | RestartBudgetExceeded string
  | RestartQueueFull
  | RestartExecutorStopped
  | StatePoisoned

type_synonym 'a supervisor_result = "supervisor_error + 'a"

fun join_with :: "string \<Rightarrow> string list \<Rightarrow> string" where
  "join_with sep [] = []"
| "join_with sep [x] = x"
| "join_with sep (x # y # xs) = x @ sep @ join_with sep (y # xs)"

definition ticked :: "string \<Rightarrow> string" where
  "ticked n = ''`'' @ n @ ''`''"

fun supervisor_error_display :: "supervisor_error \<Rightarrow> string" where
  "supervisor_error_display (InvalidConfiguration reason) = ''invalid supervisor configuration: '' @ reason"
| "supervisor_error_display (ServiceAlreadyRegistered n) = ''service '' @ ticked n @ '' is already registered''"
| "supervisor_error_display (ServiceNotFound n) = ''service '' @ ticked n @ '' is not registered''"
| "supervisor_error_display (DependencyNotFound n d) =
     ''service '' @ ticked n @ '' requires missing dependency '' @ ticked d"
| "supervisor_error_display (DependencyCycle p) = ''service dependency cycle: '' @ join_with '' -> '' p"
| "supervisor_error_display (DependencyUnavailable n d) =
     ''service '' @ ticked n @ '' dependency '' @ ticked d @ '' is unavailable''"
| "supervisor_error_display (ServiceFailure n reason) = ''service '' @ ticked n @ '' failed: '' @ reason"
| "supervisor_error_display (ShutdownTimeout n) = ''service '' @ ticked n @ '' exceeded its shutdown timeout''"
| "supervisor_error_display (ServiceOrphaned n) =
     ''service '' @ ticked n @ '' has an orphaned instance and cannot start''"
| "supervisor_error_display (RestartBudgetExceeded n) =
     ''service '' @ ticked n @ '' exhausted its restart budget''"
| "supervisor_error_display RestartQueueFull = ''restart executor queue is full''"
| "supervisor_error_display RestartExecutorStopped = ''restart executor is unavailable''"
| "supervisor_error_display StatePoisoned = ''supervisor state is poisoned''"

section \<open>Restart policy\<close>

datatype restart_mode = Mode_Never | Mode_OnFailure | Mode_Always

record restart_policy =
  mode :: restart_mode
  restart_budget :: u32
  restart_window :: duration
  backoff :: duration
  jitter_bound :: duration
  shutdown_timeout :: duration

definition policy_never :: restart_policy where
  "policy_never = \<lparr> mode = Mode_Never, restart_budget = 0, restart_window = from_secs 600,
     backoff = 0, jitter_bound = 0, shutdown_timeout = from_secs 10 \<rparr>"

definition policy_validate :: "restart_policy \<Rightarrow> unit supervisor_result" where
  "policy_validate p =
     (if mode p \<noteq> Mode_Never \<and> (restart_budget p = 0 \<or> restart_window p = 0)
      then Err (InvalidConfiguration ''automatic restart requires a non-zero budget and window'')
      else if shutdown_timeout p = 0
      then Err (InvalidConfiguration ''shutdown_timeout must be greater than zero'')
      else Ok ())"

definition policy_bounded :: "u32 \<Rightarrow> duration \<Rightarrow> restart_policy supervisor_result" where
  "policy_bounded budget window =
     (let p = \<lparr> mode = Mode_OnFailure, restart_budget = budget, restart_window = window,
                backoff = from_millis 100, jitter_bound = from_millis 50,
                shutdown_timeout = from_secs 10 \<rparr>
      in rbind (policy_validate p) (\<lambda>_. Ok p))"

definition with_backoff :: "duration \<Rightarrow> duration \<Rightarrow> restart_policy \<Rightarrow> restart_policy" where
  "with_backoff b j p = p\<lparr> backoff := b, jitter_bound := j \<rparr>"

definition with_shutdown_timeout :: "duration \<Rightarrow> restart_policy \<Rightarrow> restart_policy" where
  "with_shutdown_timeout t p = p\<lparr> shutdown_timeout := t \<rparr>"

definition policy_default :: restart_policy where
  "policy_default = \<lparr> mode = Mode_OnFailure, restart_budget = 5, restart_window = from_secs 600,
     backoff = from_millis 100, jitter_bound = from_millis 50, shutdown_timeout = from_secs 10 \<rparr>"

lemma policy_default_bounded: "policy_bounded 5 (from_secs 600) = Ok policy_default"
  by (simp add: policy_bounded_def policy_validate_def policy_default_def from_secs_def Let_def)

lemma policy_never_valid: "policy_validate policy_never = Ok ()"
  by (simp add: policy_validate_def policy_never_def from_secs_def)

lemma policy_validate_Ok_iff:
  "policy_validate p = Ok () \<longleftrightarrow>
     0 < shutdown_timeout p \<and> (mode p = Mode_Never \<or> 0 < restart_budget p \<and> 0 < restart_window p)"
  by (auto simp: policy_validate_def word_gt_0)

section \<open>Descriptors\<close>

datatype managed_resource =
  Res_Runtime | Res_Security | Res_Scheduler | Res_PeerRpc | Res_ControlPlane | Res_Jobs
  | Res_Update | Res_AuthServer | Res_Metrics | Res_Observation | Res_Sync | Res_Http
  | Res_Gateway | Res_Worker | Res_Queue

record service_dependency =
  service_id :: string
  requirement :: dependency_requirement

record service_descriptor =
  name :: string
  resource :: managed_resource
  dependencies :: "service_dependency list"
  policy :: restart_policy
  activation :: service_activation_state
  critical :: bool

definition service_name_byte :: "char \<Rightarrow> bool" where
  "service_name_byte c = (is_ascii_alphanumeric c \<or> c \<in> {CHR ''.'', CHR ''-'', CHR ''_''})"

definition validate_name :: "string \<Rightarrow> unit supervisor_result" where
  "validate_name n =
     (if n = [] \<or> 128 < length n \<or> \<not> list_all service_name_byte n
      then Err (InvalidConfiguration ''service name is invalid'') else Ok ())"

definition dependency_new ::
  "string \<Rightarrow> dependency_requirement \<Rightarrow> service_dependency supervisor_result" where
  "dependency_new sid req =
     rbind (validate_name sid) (\<lambda>_. Ok \<lparr> service_id = sid, requirement = req \<rparr>)"

definition descriptor_validate :: "service_descriptor \<Rightarrow> unit supervisor_result" where
  "descriptor_validate d = rbind (validate_name (name d)) (\<lambda>_. policy_validate (policy d))"

definition descriptor_new ::
  "string \<Rightarrow> managed_resource \<Rightarrow> restart_policy \<Rightarrow> service_descriptor supervisor_result" where
  "descriptor_new n res p =
     (let d = \<lparr> name = n, resource = res, dependencies = [], policy = p,
                activation = A_Enabled, critical = True \<rparr>
      in rbind (descriptor_validate d) (\<lambda>_. Ok d))"

definition add_dependency ::
  "service_dependency \<Rightarrow> service_descriptor \<Rightarrow> service_descriptor supervisor_result" where
  "add_dependency dep d =
     (if service_id dep = name d
      then Err (InvalidConfiguration ''a service cannot depend on itself'')
      else if list_ex (\<lambda>c. service_id c = service_id dep) (dependencies d) then Ok d
      else Ok (d\<lparr> dependencies := sort_key service_id (dependencies d @ [dep]) \<rparr>))"

definition with_dependency ::
  "string \<Rightarrow> service_descriptor \<Rightarrow> service_descriptor supervisor_result" where
  "with_dependency sid d =
     rbind (dependency_new sid Req_DegradedAllowed) (\<lambda>dep. add_dependency dep d)"

definition with_dependency_requirement ::
  "string \<Rightarrow> dependency_requirement \<Rightarrow> service_descriptor \<Rightarrow> service_descriptor supervisor_result" where
  "with_dependency_requirement sid req d =
     rbind (dependency_new sid req) (\<lambda>dep. add_dependency dep d)"

definition with_activation :: "service_activation_state \<Rightarrow> service_descriptor \<Rightarrow> service_descriptor" where
  "with_activation a d = d\<lparr> activation := a \<rparr>"

definition with_critical :: "bool \<Rightarrow> service_descriptor \<Rightarrow> service_descriptor" where
  "with_critical c d = d\<lparr> critical := c \<rparr>"

text \<open>
  What the constructors guarantee of every descriptor: a valid name and policy, valid
  dependency names in strictly increasing order, and no dependency on itself.
\<close>

definition descriptor_ok :: "service_descriptor \<Rightarrow> bool" where
  "descriptor_ok d \<longleftrightarrow> descriptor_validate d = Ok () \<and>
     sorted_wrt (<) (map service_id (dependencies d)) \<and>
     (\<forall>dep\<in>set (dependencies d). service_id dep \<noteq> name d \<and> validate_name (service_id dep) = Ok ())"

lemma descriptor_new_ok: "descriptor_new n res p = Ok d \<Longrightarrow> descriptor_ok d"
  by (auto simp: descriptor_new_def descriptor_ok_def rbind_Inr_iff Let_def descriptor_validate_def)

lemma add_dependency_ok:
  assumes "add_dependency dep d = Ok d'" "descriptor_ok d" "validate_name (service_id dep) = Ok ()"
  shows "descriptor_ok d'"
proof (cases "list_ex (\<lambda>c. service_id c = service_id dep) (dependencies d)")
  case True
  with assms show ?thesis by (auto simp: add_dependency_def split: if_splits)
next
  case False
  let ?ds = "sort_key service_id (dependencies d @ [dep])"
  from False assms(1) have d': "d' = d\<lparr> dependencies := ?ds \<rparr>" and ne: "service_id dep \<noteq> name d"
    by (auto simp: add_dependency_def split: if_splits)
  have "distinct (map service_id (dependencies d @ [dep]))"
    using False assms(2) by (auto simp: descriptor_ok_def strict_sorted_iff list_ex_iff)
  then have "distinct (map service_id ?ds)"
    by (metis distinct_map distinct_sort set_sort)
  then have "sorted_wrt (<) (map service_id ?ds)"
    by (simp add: strict_sorted_iff)
  with assms(2,3) ne show ?thesis
    by (auto simp: d' descriptor_ok_def descriptor_validate_def)
qed

lemma dependency_new_ok:
  "dependency_new sid req = Ok dep \<Longrightarrow>
     service_id dep = sid \<and> requirement dep = req \<and> validate_name (service_id dep) = Ok ()"
  by (auto simp: dependency_new_def rbind_Inr_iff)

text \<open>A plain enabled worker, used as concrete input by the witnesses of the properties.\<close>

definition sample_descriptor :: "string \<Rightarrow> service_dependency list \<Rightarrow> service_descriptor" where
  "sample_descriptor n deps = \<lparr> name = n, resource = Res_Worker, dependencies = deps,
     policy = policy_default, activation = A_Enabled, critical = True \<rparr>"

section \<open>The managed-service trait\<close>

record 'w managed_service =
  descriptor :: service_descriptor
  svc_start :: "('w, supervisor_error, unit) eff"
  svc_stop :: "duration \<Rightarrow> ('w, supervisor_error, unit) eff"
  svc_health :: "'w \<Rightarrow> service_health \<times> 'w"
  svc_runtime_state :: "'w \<Rightarrow> service_runtime_state \<times> 'w"

text \<open>The default \<open>runtime_state\<close> of the trait.\<close>

definition health_runtime_state :: "service_health \<Rightarrow> service_runtime_state" where
  "health_runtime_state h = (case h of
     H_Starting \<Rightarrow> R_Starting
   | H_Ready \<Rightarrow> R_Running | H_Healthy \<Rightarrow> R_Running | H_Degraded \<Rightarrow> R_Running
   | H_Stopping \<Rightarrow> R_Stopping
   | H_Failed \<Rightarrow> R_Failed
   | H_Unknown \<Rightarrow> R_Stopped)"

definition default_runtime_state ::
  "('w \<Rightarrow> service_health \<times> 'w) \<Rightarrow> 'w \<Rightarrow> service_runtime_state \<times> 'w" where
  "default_runtime_state health w = (case health w of (h, w') \<Rightarrow> (health_runtime_state h, w'))"

lemma health_runtime_state_owns:
  "dependency_ready h \<Longrightarrow> owns_resource (health_runtime_state h)"
  by (auto simp: dependency_ready_def owns_resource_def health_runtime_state_def)

section \<open>Events\<close>

datatype supervisor_event_kind =
  Ev_ServiceStarted | Ev_ServiceStopped | Ev_ServiceRestartScheduled | Ev_ServiceRestarted
  | Ev_ServiceFailed | Ev_ServiceRecovered | Ev_ServiceOrphaned | Ev_RestartBudgetExceeded
  | Ev_ServiceQuarantined | Ev_SupervisorProgressed | Ev_SupervisorStalled | Ev_SupervisorRecovered

record supervisor_event =
  ev_service_id :: string
  ev_kind :: supervisor_event_kind
  ev_timestamp_ms :: u64
  ev_attempt :: u64
  ev_reason :: string
  ev_previous_state :: string
  ev_new_state :: string
  ev_trace_id :: string

end
