(* ===== verification/Sup_Graph.thy ===== *)
theory Sup_Graph
  imports Sup_Service
begin

text \<open>
  The dependency graph of \<open>appcore-supervisor\<close> (\<open>graph.rs\<close>): the check that required
  dependencies are registered, and the depth-first search that orders services
  dependencies-first or reports a cycle. The search threads the same four mutable
  collections as the source; its lemmas show that it always terminates, that an order it
  returns lists every service once after its dependencies, and that a cycle it reports is one.
\<close>

type_synonym 'w services = "(string, 'w managed_service) omap"

section \<open>Missing dependencies\<close>

fun missing_dependency :: "'w services \<Rightarrow> service_dependency list \<Rightarrow> string option" where
  "missing_dependency svcs [] = None"
| "missing_dependency svcs (d # ds) =
     (if \<not> om_has svcs (service_id d) \<and> requirement d \<noteq> Req_Optional then Some (service_id d)
      else missing_dependency svcs ds)"

fun validate_dependencies_loop ::
  "'w services \<Rightarrow> 'w services \<Rightarrow> unit supervisor_result" where
  "validate_dependencies_loop svcs [] = Ok ()"
| "validate_dependencies_loop svcs ((n, s) # rest) =
     (case missing_dependency svcs (dependencies (descriptor s)) of
        Some dep \<Rightarrow> Err (DependencyNotFound n dep)
      | None \<Rightarrow> validate_dependencies_loop svcs rest)"

definition validate_dependencies :: "'w services \<Rightarrow> unit supervisor_result" where
  "validate_dependencies svcs = validate_dependencies_loop svcs svcs"

lemma missing_dependency_None_iff:
  "missing_dependency svcs ds = None \<longleftrightarrow>
     (\<forall>d\<in>set ds. om_has svcs (service_id d) \<or> requirement d = Req_Optional)"
  by (induction ds) auto

lemma missing_dependency_Some:
  "missing_dependency svcs ds = Some dep \<Longrightarrow>
     \<exists>d\<in>set ds. service_id d = dep \<and> \<not> om_has svcs dep \<and> requirement d \<noteq> Req_Optional"
  by (induction ds) (auto split: if_splits)

lemma validate_dependencies_loop_Ok_iff:
  "validate_dependencies_loop svcs rest = Ok () \<longleftrightarrow>
     (\<forall>(n, s)\<in>set rest. missing_dependency svcs (dependencies (descriptor s)) = None)"
  by (induction svcs rest rule: validate_dependencies_loop.induct) (auto split: option.splits)

lemma validate_dependencies_Ok_iff:
  "validate_dependencies svcs = Ok () \<longleftrightarrow>
     (\<forall>(n, s)\<in>set svcs. \<forall>d\<in>set (dependencies (descriptor s)).
        om_has svcs (service_id d) \<or> requirement d = Req_Optional)"
  by (simp add: validate_dependencies_def validate_dependencies_loop_Ok_iff missing_dependency_None_iff)

section \<open>Depth-first search\<close>

record visit_state =
  temporary :: "string set"
  permanent :: "string set"
  order :: "string list"
  path :: "string list"

function (sequential)
  visit :: "'w services \<Rightarrow> string \<Rightarrow> visit_state \<Rightarrow> unit supervisor_result \<times> visit_state" and
  visit_deps :: "'w services \<Rightarrow> service_dependency list \<Rightarrow> visit_state \<Rightarrow>
    unit supervisor_result \<times> visit_state" where
  "visit svcs n st =
     (if n \<in> permanent st then (Ok (), st)
      else if n \<in> temporary st
      then (let p = path st @ [n] in (Err (DependencyCycle p), st\<lparr> path := p \<rparr>))
      else (let st1 = st\<lparr> temporary := insert n (temporary st), path := path st @ [n] \<rparr>
        in case map_of svcs n of
             None \<Rightarrow> (Err (ServiceNotFound n), st1)
           | Some s \<Rightarrow> (case visit_deps svcs (dependencies (descriptor s)) st1 of
               (Inl e, st2) \<Rightarrow> (Err e, st2)
             | (Inr _, st2) \<Rightarrow>
                 (Ok (), st2\<lparr> path := butlast (path st2), temporary := temporary st2 - {n},
                    permanent := insert n (permanent st2), order := order st2 @ [n] \<rparr>))))"
| "visit_deps svcs [] st = (Ok (), st)"
| "visit_deps svcs (d # ds) st =
     (if om_has svcs (service_id d)
      then (case visit svcs (service_id d) st of
          (Inl e, st1) \<Rightarrow> (Err e, st1)
        | (Inr _, st1) \<Rightarrow> visit_deps svcs ds st1)
      else visit_deps svcs ds st)"
  by pat_completeness auto

text \<open>
  The nested call continues from the state the visit of a dependency leaves, so the
  termination argument first shows, on the domain of the function, that a visit that
  succeeds leaves the set of services in progress as it found it.
\<close>

lemma visit_keeps_temporary:
  "visit_visit_deps_dom (Inl (svcs, n, st)) \<Longrightarrow>
     visit svcs n st = (Inr u, st') \<Longrightarrow> temporary st' = temporary st"
  "visit_visit_deps_dom (Inr (svcs, ds, st)) \<Longrightarrow>
     visit_deps svcs ds st = (Inr u, st') \<Longrightarrow> temporary st' = temporary st"
proof (induction svcs n st and svcs ds st arbitrary: u st' and u st'
    rule: visit_visit_deps.pinduct)
  case (1 svcs n st)
  note dom = 1(1) and IH = 1(2) and ret = 1(3)
  let ?st1 = "st\<lparr> temporary := insert n (temporary st), path := path st @ [n] \<rparr>"
  consider "n \<in> permanent st" | "n \<notin> permanent st" "n \<notin> temporary st"
    using ret by (auto simp: visit.psimps [OF dom] Let_def split: if_splits)
  then show ?case
  proof cases
    case 1
    then show ?thesis using ret by (simp add: visit.psimps [OF dom])
  next
    case 2
    with ret obtain s v st2 where s: "map_of svcs n = Some s"
      and d: "visit_deps svcs (dependencies (descriptor s)) ?st1 = (Inr v, st2)"
      and st': "temporary st' = temporary st2 - {n}"
      by (simp add: visit.psimps [OF dom] Let_def split: option.splits prod.splits sum.splits)
        fastforce
    from IH [OF 2 refl s d] 2 st' show ?thesis by simp
  qed
next
  case (3 svcs d ds st)
  note dom = 3(1) and IH = 3(2-4) and ret = 3(5)
  show ?case
  proof (cases "om_has svcs (service_id d)")
    case True
    with ret obtain v st1 where v: "visit svcs (service_id d) st = (Inr v, st1)"
      and r: "visit_deps svcs ds st1 = (Inr u, st')"
      by (simp add: visit_deps.psimps(2) [OF dom] split: prod.splits sum.splits)
    from IH(1) [OF True v] IH(2) [OF True v [symmetric] refl r] show ?thesis by simp
  next
    case False
    with ret have "visit_deps svcs ds st = (Inr u, st')"
      by (simp add: visit_deps.psimps(2) [OF dom])
    with IH(3) [OF False] show ?thesis by blast
  qed
qed (simp add: visit_deps.psimps)

definition unvisited :: "'w services \<Rightarrow> visit_state \<Rightarrow> nat" where
  "unvisited svcs st = card (set (om_keys svcs) - temporary st)"

lemma unvisited_enter:
  assumes "map_of svcs n = Some s" "n \<notin> temporary st"
  shows "unvisited svcs (st\<lparr> temporary := insert n (temporary st), path := p \<rparr>) < unvisited svcs st"
proof -
  have "n \<in> set (om_keys svcs) - temporary st"
    using assms by (auto simp: set_om_keys)
  then show ?thesis unfolding unvisited_def
    by (intro psubset_card_mono) auto
qed

termination visit
proof (relation "inv_image (less_than <*lex*> less_than)
    (\<lambda>x. case x of Inl (svcs, n, st) \<Rightarrow> (unvisited svcs st, 0)
                 | Inr (svcs, ds, st) \<Rightarrow> (unvisited svcs st, Suc (length ds)))", goal_cases)
  case (2 svcs n st st1 s)
  then show ?case by (simp add: unvisited_enter)
next
  case (4 svcs d ds st x y z)
  then show ?case
    using visit_keeps_temporary(1) [of svcs "service_id d" st]
    by (simp add: unvisited_def)
qed auto

fun visit_roots :: "'w services \<Rightarrow> string list \<Rightarrow> visit_state \<Rightarrow>
    unit supervisor_result \<times> visit_state" where
  "visit_roots svcs [] st = (Ok (), st)"
| "visit_roots svcs (n # ns) st =
     (case visit svcs n (st\<lparr> path := [] \<rparr>) of
        (Inl e, st1) \<Rightarrow> (Err e, st1)
      | (Inr _, st1) \<Rightarrow> visit_roots svcs ns st1)"

definition visit_init :: visit_state where
  "visit_init = \<lparr> temporary = {}, permanent = {}, order = [], path = [] \<rparr>"

definition topological_order :: "'w services \<Rightarrow> string list supervisor_result" where
  "topological_order svcs =
     (case visit_roots svcs (om_keys svcs) visit_init of
        (Inl e, _) \<Rightarrow> Err e
      | (Inr _, st) \<Rightarrow> Ok (order st))"

section \<open>Correctness of the search\<close>

text \<open>
  The edges the search follows: declared dependencies that are registered. An order is
  dependencies-first when every edge leads to an earlier position, and a cycle report is a
  walk along edges whose last service already occurs in it.
\<close>

definition dep_edge :: "'w services \<Rightarrow> string \<Rightarrow> string \<Rightarrow> bool" where
  "dep_edge svcs a b \<longleftrightarrow> om_has svcs b \<and>
     (\<exists>s. map_of svcs a = Some s \<and> b \<in> service_id ` set (dependencies (descriptor s)))"

definition deps_first :: "'w services \<Rightarrow> string list \<Rightarrow> bool" where
  "deps_first svcs ns \<longleftrightarrow>
     (\<forall>xs n ys. ns = xs @ n # ys \<longrightarrow> (\<forall>m. dep_edge svcs n m \<longrightarrow> m \<in> set xs))"

definition cycle_walk :: "'w services \<Rightarrow> string list \<Rightarrow> bool" where
  "cycle_walk svcs p \<longleftrightarrow> p \<noteq> [] \<and> successively (dep_edge svcs) p \<and> last p \<in> set (butlast p)"

lemma deps_first_snoc:
  assumes "deps_first svcs ns" "\<And>m. dep_edge svcs n m \<Longrightarrow> m \<in> set ns"
  shows "deps_first svcs (ns @ [n])"
  unfolding deps_first_def
proof (intro allI impI)
  fix xs k ys m
  assume eq: "ns @ [n] = xs @ k # ys" and e: "dep_edge svcs k m"
  show "m \<in> set xs"
  proof (cases ys rule: rev_cases)
    case Nil
    with eq assms(2) e show ?thesis by simp
  next
    case (snoc zs z)
    with eq have "ns = xs @ k # zs" by simp
    with assms(1) e show ?thesis by (auto simp: deps_first_def)
  qed
qed

definition visit_inv :: "'w services \<Rightarrow> visit_state \<Rightarrow> bool" where
  "visit_inv svcs st \<longleftrightarrow> distinct (order st) \<and> set (order st) = permanent st \<and>
     permanent st \<subseteq> set (om_keys svcs) \<and> deps_first svcs (order st) \<and>
     permanent st \<inter> temporary st = {} \<and> set (path st) = temporary st \<and>
     distinct (path st) \<and> successively (dep_edge svcs) (path st)"

definition visit_ctx :: "'w services \<Rightarrow> visit_state \<Rightarrow> string \<Rightarrow> bool" where
  "visit_ctx svcs st n \<longleftrightarrow> om_has svcs n \<and> (path st \<noteq> [] \<longrightarrow> dep_edge svcs (last (path st)) n)"

definition visit_post :: "'w services \<Rightarrow> string set \<Rightarrow> visit_state \<Rightarrow>
    unit supervisor_result \<times> visit_state \<Rightarrow> bool" where
  "visit_post svcs ns st r = (case r of
     (Inl e, _) \<Rightarrow> (\<exists>p. e = DependencyCycle p \<and> cycle_walk svcs p)
   | (Inr _, st') \<Rightarrow> visit_inv svcs st' \<and> temporary st' = temporary st \<and> path st' = path st \<and>
       permanent st \<subseteq> permanent st' \<and> ns \<subseteq> permanent st')"

lemma visit_post_simps [simp]:
  "visit_post svcs ns st (Inl e, st') \<longleftrightarrow> (\<exists>p. e = DependencyCycle p \<and> cycle_walk svcs p)"
  "visit_post svcs ns st (Inr u, st') \<longleftrightarrow> visit_inv svcs st' \<and> temporary st' = temporary st \<and>
     path st' = path st \<and> permanent st \<subseteq> permanent st' \<and> ns \<subseteq> permanent st'"
  by (simp_all add: visit_post_def)

lemma visit_inv_enter:
  assumes "visit_inv svcs st" "visit_ctx svcs st n" "n \<notin> permanent st" "n \<notin> temporary st"
  shows "visit_inv svcs (st\<lparr> temporary := insert n (temporary st), path := path st @ [n] \<rparr>)"
  using assms by (auto simp: visit_inv_def visit_ctx_def successively_append_iff)

lemma visit_inv_leave:
  assumes "visit_inv svcs st2" "temporary st2 = insert n (temporary st)" "path st2 = path st @ [n]"
    and "visit_inv svcs st" "n \<notin> temporary st" "om_has svcs n"
    and "\<And>m. dep_edge svcs n m \<Longrightarrow> m \<in> permanent st2"
  shows "visit_inv svcs (st2\<lparr> path := butlast (path st2), temporary := temporary st2 - {n},
     permanent := insert n (permanent st2), order := order st2 @ [n] \<rparr>)"
proof -
  have "deps_first svcs (order st2 @ [n])"
    using assms(1,7) by (intro deps_first_snoc) (auto simp: visit_inv_def)
  moreover have "n \<in> set (om_keys svcs)" using assms(6) by (auto simp: om_has_def set_om_keys)
  ultimately show ?thesis using assms by (auto simp: visit_inv_def)
qed

text \<open>
  The two recursive cases, each from the contract of its callee.
\<close>

abbreviation registered_ids :: "'w services \<Rightarrow> service_dependency list \<Rightarrow> string set" where
  "registered_ids svcs ds \<equiv> {m. om_has svcs m \<and> m \<in> service_id ` set ds}"

lemma visit_from_deps:
  assumes inv: "visit_inv svcs st" and ctx: "visit_ctx svcs st n"
    and new: "n \<notin> permanent st" "n \<notin> temporary st" and s: "map_of svcs n = Some s"
    and st1: "st1 = st\<lparr> temporary := insert n (temporary st), path := path st @ [n] \<rparr>"
    and post: "visit_post svcs (registered_ids svcs (dependencies (descriptor s))) st1
      (visit_deps svcs (dependencies (descriptor s)) st1)"
  shows "visit_post svcs {n} st (visit svcs n st)"
proof -
  obtain r st2 where d: "visit_deps svcs (dependencies (descriptor s)) st1 = (r, st2)"
    by (cases "visit_deps svcs (dependencies (descriptor s)) st1")
  show ?thesis
  proof (cases r)
    case (Inl e)
    with post new s d st1 show ?thesis by (simp add: Let_def)
  next
    case (Inr u)
    have "m \<in> permanent st2" if "dep_edge svcs n m" for m
      using post d Inr that s by (auto simp: dep_edge_def)
    then have "visit_inv svcs (st2\<lparr> path := butlast (path st2), temporary := temporary st2 - {n},
        permanent := insert n (permanent st2), order := order st2 @ [n] \<rparr>)"
      using post d Inr inv ctx new st1
      by (intro visit_inv_leave [where st = st]) (auto simp: visit_ctx_def)
    with post d Inr new s st1 show ?thesis by (auto simp: Let_def)
  qed
qed

lemma visit_deps_from_visit:
  assumes has: "om_has svcs (service_id d)" and v: "visit svcs (service_id d) st = (r, st1)"
    and post: "visit_post svcs {service_id d} st (r, st1)"
    and rest: "\<And>u. r = Inr u \<Longrightarrow> visit_post svcs (registered_ids svcs ds) st1 (visit_deps svcs ds st1)"
  shows "visit_post svcs (registered_ids svcs (d # ds)) st (visit_deps svcs (d # ds) st)"
proof (cases r)
  case (Inl e)
  with post has v show ?thesis by simp
next
  case (Inr u)
  then show ?thesis using rest [OF Inr] post has v
    by (cases "visit_deps svcs ds st1"; cases "fst (visit_deps svcs ds st1)") auto
qed

lemma visit_correct:
  "visit_inv svcs st \<Longrightarrow> visit_ctx svcs st n \<Longrightarrow> visit_post svcs {n} st (visit svcs n st)"
  "visit_inv svcs st \<Longrightarrow> path st \<noteq> [] \<Longrightarrow>
     (\<And>d. d \<in> set ds \<Longrightarrow> om_has svcs (service_id d) \<Longrightarrow> visit_ctx svcs st (service_id d)) \<Longrightarrow>
     visit_post svcs (registered_ids svcs ds) st (visit_deps svcs ds st)"
proof (induction svcs n st and svcs ds st rule: visit_visit_deps.induct)
  case (1 svcs n st)
  note IH = 1(1) and inv = 1(2) and ctx = 1(3)
  consider "n \<in> permanent st" | "n \<notin> permanent st" "n \<in> temporary st"
    | "n \<notin> permanent st" "n \<notin> temporary st" by blast
  then show ?case
  proof cases
    case 2
    then have "cycle_walk svcs (path st @ [n])"
      using inv ctx by (auto simp: cycle_walk_def visit_inv_def visit_ctx_def successively_append_iff)
    with 2 show ?thesis by (simp add: Let_def)
  next
    case 3
    obtain s where s: "map_of svcs n = Some s"
      using ctx by (auto simp: visit_ctx_def om_has_def)
    show ?thesis
      by (rule visit_from_deps [OF inv ctx 3 s refl], rule IH [OF 3 refl s])
        (use visit_inv_enter [OF inv ctx 3] s in \<open>auto simp: visit_ctx_def dep_edge_def\<close>)
  qed (use inv in \<open>simp\<close>)
next
  case (3 svcs d ds st)
  note IH = 3(1-3) and inv = 3(4) and ne = 3(5) and ctx = 3(6)
  show ?case
  proof (cases "om_has svcs (service_id d)")
    case True
    obtain r st1 where v: "visit svcs (service_id d) st = (r, st1)"
      by (cases "visit svcs (service_id d) st")
    have post: "visit_post svcs {service_id d} st (r, st1)"
      using IH(1) [OF True inv ctx] True v by simp
    show ?thesis
      by (rule visit_deps_from_visit [OF True v post], rule IH(2) [OF True v [symmetric]])
        (use post ne ctx in \<open>auto simp: visit_ctx_def\<close>)
  next
    case False
    moreover from this have "registered_ids svcs (d # ds) = registered_ids svcs ds" by auto
    ultimately show ?thesis using IH(3) [OF False inv ne] ctx by simp
  qed
qed simp

lemma visit_roots_correct:
  assumes "visit_inv svcs st" "temporary st = {}" "set ns \<subseteq> set (om_keys svcs)"
  shows "visit_post svcs (set ns) st (visit_roots svcs ns st)"
  using assms
proof (induction ns arbitrary: st)
  case (Cons n ns)
  have p0: "path st = []" using Cons.prems(1,2) by (simp add: visit_inv_def)
  obtain r st1 where v: "visit svcs n (st\<lparr> path := [] \<rparr>) = (r, st1)"
    by (cases "visit svcs n (st\<lparr> path := [] \<rparr>)")
  have st: "st\<lparr> path := [] \<rparr> = st" using p0 by (cases st) simp
  have "om_has svcs n" using Cons.prems(3) by (auto simp: om_has_def set_om_keys)
  with p0 have "visit_ctx svcs st n" by (simp add: visit_ctx_def)
  from visit_correct(1) [OF Cons.prems(1) this] v st have post: "visit_post svcs {n} st (r, st1)"
    by simp
  show ?case
  proof (cases r)
    case (Inl e)
    with post v show ?thesis by simp
  next
    case (Inr u)
    then have "visit_post svcs (set ns) st1 (visit_roots svcs ns st1)"
      using post Cons.prems by (intro Cons.IH) auto
    with post v Inr show ?thesis
      by (cases "visit_roots svcs ns st1"; cases "fst (visit_roots svcs ns st1)") auto
  qed
qed simp

lemma visit_inv_init: "visit_inv svcs visit_init" "temporary visit_init = {}"
  by (simp_all add: visit_inv_def visit_init_def deps_first_def)

lemma topological_order_cases:
  "(\<exists>ns. topological_order svcs = Ok ns \<and> distinct ns \<and> set ns = set (om_keys svcs) \<and> deps_first svcs ns)
   \<or> (\<exists>p. topological_order svcs = Err (DependencyCycle p) \<and> cycle_walk svcs p)"
proof -
  obtain r st where v: "visit_roots svcs (om_keys svcs) visit_init = (r, st)"
    by (cases "visit_roots svcs (om_keys svcs) visit_init")
  have "visit_post svcs (set (om_keys svcs)) visit_init (r, st)"
    using visit_roots_correct [OF visit_inv_init(1,2) order_refl, of svcs] v by metis
  then show ?thesis
    using v by (cases r) (auto simp: topological_order_def visit_inv_def)
qed

lemma cycle_walk_tranclp:
  assumes "cycle_walk svcs p"
  shows "(dep_edge svcs)\<^sup>+\<^sup>+ (last p) (last p)"
proof -
  let ?n = "last p"
  have p: "p = butlast p @ [?n]" using assms by (simp add: cycle_walk_def)
  obtain xs ys where bl: "butlast p = xs @ ?n # ys"
    using assms by (auto simp: cycle_walk_def in_set_conv_decomp)
  have "successively (dep_edge svcs) (?n # ys @ [?n])"
    using assms p bl by (metis append.assoc append_Cons cycle_walk_def successively_append_iff)
  moreover have "(dep_edge svcs)\<^sup>+\<^sup>+ a b" if "successively (dep_edge svcs) (a # zs @ [b])" for a zs b
    using that
  proof (induction zs arbitrary: a)
    case (Cons z zs)
    then show ?case by (auto intro: tranclp_into_tranclp2)
  qed auto
  ultimately show ?thesis by blast
qed

lemma deps_first_no_cycle:
  assumes "deps_first svcs ns" "\<And>a b. dep_edge svcs a b \<Longrightarrow> a \<in> set ns" "distinct ns"
  shows "\<not> (dep_edge svcs)\<^sup>+\<^sup>+ a a"
proof
  have earlier: "\<exists>xs ys. ns = xs @ a # ys \<and> b \<in> set xs" if "(dep_edge svcs)\<^sup>+\<^sup>+ a b" for a b
    using that
  proof (induction rule: tranclp_induct)
    case (base b)
    then obtain xs ys where "ns = xs @ a # ys" using assms(2) by (meson split_list)
    with assms(1) base show ?case by (auto simp: deps_first_def)
  next
    case (step b c)
    then obtain xs ys where ns: "ns = xs @ a # ys" "b \<in> set xs" by blast
    then obtain us vs where "xs = us @ b # vs" by (meson split_list)
    with ns have "ns = us @ b # vs @ a # ys" by simp
    with assms(1) step(2) have "c \<in> set us" by (auto simp: deps_first_def)
    with \<open>xs = us @ b # vs\<close> have "c \<in> set xs" by simp
    with ns(1) show ?case by blast
  qed
  assume "(dep_edge svcs)\<^sup>+\<^sup>+ a a"
  with earlier assms(3) show False by fastforce
qed

section \<open>Properties\<close>

text \<open>
  C1. The dependency order is right in every case: an order that is returned lists every
  registered service exactly once, each one after all its registered dependencies; and the
  only failure is a dependency cycle, reported with a walk along declared dependencies whose
  last service already occurs earlier in it.
\<close>
theorem topological_order_correct:
  "case topological_order svcs of
     Inr ns \<Rightarrow> distinct ns \<and> set ns = set (om_keys svcs) \<and> deps_first svcs ns
   | Inl e \<Rightarrow> (\<exists>p. e = DependencyCycle p \<and> cycle_walk svcs p)"
  using topological_order_cases [of svcs] by auto

text \<open>
  C2. The search succeeds exactly on the acyclic dependency graphs: no acyclic installation is
  refused and no cyclic one is accepted.
\<close>
theorem topological_order_Ok_iff_acyclic:
  "(\<exists>ns. topological_order svcs = Ok ns) \<longleftrightarrow> (\<nexists>n. (dep_edge svcs)\<^sup>+\<^sup>+ n n)"
proof (cases "\<exists>p. topological_order svcs = Err (DependencyCycle p)")
  case True
  with topological_order_cases [of svcs] show ?thesis by (auto dest: cycle_walk_tranclp)
next
  case False
  with topological_order_cases [of svcs] obtain ns where
    ns: "topological_order svcs = Ok ns" "distinct ns" "set ns = set (om_keys svcs)" "deps_first svcs ns"
    by blast
  moreover have "a \<in> set ns" if "dep_edge svcs a b" for a b
    using that ns(3) by (auto simp: dep_edge_def set_om_keys)
  ultimately show ?thesis using deps_first_no_cycle by blast
qed

end
