(* ===== verification/Sup_Watchdog.thy ===== *)
theory Sup_Watchdog
  imports Sup_Service
begin

text \<open>
  The reconciliation watchdog (\<open>watchdog.rs\<close>). Its atomics are the fields of a record, the
  state being kept as the \<open>u8\<close> the source stores; every method is one function on the record.
  The threads that share a watchdog interleave these methods, so the step relation of the
  last section ranges over arbitrary sequences of them.
\<close>

record watchdog_config =
  enabled :: bool
  check_interval_ms :: u64
  stall_timeout_ms :: u64

definition DEFAULT_WATCHDOG_CHECK_INTERVAL_MS :: u64 where
  "DEFAULT_WATCHDOG_CHECK_INTERVAL_MS = 1000"

definition DEFAULT_WATCHDOG_STALL_TIMEOUT_MS :: u64 where
  "DEFAULT_WATCHDOG_STALL_TIMEOUT_MS = 15000"

definition watchdog_config_validate :: "watchdog_config \<Rightarrow> watchdog_config supervisor_result" where
  "watchdog_config_validate c =
     (if check_interval_ms c = 0 \<or> stall_timeout_ms c = 0
      then Err (InvalidConfiguration ''watchdog intervals must be greater than zero'')
      else if enabled c \<and> stall_timeout_ms c \<le> check_interval_ms c
      then Err (InvalidConfiguration ''watchdog stall timeout must exceed its check interval'')
      else Ok c)"

definition watchdog_config_default :: watchdog_config where
  "watchdog_config_default = \<lparr> enabled = True,
     check_interval_ms = DEFAULT_WATCHDOG_CHECK_INTERVAL_MS,
     stall_timeout_ms = DEFAULT_WATCHDOG_STALL_TIMEOUT_MS \<rparr>"

lemma watchdog_config_default_valid:
  "watchdog_config_validate watchdog_config_default = Ok watchdog_config_default"
  by (simp add: watchdog_config_validate_def watchdog_config_default_def
      DEFAULT_WATCHDOG_CHECK_INTERVAL_MS_def DEFAULT_WATCHDOG_STALL_TIMEOUT_MS_def)

datatype watchdog_state = W_Starting | W_Healthy | W_Stalled | W_Failed | W_Stopping

definition watchdog_as_u8 :: "watchdog_state \<Rightarrow> u8" where
  "watchdog_as_u8 s = (case s of
     W_Starting \<Rightarrow> 0 | W_Healthy \<Rightarrow> 1 | W_Stalled \<Rightarrow> 2 | W_Failed \<Rightarrow> 3 | W_Stopping \<Rightarrow> 4)"

definition watchdog_from_u8 :: "u8 \<Rightarrow> watchdog_state" where
  "watchdog_from_u8 v =
     (if v = 1 then W_Healthy else if v = 2 then W_Stalled
      else if v = 3 then W_Failed else if v = 4 then W_Stopping else W_Starting)"

lemma watchdog_u8_roundtrip [simp]: "watchdog_from_u8 (watchdog_as_u8 s) = s"
  by (cases s) (simp_all add: watchdog_as_u8_def watchdog_from_u8_def)

record watchdog =
  wd_config :: watchdog_config
  created_at_ms :: u64
  last_reconcile_at_ms :: u64
  reconcile_sequence :: u64
  last_progress_at_ms :: u64
  wd_state_u8 :: u8

definition watchdog_from_validated :: "watchdog_config \<Rightarrow> u64 \<Rightarrow> watchdog" where
  "watchdog_from_validated c t = \<lparr> wd_config = c, created_at_ms = t, last_reconcile_at_ms = 0,
     reconcile_sequence = 0, last_progress_at_ms = 0, wd_state_u8 = watchdog_as_u8 W_Starting \<rparr>"

definition watchdog_new :: "watchdog_config \<Rightarrow> u64 \<Rightarrow> watchdog supervisor_result" where
  "watchdog_new c t = rbind (watchdog_config_validate c) (\<lambda>c'. Ok (watchdog_from_validated c' t))"

definition watchdog_with_default :: "u64 \<Rightarrow> watchdog" where
  "watchdog_with_default t = watchdog_from_validated watchdog_config_default t"

definition wd_state :: "watchdog \<Rightarrow> watchdog_state" where
  "wd_state w = watchdog_from_u8 (wd_state_u8 w)"

definition wd_set_state :: "watchdog_state \<Rightarrow> watchdog \<Rightarrow> watchdog" where
  "wd_set_state s w = w\<lparr> wd_state_u8 := watchdog_as_u8 s \<rparr>"

definition record_reconcile_started :: "u64 \<Rightarrow> watchdog \<Rightarrow> watchdog" where
  "record_reconcile_started t w = w\<lparr> last_reconcile_at_ms := t \<rparr>"

definition record_reconcile_completed :: "u64 \<Rightarrow> watchdog \<Rightarrow> u64 \<times> watchdog" where
  "record_reconcile_completed t w =
     (let w1 = w\<lparr> last_reconcile_at_ms := t, last_progress_at_ms := t,
                  reconcile_sequence := reconcile_sequence w + 1 \<rparr>;
          sequence = sat_add (reconcile_sequence w) 1
      in (sequence, if wd_state w1 \<in> {W_Stopping, W_Failed} then w1 else wd_set_state W_Healthy w1))"

definition stalled_for_ms :: "u64 \<Rightarrow> watchdog \<Rightarrow> u64" where
  "stalled_for_ms t w =
     sat_sub t (if last_progress_at_ms w = 0 then created_at_ms w else last_progress_at_ms w)"

definition wd_evaluate :: "u64 \<Rightarrow> watchdog \<Rightarrow> (watchdog_state \<times> watchdog_state) option \<times> watchdog" where
  "wd_evaluate t w =
     (let previous = wd_state w
      in if previous \<in> {W_Stopping, W_Failed} then (None, w)
         else let next =
                (if \<not> enabled (wd_config w) then W_Healthy
                 else if stall_timeout_ms (wd_config w) < stalled_for_ms t w then W_Stalled
                 else if reconcile_sequence w = 0 then W_Starting
                 else W_Healthy)
              in if previous = next then (None, w)
                 else (Some (previous, next), wd_set_state next w))"

definition mark_stopping :: "watchdog \<Rightarrow> watchdog" where
  "mark_stopping w = wd_set_state W_Stopping w"

definition mark_failed :: "watchdog \<Rightarrow> watchdog" where
  "mark_failed w = wd_set_state W_Failed w"

section \<open>Behaviour of the methods\<close>

lemma wd_state_set [simp]: "wd_state (wd_set_state s w) = s"
  by (simp add: wd_state_def wd_set_state_def)

lemma wd_set_state_sel [simp]:
  "wd_config (wd_set_state s w) = wd_config w"
  "created_at_ms (wd_set_state s w) = created_at_ms w"
  "last_reconcile_at_ms (wd_set_state s w) = last_reconcile_at_ms w"
  "reconcile_sequence (wd_set_state s w) = reconcile_sequence w"
  "last_progress_at_ms (wd_set_state s w) = last_progress_at_ms w"
  by (simp_all add: wd_set_state_def)

lemma wd_state_updates [simp]:
  "wd_state (w\<lparr> last_reconcile_at_ms := t \<rparr>) = wd_state w"
  "wd_state (w\<lparr> last_progress_at_ms := t \<rparr>) = wd_state w"
  "wd_state (w\<lparr> reconcile_sequence := n \<rparr>) = wd_state w"
  by (simp_all add: wd_state_def)

abbreviation wd_terminal :: "watchdog \<Rightarrow> bool" where
  "wd_terminal w \<equiv> wd_state w \<in> {W_Stopping, W_Failed}"

definition wd_verdict :: "u64 \<Rightarrow> watchdog \<Rightarrow> watchdog_state" where
  "wd_verdict t w =
     (if enabled (wd_config w) \<and> stall_timeout_ms (wd_config w) < stalled_for_ms t w then W_Stalled
      else if enabled (wd_config w) \<and> reconcile_sequence w = 0 then W_Starting else W_Healthy)"

lemma wd_evaluate_eq:
  "wd_evaluate t w =
     (if wd_terminal w \<or> wd_state w = wd_verdict t w then (None, w)
      else (Some (wd_state w, wd_verdict t w), wd_set_state (wd_verdict t w) w))"
  by (auto simp: wd_evaluate_def wd_verdict_def Let_def)

lemma wd_evaluate_config: "wd_config (snd (wd_evaluate t w)) = wd_config w"
  by (simp add: wd_evaluate_eq)

lemma wd_completed_config: "wd_config (snd (record_reconcile_completed t w)) = wd_config w"
  by (simp add: record_reconcile_completed_def Let_def)

section \<open>Interleaved use\<close>

datatype watchdog_op =
  Op_Started u64 | Op_Completed u64 | Op_Evaluate u64 | Op_MarkStopping | Op_MarkFailed

fun watchdog_apply :: "watchdog_op \<Rightarrow> watchdog \<Rightarrow> watchdog" where
  "watchdog_apply (Op_Started t) w = record_reconcile_started t w"
| "watchdog_apply (Op_Completed t) w = snd (record_reconcile_completed t w)"
| "watchdog_apply (Op_Evaluate t) w = snd (wd_evaluate t w)"
| "watchdog_apply Op_MarkStopping w = mark_stopping w"
| "watchdog_apply Op_MarkFailed w = mark_failed w"

definition watchdog_run :: "watchdog_op list \<Rightarrow> watchdog \<Rightarrow> watchdog" where
  "watchdog_run ops w = fold watchdog_apply ops w"

lemma watchdog_apply_terminal: "wd_terminal w \<Longrightarrow> wd_terminal (watchdog_apply op w)"
  by (cases op) (auto simp: record_reconcile_started_def record_reconcile_completed_def
      wd_evaluate_eq mark_stopping_def mark_failed_def Let_def)

lemma watchdog_run_terminal: "wd_terminal w \<Longrightarrow> wd_terminal (watchdog_run ops w)"
  unfolding watchdog_run_def
proof (induction ops arbitrary: w)
  case (Cons op ops)
  then show ?case using watchdog_apply_terminal by simp
qed simp

section \<open>Properties\<close>

text \<open>
  A watchdog evaluation reports a stall exactly when enforcement is on and no
  reconciliation has completed for longer than the stall timeout, counted from the last
  completion or, before the first one, from creation; it reports a transition exactly when
  the stored state changes; and once shutdown or failure is marked it never changes anything.
\<close>
lemma wd_evaluate_correct:
  "wd_evaluate t w = (tr, w') \<Longrightarrow>
     (wd_terminal w \<and> tr = None \<and> w' = w) \<or>
     (\<not> wd_terminal w
      \<and> (wd_state w' = W_Stalled \<longleftrightarrow> enabled (wd_config w) \<and>
           unat (stall_timeout_ms (wd_config w)) + unat (if last_progress_at_ms w = 0
              then created_at_ms w else last_progress_at_ms w) < unat t)
      \<and> (wd_state w' = W_Starting \<longrightarrow> reconcile_sequence w = 0)
      \<and> wd_state w' \<in> {W_Stalled, W_Starting, W_Healthy}
      \<and> tr = (if wd_state w' = wd_state w then None else Some (wd_state w, wd_state w')))"
  by (auto simp: wd_evaluate_eq wd_verdict_def stalled_for_ms_def word_less_nat_alt
      unat_sat_sub less_diff_conv split: if_splits)

text \<open>
  The theorem at a concrete input: a default watchdog created at 1000 ms and first evaluated
  at 20 s without a completed reconciliation reports the transition to \<open>Stalled\<close>.
\<close>
lemma wd_evaluate_correct_witness:
  "wd_state (snd (wd_evaluate 20000 (watchdog_with_default 1000))) = W_Stalled \<and>
   fst (wd_evaluate 20000 (watchdog_with_default 1000)) = Some (W_Starting, W_Stalled)"
  using wd_evaluate_correct [of 20000 "watchdog_with_default 1000"
      "fst (wd_evaluate 20000 (watchdog_with_default 1000))"
      "snd (wd_evaluate 20000 (watchdog_with_default 1000))"]
  by (auto simp: watchdog_with_default_def watchdog_from_validated_def watchdog_config_default_def
      wd_state_def DEFAULT_WATCHDOG_STALL_TIMEOUT_MS_def)

text \<open>
  Shutdown is irreversible for the watchdog: after \<open>mark_stopping\<close>, whatever sequence of
  reconciliations, evaluations and marks the threads interleave, the state stays \<open>Stopping\<close> or
  \<open>Failed\<close>, so a late reconciliation never makes a stopping supervisor look healthy.
\<close>
lemma watchdog_stopping_final:
  "wd_state (watchdog_run ops (mark_stopping w)) \<in> {W_Stopping, W_Failed}"
  by (rule watchdog_run_terminal) (simp add: mark_stopping_def)

end
