(* ===== verification/Sup_Adapters.thy ===== *)
theory Sup_Adapters
  imports Sup_Service
begin

text \<open>
  The managed-service adapters of \<open>adapters.rs\<close>. Each adapter is modelled on its own state:
  the passive resource, the callback resource with its lifecycle mutex, and the supervised
  thread with its join handle. Callbacks, thread factories and thread exits are outcomes the
  environment chooses, panics included; a lifecycle call that waits is split where it waits,
  so that other calls interleave there.
\<close>

section \<open>Adapters as managed services\<close>

text \<open>A service that lives inside a larger world, reached through \<open>get\<close> and \<open>put\<close>.\<close>

definition embed :: "('w \<Rightarrow> 's) \<Rightarrow> ('s \<Rightarrow> 'w \<Rightarrow> 'w) \<Rightarrow> ('s \<Rightarrow> 'a \<times> 's) \<Rightarrow> 'w \<Rightarrow> 'a \<times> 'w" where
  "embed get put f w = (case f (get w) of (r, s) \<Rightarrow> (r, put s w))"

section \<open>Passive resources\<close>

record callback_state =
  cs_health :: service_health
  cs_runtime_state :: service_runtime_state

definition passive_new :: callback_state where
  "passive_new = \<lparr> cs_health = H_Unknown, cs_runtime_state = R_Stopped \<rparr>"

definition passive_start :: "service_descriptor \<Rightarrow> (callback_state, supervisor_error, unit) eff" where
  "passive_start d s =
     (if activation d = A_Enabled
      then (Ok (), s\<lparr> cs_health := H_Healthy, cs_runtime_state := R_Running \<rparr>)
      else (Ok (), s\<lparr> cs_health := H_Unknown, cs_runtime_state := R_Stopped \<rparr>))"

definition passive_stop :: "duration \<Rightarrow> (callback_state, supervisor_error, unit) eff" where
  "passive_stop timeout s = (Ok (), s\<lparr> cs_health := H_Unknown, cs_runtime_state := R_Stopped \<rparr>)"

definition passive_health :: "callback_state \<Rightarrow> service_health \<times> callback_state" where
  "passive_health s = (cs_health s, s)"

definition passive_runtime_state :: "callback_state \<Rightarrow> service_runtime_state \<times> callback_state" where
  "passive_runtime_state s = (cs_runtime_state s, s)"

definition passive_service ::
  "('w \<Rightarrow> callback_state) \<Rightarrow> (callback_state \<Rightarrow> 'w \<Rightarrow> 'w) \<Rightarrow> service_descriptor \<Rightarrow> 'w managed_service" where
  "passive_service get put d = \<lparr> descriptor = d, svc_start = embed get put (passive_start d),
     svc_stop = (\<lambda>t. embed get put (passive_stop t)), svc_health = embed get put passive_health,
     svc_runtime_state = embed get put passive_runtime_state \<rparr>"

section \<open>Callback resources\<close>

text \<open>What a callback does: return, return an error, or panic.\<close>

datatype callback_result = CB_Ok | CB_Err string | CB_Panic

record callback_service =
  cb_state :: callback_state
  lifecycle_held :: bool

definition callback_new :: callback_service where
  "callback_new = \<lparr> cb_state = \<lparr> cs_health = H_Unknown, cs_runtime_state = R_Stopped \<rparr>,
     lifecycle_held = False \<rparr>"

definition callback_set_state :: "service_descriptor \<Rightarrow> service_health \<Rightarrow> service_runtime_state \<Rightarrow>
    (callback_service, supervisor_error, unit) eff" where
  "callback_set_state d h r s =
     (if cs_runtime_state (cb_state s) = R_Orphaned then (Err (ServiceOrphaned (name d)), s)
      else (Ok (), s\<lparr> cb_state := \<lparr> cs_health = h, cs_runtime_state = r \<rparr> \<rparr>))"

definition acquire_lifecycle :: "service_descriptor \<Rightarrow> (callback_service, supervisor_error, unit) eff" where
  "acquire_lifecycle d s =
     (if lifecycle_held s
      then (Err (ServiceFailure (name d) ''lifecycle operation unavailable''), s)
      else (Ok (), s\<lparr> lifecycle_held := True \<rparr>))"

definition release_lifecycle :: "callback_service \<Rightarrow> callback_service" where
  "release_lifecycle s = s\<lparr> lifecycle_held := False \<rparr>"

text \<open>
  A lifecycle call up to its callback: \<open>Inr None\<close> when the callback must run now with the
  lock held, \<open>Inr (Some r)\<close> when the call has already returned \<open>r\<close>.
\<close>

definition callback_enter :: "service_descriptor \<Rightarrow> service_health \<Rightarrow> service_runtime_state \<Rightarrow>
    callback_service \<Rightarrow> unit supervisor_result option \<times> callback_service" where
  "callback_enter d h r s = (case acquire_lifecycle d s of
     (Inl e, s1) \<Rightarrow> (Some (Err e), s1)
   | (Inr _, s1) \<Rightarrow> (case callback_set_state d h r s1 of
       (Inl e, s2) \<Rightarrow> (Some (Err e), release_lifecycle s2)
     | (Inr _, s2) \<Rightarrow> (None, s2)))"

definition callback_start_begin :: "service_descriptor \<Rightarrow> callback_service \<Rightarrow>
    unit supervisor_result option \<times> callback_service" where
  "callback_start_begin d s =
     (if activation d \<noteq> A_Enabled
      then (case acquire_lifecycle d s of
          (Inl e, s1) \<Rightarrow> (Some (Err e), s1)
        | (Inr _, s1) \<Rightarrow> (case callback_set_state d H_Unknown R_Stopped s1 of
            (res, s2) \<Rightarrow> (Some res, release_lifecycle s2)))
      else callback_enter d H_Starting R_Starting s)"

definition callback_stop_begin :: "service_descriptor \<Rightarrow> callback_service \<Rightarrow>
    unit supervisor_result option \<times> callback_service" where
  "callback_stop_begin d s = callback_enter d H_Stopping R_Stopping s"

text \<open>A lifecycle call from the return of its callback, the lock being released at the end.\<close>

definition callback_leave :: "service_descriptor \<Rightarrow> string \<Rightarrow>
    service_health \<times> service_runtime_state \<Rightarrow> service_health \<times> service_runtime_state \<Rightarrow>
    callback_result \<Rightarrow> (callback_service, supervisor_error, unit) eff" where
  "callback_leave d panicked ok failed res s =
     (let fail = (\<lambda>reason. (Err (ServiceFailure (name d) reason),
            release_lifecycle (snd (callback_set_state d (fst failed) (snd failed) s))))
      in case res of
           CB_Ok \<Rightarrow> (case callback_set_state d (fst ok) (snd ok) s of (r, s1) \<Rightarrow> (r, release_lifecycle s1))
         | CB_Err reason \<Rightarrow> fail reason
         | CB_Panic \<Rightarrow> fail panicked)"

definition callback_start_end :: "service_descriptor \<Rightarrow> callback_result \<Rightarrow>
    (callback_service, supervisor_error, unit) eff" where
  "callback_start_end d = callback_leave d ''managed start callback panicked''
     (H_Ready, R_Running) (H_Failed, R_Failed)"

definition callback_stop_end :: "service_descriptor \<Rightarrow> callback_result \<Rightarrow>
    (callback_service, supervisor_error, unit) eff" where
  "callback_stop_end d = callback_leave d ''managed stop callback panicked''
     (H_Unknown, R_Stopped) (H_Failed, R_Orphaned)"

text \<open>\<open>probe = None\<close> is a health probe that panics.\<close>

definition callback_health :: "service_health option \<Rightarrow> callback_service \<Rightarrow> service_health" where
  "callback_health probe s =
     (if cs_health (cb_state s) \<in> {H_Ready, H_Healthy, H_Degraded}
      then (case probe of Some h \<Rightarrow> h | None \<Rightarrow> H_Failed)
      else cs_health (cb_state s))"

definition callback_runtime_state :: "callback_service \<Rightarrow> service_runtime_state" where
  "callback_runtime_state s = cs_runtime_state (cb_state s)"

text \<open>
  Threads calling one callback service concurrently: \<open>flight\<close> holds the calls whose callback
  is running, \<open>True\<close> for a start. Any thread may begin a call at any time.
\<close>

inductive callback_step :: "service_descriptor \<Rightarrow> callback_service \<times> bool list \<Rightarrow>
    callback_service \<times> bool list \<Rightarrow> bool" for d where
  cb_start_enters: "callback_start_begin d s = (None, s') \<Longrightarrow> callback_step d (s, fl) (s', True # fl)"
| cb_start_returns: "callback_start_begin d s = (Some r, s') \<Longrightarrow> callback_step d (s, fl) (s', fl)"
| cb_stop_enters: "callback_stop_begin d s = (None, s') \<Longrightarrow> callback_step d (s, fl) (s', False # fl)"
| cb_stop_returns: "callback_stop_begin d s = (Some r, s') \<Longrightarrow> callback_step d (s, fl) (s', fl)"
| cb_start_leaves: "callback_start_end d res s = (r, s') \<Longrightarrow>
    callback_step d (s, fl1 @ True # fl2) (s', fl1 @ fl2)"
| cb_stop_leaves: "callback_stop_end d res s = (r, s') \<Longrightarrow>
    callback_step d (s, fl1 @ False # fl2) (s', fl1 @ fl2)"

definition callback_inv :: "callback_service \<times> bool list \<Rightarrow> bool" where
  "callback_inv sf \<longleftrightarrow> length (snd sf) = (if lifecycle_held (fst sf) then 1 else 0)"

lemmas callback_defs = callback_start_begin_def callback_stop_begin_def callback_enter_def
  acquire_lifecycle_def callback_set_state_def release_lifecycle_def
  callback_start_end_def callback_stop_end_def callback_leave_def

lemma callback_begin_held:
  "callback_start_begin d s = (None, s') \<Longrightarrow> \<not> lifecycle_held s \<and> lifecycle_held s'"
  "callback_stop_begin d s = (None, s') \<Longrightarrow> \<not> lifecycle_held s \<and> lifecycle_held s'"
  "callback_start_begin d s = (Some r, s') \<Longrightarrow> lifecycle_held s' = lifecycle_held s"
  "callback_stop_begin d s = (Some r, s') \<Longrightarrow> lifecycle_held s' = lifecycle_held s"
  by (auto simp: callback_defs split: if_splits)

lemma callback_end_released:
  "callback_start_end d res s = (r, s') \<Longrightarrow> \<not> lifecycle_held s'"
  "callback_stop_end d res s = (r, s') \<Longrightarrow> \<not> lifecycle_held s'"
  by (auto simp: callback_defs Let_def split: if_splits callback_result.splits)

lemma callback_inv_step:
  assumes "callback_step d sf sf'" "callback_inv sf"
  shows "callback_inv sf'"
  using assms
  by (induction rule: callback_step.induct)
    (auto simp: callback_inv_def split: if_splits dest: callback_begin_held callback_end_released)

lemma callback_orphan_step:
  assumes "callback_step d sf sf'" "cs_runtime_state (cb_state (fst sf)) = R_Orphaned"
  shows "cb_state (fst sf') = cb_state (fst sf)"
  using assms
  by (induction rule: callback_step.induct)
    (auto simp: callback_defs Let_def split: if_splits callback_result.splits)

section \<open>Supervised threads\<close>

text \<open>
  The threads a factory has created, in order of creation; a thread runs until the
  environment gives it a result. The adapter keeps the index of the thread it owns where the
  source keeps the join handle.
\<close>

datatype join_result = JR_Ok | JR_Err string | JR_Panic

record thread =
  th_shutdown :: bool
  th_result :: "join_result option"

record thread_service =
  ts_health :: service_health
  ts_runtime_state :: service_runtime_state
  ts_runtime :: "nat option"
  ts_threads :: "thread list"

definition thread_new :: thread_service where
  "thread_new = \<lparr> ts_health = H_Unknown, ts_runtime_state = R_Stopped, ts_runtime = None, ts_threads = [] \<rparr>"

definition th_finished :: "thread_service \<Rightarrow> nat \<Rightarrow> bool" where
  "th_finished s i = (th_result (ts_threads s ! i) \<noteq> None)"

definition thread_refresh :: "thread_service \<Rightarrow> thread_service" where
  "thread_refresh s = (case ts_runtime s of
     None \<Rightarrow> s
   | Some i \<Rightarrow> if \<not> th_finished s i then s
       else let (h, r) = (if th_shutdown (ts_threads s ! i) then (H_Unknown, R_Stopped)
                          else (H_Failed, R_Failed))
            in s\<lparr> ts_runtime := None, ts_health := h, ts_runtime_state := r \<rparr>)"

text \<open>\<open>factory\<close> is the reason a factory failed or panicked with, or that it spawned a thread.\<close>

definition thread_start :: "service_descriptor \<Rightarrow> string + unit \<Rightarrow>
    (thread_service, supervisor_error, unit) eff" where
  "thread_start d factory s0 =
     (let s = thread_refresh s0
      in if ts_runtime_state s = R_Orphaned then (Err (ServiceOrphaned (name d)), s)
         else if ts_runtime s \<noteq> None then (Ok (), s)
         else if activation d \<noteq> A_Enabled
         then (Ok (), s\<lparr> ts_health := H_Unknown, ts_runtime_state := R_Stopped \<rparr>)
         else (case factory of
             Inl reason \<Rightarrow> (Err (ServiceFailure (name d) reason),
               s\<lparr> ts_health := H_Failed, ts_runtime_state := R_Failed \<rparr>)
           | Inr _ \<Rightarrow> (Ok (), s\<lparr> ts_threads := ts_threads s @ [\<lparr> th_shutdown = False, th_result = None \<rparr>],
               ts_runtime := Some (length (ts_threads s)),
               ts_health := H_Ready, ts_runtime_state := R_Running \<rparr>)))"

text \<open>
  \<open>stop\<close> up to the wait (\<open>Inr i\<close>: it now waits for thread \<open>i\<close> without the lock), and from the
  end of the wait, when the thread has finished or the deadline has passed.
\<close>

definition thread_stop_begin :: "service_descriptor \<Rightarrow> thread_service \<Rightarrow>
    (unit supervisor_result + nat) \<times> thread_service" where
  "thread_stop_begin d s0 =
     (let s = thread_refresh s0
      in if ts_runtime_state s = R_Orphaned then (Inl (Err (ServiceOrphaned (name d))), s)
         else (case ts_runtime s of
             None \<Rightarrow> (Inl (Ok ()), s\<lparr> ts_health := H_Unknown, ts_runtime_state := R_Stopped \<rparr>)
           | Some i \<Rightarrow> (Inr i, s\<lparr> ts_health := H_Stopping, ts_runtime_state := R_Stopping, ts_runtime := None,
               ts_threads := (ts_threads s)[i := (ts_threads s ! i)\<lparr> th_shutdown := True \<rparr>] \<rparr>)))"

definition thread_stop_end :: "service_descriptor \<Rightarrow> nat \<Rightarrow> (thread_service, supervisor_error, unit) eff" where
  "thread_stop_end d i s = (case th_result (ts_threads s ! i) of
     None \<Rightarrow> (Err (ShutdownTimeout (name d)),
       s\<lparr> ts_runtime := Some i, ts_health := H_Failed, ts_runtime_state := R_Orphaned \<rparr>)
   | Some JR_Panic \<Rightarrow> (Err (ServiceFailure (name d) ''managed thread panicked''), s)
   | Some JR_Ok \<Rightarrow> (Ok (), s\<lparr> ts_health := H_Unknown, ts_runtime_state := R_Stopped \<rparr>)
   | Some (JR_Err reason) \<Rightarrow> (Err (ServiceFailure (name d) reason),
       s\<lparr> ts_health := H_Unknown, ts_runtime_state := R_Stopped \<rparr>))"

text \<open>\<open>probe\<close> is the optional live probe and, inside, the health it returns unless it panics.\<close>

definition thread_health :: "service_health option option \<Rightarrow> thread_service \<Rightarrow>
    service_health \<times> thread_service" where
  "thread_health probe s0 =
     (let s = thread_refresh s0
      in (if ts_health s \<in> {H_Ready, H_Healthy}
          then (case probe of None \<Rightarrow> ts_health s | Some None \<Rightarrow> H_Failed | Some (Some h) \<Rightarrow> h)
          else ts_health s, s))"

definition thread_runtime_state :: "thread_service \<Rightarrow> service_runtime_state \<times> thread_service" where
  "thread_runtime_state s0 = (let s = thread_refresh s0 in (ts_runtime_state s, s))"

definition thread_exits :: "nat \<Rightarrow> join_result \<Rightarrow> thread_service \<Rightarrow> thread_service" where
  "thread_exits i res s =
     (if i < length (ts_threads s) \<and> th_result (ts_threads s ! i) = None
      then s\<lparr> ts_threads := (ts_threads s)[i := (ts_threads s ! i)\<lparr> th_result := Some res \<rparr>] \<rparr> else s)"

definition live_threads :: "thread_service \<Rightarrow> nat list" where
  "live_threads s = filter (\<lambda>i. \<not> th_finished s i) [0..<length (ts_threads s)]"

text \<open>
  Use by one caller at a time, as the supervisor does: nothing but thread exits happens while
  a stop waits. \<open>wait\<close> is the thread a stop is waiting for.
\<close>

inductive thread_step :: "service_descriptor \<Rightarrow> thread_service \<times> nat option \<Rightarrow>
    thread_service \<times> nat option \<Rightarrow> bool" for d where
  ts_start: "thread_start d factory s = (r, s') \<Longrightarrow> thread_step d (s, None) (s', None)"
| ts_stop_returns: "thread_stop_begin d s = (Inl r, s') \<Longrightarrow> thread_step d (s, None) (s', None)"
| ts_stop_waits: "thread_stop_begin d s = (Inr i, s') \<Longrightarrow> thread_step d (s, None) (s', Some i)"
| ts_stop_ends: "thread_stop_end d i s = (r, s') \<Longrightarrow> thread_step d (s, Some i) (s', None)"
| ts_refresh: "thread_step d (s, wait) (thread_refresh s, wait)"
| ts_exit: "thread_step d (s, wait) (thread_exits i res s, wait)"

definition alive :: "thread list \<Rightarrow> nat set" where
  "alive ts = {i. i < length ts \<and> th_result (ts ! i) = None}"

definition thread_inv :: "thread_service \<times> nat option \<Rightarrow> bool" where
  "thread_inv sw \<longleftrightarrow> (let owned = set_option (ts_runtime (fst sw)) \<union> set_option (snd sw) in
     owned \<subseteq> {..<length (ts_threads (fst sw))} \<and> alive (ts_threads (fst sw)) \<subseteq> owned \<and>
     (snd sw \<noteq> None \<longrightarrow> ts_runtime (fst sw) = None))"

lemma set_live_threads: "set (live_threads s) = alive (ts_threads s)"
  by (auto simp: live_threads_def th_finished_def alive_def)

lemma alive_spawn:
  "alive (ts @ [\<lparr> th_shutdown = False, th_result = None \<rparr>]) = insert (length ts) (alive ts)"
  by (auto simp: alive_def nth_append less_Suc_eq split: if_splits)

lemma alive_signal: "alive (ts[i := (ts ! i)\<lparr> th_shutdown := True \<rparr>]) = alive ts"
proof -
  have "th_result (ts[i := (ts ! i)\<lparr> th_shutdown := True \<rparr>] ! j) = th_result (ts ! j)"
    if "j < length ts" for j
    using that by (cases "i = j") simp_all
  then show ?thesis by (auto simp: alive_def)
qed

lemma alive_exits: "alive (ts[i := (ts ! i)\<lparr> th_result := Some res \<rparr>]) \<subseteq> alive ts"
proof -
  have "th_result (ts ! j) = None"
    if "j < length ts" "th_result (ts[i := (ts ! i)\<lparr> th_result := Some res \<rparr>] ! j) = None" for j
    using that by (cases "i = j") simp_all
  then show ?thesis by (auto simp: alive_def)
qed

lemma thread_inv_refresh: "thread_inv (s, wait) \<Longrightarrow> thread_inv (thread_refresh s, wait)"
  by (cases "ts_runtime s")
    (auto simp: thread_inv_def thread_refresh_def th_finished_def alive_def Let_def)

lemma thread_inv_exits:
  assumes "thread_inv (s, wait)"
  shows "thread_inv (thread_exits i res s, wait)"
  using assms alive_exits [of "ts_threads s" i res]
  by (auto simp: thread_inv_def thread_exits_def Let_def)

lemma thread_inv_start:
  assumes "thread_inv (s, None)" "thread_start d factory s = (r, s')"
  shows "thread_inv (s', None)"
proof -
  have inv: "thread_inv (thread_refresh s, None)" using assms(1) by (rule thread_inv_refresh)
  show ?thesis
  proof (cases "ts_runtime (thread_refresh s)")
    case None
    with inv assms(2) show ?thesis
      by (cases factory)
        (auto simp: thread_inv_def thread_start_def Let_def alive_spawn split: if_splits)
  qed (use inv assms(2) in \<open>auto simp: thread_start_def Let_def split: if_splits\<close>)
qed

lemma thread_inv_stop_begin:
  assumes "thread_inv (s, None)" "thread_stop_begin d s = (r, s')"
  shows "thread_inv (s', case r of Inl _ \<Rightarrow> None | Inr i \<Rightarrow> Some i)"
proof -
  have inv: "thread_inv (thread_refresh s, None)" using assms(1) by (rule thread_inv_refresh)
  with assms(2) show ?thesis
    by (cases "ts_runtime (thread_refresh s)")
      (auto simp: thread_inv_def thread_stop_begin_def Let_def alive_signal split: if_splits)
qed

lemma thread_inv_stop_end:
  assumes "thread_inv (s, Some i)" "thread_stop_end d i s = (r, s')"
  shows "thread_inv (s', None)"
proof (cases "th_result (ts_threads s ! i)")
  case None
  with assms show ?thesis by (auto simp: thread_inv_def thread_stop_end_def Let_def)
next
  case (Some res)
  then have "i \<notin> alive (ts_threads s)" by (simp add: alive_def)
  with assms(1) have "alive (ts_threads s) = {}" "ts_runtime s = None"
    by (auto simp: thread_inv_def Let_def)
  with assms Some show ?thesis
    by (cases res) (auto simp: thread_inv_def thread_stop_end_def Let_def)
qed

lemma thread_inv_step:
  assumes "thread_step d sw sw'" "thread_inv sw"
  shows "thread_inv sw'"
  using assms
proof (induction rule: thread_step.induct)
  case (ts_stop_returns s r s')
  then show ?case using thread_inv_stop_begin [of s d "Inl r" s'] by simp
next
  case (ts_stop_waits s i s')
  then show ?case using thread_inv_stop_begin [of s d "Inr i" s'] by simp
qed (blast intro: thread_inv_refresh thread_inv_exits thread_inv_start thread_inv_stop_end)+

lemma thread_reach_inv: "(thread_step d)\<^sup>*\<^sup>* (thread_new, None) sw \<Longrightarrow> thread_inv sw"
proof (induction rule: rtranclp_induct)
  case base
  show ?case by (simp add: thread_inv_def thread_new_def alive_def)
next
  case (step sw sw')
  then show ?case using thread_inv_step by blast
qed

lemma live_threads_le_one:
  assumes "thread_inv (s, wait)"
  shows "length (live_threads s) \<le> 1"
proof -
  have "alive (ts_threads s) \<subseteq> {the (case wait of None \<Rightarrow> ts_runtime s | Some i \<Rightarrow> Some i)}"
    using assms by (cases wait; cases "ts_runtime s") (auto simp: thread_inv_def Let_def)
  then have "card (set (live_threads s)) \<le> 1"
    unfolding set_live_threads
    by (metis card.empty card_1_singleton_iff le_numeral_extra(4) One_nat_def subset_singletonD zero_le)
  moreover have "distinct (live_threads s)" by (simp add: live_threads_def)
  ultimately show ?thesis by (simp add: distinct_card)
qed

section \<open>Properties of callback resources\<close>

text \<open>
  C32. Concurrent lifecycle calls on a callback service never overlap: in every state reachable
  from a fresh service, by any number of threads calling start and stop with callbacks that
  return, fail or panic, at most one callback is running.
\<close>
theorem callback_lifecycle_exclusive:
  "(callback_step d)\<^sup>*\<^sup>* (callback_new, []) (s, fl) \<Longrightarrow> length fl \<le> 1"
proof (drule rtranclp_induct [where P = callback_inv])
  show "callback_inv (callback_new, [])" by (simp add: callback_inv_def callback_new_def)
qed (auto simp: callback_inv_def dest: callback_inv_step split: if_splits)

text \<open>
  A stop callback that fails or panics orphans the instance for good: the call reports the
  failure, and in every state reachable afterwards the instance is still orphaned and every
  start is refused with \<open>ServiceOrphaned\<close> (or because another call is in flight) without
  running the start callback.
\<close>
lemma callback_orphan_permanent:
  assumes "cs_runtime_state (cb_state s) \<noteq> R_Orphaned" "res \<noteq> CB_Ok"
    and "callback_stop_end d res s = (r, s1)" "(callback_step d)\<^sup>*\<^sup>* (s1, fl) (s2, fl')"
    and "activation d = A_Enabled"
  shows "(\<exists>reason. r = Err (ServiceFailure (name d) reason)) \<and>
    callback_runtime_state s2 = R_Orphaned \<and>
    (\<exists>e. fst (callback_start_begin d s2) = Some (Err e) \<and>
       (e = ServiceOrphaned (name d) \<or> lifecycle_held s2))"
proof -
  have s1: "cs_runtime_state (cb_state s1) = R_Orphaned"
    and r: "\<exists>reason. r = Err (ServiceFailure (name d) reason)"
    using assms(1-3) by (auto simp: callback_defs Let_def split: if_splits callback_result.splits)
  have "cb_state s2 = cb_state s1"
    using assms(4)
    by (induction "(s2, fl')" arbitrary: s2 fl' rule: rtranclp_induct)
      (use s1 callback_orphan_step in \<open>fastforce\<close>)+
  with s1 r assms(5) show ?thesis
    by (simp add: callback_defs callback_runtime_state_def)
qed

text \<open>A fresh callback service whose first stop panics is orphaned and refuses to start.\<close>
lemma callback_orphan_permanent_witness:
  "callback_runtime_state (snd (callback_stop_end (sample_descriptor ''db'' []) CB_Panic callback_new)) = R_Orphaned"
proof -
  let ?d = "sample_descriptor ''db'' []"
  let ?r = "callback_stop_end ?d CB_Panic callback_new"
  have "cs_runtime_state (cb_state callback_new) \<noteq> R_Orphaned" by (simp add: callback_new_def)
  moreover have "activation ?d = A_Enabled" by (simp add: sample_descriptor_def)
  ultimately show ?thesis
    using callback_orphan_permanent [of callback_new CB_Panic ?d "fst ?r" "snd ?r" "[]" "snd ?r" "[]"]
    by simp
qed

text \<open>One thread entering a start callback.\<close>
lemma callback_lifecycle_exclusive_witness:
  "(callback_step (sample_descriptor ''db'' []))\<^sup>*\<^sup>* (callback_new, [])
     (snd (callback_start_begin (sample_descriptor ''db'' []) callback_new), [True]) \<and> length [True] \<le> 1"
proof -
  let ?d = "sample_descriptor ''db'' []"
  have "callback_start_begin ?d callback_new = (None, snd (callback_start_begin ?d callback_new))"
    by (simp add: callback_defs sample_descriptor_def callback_new_def)
  then have run: "(callback_step ?d)\<^sup>*\<^sup>* (callback_new, []) (snd (callback_start_begin ?d callback_new), [True])"
    by (intro r_into_rtranclp callback_step.cb_start_enters) 
  with callback_lifecycle_exclusive [OF run] show ?thesis by blast
qed

section \<open>Properties of supervised threads\<close>

text \<open>
  C33. A supervised thread used by one caller at a time never has two live instances: in every
  state reachable from a fresh adapter, whatever its factory does, however its threads exit
  and however often stops time out, at most one of the threads it created is running.
\<close>
theorem thread_single_instance:
  "(thread_step d)\<^sup>*\<^sup>* (thread_new, None) (s, wait) \<Longrightarrow> length (live_threads s) \<le> 1"
  by (rule live_threads_le_one, erule thread_reach_inv)

text \<open>A start whose factory spawns a thread leaves exactly that thread live.\<close>
lemma thread_single_instance_witness:
  "live_threads (snd (thread_start (sample_descriptor ''w'' []) (Inr ()) thread_new)) = [0]
   \<and> length (live_threads (snd (thread_start (sample_descriptor ''w'' []) (Inr ()) thread_new))) \<le> 1"
proof -
  let ?d = "sample_descriptor ''w'' []" let ?r = "thread_start ?d (Inr ()) thread_new"
  have run: "(thread_step ?d)\<^sup>*\<^sup>* (thread_new, None) (snd ?r, None)"
    by (rule r_into_rtranclp, rule thread_step.ts_start [where factory = "Inr ()" and r = "fst ?r"]) simp
  have "live_threads (snd ?r) = [0]"
    by (simp add: thread_start_def thread_refresh_def thread_new_def sample_descriptor_def
        live_threads_def th_finished_def Let_def upt_rec)
  with thread_single_instance [OF run] show ?thesis by simp
qed

text \<open>
  Nothing in the adapter enforces that discipline: a start that another thread issues while a
  stop waits for the old instance is accepted, and two instances run at once. When the stop
  then times out, it replaces the handle of the new instance by that of the old one.
\<close>
lemma thread_start_during_stop_overlaps:
  fixes d defines "s1 \<equiv> snd (thread_start (sample_descriptor d []) (Inr ()) thread_new)"
  defines "s2 \<equiv> snd (thread_stop_begin (sample_descriptor d []) s1)"
  defines "s3 \<equiv> snd (thread_start (sample_descriptor d []) (Inr ()) s2)"
  shows "fst (thread_stop_begin (sample_descriptor d []) s1) = Inr 0"
    and "fst (thread_start (sample_descriptor d []) (Inr ()) s2) = Ok ()"
    and "live_threads s3 = [0, 1]" and "ts_runtime s3 = Some 1"
    and "ts_runtime (snd (thread_stop_end (sample_descriptor d []) 0 s3)) = Some 0"
  by (simp_all add: s1_def s2_def s3_def thread_start_def thread_refresh_def thread_new_def
      thread_stop_begin_def thread_stop_end_def sample_descriptor_def live_threads_def
      th_finished_def Let_def upt_rec)

end
