(* ===== verification/Sup_Executor.thy ===== *)
theory Sup_Executor
  imports Sup_Adapters
begin

text \<open>
  The bounded restart executor (\<open>restart_executor.rs\<close>): a bounded command queue, a fixed set
  of worker threads, and a bounded completion queue. A worker is modelled by its program
  counter in \<open>restart_worker\<close>, and a call of \<open>schedule\<close>, \<open>drain_completions\<close> or \<open>shutdown\<close> by
  the thread that makes it; one step of either is one access to shared state, so that their
  steps interleave freely (theory \<open>Sup_Concurrency\<close>). \<open>executor_schedule\<close> and the functions
  beside it are those threads run with nothing in between. A callback that panics leaves an
  arbitrary world behind, as \<open>catch_unwind\<close> does. Lock poisoning, which needs a panic while a
  lock is held, cannot arise because callbacks run without locks.
\<close>

datatype restart_state =
  RS_None | RS_Scheduled u64 | RS_Stopping | RS_Starting | RS_Backoff | RS_Failed

datatype restart_outcome = RO_Restarted | RO_Orphaned | RO_Failed | RO_Cancelled

record 'w restart_command =
  cmd_service :: "'w managed_service"
  cmd_attempt :: u64

record restart_completion =
  rc_service_id :: string
  rc_attempt :: u64
  rc_outcome :: restart_outcome

datatype 'w worker =
    Wk_Check
  | Wk_Recv
  | Wk_Exec "'w restart_command"
  | Wk_Stopped "'w restart_command" "unit supervisor_result"
  | Wk_Starting "'w restart_command"
  | Wk_Send restart_completion
  | Wk_Deliver restart_completion
  | Wk_Dec
  | Wk_Done

record 'w executor =
  sender_open :: bool
  commands :: "'w restart_command list"
  completions :: "restart_completion list"
  workers :: "'w worker list"
  handles_held :: bool
  cancellation :: bool
  ex_healthy :: bool
  pending :: u64
  queue_capacity :: nat
  worker_count :: nat

definition DEFAULT_RESTART_QUEUE_CAPACITY :: nat where "DEFAULT_RESTART_QUEUE_CAPACITY = 64"
definition DEFAULT_RESTART_WORKERS :: nat where "DEFAULT_RESTART_WORKERS = 2"

definition completion_capacity :: "'w executor \<Rightarrow> nat" where
  "completion_capacity ex = min (queue_capacity ex + worker_count ex) (2 ^ 64 - 1)"

text \<open>\<open>spawn_ok\<close> says which of the worker threads the operating system could create.\<close>

definition spawn_workers :: "nat \<Rightarrow> (nat \<Rightarrow> bool) \<Rightarrow> 'w worker list \<times> bool" where
  "spawn_workers count spawn_ok =
     (map (\<lambda>_. Wk_Check) (filter spawn_ok [0..<count]), list_all spawn_ok [0..<count])"

definition executor_new :: "nat \<Rightarrow> nat \<Rightarrow> (nat \<Rightarrow> bool) \<Rightarrow> 'w executor" where
  "executor_new capacity count spawn_ok =
     (let qc = max capacity 1; wc = max count 1; (ws, ok) = spawn_workers wc spawn_ok
      in \<lparr> sender_open = True, commands = [], completions = [], workers = ws, handles_held = True,
           cancellation = False, ex_healthy = ok, pending = 0,
           queue_capacity = qc, worker_count = wc \<rparr>)"

definition worker_finished :: "'w worker \<Rightarrow> bool" where
  "worker_finished wk = (case wk of Wk_Done \<Rightarrow> True | _ \<Rightarrow> False)"

definition workers_finished :: "'w executor \<Rightarrow> bool" where
  "workers_finished ex \<longleftrightarrow> \<not> handles_held ex \<or> list_all worker_finished (workers ex)"

section \<open>Calls of the executor, one access at a time\<close>

text \<open>
  Where a thread that called the executor is. \<open>schedule\<close> runs from \<open>Th_Load\<close> to \<open>Th_Returned\<close>,
  and holds the lock of the sender from \<open>Th_Count\<close> to \<open>Th_Unlock\<close>; \<open>drain_completions\<close> runs
  from \<open>Th_Drain\<close> to \<open>Th_Drained\<close>, and \<open>shutdown\<close> from \<open>Th_Cancel\<close> to \<open>Th_Closed\<close>.
\<close>

datatype 'w caller =
    Th_Load "'w restart_command"
  | Th_Lock "'w restart_command"
  | Th_Count "'w restart_command"
  | Th_Send "'w restart_command"
  | Th_Withdraw
  | Th_Unlock "unit supervisor_result"
  | Th_Returned "unit supervisor_result"
  | Th_Drain "restart_completion list"
  | Th_Drained "restart_completion list"
  | Th_Cancel
  | Th_Take
  | Th_Wait
  | Th_Join
  | Th_Commands bool
  | Th_Completions bool
  | Th_Reset bool
  | Th_Unhealthy bool
  | Th_Closed bool

text \<open>
  One access of a calling thread to the shared state: the executor and whether the lock of the
  sender is taken. A thread that needs a taken lock waits. \<open>late\<close> says that the deadline of
  \<open>shutdown\<close> has passed when its loop looks at the clock. The executor keeps the receiver of
  the commands, so \<open>try_send\<close> never finds it disconnected. The locks of the two receivers are
  not modelled: without them the threads only interleave more.
\<close>

fun caller_access :: "bool \<Rightarrow> 'w caller \<Rightarrow> 'w executor \<times> bool \<Rightarrow> 'w caller \<times> 'w executor \<times> bool" where
  "caller_access late (Th_Load cmd) (ex, locked) =
     (if cancellation ex then (Th_Returned (Err RestartExecutorStopped), ex, locked)
      else (Th_Lock cmd, ex, locked))"
| "caller_access late (Th_Lock cmd) (ex, locked) =
     (if locked then (Th_Lock cmd, ex, locked)
      else if \<not> sender_open ex then (Th_Returned (Err RestartExecutorStopped), ex, locked)
      else (Th_Count cmd, ex, True))"
| "caller_access late (Th_Count cmd) (ex, locked) =
     (Th_Send cmd, ex\<lparr> pending := pending ex + 1 \<rparr>, locked)"
| "caller_access late (Th_Send cmd) (ex, locked) =
     (if length (commands ex) < queue_capacity ex
      then (Th_Unlock (Ok ()), ex\<lparr> commands := commands ex @ [cmd] \<rparr>, locked)
      else (Th_Withdraw, ex, locked))"
| "caller_access late Th_Withdraw (ex, locked) =
     (Th_Unlock (Err RestartQueueFull), ex\<lparr> pending := pending ex - 1 \<rparr>, locked)"
| "caller_access late (Th_Unlock r) (ex, locked) = (Th_Returned r, ex, False)"
| "caller_access late (Th_Returned r) (ex, locked) = (Th_Returned r, ex, locked)"
| "caller_access late (Th_Drain got) (ex, locked) =
     (case completions ex of
        [] \<Rightarrow> (Th_Drained got, ex, locked)
      | c # cs \<Rightarrow> (Th_Drain (got @ [c]), ex\<lparr> completions := cs \<rparr>, locked))"
| "caller_access late (Th_Drained got) (ex, locked) = (Th_Drained got, ex, locked)"
| "caller_access late Th_Cancel (ex, locked) = (Th_Take, ex\<lparr> cancellation := True \<rparr>, locked)"
| "caller_access late Th_Take (ex, locked) =
     (if locked then (Th_Take, ex, locked) else (Th_Wait, ex\<lparr> sender_open := False \<rparr>, locked))"
| "caller_access late Th_Wait (ex, locked) =
     (if late \<or> workers_finished ex then (Th_Join, ex, locked) else (Th_Wait, ex, locked))"
| "caller_access late Th_Join (ex, locked) =
     (Th_Commands (workers_finished ex), ex\<lparr> handles_held := False \<rparr>, locked)"
| "caller_access late (Th_Commands all) (ex, locked) =
     (case commands ex of
        [] \<Rightarrow> (Th_Completions all, ex, locked)
      | c # cs \<Rightarrow> (Th_Commands all, ex\<lparr> commands := cs \<rparr>, locked))"
| "caller_access late (Th_Completions all) (ex, locked) =
     (case completions ex of
        [] \<Rightarrow> (Th_Reset all, ex, locked)
      | c # cs \<Rightarrow> (Th_Completions all, ex\<lparr> completions := cs \<rparr>, locked))"
| "caller_access late (Th_Reset all) (ex, locked) = (Th_Unhealthy all, ex\<lparr> pending := 0 \<rparr>, locked)"
| "caller_access late (Th_Unhealthy all) (ex, locked) =
     (Th_Closed all, ex\<lparr> ex_healthy := False \<rparr>, locked)"
| "caller_access late (Th_Closed all) (ex, locked) = (Th_Closed all, ex, locked)"

fun caller_run :: "nat \<Rightarrow> bool \<Rightarrow> 'w caller \<Rightarrow> 'w executor \<times> bool \<Rightarrow> 'w caller \<times> 'w executor \<times> bool" where
  "caller_run 0 late t sh = (t, sh)"
| "caller_run (Suc k) late t sh = (case caller_access late t sh of (t', sh') \<Rightarrow> caller_run k late t' sh')"

section \<open>Undisturbed calls\<close>

text \<open>
  \<open>schedule\<close> as its caller sees it when no other thread comes in between, which is how the
  supervisor, whose methods need exclusive access, is modelled to use it: at most six accesses,
  with the lock of the sender free.
\<close>

definition executor_schedule :: "'w restart_command \<Rightarrow> ('w executor, supervisor_error, unit) eff" where
  "executor_schedule cmd ex =
     (case caller_run 6 False (Th_Load cmd) (ex, False) of
        (t, ex', _) \<Rightarrow> (case t of Th_Returned r \<Rightarrow> r | _ \<Rightarrow> Err RestartExecutorStopped, ex'))"

lemma caller_run_numeral [simp]:
  "caller_run (numeral k) late t sh =
     (case caller_access late t sh of (t', sh') \<Rightarrow> caller_run (pred_numeral k) late t' sh')"
  by (simp add: numeral_eq_Suc)

text \<open>Six accesses are enough: the call has returned, and the lock is free again.\<close>

lemma executor_schedule_returns:
  "\<exists>r ex'. caller_run 6 False (Th_Load cmd) (ex, False) = (Th_Returned r, ex', False)"
  by simp

lemma executor_schedule_eq:
  "executor_schedule cmd ex =
     (if cancellation ex \<or> \<not> sender_open ex then (Err RestartExecutorStopped, ex)
      else if length (commands ex) < queue_capacity ex
      then (Ok (), ex\<lparr> pending := pending ex + 1, commands := commands ex @ [cmd] \<rparr>)
      else (Err RestartQueueFull, ex))"
  by (simp add: executor_schedule_def)

definition drain_completions :: "'w executor \<Rightarrow> restart_completion list \<times> 'w executor" where
  "drain_completions ex = (completions ex, ex\<lparr> completions := [] \<rparr>)"

record executor_snapshot =
  es_healthy :: bool
  es_pending :: u64
  es_queue_capacity :: nat
  es_worker_count :: nat

definition snapshot_executor :: "'w executor \<Rightarrow> executor_snapshot" where
  "snapshot_executor ex =
     (let workers_healthy = (\<not> handles_held ex \<or> list_all (\<lambda>wk. \<not> worker_finished wk) (workers ex))
      in \<lparr> es_healthy = (ex_healthy ex \<and> workers_healthy \<and> \<not> cancellation ex),
           es_pending = pending ex, es_queue_capacity = queue_capacity ex,
           es_worker_count = worker_count ex \<rparr>)"

text \<open>
  \<open>shutdown\<close> first closes the executor, waits (bounded by its timeout) while the workers run
  on, and then drops whatever is left; workers that are still busy are detached.
\<close>

definition executor_shutdown_begin :: "'w executor \<Rightarrow> 'w executor" where
  "executor_shutdown_begin ex = ex\<lparr> cancellation := True, sender_open := False \<rparr>"

definition executor_shutdown_finish :: "'w executor \<Rightarrow> bool \<times> 'w executor" where
  "executor_shutdown_finish ex =
     (workers_finished ex,
      ex\<lparr> handles_held := False, commands := [], completions := [], pending := 0, ex_healthy := False \<rparr>)"

section \<open>Worker threads\<close>

text \<open>
  The part of \<open>execute_restart\<close> after the stop callback has returned, and the whole of it as
  it runs when no other thread interferes.
\<close>

definition execute_outcome :: "'w restart_command \<Rightarrow> unit supervisor_result \<Rightarrow> bool \<Rightarrow> 'w \<Rightarrow>
    restart_outcome \<times> 'w" where
  "execute_outcome cmd stopped cancelled w =
     (case stopped of
        Inl _ \<Rightarrow> (case svc_runtime_state (cmd_service cmd) w of
            (r, w1) \<Rightarrow> (if r = R_Orphaned then RO_Orphaned else RO_Failed, w1))
      | Inr _ \<Rightarrow> if cancelled then (RO_Cancelled, w)
          else (case svc_start (cmd_service cmd) w of
              (Inr _, w1) \<Rightarrow> (RO_Restarted, w1)
            | (Inl _, w1) \<Rightarrow> (RO_Failed, w1)))"

definition command_completion :: "'w restart_command \<Rightarrow> restart_outcome \<Rightarrow> restart_completion" where
  "command_completion cmd out = \<lparr> rc_service_id = name (descriptor (cmd_service cmd)),
     rc_attempt = cmd_attempt cmd, rc_outcome = out \<rparr>"

definition execute_restart :: "'w restart_command \<Rightarrow> bool \<Rightarrow> 'w \<Rightarrow> restart_completion \<times> 'w" where
  "execute_restart cmd cancelled w =
     (let svc = cmd_service cmd; (stopped, w1) = svc_stop svc (shutdown_timeout (policy (descriptor svc))) w;
          (out, w2) = execute_outcome cmd stopped cancelled w1
      in (command_completion cmd out, w2))"

definition decrement_pending :: "'w executor \<Rightarrow> 'w executor" where
  "decrement_pending ex = ex\<lparr> pending := sat_sub (pending ex) 1 \<rparr>"

text \<open>
  The \<open>try_send\<close> of \<open>send_completion\<close>: deliver when there is room. The completion receiver
  lives as long as the executor, so it is never disconnected.
\<close>

definition try_deliver :: "restart_completion \<Rightarrow> 'w executor \<Rightarrow> bool \<times> 'w executor" where
  "try_deliver c ex =
     (if length (completions ex) < completion_capacity ex
      then (True, ex\<lparr> completions := completions ex @ [c] \<rparr>)
      else (False, ex))"

definition set_worker :: "nat \<Rightarrow> 'w worker \<Rightarrow> 'w executor \<Rightarrow> 'w executor" where
  "set_worker i wk ex = ex\<lparr> workers := (workers ex)[i := wk] \<rparr>"

text \<open>
  \<open>restart_worker\<close>, one step of worker \<open>i\<close>: one access to the shared state or one callback.
  After a successful stop (\<open>Wk_Stopped\<close>) the worker looks at the cancellation flag, and starts
  the service in a step of its own (\<open>Wk_Starting\<close>); \<open>send_completion\<close> looks at the flag
  (\<open>Wk_Send\<close>), tries to deliver (\<open>Wk_Deliver\<close>) and starts over when the queue is full.
  \<open>panic = Some w'\<close> says that the callback this step runs panics and leaves the world \<open>w'\<close>;
  it is read only by the steps that run one.
\<close>

definition worker_step :: "nat \<Rightarrow> 'w option \<Rightarrow> 'w executor \<times> 'w \<Rightarrow> 'w executor \<times> 'w" where
  "worker_step i panic exw = (case exw of (ex, w) \<Rightarrow>
     if length (workers ex) \<le> i then (ex, w) else
     (case workers ex ! i of
        Wk_Check \<Rightarrow> (set_worker i (if cancellation ex then Wk_Done else Wk_Recv) ex, w)
      | Wk_Recv \<Rightarrow> (case commands ex of
            [] \<Rightarrow> (set_worker i (if sender_open ex then Wk_Check else Wk_Done) ex, w)
          | c # cs \<Rightarrow> (set_worker i (Wk_Exec c) (ex\<lparr> commands := cs \<rparr>), w))
      | Wk_Exec c \<Rightarrow> (case panic of
            Some w' \<Rightarrow> (set_worker i (Wk_Send (command_completion c RO_Failed)) ex, w')
          | None \<Rightarrow> (case svc_stop (cmd_service c)
                (shutdown_timeout (policy (descriptor (cmd_service c)))) w of
              (r, w') \<Rightarrow> (set_worker i (Wk_Stopped c r) ex, w')))
      | Wk_Stopped c (Inr _) \<Rightarrow> (set_worker i (if cancellation ex
            then Wk_Send (command_completion c RO_Cancelled) else Wk_Starting c) ex, w)
      | Wk_Stopped c (Inl _) \<Rightarrow> (case panic of
            Some w' \<Rightarrow> (set_worker i (Wk_Send (command_completion c RO_Failed)) ex, w')
          | None \<Rightarrow> (case svc_runtime_state (cmd_service c) w of
              (r, w') \<Rightarrow> (set_worker i (Wk_Send (command_completion c
                 (if r = R_Orphaned then RO_Orphaned else RO_Failed))) ex, w')))
      | Wk_Starting c \<Rightarrow> (case panic of
            Some w' \<Rightarrow> (set_worker i (Wk_Send (command_completion c RO_Failed)) ex, w')
          | None \<Rightarrow> (case svc_start (cmd_service c) w of
              (Inr _, w') \<Rightarrow> (set_worker i (Wk_Send (command_completion c RO_Restarted)) ex, w')
            | (Inl _, w') \<Rightarrow> (set_worker i (Wk_Send (command_completion c RO_Failed)) ex, w')))
      | Wk_Send c \<Rightarrow> (set_worker i (if cancellation ex then Wk_Dec else Wk_Deliver c) ex, w)
      | Wk_Deliver c \<Rightarrow> (case try_deliver c ex of
            (delivered, ex1) \<Rightarrow> (set_worker i (if delivered then Wk_Dec else Wk_Send c) ex1, w))
      | Wk_Dec \<Rightarrow> (set_worker i Wk_Check (decrement_pending ex), w)
      | Wk_Done \<Rightarrow> (ex, w)))"

text \<open>Undisturbed, the two or three steps of a worker are exactly \<open>execute_restart\<close>.\<close>

lemma worker_steps_execute_restart:
  assumes "i < length (workers ex)" "workers ex ! i = Wk_Exec c"
  shows "\<exists>k\<in>{2, 3}. (worker_step i None ^^ k) (ex, w) =
    (case execute_restart c (cancellation ex) w of
       (fin, w') \<Rightarrow> (set_worker i (Wk_Send fin) ex, w'))"
proof -
  let ?svc = "cmd_service c" and ?step = "worker_step i None"
  obtain r w1 where stop: "svc_stop ?svc (shutdown_timeout (policy (descriptor ?svc))) w = (r, w1)"
    by fastforce
  have 1: "?step (ex, w) = (set_worker i (Wk_Stopped c r) ex, w1)"
    using assms stop by (simp add: worker_step_def)
  show ?thesis
  proof (cases "r = Inr () \<and> \<not> cancellation ex")
    case True
    have "?step (set_worker i (Wk_Stopped c r) ex, w1) = (set_worker i (Wk_Starting c) ex, w1)"
      using True assms by (simp add: worker_step_def set_worker_def)
    with 1 True assms stop
    have "(?step ^^ 3) (ex, w) = (case execute_restart c (cancellation ex) w of
       (fin, w') \<Rightarrow> (set_worker i (Wk_Send fin) ex, w'))"
      by (auto simp: numeral_eq_Suc worker_step_def set_worker_def execute_restart_def
          execute_outcome_def split: prod.splits sum.splits)
    then show ?thesis by blast
  next
    case False
    with 1 assms stop
    have "(?step ^^ 2) (ex, w) = (case execute_restart c (cancellation ex) w of
       (fin, w') \<Rightarrow> (set_worker i (Wk_Send fin) ex, w'))"
      by (auto simp: numeral_eq_Suc worker_step_def set_worker_def execute_restart_def
          execute_outcome_def split: prod.splits sum.splits)
    then show ?thesis by blast
  qed
qed

section \<open>Reachable executor states\<close>

inductive executor_step :: "'w executor \<times> 'w \<Rightarrow> 'w executor \<times> 'w \<Rightarrow> bool" where
  step_schedule: "executor_step (ex, w) (snd (executor_schedule cmd ex), w)"
| step_drain: "executor_step (ex, w) (snd (drain_completions ex), w)"
| step_worker: "executor_step exw (worker_step i panic exw)"
| step_shutdown_begin: "executor_step (ex, w) (executor_shutdown_begin ex, w)"
| step_shutdown_finish: "cancellation ex \<Longrightarrow> executor_step (ex, w) (snd (executor_shutdown_finish ex), w)"
| step_world: "executor_step (ex, w) (ex, w')"

inductive_cases executor_stepE: "executor_step exw exw'"

definition busy :: "'w worker \<Rightarrow> bool" where
  "busy wk = (case wk of Wk_Check \<Rightarrow> False | Wk_Recv \<Rightarrow> False | Wk_Done \<Rightarrow> False | _ \<Rightarrow> True)"

lemma busy_simps [simp]:
  "\<not> busy Wk_Check" "\<not> busy Wk_Recv" "\<not> busy Wk_Done"
  "busy (Wk_Exec c)" "busy (Wk_Stopped c r)" "busy (Wk_Starting c)"
  "busy (Wk_Send d)" "busy (Wk_Deliver d)" "busy Wk_Dec"
  by (simp_all add: busy_def)

definition busy_count :: "'w executor \<Rightarrow> nat" where
  "busy_count ex = length (filter busy (workers ex))"

text \<open>
  The counter is exact while the executor accepts work; once closed it never exceeds the
  commands and workers that are left.
\<close>

definition executor_inv :: "'w executor \<Rightarrow> bool" where
  "executor_inv ex \<longleftrightarrow>
     queue_capacity ex + worker_count ex < 2 ^ 64 - 1 \<and>
     length (commands ex) \<le> queue_capacity ex \<and>
     length (workers ex) \<le> worker_count ex \<and>
     length (completions ex) \<le> completion_capacity ex \<and>
     unat (pending ex) \<le> length (commands ex) + busy_count ex \<and>
     (\<not> cancellation ex \<longrightarrow> unat (pending ex) = length (commands ex) + busy_count ex)"

lemma length_filter_update:
  assumes "i < length xs"
  shows "length (filter P (xs[i := x])) + (if P (xs ! i) then 1 else 0) =
    length (filter P xs) + (if P x then 1 else 0)"
proof -
  have "xs = take i xs @ xs ! i # drop (Suc i) xs" using assms by (simp add: id_take_nth_drop)
  then have "filter P xs = filter P (take i xs) @ filter P [xs ! i] @ filter P (drop (Suc i) xs)"
    by (metis append_Cons append_Nil filter_append)
  moreover have "xs[i := x] = take i xs @ x # drop (Suc i) xs"
    using assms by (simp add: upd_conv_take_nth_drop)
  ultimately show ?thesis by simp
qed

lemma busy_count_set_worker:
  assumes "i < length (workers ex)"
  shows "busy_count (set_worker i wk ex) + (if busy (workers ex ! i) then 1 else 0) =
    busy_count ex + (if busy wk then 1 else 0)"
  using length_filter_update [OF assms, of busy wk] by (simp add: busy_count_def set_worker_def)

lemma busy_count_le: "busy_count ex \<le> length (workers ex)"
  by (simp add: busy_count_def)

lemma set_worker_sel [simp]:
  "commands (set_worker i wk ex) = commands ex" "completions (set_worker i wk ex) = completions ex"
  "length (workers (set_worker i wk ex)) = length (workers ex)"
  "cancellation (set_worker i wk ex) = cancellation ex" "pending (set_worker i wk ex) = pending ex"
  "queue_capacity (set_worker i wk ex) = queue_capacity ex"
  "worker_count (set_worker i wk ex) = worker_count ex"
  "sender_open (set_worker i wk ex) = sender_open ex"
  "completion_capacity (set_worker i wk ex) = completion_capacity ex"
  by (simp_all add: set_worker_def completion_capacity_def)

lemma executor_inv_completions:
  assumes "executor_inv ex" "length cs \<le> completion_capacity ex"
  shows "executor_inv (ex\<lparr> completions := cs \<rparr>)"
  using assms by (simp add: executor_inv_def busy_count_def completion_capacity_def)

text \<open>
  What a worker step does to the counters: a command taken makes one worker busy, and the
  pending counter goes down when a worker stops being busy. Nothing else of the executor but
  the queues and the program counter changes.
\<close>

lemma worker_step_counters:
  assumes "worker_step i panic (ex, w) = (ex', w')"
  shows "pending ex' = pending ex \<and>
      length (commands ex') + busy_count ex' = length (commands ex) + busy_count ex \<or>
    pending ex' = sat_sub (pending ex) 1 \<and>
      length (commands ex') + busy_count ex' + 1 = length (commands ex) + busy_count ex"
proof (cases "length (workers ex) \<le> i")
  case True
  with assms show ?thesis by (simp add: worker_step_def)
next
  case False
  then have i: "i < length (workers ex)" by simp
  have bc [simp]: "busy_count (ex\<lparr> commands := cs \<rparr>) = busy_count ex"
    "busy_count (ex\<lparr> completions := ds \<rparr>) = busy_count ex"
    "busy_count (decrement_pending ex) = busy_count ex" for cs ds
    by (simp_all add: busy_count_def decrement_pending_def)
  note step = assms [symmetric, unfolded worker_step_def]
  have keep: "busy_count (set_worker i wk ex1) = busy_count ex"
    if "busy wk = busy (workers ex ! i)" "workers ex1 = workers ex" for wk ex1
    using busy_count_set_worker [of i ex1 wk] i that by (simp add: busy_count_def split: if_splits)
  show ?thesis
  proof (cases "workers ex ! i")
    case Wk_Check
    with i step keep show ?thesis by auto
  next
    case Wk_Recv
    show ?thesis
    proof (cases "commands ex")
      case Nil
      with i step Wk_Recv keep show ?thesis by auto
    next
      case (Cons c cs)
      have "busy_count (set_worker i (Wk_Exec c) (ex\<lparr> commands := cs \<rparr>)) = Suc (busy_count ex)"
        using busy_count_set_worker [of i "ex\<lparr> commands := cs \<rparr>" "Wk_Exec c"] i Wk_Recv by simp
      with i step Wk_Recv Cons show ?thesis by simp
    qed
  next
    case (Wk_Exec c)
    with i step keep show ?thesis by (auto split: option.splits prod.splits)
  next
    case (Wk_Stopped c r)
    with i step keep show ?thesis by (auto split: option.splits prod.splits sum.splits)
  next
    case (Wk_Starting c)
    with i step keep show ?thesis by (auto split: option.splits prod.splits sum.splits)
  next
    case (Wk_Send c)
    with i step keep show ?thesis by auto
  next
    case (Wk_Deliver c)
    with i step keep show ?thesis by (auto simp: try_deliver_def split: if_splits)
  next
    case Wk_Dec
    have "busy_count (set_worker i Wk_Check (decrement_pending ex)) + 1 = busy_count ex"
      using busy_count_set_worker [of i "decrement_pending ex" Wk_Check] i Wk_Dec
      by (simp add: decrement_pending_def busy_count_def)
    with i step Wk_Dec show ?thesis by (simp add: decrement_pending_def)
  next
    case Wk_Done
    with i step keep show ?thesis by auto
  qed
qed

lemma worker_step_frame:
  assumes "worker_step i panic (ex, w) = (ex', w')"
  shows "length (commands ex') \<le> length (commands ex)" "length (workers ex') = length (workers ex)"
    "length (completions ex) \<le> completion_capacity ex \<Longrightarrow> length (completions ex') \<le> completion_capacity ex"
    "queue_capacity ex' = queue_capacity ex" "worker_count ex' = worker_count ex"
    "cancellation ex' = cancellation ex" "sender_open ex' = sender_open ex"
    "handles_held ex' = handles_held ex"
  using assms by (auto simp: worker_step_def try_deliver_def decrement_pending_def set_worker_def
      split: worker.splits option.splits list.splits sum.splits prod.splits if_splits)

lemma executor_inv_schedule:
  assumes inv: "executor_inv ex"
  shows "executor_inv (snd (executor_schedule cmd ex))"
proof -
  have "unat (pending ex) \<le> queue_capacity ex + worker_count ex"
    using inv busy_count_le [of ex] by (auto simp: executor_inv_def)
  then have lt: "unat (pending ex) + 1 < 2 ^ 64" using inv by (simp add: executor_inv_def)
  then have "unat (pending ex + 1) = unat (pending ex) + 1"
    by (simp add: unat_word_ariths)
  with inv show ?thesis
    by (auto simp: executor_schedule_eq executor_inv_def busy_count_def completion_capacity_def)
qed

lemma executor_inv_worker_step:
  assumes inv: "executor_inv ex" and st: "worker_step i panic (ex, w) = (ex', w')"
  shows "executor_inv ex'"
  using worker_step_frame [OF st] worker_step_counters [OF st] inv
  by (auto simp: executor_inv_def completion_capacity_def unat_sat_sub)

lemma executor_inv_step:
  assumes "executor_step exw exw'" "executor_inv (fst exw)"
  shows "executor_inv (fst exw')"
  using assms
proof (induction rule: executor_step.induct)
  case (step_worker exw i panic)
  then show ?case
    using executor_inv_worker_step [of "fst exw" i panic "snd exw"]
    by (metis prod.collapse)
next
  case (step_schedule ex w cmd)
  then show ?case by (simp add: executor_inv_schedule)
qed (auto simp: drain_completions_def executor_inv_completions executor_shutdown_begin_def
    executor_shutdown_finish_def executor_inv_def busy_count_def
    completion_capacity_def)

lemma executor_capacity_step:
  assumes "executor_step exw exw'"
  shows "queue_capacity (fst exw') = queue_capacity (fst exw) \<and>
    worker_count (fst exw') = worker_count (fst exw)"
  using assms
proof (induction rule: executor_step.induct)
  case (step_worker exw i panic)
  then show ?case
    using worker_step_frame [of i panic "fst exw" "snd exw"] by (metis prod.collapse)
qed (auto simp: executor_schedule_eq drain_completions_def executor_shutdown_begin_def
    executor_shutdown_finish_def)

lemma executor_reach_inv:
  assumes "executor_step\<^sup>*\<^sup>* exw exw'" "executor_inv (fst exw)"
  shows "executor_inv (fst exw') \<and> queue_capacity (fst exw') = queue_capacity (fst exw) \<and>
    worker_count (fst exw') = worker_count (fst exw)"
  using assms
  by (induction rule: rtranclp_induct) (auto dest: executor_inv_step executor_capacity_step)

lemma executor_inv_new:
  assumes "max c 1 + max n 1 < 2 ^ 64 - 1"
  shows "executor_inv (executor_new c n ok)"
proof -
  have "length (filter ok [0..<max n 1]) \<le> max n 1"
    by (metis length_filter_le length_upt minus_nat.diff_0)
  with assms show ?thesis
    by (simp add: executor_inv_def executor_new_def spawn_workers_def busy_count_def
        completion_capacity_def Let_def comp_def)
qed

text \<open>A command for a passive worker, the concrete input of the witnesses.\<close>

definition sample_command :: "callback_state restart_command" where
  "sample_command = \<lparr> cmd_service = passive_service id (\<lambda>s _. s) (sample_descriptor ''w'' []),
     cmd_attempt = 1 \<rparr>"

text \<open>
  Cancellation is final for restarts: once the executor is cancelled, a worker step never
  starts a service again unless the worker had looked at the flag before (\<open>Wk_Starting\<close>); it
  leaves the world as it is except for the stop callback of a command it already held and the
  state query after a failed stop; and no new command is accepted.
\<close>
lemma cancelled_executor_starts_nothing:
  "cancellation ex \<Longrightarrow>
     executor_schedule cmd ex = (Err RestartExecutorStopped, ex) \<and>
     cancellation (fst (worker_step i None (ex, w))) \<and>
     (snd (worker_step i None (ex, w)) = w \<or>
      (\<exists>c. i < length (workers ex) \<and> workers ex ! i = Wk_Exec c \<and>
         snd (worker_step i None (ex, w)) =
           snd (svc_stop (cmd_service c) (shutdown_timeout (policy (descriptor (cmd_service c)))) w)) \<or>
      (\<exists>c e. i < length (workers ex) \<and> workers ex ! i = Wk_Stopped c (Inl e) \<and>
         snd (worker_step i None (ex, w)) = snd (svc_runtime_state (cmd_service c) w)) \<or>
      (\<exists>c. i < length (workers ex) \<and> workers ex ! i = Wk_Starting c \<and>
         snd (worker_step i None (ex, w)) = snd (svc_start (cmd_service c) w)))"
  by (auto simp: executor_schedule_eq worker_step_def try_deliver_def
      decrement_pending_def set_worker_def
      split: prod.splits worker.splits list.splits sum.splits)

text \<open>A cancelled executor with a worker in mid-restart: the stopped service is not started.\<close>
lemma cancelled_executor_witness:
  "snd (worker_step 0 None
     ((executor_new 1 1 (\<lambda>_. True))\<lparr> cancellation := True, workers := [Wk_Stopped sample_command (Inr ())] \<rparr>,
      passive_new)) = passive_new"
  using cancelled_executor_starts_nothing
    [of "(executor_new 1 1 (\<lambda>_. True))\<lparr> cancellation := True, workers := [Wk_Stopped sample_command (Inr ())] \<rparr>"
      sample_command 0 passive_new]
  by simp

end
