(* ===== verification/Supervisor.thy ===== *)
theory Supervisor
  imports Sup_Graph Sup_Watchdog Sup_Executor
begin

text \<open>
  The supervisor itself (\<open>supervisor.rs\<close>, \<open>supervisor_lifecycle.rs\<close>, \<open>supervisor_restart.rs\<close>,
  \<open>supervisor_diagnostics.rs\<close>, \<open>snapshot.rs\<close>): registration, dependency-checked start,
  reconciliation, restart scheduling under a temporal budget, quarantine, shutdown and
  diagnosis. The state record holds what \<open>SupervisorInner\<close> holds plus the world the managed
  services live in; every method is a fallible state transformer that keeps what it wrote
  before an error, as the source does. Methods are atomic here: the source takes its locks
  for each access only, and the executor, whose workers do interleave, has its own step
  relation. Lock poisoning needs a panic under a lock and is not modelled.
\<close>

record runtime_record =
  rr_health :: "service_health option"
  rr_runtime_state :: service_runtime_state
  rr_restart_state :: restart_state
  rr_restart_times :: "u64 list"
  rr_restart_count :: u64
  rr_operator_required :: bool
  rr_quarantined :: bool

definition runtime_record_default :: runtime_record where
  "runtime_record_default = \<lparr> rr_health = None, rr_runtime_state = R_Stopped,
     rr_restart_state = RS_None, rr_restart_times = [], rr_restart_count = 0,
     rr_operator_required = False, rr_quarantined = False \<rparr>"

record 'w supervisor =
  services :: "'w services"
  records :: "(string, runtime_record) omap"
  events :: "supervisor_event list"
  event_capacity :: nat
  event_sequence :: u64
  jitter_state :: u64
  sup_watchdog :: watchdog
  restart_executor :: "'w executor"
  world :: 'w

type_synonym ('w, 'a) sup = "('w supervisor, supervisor_error, 'a) eff"

definition DEFAULT_EVENT_CAPACITY :: nat where "DEFAULT_EVENT_CAPACITY = 1024"

definition supervisor_assemble :: "nat \<Rightarrow> u64 \<Rightarrow> watchdog \<Rightarrow> (nat \<Rightarrow> bool) \<Rightarrow> 'w \<Rightarrow> 'w supervisor" where
  "supervisor_assemble cap created wd spawn_ok w = \<lparr> services = [], records = [], events = [],
     event_capacity = max cap 1, event_sequence = 0, jitter_state = max created 1,
     sup_watchdog = wd,
     restart_executor = executor_new DEFAULT_RESTART_QUEUE_CAPACITY DEFAULT_RESTART_WORKERS spawn_ok,
     world = w \<rparr>"

definition supervisor_new :: "u64 \<Rightarrow> (nat \<Rightarrow> bool) \<Rightarrow> 'w \<Rightarrow> 'w supervisor" where
  "supervisor_new now spawn_ok w =
     supervisor_assemble DEFAULT_EVENT_CAPACITY now (watchdog_with_default now) spawn_ok w"

definition supervisor_with_event_capacity :: "nat \<Rightarrow> u64 \<Rightarrow> (nat \<Rightarrow> bool) \<Rightarrow> 'w \<Rightarrow> 'w supervisor" where
  "supervisor_with_event_capacity cap now spawn_ok w =
     supervisor_assemble cap now (watchdog_with_default now) spawn_ok w"

definition supervisor_with_options ::
  "nat \<Rightarrow> watchdog_config \<Rightarrow> u64 \<Rightarrow> (nat \<Rightarrow> bool) \<Rightarrow> 'w \<Rightarrow> 'w supervisor supervisor_result" where
  "supervisor_with_options cap cfg now spawn_ok w =
     rbind (watchdog_new cfg now) (\<lambda>wd. Ok (supervisor_assemble cap now wd spawn_ok w))"

section \<open>Accessors, records, events, jitter\<close>

definition get_service :: "string \<Rightarrow> ('w, 'w managed_service) sup" where
  "get_service n = elift (\<lambda>s. ok_or (ServiceNotFound n) (map_of (services s) n))"

text \<open>A call into a managed service: it runs on the world and its own result is a value.\<close>

definition call_service :: "('w \<Rightarrow> 'a \<times> 'w) \<Rightarrow> ('w, 'a) sup" where
  "call_service f s = (case f (world s) of (r, w') \<Rightarrow> (Ok r, s\<lparr> world := w' \<rparr>))"

definition record_mut :: "string \<Rightarrow> (runtime_record \<Rightarrow> 'a \<times> runtime_record) \<Rightarrow> ('w, 'a) sup" where
  "record_mut n f s = (case map_of (records s) n of
     None \<Rightarrow> (Err (ServiceNotFound n), s)
   | Some r \<Rightarrow> (case f r of (x, r') \<Rightarrow> (Ok x, s\<lparr> records := om_put n r' (records s) \<rparr>)))"

definition update_record ::
  "string \<Rightarrow> service_health \<Rightarrow> service_runtime_state \<Rightarrow> ('w, service_health option) sup" where
  "update_record n h rs =
     record_mut n (\<lambda>r. (rr_health r, r\<lparr> rr_runtime_state := rs, rr_health := Some h \<rparr>))"

definition record_health :: "string \<Rightarrow> ('w, service_health option) sup" where
  "record_health n =
     elift (\<lambda>s. ok_or (ServiceNotFound n) (map_option rr_health (map_of (records s) n)))"

definition restart_attempt :: "string \<Rightarrow> 'w supervisor \<Rightarrow> u64" where
  "restart_attempt n s = (case map_of (records s) n of Some r \<Rightarrow> rr_restart_count r | None \<Rightarrow> 0)"

definition supervisor_event_new :: "string \<Rightarrow> supervisor_event_kind \<Rightarrow> u64 \<Rightarrow> u64 \<Rightarrow>
    string \<times> string \<Rightarrow> string \<Rightarrow> string \<Rightarrow> supervisor_event" where
  "supervisor_event_new sid kind ts attempt tr reason trace = \<lparr> ev_service_id = sid, ev_kind = kind,
     ev_timestamp_ms = ts, ev_attempt = attempt, ev_reason = reason,
     ev_previous_state = fst tr, ev_new_state = snd tr, ev_trace_id = trace \<rparr>"

text \<open>
  The source pops the oldest events while the buffer is full; with a capacity of at least 1,
  which \<^const>\<open>supervisor_assemble\<close> ensures, that drops all but the newest \<open>capacity - 1\<close>.
\<close>

definition emit :: "string \<Rightarrow> supervisor_event_kind \<Rightarrow> u64 \<Rightarrow> u64 \<Rightarrow> string \<times> string \<Rightarrow> string \<Rightarrow>
    'w supervisor \<Rightarrow> 'w supervisor" where
  "emit sid kind ts attempt tr reason s =
     (let trace = sat_add (event_sequence s) 1;
          kept = drop (Suc (length (events s)) - event_capacity s) (events s)
      in s\<lparr> event_sequence := event_sequence s + 1,
            events := kept @ [supervisor_event_new sid kind ts attempt tr reason
              (''supervisor-'' @ nat_dec (unat trace))] \<rparr>)"

definition xorshift :: "u64 \<Rightarrow> u64" where
  "xorshift x0 = (let x1 = xor x0 (push_bit 13 x0); x2 = xor x1 (drop_bit 7 x1) in xor x2 (push_bit 17 x2))"

definition jitter :: "duration \<Rightarrow> ('w, duration) sup" where
  "jitter maximum s =
     (let maximum_ms = duration_ms maximum
      in if maximum_ms = 0 then (Ok 0, s)
         else let next = xorshift (jitter_state s)
              in (Ok (from_millis (next mod sat_add maximum_ms 1)), s\<lparr> jitter_state := next \<rparr>))"

definition health_name :: "service_health \<Rightarrow> string" where
  "health_name h = (case h of H_Ready \<Rightarrow> ''Ready'' | H_Healthy \<Rightarrow> ''Healthy''
     | H_Degraded \<Rightarrow> ''Degraded'' | H_Failed \<Rightarrow> ''Failed'' | H_Starting \<Rightarrow> ''Starting''
     | H_Stopping \<Rightarrow> ''Stopping'' | H_Unknown \<Rightarrow> ''Unknown'')"

definition health_states :: "service_health option \<Rightarrow> service_health \<Rightarrow> string \<times> string" where
  "health_states prev next =
     (case prev of Some h \<Rightarrow> health_name h | None \<Rightarrow> ''Unknown'', health_name next)"

definition watchdog_name :: "watchdog_state \<Rightarrow> string" where
  "watchdog_name s = (case s of W_Starting \<Rightarrow> ''Starting'' | W_Healthy \<Rightarrow> ''Healthy''
     | W_Stalled \<Rightarrow> ''Stalled'' | W_Failed \<Rightarrow> ''Failed'' | W_Stopping \<Rightarrow> ''Stopping'')"

definition watchdog_states :: "watchdog_state \<Rightarrow> watchdog_state \<Rightarrow> string \<times> string" where
  "watchdog_states prev next = (watchdog_name prev, watchdog_name next)"

section \<open>Registration and validation\<close>

definition insert_service :: "string \<Rightarrow> 'w managed_service \<Rightarrow> 'w supervisor \<Rightarrow> 'w supervisor" where
  "insert_service n svc s = s\<lparr> services := om_put n svc (services s),
     records := om_put n runtime_record_default (records s) \<rparr>"

definition register :: "'w managed_service \<Rightarrow> ('w, unit) sup" where
  "register svc s = (case descriptor_validate (descriptor svc) of
     Inl e \<Rightarrow> (Err e, s)
   | Inr _ \<Rightarrow> let n = name (descriptor svc)
       in if om_has (services s) n then (Err (ServiceAlreadyRegistered n), s)
          else (Ok (), insert_service n svc s))"

definition register_or_replace_inactive :: "'w managed_service \<Rightarrow> ('w, unit) sup" where
  "register_or_replace_inactive svc s = (case descriptor_validate (descriptor svc) of
     Inl e \<Rightarrow> (Err e, s)
   | Inr _ \<Rightarrow> let n = name (descriptor svc)
       in (case map_of (services s) n of
            Some current \<Rightarrow>
              if is_enabled (activation (descriptor current)) then (Err (ServiceAlreadyRegistered n), s)
              else (Ok (), insert_service n svc s)
          | None \<Rightarrow> (Ok (), insert_service n svc s)))"

definition validate :: "('w, string list) sup" where
  "validate = elift (\<lambda>s. rbind (validate_dependencies (services s)) (\<lambda>_. topological_order (services s)))"

section \<open>Start\<close>

fun first_unavailable :: "service_dependency list \<Rightarrow> ('w, string option) sup" where
  "first_unavailable [] = eret None"
| "first_unavailable (d # ds) = (\<lambda>s. case map_of (services s) (service_id d) of
     None \<Rightarrow> if requirement d = Req_Optional then first_unavailable ds s
       else (Err (ServiceNotFound (service_id d)), s)
   | Some dep \<Rightarrow> ebind (call_service (svc_health dep)) (\<lambda>h.
       if accepts (requirement d) h then first_unavailable ds
       else eret (Some (service_id d))) s)"

definition first_unavailable_dependency :: "'w managed_service \<Rightarrow> ('w, string option) sup" where
  "first_unavailable_dependency svc = first_unavailable (dependencies (descriptor svc))"

definition require_dependencies :: "'w managed_service \<Rightarrow> ('w, unit) sup" where
  "require_dependencies svc = ebind (first_unavailable_dependency svc) (\<lambda>missing.
     case missing of
       Some dep \<Rightarrow> efail (DependencyUnavailable (name (descriptor svc)) dep)
     | None \<Rightarrow> eret ())"

definition start_service :: "string \<Rightarrow> 'w managed_service \<Rightarrow> u64 \<Rightarrow> service_health option \<Rightarrow> ('w, unit) sup" where
  "start_service n svc ts previous =
     ebind (call_service (svc_start svc)) (\<lambda>result.
       case result of
         Inr _ \<Rightarrow> ebind (call_service (svc_health svc)) (\<lambda>h.
           ebind (call_service (svc_runtime_state svc)) (\<lambda>rs.
           ebind (update_record n h rs) (\<lambda>_.
           emod (emit n Ev_ServiceStarted ts 0 (health_states previous h) ''lifecycle_start''))))
       | Inl e \<Rightarrow> ebind (call_service (svc_runtime_state svc)) (\<lambda>rs.
           ebind (update_record n H_Failed rs) (\<lambda>_.
           ebind (emod (emit n Ev_ServiceFailed ts 0 (health_states previous H_Failed) ''start_failed'')) (\<lambda>_.
           efail e))))"

definition start :: "string \<Rightarrow> u64 \<Rightarrow> ('w, unit) sup" where
  "start n ts = ebind (get_service n) (\<lambda>svc.
     if \<not> is_enabled (activation (descriptor svc)) then eret ()
     else ebind (require_dependencies svc) (\<lambda>_.
          ebind (record_health n) (\<lambda>previous. start_service n svc ts previous)))"

text \<open>\<open>now\<close> gives the clock reading at the start of each service.\<close>

definition start_all :: "(string \<Rightarrow> u64) \<Rightarrow> ('w, unit) sup" where
  "start_all now = ebind validate (\<lambda>ns. eforeach ns (\<lambda>n.
     ebind (get_service n) (\<lambda>svc.
       if is_enabled (activation (descriptor svc)) then start n (now n) else eret ())))"

section \<open>Restart scheduling\<close>

definition restart_is_active :: "string \<Rightarrow> ('w, bool) sup" where
  "restart_is_active n = elift (\<lambda>s. case map_of (records s) n of
     None \<Rightarrow> Err (ServiceNotFound n)
   | Some r \<Rightarrow> Ok (rr_quarantined r \<or>
       (case rr_restart_state r of RS_Scheduled _ \<Rightarrow> True | RS_Stopping \<Rightarrow> True
         | RS_Starting \<Rightarrow> True | RS_Backoff \<Rightarrow> True | _ \<Rightarrow> False)))"

text \<open>
  The budget decision on one record: trim the sliding window, then quarantine (\<open>Inl\<close> with the
  attempts so far) or record the attempt (\<open>Inr\<close> with its number).
\<close>

definition budget_record :: "restart_policy \<Rightarrow> u64 \<Rightarrow> runtime_record \<Rightarrow> (u64 + u64) \<times> runtime_record" where
  "budget_record p ts r =
     (let cutoff = sat_sub ts (duration_ms (restart_window p));
          r1 = r\<lparr> rr_restart_times := filter (\<lambda>a. cutoff < a) (rr_restart_times r) \<rparr>
      in if unat (restart_budget p) \<le> length (rr_restart_times r1)
         then (Inl (rr_restart_count r1),
               r1\<lparr> rr_health := Some H_Failed, rr_runtime_state := R_Quarantined,
                   rr_operator_required := True, rr_quarantined := True \<rparr>)
         else let count = sat_add (rr_restart_count r1) 1
              in (Inr count, r1\<lparr> rr_restart_times := rr_restart_times r1 @ [ts],
                                 rr_restart_count := count \<rparr>))"

definition consume_restart_budget :: "'w managed_service \<Rightarrow> u64 \<Rightarrow> ('w, u64) sup" where
  "consume_restart_budget svc ts =
     (let n = name (descriptor svc); p = policy (descriptor svc)
      in ebind (record_mut n (budget_record p ts)) (\<lambda>decision.
         case decision of
           Inr count \<Rightarrow> eret count
         | Inl attempt \<Rightarrow>
             ebind (emod (emit n Ev_RestartBudgetExceeded ts attempt (''Failed'', ''Quarantined'')
               ''restart_budget_exceeded'')) (\<lambda>_.
             ebind (emod (emit n Ev_ServiceQuarantined ts attempt (''Failed'', ''Quarantined'')
               ''operator_required'')) (\<lambda>_.
             efail (RestartBudgetExceeded n)))))"

definition schedule_restart :: "'w managed_service \<Rightarrow> u64 \<Rightarrow> ('w, unit) sup" where
  "schedule_restart svc ts =
     (let n = name (descriptor svc); p = policy (descriptor svc)
      in if mode p = Mode_Never then eret ()
         else ebind (restart_is_active n) (\<lambda>active.
           if active then eret ()
           else ebind (consume_restart_budget svc ts) (\<lambda>attempt.
                ebind (jitter (jitter_bound p)) (\<lambda>j.
                ebind (record_mut n (\<lambda>r. ((),
                  r\<lparr> rr_restart_state := RS_Scheduled (sat_add ts (duration_ms (dur_sat_add (backoff p) j))),
                     rr_runtime_state := R_RestartScheduled \<rparr>))) (\<lambda>_.
                emod (emit n Ev_ServiceRestartScheduled ts attempt (''Failed'', ''RestartScheduled'')
                  ''restart_policy''))))))"

definition due_restarts :: "u64 \<Rightarrow> (string, runtime_record) omap \<Rightarrow> (string \<times> u64) list" where
  "due_restarts ts recs = List.map_filter (\<lambda>(n, r). case rr_restart_state r of
     RS_Scheduled at \<Rightarrow> if at \<le> ts then Some (n, rr_restart_count r) else None
   | _ \<Rightarrow> None) recs"

definition dispatch_restart :: "string \<times> u64 \<Rightarrow> ('w, unit) sup" where
  "dispatch_restart due = (case due of (n, attempt) \<Rightarrow>
     ebind (get_service n) (\<lambda>svc s.
       case executor_schedule \<lparr> cmd_service = svc, cmd_attempt = attempt \<rparr> (restart_executor s) of
         (Inr _, ex) \<Rightarrow> record_mut n (\<lambda>r. ((),
             r\<lparr> rr_restart_state := RS_Stopping, rr_runtime_state := R_Restarting \<rparr>))
           (s\<lparr> restart_executor := ex \<rparr>)
       | (Inl e, ex) \<Rightarrow> if e = RestartQueueFull then (Ok (), s\<lparr> restart_executor := ex \<rparr>)
           else (Err e, s\<lparr> restart_executor := ex \<rparr>)))"

definition dispatch_due_restarts :: "u64 \<Rightarrow> ('w, unit) sup" where
  "dispatch_due_restarts ts s = eforeach (due_restarts ts (records s)) dispatch_restart s"

definition quarantine_orphan :: "restart_completion \<Rightarrow> u64 \<Rightarrow> ('w, unit) sup" where
  "quarantine_orphan c ts =
     ebind (record_mut (rc_service_id c) (\<lambda>r. ((),
       r\<lparr> rr_restart_state := RS_Failed, rr_runtime_state := R_Orphaned, rr_health := Some H_Failed,
          rr_operator_required := True, rr_quarantined := True \<rparr>))) (\<lambda>_.
     ebind (emod (emit (rc_service_id c) Ev_ServiceOrphaned ts (rc_attempt c)
       (''Stopping'', ''Orphaned'') ''shutdown_timeout'')) (\<lambda>_.
     emod (emit (rc_service_id c) Ev_ServiceQuarantined ts (rc_attempt c)
       (''Orphaned'', ''Quarantined'') ''orphaned_instance'')))"

definition apply_restarted :: "'w managed_service \<Rightarrow> restart_completion \<Rightarrow> u64 \<Rightarrow> ('w, unit) sup" where
  "apply_restarted svc c ts =
     ebind (call_service (svc_health svc)) (\<lambda>h.
     ebind (call_service (svc_runtime_state svc)) (\<lambda>rs.
     ebind (record_mut (rc_service_id c) (\<lambda>r. ((),
       r\<lparr> rr_restart_state := RS_None, rr_runtime_state := rs, rr_health := Some h \<rparr>))) (\<lambda>_.
     emod (emit (rc_service_id c) Ev_ServiceRestarted ts (rc_attempt c)
       (''Restarting'', health_name h) ''restart_completed''))))"

definition apply_restart_failed :: "'w managed_service \<Rightarrow> restart_completion \<Rightarrow> u64 \<Rightarrow> ('w, unit) sup" where
  "apply_restart_failed svc c ts =
     ebind (call_service (svc_runtime_state svc)) (\<lambda>rs.
     ebind (record_mut (rc_service_id c) (\<lambda>r. ((),
       r\<lparr> rr_restart_state := RS_Failed, rr_runtime_state := rs, rr_health := Some H_Failed \<rparr>))) (\<lambda>_.
     emod (emit (rc_service_id c) Ev_ServiceFailed ts (rc_attempt c)
       (''Restarting'', ''Failed'') ''restart_failed'')))"

definition apply_restart_completion :: "u64 \<Rightarrow> restart_completion \<Rightarrow> ('w, unit) sup" where
  "apply_restart_completion ts c = ebind (get_service (rc_service_id c)) (\<lambda>svc.
     case rc_outcome c of
       RO_Restarted \<Rightarrow> apply_restarted svc c ts
     | RO_Orphaned \<Rightarrow> quarantine_orphan c ts
     | RO_Failed \<Rightarrow> apply_restart_failed svc c ts
     | RO_Cancelled \<Rightarrow> apply_restart_failed svc c ts)"

definition apply_restart_completions :: "u64 \<Rightarrow> ('w, unit) sup" where
  "apply_restart_completions ts s = (case drain_completions (restart_executor s) of
     (cs, ex) \<Rightarrow> eforeach cs (apply_restart_completion ts) (s\<lparr> restart_executor := ex \<rparr>))"

section \<open>Lifecycle\<close>

definition reconcile_health :: "'w managed_service \<Rightarrow> string \<Rightarrow> u64 \<Rightarrow> service_health \<Rightarrow>
    service_health option \<Rightarrow> ('w, unit) sup" where
  "reconcile_health svc n ts h previous =
     (if is_failed h
      then ebind (if previous \<noteq> Some H_Failed
          then emod (\<lambda>s. emit n Ev_ServiceFailed ts (restart_attempt n s) (health_states previous h) ''health_failed'' s)
          else eret ()) (\<lambda>_ s.
        case schedule_restart svc ts s of
          (Inl e, s') \<Rightarrow> (case e of RestartBudgetExceeded _ \<Rightarrow> (Ok (), s') | _ \<Rightarrow> (Err e, s'))
        | (Inr _, s') \<Rightarrow> (Ok (), s'))
      else if previous = Some H_Failed \<or> previous = Some H_Degraded
      then emod (\<lambda>s. emit n Ev_ServiceRecovered ts (restart_attempt n s) (health_states previous h) ''health_recovered'' s)
      else eret ())"

definition reconcile_service :: "u64 \<Rightarrow> string \<Rightarrow> ('w, unit) sup" where
  "reconcile_service ts n = ebind (get_service n) (\<lambda>svc.
     if \<not> is_enabled (activation (descriptor svc)) then eret ()
     else ebind (first_unavailable_dependency svc) (\<lambda>missing.
       case missing of
         Some _ \<Rightarrow> ebind (call_service (svc_runtime_state svc)) (\<lambda>rs.
           ebind (update_record n H_Degraded rs) (\<lambda>_. eret ()))
       | None \<Rightarrow> ebind (call_service (svc_health svc)) (\<lambda>h.
           ebind (call_service (svc_runtime_state svc)) (\<lambda>rs.
           ebind (update_record n h rs) (\<lambda>previous. reconcile_health svc n ts h previous)))))"

definition on_watchdog :: "(watchdog \<Rightarrow> 'a \<times> watchdog) \<Rightarrow> ('w, 'a) sup" where
  "on_watchdog f s = (case f (sup_watchdog s) of (x, wd) \<Rightarrow> (Ok x, s\<lparr> sup_watchdog := wd \<rparr>))"

definition reconcile :: "u64 \<Rightarrow> ('w, unit) sup" where
  "reconcile ts =
     ebind (on_watchdog (\<lambda>wd. ((), record_reconcile_started ts wd))) (\<lambda>_.
     ebind (apply_restart_completions ts) (\<lambda>_.
     ebind validate (\<lambda>ns.
     ebind (eforeach ns (reconcile_service ts)) (\<lambda>_.
     ebind (dispatch_due_restarts ts) (\<lambda>_.
     ebind (on_watchdog (\<lambda>wd. (wd_state wd, wd))) (\<lambda>previous.
     ebind (on_watchdog (record_reconcile_completed ts)) (\<lambda>sequence.
     emod (emit ''supervisor'' Ev_SupervisorProgressed ts sequence
       (watchdog_states previous W_Healthy) ''reconcile_completed''))))))))"

definition restart :: "string \<Rightarrow> u64 \<Rightarrow> ('w, unit) sup" where
  "restart n ts = ebind (get_service n) (\<lambda>svc.
     ebind (require_dependencies svc) (\<lambda>_. schedule_restart svc ts))"

definition record_stopped :: "string \<Rightarrow> u64 \<Rightarrow> ('w, unit) sup" where
  "record_stopped n ts =
     ebind (update_record n H_Unknown R_Stopped) (\<lambda>_.
     emod (\<lambda>s. emit n Ev_ServiceStopped ts (restart_attempt n s) (''Running'', ''Stopped'') ''lifecycle_stop'' s))"

definition record_stop_failure :: "'w managed_service \<Rightarrow> u64 \<Rightarrow> ('w, unit) sup" where
  "record_stop_failure svc ts = (let n = name (descriptor svc)
     in ebind (call_service (svc_runtime_state svc)) (\<lambda>rs.
        if rs = R_Orphaned
        then (\<lambda>s. quarantine_orphan \<lparr> rc_service_id = n, rc_attempt = restart_attempt n s,
               rc_outcome = RO_Orphaned \<rparr> ts s)
        else ebind (call_service (svc_runtime_state svc)) (\<lambda>rs'.
             ebind (update_record n H_Failed rs') (\<lambda>_. eret ()))))"

text \<open>Stops one service and records what happened; the error of the stop is the result.\<close>

definition stop_and_record :: "string \<Rightarrow> 'w managed_service \<Rightarrow> u64 \<Rightarrow> ('w, supervisor_error option) sup" where
  "stop_and_record n svc ts =
     ebind (call_service (svc_stop svc (shutdown_timeout (policy (descriptor svc))))) (\<lambda>result.
       case result of
         Inr _ \<Rightarrow> ebind (record_stopped n ts) (\<lambda>_. eret None)
       | Inl e \<Rightarrow> ebind (record_stop_failure svc ts) (\<lambda>_. eret (Some e)))"

definition stop :: "string \<Rightarrow> u64 \<Rightarrow> ('w, unit) sup" where
  "stop n ts = ebind (get_service n) (\<lambda>svc.
     if \<not> is_enabled (activation (descriptor svc)) then eret ()
     else ebind (stop_and_record n svc ts) (\<lambda>err.
       case err of None \<Rightarrow> eret () | Some e \<Rightarrow> efail e))"

fun shutdown_loop :: "string list \<Rightarrow> u64 \<Rightarrow> supervisor_error option \<Rightarrow> ('w, supervisor_error option) sup" where
  "shutdown_loop [] ts first_error = eret first_error"
| "shutdown_loop (n # ns) ts first_error = ebind (get_service n) (\<lambda>svc.
     if \<not> is_enabled (activation (descriptor svc)) then shutdown_loop ns ts first_error
     else ebind (stop_and_record n svc ts) (\<lambda>err.
       shutdown_loop ns ts (if first_error = None then err else first_error)))"

text \<open>
  The executor's shutdown waits for its workers; \<open>settle\<close> is what the workers did meanwhile.
\<close>

definition close_executor :: "('w executor \<times> 'w \<Rightarrow> 'w executor \<times> 'w) \<Rightarrow> 'w supervisor \<Rightarrow> 'w supervisor" where
  "close_executor settle s = (case settle (executor_shutdown_begin (restart_executor s), world s) of
     (ex, w) \<Rightarrow> s\<lparr> restart_executor := snd (executor_shutdown_finish ex), world := w \<rparr>)"

definition shutdown :: "('w executor \<times> 'w \<Rightarrow> 'w executor \<times> 'w) \<Rightarrow> u64 \<Rightarrow> ('w, unit) sup" where
  "shutdown settle ts =
     ebind (on_watchdog (\<lambda>wd. ((), mark_stopping wd))) (\<lambda>_.
     ebind (emod (close_executor settle)) (\<lambda>_.
     ebind validate (\<lambda>ns.
     ebind (shutdown_loop (rev ns) ts None) (\<lambda>first_error.
       case first_error of None \<Rightarrow> eret () | Some e \<Rightarrow> efail e))))"

section \<open>Diagnosis\<close>

record service_snapshot =
  sn_name :: string
  sn_health :: service_health
  sn_dependencies :: "string list"
  sn_requirements :: "dependency_requirement list"
  sn_activation :: service_activation_state
  sn_enabled :: bool
  sn_configured :: bool
  sn_running :: bool
  sn_runtime_state :: service_runtime_state
  sn_restart_state :: restart_state
  sn_restart_count :: u64
  sn_operator_required :: bool
  sn_quarantined :: bool
  sn_critical :: bool

record watchdog_snapshot =
  ws_state :: watchdog_state
  ws_last_reconcile_at_ms :: u64
  ws_last_progress_at_ms :: u64
  ws_reconcile_sequence :: u64
  ws_stalled_for_ms :: u64
  ws_critical_services_healthy :: bool
  ws_enabled :: bool
  ws_stall_timeout_ms :: u64

text \<open>
  Snapshots read health and runtime state from the services only where no record holds them;
  the services are probed in name order.
\<close>

definition snapshot_service :: "string \<Rightarrow> 'w managed_service \<Rightarrow> runtime_record option \<Rightarrow> 'w \<Rightarrow>
    service_snapshot \<times> 'w" where
  "snapshot_service n svc rec w =
     (let d = descriptor svc;
          (rs, w1) = (case rec of Some r \<Rightarrow> (rr_runtime_state r, w) | None \<Rightarrow> svc_runtime_state svc w);
          (h, w2) = (case Option.bind rec rr_health of Some h \<Rightarrow> (h, w1) | None \<Rightarrow> svc_health svc w1)
      in (\<lparr> sn_name = n, sn_health = h,
            sn_dependencies = map service_id (dependencies d),
            sn_requirements = map requirement (dependencies d),
            sn_activation = activation d, sn_enabled = is_enabled (activation d),
            sn_configured = is_configured (activation d), sn_running = (rs = R_Running),
            sn_runtime_state = rs,
            sn_restart_state = (case rec of Some r \<Rightarrow> rr_restart_state r | None \<Rightarrow> RS_None),
            sn_restart_count = (case rec of Some r \<Rightarrow> rr_restart_count r | None \<Rightarrow> 0),
            sn_operator_required = (case rec of Some r \<Rightarrow> rr_operator_required r | None \<Rightarrow> False),
            sn_quarantined = (case rec of Some r \<Rightarrow> rr_quarantined r | None \<Rightarrow> False),
            sn_critical = critical d \<rparr>, w2))"

fun snapshot_list :: "'w services \<Rightarrow> (string, runtime_record) omap \<Rightarrow> 'w \<Rightarrow> service_snapshot list \<times> 'w" where
  "snapshot_list [] recs w = ([], w)"
| "snapshot_list ((n, svc) # rest) recs w =
     (let (sn, w1) = snapshot_service n svc (map_of recs n) w; (sns, w2) = snapshot_list rest recs w1
      in (sn # sns, w2))"

definition snapshots :: "'w supervisor \<Rightarrow> service_snapshot list \<times> 'w supervisor" where
  "snapshots s = (case snapshot_list (services s) (records s) (world s) of
     (sns, w) \<Rightarrow> (sns, s\<lparr> world := w \<rparr>))"

definition critical_service_healthy :: "service_snapshot \<Rightarrow> bool" where
  "critical_service_healthy sn \<longleftrightarrow> \<not> sn_enabled sn \<or> \<not> sn_critical sn \<or>
     (sn_health sn \<in> {H_Ready, H_Healthy} \<and> \<not> sn_quarantined sn)"

definition critical_services_healthy :: "'w supervisor \<Rightarrow> bool \<times> 'w supervisor" where
  "critical_services_healthy s = (case snapshots s of
     (sns, s') \<Rightarrow> (list_all critical_service_healthy sns, s'))"

definition snapshot_watchdog :: "u64 \<Rightarrow> 'w supervisor \<Rightarrow> watchdog_snapshot \<times> 'w supervisor" where
  "snapshot_watchdog ts s = (let wd = sup_watchdog s; (crit, s') = critical_services_healthy s in
     (\<lparr> ws_state = wd_state wd, ws_last_reconcile_at_ms = last_reconcile_at_ms wd,
        ws_last_progress_at_ms = last_progress_at_ms wd,
        ws_reconcile_sequence = reconcile_sequence wd, ws_stalled_for_ms = stalled_for_ms ts wd,
        ws_critical_services_healthy = crit, ws_enabled = enabled (wd_config wd),
        ws_stall_timeout_ms = stall_timeout_ms (wd_config wd) \<rparr>, s'))"

definition watchdog_snapshot_is_healthy :: "watchdog_snapshot \<Rightarrow> bool" where
  "watchdog_snapshot_is_healthy w \<longleftrightarrow> \<not> ws_enabled w \<or> ws_state w = W_Healthy"

definition is_healthy :: "u64 \<Rightarrow> 'w supervisor \<Rightarrow> bool \<times> 'w supervisor" where
  "is_healthy ts s =
     (if \<not> is_ok (fst (validate s)) then (False, s)
      else let (ws, s1) = snapshot_watchdog ts s
        in if \<not> watchdog_snapshot_is_healthy ws then (False, s1)
           else if \<not> es_healthy (snapshot_executor (restart_executor s1)) then (False, s1)
           else critical_services_healthy s1)"

definition evaluate_watchdog :: "u64 \<Rightarrow> 'w supervisor \<Rightarrow> watchdog_snapshot \<times> 'w supervisor" where
  "evaluate_watchdog ts s =
     (let (tr, wd) = wd_evaluate ts (sup_watchdog s); s1 = s\<lparr> sup_watchdog := wd \<rparr>;
          s2 = (case tr of None \<Rightarrow> s1
            | Some (previous, next) \<Rightarrow>
                emit ''supervisor''
                  (if next = W_Stalled then Ev_SupervisorStalled
                   else if next = W_Healthy \<and> previous = W_Stalled then Ev_SupervisorRecovered
                   else Ev_SupervisorProgressed)
                  ts (reconcile_sequence wd) (watchdog_states previous next) ''watchdog_evaluation'' s1)
      in snapshot_watchdog ts s2)"

record supervisor_diagnosis =
  dg_graph_valid :: bool
  dg_issues :: "string list"
  dg_services :: "service_snapshot list"
  dg_watchdog :: watchdog_snapshot
  dg_restart_executor :: executor_snapshot

definition diagnose :: "u64 \<Rightarrow> 'w supervisor \<Rightarrow> supervisor_diagnosis \<times> 'w supervisor" where
  "diagnose now s =
     (let validation = fst (validate s); (sns, s1) = snapshots s; (ws, s2) = snapshot_watchdog now s1
      in (\<lparr> dg_graph_valid = is_ok validation,
            dg_issues = (case validation of Inl e \<Rightarrow> [supervisor_error_display e] | Inr _ \<Rightarrow> []),
            dg_services = sns, dg_watchdog = ws,
            dg_restart_executor = snapshot_executor (restart_executor s2) \<rparr>, s2))"

end
