(* ===== verification/Sup_Frame.thy ===== *)
theory Sup_Frame
  imports Supervisor
begin

text \<open>
  Frame reasoning for the supervisor. A locale collects what a relation between the states
  before and after must satisfy on the primitive actions of the supervisor (probing a
  service, updating one record, emitting an event, scheduling a restart, talking to the
  executor); inside it every composed operation is shown once to keep the relation. The
  safety invariant and the claim that reconciliation never runs lifecycle callbacks are
  interpretations of it.
\<close>

text \<open>
  Record updates that never lift a quarantine, never schedule a restart and never touch the
  restart budget.
\<close>

definition benign :: "(runtime_record \<Rightarrow> runtime_record) \<Rightarrow> bool" where
  "benign f \<longleftrightarrow> (\<forall>r.
     rr_restart_times (f r) = rr_restart_times r \<and>
     rr_restart_count (f r) = rr_restart_count r \<and>
     (rr_quarantined r \<longrightarrow> rr_quarantined (f r)) \<and>
     (\<forall>at. rr_restart_state (f r) = RS_Scheduled at \<longrightarrow>
        rr_restart_state r = RS_Scheduled at \<and> rr_quarantined (f r) = rr_quarantined r))"

locale sup_frame =
  fixes R :: "'w supervisor \<Rightarrow> 'w supervisor \<Rightarrow> bool"
  assumes R_refl: "R s s"
    and R_trans: "R s s' \<Longrightarrow> R s' s'' \<Longrightarrow> R s s''"
    and R_services: "R s s' \<Longrightarrow> services s' = services s"
    and R_emit: "R s (emit sid kind ts attempt tr reason s)"
    and R_watchdog: "R s (s\<lparr> sup_watchdog := wd \<rparr>)"
    and R_health: "map_of (services s) n = Some svc \<Longrightarrow>
      R s (s\<lparr> world := snd (svc_health svc (world s)) \<rparr>)"
    and R_runtime_state: "map_of (services s) n = Some svc \<Longrightarrow>
      R s (s\<lparr> world := snd (svc_runtime_state svc (world s)) \<rparr>)"
    and R_record: "benign f \<Longrightarrow> map_of (records s) n = Some r \<Longrightarrow>
      R s (s\<lparr> records := om_put n (f r) (records s) \<rparr>)"
    and R_schedule: "map_of (services s) n = Some svc \<Longrightarrow> R s (snd (schedule_restart svc ts s))"
    and R_executor_schedule: "R s (s\<lparr> restart_executor := snd (executor_schedule cmd (restart_executor s)) \<rparr>)"
    and R_executor_drain: "R s (s\<lparr> restart_executor := snd (drain_completions (restart_executor s)) \<rparr>)"
begin

lemma reflp_R: "reflp R"
  by (rule reflpI) (rule R_refl)

lemma transp_R: "transp R"
  by (rule transpI, erule R_trans, assumption)

abbreviation registered :: "string \<Rightarrow> 'w managed_service \<Rightarrow> 'w supervisor \<Rightarrow> bool" where
  "registered n svc s \<equiv> map_of (services s) n = Some svc"

lemma registered_stable: "registered n svc s \<Longrightarrow> R s s' \<Longrightarrow> registered n svc s'"
  by (drule R_services) simp

lemma keeps_seq:
  "keeps (registered n svc) R m \<Longrightarrow> (\<And>x. keeps (registered n svc) R (f x)) \<Longrightarrow>
     keeps (registered n svc) R (ebind m f)"
  "keeps (\<lambda>_. True) R m' \<Longrightarrow> (\<And>x. keeps (\<lambda>_. True) R (g x)) \<Longrightarrow>
     keeps (\<lambda>_. True) R (ebind m' g)"
  by (rule keeps_ebind [OF transp_R registered_stable]; assumption)
    (rule keeps_ebind [OF transp_R TrueI])

lemmas keeps_now = keeps_pure [OF reflp_R]

lemma keeps_get_service:
  assumes "\<And>svc. keeps (registered n svc) R (f svc)"
  shows "keeps P R (ebind (get_service n) f)"
proof (rule keepsI)
  fix s
  show "R s (snd (ebind (get_service n) f s))"
    using assms R_refl
    by (cases "map_of (services s) n") (auto simp: ebind_eval get_service_def keeps_def)
qed

lemma keeps_emit: "keeps P R (emod (\<lambda>s. emit sid kind ts (attempt s) tr reason s))"
  by (rule keepsI) (simp add: R_emit)

lemma keeps_probe:
  "keeps (registered n svc) R (call_service (svc_health svc))"
  "keeps (registered n svc) R (call_service (svc_runtime_state svc))"
  by (auto simp: keeps_def call_service_def split: prod.splits dest: R_health R_runtime_state)

lemma keeps_record:
  assumes "benign (\<lambda>r. snd (f r))"
  shows "keeps P R (record_mut n f)"
proof (rule keepsI)
  fix s
  show "R s (snd (record_mut n f s))"
    using R_record [OF assms, of s n]
    by (cases "map_of (records s) n") (auto simp: record_mut_def R_refl split: prod.splits)
qed

lemma keeps_watchdog: "keeps P R (on_watchdog f)"
  by (rule keepsI) (simp add: on_watchdog_def R_watchdog split: prod.splits)

lemma keeps_update_record: "keeps P R (update_record n h rs)"
  unfolding update_record_def by (rule keeps_record) (simp add: benign_def)

lemma keeps_first_unavailable: "keeps P R (first_unavailable ds)"
proof (induction ds arbitrary: P)
  case Nil
  show ?case by (simp add: keeps_now)
next
  case (Cons d ds)
  show ?case
  proof (rule keepsI)
    fix s
    show "R s (snd (first_unavailable (d # ds) s))"
    proof (cases "map_of (services s) (service_id d)")
      case None
      with Cons.IH [of "\<lambda>_. True"] show ?thesis by (simp add: R_refl keeps_def)
    next
      case (Some dep)
      have "keeps (registered (service_id d) dep) R (ebind (call_service (svc_health dep)) (\<lambda>h.
          if accepts (requirement d) h then first_unavailable ds else eret (Some (service_id d))))"
        by (auto intro!: keeps_seq(1) keeps_probe simp: Cons.IH keeps_now)
      with Some show ?thesis by (simp add: keeps_def)
    qed
  qed
qed

lemma keeps_require_dependencies: "keeps (registered n svc) R (require_dependencies svc)"
  unfolding require_dependencies_def first_unavailable_dependency_def
  by (auto intro!: keeps_seq(1) keeps_first_unavailable simp: keeps_now split: option.splits)

lemma keeps_schedule_restart: "keeps (registered n svc) R (schedule_restart svc ts)"
  by (rule keepsI) (rule R_schedule)

lemma keeps_reconcile_health: "keeps (registered n svc) R (reconcile_health svc n ts h previous)"
proof -
  have "R s (snd (case schedule_restart svc ts s of
          (Inl e, s') \<Rightarrow> (case e of RestartBudgetExceeded _ \<Rightarrow> (Ok (), s') | _ \<Rightarrow> (Err e, s'))
        | (Inr _, s') \<Rightarrow> (Ok (), s')))" if "registered n svc s" for s
    using R_schedule [OF that, of ts]
    by (cases "schedule_restart svc ts s")
      (auto split: sum.splits supervisor_error.splits)
  then have "keeps (registered n svc) R (\<lambda>s. case schedule_restart svc ts s of
          (Inl e, s') \<Rightarrow> (case e of RestartBudgetExceeded _ \<Rightarrow> (Ok (), s') | _ \<Rightarrow> (Err e, s'))
        | (Inr _, s') \<Rightarrow> (Ok (), s'))"
    by (rule keepsI)
  then show ?thesis
    unfolding reconcile_health_def by (auto intro!: keeps_seq(1) keeps_emit simp: keeps_now)
qed

lemma keeps_reconcile_service: "keeps P R (reconcile_service ts n)"
  unfolding reconcile_service_def first_unavailable_dependency_def
  by (rule keeps_get_service)
    (auto intro!: keeps_seq(1) keeps_first_unavailable keeps_probe keeps_update_record
      keeps_reconcile_health simp: keeps_now split: option.splits)

lemma keeps_quarantine_orphan: "keeps P R (quarantine_orphan c ts)"
  unfolding quarantine_orphan_def
  by (rule keeps_True, intro keeps_seq(2) keeps_record keeps_emit) (simp add: benign_def)

lemma keeps_apply_completion: "keeps P R (apply_restart_completion ts c)"
  unfolding apply_restart_completion_def apply_restarted_def apply_restart_failed_def
  by (rule keeps_get_service)
    (auto intro!: keeps_seq(1) keeps_probe keeps_record keeps_emit keeps_quarantine_orphan
      simp: benign_def split: restart_outcome.splits)

lemma keeps_apply_completions: "keeps P R (apply_restart_completions ts)"
proof (rule keepsI)
  fix s :: "'w supervisor"
  have "keeps (\<lambda>_. True) R (eforeach cs (apply_restart_completion ts))" for cs
    by (intro keeps_eforeach reflp_R transp_R keeps_apply_completion) simp
  then have "R (s\<lparr> restart_executor := ex \<rparr>) (snd (eforeach cs (apply_restart_completion ts) (s\<lparr> restart_executor := ex \<rparr>)))"
    for cs ex by (simp add: keeps_def)
  then show "R s (snd (apply_restart_completions ts s))"
    using R_executor_drain [of s] R_trans
    unfolding apply_restart_completions_def drain_completions_def by fastforce
qed

lemma keeps_dispatch_restart: "keeps P R (dispatch_restart due)"
proof -
  obtain n attempt where due: "due = (n, attempt)" by (cases due)
  have rec: "keeps (\<lambda>_. True) R (record_mut n (\<lambda>r. ((),
      r\<lparr> rr_restart_state := RS_Stopping, rr_runtime_state := R_Restarting \<rparr>)))"
    by (rule keeps_record) (simp add: benign_def)
  show ?thesis unfolding dispatch_restart_def due prod.case
  proof (rule keeps_get_service, rule keepsI)
    fix svc :: "'w managed_service" and s :: "'w supervisor"
    let ?cmd = "\<lparr> cmd_service = svc, cmd_attempt = attempt \<rparr>"
    obtain r ex where ex: "executor_schedule ?cmd (restart_executor s) = (r, ex)" by fastforce
    have 1: "R s (s\<lparr> restart_executor := ex \<rparr>)"
      using R_executor_schedule [of s ?cmd] ex by simp
    have 2: "R (s\<lparr> restart_executor := ex \<rparr>) (snd (record_mut n (\<lambda>r. ((),
      r\<lparr> rr_restart_state := RS_Stopping, rr_runtime_state := R_Restarting \<rparr>)) (s\<lparr> restart_executor := ex \<rparr>)))"
      using rec by (simp add: keeps_def)
    from 1 R_trans [OF 1 2] ex
    show "R s (snd (case executor_schedule ?cmd (restart_executor s) of
         (Inr _, ex) \<Rightarrow> record_mut n (\<lambda>r. ((),
             r\<lparr> rr_restart_state := RS_Stopping, rr_runtime_state := R_Restarting \<rparr>))
           (s\<lparr> restart_executor := ex \<rparr>)
       | (Inl e, ex) \<Rightarrow> if e = RestartQueueFull then (Ok (), s\<lparr> restart_executor := ex \<rparr>)
           else (Err e, s\<lparr> restart_executor := ex \<rparr>)))"
      by (simp split: sum.splits)
  qed
qed

lemma keeps_dispatch_due: "keeps P R (dispatch_due_restarts ts)"
proof (rule keepsI)
  fix s
  have "keeps (\<lambda>_. True) R (eforeach dues dispatch_restart)" for dues
    by (intro keeps_eforeach reflp_R transp_R keeps_dispatch_restart) simp
  then show "R s (snd (dispatch_due_restarts ts s))"
    by (simp add: dispatch_due_restarts_def keeps_def)
qed

lemma keeps_reconcile: "keeps P R (reconcile ts)"
proof (rule keeps_True)
  have loop: "keeps (\<lambda>_. True) R (eforeach ns (reconcile_service ts))" for ns
    by (intro keeps_eforeach reflp_R transp_R keeps_reconcile_service) simp
  have val: "keeps (\<lambda>_. True) R validate"
    unfolding validate_def by (rule keeps_now)
  show "keeps (\<lambda>_. True) R (reconcile ts)"
    unfolding reconcile_def
    by (intro keeps_seq(2) keeps_watchdog keeps_apply_completions val loop keeps_dispatch_due keeps_emit)
qed

lemma keeps_restart: "keeps P R (restart n ts)"
  unfolding restart_def
  by (rule keeps_get_service) (intro keeps_seq(1) keeps_require_dependencies keeps_schedule_restart)

end

text \<open>
  The operations that do run lifecycle callbacks need the relation to hold across them and
  across the shutdown of the executor.
\<close>

locale sup_frame_lifecycle = sup_frame R for R :: "'w supervisor \<Rightarrow> 'w supervisor \<Rightarrow> bool" +
  assumes R_world: "R s (s\<lparr> world := w \<rparr>)"
    and R_executor_close: "executor_step\<^sup>*\<^sup>* (restart_executor s, world s) (ex, w) \<Longrightarrow>
      R s (s\<lparr> restart_executor := ex, world := w \<rparr>)"
begin

lemma keeps_call: "keeps P R (call_service f)"
  by (rule keepsI) (simp add: call_service_def R_world split: prod.splits)

lemma keeps_start_service: "keeps P R (start_service n svc ts previous)"
  unfolding start_service_def
  by (rule keeps_True)
    (auto intro!: keeps_seq(2) keeps_call keeps_update_record keeps_emit simp: keeps_now split: sum.splits)

lemma keeps_start: "keeps P R (start n ts)"
  unfolding start_def record_health_def
  by (rule keeps_get_service)
    (auto intro!: keeps_seq(1) keeps_require_dependencies keeps_start_service simp: keeps_now)

lemma keeps_start_all: "keeps P R (start_all now)"
  unfolding start_all_def validate_def
  by (rule keeps_True, rule keeps_seq(2))
    (auto intro!: keeps_eforeach reflp_R transp_R keeps_get_service keeps_start simp: keeps_now)

lemma keeps_stop_and_record: "keeps P R (stop_and_record n svc ts)"
proof -
  have quar: "keeps (\<lambda>_. True) R (\<lambda>s. quarantine_orphan (c s) ts s)" for c
    using keeps_quarantine_orphan [of "\<lambda>_. True"] by (simp add: keeps_def)
  show ?thesis
    unfolding stop_and_record_def record_stopped_def record_stop_failure_def Let_def
    by (rule keeps_True)
      (auto intro!: keeps_seq(2) keeps_call keeps_update_record keeps_emit quar
        simp: keeps_now split: sum.splits)
qed

lemma keeps_stop: "keeps P R (stop n ts)"
  unfolding stop_def
  by (rule keeps_get_service)
    (auto intro!: keeps_seq(1) keeps_stop_and_record simp: keeps_now split: option.splits)

lemma keeps_shutdown_loop: "keeps P R (shutdown_loop ns ts err)"
proof (induction ns arbitrary: err P)
  case Nil
  show ?case by (simp add: keeps_now)
next
  case (Cons n ns)
  show ?case
    by (auto intro!: keeps_get_service keeps_seq(1) keeps_stop_and_record Cons.IH)
qed

lemma R_close:
  assumes settle: "\<And>exw. executor_step\<^sup>*\<^sup>* exw (settle exw)"
    and fin: "\<And>exw. cancellation (fst (settle (executor_shutdown_begin (fst exw), snd exw)))"
  shows "R s (close_executor settle s)"
proof -
  obtain ex w where ex: "settle (executor_shutdown_begin (restart_executor s), world s) = (ex, w)"
    by fastforce
  have "executor_step\<^sup>*\<^sup>* (restart_executor s, world s) (ex, w)"
    using settle [of "(executor_shutdown_begin (restart_executor s), world s)"] ex
    by (metis converse_rtranclp_into_rtranclp executor_step.step_shutdown_begin)
  moreover have "executor_step (ex, w) (snd (executor_shutdown_finish ex), w)"
    using fin [of "(restart_executor s, world s)"] ex
    by (intro executor_step.step_shutdown_finish) simp
  ultimately have "executor_step\<^sup>*\<^sup>* (restart_executor s, world s) (snd (executor_shutdown_finish ex), w)"
    by (rule rtranclp.rtrancl_into_rtrancl)
  with ex show ?thesis by (simp add: close_executor_def R_executor_close)
qed

lemma keeps_shutdown:
  assumes "\<And>exw. executor_step\<^sup>*\<^sup>* exw (settle exw)"
    and "\<And>exw. cancellation (fst (settle (executor_shutdown_begin (fst exw), snd exw)))"
  shows "keeps P R (shutdown settle ts)"
proof (rule keeps_True)
  have "keeps (\<lambda>_. True) R (emod (close_executor settle))"
    by (rule keepsI) (simp add: R_close [OF assms])
  then show "keeps (\<lambda>_. True) R (shutdown settle ts)"
    unfolding shutdown_def validate_def
    by (auto intro!: keeps_seq(2) keeps_watchdog keeps_shutdown_loop
        simp: keeps_now split: option.splits)
qed

end

end
