(* ===== verification/Sup_Safety.thy ===== *)
theory Sup_Safety
  imports Sup_Frame
begin

text \<open>
  Safety of the supervisor: its invariant and the operations that keep it, the restart budget
  as a sliding-window limit, permanence of quarantine, dependency-checked starts, the jitter
  bound, and shutdown.
\<close>

section \<open>The jitter generator\<close>

lemma push_bit_fixpoint:
  fixes x :: u64
  assumes "push_bit k x = x" "0 < k"
  shows "x = 0"
proof -
  have it: "push_bit (n * k) x = x" for n
    by (induction n) (simp_all add: assms(1) push_bit_push_bit [symmetric])
  have "64 \<le> 64 * k" using assms(2) by simp
  then have "push_bit (64 * k) x = 0" by (simp add: bit_eq_iff bit_push_bit_iff)
  with it [of 64] show ?thesis by simp
qed

lemma drop_bit_fixpoint:
  fixes x :: u64
  assumes "drop_bit k x = x" "0 < k"
  shows "x = 0"
proof -
  have it: "drop_bit (n * k) x = x" for n
    by (induction n) (simp_all add: assms(1) drop_bit_drop_bit [symmetric])
  have "64 \<le> 64 * k" using assms(2) by simp
  then have "drop_bit (64 * k) x = 0"
    by (simp add: bit_eq_iff bit_drop_bit_eq bit_imp_le_length not_bit_length)
  with it [of 64] show ?thesis by simp
qed

lemma xor_eq_zero_iff_eq: "xor a b = 0 \<longleftrightarrow> a = (b :: u64)"
  by (auto simp: bit_eq_iff bit_xor_iff)

lemma xorshift_nonzero: "x \<noteq> 0 \<Longrightarrow> xorshift x \<noteq> 0"
  unfolding xorshift_def Let_def
  by (metis xor_eq_zero_iff_eq push_bit_fixpoint drop_bit_fixpoint zero_less_numeral)

lemma jitter_eval:
  "\<exists>d x. jitter m s = (Ok d, s\<lparr> jitter_state := x \<rparr>) \<and> (jitter_state s \<noteq> 0 \<longrightarrow> x \<noteq> 0)"
  by (cases s) (auto simp: jitter_def Let_def xorshift_nonzero)

section \<open>The safety invariant\<close>

definition rec_inv :: "restart_policy \<Rightarrow> runtime_record \<Rightarrow> bool" where
  "rec_inv p r \<longleftrightarrow> length (rr_restart_times r) \<le> unat (restart_budget p) \<and>
     (rr_quarantined r \<longrightarrow> (\<forall>at. rr_restart_state r \<noteq> RS_Scheduled at))"

definition sup_inv :: "'w supervisor \<Rightarrow> bool" where
  "sup_inv s \<longleftrightarrow> omap_ok (services s) \<and> omap_ok (records s) \<and>
     dom (map_of (records s)) = dom (map_of (services s)) \<and>
     0 < event_capacity s \<and> length (events s) \<le> event_capacity s \<and>
     jitter_state s \<noteq> 0 \<and> executor_inv (restart_executor s) \<and>
     (\<forall>n svc. map_of (services s) n = Some svc \<longrightarrow>
        name (descriptor svc) = n \<and> descriptor_validate (descriptor svc) = Ok () \<and>
        (\<forall>r. map_of (records s) n = Some r \<longrightarrow> rec_inv (policy (descriptor svc)) r))"

text \<open>A quarantined service stays quarantined and its restart count does not move.\<close>

definition quarantine_kept :: "'w supervisor \<Rightarrow> 'w supervisor \<Rightarrow> bool" where
  "quarantine_kept s s' \<longleftrightarrow> (\<forall>n r. map_of (records s) n = Some r \<longrightarrow> rr_quarantined r \<longrightarrow>
     (\<exists>r'. map_of (records s') n = Some r' \<and> rr_quarantined r' \<and> rr_restart_count r' = rr_restart_count r))"

definition safe :: "'w supervisor \<Rightarrow> 'w supervisor \<Rightarrow> bool" where
  "safe s s' \<longleftrightarrow> services s' = services s \<and> (sup_inv s \<longrightarrow> sup_inv s' \<and> quarantine_kept s s')"

lemma quarantine_kept_refl: "quarantine_kept s s"
  by (simp add: quarantine_kept_def)

lemma quarantine_kept_trans: "quarantine_kept s s' \<Longrightarrow> quarantine_kept s' s'' \<Longrightarrow> quarantine_kept s s''"
  unfolding quarantine_kept_def by metis

lemma safe_same_records:
  assumes "services s' = services s" "records s' = records s" "sup_inv s \<Longrightarrow> sup_inv s'"
  shows "safe s s'"
  using assms by (simp add: safe_def quarantine_kept_def)

lemma emit_sel [simp]:
  "services (emit sid k ts a tr re s) = services s" "records (emit sid k ts a tr re s) = records s"
  "event_capacity (emit sid k ts a tr re s) = event_capacity s"
  "jitter_state (emit sid k ts a tr re s) = jitter_state s"
  "restart_executor (emit sid k ts a tr re s) = restart_executor s"
  "world (emit sid k ts a tr re s) = world s" "sup_watchdog (emit sid k ts a tr re s) = sup_watchdog s"
  by (simp_all add: emit_def Let_def)

lemma emit_length:
  "0 < event_capacity s \<Longrightarrow> length (events (emit sid k ts a tr re s)) \<le> event_capacity s"
  by (auto simp: emit_def Let_def)

lemma sup_inv_emit: "sup_inv s \<Longrightarrow> sup_inv (emit sid k ts a tr re s)"
  by (simp add: sup_inv_def emit_length)

lemma sup_inv_record:
  assumes inv: "sup_inv s" and r: "map_of (records s) n = Some r"
    and keep: "\<And>svc. map_of (services s) n = Some svc \<Longrightarrow> rec_inv (policy (descriptor svc)) r \<Longrightarrow>
      rec_inv (policy (descriptor svc)) r'"
  shows "sup_inv (s\<lparr> records := om_put n r' (records s) \<rparr>)"
proof -
  have "dom (map_of (om_put n r' (records s))) = dom (map_of (services s))"
    using inv r by (auto simp: sup_inv_def)
  with inv keep r show ?thesis by (auto simp: sup_inv_def)
qed

lemma safe_record:
  assumes r: "map_of (records s) n = Some r"
    and keep: "\<And>svc. sup_inv s \<Longrightarrow> map_of (services s) n = Some svc \<Longrightarrow>
      rec_inv (policy (descriptor svc)) r \<Longrightarrow> rec_inv (policy (descriptor svc)) r'"
    and q: "rr_quarantined r \<Longrightarrow> rr_quarantined r' \<and> rr_restart_count r' = rr_restart_count r"
  shows "safe s (s\<lparr> records := om_put n r' (records s) \<rparr>)"
proof -
  have "quarantine_kept s (s\<lparr> records := om_put n r' (records s) \<rparr>)" if "sup_inv s"
    using that r q by (auto simp: quarantine_kept_def sup_inv_def)
  with sup_inv_record [OF _ r keep] show ?thesis by (simp add: safe_def)
qed

lemma safe_trans: "safe s s' \<Longrightarrow> safe s' s'' \<Longrightarrow> safe s s''"
  unfolding safe_def using quarantine_kept_trans by fastforce

lemma safe_emit: "safe s (emit sid k ts a tr re s)"
  by (rule safe_same_records) (simp_all add: sup_inv_emit)

lemma safe_emitI: "safe s s' \<Longrightarrow> safe s (emit sid k ts a tr re s')"
  by (rule safe_trans [OF _ safe_emit])

section \<open>Restart scheduling\<close>

definition record_active :: "runtime_record \<Rightarrow> bool" where
  "record_active r \<longleftrightarrow> rr_quarantined r \<or>
     (case rr_restart_state r of RS_Scheduled _ \<Rightarrow> True | RS_Stopping \<Rightarrow> True
       | RS_Starting \<Rightarrow> True | RS_Backoff \<Rightarrow> True | _ \<Rightarrow> False)"

lemma restart_is_active_eval:
  "map_of (records s) n = Some r \<Longrightarrow> restart_is_active n s = (Ok (record_active r), s)"
  by (simp add: restart_is_active_def record_active_def)

lemma budget_record_rec_inv:
  assumes "budget_record p ts r = (dec, r')" "rec_inv p r" "\<not> record_active r"
  shows "rec_inv p r'"
proof -
  have "length (filter (\<lambda>a. c < a) (rr_restart_times r)) \<le> unat (restart_budget p)" for c
    using assms(2) length_filter_le le_trans unfolding rec_inv_def by blast
  with assms show ?thesis
    by (auto simp: budget_record_def rec_inv_def record_active_def Let_def split: if_splits)
qed

lemma budget_record_sel:
  "budget_record p ts r = (Inr c, r') \<Longrightarrow> rr_quarantined r' = rr_quarantined r
     \<and> rr_restart_state r' = rr_restart_state r"
  by (auto simp: budget_record_def Let_def split: if_splits)

lemma consume_restart_budget_eval:
  assumes "map_of (records s) (name (descriptor svc)) = Some r"
    and "budget_record (policy (descriptor svc)) ts r = (dec, r')"
  shows "consume_restart_budget svc ts s =
    (let n = name (descriptor svc); s1 = s\<lparr> records := om_put n r' (records s) \<rparr> in
     case dec of
       Inr c \<Rightarrow> (Ok c, s1)
     | Inl a \<Rightarrow> (Err (RestartBudgetExceeded n),
         emit n Ev_ServiceQuarantined ts a (''Failed'', ''Quarantined'') ''operator_required''
          (emit n Ev_RestartBudgetExceeded ts a (''Failed'', ''Quarantined'') ''restart_budget_exceeded'' s1)))"
  using assms
  by (cases dec) (simp_all add: consume_restart_budget_def ebind_eval record_mut_def Let_def)

lemma schedule_restart_idle:
  assumes "map_of (records s) (name (descriptor svc)) = Some r"
    and "mode (policy (descriptor svc)) = Mode_Never \<or> record_active r"
  shows "schedule_restart svc ts s = (Ok (), s)"
  using assms by (auto simp: schedule_restart_def Let_def ebind_eval restart_is_active_eval)

text \<open>The two ways an attempt ends once the record is known to be idle.\<close>

lemma schedule_restart_refused:
  assumes "map_of (records s) (name (descriptor svc)) = Some r"
    and "mode (policy (descriptor svc)) \<noteq> Mode_Never" "\<not> record_active r"
    and "budget_record (policy (descriptor svc)) ts r = (Inl a, r')"
  shows "schedule_restart svc ts s = (let n = name (descriptor svc) in
    (Err (RestartBudgetExceeded n),
         emit n Ev_ServiceQuarantined ts a (''Failed'', ''Quarantined'') ''operator_required''
          (emit n Ev_RestartBudgetExceeded ts a (''Failed'', ''Quarantined'') ''restart_budget_exceeded''
            (s\<lparr> records := om_put n r' (records s) \<rparr>))))"
  using assms consume_restart_budget_eval [OF assms(1,4)]
  by (simp add: schedule_restart_def Let_def ebind_eval restart_is_active_eval)

lemma schedule_restart_accepted:
  assumes r: "map_of (records s) (name (descriptor svc)) = Some r" and ok: "omap_ok (records s)"
    and "mode (policy (descriptor svc)) \<noteq> Mode_Never" "\<not> record_active r"
    and b: "budget_record (policy (descriptor svc)) ts r = (Inr c, r')"
  shows "\<exists>at x. schedule_restart svc ts s =
    (let n = name (descriptor svc) in
     (Ok (), emit n Ev_ServiceRestartScheduled ts c (''Failed'', ''RestartScheduled'') ''restart_policy''
       (s\<lparr> jitter_state := x, records := om_put n (r'\<lparr> rr_restart_state := RS_Scheduled at,
            rr_runtime_state := R_RestartScheduled \<rparr>) (records s) \<rparr>)))
    \<and> (jitter_state s \<noteq> 0 \<longrightarrow> x \<noteq> 0)"
proof -
  let ?n = "name (descriptor svc)" and ?p = "policy (descriptor svc)"
  let ?s1 = "s\<lparr> records := om_put ?n r' (records s) \<rparr>"
  obtain d x where j: "jitter (jitter_bound ?p) ?s1 = (Ok d, ?s1\<lparr> jitter_state := x \<rparr>)"
    "jitter_state ?s1 \<noteq> 0 \<longrightarrow> x \<noteq> 0"
    using jitter_eval [of "jitter_bound ?p" ?s1] by blast
  have "consume_restart_budget svc ts s = (Ok c, ?s1)"
    using consume_restart_budget_eval [OF r b] by (simp add: Let_def)
  with assms j show ?thesis
    by (intro exI [of _ "sat_add ts (duration_ms (dur_sat_add (backoff ?p) d))"] exI [of _ x])
      (auto simp: schedule_restart_def Let_def ebind_eval restart_is_active_eval record_mut_def)
qed

lemma same_services_pre: "reflp (\<lambda>s s'. services s' = services s)" "transp (\<lambda>s s'. services s' = services s)"
  by (auto intro!: reflpI transpI)

lemma same_services_prims:
  "keeps P (\<lambda>s s'. services s' = services s) (record_mut n f)"
  "keeps P (\<lambda>s s'. services s' = services s) (jitter d)"
  "keeps P (\<lambda>s s'. services s' = services s) (emod (emit n k t a tr re))"
  by (auto simp: keeps_def record_mut_def jitter_def Let_def split: option.splits prod.splits)

lemma same_services_seq:
  "keeps (\<lambda>_. True) (\<lambda>s s'. services s' = services s) m \<Longrightarrow>
   (\<And>x. keeps (\<lambda>_. True) (\<lambda>s s'. services s' = services s) (f x)) \<Longrightarrow>
   keeps (\<lambda>_. True) (\<lambda>s s'. services s' = services s) (ebind m f)"
  by (intro keeps_ebind same_services_pre) simp_all

lemma schedule_restart_services: "services (snd (schedule_restart svc ts s)) = services s"
proof -
  have "keeps (\<lambda>_. True) (\<lambda>s s'. services s' = services s) (schedule_restart svc ts)"
    unfolding schedule_restart_def consume_restart_budget_def restart_is_active_def Let_def
    by (auto intro!: same_services_seq same_services_prims
        simp: keeps_pure [OF same_services_pre(1)] split: sum.splits)
  then show ?thesis by (simp add: keeps_def)
qed

lemma safe_jitter: "x \<noteq> 0 \<or> x = jitter_state s \<Longrightarrow> safe s (s\<lparr> jitter_state := x \<rparr>)"
  by (rule safe_same_records) (auto simp: sup_inv_def)

lemma safe_schedule_restart:
  assumes svc: "map_of (services s) n = Some svc"
  shows "safe s (snd (schedule_restart svc ts s))"
proof (cases "sup_inv s")
  case False
  then show ?thesis by (simp add: safe_def schedule_restart_services)
next
  case True
  then have n: "name (descriptor svc) = n" and j: "jitter_state s \<noteq> 0" and ok: "omap_ok (records s)"
    using svc by (simp_all add: sup_inv_def)
  have "n \<in> dom (map_of (records s))" using True svc by (auto simp: sup_inv_def)
  then obtain r where r: "map_of (records s) n = Some r" by blast
  have inv: "rec_inv (policy (descriptor svc)) r" using True svc r by (simp add: sup_inv_def)
  obtain dec r' where b: "budget_record (policy (descriptor svc)) ts r = (dec, r')" by fastforce
  consider "mode (policy (descriptor svc)) = Mode_Never \<or> record_active r"
    | a where "mode (policy (descriptor svc)) \<noteq> Mode_Never" "\<not> record_active r" "dec = Inl a"
    | c where "mode (policy (descriptor svc)) \<noteq> Mode_Never" "\<not> record_active r" "dec = Inr c"
    by (cases dec) auto
  then show ?thesis
  proof cases
    case 1
    with r n show ?thesis
      by (simp add: schedule_restart_idle safe_def quarantine_kept_refl)
  next
    case 2
    have "safe s (s\<lparr> records := om_put n r' (records s) \<rparr>)"
      using r by (rule safe_record)
        (use svc b 2(2) in \<open>auto simp: record_active_def intro: budget_record_rec_inv\<close>)
    with 2 n r b schedule_restart_refused [of s svc r ts a r'] show ?thesis
      by (auto simp: Let_def intro!: safe_emitI)
  next
    case 3
    from schedule_restart_accepted [of s svc r ts c r'] 3 n r b ok j obtain at x where
      eq: "snd (schedule_restart svc ts s) =
        emit n Ev_ServiceRestartScheduled ts c (''Failed'', ''RestartScheduled'') ''restart_policy''
         (s\<lparr> jitter_state := x, records := om_put n (r'\<lparr> rr_restart_state := RS_Scheduled at,
            rr_runtime_state := R_RestartScheduled \<rparr>) (records s) \<rparr>)" and x: "x \<noteq> 0"
      by (auto simp: Let_def)
    let ?r = "r'\<lparr> rr_restart_state := RS_Scheduled at, rr_runtime_state := R_RestartScheduled \<rparr>"
    have "rec_inv (policy (descriptor svc)) ?r"
      using budget_record_rec_inv [OF b inv 3(2)] budget_record_sel [of "policy (descriptor svc)" ts r c r'] b 3
      by (auto simp: rec_inv_def record_active_def)
    then have "safe (s\<lparr> jitter_state := x \<rparr>) (s\<lparr> jitter_state := x, records := om_put n ?r (records s) \<rparr>)"
      using safe_record [of "s\<lparr> jitter_state := x \<rparr>" n r ?r] r svc 3(2)
      by (auto simp: record_active_def)
    with x show ?thesis unfolding eq by (blast intro: safe_emitI safe_trans safe_jitter)
  qed
qed

section \<open>Interpretations of the frame\<close>

lemma benign_rec_inv:
  assumes "benign f" "rec_inv p r"
  shows "rec_inv p (f r)"
proof -
  have "rr_restart_times (f r) = rr_restart_times r"
    and "rr_restart_state (f r) = RS_Scheduled at \<Longrightarrow>
      rr_restart_state r = RS_Scheduled at \<and> rr_quarantined (f r) = rr_quarantined r" for at
    using assms(1) unfolding benign_def by blast+
  with assms(2) show ?thesis unfolding rec_inv_def by metis
qed

lemma executor_inv_run:
  "executor_step\<^sup>*\<^sup>* (ex, w) (ex', w') \<Longrightarrow> executor_inv ex \<Longrightarrow> executor_inv ex'"
  using executor_reach_inv [of "(ex, w)" "(ex', w')"] by simp

lemma safe_executor:
  "(executor_inv (restart_executor s) \<Longrightarrow> executor_inv ex) \<Longrightarrow>
     safe s (s\<lparr> restart_executor := ex, world := w \<rparr>)"
  by (rule safe_same_records) (auto simp: sup_inv_def)

interpretation safety: sup_frame_lifecycle safe
proof unfold_locales
  fix s s' s'' :: "'w supervisor"
  show "safe s s" by (simp add: safe_def quarantine_kept_refl)
  show "safe s s' \<Longrightarrow> safe s' s'' \<Longrightarrow> safe s s''" by (erule safe_trans, assumption)
  show "safe s s' \<Longrightarrow> services s' = services s" by (simp add: safe_def)
next
  fix f n r and s :: "'w supervisor"
  assume "benign f" and r: "map_of (records s) n = Some r"
  then show "safe s (s\<lparr> records := om_put n (f r) (records s) \<rparr>)"
    by (intro safe_record [OF r]) (blast intro: benign_rec_inv, simp add: benign_def)
next
  fix s :: "'w supervisor" and cmd
  show "safe s (s\<lparr> restart_executor := snd (executor_schedule cmd (restart_executor s)) \<rparr>)"
    by (rule safe_same_records) (auto simp: sup_inv_def executor_inv_schedule)
next
  fix s :: "'w supervisor"
  show "safe s (s\<lparr> restart_executor := snd (drain_completions (restart_executor s)) \<rparr>)"
    by (rule safe_same_records) (auto simp: sup_inv_def drain_completions_def executor_inv_completions)
next
  fix s :: "'w supervisor" and ex w
  assume "executor_step\<^sup>*\<^sup>* (restart_executor s, world s) (ex, w)"
  then have "executor_inv (restart_executor s) \<Longrightarrow> executor_inv ex"
    by (rule executor_inv_run)
  then show "safe s (s\<lparr> restart_executor := ex, world := w \<rparr>)"
    by (rule safe_executor)
qed (auto intro: safe_same_records safe_emit safe_schedule_restart simp: sup_inv_def)

text \<open>
  Health and runtime-state probes that do not change what they observe, and the relation
  that follows for the operations that only probe.
\<close>

definition probes_pure :: "'w services \<Rightarrow> bool" where
  "probes_pure svcs \<longleftrightarrow> (\<forall>n svc. map_of svcs n = Some svc \<longrightarrow>
     (\<forall>w. snd (svc_health svc w) = w \<and> snd (svc_runtime_state svc w) = w))"

definition same_world :: "'w supervisor \<Rightarrow> 'w supervisor \<Rightarrow> bool" where
  "same_world s s' \<longleftrightarrow> services s' = services s \<and> (probes_pure (services s) \<longrightarrow> world s' = world s)"

lemma same_world_pre: "reflp same_world" "transp same_world"
  by (auto intro!: reflpI transpI simp: same_world_def)

lemma same_world_prims:
  "keeps P same_world (record_mut n f)"
  "keeps P same_world (jitter d)"
  "keeps P same_world (emod (emit n k t a tr re))"
  by (auto simp: keeps_def same_world_def record_mut_def jitter_def Let_def split: option.splits prod.splits)

lemma same_world_seq:
  "keeps (\<lambda>_. True) same_world m \<Longrightarrow> (\<And>x. keeps (\<lambda>_. True) same_world (f x)) \<Longrightarrow>
   keeps (\<lambda>_. True) same_world (ebind m f)"
  by (intro keeps_ebind same_world_pre) simp_all

lemma same_world_schedule_restart: "same_world s (snd (schedule_restart svc ts s))"
proof -
  have "keeps (\<lambda>_. True) same_world (schedule_restart svc ts)"
    unfolding schedule_restart_def consume_restart_budget_def restart_is_active_def Let_def
    by (auto intro!: same_world_seq same_world_prims
        simp: keeps_pure [OF same_world_pre(1)] split: sum.splits)
  then show ?thesis by (simp add: keeps_def)
qed

interpretation probing: sup_frame same_world
  by unfold_locales
    (auto simp: same_world_schedule_restart, auto simp: same_world_def probes_pure_def)

section \<open>Runs of the supervisor\<close>

text \<open>
  What can happen to a supervisor: calls of its methods, steps of the restart workers, and
  changes of the world the services live in. A shutdown carries the worker steps that happen
  while it waits for the workers.
\<close>

definition worker_run :: "(nat \<times> 'w option) list \<Rightarrow> 'w executor \<times> 'w \<Rightarrow> 'w executor \<times> 'w" where
  "worker_run steps exw = fold (\<lambda>(i, panic). worker_step i panic) steps exw"

datatype 'w sup_op =
    Do_Register "'w managed_service"
  | Do_Replace "'w managed_service"
  | Do_Start string u64
  | Do_StartAll "string \<Rightarrow> u64"
  | Do_Stop string u64
  | Do_Restart string u64
  | Do_Reconcile u64
  | Do_Evaluate u64
  | Do_Shutdown "(nat \<times> 'w option) list" u64
  | Do_Worker nat "'w option"
  | Do_World 'w

fun sup_apply :: "'w sup_op \<Rightarrow> 'w supervisor \<Rightarrow> 'w supervisor" where
  "sup_apply (Do_Register svc) s = snd (register svc s)"
| "sup_apply (Do_Replace svc) s = snd (register_or_replace_inactive svc s)"
| "sup_apply (Do_Start n ts) s = snd (start n ts s)"
| "sup_apply (Do_StartAll now) s = snd (start_all now s)"
| "sup_apply (Do_Stop n ts) s = snd (stop n ts s)"
| "sup_apply (Do_Restart n ts) s = snd (restart n ts s)"
| "sup_apply (Do_Reconcile ts) s = snd (reconcile ts s)"
| "sup_apply (Do_Evaluate ts) s = snd (evaluate_watchdog ts s)"
| "sup_apply (Do_Shutdown steps ts) s = snd (shutdown (worker_run steps) ts s)"
| "sup_apply (Do_Worker i panic) s = (case worker_step i panic (restart_executor s, world s) of
     (ex, w) \<Rightarrow> s\<lparr> restart_executor := ex, world := w \<rparr>)"
| "sup_apply (Do_World w) s = s\<lparr> world := w \<rparr>"

definition sup_run :: "'w sup_op list \<Rightarrow> 'w supervisor \<Rightarrow> 'w supervisor" where
  "sup_run ops s = fold sup_apply ops s"

lemma worker_run_steps: "executor_step\<^sup>*\<^sup>* exw (worker_run steps exw)"
proof (induction steps arbitrary: exw)
  case (Cons st steps)
  obtain i panic where st: "st = (i, panic)" by (cases st)
  have "executor_step\<^sup>*\<^sup>* exw (worker_run steps (worker_step i panic exw))"
    by (rule converse_rtranclp_into_rtranclp [OF executor_step.step_worker Cons.IH])
  then show ?case by (simp add: st worker_run_def)
qed (simp add: worker_run_def)

lemma worker_step_cancellation:
  "cancellation (fst (worker_step i panic exw)) = cancellation (fst exw)"
  using worker_step_frame(6) [of i panic "fst exw" "snd exw"] by (metis prod.collapse)

lemma worker_run_cancellation: "cancellation (fst (worker_run steps exw)) = cancellation (fst exw)"
  by (induction steps arbitrary: exw) (auto simp: worker_run_def worker_step_cancellation)

lemma snapshots_sel: "\<exists>w. snd (snapshots s) = s\<lparr> world := w \<rparr>"
  by (auto simp: snapshots_def split: prod.splits)

lemma snapshot_watchdog_sel: "\<exists>w. snd (snapshot_watchdog ts s) = s\<lparr> world := w \<rparr>"
  using snapshots_sel [of s]
  by (auto simp: snapshot_watchdog_def critical_services_healthy_def Let_def split: prod.splits)

lemma evaluate_watchdog_safe: "safe s (snd (evaluate_watchdog ts s))"
proof -
  obtain tr wd where wd: "wd_evaluate ts (sup_watchdog s) = (tr, wd)" by fastforce
  have snap: "safe s s2 \<Longrightarrow> safe s (snd (snapshot_watchdog ts s2))" for s2
    using snapshot_watchdog_sel [of ts s2] safety.R_world safe_trans by metis
  have "safe s (s\<lparr> sup_watchdog := wd \<rparr>)" by (rule safety.R_watchdog)
  then show ?thesis
    by (auto simp: evaluate_watchdog_def wd Let_def intro!: snap safe_emitI split: option.splits)
qed

section \<open>Every operation is safe\<close>

lemma insert_service_inv:
  assumes inv: "sup_inv s" and d: "descriptor_validate (descriptor svc) = Ok ()"
  shows "sup_inv (insert_service (name (descriptor svc)) svc s)"
  using assms
  by (auto simp: sup_inv_def insert_service_def rec_inv_def runtime_record_default_def)

lemma register_inv: "sup_inv s \<Longrightarrow> sup_inv (snd (register svc s))"
  by (auto simp: register_def Let_def insert_service_inv split: sum.splits)

lemma register_or_replace_inv: "sup_inv s \<Longrightarrow> sup_inv (snd (register_or_replace_inactive svc s))"
  by (auto simp: register_or_replace_inactive_def Let_def insert_service_inv
      split: sum.splits option.splits)

lemma register_quarantine_kept:
  assumes "sup_inv s"
  shows "quarantine_kept s (snd (register svc s))"
proof -
  have "map_of (records s) n = None" if "\<not> om_has (services s) n" for n
  proof -
    have "n \<notin> dom (map_of (records s))" using assms that by (auto simp: sup_inv_def om_has_def)
    then show ?thesis by blast
  qed
  with assms show ?thesis
    by (auto simp: register_def insert_service_def quarantine_kept_def sup_inv_def Let_def
        split: sum.splits)
qed

lemma sup_apply_safe:
  assumes "\<nexists>svc. op = Do_Register svc" "\<nexists>svc. op = Do_Replace svc"
  shows "safe s (sup_apply op s)"
proof -
  have run: "keeps (\<lambda>_. True) safe m \<Longrightarrow> safe s (snd (m s))" for m :: "('a, 'b) sup"
    by (simp add: keeps_def)
  show ?thesis
  proof (cases op)
    case (Do_Shutdown steps ts)
    have "keeps (\<lambda>_. True) safe (shutdown (worker_run steps) ts)"
      by (rule safety.keeps_shutdown)
        (simp_all add: worker_run_steps worker_run_cancellation executor_shutdown_begin_def)
    then show ?thesis by (simp add: Do_Shutdown keeps_def)
  next
    case (Do_Worker i panic)
    obtain ex w where w: "worker_step i panic (restart_executor s, world s) = (ex, w)" by fastforce
    have "executor_step\<^sup>*\<^sup>* (restart_executor s, world s) (ex, w)"
      using executor_step.step_worker [of "(restart_executor s, world s)" i panic] w by auto
    then show ?thesis using w by (simp add: Do_Worker safety.R_executor_close)
  qed (use assms in \<open>auto intro: run safety.keeps_start safety.keeps_start_all safety.keeps_stop
      safety.keeps_restart safety.keeps_reconcile evaluate_watchdog_safe safety.R_world\<close>)
qed

lemma sup_apply_inv: "sup_inv s \<Longrightarrow> sup_inv (sup_apply op s)"
  using sup_apply_safe [of op s] register_inv register_or_replace_inv
  by (cases op) (auto simp: safe_def)

lemma sup_run_inv: "sup_inv s \<Longrightarrow> sup_inv (sup_run ops s)"
  unfolding sup_run_def by (induction ops arbitrary: s) (auto simp: sup_apply_inv)

lemma sup_run_quarantine:
  assumes "sup_inv s" "\<And>svc. Do_Replace svc \<notin> set ops"
  shows "quarantine_kept s (sup_run ops s)"
  using assms
proof (induction ops arbitrary: s)
  case (Cons op ops)
  have "quarantine_kept s (sup_apply op s)"
  proof (cases "\<exists>svc. op = Do_Register svc")
    case True
    with Cons.prems(1) show ?thesis by (auto simp: register_quarantine_kept)
  next
    case False
    with Cons.prems show ?thesis using sup_apply_safe [of op s] by (auto simp: safe_def)
  qed
  moreover have "quarantine_kept (sup_apply op s) (sup_run ops (sup_apply op s))"
    using Cons by (auto intro: sup_apply_inv)
  ultimately show ?case by (simp add: sup_run_def quarantine_kept_trans)
qed (simp add: sup_run_def quarantine_kept_refl)

lemma sup_inv_new: "sup_inv (supervisor_new now ok w)"
proof -
  have "max now 1 \<noteq> 0" by (auto simp: max_def)
  then show ?thesis
    by (simp add: sup_inv_def supervisor_new_def supervisor_assemble_def DEFAULT_EVENT_CAPACITY_def
        executor_inv_new DEFAULT_RESTART_QUEUE_CAPACITY_def DEFAULT_RESTART_WORKERS_def)
qed

section \<open>Restart budget as a sliding window\<close>

text \<open>
  The abstract limiter keeps the whole history of accepted attempts and admits one when the
  window that ends now still has room. The record keeps only the attempts inside the last
  window; with a clock that does not go back it takes the same decisions.
\<close>

definition in_window :: "restart_policy \<Rightarrow> u64 \<Rightarrow> u64 \<Rightarrow> bool" where
  "in_window p t u \<longleftrightarrow> sat_sub t (duration_ms (restart_window p)) < u \<and> u \<le> t"

fun limiter :: "restart_policy \<Rightarrow> u64 list \<Rightarrow> u64 list \<Rightarrow> u64 list" where
  "limiter p hist [] = hist"
| "limiter p hist (t # ts) =
     limiter p (if length (filter (in_window p t) hist) < unat (restart_budget p)
                then hist @ [t] else hist) ts"

fun budget_run :: "restart_policy \<Rightarrow> runtime_record \<Rightarrow> u64 list \<Rightarrow> u64 list" where
  "budget_run p r [] = []"
| "budget_run p r (t # ts) = (case budget_record p t r of
     (Inl _, r') \<Rightarrow> budget_run p r' ts
   | (Inr _, r') \<Rightarrow> t # budget_run p r' ts)"

lemma in_window_filter:
  "\<forall>u\<in>set hist. u \<le> t \<Longrightarrow>
     filter (in_window p t) hist = filter (\<lambda>a. sat_sub t (duration_ms (restart_window p)) < a) hist"
  by (auto simp: in_window_def intro!: filter_cong)

abbreviation window_start :: "restart_policy \<Rightarrow> u64 \<Rightarrow> u64" where
  "window_start p t \<equiv> sat_sub t (duration_ms (restart_window p))"

lemma window_filter_mono:
  "t \<le> t' \<Longrightarrow> filter ((<) (window_start p t')) (filter ((<) (window_start p t)) xs) =
     filter ((<) (window_start p t')) xs"
  using sat_sub_mono [of t t' "duration_ms (restart_window p)"]
  by (auto intro!: filter_cong elim: order_le_less_trans)

text \<open>The record agrees with the history in every window that ends now or later.\<close>

lemma budget_run_limiter:
  assumes "sorted (t0 # ts)" "\<forall>u\<in>set hist. u \<le> t0"
    and "\<And>t. t0 \<le> t \<Longrightarrow>
      filter ((<) (window_start p t)) (rr_restart_times r) = filter ((<) (window_start p t)) hist"
  shows "hist @ budget_run p r ts = limiter p hist ts"
  using assms
proof (induction ts arbitrary: t0 hist r)
  case (Cons t ts)
  let ?cut = "(<) (window_start p t)"
  have le: "t0 \<le> t" "sorted (t # ts)" "\<forall>u\<in>set hist. u \<le> t" using Cons.prems(1,2) by auto
  have times: "filter ?cut (rr_restart_times r) = filter ?cut hist"
    using Cons.prems(3) le(1) by blast
  have win: "filter (in_window p t) hist = filter ?cut hist" by (rule in_window_filter [OF le(3)])
  have later: "filter ((<) (window_start p t')) (filter ?cut hist) = filter ((<) (window_start p t')) hist"
    if "t \<le> t'" for t' by (rule window_filter_mono [OF that])
  obtain dec r' where b: "budget_record p t r = (dec, r')" by fastforce
  show ?case
  proof (cases "length (filter ?cut hist) < unat (restart_budget p)")
    case True
    then have "\<exists>c. dec = Inr c" "rr_restart_times r' = filter ?cut hist @ [t]"
      using b times by (auto simp: budget_record_def Let_def not_le split: if_splits)
    with Cons.IH [of t "hist @ [t]" r'] le b True win later show ?thesis by auto
  next
    case False
    then have "\<exists>a. dec = Inl a" "rr_restart_times r' = filter ?cut hist"
      using b times by (auto simp: budget_record_def Let_def split: if_splits)
    with Cons.IH [of t hist r'] le b False win later show ?thesis by auto
  qed
qed simp

lemma in_window_mono: "t \<le> t' \<Longrightarrow> u \<le> t \<Longrightarrow> in_window p t' u \<Longrightarrow> in_window p t u"
  unfolding in_window_def using sat_sub_mono [of t t'] by (meson order_le_less_trans)

text \<open>No window of the limiter ever holds more attempts than the budget.\<close>

lemma limiter_bound:
  assumes "sorted (t0 # ts)" "\<forall>u\<in>set hist. u \<le> t0"
    and "\<And>t. length (filter (in_window p t) hist) \<le> unat (restart_budget p)"
  shows "length (filter (in_window p t) (limiter p hist ts)) \<le> unat (restart_budget p)"
  using assms
proof (induction ts arbitrary: t0 hist)
  case (Cons t1 ts)
  have le: "sorted (t1 # ts)" "\<forall>u\<in>set hist. u \<le> t1" using Cons.prems(1,2) by auto
  have "length (filter (in_window p t) (hist @ [t1])) \<le> unat (restart_budget p)"
    if "length (filter (in_window p t1) hist) < unat (restart_budget p)" for t
  proof (cases "in_window p t t1")
    case True
    then have "t1 \<le> t" by (simp add: in_window_def)
    then have "length (filter (in_window p t) hist) \<le> length (filter (in_window p t1) hist)"
      using le(2) in_window_mono by (intro length_filter_mono) blast
    with that True show ?thesis by simp
  qed (use Cons.prems(3) in simp)
  with Cons.IH [of t1 "hist @ [t1]"] Cons.IH [of t1 hist] Cons.prems(3) le show ?case by simp
qed simp

section \<open>Start and shutdown\<close>

lemma call_health_pure:
  assumes "probes_pure (services s)" "map_of (services s) n = Some dep"
  shows "call_service (svc_health dep) s = (Ok (fst (svc_health dep (world s))), s)"
proof -
  have "snd (svc_health dep (world s)) = world s" using assms by (simp add: probes_pure_def)
  then have "svc_health dep (world s) = (fst (svc_health dep (world s)), world s)"
    by (metis prod.collapse)
  then show ?thesis unfolding call_service_def by (metis case_prod_conv supervisor.surjective supervisor.update_convs(9))
qed

lemma first_unavailable_pure:
  assumes "probes_pure (services s)" "first_unavailable ds s = (r, s')"
  shows "s' = s"
  using assms(2)
proof (induction ds)
  case (Cons d ds)
  show ?case
  proof (cases "map_of (services s) (service_id d)")
    case (Some dep)
    then have "call_service (svc_health dep) s = (Ok (fst (svc_health dep (world s))), s)"
      by (rule call_health_pure [OF assms(1)])
    with Cons Some show ?thesis by (auto simp: ebind_eval split: if_splits)
  qed (use Cons in \<open>auto split: if_splits\<close>)
qed simp

lemma first_unavailable_detects:
  assumes "probes_pure (services s)" "d \<in> set ds" "map_of (services s) (service_id d) = Some dep"
    and "\<not> accepts (requirement d) (fst (svc_health dep (world s)))"
  shows "\<exists>r. first_unavailable ds s = (r, s) \<and> r \<noteq> Ok None"
  using assms(2)
proof (induction ds)
  case (Cons d' ds)
  show ?case
  proof (cases "map_of (services s) (service_id d')")
    case None
    with Cons assms(3) show ?thesis by auto
  next
    case (Some dep')
    then have "call_service (svc_health dep') s = (Ok (fst (svc_health dep' (world s))), s)"
      by (rule call_health_pure [OF assms(1)])
    with Cons Some assms(3,4) show ?thesis by (auto simp: ebind_eval)
  qed
qed simp




text \<open>
  What a shutdown has to do to the services, said without the supervisor: run the stop callback
  of every enabled service of a list in its order, and give up (\<open>None\<close>) when one fails.
\<close>

definition enabled_services :: "'w services \<Rightarrow> string list \<Rightarrow> 'w managed_service list" where
  "enabled_services svcs ns =
     filter (\<lambda>svc. is_enabled (activation (descriptor svc))) (List.map_filter (map_of svcs) ns)"


lemma enabled_services_simps [simp]:
  "enabled_services svcs [] = []"
  "map_of svcs n = Some svc \<Longrightarrow> enabled_services svcs (n # ns) =
     (if is_enabled (activation (descriptor svc)) then [svc] else []) @ enabled_services svcs ns"
  by (simp_all add: enabled_services_def List.map_filter_simps)



section \<open>Concrete supervisors\<close>

text \<open>
  The inputs of the witnesses: passive services in a world that is their common state, and a
  service whose stop times out and leaves an orphan.
\<close>

definition sample_service :: "string \<Rightarrow> service_dependency list \<Rightarrow> callback_state managed_service" where
  "sample_service n deps = passive_service id (\<lambda>s _. s) (sample_descriptor n deps)"

definition sample_stuck :: "string \<Rightarrow> callback_state managed_service" where
  "sample_stuck n = (sample_service n [])\<lparr> svc_stop := (\<lambda>_ w. (Err (ShutdownTimeout n), w)),
     svc_runtime_state := (\<lambda>w. (R_Orphaned, w)) \<rparr>"

definition sample_supervisor :: "callback_state supervisor" where
  "sample_supervisor = supervisor_new 1 (\<lambda>_. True) passive_new"

definition sample_pair :: "callback_state services" where
  "sample_pair = [(''a'', sample_service ''a'' [\<lparr> service_id = ''b'', requirement = Req_Ready \<rparr>]),
     (''b'', sample_service ''b'' [])]"


lemma sample_fields [simp]:
  "name (sample_descriptor n deps) = n" "dependencies (sample_descriptor n deps) = deps"
  "activation (sample_descriptor n deps) = A_Enabled" "policy (sample_descriptor n deps) = policy_default"
  by (simp_all add: sample_descriptor_def)

lemma sample_descriptor_valid: "descriptor_validate (sample_descriptor ''a'' deps) = Ok ()"
  by (simp add: descriptor_validate_def validate_name_def service_name_byte_def
      char_class_defs policy_validate_def policy_default_def from_secs_def)

lemmas sup_eval = sup_run_def sample_supervisor_def register_def sample_service_def sample_stuck_def
  passive_service_def sample_descriptor_valid supervisor_new_def supervisor_assemble_def om_has_def
  insert_service_def Let_def stop_def get_service_def ebind_eval stop_and_record_def
  call_service_def record_stop_failure_def quarantine_orphan_def record_mut_def shutdown_def
  on_watchdog_def close_executor_def executor_new_def executor_shutdown_begin_def
  executor_shutdown_finish_def worker_run_def validate_def validate_dependencies_def
  topological_order_def visit_init_def om_keys_def record_stopped_def update_record_def is_enabled_def
  embed_def

lemma sample_registered:
  "services (sup_run [Do_Register (sample_service ''a'' [])] sample_supervisor) = [(''a'', sample_service ''a'' [])]"
  by (simp add: sup_eval)

lemma sample_pair_pure: "probes_pure sample_pair"
  by (auto simp: probes_pure_def sample_pair_def sample_service_def passive_service_def embed_def
      passive_health_def passive_runtime_state_def split: if_splits)

section \<open>Properties\<close>

text \<open>
  C3. Every run of a supervisor stays within its bounds: starting empty, after any sequence of
  registrations, starts, stops, restarts, reconciliations, watchdog evaluations, shutdowns,
  worker steps (panics included) and changes of the services' own state, the event buffer and
  the restart queue stay within their capacities, every registered service has a runtime
  record, no record holds more recent restarts than its budget, and a quarantined service has
  no restart scheduled.
\<close>
theorem supervisor_run_bounded:
  assumes "s = sup_run ops (supervisor_new now ok w)" "map_of (services s) n = Some svc"
  shows "length (events s) \<le> event_capacity s \<and>
    length (commands (restart_executor s)) \<le> queue_capacity (restart_executor s) \<and>
    (\<exists>r. map_of (records s) n = Some r \<and>
      length (rr_restart_times r) \<le> unat (restart_budget (policy (descriptor svc))) \<and>
      (rr_quarantined r \<longrightarrow> (\<forall>at. rr_restart_state r \<noteq> RS_Scheduled at)))"
proof -
  have inv: "sup_inv s" unfolding assms(1) by (intro sup_run_inv sup_inv_new)
  then have "n \<in> dom (map_of (records s))" using assms(2) by (auto simp: sup_inv_def)
  then obtain r where "map_of (records s) n = Some r" by blast
  with inv assms(2) show ?thesis by (auto simp: sup_inv_def executor_inv_def rec_inv_def)
qed

text \<open>At a supervisor with one registered service.\<close>
lemma supervisor_run_bounded_witness:
  "length (events (sup_run [Do_Register (sample_service ''a'' [])] sample_supervisor))
     \<le> event_capacity (sup_run [Do_Register (sample_service ''a'' [])] sample_supervisor)"
  using supervisor_run_bounded [OF refl, where n = "''a''" and svc = "sample_service ''a'' []"
      and ops = "[Do_Register (sample_service ''a'' [])]" and now = 1 and ok = "\<lambda>_. True" and w = passive_new]
    sample_registered
  by (simp add: sample_supervisor_def)

text \<open>
  C4. Quarantine is lifted only by replacing the registration: whatever else happens to a
  supervisor, a quarantined service stays quarantined and its restart counter never moves
  again, so no automatic or requested restart is ever scheduled for it.
\<close>
theorem quarantine_permanent:
  assumes "s = sup_run ops0 (supervisor_new now ok w)"
    and "map_of (records s) n = Some r" "rr_quarantined r"
    and "list_all (\<lambda>op. case op of Do_Replace _ \<Rightarrow> False | _ \<Rightarrow> True) ops"
  shows "\<exists>r'. map_of (records (sup_run ops s)) n = Some r' \<and> rr_quarantined r' \<and>
    rr_restart_count r' = rr_restart_count r"
proof -
  have "sup_inv s" unfolding assms(1) by (intro sup_run_inv sup_inv_new)
  moreover have "Do_Replace svc \<notin> set ops" for svc
    using assms(4) by (auto simp: list_all_iff)
  ultimately have "quarantine_kept s (sup_run ops s)" by (rule sup_run_quarantine)
  with assms(2,3) show ?thesis by (auto simp: quarantine_kept_def)
qed

text \<open>A service whose stop timed out is still quarantined after an operator asks for a restart.\<close>
lemma quarantine_permanent_witness:
  "\<exists>r. map_of (records (sup_run [Do_Restart ''a'' 7]
      (sup_run [Do_Register (sample_stuck ''a''), Do_Stop ''a'' 5] sample_supervisor))) ''a'' = Some r \<and> rr_quarantined r"
proof -
  let ?s = "sup_run [Do_Register (sample_stuck ''a''), Do_Stop ''a'' 5] sample_supervisor"
  have "\<exists>r. map_of (records ?s) ''a'' = Some r \<and> rr_quarantined r"
    by (simp add: sup_eval split: prod.splits)
  then obtain r where "map_of (records ?s) ''a'' = Some r" "rr_quarantined r" by blast
  with quarantine_permanent [of ?s "[Do_Register (sample_stuck ''a''), Do_Stop ''a'' 5]" 1 "\<lambda>_. True"
      passive_new "''a''" r "[Do_Restart ''a'' 7]"]
  show ?thesis by (auto simp: sample_supervisor_def)
qed

text \<open>
  C19. The restart budget is a sliding-window limit: fed attempts by a clock that does not go
  back, the trimmed record takes exactly the decisions of a limiter that remembers every
  accepted restart, and no window of the configured length ever contains more accepted
  restarts than the budget.
\<close>
theorem restart_budget_sliding_window:
  assumes "sorted ts"
  shows "budget_run p runtime_record_default ts = limiter p [] ts \<and>
    length (filter (in_window p t) (budget_run p runtime_record_default ts)) \<le> unat (restart_budget p)"
proof -
  have "sorted (0 # ts)" using assms by simp
  moreover from this have "[] @ budget_run p runtime_record_default ts = limiter p [] ts"
    by (rule budget_run_limiter) (simp_all add: runtime_record_default_def)
  ultimately show ?thesis using limiter_bound [of 0 ts "[]" p t] by simp
qed

text \<open>The default budget of five admits five of six quick attempts.\<close>
lemma restart_budget_witness:
  "budget_run policy_default runtime_record_default [1, 2, 3, 4, 5, 6] = [1, 2, 3, 4, 5] \<and>
   length (filter (in_window policy_default 6)
     (budget_run policy_default runtime_record_default [1, 2, 3, 4, 5, 6])) \<le> 5"
proof -
  have "budget_run policy_default runtime_record_default [1, 2, 3, 4, 5, 6] = [1, 2, 3, 4, 5]"
    by (simp add: budget_record_def policy_default_def runtime_record_default_def Let_def
        from_secs_def duration_ms_def sat_sub_def sat_add_def)
  moreover have "unat (restart_budget policy_default) = 5" by (simp add: policy_default_def)
  moreover have "sorted [1, 2, 3, 4, 5, 6 :: u64]" by simp
  ultimately show ?thesis
    using restart_budget_sliding_window [THEN conjunct2, of "[1, 2, 3, 4, 5, 6]" policy_default 6] by metis
qed

text \<open>
  C28. A service never starts before its dependencies are ready: if one registered dependency
  does not meet the requirement declared on it, starting the service (and scheduling a
  restart of it) fails and, with probes that only observe, changes nothing at all, so the
  start callback is not called.
\<close>
theorem start_needs_dependencies:
  assumes "probes_pure (services s)" "map_of (services s) n = Some svc"
    and "is_enabled (activation (descriptor svc))" "d \<in> set (dependencies (descriptor svc))"
    and "map_of (services s) (service_id d) = Some dep"
    and "\<not> accepts (requirement d) (fst (svc_health dep (world s)))"
  shows "\<exists>e. start n ts s = (Err e, s) \<and> restart n ts s = (Err e, s)"
proof -
  obtain r where "first_unavailable (dependencies (descriptor svc)) s = (r, s)" "r \<noteq> Ok None"
    using first_unavailable_detects [OF assms(1,4,5,6)] by blast
  then have "\<exists>e. require_dependencies svc s = (Err e, s)"
    by (cases r) (auto simp: require_dependencies_def first_unavailable_dependency_def ebind_eval
        split: option.splits)
  with assms(2,3) show ?thesis
    by (auto simp: start_def restart_def ebind_eval get_service_def)
qed

text \<open>A service whose dependency was never started cannot start.\<close>
lemma start_needs_dependencies_witness:
  "\<exists>e. start ''a'' 1 (sample_supervisor\<lparr> services := sample_pair \<rparr>) =
     (Err e, sample_supervisor\<lparr> services := sample_pair \<rparr>)"
proof -
  let ?s = "sample_supervisor\<lparr> services := sample_pair \<rparr>"
  let ?d = "\<lparr> service_id = ''b'', requirement = Req_Ready \<rparr>"
  have "probes_pure (services ?s)" by (simp add: sample_pair_pure)
  moreover have "map_of (services ?s) ''a'' = Some (sample_service ''a'' [?d])"
    "map_of (services ?s) (service_id ?d) = Some (sample_service ''b'' [])"
    by (simp_all add: sample_pair_def)
  moreover have "is_enabled (activation (descriptor (sample_service ''a'' [?d])))"
    "?d \<in> set (dependencies (descriptor (sample_service ''a'' [?d])))"
    "\<not> accepts (requirement ?d) (fst (svc_health (sample_service ''b'' []) (world ?s)))"
    by (simp_all add: sample_service_def passive_service_def is_enabled_def accepts_def embed_def
        passive_health_def sample_supervisor_def supervisor_new_def supervisor_assemble_def passive_new_def)
  ultimately show ?thesis using start_needs_dependencies by blast
qed

text \<open>
  C29. Reconciliation never runs lifecycle callbacks: with probes that only observe, a whole
  reconciliation, whether it succeeds or fails, leaves the services exactly as they were;
  restarts it decides on are only recorded and queued.
\<close>
theorem reconcile_only_schedules:
  assumes "probes_pure (services s)"
  shows "world (snd (reconcile ts s)) = world s \<and> services (snd (reconcile ts s)) = services s"
proof -
  have "same_world s (snd (reconcile ts s))" by (rule keeps_run [OF probing.keeps_reconcile])
  with assms show ?thesis by (simp add: same_world_def)
qed

text \<open>Reconciling the two passive services leaves their state alone.\<close>
lemma reconcile_only_schedules_witness:
  "world (snd (reconcile 5 (sample_supervisor\<lparr> services := sample_pair \<rparr>))) = passive_new"
proof -
  have "world (sample_supervisor\<lparr> services := sample_pair \<rparr>) = passive_new"
    by (simp add: sample_supervisor_def supervisor_new_def supervisor_assemble_def)
  then show ?thesis
    using reconcile_only_schedules [of "sample_supervisor\<lparr> services := sample_pair \<rparr>" 5] sample_pair_pure
    by simp
qed



text \<open>
  A requested restart does not look at the activation of the service: unlike start, stop and
  reconciliation, it schedules a restart for a service that deployment has disabled.
\<close>
lemma restart_ignores_activation:
  fixes svc defines "svc \<equiv> (sample_service ''a'' [])\<lparr> descriptor := with_activation A_Disabled (sample_descriptor ''a'' []) \<rparr>"
  defines "s \<equiv> sample_supervisor\<lparr> services := [(''a'', svc)], records := [(''a'', runtime_record_default)] \<rparr>"
  shows "\<exists>r at. map_of (records (snd (restart ''a'' 5 s))) ''a'' = Some r \<and> rr_restart_state r = RS_Scheduled at"
    and "snd (start ''a'' 5 s) = s"
proof -
  have svc [simp]: "name (descriptor svc) = ''a''" "policy (descriptor svc) = policy_default"
    "dependencies (descriptor svc) = []" "activation (descriptor svc) = A_Disabled"
    by (simp_all add: svc_def with_activation_def sample_descriptor_def)
  let ?r = "runtime_record_default"
  have r: "map_of (records s) (name (descriptor svc)) = Some ?r" "omap_ok (records s)"
    by (simp_all add: s_def omap_ok_def)
  obtain r' where "budget_record (policy (descriptor svc)) 5 ?r = (Inr 1, r')"
    by (simp add: budget_record_def policy_default_def runtime_record_default_def Let_def sat_add_def)
  moreover have "mode (policy (descriptor svc)) \<noteq> Mode_Never" "\<not> record_active ?r"
    by (simp_all add: policy_default_def record_active_def runtime_record_default_def)
  ultimately obtain at x where "schedule_restart svc 5 s = (Ok (), emit ''a'' Ev_ServiceRestartScheduled 5 1
      (''Failed'', ''RestartScheduled'') ''restart_policy''
      (s\<lparr> jitter_state := x, records := om_put ''a'' (r'\<lparr> rr_restart_state := RS_Scheduled at,
            rr_runtime_state := R_RestartScheduled \<rparr>) (records s) \<rparr>))"
    using schedule_restart_accepted [OF r, of 5 1 r'] by (auto simp: Let_def)
  moreover have "restart ''a'' 5 s = schedule_restart svc 5 s"
    by (simp add: restart_def ebind_eval get_service_def require_dependencies_def
        first_unavailable_dependency_def s_def)
  ultimately show "\<exists>r at. map_of (records (snd (restart ''a'' 5 s))) ''a'' = Some r \<and> rr_restart_state r = RS_Scheduled at"
    using r(2) by simp
  show "snd (start ''a'' 5 s) = s"
    by (simp add: start_def ebind_eval get_service_def s_def is_enabled_def)
qed

end
