(* ===== verification/Sup_Concurrency.thy ===== *)
theory Sup_Concurrency
  imports Sup_Executor
begin

text \<open>
  The restart executor under concurrent use: any number of threads that call \<open>schedule\<close>,
  \<open>drain_completions\<close> and \<open>shutdown\<close>, and the restart workers, interleaved access by access.
  The calling threads are in the \<open>caller\<close> type of theory \<open>Sup_Executor\<close>, the workers in its
  \<open>worker\<close> type; the lock of the sender is the only lock two calling threads compete for.
\<close>

section \<open>The calls of theory \<open>Sup_Executor\<close> are undisturbed runs\<close>

lemma caller_run_add:
  "caller_run (j + k) late t sh = (case caller_run j late t sh of (t', sh') \<Rightarrow> caller_run k late t' sh')"
  by (induction j arbitrary: t sh) (auto split: prod.splits)

lemma caller_run_drain:
  "completions ex = ds \<Longrightarrow> caller_run (Suc (length ds)) late (Th_Drain got) (ex, locked) =
     (Th_Drained (got @ ds), ex\<lparr> completions := [] \<rparr>, locked)"
  by (induction ds arbitrary: ex got) simp_all

text \<open>\<open>drain_completions\<close> is its thread run alone.\<close>

lemma drain_completions_alone:
  "caller_run (Suc (length (completions ex))) late (Th_Drain []) (ex, locked) =
     (case drain_completions ex of (got, ex') \<Rightarrow> (Th_Drained got, ex', locked))"
  using caller_run_drain [OF refl, of ex late "[]" locked] by (simp add: drain_completions_def)

text \<open>So is the first half of \<open>shutdown\<close>, and the second once the loop is left.\<close>

lemma shutdown_begin_alone:
  "caller_run 2 late Th_Cancel (ex, False) = (Th_Wait, executor_shutdown_begin ex, False)"
  by (simp add: executor_shutdown_begin_def)

lemma caller_run_commands:
  "commands ex = cs \<Longrightarrow> caller_run (Suc (length cs)) late (Th_Commands all) (ex, locked) =
     (Th_Completions all, ex\<lparr> commands := [] \<rparr>, locked)"
  by (induction cs arbitrary: ex) simp_all

lemma caller_run_completions:
  "completions ex = ds \<Longrightarrow> caller_run (Suc (length ds)) late (Th_Completions all) (ex, locked) =
     (Th_Reset all, ex\<lparr> completions := [] \<rparr>, locked)"
  by (induction ds arbitrary: ex) simp_all

lemma shutdown_finish_alone:
  "caller_run (2 + (Suc (length (commands ex)) + (Suc (length (completions ex)) + 2))) True Th_Wait
     (ex, locked) =
     (case executor_shutdown_finish ex of (all, ex') \<Rightarrow> (Th_Closed all, ex', locked))"
proof -
  let ?ex1 = "ex\<lparr> handles_held := False \<rparr>"
  let ?ex2 = "?ex1\<lparr> commands := [] \<rparr>"
  have 1: "caller_run (Suc (length (commands ex))) True (Th_Commands all) (?ex1, locked) =
      (Th_Completions all, ?ex2, locked)" for all
    by (rule caller_run_commands) simp
  have 2: "caller_run (Suc (length (completions ex))) True (Th_Completions all) (?ex2, locked) =
      (Th_Reset all, ?ex2\<lparr> completions := [] \<rparr>, locked)" for all
    by (rule caller_run_completions) simp
  have 3: "caller_run 2 True Th_Wait (ex, locked) =
      (Th_Commands (workers_finished ex), ?ex1, locked)"
    by simp
  show ?thesis
    unfolding caller_run_add 3 prod.case 1 2 by (simp add: executor_shutdown_finish_def)
qed

section \<open>Interleaving\<close>

record 'w concurrent =
  cc_executor :: "'w executor"
  cc_locked :: bool
  cc_callers :: "'w caller list"
  cc_world :: 'w

text \<open>A call that has not touched the executor yet.\<close>

definition fresh_call :: "'w caller \<Rightarrow> bool" where
  "fresh_call t \<longleftrightarrow> (\<exists>cmd. t = Th_Load cmd) \<or> t = Th_Drain [] \<or> t = Th_Cancel"

inductive conc_step :: "'w concurrent \<Rightarrow> 'w concurrent \<Rightarrow> bool" where
  conc_call: "fresh_call t \<Longrightarrow> conc_step c (c\<lparr> cc_callers := cc_callers c @ [t] \<rparr>)"
| conc_access: "i < length (cc_callers c) \<Longrightarrow>
    caller_access late (cc_callers c ! i) (cc_executor c, cc_locked c) = (t, ex, locked) \<Longrightarrow>
    conc_step c (c\<lparr> cc_executor := ex, cc_locked := locked, cc_callers := (cc_callers c)[i := t] \<rparr>)"
| conc_worker: "worker_step i panic (cc_executor c, cc_world c) = (ex, w) \<Longrightarrow>
    conc_step c (c\<lparr> cc_executor := ex, cc_world := w \<rparr>)"
| conc_world: "conc_step c (c\<lparr> cc_world := w \<rparr>)"

definition concurrent_new :: "'w executor \<Rightarrow> 'w \<Rightarrow> 'w concurrent" where
  "concurrent_new ex w = \<lparr> cc_executor = ex, cc_locked = False, cc_callers = [], cc_world = w \<rparr>"

text \<open>
  The parts of the program the invariant speaks of: a thread that holds the lock of the sender,
  one that has counted a command it has neither sent nor withdrawn, one that has closed the
  sender, and one that has let go of the worker handles.
\<close>

fun holds_sender :: "'w caller \<Rightarrow> bool" where
  "holds_sender (Th_Count _) = True" | "holds_sender (Th_Send _) = True"
| "holds_sender Th_Withdraw = True" | "holds_sender (Th_Unlock _) = True"
| "holds_sender _ = False"

fun has_counted :: "'w caller \<Rightarrow> bool" where
  "has_counted (Th_Send _) = True" | "has_counted Th_Withdraw = True" | "has_counted _ = False"

fun has_detached :: "'w caller \<Rightarrow> bool" where
  "has_detached (Th_Commands _) = True" | "has_detached (Th_Completions _) = True"
| "has_detached (Th_Reset _) = True" | "has_detached (Th_Unhealthy _) = True"
| "has_detached (Th_Closed _) = True" | "has_detached _ = False"

definition has_closed :: "'w caller \<Rightarrow> bool" where
  "has_closed t \<longleftrightarrow> t = Th_Wait \<or> t = Th_Join \<or> has_detached t"

definition overshoot :: "'w caller list \<Rightarrow> nat" where
  "overshoot ts = length (filter has_counted ts)"

definition conc_inv :: "'w executor \<Rightarrow> bool \<Rightarrow> 'w caller list \<Rightarrow> bool" where
  "conc_inv ex locked ts \<longleftrightarrow>
     queue_capacity ex + worker_count ex + 2 < 2 ^ 64 \<and>
     length (commands ex) \<le> queue_capacity ex \<and>
     length (workers ex) \<le> worker_count ex \<and>
     length (completions ex) \<le> completion_capacity ex \<and>
     length (filter holds_sender ts) = (if locked then 1 else 0) \<and>
     (locked \<longrightarrow> sender_open ex) \<and> (sender_open ex \<longrightarrow> handles_held ex) \<and>
     list_all (\<lambda>t. (has_closed t \<longrightarrow> \<not> sender_open ex) \<and> (has_detached t \<longrightarrow> \<not> handles_held ex)) ts \<and>
     (if handles_held ex then unat (pending ex) = length (commands ex) + busy_count ex + overshoot ts
      else unat (pending ex) \<le> queue_capacity ex + worker_count ex)"

lemma overshoot_le: "overshoot ts \<le> length (filter holds_sender ts)"
proof -
  have "has_counted t \<Longrightarrow> holds_sender t" for t :: "'w caller" by (cases t) auto
  then show ?thesis unfolding overshoot_def by (induction ts) auto
qed

lemma conc_inv_new:
  assumes "max c 1 + max n 1 + 2 < 2 ^ 64"
  shows "conc_inv (executor_new c n ok) False []"
proof -
  have "length (filter ok [0..<max n 1]) \<le> max n 1"
    by (metis length_filter_le length_upt minus_nat.diff_0)
  with assms show ?thesis
    by (simp add: conc_inv_def executor_new_def spawn_workers_def busy_count_def overshoot_def
        completion_capacity_def Let_def comp_def)
qed

lemma conc_inv_call:
  assumes "conc_inv ex locked ts" "fresh_call t"
  shows "conc_inv ex locked (ts @ [t])"
  using assms by (auto simp: conc_inv_def fresh_call_def overshoot_def has_closed_def)

lemma conc_inv_worker:
  assumes inv: "conc_inv ex locked ts" and st: "worker_step i panic (ex, w) = (ex', w')"
  shows "conc_inv ex' locked ts"
  using worker_step_frame [OF st] worker_step_counters [OF st] inv
  by (auto simp: conc_inv_def completion_capacity_def unat_sat_sub split: if_splits)

text \<open>Every access of a calling thread keeps it.\<close>

lemma conc_inv_set_caller:
  assumes inv: "conc_inv ex locked ts" and i: "i < length ts"
    and same: "holds_sender t = holds_sender (ts ! i)" "has_counted t = has_counted (ts ! i)"
    and pc: "has_closed t \<longrightarrow> \<not> sender_open ex" "has_detached t \<longrightarrow> \<not> handles_held ex"
  shows "conc_inv ex locked (ts[i := t])"
  using inv pc length_filter_update [OF i, of holds_sender t] length_filter_update [OF i, of has_counted t]
  by (auto simp: conc_inv_def overshoot_def same list_all_iff dest!: set_update_subset_insert [THEN subsetD]
      split: if_splits)

lemma conc_inv_callers:
  assumes inv: "conc_inv ex locked ts" and i: "i < length ts"
    and pc: "has_closed t \<longrightarrow> \<not> sender_open ex'" "has_detached t \<longrightarrow> \<not> handles_held ex'"
    and mono: "sender_open ex' \<longrightarrow> sender_open ex" "handles_held ex' \<longrightarrow> handles_held ex"
  shows "list_all (\<lambda>t. (has_closed t \<longrightarrow> \<not> sender_open ex') \<and> (has_detached t \<longrightarrow> \<not> handles_held ex'))
    (ts[i := t])"
  using inv pc mono
  by (auto simp: conc_inv_def list_all_iff dest!: set_update_subset_insert [THEN subsetD])

lemma conc_inv_caller_pc:
  assumes "conc_inv ex locked ts" "i < length ts"
  shows "has_closed (ts ! i) \<Longrightarrow> \<not> sender_open ex" "has_detached (ts ! i) \<Longrightarrow> \<not> handles_held ex"
    "holds_sender (ts ! i) \<Longrightarrow> locked \<and> sender_open ex \<and> handles_held ex"
    "overshoot ts \<le> 1"
proof -
  show "has_closed (ts ! i) \<Longrightarrow> \<not> sender_open ex" "has_detached (ts ! i) \<Longrightarrow> \<not> handles_held ex"
    using assms by (auto simp: conc_inv_def list_all_length)
  show "locked \<and> sender_open ex \<and> handles_held ex" if h: "holds_sender (ts ! i)"
  proof -
    have "ts ! i \<in> set (filter holds_sender ts)" using assms(2) h by simp
    then have "filter holds_sender ts \<noteq> []" by force
    then show ?thesis using assms(1) by (auto simp: conc_inv_def split: if_splits)
  qed
  show "overshoot ts \<le> 1"
    using overshoot_le [of ts] assms(1) by (simp add: conc_inv_def split: if_splits)
qed

lemma conc_inv_access:
  assumes inv: "conc_inv ex locked ts" and i: "i < length ts"
    and acc: "caller_access late (ts ! i) (ex, locked) = (t, ex', locked')"
  shows "conc_inv ex' locked' (ts[i := t])"
proof -
  note acc' = acc [symmetric]
  note stay = conc_inv_set_caller [OF inv i]
  note pc = conc_inv_caller_pc [OF inv i]
  note callers = conc_inv_callers [OF inv i, of t ex']
  note held = length_filter_update [OF i, of holds_sender t]
  note counted = length_filter_update [OF i, of has_counted t]
  have cap: "queue_capacity ex + worker_count ex + 2 < 2 ^ 64"
    "length (commands ex) \<le> queue_capacity ex" "busy_count ex \<le> worker_count ex"
    using inv busy_count_le [of ex] by (auto simp: conc_inv_def)
  have busy [simp]: "busy_count (ex\<lparr> pending := p \<rparr>) = busy_count ex"
    "busy_count (ex\<lparr> commands := cs \<rparr>) = busy_count ex"
    "busy_count (ex\<lparr> completions := ds \<rparr>) = busy_count ex"
    "busy_count (ex\<lparr> cancellation := b \<rparr>) = busy_count ex"
    "busy_count (ex\<lparr> sender_open := b \<rparr>) = busy_count ex"
    "busy_count (ex\<lparr> handles_held := b \<rparr>) = busy_count ex"
    "busy_count (ex\<lparr> ex_healthy := b \<rparr>) = busy_count ex" for p cs ds b
    by (simp_all add: busy_count_def)
  show ?thesis
  proof (cases "ts ! i")
    case (Th_Load cmd)
    with acc' stay show ?thesis by (simp add: has_closed_def split: if_splits)
  next
    case (Th_Lock cmd)
    show ?thesis
    proof (cases "locked \<or> \<not> sender_open ex")
      case True
      with Th_Lock acc' stay show ?thesis by (simp add: has_closed_def split: if_splits)
    next
      case False
      with Th_Lock acc' inv held counted callers show ?thesis
        by (simp add: conc_inv_def overshoot_def has_closed_def)
    qed
  next
    case (Th_Count cmd)
    have "unat (pending ex) + 1 < 2 ^ 64"
      using inv pc(3,4) cap Th_Count held by (simp add: conc_inv_def overshoot_def)
    then have "unat (pending ex + 1) = unat (pending ex) + 1" by (simp add: unat_word_ariths)
    with Th_Count acc' inv held counted callers pc(3) show ?thesis
      by (simp add: conc_inv_def overshoot_def has_closed_def completion_capacity_def)
  next
    case (Th_Send cmd)
    with acc' inv held counted callers pc(3) show ?thesis
      by (simp add: conc_inv_def overshoot_def has_closed_def completion_capacity_def split: if_splits)
  next
    case Th_Withdraw
    have "ts ! i \<in> set (filter has_counted ts)" using nth_mem [OF i] Th_Withdraw by simp
    then have "0 < overshoot ts" by (auto simp: overshoot_def filter_empty_conv)
    then have "0 < unat (pending ex)" using inv pc(3) Th_Withdraw by (simp add: conc_inv_def)
    then have "unat (pending ex - 1) = unat (pending ex) - 1"
      by (simp add: unat_sub word_le_nat_alt)
    with Th_Withdraw acc' inv held counted callers pc(3) show ?thesis
      by (simp add: conc_inv_def overshoot_def has_closed_def completion_capacity_def)
  next
    case (Th_Unlock r)
    with acc' inv held counted callers pc(3) show ?thesis
      by (simp add: conc_inv_def overshoot_def has_closed_def split: if_splits)
  next
    case (Th_Returned r)
    with acc' stay show ?thesis by (simp add: has_closed_def)
  next
    case (Th_Drain got)
    with acc' stay inv held counted callers show ?thesis
      by (auto simp: conc_inv_def overshoot_def has_closed_def completion_capacity_def split: list.splits)
  next
    case (Th_Drained got)
    with acc' stay show ?thesis by (simp add: has_closed_def)
  next
    case Th_Cancel
    with acc' inv held counted callers show ?thesis
      by (simp add: conc_inv_def overshoot_def has_closed_def completion_capacity_def)
  next
    case Th_Take
    with acc' stay inv held counted callers show ?thesis
      by (simp add: conc_inv_def overshoot_def has_closed_def completion_capacity_def split: if_splits)
  next
    case Th_Wait
    with acc' stay pc(1) show ?thesis by (simp add: has_closed_def split: if_splits)
  next
    case Th_Join
    then have "\<not> sender_open ex" using pc(1) by (simp add: has_closed_def)
    then have "overshoot ts = 0" using inv overshoot_le [of ts] by (auto simp: conc_inv_def)
    with Th_Join acc' inv held counted callers pc(1) cap show ?thesis
      by (auto simp: conc_inv_def overshoot_def has_closed_def completion_capacity_def split: if_splits)
  next
    case (Th_Commands all)
    with acc' stay inv held counted callers pc(1,2) show ?thesis
      by (auto simp: conc_inv_def overshoot_def has_closed_def completion_capacity_def split: list.splits)
  next
    case (Th_Completions all)
    with acc' stay inv held counted callers pc(1,2) show ?thesis
      by (auto simp: conc_inv_def overshoot_def has_closed_def completion_capacity_def split: list.splits)
  next
    case (Th_Reset all)
    with acc' inv held counted callers pc(1,2) show ?thesis
      by (simp add: conc_inv_def overshoot_def has_closed_def completion_capacity_def)
  next
    case (Th_Unhealthy all)
    with acc' inv held counted callers pc(1,2) show ?thesis
      by (simp add: conc_inv_def overshoot_def has_closed_def completion_capacity_def)
  next
    case (Th_Closed all)
    with acc' stay pc(1,2) show ?thesis by (simp add: has_closed_def)
  qed
qed

lemma conc_inv_step:
  assumes "conc_step c c'" "conc_inv (cc_executor c) (cc_locked c) (cc_callers c)"
  shows "conc_inv (cc_executor c') (cc_locked c') (cc_callers c')"
  using assms
  by (cases rule: conc_step.cases) (simp_all add: conc_inv_call conc_inv_access conc_inv_worker)

lemma conc_step_config:
  assumes "conc_step c c'"
  shows "queue_capacity (cc_executor c') = queue_capacity (cc_executor c) \<and>
    worker_count (cc_executor c') = worker_count (cc_executor c)"
  using assms
proof (cases rule: conc_step.cases)
  case (conc_access i late t ex locked)
  then show ?thesis
    by (cases "cc_callers c ! i") (auto split: if_splits list.splits)
next
  case (conc_worker i panic ex w)
  then show ?thesis using worker_step_frame(4,5) by fastforce
qed simp_all

lemma conc_reach_inv:
  assumes "conc_step\<^sup>*\<^sup>* c c'" "conc_inv (cc_executor c) (cc_locked c) (cc_callers c)"
  shows "conc_inv (cc_executor c') (cc_locked c') (cc_callers c') \<and>
    queue_capacity (cc_executor c') = queue_capacity (cc_executor c) \<and>
    worker_count (cc_executor c') = worker_count (cc_executor c)"
  using assms
  by (induction rule: rtranclp_induct) (auto dest: conc_inv_step conc_step_config)

section \<open>Properties\<close>

text \<open>
  C31. The restart executor stays bounded under every interleaving, access by access, of any
  number of threads that schedule, drain and shut down with the two workers and their possibly
  panicking callbacks. Starting from the executor the supervisor creates, the queue never holds
  more than 64 commands and undelivered completions never exceed 66. As long as \<open>shutdown\<close> has
  not let go of the workers, the pending counter is exactly the number of queued commands and
  busy workers, plus one while a thread stands between its \<open>fetch_add\<close> and its \<open>try_send\<close> or
  \<open>fetch_sub\<close>: at most one thread does, so the counter never exceeds 67, and 66 when none does.
\<close>
theorem restart_executor_bounded:
  "conc_step\<^sup>*\<^sup>* (concurrent_new
       (executor_new DEFAULT_RESTART_QUEUE_CAPACITY DEFAULT_RESTART_WORKERS ok) w) c \<Longrightarrow>
     length (commands (cc_executor c)) \<le> 64 \<and> length (completions (cc_executor c)) \<le> 66 \<and>
     overshoot (cc_callers c) \<le> 1 \<and> unat (pending (cc_executor c)) \<le> 66 + overshoot (cc_callers c) \<and>
     (handles_held (cc_executor c) \<longrightarrow> unat (pending (cc_executor c)) =
        length (commands (cc_executor c)) + busy_count (cc_executor c) + overshoot (cc_callers c))"
proof -
  let ?ex0 = "executor_new DEFAULT_RESTART_QUEUE_CAPACITY DEFAULT_RESTART_WORKERS ok :: 'a executor"
  assume "conc_step\<^sup>*\<^sup>* (concurrent_new ?ex0 w) c"
  moreover have "conc_inv ?ex0 False []"
    by (rule conc_inv_new) (simp add: DEFAULT_RESTART_QUEUE_CAPACITY_def DEFAULT_RESTART_WORKERS_def)
  moreover have "queue_capacity ?ex0 = 64" "worker_count ?ex0 = 2"
    by (simp_all add: executor_new_def DEFAULT_RESTART_QUEUE_CAPACITY_def
        DEFAULT_RESTART_WORKERS_def Let_def split: prod.splits)
  ultimately have "conc_inv (cc_executor c) (cc_locked c) (cc_callers c)"
    "queue_capacity (cc_executor c) = 64" "worker_count (cc_executor c) = 2"
    using conc_reach_inv [of "concurrent_new ?ex0 w" c] by (simp_all add: concurrent_new_def)
  with busy_count_le [of "cc_executor c"] overshoot_le [of "cc_callers c"] show ?thesis
    by (auto simp: conc_inv_def completion_capacity_def split: if_splits)
qed

text \<open>
  The theorem on a run in which a thread has counted its command and not sent it yet: the
  counter is one above the queued commands and busy workers.
\<close>
lemma restart_executor_bounded_witness:
  "\<exists>c. conc_step\<^sup>*\<^sup>* (concurrent_new
       (executor_new DEFAULT_RESTART_QUEUE_CAPACITY DEFAULT_RESTART_WORKERS (\<lambda>_. True)) passive_new) c
     \<and> cc_callers c = [Th_Send sample_command]
     \<and> unat (pending (cc_executor c)) =
        length (commands (cc_executor c)) + busy_count (cc_executor c) + 1"
proof -
  let ?c0 = "concurrent_new (executor_new DEFAULT_RESTART_QUEUE_CAPACITY DEFAULT_RESTART_WORKERS
    (\<lambda>_. True)) passive_new"
  let ?ex = "cc_executor ?c0"
  let ?c1 = "?c0\<lparr> cc_callers := [Th_Load sample_command] \<rparr>"
  let ?c2 = "?c1\<lparr> cc_callers := [Th_Lock sample_command] \<rparr>"
  let ?c3 = "?c2\<lparr> cc_locked := True, cc_callers := [Th_Count sample_command] \<rparr>"
  let ?c4 = "?c3\<lparr> cc_executor := ?ex\<lparr> pending := pending ?ex + 1 \<rparr>,
    cc_callers := [Th_Send sample_command] \<rparr>"
  have open_ex: "\<not> cancellation ?ex" "sender_open ?ex" "handles_held ?ex"
    by (simp_all add: concurrent_new_def executor_new_def Let_def split: prod.splits)
  have s1: "conc_step ?c0 ?c1"
    using conc_call [of "Th_Load sample_command" ?c0] by (simp add: fresh_call_def concurrent_new_def)
  have s2: "conc_step ?c1 ?c2"
    using conc_access [of 0 ?c1 False "Th_Lock sample_command" ?ex False] open_ex(1)
    by (simp add: concurrent_new_def)
  have s3: "conc_step ?c2 ?c3"
    using conc_access [of 0 ?c2 False "Th_Count sample_command" ?ex True] open_ex(2)
    by (simp add: concurrent_new_def)
  have s4: "conc_step ?c3 ?c4"
    using conc_access [of 0 ?c3 False "Th_Send sample_command" "?ex\<lparr> pending := pending ?ex + 1 \<rparr>" True]
    by (simp add: concurrent_new_def)
  have run: "conc_step\<^sup>*\<^sup>* ?c0 ?c4"
    using s1 s2 s3 s4 by (meson converse_rtranclp_into_rtranclp rtranclp.rtrancl_refl)
  have "unat (pending (cc_executor ?c4)) =
      length (commands (cc_executor ?c4)) + busy_count (cc_executor ?c4) + 1"
    using restart_executor_bounded [OF run] open_ex(3) by (simp add: overshoot_def)
  with run show ?thesis by (intro exI [of _ ?c4]) simp
qed

end
