(* ===== verification/Wire_Bytes.thy ===== *)
theory Wire_Bytes
  imports Prelude
begin

text \<open>
  Byte-level helpers of the wire formats: big-endian integers of a fixed width with their
  round trips, texts as UTF-8 bytes, the validity check of \<open>str::from_utf8\<close>, and reading
  from a byte slice at a cursor.
\<close>

named_theorems reads_simps \<open>what a successful read at a cursor says about the input\<close>

section \<open>Big-endian integers\<close>

fun be_nat :: "nat \<Rightarrow> nat \<Rightarrow> bytes" where
  "be_nat 0 v = []"
| "be_nat (Suc n) v = be_nat n (v div 256) @ [of_nat (v mod 256)]"

definition nat_be :: "bytes \<Rightarrow> nat" where
  "nat_be bs = foldl (\<lambda>acc b. acc * 256 + unat b) 0 bs"

lemma nat_be_Nil [simp]: "nat_be [] = 0"
  by (simp add: nat_be_def)

lemma nat_be_snoc [simp]: "nat_be (bs @ [b]) = nat_be bs * 256 + unat b"
  by (simp add: nat_be_def)

lemma length_be_nat [simp]: "length (be_nat n v) = n"
  by (induction n v rule: be_nat.induct) auto

lemma nat_be_nat [simp]: "v < 256 ^ n \<Longrightarrow> nat_be (be_nat n v) = v"
proof (induction n v rule: be_nat.induct)
  case (2 n v)
  then have "v div 256 < 256 ^ n" by (simp add: less_mult_imp_div_less mult.commute)
  moreover have "unat (of_nat (v mod 256) :: u8) = v mod 256" by (simp add: unat_of_nat)
  ultimately show ?case using 2 by simp
qed simp

lemma nat_be_less: "nat_be bs < 256 ^ length bs"
proof (induction bs rule: rev_induct)
  case (snoc b bs)
  have "unat b < 256" using unsigned_less [of b] by simp
  with snoc show ?case by simp
qed simp

lemma be_nat_be [simp]: "be_nat (length bs) (nat_be bs) = bs"
proof (induction bs rule: rev_induct)
  case (snoc b bs)
  have b: "unat b < 256" using unsigned_less [of b] by simp
  then have "(nat_be bs * 256 + unat b) div 256 = nat_be bs"
    and "(nat_be bs * 256 + unat b) mod 256 = unat b" by simp_all
  with snoc show ?case by simp
qed simp

text \<open>A length that fits a word is the word of that length.\<close>

lemma unat_eq_length_iff:
  "unat (len :: 'a::len word) = n \<longleftrightarrow> len = of_nat n \<and> n < 2 ^ LENGTH('a)"
proof
  assume "unat len = n"
  then show "len = of_nat n \<and> n < 2 ^ LENGTH('a)"
    using unsigned_less [of len, where 'a = nat] by auto
next
  assume "len = of_nat n \<and> n < 2 ^ LENGTH('a)"
  then show "unat len = n" by (simp add: unat_of_nat take_bit_nat_eq_self)
qed

definition u16_be :: "u16 \<Rightarrow> bytes" where "u16_be v = be_nat 2 (unat v)"
definition u32_be :: "u32 \<Rightarrow> bytes" where "u32_be v = be_nat 4 (unat v)"
definition u64_be :: "u64 \<Rightarrow> bytes" where "u64_be v = be_nat 8 (unat v)"

lemma length_be [simp]: "length (u16_be a) = 2" "length (u32_be b) = 4" "length (u64_be c) = 8"
  by (simp_all add: u16_be_def u32_be_def u64_be_def)

lemma of_nat_be_iff:
  assumes "length bs = n" "LENGTH('a::len) = 8 * n"
  shows "(of_nat (nat_be bs) :: 'a word) = v \<longleftrightarrow> bs = be_nat n (unat v)"
proof
  assume v: "(of_nat (nat_be bs) :: 'a word) = v"
  have "nat_be bs < 2 ^ LENGTH('a)"
    using nat_be_less [of bs] assms by (simp add: power_mult)
  then have "unat v = nat_be bs" using v by (auto simp: unat_of_nat)
  with assms(1) show "bs = be_nat n (unat v)" by (metis be_nat_be)
next
  assume bs: "bs = be_nat n (unat v)"
  have "unat v < 256 ^ n" using unsigned_less [of v] assms(2) by (simp add: power_mult)
  with bs show "(of_nat (nat_be bs) :: 'a word) = v" by simp
qed

lemma word_be_roundtrip:
  "of_nat (nat_be (u16_be v)) = v" "of_nat (nat_be (u32_be v')) = v'" "of_nat (nat_be (u64_be v'')) = v''"
  "length bs = 2 \<Longrightarrow> u16_be (of_nat (nat_be bs)) = bs"
  "length bs = 4 \<Longrightarrow> u32_be (of_nat (nat_be bs)) = bs"
  "length bs = 8 \<Longrightarrow> u64_be (of_nat (nat_be bs)) = bs"
  using of_nat_be_iff [of "u16_be v" 2 v] of_nat_be_iff [of "u32_be v'" 4 v']
    of_nat_be_iff [of "u64_be v''" 8 v''] of_nat_be_iff [of bs 2 "of_nat (nat_be bs) :: u16"]
    of_nat_be_iff [of bs 4 "of_nat (nat_be bs) :: u32"] of_nat_be_iff [of bs 8 "of_nat (nat_be bs) :: u64"]
  by (simp_all add: u16_be_def u32_be_def u64_be_def)

section \<open>Texts\<close>

definition text_bytes :: "string \<Rightarrow> bytes" where
  "text_bytes s = map (\<lambda>c. of_nat (byte_of c)) s"

definition bytes_text :: "bytes \<Rightarrow> string" where
  "bytes_text bs = map (\<lambda>b. char_of (unat b)) bs"

lemma byte_of_less: "byte_of c < 256"
  by (simp add: byte_of_def)

lemma bytes_text_bytes [simp]: "bytes_text (text_bytes s) = s"
proof -
  have "char_of (unat (of_nat (byte_of c) :: u8)) = c" for c
    using byte_of_less [of c] by (simp add: unat_of_nat byte_of_def)
  then show ?thesis by (simp add: bytes_text_def text_bytes_def comp_def)
qed

lemma text_bytes_text [simp]: "text_bytes (bytes_text bs) = bs"
proof -
  have "of_nat (byte_of (char_of (unat b))) = b" for b :: u8
  proof -
    have "unat b < 256" using unsigned_less [of b, where 'a = nat] by simp
    then have "unat b mod 256 = unat b" by simp
    then show ?thesis by (simp add: byte_of_def)
  qed
  then show ?thesis by (simp add: bytes_text_def text_bytes_def comp_def)
qed

lemma length_text_bytes [simp]: "length (text_bytes s) = length s"
  by (simp add: text_bytes_def)

lemma bytes_text_eq_iff: "bytes_text bs = s \<longleftrightarrow> bs = text_bytes s"
  by auto

text \<open>\<open>str::from_utf8\<close>: the well-formed UTF-8 byte sequences.\<close>

definition utf8_tail :: "nat \<Rightarrow> bool" where
  "utf8_tail b = (128 \<le> b \<and> b < 192)"

fun valid_utf8 :: "nat list \<Rightarrow> bool" where
  "valid_utf8 [] = True"
| "valid_utf8 (a # bs) =
     (if a < 128 then valid_utf8 bs
      else case bs of
        [] \<Rightarrow> False
      | b # cs \<Rightarrow>
          if 194 \<le> a \<and> a < 224 then utf8_tail b \<and> valid_utf8 cs
          else (case cs of
            [] \<Rightarrow> False
          | c # ds \<Rightarrow>
              if 224 \<le> a \<and> a < 240
              then utf8_tail b \<and> utf8_tail c \<and> (a = 224 \<longrightarrow> 160 \<le> b) \<and> (a = 237 \<longrightarrow> b < 160) \<and> valid_utf8 ds
              else (case ds of
                [] \<Rightarrow> False
              | d # es \<Rightarrow> 240 \<le> a \<and> a < 245 \<and> utf8_tail b \<and> utf8_tail c \<and> utf8_tail d \<and>
                  (a = 240 \<longrightarrow> 144 \<le> b) \<and> (a = 244 \<longrightarrow> b < 144) \<and> valid_utf8 es)))"

lemma valid_utf8_ascii: "\<forall>b\<in>set bs. b < 128 \<Longrightarrow> valid_utf8 bs"
  by (induction bs rule: valid_utf8.induct) auto

lemma valid_utf8_text:
  assumes "\<forall>c\<in>set s. byte_of c < 128"
  shows "valid_utf8 (map unat (text_bytes s))"
proof (rule valid_utf8_ascii)
  show "\<forall>b\<in>set (map unat (text_bytes s)). b < 128"
    using assms byte_of_less by (auto simp: text_bytes_def unat_of_nat)
qed

section \<open>Reading at a cursor\<close>

text \<open>
  \<open>take_bytes\<close> of the parsers: \<open>fail\<close> is the error of a read past the end. The cursor is a
  \<open>usize\<close> that never exceeds the slice length, so its addition does not overflow.
\<close>

definition take_bytes :: "'e \<Rightarrow> bytes \<Rightarrow> nat \<Rightarrow> (nat, 'e, bytes) eff" where
  "take_bytes fail input n cursor =
     (if cursor + n \<le> length input then (Ok (take n (drop cursor input)), cursor + n)
      else (Err fail, cursor))"

text \<open>
  \<open>reads input c xs c'\<close>: the input holds \<open>xs\<close> from cursor \<open>c\<close> up to cursor \<open>c'\<close>. A reader is
  characterised by the bytes it accepts; the bytes of a sequence of reads are appended.
\<close>

definition reads :: "bytes \<Rightarrow> nat \<Rightarrow> bytes \<Rightarrow> nat \<Rightarrow> bool" where
  "reads input c xs c' \<longleftrightarrow> c' = c + length xs \<and> c' \<le> length input \<and> drop c input = xs @ drop c' input"

lemma reads_append: "reads input c (xs @ ys) c'' \<longleftrightarrow> (\<exists>c'. reads input c xs c' \<and> reads input c' ys c'')"
proof
  assume r: "reads input c (xs @ ys) c''"
  then have d: "drop c input = xs @ ys @ drop c'' input" and c: "c'' = c + length xs + length ys"
    and le: "c'' \<le> length input" by (auto simp: reads_def)
  have "drop (c + length xs) input = drop (length xs) (drop c input)" by (simp add: add.commute)
  with d have "drop (c + length xs) input = ys @ drop c'' input" by simp
  with d c le have "reads input c xs (c + length xs) \<and> reads input (c + length xs) ys c''"
    by (simp add: reads_def)
  then show "\<exists>c'. reads input c xs c' \<and> reads input c' ys c''" by blast
qed (auto simp: reads_def)

lemma reads_all: "reads input c xs (length input) \<longleftrightarrow> c \<le> length input \<and> drop c input = xs"
proof
  assume "reads input c xs (length input)"
  then show "c \<le> length input \<and> drop c input = xs" by (simp add: reads_def)
next
  assume "c \<le> length input \<and> drop c input = xs"
  then show "reads input c xs (length input)" by (auto simp: reads_def)
qed

lemma take_bytes_Ok_iff [reads_simps]:
  "take_bytes fail input n c = (Inr bs, c') \<longleftrightarrow> length bs = n \<and> reads input c bs c'"
proof
  assume "take_bytes fail input n c = (Inr bs, c')"
  then have "c' = c + n" "c + n \<le> length input" "bs = take n (drop c input)"
    by (auto simp: take_bytes_def split: if_splits)
  then show "length bs = n \<and> reads input c bs c'"
    unfolding reads_def
    by (metis add.commute append_take_drop_id drop_drop length_drop length_take min.absorb2 diff_le_mono add_diff_cancel_left')
next
  assume r: "length bs = n \<and> reads input c bs c'"
  then have "take n (drop c input) = bs" by (simp add: reads_def)
  with r show "take_bytes fail input n c = (Inr bs, c')" by (simp add: take_bytes_def reads_def)
qed

definition take_u16 :: "'e \<Rightarrow> bytes \<Rightarrow> (nat, 'e, u16) eff" where
  "take_u16 fail input = ebind (take_bytes fail input 2) (\<lambda>bs. eret (of_nat (nat_be bs)))"

definition take_u32 :: "'e \<Rightarrow> bytes \<Rightarrow> (nat, 'e, u32) eff" where
  "take_u32 fail input = ebind (take_bytes fail input 4) (\<lambda>bs. eret (of_nat (nat_be bs)))"

definition take_u64 :: "'e \<Rightarrow> bytes \<Rightarrow> (nat, 'e, u64) eff" where
  "take_u64 fail input = ebind (take_bytes fail input 8) (\<lambda>bs. eret (of_nat (nat_be bs)))"

lemma take_word_Ok_iff [reads_simps]:
  "take_u16 fail input c = (Inr v, c') \<longleftrightarrow> reads input c (u16_be v) c'"
  "take_u32 fail input c = (Inr v', c') \<longleftrightarrow> reads input c (u32_be v') c'"
  "take_u64 fail input c = (Inr v'', c') \<longleftrightarrow> reads input c (u64_be v'') c'"
  by (auto simp: take_u16_def take_u32_def take_u64_def ebind_Ok_iff eret_Ok_iff
      take_bytes_Ok_iff word_be_roundtrip)
    (metis length_be(1) word_be_roundtrip(1), metis length_be(2) word_be_roundtrip(2),
      metis length_be(3) word_be_roundtrip(3))

end
