(* ===== verification/Identifiers.thy ===== *)
theory Identifiers
  imports Prelude "HOL-Library.Sublist"
begin

text \<open>
  The identifier checks of \<open>appcore-types\<close> (\<open>ids.rs\<close>), \<open>appcore-contracts\<close>
  (\<open>identifiers.rs\<close>) and \<open>appcore-dnt\<close> (\<open>ids.rs\<close>). Every identifier that passes one of them is
  a short ASCII string; the lemmas say which separators it cannot contain, which is what the
  composite keys built from identifiers rely on.
\<close>

section \<open>Runtime identifiers\<close>

datatype identifier_error =
  Id_Empty | Id_TooShort | Id_TooLong | Id_ControlCharacters | Id_PathTraversal
  | Id_InvalidStart | Id_InvalidChar

definition MAX_IDENTIFIER_LEN :: nat where "MAX_IDENTIFIER_LEN = 128"
definition MAX_DISTRIBUTED_IDENTIFIER_LEN :: nat where "MAX_DISTRIBUTED_IDENTIFIER_LEN = 80"

fun has_dotdot :: "string \<Rightarrow> bool" where
  "has_dotdot (a # b # cs) = (a = CHR ''.'' \<and> b = CHR ''.'' \<or> has_dotdot (b # cs))"
| "has_dotdot _ = False"

definition runtime_id_byte :: "char \<Rightarrow> bool" where
  "runtime_id_byte c = (is_ascii_alphanumeric c \<or> c \<in> {CHR ''.'', CHR ''_'', CHR '':'', CHR ''-''})"

definition validate_identifier :: "string \<Rightarrow> identifier_error + unit" where
  "validate_identifier v =
     (if v = [] then Err Id_Empty
      else if MAX_IDENTIFIER_LEN < length v then Err Id_TooLong
      else if has_control v then Err Id_ControlCharacters
      else if has_dotdot v then Err Id_PathTraversal
      else if list_ex (\<lambda>c. \<not> runtime_id_byte c) v then Err Id_InvalidChar
      else Ok ())"

definition distributed_id_byte :: "char \<Rightarrow> bool" where
  "distributed_id_byte c = (is_ascii_lowercase c \<or> is_ascii_digit c \<or> c = CHR ''-'')"

definition validate_distributed_identifier :: "string \<Rightarrow> identifier_error + unit" where
  "validate_distributed_identifier v =
     (if length v < 2 then Err Id_TooShort
      else if MAX_DISTRIBUTED_IDENTIFIER_LEN < length v then Err Id_TooLong
      else case v of
          [] \<Rightarrow> Err Id_Empty
        | first # _ \<Rightarrow>
            if \<not> is_ascii_lowercase first \<and> \<not> is_ascii_digit first then Err Id_InvalidStart
            else if list_ex (\<lambda>c. \<not> distributed_id_byte c) v then Err Id_InvalidChar
            else Ok ())"

section \<open>Contract identifiers\<close>

datatype contract_error =
  Contract_Empty string | Contract_TooLong string nat | Contract_InvalidIdentifier string | Contract_InvalidValue string string
  | Contract_Duplicate string string | Contract_SecretValue string | Contract_LocalPath string

type_synonym 'a contract_result = "contract_error + 'a"

text \<open>
  \<open>str::trim\<close> removes Unicode white space; on the ASCII range that is the characters 9 to 13
  and 32. Whether anything is left of a string of other bytes is decided by \<open>blank_bytes\<close>,
  which knows the UTF-8 encodings of the remaining white-space characters.
\<close>

fun blank_bytes :: "nat list \<Rightarrow> bool" where
  "blank_bytes [] = True"
| "blank_bytes (b # bs) =
     (if 9 \<le> b \<and> b \<le> 13 \<or> b = 32 then blank_bytes bs
      else case bs of
          b1 # bs1 \<Rightarrow>
            if b = 194 \<and> (b1 = 133 \<or> b1 = 160) then blank_bytes bs1
            else (case bs1 of
                b2 # bs2 \<Rightarrow>
                  if (b = 225 \<and> b1 = 154 \<and> b2 = 128) \<or>
                     (b = 226 \<and> b1 = 128 \<and> (128 \<le> b2 \<and> b2 \<le> 138 \<or> b2 = 168 \<or> b2 = 169 \<or> b2 = 175)) \<or>
                     (b = 226 \<and> b1 = 129 \<and> b2 = 159) \<or>
                     (b = 227 \<and> b1 = 128 \<and> b2 = 128)
                  then blank_bytes bs2 else False
              | [] \<Rightarrow> False)
        | [] \<Rightarrow> False)"

text \<open>
  \<open>str::trim_start\<close> and \<open>str::trim\<close> on UTF-8 bytes: they drop the ASCII white space and the encodings of
  the other white-space characters. No such encoding starts in the middle of a character.
\<close>

fun trim_start_bytes :: "nat list \<Rightarrow> nat list" where
  "trim_start_bytes [] = []"
| "trim_start_bytes (b # bs) =
     (if 9 \<le> b \<and> b \<le> 13 \<or> b = 32 then trim_start_bytes bs
      else case bs of
          b1 # bs1 \<Rightarrow>
            if b = 194 \<and> (b1 = 133 \<or> b1 = 160) then trim_start_bytes bs1
            else (case bs1 of
                b2 # bs2 \<Rightarrow>
                  if (b = 225 \<and> b1 = 154 \<and> b2 = 128) \<or>
                     (b = 226 \<and> b1 = 128 \<and> (128 \<le> b2 \<and> b2 \<le> 138 \<or> b2 = 168 \<or> b2 = 169 \<or> b2 = 175)) \<or>
                     (b = 226 \<and> b1 = 129 \<and> b2 = 159) \<or>
                     (b = 227 \<and> b1 = 128 \<and> b2 = 128)
                  then trim_start_bytes bs2 else b # bs
              | [] \<Rightarrow> b # bs)
        | [] \<Rightarrow> b # bs)"

fun trim_end_bytes :: "nat list \<Rightarrow> nat list" where
  "trim_end_bytes [] = []"
| "trim_end_bytes (b # bs) = (if blank_bytes (b # bs) then [] else b # trim_end_bytes bs)"

definition rust_trim :: "string \<Rightarrow> string" where
  "rust_trim s = map char_of (trim_end_bytes (trim_start_bytes (map byte_of s)))"

definition validate_text :: "string \<Rightarrow> string \<Rightarrow> nat \<Rightarrow> unit contract_result" where
  "validate_text field v max_bytes =
     (if blank_bytes (map byte_of v) then Err (Contract_Empty field)
      else if max_bytes < length v then Err (Contract_TooLong field max_bytes)
      else if has_control v then Err (Contract_InvalidValue field ''control characters are not allowed'')
      else Ok ())"

definition contract_id_char :: "char \<Rightarrow> bool" where
  "contract_id_char c = (is_ascii_alphanumeric c \<or> c \<in> set ''-_.:+'')"

definition contract_validate_identifier :: "string \<Rightarrow> string \<Rightarrow> unit contract_result" where
  "contract_validate_identifier field v =
     rbind (validate_text field v 128) (\<lambda>_. case v of
         [] \<Rightarrow> Err (Contract_InvalidIdentifier field)
       | first # _ \<Rightarrow>
           if \<not> is_ascii_alphanumeric first \<or> \<not> list_all contract_id_char v \<or>
              \<not> is_ascii_alphanumeric (last v)
           then Err (Contract_InvalidIdentifier field) else Ok ())"

text \<open>\<open>to_ascii_lowercase\<close>, \<open>contains\<close> and the checks of application manifests that rest on them.\<close>

definition to_ascii_lowercase :: "string \<Rightarrow> string" where
  "to_ascii_lowercase v = map (\<lambda>c. if is_ascii_uppercase c then char_of (byte_of c + 32) else c) v"

definition is_sensitive_key :: "string \<Rightarrow> bool" where
  "is_sensitive_key v \<longleftrightarrow> list_ex (\<lambda>fragment. sublist fragment (to_ascii_lowercase v))
     [''secret'', ''password'', ''passwd'', ''token'', ''private_key'', ''credential'']"

definition looks_like_local_path :: "string \<Rightarrow> bool" where
  "looks_like_local_path v \<longleftrightarrow> prefix ''/'' v \<or> prefix ''./'' v \<or> prefix ''../'' v \<or> (1 < length v \<and> v ! 1 = CHR '':'')"

definition looks_like_url :: "string \<Rightarrow> bool" where
  "looks_like_url v \<longleftrightarrow> sublist ''://'' v"

section \<open>What validity gives\<close>

lemma validate_identifier_Ok:
  "validate_identifier v = Ok () \<Longrightarrow> v \<noteq> [] \<and> length v \<le> 128 \<and> list_all runtime_id_byte v \<and> \<not> has_dotdot v"
  by (auto simp: validate_identifier_def MAX_IDENTIFIER_LEN_def list_all_iff list_ex_iff split: if_splits)

lemma validate_distributed_identifier_Ok:
  "validate_distributed_identifier v = Ok () \<Longrightarrow>
     2 \<le> length v \<and> length v \<le> 80 \<and> list_all distributed_id_byte v"
  by (auto simp: validate_distributed_identifier_def MAX_DISTRIBUTED_IDENTIFIER_LEN_def list_all_iff
      list_ex_iff split: if_splits list.splits)

lemma contract_validate_identifier_Ok:
  "contract_validate_identifier field v = Ok () \<Longrightarrow> v \<noteq> [] \<and> length v \<le> 128 \<and> list_all contract_id_char v"
  by (auto simp: contract_validate_identifier_def validate_text_def rbind_Inr_iff split: if_splits list.splits)

lemma is_ascii_alphanumeric_byte: "is_ascii_alphanumeric c \<Longrightarrow> byte_of c < 128"
  by (auto simp: is_ascii_alphanumeric_def is_ascii_digit_def is_ascii_lowercase_def is_ascii_uppercase_def)

lemma id_bytes_ascii:
  "distributed_id_byte c \<Longrightarrow> byte_of c < 128" "contract_id_char c \<Longrightarrow> byte_of c < 128"
  "runtime_id_byte c \<Longrightarrow> byte_of c < 128"
  by (auto simp: distributed_id_byte_def contract_id_char_def runtime_id_byte_def byte_of_def
      is_ascii_lowercase_def is_ascii_digit_def dest: is_ascii_alphanumeric_byte [unfolded byte_of_def])

text \<open>
  No distributed identifier contains a colon, so keys built from distributed identifiers
  joined by colons can be taken apart again.
\<close>

lemma distributed_id_no_colon: "validate_distributed_identifier v = Ok () \<Longrightarrow> CHR '':'' \<notin> set v"
proof
  assume "validate_distributed_identifier v = Ok ()" "CHR '':'' \<in> set v"
  then have "distributed_id_byte (CHR '':'')"
    using validate_distributed_identifier_Ok by (auto simp: list_all_iff)
  then show False
    by (simp add: distributed_id_byte_def is_ascii_lowercase_def is_ascii_digit_def byte_of_def)
qed

lemma colon_join_inject:
  assumes "CHR '':'' \<notin> set a" "CHR '':'' \<notin> set a'"
  shows "a @ CHR '':'' # b = a' @ CHR '':'' # b' \<longleftrightarrow> a = a' \<and> b = b'"
  using assms
proof (induction a arbitrary: a')
  case Nil
  then show ?case by (cases a') auto
next
  case (Cons x a)
  then show ?case by (cases a') auto
qed

end
