(* ===== verification/Dnt_Format.thy ===== *)
theory Dnt_Format
  imports Wire_Bytes Identifiers
begin

text \<open>
  The DNT container format of \<open>appcore-dnt\<close>: flag partitioning (\<open>flags.rs\<close>), identifiers
  (\<open>ids.rs\<close>), errors (\<open>error.rs\<close>), the canonical header (\<open>header.rs\<close>) and the layout of the
  encrypted plaintext (\<open>plaintext.rs\<close>). The lemmas characterise exactly which byte strings
  parse, from which both the round trip and canonicity of the header follow.
\<close>

section \<open>Errors\<close>

datatype dnt_error =
  InvalidFormat | UnsupportedVersion | PayloadTooLarge | InvalidFlags | ContextMismatch
  | KeyUnavailable | AuthenticationFailed | CodecUnavailable | CodecFailed | DntIo

type_synonym 'a dnt_result = "dnt_error + 'a"

datatype dnt_key_error = KE_NotFound | KE_Unavailable | KE_InvalidKey | KE_Forbidden

definition dnt_error_of_key :: "dnt_key_error \<Rightarrow> dnt_error" where
  "dnt_error_of_key e = (case e of
     KE_NotFound \<Rightarrow> KeyUnavailable | KE_Unavailable \<Rightarrow> KeyUnavailable
   | KE_InvalidKey \<Rightarrow> KeyUnavailable | KE_Forbidden \<Rightarrow> ContextMismatch)"

datatype codec_error = CE_EncodeFailed | CE_DecodeFailed | CE_PayloadTooLarge

definition dnt_error_of_codec :: "codec_error \<Rightarrow> dnt_error" where
  "dnt_error_of_codec e = CodecFailed"

section \<open>Flags\<close>

unbundle bit_operations_syntax

definition DNT_FLAG_PAYLOAD_DEFLATE :: u32 where "DNT_FLAG_PAYLOAD_DEFLATE = 0x00000001"
definition DNT_INTERNAL_FLAG_MASK :: u32 where "DNT_INTERNAL_FLAG_MASK = 0x0000FFFF"
definition DNT_USER_FLAG_MASK :: u32 where "DNT_USER_FLAG_MASK = 0xFFFF0000"
definition DNT_USER_FLAG_OFFSET :: nat where "DNT_USER_FLAG_OFFSET = 16"
definition DNT_USER_FLAG_COUNT :: nat where "DNT_USER_FLAG_COUNT = 16"
definition KNOWN_INTERNAL_FLAGS :: u32 where "KNOWN_INTERNAL_FLAGS = DNT_FLAG_PAYLOAD_DEFLATE"

definition validate_flags :: "u32 \<Rightarrow> unit dnt_result" where
  "validate_flags flags =
     (let unknown = (flags AND DNT_INTERNAL_FLAG_MASK) AND NOT KNOWN_INTERNAL_FLAGS
      in if unknown \<noteq> 0 then Err InvalidFlags else Ok ())"

definition flags_from_bits :: "u32 \<Rightarrow> u32 dnt_result" where
  "flags_from_bits bits = rbind (validate_flags bits) (\<lambda>_. Ok bits)"

definition internal_bits :: "u32 \<Rightarrow> u32" where
  "internal_bits flags = flags AND DNT_INTERNAL_FLAG_MASK"

definition user_bits :: "u32 \<Rightarrow> u32" where
  "user_bits flags = flags AND DNT_USER_FLAG_MASK"

definition compact_payload :: "u32 \<Rightarrow> u32" where
  "compact_payload flags = flags OR DNT_FLAG_PAYLOAD_DEFLATE"

definition dnt_user_flag :: "u8 \<Rightarrow> u32 dnt_result" where
  "dnt_user_flag index =
     (if DNT_USER_FLAG_COUNT \<le> unat index then Err InvalidFlags
      else let shift = DNT_USER_FLAG_OFFSET + unat index
        in if shift < 32 then Ok (push_bit shift 1) else Err InvalidFlags)"

definition with_user_flag :: "u8 \<Rightarrow> u32 \<Rightarrow> u32 dnt_result" where
  "with_user_flag index flags = rbind (dnt_user_flag index) (\<lambda>bit. Ok (flags OR bit))"

definition dnt_compose_flags :: "u32 \<Rightarrow> u32 \<Rightarrow> u32 dnt_result" where
  "dnt_compose_flags internal_flags user_flags =
     (if internal_flags AND NOT KNOWN_INTERNAL_FLAGS \<noteq> 0 \<or> user_flags AND NOT DNT_USER_FLAG_MASK \<noteq> 0
      then Err InvalidFlags else Ok (internal_flags OR user_flags))"

definition empty_flags :: u32 where "empty_flags = 0"

definition deflate_flag :: "u32 \<Rightarrow> bool" where
  "deflate_flag flags = (flags AND DNT_FLAG_PAYLOAD_DEFLATE \<noteq> 0)"

lemmas flag_consts = DNT_FLAG_PAYLOAD_DEFLATE_def DNT_INTERNAL_FLAG_MASK_def DNT_USER_FLAG_MASK_def
  DNT_USER_FLAG_OFFSET_def DNT_USER_FLAG_COUNT_def KNOWN_INTERNAL_FLAGS_def

text \<open>The masks and the validity check bit by bit.\<close>

lemma bit_masks:
  "bit DNT_INTERNAL_FLAG_MASK i \<longleftrightarrow> i < 16"
  "bit DNT_USER_FLAG_MASK i \<longleftrightarrow> 16 \<le> i \<and> i < 32"
  "bit DNT_FLAG_PAYLOAD_DEFLATE i \<longleftrightarrow> i = 0"
proof -
  have int: "DNT_INTERNAL_FLAG_MASK = mask 16" by (simp add: DNT_INTERNAL_FLAG_MASK_def mask_eq_exp_minus_1)
  show "bit DNT_INTERNAL_FLAG_MASK i \<longleftrightarrow> i < 16"
    unfolding int bit_mask_iff by (auto simp: possible_bit_word)
  have usr: "DNT_USER_FLAG_MASK = push_bit 16 (mask 16)"
    by (simp add: DNT_USER_FLAG_MASK_def mask_eq_exp_minus_1 push_bit_eq_mult)
  show "bit DNT_USER_FLAG_MASK i \<longleftrightarrow> 16 \<le> i \<and> i < 32"
    unfolding usr bit_push_bit_iff bit_mask_iff by (auto simp: possible_bit_word)
  show "bit DNT_FLAG_PAYLOAD_DEFLATE i \<longleftrightarrow> i = 0"
    by (simp add: DNT_FLAG_PAYLOAD_DEFLATE_def bit_1_iff)
qed

lemma validate_flags_bits: "validate_flags flags = Ok () \<longleftrightarrow> (\<forall>i. 0 < i \<and> i < 16 \<longrightarrow> \<not> bit flags i)"
proof -
  have "((flags AND DNT_INTERNAL_FLAG_MASK) AND NOT KNOWN_INTERNAL_FLAGS = 0) \<longleftrightarrow>
      (\<forall>i. 0 < i \<and> i < 16 \<longrightarrow> \<not> bit flags i)"
    by (auto simp: KNOWN_INTERNAL_FLAGS_def bit_eq_iff [where 'a = "32 word"] bit_and_iff bit_not_iff bit_masks)
      (erule_tac x = i in allE, simp)
  then show ?thesis by (auto simp: validate_flags_def Let_def)
qed

section \<open>Identifiers\<close>

definition dnt_id_byte :: "bool \<Rightarrow> char \<Rightarrow> bool" where
  "dnt_id_byte allow_slash c = (is_ascii_alphanumeric c \<or> c \<in> {CHR ''.'', CHR ''-'', CHR ''_''} \<or>
     (allow_slash \<and> c = CHR ''/''))"

definition validate_id :: "nat \<Rightarrow> bool \<Rightarrow> string \<Rightarrow> unit dnt_result" where
  "validate_id max_len allow_slash v =
     (if v = [] \<or> max_len < length v then Err InvalidFormat
      else if list_all (dnt_id_byte allow_slash) v \<and> hd v \<noteq> CHR ''/'' \<and> last v \<noteq> CHR ''/''
      then Ok () else Err InvalidFormat)"

definition content_type_new :: "string \<Rightarrow> string dnt_result" where
  "content_type_new v = rbind (validate_id 128 True v) (\<lambda>_. Ok v)"

definition codec_id_new :: "string \<Rightarrow> string dnt_result" where
  "codec_id_new v = rbind (validate_id 64 False v) (\<lambda>_. Ok v)"

definition key_id_new :: "string \<Rightarrow> string dnt_result" where
  "key_id_new v = rbind (validate_id 128 False v) (\<lambda>_. Ok v)"

text \<open>The identities of other crates, as the header parser constructs them.\<close>

definition application_id_new :: "string \<Rightarrow> string dnt_result" where
  "application_id_new v = (case contract_validate_identifier ''application_id'' v of
     Inl _ \<Rightarrow> Err InvalidFormat | Inr _ \<Rightarrow> Ok v)"

definition tenant_id_new :: "string \<Rightarrow> string dnt_result" where
  "tenant_id_new v = (case validate_distributed_identifier v of
     Inl _ \<Rightarrow> Err InvalidFormat | Inr _ \<Rightarrow> Ok v)"

lemma dnt_id_new_Ok_iff:
  "content_type_new v = Ok v' \<longleftrightarrow> v = v' \<and> validate_id 128 True v' = Ok ()"
  "codec_id_new v = Ok v' \<longleftrightarrow> v = v' \<and> validate_id 64 False v' = Ok ()"
  "key_id_new v = Ok v' \<longleftrightarrow> v = v' \<and> validate_id 128 False v' = Ok ()"
  "application_id_new v = Ok v' \<longleftrightarrow> v = v' \<and> contract_validate_identifier ''application_id'' v' = Ok ()"
  "tenant_id_new v = Ok v' \<longleftrightarrow> v = v' \<and> validate_distributed_identifier v' = Ok ()"
  by (auto simp: content_type_new_def codec_id_new_def key_id_new_def application_id_new_def
      tenant_id_new_def rbind_Inr_iff split: sum.splits)

lemma validate_id_Ok:
  "validate_id n sl v = Ok () \<Longrightarrow> v \<noteq> [] \<and> length v \<le> n \<and> (\<forall>c\<in>set v. byte_of c < 128)"
  by (auto simp: validate_id_def list_all_iff dnt_id_byte_def byte_of_def split: if_splits
      dest: is_ascii_alphanumeric_byte [unfolded byte_of_def])

text \<open>A text the header can carry: short, not empty, ASCII.\<close>

definition wire_text :: "string \<Rightarrow> bool" where
  "wire_text v \<longleftrightarrow> v \<noteq> [] \<and> length v < 2 ^ 16 \<and> valid_utf8 (map unat (text_bytes v))"

lemma wire_textI: "v \<noteq> [] \<Longrightarrow> length v \<le> 128 \<Longrightarrow> \<forall>c\<in>set v. byte_of c < 128 \<Longrightarrow> wire_text v"
  by (simp add: wire_text_def valid_utf8_text)

lemma wire_text_ids:
  "validate_id 128 sl v = Ok () \<Longrightarrow> wire_text v" "validate_id 64 sl v = Ok () \<Longrightarrow> wire_text v"
  "contract_validate_identifier ''application_id'' v = Ok () \<Longrightarrow> wire_text v"
  "validate_distributed_identifier v = Ok () \<Longrightarrow> wire_text v"
proof -
  show "validate_id 128 sl v = Ok () \<Longrightarrow> wire_text v" "validate_id 64 sl v = Ok () \<Longrightarrow> wire_text v"
    using validate_id_Ok [of _ sl v] by (fastforce intro: wire_textI)+
  show "contract_validate_identifier ''application_id'' v = Ok () \<Longrightarrow> wire_text v"
    using contract_validate_identifier_Ok [of "''application_id''" v] id_bytes_ascii(2)
    by (auto simp: list_all_iff intro!: wire_textI)
  show "validate_distributed_identifier v = Ok () \<Longrightarrow> wire_text v"
    using validate_distributed_identifier_Ok [of v] id_bytes_ascii(1)
    by (auto simp: list_all_iff intro!: wire_textI)
qed

section \<open>Header\<close>

definition DNT_MAGIC :: bytes where
  "DNT_MAGIC = [0x41, 0x50, 0x44, 0x4E, 0x54, 0, 0, 1]"
definition DNT_ENVELOPE_VERSION_V1 :: u16 where "DNT_ENVELOPE_VERSION_V1 = 1"
definition DNT_MAX_HEADER_BYTES :: nat where "DNT_MAX_HEADER_BYTES = 65536"
definition DNT_MAX_ENCRYPTED_METADATA_BYTES :: nat where "DNT_MAX_ENCRYPTED_METADATA_BYTES = 65536"
definition MIN_PREFIX_BYTES :: nat where "MIN_PREFIX_BYTES = 14"
definition NONCE_BYTES :: nat where "NONCE_BYTES = 24"
definition HASH_BYTES :: nat where "HASH_BYTES = 32"

datatype dnt_algorithm = XChaCha20Poly1305

definition algorithm_id :: "dnt_algorithm \<Rightarrow> u16" where
  "algorithm_id a = (case a of XChaCha20Poly1305 \<Rightarrow> 1)"

definition algorithm_from_id :: "u16 \<Rightarrow> dnt_algorithm dnt_result" where
  "algorithm_from_id v = (if v = 1 then Ok XChaCha20Poly1305 else Err UnsupportedVersion)"

record header_parts =
  hp_flags :: u32
  hp_algorithm :: dnt_algorithm
  hp_application_id :: string
  hp_tenant_id :: "string option"
  hp_content_type :: string
  hp_codec_id :: string
  hp_key_id :: string
  hp_schema_version :: u32
  hp_created_at_ms :: u64
  hp_payload_length :: u64
  hp_nonce :: bytes
  hp_payload_hash :: bytes
  hp_public_metadata :: bytes
  hp_encrypted_metadata_length :: u32

text \<open>A parsed header carries the same fields plus the version and its own length.\<close>

record dnt_header = header_parts +
  hd_envelope_version :: u16
  hd_header_length :: u32

definition put_text :: "string \<Rightarrow> bytes dnt_result" where
  "put_text v = (if length v < 2 ^ 16 then Ok (u16_be (of_nat (length v)) @ text_bytes v)
                 else Err InvalidFormat)"

definition put_optional_text :: "string option \<Rightarrow> bytes dnt_result" where
  "put_optional_text v = (case v of Some t \<Rightarrow> put_text t | None \<Rightarrow> Ok (u16_be 0))"

definition checked_u32 :: "nat \<Rightarrow> u32 dnt_result" where
  "checked_u32 n = (if n < 2 ^ 32 then Ok (of_nat n) else Err InvalidFormat)"

text \<open>
  The writer first puts a zero where the header length goes and patches bytes 10 to 13 when
  the length is known. (The capacity computation of the source cannot overflow once the
  metadata is known to be at most 64 KiB.)
\<close>

definition encode_header :: "header_parts \<Rightarrow> bytes dnt_result" where
  "encode_header p =
     (if DNT_MAX_HEADER_BYTES < length (hp_public_metadata p) \<or>
         DNT_MAX_ENCRYPTED_METADATA_BYTES < unat (hp_encrypted_metadata_length p)
      then Err PayloadTooLarge
      else rbind (checked_u32 (length (hp_public_metadata p))) (\<lambda>public_len.
           rbind (put_text (hp_application_id p)) (\<lambda>app.
           rbind (put_optional_text (hp_tenant_id p)) (\<lambda>ten.
           rbind (put_text (hp_content_type p)) (\<lambda>ct.
           rbind (put_text (hp_codec_id p)) (\<lambda>cd.
           rbind (put_text (hp_key_id p)) (\<lambda>k.
           let header = DNT_MAGIC @ u16_be DNT_ENVELOPE_VERSION_V1 @ u32_be 0 @ u32_be (hp_flags p)
                 @ u16_be (algorithm_id (hp_algorithm p)) @ u32_be (hp_schema_version p)
                 @ u64_be (hp_created_at_ms p) @ u64_be (hp_payload_length p)
                 @ hp_nonce p @ hp_payload_hash p @ u32_be public_len
                 @ u32_be (hp_encrypted_metadata_length p)
                 @ app @ ten @ ct @ cd @ k @ hp_public_metadata p
           in if DNT_MAX_HEADER_BYTES < length header then Err InvalidFormat
              else rbind (checked_u32 (length header)) (\<lambda>len.
                Ok (take 10 header @ u32_be len @ drop 14 header)))))))))"

definition take_text :: "bytes \<Rightarrow> (nat, dnt_error, string) eff" where
  "take_text input = ebind (take_u16 InvalidFormat input) (\<lambda>len.
     if len = 0 then efail InvalidFormat
     else ebind (take_bytes InvalidFormat input (unat len)) (\<lambda>bs.
       if valid_utf8 (map unat bs) then eret (bytes_text bs) else efail InvalidFormat))"

definition take_optional_text :: "bytes \<Rightarrow> (nat, dnt_error, string option) eff" where
  "take_optional_text input = ebind (take_u16 InvalidFormat input) (\<lambda>len.
     if len = 0 then eret None
     else ebind (take_bytes InvalidFormat input (unat len)) (\<lambda>bs.
       if valid_utf8 (map unat bs) then eret (Some (bytes_text bs)) else efail InvalidFormat))"

definition lift_result :: "dnt_error + 'a \<Rightarrow> (nat, dnt_error, 'a) eff" where
  "lift_result r = elift (\<lambda>_. r)"

definition take_application_id :: "bytes \<Rightarrow> (nat, dnt_error, string) eff" where
  "take_application_id input = ebind (take_text input) (\<lambda>t. lift_result (application_id_new t))"

definition take_tenant_id :: "bytes \<Rightarrow> (nat, dnt_error, string option) eff" where
  "take_tenant_id input = ebind (take_optional_text input) (\<lambda>t. lift_result (case t of
     None \<Rightarrow> Ok None | Some t \<Rightarrow> rbind (tenant_id_new t) (\<lambda>t. Ok (Some t))))"

definition take_content_type :: "bytes \<Rightarrow> (nat, dnt_error, string) eff" where
  "take_content_type input = ebind (take_text input) (\<lambda>t. lift_result (content_type_new t))"

definition take_codec_id :: "bytes \<Rightarrow> (nat, dnt_error, string) eff" where
  "take_codec_id input = ebind (take_text input) (\<lambda>t. lift_result (codec_id_new t))"

definition take_key_id :: "bytes \<Rightarrow> (nat, dnt_error, string) eff" where
  "take_key_id input = ebind (take_text input) (\<lambda>t. lift_result (key_id_new t))"

definition parse_header :: "u32 \<Rightarrow> bytes \<Rightarrow> (nat, dnt_error, dnt_header) eff" where
  "parse_header header_length input =
     ebind (take_u32 InvalidFormat input) (\<lambda>flags.
     ebind (lift_result (validate_flags flags)) (\<lambda>_.
     ebind (take_u16 InvalidFormat input) (\<lambda>alg_id.
     ebind (lift_result (algorithm_from_id alg_id)) (\<lambda>algorithm.
     ebind (take_u32 InvalidFormat input) (\<lambda>schema_version.
     ebind (take_u64 InvalidFormat input) (\<lambda>created_at_ms.
     ebind (take_u64 InvalidFormat input) (\<lambda>payload_length.
     ebind (take_bytes InvalidFormat input NONCE_BYTES) (\<lambda>nonce.
     ebind (take_bytes InvalidFormat input HASH_BYTES) (\<lambda>payload_hash.
     ebind (take_u32 InvalidFormat input) (\<lambda>public_metadata_length.
     ebind (take_u32 InvalidFormat input) (\<lambda>encrypted_metadata_length.
     if DNT_MAX_ENCRYPTED_METADATA_BYTES < unat encrypted_metadata_length then efail PayloadTooLarge
     else
     ebind (take_application_id input) (\<lambda>application_id.
     ebind (take_tenant_id input) (\<lambda>tenant_id.
     ebind (take_content_type input) (\<lambda>content_type.
     ebind (take_codec_id input) (\<lambda>codec_id.
     ebind (take_key_id input) (\<lambda>key_id.
     ebind (take_bytes InvalidFormat input (unat public_metadata_length)) (\<lambda>public_metadata cursor.
       if cursor \<noteq> length input then (Err InvalidFormat, cursor)
       else (Ok \<lparr> hp_flags = flags, hp_algorithm = algorithm, hp_application_id = application_id,
         hp_tenant_id = tenant_id, hp_content_type = content_type, hp_codec_id = codec_id,
         hp_key_id = key_id, hp_schema_version = schema_version, hp_created_at_ms = created_at_ms,
         hp_payload_length = payload_length, hp_nonce = nonce, hp_payload_hash = payload_hash,
         hp_public_metadata = public_metadata,
         hp_encrypted_metadata_length = encrypted_metadata_length,
         hd_envelope_version = DNT_ENVELOPE_VERSION_V1, hd_header_length = header_length \<rparr>,
         cursor))))))))))))))))))"

definition inspect_header :: "bytes \<Rightarrow> dnt_header dnt_result" where
  "inspect_header input =
     (if length input < MIN_PREFIX_BYTES \<or> take 8 input \<noteq> DNT_MAGIC then Err InvalidFormat
      else case take_u16 InvalidFormat input 8 of
        (Inl e, _) \<Rightarrow> Err e
      | (Inr version, _) \<Rightarrow>
          if version \<noteq> DNT_ENVELOPE_VERSION_V1 then Err UnsupportedVersion
          else (case take_u32 InvalidFormat input 10 of
            (Inl e, _) \<Rightarrow> Err e
          | (Inr header_length, _) \<Rightarrow>
              let header_len = unat header_length
              in if header_len < MIN_PREFIX_BYTES \<or> DNT_MAX_HEADER_BYTES < header_len \<or>
                    length input < header_len
                 then Err InvalidFormat
                 else fst (parse_header header_length (take header_len input) 14)))"

definition header_compacted :: "('a header_parts_scheme) \<Rightarrow> bool" where
  "header_compacted h = deflate_flag (hp_flags h)"

section \<open>Exactly which bytes parse\<close>

definition text_field :: "string \<Rightarrow> bytes" where
  "text_field v = u16_be (of_nat (length v)) @ text_bytes v"

definition optional_text_field :: "string option \<Rightarrow> bytes" where
  "optional_text_field v = (case v of None \<Rightarrow> u16_be 0 | Some t \<Rightarrow> text_field t)"

lemma length_text_field [simp]: "length (text_field v) = 2 + length v"
  by (simp add: text_field_def)

lemma if_apply:
  "(if b then m else k) c = (Inr y, c') \<longleftrightarrow> b \<and> m c = (Inr y, c') \<or> \<not> b \<and> k c = (Inr y, c')"
  by simp

lemma wire_text_sized:
  "wire_text v \<and> reads input c (text_field v) c' \<longleftrightarrow>
     (\<exists>len c1. reads input c (u16_be len) c1 \<and> len \<noteq> 0 \<and> unat len = length v \<and>
        reads input c1 (text_bytes v) c' \<and> valid_utf8 (map unat (text_bytes v)))"
proof -
  have "v \<noteq> [] \<and> length v < 2 ^ 16 \<and> len = of_nat (length v) \<longleftrightarrow> len \<noteq> 0 \<and> unat len = length v"
    for len :: u16
    using unat_eq_length_iff [of len "length v"] by auto
  then show ?thesis unfolding wire_text_def text_field_def reads_append by metis
qed

lemma take_text_Ok_iff [reads_simps]:
  "take_text input c = (Inr v, c') \<longleftrightarrow> wire_text v \<and> reads input c (text_field v) c'"
  unfolding wire_text_sized
  by (simp add: take_text_def ebind_Ok_iff if_apply reads_simps bytes_text_eq_iff) metis

lemma take_optional_text_Ok_iff [reads_simps]:
  "take_optional_text input c = (Inr v, c') \<longleftrightarrow>
     pred_option wire_text v \<and> reads input c (optional_text_field v) c'"
proof (cases v)
  case None
  then show ?thesis
    by (auto simp: take_optional_text_def optional_text_field_def ebind_Ok_iff if_apply reads_simps)
next
  case (Some t)
  then show ?thesis
    using wire_text_sized [of t input c c']
    by (simp add: take_optional_text_def optional_text_field_def ebind_Ok_iff if_apply reads_simps
        bytes_text_eq_iff) metis
qed

text \<open>The bytes of a header after its fixed 14-byte prefix, and the checks its fields pass.\<close>

definition header_body :: "'a header_parts_scheme \<Rightarrow> bytes" where
  "header_body h = u32_be (hp_flags h) @ u16_be (algorithm_id (hp_algorithm h))
     @ u32_be (hp_schema_version h) @ u64_be (hp_created_at_ms h) @ u64_be (hp_payload_length h)
     @ hp_nonce h @ hp_payload_hash h @ u32_be (of_nat (length (hp_public_metadata h)))
     @ u32_be (hp_encrypted_metadata_length h) @ text_field (hp_application_id h)
     @ optional_text_field (hp_tenant_id h) @ text_field (hp_content_type h)
     @ text_field (hp_codec_id h) @ text_field (hp_key_id h) @ hp_public_metadata h"

text \<open>
  A header whose identifiers have passed their checks. Application identifiers, nonces and digests have types that
  ensure it. The constructors of \<open>TenantId\<close>, \<open>ContentType\<close>, \<open>CodecId\<close> and \<open>KeyId\<close> check it too, but these types derive
  \<open>Deserialize\<close>, which skips the check: for values made that way this is a condition and not a fact.
\<close>

definition ids_ok :: "'a header_parts_scheme \<Rightarrow> bool" where
  "ids_ok h \<longleftrightarrow> application_id_new (hp_application_id h) = Ok (hp_application_id h) \<and>
     pred_option (\<lambda>t. tenant_id_new t = Ok t) (hp_tenant_id h) \<and>
     content_type_new (hp_content_type h) = Ok (hp_content_type h) \<and>
     codec_id_new (hp_codec_id h) = Ok (hp_codec_id h) \<and> key_id_new (hp_key_id h) = Ok (hp_key_id h) \<and>
     length (hp_nonce h) = NONCE_BYTES \<and> length (hp_payload_hash h) = HASH_BYTES"

definition fields_ok :: "'a header_parts_scheme \<Rightarrow> bool" where
  "fields_ok h \<longleftrightarrow> ids_ok h \<and> validate_flags (hp_flags h) = Ok () \<and>
     unat (hp_encrypted_metadata_length h) \<le> DNT_MAX_ENCRYPTED_METADATA_BYTES \<and>
     length (hp_public_metadata h) < 2 ^ 32"

lemma lift_result_Ok_iff: "lift_result r c = (Inr x, c') \<longleftrightarrow> r = Inr x \<and> c' = c"
  by (auto simp: lift_result_def)

lemma algorithm_id_iff: "algorithm_from_id v = Ok a \<longleftrightarrow> v = algorithm_id a"
  by (cases a) (auto simp: algorithm_from_id_def algorithm_id_def)

lemma tenant_case_iff:
  "(case t of None \<Rightarrow> Ok None | Some t \<Rightarrow> rbind (tenant_id_new t) (\<lambda>t. Ok (Some t))) = Ok t' \<longleftrightarrow>
     t = t' \<and> pred_option (\<lambda>t. validate_distributed_identifier t = Ok ()) t'"
  by (cases t) (auto simp: tenant_id_new_def split: sum.splits)

text \<open>An identifier accepts exactly its own bytes.\<close>

lemma take_id_Ok_iff [reads_simps]:
  "take_application_id input c = (Inr t, c') \<longleftrightarrow>
     contract_validate_identifier ''application_id'' t = Ok () \<and> reads input c (text_field t) c'"
  "take_content_type input c = (Inr t, c') \<longleftrightarrow> validate_id 128 True t = Ok () \<and> reads input c (text_field t) c'"
  "take_codec_id input c = (Inr t, c') \<longleftrightarrow> validate_id 64 False t = Ok () \<and> reads input c (text_field t) c'"
  "take_key_id input c = (Inr t, c') \<longleftrightarrow> validate_id 128 False t = Ok () \<and> reads input c (text_field t) c'"
  using wire_text_ids(1-3)
  by (auto simp: take_application_id_def take_content_type_def take_codec_id_def take_key_id_def
      ebind_Ok_iff take_text_Ok_iff lift_result_Ok_iff dnt_id_new_Ok_iff)

lemma take_tenant_id_Ok_iff [reads_simps]:
  "take_tenant_id input c = (Inr t, c') \<longleftrightarrow>
     pred_option (\<lambda>t. validate_distributed_identifier t = Ok ()) t \<and> reads input c (optional_text_field t) c'"
proof -
  have "pred_option (\<lambda>t. validate_distributed_identifier t = Ok ()) t \<Longrightarrow> pred_option wire_text t"
    using wire_text_ids(4) by (auto simp: pred_option_def)
  then show ?thesis
    by (auto simp: take_tenant_id_def ebind_Ok_iff take_optional_text_Ok_iff lift_result_Ok_iff tenant_case_iff)
qed

lemma parse_header_Ok_iff:
  "parse_header hl input c = (Inr h, c') \<longleftrightarrow> c' = length input \<and> hd_header_length h = hl \<and>
     hd_envelope_version h = DNT_ENVELOPE_VERSION_V1 \<and> fields_ok h \<and> reads input c (header_body h) c'"
proof -
  have len: "n = unat len \<longleftrightarrow> len = of_nat n \<and> n < 2 ^ 32" for n and len :: u32
    using unat_eq_length_iff [of len n] by auto
  have fail: "efail e s = (Inr x, s') \<longleftrightarrow> False" for e :: dnt_error and s s' :: nat and x :: dnt_header
    by (simp add: efail_def)
  have last: "(if s \<noteq> n then (Err InvalidFormat, s) else (Ok x, s)) = (Ok y, s') \<longleftrightarrow> s' = n \<and> s = n \<and> x = y"
    for s s' n :: nat and x y :: dnt_header by auto
  have flags: "lift_result (validate_flags f) s = (Inr u, s') \<longleftrightarrow> validate_flags f = Ok () \<and> s' = s"
    for f s s' and u :: unit by (simp add: lift_result_Ok_iff)
  have alg: "lift_result (algorithm_from_id v) s = (Inr a, s') \<longleftrightarrow> v = algorithm_id a \<and> s' = s" for v s s' a
    by (simp add: lift_result_Ok_iff algorithm_id_iff)
  note unfolds = header_parts.select_convs dnt_header.select_convs parse_header_def
    ebind_Ok_iff if_apply reads_simps flags alg dnt_id_new_Ok_iff len
    header_body_def reads_append fields_ok_def ids_ok_def not_less last fail simp_thms
    dnt_header.ext_inject header_parts.ext_inject ex_simps
  show ?thesis
  proof (rule iffI)
    assume "parse_header hl input c = (Inr h, c')"
    then show "c' = length input \<and> hd_header_length h = hl \<and>
      hd_envelope_version h = DNT_ENVELOPE_VERSION_V1 \<and> fields_ok h \<and> reads input c (header_body h) c'"
      apply (cases h)
      apply (simp only: unfolds, elim exE conjE, hypsubst, intro conjI exI)
      apply (assumption | rule refl | simp (no_asm_simp) only:)+
      done
  next
    assume "c' = length input \<and> hd_header_length h = hl \<and>
      hd_envelope_version h = DNT_ENVELOPE_VERSION_V1 \<and> fields_ok h \<and> reads input c (header_body h) c'"
    then show "parse_header hl input c = (Inr h, c')"
      apply (cases h)
      apply (simp only: unfolds, elim exE conjE, hypsubst, intro conjI exI)
      apply (assumption | rule refl | simp (no_asm_simp) only:)+
      done
  qed
qed

section \<open>Round trip and canonicity of the header\<close>

definition header_bytes :: "'a header_parts_scheme \<Rightarrow> bytes" where
  "header_bytes h = DNT_MAGIC @ u16_be DNT_ENVELOPE_VERSION_V1
     @ u32_be (of_nat (14 + length (header_body h))) @ header_body h"

definition header_fits :: "'a header_parts_scheme \<Rightarrow> bool" where
  "header_fits h \<longleftrightarrow> length (header_bytes h) \<le> DNT_MAX_HEADER_BYTES \<and>
     unat (hp_encrypted_metadata_length h) \<le> DNT_MAX_ENCRYPTED_METADATA_BYTES"

lemma length_DNT_MAGIC [simp]: "length DNT_MAGIC = 8"
  by (simp add: DNT_MAGIC_def)

lemma length_header_bytes: "length (header_bytes h) = 14 + length (header_body h)"
  by (simp add: header_bytes_def)

lemma length_public_metadata_le: "length (hp_public_metadata h) \<le> length (header_body h)"
  by (simp add: header_body_def)

lemma header_bytes_truncate [simp]:
  "header_body (header_parts.truncate h) = header_body h"
  "header_bytes (header_parts.truncate h) = header_bytes h"
  "header_fits (header_parts.truncate h) = header_fits h"
  "ids_ok (header_parts.truncate h) = ids_ok h"
  by (cases h; simp add: header_body_def header_bytes_def header_fits_def ids_ok_def header_parts.defs)+

lemma put_text_wire: "wire_text v \<Longrightarrow> put_text v = Ok (text_field v)"
  by (simp add: put_text_def wire_text_def text_field_def)

lemma put_optional_text_wire: "pred_option wire_text v \<Longrightarrow> put_optional_text v = Ok (optional_text_field v)"
  by (auto simp: put_optional_text_def optional_text_field_def put_text_wire split: option.splits)

text \<open>The writer with its patched length produces exactly \<^const>\<open>header_bytes\<close>.\<close>

lemma encode_header_Ok_iff:
  assumes ids: "ids_ok p"
  shows "encode_header p = Ok bs \<longleftrightarrow> header_fits p \<and> bs = header_bytes p"
proof -
  have w: "wire_text (hp_application_id p)" "pred_option wire_text (hp_tenant_id p)"
    "wire_text (hp_content_type p)" "wire_text (hp_codec_id p)" "wire_text (hp_key_id p)"
    using ids wire_text_ids by (auto simp: ids_ok_def dnt_id_new_Ok_iff pred_option_def)
  let ?h = "DNT_MAGIC @ u16_be DNT_ENVELOPE_VERSION_V1 @ u32_be 0 @ header_body p"
  have len: "length ?h = length (header_bytes p)" by (simp add: header_bytes_def)
  have patch: "take 10 ?h @ u32_be (of_nat (length ?h)) @ drop 14 ?h = header_bytes p"
    by (simp add: header_bytes_def)
  show ?thesis
  proof (cases "header_fits p")
    case True
    then have "length ?h \<le> DNT_MAX_HEADER_BYTES" and enc: "unat (hp_encrypted_metadata_length p) \<le> DNT_MAX_ENCRYPTED_METADATA_BYTES"
      by (simp_all only: header_fits_def len)
    moreover have "length (hp_public_metadata p) \<le> DNT_MAX_HEADER_BYTES"
      using True length_public_metadata_le [of p] by (simp add: header_fits_def length_header_bytes)
    ultimately show ?thesis
      using True w patch
      by (auto simp: encode_header_def put_text_wire put_optional_text_wire checked_u32_def
          DNT_MAX_HEADER_BYTES_def Let_def header_body_def not_less)
  next
    case False
    then have "\<not> length ?h \<le> DNT_MAX_HEADER_BYTES \<or> \<not> unat (hp_encrypted_metadata_length p) \<le> DNT_MAX_ENCRYPTED_METADATA_BYTES"
      by (simp only: header_fits_def len) auto
    then show ?thesis
      using False w
      by (auto simp: encode_header_def put_text_wire put_optional_text_wire checked_u32_def
          Let_def header_body_def not_less rbind_Inr_iff split: if_splits)
  qed
qed

lemma reads_prefix: "reads input 0 xs c \<longleftrightarrow> c = length xs \<and> (\<exists>rest. input = xs @ rest)"
  by (auto simp: reads_def)

lemma inspect_header_Ok_iff:
  "inspect_header input = Ok h \<longleftrightarrow> fields_ok h \<and> header_fits h \<and>
     hd_envelope_version h = DNT_ENVELOPE_VERSION_V1 \<and>
     hd_header_length h = of_nat (length (header_bytes h)) \<and> (\<exists>rest. input = header_bytes h @ rest)"
  (is "?lhs \<longleftrightarrow> ?rhs")
proof
  assume l: ?lhs
  then obtain hl where pre: "14 \<le> length input" "take 8 input = DNT_MAGIC"
    "reads input 8 (u16_be DNT_ENVELOPE_VERSION_V1) 10" "reads input 10 (u32_be hl) 14"
    and hl: "14 \<le> unat hl" "unat hl \<le> DNT_MAX_HEADER_BYTES" "unat hl \<le> length input"
    and p: "fst (parse_header hl (take (unat hl) input) 14) = Ok h"
    by (auto simp: inspect_header_def MIN_PREFIX_BYTES_def Let_def take_word_Ok_iff reads_def
        split: if_splits prod.splits sum.splits)
  let ?body = "take (unat hl) input"
  from p obtain c' where "parse_header hl ?body 14 = (Inr h, c')" by (cases "parse_header hl ?body 14") auto
  then have h: "hd_header_length h = hl" "hd_envelope_version h = DNT_ENVELOPE_VERSION_V1" "fields_ok h"
    and r: "reads ?body 14 (header_body h) (length ?body)"
    by (auto simp: parse_header_Ok_iff)
  from r have body: "drop 14 ?body = header_body h" by (simp only: reads_all)
  then have len: "14 + length (header_body h) = unat hl" using hl by (auto dest!: arg_cong [where f = length])
  then have "hl = of_nat (14 + length (header_body h))" by simp
  moreover have "take 14 input = DNT_MAGIC @ u16_be DNT_ENVELOPE_VERSION_V1 @ u32_be hl"
  proof -
    have "reads input 0 DNT_MAGIC 8" using pre(1,2) append_take_drop_id [of 8 input]
      by (simp add: reads_def)
    then have "reads input 0 (DNT_MAGIC @ u16_be DNT_ENVELOPE_VERSION_V1 @ u32_be hl) 14"
      using pre(3,4) unfolding reads_append by blast
    then show ?thesis by (auto simp: reads_prefix)
  qed
  moreover have "input = take 14 input @ drop 14 ?body @ drop (unat hl) input"
    using hl by (metis append.assoc append_take_drop_id min.absorb1 take_take)
  ultimately have "input = header_bytes h @ drop (unat hl) input"
    using body by (simp add: header_bytes_def)
  with h hl len show ?rhs
    by (auto simp: header_fits_def length_header_bytes fields_ok_def intro!: exI [of _ "drop (unat hl) input"])
next
  assume r: ?rhs
  then obtain rest where i: "input = header_bytes h @ rest" by blast
  let ?hl = "of_nat (length (header_bytes h)) :: u32"
  have hl: "unat ?hl = length (header_bytes h)"
    using r unat_eq_length_iff [of ?hl "length (header_bytes h)"]
    by (simp add: header_fits_def DNT_MAX_HEADER_BYTES_def)
  have "reads input 8 (u16_be DNT_ENVELOPE_VERSION_V1) 10" "reads input 10 (u32_be ?hl) 14"
    by (simp_all add: i reads_def header_bytes_def)
  then have "take_u16 InvalidFormat input 8 = (Inr DNT_ENVELOPE_VERSION_V1, 10)"
    "take_u32 InvalidFormat input 10 = (Inr ?hl, 14)"
    by (simp_all add: take_word_Ok_iff)
  moreover have "take 8 input = DNT_MAGIC" by (simp add: i header_bytes_def)
  moreover have "reads (header_bytes h) 14 (header_body h) (length (header_bytes h))"
    unfolding reads_all by (simp add: header_bytes_def)
  then have "parse_header ?hl (header_bytes h) 14 = (Inr h, length (header_bytes h))"
    using r by (simp add: parse_header_Ok_iff)
  ultimately show ?lhs
    using r i hl
    by (simp add: inspect_header_def Let_def header_fits_def MIN_PREFIX_BYTES_def length_header_bytes)
qed

definition header_of :: "u32 \<Rightarrow> header_parts \<Rightarrow> dnt_header" where
  "header_of hl p = header_parts.extend p
     (dnt_header.fields DNT_ENVELOPE_VERSION_V1 hl)"

lemma header_of_simps [simp]:
  "header_parts.truncate (header_of hl p) = p" "hd_header_length (header_of hl p) = hl"
  "hd_envelope_version (header_of hl p) = DNT_ENVELOPE_VERSION_V1"
  "header_bytes (header_of hl p) = header_bytes p" "header_fits (header_of hl p) = header_fits p"
  "fields_ok (header_of hl p) = fields_ok p"
  by (cases p; simp add: header_of_def header_parts.defs dnt_header.defs header_bytes_def header_body_def
      header_fits_def fields_ok_def ids_ok_def)+

lemma inspect_encoded:
  assumes "ids_ok p" "validate_flags (hp_flags p) = Ok ()" "encode_header p = Ok bs"
  shows "inspect_header (bs @ rest) = Ok (header_of (of_nat (length bs)) p)"
proof -
  from assms have e: "bs = header_bytes p" "header_fits p" by (auto simp: encode_header_Ok_iff)
  moreover have "length (hp_public_metadata p) < 2 ^ 32"
    using e(2) length_public_metadata_le [of p]
    by (simp add: header_fits_def length_header_bytes DNT_MAX_HEADER_BYTES_def)
  ultimately have "fields_ok p" using assms(1,2) by (simp add: fields_ok_def header_fits_def)
  with e show ?thesis by (simp add: inspect_header_Ok_iff)
qed

section \<open>Properties\<close>

text \<open>
  C39. Header round trip: whatever \<open>encode_header\<close> writes for parts whose identifiers passed their checks and whose flags
  are valid is parsed back by \<open>inspect_header\<close>, whatever bytes (the ciphertext) follow, to the same
  fields, the recorded header length being the number of bytes written.
\<close>

theorem header_roundtrip:
  assumes "ids_ok p" "validate_flags (hp_flags p) = Ok ()" "encode_header p = Ok bs"
  shows "inspect_header (bs @ ciphertext) = Ok (header_of (of_nat (length bs)) p)"
  using assms by (rule inspect_encoded)

text \<open>
  C40. The header is canonical: an accepted envelope starts with exactly the bytes that
  \<open>encode_header\<close> writes for the parsed fields, so no two different prefixes parse to the same
  header and re-encoding (as the re-key path does) is lossless.
\<close>

theorem header_canonical:
  assumes "inspect_header input = Ok h"
  shows "encode_header (header_parts.truncate h) = Ok (take (unat (hd_header_length h)) input) \<and>
    unat (hd_header_length h) \<le> min (length input) DNT_MAX_HEADER_BYTES"
proof -
  from assms have h: "fields_ok h" "header_fits h" "hd_header_length h = of_nat (length (header_bytes h))"
    and "\<exists>rest. input = header_bytes h @ rest" by (auto simp: inspect_header_Ok_iff)
  then obtain rest where i: "input = header_bytes h @ rest" by blast
  have "unat (hd_header_length h) = length (header_bytes h)"
    using h(2,3) unat_eq_length_iff [of "hd_header_length h" "length (header_bytes h)"]
    by (simp add: header_fits_def DNT_MAX_HEADER_BYTES_def)
  then show ?thesis
    using h(1,2) by (simp add: encode_header_Ok_iff i fields_ok_def) (simp add: header_fits_def)
qed

text \<open>
  The two halves of the flag word stay apart: setting a user flag on a valid word leaves the
  reserved internal bits as they were and the word valid, and a word composed from an internal
  and a user part is valid and splits back into exactly those parts.
\<close>

lemma flags_partitioned:
  assumes "validate_flags f = Ok ()" "with_user_flag i f = Ok g" "dnt_compose_flags a b = Ok c"
  shows "validate_flags g = Ok () \<and> internal_bits g = internal_bits f \<and> bit g (16 + unat i) \<and>
    validate_flags c = Ok () \<and> internal_bits c = a \<and> user_bits c = b"
proof -
  from assms(2) have i: "unat i < 16" and g: "g = f OR push_bit (16 + unat i) 1"
    by (auto simp: with_user_flag_def dnt_user_flag_def rbind_Inr_iff flag_consts Let_def split: if_splits)
  have bg: "bit g n \<longleftrightarrow> bit f n \<or> n = 16 + unat i" for n
    using i by (auto simp: g bit_simps bit_push_bit_iff possible_bit_word)
  from assms(3) have ab: "a AND NOT KNOWN_INTERNAL_FLAGS = 0" "b AND NOT DNT_USER_FLAG_MASK = 0" and c: "c = a OR b"
    by (auto simp: dnt_compose_flags_def split: if_splits)
  have a: "bit a n \<Longrightarrow> n = 0" for n
    using arg_cong [OF ab(1), of "\<lambda>w. bit w n"] bit_imp_possible_bit [of a n]
    by (auto simp: KNOWN_INTERNAL_FLAGS_def bit_simps bit_masks possible_bit_word)
  have b: "bit b n \<Longrightarrow> 16 \<le> n \<and> n < 32" for n
    using arg_cong [OF ab(2), of "\<lambda>w. bit w n"] bit_imp_possible_bit [of b n]
    by (auto simp: bit_simps bit_masks possible_bit_word)
  show ?thesis
    using assms(1) a b
    by (auto simp: validate_flags_bits bg internal_bits_def user_bits_def c bit_eq_iff [where 'a = "32 word"]
        bit_and_iff bit_or_iff bit_masks dest: a b)
qed

section \<open>A concrete header\<close>

definition sample_parts :: header_parts where
  "sample_parts = \<lparr> hp_flags = 0x00010001, hp_algorithm = XChaCha20Poly1305, hp_application_id = ''notes'',
     hp_tenant_id = Some ''acme'', hp_content_type = ''text/plain'', hp_codec_id = ''bytes'',
     hp_key_id = ''k1'', hp_schema_version = 3, hp_created_at_ms = 1700000000000, hp_payload_length = 5,
     hp_nonce = replicate 24 7, hp_payload_hash = replicate 32 9, hp_public_metadata = [1, 2],
     hp_encrypted_metadata_length = 4 \<rparr>"

lemma sample_parts_ok:
  "ids_ok sample_parts" "validate_flags (hp_flags sample_parts) = Ok ()" "header_fits sample_parts"
  "fields_ok sample_parts"
proof -
  show i: "ids_ok sample_parts"
    by (simp add: ids_ok_def sample_parts_def dnt_id_new_Ok_iff validate_id_def dnt_id_byte_def char_class_defs
        contract_validate_identifier_def validate_text_def contract_id_char_def validate_distributed_identifier_def
        distributed_id_byte_def byte_of_def MAX_DISTRIBUTED_IDENTIFIER_LEN_def NONCE_BYTES_def HASH_BYTES_def)
  show f: "validate_flags (hp_flags sample_parts) = Ok ()"
    by (simp add: validate_flags_def sample_parts_def flag_consts)
  show "header_fits sample_parts"
    by (simp add: header_fits_def length_header_bytes header_body_def sample_parts_def
        optional_text_field_def DNT_MAX_HEADER_BYTES_def DNT_MAX_ENCRYPTED_METADATA_BYTES_def)
  show "fields_ok sample_parts"
    using i f by (simp add: fields_ok_def) (simp add: sample_parts_def DNT_MAX_ENCRYPTED_METADATA_BYTES_def)
qed

lemma header_roundtrip_witness:
  "inspect_header (header_bytes sample_parts @ [1, 2]) =
     Ok (header_of (of_nat (length (header_bytes sample_parts))) sample_parts)"
  by (rule header_roundtrip [of sample_parts "header_bytes sample_parts" "[1, 2]"])
    (simp_all add: sample_parts_ok encode_header_Ok_iff)

lemma header_canonical_witness:
  "encode_header (header_parts.truncate (header_of (of_nat (length (header_bytes sample_parts))) sample_parts)) =
     Ok (take (unat (of_nat (length (header_bytes sample_parts)) :: u32)) (header_bytes sample_parts @ [1, 2]))"
  using header_canonical [of "header_bytes sample_parts @ [1, 2]"
      "header_of (of_nat (length (header_bytes sample_parts))) sample_parts"]
  by (simp add: inspect_header_Ok_iff sample_parts_ok)

end
