(* ===== verification/Dnt_Envelope.thy ===== *)
theory Dnt_Envelope
  imports Dnt_Format
begin

text \<open>
  Sealing and opening of DNT envelopes in \<open>appcore-dnt\<close>: the encrypted plaintext layout
  (\<open>plaintext.rs\<close>), payload compaction (\<open>compression.rs\<close>), the AEAD and keyed digest helpers
  (\<open>cipher.rs\<close>), key providers (\<open>crypto.rs\<close>), codecs (\<open>codec.rs\<close>), the seal, open and verify
  operations (\<open>model.rs\<close>, \<open>model_types.rs\<close>) and key rotation (\<open>migration.rs\<close>).

  The cipher, the MAC and the compressor are third-party crates: they are the fields of the
  record \<open>primitives\<close>, an argument of every definition that calls them, and
  \<open>primitives_ok\<close> states what their documentation promises. The bytes of \<open>getrandom\<close> are an
  argument of \<open>seal\<close>. Zeroized buffers are dropped right after and leave no trace in the
  model, except in \<open>take_payload_buffer\<close>, which zeroizes and then returns a part of its buffer.
  Lengths are naturals: a Rust slice is shorter than \<open>2 ^ 63\<close>, so \<open>len() as u64\<close> is exact.
\<close>

section \<open>Third-party primitives\<close>

record primitives =
  aead_encrypt :: "bytes \<Rightarrow> bytes \<Rightarrow> bytes \<Rightarrow> bytes \<Rightarrow> bytes option"
  aead_decrypt :: "bytes \<Rightarrow> bytes \<Rightarrow> bytes \<Rightarrow> bytes \<Rightarrow> bytes option"
  aead_decrypt_detached :: "bytes \<Rightarrow> bytes \<Rightarrow> bytes \<Rightarrow> bytes \<Rightarrow> bytes \<Rightarrow> bytes option"
  hmac_sha256 :: "bytes \<Rightarrow> bytes \<Rightarrow> bytes option"
  zlib_deflate :: "bytes \<Rightarrow> bytes option"
  zlib_inflate :: "bytes \<Rightarrow> nat \<Rightarrow> bytes option"

text \<open>
  Decryption inverts encryption under the same key, nonce and associated data; the ciphertext
  is the message followed by a 16-byte tag; the combined form is the detached form on the
  split input and rejects an input shorter than the tag; an HMAC has 32 bytes; reading at most
  \<open>n\<close> bytes of a decompressed stream gives the first \<open>n\<close> bytes of what was compressed.
\<close>

definition aead_ok :: "primitives \<Rightarrow> bool" where
  "aead_ok pr \<longleftrightarrow>
     (\<forall>k n a m c. aead_encrypt pr k n a m = Some c \<longrightarrow>
        aead_decrypt pr k n a c = Some m \<and> length c = length m + 16) \<and>
     (\<forall>k n a c. aead_decrypt pr k n a c = (if length c < 16 then None
        else aead_decrypt_detached pr k n a (take (length c - 16) c) (drop (length c - 16) c))) \<and>
     (\<forall>k n a c t m. aead_decrypt_detached pr k n a c t = Some m \<longrightarrow> length m = length c)"

definition hmac_ok :: "primitives \<Rightarrow> bool" where
  "hmac_ok pr \<longleftrightarrow> (\<forall>k m t. hmac_sha256 pr k m = Some t \<longrightarrow> length t = 32)"

definition zlib_ok :: "primitives \<Rightarrow> bool" where
  "zlib_ok pr \<longleftrightarrow> (\<forall>x z n. zlib_deflate pr x = Some z \<longrightarrow> zlib_inflate pr z n = Some (take n x))"

definition primitives_ok :: "primitives \<Rightarrow> bool" where
  "primitives_ok pr \<longleftrightarrow> aead_ok pr \<and> hmac_ok pr \<and> zlib_ok pr"

section \<open>Cipher helpers\<close>

definition AEAD_TAG_BYTES :: nat where "AEAD_TAG_BYTES = 16"

definition encrypt :: "primitives \<Rightarrow> bytes \<Rightarrow> bytes \<Rightarrow> bytes \<Rightarrow> bytes \<Rightarrow> bytes dnt_result" where
  "encrypt pr key nonce aad plaintext = ok_or AuthenticationFailed (aead_encrypt pr key nonce aad plaintext)"

definition decrypt :: "primitives \<Rightarrow> bytes \<Rightarrow> bytes \<Rightarrow> bytes \<Rightarrow> bytes \<Rightarrow> bytes dnt_result" where
  "decrypt pr key nonce aad ciphertext = ok_or AuthenticationFailed (aead_decrypt pr key nonce aad ciphertext)"

text \<open>In place: the result is the range of the plaintext and the buffer after decryption.\<close>

definition decrypt_owned_in_place ::
    "primitives \<Rightarrow> bytes \<Rightarrow> bytes \<Rightarrow> nat \<Rightarrow> bytes \<Rightarrow> ((nat \<times> nat) \<times> bytes) dnt_result" where
  "decrypt_owned_in_place pr key nonce header_len input =
     (if length input < header_len then Err InvalidFormat
      else let aad = take header_len input; ciphertext_with_tag = drop header_len input
        in if length ciphertext_with_tag < AEAD_TAG_BYTES then Err InvalidFormat
           else let tag_start = length ciphertext_with_tag - AEAD_TAG_BYTES;
                    ciphertext = take tag_start ciphertext_with_tag;
                    tag = drop tag_start ciphertext_with_tag
             in rbind (ok_or AuthenticationFailed (aead_decrypt_detached pr key nonce aad ciphertext tag))
                  (\<lambda>m. Ok ((header_len, header_len + tag_start), aad @ m @ tag)))"

definition derive_payload_digest_key :: "primitives \<Rightarrow> bytes \<Rightarrow> bytes dnt_result" where
  "derive_payload_digest_key pr key =
     ok_or AuthenticationFailed (hmac_sha256 pr key (text_bytes ''appcore-dnt-payload-digest-key-v1''))"

definition payload_digest :: "primitives \<Rightarrow> bytes \<Rightarrow> bytes \<Rightarrow> bytes dnt_result" where
  "payload_digest pr key payload =
     rbind (derive_payload_digest_key pr key) (\<lambda>digest_key.
     if 2 ^ 64 \<le> length payload then Err PayloadTooLarge
     else ok_or AuthenticationFailed (hmac_sha256 pr digest_key
       (text_bytes ''appcore-dnt-payload-digest-v1'' @ u64_be (of_nat (length payload)) @ payload)))"

definition verify_payload_digest :: "primitives \<Rightarrow> bytes \<Rightarrow> bytes \<Rightarrow> bytes \<Rightarrow> bool dnt_result" where
  "verify_payload_digest pr key payload expected =
     rbind (derive_payload_digest_key pr key) (\<lambda>digest_key.
     if 2 ^ 64 \<le> length payload then Err PayloadTooLarge
     else rbind (ok_or AuthenticationFailed (hmac_sha256 pr digest_key
       (text_bytes ''appcore-dnt-payload-digest-v1'' @ u64_be (of_nat (length payload)) @ payload)))
       (\<lambda>mac. Ok (mac = expected)))"

definition random_nonce :: "bytes option \<Rightarrow> bytes dnt_result" where
  "random_nonce rng = ok_or DntIo rng"

section \<open>Key providers\<close>

record dnt_context =
  cx_application_id :: string
  cx_tenant_id :: "string option"
  cx_content_type :: string
  cx_codec_id :: string
  cx_schema_version :: u32

definition context_from_header :: "dnt_header \<Rightarrow> dnt_context" where
  "context_from_header h = \<lparr> cx_application_id = hp_application_id h, cx_tenant_id = hp_tenant_id h,
     cx_content_type = hp_content_type h, cx_codec_id = hp_codec_id h,
     cx_schema_version = hp_schema_version h \<rparr>"

type_synonym key_provider = "string \<Rightarrow> dnt_context \<Rightarrow> dnt_key_error + bytes"

definition secret_key_from_slice :: "bytes \<Rightarrow> dnt_key_error + bytes" where
  "secret_key_from_slice bs = (if length bs \<noteq> 32 then Err KE_InvalidKey else Ok bs)"

type_synonym static_keys = "string \<rightharpoonup> bytes"

definition static_keys_insert :: "string \<Rightarrow> bytes \<Rightarrow> static_keys \<Rightarrow> static_keys" where
  "static_keys_insert key_id key keys = keys(key_id \<mapsto> key)"

definition static_resolve_key :: "static_keys \<Rightarrow> key_provider" where
  "static_resolve_key keys key_id context = ok_or KE_NotFound (keys key_id)"

section \<open>Codecs\<close>

record codec =
  cd_codec_id :: string
  cd_matches :: "string \<Rightarrow> bool"
  cd_encode :: "bytes \<Rightarrow> codec_error + bytes"
  cd_decode :: "bytes \<Rightarrow> codec_error + bytes"
  cd_decode_owned :: "bytes \<Rightarrow> codec_error + bytes"

definition BytesCodec :: codec where
  "BytesCodec = \<lparr> cd_codec_id = ''bytes'', cd_matches = (\<lambda>i. i = ''bytes''), cd_encode = Ok,
     cd_decode = Ok, cd_decode_owned = Ok \<rparr>"

definition IdentityJsonCodec :: codec where
  "IdentityJsonCodec = \<lparr> cd_codec_id = ''json'', cd_matches = (\<lambda>i. i = ''json''), cd_encode = Ok,
     cd_decode = Ok, cd_decode_owned = Ok \<rparr>"

text \<open>The trait's default methods on top of \<open>codec_id\<close>, \<open>encode\<close> and \<open>decode\<close>.\<close>

definition default_codec ::
    "string \<Rightarrow> (bytes \<Rightarrow> codec_error + bytes) \<Rightarrow> (bytes \<Rightarrow> codec_error + bytes) \<Rightarrow> codec" where
  "default_codec i enc dec = \<lparr> cd_codec_id = i, cd_matches = (\<lambda>j. i = j), cd_encode = enc,
     cd_decode = dec, cd_decode_owned = dec \<rparr>"

section \<open>Payload limits and compaction\<close>

definition enforce_max :: "nat \<Rightarrow> u64 option \<Rightarrow> unit dnt_result" where
  "enforce_max actual limit = (case limit of
     Some m \<Rightarrow> if unat m < actual then Err PayloadTooLarge else Ok () | None \<Rightarrow> Ok ())"

datatype dnt_compression = Compression_None | Compression_Deflate

definition compression_from_flags :: "u32 \<Rightarrow> dnt_compression dnt_result" where
  "compression_from_flags flags = rbind (validate_flags flags) (\<lambda>_.
     if flags AND DNT_FLAG_PAYLOAD_DEFLATE \<noteq> 0 then Ok Compression_Deflate else Ok Compression_None)"

definition encode_payload :: "primitives \<Rightarrow> u32 \<Rightarrow> bytes \<Rightarrow> u64 option \<Rightarrow> bytes dnt_result" where
  "encode_payload pr flags encoded limit =
     rbind (compression_from_flags flags) (\<lambda>c. case c of
       Compression_None \<Rightarrow> Ok encoded
     | Compression_Deflate \<Rightarrow>
         rbind (ok_or CodecFailed (zlib_deflate pr encoded)) (\<lambda>compacted.
         rbind (enforce_max (length compacted) limit) (\<lambda>_. Ok compacted)))"

definition inflate_bounded :: "primitives \<Rightarrow> bytes \<Rightarrow> u64 option \<Rightarrow> bytes dnt_result" where
  "inflate_bounded pr input max_payload_bytes = (case max_payload_bytes of
     None \<Rightarrow> Err PayloadTooLarge
   | Some limit \<Rightarrow>
       let read_limit = sat_add limit 1
       in rbind (ok_or CodecFailed (zlib_inflate pr input (unat read_limit))) (\<lambda>output.
          rbind (enforce_max (length output) (Some limit)) (\<lambda>_. Ok output)))"

definition decode_payload :: "primitives \<Rightarrow> u32 \<Rightarrow> bytes \<Rightarrow> u64 option \<Rightarrow> bytes dnt_result" where
  "decode_payload pr flags stored limit =
     rbind (compression_from_flags flags) (\<lambda>c. case c of
       Compression_None \<Rightarrow> Ok stored
     | Compression_Deflate \<Rightarrow> inflate_bounded pr stored limit)"

section \<open>Plaintext layout\<close>

definition encode_plaintext :: "bytes \<Rightarrow> bytes \<Rightarrow> bytes dnt_result" where
  "encode_plaintext metadata payload =
     (if 2 ^ 32 \<le> length metadata then Err PayloadTooLarge
      else if 2 ^ 64 \<le> 4 + length metadata + length payload then Err PayloadTooLarge
      else Ok (u32_be (of_nat (length metadata)) @ metadata @ payload))"

text \<open>The result is the metadata range and the start of the payload.\<close>

definition decode_plaintext_ranges :: "bytes \<Rightarrow> dnt_header \<Rightarrow> ((nat \<times> nat) \<times> nat) dnt_result" where
  "decode_plaintext_ranges plaintext h =
     (if length plaintext < 4 then Err InvalidFormat
      else let metadata_len = of_nat (nat_be (take 4 plaintext)) :: u32
        in if metadata_len \<noteq> hp_encrypted_metadata_length h then Err AuthenticationFailed
           else let metadata_start = 4; payload_start = metadata_start + unat metadata_len
             in if length plaintext < payload_start then Err InvalidFormat
                else if length (drop payload_start plaintext) \<noteq> unat (hp_payload_length h)
                then Err AuthenticationFailed
                else Ok ((metadata_start, metadata_start + unat metadata_len), payload_start))"

section \<open>Sealing\<close>

record seal_options =
  so_application_id :: string
  so_tenant_id :: "string option"
  so_content_type :: string
  so_schema_version :: u32
  so_key_id :: string
  so_created_at_ms :: u64
  so_public_metadata :: bytes
  so_encrypted_metadata :: bytes
  so_flags :: u32
  so_max_payload_bytes :: "u64 option"

record open_options =
  oo_application_id :: string
  oo_tenant_id :: "string option"
  oo_content_type :: string
  oo_max_payload_bytes :: "u64 option"

record opened_dnt =
  od_header :: dnt_header
  od_payload :: bytes
  od_encrypted_metadata :: bytes

definition seal_compact_payload :: "seal_options \<Rightarrow> seal_options" where
  "seal_compact_payload so = so\<lparr> so_flags := so_flags so OR DNT_FLAG_PAYLOAD_DEFLATE \<rparr>"

definition seal_with_user_flag :: "u8 \<Rightarrow> seal_options \<Rightarrow> seal_options dnt_result" where
  "seal_with_user_flag index so =
     rbind (flags_from_bits (so_flags so)) (\<lambda>f.
     rbind (with_user_flag index f) (\<lambda>f. Ok (so\<lparr> so_flags := f \<rparr>)))"

definition seal_context :: "codec \<Rightarrow> seal_options \<Rightarrow> dnt_context" where
  "seal_context codec opts = \<lparr> cx_application_id = so_application_id opts, cx_tenant_id = so_tenant_id opts,
     cx_content_type = so_content_type opts, cx_codec_id = cd_codec_id codec,
     cx_schema_version = so_schema_version opts \<rparr>"

definition seal_parts :: "codec \<Rightarrow> seal_options \<Rightarrow> bytes \<Rightarrow> bytes \<Rightarrow> nat \<Rightarrow> header_parts" where
  "seal_parts codec opts nonce payload_hash payload_length = \<lparr> hp_flags = so_flags opts,
     hp_algorithm = XChaCha20Poly1305, hp_application_id = so_application_id opts,
     hp_tenant_id = so_tenant_id opts, hp_content_type = so_content_type opts,
     hp_codec_id = cd_codec_id codec, hp_key_id = so_key_id opts,
     hp_schema_version = so_schema_version opts, hp_created_at_ms = so_created_at_ms opts,
     hp_payload_length = of_nat payload_length, hp_nonce = nonce, hp_payload_hash = payload_hash,
     hp_public_metadata = so_public_metadata opts,
     hp_encrypted_metadata_length = of_nat (length (so_encrypted_metadata opts)) \<rparr>"

definition seal :: "primitives \<Rightarrow> bytes option \<Rightarrow> bytes \<Rightarrow> key_provider \<Rightarrow> codec \<Rightarrow> seal_options \<Rightarrow> bytes dnt_result" where
  "seal pr rng payload provider codec opts =
     rbind (enforce_max (length payload) (so_max_payload_bytes opts)) (\<lambda>_.
     rbind (validate_flags (so_flags opts)) (\<lambda>_.
     rbind (map_err dnt_error_of_codec (cd_encode codec payload)) (\<lambda>encoded.
     rbind (enforce_max (length encoded) (so_max_payload_bytes opts)) (\<lambda>_.
     rbind (encode_payload pr (so_flags opts) encoded (so_max_payload_bytes opts)) (\<lambda>stored_payload.
     rbind (enforce_max (length stored_payload) (so_max_payload_bytes opts)) (\<lambda>_.
     if 2 ^ 32 \<le> length (so_encrypted_metadata opts) then Err PayloadTooLarge
     else
     rbind (map_err dnt_error_of_key (provider (so_key_id opts) (seal_context codec opts))) (\<lambda>key.
     rbind (random_nonce rng) (\<lambda>nonce.
     rbind (payload_digest pr key stored_payload) (\<lambda>payload_hash.
     if 2 ^ 64 \<le> length stored_payload then Err PayloadTooLarge
     else
     rbind (encode_header (seal_parts codec opts nonce payload_hash (length stored_payload))) (\<lambda>header.
     rbind (encode_plaintext (so_encrypted_metadata opts) stored_payload) (\<lambda>plaintext.
     rbind (encrypt pr key nonce header plaintext) (\<lambda>ciphertext.
     Ok (header @ ciphertext)))))))))))))"

section \<open>Opening\<close>

record authenticated_dnt =
  au_header :: dnt_header
  au_encrypted_metadata :: bytes
  au_buffer :: bytes
  au_payload_range :: "nat \<times> nat"

definition subslice :: "nat \<Rightarrow> nat \<Rightarrow> 'a list \<Rightarrow> 'a list" where
  "subslice a b xs = take (b - a) (drop a xs)"

definition stored_payload :: "authenticated_dnt \<Rightarrow> bytes" where
  "stored_payload a = subslice (fst (au_payload_range a)) (snd (au_payload_range a)) (au_buffer a)"

text \<open>\<open>copy_within(start..end, 0)\<close> and zeroizing a range of a slice.\<close>

definition copy_to_front :: "nat \<Rightarrow> nat \<Rightarrow> bytes \<Rightarrow> bytes" where
  "copy_to_front a b xs = subslice a b xs @ drop (b - a) xs"

definition zeroize_range :: "nat \<Rightarrow> nat \<Rightarrow> bytes \<Rightarrow> bytes" where
  "zeroize_range a b xs = take a xs @ replicate (b - a) 0 @ drop b xs"

definition take_payload_buffer :: "authenticated_dnt \<Rightarrow> bytes" where
  "take_payload_buffer a =
     (let payload_start = fst (au_payload_range a); payload_end = snd (au_payload_range a);
          payload_len = payload_end - payload_start;
          buffer = (if payload_start \<noteq> 0 then copy_to_front payload_start payload_end (au_buffer a)
                    else au_buffer a);
          buffer = zeroize_range payload_len payload_end buffer
      in take payload_len buffer)"

definition validate_header_context :: "dnt_header \<Rightarrow> codec \<Rightarrow> open_options \<Rightarrow> unit dnt_result" where
  "validate_header_context h codec opts =
     (if hp_application_id h \<noteq> oo_application_id opts \<or> hp_tenant_id h \<noteq> oo_tenant_id opts \<or>
         hp_content_type h \<noteq> oo_content_type opts
      then Err ContextMismatch
      else if \<not> cd_matches codec (hp_codec_id h) then Err CodecUnavailable else Ok ())"

definition authenticate_internal ::
    "primitives \<Rightarrow> bytes \<Rightarrow> key_provider \<Rightarrow> codec \<Rightarrow> open_options \<Rightarrow> authenticated_dnt dnt_result" where
  "authenticate_internal pr input provider codec opts =
     rbind (inspect_header input) (\<lambda>h.
     rbind (validate_header_context h codec opts) (\<lambda>_.
     rbind (enforce_max (unat (hp_payload_length h)) (oo_max_payload_bytes opts)) (\<lambda>_.
     let header_len = unat (hd_header_length h)
     in if length input < header_len \<or> drop header_len input = [] then Err InvalidFormat
     else
     rbind (map_err dnt_error_of_key (provider (hp_key_id h) (context_from_header h))) (\<lambda>key.
     rbind (decrypt pr key (hp_nonce h) (take header_len input) (drop header_len input)) (\<lambda>plaintext.
     rbind (decode_plaintext_ranges plaintext h) (\<lambda>(metadata_range, payload_start).
     rbind (verify_payload_digest pr key (drop payload_start plaintext) (hp_payload_hash h)) (\<lambda>digest_matches.
     if \<not> digest_matches then Err AuthenticationFailed
     else Ok \<lparr> au_header = h,
       au_encrypted_metadata = subslice (fst metadata_range) (snd metadata_range) plaintext,
       au_buffer = plaintext, au_payload_range = (payload_start, length plaintext) \<rparr>)))))))"

definition authenticate_owned_internal ::
    "primitives \<Rightarrow> bytes \<Rightarrow> key_provider \<Rightarrow> codec \<Rightarrow> open_options \<Rightarrow> authenticated_dnt dnt_result" where
  "authenticate_owned_internal pr input provider codec opts =
     rbind (inspect_header input) (\<lambda>h.
     rbind (validate_header_context h codec opts) (\<lambda>_.
     rbind (enforce_max (unat (hp_payload_length h)) (oo_max_payload_bytes opts)) (\<lambda>_.
     let header_len = unat (hd_header_length h)
     in if length input \<le> header_len then Err InvalidFormat
     else
     rbind (map_err dnt_error_of_key (provider (hp_key_id h) (context_from_header h))) (\<lambda>key.
     rbind (decrypt_owned_in_place pr key (hp_nonce h) header_len input) (\<lambda>((start, stop), input).
     rbind (decode_plaintext_ranges (subslice start stop input) h) (\<lambda>(metadata_range, payload_offset).
     let payload_start = start + payload_offset in
     rbind (verify_payload_digest pr key (subslice payload_start stop input) (hp_payload_hash h))
       (\<lambda>digest_matches.
     if \<not> digest_matches then Err AuthenticationFailed
     else Ok \<lparr> au_header = h,
       au_encrypted_metadata = subslice (start + fst metadata_range) (start + snd metadata_range) input,
       au_buffer = input, au_payload_range = (payload_start, stop) \<rparr>)))))))"

definition open_authenticated ::
    "primitives \<Rightarrow> authenticated_dnt \<Rightarrow> codec \<Rightarrow> open_options \<Rightarrow> opened_dnt dnt_result" where
  "open_authenticated pr a codec opts =
     rbind (if header_compacted (au_header a)
            then rbind (decode_payload pr (hp_flags (au_header a)) (stored_payload a) (oo_max_payload_bytes opts))
                   (\<lambda>encoded. map_err dnt_error_of_codec (cd_decode_owned codec encoded))
            else map_err dnt_error_of_codec (cd_decode_owned codec (take_payload_buffer a)))
       (\<lambda>payload.
     rbind (enforce_max (length payload) (oo_max_payload_bytes opts)) (\<lambda>_.
     Ok \<lparr> od_header = au_header a, od_payload = payload,
          od_encrypted_metadata = au_encrypted_metadata a \<rparr>))"

definition open_dnt ::
    "primitives \<Rightarrow> bytes \<Rightarrow> key_provider \<Rightarrow> codec \<Rightarrow> open_options \<Rightarrow> opened_dnt dnt_result" where
  "open_dnt pr input provider codec opts =
     rbind (authenticate_internal pr input provider codec opts) (\<lambda>a. open_authenticated pr a codec opts)"

definition open_owned ::
    "primitives \<Rightarrow> bytes \<Rightarrow> key_provider \<Rightarrow> codec \<Rightarrow> open_options \<Rightarrow> opened_dnt dnt_result" where
  "open_owned pr input provider codec opts =
     rbind (authenticate_owned_internal pr input provider codec opts) (\<lambda>a. open_authenticated pr a codec opts)"

definition verify_dnt ::
    "primitives \<Rightarrow> bytes \<Rightarrow> key_provider \<Rightarrow> codec \<Rightarrow> open_options \<Rightarrow> dnt_header dnt_result" where
  "verify_dnt pr input provider codec opts =
     rbind (authenticate_internal pr input provider codec opts) (\<lambda>a.
       if header_compacted (au_header a)
       then rbind (decode_payload pr (hp_flags (au_header a)) (stored_payload a) (oo_max_payload_bytes opts))
              (\<lambda>_. Ok (au_header a))
       else Ok (au_header a))"

section \<open>Key rotation and migration\<close>

definition options_from_opened :: "opened_dnt \<Rightarrow> string \<Rightarrow> u64 option \<Rightarrow> seal_options" where
  "options_from_opened opened key_id limit =
     (let h = od_header opened in
      \<lparr> so_application_id = hp_application_id h, so_tenant_id = hp_tenant_id h,
        so_content_type = hp_content_type h, so_schema_version = hp_schema_version h,
        so_key_id = key_id, so_created_at_ms = hp_created_at_ms h,
        so_public_metadata = hp_public_metadata h,
        so_encrypted_metadata = od_encrypted_metadata opened, so_flags = hp_flags h,
        so_max_payload_bytes = limit \<rparr>)"

definition reseal ::
    "primitives \<Rightarrow> bytes option \<Rightarrow> bytes \<Rightarrow> key_provider \<Rightarrow> codec \<Rightarrow> open_options \<Rightarrow> string option \<Rightarrow> bytes dnt_result" where
  "reseal pr rng input provider codec opts new_key_id =
     rbind (open_dnt pr input provider codec opts) (\<lambda>opened.
       let key_id = (case new_key_id of Some k \<Rightarrow> k | None \<Rightarrow> hp_key_id (od_header opened))
       in seal pr rng (od_payload opened) provider codec
            (options_from_opened opened key_id (oo_max_payload_bytes opts)))"

definition rekey ::
    "primitives \<Rightarrow> bytes option \<Rightarrow> bytes \<Rightarrow> key_provider \<Rightarrow> codec \<Rightarrow> open_options \<Rightarrow> string \<Rightarrow> bytes dnt_result" where
  "rekey pr rng input provider codec opts new_key_id = reseal pr rng input provider codec opts (Some new_key_id)"

definition migrate_envelope ::
    "primitives \<Rightarrow> bytes option \<Rightarrow> bytes \<Rightarrow> key_provider \<Rightarrow> codec \<Rightarrow> open_options \<Rightarrow> bytes dnt_result" where
  "migrate_envelope pr rng input provider codec opts = reseal pr rng input provider codec opts None"

section \<open>Buffers and layout\<close>

lemma aead_decrypt_split:
  assumes "aead_ok pr"
  shows "aead_decrypt pr k n a c = (if length c < 16 then None
    else aead_decrypt_detached pr k n a (take (length c - 16) c) (drop (length c - 16) c))"
  using assms unfolding aead_ok_def by blast

lemma aead_detached_length:
  "aead_ok pr \<Longrightarrow> aead_decrypt_detached pr k n a c t = Some m \<Longrightarrow> length m = length c"
  unfolding aead_ok_def by blast

lemma subslice_all [simp]: "subslice a (length xs) xs = drop a xs"
  by (simp add: subslice_def)

lemma subslice_append: "subslice (length xs + a) (length xs + b) (xs @ ys @ zs) = subslice a b (ys @ zs)"
  by (simp add: subslice_def)

lemma subslice_prefix: "b \<le> length ys \<Longrightarrow> subslice a b (ys @ zs) = subslice a b ys"
  by (cases "a \<le> length ys") (auto simp: subslice_def)

text \<open>Moving the payload to the front and wiping the rest leaves exactly the payload.\<close>

lemma take_payload_buffer_eq:
  assumes "fst (au_payload_range a) \<le> snd (au_payload_range a)"
    and "snd (au_payload_range a) \<le> length (au_buffer a)"
  shows "take_payload_buffer a = stored_payload a"
  using assms
  by (auto simp: take_payload_buffer_def stored_payload_def Let_def copy_to_front_def zeroize_range_def subslice_def)

lemma decode_encode_plaintext:
  assumes "encode_plaintext metadata payload = Ok pt"
    and "hp_encrypted_metadata_length h = of_nat (length metadata)"
    and "unat (hp_payload_length h) = length payload"
  shows "decode_plaintext_ranges pt h = Ok ((4, 4 + length metadata), 4 + length metadata)"
    and "subslice 4 (4 + length metadata) pt = metadata" and "drop (4 + length metadata) pt = payload"
proof -
  from assms(1) have pt: "pt = u32_be (of_nat (length metadata)) @ metadata @ payload"
    and len: "length metadata < 2 ^ 32" by (auto simp: encode_plaintext_def split: if_splits)
  have "unat (of_nat (length metadata) :: u32) = length metadata"
    using len by (simp add: unat_eq_length_iff)
  with assms(2,3) show "decode_plaintext_ranges pt h = Ok ((4, 4 + length metadata), 4 + length metadata)"
    by (simp add: pt decode_plaintext_ranges_def word_be_roundtrip Let_def)
  show "subslice 4 (4 + length metadata) pt = metadata" "drop (4 + length metadata) pt = payload"
    by (simp_all add: pt subslice_def)
qed

lemma verify_own_digest:
  "payload_digest pr key payload = Ok d \<Longrightarrow> verify_payload_digest pr key payload d = Ok True"
  by (auto simp: payload_digest_def verify_payload_digest_def rbind_Inr_iff split: if_splits)

lemma length_digest: "hmac_ok pr \<Longrightarrow> payload_digest pr key payload = Ok d \<Longrightarrow> length d = 32"
  by (auto simp: payload_digest_def rbind_Inr_iff hmac_ok_def ok_or_def split: if_splits option.splits)

lemma enforce_max_Ok_iff: "enforce_max n limit = Ok () \<longleftrightarrow> pred_option (\<lambda>m. n \<le> unat m) limit"
  by (auto simp: enforce_max_def split: option.splits)

text \<open>A limit of the reader that covers the limit of the writer.\<close>

definition limit_covers :: "u32 \<Rightarrow> u64 option \<Rightarrow> u64 option \<Rightarrow> bool" where
  "limit_covers flags writer reader = (case reader of
     None \<Rightarrow> \<not> deflate_flag flags
   | Some r \<Rightarrow> (case writer of None \<Rightarrow> False | Some w \<Rightarrow> w \<le> r))"

lemma limit_covers_enforce:
  "limit_covers flags w r \<Longrightarrow> enforce_max n w = Ok () \<Longrightarrow> enforce_max n r = Ok ()"
  by (auto simp: limit_covers_def enforce_max_Ok_iff word_le_nat_alt split: option.splits)

lemma decode_encode_payload:
  assumes "zlib_ok pr" "encode_payload pr flags x w = Ok y" "enforce_max (length x) r = Ok ()"
    and "deflate_flag flags \<Longrightarrow> r \<noteq> None"
  shows "decode_payload pr flags y r = Ok x"
proof (cases "deflate_flag flags")
  case False
  then show ?thesis using assms(2)
    by (auto simp: encode_payload_def decode_payload_def compression_from_flags_def deflate_flag_def rbind_Inr_iff)
next
  case True
  with assms(4) obtain m where r: "r = Some m" by auto
  have z: "zlib_deflate pr x = Some y" and v: "compression_from_flags flags = Ok Compression_Deflate"
    using True assms(2)
    by (auto simp: encode_payload_def compression_from_flags_def deflate_flag_def rbind_Inr_iff ok_or_def
        split: option.splits)
  have "length x \<le> unat m" using assms(3) r by (simp add: enforce_max_Ok_iff)
  then have "length x \<le> unat (sat_add m 1)"
    using sat_add_ge [of m 1] by (simp add: word_le_nat_alt)
  then have "zlib_inflate pr y (unat (sat_add m 1)) = Some x"
    using z assms(1) by (auto simp: zlib_ok_def)
  then show ?thesis
    using assms(3) by (simp add: decode_payload_def v inflate_bounded_def r Let_def)
qed

lemma decode_payload_plain: "validate_flags flags = Ok () \<Longrightarrow> \<not> deflate_flag flags \<Longrightarrow> decode_payload pr flags y r = Ok y"
  by (simp add: decode_payload_def compression_from_flags_def deflate_flag_def)

section \<open>Opening in place is opening\<close>

definition auth_view :: "authenticated_dnt \<Rightarrow> dnt_header \<times> bytes \<times> bytes" where
  "auth_view a = (au_header a, au_encrypted_metadata a, stored_payload a)"

definition range_ok :: "authenticated_dnt \<Rightarrow> bool" where
  "range_ok a \<longleftrightarrow> fst (au_payload_range a) \<le> snd (au_payload_range a) \<and>
     snd (au_payload_range a) \<le> length (au_buffer a)"

lemma open_authenticated_view:
  "range_ok a \<Longrightarrow> range_ok b \<Longrightarrow> auth_view a = auth_view b \<Longrightarrow>
     open_authenticated pr a codec opts = open_authenticated pr b codec opts"
  by (simp add: open_authenticated_def auth_view_def range_ok_def take_payload_buffer_eq)

lemma decode_plaintext_ranges_Ok:
  "decode_plaintext_ranges pt h = Ok ((ms, me), ps) \<Longrightarrow>
     ms = 4 \<and> me = ps \<and> 4 \<le> ps \<and> ps \<le> length pt \<and> unat (hp_payload_length h) = length pt - ps"
  by (auto simp: decode_plaintext_ranges_def Let_def split: if_splits)

text \<open>What both authentication paths do with the decrypted plaintext.\<close>

definition check_plaintext ::
    "primitives \<Rightarrow> bytes \<Rightarrow> dnt_header \<Rightarrow> bytes \<Rightarrow> (dnt_header \<times> bytes \<times> bytes) dnt_result" where
  "check_plaintext pr key h pt =
     rbind (decode_plaintext_ranges pt h) (\<lambda>((ms, me), ps).
     rbind (verify_payload_digest pr key (drop ps pt) (hp_payload_hash h)) (\<lambda>m.
       if \<not> m then Err AuthenticationFailed else Ok (h, subslice ms me pt, drop ps pt)))"

definition truncated_tag :: "bytes \<Rightarrow> bool" where
  "truncated_tag input = (case inspect_header input of
     Inl _ \<Rightarrow> False | Inr h \<Rightarrow> length input < unat (hd_header_length h) + AEAD_TAG_BYTES)"

lemma owned_plaintext:
  assumes "aead_ok pr" "hl + 16 \<le> length input"
  shows "rbind (decrypt_owned_in_place pr key nonce hl input) f =
    rbind (decrypt pr key nonce (take hl input) (drop hl input))
      (\<lambda>m. f ((hl, hl + length m), take hl input @ m @ drop (hl + length m) input))"
proof -
  let ?ct = "drop hl input"
  let ?m = "aead_decrypt_detached pr key nonce (take hl input) (take (length ?ct - 16) ?ct) (drop (length ?ct - 16) ?ct)"
  have eq: "aead_decrypt pr key nonce (take hl input) ?ct = ?m"
    unfolding aead_decrypt_split [OF assms(1)] using assms(2) by auto
  have guards: "\<not> length input < hl" "\<not> length ?ct < AEAD_TAG_BYTES"
    using assms(2) by (auto simp: AEAD_TAG_BYTES_def)
  show ?thesis
  proof (cases ?m)
    case None
    then show ?thesis using guards
      by (simp add: decrypt_def eq decrypt_owned_in_place_def Let_def) (simp add: AEAD_TAG_BYTES_def)
  next
    case (Some m)
    have len: "length m = length ?ct - 16" using aead_detached_length [OF assms(1) Some] by simp
    have "drop (length m) ?ct = drop (hl + length m) input" by (simp add: add.commute)
    then have "decrypt_owned_in_place pr key nonce hl input =
        Ok ((hl, hl + length m), take hl input @ m @ drop (hl + length m) input)"
      using guards Some unfolding decrypt_owned_in_place_def Let_def AEAD_TAG_BYTES_def len [symmetric] by simp
    then show ?thesis unfolding decrypt_def eq Some by simp
  qed
qed

text \<open>The authentication result up to the place of the payload in its buffer.\<close>

definition authenticates ::
    "primitives \<Rightarrow> bytes \<Rightarrow> key_provider \<Rightarrow> codec \<Rightarrow> open_options \<Rightarrow> (dnt_header \<times> bytes \<times> bytes) dnt_result" where
  "authenticates pr input provider codec opts =
     rbind (inspect_header input) (\<lambda>h.
     rbind (validate_header_context h codec opts) (\<lambda>_.
     rbind (enforce_max (unat (hp_payload_length h)) (oo_max_payload_bytes opts)) (\<lambda>_.
     if length input \<le> unat (hd_header_length h) then Err InvalidFormat else
     rbind (map_err dnt_error_of_key (provider (hp_key_id h) (context_from_header h))) (\<lambda>key.
     rbind (decrypt pr key (hp_nonce h) (take (unat (hd_header_length h)) input)
              (drop (unat (hd_header_length h)) input)) (\<lambda>pt. check_plaintext pr key h pt)))))"

definition same_result :: "authenticated_dnt dnt_result \<Rightarrow> (dnt_header \<times> bytes \<times> bytes) dnt_result \<Rightarrow> bool" where
  "same_result r v \<longleftrightarrow> (case (r, v) of (Inl e, Inl e') \<Rightarrow> e = e'
     | (Inr a, Inr w) \<Rightarrow> range_ok a \<and> auth_view a = w | _ \<Rightarrow> False)"

lemma same_result_rbind:
  "(\<And>x. r = Inr x \<Longrightarrow> same_result (f x) (g x)) \<Longrightarrow> same_result (rbind r f) (rbind r g)"
  by (cases r) (auto simp: same_result_def)

lemma same_result_simps [simp]:
  "same_result (Inl e) (Inl e') \<longleftrightarrow> e = e'" "same_result (Inr a) (Inr w) \<longleftrightarrow> range_ok a \<and> auth_view a = w"
  by (auto simp: same_result_def)

lemma same_result_if:
  "(c \<Longrightarrow> same_result a v) \<Longrightarrow> (\<not> c \<Longrightarrow> same_result b w) \<Longrightarrow> same_result (if c then a else b) (if c then v else w)"
  by simp

text \<open>One tail for both paths: the plaintext sits in a buffer between a header and a tag.\<close>

lemma check_plaintext_in_buffer:
  assumes "start = length pre" "stop = start + length pt" "buffer = pre @ pt @ post"
  shows "same_result
    (rbind (decode_plaintext_ranges pt h) (\<lambda>(mr, po).
     rbind (verify_payload_digest pr key (subslice (start + po) stop buffer) (hp_payload_hash h)) (\<lambda>dm.
       if \<not> dm then Err AuthenticationFailed
       else Ok \<lparr> au_header = h, au_encrypted_metadata = subslice (start + fst mr) (start + snd mr) buffer,
         au_buffer = buffer, au_payload_range = (start + po, stop) \<rparr>)))
    (check_plaintext pr key h pt)"
proof (cases "decode_plaintext_ranges pt h")
  case (Inr r)
  then obtain ms me ps where r: "r = ((ms, me), ps)" and ok: "decode_plaintext_ranges pt h = Ok ((ms, me), ps)"
    by (cases r) auto
  from decode_plaintext_ranges_Ok [OF ok] have b: "ms = 4" "me = ps" "4 \<le> ps" "ps \<le> length pt" by auto
  have payload: "subslice (start + ps) stop buffer = drop ps pt"
    using b assms by (simp add: subslice_append subslice_prefix)
  have meta: "subslice (start + ms) (start + me) buffer = subslice ms me pt"
    using b assms by (simp add: subslice_append subslice_prefix)
  show ?thesis
    by (cases "verify_payload_digest pr key (drop ps pt) (hp_payload_hash h)")
      (use b assms payload meta in \<open>auto simp: check_plaintext_def Inr r auth_view_def range_ok_def stored_payload_def\<close>)
qed (simp add: check_plaintext_def)

lemma authenticate_internal_view:
  "same_result (authenticate_internal pr input provider codec opts) (authenticates pr input provider codec opts)"
proof -
  have tail: "same_result
    (rbind (decode_plaintext_ranges pt h) (\<lambda>(mr, po).
     rbind (verify_payload_digest pr key (drop po pt) (hp_payload_hash h)) (\<lambda>dm.
       if \<not> dm then Err AuthenticationFailed
       else Ok \<lparr> au_header = h, au_encrypted_metadata = subslice (fst mr) (snd mr) pt,
         au_buffer = pt, au_payload_range = (po, length pt) \<rparr>)))
    (check_plaintext pr key h pt)" for pt h key
    using check_plaintext_in_buffer [of 0 "[]" "length pt" pt pt "[]"] unfolding add_0 by simp
  have guard: "length input < n \<or> drop n input = [] \<longleftrightarrow> length input \<le> n" for n by auto
  show ?thesis
    unfolding authenticate_internal_def authenticates_def Let_def guard
    by (intro same_result_rbind same_result_if tail) simp
qed

lemma authenticate_owned_view:
  assumes "aead_ok pr" "\<not> truncated_tag input"
  shows "same_result (authenticate_owned_internal pr input provider codec opts)
    (authenticates pr input provider codec opts)"
  unfolding authenticate_owned_internal_def authenticates_def Let_def
proof (intro same_result_rbind same_result_if)
  fix h u v key
  assume h: "inspect_header input = Inr h"
  let ?hl = "unat (hd_header_length h)"
  have hl: "?hl + 16 \<le> length input" using assms(2) h by (simp add: truncated_tag_def AEAD_TAG_BYTES_def not_less)
  show "same_result
    (rbind (decrypt_owned_in_place pr key (hp_nonce h) ?hl input) (\<lambda>((start, stop), input).
       rbind (decode_plaintext_ranges (subslice start stop input) h) (\<lambda>(mr, po).
       rbind (verify_payload_digest pr key (subslice (start + po) stop input) (hp_payload_hash h)) (\<lambda>dm.
         if \<not> dm then Err AuthenticationFailed
         else Ok \<lparr> au_header = h, au_encrypted_metadata = subslice (start + fst mr) (start + snd mr) input,
           au_buffer = input, au_payload_range = (start + po, stop) \<rparr>))))
    (rbind (decrypt pr key (hp_nonce h) (take ?hl input) (drop ?hl input)) (check_plaintext pr key h))"
    unfolding owned_plaintext [OF assms(1) hl] prod.case
  proof (rule same_result_rbind)
    fix pt
    let ?buffer = "take ?hl input @ pt @ drop (?hl + length pt) input"
    have "subslice ?hl (?hl + length pt) ?buffer = pt" using hl by (simp add: subslice_def)
    then show "same_result
      (rbind (decode_plaintext_ranges (subslice ?hl (?hl + length pt) ?buffer) h) (\<lambda>(mr, po).
       rbind (verify_payload_digest pr key (subslice (?hl + po) (?hl + length pt) ?buffer) (hp_payload_hash h)) (\<lambda>dm.
         if \<not> dm then Err AuthenticationFailed
         else Ok \<lparr> au_header = h, au_encrypted_metadata = subslice (?hl + fst mr) (?hl + snd mr) ?buffer,
           au_buffer = ?buffer, au_payload_range = (?hl + po, ?hl + length pt) \<rparr>)))
      (check_plaintext pr key h pt)"
      using check_plaintext_in_buffer [of ?hl "take ?hl input" "?hl + length pt" pt ?buffer "drop (?hl + length pt) input"] hl
      by simp
  qed
qed simp

lemma open_same_result:
  assumes "same_result r v" "same_result r' v"
  shows "rbind r (\<lambda>a. open_authenticated pr a codec opts) = rbind r' (\<lambda>a. open_authenticated pr a codec opts)"
  using assms open_authenticated_view by (auto simp: same_result_def split: sum.splits)

lemma truncated_tag_fails:
  assumes "aead_ok pr" "truncated_tag input"
  shows "\<not> is_ok (open_owned pr input provider codec opts)" "\<not> is_ok (open_dnt pr input provider codec opts)"
proof -
  from assms(2) obtain h where h: "inspect_header input = Inr h"
    and len: "length input < unat (hd_header_length h) + 16"
    by (auto simp: truncated_tag_def AEAD_TAG_BYTES_def split: sum.splits)
  have "aead_decrypt pr key nonce aad (drop (unat (hd_header_length h)) input) = None" for key nonce aad
    unfolding aead_decrypt_split [OF assms(1)] using len by auto
  then show "\<not> is_ok (open_dnt pr input provider codec opts)"
    by (auto simp: open_dnt_def authenticate_internal_def h is_ok_def decrypt_def rbind_Inr_iff Let_def
        split: sum.splits if_splits)
  show "\<not> is_ok (open_owned pr input provider codec opts)"
    using len by (auto simp: open_owned_def authenticate_owned_internal_def h is_ok_def decrypt_owned_in_place_def
        AEAD_TAG_BYTES_def rbind_Inr_iff Let_def split: sum.splits if_splits)
qed

section \<open>What was sealed opens\<close>

text \<open>
  The contract of the \<open>DntCodec\<close> trait: a codec recognises its own identifier, which is a
  valid one, and decodes what it encoded.
\<close>

locale dnt_codec =
  fixes c :: codec
  assumes own_id: "cd_matches c (cd_codec_id c)"
    and valid_id: "codec_id_new (cd_codec_id c) = Ok (cd_codec_id c)"
    and decode_encode: "cd_encode c v = Ok e \<Longrightarrow> cd_decode_owned c e = Ok v"

definition seal_ids_ok :: "seal_options \<Rightarrow> bool" where
  "seal_ids_ok so \<longleftrightarrow> application_id_new (so_application_id so) = Ok (so_application_id so) \<and>
     pred_option (\<lambda>t. tenant_id_new t = Ok t) (so_tenant_id so) \<and>
     content_type_new (so_content_type so) = Ok (so_content_type so) \<and>
     key_id_new (so_key_id so) = Ok (so_key_id so)"

definition open_matches :: "seal_options \<Rightarrow> open_options \<Rightarrow> bool" where
  "open_matches so oo \<longleftrightarrow> oo_application_id oo = so_application_id so \<and> oo_tenant_id oo = so_tenant_id so \<and>
     oo_content_type oo = so_content_type so \<and>
     limit_covers (so_flags so) (so_max_payload_bytes so) (oo_max_payload_bytes oo)"

text \<open>The stages of a successful seal.\<close>

lemma seal_stages:
  assumes "seal pr rng payload provider codec so = Ok out"
  obtains encoded stored key nonce hash header pt ct where
    "enforce_max (length payload) (so_max_payload_bytes so) = Ok ()" "validate_flags (so_flags so) = Ok ()"
    "cd_encode codec payload = Ok encoded" "enforce_max (length encoded) (so_max_payload_bytes so) = Ok ()"
    "encode_payload pr (so_flags so) encoded (so_max_payload_bytes so) = Ok stored"
    "enforce_max (length stored) (so_max_payload_bytes so) = Ok ()" "length (so_encrypted_metadata so) < 2 ^ 32"
    "provider (so_key_id so) (seal_context codec so) = Ok key" "rng = Some nonce"
    "payload_digest pr key stored = Ok hash" "length stored < 2 ^ 64"
    "encode_header (seal_parts codec so nonce hash (length stored)) = Ok header"
    "encode_plaintext (so_encrypted_metadata so) stored = Ok pt" "aead_encrypt pr key nonce header pt = Some ct"
    "out = header @ ct"
  using assms
  by (auto simp: seal_def rbind_Inr_iff random_nonce_def encrypt_def ok_or_def split: if_splits option.splits)

lemma seal_parts_ids:
  assumes "seal_ids_ok so" "codec_id_new (cd_codec_id codec) = Ok (cd_codec_id codec)"
    and "length nonce = 24" "length hash = 32"
  shows "ids_ok (seal_parts codec so nonce hash n)"
  using assms by (simp add: ids_ok_def seal_parts_def seal_ids_ok_def NONCE_BYTES_def HASH_BYTES_def)

lemma aead_decrypt_encrypt:
  "aead_ok pr \<Longrightarrow> aead_encrypt pr k n a m = Some ct \<Longrightarrow> aead_decrypt pr k n a ct = Some m \<and> length ct = length m + 16"
  unfolding aead_ok_def by blast

lemma header_of_selectors [simp]:
  "hp_flags (header_of hl p) = hp_flags p" "hp_application_id (header_of hl p) = hp_application_id p"
  "hp_tenant_id (header_of hl p) = hp_tenant_id p" "hp_content_type (header_of hl p) = hp_content_type p"
  "hp_codec_id (header_of hl p) = hp_codec_id p" "hp_key_id (header_of hl p) = hp_key_id p"
  "hp_schema_version (header_of hl p) = hp_schema_version p" "hp_nonce (header_of hl p) = hp_nonce p"
  "hp_payload_length (header_of hl p) = hp_payload_length p" "hp_payload_hash (header_of hl p) = hp_payload_hash p"
  "hp_created_at_ms (header_of hl p) = hp_created_at_ms p"
  "hp_public_metadata (header_of hl p) = hp_public_metadata p"
  "hp_encrypted_metadata_length (header_of hl p) = hp_encrypted_metadata_length p"
  by (simp_all add: header_of_def header_parts.defs)

text \<open>The authenticated view of a sealed envelope is what went in.\<close>

lemma authenticates_sealed:
  assumes ok: "primitives_ok pr" and ids: "seal_ids_ok so"
    and codec: "codec_id_new (cd_codec_id codec) = Ok (cd_codec_id codec)" "cd_matches codec (cd_codec_id codec)"
    and m: "open_matches so oo"
    and st: "validate_flags (so_flags so) = Ok ()" "length (so_encrypted_metadata so) < 2 ^ 32"
      "provider (so_key_id so) (seal_context codec so) = Ok key" "length nonce = 24"
      "enforce_max (length stored) (so_max_payload_bytes so) = Ok ()"
      "payload_digest pr key stored = Ok hash" "length stored < 2 ^ 64"
      "encode_header (seal_parts codec so nonce hash (length stored)) = Ok header"
      "encode_plaintext (so_encrypted_metadata so) stored = Ok pt" "aead_encrypt pr key nonce header pt = Some ct"
  shows "authenticates pr (header @ ct) provider codec oo =
    Ok (header_of (of_nat (length header)) (seal_parts codec so nonce hash (length stored)),
        so_encrypted_metadata so, stored)"
proof -
  let ?p = "seal_parts codec so nonce hash (length stored)"
  let ?h = "header_of (of_nat (length header)) ?p"
  have pr: "aead_ok pr" "hmac_ok pr" using ok by (auto simp: primitives_ok_def)
  have "ids_ok ?p" using ids codec(1) st(4) length_digest [OF pr(2) st(6)] by (rule seal_parts_ids)
  then have h: "inspect_header (header @ ct) = Ok ?h" and fits: "header_fits ?p" and hb: "header = header_bytes ?p"
    using inspect_encoded [of ?p] st by (simp_all add: encode_header_Ok_iff seal_parts_def)
  have hl: "unat (of_nat (length header) :: u32) = length header"
    using fits by (simp add: hb header_fits_def DNT_MAX_HEADER_BYTES_def unat_eq_length_iff)
  have dec: "aead_decrypt pr key nonce header ct = Some pt" and ct: "ct \<noteq> []"
    using aead_decrypt_encrypt [OF pr(1) st(10)] by auto
  have len: "unat (of_nat (length stored) :: u64) = length stored"
    using st(7) by (simp add: unat_eq_length_iff)
  have "validate_header_context ?h codec oo = Ok ()"
    using m codec(2) by (simp add: validate_header_context_def open_matches_def seal_parts_def)
  moreover have "enforce_max (unat (hp_payload_length ?h)) (oo_max_payload_bytes oo) = Ok ()"
    using m st(5) limit_covers_enforce len by (auto simp: open_matches_def seal_parts_def)
  moreover have "provider (hp_key_id ?h) (context_from_header ?h) = Ok key"
    using st(3) by (simp add: context_from_header_def seal_context_def seal_parts_def)
  moreover have "check_plaintext pr key ?h pt = Ok (?h, so_encrypted_metadata so, stored)"
    using decode_encode_plaintext [OF st(9), of ?h] verify_own_digest [OF st(6)] len
    by (simp add: check_plaintext_def seal_parts_def)
  ultimately show ?thesis
    using dec ct by (simp add: authenticates_def h hl decrypt_def) (simp add: seal_parts_def)
qed


lemma open_dnt_view:
  assumes "authenticates pr input provider codec oo = Ok (h, md, stored)"
  obtains a where "authenticate_internal pr input provider codec oo = Ok a" "range_ok a"
    "au_header a = h" "au_encrypted_metadata a = md" "stored_payload a = stored"
  using authenticate_internal_view [of pr input provider codec oo] assms
  by (auto simp: same_result_def auth_view_def split: sum.splits)

lemma open_authenticated_Ok:
  assumes "range_ok a" "validate_flags (hp_flags (au_header a)) = Ok ()"
    and "decode_payload pr (hp_flags (au_header a)) (stored_payload a) (oo_max_payload_bytes oo) = Ok encoded"
    and "cd_decode_owned codec encoded = Ok payload" "enforce_max (length payload) (oo_max_payload_bytes oo) = Ok ()"
  shows "open_authenticated pr a codec oo = Ok \<lparr> od_header = au_header a, od_payload = payload,
    od_encrypted_metadata = au_encrypted_metadata a \<rparr>"
  using assms decode_payload_plain [OF assms(2)]
  by (auto simp: open_authenticated_def header_compacted_def range_ok_def take_payload_buffer_eq)

lemma options_from_header_of:
  "options_from_opened \<lparr> od_header = header_of hl (seal_parts codec so nonce hash n), od_payload = payload,
     od_encrypted_metadata = so_encrypted_metadata so \<rparr> (so_key_id so) (so_max_payload_bytes so) = so"
  by (simp add: options_from_opened_def seal_parts_def Let_def)

context dnt_codec
begin

lemma seal_opens:
  assumes ok: "primitives_ok pr" and ids: "seal_ids_ok so" and m: "open_matches so oo"
    and rng: "pred_option (\<lambda>n. length n = NONCE_BYTES) rng" and s: "seal pr rng payload provider c so = Ok out"
  shows "\<exists>opened. open_dnt pr out provider c oo = Ok opened \<and> od_payload opened = payload \<and>
    hp_key_id (od_header opened) = so_key_id so \<and>
    options_from_opened opened (so_key_id so) (so_max_payload_bytes so) = so"
  using s
proof (rule seal_stages)
  fix encoded stored key nonce hash header pt ct
  assume st: "enforce_max (length payload) (so_max_payload_bytes so) = Ok ()" "validate_flags (so_flags so) = Ok ()"
    "cd_encode c payload = Ok encoded" "enforce_max (length encoded) (so_max_payload_bytes so) = Ok ()"
    "encode_payload pr (so_flags so) encoded (so_max_payload_bytes so) = Ok stored"
    "enforce_max (length stored) (so_max_payload_bytes so) = Ok ()" "length (so_encrypted_metadata so) < 2 ^ 32"
    "provider (so_key_id so) (seal_context c so) = Ok key" "rng = Some nonce"
    "payload_digest pr key stored = Ok hash" "length stored < 2 ^ 64"
    "encode_header (seal_parts c so nonce hash (length stored)) = Ok header"
    "encode_plaintext (so_encrypted_metadata so) stored = Ok pt" "aead_encrypt pr key nonce header pt = Some ct"
    "out = header @ ct"
  let ?h = "header_of (of_nat (length header)) (seal_parts c so nonce hash (length stored))"
  have "length nonce = 24" using rng st(9) by (simp add: NONCE_BYTES_def)
  note auth = authenticates_sealed [where provider = provider, OF ok ids valid_id own_id m st(2,7,8) this st(6,10-14)]
  then obtain a where a: "authenticate_internal pr (header @ ct) provider c oo = Ok a" "range_ok a"
    "au_header a = ?h" "au_encrypted_metadata a = so_encrypted_metadata so" "stored_payload a = stored"
    by (rule open_dnt_view)
  note lim = limit_covers_enforce [of "so_flags so" "so_max_payload_bytes so" "oo_max_payload_bytes oo"]
  have cov: "limit_covers (so_flags so) (so_max_payload_bytes so) (oo_max_payload_bytes oo)"
    using m by (simp add: open_matches_def)
  have zlib: "zlib_ok pr" using ok by (simp add: primitives_ok_def)
  have "decode_payload pr (so_flags so) stored (oo_max_payload_bytes oo) = Ok encoded"
    by (rule decode_encode_payload [OF zlib st(5) lim [OF cov st(4)]])
      (use cov in \<open>auto simp: limit_covers_def split: option.splits\<close>)
  then have "open_authenticated pr a c oo = Ok \<lparr> od_header = ?h, od_payload = payload,
      od_encrypted_metadata = so_encrypted_metadata so \<rparr>"
    using open_authenticated_Ok [OF a(2), of pr oo encoded c payload] decode_encode [OF st(3)] lim [OF cov st(1)] st(2)
    by (simp add: a seal_parts_def)
  then show ?thesis
    using options_from_header_of [of "of_nat (length header)" c so nonce hash "length stored" payload]
    by (simp add: open_dnt_def st(15) a(1)) (simp add: seal_parts_def)
qed

end

interpretation bytes_codec: dnt_codec BytesCodec
  by unfold_locales (auto simp: BytesCodec_def dnt_id_new_Ok_iff validate_id_def dnt_id_byte_def char_class_defs)

interpretation json_codec: dnt_codec IdentityJsonCodec
  by unfold_locales (auto simp: IdentityJsonCodec_def dnt_id_new_Ok_iff validate_id_def dnt_id_byte_def char_class_defs)

end
