(* ===== verification/Dnt_Safety.thy ===== *)
theory Dnt_Safety
  imports Dnt_Envelope
begin

text \<open>
  The properties of sealing, opening and key rotation in \<open>appcore-dnt\<close>, each with a witness
  on a concrete envelope. The witnesses use a transparent cipher, which satisfies the laws
  that \<open>primitives_ok\<close> states of the third-party primitives.
\<close>

section \<open>What a successful open implies\<close>

lemma authenticate_internal_Ok:
  assumes "authenticate_internal pr input provider codec oo = Ok a"
  shows "inspect_header input = Ok (au_header a)" "validate_header_context (au_header a) codec oo = Ok ()"
    and "enforce_max (unat (hp_payload_length (au_header a))) (oo_max_payload_bytes oo) = Ok ()"
    and "length (stored_payload a) = unat (hp_payload_length (au_header a))"
    and "length (au_encrypted_metadata a) = unat (hp_encrypted_metadata_length (au_header a))"
    and "\<exists>key. provider (hp_key_id (au_header a)) (context_from_header (au_header a)) = Ok key \<and>
      verify_payload_digest pr key (stored_payload a) (hp_payload_hash (au_header a)) = Ok True"
  using assms
  by (auto simp: authenticate_internal_def rbind_Inr_iff Let_def decode_plaintext_ranges_def
      stored_payload_def subslice_def split: if_splits)

lemma open_dnt_Ok:
  assumes "open_dnt pr input provider codec oo = Ok opened"
  obtains a where "authenticate_internal pr input provider codec oo = Ok a" "range_ok a"
    "od_header opened = au_header a" "od_encrypted_metadata opened = au_encrypted_metadata a"
    "enforce_max (length (od_payload opened)) (oo_max_payload_bytes oo) = Ok ()"
    "\<exists>encoded. decode_payload pr (hp_flags (au_header a)) (stored_payload a) (oo_max_payload_bytes oo) = Ok encoded \<and>
       cd_decode_owned codec encoded = Ok (od_payload opened)"
proof -
  from assms obtain a where a: "authenticate_internal pr input provider codec oo = Ok a"
    and o: "open_authenticated pr a codec oo = Ok opened"
    by (auto simp: open_dnt_def rbind_Inr_iff)
  have r: "range_ok a"
    using authenticate_internal_view [of pr input provider codec oo] a
    by (auto simp: same_result_def split: sum.splits)
  have "fields_ok (au_header a)" using authenticate_internal_Ok(1) [OF a] by (simp add: inspect_header_Ok_iff)
  then have "validate_flags (hp_flags (au_header a)) = Ok ()" by (simp add: fields_ok_def)
  note plain = decode_payload_plain [OF this]
  show thesis
    by (rule that [OF a r])
      (use o r plain in \<open>auto simp: open_authenticated_def rbind_Inr_iff range_ok_def take_payload_buffer_eq
        header_compacted_def split: if_splits\<close>)
qed

section \<open>A transparent instance of the primitives\<close>

definition clear_primitives :: primitives where
  "clear_primitives = \<lparr>
     aead_encrypt = (\<lambda>k n a m. Some (m @ replicate 16 0)),
     aead_decrypt = (\<lambda>k n a c. if length c < 16 then None
       else if drop (length c - 16) c = replicate 16 0 then Some (take (length c - 16) c) else None),
     aead_decrypt_detached = (\<lambda>k n a c t. if t = replicate 16 0 then Some c else None),
     hmac_sha256 = (\<lambda>k m. Some (replicate 32 (of_nat (length m)))),
     zlib_deflate = Some,
     zlib_inflate = (\<lambda>z n. Some (take n z)) \<rparr>"

lemma clear_primitives_ok: "primitives_ok clear_primitives"
  by (auto simp: primitives_ok_def aead_ok_def hmac_ok_def zlib_ok_def clear_primitives_def split: if_splits)

definition sample_options :: "string \<Rightarrow> seal_options" where
  "sample_options k = \<lparr> so_application_id = ''notes'', so_tenant_id = Some ''acme'', so_content_type = ''text/plain'',
     so_schema_version = 3, so_key_id = k, so_created_at_ms = 1700000000000, so_public_metadata = [1, 2],
     so_encrypted_metadata = [3], so_flags = 1, so_max_payload_bytes = Some 100 \<rparr>"

definition sample_open :: open_options where
  "sample_open = \<lparr> oo_application_id = ''notes'', oo_tenant_id = Some ''acme'', oo_content_type = ''text/plain'',
     oo_max_payload_bytes = Some 100 \<rparr>"

definition sample_provider :: key_provider where
  "sample_provider = static_resolve_key (static_keys_insert ''k2'' (replicate 32 6)
     (static_keys_insert ''k1'' (replicate 32 5) (\<lambda>_. None)))"

definition sample_rng :: "bytes option" where
  "sample_rng = Some (replicate 24 7)"

definition sample_sealed_parts :: "string \<Rightarrow> header_parts" where
  "sample_sealed_parts k = seal_parts BytesCodec (sample_options k) (replicate 24 7) (replicate 32 42) 5"

definition sample_out :: "string \<Rightarrow> bytes" where
  "sample_out k = header_bytes (sample_sealed_parts k) @ (u32_be 1 @ [3] @ [1, 2, 3, 4, 5]) @ replicate 16 0"

definition sample_key :: "string \<Rightarrow> bool" where
  "sample_key k \<longleftrightarrow> k = ''k1'' \<or> k = ''k2''"

lemma sample_key_id: "sample_key k \<Longrightarrow> key_id_new k = Ok k"
  by (auto simp: sample_key_def dnt_id_new_Ok_iff validate_id_def dnt_id_byte_def char_class_defs)

lemma sample_sealed_parts_ids:
  assumes "sample_key k"
  shows "seal_ids_ok (sample_options k)" "ids_ok (sample_sealed_parts k)"
proof -
  show "seal_ids_ok (sample_options k)"
    using sample_key_id [OF assms]
    by (simp add: seal_ids_ok_def sample_options_def dnt_id_new_Ok_iff)
      (simp add: validate_id_def dnt_id_byte_def char_class_defs
        contract_validate_identifier_def validate_text_def contract_id_char_def validate_distributed_identifier_def
        distributed_id_byte_def MAX_DISTRIBUTED_IDENTIFIER_LEN_def)
  then show "ids_ok (sample_sealed_parts k)"
    unfolding sample_sealed_parts_def by (rule seal_parts_ids) (simp_all add: bytes_codec.valid_id)
qed

lemma sample_sealed_fits: "sample_key k \<Longrightarrow> header_fits (sample_sealed_parts k)"
  by (auto simp: header_fits_def length_header_bytes header_body_def sample_sealed_parts_def seal_parts_def
      sample_options_def BytesCodec_def optional_text_field_def DNT_MAX_HEADER_BYTES_def
      DNT_MAX_ENCRYPTED_METADATA_BYTES_def sample_key_def)

lemma sample_encoded:
  "sample_key k \<Longrightarrow> encode_header (sample_sealed_parts k) = Ok (header_bytes (sample_sealed_parts k))"
  using sample_sealed_fits sample_sealed_parts_ids(2) by (simp add: encode_header_Ok_iff)

lemma sample_seal:
  assumes k: "sample_key k"
  shows "seal clear_primitives sample_rng [1, 2, 3, 4, 5] sample_provider BytesCodec (sample_options k) =
    Ok (sample_out k)"
proof -
  have hash: "payload_digest clear_primitives key [1, 2, 3, 4, 5] = Ok (replicate 32 42)" for key
    by (simp add: payload_digest_def derive_payload_digest_key_def clear_primitives_def)
  have flags: "validate_flags 1 = Ok ()" "encode_payload clear_primitives 1 [1, 2, 3, 4, 5] (Some 100) = Ok [1, 2, 3, 4, 5]"
    by (simp_all add: validate_flags_def flag_consts encode_payload_def compression_from_flags_def
        clear_primitives_def enforce_max_def)
  have pt: "encode_plaintext [3] [1, 2, 3, 4, 5] = Ok (u32_be 1 @ [3] @ [1, 2, 3, 4, 5])"
    by (simp add: encode_plaintext_def)
  have opts: "so_flags (sample_options k) = 1" "so_max_payload_bytes (sample_options k) = Some 100"
    "so_encrypted_metadata (sample_options k) = [3]" "so_key_id (sample_options k) = k"
    by (simp_all add: sample_options_def)
  obtain key where key: "\<And>cx. sample_provider k cx = Ok key"
    using k by (auto simp: sample_key_def sample_provider_def static_resolve_key_def static_keys_insert_def)
  have five: "Suc (Suc (Suc (Suc (Suc 0)))) = 5" by simp
  have parts: "seal_parts BytesCodec (sample_options k) (replicate 24 7) (replicate 32 42) 5 = sample_sealed_parts k"
    by (simp add: sample_sealed_parts_def)
  show ?thesis
    by (simp add: seal_def five opts flags key enforce_max_def BytesCodec_def [THEN arg_cong, of cd_encode] sample_rng_def
        random_nonce_def hash parts sample_encoded [OF k] pt encrypt_def sample_out_def
        clear_primitives_def [THEN arg_cong, of aead_encrypt] del: replicate.simps)
qed

lemma sample_matches: "open_matches (sample_options k) sample_open"
  by (simp add: open_matches_def sample_options_def sample_open_def limit_covers_def)

lemma sample_rng_24: "pred_option (\<lambda>n. length n = NONCE_BYTES) sample_rng"
  by (simp add: sample_rng_def NONCE_BYTES_def)

lemma sample_k1: "sample_key ''k1''" "sample_key ''k2''"
  by (simp_all add: sample_key_def)

lemma sample_opens:
  "\<exists>opened. open_dnt clear_primitives (sample_out ''k1'') sample_provider BytesCodec sample_open = Ok opened \<and>
     od_payload opened = [1, 2, 3, 4, 5] \<and> options_from_opened opened ''k1'' (Some 100) = sample_options ''k1''"
  using bytes_codec.seal_opens [OF clear_primitives_ok sample_sealed_parts_ids(1) [OF sample_k1(1)] sample_matches
      sample_rng_24 sample_seal [OF sample_k1(1)]]
  by (auto simp: sample_options_def)

lemma sample_rekey:
  "rekey clear_primitives sample_rng (sample_out ''k1'') sample_provider BytesCodec sample_open ''k2'' =
     Ok (sample_out ''k2'')"
proof -
  obtain opened where o: "open_dnt clear_primitives (sample_out ''k1'') sample_provider BytesCodec sample_open = Ok opened"
    and p: "od_payload opened = [1, 2, 3, 4, 5]" "options_from_opened opened ''k1'' (Some 100) = sample_options ''k1''"
    using sample_opens by blast
  have "options_from_opened opened ''k2'' (Some 100) =
      (options_from_opened opened ''k1'' (Some 100))\<lparr> so_key_id := ''k2'' \<rparr>"
    by (simp add: options_from_opened_def Let_def)
  then have "options_from_opened opened ''k2'' (oo_max_payload_bytes sample_open) = sample_options ''k2''"
    by (simp add: p(2)) (simp add: sample_options_def sample_open_def p(2))
  then show ?thesis
    using sample_seal [OF sample_k1(2)] by (simp add: rekey_def reseal_def o p(1))
qed

lemma sample_not_truncated: "\<not> truncated_tag (sample_out ''k1'')"
proof -
  let ?p = "sample_sealed_parts ''k1''"
  have "validate_flags (hp_flags ?p) = Ok ()"
    by (simp add: sample_sealed_parts_def seal_parts_def sample_options_def validate_flags_def flag_consts)
  then have "inspect_header (sample_out ''k1'') = Ok (header_of (of_nat (length (header_bytes ?p))) ?p)"
    unfolding sample_out_def
    by (rule inspect_encoded [OF sample_sealed_parts_ids(2) [OF sample_k1(1)] _ sample_encoded [OF sample_k1(1)]])
  moreover have "unat (of_nat (length (header_bytes ?p)) :: u32) = length (header_bytes ?p)"
    using sample_sealed_fits [OF sample_k1(1)]
    by (simp add: header_fits_def DNT_MAX_HEADER_BYTES_def unat_eq_length_iff)
  ultimately show ?thesis by (simp add: truncated_tag_def AEAD_TAG_BYTES_def sample_out_def)
qed

text \<open>The options of an opened envelope are well typed and reopen under the same open options.\<close>

lemma opened_options_ok:
  assumes "open_dnt pr input provider codec oo = Ok opened" "key_id_new k = Ok k"
  shows "seal_ids_ok (options_from_opened opened k (oo_max_payload_bytes oo)) \<and>
    open_matches (options_from_opened opened k (oo_max_payload_bytes oo)) oo"
  using assms(1)
proof (rule open_dnt_Ok)
  fix a
  assume a: "authenticate_internal pr input provider codec oo = Ok a" "od_header opened = au_header a"
    and d: "\<exists>encoded. decode_payload pr (hp_flags (au_header a)) (stored_payload a) (oo_max_payload_bytes oo) = Ok encoded \<and>
       cd_decode_owned codec encoded = Ok (od_payload opened)"
  note auth = authenticate_internal_Ok [OF a(1)]
  have ids: "ids_ok (au_header a)" using auth(1) by (simp add: inspect_header_Ok_iff fields_ok_def)
  have "oo_max_payload_bytes oo = None \<Longrightarrow> \<not> deflate_flag (hp_flags (au_header a))"
    using d by (auto simp: decode_payload_def compression_from_flags_def deflate_flag_def inflate_bounded_def
        rbind_Inr_iff split: if_splits)
  then have "limit_covers (hp_flags (au_header a)) (oo_max_payload_bytes oo) (oo_max_payload_bytes oo)"
    by (auto simp: limit_covers_def split: option.splits)
  with ids auth(2) assms(2) show ?thesis
    by (auto simp: seal_ids_ok_def open_matches_def options_from_opened_def Let_def a(2) ids_ok_def
        validate_header_context_def split: if_splits)
qed

section \<open>Properties\<close>

text \<open>
  C34. Seal and open are inverse: for every codec that keeps the codec contract, for
  primitives that behave as documented and for options whose identifiers passed their checks, an envelope that \<open>seal\<close> produced opens, under the
  context it was sealed for and a limit that covers the writer's, to the original payload;
  the header and the encrypted metadata carry every seal option unchanged.
\<close>

theorem seal_open_roundtrip:
  assumes "primitives_ok pr" "dnt_codec codec" "seal_ids_ok so" "open_matches so oo"
    and "pred_option (\<lambda>n. length n = NONCE_BYTES) rng" "seal pr rng payload provider codec so = Ok out"
  shows "\<exists>opened. open_dnt pr out provider codec oo = Ok opened \<and> od_payload opened = payload \<and>
    hp_key_id (od_header opened) = so_key_id so \<and>
    options_from_opened opened (so_key_id so) (so_max_payload_bytes so) = so"
  using dnt_codec.seal_opens [OF assms(2,1,3-6)] .

lemma seal_open_roundtrip_witness:
  "\<exists>opened. open_dnt clear_primitives (sample_out ''k1'') sample_provider BytesCodec sample_open = Ok opened \<and>
     od_payload opened = [1, 2, 3, 4, 5]"
  using seal_open_roundtrip [OF clear_primitives_ok bytes_codec.dnt_codec_axioms sample_sealed_parts_ids(1) [OF sample_k1(1)]
      sample_matches sample_rng_24 sample_seal [OF sample_k1(1)]] by blast

text \<open>
  C35. Opening in place is opening: \<open>open_owned\<close>, which decrypts inside the file buffer and
  moves the payload to its front, returns exactly what \<open>open\<close> returns, for valid and invalid
  envelopes alike. The one difference is an envelope whose ciphertext is shorter than the
  authentication tag: both refuse it.
\<close>

theorem open_owned_is_open:
  assumes "aead_ok pr"
  shows "if truncated_tag input
    then \<not> is_ok (open_owned pr input provider codec oo) \<and> \<not> is_ok (open_dnt pr input provider codec oo)
    else open_owned pr input provider codec oo = open_dnt pr input provider codec oo"
proof (cases "truncated_tag input")
  case True
  then show ?thesis using truncated_tag_fails [OF assms True] by simp
next
  case False
  then show ?thesis
    using open_same_result [OF authenticate_owned_view [OF assms False] authenticate_internal_view]
    by (simp add: open_owned_def open_dnt_def)
qed

lemma open_owned_is_open_witness:
  "open_owned clear_primitives (sample_out ''k1'') sample_provider BytesCodec sample_open =
     open_dnt clear_primitives (sample_out ''k1'') sample_provider BytesCodec sample_open"
  using open_owned_is_open [of clear_primitives "sample_out ''k1''" sample_provider BytesCodec sample_open]
    clear_primitives_ok sample_not_truncated
  by (simp add: primitives_ok_def)

text \<open>
  C36. Nothing is opened out of its context: whenever \<open>open\<close> succeeds, the authenticated header
  names exactly the application, tenant and content type that the caller required and a codec
  the caller's codec accepts, the key provider resolved a key for that very context, and both
  the stored and the decoded payload respect the caller's limit.
\<close>

theorem opened_in_context:
  assumes "open_dnt pr input provider codec oo = Ok opened"
  shows "hp_application_id (od_header opened) = oo_application_id oo \<and>
    hp_tenant_id (od_header opened) = oo_tenant_id oo \<and> hp_content_type (od_header opened) = oo_content_type oo \<and>
    cd_matches codec (hp_codec_id (od_header opened)) \<and>
    is_ok (provider (hp_key_id (od_header opened)) (context_from_header (od_header opened))) \<and>
    pred_option (\<lambda>m. unat (hp_payload_length (od_header opened)) \<le> unat m \<and>
      length (od_payload opened) \<le> unat m) (oo_max_payload_bytes oo)"
  using assms
proof (rule open_dnt_Ok)
  fix a
  assume a: "authenticate_internal pr input provider codec oo = Ok a" "od_header opened = au_header a"
    and lim: "enforce_max (length (od_payload opened)) (oo_max_payload_bytes oo) = Ok ()"
  note auth = authenticate_internal_Ok [OF a(1)]
  show ?thesis
    using auth(2,3,6) lim
    by (auto simp: a(2) validate_header_context_def enforce_max_Ok_iff pred_option_def split: if_splits)
qed

lemma opened_in_context_witness:
  "\<exists>opened. open_dnt clear_primitives (sample_out ''k1'') sample_provider BytesCodec sample_open = Ok opened \<and>
     hp_tenant_id (od_header opened) = Some ''acme''"
proof -
  obtain opened where o: "open_dnt clear_primitives (sample_out ''k1'') sample_provider BytesCodec sample_open = Ok opened"
    using sample_opens by blast
  from opened_in_context [OF o] have "hp_tenant_id (od_header opened) = Some ''acme''"
    by (simp add: sample_open_def)
  with o show ?thesis by blast
qed

text \<open>
  Key rotation changes the key and nothing else: when an envelope opens and \<open>rekey\<close>
  succeeds on it, the new envelope opens under the same options to the same payload, its
  header names the new key, and every other field that \<open>seal\<close> was given is unchanged.
\<close>

lemma rekey_preserves:
  assumes "primitives_ok pr" "dnt_codec codec" "key_id_new k = Ok k"
    and "pred_option (\<lambda>n. length n = NONCE_BYTES) rng"
    and "open_dnt pr input provider codec oo = Ok opened" "rekey pr rng input provider codec oo k = Ok out"
  shows "\<exists>opened'. open_dnt pr out provider codec oo = Ok opened' \<and> od_payload opened' = od_payload opened \<and>
    hp_key_id (od_header opened') = k \<and>
    options_from_opened opened' k (oo_max_payload_bytes oo) = options_from_opened opened k (oo_max_payload_bytes oo)"
proof -
  let ?so = "options_from_opened opened k (oo_max_payload_bytes oo)"
  have seal: "seal pr rng (od_payload opened) provider codec ?so = Ok out"
    using assms(5,6) by (simp add: rekey_def reseal_def)
  have "seal_ids_ok ?so" "open_matches ?so oo"
    using opened_options_ok [OF assms(5,3)] by auto
  from dnt_codec.seal_opens [OF assms(2,1) this assms(4) seal]
  show ?thesis by (simp add: options_from_opened_def Let_def)
qed

lemma rekey_preserves_witness:
  "\<exists>opened'. open_dnt clear_primitives (sample_out ''k2'') sample_provider BytesCodec sample_open = Ok opened' \<and>
     od_payload opened' = [1, 2, 3, 4, 5] \<and> hp_key_id (od_header opened') = ''k2''"
proof -
  obtain opened where o: "open_dnt clear_primitives (sample_out ''k1'') sample_provider BytesCodec sample_open = Ok opened"
    and p: "od_payload opened = [1, 2, 3, 4, 5]"
    using sample_opens by blast
  from rekey_preserves [OF clear_primitives_ok bytes_codec.dnt_codec_axioms sample_key_id [OF sample_k1(2)]
      sample_rng_24 o sample_rekey] p
  show ?thesis by auto
qed

end
