(* ===== verification/File_System.thy ===== *)
theory File_System
  imports Wire_Bytes "HOL-Library.Sublist"
begin

text \<open>
  The part of \<open>std::fs\<close> that the file helpers of the runtime use, and their common recipe for
  replacing a file atomically (\<open>appcore-dnt\<close> \<open>io.rs\<close>, \<open>appcore-sync\<close> \<open>persistence.rs\<close>).

  A file system is a map from paths (lists of components) to files, directories and symbolic
  links. Every call may fail: the state carries the list of faults that the following calls
  meet, \<open>None\<close> for a call that succeeds and \<open>Some n\<close> for one that fails, a write having
  transferred its first \<open>n\<close> bytes by then. Quantifying over the faults quantifies over every
  point where a write can be cut short. Other processes do not touch the paths in between two
  calls.
\<close>

section \<open>The file system\<close>

datatype node = FileNode bytes | DirNode | LinkNode

datatype io_kind = IK_NotFound | IK_Other

type_synonym path = "string list"

record fs =
  fs_nodes :: "path \<rightharpoonup> node"
  fs_faults :: "nat option list"
  fs_temp_counter :: u64
  fs_pid :: nat

definition next_fault :: "(fs, io_kind, nat option) eff" where
  "next_fault s = (case fs_faults s of
     [] \<Rightarrow> (Ok None, s) | f # fs \<Rightarrow> (Ok f, s\<lparr> fs_faults := fs \<rparr>))"

text \<open>A call that either fails with \<open>IK_Other\<close> or runs as given.\<close>

definition sys_call :: "(fs, io_kind, 'a) eff \<Rightarrow> (fs, io_kind, 'a) eff" where
  "sys_call m = ebind next_fault (\<lambda>f. if f = None then m else efail IK_Other)"

definition set_node :: "path \<Rightarrow> node option \<Rightarrow> (fs, 'e, unit) eff" where
  "set_node p n = emod (\<lambda>s. s\<lparr> fs_nodes := (fs_nodes s)(p := n) \<rparr>)"

definition fs_symlink_metadata :: "path \<Rightarrow> (fs, io_kind, node) eff" where
  "fs_symlink_metadata p = sys_call (elift (\<lambda>s. ok_or IK_NotFound (fs_nodes s p)))"

definition fs_open_read :: "path \<Rightarrow> (fs, io_kind, node) eff" where
  "fs_open_read p = sys_call (elift (\<lambda>s. case fs_nodes s p of
     Some LinkNode \<Rightarrow> Err IK_Other | Some n \<Rightarrow> Ok n | None \<Rightarrow> Err IK_NotFound))"

definition fs_read :: "bytes \<Rightarrow> nat \<Rightarrow> (fs, io_kind, bytes) eff" where
  "fs_read content limit = sys_call (eret (take limit content))"

text \<open>
  \<open>Path::exists\<close> is \<open>fs::metadata(path).is_ok()\<close>: a call that fails answers no, like a path where nothing is. A
  link counts as present, its target is not modelled.
\<close>

definition path_exists :: "path \<Rightarrow> (fs, 'e, bool) eff" where
  "path_exists p s = (case fs_symlink_metadata p s of (r, s') \<Rightarrow> (Ok (is_ok r), s'))"

text \<open>
  A file is opened by first making its directory and locking it, then asking whether it exists.
  \<open>stat_answers m s\<close>: after the calls \<open>m\<close> the next call, the one that asks, does not fail.
\<close>

definition stat_answers :: "(fs, 'e, 'a) eff \<Rightarrow> fs \<Rightarrow> bool" where
  "stat_answers m s = (case m s of (Inl _, _) \<Rightarrow> True | (Inr _, s') \<Rightarrow> case_list True (\<lambda>f _. f = None) (fs_faults s'))"

definition is_dir :: "fs \<Rightarrow> path \<Rightarrow> bool" where
  "is_dir s p \<longleftrightarrow> p = [] \<or> fs_nodes s p = Some DirNode"

definition fs_create_dir :: "path \<Rightarrow> (fs, io_kind, unit) eff" where
  "fs_create_dir p s =
     (if is_dir s p then (Ok (), s)
      else sys_call (\<lambda>s. if fs_nodes s p = None then set_node p (Some DirNode) s else (Err IK_Other, s)) s)"

definition fs_create_dir_all :: "path \<Rightarrow> (fs, io_kind, unit) eff" where
  "fs_create_dir_all p = eforeach (map (\<lambda>n. take n p) [1 ..< Suc (length p)]) fs_create_dir"

definition fs_create_new :: "path \<Rightarrow> (fs, io_kind, unit) eff" where
  "fs_create_new p = sys_call (\<lambda>s.
     if fs_nodes s p \<noteq> None \<or> \<not> is_dir s (butlast p) then (Err IK_Other, s)
     else set_node p (Some (FileNode [])) s)"

definition fs_write_all :: "path \<Rightarrow> bytes \<Rightarrow> (fs, io_kind, unit) eff" where
  "fs_write_all p bs = ebind next_fault (\<lambda>f. case f of
     None \<Rightarrow> set_node p (Some (FileNode bs))
   | Some n \<Rightarrow> ebind (set_node p (Some (FileNode (take n bs)))) (\<lambda>_. efail IK_Other))"

definition fs_sync :: "path \<Rightarrow> (fs, io_kind, unit) eff" where
  "fs_sync p = sys_call (eret ())"

definition fs_rename :: "path \<Rightarrow> path \<Rightarrow> (fs, io_kind, unit) eff" where
  "fs_rename p q = sys_call (\<lambda>s.
     if fs_nodes s p = None \<or> fs_nodes s q = Some DirNode then (Err IK_Other, s)
     else (Ok (), s\<lparr> fs_nodes := (fs_nodes s)(q := fs_nodes s p, p := None) \<rparr>))"

definition fs_remove_file :: "path \<Rightarrow> (fs, io_kind, unit) eff" where
  "fs_remove_file p = sys_call (\<lambda>s. case fs_nodes s p of
     None \<Rightarrow> (Err IK_NotFound, s) | Some DirNode \<Rightarrow> (Err IK_Other, s) | Some _ \<Rightarrow> set_node p None s)"

definition fs_append :: "path \<Rightarrow> bytes \<Rightarrow> (fs, io_kind, unit) eff" where
  "fs_append p bs = ebind next_fault (\<lambda>f s. case fs_nodes s p of
     Some (FileNode old) \<Rightarrow> (case f of
         None \<Rightarrow> set_node p (Some (FileNode (old @ bs))) s
       | Some n \<Rightarrow> (Err IK_Other, s\<lparr> fs_nodes := (fs_nodes s)(p \<mapsto> FileNode (old @ take n bs)) \<rparr>))
   | _ \<Rightarrow> (Err IK_NotFound, s))"

definition fs_open_create :: "path \<Rightarrow> (fs, io_kind, unit) eff" where
  "fs_open_create q = sys_call (\<lambda>s. case fs_nodes s q of
     None \<Rightarrow> if is_dir s (butlast q) then set_node q (Some (FileNode [])) s else (Err IK_NotFound, s)
   | Some (FileNode _) \<Rightarrow> (Ok (), s)
   | Some _ \<Rightarrow> (Err IK_Other, s))"

text \<open>\<open>map_err(|_| e)\<close> on an I/O result.\<close>

definition as_err :: "'e \<Rightarrow> (fs, io_kind, 'a) eff \<Rightarrow> (fs, 'e, 'a) eff" where
  "as_err e m s = (case m s of (r, s') \<Rightarrow> (map_err (\<lambda>_. e) r, s'))"

section \<open>Replacing a file through a temporary one\<close>

definition temporary_name :: "string \<Rightarrow> nat \<Rightarrow> u64 \<Rightarrow> string" where
  "temporary_name name pid counter = ''.'' @ name @ ''.'' @ nat_dec pid @ ''-'' @ nat_dec (unat counter) @ ''.tmp''"

definition file_name :: "string \<Rightarrow> path \<Rightarrow> string" where
  "file_name fallback p = (if p = [] then fallback else last p)"

definition temporary_path :: "string \<Rightarrow> path \<Rightarrow> path \<Rightarrow> (fs, 'e, path) eff" where
  "temporary_path fallback p parent s =
     (Ok (parent @ [temporary_name (file_name fallback p) (fs_pid s) (fs_temp_counter s)]),
      s\<lparr> fs_temp_counter := fs_temp_counter s + 1 \<rparr>)"

definition sync_parent :: "'e \<Rightarrow> path \<Rightarrow> (fs, 'e, unit) eff" where
  "sync_parent e p = as_err e (ebind (sys_call (eret ())) (\<lambda>_. fs_sync p))"

definition write_and_rename :: "'e \<Rightarrow> path \<Rightarrow> path \<Rightarrow> path \<Rightarrow> bytes \<Rightarrow> (fs, 'e, unit) eff" where
  "write_and_rename e temporary final_path parent bs =
     ebind (as_err e (fs_create_new temporary)) (\<lambda>_.
     ebind (as_err e (ebind (fs_write_all temporary bs) (\<lambda>_. fs_sync temporary))) (\<lambda>_.
     ebind (as_err e (fs_rename temporary final_path)) (\<lambda>_.
     sync_parent e parent)))"

text \<open>
  The whole recipe: make the parent directories, check the target (\<open>guard\<close>), write the
  temporary file, rename it over the target, and remove it again when anything failed.
\<close>

definition replace_file :: "'e \<Rightarrow> string \<Rightarrow> (path \<Rightarrow> (fs, 'e, unit) eff) \<Rightarrow> path \<Rightarrow> bytes \<Rightarrow> (fs, 'e, unit) eff" where
  "replace_file e fallback guard p bs =
     (let parent = butlast p in
     ebind (as_err e (fs_create_dir_all parent)) (\<lambda>_.
     ebind (guard p) (\<lambda>_.
     ebind (temporary_path fallback p parent) (\<lambda>temporary s.
       case write_and_rename e temporary p parent bs s of
         (Inr u, s') \<Rightarrow> (Ok u, s')
       | (Inl err, s') \<Rightarrow> (Err err, snd (fs_remove_file temporary s'))))))"

text \<open>A check of the target that leaves the file system alone.\<close>

definition inspects :: "(fs, 'e, 'a) eff \<Rightarrow> bool" where
  "inspects m \<longleftrightarrow> (\<forall>s. let s' = snd (m s) in
     fs_nodes s' = fs_nodes s \<and> fs_temp_counter s' = fs_temp_counter s \<and> fs_pid s' = fs_pid s)"

section \<open>What each call does to the file system\<close>

lemma next_fault_nodes: "next_fault s = (r, s') \<Longrightarrow> fs_nodes s' = fs_nodes s \<and> (\<exists>f. r = Ok f)"
  by (auto simp: next_fault_def split: list.splits)

text \<open>A call that fails by a fault changes nothing; otherwise it runs on an equal file system.\<close>

lemma sys_call_cases:
  assumes "sys_call m s = (r, s')"
  obtains (fault) "r = Err IK_Other" "fs_nodes s' = fs_nodes s"
  | (runs) s1 where "fs_nodes s1 = fs_nodes s" "m s1 = (r, s')"
proof -
  obtain f s1 where f: "next_fault s = (Ok f, s1)" "fs_nodes s1 = fs_nodes s"
    using next_fault_nodes [of s] by (cases "next_fault s") blast
  show thesis
  proof (cases f)
    case None
    then show thesis using assms f by (intro runs [of s1]) (simp_all add: sys_call_def ebind_eval)
  next
    case (Some n)
    then show thesis using assms f by (intro fault) (simp_all add: sys_call_def ebind_eval)
  qed
qed

lemma set_node_eval [simp]: "set_node p n s = (Ok (), s\<lparr> fs_nodes := (fs_nodes s)(p := n) \<rparr>)"
  by (simp add: set_node_def)

lemma as_err_eval: "as_err e m s = (r, s') \<longleftrightarrow> (\<exists>r'. m s = (r', s') \<and> r = map_err (\<lambda>_. e) r')"
  by (auto simp: as_err_def split: prod.splits)

lemma create_new_nodes:
  assumes "fs_create_new t s = (r, s')"
  shows "fs_nodes s' = fs_nodes s \<or> fs_nodes s' = (fs_nodes s)(t \<mapsto> FileNode [])"
  using assms unfolding fs_create_new_def by (auto elim!: sys_call_cases split: if_splits)

lemma write_sync_nodes:
  assumes "ebind (fs_write_all t bs) (\<lambda>_. fs_sync t) s = (r, s')"
  shows "\<exists>x. fs_nodes s' = (fs_nodes s)(t \<mapsto> FileNode x) \<and> (r = Ok () \<longrightarrow> x = bs)"
proof -
  obtain f s1 where f: "next_fault s = (Ok f, s1)" "fs_nodes s1 = fs_nodes s"
    using next_fault_nodes [of s] by (cases "next_fault s") blast
  show ?thesis
    using assms f
    by (cases f) (auto simp: fs_write_all_def ebind_eval fs_sync_def elim!: sys_call_cases)
qed

lemma open_create_nodes: "fs_open_create q s = (r, s') \<Longrightarrow> p \<noteq> q \<Longrightarrow> fs_nodes s' p = fs_nodes s p"
  unfolding fs_open_create_def by (auto elim!: sys_call_cases split: option.splits node.splits if_splits)

lemma rename_nodes:
  assumes "fs_rename t p s = (r, s')"
  shows "r \<noteq> Ok () \<and> fs_nodes s' = fs_nodes s \<or>
    r = Ok () \<and> fs_nodes s' = (fs_nodes s)(p := fs_nodes s t, t := None)"
  using assms unfolding fs_rename_def by (auto elim!: sys_call_cases split: if_splits)

lemma sync_parent_nodes: "sync_parent e p s = (r, s') \<Longrightarrow> fs_nodes s' = fs_nodes s"
  unfolding sync_parent_def fs_sync_def as_err_eval
  by (auto simp: ebind_eval split: prod.splits sum.splits elim!: sys_call_cases)

lemma remove_file_nodes:
  assumes "q \<noteq> t"
  shows "fs_nodes (snd (fs_remove_file t s)) q = fs_nodes s q"
proof -
  obtain r s' where r: "fs_remove_file t s = (r, s')" by (cases "fs_remove_file t s")
  from r have "fs_nodes s' q = fs_nodes s q"
    using assms unfolding fs_remove_file_def
    by (auto elim!: sys_call_cases split: option.splits node.splits)
  with r show ?thesis by simp
qed

lemma write_and_rename_nodes:
  assumes "write_and_rename e t p parent bs s = (r, s')" "t \<noteq> p"
  shows "(\<forall>q. q \<noteq> t \<and> q \<noteq> p \<longrightarrow> fs_nodes s' q = fs_nodes s q) \<and>
    (fs_nodes s' p = fs_nodes s p \<or> fs_nodes s' p = Some (FileNode bs)) \<and>
    (r = Ok () \<longrightarrow> fs_nodes s' p = Some (FileNode bs) \<and> fs_nodes s' t = None)"
proof -
  obtain r1 s1 where 1: "as_err e (fs_create_new t) s = (r1, s1)" by (cases "as_err e (fs_create_new t) s")
  have n1: "fs_nodes s1 = fs_nodes s \<or> fs_nodes s1 = (fs_nodes s)(t \<mapsto> FileNode [])"
    using 1 create_new_nodes by (auto simp: as_err_eval)
  show ?thesis
  proof (cases r1)
    case (Inl e)
    then show ?thesis using assms 1 n1 by (auto simp: write_and_rename_def ebind_eval)
  next
    case r1: (Inr u)
    let ?w = "as_err e (ebind (fs_write_all t bs) (\<lambda>_. fs_sync t))"
    obtain r2 s2 where 2: "?w s1 = (r2, s2)" by (cases "?w s1")
    obtain x where n2: "fs_nodes s2 = (fs_nodes s1)(t \<mapsto> FileNode x)" "r2 = Ok () \<longrightarrow> x = bs"
      using 2 write_sync_nodes [of t bs s1] by (fastforce simp: as_err_eval)
    show ?thesis
    proof (cases r2)
      case (Inl e)
      then show ?thesis using assms 1 2 n1 n2 r1 by (auto simp: write_and_rename_def ebind_eval)
    next
      case r2: (Inr u)
      obtain r3 s3 where 3: "as_err e (fs_rename t p) s2 = (r3, s3)" by (cases "as_err e (fs_rename t p) s2")
      have n3: "r3 \<noteq> Ok () \<and> fs_nodes s3 = fs_nodes s2 \<or>
          r3 = Ok () \<and> fs_nodes s3 = (fs_nodes s2)(p := fs_nodes s2 t, t := None)"
      proof -
        obtain r' where "fs_rename t p s2 = (r', s3)" "r3 = map_err (\<lambda>_. e) r'"
          using 3 by (auto simp: as_err_eval)
        then show ?thesis using rename_nodes [of t p s2 r' s3] by (cases r') auto
      qed
      have "r3 = Ok () \<Longrightarrow> fs_nodes s' = fs_nodes s3"
        using assms 1 2 3 r1 r2 sync_parent_nodes by (auto simp: write_and_rename_def ebind_eval)
      moreover have "r3 \<noteq> Ok () \<Longrightarrow> r = r3 \<and> s' = s3"
        using assms 1 2 3 r1 r2 by (cases r3) (auto simp: write_and_rename_def ebind_eval)
      ultimately show ?thesis
        using n1 n2 n3 r2 assms(2) by (cases "r3 = Ok ()") auto
    qed
  qed
qed

text \<open>Creating directories changes only prefixes of the path that did not exist.\<close>

definition dirs_only :: "path \<Rightarrow> fs \<Rightarrow> fs \<Rightarrow> bool" where
  "dirs_only p s s' \<longleftrightarrow> (\<forall>q. fs_nodes s q \<noteq> None \<or> \<not> prefix q p \<longrightarrow> fs_nodes s' q = fs_nodes s q) \<and>
     fs_temp_counter s' = fs_temp_counter s \<and> fs_pid s' = fs_pid s"

lemma dirs_only_rt: "reflp (dirs_only p)" "transp (dirs_only p)"
  by (auto simp: dirs_only_def reflp_def transp_def)

lemma next_fault_frame: "next_fault s = (r, s') \<Longrightarrow> s' = s\<lparr> fs_faults := fs_faults s' \<rparr>"
  by (auto simp: next_fault_def split: list.splits)

lemma create_dir_dirs_only:
  assumes "prefix q p"
  shows "keeps (\<lambda>_. True) (dirs_only p) (fs_create_dir q)"
proof (rule keepsI)
  fix s
  obtain r1 s1 where f: "next_fault s = (r1, s1)" by (cases "next_fault s")
  show "dirs_only p s (snd (fs_create_dir q s))"
    using assms next_fault_frame [OF f] f
    by (cases r1; cases s; cases s1)
      (auto simp: fs_create_dir_def sys_call_def ebind_eval dirs_only_def)
qed

lemma keeps_as_err: "keeps P R m \<Longrightarrow> keeps P R (as_err e m)"
  by (auto simp: keeps_def as_err_def split: prod.splits)

lemma create_dir_all_dirs_only: "keeps (\<lambda>_. True) (dirs_only p) (as_err e (fs_create_dir_all p))"
  unfolding fs_create_dir_all_def
  by (intro keeps_as_err keeps_eforeach dirs_only_rt)
    (auto intro!: create_dir_dirs_only simp: take_is_prefix)

lemma temporary_name_neq: "temporary_name name pid n \<noteq> name"
proof
  assume "temporary_name name pid n = name"
  from arg_cong [OF this, of length] show False by (simp add: temporary_name_def)
qed

definition temporary_of :: "fs \<Rightarrow> path \<Rightarrow> path" where
  "temporary_of s p = butlast p @ [temporary_name (last p) (fs_pid s) (fs_temp_counter s)]"

lemma temporary_of_neq: "p \<noteq> [] \<Longrightarrow> temporary_of s p \<noteq> p"
  using temporary_name_neq by (metis append_butlast_last_id last_snoc temporary_of_def)


lemma replace_file_stages:
  fixes e :: 'e
  assumes "replace_file e fallback guard p bs s = (r, s')" "p \<noteq> []" and g: "inspects (guard p)"
  obtains (early) "dirs_only (butlast p) s s'" "r \<noteq> Ok ()"
  | (late) s1 r2 s2 where "\<forall>q. fs_nodes s q \<noteq> None \<or> \<not> prefix q (butlast p) \<longrightarrow> fs_nodes s1 q = fs_nodes s q"
      "write_and_rename e (temporary_of s p) p (butlast p) bs s1 = (r2, s2)" "r = r2"
      "\<forall>q. q \<noteq> temporary_of s p \<longrightarrow> fs_nodes s' q = fs_nodes s2 q" "r2 = Ok () \<longrightarrow> s' = s2"
proof -
  let ?d = "as_err e (fs_create_dir_all (butlast p))"
  obtain r0 s0 where 0: "?d s = (r0, s0)" by (cases "?d s")
  have d0: "dirs_only (butlast p) s s0" by (rule keepsD [OF create_dir_all_dirs_only _ 0]) simp
  obtain rl sl where l: "guard p s0 = (rl, sl)" by (cases "guard p s0")
  have fl: "fs_nodes sl = fs_nodes s0" "fs_temp_counter sl = fs_temp_counter s0" "fs_pid sl = fs_pid s0"
    using l g unfolding inspects_def Let_def by (metis snd_conv)+
  let ?sl = "sl\<lparr> fs_temp_counter := fs_temp_counter sl + 1 \<rparr>"
  obtain r2 s2 where w: "write_and_rename e (temporary_of s p) p (butlast p) bs ?sl = (r2, s2)"
    by (cases "write_and_rename e (temporary_of s p) p (butlast p) bs ?sl")
  have t: "temporary_path fallback p (butlast p) sl = (Ok (temporary_of s p) :: 'e + path, ?sl)"
    using d0 fl assms(2) by (simp add: temporary_path_def temporary_of_def dirs_only_def file_name_def)
  show thesis
  proof (cases "r0 = Ok () \<and> rl = Ok ()")
    case False
    then have "(s' = s0 \<or> s' = sl) \<and> r \<noteq> Ok ()"
      using assms(1) 0 l by (cases r0; cases rl) (auto simp: replace_file_def Let_def ebind_eval)
    with d0 fl show thesis by (intro early) (auto simp: dirs_only_def)
  next
    case True
    then have res: "(r, s') = (case (r2, s2) of (Inr u, s') \<Rightarrow> (Ok u, s')
        | (Inl err, s') \<Rightarrow> (Err err, snd (fs_remove_file (temporary_of s p) s')))"
      using assms(1) 0 l t w by (simp add: replace_file_def Let_def ebind_eval)
    show thesis
      by (rule late [OF _ w]) (use res d0 fl remove_file_nodes in \<open>auto simp: dirs_only_def split: sum.splits\<close>)
  qed
qed

lemma replace_file_nodes:
  assumes r: "replace_file e fallback guard p bs s = (r, s')" and p: "p \<noteq> []" and g: "inspects (guard p)"
  shows "fs_nodes s' p = fs_nodes s p \<or> fs_nodes s' p = Some (FileNode bs)"
    and "r = Ok () \<Longrightarrow> fs_nodes s' p = Some (FileNode bs)"
    and "fs_nodes s q \<noteq> None \<Longrightarrow> q \<noteq> p \<Longrightarrow> q \<noteq> temporary_of s p \<Longrightarrow> fs_nodes s' q = fs_nodes s q"
proof -
  have np: "\<not> prefix p (butlast p)" using p prefix_length_le [of p "butlast p"] by (cases p) auto
  have "(fs_nodes s' p = fs_nodes s p \<or> fs_nodes s' p = Some (FileNode bs)) \<and>
      (r = Ok () \<longrightarrow> fs_nodes s' p = Some (FileNode bs)) \<and>
      (fs_nodes s q \<noteq> None \<and> q \<noteq> p \<and> q \<noteq> temporary_of s p \<longrightarrow> fs_nodes s' q = fs_nodes s q)" for q
    using r p g
  proof (cases rule: replace_file_stages)
    case early
    then show ?thesis using np by (auto simp: dirs_only_def)
  next
    case (late s1 r2 s2)
    note w = write_and_rename_nodes [OF late(2) temporary_of_neq [OF p]]
    have t: "temporary_of s p \<noteq> p" by (rule temporary_of_neq [OF p])
    have "fs_nodes s1 p = fs_nodes s p" using late(1) np by blast
    then show ?thesis using w late(1,3-5) t by auto
  qed
  then show "fs_nodes s' p = fs_nodes s p \<or> fs_nodes s' p = Some (FileNode bs)"
    and "r = Ok () \<Longrightarrow> fs_nodes s' p = Some (FileNode bs)"
    and "fs_nodes s q \<noteq> None \<Longrightarrow> q \<noteq> p \<Longrightarrow> q \<noteq> temporary_of s p \<Longrightarrow> fs_nodes s' q = fs_nodes s q"
    by blast+
qed

section \<open>Calls that only look\<close>

lemma as_err_Ok: "as_err e m s = (Ok x, s') \<longleftrightarrow> m s = (Ok x, s')"
  by (auto simp: as_err_def split: prod.splits)

lemma sys_call_healthy: "fs_faults s = [] \<Longrightarrow> sys_call m s = m s"
  by (simp add: sys_call_def ebind_eval next_fault_def)

text \<open>What the check of existence says, when it is answered and when it is not.\<close>

lemma path_exists_Ok:
  assumes "path_exists p s = (r, s')"
  shows "fs_nodes s' = fs_nodes s" "r = Ok True \<or> r = Ok False" "r = Ok True \<Longrightarrow> fs_nodes s p \<noteq> None"
    "r = Ok False \<Longrightarrow> fs_nodes s p = None \<or> case_list False (\<lambda>f _. f \<noteq> None) (fs_faults s)"
  using assms by (auto simp: path_exists_def fs_symlink_metadata_def sys_call_def ebind_eval next_fault_def elift_def efail_def
      ok_or_def split: prod.splits list.splits option.splits if_splits sum.splits)

lemma path_exists_answered:
  assumes "m s = (Ok x, s1)" "path_exists p s1 = (Ok b, s2)" "stat_answers m s"
  shows "b = (fs_nodes s1 p \<noteq> None)"
  using assms(1,3) path_exists_Ok [OF assms(2)] by (cases b) (auto simp: stat_answers_def split: list.splits)

lemma path_exists_healthy: "fs_faults s = [] \<Longrightarrow> path_exists p s = (Ok (fs_nodes s p \<noteq> None), s)"
  by (auto simp: path_exists_def fs_symlink_metadata_def sys_call_healthy elift_def ok_or_def split: option.splits)

lemma stat_answers_healthy: "snd (m s) = s' \<Longrightarrow> fs_faults s' = [] \<Longrightarrow> stat_answers m s"
  by (auto simp: stat_answers_def split: prod.splits sum.splits)

lemma sys_call_inspects: "inspects m \<Longrightarrow> inspects (sys_call m)"
  unfolding inspects_def Let_def sys_call_def ebind_def next_fault_def
  by (auto split: prod.splits sum.splits list.splits simp: efail_def)

lemma inspects_ebind: "inspects m \<Longrightarrow> (\<And>x. inspects (f x)) \<Longrightarrow> inspects (ebind m f)"
  unfolding inspects_def Let_def ebind_def
  by (auto split: prod.splits sum.splits) (metis snd_conv)+

lemma inspects_pure [simp]: "inspects (eret x)" "inspects (efail e)" "inspects (elift g)"
  by (simp_all add: inspects_def)

lemma inspects_as_err: "inspects m \<Longrightarrow> inspects (as_err e m)"
  unfolding inspects_def Let_def as_err_def by (auto split: prod.splits) (metis snd_conv)+

lemma inspectsD: "inspects m \<Longrightarrow> m s = (r, s') \<Longrightarrow> fs_nodes s' = fs_nodes s"
  unfolding inspects_def Let_def by (metis snd_conv)

lemma fs_append_nodes:
  assumes "fs_append p bs s = (r, s')" "fs_nodes s p = Some (FileNode old)"
  shows "\<exists>n. fs_nodes s' = (fs_nodes s)(p \<mapsto> FileNode (old @ take n bs)) \<and> (r = Ok () \<longrightarrow> take n bs = bs)"
proof -
  obtain f s1 where f: "next_fault s = (Ok f, s1)" "fs_nodes s1 = fs_nodes s"
    using next_fault_nodes [of s] by (cases "next_fault s") blast
  show ?thesis
  proof (cases f)
    case None
    then show ?thesis using assms f by (intro exI [of _ "length bs"]) (auto simp: fs_append_def ebind_eval)
  next
    case (Some n)
    then show ?thesis using assms f by (intro exI [of _ n]) (auto simp: fs_append_def ebind_eval)
  qed
qed

section \<open>Names of paths\<close>

text \<open>\<open>Path::with_extension\<close>: what follows the last dot of the name is replaced, unless the name starts with it.\<close>

definition file_stem :: "string \<Rightarrow> string" where
  "file_stem name = (let stem = rev (tl (dropWhile (\<lambda>c. c \<noteq> CHR ''.'') (rev name))) in
     if name = ''..'' \<or> CHR ''.'' \<notin> set name \<or> stem = [] then name else stem)"

definition with_extension :: "path \<Rightarrow> string \<Rightarrow> path" where
  "with_extension p extension = (if p = [] then p else butlast p @ [file_stem (last p) @ ''.'' @ extension])"

lemma file_stem_cases: "file_stem name = name \<or> (\<exists>ext. name = file_stem name @ CHR ''.'' # ext \<and> CHR ''.'' \<notin> set ext)"
proof (cases "CHR ''.'' \<in> set name")
  case True
  let ?ext = "rev (takeWhile (\<lambda>c. c \<noteq> CHR ''.'') (rev name))" let ?d = "dropWhile (\<lambda>c. c \<noteq> CHR ''.'') (rev name)"
  have "?d \<noteq> []" using True by (simp add: dropWhile_eq_Nil_conv)
  moreover have "hd ?d = CHR ''.''" using hd_dropWhile [OF calculation] by simp
  ultimately have "rev name = rev ?ext @ CHR ''.'' # tl ?d" by (metis list.collapse rev_rev_ident takeWhile_dropWhile_id)
  then have "name = rev (tl ?d) @ CHR ''.'' # ?ext" by (metis append.assoc append_Cons append_Nil rev.simps(2) rev_append rev_rev_ident)
  moreover have "CHR ''.'' \<notin> set ?ext" by (auto dest: set_takeWhileD)
  ultimately show ?thesis by (auto simp: file_stem_def Let_def)
qed (simp add: file_stem_def)

end
