(* ===== verification/Dnt_Io.thy ===== *)
theory Dnt_Io
  imports Dnt_Safety File_System
begin

text \<open>
  The file helpers of \<open>appcore-dnt\<close> (\<open>io.rs\<close>) over the file system of \<open>File_System\<close>: bounded
  reads, and writes that replace a file atomically through a temporary file and a rename.
\<close>

section \<open>Bounded reads\<close>

definition max_envelope_bytes :: "open_options \<Rightarrow> u64 dnt_result" where
  "max_envelope_bytes oo =
     rbind (ok_or PayloadTooLarge (oo_max_payload_bytes oo)) (\<lambda>m.
     ok_or PayloadTooLarge
       (Option.bind (checked_add m (of_nat DNT_MAX_HEADER_BYTES)) (\<lambda>length.
        Option.bind (checked_add length (of_nat DNT_MAX_ENCRYPTED_METADATA_BYTES)) (\<lambda>length.
        checked_add length 20))))"

definition reject_symlink :: "path \<Rightarrow> (fs, dnt_error, unit) eff" where
  "reject_symlink p s = (case fs_symlink_metadata p s of
     (Inr LinkNode, s') \<Rightarrow> (Err DntIo, s')
   | (Inr _, s') \<Rightarrow> (Ok (), s')
   | (Inl IK_NotFound, s') \<Rightarrow> (Ok (), s')
   | (Inl IK_Other, s') \<Rightarrow> (Err DntIo, s'))"

text \<open>The file handle's metadata is read by a call of its own, which may fail.\<close>

definition read_bounded :: "path \<Rightarrow> u64 \<Rightarrow> (fs, dnt_error, bytes) eff" where
  "read_bounded p max_bytes =
     ebind (reject_symlink p) (\<lambda>_.
     ebind (as_err DntIo (fs_open_read p)) (\<lambda>file.
     ebind (as_err DntIo (sys_call (eret file))) (\<lambda>metadata.
     case metadata of
       FileNode content \<Rightarrow>
         if unat max_bytes < length content then efail PayloadTooLarge
         else (case checked_add max_bytes 1 of
           None \<Rightarrow> efail PayloadTooLarge
         | Some read_limit \<Rightarrow>
             ebind (as_err DntIo (fs_read content (unat read_limit))) (\<lambda>bs.
             if unat max_bytes < length bs then efail PayloadTooLarge else eret bs))
     | _ \<Rightarrow> efail DntIo)))"

definition read_verified ::
    "primitives \<Rightarrow> path \<Rightarrow> key_provider \<Rightarrow> codec \<Rightarrow> open_options \<Rightarrow> (fs, dnt_error, opened_dnt) eff" where
  "read_verified pr p provider codec oo =
     ebind (elift (\<lambda>_. max_envelope_bytes oo)) (\<lambda>m.
     ebind (read_bounded p m) (\<lambda>bs. elift (\<lambda>_. open_owned pr bs provider codec oo)))"

section \<open>Atomic replacement\<close>

definition atomic_replace :: "path \<Rightarrow> bytes \<Rightarrow> (fs, dnt_error, unit) eff" where
  "atomic_replace = replace_file DntIo ''appcore-dnt'' reject_symlink"

definition write_atomic ::
    "primitives \<Rightarrow> bytes option \<Rightarrow> path \<Rightarrow> bytes \<Rightarrow> key_provider \<Rightarrow> codec \<Rightarrow> seal_options \<Rightarrow> open_options \<Rightarrow>
       (fs, dnt_error, unit) eff" where
  "write_atomic pr rng p payload provider codec so oo =
     ebind (elift (\<lambda>_. seal pr rng payload provider codec so)) (\<lambda>envelope.
     ebind (elift (\<lambda>_. verify_dnt pr envelope provider codec oo)) (\<lambda>_.
     atomic_replace p envelope))"

lemma reject_symlink_inspects: "inspects (reject_symlink p)"
  by (auto simp: inspects_def Let_def reject_symlink_def fs_symlink_metadata_def sys_call_def ebind_eval next_fault_def
      split: prod.splits sum.splits node.splits io_kind.splits list.splits if_splits)

lemmas atomic_replace_nodes = replace_file_nodes
  [of DntIo "''appcore-dnt''" reject_symlink, folded atomic_replace_def, OF _ _ reject_symlink_inspects]

section \<open>Sizes\<close>

lemma max_envelope_bytes_Ok:
  assumes "max_envelope_bytes oo = Ok n"
  obtains m where "oo_max_payload_bytes oo = Some m" "unat n = unat m + 131092"
  using assms
  by (auto simp: max_envelope_bytes_def rbind_Inr_iff ok_or_def DNT_MAX_HEADER_BYTES_def
      DNT_MAX_ENCRYPTED_METADATA_BYTES_def checked_add_Some_iff bind_eq_Some_conv split: option.splits)

lemma encode_header_length:
  assumes "encode_header p = Ok bs"
  shows "length bs \<le> 65536" "unat (hp_encrypted_metadata_length p) \<le> 65536"
  using assms
  by (auto simp: encode_header_def rbind_Inr_iff Let_def checked_u32_def DNT_MAX_HEADER_BYTES_def
      DNT_MAX_ENCRYPTED_METADATA_BYTES_def not_less split: if_splits)

lemma sealed_length:
  assumes "aead_ok pr" "seal pr rng payload provider codec so = Ok out" "so_max_payload_bytes so = Some m"
  shows "length out \<le> unat m + 131092"
  using assms(2)
proof (rule seal_stages)
  fix stored key nonce hash header pt ct
  assume st: "enforce_max (length stored) (so_max_payload_bytes so) = Ok ()" "length (so_encrypted_metadata so) < 2 ^ 32"
    "encode_header (seal_parts codec so nonce hash (length stored)) = Ok header"
    "encode_plaintext (so_encrypted_metadata so) stored = Ok pt" "aead_encrypt pr key nonce header pt = Some ct"
    "out = header @ ct"
  have "length (so_encrypted_metadata so) \<le> 65536"
    using encode_header_length(2) [OF st(3)] st(2)
      unat_eq_length_iff [of "of_nat (length (so_encrypted_metadata so)) :: u32" "length (so_encrypted_metadata so)"]
    by (simp add: seal_parts_def)
  moreover have "length pt = 4 + length (so_encrypted_metadata so) + length stored"
    using st(4) by (auto simp: encode_plaintext_def split: if_splits)
  moreover have "length stored \<le> unat m" using st(1) assms(3) by (simp add: enforce_max_Ok_iff)
  moreover have "length ct = length pt + 16" using aead_decrypt_encrypt [OF assms(1) st(5)] by simp
  ultimately show ?thesis using encode_header_length(1) [OF st(3)] st(6) by simp
qed

text \<open>Reading back without faults a file that is small enough.\<close>

lemma read_bounded_file:
  assumes "fs_nodes s p = Some (FileNode bs)" "fs_faults s = []" "length bs \<le> unat n" "unat n < 2 ^ 64 - 1"
  shows "read_bounded p n s = (Ok bs, s)"
proof -
  obtain lim where lim: "checked_add n 1 = Some lim"
    using assms(4) by (cases "checked_add n 1") (auto simp: checked_add_None_iff)
  then have "unat lim = unat n + 1" by (simp add: checked_add_Some_iff)
  then show ?thesis
    using assms lim
    by (simp add: read_bounded_def reject_symlink_def fs_symlink_metadata_def fs_open_read_def fs_read_def
        as_err_def sys_call_def next_fault_def ebind_eval)
qed

text \<open>
  C37. A DNT file is replaced atomically: wherever the sequence of file-system calls behind
  \<open>write_atomic\<close> fails, the target holds either what it held before or the complete new
  envelope, never a part of it; when the call succeeds it holds the new envelope; and no other
  existing file except the call's own temporary one is touched.
\<close>

theorem write_atomic_all_or_nothing:
  assumes "p \<noteq> []" "seal pr rng payload provider codec so = Ok envelope"
    and "write_atomic pr rng p payload provider codec so oo s = (r, s')"
  shows "(fs_nodes s' p = fs_nodes s p \<or> fs_nodes s' p = Some (FileNode envelope)) \<and>
    (r = Ok () \<longrightarrow> fs_nodes s' p = Some (FileNode envelope)) \<and>
    (\<forall>q. fs_nodes s q \<noteq> None \<and> q \<noteq> p \<and> q \<noteq> temporary_of s p \<longrightarrow> fs_nodes s' q = fs_nodes s q)"
proof (cases "verify_dnt pr envelope provider codec oo")
  case (Inl e)
  then show ?thesis using assms(2,3) by (auto simp: write_atomic_def ebind_eval)
next
  case (Inr h)
  then have "atomic_replace p envelope s = (r, s')" using assms(2,3) by (simp add: write_atomic_def ebind_eval)
  from atomic_replace_nodes [OF this assms(1)] show ?thesis by blast
qed

text \<open>
  C38. What was written reads back: after a successful \<open>write_atomic\<close>, a \<open>read_verified\<close> of the
  same path under matching options, whose limit leaves room for the envelope overhead, returns
  the original payload. In particular the size bound that the reader derives from its payload
  limit is large enough for every envelope the writer can produce.
\<close>

theorem write_read_roundtrip:
  assumes "primitives_ok pr" "dnt_codec codec" "seal_ids_ok so" "open_matches so oo"
    and "pred_option (\<lambda>n. length n = NONCE_BYTES) rng" "max_envelope_bytes oo = Ok n" "unat n < 2 ^ 64 - 1"
    and "p \<noteq> []" "write_atomic pr rng p payload provider codec so oo s = (Ok (), s')" "fs_faults s' = []"
  shows "\<exists>opened. fst (read_verified pr p provider codec oo s') = Ok opened \<and> od_payload opened = payload"
proof -
  obtain m where m: "oo_max_payload_bytes oo = Some m" "unat n = unat m + 131092"
    using assms(6) by (rule max_envelope_bytes_Ok)
  from assms(4) m(1) obtain w where w: "so_max_payload_bytes so = Some w" "w \<le> m"
    by (auto simp: open_matches_def limit_covers_def split: option.splits)
  from assms(9) obtain envelope where e: "seal pr rng payload provider codec so = Ok envelope"
    and a: "atomic_replace p envelope s = (Ok (), s')"
    by (auto simp: write_atomic_def ebind_Ok_iff)
  have pr: "aead_ok pr" using assms(1) by (simp add: primitives_ok_def)
  have "length envelope \<le> unat n"
    using sealed_length [OF pr e w(1)] w(2) m(2) by (simp add: word_le_nat_alt)
  then have rd: "read_bounded p n s' = (Ok envelope, s')"
    using atomic_replace_nodes(2) [OF a assms(8)] assms(7,10) by (intro read_bounded_file) auto
  obtain opened where o: "open_dnt pr envelope provider codec oo = Ok opened" "od_payload opened = payload"
    using dnt_codec.seal_opens [OF assms(2,1,3,4,5) e] by blast
  have nt: "\<not> truncated_tag envelope"
    using truncated_tag_fails(2) [OF pr, of envelope provider codec oo] o(1) by (auto simp: is_ok_def)
  have "open_owned pr envelope provider codec oo = Ok opened"
    using open_same_result [OF authenticate_owned_view [OF pr nt] authenticate_internal_view] o(1)
    by (simp add: open_owned_def open_dnt_def)
  with rd o(2) show ?thesis by (simp add: read_verified_def ebind_eval assms(6))
qed

section \<open>A concrete file\<close>

lemma verify_of_open:
  assumes "open_dnt pr input provider codec oo = Ok opened"
  shows "verify_dnt pr input provider codec oo = Ok (od_header opened)"
  using assms by (rule open_dnt_Ok) (auto simp: verify_dnt_def)

definition sample_fs :: fs where
  "sample_fs = \<lparr> fs_nodes = (\<lambda>_. None), fs_faults = [], fs_temp_counter = 0, fs_pid = 7 \<rparr>"

definition sample_target :: path where
  "sample_target = [''notes.dnt'']"

lemma sample_write:
  "\<exists>s'. write_atomic clear_primitives sample_rng sample_target [1, 2, 3, 4, 5] sample_provider BytesCodec
     (sample_options ''k1'') sample_open sample_fs = (Ok (), s') \<and> fs_faults s' = []"
proof -
  have v: "\<exists>h. verify_dnt clear_primitives (sample_out ''k1'') sample_provider BytesCodec sample_open = Ok h"
    using sample_opens verify_of_open by blast
  have "\<exists>s'. atomic_replace sample_target bs sample_fs = (Ok (), s') \<and> fs_faults s' = []" for bs
    by (simp add: atomic_replace_def replace_file_def sample_target_def fs_create_dir_all_def reject_symlink_def temporary_path_def
        write_and_rename_def sync_parent_def fs_create_new_def fs_write_all_def fs_sync_def fs_rename_def
        fs_symlink_metadata_def sys_call_def next_fault_def as_err_def ebind_eval is_dir_def sample_fs_def)
  with v show ?thesis using sample_seal [OF sample_k1(1)] by (auto simp: write_atomic_def ebind_eval)
qed

lemma sample_limit: "\<exists>n. max_envelope_bytes sample_open = Ok n \<and> unat n < 2 ^ 64 - 1"
  by (simp add: max_envelope_bytes_def sample_open_def checked_add_def DNT_MAX_HEADER_BYTES_def
      DNT_MAX_ENCRYPTED_METADATA_BYTES_def)

lemma write_atomic_all_or_nothing_witness:
  "\<exists>r s'. write_atomic clear_primitives sample_rng sample_target [1, 2, 3, 4, 5] sample_provider BytesCodec
     (sample_options ''k1'') sample_open (sample_fs\<lparr> fs_faults := [None, None, Some 3] \<rparr>) = (r, s') \<and>
     (fs_nodes s' sample_target = None \<or> fs_nodes s' sample_target = Some (FileNode (sample_out ''k1'')))"
proof -
  let ?s = "sample_fs\<lparr> fs_faults := [None, None, Some 3] \<rparr>"
  obtain r s' where w: "write_atomic clear_primitives sample_rng sample_target [1, 2, 3, 4, 5] sample_provider BytesCodec
      (sample_options ''k1'') sample_open ?s = (r, s')"
    by (meson surj_pair)
  have "sample_target \<noteq> []" by (simp add: sample_target_def)
  from write_atomic_all_or_nothing [OF this sample_seal [OF sample_k1(1)] w]
  show ?thesis using w by (auto simp: sample_fs_def)
qed

lemma write_read_roundtrip_witness:
  "\<exists>s' opened. write_atomic clear_primitives sample_rng sample_target [1, 2, 3, 4, 5] sample_provider BytesCodec
     (sample_options ''k1'') sample_open sample_fs = (Ok (), s') \<and>
     fst (read_verified clear_primitives sample_target sample_provider BytesCodec sample_open s') = Ok opened \<and>
     od_payload opened = [1, 2, 3, 4, 5]"
proof -
  obtain s' where w: "write_atomic clear_primitives sample_rng sample_target [1, 2, 3, 4, 5] sample_provider BytesCodec
      (sample_options ''k1'') sample_open sample_fs = (Ok (), s')" "fs_faults s' = []"
    using sample_write by blast
  obtain n where n: "max_envelope_bytes sample_open = Ok n" "unat n < 2 ^ 64 - 1"
    using sample_limit by blast
  have "sample_target \<noteq> []" by (simp add: sample_target_def)
  from write_read_roundtrip [OF clear_primitives_ok bytes_codec.dnt_codec_axioms
      sample_sealed_parts_ids(1) [OF sample_k1(1)] sample_matches sample_rng_24 n this w]
  show ?thesis using w by blast
qed

end
