(* ===== verification/Text_Format.thy ===== *)
theory Text_Format
  imports Wire_Bytes
begin

text \<open>
  The text functions of the Rust standard library that the line-based file formats use
  (\<open>str::split\<close>, \<open>str::lines\<close>, \<open>str::split_once\<close>, \<open>str::parse\<close>, \<open>u64::to_string\<close>) and the
  hexadecimal codec of \<open>appcore-sync\<close> (\<open>sync/codec.rs\<close>), with the round trips the file
  formats rest on.
\<close>

section \<open>Splitting\<close>

fun split_on :: "'a \<Rightarrow> 'a list \<Rightarrow> 'a list list" where
  "split_on c [] = [[]]"
| "split_on c (x # xs) = (if x = c then [] # split_on c xs
     else (case split_on c xs of [] \<Rightarrow> [[x]] | y # ys \<Rightarrow> (x # y) # ys))"

lemma split_on_not_Nil [simp]: "split_on c xs \<noteq> []"
  by (induction xs) (auto split: list.splits)

lemma split_on_append: "c \<notin> set xs \<Longrightarrow> split_on c (xs @ c # ys) = xs # split_on c ys"
  by (induction xs) auto

lemma split_on_single: "c \<notin> set xs \<Longrightarrow> split_on c xs = [xs]"
  by (induction xs) auto

fun split_once :: "'a \<Rightarrow> 'a list \<Rightarrow> ('a list \<times> 'a list) option" where
  "split_once c [] = None"
| "split_once c (x # xs) = (if x = c then Some ([], xs) else map_option (\<lambda>(a, b). (x # a, b)) (split_once c xs))"

lemma split_once_append: "c \<notin> set xs \<Longrightarrow> split_once c (xs @ c # ys) = Some (xs, ys)"
  by (induction xs) auto

lemma split_once_None_iff: "split_once c xs = None \<longleftrightarrow> c \<notin> set xs"
  by (induction xs) auto

fun strip_prefix :: "'a list \<Rightarrow> 'a list \<Rightarrow> 'a list option" where
  "strip_prefix [] ys = Some ys"
| "strip_prefix (x # xs) [] = None"
| "strip_prefix (x # xs) (y # ys) = (if x = y then strip_prefix xs ys else None)"

lemma strip_prefix_append [simp]: "strip_prefix xs (xs @ ys) = Some ys"
  by (induction xs) auto

lemma strip_prefix_Some_iff: "strip_prefix xs ys = Some zs \<longleftrightarrow> ys = xs @ zs"
  by (induction xs ys rule: strip_prefix.induct) auto

section \<open>Lines\<close>

definition newline :: char where "newline = CHR 0x0A"
definition carriage_return :: char where "carriage_return = CHR 0x0D"
definition tab :: char where "tab = CHR 0x09"

lemmas control_chars = newline_def carriage_return_def tab_def

text \<open>
  \<open>str::lines\<close>: a line ends at a line feed, before which one carriage return is dropped; a
  last line without a line feed is kept as it is, an empty one is not a line.
\<close>

definition strip_cr :: "string \<Rightarrow> string" where
  "strip_cr l = (if l \<noteq> [] \<and> last l = carriage_return then butlast l else l)"

definition rust_lines :: "string \<Rightarrow> string list" where
  "rust_lines s = (let parts = split_on newline s; fin = last parts
     in map strip_cr (butlast parts) @ (if fin = [] then [] else [fin]))"

lemma rust_lines_Nil [simp]: "rust_lines [] = []"
  by (simp add: rust_lines_def)

lemma rust_lines_line:
  "newline \<notin> set l \<Longrightarrow> carriage_return \<notin> set l \<Longrightarrow> rust_lines (l @ newline # rest) = l # rust_lines rest"
  by (auto simp: rust_lines_def split_on_append Let_def strip_cr_def dest: last_in_set)

section \<open>Numbers\<close>

text \<open>\<open>str::parse::<u64>\<close>: an optional plus sign, then at least one digit; overflow is an error.\<close>

definition parse_digits :: "nat \<Rightarrow> string \<Rightarrow> nat option" where
  "parse_digits bound s = (if s \<noteq> [] \<and> list_all is_ascii_digit s \<and> dec_nat s < bound then Some (dec_nat s) else None)"

definition parse_uint :: "nat \<Rightarrow> string \<Rightarrow> nat option" where
  "parse_uint bound s = (case s of
     [] \<Rightarrow> None
   | c # cs \<Rightarrow> if c = CHR ''+'' then parse_digits bound cs else parse_digits bound s)"

definition parse_u64 :: "string \<Rightarrow> u64 option" where
  "parse_u64 s = map_option of_nat (parse_uint (2 ^ 64) s)"

definition u64_string :: "u64 \<Rightarrow> string" where
  "u64_string v = nat_dec (unat v)"

lemma not_digit_in_nat_dec: "\<not> is_ascii_digit c \<Longrightarrow> c \<notin> set (nat_dec n)"
  using nat_dec_digits [of n] by (auto simp: list_all_iff)

lemma parse_uint_dec: "n < bound \<Longrightarrow> parse_uint bound (nat_dec n) = Some n"
proof -
  assume n: "n < bound"
  have "CHR ''+'' \<notin> set (nat_dec n)" by (rule not_digit_in_nat_dec) (simp add: char_class_defs)
  moreover obtain c cs where c: "nat_dec n = c # cs" using nat_dec_not_Nil [of n] by (cases "nat_dec n") auto
  moreover have "dec_nat (c # cs) = n" using dec_nat_dec [of n] by (simp only: c)
  ultimately show ?thesis
    using n nat_dec_digits [of n] by (auto simp: parse_uint_def parse_digits_def)
qed

lemma parse_u64_string [simp]: "parse_u64 (u64_string v) = Some v"
  using unsigned_less [of v, where 'a = nat] by (simp add: parse_u64_def u64_string_def parse_uint_dec)

lemma control_not_in_u64_string:
  "newline \<notin> set (u64_string v)" "carriage_return \<notin> set (u64_string v)" "tab \<notin> set (u64_string v)"
  "CHR '','' \<notin> set (u64_string v)"
  unfolding u64_string_def
  by (rule not_digit_in_nat_dec, simp add: control_chars char_class_defs)+

section \<open>Hexadecimal\<close>

definition hex_nibble :: "u8 \<Rightarrow> char" where
  "hex_nibble v = (if unat v \<le> 9 then char_of (48 + unat v)
     else if unat v \<le> 15 then char_of (97 + (unat v - 10)) else CHR ''0'')"

unbundle bit_operations_syntax

definition bytes_to_hex :: "bytes \<Rightarrow> string" where
  "bytes_to_hex bs = concat (map (\<lambda>b. [hex_nibble (drop_bit 4 b), hex_nibble (b AND 0x0f)]) bs)"

definition from_hex_char :: "char \<Rightarrow> u8 option" where
  "from_hex_char c = (let b = byte_of c in
     if 48 \<le> b \<and> b \<le> 57 then Some (of_nat (b - 48))
     else if 97 \<le> b \<and> b \<le> 102 then Some (of_nat (b - 97 + 10))
     else if 65 \<le> b \<and> b \<le> 70 then Some (of_nat (b - 65 + 10))
     else None)"

fun hex_to_bytes :: "string \<Rightarrow> bytes option" where
  "hex_to_bytes [] = Some []"
| "hex_to_bytes [_] = None"
| "hex_to_bytes (h # l # cs) = (case (from_hex_char h, from_hex_char l, hex_to_bytes cs) of
     (Some h, Some l, Some bs) \<Rightarrow> Some ((push_bit 4 h OR l) # bs) | _ \<Rightarrow> None)"

definition hex_char :: "char \<Rightarrow> bool" where
  "hex_char c = (is_ascii_digit c \<or> 97 \<le> byte_of c \<and> byte_of c \<le> 102)"

lemma from_hex_nibble: "unat v < 16 \<Longrightarrow> from_hex_char (hex_nibble v) = Some v"
  by (auto simp: from_hex_char_def hex_nibble_def byte_of_def Let_def)

lemma hex_char_nibble: "hex_char (hex_nibble v)"
  by (auto simp: hex_char_def hex_nibble_def char_class_defs)

lemma nibbles:
  fixes b :: u8
  shows "unat (drop_bit 4 b) < 16" "unat (b AND 0x0f) < 16" "push_bit 4 (drop_bit 4 b) OR (b AND 0x0f) = b"
proof -
  have "b AND 0x0f = take_bit 4 b" by (simp add: take_bit_eq_mask mask_eq_exp_minus_1)
  moreover have "push_bit 4 (drop_bit 4 b) OR take_bit 4 b = b"
    by (rule bit_eqI) (auto simp: bit_simps)
  moreover have "take_bit 4 (unat b) < 2 ^ 4" by (rule take_bit_nat_less_exp)
  ultimately show "push_bit 4 (drop_bit 4 b) OR (b AND 0x0f) = b" "unat (b AND 0x0f) < 16"
    by (simp_all add: unsigned_take_bit_eq)
  have "unat b < 256" using unsigned_less [of b, where 'a = nat] by simp
  then show "unat (drop_bit 4 b) < 16" by (simp add: drop_bit_eq_div unat_div)
qed

lemma hex_to_bytes_hex [simp]: "hex_to_bytes (bytes_to_hex bs) = Some bs"
  by (induction bs) (auto simp: bytes_to_hex_def from_hex_nibble nibbles)

lemma length_bytes_to_hex [simp]: "length (bytes_to_hex bs) = 2 * length bs"
  by (induction bs) (auto simp: bytes_to_hex_def)

lemma hex_chars: "list_all hex_char (bytes_to_hex bs)"
  by (induction bs) (auto simp: bytes_to_hex_def hex_char_nibble)

lemma not_hex_char_in: "\<not> hex_char c \<Longrightarrow> c \<notin> set (bytes_to_hex bs)"
  using hex_chars [of bs] by (auto simp: list_all_iff)

lemma control_not_in_hex:
  "newline \<notin> set (bytes_to_hex bs)" "carriage_return \<notin> set (bytes_to_hex bs)" "tab \<notin> set (bytes_to_hex bs)"
  by (rule not_hex_char_in, simp add: hex_char_def control_chars char_class_defs)+

section \<open>Line files\<close>

lemma dropWhile_append_all: "\<forall>x\<in>set xs. P x \<Longrightarrow> dropWhile P (xs @ ys) = dropWhile P ys"
  by (induction xs) auto

lemma dropWhile_last: "ys = [] \<or> \<not> P (hd ys) \<Longrightarrow> dropWhile P ys = ys"
  by (cases ys) auto

lemma hex_char_ascii: "hex_char c \<Longrightarrow> byte_of c < 128"
  by (auto simp: hex_char_def char_class_defs)

definition ascii_text :: "string \<Rightarrow> bool" where
  "ascii_text s \<longleftrightarrow> list_all (\<lambda>c. byte_of c < 128) s"

lemma ascii_text_simps [simp]:
  "ascii_text []" "ascii_text (xs @ ys) \<longleftrightarrow> ascii_text xs \<and> ascii_text ys"
  "ascii_text [tab]" "ascii_text [newline]" "ascii_text (u64_string q)" "ascii_text (bytes_to_hex v)"
proof -
  show "ascii_text (u64_string q)"
    using nat_dec_digits [of "unat q"] by (auto simp: ascii_text_def u64_string_def list_all_iff is_ascii_digit_def)
  show "ascii_text (bytes_to_hex v)"
    using hex_chars [of v] hex_char_ascii by (auto simp: ascii_text_def list_all_iff)
qed (simp_all add: ascii_text_def control_chars byte_of_def)

lemma ascii_utf8: "ascii_text s \<Longrightarrow> valid_utf8 (map unat (text_bytes s))"
  by (rule valid_utf8_text) (simp add: ascii_text_def list_all_iff)

lemma ascii_take: "ascii_text s \<Longrightarrow> ascii_text (take n s)"
  by (auto simp: ascii_text_def list_all_iff dest: in_set_takeD)

lemma text_bytes_append [simp]: "text_bytes (xs @ ys) = text_bytes xs @ text_bytes ys"
  by (simp add: text_bytes_def)

lemma text_bytes_take: "take n (text_bytes xs) = text_bytes (take n xs)"
  by (simp add: text_bytes_def take_map)

text \<open>
  The line-based files of the runtime are appended to, and an append that was interrupted leaves an
  incomplete last line. \<open>complete_line_prefix\<close> (\<open>appcore-core\<close>, \<open>idempotency.rs\<close> and \<open>operational_journal.rs\<close>) cuts
  it off and says whether there was one.
\<close>

definition complete_line_prefix :: "string \<Rightarrow> string \<times> bool" where
  "complete_line_prefix body =
     (if body = [] \<or> last body = newline then (body, False)
      else (rev (dropWhile (\<lambda>c. c \<noteq> newline) (rev body)), True))"

definition line_text :: "string list \<Rightarrow> string" where
  "line_text ls = concat (map (\<lambda>l. l @ [newline]) ls)"

lemma line_text_simps [simp]:
  "line_text [] = []" "line_text (l # ls) = l @ newline # line_text ls" "line_text (ls @ ls') = line_text ls @ line_text ls'"
  by (simp_all add: line_text_def)

definition line_ok :: "string \<Rightarrow> bool" where
  "line_ok l \<longleftrightarrow> newline \<notin> set l \<and> carriage_return \<notin> set l"

lemma rust_lines_line_text: "\<forall>l\<in>set ls. line_ok l \<Longrightarrow> rust_lines (line_text ls) = ls"
  by (induction ls) (simp_all add: rust_lines_line line_ok_def)

lemma last_line_text: "line_text ls = [] \<or> last (line_text ls) = newline"
  by (induction ls rule: rev_induct) auto

lemma complete_line_prefix_torn:
  assumes "newline \<notin> set tail"
  shows "complete_line_prefix (line_text ls @ tail) = (line_text ls, tail \<noteq> [])"
proof (cases "tail = []")
  case True
  then show ?thesis using last_line_text [of ls] by (auto simp: complete_line_prefix_def)
next
  case False
  then have "last tail \<noteq> newline" using assms last_in_set [of tail] by metis
  moreover have "dropWhile (\<lambda>c. c \<noteq> newline) (rev tail @ rev (line_text ls)) = rev (line_text ls)"
    using assms last_line_text [of ls]
    by (subst dropWhile_append_all) (auto simp: hd_rev intro!: dropWhile_last)
  ultimately show ?thesis using False by (simp add: complete_line_prefix_def)
qed

text \<open>A prefix of one more line is that line with its end, or a piece of it without line feed.\<close>

lemma take_line_cases:
  assumes "line_ok l"
  obtains (whole) "take n (l @ [newline]) = l @ [newline]"
  | (torn) "take n (l @ [newline]) = take n l" "newline \<notin> set (take n l)"
proof (cases "n \<le> length l")
  case True
  then show thesis using assms in_set_takeD [of newline n l] by (intro torn) (auto simp: line_ok_def)
qed (simp add: whole)

lemma ascii_line_text: "\<forall>l\<in>set ls. ascii_text l \<Longrightarrow> ascii_text (line_text ls)"
  by (induction ls) (auto simp: ascii_text_def control_chars byte_of_def)

end
