(* ===== verification/Sync_Log.thy ===== *)
theory Sync_Log
  imports Text_Format File_System Identifiers
begin

text \<open>
  The replication log of \<open>appcore-sync\<close>: errors (\<open>sync/error.rs\<close>), hash-chained records and
  the in-memory and file-backed logs (\<open>sync/log.rs\<close>), portable snapshots
  (\<open>sync/snapshot.rs\<close>) and the file helpers they use (\<open>sync/persistence.rs\<close>).

  SHA-256 comes from a third-party crate and is the argument \<open>sha\<close>. The text of an operating
  system error inside \<open>ReplicationFailed\<close> is the constant \<open>os_message\<close>. The advisory lock
  between processes is taken around each file operation; the model runs one operation at a
  time and keeps the failures of taking it.
\<close>

section \<open>Errors\<close>

datatype sync_error =
  IncompatiblePeer | TransportFailed string | TransportTimeout string | HttpStatus u16
  | EmptyHttpResponse | EmptyRequestBody | RequestBodyTooLarge nat nat | ResponseTooLarge nat
  | TooManyEvents nat nat | InvalidSequence u64 | SequenceConflict u64 | SnapshotUnsupported
  | InvalidSnapshot string | InvalidPeerId | InvalidPeerAddress | UnsupportedPeerScheme
  | DnsResolutionFailed string | TlsFailed string | LogIndexOutOfBounds nat nat
  | LockPoisoned string | InvalidSyncMessage string | InvalidEventHex
  | CorruptReplicationLog nat string | CorruptOutbox nat | ElectionFailed string
  | ReplicationFailed string | PeerNotFound string

type_synonym 'a sync_result = "sync_error + 'a"

definition UPDATE_REQUIRED_MESSAGE :: string where
  "UPDATE_REQUIRED_MESSAGE = ''NO MORE SUPPORTED PLEASE UPDATE''"

definition os_message :: string where "os_message = ''os error''"

section \<open>Records\<close>

definition REPLICATION_LOG_FORMAT_V1 :: string where
  "REPLICATION_LOG_FORMAT_V1 = ''# appcore-replication-log-v1''"
definition MAX_REPLICATION_LOG_BYTES :: nat where "MAX_REPLICATION_LOG_BYTES = 268435456"
definition MAX_REPLICATION_RECORD_BYTES :: nat where "MAX_REPLICATION_RECORD_BYTES = 1048576"

type_synonym hash_fun = "bytes \<Rightarrow> bytes"

record replication_record =
  rr_index :: nat
  rr_sequence :: u64
  rr_payload :: bytes
  rr_previous_hash :: string
  rr_record_hash :: string

definition validate_record_size :: "bytes \<Rightarrow> unit sync_result" where
  "validate_record_size payload =
     (if MAX_REPLICATION_RECORD_BYTES < length payload
      then Err (ReplicationFailed ''replication record exceeds size limit'') else Ok ())"

definition replication_record_hash :: "hash_fun \<Rightarrow> string \<Rightarrow> u64 \<Rightarrow> bytes \<Rightarrow> string" where
  "replication_record_hash sha previous_hash sequence payload =
     bytes_to_hex (sha (text_bytes REPLICATION_LOG_FORMAT_V1
       @ u64_be (of_nat (length previous_hash)) @ text_bytes previous_hash
       @ u64_be sequence @ u64_be (of_nat (length payload)) @ payload))"

definition last_hash :: "replication_record list \<Rightarrow> string" where
  "last_hash events = (if events = [] then '''' else rr_record_hash (last events))"

definition sequence_indices :: "replication_record list \<Rightarrow> (u64 \<rightharpoonup> nat)" where
  "sequence_indices records = foldl (\<lambda>m (offset, r). m(rr_sequence r \<mapsto> offset)) Map.empty (enumerate 0 records)"

section \<open>In-memory log\<close>

record mem_log =
  ml_events :: "replication_record list"
  ml_sequence_indices :: "u64 \<rightharpoonup> nat"

definition mem_log_new :: mem_log where
  "mem_log_new = \<lparr> ml_events = [], ml_sequence_indices = Map.empty \<rparr>"

definition get_at :: "'a list \<Rightarrow> nat \<Rightarrow> 'a option" where
  "get_at xs i = (if i < length xs then Some (xs ! i) else None)"

definition lookup_sequence :: "mem_log \<Rightarrow> u64 \<Rightarrow> replication_record option" where
  "lookup_sequence l sequence = Option.bind (ml_sequence_indices l sequence) (get_at (ml_events l))"

definition push_record :: "hash_fun \<Rightarrow> bytes \<Rightarrow> u64 \<Rightarrow> mem_log \<Rightarrow> nat \<times> mem_log" where
  "push_record sha record sequence l =
     (let index = length (ml_events l) + 1;
          previous_hash = last_hash (ml_events l);
          record_hash = replication_record_hash sha previous_hash sequence record
      in (index, \<lparr> ml_events = ml_events l @ [\<lparr> rr_index = index, rr_sequence = sequence, rr_payload = record,
            rr_previous_hash = previous_hash, rr_record_hash = record_hash \<rparr>],
          ml_sequence_indices = (ml_sequence_indices l)(sequence \<mapsto> index - 1) \<rparr>))"

definition mem_append_with_sequence :: "hash_fun \<Rightarrow> bytes \<Rightarrow> u64 \<Rightarrow> (mem_log, sync_error, nat) eff" where
  "mem_append_with_sequence sha record sequence l =
     (case validate_record_size record of
        Inl e \<Rightarrow> (Err e, l)
      | Inr _ \<Rightarrow>
          (case (if sequence > 0 then lookup_sequence l sequence else None) of
             Some existing \<Rightarrow>
               (if rr_payload existing = record then Ok (rr_index existing) else Err (SequenceConflict sequence), l)
           | None \<Rightarrow> (case push_record sha record sequence l of (index, l') \<Rightarrow> (Ok index, l'))))"

definition mem_append :: "hash_fun \<Rightarrow> bytes \<Rightarrow> (mem_log, sync_error, nat) eff" where
  "mem_append sha record = mem_append_with_sequence sha record 0"

definition mem_event_at_sequence :: "mem_log \<Rightarrow> u64 \<Rightarrow> bytes option" where
  "mem_event_at_sequence l sequence =
     (if sequence > 0 then map_option rr_payload (lookup_sequence l sequence) else None)"

definition mem_contains_sequence :: "mem_log \<Rightarrow> u64 \<Rightarrow> bool" where
  "mem_contains_sequence l sequence = (ml_sequence_indices l sequence \<noteq> None)"

definition mem_events_since :: "mem_log \<Rightarrow> nat \<Rightarrow> bytes list sync_result" where
  "mem_events_since l index =
     (if length (ml_events l) < index then Err (LogIndexOutOfBounds index (length (ml_events l)))
      else Ok (map rr_payload (drop index (ml_events l))))"

definition mem_last_index :: "mem_log \<Rightarrow> nat" where
  "mem_last_index l = length (ml_events l)"

section \<open>Snapshots\<close>

definition SYNC_SNAPSHOT_FORMAT_V1 :: u16 where "SYNC_SNAPSHOT_FORMAT_V1 = 1"

type_synonym snapshot_record = "u64 \<times> bytes"

record snapshot =
  sn_format_version :: u16
  sn_last_index :: u64
  sn_records :: "snapshot_record list"
  sn_checksum :: string

definition snapshot_checksum :: "hash_fun \<Rightarrow> u16 \<Rightarrow> u64 \<Rightarrow> snapshot_record list \<Rightarrow> string" where
  "snapshot_checksum sha format_version last_index records =
     bytes_to_hex (sha (u16_be format_version @ u64_be last_index @ u64_be (of_nat (length records))
       @ concat (map (\<lambda>(sequence, payload).
           u64_be sequence @ u64_be (of_nat (length payload)) @ payload) records)))"

definition snapshot_from_records :: "hash_fun \<Rightarrow> replication_record list \<Rightarrow> snapshot" where
  "snapshot_from_records sha events =
     (let records = map (\<lambda>r. (rr_sequence r, rr_payload r)) events; last_index = of_nat (length records)
      in \<lparr> sn_format_version = SYNC_SNAPSHOT_FORMAT_V1, sn_last_index = last_index, sn_records = records,
           sn_checksum = snapshot_checksum sha SYNC_SNAPSHOT_FORMAT_V1 last_index records \<rparr>)"

text \<open>The loop of \<open>snapshot_records\<close>: \<open>seen\<close> are the sequences met so far.\<close>

fun snapshot_records_loop ::
    "hash_fun \<Rightarrow> nat \<Rightarrow> u64 set \<Rightarrow> string \<Rightarrow> snapshot_record list \<Rightarrow> replication_record list sync_result" where
  "snapshot_records_loop sha offset seen previous_hash [] = Ok []"
| "snapshot_records_loop sha offset seen previous_hash ((sequence, payload) # rest) =
     rbind (validate_record_size payload) (\<lambda>_.
       if sequence > 0 \<and> sequence \<in> seen then Err (InvalidSnapshot ''duplicate sequence'')
       else let record_hash = replication_record_hash sha previous_hash sequence payload
         in rbind (snapshot_records_loop sha (offset + 1)
              (if sequence > 0 then insert sequence seen else seen) record_hash rest)
            (\<lambda>records. Ok (\<lparr> rr_index = offset + 1, rr_sequence = sequence, rr_payload = payload,
               rr_previous_hash = previous_hash, rr_record_hash = record_hash \<rparr> # records)))"

definition validate_snapshot :: "hash_fun \<Rightarrow> snapshot \<Rightarrow> replication_record list sync_result" where
  "validate_snapshot sha snap =
     (if sn_format_version snap \<noteq> SYNC_SNAPSHOT_FORMAT_V1
      then Err (InvalidSnapshot ''unsupported format version'')
      else if unat (sn_last_index snap) \<noteq> length (sn_records snap)
      then Err (InvalidSnapshot ''last index mismatch'')
      else if sn_checksum snap \<noteq> snapshot_checksum sha (sn_format_version snap) (sn_last_index snap) (sn_records snap)
      then Err (InvalidSnapshot ''checksum mismatch'')
      else snapshot_records_loop sha 0 {} '''' (sn_records snap))"

definition mem_create_snapshot :: "hash_fun \<Rightarrow> mem_log \<Rightarrow> snapshot" where
  "mem_create_snapshot sha l = snapshot_from_records sha (ml_events l)"

definition mem_restore_snapshot :: "hash_fun \<Rightarrow> snapshot \<Rightarrow> (mem_log, sync_error, unit) eff" where
  "mem_restore_snapshot sha snap l = (case validate_snapshot sha snap of
     Inl e \<Rightarrow> (Err e, l)
   | Inr records \<Rightarrow> (Ok (), \<lparr> ml_events = records, ml_sequence_indices = sequence_indices records \<rparr>))"

section \<open>Logs as lists of entries\<close>

text \<open>
  A log is determined by its entries, the pairs of sequence and payload: indices and hashes are
  recomputed by \<open>chain\<close>. A positive sequence occurs once; sequence 0 marks unsequenced records.
\<close>

definition entries :: "replication_record list \<Rightarrow> (u64 \<times> bytes) list" where
  "entries records = map (\<lambda>r. (rr_sequence r, rr_payload r)) records"

fun chain :: "hash_fun \<Rightarrow> nat \<Rightarrow> string \<Rightarrow> (u64 \<times> bytes) list \<Rightarrow> replication_record list" where
  "chain sha i prev [] = []"
| "chain sha i prev ((q, v) # xs) =
     (let h = replication_record_hash sha prev q v
      in \<lparr> rr_index = i + 1, rr_sequence = q, rr_payload = v, rr_previous_hash = prev, rr_record_hash = h \<rparr>
         # chain sha (i + 1) h xs)"

definition valid_entries :: "(u64 \<times> bytes) list \<Rightarrow> bool" where
  "valid_entries xs \<longleftrightarrow> (\<forall>(q, v)\<in>set xs. length v \<le> MAX_REPLICATION_RECORD_BYTES) \<and>
     distinct (filter (\<lambda>q. q > 0) (map fst xs))"

definition log_ok :: "hash_fun \<Rightarrow> mem_log \<Rightarrow> bool" where
  "log_ok sha l \<longleftrightarrow> ml_events l = chain sha 0 '''' (entries (ml_events l)) \<and>
     valid_entries (entries (ml_events l)) \<and> ml_sequence_indices l = sequence_indices (ml_events l)"

lemma validate_record_size_Ok_iff [simp]:
  "validate_record_size v = Ok () \<longleftrightarrow> length v \<le> MAX_REPLICATION_RECORD_BYTES"
  by (auto simp: validate_record_size_def)

lemma entries_chain [simp]: "entries (chain sha i prev xs) = xs"
  by (induction sha i prev xs rule: chain.induct) (auto simp: entries_def Let_def)

lemma length_chain [simp]: "length (chain sha i prev xs) = length xs"
  using arg_cong [OF entries_chain, of length] by (simp add: entries_def)

lemma length_entries [simp]: "length (entries rs) = length rs"
  by (simp add: entries_def)

lemma chain_snoc:
  "chain sha i prev (xs @ [(q, v)]) = (let rs = chain sha i prev xs; p = (if rs = [] then prev else rr_record_hash (last rs))
     in rs @ [\<lparr> rr_index = i + length xs + 1, rr_sequence = q, rr_payload = v, rr_previous_hash = p,
              rr_record_hash = replication_record_hash sha p q v \<rparr>])"
  by (induction sha i prev xs rule: chain.induct) (auto simp: Let_def)

lemma sequence_indices_Nil [simp]: "sequence_indices [] = Map.empty"
  by (simp add: sequence_indices_def)

lemma sequence_indices_snoc [simp]:
  "sequence_indices (rs @ [r]) = (sequence_indices rs)(rr_sequence r \<mapsto> length rs)"
  by (simp add: sequence_indices_def enumerate_append_eq)

text \<open>With distinct positive sequences the index finds the only record of a sequence.\<close>

lemma sequence_indices_lookup:
  assumes "distinct (filter (\<lambda>q. q > 0) (map fst (entries rs)))" "q > 0"
  shows "map_option rr_payload (Option.bind (sequence_indices rs q) (get_at rs)) = map_of (entries rs) q"
  using assms(1)
proof (induction rs rule: rev_induct)
  case (snoc r rs)
  have IH: "map_option rr_payload (Option.bind (sequence_indices rs q) (get_at rs)) = map_of (entries rs) q"
    using snoc by (auto simp: entries_def)
  have lt: "sequence_indices rs q = Some i \<Longrightarrow> i < length rs" for i
    by (induction rs rule: rev_induct) (auto split: if_splits intro: less_SucI)
  show ?case
  proof (cases "rr_sequence r = q")
    case True
    then have "q \<notin> set (map fst (entries rs))"
      using snoc.prems assms(2) by (auto simp: entries_def)
    then have "map_of (entries rs) q = None" by (simp add: map_of_eq_None_iff)
    then show ?thesis using True by (simp add: entries_def get_at_def map_add_def)
  next
    case False
    then show ?thesis using IH lt
      by (cases "sequence_indices rs q") (auto simp: entries_def get_at_def nth_append map_add_def split: option.splits)
  qed
qed (simp add: entries_def)

lemma log_ok_lookup:
  assumes "log_ok sha l" "q > 0"
  shows "map_option rr_payload (lookup_sequence l q) = map_of (entries (ml_events l)) q"
  using assms sequence_indices_lookup [of "ml_events l" q]
  by (simp add: log_ok_def lookup_sequence_def valid_entries_def)

lemma valid_entries_snoc:
  "valid_entries (xs @ [(q, v)]) \<longleftrightarrow> valid_entries xs \<and> length v \<le> MAX_REPLICATION_RECORD_BYTES \<and>
     (q > 0 \<longrightarrow> map_of xs q = None)"
  by (auto simp: valid_entries_def map_of_eq_None_iff)

lemma push_record_ok:
  assumes l: "log_ok sha l" and "length v \<le> MAX_REPLICATION_RECORD_BYTES"
    and "q > 0 \<longrightarrow> map_of (entries (ml_events l)) q = None" and p: "push_record sha v q l = (n, l')"
  shows "log_ok sha l'" "entries (ml_events l') = entries (ml_events l) @ [(q, v)]" "n = length (ml_events l')"
proof -
  let ?es = "entries (ml_events l)"
  have ev: "ml_events l' = chain sha 0 '''' (?es @ [(q, v)])" and n: "n = length (ml_events l')"
    using p l arg_cong [OF l [unfolded log_ok_def, THEN conjunct1], of last]
    unfolding chain_snoc
    by (auto simp: push_record_def Let_def last_hash_def log_ok_def)
  then show e: "entries (ml_events l') = ?es @ [(q, v)]" "n = length (ml_events l')" by simp_all
  have "ml_sequence_indices l' = sequence_indices (ml_events l')"
    using p l by (auto simp: push_record_def Let_def log_ok_def)
  with ev e assms(2,3) l show "log_ok sha l'" by (simp add: log_ok_def valid_entries_snoc)
qed

lemma mem_append_cases:
  assumes l: "log_ok sha l" and a: "mem_append_with_sequence sha v q l = (r, l')"
  obtains (rejected) e where "r = Err e" "l' = l"
  | (present) n where "r = Ok n" "l' = l" "q > 0" "map_of (entries (ml_events l)) q = Some v"
  | (added) n where "r = Ok n" "log_ok sha l'" "entries (ml_events l') = entries (ml_events l) @ [(q, v)]"
      "q > 0 \<longrightarrow> map_of (entries (ml_events l)) q = None" "length v \<le> MAX_REPLICATION_RECORD_BYTES"
proof (cases "validate_record_size v")
  case (Inl e)
  then show thesis using a by (intro rejected [of e]) (simp_all add: mem_append_with_sequence_def)
next
  case (Inr u)
  then have size: "length v \<le> MAX_REPLICATION_RECORD_BYTES" by (cases u) simp
  let ?hit = "if q > 0 then lookup_sequence l q else None"
  show thesis
  proof (cases ?hit)
    case (Some existing)
    then have q: "q > 0" and hit: "lookup_sequence l q = Some existing" by (auto split: if_splits)
    with log_ok_lookup [OF l q] have "map_of (entries (ml_events l)) q = Some (rr_payload existing)" by simp
    with a q show thesis
      by (cases "rr_payload existing = v")
        (auto simp: mem_append_with_sequence_def Inr hit intro: rejected present)
  next
    case None
    then have abs: "q > 0 \<longrightarrow> map_of (entries (ml_events l)) q = None"
      using log_ok_lookup [OF l, of q] by auto
    obtain n l1 where p: "push_record sha v q l = (n, l1)" by (cases "push_record sha v q l")
    with a None have "r = Ok n" "l' = l1" by (auto simp: mem_append_with_sequence_def Inr)
    with push_record_ok [OF l size abs p] abs size show thesis by (intro added) auto
  qed
qed

section \<open>Snapshots restore logs\<close>

lemma snapshot_records_loop_Ok_iff:
  "snapshot_records_loop sha i seen prev xs = Ok rs \<longleftrightarrow>
     rs = chain sha i prev xs \<and> (\<forall>(q, v)\<in>set xs. length v \<le> MAX_REPLICATION_RECORD_BYTES) \<and>
     distinct (filter (\<lambda>q. q > 0) (map fst xs)) \<and> (\<forall>q\<in>fst ` set xs. q > 0 \<longrightarrow> q \<notin> seen)"
proof (induction sha i seen prev xs arbitrary: rs rule: snapshot_records_loop.induct)
  case (2 sha i seen prev q v xs)
  show ?case
  proof (cases "length v \<le> MAX_REPLICATION_RECORD_BYTES \<and> \<not> (q > 0 \<and> q \<in> seen)")
    case True
    then show ?thesis using 2 by (auto simp: rbind_Inr_iff Let_def)
  next
    case False
    then show ?thesis by (auto simp: rbind_Inr_iff)
  qed
qed auto

lemma validate_snapshot_Ok_iff:
  "validate_snapshot sha (snapshot_from_records sha rs) = Ok rs' \<longleftrightarrow>
     length rs < 2 ^ 64 \<and> valid_entries (entries rs) \<and> rs' = chain sha 0 '''' (entries rs)"
proof -
  have "unat (of_nat (length rs) :: u64) = length rs \<longleftrightarrow> length rs < 2 ^ 64"
    using unat_eq_length_iff [of "of_nat (length rs) :: u64" "length rs"] by simp
  then show ?thesis
    by (auto simp: validate_snapshot_def snapshot_from_records_def Let_def snapshot_records_loop_Ok_iff
        valid_entries_def entries_def SYNC_SNAPSHOT_FORMAT_V1_def)
qed

section \<open>The log interface\<close>

text \<open>
  The two operations through which the receiver uses a \<open>ReplicationLog\<close>, and what it relies
  on. \<open>view\<close> is what the log durably holds: a lookup that answers tells the truth about it, a
  successful append leaves the pair in it exactly once, and an append that fails either changed
  nothing or did its work before failing.
\<close>

record 's log_ops =
  lo_event_at_sequence :: "u64 \<Rightarrow> ('s, sync_error, bytes option) eff"
  lo_append_with_sequence :: "bytes \<Rightarrow> u64 \<Rightarrow> ('s, sync_error, nat) eff"

locale replication_log =
  fixes ops :: "'s log_ops" and inv :: "'s \<Rightarrow> bool" and view :: "'s \<Rightarrow> (u64 \<times> bytes) list"
  assumes valid_view: "inv s \<Longrightarrow> valid_entries (view s)"
    and lookup_keeps: "inv s \<Longrightarrow> lo_event_at_sequence ops q s = (r, s') \<Longrightarrow> inv s' \<and> view s' = view s"
    and lookup_true: "inv s \<Longrightarrow> lo_event_at_sequence ops q s = (Ok (Some v), s') \<Longrightarrow> map_of (view s) q = Some v"
    and append_inv: "inv s \<Longrightarrow> q > 0 \<Longrightarrow> lo_append_with_sequence ops v q s = (a, s') \<Longrightarrow> inv s' \<and>
      (view s' = view s \<or> map_of (view s) q = None \<and> view s' = view s @ [(q, v)])"
    and append_there: "inv s \<Longrightarrow> q > 0 \<Longrightarrow> lo_append_with_sequence ops v q s = (Ok n, s') \<Longrightarrow>
      map_of (view s') q = Some v"

definition mem_log_ops :: "hash_fun \<Rightarrow> mem_log log_ops" where
  "mem_log_ops sha = \<lparr> lo_event_at_sequence = (\<lambda>q l. (Ok (mem_event_at_sequence l q), l)),
     lo_append_with_sequence = mem_append_with_sequence sha \<rparr>"

interpretation mem_log: replication_log "mem_log_ops sha" "log_ok sha" "\<lambda>l. entries (ml_events l)"
proof
  fix l :: mem_log
  assume l: "log_ok sha l"
  show "valid_entries (entries (ml_events l))" using l by (simp add: log_ok_def)
  show "lo_event_at_sequence (mem_log_ops sha) q l = (r, l') \<Longrightarrow>
      log_ok sha l' \<and> entries (ml_events l') = entries (ml_events l)" for q r l'
    using l by (auto simp: mem_log_ops_def)
  show "lo_event_at_sequence (mem_log_ops sha) q l = (Ok (Some v), l') \<Longrightarrow>
      map_of (entries (ml_events l)) q = Some v" for q v l'
    using log_ok_lookup [OF l, of q] by (auto simp: mem_log_ops_def mem_event_at_sequence_def split: if_splits)
  fix q :: u64
  assume q: "q > 0"
  show "lo_append_with_sequence (mem_log_ops sha) v q l = (r, l') \<Longrightarrow> log_ok sha l' \<and>
      (entries (ml_events l') = entries (ml_events l) \<or> map_of (entries (ml_events l)) q = None \<and>
       entries (ml_events l') = entries (ml_events l) @ [(q, v)])" for v r l'
    using l q by (auto simp: mem_log_ops_def elim!: mem_append_cases [OF l])
  show "lo_append_with_sequence (mem_log_ops sha) v q l = (Ok n, l') \<Longrightarrow>
      map_of (entries (ml_events l')) q = Some v" for v n l'
    using q by (auto simp: mem_log_ops_def map_add_def elim!: mem_append_cases [OF l])
qed

end
