(* ===== verification/Sync_File.thy ===== *)
theory Sync_File
  imports Sync_Log
begin

text \<open>
  The file-backed replication log of \<open>appcore-sync\<close> (\<open>sync/log.rs\<close>, \<open>sync/persistence.rs\<close>) over
  the file system of \<open>File_System\<close>. The log is a text file: a format marker, then one line per
  record with sequence, payload in hexadecimal, previous hash and hash. A line that an
  interrupted append left incomplete is dropped by the next reload. The lemmas show that what is
  rendered parses back and that the file log keeps the contract of a replication log under every
  sequence of I/O faults.
\<close>

section \<open>Persistence helpers\<close>

definition os_fail :: sync_error where "os_fail = ReplicationFailed os_message"

definition split_format :: "string \<Rightarrow> string \<Rightarrow> string sync_result" where
  "split_format text marker = (case Option.bind (strip_prefix marker text) (strip_prefix [newline]) of
     Some body \<Rightarrow> Ok body
   | None \<Rightarrow> if text = marker then Ok '''' else Err (ReplicationFailed UPDATE_REQUIRED_MESSAGE))"

definition sync_reject_symlink :: "path \<Rightarrow> (fs, sync_error, unit) eff" where
  "sync_reject_symlink p s = (case fs_symlink_metadata p s of
     (Inr LinkNode, s') \<Rightarrow> (Err (ReplicationFailed ''persistent path must not be a symlink''), s')
   | (Inr DirNode, s') \<Rightarrow> (Err (ReplicationFailed ''persistent path is not a regular file''), s')
   | (Inr (FileNode _), s') \<Rightarrow> (Ok (), s')
   | (Inl IK_NotFound, s') \<Rightarrow> (Ok (), s')
   | (Inl IK_Other, s') \<Rightarrow> (Err os_fail, s'))"

definition read_bounded_text :: "path \<Rightarrow> nat \<Rightarrow> (fs, sync_error, string) eff" where
  "read_bounded_text p max_bytes =
     ebind (sync_reject_symlink p) (\<lambda>_.
     ebind (as_err os_fail (fs_open_read p)) (\<lambda>file.
     ebind (as_err os_fail (sys_call (eret file))) (\<lambda>metadata.
     case metadata of
       FileNode content \<Rightarrow>
         if max_bytes < length content
         then efail (ReplicationFailed ''persistent file exceeds configured limit'')
         else ebind (as_err os_fail (fs_read content (max_bytes + 1))) (\<lambda>bs.
           if \<not> valid_utf8 (map unat bs) then efail os_fail
           else if max_bytes < length bs
           then efail (ReplicationFailed ''persistent file exceeds configured limit'')
           else eret (bytes_text bs))
     | _ \<Rightarrow> efail os_fail)))"

definition atomic_write :: "path \<Rightarrow> bytes \<Rightarrow> (fs, sync_error, unit) eff" where
  "atomic_write = replace_file os_fail ''appcore-sync'' sync_reject_symlink"

definition lock_path :: "path \<Rightarrow> path" where
  "lock_path p = butlast p @ [''.'' @ file_name ''appcore-sync'' p @ ''.lock'']"

definition acquire_persistence_lock :: "path \<Rightarrow> (fs, sync_error, unit) eff" where
  "acquire_persistence_lock p =
     ebind (as_err os_fail (fs_create_dir_all (butlast p))) (\<lambda>_.
     ebind (sync_reject_symlink (lock_path p)) (\<lambda>_.
     ebind (as_err os_fail (fs_open_create (lock_path p))) (\<lambda>_.
     as_err os_fail (sys_call (eret ())))))"

section \<open>The text of a log\<close>

definition record_line :: "u64 \<Rightarrow> bytes \<Rightarrow> string \<Rightarrow> string \<Rightarrow> string" where
  "record_line sequence payload previous_hash hash =
     u64_string sequence @ [tab] @ bytes_to_hex payload @ [tab] @ previous_hash @ [tab] @ hash"

definition corrupt_log :: "nat \<Rightarrow> string \<Rightarrow> sync_error" where
  "corrupt_log line_number reason = CorruptReplicationLog (line_number + 1) reason"

definition complete_record_prefix :: "string \<Rightarrow> string \<times> bool" where
  "complete_record_prefix body =
     (if body = [] \<or> last body = newline then (body, False)
      else (rev (dropWhile (\<lambda>c. c \<noteq> newline) (rev body)), True))"

fun parse_records_loop ::
    "hash_fun \<Rightarrow> nat \<Rightarrow> replication_record list \<Rightarrow> (u64 \<rightharpoonup> nat) \<Rightarrow> string \<Rightarrow> string list \<Rightarrow>
       replication_record list sync_result" where
  "parse_records_loop sha n records sequences chain_head [] = Ok records"
| "parse_records_loop sha n records sequences chain_head (line # rest) =
     (if blank_bytes (map byte_of line)
      then parse_records_loop sha (n + 1) records sequences chain_head rest
      else let parts = split_on tab line
        in if length parts \<noteq> 4
           then Err (corrupt_log n (if tab \<in> set line then ''invalid field count'' else ''missing separator''))
           else (case parse_u64 (parts ! 0) of
             None \<Rightarrow> Err (corrupt_log n ''invalid sequence'')
           | Some sequence \<Rightarrow> (case hex_to_bytes (parts ! 1) of
             None \<Rightarrow> Err (corrupt_log n ''invalid event hex'')
           | Some payload \<Rightarrow>
             rbind (validate_record_size payload) (\<lambda>_.
             let record_hash = replication_record_hash sha chain_head sequence payload
             in if parts ! 2 \<noteq> chain_head \<or> parts ! 3 \<noteq> record_hash
                then Err (corrupt_log n ''hash chain mismatch'')
                else (case (if sequence > 0 then sequences sequence else None) of
                  Some offset \<Rightarrow>
                    if rr_payload (records ! offset) \<noteq> payload then Err (SequenceConflict sequence)
                    else Err (corrupt_log n ''duplicate sequence'')
                | None \<Rightarrow>
                    let index = length records + 1
                    in parse_records_loop sha (n + 1)
                         (records @ [\<lparr> rr_index = index, rr_sequence = sequence, rr_payload = payload,
                            rr_previous_hash = chain_head, rr_record_hash = record_hash \<rparr>])
                         (sequences(sequence \<mapsto> index - 1)) record_hash rest)))))"

definition parse_replication_records :: "hash_fun \<Rightarrow> string \<Rightarrow> (replication_record list \<times> bool) sync_result" where
  "parse_replication_records sha body =
     (case complete_record_prefix body of (complete, recovered_tail) \<Rightarrow>
        rbind (parse_records_loop sha 0 [] Map.empty '''' (rust_lines complete)) (\<lambda>records.
          Ok (records, recovered_tail)))"

fun render_records_loop :: "hash_fun \<Rightarrow> string \<Rightarrow> string \<Rightarrow> replication_record list \<Rightarrow> string sync_result" where
  "render_records_loop sha out previous_hash [] = Ok out"
| "render_records_loop sha out previous_hash (r # rest) =
     rbind (validate_record_size (rr_payload r)) (\<lambda>_.
     let hash = replication_record_hash sha previous_hash (rr_sequence r) (rr_payload r);
         out = out @ record_line (rr_sequence r) (rr_payload r) previous_hash hash @ [newline]
     in if MAX_REPLICATION_LOG_BYTES < length out
        then Err (ReplicationFailed ''replication log exceeds configured limit'')
        else render_records_loop sha out hash rest)"

definition write_replication_records :: "hash_fun \<Rightarrow> path \<Rightarrow> replication_record list \<Rightarrow> (fs, sync_error, unit) eff" where
  "write_replication_records sha p records =
     ebind (elift (\<lambda>_. render_records_loop sha (REPLICATION_LOG_FORMAT_V1 @ [newline]) '''' records)) (\<lambda>out.
       atomic_write p (text_bytes out))"

section \<open>The file log\<close>

record file_log =
  fl_fs :: fs
  fl_path :: path
  fl_mem :: mem_log

definition on_fs :: "(fs, 'e, 'a) eff \<Rightarrow> (file_log, 'e, 'a) eff" where
  "on_fs m l = (case m (fl_fs l) of (r, s) \<Rightarrow> (r, l\<lparr> fl_fs := s \<rparr>))"

definition reload_unlocked :: "hash_fun \<Rightarrow> (file_log, sync_error, unit) eff" where
  "reload_unlocked sha l =
     ebind (on_fs (read_bounded_text (fl_path l) MAX_REPLICATION_LOG_BYTES)) (\<lambda>text.
     ebind (elift (\<lambda>_. split_format text REPLICATION_LOG_FORMAT_V1)) (\<lambda>body.
     ebind (elift (\<lambda>_. parse_replication_records sha body)) (\<lambda>(records, recovered_tail).
     ebind (if recovered_tail then on_fs (write_replication_records sha (fl_path l) records) else eret ()) (\<lambda>_.
     emod (\<lambda>l. l\<lparr> fl_mem := \<lparr> ml_events = records, ml_sequence_indices = sequence_indices records \<rparr> \<rparr>))))) l"

definition file_reload :: "hash_fun \<Rightarrow> (file_log, sync_error, unit) eff" where
  "file_reload sha l = ebind (on_fs (acquire_persistence_lock (fl_path l))) (\<lambda>_. reload_unlocked sha) l"

definition append_line :: "hash_fun \<Rightarrow> bytes \<Rightarrow> u64 \<Rightarrow> (file_log, sync_error, nat) eff" where
  "append_line sha record sequence l =
     (let previous_hash = last_hash (ml_events (fl_mem l));
          record_hash = replication_record_hash sha previous_hash sequence record;
          line = text_bytes (record_line sequence record previous_hash record_hash @ [newline])
      in ebind (on_fs (as_err os_fail (sys_call (elift (\<lambda>s. case fs_nodes s (fl_path l) of
             Some (FileNode content) \<Rightarrow> Ok (length content) | _ \<Rightarrow> Err IK_NotFound))))) (\<lambda>current_bytes.
         if MAX_REPLICATION_LOG_BYTES < current_bytes + length line
         then efail (ReplicationFailed ''replication log exceeds configured limit'')
         else
         ebind (on_fs (as_err os_fail (sys_call (eret ())))) (\<lambda>_.
         ebind (on_fs (as_err os_fail (fs_append (fl_path l) line))) (\<lambda>_.
         ebind (on_fs (as_err os_fail (fs_sync (fl_path l)))) (\<lambda>_ l.
           case push_record sha record sequence (fl_mem l) of (index, m) \<Rightarrow> (Ok index, l\<lparr> fl_mem := m \<rparr>))))) l)"

definition file_append_with_sequence :: "hash_fun \<Rightarrow> bytes \<Rightarrow> u64 \<Rightarrow> (file_log, sync_error, nat) eff" where
  "file_append_with_sequence sha record sequence l =
     ebind (on_fs (acquire_persistence_lock (fl_path l))) (\<lambda>_.
     ebind (reload_unlocked sha) (\<lambda>_.
     ebind (elift (\<lambda>_. validate_record_size record)) (\<lambda>_ l.
       case (if sequence > 0 then lookup_sequence (fl_mem l) sequence else None) of
         Some existing \<Rightarrow>
           (if rr_payload existing = record then Ok (rr_index existing) else Err (SequenceConflict sequence), l)
       | None \<Rightarrow> append_line sha record sequence l))) l"

definition file_event_at_sequence :: "u64 \<Rightarrow> (file_log, sync_error, bytes option) eff" where
  "file_event_at_sequence sequence l = (Ok (mem_event_at_sequence (fl_mem l) sequence), l)"

definition file_append :: "hash_fun \<Rightarrow> bytes \<Rightarrow> (file_log, sync_error, nat) eff" where
  "file_append sha record = file_append_with_sequence sha record 0"

definition file_events_since :: "file_log \<Rightarrow> nat \<Rightarrow> bytes list sync_result" where
  "file_events_since l index =
     (if length (ml_events (fl_mem l)) < index then Err (LogIndexOutOfBounds index (length (ml_events (fl_mem l))))
      else Ok (map rr_payload (drop index (ml_events (fl_mem l)))))"

definition file_last_index :: "file_log \<Rightarrow> nat" where
  "file_last_index l = length (ml_events (fl_mem l))"

definition file_create_snapshot :: "hash_fun \<Rightarrow> file_log \<Rightarrow> snapshot" where
  "file_create_snapshot sha l = snapshot_from_records sha (ml_events (fl_mem l))"

definition file_restore_snapshot :: "hash_fun \<Rightarrow> snapshot \<Rightarrow> (file_log, sync_error, unit) eff" where
  "file_restore_snapshot sha snap l =
     ebind (on_fs (acquire_persistence_lock (fl_path l))) (\<lambda>_.
     ebind (elift (\<lambda>_. validate_snapshot sha snap)) (\<lambda>records.
     ebind (on_fs (write_replication_records sha (fl_path l) records)) (\<lambda>_.
     emod (\<lambda>l. l\<lparr> fl_mem := \<lparr> ml_events = records, ml_sequence_indices = sequence_indices records \<rparr> \<rparr>)))) l"

text \<open>Path components as \<open>Path::components\<close> gives them: empty and dot components are skipped.\<close>

definition path_components :: "string \<Rightarrow> path" where
  "path_components s = filter (\<lambda>c. c \<noteq> '''' \<and> c \<noteq> ''.'') (split_on (CHR ''/'') s)"

text \<open>What each of the file-backed stores does before it asks whether its file exists.\<close>

definition sync_prepare :: "path \<Rightarrow> (fs, sync_error, unit) eff" where
  "sync_prepare p = ebind (as_err os_fail (fs_create_dir_all (butlast p))) (\<lambda>_. acquire_persistence_lock p)"

definition file_log_new :: "hash_fun \<Rightarrow> path \<Rightarrow> string \<Rightarrow> fs \<Rightarrow> file_log sync_result \<times> fs" where
  "file_log_new sha storage_root relative_path s =
     (if relative_path = '''' \<or> hd relative_path = CHR ''/'' \<or> ''..'' \<in> set (path_components relative_path)
      then (Err (ReplicationFailed ''invalid replication log path''), s)
      else let p = storage_root @ path_components relative_path in
        case ebind (sync_prepare p) (\<lambda>_.
             ebind (path_exists p) (\<lambda>found.
               if \<not> found then atomic_write p (text_bytes (REPLICATION_LOG_FORMAT_V1 @ [newline])) else eret ())) s of
          (Inl e, s') \<Rightarrow> (Err e, s')
        | (Inr _, s') \<Rightarrow>
            (case reload_unlocked sha \<lparr> fl_fs = s', fl_path = p, fl_mem = mem_log_new \<rparr> of
               (Inl e, l) \<Rightarrow> (Err e, fl_fs l)
             | (Inr _, l) \<Rightarrow> (Ok l, fl_fs l)))"

section \<open>What is rendered parses back\<close>

definition line_of :: "replication_record \<Rightarrow> string" where
  "line_of r = record_line (rr_sequence r) (rr_payload r) (rr_previous_hash r) (rr_record_hash r)"

definition log_text :: "replication_record list \<Rightarrow> string" where
  "log_text rs = concat (map (\<lambda>r. line_of r @ [newline]) rs)"

text \<open>Strings a hash field can be: hexadecimal digits, in particular no separator.\<close>

definition hex_text :: "string \<Rightarrow> bool" where
  "hex_text s \<longleftrightarrow> list_all hex_char s"

lemma hex_text_hash [simp]: "hex_text (replication_record_hash sha prev q v)" "hex_text ''''"
  by (simp_all add: hex_text_def replication_record_hash_def hex_chars)

lemma hex_text_controls: "hex_text s \<Longrightarrow> newline \<notin> set s \<and> carriage_return \<notin> set s \<and> tab \<notin> set s"
  by (auto simp: hex_text_def list_all_iff hex_char_def control_chars char_class_defs)

lemma chain_hex: "hex_text prev \<Longrightarrow> r \<in> set (chain sha i prev xs) \<Longrightarrow> hex_text (rr_previous_hash r) \<and> hex_text (rr_record_hash r)"
  by (induction sha i prev xs rule: chain.induct) (auto simp: Let_def)

lemma record_line_no_newline:
  "hex_text p \<Longrightarrow> hex_text h \<Longrightarrow> newline \<notin> set (record_line q v p h) \<and> carriage_return \<notin> set (record_line q v p h)"
  using hex_text_controls [of p] hex_text_controls [of h] control_not_in_u64_string control_not_in_hex [of v]
  by (auto simp: record_line_def) (auto simp: control_chars)

lemma split_record_line:
  "hex_text p \<Longrightarrow> hex_text h \<Longrightarrow> split_on tab (record_line q v p h) = [u64_string q, bytes_to_hex v, p, h]"
  using hex_text_controls [of p] hex_text_controls [of h] control_not_in_u64_string(3) [of q] control_not_in_hex(3) [of v]
  by (simp add: record_line_def split_on_append split_on_single)

lemma record_line_not_blank: "\<not> blank_bytes (map byte_of (record_line q v p h))"
proof -
  obtain c cs where c: "u64_string q = c # cs" using nat_dec_not_Nil [of "unat q"] by (cases "u64_string q") (auto simp: u64_string_def)
  have "is_ascii_digit c" using nat_dec_digits [of "unat q"] c by (simp add: u64_string_def)
  then show ?thesis by (auto simp: record_line_def c char_class_defs split: list.splits)
qed

lemma rust_lines_log_text:
  "\<forall>r\<in>set rs. hex_text (rr_previous_hash r) \<and> hex_text (rr_record_hash r) \<Longrightarrow> rust_lines (log_text rs) = map line_of rs"
proof (induction rs)
  case (Cons r rs)
  then have "newline \<notin> set (line_of r) \<and> carriage_return \<notin> set (line_of r)"
    unfolding line_of_def by (intro record_line_no_newline) auto
  with Cons show ?case by (simp add: log_text_def rust_lines_line)
qed (simp add: log_text_def)

lemma sequence_indices_None: "q \<notin> fst ` set (entries rs) \<Longrightarrow> sequence_indices rs q = None"
  by (induction rs rule: rev_induct) (auto simp: entries_def)

lemma parse_records_loop_chain:
  assumes "valid_entries (ys @ xs)" "acc = chain sha 0 '''' ys" "head = last_hash acc"
  shows "parse_records_loop sha n acc (sequence_indices acc) head (map line_of (chain sha (length ys) head xs)) =
    Ok (chain sha 0 '''' (ys @ xs))"
  using assms
proof (induction xs arbitrary: ys acc head n)
  case (Cons x xs)
  obtain q v where x: "x = (q, v)" by (cases x)
  let ?h = "replication_record_hash sha head q v"
  let ?r = "\<lparr> rr_index = length acc + 1, rr_sequence = q, rr_payload = v, rr_previous_hash = head, rr_record_hash = ?h \<rparr>"
  have len: "length acc = length ys" using Cons.prems(2) by simp
  have hex: "hex_text head" 
    using Cons.prems(2,3) chain_hex [of "''''" "last acc" sha 0 ys] by (auto simp: last_hash_def)
  have ve: "valid_entries (ys @ [(q, v)])" using Cons.prems(1) x by (auto simp: valid_entries_def)
  then have size: "length v \<le> MAX_REPLICATION_RECORD_BYTES" and fresh: "q > 0 \<longrightarrow> map_of ys q = None"
    by (simp_all add: valid_entries_snoc)
  have sz: "validate_record_size v = Ok ()" using size by simp
  have "q > 0 \<longrightarrow> sequence_indices acc q = None"
    using fresh by (auto simp: Cons.prems(2) map_of_eq_None_iff intro!: sequence_indices_None)
  then have step: "parse_records_loop sha n acc (sequence_indices acc) head (map line_of (chain sha (length ys) head (x # xs))) =
      parse_records_loop sha (n + 1) (acc @ [?r]) (sequence_indices (acc @ [?r])) ?h (map line_of (chain sha (length (ys @ [x])) ?h xs))"
    using hex
    by (auto simp: x sz Let_def line_of_def record_line_not_blank split_record_line len)
  have "acc @ [?r] = chain sha 0 '''' (ys @ [x])"
    using Cons.prems(2,3) len unfolding x chain_snoc by (auto simp: Let_def last_hash_def)
  moreover have "?h = last_hash (acc @ [?r])" by (simp add: last_hash_def)
  ultimately have "parse_records_loop sha (n + 1) (acc @ [?r]) (sequence_indices (acc @ [?r])) ?h
      (map line_of (chain sha (length (ys @ [x])) ?h xs)) = Ok (chain sha 0 '''' ((ys @ [x]) @ xs))"
    using Cons.prems(1) by (intro Cons.IH) simp_all
  then show ?case unfolding step by simp
qed simp

lemma last_log_text: "log_text rs = [] \<or> last (log_text rs) = newline"
  by (induction rs rule: rev_induct) (auto simp: log_text_def)

text \<open>The complete part of a log whose last append was cut short is the log before it.\<close>

lemma complete_record_prefix_torn:
  assumes "newline \<notin> set tail"
  shows "complete_record_prefix (log_text rs @ tail) = (log_text rs, tail \<noteq> [])"
proof (cases "tail = []")
  case True
  then show ?thesis using last_log_text [of rs] by (auto simp: complete_record_prefix_def)
next
  case False
  then have "last tail \<noteq> newline" using assms last_in_set [of tail] by metis
  moreover have "dropWhile (\<lambda>c. c \<noteq> newline) (rev tail @ rev (log_text rs)) = rev (log_text rs)"
    using assms last_log_text [of rs]
    by (subst dropWhile_append_all) (auto simp: hd_rev intro!: dropWhile_last)
  ultimately show ?thesis using False by (simp add: complete_record_prefix_def)
qed

lemma parse_log_text:
  assumes "valid_entries xs" "newline \<notin> set tail"
  shows "parse_replication_records sha (log_text (chain sha 0 '''' xs) @ tail) = Ok (chain sha 0 '''' xs, tail \<noteq> [])"
proof -
  have "rust_lines (log_text (chain sha 0 '''' xs)) = map line_of (chain sha 0 '''' xs)"
    using chain_hex [of "''''"] by (intro rust_lines_log_text) auto
  then show ?thesis
    using parse_records_loop_chain [of "[]" xs "[]" sha "''''" 0] assms
    by (simp add: parse_replication_records_def complete_record_prefix_torn last_hash_def)
qed

lemma render_records_loop_Ok_iff:
  "render_records_loop sha out prev rs = Ok txt \<longleftrightarrow>
     txt = out @ log_text (chain sha i prev (entries rs)) \<and>
     (\<forall>(q, v)\<in>set (entries rs). length v \<le> MAX_REPLICATION_RECORD_BYTES) \<and>
     (rs \<noteq> [] \<longrightarrow> length txt \<le> MAX_REPLICATION_LOG_BYTES)"
proof (induction rs arbitrary: out prev i)
  case (Cons r rs)
  let ?h = "replication_record_hash sha prev (rr_sequence r) (rr_payload r)"
  let ?out = "out @ record_line (rr_sequence r) (rr_payload r) prev ?h @ [newline]"
  have "render_records_loop sha out prev (r # rs) = Ok txt \<longleftrightarrow>
      length (rr_payload r) \<le> MAX_REPLICATION_RECORD_BYTES \<and> length ?out \<le> MAX_REPLICATION_LOG_BYTES \<and>
      render_records_loop sha ?out ?h rs = Ok txt"
    by (auto simp: rbind_Inr_iff Let_def)
  also have "\<dots> \<longleftrightarrow> length (rr_payload r) \<le> MAX_REPLICATION_RECORD_BYTES \<and>
      length ?out \<le> MAX_REPLICATION_LOG_BYTES \<and> txt = ?out @ log_text (chain sha (i + 1) ?h (entries rs)) \<and>
     (\<forall>(q, v)\<in>set (entries rs). length v \<le> MAX_REPLICATION_RECORD_BYTES) \<and>
     (rs \<noteq> [] \<longrightarrow> length txt \<le> MAX_REPLICATION_LOG_BYTES)"
    using Cons.IH [of ?out ?h "i + 1"] by simp
  finally show ?case
    by (cases "rs = []") (auto simp: entries_def log_text_def line_of_def Let_def)
qed (auto simp: entries_def log_text_def)

text \<open>All characters of a log are ASCII, so reading it back as UTF-8 succeeds.\<close>

lemma ascii_marker [simp]: "ascii_text REPLICATION_LOG_FORMAT_V1"
  by (simp add: ascii_text_def byte_of_def REPLICATION_LOG_FORMAT_V1_def)

lemma ascii_text_hex: "hex_text s \<Longrightarrow> ascii_text s"
  using hex_char_ascii by (auto simp: hex_text_def ascii_text_def list_all_iff)

lemma ascii_record_line: "hex_text p \<Longrightarrow> hex_text h \<Longrightarrow> ascii_text (record_line q v p h)"
  unfolding record_line_def ascii_text_simps(2) using ascii_text_hex by simp

lemma ascii_log_text:
  assumes "hex_text prev"
  shows "ascii_text (log_text (chain sha i prev xs))"
proof -
  have "\<forall>r\<in>set rs. hex_text (rr_previous_hash r) \<and> hex_text (rr_record_hash r) \<Longrightarrow> ascii_text (log_text rs)" for rs
    by (induction rs) (auto simp: log_text_def line_of_def ascii_record_line simp del: append_assoc)
  then show ?thesis using chain_hex [OF assms] by blast
qed

lemma log_text_snoc:
  "log_text (chain sha i prev (xs @ [(q, v)])) = (let p = (if xs = [] then prev else rr_record_hash (last (chain sha i prev xs)))
     in log_text (chain sha i prev xs) @ record_line q v p (replication_record_hash sha p q v) @ [newline])"
proof -
  have "chain sha i prev xs = [] \<longleftrightarrow> xs = []" by (metis length_0_conv length_chain)
  then show ?thesis by (simp add: chain_snoc Let_def log_text_def line_of_def)
qed


text \<open>
  A file that is the bare marker is accepted as an empty log, but a record appended to it lands on
  the marker's line, and the file is refused from then on.
\<close>

lemma bare_marker_append_refused:
  "split_format REPLICATION_LOG_FORMAT_V1 REPLICATION_LOG_FORMAT_V1 = Ok ''''"
  "split_format (REPLICATION_LOG_FORMAT_V1 @ record_line q v p h @ [newline]) REPLICATION_LOG_FORMAT_V1 =
     Err (ReplicationFailed UPDATE_REQUIRED_MESSAGE)"
proof -
  show "split_format REPLICATION_LOG_FORMAT_V1 REPLICATION_LOG_FORMAT_V1 = Ok ''''"
    using strip_prefix_append [of REPLICATION_LOG_FORMAT_V1 "''''"] by (simp add: split_format_def)
  obtain c cs where c: "u64_string q = c # cs" using nat_dec_not_Nil [of "unat q"] by (cases "u64_string q") (auto simp: u64_string_def)
  then have "c \<noteq> newline" using control_not_in_u64_string(1) [of q] by auto
  then show "split_format (REPLICATION_LOG_FORMAT_V1 @ record_line q v p h @ [newline]) REPLICATION_LOG_FORMAT_V1 =
     Err (ReplicationFailed UPDATE_REQUIRED_MESSAGE)"
    by (simp add: split_format_def record_line_def c)
qed

end
