(* ===== verification/Sync_Durable.thy ===== *)
theory Sync_Durable
  imports Sync_File
begin

text \<open>
  What the file-backed replication log holds on disk while every call may fail. \<open>holds\<close> relates the
  bytes of the file to the entries they carry and to the incomplete line that a torn append left;
  \<open>file_ok\<close> ties the writer's memory to it. Appending, reloading, restoring a snapshot and reopening keep
  it, so the file log implements the interface \<open>replication_log\<close>, and no acknowledged record is lost.
\<close>

section \<open>The file on disk\<close>

definition log_file_text :: "hash_fun \<Rightarrow> (u64 \<times> bytes) list \<Rightarrow> string \<Rightarrow> string" where
  "log_file_text sha xs tail = REPLICATION_LOG_FORMAT_V1 @ [newline] @ log_text (chain sha 0 '''' xs) @ tail"

text \<open>The file holds the entries \<open>xs\<close>, followed by the incomplete line \<open>tail\<close> of a torn append.\<close>

definition holds :: "hash_fun \<Rightarrow> fs \<Rightarrow> path \<Rightarrow> (u64 \<times> bytes) list \<Rightarrow> string \<Rightarrow> bool" where
  "holds sha s p xs tail \<longleftrightarrow> fs_nodes s p = Some (FileNode (text_bytes (log_file_text sha xs tail))) \<and>
     newline \<notin> set tail \<and> ascii_text tail \<and> valid_entries xs \<and>
     length (log_file_text sha xs tail) \<le> MAX_REPLICATION_LOG_BYTES"

definition file_view :: "hash_fun \<Rightarrow> file_log \<Rightarrow> (u64 \<times> bytes) list" where
  "file_view sha l = (case fs_nodes (fl_fs l) (fl_path l) of
     Some (FileNode bs) \<Rightarrow>
       (case rbind (split_format (bytes_text bs) REPLICATION_LOG_FORMAT_V1) (parse_replication_records sha) of
          Inr (records, _) \<Rightarrow> entries records | Inl _ \<Rightarrow> [])
   | _ \<Rightarrow> [])"

definition file_ok :: "hash_fun \<Rightarrow> file_log \<Rightarrow> bool" where
  "file_ok sha l \<longleftrightarrow> fl_path l \<noteq> [] \<and> (\<exists>tail. holds sha (fl_fs l) (fl_path l) (file_view sha l) tail) \<and>
     log_ok sha (fl_mem l) \<and> prefix (entries (ml_events (fl_mem l))) (file_view sha l)"

lemma split_format_log [simp]:
  "split_format (log_file_text sha xs tail) REPLICATION_LOG_FORMAT_V1 = Ok (log_text (chain sha 0 '''' xs) @ tail)"
  by (simp add: split_format_def log_file_text_def)

lemma holds_view: "holds sha (fl_fs l) (fl_path l) xs tail \<Longrightarrow> file_view sha l = xs"
  by (simp add: file_view_def holds_def parse_log_text)

lemma holds_utf8: "holds sha s p xs tail \<Longrightarrow> valid_utf8 (map unat (text_bytes (log_file_text sha xs tail)))"
  by (rule ascii_utf8) (auto simp: holds_def log_file_text_def ascii_log_text simp del: append_assoc append_Cons)

lemma sync_reject_symlink_inspects: "inspects (sync_reject_symlink p)"
  by (auto simp: inspects_def Let_def sync_reject_symlink_def fs_symlink_metadata_def sys_call_def ebind_eval
      next_fault_def split: prod.splits sum.splits node.splits io_kind.splits list.splits if_splits)

lemma read_bounded_text_inspects: "inspects (read_bounded_text p n)"
  unfolding read_bounded_text_def fs_open_read_def fs_read_def
  by (intro inspects_ebind sync_reject_symlink_inspects inspects_as_err sys_call_inspects inspects_pure)
    (auto split: node.splits intro!: inspects_ebind inspects_as_err sys_call_inspects)

lemma read_bounded_text_Ok:
  assumes "read_bounded_text p n s = (Ok t, s')"
  shows "\<exists>bs. fs_nodes s p = Some (FileNode bs) \<and> t = bytes_text bs \<and> length bs \<le> n"
proof -
  from assms obtain s1 node s2 s3 where 1: "sync_reject_symlink p s = (Ok (), s1)" "fs_open_read p s1 = (Ok node, s2)"
    and r: "(case node of FileNode content \<Rightarrow>
         if n < length content then efail (ReplicationFailed ''persistent file exceeds configured limit'')
         else ebind (as_err os_fail (fs_read content (n + 1))) (\<lambda>bs.
           if \<not> valid_utf8 (map unat bs) then efail os_fail
           else if n < length bs then efail (ReplicationFailed ''persistent file exceeds configured limit'')
           else eret (bytes_text bs))
     | _ \<Rightarrow> efail os_fail) s3 = (Ok t, s')"
    unfolding read_bounded_text_def
    by (auto simp: ebind_Ok_iff as_err_Ok elim!: sys_call_cases)
  have n1: "fs_nodes s1 = fs_nodes s" using 1(1) by (rule inspectsD [OF sync_reject_symlink_inspects])
  have found: "fs_nodes s p = Some node"
    using 1(2) n1 by (auto simp: fs_open_read_def elim!: sys_call_cases split: option.splits node.splits)
  from r obtain content where c: "node = FileNode content" by (cases node) auto
  with r have "\<not> n < length content" by auto
  with r c show ?thesis using found
    by (auto simp: ebind_Ok_iff as_err_Ok fs_read_def elim!: sys_call_cases split: if_splits)
qed

lemma lock_path_neq: "p \<noteq> [] \<Longrightarrow> p \<noteq> lock_path p"
proof
  assume p: "p \<noteq> []" and "p = lock_path p"
  then have "last p = ''.'' @ last p @ ''.lock''" by (metis file_name_def last_snoc lock_path_def)
  from arg_cong [OF this, of length] show False by simp
qed

lemma create_dir_all_node:
  assumes "as_err e (fs_create_dir_all (butlast p)) s = (r, s')" "p \<noteq> []"
  shows "fs_nodes s' p = fs_nodes s p"
proof -
  have "dirs_only (butlast p) s s'" by (rule keepsD [OF create_dir_all_dirs_only _ assms(1)]) simp
  moreover have "\<not> prefix p (butlast p)"
    using assms(2) prefix_length_le [of p "butlast p"] by (cases p) auto
  ultimately show ?thesis by (simp add: dirs_only_def)
qed

lemma acquire_lock_nodes:
  assumes "acquire_persistence_lock p s = (r, s')" "p \<noteq> []"
  shows "fs_nodes s' p = fs_nodes s p"
proof -
  let ?d = "as_err os_fail (fs_create_dir_all (butlast p))"
  obtain r0 s0 where 0: "?d s = (r0, s0)" by (cases "?d s")
  have n0: "fs_nodes s0 p = fs_nodes s p" by (rule create_dir_all_node [OF 0 assms(2)])
  obtain r1 s1 where 1: "sync_reject_symlink (lock_path p) s0 = (r1, s1)" by (cases "sync_reject_symlink (lock_path p) s0")
  have n1: "fs_nodes s1 = fs_nodes s0" using 1 by (rule inspectsD [OF sync_reject_symlink_inspects])
  obtain r2 s2 where 2: "fs_open_create (lock_path p) s1 = (r2, s2)" by (cases "fs_open_create (lock_path p) s1")
  have n2: "fs_nodes s2 p = fs_nodes s1 p" using 2 lock_path_neq [OF assms(2)] by (rule open_create_nodes)
  have n3: "fs_nodes s3 = fs_nodes s2" if "as_err os_fail (sys_call (eret ())) s2 = (r3, s3)" for r3 s3
    using that by (rule inspectsD [OF inspects_as_err [OF sys_call_inspects [OF inspects_pure(1)]]])
  have as2: "as_err os_fail (fs_open_create (lock_path p)) s1 = (map_err (\<lambda>_. os_fail) r2, s2)"
    using 2 by (simp add: as_err_def)
  show ?thesis
  proof (cases "r0 = Ok () \<and> r1 = Ok () \<and> r2 = Ok ()")
    case True
    then have "as_err os_fail (sys_call (eret ())) s2 = (r, s')"
      using assms(1) by (simp add: acquire_persistence_lock_def ebind_eval 0 1 as2)
    from n3 [OF this] show ?thesis using n0 n1 n2 by simp
  next
    case False
    then have "s' = s0 \<or> s' = s1 \<or> s' = s2"
      using assms(1) by (cases r0; cases r1; cases r2) (auto simp: acquire_persistence_lock_def ebind_eval 0 1 as2)
    then show ?thesis using n0 n1 n2 by auto
  qed
qed

lemma sync_prepare_nodes:
  assumes "sync_prepare p s = (r, s')" "p \<noteq> []"
  shows "fs_nodes s' p = fs_nodes s p"
proof -
  let ?d = "as_err os_fail (fs_create_dir_all (butlast p))"
  obtain r1 s1 where 1: "?d s = (r1, s1)" by (cases "?d s")
  have "s' = s1 \<or> acquire_persistence_lock p s1 = (r, s')"
    using assms(1) 1 by (cases r1) (auto simp: sync_prepare_def ebind_eval)
  then show ?thesis using create_dir_all_node [OF 1 assms(2)] acquire_lock_nodes [OF _ assms(2)] by auto
qed

lemmas atomic_write_nodes = replace_file_nodes
  [of os_fail "''appcore-sync''" sync_reject_symlink, folded atomic_write_def, OF _ _ sync_reject_symlink_inspects]

lemma on_fs_eval: "on_fs m l = (r, l') \<longleftrightarrow> (\<exists>s. m (fl_fs l) = (r, s) \<and> l' = l\<lparr> fl_fs := s \<rparr>)"
  by (auto simp: on_fs_def split: prod.splits)

lemma write_records_holds:
  assumes h: "holds sha s p xs tail" and p: "p \<noteq> []"
    and w: "write_replication_records sha p (chain sha 0 '''' xs) s = (r, s')"
  shows "holds sha s' p xs tail \<or> holds sha s' p xs ''''" "r = Ok () \<Longrightarrow> holds sha s' p xs ''''"
proof -
  let ?out = "REPLICATION_LOG_FORMAT_V1 @ [newline]"
  have out: "log_file_text sha xs '''' = ?out @ log_text (chain sha 0 '''' xs)" by (simp add: log_file_text_def)
  have len: "length (log_file_text sha xs '''') \<le> MAX_REPLICATION_LOG_BYTES"
    using h by (simp add: holds_def log_file_text_def)
  have "render_records_loop sha ?out '''' (chain sha 0 '''' xs) = Ok (log_file_text sha xs '''')"
    using h len render_records_loop_Ok_iff [of sha ?out "''''" "chain sha 0 '''' xs" "log_file_text sha xs ''''" 0]
    unfolding out by (auto simp: holds_def valid_entries_def)
  then have "atomic_write p (text_bytes (log_file_text sha xs '''')) s = (r, s')"
    using w by (simp add: write_replication_records_def ebind_eval)
  note a = atomic_write_nodes [OF this p]
  have new: "fs_nodes s' p = Some (FileNode (text_bytes (log_file_text sha xs ''''))) \<Longrightarrow> holds sha s' p xs ''''"
    using h len by (simp add: holds_def)
  show "r = Ok () \<Longrightarrow> holds sha s' p xs ''''" using a(2) new by blast
  show "holds sha s' p xs tail \<or> holds sha s' p xs ''''"
    using a(1) new h by (auto simp: holds_def)
qed

lemma file_okI:
  "fl_path l \<noteq> [] \<Longrightarrow> holds sha (fl_fs l) (fl_path l) xs tail \<Longrightarrow> log_ok sha (fl_mem l) \<Longrightarrow>
     prefix (entries (ml_events (fl_mem l))) xs \<Longrightarrow> file_ok sha l \<and> file_view sha l = xs"
  using holds_view by (auto simp: file_ok_def)

lemma log_ok_chain: "valid_entries xs \<Longrightarrow>
  log_ok sha \<lparr> ml_events = chain sha 0 '''' xs, ml_sequence_indices = sequence_indices (chain sha 0 '''' xs) \<rparr>"
  by (simp add: log_ok_def)

text \<open>Reloading never loses an entry; when it succeeds the memory equals the file and no torn line is left.\<close>

lemma reload_unlocked_ok:
  assumes l: "fl_path l \<noteq> []" "holds sha (fl_fs l) (fl_path l) xs tail" "log_ok sha (fl_mem l)"
      "prefix (entries (ml_events (fl_mem l))) xs"
    and r: "reload_unlocked sha l = (r, l')"
  shows "file_ok sha l' \<and> file_view sha l' = xs \<and> fl_path l' = fl_path l" 
    and "r = Ok () \<Longrightarrow> holds sha (fl_fs l') (fl_path l) xs '''' \<and> entries (ml_events (fl_mem l')) = xs"
proof -
  let ?p = "fl_path l" and ?rs = "chain sha 0 '''' xs"
  let ?rd = "read_bounded_text ?p MAX_REPLICATION_LOG_BYTES"
  obtain r1 s1 where 1: "?rd (fl_fs l) = (r1, s1)" by (cases "?rd (fl_fs l)")
  have n1: "fs_nodes s1 = fs_nodes (fl_fs l)" using 1 by (rule inspectsD [OF read_bounded_text_inspects])
  have h1: "holds sha s1 ?p xs tail" using l(2) n1 by (simp add: holds_def)
  have ve: "valid_entries xs" "newline \<notin> set tail" using l(2) by (auto simp: holds_def)
  have "(file_ok sha l' \<and> file_view sha l' = xs \<and> fl_path l' = fl_path l) \<and>
    (r = Ok () \<longrightarrow> holds sha (fl_fs l') (fl_path l) xs '''' \<and> entries (ml_events (fl_mem l')) = xs)"
  proof (cases r1)
    case (Inl e)
    then have "r = Inl e" "l' = l\<lparr> fl_fs := s1 \<rparr>" using r 1 by (auto simp: reload_unlocked_def ebind_eval on_fs_def)
    then show ?thesis using file_okI [of l' sha xs tail] l h1 by simp
  next
    case (Inr t)
    with 1 read_bounded_text_Ok [of ?p _ "fl_fs l" t s1] l(2) have t: "t = log_file_text sha xs tail"
      by (auto simp: holds_def)
    let ?m = "\<lparr> ml_events = ?rs, ml_sequence_indices = sequence_indices ?rs \<rparr>"
    have pf: "prefix (entries (ml_events ?m)) xs" by simp
    show ?thesis
    proof (cases "tail = []")
      case True
      then have "r = Ok ()" "l' = l\<lparr> fl_fs := s1, fl_mem := ?m \<rparr>"
        using r 1 Inr t parse_log_text [OF ve(1), of "''''" sha]
        by (auto simp: reload_unlocked_def ebind_eval on_fs_def)
      then show ?thesis
        using file_okI [of l' sha xs "''''"] l(1) h1 True log_ok_chain [OF ve(1), of sha] by simp
    next
      case False
      let ?w = "write_replication_records sha ?p ?rs"
      obtain r2 s2 where 2: "?w s1 = (r2, s2)" by (cases "?w s1")
      note w = write_records_holds [OF h1 l(1) 2]
      have res: "(r, l') = (case r2 of Inl e \<Rightarrow> (Err e, l\<lparr> fl_fs := s2 \<rparr>)
          | Inr _ \<Rightarrow> (Ok (), l\<lparr> fl_fs := s2, fl_mem := ?m \<rparr>))"
        using r 1 2 Inr t ve False
        by (cases r2) (auto simp: reload_unlocked_def ebind_eval on_fs_def parse_log_text)
      show ?thesis
      proof (cases r2)
        case (Inl e)
        with res w(1) l show ?thesis using file_okI [of l' sha xs] by auto
      next
        case (Inr u)
        then have "r2 = Ok ()" by simp
        with res w(2) l(1) show ?thesis using file_okI [of l' sha xs "''''"] log_ok_chain [OF ve(1), of sha] by simp
      qed
    qed
  qed
  then show "file_ok sha l' \<and> file_view sha l' = xs \<and> fl_path l' = fl_path l"
    and "r = Ok () \<Longrightarrow> holds sha (fl_fs l') (fl_path l) xs '''' \<and> entries (ml_events (fl_mem l')) = xs"
    by auto
qed

text \<open>A torn write of the line of a new entry leaves the old entries, a whole one adds the entry.\<close>

lemma append_holds:
  assumes h: "holds sha s p xs ''''" and v: "valid_entries (xs @ [(q, v)])"
    and line: "line = record_line q v (last_hash (chain sha 0 '''' xs))
      (replication_record_hash sha (last_hash (chain sha 0 '''' xs)) q v) @ [newline]"
    and len: "length (log_file_text sha xs '''') + length line \<le> MAX_REPLICATION_LOG_BYTES"
    and n: "fs_nodes s' p = Some (FileNode (text_bytes (log_file_text sha xs '''' @ take n line)))"
  shows "take n line = line \<Longrightarrow> holds sha s' p (xs @ [(q, v)]) ''''"
    and "take n line \<noteq> line \<Longrightarrow> holds sha s' p xs (take n line)"
proof -
  let ?lh = "last_hash (chain sha 0 '''' xs)"
  have hex: "hex_text ?lh" using chain_hex [of "''''" "last (chain sha 0 '''' xs)" sha 0 xs]
    by (cases "chain sha 0 '''' xs = []") (auto simp: last_hash_def)
  have ne: "chain sha 0 '''' xs = [] \<longleftrightarrow> xs = []" by (metis length_0_conv length_chain)
  have whole: "log_file_text sha xs '''' @ line = log_file_text sha (xs @ [(q, v)]) ''''"
    by (simp add: log_file_text_def log_text_snoc line last_hash_def ne Let_def)
  show "take n line = line \<Longrightarrow> holds sha s' p (xs @ [(q, v)]) ''''"
    using n v len by (auto simp: holds_def whole simp flip: length_append)
  assume "take n line \<noteq> line"
  then have "n < length line" by (metis not_le take_all)
  then have tl: "take n line = take n (record_line q v ?lh (replication_record_hash sha ?lh q v))"
    by (simp add: line)
  have "newline \<notin> set (take n line)"
    using record_line_no_newline [OF hex hex_text_hash(1)] by (auto simp: tl dest: in_set_takeD)
  moreover have "ascii_text (take n line)"
    unfolding tl by (intro ascii_take ascii_record_line hex hex_text_hash)
  moreover have "log_file_text sha xs '''' @ take n line = log_file_text sha xs (take n line)"
    by (simp add: log_file_text_def)
  moreover have "length (log_file_text sha xs (take n line)) \<le> MAX_REPLICATION_LOG_BYTES"
    using len by (simp add: log_file_text_def)
  ultimately show "holds sha s' p xs (take n line)" using n v by (simp add: holds_def valid_entries_snoc)
qed

lemma append_line_ok:
  assumes l: "fl_path l \<noteq> []" "holds sha (fl_fs l) (fl_path l) xs ''''" "log_ok sha (fl_mem l)"
      "entries (ml_events (fl_mem l)) = xs"
    and v: "valid_entries (xs @ [(q, v)])" and a: "append_line sha v q l = (r, l')"
  shows "file_ok sha l' \<and> (file_view sha l' = xs \<or> file_view sha l' = xs @ [(q, v)])"
    and "r = Ok n \<Longrightarrow> file_view sha l' = xs @ [(q, v)]"
proof -
  let ?p = "fl_path l" and ?lh = "last_hash (chain sha 0 '''' xs)"
  let ?line = "record_line q v ?lh (replication_record_hash sha ?lh q v) @ [newline]"
  have ev: "ml_events (fl_mem l) = chain sha 0 '''' xs" using l(3,4) by (simp add: log_ok_def)
  have old: "fs_nodes (fl_fs l) ?p = Some (FileNode (text_bytes (log_file_text sha xs '''')))"
    using l(2) by (simp add: holds_def)
  let ?meta = "as_err os_fail (sys_call (elift (\<lambda>s. case fs_nodes s ?p of
             Some (FileNode content) \<Rightarrow> Ok (length content) | _ \<Rightarrow> Err IK_NotFound)))"
  let ?open = "as_err os_fail (sys_call (eret ()))"
  obtain r1 s1 where 1: "?meta (fl_fs l) = (r1, s1)" by (cases "?meta (fl_fs l)")
  have n1: "fs_nodes s1 = fs_nodes (fl_fs l)"
    using 1 by (rule inspectsD [OF inspects_as_err [OF sys_call_inspects [OF inspects_pure(3)]]])
  obtain r2 s2 where 2: "?open s1 = (r2, s2)" by (cases "?open s1")
  have n2: "fs_nodes s2 = fs_nodes s1"
    using 2 by (rule inspectsD [OF inspects_as_err [OF sys_call_inspects [OF inspects_pure(1)]]])
  obtain r3 s3 where 3: "fs_append ?p (text_bytes ?line) s2 = (r3, s3)" by (cases "fs_append ?p (text_bytes ?line) s2")
  obtain k where n3: "fs_nodes s3 ?p = Some (FileNode (text_bytes (log_file_text sha xs '''' @ take k ?line)))"
    "r3 = Ok () \<longrightarrow> take k ?line = ?line"
  proof -
    have "take k (text_bytes ?line) = text_bytes ?line \<longleftrightarrow> take k ?line = ?line" for k
      by (metis bytes_text_bytes text_bytes_take)
    then show thesis using that fs_append_nodes [OF 3] old n1 n2 by (auto simp: text_bytes_take)
  qed
  obtain r4 s4 where 4: "fs_sync ?p s3 = (r4, s4)" by (cases "fs_sync ?p s3")
  have n4: "fs_nodes s4 = fs_nodes s3"
    using 4 unfolding fs_sync_def by (rule inspectsD [OF sys_call_inspects [OF inspects_pure(1)]])
  obtain i m where p: "push_record sha v q (fl_mem l) = (i, m)" by (cases "push_record sha v q (fl_mem l)")
  have pr: "log_ok sha m" "entries (ml_events m) = xs @ [(q, v)]"
    using push_record_ok [OF l(3) _ _ p] v l(4) by (auto simp: valid_entries_snoc)
  let ?fits = "length (log_file_text sha xs '''') + length ?line \<le> MAX_REPLICATION_LOG_BYTES"
  have same: "file_ok sha (l\<lparr> fl_fs := s \<rparr>) \<and> file_view sha (l\<lparr> fl_fs := s \<rparr>) = xs"
    if "fs_nodes s = fs_nodes (fl_fs l)" for s
    using that l file_okI [of "l\<lparr> fl_fs := s \<rparr>" sha xs "''''"] by (simp add: holds_def)
  have torn: "file_ok sha (l\<lparr> fl_fs := s \<rparr>) \<and> (file_view sha (l\<lparr> fl_fs := s \<rparr>) = xs \<or>
      file_view sha (l\<lparr> fl_fs := s \<rparr>) = xs @ [(q, v)])" if "fs_nodes s = fs_nodes s3" ?fits for s
  proof -
    have h: "take k ?line = ?line \<Longrightarrow> holds sha s ?p (xs @ [(q, v)]) ''''"
      "take k ?line \<noteq> ?line \<Longrightarrow> holds sha s ?p xs (take k ?line)"
      using append_holds [OF l(2) v refl that(2), of s k] n3(1) that(1) by auto
    show ?thesis
      using h file_okI [of "l\<lparr> fl_fs := s \<rparr>" sha "xs @ [(q, v)]" "''''"]
        file_okI [of "l\<lparr> fl_fs := s \<rparr>" sha xs "take k ?line"] l by (cases "take k ?line = ?line") auto
  qed
  have full: "file_ok sha (l\<lparr> fl_fs := s, fl_mem := m \<rparr>) \<and>
      file_view sha (l\<lparr> fl_fs := s, fl_mem := m \<rparr>) = xs @ [(q, v)]" if "fs_nodes s = fs_nodes s3" "r3 = Ok ()" ?fits for s
    using append_holds(1) [OF l(2) v refl that(3), of s k] n3 that(1,2) pr l(1)
      file_okI [of "l\<lparr> fl_fs := s, fl_mem := m \<rparr>" sha "xs @ [(q, v)]" "''''"] by auto
  have r1: "r1 = Ok (length (log_file_text sha xs '''')) \<or> (\<exists>e. r1 = Err e)"
    using 1 old n1 by (auto simp: as_err_def elim!: sys_call_cases split: prod.splits)
  have "file_ok sha l' \<and> (file_view sha l' = xs \<or> file_view sha l' = xs @ [(q, v)]) \<and>
    (r = Ok n \<longrightarrow> file_view sha l' = xs @ [(q, v)])"
  proof (cases "r1 = Ok (length (log_file_text sha xs '''')) \<and> ?fits \<and> r2 = Ok ()")
    case False
    then have "(l' = l\<lparr> fl_fs := s1 \<rparr> \<or> l' = l\<lparr> fl_fs := s2 \<rparr>) \<and> (\<exists>e. r = Err e)"
      using a r1 1 2 by (cases r2) (auto simp: append_line_def Let_def ev ebind_eval on_fs_def split: if_splits)
    then show ?thesis using same [of s1] same [of s2] n1 n2 by auto
  next
    case True
    show ?thesis
    proof (cases "r3 = Ok () \<and> r4 = Ok ()")
      case False
      then have "(l' = l\<lparr> fl_fs := s3 \<rparr> \<or> l' = l\<lparr> fl_fs := s4 \<rparr>) \<and> (\<exists>e. r = Err e)"
        using a True 1 2 3 4 by (cases r3; cases r4) (auto simp: append_line_def Let_def ev ebind_eval on_fs_def as_err_def)
      then show ?thesis using torn [of s3] torn [of s4] n4 True by auto
    next
      case both: True
      then have "l' = l\<lparr> fl_fs := s4, fl_mem := m \<rparr>"
        using a True 1 2 3 4 p by (auto simp: append_line_def Let_def ev ebind_eval on_fs_def as_err_def)
      then show ?thesis using full [of s4] n4 True both by auto
    qed
  qed
  then show "file_ok sha l' \<and> (file_view sha l' = xs \<or> file_view sha l' = xs @ [(q, v)])"
    "r = Ok n \<Longrightarrow> file_view sha l' = xs @ [(q, v)]" by auto
qed

lemma file_okD:
  assumes "file_ok sha l"
  obtains tail where "fl_path l \<noteq> []" "holds sha (fl_fs l) (fl_path l) (file_view sha l) tail"
    "log_ok sha (fl_mem l)" "prefix (entries (ml_events (fl_mem l))) (file_view sha l)"
  using assms by (auto simp: file_ok_def)

lemma on_fs_lock_ok:
  assumes l: "file_ok sha l" and a: "on_fs (acquire_persistence_lock (fl_path l)) l = (r, l')"
  shows "file_ok sha l' \<and> file_view sha l' = file_view sha l \<and> fl_path l' = fl_path l"
proof -
  obtain tail where o: "fl_path l \<noteq> []" "holds sha (fl_fs l) (fl_path l) (file_view sha l) tail"
    "log_ok sha (fl_mem l)" "prefix (entries (ml_events (fl_mem l))) (file_view sha l)" using l by (rule file_okD)
  obtain s where s: "acquire_persistence_lock (fl_path l) (fl_fs l) = (r, s)" "l' = l\<lparr> fl_fs := s \<rparr>"
    using a by (auto simp: on_fs_eval)
  have "fs_nodes s (fl_path l) = fs_nodes (fl_fs l) (fl_path l)"
    using acquire_lock_nodes [OF s(1) o(1)] o(2) by (auto simp: holds_def)
  then have "holds sha s (fl_path l) (file_view sha l) tail" using o(2) by (simp add: holds_def)
  then show ?thesis using file_okI [of l' sha "file_view sha l" tail] o s(2) by simp
qed

lemma file_reload_unlocked_ok:
  assumes l: "file_ok sha l" and a: "reload_unlocked sha l = (r, l')"
  shows "file_ok sha l' \<and> file_view sha l' = file_view sha l \<and> fl_path l' = fl_path l"
    and "r = Ok () \<Longrightarrow> holds sha (fl_fs l') (fl_path l) (file_view sha l) '''' \<and> entries (ml_events (fl_mem l')) = file_view sha l"
proof -
  obtain tail where o: "fl_path l \<noteq> []" "holds sha (fl_fs l) (fl_path l) (file_view sha l) tail"
    "log_ok sha (fl_mem l)" "prefix (entries (ml_events (fl_mem l))) (file_view sha l)" using l by (rule file_okD)
  note ok = reload_unlocked_ok [OF o a]
  from ok(1) show "file_ok sha l' \<and> file_view sha l' = file_view sha l \<and> fl_path l' = fl_path l" .
  from ok(2) show "r = Ok () \<Longrightarrow> holds sha (fl_fs l') (fl_path l) (file_view sha l) '''' \<and>
    entries (ml_events (fl_mem l')) = file_view sha l" .
qed

text \<open>
  Whatever fails on the way, an append leaves a file that holds the old entries or the old entries
  and the new one; what the writer has in memory stays a prefix of it.
\<close>

lemma file_append_cases:
  assumes l: "file_ok sha l" and a: "file_append_with_sequence sha v q l = (r, l')"
  shows "file_ok sha l' \<and> (file_view sha l' = file_view sha l \<or>
      (q > 0 \<longrightarrow> map_of (file_view sha l) q = None) \<and> file_view sha l' = file_view sha l @ [(q, v)])"
    and "r = Ok n \<Longrightarrow> q > 0 \<Longrightarrow> map_of (file_view sha l') q = Some v"
    and "r = Ok n \<Longrightarrow> q = 0 \<Longrightarrow> file_view sha l' = file_view sha l @ [(q, v)]"
proof -
  let ?lock = "on_fs (acquire_persistence_lock (fl_path l))" and ?xs = "file_view sha l"
  obtain r1 l1 where 1: "?lock l = (r1, l1)" by (cases "?lock l")
  note o1 = on_fs_lock_ok [OF l 1]
  obtain r2 l2 where 2: "reload_unlocked sha l1 = (r2, l2)" by (cases "reload_unlocked sha l1")
  note o2 = file_reload_unlocked_ok [OF conjunct1 [OF o1] 2]
  have view2: "file_view sha l2 = ?xs" "file_ok sha l2" using o1 o2(1) by auto
  have "(file_ok sha l' \<and> (file_view sha l' = ?xs \<or>
      (q > 0 \<longrightarrow> map_of ?xs q = None) \<and> file_view sha l' = ?xs @ [(q, v)])) \<and>
    (r = Ok n \<longrightarrow> (q > 0 \<longrightarrow> map_of (file_view sha l') q = Some v) \<and> (q = 0 \<longrightarrow> file_view sha l' = ?xs @ [(q, v)]))"
  proof (cases "r1 = Ok () \<and> r2 = Ok () \<and> length v \<le> MAX_REPLICATION_RECORD_BYTES")
    case False
    then have "(l' = l1 \<or> l' = l2) \<and> (\<exists>e. r = Err e)"
      using a 1 2 by (cases r1; cases r2) (auto simp: file_append_with_sequence_def ebind_eval validate_record_size_def)
    then show ?thesis using o1 view2 by auto
  next
    case True
    then have mem: "entries (ml_events (fl_mem l2)) = ?xs" "log_ok sha (fl_mem l2)"
      "holds sha (fl_fs l2) (fl_path l2) ?xs ''''" "fl_path l2 \<noteq> []"
      using o1 o2 by (auto simp: file_ok_def)
    let ?hit = "if q > 0 then lookup_sequence (fl_mem l2) q else None"
    have res: "(r, l') = (case ?hit of
        Some existing \<Rightarrow> (if rr_payload existing = v then Ok (rr_index existing) else Err (SequenceConflict q), l2)
      | None \<Rightarrow> append_line sha v q l2)"
      using a 1 2 True by (simp add: file_append_with_sequence_def ebind_eval validate_record_size_def split: option.splits)
    show ?thesis
    proof (cases ?hit)
      case (Some existing)
      then have hit: "q > 0" "lookup_sequence (fl_mem l2) q = Some existing" by (auto split: if_splits)
      then have "map_of ?xs q = Some (rr_payload existing)" using log_ok_lookup [OF mem(2) hit(1)] mem(1) by simp
      then show ?thesis using res Some view2 by auto
    next
      case None
      then have abs: "q > 0 \<longrightarrow> map_of ?xs q = None" using log_ok_lookup [OF mem(2), of q] mem(1) by auto
      have ve: "valid_entries (?xs @ [(q, v)])" using abs True mem(3) by (simp add: valid_entries_snoc holds_def)
      have al: "append_line sha v q l2 = (r, l')" using res None by simp
      show ?thesis
        using append_line_ok(1) [OF mem(4,3,2,1) ve al] append_line_ok(2) [OF mem(4,3,2,1) ve al, of n] abs
        by (auto simp: map_add_def)
    qed
  qed
  then show "file_ok sha l' \<and> (file_view sha l' = ?xs \<or>
      (q > 0 \<longrightarrow> map_of ?xs q = None) \<and> file_view sha l' = ?xs @ [(q, v)])"
    "r = Ok n \<Longrightarrow> q > 0 \<Longrightarrow> map_of (file_view sha l') q = Some v"
    "r = Ok n \<Longrightarrow> q = 0 \<Longrightarrow> file_view sha l' = file_view sha l @ [(q, v)]" by auto
qed

definition file_log_ops :: "hash_fun \<Rightarrow> file_log log_ops" where
  "file_log_ops sha = \<lparr> lo_event_at_sequence = file_event_at_sequence,
     lo_append_with_sequence = file_append_with_sequence sha \<rparr>"

lemma prefix_map_of: "prefix xs ys \<Longrightarrow> map_of xs q = Some v \<Longrightarrow> map_of ys q = Some v"
  by (auto simp: prefix_def map_add_def split: option.splits)

interpretation file_log: replication_log "file_log_ops sha" "file_ok sha" "file_view sha"
proof
  fix l :: file_log
  assume l: "file_ok sha l"
  show "valid_entries (file_view sha l)" using l by (auto simp: file_ok_def holds_def)
  show "lo_event_at_sequence (file_log_ops sha) q l = (r, l') \<Longrightarrow>
      file_ok sha l' \<and> file_view sha l' = file_view sha l" for q r l'
    using l by (auto simp: file_log_ops_def file_event_at_sequence_def)
  show "lo_event_at_sequence (file_log_ops sha) q l = (Ok (Some v), l') \<Longrightarrow>
      map_of (file_view sha l) q = Some v" for q v l'
  proof -
    assume "lo_event_at_sequence (file_log_ops sha) q l = (Ok (Some v), l')"
    then have "mem_event_at_sequence (fl_mem l) q = Some v" by (auto simp: file_log_ops_def file_event_at_sequence_def)
    then have "map_of (entries (ml_events (fl_mem l))) q = Some v"
      using log_ok_lookup [of sha "fl_mem l" q] l by (auto simp: mem_event_at_sequence_def file_ok_def split: if_splits)
    then show ?thesis using l prefix_map_of by (metis file_ok_def)
  qed
  fix q :: u64
  assume q: "q > 0"
  show "lo_append_with_sequence (file_log_ops sha) v q l = (r, l') \<Longrightarrow> file_ok sha l' \<and>
      (file_view sha l' = file_view sha l \<or> map_of (file_view sha l) q = None \<and>
       file_view sha l' = file_view sha l @ [(q, v)])" for v r l'
    using file_append_cases(1) [OF l] q by (auto simp: file_log_ops_def)
  show "lo_append_with_sequence (file_log_ops sha) v q l = (Ok n, l') \<Longrightarrow>
      map_of (file_view sha l') q = Some v" for v n l'
    using file_append_cases(2) [OF l _ _ q] by (auto simp: file_log_ops_def)
qed
section \<open>Opening a log\<close>



definition opens_as :: "hash_fun \<Rightarrow> fs \<Rightarrow> path \<Rightarrow> (u64 \<times> bytes) list \<Rightarrow> bool" where
  "opens_as sha s p xs \<longleftrightarrow> fs_nodes s p = None \<and> xs = [] \<or> (\<exists>tail. holds sha s p xs tail)"

lemma opens_as_cong: "fs_nodes s p = fs_nodes s' p \<Longrightarrow> opens_as sha s p xs = opens_as sha s' p xs"
  by (simp add: opens_as_def holds_def)

lemma file_log_new_ok:
  assumes n: "file_log_new sha root rel s = (Ok l, s')"
    and p: "p = root @ path_components rel" "p \<noteq> []" and o: "opens_as sha s p xs"
    and a: "fs_nodes s p = None \<or> stat_answers (sync_prepare p) s"
  shows "file_ok sha l \<and> file_view sha l = xs \<and> fl_path l = p" "entries (ml_events (fl_mem l)) = xs" "s' = fl_fs l"
proof -
  obtain s1 found s2 s3 where 1: "sync_prepare p s = (Ok (), s1)" and 2: "path_exists p s1 = (Ok found :: sync_error + bool, s2)"
    and 3: "(if \<not> found then atomic_write p (text_bytes (REPLICATION_LOG_FORMAT_V1 @ [newline])) else eret ()) s2 = (Ok (), s3)"
    and 4: "reload_unlocked sha \<lparr> fl_fs = s3, fl_path = p, fl_mem = mem_log_new \<rparr> = (Ok (), l)" "s' = fl_fs l"
  proof -
    let ?init = "ebind (sync_prepare p) (\<lambda>_. ebind (path_exists p) (\<lambda>found.
      if \<not> found then atomic_write p (text_bytes (REPLICATION_LOG_FORMAT_V1 @ [newline])) else eret ()))"
    obtain s3 where "?init s = (Ok (), s3)" "reload_unlocked sha \<lparr> fl_fs = s3, fl_path = p, fl_mem = mem_log_new \<rparr> = (Ok (), l)" "s' = fl_fs l"
      using n unfolding file_log_new_def Let_def p(1) [symmetric] by (auto split: prod.splits sum.splits if_splits)
    then show thesis unfolding ebind_Ok_iff
      by (elim exE conjE) (rule that, simp_all del: if_not_P)
  qed
  have same: "fs_nodes s1 p = fs_nodes s p" "fs_nodes s2 = fs_nodes s1"
    using sync_prepare_nodes [OF 1 p(2)] path_exists_Ok(1) [OF 2] by simp_all
  then have o2: "opens_as sha s2 p xs" using o opens_as_cong by metis
  have found: "found = (fs_nodes s2 p \<noteq> None)"
    using a path_exists_answered [of "sync_prepare p" s, OF 1 2] path_exists_Ok(3) [OF 2] same by (cases found) auto
  have "\<exists>tail. holds sha s3 p xs tail"
  proof (cases found)
    case False
    with found have True: "fs_nodes s2 p = None" "\<not> found" by simp_all
    then have "xs = []" using o2 by (simp add: opens_as_def holds_def)
    moreover have "fs_nodes s3 p = Some (FileNode (text_bytes (log_file_text sha [] '''')))"
      using 3 True atomic_write_nodes(2) [OF _ p(2), of _ s2 "Ok ()" s3]
      by (simp add: log_file_text_def log_text_def)
    moreover have "length (log_file_text sha [] '''') \<le> MAX_REPLICATION_LOG_BYTES"
      by (simp add: log_file_text_def log_text_def REPLICATION_LOG_FORMAT_V1_def MAX_REPLICATION_LOG_BYTES_def)
    ultimately have "holds sha s3 p xs ''''" by (simp add: holds_def valid_entries_def)
    then show ?thesis by blast
  next
    case True
    then show ?thesis using 3 o2 found by (auto simp: opens_as_def)
  qed
  then obtain tail where h: "holds sha s3 p xs tail" by blast
  let ?l = "\<lparr> fl_fs = s3, fl_path = p, fl_mem = mem_log_new \<rparr>"
  have "log_ok sha (fl_mem ?l)" "prefix (entries (ml_events (fl_mem ?l))) xs"
    by (simp_all add: log_ok_def mem_log_new_def entries_def valid_entries_def sequence_indices_def)
  with h p(2) 4(1) reload_unlocked_ok [of ?l sha xs tail "Ok ()" l]
  show "file_ok sha l \<and> file_view sha l = xs \<and> fl_path l = p" "entries (ml_events (fl_mem l)) = xs" by simp_all
  show "s' = fl_fs l" by (rule 4)
qed

section \<open>Durability\<close>

text \<open>A client of the log: it appends the given records one after the other, ignoring failures.\<close>

fun file_appends :: "hash_fun \<Rightarrow> (u64 \<times> bytes) list \<Rightarrow> file_log \<Rightarrow> nat sync_result list \<times> file_log" where
  "file_appends sha [] l = ([], l)"
| "file_appends sha ((q, v) # xs) l = (case file_append_with_sequence sha v q l of (r, l1) \<Rightarrow>
     (case file_appends sha xs l1 of (rs, l2) \<Rightarrow> (r # rs, l2)))"

text \<open>The acknowledged records without a sequence, in order: the log has no index for them.\<close>

definition acked_unsequenced :: "nat sync_result list \<Rightarrow> (u64 \<times> bytes) list \<Rightarrow> (u64 \<times> bytes) list" where
  "acked_unsequenced rs xs = map snd (filter (\<lambda>(r, q, v). is_ok r \<and> q = 0) (zip rs xs))"

lemma append_line_path: "append_line sha v q l = (r, l') \<Longrightarrow> fl_path l' = fl_path l"
  by (auto simp: append_line_def Let_def ebind_eval on_fs_def split: prod.splits sum.splits if_splits)

lemma reload_unlocked_path: "reload_unlocked sha l = (r, l') \<Longrightarrow> fl_path l' = fl_path l"
  by (auto simp: reload_unlocked_def ebind_eval on_fs_def split: prod.splits sum.splits if_splits)

lemma file_append_path: "file_append_with_sequence sha v q l = (r, l') \<Longrightarrow> fl_path l' = fl_path l"
  by (auto simp: file_append_with_sequence_def ebind_eval on_fs_def
      split: prod.splits sum.splits if_splits option.splits dest!: append_line_path reload_unlocked_path)

lemma file_appends_ok:
  assumes "file_ok sha l" "file_appends sha xs l = (rs, l')"
  shows "file_ok sha l' \<and> fl_path l' = fl_path l \<and> prefix (file_view sha l) (file_view sha l') \<and>
    set (file_view sha l') \<subseteq> set (file_view sha l) \<union> set xs \<and>
    (\<forall>i n. i < length xs \<and> rs ! i = Ok n \<and> fst (xs ! i) > 0 \<longrightarrow>
      map_of (file_view sha l') (fst (xs ! i)) = Some (snd (xs ! i))) \<and>
    (\<exists>ys. file_view sha l' = file_view sha l @ ys \<and> subseq (acked_unsequenced rs xs) ys)"
  using assms
proof (induction xs arbitrary: l rs)
  case Nil
  then show ?case by (auto simp: acked_unsequenced_def)
next
  case (Cons x xs)
  obtain q v where x: "x = (q, v)" by (cases x)
  obtain r l1 where a: "file_append_with_sequence sha v q l = (r, l1)" by (cases "file_append_with_sequence sha v q l")
  obtain rs1 where b: "file_appends sha xs l1 = (rs1, l')" "rs = r # rs1"
    using Cons.prems(2) by (auto simp: x a split: prod.splits)
  note c = file_append_cases [OF Cons.prems(1) a]
  have IH: "file_ok sha l' \<and> fl_path l' = fl_path l1 \<and> prefix (file_view sha l1) (file_view sha l') \<and>
    set (file_view sha l') \<subseteq> set (file_view sha l1) \<union> set xs \<and>
    (\<forall>i n. i < length xs \<and> rs1 ! i = Ok n \<and> fst (xs ! i) > 0 \<longrightarrow>
      map_of (file_view sha l') (fst (xs ! i)) = Some (snd (xs ! i))) \<and>
    (\<exists>ys. file_view sha l' = file_view sha l1 @ ys \<and> subseq (acked_unsequenced rs1 xs) ys)"
    using c(1) b(1) by (intro Cons.IH) auto
  have "prefix (file_view sha l) (file_view sha l1)" "set (file_view sha l1) \<subseteq> set (file_view sha l) \<union> {x}"
    using c(1) x by auto
  moreover have acked: "r = Ok n \<Longrightarrow> q > 0 \<Longrightarrow> map_of (file_view sha l') q = Some v" for n
    using c(2) [of n] IH prefix_map_of [of "file_view sha l1" "file_view sha l'" q v] by simp
  ultimately have "fl_path l' = fl_path l" "prefix (file_view sha l) (file_view sha l')"
    "set (file_view sha l') \<subseteq> set (file_view sha l) \<union> set (x # xs)"
    using IH file_append_path [OF a] by (auto intro: prefix_order.trans)
  moreover have "map_of (file_view sha l') (fst ((x # xs) ! i)) = Some (snd ((x # xs) ! i))"
    if "i < length (x # xs)" "rs ! i = Ok n" "fst ((x # xs) ! i) > 0" for i n
    using that x b(2) IH acked by (cases i) auto
  moreover have "\<exists>ys. file_view sha l' = file_view sha l @ ys \<and> subseq (acked_unsequenced rs (x # xs)) ys"
  proof -
    obtain ys where ys: "file_view sha l' = file_view sha l1 @ ys" "subseq (acked_unsequenced rs1 xs) ys"
      using IH by blast
    have u: "acked_unsequenced rs (x # xs) = (if is_ok r \<and> q = 0 then [x] else []) @ acked_unsequenced rs1 xs"
      by (simp add: acked_unsequenced_def b(2) x)
    have "\<exists>zs. file_view sha l1 = file_view sha l @ zs \<and> subseq (if is_ok r \<and> q = 0 then [x] else []) zs"
      using c(1) c(3) x by (cases r) auto
    then obtain zs where "file_view sha l1 = file_view sha l @ zs" "subseq (if is_ok r \<and> q = 0 then [x] else []) zs" by blast
    with ys show ?thesis unfolding u by (intro exI [of _ "zs @ ys"] conjI list_emb_append_mono) simp_all
  qed
  ultimately show ?case using IH by blast
qed

section \<open>Restoring a snapshot\<close>

lemma write_records_new:
  assumes w: "write_replication_records sha p (chain sha 0 '''' xs) s = (r, s')" and p: "p \<noteq> []" and v: "valid_entries xs"
  shows "fs_nodes s' p = fs_nodes s p \<or> holds sha s' p xs ''''" "r = Ok () \<Longrightarrow> holds sha s' p xs ''''"
proof -
  let ?rs = "chain sha 0 '''' xs" and ?out = "REPLICATION_LOG_FORMAT_V1 @ [newline]"
  have small: "length ?out \<le> MAX_REPLICATION_LOG_BYTES"
    by (simp add: REPLICATION_LOG_FORMAT_V1_def MAX_REPLICATION_LOG_BYTES_def)
  consider (e) e where "render_records_loop sha ?out '''' ?rs = Err e"
    | (ok) "render_records_loop sha ?out '''' ?rs = Ok (log_file_text sha xs '''')"
        "length (log_file_text sha xs '''') \<le> MAX_REPLICATION_LOG_BYTES"
  proof (cases "render_records_loop sha ?out '''' ?rs")
    case (Inr t)
    then show thesis using ok small render_records_loop_Ok_iff [of sha ?out "''''" ?rs t 0]
      by (cases "xs = []") (auto simp: log_file_text_def log_text_def)
  qed (rule e)
  then have "(fs_nodes s' p = fs_nodes s p \<or> holds sha s' p xs '''') \<and> (r = Ok () \<longrightarrow> holds sha s' p xs '''')"
  proof cases
    case ok
    then have "atomic_write p (text_bytes (log_file_text sha xs '''')) s = (r, s')"
      using w by (simp add: write_replication_records_def ebind_eval)
    from atomic_write_nodes [OF this p] ok(2) v show ?thesis by (auto simp: holds_def)
  qed (use w in \<open>auto simp: write_replication_records_def ebind_eval\<close>)
  then show "fs_nodes s' p = fs_nodes s p \<or> holds sha s' p xs ''''" "r = Ok () \<Longrightarrow> holds sha s' p xs ''''" by auto
qed

lemma file_restore_snapshot_ok:
  assumes l: "file_ok sha l" and v: "validate_snapshot sha snap = Ok (chain sha 0 '''' xs)" "valid_entries xs"
    and a: "file_restore_snapshot sha snap l = (r, l')"
  shows "opens_as sha (fl_fs l') (fl_path l) (file_view sha l) \<or> opens_as sha (fl_fs l') (fl_path l) xs"
    and "r = Ok () \<Longrightarrow> file_ok sha l' \<and> file_view sha l' = xs \<and>
      fl_mem l' = \<lparr> ml_events = chain sha 0 '''' xs, ml_sequence_indices = sequence_indices (chain sha 0 '''' xs) \<rparr>"
proof -
  let ?lock = "on_fs (acquire_persistence_lock (fl_path l))" and ?p = "fl_path l"
  obtain r1 l1 where 1: "?lock l = (r1, l1)" by (cases "?lock l")
  note o1 = on_fs_lock_ok [OF l 1]
  let ?w = "write_replication_records sha ?p (chain sha 0 '''' xs)"
  obtain r2 s2 where 2: "?w (fl_fs l1) = (r2, s2)" by (cases "?w (fl_fs l1)")
  have p: "?p \<noteq> []" using l by (simp add: file_ok_def)
  note w = write_records_new [OF 2 p v(2)]
  have old: "opens_as sha (fl_fs l1) ?p (file_view sha l)"
    using o1 by (auto simp: file_ok_def opens_as_def)
  then have s2: "opens_as sha s2 ?p (file_view sha l) \<or> opens_as sha s2 ?p xs"
    using w(1) opens_as_cong opens_as_def by metis
  let ?m = "\<lparr> ml_events = chain sha 0 '''' xs, ml_sequence_indices = sequence_indices (chain sha 0 '''' xs) \<rparr>"
  have res: "(r, l') = (case r1 of Inl e \<Rightarrow> (Err e, l1) | Inr _ \<Rightarrow> (case r2 of Inl e \<Rightarrow> (Err e, l1\<lparr> fl_fs := s2 \<rparr>)
     | Inr _ \<Rightarrow> (Ok (), l1\<lparr> fl_fs := s2, fl_mem := ?m \<rparr>)))"
    using a 1 2 v by (cases r1; cases r2) (auto simp: file_restore_snapshot_def ebind_eval on_fs_def o1)
  then show "opens_as sha (fl_fs l') ?p (file_view sha l) \<or> opens_as sha (fl_fs l') ?p xs"
    using old s2 by (auto split: sum.splits)
  show "r = Ok () \<Longrightarrow> file_ok sha l' \<and> file_view sha l' = xs \<and> fl_mem l' = ?m"
    using res w(2) p o1 file_okI [of l' sha xs "''''"] log_ok_chain [OF v(2), of sha] by (auto split: sum.splits)
qed

end
