(* ===== verification/Sync_Checkpoint.thy ===== *)
theory Sync_Checkpoint
  imports Sync_Durable
begin

text \<open>
  The per-peer checkpoints of \<open>appcore-sync\<close> (\<open>sync/checkpoint.rs\<close>): the trait
  \<open>SyncCheckpointStore\<close> as a record of methods over a state, the store in memory and the store in a
  file with one line \<open>peer=sequence,hash\<close> per peer. The interface \<open>checkpoint_store\<close> says what the
  receiver relies on; both stores keep it, the file store under every sequence of I/O faults.
\<close>

section \<open>The trait\<close>

type_synonym checkpoint = "u64 \<times> string"

record 's checkpoint_ops =
  co_get_checkpoint :: "string \<Rightarrow> ('s, sync_error, checkpoint option) eff"
  co_set_checkpoint :: "string \<Rightarrow> u64 \<Rightarrow> string \<Rightarrow> ('s, sync_error, unit) eff"

definition get_last_sequence :: "'s checkpoint_ops \<Rightarrow> string \<Rightarrow> ('s, sync_error, u64) eff" where
  "get_last_sequence ops peer_id =
     ebind (co_get_checkpoint ops peer_id) (\<lambda>c. eret (case c of Some (seq, _) \<Rightarrow> seq | None \<Rightarrow> 0))"

definition set_last_sequence :: "'s checkpoint_ops \<Rightarrow> string \<Rightarrow> u64 \<Rightarrow> ('s, sync_error, unit) eff" where
  "set_last_sequence ops peer_id sequence =
     ebind (co_get_checkpoint ops peer_id) (\<lambda>c.
       co_set_checkpoint ops peer_id sequence (case c of Some (_, h) \<Rightarrow> h | None \<Rightarrow> ''''))"

section \<open>Validation\<close>

definition MAX_CHECKPOINT_FILE_BYTES :: nat where "MAX_CHECKPOINT_FILE_BYTES = 8 * 1024 * 1024"
definition MAX_CHECKPOINT_PEER_ID_BYTES :: nat where "MAX_CHECKPOINT_PEER_ID_BYTES = 256"
definition SYNC_CHECKPOINT_FORMAT_V1 :: string where
  "SYNC_CHECKPOINT_FORMAT_V1 = ''# appcore-sync-checkpoint-v1''"

definition peer_id_char :: "char \<Rightarrow> bool" where
  "peer_id_char ch \<longleftrightarrow> is_ascii_alphanumeric ch \<or> ch \<in> {CHR ''.'', CHR ''_'', CHR '':'', CHR ''-''}"

definition validate_peer_id :: "string \<Rightarrow> unit sync_result" where
  "validate_peer_id peer_id =
     (if peer_id = '''' \<or> MAX_CHECKPOINT_PEER_ID_BYTES < length peer_id then Err InvalidPeerId
      else if \<not> list_all peer_id_char peer_id then Err InvalidPeerId else Ok ())"

definition is_ascii_hexdigit :: "char \<Rightarrow> bool" where
  "is_ascii_hexdigit c \<longleftrightarrow> is_ascii_digit c \<or> (97 \<le> byte_of c \<and> byte_of c \<le> 102) \<or> (65 \<le> byte_of c \<and> byte_of c \<le> 70)"

definition validate_checkpoint_hash :: "string \<Rightarrow> unit sync_result" where
  "validate_checkpoint_hash hash =
     (if hash = '''' \<or> length hash = 64 \<and> list_all is_ascii_hexdigit hash then Ok ()
      else Err (ReplicationFailed ''invalid checkpoint hash''))"

section \<open>The store in memory\<close>

type_synonym checkpoint_map = "(string, checkpoint) omap"

definition mem_get_checkpoint :: "string \<Rightarrow> (checkpoint_map, sync_error, checkpoint option) eff" where
  "mem_get_checkpoint peer_id =
     ebind (elift (\<lambda>_. validate_peer_id peer_id)) (\<lambda>_. elift (\<lambda>m. Ok (map_of m peer_id)))"

definition mem_set_checkpoint :: "string \<Rightarrow> u64 \<Rightarrow> string \<Rightarrow> (checkpoint_map, sync_error, unit) eff" where
  "mem_set_checkpoint peer_id sequence hash =
     ebind (elift (\<lambda>_. validate_peer_id peer_id)) (\<lambda>_.
     ebind (elift (\<lambda>_. validate_checkpoint_hash hash)) (\<lambda>_.
     emod (om_put peer_id (sequence, hash))))"

section \<open>The store in a file\<close>

fun parse_checkpoint_lines :: "checkpoint_map \<Rightarrow> string list \<Rightarrow> checkpoint_map sync_result" where
  "parse_checkpoint_lines m [] = Ok m"
| "parse_checkpoint_lines m (line # rest) =
     (if blank_bytes (map byte_of line) then parse_checkpoint_lines m rest
      else case split_once (CHR ''='') line of
        None \<Rightarrow> Err (ReplicationFailed ''invalid checkpoint line'')
      | Some (peer_id, rest_of_line) \<Rightarrow>
          rbind (validate_peer_id peer_id) (\<lambda>_.
          let (sequence_text, hash) = (case split_once (CHR '','') rest_of_line of
                Some (seq_t, h_t) \<Rightarrow> (seq_t, h_t) | None \<Rightarrow> (rest_of_line, ''''))
          in case parse_u64 sequence_text of
               None \<Rightarrow> Err (ReplicationFailed ''invalid checkpoint sequence'')
             | Some sequence \<Rightarrow>
                 rbind (validate_checkpoint_hash hash) (\<lambda>_.
                   parse_checkpoint_lines (om_put peer_id (sequence, hash) m) rest)))"

definition parse_checkpoint_map :: "string \<Rightarrow> checkpoint_map sync_result" where
  "parse_checkpoint_map body = parse_checkpoint_lines [] (rust_lines body)"

definition read_state :: "path \<Rightarrow> (fs, sync_error, checkpoint_map) eff" where
  "read_state p =
     ebind (read_bounded_text p MAX_CHECKPOINT_FILE_BYTES) (\<lambda>contents.
       elift (\<lambda>_. rbind (split_format contents SYNC_CHECKPOINT_FORMAT_V1) parse_checkpoint_map))"

definition checkpoint_line :: "string \<times> checkpoint \<Rightarrow> string" where
  "checkpoint_line e = (case e of (peer_id, sequence, hash) \<Rightarrow>
     peer_id @ ''='' @ u64_string sequence @ '','' @ hash)"

definition checkpoint_text :: "checkpoint_map \<Rightarrow> string" where
  "checkpoint_text m = SYNC_CHECKPOINT_FORMAT_V1 @ [newline] @ concat (map (\<lambda>e. checkpoint_line e @ [newline]) m)"

definition write_map :: "path \<Rightarrow> checkpoint_map \<Rightarrow> (fs, sync_error, unit) eff" where
  "write_map p m = atomic_write p (text_bytes (checkpoint_text m))"

definition file_get_checkpoint :: "path \<Rightarrow> string \<Rightarrow> (fs, sync_error, checkpoint option) eff" where
  "file_get_checkpoint p peer_id =
     ebind (elift (\<lambda>_. validate_peer_id peer_id)) (\<lambda>_.
     ebind (acquire_persistence_lock p) (\<lambda>_.
     ebind (read_state p) (\<lambda>m. eret (map_of m peer_id))))"

definition file_set_checkpoint :: "path \<Rightarrow> string \<Rightarrow> u64 \<Rightarrow> string \<Rightarrow> (fs, sync_error, unit) eff" where
  "file_set_checkpoint p peer_id sequence hash =
     ebind (elift (\<lambda>_. validate_peer_id peer_id)) (\<lambda>_.
     ebind (elift (\<lambda>_. validate_checkpoint_hash hash)) (\<lambda>_.
     ebind (acquire_persistence_lock p) (\<lambda>_.
     ebind (read_state p) (\<lambda>m.
     write_map p (om_put peer_id (sequence, hash) m)))))"

definition file_checkpoint_store_new :: "path \<Rightarrow> (fs, sync_error, unit) eff" where
  "file_checkpoint_store_new p =
     ebind (sync_prepare p) (\<lambda>_.
     ebind (path_exists p) (\<lambda>found.
     ebind (if \<not> found then atomic_write p (text_bytes (SYNC_CHECKPOINT_FORMAT_V1 @ [newline])) else eret ()) (\<lambda>_.
     ebind (read_state p) (\<lambda>_. eret ()))))"

section \<open>What is written parses back\<close>

definition checkpoints_ok :: "checkpoint_map \<Rightarrow> bool" where
  "checkpoints_ok m \<longleftrightarrow> omap_ok m \<and>
     list_all (\<lambda>(p, q, h). validate_peer_id p = Ok () \<and> validate_checkpoint_hash h = Ok ()) m"

lemma peer_id_chars:
  "peer_id_char c \<Longrightarrow> c \<noteq> CHR ''='' \<and> c \<noteq> newline \<and> c \<noteq> carriage_return \<and> byte_of c < 128 \<and> 32 < byte_of c"
  by (auto simp: peer_id_char_def control_chars char_class_defs)

lemma hexdigit_chars:
  "is_ascii_hexdigit c \<Longrightarrow> c \<noteq> newline \<and> c \<noteq> carriage_return \<and> byte_of c < 128"
  by (auto simp: is_ascii_hexdigit_def control_chars char_class_defs)

lemma valid_peer_text:
  assumes "validate_peer_id p = Ok ()"
  shows "p \<noteq> ''''" "CHR ''='' \<notin> set p" "newline \<notin> set p" "carriage_return \<notin> set p" "ascii_text p" "32 < byte_of (hd p)"
  using assms peer_id_chars
  by (auto simp: validate_peer_id_def list_all_iff ascii_text_def split: if_splits)

lemma valid_hash_text:
  assumes "validate_checkpoint_hash h = Ok ()"
  shows "newline \<notin> set h" "carriage_return \<notin> set h" "ascii_text h"
  using assms hexdigit_chars by (auto simp: validate_checkpoint_hash_def list_all_iff ascii_text_def split: if_splits)

lemma checkpoint_line_text:
  assumes "validate_peer_id p = Ok ()" "validate_checkpoint_hash h = Ok ()"
  shows "newline \<notin> set (checkpoint_line (p, q, h))" "carriage_return \<notin> set (checkpoint_line (p, q, h))"
    "\<not> blank_bytes (map byte_of (checkpoint_line (p, q, h)))"
proof -
  note v = valid_peer_text [OF assms(1)] valid_hash_text [OF assms(2)]
  show "newline \<notin> set (checkpoint_line (p, q, h))" "carriage_return \<notin> set (checkpoint_line (p, q, h))"
    using v control_not_in_u64_string [of q] by (auto simp: checkpoint_line_def) (auto simp: control_chars)
  obtain c cs where c: "p = c # cs" using v(1) by (cases p) auto
  then have "32 < byte_of c" "byte_of c < 128" using v by (simp_all add: ascii_text_def)
  then show "\<not> blank_bytes (map byte_of (checkpoint_line (p, q, h)))"
    by (auto simp: checkpoint_line_def c split: list.splits)
qed

lemma parse_checkpoint_line:
  assumes "validate_peer_id p = Ok ()" "validate_checkpoint_hash h = Ok ()"
  shows "parse_checkpoint_lines m (checkpoint_line (p, q, h) # rest) = parse_checkpoint_lines (om_put p (q, h) m) rest"
proof -
  have "split_once (CHR ''='') (checkpoint_line (p, q, h)) = Some (p, u64_string q @ '','' @ h)"
    using valid_peer_text(2) [OF assms(1)] by (simp add: checkpoint_line_def split_once_append)
  moreover have "split_once (CHR '','') (u64_string q @ '','' @ h) = Some (u64_string q, h)"
    using control_not_in_u64_string(4) [of q] by (simp add: split_once_append)
  ultimately show ?thesis using checkpoint_line_text(3) [OF assms] assms by simp
qed

lemma om_put_last: "omap_ok m \<Longrightarrow> \<forall>k'\<in>fst ` set m. k' < k \<Longrightarrow> om_put k v m = m @ [(k, v)]"
proof (induction m)
  case (Cons e m)
  then show ?case by (cases e) (auto simp: omap_ok_Cons)
qed simp

lemma omap_ok_append: "omap_ok (m @ m') \<longleftrightarrow> omap_ok m \<and> omap_ok m' \<and> (\<forall>k\<in>fst ` set m. \<forall>k'\<in>fst ` set m'. k < k')"
  by (auto simp: omap_ok_def sorted_wrt_append)

lemma parse_checkpoint_lines_all:
  "checkpoints_ok (m @ m') \<Longrightarrow> parse_checkpoint_lines m (map checkpoint_line m') = Ok (m @ m')"
proof (induction m' arbitrary: m)
  case (Cons e m')
  obtain p q h where e: "e = (p, q, h)" by (cases e)
  have v: "validate_peer_id p = Ok ()" "validate_checkpoint_hash h = Ok ()"
    using Cons.prems by (auto simp: checkpoints_ok_def e)
  have "om_put p (q, h) m = m @ [e]"
    using Cons.prems unfolding e by (intro om_put_last) (auto simp: checkpoints_ok_def omap_ok_append)
  then show ?case using Cons.IH [of "m @ [e]"] Cons.prems parse_checkpoint_line [OF v, of m q] by (simp add: e)
qed simp

lemma rust_lines_checkpoints:
  "list_all (\<lambda>(p, q, h). validate_peer_id p = Ok () \<and> validate_checkpoint_hash h = Ok ()) m \<Longrightarrow>
   rust_lines (concat (map (\<lambda>e. checkpoint_line e @ [newline]) m)) = map checkpoint_line m"
proof (induction m)
  case (Cons e m)
  obtain p q h where e: "e = (p, q, h)" by (cases e)
  from Cons show ?case using checkpoint_line_text [of p h q] by (simp add: e rust_lines_line)
qed simp

lemma parse_checkpoint_text:
  assumes "checkpoints_ok m"
  shows "rbind (split_format (checkpoint_text m) SYNC_CHECKPOINT_FORMAT_V1) parse_checkpoint_map = Ok m"
  using assms parse_checkpoint_lines_all [of "[]" m] rust_lines_checkpoints [of m]
  by (simp add: split_format_def checkpoint_text_def parse_checkpoint_map_def checkpoints_ok_def)

lemma set_om_put: "set (om_put k v m) \<subseteq> insert (k, v) (set m)"
  by (induction k v m rule: om_put.induct) (auto split: if_splits)

lemma checkpoints_ok_put:
  assumes "checkpoints_ok m" "validate_peer_id p = Ok ()" "validate_checkpoint_hash h = Ok ()"
  shows "checkpoints_ok (om_put p (q, h) m)"
  using assms set_om_put [of p "(q, h)" m] by (fastforce simp: checkpoints_ok_def list_all_iff)

section \<open>The interface\<close>

text \<open>
  A read that answers tells the checkpoint; a write that succeeds stores it, and one that fails
  stored it or changed nothing. Other peers are never touched.
\<close>

locale checkpoint_store =
  fixes ops :: "'s checkpoint_ops" and inv :: "'s \<Rightarrow> bool" and cview :: "'s \<Rightarrow> string \<Rightarrow> checkpoint option"
  assumes get_keeps: "inv s \<Longrightarrow> co_get_checkpoint ops p s = (r, s') \<Longrightarrow> inv s' \<and> cview s' = cview s"
    and get_true: "inv s \<Longrightarrow> co_get_checkpoint ops p s = (Ok c, s') \<Longrightarrow> c = cview s p"
    and set_cases: "inv s \<Longrightarrow> co_set_checkpoint ops p q h s = (a, s') \<Longrightarrow> inv s' \<and>
      (cview s' = cview s \<or> cview s' = (cview s)(p \<mapsto> (q, h)))"
    and set_done: "inv s \<Longrightarrow> co_set_checkpoint ops p q h s = (Ok u, s') \<Longrightarrow> cview s' = (cview s)(p \<mapsto> (q, h))"
begin

definition last_of :: "'s \<Rightarrow> string \<Rightarrow> u64" where
  "last_of s p = (case cview s p of Some (q, _) \<Rightarrow> q | None \<Rightarrow> 0)"

lemma get_last_cases:
  assumes "inv s" "get_last_sequence ops p s = (r, s')"
  shows "inv s' \<and> cview s' = cview s" "r = Ok q \<Longrightarrow> q = last_of s p"
proof -
  obtain r1 s1 where 1: "co_get_checkpoint ops p s = (r1, s1)" by (cases "co_get_checkpoint ops p s")
  then have s: "s' = s1" and r: "r = Ok q \<Longrightarrow> \<exists>c. r1 = Ok c \<and> q = (case c of Some (seq, _) \<Rightarrow> seq | None \<Rightarrow> 0)"
    using assms(2) by (cases r1; auto simp: get_last_sequence_def ebind_eval)+
  from get_keeps [OF assms(1) 1] s show "inv s' \<and> cview s' = cview s" by simp
  show "r = Ok q \<Longrightarrow> q = last_of s p"
    using r get_true [OF assms(1)] 1 by (fastforce simp: last_of_def)
qed

lemma set_last_keeps_hash:
  assumes "inv s" "set_last_sequence ops p q s = (Ok u, s')"
  shows "cview s' = (cview s)(p \<mapsto> (q, case cview s p of Some (_, h) \<Rightarrow> h | None \<Rightarrow> ''''))"
proof -
  obtain c s1 where 1: "co_get_checkpoint ops p s = (Ok c, s1)"
    and 2: "co_set_checkpoint ops p q (case c of Some (_, h) \<Rightarrow> h | None \<Rightarrow> '''') s1 = (Ok u, s')"
    using assms(2) by (auto simp: set_last_sequence_def ebind_Ok_iff)
  from get_keeps [OF assms(1) 1] get_true [OF assms(1) 1] set_done [OF _ 2] show ?thesis by simp
qed

end

definition mem_checkpoint_ops :: "checkpoint_map checkpoint_ops" where
  "mem_checkpoint_ops = \<lparr> co_get_checkpoint = mem_get_checkpoint, co_set_checkpoint = mem_set_checkpoint \<rparr>"

interpretation mem_checkpoints: checkpoint_store mem_checkpoint_ops checkpoints_ok map_of
proof
  fix m :: checkpoint_map and p q h
  assume m: "checkpoints_ok m"
  show "co_get_checkpoint mem_checkpoint_ops p m = (r, m') \<Longrightarrow> checkpoints_ok m' \<and> map_of m' = map_of m" for r m'
    using m by (auto simp: mem_checkpoint_ops_def mem_get_checkpoint_def ebind_eval split: sum.splits)
  show "co_get_checkpoint mem_checkpoint_ops p m = (Ok c, m') \<Longrightarrow> c = map_of m p" for c m'
    by (auto simp: mem_checkpoint_ops_def mem_get_checkpoint_def ebind_Ok_iff)
  have set_eval: "co_set_checkpoint mem_checkpoint_ops p q h m = (case validate_peer_id p of Inl e \<Rightarrow> (Err e, m)
     | Inr _ \<Rightarrow> (case validate_checkpoint_hash h of Inl e \<Rightarrow> (Err e, m) | Inr _ \<Rightarrow> (Ok (), om_put p (q, h) m)))"
    by (auto simp: mem_checkpoint_ops_def mem_set_checkpoint_def ebind_eval split: sum.splits)
  have put: "map_of (om_put p (q, h) m) = (map_of m)(p \<mapsto> (q, h))"
    using m by (simp add: checkpoints_ok_def)
  show "co_set_checkpoint mem_checkpoint_ops p q h m = (r, m') \<Longrightarrow> checkpoints_ok m' \<and>
      (map_of m' = map_of m \<or> map_of m' = (map_of m)(p \<mapsto> (q, h)))" for r m'
    using set_eval m put checkpoints_ok_put [OF m, of p h q] by (auto split: sum.splits)
  show "co_set_checkpoint mem_checkpoint_ops p q h m = (Ok u, m') \<Longrightarrow> map_of m' = (map_of m)(p \<mapsto> (q, h))" for u m'
    using set_eval put by (auto split: sum.splits)
qed


section \<open>The file store keeps the interface\<close>

definition checkpoint_view :: "path \<Rightarrow> fs \<Rightarrow> string \<Rightarrow> checkpoint option" where
  "checkpoint_view p s = (case fs_nodes s p of
     Some (FileNode bs) \<Rightarrow>
       (case rbind (split_format (bytes_text bs) SYNC_CHECKPOINT_FORMAT_V1) parse_checkpoint_map of
          Inr m \<Rightarrow> map_of m | Inl _ \<Rightarrow> Map.empty)
   | _ \<Rightarrow> Map.empty)"

definition checkpoint_file_ok :: "path \<Rightarrow> fs \<Rightarrow> bool" where
  "checkpoint_file_ok p s \<longleftrightarrow> p \<noteq> [] \<and>
     (\<exists>m. checkpoints_ok m \<and> fs_nodes s p = Some (FileNode (text_bytes (checkpoint_text m))))"

lemma checkpoint_view_text:
  "checkpoints_ok m \<Longrightarrow> fs_nodes s p = Some (FileNode (text_bytes (checkpoint_text m))) \<Longrightarrow> checkpoint_view p s = map_of m"
  by (simp add: checkpoint_view_def parse_checkpoint_text)

lemma checkpoint_file_cong:
  "fs_nodes s p = fs_nodes s' p \<Longrightarrow> checkpoint_file_ok p s = checkpoint_file_ok p s' \<and> checkpoint_view p s = checkpoint_view p s'"
  by (simp add: checkpoint_file_ok_def checkpoint_view_def)

lemma read_state_cases:
  assumes "read_state p s = (r, s')"
  shows "fs_nodes s' = fs_nodes s"
    and "r = Ok m \<Longrightarrow> checkpoints_ok m' \<Longrightarrow> fs_nodes s p = Some (FileNode (text_bytes (checkpoint_text m'))) \<Longrightarrow> m = m'"
proof -
  obtain r1 s1 where 1: "read_bounded_text p MAX_CHECKPOINT_FILE_BYTES s = (r1, s1)"
    by (cases "read_bounded_text p MAX_CHECKPOINT_FILE_BYTES s")
  then have "s' = s1" using assms by (cases r1) (auto simp: read_state_def ebind_eval)
  with inspectsD [OF read_bounded_text_inspects 1] show "fs_nodes s' = fs_nodes s" by simp
  assume m: "r = Ok m" "checkpoints_ok m'" "fs_nodes s p = Some (FileNode (text_bytes (checkpoint_text m')))"
  then obtain t where t: "r1 = Ok t" using assms 1 by (cases r1) (auto simp: read_state_def ebind_eval)
  with 1 m(3) read_bounded_text_Ok [of p MAX_CHECKPOINT_FILE_BYTES s t s1] have "t = checkpoint_text m'" by auto
  with assms m 1 t show "m = m'" by (simp add: read_state_def ebind_eval parse_checkpoint_text)
qed

lemma file_get_cases:
  assumes "checkpoint_file_ok p s" "file_get_checkpoint p peer s = (r, s')"
  shows "checkpoint_file_ok p s' \<and> checkpoint_view p s' = checkpoint_view p s"
    and "r = Ok c \<Longrightarrow> c = checkpoint_view p s peer"
proof -
  obtain m where m: "p \<noteq> []" "checkpoints_ok m" "fs_nodes s p = Some (FileNode (text_bytes (checkpoint_text m)))"
    using assms(1) by (auto simp: checkpoint_file_ok_def)
  obtain r1 s1 where 1: "acquire_persistence_lock p s = (r1, s1)" by (cases "acquire_persistence_lock p s")
  have n1: "fs_nodes s1 p = fs_nodes s p" by (rule acquire_lock_nodes [OF 1 m(1)])
  obtain r2 s2 where 2: "read_state p s1 = (r2, s2)" by (cases "read_state p s1")
  note rs = read_state_cases [OF 2]
  have "s' \<in> {s, s1, s2} \<and> (r = Ok c \<longrightarrow> (\<exists>m. r2 = Ok m \<and> c = map_of m peer))"
    using assms(2) 1 2
    by (cases "validate_peer_id peer"; cases r1; cases r2) (auto simp: file_get_checkpoint_def ebind_eval)
  then show "checkpoint_file_ok p s' \<and> checkpoint_view p s' = checkpoint_view p s"
    "r = Ok c \<Longrightarrow> c = checkpoint_view p s peer"
    using n1 rs assms(1) checkpoint_file_cong [of s' p s] m checkpoint_view_text by auto
qed

lemma file_set_cases:
  assumes "checkpoint_file_ok p s" "file_set_checkpoint p peer q h s = (r, s')"
  shows "checkpoint_file_ok p s' \<and> (checkpoint_view p s' = checkpoint_view p s \<or>
      checkpoint_view p s' = (checkpoint_view p s)(peer \<mapsto> (q, h)))"
    and "r = Ok u \<Longrightarrow> checkpoint_view p s' = (checkpoint_view p s)(peer \<mapsto> (q, h))"
proof -
  obtain m where m: "p \<noteq> []" "checkpoints_ok m" "fs_nodes s p = Some (FileNode (text_bytes (checkpoint_text m)))"
    using assms(1) by (auto simp: checkpoint_file_ok_def)
  obtain r1 s1 where 1: "acquire_persistence_lock p s = (r1, s1)" by (cases "acquire_persistence_lock p s")
  have n1: "fs_nodes s1 p = fs_nodes s p" by (rule acquire_lock_nodes [OF 1 m(1)])
  obtain r2 s2 where 2: "read_state p s1 = (r2, s2)" by (cases "read_state p s1")
  note rs = read_state_cases [OF 2]
  let ?m = "om_put peer (q, h) m"
  obtain r3 s3 where 3: "write_map p ?m s2 = (r3, s3)" by (cases "write_map p ?m s2")
  note w = atomic_write_nodes [OF 3 [unfolded write_map_def] m(1)]
  let ?valid = "validate_peer_id peer = Ok () \<and> validate_checkpoint_hash h = Ok ()"
  have new: "checkpoint_file_ok p s3 \<and> checkpoint_view p s3 = (checkpoint_view p s)(peer \<mapsto> (q, h))"
    if "fs_nodes s3 p = Some (FileNode (text_bytes (checkpoint_text ?m)))" ?valid
    using that checkpoints_ok_put [OF m(2), of peer h q] checkpoint_view_text [OF m(2,3)] m
      checkpoint_view_text [of ?m s3 p] by (auto simp: checkpoint_file_ok_def checkpoints_ok_def)
  have "(s' \<in> {s, s1, s2} \<and> (\<forall>u. r \<noteq> Ok u)) \<or> (s' = s3 \<and> r = r3 \<and> ?valid)"
    using assms(2) 1 2 3 n1 rs(2) [of m m] rs(2) [of _ m] m
    by (cases "validate_peer_id peer"; cases "validate_checkpoint_hash h"; cases r1; cases r2)
      (auto simp: file_set_checkpoint_def ebind_eval)
  then have "checkpoint_file_ok p s' \<and> (checkpoint_view p s' = checkpoint_view p s \<or>
      checkpoint_view p s' = (checkpoint_view p s)(peer \<mapsto> (q, h))) \<and>
    (r = Ok u \<longrightarrow> checkpoint_view p s' = (checkpoint_view p s)(peer \<mapsto> (q, h)))"
  proof
    assume "s' \<in> {s, s1, s2} \<and> (\<forall>u. r \<noteq> Ok u)"
    then show ?thesis using n1 rs(1) assms(1) checkpoint_file_cong [of s' p s] by auto
  next
    assume s: "s' = s3 \<and> r = r3 \<and> ?valid"
    consider "fs_nodes s3 p = fs_nodes s p" "r3 \<noteq> Ok ()" | "fs_nodes s3 p = Some (FileNode (text_bytes (checkpoint_text ?m)))"
      using w(1,2) n1 rs(1) by (cases "r3 = Ok ()") auto
    then show ?thesis using s new assms(1) checkpoint_file_cong [of s3 p s] by cases auto
  qed
  then show "checkpoint_file_ok p s' \<and> (checkpoint_view p s' = checkpoint_view p s \<or>
      checkpoint_view p s' = (checkpoint_view p s)(peer \<mapsto> (q, h)))"
    "r = Ok u \<Longrightarrow> checkpoint_view p s' = (checkpoint_view p s)(peer \<mapsto> (q, h))" by auto
qed

definition file_checkpoint_ops :: "path \<Rightarrow> fs checkpoint_ops" where
  "file_checkpoint_ops p = \<lparr> co_get_checkpoint = file_get_checkpoint p, co_set_checkpoint = file_set_checkpoint p \<rparr>"

interpretation file_checkpoints: checkpoint_store "file_checkpoint_ops p" "checkpoint_file_ok p" "checkpoint_view p"
  by unfold_locales (auto simp: file_checkpoint_ops_def dest: file_get_cases file_set_cases)

text \<open>
  A store that opens is ready; a new one knows no peer. Where the file exists this needs that the check of
  its existence is answered: when it fails the code writes an empty map over the file. The size of the map is checked when it is
  read and not when it is written: a map whose text is longer than the limit is written, and from
  then on every read of the file is refused.
\<close>

lemma file_checkpoint_store_new_ok:
  assumes n: "file_checkpoint_store_new p s = (Ok (), s')" and p: "p \<noteq> []"
    "fs_nodes s p = None \<or> checkpoint_file_ok p s \<and> stat_answers (sync_prepare p) s"
  shows "checkpoint_file_ok p s'" "checkpoint_view p s' = checkpoint_view p s"
proof -
  obtain s1 found s2 s3 m where 1: "sync_prepare p s = (Ok (), s1)" and 2: "path_exists p s1 = (Ok found :: sync_error + bool, s2)"
    and 3: "(if \<not> found then atomic_write p (text_bytes (SYNC_CHECKPOINT_FORMAT_V1 @ [newline])) else eret ()) s2 = (Ok (), s3)"
    and 4: "read_state p s3 = (Ok m, s')"
    using n unfolding file_checkpoint_store_new_def ebind_Ok_iff by (elim exE conjE) (rule that, simp_all)
  have n2: "fs_nodes s2 p = fs_nodes s p"
    using sync_prepare_nodes [OF 1 p(1)] path_exists_Ok(1) [OF 2] by simp
  have found: "found = (fs_nodes s p \<noteq> None)"
    using p(2) path_exists_answered [of "sync_prepare p" s, OF 1 2] path_exists_Ok(1,3) [OF 2] n2 by (cases found) auto
  have n4: "fs_nodes s' p = fs_nodes s3 p" using read_state_cases(1) [OF 4] by simp
  have "checkpoint_file_ok p s' \<and> checkpoint_view p s' = checkpoint_view p s"
  proof (cases "fs_nodes s p = None")
    case True
    then have "fs_nodes s' p = Some (FileNode (text_bytes (checkpoint_text [])))"
      using 3 found n2 n4 atomic_write_nodes(2) [OF _ p(1), of _ s2 "Ok ()" s3] by (simp add: checkpoint_text_def)
    moreover have "checkpoints_ok []" by (simp add: checkpoints_ok_def)
    moreover have "checkpoint_view p s = Map.empty" using True by (simp add: checkpoint_view_def)
    ultimately show ?thesis using checkpoint_view_text [of "[]" s' p] p(1) by (auto simp: checkpoint_file_ok_def)
  next
    case False
    then have "fs_nodes s' p = fs_nodes s p" using 3 found n2 n4 by auto
    then show ?thesis using p(2) False checkpoint_file_cong [of s' p s] by auto
  qed
  then show "checkpoint_file_ok p s'" "checkpoint_view p s' = checkpoint_view p s" by auto
qed

lemma read_oversized_fails:
  assumes "fs_nodes s p = Some (FileNode (text_bytes (checkpoint_text m)))"
    "MAX_CHECKPOINT_FILE_BYTES < length (checkpoint_text m)" "read_state p s = (r, s')"
  shows "\<exists>e. r = Err e"
proof (cases r)
  case (Inr m')
  then obtain t where "read_bounded_text p MAX_CHECKPOINT_FILE_BYTES s = (Ok t, s')"
    using assms(3) by (auto simp: read_state_def ebind_Ok_iff)
  from read_bounded_text_Ok [OF this] show ?thesis using assms(1,2) by (simp add: text_bytes_def)
qed simp

end
