(* ===== verification/Identity.thy ===== *)
theory Identity
  imports Identifiers
begin

text \<open>
  Runtime and Core identities and their compatibility (\<open>appcore-types\<close>, \<open>identity.rs\<close>). The
  identifier newtypes are the strings they wrap. Compatibility is an equivalence on the fields
  that it compares, which is what peers rely on when each checks the other.
\<close>

datatype compatibility_status =
  Compatible | DifferentAppId | DifferentAppFamily | DifferentSyncGroup | DifferentRuntimeContract

record runtime_identity =
  ri_app_id :: string
  ri_app_family :: string
  ri_sync_group :: string
  ri_runtime_contract :: u16
  ri_node_id :: string

record core_identity =
  ci_tenant_id :: string
  ci_cluster_id :: string
  ci_core_id :: string
  ci_instance_id :: string
  ci_kind :: string
  ci_protocol_version :: u16
  ci_runtime :: runtime_identity

datatype core_compatibility_status =
  Core_Compatible | DifferentTenant | DifferentCluster | IncompatibleProtocolVersion
  | IncompatibleRuntime compatibility_status | MissingCapability string

record core_compatibility_policy =
  cp_require_same_cluster :: bool
  cp_required_capability :: "string option"

definition core_compatibility_policy_default :: core_compatibility_policy where
  "core_compatibility_policy_default = \<lparr> cp_require_same_cluster = True, cp_required_capability = None \<rparr>"

definition core_kind_new :: "string \<Rightarrow> identifier_error + string" where
  "core_kind_new v = rbind (validate_identifier v) (\<lambda>_. Ok v)"

definition core_kind_operational :: string where
  "core_kind_operational = ''operational''"

definition check_runtime_compatibility :: "runtime_identity \<Rightarrow> runtime_identity \<Rightarrow> compatibility_status" where
  "check_runtime_compatibility self other =
     (if ri_app_id self \<noteq> ri_app_id other then DifferentAppId
      else if ri_app_family self \<noteq> ri_app_family other then DifferentAppFamily
      else if ri_sync_group self \<noteq> ri_sync_group other then DifferentSyncGroup
      else if ri_runtime_contract self \<noteq> ri_runtime_contract other then DifferentRuntimeContract
      else Compatible)"

definition ensure_runtime_compatible :: "runtime_identity \<Rightarrow> runtime_identity \<Rightarrow> compatibility_status + unit" where
  "ensure_runtime_compatible self other =
     (let status = check_runtime_compatibility self other
      in if status = Compatible then Ok () else Err status)"

definition from_runtime_defaults :: "runtime_identity \<Rightarrow> identifier_error + core_identity" where
  "from_runtime_defaults r =
     rbind (validate_distributed_identifier (ri_app_id r)) (\<lambda>_.
     rbind (validate_distributed_identifier (ri_sync_group r)) (\<lambda>_.
     rbind (validate_distributed_identifier (ri_node_id r)) (\<lambda>_.
     rbind (validate_distributed_identifier (ri_node_id r)) (\<lambda>_.
     Ok \<lparr> ci_tenant_id = ri_app_id r, ci_cluster_id = ri_sync_group r, ci_core_id = ri_node_id r,
          ci_instance_id = ri_node_id r, ci_kind = core_kind_operational, ci_protocol_version = 1,
          ci_runtime = r \<rparr>))))"

definition check_core_compatibility ::
    "core_identity \<Rightarrow> core_identity \<Rightarrow> core_compatibility_policy \<Rightarrow> string list \<Rightarrow> core_compatibility_status" where
  "check_core_compatibility self other policy other_capabilities =
     (if ci_tenant_id self \<noteq> ci_tenant_id other then DifferentTenant
      else if cp_require_same_cluster policy \<and> ci_cluster_id self \<noteq> ci_cluster_id other then DifferentCluster
      else if ci_protocol_version self \<noteq> ci_protocol_version other then IncompatibleProtocolVersion
      else let runtime_status = check_runtime_compatibility (ci_runtime self) (ci_runtime other)
        in if runtime_status \<noteq> Compatible then IncompatibleRuntime runtime_status
           else case cp_required_capability policy of
               Some required \<Rightarrow>
                 if \<not> list_ex (\<lambda>capability. capability = required) other_capabilities
                 then MissingCapability required else Core_Compatible
             | None \<Rightarrow> Core_Compatible)"

definition ensure_core_compatible ::
    "core_identity \<Rightarrow> core_identity \<Rightarrow> core_compatibility_policy \<Rightarrow> string list \<Rightarrow> core_compatibility_status + unit" where
  "ensure_core_compatible self other policy other_capabilities =
     (case check_core_compatibility self other policy other_capabilities of
        Core_Compatible \<Rightarrow> Ok () | status \<Rightarrow> Err status)"

section \<open>Compatibility is an equivalence\<close>

definition runtime_group :: "runtime_identity \<Rightarrow> string \<times> string \<times> string \<times> u16" where
  "runtime_group r = (ri_app_id r, ri_app_family r, ri_sync_group r, ri_runtime_contract r)"

lemma runtime_compatible_iff [simp]:
  "check_runtime_compatibility a b = Compatible \<longleftrightarrow> runtime_group a = runtime_group b"
  by (auto simp: check_runtime_compatibility_def runtime_group_def)

lemma ensure_runtime_compatible_iff:
  "ensure_runtime_compatible a b = Ok () \<longleftrightarrow> runtime_group a = runtime_group b"
  by (simp add: ensure_runtime_compatible_def Let_def)

definition core_group :: "bool \<Rightarrow> core_identity \<Rightarrow> string \<times> string \<times> u16 \<times> string \<times> string \<times> string \<times> u16" where
  "core_group same_cluster c = (ci_tenant_id c, if same_cluster then ci_cluster_id c else '''', ci_protocol_version c,
     runtime_group (ci_runtime c))"

lemma ensure_core_compatible_iff:
  "ensure_core_compatible a b policy caps = Ok () \<longleftrightarrow>
     core_group (cp_require_same_cluster policy) a = core_group (cp_require_same_cluster policy) b \<and>
     (\<forall>c. cp_required_capability policy = Some c \<longrightarrow> c \<in> set caps)"
  by (auto simp: ensure_core_compatible_def check_core_compatibility_def core_group_def Let_def list_ex_iff
      split: core_compatibility_status.splits option.splits if_splits)

lemma from_runtime_defaults_compatible:
  assumes "from_runtime_defaults r = Ok c" "from_runtime_defaults r' = Ok c'"
  shows "ensure_core_compatible c c' core_compatibility_policy_default caps = Ok () \<longleftrightarrow>
    ensure_runtime_compatible r r' = Ok ()"
  using assms
  by (auto simp: from_runtime_defaults_def rbind_Inr_iff ensure_core_compatible_iff ensure_runtime_compatible_iff
      core_group_def runtime_group_def core_compatibility_policy_default_def)

section \<open>Trace contexts\<close>

text \<open>\<open>trace.rs\<close>: the span a call belongs to, with the Core it came from.\<close>

record trace_context =
  tr_trace_id :: string
  tr_span_id :: string
  tr_parent_span_id :: "string option"
  tr_originating_core_id :: string
  tr_current_core_id :: string
  tr_tenant_id :: string
  tr_command_id :: "string option"

definition trace_context_new :: "string \<Rightarrow> string \<Rightarrow> string \<Rightarrow> string \<Rightarrow> string \<Rightarrow> identifier_error + trace_context" where
  "trace_context_new trace_id span_id originating_core_id current_core_id tenant_id =
     rbind (validate_identifier trace_id) (\<lambda>_.
     rbind (validate_identifier span_id) (\<lambda>_.
     Ok \<lparr> tr_trace_id = trace_id, tr_span_id = span_id, tr_parent_span_id = None,
          tr_originating_core_id = originating_core_id, tr_current_core_id = current_core_id,
          tr_tenant_id = tenant_id, tr_command_id = None \<rparr>))"

definition with_command_id :: "string \<Rightarrow> trace_context \<Rightarrow> identifier_error + trace_context" where
  "with_command_id command_id t = rbind (validate_identifier command_id) (\<lambda>_. Ok (t\<lparr> tr_command_id := Some command_id \<rparr>))"

definition child_span :: "trace_context \<Rightarrow> string \<Rightarrow> string \<Rightarrow> identifier_error + trace_context" where
  "child_span t span_id current_core_id =
     rbind (validate_identifier span_id) (\<lambda>_.
     Ok \<lparr> tr_trace_id = tr_trace_id t, tr_span_id = span_id, tr_parent_span_id = Some (tr_span_id t),
          tr_originating_core_id = tr_originating_core_id t, tr_current_core_id = current_core_id,
          tr_tenant_id = tr_tenant_id t, tr_command_id = tr_command_id t \<rparr>)"

end
