(* ===== verification/Sync_Receiver.thy ===== *)
theory Sync_Receiver
  imports Sync_Checkpoint Identity
begin

text \<open>
  The follower side of replication: batches (\<open>sync/types.rs\<close>), wire envelopes (\<open>sync/wire.rs\<close>) and the
  receiver that applies them (\<open>sync/receiver.rs\<close>). The receiver holds a replication log and a checkpoint
  store behind their traits; here it is a function of the two records of methods, and its lemmas are
  proved once in the locale \<open>sync_receiver\<close> from the two interfaces.
\<close>

section \<open>Batches\<close>

record sync_message =
  sm_batch_id :: string
  sm_source_node_id :: string
  sm_sequence_start :: u64
  sm_sequence_end :: u64
  sm_event_count :: nat
  sm_events_hash :: string
  sm_created_at_ms :: u64
  sm_previous_batch_hash :: "string option"
  sm_events :: "bytes list"

definition write_prefixed :: "bytes \<Rightarrow> bytes" where
  "write_prefixed bs = u32_be (of_nat (length bs)) @ bs"

definition compute_events_hash ::
    "hash_fun \<Rightarrow> string \<Rightarrow> string \<Rightarrow> u64 \<Rightarrow> u64 \<Rightarrow> u64 \<Rightarrow> string option \<Rightarrow> bytes list \<Rightarrow> string" where
  "compute_events_hash sha batch_id source_node_id sequence_start sequence_end created_at_ms previous_batch_hash events =
     bytes_to_hex (sha (
       write_prefixed (text_bytes batch_id) @ write_prefixed (text_bytes source_node_id)
       @ u64_be sequence_start @ u64_be sequence_end @ u64_be created_at_ms
       @ (case previous_batch_hash of Some prev \<Rightarrow> [1] @ write_prefixed (text_bytes prev) | None \<Rightarrow> [0])
       @ concat (map write_prefixed events)))"

definition sync_message_new ::
    "hash_fun \<Rightarrow> string \<Rightarrow> string \<Rightarrow> u64 \<Rightarrow> u64 \<Rightarrow> u64 \<Rightarrow> string option \<Rightarrow> bytes list \<Rightarrow> sync_message" where
  "sync_message_new sha batch_id source_node_id sequence_start sequence_end created_at_ms previous_batch_hash events =
     \<lparr> sm_batch_id = batch_id, sm_source_node_id = source_node_id, sm_sequence_start = sequence_start,
       sm_sequence_end = sequence_end, sm_event_count = length events,
       sm_events_hash = compute_events_hash sha batch_id source_node_id sequence_start sequence_end created_at_ms
         previous_batch_hash events,
       sm_created_at_ms = created_at_ms, sm_previous_batch_hash = previous_batch_hash, sm_events = events \<rparr>"

definition sync_message_new_simple :: "hash_fun \<Rightarrow> string \<Rightarrow> u64 \<Rightarrow> bytes list \<Rightarrow> sync_message" where
  "sync_message_new_simple sha source_node_id sequence events =
     (let batch_id = ''batch-'' @ source_node_id @ ''-'' @ u64_string sequence;
          sequence_end = (if length events > 0
            then sat_add sequence (sat_sub (of_nat (length events)) 1) else sequence)
      in sync_message_new sha batch_id source_node_id sequence sequence_end 0 None events)"

section \<open>The receiver\<close>

definition DEFAULT_MAX_EVENTS :: nat where "DEFAULT_MAX_EVENTS = 10000"
definition MAX_PROCESSED_BATCHES :: nat where "MAX_PROCESSED_BATCHES = 10000"

record processed_batches =
  pb_set :: "string set"
  pb_queue :: "string list"

record ('l, 'c) receiver =
  rcv_log :: 'l
  rcv_checkpoints :: 'c
  rcv_processed :: processed_batches
  rcv_local_identity :: "core_identity option"

definition receiver_new :: "'l \<Rightarrow> 'c \<Rightarrow> ('l, 'c) receiver" where
  "receiver_new log checkpoints = \<lparr> rcv_log = log, rcv_checkpoints = checkpoints,
     rcv_processed = \<lparr> pb_set = {}, pb_queue = [] \<rparr>, rcv_local_identity = None \<rparr>"

definition with_local_identity :: "core_identity \<Rightarrow> ('l, 'c) receiver \<Rightarrow> ('l, 'c) receiver" where
  "with_local_identity i r = r\<lparr> rcv_local_identity := Some i \<rparr>"

record sync_receive_ack =
  ack_accepted :: bool
  ack_received :: nat
  ack_skipped :: nat
  ack_last_sequence :: u64

definition on_log :: "('l, 'e, 'a) eff \<Rightarrow> (('l, 'c) receiver, 'e, 'a) eff" where
  "on_log m r = (case m (rcv_log r) of (x, l) \<Rightarrow> (x, r\<lparr> rcv_log := l \<rparr>))"

definition on_checkpoints :: "('c, 'e, 'a) eff \<Rightarrow> (('l, 'c) receiver, 'e, 'a) eff" where
  "on_checkpoints m r = (case m (rcv_checkpoints r) of (x, c) \<Rightarrow> (x, r\<lparr> rcv_checkpoints := c \<rparr>))"

fun validate_sizes :: "bytes list \<Rightarrow> unit sync_result" where
  "validate_sizes [] = Ok ()"
| "validate_sizes (event # rest) = rbind (validate_record_size event) (\<lambda>_. validate_sizes rest)"

text \<open>
  \<open>usize\<close> is 64 bits wide on the supported targets, so \<open>u64::try_from\<close> of a length or an index
  succeeds.
\<close>

definition validate_message :: "hash_fun \<Rightarrow> processed_batches \<Rightarrow> sync_message \<Rightarrow> unit sync_result" where
  "validate_message sha processed m =
     (if sm_sequence_start m = 0 then Err (InvalidSequence (sm_sequence_start m))
      else if sm_events m = [] \<or> sm_event_count m = 0 then Err (InvalidSyncMessage ''empty batch events'')
      else if sm_event_count m \<noteq> length (sm_events m) then Err (InvalidSyncMessage ''event count mismatch'')
      else if DEFAULT_MAX_EVENTS < length (sm_events m)
      then Err (TooManyEvents (length (sm_events m)) DEFAULT_MAX_EVENTS)
      else rbind (validate_sizes (sm_events m)) (\<lambda>_.
        if sm_sequence_end m < sm_sequence_start m then Err (InvalidSyncMessage ''invalid sequence range'')
        else case checked_add (sm_sequence_start m) (sat_sub (of_nat (sm_event_count m)) 1) of
            None \<Rightarrow> Err (InvalidSyncMessage ''sequence range overflow'')
          | Some expected_end \<Rightarrow>
              if sm_sequence_end m \<noteq> expected_end then Err (InvalidSyncMessage ''inconsistent sequence range'')
              else if compute_events_hash sha (sm_batch_id m) (sm_source_node_id m) (sm_sequence_start m)
                   (sm_sequence_end m) (sm_created_at_ms m) (sm_previous_batch_hash m) (sm_events m) \<noteq> sm_events_hash m
              then Err (InvalidSyncMessage ''invalid events hash'')
              else if sm_batch_id m \<in> pb_set processed then Err (InvalidSyncMessage ''duplicate batch_id'')
              else Ok ()))"

fun append_events_loop ::
    "'l log_ops \<Rightarrow> u64 \<Rightarrow> u64 \<Rightarrow> nat \<Rightarrow> nat \<times> nat \<Rightarrow> bytes list \<Rightarrow> ('l, sync_error, nat \<times> nat) eff" where
  "append_events_loop lops start last_sequence index (received, skipped) [] = eret (received, skipped)"
| "append_events_loop lops start last_sequence index (received, skipped) (event # rest) =
     (case checked_add start (of_nat index) of
        None \<Rightarrow> efail (InvalidSyncMessage ''sequence range overflow'')
      | Some seq \<Rightarrow>
          ebind (lo_event_at_sequence lops seq) (\<lambda>found. case found of
            Some existing \<Rightarrow>
              if existing = event
              then append_events_loop lops start last_sequence (index + 1) (received, skipped + 1) rest
              else efail (SequenceConflict seq)
          | None \<Rightarrow>
              if seq \<le> last_sequence then efail (InvalidSequence seq)
              else ebind (lo_append_with_sequence lops event seq) (\<lambda>_.
                append_events_loop lops start last_sequence (index + 1) (received + 1, skipped) rest)))"

definition append_events_to_log ::
    "'l log_ops \<Rightarrow> 'c checkpoint_ops \<Rightarrow> sync_message \<Rightarrow> string \<Rightarrow> u64 \<Rightarrow> (('l, 'c) receiver, sync_error, nat \<times> nat) eff" where
  "append_events_to_log lops cops m peer_id last_sequence =
     ebind (on_log (append_events_loop lops (sm_sequence_start m) last_sequence 0 (0, 0) (sm_events m))) (\<lambda>counts.
     ebind (on_checkpoints (co_set_checkpoint cops peer_id (sm_sequence_end m) (sm_events_hash m))) (\<lambda>_.
     eret counts))"

definition record_processed_batch :: "string \<Rightarrow> processed_batches \<Rightarrow> processed_batches" where
  "record_processed_batch batch_id p =
     (let s = insert batch_id (pb_set p); q = pb_queue p @ [batch_id]
      in if MAX_PROCESSED_BATCHES < card s
         then (case q of oldest # rest \<Rightarrow> \<lparr> pb_set = s - {oldest}, pb_queue = rest \<rparr>
                       | [] \<Rightarrow> \<lparr> pb_set = s, pb_queue = q \<rparr>)
         else \<lparr> pb_set = s, pb_queue = q \<rparr>)"

definition check_previous_hash :: "'c checkpoint_ops \<Rightarrow> sync_message \<Rightarrow> string \<Rightarrow> u64 \<Rightarrow> u64 \<Rightarrow> ('c, sync_error, unit) eff" where
  "check_previous_hash cops m peer_id last_sequence next_sequence =
     (if last_sequence > 0 \<and> sm_sequence_start m = next_sequence
      then ebind (co_get_checkpoint cops peer_id) (\<lambda>c. case c of
          Some (_, stored_hash) \<Rightarrow>
            if stored_hash \<noteq> '''' \<and> (case sm_previous_batch_hash m of Some h \<Rightarrow> h | None \<Rightarrow> '''') \<noteq> stored_hash
            then efail (InvalidSyncMessage ''previous batch hash mismatch'') else eret ()
        | None \<Rightarrow> eret ())
      else eret ())"

definition apply_sync_message ::
    "hash_fun \<Rightarrow> 'l log_ops \<Rightarrow> 'c checkpoint_ops \<Rightarrow> sync_message \<Rightarrow> (('l, 'c) receiver, sync_error, sync_receive_ack) eff" where
  "apply_sync_message sha lops cops m =
     ebind (elift (\<lambda>r. validate_message sha (rcv_processed r) m)) (\<lambda>_.
     let peer_id = sm_source_node_id m in
     ebind (on_checkpoints (get_last_sequence cops peer_id)) (\<lambda>last_sequence.
       if sm_sequence_end m \<le> last_sequence
       then eret \<lparr> ack_accepted = True, ack_received = 0, ack_skipped = length (sm_events m),
              ack_last_sequence = last_sequence \<rparr>
       else case checked_add last_sequence 1 of
           None \<Rightarrow> efail (InvalidSyncMessage ''checkpoint sequence is exhausted'')
         | Some next_sequence \<Rightarrow>
             if next_sequence < sm_sequence_start m then efail (InvalidSequence (sm_sequence_start m))
             else ebind (on_checkpoints (check_previous_hash cops m peer_id last_sequence next_sequence)) (\<lambda>_.
               ebind (append_events_to_log lops cops m peer_id last_sequence) (\<lambda>(received, skipped).
               ebind (emod (\<lambda>r. r\<lparr> rcv_processed := record_processed_batch (sm_batch_id m) (rcv_processed r) \<rparr>)) (\<lambda>_.
               eret \<lparr> ack_accepted = True, ack_received = received, ack_skipped = skipped,
                 ack_last_sequence = sm_sequence_end m \<rparr>)))))"

section \<open>Wire envelopes\<close>

definition SYNC_WIRE_SCHEMA_V1 :: string where "SYNC_WIRE_SCHEMA_V1 = ''appcore.sync.v1''"

record sync_envelope =
  se_schema :: string
  se_source_identity :: core_identity
  se_message :: sync_message

definition envelope_new :: "core_identity \<Rightarrow> sync_message \<Rightarrow> sync_envelope sync_result" where
  "envelope_new source_identity m =
     (if ri_node_id (ci_runtime source_identity) \<noteq> sm_source_node_id m
      then Err (InvalidSyncMessage ''source identity does not match message node'')
      else Ok \<lparr> se_schema = SYNC_WIRE_SCHEMA_V1, se_source_identity = source_identity, se_message = m \<rparr>)"

definition validate_for :: "sync_envelope \<Rightarrow> core_identity \<Rightarrow> unit sync_result" where
  "validate_for e local_identity =
     (if se_schema e \<noteq> SYNC_WIRE_SCHEMA_V1 then Err (InvalidSyncMessage ''unsupported sync wire schema'')
      else if ri_node_id (ci_runtime (se_source_identity e)) \<noteq> sm_source_node_id (se_message e)
      then Err (InvalidSyncMessage ''source identity does not match message node'')
      else map_err (\<lambda>_. IncompatiblePeer)
        (ensure_core_compatible local_identity (se_source_identity e)
          \<lparr> cp_require_same_cluster = True, cp_required_capability = None \<rparr> []))"

text \<open>The JSON codec of \<open>serde_json\<close> is a pair of functions.\<close>

definition encode_sync_envelope_v1 ::
    "(sync_envelope \<Rightarrow> string option) \<Rightarrow> core_identity \<Rightarrow> sync_message \<Rightarrow> string sync_result" where
  "encode_sync_envelope_v1 to_json source_identity m =
     rbind (envelope_new source_identity m) (\<lambda>envelope.
       ok_or (InvalidSyncMessage ''sync wire serialization failed'') (to_json envelope))"

definition decode_sync_envelope :: "(string \<Rightarrow> sync_envelope option) \<Rightarrow> string \<Rightarrow> sync_envelope sync_result" where
  "decode_sync_envelope from_json input =
     (if input = '''' then Err EmptyRequestBody
      else if take 1 (trim_start_bytes (map byte_of input)) \<noteq> [123]
      then Err (InvalidSyncMessage UPDATE_REQUIRED_MESSAGE)
      else case from_json input of
          None \<Rightarrow> Err (InvalidSyncMessage ''invalid sync wire envelope'')
        | Some envelope \<Rightarrow>
            if se_schema envelope \<noteq> SYNC_WIRE_SCHEMA_V1 then Err (InvalidSyncMessage UPDATE_REQUIRED_MESSAGE)
            else if ri_node_id (ci_runtime (se_source_identity envelope)) \<noteq> sm_source_node_id (se_message envelope)
            then Err (InvalidSyncMessage ''source identity does not match message node'')
            else Ok envelope)"

definition decode_sync_message :: "(string \<Rightarrow> sync_envelope option) \<Rightarrow> string \<Rightarrow> sync_message sync_result" where
  "decode_sync_message from_json input =
     rbind (decode_sync_envelope from_json input) (\<lambda>envelope. Ok (se_message envelope))"

definition apply_sync_envelope ::
    "hash_fun \<Rightarrow> 'l log_ops \<Rightarrow> 'c checkpoint_ops \<Rightarrow> sync_envelope \<Rightarrow> (('l, 'c) receiver, sync_error, sync_receive_ack) eff" where
  "apply_sync_envelope sha lops cops envelope =
     ebind (elift (\<lambda>r. ok_or (InvalidSyncMessage ''local sync identity is not configured'') (rcv_local_identity r))) (\<lambda>local_identity.
     ebind (elift (\<lambda>_. validate_for envelope local_identity)) (\<lambda>_.
     apply_sync_message sha lops cops (se_message envelope)))"

section \<open>Validated batches\<close>

text \<open>A validated batch covers its sequence range exactly, without wrapping.\<close>



lemma validate_message_Ok:
  assumes "validate_message sha processed m = Ok ()"
  shows "sm_sequence_start m > 0" "sm_events m \<noteq> []" "length (sm_events m) \<le> DEFAULT_MAX_EVENTS"
    "unat (sm_sequence_end m) + 1 = unat (sm_sequence_start m) + length (sm_events m)"
    "sm_batch_id m \<notin> pb_set processed"
    "sm_events_hash m = compute_events_hash sha (sm_batch_id m) (sm_source_node_id m) (sm_sequence_start m)
       (sm_sequence_end m) (sm_created_at_ms m) (sm_previous_batch_hash m) (sm_events m)"
proof -
  have c: "sm_sequence_start m \<noteq> 0" "sm_events m \<noteq> []" "sm_event_count m = length (sm_events m)"
    "length (sm_events m) \<le> DEFAULT_MAX_EVENTS"
    "checked_add (sm_sequence_start m) (sat_sub (of_nat (sm_event_count m)) 1) = Some (sm_sequence_end m)"
    "sm_batch_id m \<notin> pb_set processed"
    "sm_events_hash m = compute_events_hash sha (sm_batch_id m) (sm_source_node_id m) (sm_sequence_start m)
       (sm_sequence_end m) (sm_created_at_ms m) (sm_previous_batch_hash m) (sm_events m)"
    using assms unfolding validate_message_def by (auto simp: rbind_Inr_iff split: if_splits option.splits)
  then have "unat (of_nat (length (sm_events m)) :: u64) = length (sm_events m)"
    by (simp add: DEFAULT_MAX_EVENTS_def unat_of_nat)
  then have "unat (sat_sub (of_nat (length (sm_events m))) 1 :: u64) = length (sm_events m) - 1"
    by (simp add: unat_sat_sub)
  with c(2,3,5) show "unat (sm_sequence_end m) + 1 = unat (sm_sequence_start m) + length (sm_events m)"
    by (simp add: checked_add_Some_iff)
  show "sm_sequence_start m > 0" using c(1) by (simp add: word_neq_0_conv)
qed (use assms in \<open>auto simp: validate_message_def rbind_Inr_iff split: if_splits option.splits\<close>)

text \<open>A run of the receiver: messages applied one after the other, whatever each returns.\<close>

fun receive_all :: "hash_fun \<Rightarrow> 'l log_ops \<Rightarrow> 'c checkpoint_ops \<Rightarrow> sync_message list \<Rightarrow> ('l, 'c) receiver \<Rightarrow> ('l, 'c) receiver" where
  "receive_all sha lops cops [] r = r"
| "receive_all sha lops cops (m # ms) r = receive_all sha lops cops ms (snd (apply_sync_message sha lops cops m r))"

section \<open>Applying a batch\<close>

locale sync_receiver = log: replication_log lops linv lview + cps: checkpoint_store cops cinv cview
  for lops :: "'l log_ops" and linv :: "'l \<Rightarrow> bool" and lview :: "'l \<Rightarrow> (u64 \<times> bytes) list"
    and cops :: "'c checkpoint_ops" and cinv :: "'c \<Rightarrow> bool" and cview :: "'c \<Rightarrow> string \<Rightarrow> checkpoint option"
begin

lemma append_step:
  assumes "linv l" "lo_append_with_sequence lops v q l = (r, l')" "q > 0"
  shows "linv l'" "prefix (lview l) (lview l')" "set (lview l') \<subseteq> insert (q, v) (set (lview l))"
    "r = Ok n \<Longrightarrow> map_of (lview l') q = Some v"
  using log.append_inv [OF assms(1,3,2)] log.append_there [OF assms(1,3)] assms(2) by auto

lemma loop_ok:
  assumes "linv l" "append_events_loop lops start lst idx cnt es l = (r, l')" "start > 0"
    "unat start + idx + length es \<le> 2 ^ 64"
  shows "linv l' \<and> prefix (lview l) (lview l') \<and>
    set (lview l') \<subseteq> set (lview l) \<union> (\<lambda>i. (start + of_nat (idx + i), es ! i)) ` {..<length es} \<and>
    (\<forall>c. r = Ok c \<longrightarrow> fst c + snd c = fst cnt + snd cnt + length es \<and>
      (\<forall>i<length es. map_of (lview l') (start + of_nat (idx + i)) = Some (es ! i)))"
  using assms
proof (induction es arbitrary: l idx cnt)
  case Nil
  then show ?case by (cases cnt) (auto simp: eret_def)
next
  case (Cons e es)
  obtain rc sk where cnt: "cnt = (rc, sk)" by (cases cnt)
  let ?q = "start + of_nat idx :: u64"
  have no_wrap: "unat start + idx < 2 ^ 64" using Cons.prems(4) by simp
  then have idx: "unat (of_nat idx :: u64) = idx" by (simp add: unat_of_nat)
  have q: "checked_add start (of_nat idx) = Some ?q" "?q > 0"
    using no_wrap idx Cons.prems(3) by (auto simp: checked_add_def word_less_nat_alt unat_word_ariths)
  obtain f l1 where f: "lo_event_at_sequence lops ?q l = (f, l1)" by (cases "lo_event_at_sequence lops ?q l")
  note k = log.lookup_keeps [OF Cons.prems(1) f]
  have step: ?case if rec: "append_events_loop lops start lst (idx + 1) c' es l2 = (r, l')" "linv l2"
      "prefix (lview l) (lview l2)" "set (lview l2) \<subseteq> insert (?q, e) (set (lview l))"
      "map_of (lview l2) ?q = Some e" "fst c' + snd c' = rc + sk + 1" for c' l2
  proof -
    have IH: "linv l' \<and> prefix (lview l2) (lview l') \<and>
      set (lview l') \<subseteq> set (lview l2) \<union> (\<lambda>i. (start + of_nat (idx + 1 + i), es ! i)) ` {..<length es} \<and>
      (\<forall>c. r = Ok c \<longrightarrow> fst c + snd c = fst c' + snd c' + length es \<and>
        (\<forall>i<length es. map_of (lview l') (start + of_nat (idx + 1 + i)) = Some (es ! i)))"
      using rec(1,2) Cons.prems(3,4) by (intro Cons.IH) auto
    have pre: "prefix (lview l) (lview l')" using IH rec(3) by (auto intro: prefix_order.trans)
    have sub: "set (lview l') \<subseteq> set (lview l) \<union> (\<lambda>i. (start + of_nat (idx + i), (e # es) ! i)) ` {..<length (e # es)}"
    proof
      fix x assume "x \<in> set (lview l')"
      then consider "x \<in> set (lview l)" | "x = (?q, e)"
        | i where "i < length es" "x = (start + of_nat (idx + 1 + i), es ! i)"
        using IH rec(4) by blast
      then show "x \<in> set (lview l) \<union> (\<lambda>i. (start + of_nat (idx + i), (e # es) ! i)) ` {..<length (e # es)}"
      proof cases
        case 2
        then show ?thesis by (intro UnI2 image_eqI [of _ _ 0]) auto
      next
        case (3 i)
        then show ?thesis by (intro UnI2 image_eqI [of _ _ "Suc i"]) auto
      qed simp
    qed
    have there: "map_of (lview l') (start + of_nat (idx + i)) = Some ((e # es) ! i)"
      if "r = Ok c" "i < length (e # es)" for c i
    proof (cases i)
      case 0
      then show ?thesis using IH prefix_map_of [OF _ rec(5)] by simp
    next
      case (Suc j)
      then show ?thesis using IH that by (auto simp: ac_simps)
    qed
    show ?thesis using IH pre sub there rec(6) cnt by auto
  qed
  show ?case
  proof (cases f)
    case (Inl err)
    then have "r = Err err" "l' = l1" using Cons.prems(2) q(1) f by (auto simp: cnt ebind_eval)
    with k Cons.prems(1) show ?thesis by auto
  next
    case (Inr found)
    show ?thesis
    proof (cases found)
      case (Some v)
      show ?thesis
      proof (cases "v = e")
        case True
        have "map_of (lview l) ?q = Some e" using log.lookup_true [OF Cons.prems(1)] f Inr Some True by blast
        then show ?thesis using step [of "(rc, sk + 1)" l1] Cons.prems(2) q(1) f Inr Some True k
          by (auto simp: cnt ebind_eval)
      next
        case False
        then have "l' = l1 \<and> (\<exists>e. r = Err e)" using Cons.prems(2) q(1) f Inr Some by (auto simp: cnt ebind_eval)
        with k Cons.prems(1) show ?thesis by auto
      qed
    next
      case None
      show ?thesis
      proof (cases "?q \<le> lst")
        case True
        then have "l' = l1 \<and> (\<exists>e. r = Err e)" using Cons.prems(2) q(1) f Inr None by (auto simp: cnt ebind_eval)
        with k Cons.prems(1) show ?thesis by auto
      next
        case False
        obtain a l2 where a: "lo_append_with_sequence lops e ?q l1 = (a, l2)" by (cases "lo_append_with_sequence lops e ?q l1")
        note s = append_step [OF conjunct1 [OF k] a q(2)]
        show ?thesis
        proof (cases a)
          case (Inl err)
          then have "l' = l2 \<and> (\<exists>e. r = Err e)"
            using Cons.prems(2) q(1) f Inr None False a by (auto simp: cnt ebind_eval)
          moreover have "(?q, e) \<in> (\<lambda>i. (start + of_nat (idx + i), (e # es) ! i)) ` {..<length (e # es)}"
            by (rule image_eqI [of _ _ 0]) auto
          ultimately show ?thesis using s(1-3) k by auto
        next
          case (Inr n)
          then show ?thesis
            using step [of "(rc + 1, sk)" l2] s k Cons.prems(2) q(1) f \<open>f = Inr found\<close> None False a
            by (auto simp: cnt ebind_eval)
        qed
      qed
    qed
  qed
qed

definition rinv :: "('l, 'c) receiver \<Rightarrow> bool" where
  "rinv r \<longleftrightarrow> linv (rcv_log r) \<and> cinv (rcv_checkpoints r)"

definition held :: "('l, 'c) receiver \<Rightarrow> (u64 \<times> bytes) list" where
  "held r = lview (rcv_log r)"

definition reached :: "('l, 'c) receiver \<Rightarrow> string \<Rightarrow> u64" where
  "reached r = cps.last_of (rcv_checkpoints r)"

text \<open>Every sequence up to a peer's checkpoint is in the log.\<close>

definition gap_free :: "('l, 'c) receiver \<Rightarrow> bool" where
  "gap_free r \<longleftrightarrow> (\<forall>p q. 0 < q \<and> q \<le> reached r p \<longrightarrow> map_of (held r) q \<noteq> None)"

definition same_view :: "('l, 'c) receiver \<Rightarrow> ('l, 'c) receiver \<Rightarrow> bool" where
  "same_view r r' \<longleftrightarrow> rinv r' \<and> held r' = held r \<and> reached r' = reached r \<and>
     cview (rcv_checkpoints r') = cview (rcv_checkpoints r)"

lemma get_last_view:
  assumes "rinv r" "on_checkpoints (get_last_sequence cops p) r = (x, r')"
  shows "same_view r r'" "x = Ok q \<Longrightarrow> q = reached r p"
proof -
  obtain c where c: "get_last_sequence cops p (rcv_checkpoints r) = (x, c)" "r' = r\<lparr> rcv_checkpoints := c \<rparr>"
    using assms(2) by (auto simp: on_checkpoints_def split: prod.splits)
  note g = cps.get_last_cases [OF _ c(1)]
  show "same_view r r'" "x = Ok q \<Longrightarrow> q = reached r p"
    using g assms(1) c(2) by (auto simp: same_view_def rinv_def held_def reached_def cps.last_of_def fun_eq_iff)
qed

lemma check_previous_view:
  assumes "rinv r" "on_checkpoints (check_previous_hash cops m p a b) r = (x, r')"
  shows "same_view r r'"
proof -
  obtain c where c: "check_previous_hash cops m p a b (rcv_checkpoints r) = (x, c)" "r' = r\<lparr> rcv_checkpoints := c \<rparr>"
    using assms(2) by (auto simp: on_checkpoints_def split: prod.splits)
  have "c = rcv_checkpoints r \<or> (\<exists>y. co_get_checkpoint cops p (rcv_checkpoints r) = (y, c))"
    using c(1) by (auto simp: check_previous_hash_def ebind_eval eret_def efail_def
        split: if_splits prod.splits sum.splits option.splits)
  then have "cinv c \<and> cview c = cview (rcv_checkpoints r)"
    using assms(1) cps.get_keeps by (auto simp: rinv_def)
  then show ?thesis using assms(1) c(2)
    by (auto simp: same_view_def rinv_def held_def reached_def cps.last_of_def fun_eq_iff)
qed

lemma append_events_view:
  assumes r: "rinv r" and v: "validate_message sha pr m = Ok ()"
    and a: "append_events_to_log lops cops m p lst r = (x, r')"
  shows "rinv r'" "prefix (held r) (held r')"
    "set (held r') \<subseteq> set (held r) \<union> (\<lambda>i. (sm_sequence_start m + of_nat i, sm_events m ! i)) ` {..<length (sm_events m)}"
    "reached r' = reached r \<or> reached r' = (reached r)(p := sm_sequence_end m)"
    "reached r' = reached r \<and> (\<exists>e. x = Err e) \<or>
      (\<forall>i<length (sm_events m). map_of (held r') (sm_sequence_start m + of_nat i) = Some (sm_events m ! i))"
    "x = Ok c \<Longrightarrow> reached r' = (reached r)(p := sm_sequence_end m) \<and> fst c + snd c = length (sm_events m)"
proof -
  note vm = validate_message_Ok [OF v]
  let ?loop = "append_events_loop lops (sm_sequence_start m) lst 0 (0, 0) (sm_events m)"
  obtain x1 l where 1: "?loop (rcv_log r) = (x1, l)" by (cases "?loop (rcv_log r)")
  have "unat (sm_sequence_start m) + 0 + length (sm_events m) \<le> 2 ^ 64"
    using vm(4) unsigned_less [of "sm_sequence_end m", where 'a = nat] by simp
  note lp = loop_ok [OF _ 1 vm(1) this, unfolded add_0]
  have l: "linv (rcv_log r)" "cinv (rcv_checkpoints r)" using r by (auto simp: rinv_def)
  let ?set = "co_set_checkpoint cops p (sm_sequence_end m) (sm_events_hash m)"
  obtain x2 c2 where 2: "?set (rcv_checkpoints r) = (x2, c2)" by (cases "?set (rcv_checkpoints r)")
  have cs: "cinv c2" "cps.last_of c2 = cps.last_of (rcv_checkpoints r) \<or>
      cps.last_of c2 = (cps.last_of (rcv_checkpoints r))(p := sm_sequence_end m)"
    "x2 = Ok u \<Longrightarrow> cps.last_of c2 = (cps.last_of (rcv_checkpoints r))(p := sm_sequence_end m)" for u
    using cps.set_cases [OF l(2) 2] cps.set_done [OF l(2), of p "sm_sequence_end m" "sm_events_hash m"] 2
    by (auto simp: cps.last_of_def fun_eq_iff)
  have st: "(\<exists>e. x = Err e) \<and> r' = r\<lparr> rcv_log := l \<rparr> \<or>
      r' = r\<lparr> rcv_log := l, rcv_checkpoints := c2 \<rparr> \<and> (\<exists>cnt. x1 = Ok cnt \<and> (x = Ok cnt \<and> x2 = Ok () \<or> (\<exists>e. x = Err e)))"
    using a 1 2 by (cases x1; cases x2) (auto simp: append_events_to_log_def on_log_def on_checkpoints_def ebind_eval)
  then show "rinv r'" "prefix (held r) (held r')"
    "set (held r') \<subseteq> set (held r) \<union> (\<lambda>i. (sm_sequence_start m + of_nat i, sm_events m ! i)) ` {..<length (sm_events m)}"
    "reached r' = reached r \<or> reached r' = (reached r)(p := sm_sequence_end m)"
    "reached r' = reached r \<and> (\<exists>e. x = Err e) \<or>
      (\<forall>i<length (sm_events m). map_of (held r') (sm_sequence_start m + of_nat i) = Some (sm_events m ! i))"
    using lp l cs(1,2) by (auto simp: rinv_def held_def reached_def)
  show "x = Ok c \<Longrightarrow> reached r' = (reached r)(p := sm_sequence_end m) \<and> fst c + snd c = length (sm_events m)"
    using st lp l(1) cs(3) by (auto simp: reached_def)
qed

lemma gap_free_prefix: "gap_free r \<Longrightarrow> prefix (held r) (held r') \<Longrightarrow> reached r' = reached r \<Longrightarrow> gap_free r'"
  unfolding gap_free_def using prefix_map_of by (metis not_None_eq)

text \<open>A validated batch that starts no later than the next sequence closes the range up to its end.\<close>

lemma gap_free_batch:
  assumes g: "gap_free r" and v: "validate_message sha pr m = Ok ()" and p: "prefix (held r) (held r')"
    and start: "unat (sm_sequence_start m) \<le> unat (reached r peer) + 1"
    and there: "\<forall>i<length (sm_events m). map_of (held r') (sm_sequence_start m + of_nat i) = Some (sm_events m ! i)"
    and upd: "reached r' = (reached r)(peer := sm_sequence_end m)"
  shows "gap_free r'"
  unfolding gap_free_def
proof (intro allI impI)
  fix p' q
  assume q: "0 < q \<and> q \<le> reached r' p'"
  show "map_of (held r') q \<noteq> None"
  proof (cases "q \<le> reached r p'")
    case True
    then obtain v where "map_of (held r) q = Some v" using g q by (auto simp: gap_free_def)
    then show ?thesis using prefix_map_of [OF p] by simp
  next
    case False
    then have p': "p' = peer" "q \<le> sm_sequence_end m" using q upd by (auto split: if_splits)
    with False start have le: "unat (sm_sequence_start m) \<le> unat q" by (simp add: word_le_nat_alt)
    let ?i = "unat q - unat (sm_sequence_start m)"
    have "?i < length (sm_events m)"
      using validate_message_Ok(2,4) [OF v] p'(2) le
      by (cases "sm_events m") (auto simp: word_le_nat_alt)
    moreover have "sm_sequence_start m + of_nat ?i = q"
      using le by (simp add: of_nat_diff)
    ultimately show ?thesis using there by fastforce
  qed
qed

definition applied :: "('l, 'c) receiver \<Rightarrow> sync_message \<Rightarrow> ('l, 'c) receiver \<Rightarrow> bool" where
  "applied r m r' \<longleftrightarrow> rinv r' \<and> gap_free r' \<and> prefix (held r) (held r') \<and> (\<forall>p. reached r p \<le> reached r' p) \<and>
     set (held r') \<subseteq> set (held r) \<union> (\<lambda>i. (sm_sequence_start m + of_nat i, sm_events m ! i)) ` {..<length (sm_events m)}"

lemma applied_same: "gap_free r \<Longrightarrow> same_view r r' \<Longrightarrow> applied r m r'"
  unfolding applied_def same_view_def by (auto intro: gap_free_prefix)

lemma same_view_trans: "same_view r r' \<Longrightarrow> same_view r' r'' \<Longrightarrow> same_view r r''"
  by (auto simp: same_view_def)

lemma apply_ok:
  assumes r: "rinv r" "gap_free r" and a: "apply_sync_message sha lops cops m r = (x, r')"
  shows "applied r m r'" "x = Ok ack \<Longrightarrow> sm_sequence_end m \<le> reached r' (sm_source_node_id m) \<and>
    ack_last_sequence ack = reached r' (sm_source_node_id m) \<and> ack_received ack + ack_skipped ack = length (sm_events m)"
    "x = Ok ack \<Longrightarrow> reached r (sm_source_node_id m) < sm_sequence_end m \<Longrightarrow> i < length (sm_events m) \<Longrightarrow>
      map_of (held r') (sm_sequence_start m + of_nat i) = Some (sm_events m ! i)"
proof -
  let ?p = "sm_source_node_id m"
  let ?goal = "applied r m r' \<and> (x = Ok ack \<longrightarrow> sm_sequence_end m \<le> reached r' ?p \<and>
    ack_last_sequence ack = reached r' ?p \<and> ack_received ack + ack_skipped ack = length (sm_events m) \<and>
    (reached r ?p < sm_sequence_end m \<longrightarrow> (\<forall>i<length (sm_events m).
      map_of (held r') (sm_sequence_start m + of_nat i) = Some (sm_events m ! i))))"
  have ?goal
  proof (cases "validate_message sha (rcv_processed r) m")
    case (Inl e)
    then have "r' = r" "x = Err e" using a by (auto simp: apply_sync_message_def Let_def ebind_eval)
    then show ?thesis using applied_same [OF r(2), of r m] r(1) by (simp add: same_view_def)
  next
    case (Inr u)
    then have v: "validate_message sha (rcv_processed r) m = Ok ()" by simp
    obtain x1 r1 where 1: "on_checkpoints (get_last_sequence cops ?p) r = (x1, r1)"
      by (cases "on_checkpoints (get_last_sequence cops ?p) r")
    note g = get_last_view [OF r(1) 1]
    show ?thesis
    proof (cases x1)
      case (Inl e)
      then have "r' = r1" "x = Err e" using a v 1 by (auto simp: apply_sync_message_def Let_def ebind_eval)
      then show ?thesis using applied_same [OF r(2) g(1)] by simp
    next
      case (Inr lst)
      with g have lst: "lst = reached r ?p" by simp
      show ?thesis
      proof (cases "sm_sequence_end m \<le> lst")
        case True
        then have "r' = r1" "x = Ok \<lparr> ack_accepted = True, ack_received = 0, ack_skipped = length (sm_events m),
            ack_last_sequence = lst \<rparr>" using a v 1 Inr by (auto simp: apply_sync_message_def Let_def ebind_eval)
        then show ?thesis using applied_same [OF r(2) g(1)] True lst g(1) by (auto simp: same_view_def)
      next
        case new: False
        let ?check = "on_checkpoints (check_previous_hash cops m ?p lst (lst + 1))"
        obtain x2 r2 where 2: "?check r1 = (x2, r2)" by (cases "?check r1")
        have s2: "same_view r r2"
          using check_previous_view [OF _ 2] g(1) same_view_trans by (auto simp: same_view_def)
        have add: "checked_add lst 1 = None \<or> checked_add lst 1 = Some (lst + 1)" by (simp add: checked_add_def)
        show ?thesis
        proof (cases "checked_add lst 1 = Some (lst + 1) \<and> \<not> lst + 1 < sm_sequence_start m \<and> x2 = Ok ()")
          case False
          then have "(r' = r1 \<or> r' = r2) \<and> (\<exists>e. x = Err e)"
            using a v 1 2 Inr new add by (cases x2) (auto simp: apply_sync_message_def Let_def ebind_eval split: if_splits)
          then show ?thesis using applied_same [OF r(2)] g(1) s2 by auto
        next
          case True
          let ?app = "append_events_to_log lops cops m ?p lst"
          obtain x3 r3 where 3: "?app r2 = (x3, r3)" by (cases "?app r2")
          have r2: "rinv r2" "gap_free r2" "held r2 = held r" "reached r2 = reached r"
            using s2 gap_free_prefix [OF r(2)] by (auto simp: same_view_def)
          note ap = append_events_view [OF r2(1) v 3]
          have res: "(\<exists>e. x3 = Err e \<and> x = Err e \<and> r' = r3) \<or>
              (\<exists>a b. x3 = Ok (a, b) \<and> x = Ok \<lparr> ack_accepted = True, ack_received = a, ack_skipped = b,
                 ack_last_sequence = sm_sequence_end m \<rparr> \<and>
               r' = r3\<lparr> rcv_processed := record_processed_batch (sm_batch_id m) (rcv_processed r3) \<rparr>)"
            using a v 1 2 3 Inr new True
            by (cases x3) (auto simp: apply_sync_message_def Let_def ebind_eval emod_def)
          then have eq: "rinv r' = rinv r3" "held r' = held r3" "reached r' = reached r3" "gap_free r' = gap_free r3"
            by (auto simp: rinv_def held_def reached_def gap_free_def)
          have start: "unat (sm_sequence_start m) \<le> unat (reached r2 ?p) + 1"
            using True lst r2(4) by (auto simp: checked_add_Some_iff word_less_nat_alt)
          have g3: "gap_free r3"
          proof (cases "reached r3 = reached r2")
            case True
            then show ?thesis using gap_free_prefix [OF r2(2) ap(2)] by simp
          next
            case False
            then show ?thesis using gap_free_batch [OF r2(2) v ap(2) start] ap(4,5) by blast
          qed
          have mono: "reached r p \<le> reached r3 p" for p
            using ap(4) r2(4) new lst by auto
          have "applied r m r'" using eq ap(1,2,3) g3 mono r2 by (simp add: applied_def)
          moreover have "x = Ok ack \<Longrightarrow> sm_sequence_end m \<le> reached r' ?p \<and>
              ack_last_sequence ack = reached r' ?p \<and> ack_received ack + ack_skipped ack = length (sm_events m) \<and>
              (\<forall>i<length (sm_events m). map_of (held r') (sm_sequence_start m + of_nat i) = Some (sm_events m ! i))"
            using res ap(5,6) eq(2,3) by auto
          ultimately show ?thesis by blast
        qed
      qed
    qed
  qed
  then show "applied r m r'" "x = Ok ack \<Longrightarrow> sm_sequence_end m \<le> reached r' ?p \<and>
    ack_last_sequence ack = reached r' ?p \<and> ack_received ack + ack_skipped ack = length (sm_events m)"
    "x = Ok ack \<Longrightarrow> reached r ?p < sm_sequence_end m \<Longrightarrow> i < length (sm_events m) \<Longrightarrow>
      map_of (held r') (sm_sequence_start m + of_nat i) = Some (sm_events m ! i)" by auto
qed

lemma receive_all_ok:
  assumes "rinv r" "gap_free r"
  shows "rinv (receive_all sha lops cops ms r)" "gap_free (receive_all sha lops cops ms r)"
    "prefix (held r) (held (receive_all sha lops cops ms r))"
    "reached r p \<le> reached (receive_all sha lops cops ms r) p"
    "set (held (receive_all sha lops cops ms r)) \<subseteq> set (held r) \<union>
      (\<Union>m\<in>set ms. (\<lambda>i. (sm_sequence_start m + of_nat i, sm_events m ! i)) ` {..<length (sm_events m)})"
proof -
  let ?new = "\<lambda>ms. \<Union>m\<in>set ms. (\<lambda>i. (sm_sequence_start m + of_nat i, sm_events m ! i)) ` {..<length (sm_events m)}"
  have "rinv (receive_all sha lops cops ms r) \<and> gap_free (receive_all sha lops cops ms r) \<and>
    prefix (held r) (held (receive_all sha lops cops ms r)) \<and>
    (\<forall>p. reached r p \<le> reached (receive_all sha lops cops ms r) p) \<and>
    set (held (receive_all sha lops cops ms r)) \<subseteq> set (held r) \<union> ?new ms"
    using assms
  proof (induction ms arbitrary: r)
    case (Cons m ms)
    obtain x r1 where 1: "apply_sync_message sha lops cops m r = (x, r1)" by (cases "apply_sync_message sha lops cops m r")
    have a: "applied r m r1" by (rule apply_ok(1) [OF Cons.prems 1])
    then have "rinv r1" "gap_free r1" by (auto simp: applied_def)
    from Cons.IH [OF this] a 1 show ?case
      unfolding applied_def by (auto intro: prefix_order.trans order_trans)
  qed auto
  then show "rinv (receive_all sha lops cops ms r)" "gap_free (receive_all sha lops cops ms r)"
    "prefix (held r) (held (receive_all sha lops cops ms r))"
    "reached r p \<le> reached (receive_all sha lops cops ms r) p"
    "set (held (receive_all sha lops cops ms r)) \<subseteq> set (held r) \<union> ?new ms" by auto
qed

end


interpretation mem_receiver: sync_receiver "mem_log_ops sha" "log_ok sha" "\<lambda>l. entries (ml_events l)"
  mem_checkpoint_ops checkpoints_ok map_of
  by unfold_locales

interpretation file_receiver: sync_receiver "file_log_ops sha" "file_ok sha" "file_view sha"
  "file_checkpoint_ops p" "checkpoint_file_ok p" "checkpoint_view p"
  by unfold_locales

section \<open>Remembered batches\<close>

definition pb_ok :: "processed_batches \<Rightarrow> bool" where
  "pb_ok p \<longleftrightarrow> pb_set p = set (pb_queue p) \<and> distinct (pb_queue p) \<and> length (pb_queue p) \<le> MAX_PROCESSED_BATCHES"

lemma record_processed_ok:
  assumes "pb_ok p" "b \<notin> pb_set p"
  shows "pb_ok (record_processed_batch b p)" "b \<in> pb_set (record_processed_batch b p)"
proof -
  let ?q = "pb_queue p @ [b]"
  have q: "insert b (pb_set p) = set ?q" "distinct ?q" "card (insert b (pb_set p)) = length ?q"
    using assms distinct_card [of ?q] by (auto simp: pb_ok_def)
  show "pb_ok (record_processed_batch b p)" "b \<in> pb_set (record_processed_batch b p)"
  proof -
    have "length list = length (pb_queue p)" if "?q = a # list" for a list
      using that by (metis length_Cons length_append_singleton nat.inject)
    then show "pb_ok (record_processed_batch b p)"
      using assms q by (cases ?q) (auto simp: record_processed_batch_def pb_ok_def Let_def)
    have "pb_queue p = x # xs \<Longrightarrow> b \<noteq> x" for x xs using assms by (auto simp: pb_ok_def)
    then show "b \<in> pb_set (record_processed_batch b p)"
      using q(3) by (cases "pb_queue p") (auto simp: record_processed_batch_def Let_def MAX_PROCESSED_BATCHES_def)
  qed
qed

text \<open>The processed batches change only when a batch gets past the checkpoint, and stay bounded.\<close>

lemma on_parts_processed:
  "on_log ml r = (x, r') \<Longrightarrow> rcv_processed r' = rcv_processed r"
  "on_checkpoints mc r = (x, r') \<Longrightarrow> rcv_processed r' = rcv_processed r"
  by (auto simp: on_log_def on_checkpoints_def split: prod.splits)

lemma append_events_processed:
  "append_events_to_log lops cops m p lst r = (x, r') \<Longrightarrow> rcv_processed r' = rcv_processed r"
  by (auto simp: append_events_to_log_def on_log_def on_checkpoints_def ebind_eval split: prod.splits sum.splits)

lemma apply_processed:
  assumes "apply_sync_message sha lops cops m r = (x, r')"
  shows "rcv_processed r' = rcv_processed r \<or>
    validate_message sha (rcv_processed r) m = Ok () \<and>
      rcv_processed r' = record_processed_batch (sm_batch_id m) (rcv_processed r)"
    and "x = Ok ack \<Longrightarrow> get_last_sequence cops (sm_source_node_id m) (rcv_checkpoints r) = (Ok lst, c) \<Longrightarrow>
      lst < sm_sequence_end m \<Longrightarrow> validate_message sha (rcv_processed r) m = Ok () \<and>
      rcv_processed r' = record_processed_batch (sm_batch_id m) (rcv_processed r)"
  using assms
  by (auto simp: apply_sync_message_def Let_def ebind_eval emod_def on_checkpoints_def
      split: prod.splits sum.splits if_splits option.splits dest!: append_events_processed)

end
