(* ===== verification/Sync_Outbox.thy ===== *)
theory Sync_Outbox
  imports Sync_Receiver
begin

text \<open>
  The outboxes of \<open>appcore-sync\<close> (\<open>sync/outbox.rs\<close>): the trait \<open>SyncOutbox\<close> as a record of
  methods over a state, the queue in memory and the queue in a file with one JSON document in
  hexadecimal per line. The interface \<open>outbox\<close> is a bounded first-in first-out queue whose
  operations may fail after having done their work; both queues keep it. The JSON codec is a pair of
  functions that round-trips and writes objects.
\<close>

section \<open>The trait and the queue in memory\<close>

record 'o outbox_ops =
  ob_try_enqueue :: "sync_message \<Rightarrow> nat \<Rightarrow> ('o, sync_error, bool) eff"
  ob_front :: "('o, sync_error, sync_message option) eff"
  ob_acknowledge_front :: "string \<Rightarrow> ('o, sync_error, unit) eff"
  ob_messages :: "('o, sync_error, sync_message list) eff"
  ob_len :: "('o, sync_error, nat) eff"

definition ob_is_empty :: "'o outbox_ops \<Rightarrow> ('o, sync_error, bool) eff" where
  "ob_is_empty ops = ebind (ob_len ops) (\<lambda>n. eret (n = 0))"

definition front_of :: "'a list \<Rightarrow> 'a option" where
  "front_of q = (case q of [] \<Rightarrow> None | m # _ \<Rightarrow> Some m)"

definition mem_try_enqueue :: "sync_message \<Rightarrow> nat \<Rightarrow> (sync_message list, sync_error, bool) eff" where
  "mem_try_enqueue m max_len q = (if max_len \<le> length q then (Ok False, q) else (Ok True, q @ [m]))"

definition mem_acknowledge_front :: "string \<Rightarrow> (sync_message list, sync_error, unit) eff" where
  "mem_acknowledge_front batch_id q =
     (if map_option sm_batch_id (front_of q) \<noteq> Some batch_id
      then (Err (InvalidSyncMessage ''outbox acknowledgement mismatch''), q)
      else (Ok (), tl q))"

definition mem_outbox_ops :: "sync_message list outbox_ops" where
  "mem_outbox_ops = \<lparr> ob_try_enqueue = mem_try_enqueue, ob_front = (\<lambda>q. (Ok (front_of q), q)),
     ob_acknowledge_front = mem_acknowledge_front, ob_messages = (\<lambda>q. (Ok q, q)), ob_len = (\<lambda>q. (Ok (length q), q)) \<rparr>"

section \<open>The queue in a file\<close>

definition SYNC_OUTBOX_FORMAT_V1 :: string where "SYNC_OUTBOX_FORMAT_V1 = ''# appcore-sync-outbox-v1''"
definition MAX_OUTBOX_FILE_BYTES :: nat where "MAX_OUTBOX_FILE_BYTES = 64 * 1024 * 1024"
definition serde_fail :: sync_error where "serde_fail = ReplicationFailed ''serde error''"

type_synonym json_encoder = "sync_message \<Rightarrow> bytes option"
type_synonym json_decoder = "bytes \<Rightarrow> sync_message option"

record file_outbox =
  fo_fs :: fs
  fo_path :: path
  fo_messages :: "sync_message list"

definition on_outbox_fs :: "(fs, 'e, 'a) eff \<Rightarrow> (file_outbox, 'e, 'a) eff" where
  "on_outbox_fs m o1 = (case m (fo_fs o1) of (r, s) \<Rightarrow> (r, o1\<lparr> fo_fs := s \<rparr>))"

fun encode_outbox :: "json_encoder \<Rightarrow> string \<Rightarrow> sync_message list \<Rightarrow> string sync_result" where
  "encode_outbox to_json acc [] = Ok acc"
| "encode_outbox to_json acc (m # ms) =
     (case to_json m of
        None \<Rightarrow> Err serde_fail
      | Some encoded \<Rightarrow>
          let acc = acc @ bytes_to_hex encoded @ [newline]
          in if MAX_OUTBOX_FILE_BYTES < length acc
             then Err (ReplicationFailed ''sync outbox exceeds configured limit'')
             else encode_outbox to_json acc ms)"

definition replace_outbox :: "json_encoder \<Rightarrow> path \<Rightarrow> sync_message list \<Rightarrow> (fs, sync_error, unit) eff" where
  "replace_outbox to_json p ms =
     ebind (elift (\<lambda>_. encode_outbox to_json (SYNC_OUTBOX_FORMAT_V1 @ [newline]) ms)) (\<lambda>encoded_file.
       atomic_write p (text_bytes encoded_file))"

fun load_lines :: "json_decoder \<Rightarrow> nat \<Rightarrow> sync_message list \<Rightarrow> string list \<Rightarrow> sync_message list sync_result" where
  "load_lines from_json n acc [] = Ok acc"
| "load_lines from_json n acc (line # rest) =
     (if line = '''' then load_lines from_json (n + 1) acc rest
      else case hex_to_bytes line of
          None \<Rightarrow> Err (CorruptOutbox (n + 1))
        | Some bs \<Rightarrow>
            if take 1 bs \<noteq> [123] then Err (ReplicationFailed UPDATE_REQUIRED_MESSAGE)
            else case from_json bs of
                None \<Rightarrow> Err (CorruptOutbox (n + 1))
              | Some m \<Rightarrow> load_lines from_json (n + 1) (acc @ [m]) rest)"

definition parse_outbox :: "json_decoder \<Rightarrow> string \<Rightarrow> sync_message list sync_result" where
  "parse_outbox from_json contents =
     rbind (split_format contents SYNC_OUTBOX_FORMAT_V1) (\<lambda>body. load_lines from_json 0 [] (rust_lines body))"

definition load_messages :: "json_decoder \<Rightarrow> path \<Rightarrow> (fs, sync_error, sync_message list) eff" where
  "load_messages from_json p =
     ebind (read_bounded_text p MAX_OUTBOX_FILE_BYTES) (\<lambda>contents. elift (\<lambda>_. parse_outbox from_json contents))"

text \<open>Every operation takes the process lock and reloads the cached messages first.\<close>

definition locked_load :: "json_decoder \<Rightarrow> (file_outbox, sync_error, sync_message list) eff" where
  "locked_load from_json o1 =
     ebind (on_outbox_fs (acquire_persistence_lock (fo_path o1))) (\<lambda>_.
     ebind (on_outbox_fs (load_messages from_json (fo_path o1))) (\<lambda>ms.
     ebind (emod (\<lambda>o1. o1\<lparr> fo_messages := ms \<rparr>)) (\<lambda>_. eret ms))) o1"

definition store_messages :: "json_encoder \<Rightarrow> sync_message list \<Rightarrow> (file_outbox, sync_error, unit) eff" where
  "store_messages to_json updated o1 =
     ebind (on_outbox_fs (replace_outbox to_json (fo_path o1) updated)) (\<lambda>_.
       emod (\<lambda>o1. o1\<lparr> fo_messages := updated \<rparr>)) o1"

definition file_try_enqueue :: "json_encoder \<Rightarrow> json_decoder \<Rightarrow> sync_message \<Rightarrow> nat \<Rightarrow> (file_outbox, sync_error, bool) eff" where
  "file_try_enqueue to_json from_json m max_len =
     ebind (locked_load from_json) (\<lambda>ms.
       if max_len \<le> length ms then eret False
       else ebind (store_messages to_json (ms @ [m])) (\<lambda>_. eret True))"

definition file_front :: "json_decoder \<Rightarrow> (file_outbox, sync_error, sync_message option) eff" where
  "file_front from_json = ebind (locked_load from_json) (\<lambda>ms. eret (front_of ms))"

definition file_acknowledge_front :: "json_encoder \<Rightarrow> json_decoder \<Rightarrow> string \<Rightarrow> (file_outbox, sync_error, unit) eff" where
  "file_acknowledge_front to_json from_json batch_id =
     ebind (locked_load from_json) (\<lambda>ms.
       if map_option sm_batch_id (front_of ms) \<noteq> Some batch_id
       then efail (InvalidSyncMessage ''outbox acknowledgement mismatch'')
       else store_messages to_json (tl ms))"

definition file_outbox_ops :: "json_encoder \<Rightarrow> json_decoder \<Rightarrow> file_outbox outbox_ops" where
  "file_outbox_ops to_json from_json = \<lparr> ob_try_enqueue = file_try_enqueue to_json from_json,
     ob_front = file_front from_json, ob_acknowledge_front = file_acknowledge_front to_json from_json,
     ob_messages = locked_load from_json, ob_len = ebind (locked_load from_json) (\<lambda>ms. eret (length ms)) \<rparr>"

definition file_outbox_new :: "json_encoder \<Rightarrow> json_decoder \<Rightarrow> path \<Rightarrow> fs \<Rightarrow> file_outbox sync_result \<times> fs" where
  "file_outbox_new to_json from_json p =
     ebind (sync_prepare p) (\<lambda>_.
     ebind (path_exists p) (\<lambda>existed.
     ebind (if existed then load_messages from_json p else eret []) (\<lambda>ms.
     ebind (if \<not> existed then replace_outbox to_json p ms else eret ()) (\<lambda>_ s.
       (Ok \<lparr> fo_fs = s, fo_path = p, fo_messages = ms \<rparr>, s)))))"

section \<open>The interface\<close>

locale outbox =
  fixes ops :: "'o outbox_ops" and inv :: "'o \<Rightarrow> bool" and queue :: "'o \<Rightarrow> sync_message list"
  assumes enqueue_cases: "inv s \<Longrightarrow> ob_try_enqueue ops m n s = (r, s') \<Longrightarrow> inv s' \<and>
      (queue s' = queue s \<or> length (queue s) < n \<and> queue s' = queue s @ [m])"
    and enqueue_done: "inv s \<Longrightarrow> ob_try_enqueue ops m n s = (Ok b, s') \<Longrightarrow>
      b = (length (queue s) < n) \<and> queue s' = (if b then queue s @ [m] else queue s)"
    and front_keeps: "inv s \<Longrightarrow> ob_front ops s = (f, s') \<Longrightarrow> inv s' \<and> queue s' = queue s"
    and front_true: "inv s \<Longrightarrow> ob_front ops s = (Ok x, s') \<Longrightarrow> x = front_of (queue s)"
    and ack_cases: "inv s \<Longrightarrow> ob_acknowledge_front ops b' s = (a, s') \<Longrightarrow> inv s' \<and>
      (queue s' = queue s \<or> map_option sm_batch_id (front_of (queue s)) = Some b' \<and> queue s' = tl (queue s))"
    and ack_done: "inv s \<Longrightarrow> ob_acknowledge_front ops b' s = (Ok u, s') \<Longrightarrow>
      map_option sm_batch_id (front_of (queue s)) = Some b' \<and> queue s' = tl (queue s)"

interpretation mem_outbox: outbox mem_outbox_ops "\<lambda>_. True" "\<lambda>q. q"
  by unfold_locales (auto simp: mem_outbox_ops_def mem_try_enqueue_def mem_acknowledge_front_def split: if_splits)

section \<open>The file keeps the interface\<close>

definition json_ok :: "json_encoder \<Rightarrow> json_decoder \<Rightarrow> bool" where
  "json_ok to_json from_json \<longleftrightarrow>
     (\<forall>m bs. to_json m = Some bs \<longrightarrow> from_json bs = Some m \<and> take 1 bs = [123])"

definition outbox_text :: "json_encoder \<Rightarrow> sync_message list \<Rightarrow> string" where
  "outbox_text to_json ms = SYNC_OUTBOX_FORMAT_V1 @ [newline] @
     concat (map (\<lambda>m. bytes_to_hex (the (to_json m)) @ [newline]) ms)"

definition encodable :: "json_encoder \<Rightarrow> sync_message list \<Rightarrow> bool" where
  "encodable to_json ms \<longleftrightarrow> list_all (\<lambda>m. to_json m \<noteq> None) ms"

lemma encode_outbox_Ok:
  assumes "encode_outbox to_json acc ms = Ok out"
  shows "encodable to_json ms" "out = acc @ concat (map (\<lambda>m. bytes_to_hex (the (to_json m)) @ [newline]) ms)"
  using assms
proof -
  have "encodable to_json ms \<and> out = acc @ concat (map (\<lambda>m. bytes_to_hex (the (to_json m)) @ [newline]) ms)"
    using assms by (induction to_json acc ms rule: encode_outbox.induct)
      (auto simp: encodable_def Let_def split: option.splits if_splits)
  then show "encodable to_json ms" "out = acc @ concat (map (\<lambda>m. bytes_to_hex (the (to_json m)) @ [newline]) ms)"
    by auto
qed

lemma rust_lines_outbox:
  "rust_lines (concat (map (\<lambda>m. bytes_to_hex (f m) @ [newline]) ms)) = map (\<lambda>m. bytes_to_hex (f m)) ms"
  by (induction ms) (auto simp: rust_lines_line control_not_in_hex)

lemma load_lines_encoded:
  assumes "json_ok to_json from_json" "encodable to_json ms"
  shows "load_lines from_json n acc (map (\<lambda>m. bytes_to_hex (the (to_json m))) ms) = Ok (acc @ ms)"
  using assms(2)
proof (induction ms arbitrary: n acc)
  case (Cons m ms)
  then obtain bs where bs: "to_json m = Some bs" by (auto simp: encodable_def)
  then have "from_json bs = Some m" "take 1 bs = [123]" using assms(1) by (auto simp: json_ok_def)
  moreover have "bytes_to_hex bs \<noteq> ''''"
  proof
    assume "bytes_to_hex bs = ''''"
    from arg_cong [OF this, of length] calculation(2) show False by simp
  qed
  ultimately show ?case using Cons bs by (simp add: encodable_def)
qed simp

lemma parse_outbox_text:
  "json_ok to_json from_json \<Longrightarrow> encodable to_json ms \<Longrightarrow> parse_outbox from_json (outbox_text to_json ms) = Ok ms"
  by (simp add: parse_outbox_def outbox_text_def split_format_def rust_lines_outbox load_lines_encoded)

definition outbox_view :: "json_decoder \<Rightarrow> file_outbox \<Rightarrow> sync_message list" where
  "outbox_view from_json o1 = (case fs_nodes (fo_fs o1) (fo_path o1) of
     Some (FileNode bs) \<Rightarrow> (case parse_outbox from_json (bytes_text bs) of Inr ms \<Rightarrow> ms | Inl _ \<Rightarrow> [])
   | _ \<Rightarrow> [])"

definition outbox_holds :: "json_encoder \<Rightarrow> fs \<Rightarrow> path \<Rightarrow> sync_message list \<Rightarrow> bool" where
  "outbox_holds to_json s p ms \<longleftrightarrow>
     encodable to_json ms \<and> fs_nodes s p = Some (FileNode (text_bytes (outbox_text to_json ms)))"

definition outbox_ok :: "json_encoder \<Rightarrow> json_decoder \<Rightarrow> file_outbox \<Rightarrow> bool" where
  "outbox_ok to_json from_json o1 \<longleftrightarrow> json_ok to_json from_json \<and> fo_path o1 \<noteq> [] \<and>
     outbox_holds to_json (fo_fs o1) (fo_path o1) (outbox_view from_json o1)"

lemma outbox_okI:
  assumes "json_ok to_json from_json" "fo_path o1 \<noteq> []" "outbox_holds to_json (fo_fs o1) (fo_path o1) ms"
  shows "outbox_ok to_json from_json o1 \<and> outbox_view from_json o1 = ms"
proof -
  have "outbox_view from_json o1 = ms"
    using assms by (simp add: outbox_view_def outbox_holds_def parse_outbox_text)
  then show ?thesis using assms by (simp add: outbox_ok_def)
qed

lemma load_messages_cases:
  assumes "load_messages from_json p s = (r, s')"
  shows "fs_nodes s' = fs_nodes s"
    and "json_ok to_json from_json \<Longrightarrow> outbox_holds to_json s p ms \<Longrightarrow> r = Ok ms' \<Longrightarrow> ms' = ms"
proof -
  obtain r1 s1 where 1: "read_bounded_text p MAX_OUTBOX_FILE_BYTES s = (r1, s1)"
    by (cases "read_bounded_text p MAX_OUTBOX_FILE_BYTES s")
  have st: "s' = s1 \<and> (r = Ok ms' \<longrightarrow> (\<exists>t. r1 = Ok t \<and> parse_outbox from_json t = Ok ms'))"
    using assms 1 by (cases r1) (auto simp: load_messages_def ebind_eval)
  with inspectsD [OF read_bounded_text_inspects 1] show "fs_nodes s' = fs_nodes s" by simp
  show "json_ok to_json from_json \<Longrightarrow> outbox_holds to_json s p ms \<Longrightarrow> r = Ok ms' \<Longrightarrow> ms' = ms"
    using st 1 read_bounded_text_Ok [of p MAX_OUTBOX_FILE_BYTES s] parse_outbox_text [of to_json from_json ms]
    by (fastforce simp: outbox_holds_def)
qed

lemma locked_load_ok:
  assumes o1: "outbox_ok to_json from_json o1" and l: "locked_load from_json o1 = (r, o2)"
  shows "outbox_ok to_json from_json o2 \<and> outbox_view from_json o2 = outbox_view from_json o1 \<and> fo_path o2 = fo_path o1"
    and "r = Ok ms \<Longrightarrow> ms = outbox_view from_json o1"
proof -
  let ?p = "fo_path o1" and ?ms = "outbox_view from_json o1"
  have j: "json_ok to_json from_json" "?p \<noteq> []" "outbox_holds to_json (fo_fs o1) ?p ?ms"
    using o1 by (auto simp: outbox_ok_def)
  obtain r1 s1 where 1: "acquire_persistence_lock ?p (fo_fs o1) = (r1, s1)" by (cases "acquire_persistence_lock ?p (fo_fs o1)")
  have h1: "outbox_holds to_json s1 ?p ?ms" using acquire_lock_nodes [OF 1 j(2)] j(3) by (simp add: outbox_holds_def)
  obtain r2 s2 where 2: "load_messages from_json ?p s1 = (r2, s2)" by (cases "load_messages from_json ?p s1")
  note ld = load_messages_cases [OF 2]
  have h2: "outbox_holds to_json s2 ?p ?ms" using ld(1) h1 by (simp add: outbox_holds_def)
  have st: "fo_path o2 = ?p \<and> (fo_fs o2 = s1 \<or> fo_fs o2 = s2) \<and> (r = Ok ms \<longrightarrow> r2 = Ok ms)"
    using l 1 2 by (cases r1; cases r2) (auto simp: locked_load_def on_outbox_fs_def ebind_eval emod_def)
  then show "outbox_ok to_json from_json o2 \<and> outbox_view from_json o2 = ?ms \<and> fo_path o2 = ?p"
    using outbox_okI [OF j(1), of o2 ?ms] j(2) h1 h2 by auto
  show "r = Ok ms \<Longrightarrow> ms = ?ms" using st ld(2) [OF j(1) h1] by simp
qed

lemma store_messages_ok:
  assumes o1: "outbox_ok to_json from_json o1" and s: "store_messages to_json ms o1 = (r, o2)"
  shows "outbox_ok to_json from_json o2 \<and> (outbox_view from_json o2 = outbox_view from_json o1 \<or> outbox_view from_json o2 = ms)"
    and "r = Ok () \<Longrightarrow> outbox_view from_json o2 = ms"
proof -
  let ?p = "fo_path o1" and ?old = "outbox_view from_json o1" and ?enc = "encode_outbox to_json (SYNC_OUTBOX_FORMAT_V1 @ [newline]) ms"
  have j: "json_ok to_json from_json" "?p \<noteq> []" "outbox_holds to_json (fo_fs o1) ?p ?old"
    using o1 by (auto simp: outbox_ok_def)
  have "outbox_ok to_json from_json o2 \<and> (outbox_view from_json o2 = ?old \<or> outbox_view from_json o2 = ms) \<and>
    (r = Ok () \<longrightarrow> outbox_view from_json o2 = ms)"
  proof (cases ?enc)
    case (Inl e)
    then have "o2 = o1" "r = Err e" using s by (auto simp: store_messages_def replace_outbox_def on_outbox_fs_def ebind_eval)
    then show ?thesis using o1 by simp
  next
    case (Inr out)
    note e = encode_outbox_Ok [OF Inr]
    have out: "out = outbox_text to_json ms" using e(2) by (simp add: outbox_text_def)
    obtain r1 s1 where 1: "atomic_write ?p (text_bytes out) (fo_fs o1) = (r1, s1)"
      by (cases "atomic_write ?p (text_bytes out) (fo_fs o1)")
    note w = atomic_write_nodes [OF 1 j(2)]
    have st: "fo_path o2 = ?p \<and> fo_fs o2 = s1 \<and> r = r1"
      using s Inr 1 by (cases r1) (auto simp: store_messages_def replace_outbox_def on_outbox_fs_def ebind_eval emod_def)
    have "outbox_holds to_json s1 ?p ?old \<and> r1 \<noteq> Ok () \<or> outbox_holds to_json s1 ?p ms"
      using w(1,2) j(3) e(1) out by (cases "r1 = Ok ()") (auto simp: outbox_holds_def)
    then show ?thesis using outbox_okI [OF j(1), of o2] st j(2) by auto
  qed
  then show "outbox_ok to_json from_json o2 \<and> (outbox_view from_json o2 = ?old \<or> outbox_view from_json o2 = ms)"
    "r = Ok () \<Longrightarrow> outbox_view from_json o2 = ms" by auto
qed

text \<open>The three operations as what they do after a load that keeps the view.\<close>

lemma file_enqueue_ok:
  assumes o1: "outbox_ok to_json from_json o1" and a: "file_try_enqueue to_json from_json m n o1 = (r, o2)"
  shows "outbox_ok to_json from_json o2 \<and> (outbox_view from_json o2 = outbox_view from_json o1 \<or>
      length (outbox_view from_json o1) < n \<and> outbox_view from_json o2 = outbox_view from_json o1 @ [m])"
    and "r = Ok b \<Longrightarrow> b = (length (outbox_view from_json o1) < n) \<and>
      outbox_view from_json o2 = (if b then outbox_view from_json o1 @ [m] else outbox_view from_json o1)"
proof -
  let ?v = "outbox_view from_json"
  obtain r1 o3 where 1: "locked_load from_json o1 = (r1, o3)" by (cases "locked_load from_json o1")
  note l = locked_load_ok [OF o1 1]
  obtain r2 o4 where 2: "store_messages to_json (?v o1 @ [m]) o3 = (r2, o4)" by (cases "store_messages to_json (?v o1 @ [m]) o3")
  note s = store_messages_ok [OF conjunct1 [OF l(1)] 2]
  have st: "o2 = o3 \<and> (r = Ok b \<longrightarrow> \<not> b \<and> n \<le> length (?v o1)) \<or>
      length (?v o1) < n \<and> o2 = o4 \<and> (r = Ok b \<longrightarrow> b \<and> r2 = Ok ())" for b
    using a 1 2 l(2) by (cases r1; cases r2) (auto simp: file_try_enqueue_def ebind_eval eret_def split: if_splits)
  show "outbox_ok to_json from_json o2 \<and> (?v o2 = ?v o1 \<or> length (?v o1) < n \<and> ?v o2 = ?v o1 @ [m])"
    using st l(1) s(1) by auto
  show "r = Ok b \<Longrightarrow> b = (length (?v o1) < n) \<and> ?v o2 = (if b then ?v o1 @ [m] else ?v o1)"
    using st [of b] l(1) s(2) by auto
qed

lemma file_ack_ok:
  assumes o1: "outbox_ok to_json from_json o1" and a: "file_acknowledge_front to_json from_json b o1 = (r, o2)"
  shows "outbox_ok to_json from_json o2 \<and> (outbox_view from_json o2 = outbox_view from_json o1 \<or>
      map_option sm_batch_id (front_of (outbox_view from_json o1)) = Some b \<and> outbox_view from_json o2 = tl (outbox_view from_json o1))"
    and "r = Ok u \<Longrightarrow> map_option sm_batch_id (front_of (outbox_view from_json o1)) = Some b \<and>
      outbox_view from_json o2 = tl (outbox_view from_json o1)"
proof -
  let ?v = "outbox_view from_json"
  obtain r1 o3 where 1: "locked_load from_json o1 = (r1, o3)" by (cases "locked_load from_json o1")
  note l = locked_load_ok [OF o1 1]
  obtain r2 o4 where 2: "store_messages to_json (tl (?v o1)) o3 = (r2, o4)" by (cases "store_messages to_json (tl (?v o1)) o3")
  note s = store_messages_ok [OF conjunct1 [OF l(1)] 2]
  have st: "o2 = o3 \<and> (\<exists>e. r = Err e) \<or> map_option sm_batch_id (front_of (?v o1)) = Some b \<and> o2 = o4 \<and> r = r2"
    using a 1 2 l(2) by (cases r1) (auto simp: file_acknowledge_front_def ebind_eval split: if_splits)
  then show "outbox_ok to_json from_json o2 \<and> (?v o2 = ?v o1 \<or>
      map_option sm_batch_id (front_of (?v o1)) = Some b \<and> ?v o2 = tl (?v o1))"
    and "r = Ok u \<Longrightarrow> map_option sm_batch_id (front_of (?v o1)) = Some b \<and> ?v o2 = tl (?v o1)"
    using l(1) s by auto
qed

lemma file_front_ok:
  assumes o1: "outbox_ok to_json from_json o1" and a: "file_front from_json o1 = (r, o2)"
  shows "outbox_ok to_json from_json o2 \<and> outbox_view from_json o2 = outbox_view from_json o1"
    and "r = Ok x \<Longrightarrow> x = front_of (outbox_view from_json o1)"
proof -
  obtain r1 o3 where 1: "locked_load from_json o1 = (r1, o3)" by (cases "locked_load from_json o1")
  note l = locked_load_ok [OF o1 1]
  show "outbox_ok to_json from_json o2 \<and> outbox_view from_json o2 = outbox_view from_json o1"
    and "r = Ok x \<Longrightarrow> x = front_of (outbox_view from_json o1)"
    using a 1 l by (cases r1; auto simp: file_front_def ebind_eval eret_def)+
qed

interpretation file_outbox: outbox "file_outbox_ops to_json from_json" "outbox_ok to_json from_json" "outbox_view from_json"
  by (unfold_locales; unfold file_outbox_ops_def outbox_ops.simps)
    (fact file_enqueue_ok(1) file_enqueue_ok(2) [OF _ _ refl] file_front_ok(1) file_front_ok(2) [OF _ _ refl]
      file_ack_ok(1) file_ack_ok(2) [OF _ _ refl])+

end
