(* ===== verification/Sync_Client.thy ===== *)
theory Sync_Client
  imports Sync_Outbox
begin

text \<open>
  The leader side of replication: the push client with its bounded outbox and retries
  (\<open>sync/client.rs\<close>, \<open>sync/retry.rs\<close>). The HTTP transport is a record of the three methods the client
  calls, over a state of its own. Flushing is a loop without a bound in the code, so it is a partial
  function; with an outbox that keeps its interface it always returns, and the batches leave the
  outbox in order, each only after a successful post.
\<close>

section \<open>The client\<close>

record sync_retry_policy =
  rp_max_attempts :: u32
  rp_backoff_ms :: u64
  rp_max_queue_len :: nat

definition sync_retry_policy_default :: sync_retry_policy where
  "sync_retry_policy_default = \<lparr> rp_max_attempts = 3, rp_backoff_ms = 50, rp_max_queue_len = 64 \<rparr>"

record sync_push_metrics =
  pm_push_attempt :: u64
  pm_push_success :: u64
  pm_push_failed :: u64
  pm_push_dropped :: u64

definition sync_push_metrics_default :: sync_push_metrics where
  "sync_push_metrics_default = \<lparr> pm_push_attempt = 0, pm_push_success = 0, pm_push_failed = 0, pm_push_dropped = 0 \<rparr>"

text \<open>Reading the cancellation flag and waiting on it depend on other threads, so both move the state.\<close>

record 't transport_ops =
  tp_is_cancelled :: "'t \<Rightarrow> bool \<times> 't"
  tp_post_sync_events :: "sync_message \<Rightarrow> ('t, sync_error, unit) eff"
  tp_wait_timeout :: "u64 \<Rightarrow> 't \<Rightarrow> bool \<times> 't"

record ('o, 't) follower_client =
  fc_transport :: 't
  fc_retry_policy :: sync_retry_policy
  fc_outbox :: 'o
  fc_metrics :: sync_push_metrics

definition follower_client_new :: "'t \<Rightarrow> (sync_message list, 't) follower_client" where
  "follower_client_new transport = \<lparr> fc_transport = transport, fc_retry_policy = sync_retry_policy_default,
     fc_outbox = [], fc_metrics = sync_push_metrics_default \<rparr>"

definition with_retry_policy :: "sync_retry_policy \<Rightarrow> ('o, 't) follower_client \<Rightarrow> ('o, 't) follower_client" where
  "with_retry_policy p c = c\<lparr> fc_retry_policy := p \<rparr>"

definition with_outbox :: "'o2 \<Rightarrow> ('o, 't) follower_client \<Rightarrow> ('o2, 't) follower_client" where
  "with_outbox o2 c = \<lparr> fc_transport = fc_transport c, fc_retry_policy = fc_retry_policy c, fc_outbox = o2, fc_metrics = fc_metrics c \<rparr>"

definition on_outbox :: "('o, 'e, 'a) eff \<Rightarrow> (('o, 't) follower_client, 'e, 'a) eff" where
  "on_outbox m c = (case m (fc_outbox c) of (r, q) \<Rightarrow> (r, c\<lparr> fc_outbox := q \<rparr>))"

definition pending_len :: "'o outbox_ops \<Rightarrow> ('o, 't) follower_client \<Rightarrow> nat \<times> ('o, 't) follower_client" where
  "pending_len oops c = (case on_outbox (ob_len oops) c of (Inr n, c) \<Rightarrow> (n, c) | (Inl _, c) \<Rightarrow> (0, c))"

definition pending_messages :: "'o outbox_ops \<Rightarrow> (('o, 't) follower_client, sync_error, sync_message list) eff" where
  "pending_messages oops = on_outbox (ob_messages oops)"

fun try_send_loop ::
    "'t transport_ops \<Rightarrow> nat \<Rightarrow> nat list \<Rightarrow> sync_message \<Rightarrow> (('o, 't) follower_client, sync_error, unit) eff" where
  "try_send_loop tops max_attempts [] m c = (Err (TransportFailed ''sync push retry exhausted''), c)"
| "try_send_loop tops max_attempts (attempt # rest) m c =
     (case tp_is_cancelled tops (fc_transport c) of (cancelled, t1) \<Rightarrow>
        if cancelled then (Err (TransportFailed ''sync push cancelled''), c\<lparr> fc_transport := t1 \<rparr>)
        else let metrics = (fc_metrics c)\<lparr> pm_push_attempt := pm_push_attempt (fc_metrics c) + 1 \<rparr>
          in case tp_post_sync_events tops m t1 of
              (Inr _, t2) \<Rightarrow> (Ok (), c\<lparr> fc_transport := t2, fc_metrics := metrics \<rparr>)
            | (Inl _, t2) \<Rightarrow>
                if attempt < max_attempts \<and> rp_backoff_ms (fc_retry_policy c) > 0
                then (case tp_wait_timeout tops (rp_backoff_ms (fc_retry_policy c)) t2 of (woken, t3) \<Rightarrow>
                    if woken
                    then (Err (TransportFailed ''sync push cancelled''), c\<lparr> fc_transport := t3, fc_metrics := metrics \<rparr>)
                    else try_send_loop tops max_attempts rest m (c\<lparr> fc_transport := t3, fc_metrics := metrics \<rparr>))
                else try_send_loop tops max_attempts rest m (c\<lparr> fc_transport := t2, fc_metrics := metrics \<rparr>))"

definition try_send_with_retry :: "'t transport_ops \<Rightarrow> sync_message \<Rightarrow> (('o, 't) follower_client, sync_error, unit) eff" where
  "try_send_with_retry tops m c =
     (let max_attempts = max 1 (unat (rp_max_attempts (fc_retry_policy c)))
      in try_send_loop tops max_attempts [1 ..< max_attempts + 1] m c)"

partial_function (option) flush_queue ::
    "'o outbox_ops \<Rightarrow> 't transport_ops \<Rightarrow> ('o, 't) follower_client \<Rightarrow> (unit sync_result \<times> ('o, 't) follower_client) option" where
  "flush_queue oops tops c =
     (case on_outbox (ob_front oops) c of
        (Inl e, c1) \<Rightarrow> Some (Err e, c1)
      | (Inr None, c1) \<Rightarrow> Some (Ok (), c1)
      | (Inr (Some m), c1) \<Rightarrow>
          (case try_send_with_retry tops m c1 of
             (Inr _, c2) \<Rightarrow>
               (case on_outbox (ob_acknowledge_front oops (sm_batch_id m)) c2 of
                  (Inl e, c3) \<Rightarrow> Some (Err e, c3)
                | (Inr _, c3) \<Rightarrow>
                    flush_queue oops tops (c3\<lparr> fc_metrics := (fc_metrics c3)\<lparr> pm_push_success := pm_push_success (fc_metrics c3) + 1 \<rparr> \<rparr>))
           | (Inl _, c2) \<Rightarrow>
               Some (Err (TransportFailed ''sync push retry exhausted''),
                 c2\<lparr> fc_metrics := (fc_metrics c2)\<lparr> pm_push_failed := pm_push_failed (fc_metrics c2) + 1 \<rparr> \<rparr>)))"

definition flush_pending :: "'o outbox_ops \<Rightarrow> 't transport_ops \<Rightarrow> ('o, 't) follower_client \<Rightarrow> (unit sync_result \<times> ('o, 't) follower_client) option" where
  "flush_pending = flush_queue"

definition push_events ::
    "'o outbox_ops \<Rightarrow> 't transport_ops \<Rightarrow> sync_message \<Rightarrow> ('o, 't) follower_client \<Rightarrow> (unit sync_result \<times> ('o, 't) follower_client) option" where
  "push_events oops tops m c =
     (case on_outbox (ob_try_enqueue oops m (rp_max_queue_len (fc_retry_policy c))) c of
        (Inl e, c1) \<Rightarrow> Some (Err e, c1)
      | (Inr False, c1) \<Rightarrow>
          Some (Err (TransportFailed ''sync queue full''),
            c1\<lparr> fc_metrics := (fc_metrics c1)\<lparr> pm_push_dropped := pm_push_dropped (fc_metrics c1) + 1 \<rparr> \<rparr>)
      | (Inr True, c1) \<Rightarrow> flush_queue oops tops c1)"

section \<open>What a transport has delivered\<close>

text \<open>
  \<open>delivers tops t ms t'\<close>: the calls that lead the transport from \<open>t\<close> to \<open>t'\<close> had the posts of \<open>ms\<close>, in
  this order, as their successful ones.
\<close>

inductive delivers :: "'t transport_ops \<Rightarrow> 't \<Rightarrow> sync_message list \<Rightarrow> 't \<Rightarrow> bool" for tops where
  deliver_none: "delivers tops t [] t"
| deliver_poll: "delivers tops t ms t' \<Longrightarrow> delivers tops t ms (snd (tp_is_cancelled tops t'))"
| deliver_wait: "delivers tops t ms t' \<Longrightarrow> delivers tops t ms (snd (tp_wait_timeout tops d t'))"
| deliver_fail: "delivers tops t ms t' \<Longrightarrow> tp_post_sync_events tops m t' = (Err e, t'') \<Longrightarrow> delivers tops t ms t''"
| deliver_post: "delivers tops t ms t' \<Longrightarrow> tp_post_sync_events tops m t' = (Ok u, t'') \<Longrightarrow> delivers tops t (ms @ [m]) t''"

lemma deliver_poll': "delivers tops t ms t' \<Longrightarrow> tp_is_cancelled tops t' = (b, t'') \<Longrightarrow> delivers tops t ms t''"
  by (metis deliver_poll snd_conv)

lemma deliver_wait': "delivers tops t ms t' \<Longrightarrow> tp_wait_timeout tops d t' = (b, t'') \<Longrightarrow> delivers tops t ms t''"
  by (metis deliver_wait snd_conv)

text \<open>Sending touches neither the outbox nor the policy, and succeeds exactly when a post did.\<close>

lemma try_send_loop_delivers:
  assumes "delivers tops t ms (fc_transport c)" "try_send_loop tops n attempts m c = (r, c')"
  shows "fc_outbox c' = fc_outbox c \<and> fc_retry_policy c' = fc_retry_policy c \<and>
    delivers tops t (if r = Ok () then ms @ [m] else ms) (fc_transport c')"
  using assms
proof (induction attempts arbitrary: c)
  case (Cons a attempts)
  obtain b t1 where 1: "tp_is_cancelled tops (fc_transport c) = (b, t1)" by (cases "tp_is_cancelled tops (fc_transport c)")
  note d1 = deliver_poll' [OF Cons.prems(1) 1]
  obtain p t2 where 2: "tp_post_sync_events tops m t1 = (p, t2)" by (cases "tp_post_sync_events tops m t1")
  obtain w t3 where 3: "tp_wait_timeout tops (rp_backoff_ms (fc_retry_policy c)) t2 = (w, t3)"
    by (cases "tp_wait_timeout tops (rp_backoff_ms (fc_retry_policy c)) t2")
  show ?case
  proof (cases "b \<or> is_ok p")
    case True
    then show ?thesis using Cons.prems(2) 1 2 d1 deliver_post [OF d1, of m _ t2]
      by (cases p) (auto simp: is_ok_def split: if_splits)
  next
    case False
    then obtain e where e: "p = Err e" by (cases p) (auto simp: is_ok_def)
    note d2 = deliver_fail [OF d1 2 [unfolded e]] and d3 = deliver_wait' [OF deliver_fail [OF d1 2 [unfolded e]] 3]
    show ?thesis
      using Cons.prems(2) 1 2 3 e False d2 d3
        Cons.IH [of "c\<lparr> fc_transport := t2, fc_metrics := (fc_metrics c)\<lparr> pm_push_attempt := pm_push_attempt (fc_metrics c) + 1 \<rparr> \<rparr>"]
        Cons.IH [of "c\<lparr> fc_transport := t3, fc_metrics := (fc_metrics c)\<lparr> pm_push_attempt := pm_push_attempt (fc_metrics c) + 1 \<rparr> \<rparr>"]
      by (auto simp: Let_def split: if_splits)
  qed
qed auto

lemma try_send_delivers:
  assumes "delivers tops t ms (fc_transport c)" "try_send_with_retry tops m c = (r, c')"
  shows "fc_outbox c' = fc_outbox c \<and> fc_retry_policy c' = fc_retry_policy c \<and>
    delivers tops t (if r = Ok () then ms @ [m] else ms) (fc_transport c')"
  using assms by (auto simp: try_send_with_retry_def Let_def dest: try_send_loop_delivers)

section \<open>Flushing\<close>

text \<open>
  What a flush that was started with the queue \<open>q\<close> has done: the delivered batches are the ones that
  left the queue, in order, and possibly the one whose removal failed afterwards.
\<close>

definition flushed :: "sync_message list \<Rightarrow> sync_message list \<Rightarrow> sync_message list \<Rightarrow> bool" where
  "flushed q ms q' \<longleftrightarrow> q = ms @ q' \<or> ms \<noteq> [] \<and> q = butlast ms @ q' \<and> front_of q' = Some (last ms)"

lemma flushed_step: "flushed q ms q' \<Longrightarrow> flushed (m # q) (m # ms) q'"
  by (auto simp: flushed_def)

lemma delivers_trans: "delivers tops t' ms' t'' \<Longrightarrow> delivers tops t ms t' \<Longrightarrow> delivers tops t (ms @ ms') t''"
proof (induction rule: delivers.induct)
  case (deliver_post t1 ms1 t2 m u t3)
  from delivers.deliver_post [OF deliver_post.IH [OF deliver_post.prems] deliver_post.hyps(2)]
  show ?case by simp
qed (auto intro: delivers.intros)

context outbox
begin

lemma front_cases:
  assumes "inv (fc_outbox c)" "on_outbox (ob_front ops) c = (f, c')"
  shows "inv (fc_outbox c')" "queue (fc_outbox c') = queue (fc_outbox c)" "fc_transport c' = fc_transport c"
    "fc_retry_policy c' = fc_retry_policy c" "f = Ok x \<Longrightarrow> x = front_of (queue (fc_outbox c))"
  using assms front_keeps front_true by (auto simp: on_outbox_def split: prod.splits)

lemma ack_client_cases:
  assumes "inv (fc_outbox c)" "on_outbox (ob_acknowledge_front ops b) c = (a, c')"
  shows "inv (fc_outbox c')" "fc_transport c' = fc_transport c"
    "queue (fc_outbox c') = queue (fc_outbox c) \<or> queue (fc_outbox c') = tl (queue (fc_outbox c))"
    "a = Ok u \<Longrightarrow> queue (fc_outbox c') = tl (queue (fc_outbox c))"
proof -
  obtain q where q: "ob_acknowledge_front ops b (fc_outbox c) = (a, q)" "c' = c\<lparr> fc_outbox := q \<rparr>"
    using assms(2) by (auto simp: on_outbox_def split: prod.splits)
  from ack_cases [OF assms(1) q(1)] q(2) show "inv (fc_outbox c')" "fc_transport c' = fc_transport c"
    "queue (fc_outbox c') = queue (fc_outbox c) \<or> queue (fc_outbox c') = tl (queue (fc_outbox c))" by auto
  show "a = Ok u \<Longrightarrow> queue (fc_outbox c') = tl (queue (fc_outbox c))"
    using ack_done [OF assms(1), of b u q] q by simp
qed

lemma flush_ok:
  assumes "inv (fc_outbox c)"
  shows "\<exists>r c' ms. flush_queue ops tops c = Some (r, c') \<and> inv (fc_outbox c') \<and>
    delivers tops (fc_transport c) ms (fc_transport c') \<and>
    flushed (queue (fc_outbox c)) ms (queue (fc_outbox c')) \<and> (r = Ok () \<longrightarrow> queue (fc_outbox c') = [])"
  using assms
proof (induction "length (queue (fc_outbox c))" arbitrary: c rule: less_induct)
  case less
  obtain f c1 where 1: "on_outbox (ob_front ops) c = (f, c1)" by (cases "on_outbox (ob_front ops) c")
  note fr = front_cases [OF less.prems 1]
  have stop: ?case if "flush_queue ops tops c = Some (r, c1)" "r = Ok () \<longrightarrow> queue (fc_outbox c) = []" for r
    using that fr delivers.deliver_none [of tops "fc_transport c"] by (auto simp: flushed_def)
  show ?case
  proof (cases f)
    case (Inl e)
    then show ?thesis using stop [of "Err e"] 1 by (simp add: flush_queue.simps)
  next
    case (Inr x)
    then have x: "x = front_of (queue (fc_outbox c))" using fr(5) by simp
    show ?thesis
    proof (cases "queue (fc_outbox c)")
      case Nil
      then show ?thesis using stop [of "Ok ()"] 1 Inr x by (simp add: flush_queue.simps front_of_def)
    next
      case (Cons m rest)
      obtain s c2 where 2: "try_send_with_retry tops m c1 = (s, c2)" by (cases "try_send_with_retry tops m c1")
      have d0: "delivers tops (fc_transport c) [] (fc_transport c1)" using fr(3) by (simp add: delivers.deliver_none)
      note d = try_send_delivers [OF d0 2]
      have q2: "inv (fc_outbox c2)" "queue (fc_outbox c2) = m # rest" using d fr Cons by auto
      show ?thesis
      proof (cases s)
        case (Inl e)
        let ?c = "c2\<lparr> fc_metrics := (fc_metrics c2)\<lparr> pm_push_failed := pm_push_failed (fc_metrics c2) + 1 \<rparr> \<rparr>"
        have "flush_queue ops tops c = Some (Err (TransportFailed ''sync push retry exhausted''), ?c)"
          using 1 2 \<open>f = Inr x\<close> x Cons Inl by (simp add: flush_queue.simps front_of_def)
        then show ?thesis using d q2 Cons Inl by (auto simp: flushed_def)
      next
        case (Inr u)
        let ?ack = "on_outbox (ob_acknowledge_front ops (sm_batch_id m)) c2"
        obtain a c3 where 3: "?ack = (a, c3)" by (cases ?ack)
        note ak = ack_client_cases [OF q2(1) 3]
        have d2: "delivers tops (fc_transport c) [m] (fc_transport c3)" using d Inr ak(2) by simp
        show ?thesis
        proof (cases a)
          case (Inl e)
          have "flush_queue ops tops c = Some (Err e, c3)"
            using 1 2 3 \<open>f = Inr x\<close> x Cons Inr Inl by (simp add: flush_queue.simps front_of_def)
          moreover have "flushed (m # rest) [m] (queue (fc_outbox c3))"
            using ak(3) q2(2) by (auto simp: flushed_def front_of_def)
          ultimately show ?thesis using d2 ak(1) Cons by auto
        next
          case ok: (Inr u')
          let ?c = "c3\<lparr> fc_metrics := (fc_metrics c3)\<lparr> pm_push_success := pm_push_success (fc_metrics c3) + 1 \<rparr> \<rparr>"
          have q3: "queue (fc_outbox ?c) = rest" "inv (fc_outbox ?c)" using ak(1,4) ok q2(2) by auto
          have eq: "flush_queue ops tops c = flush_queue ops tops ?c"
            using 1 2 3 \<open>f = Inr x\<close> x Cons Inr ok by (subst flush_queue.simps) (simp add: front_of_def)
          obtain r c' ms where IH: "flush_queue ops tops ?c = Some (r, c')" "inv (fc_outbox c')"
            "delivers tops (fc_transport ?c) ms (fc_transport c')"
            "flushed rest ms (queue (fc_outbox c'))" "r = Ok () \<longrightarrow> queue (fc_outbox c') = []"
            using less.hyps [of ?c] q3 Cons by auto
          have "delivers tops (fc_transport c) (m # ms) (fc_transport c')"
            using delivers_trans [OF IH(3), of "fc_transport c" "[m]"] d2 by simp
          then show ?thesis using IH eq flushed_step [OF IH(4), of m] Cons by auto
        qed
      qed
    qed
  qed
qed

end


section \<open>A receiver reached directly\<close>

text \<open>
  A transport that hands every batch to a receiver at once: the end-to-end path without a network in
  between, where a post succeeds exactly when the receiver accepts.
\<close>

definition loopback :: "hash_fun \<Rightarrow> 'l log_ops \<Rightarrow> 'c checkpoint_ops \<Rightarrow> ('l, 'c) receiver transport_ops" where
  "loopback sha lops cops = \<lparr> tp_is_cancelled = Pair False,
     tp_post_sync_events = (\<lambda>m. ebind (apply_sync_message sha lops cops m) (\<lambda>_. eret ())),
     tp_wait_timeout = (\<lambda>_. Pair False) \<rparr>"

lemma try_send_refused:
  assumes "tp_is_cancelled tops t = (False, t)" "tp_post_sync_events tops m t = (Err e, t)"
    "\<forall>d. tp_wait_timeout tops d t = (False, t)" "fc_transport c = t" "try_send_loop tops n attempts m c = (r, c')"
  shows "(\<exists>e. r = Err e) \<and> fc_transport c' = t \<and> fc_outbox c' = fc_outbox c"
  using assms(4,5)
proof (induction attempts arbitrary: c)
  case (Cons a attempts)
  let ?c = "c\<lparr> fc_transport := t, fc_metrics := (fc_metrics c)\<lparr> pm_push_attempt := pm_push_attempt (fc_metrics c) + 1 \<rparr> \<rparr>"
  have "try_send_loop tops n attempts m ?c = (r, c')"
    using Cons.prems assms(1-3) by (simp add: Let_def split: if_splits)
  from Cons.IH [OF _ this] show ?case by simp
qed auto

lemma resend_refused:
  assumes a: "apply_sync_message sha lops cops m r = (Ok ack, r')"
    and new: "get_last_sequence cops (sm_source_node_id m) (rcv_checkpoints r) = (Ok lst, c)" "lst < sm_sequence_end m"
    and p: "pb_ok (rcv_processed r)"
  shows "apply_sync_message sha lops cops m r' = (Err (InvalidSyncMessage ''duplicate batch_id''), r')"
proof -
  have v: "validate_message sha (rcv_processed r) m = Ok ()"
    "rcv_processed r' = record_processed_batch (sm_batch_id m) (rcv_processed r)"
    using apply_processed(2) [OF a refl new] by auto
  have "sm_batch_id m \<in> pb_set (rcv_processed r')"
    using record_processed_ok(2) [OF p validate_message_Ok(5) [OF v(1)]] v(2) by simp
  then have "validate_message sha (rcv_processed r') m = Err (InvalidSyncMessage ''duplicate batch_id'')"
    using v(1) unfolding validate_message_def by (auto simp: rbind_Inr_iff rbind_def split: if_splits option.splits sum.splits)
  then show ?thesis by (simp add: apply_sync_message_def ebind_eval)
qed

end
