(* ===== verification/Sync_Safety.thy ===== *)
theory Sync_Safety
  imports Sync_Client "HOL-Library.Code_Target_Nat"
begin

text \<open>
  The properties of the replication component: durability of the file log, snapshots. The witnesses run the model on
  small file systems; \<open>Code_Target_Nat\<close> lets the size limits of the code take part in that evaluation.
\<close>

section \<open>The file log\<close>

text \<open>
  C5. No acknowledged record is lost: open a file log where no file was, append any records while any of
  the file system calls fail (writes cut short anywhere included), and reopen it, the check that the file
  exists being answered. The reopened log holds only records that were appended and no sequence above 0 twice;
  every record whose append was acknowledged under such a sequence is found at it; and the acknowledged records
  with sequence 0, which has no index, are all there, in order. The condition on the check is needed: the code
  takes a failing check for a missing file and writes an empty log over it.
\<close>

theorem file_log_durable:
  assumes p: "p = root @ path_components rel" "p \<noteq> []" "fs_nodes s p = None"
    and n: "file_log_new sha root rel s = (Ok l, s0)" and a: "file_appends sha xs l = (rs, l1)"
    and o: "file_log_new sha root rel (fl_fs l1) = (Ok l2, s2)" "stat_answers (sync_prepare p) (fl_fs l1)"
  shows "set (entries (ml_events (fl_mem l2))) \<subseteq> set xs \<and> valid_entries (entries (ml_events (fl_mem l2))) \<and>
    (\<forall>i n. i < length xs \<and> rs ! i = Ok n \<and> fst (xs ! i) > 0 \<longrightarrow>
      map_of (entries (ml_events (fl_mem l2))) (fst (xs ! i)) = Some (snd (xs ! i))) \<and>
    subseq (acked_unsequenced rs xs) (entries (ml_events (fl_mem l2)))"
proof -
  have "opens_as sha s p []" using p by (simp add: opens_as_def)
  note l = file_log_new_ok [OF n p(1,2) this disjI1 [OF p(3)]]
  note l1 = file_appends_ok [OF conjunct1 [OF l(1)] a]
  then have "opens_as sha (fl_fs l1) p (file_view sha l1)"
    using l by (auto simp: opens_as_def file_ok_def)
  note l2 = file_log_new_ok [OF o(1) p(1,2) this disjI2 [OF o(2)]]
  from l1 l l2(2) file_log.valid_view [of sha l1] show ?thesis by simp
qed

definition torn_fs :: fs where
  "torn_fs = \<lparr> fs_nodes = Map.empty, fs_faults = replicate 35 None @ [Some 5], fs_temp_counter = 0, fs_pid = 1 \<rparr>"

lemma torn_run:
  "case file_log_new (\<lambda>_. []) [] ''log'' torn_fs of
     (Inr l, _) \<Rightarrow> (case file_appends (\<lambda>_. []) [(1, [7]), (2, [8])] l of (rs, l1) \<Rightarrow>
       rs = [Ok 1, Err os_fail] \<and> stat_answers (sync_prepare [''log'']) (fl_fs l1) \<and>
       (case file_log_new (\<lambda>_. []) [] ''log'' (fl_fs l1) of (Inr _, _) \<Rightarrow> True | _ \<Rightarrow> False))
   | _ \<Rightarrow> False"
  by code_simp

lemma file_log_durable_witness:
  "\<exists>l s0 l1 l2 s2. file_log_new (\<lambda>_. []) [] ''log'' torn_fs = (Ok l, s0) \<and>
     file_appends (\<lambda>_. []) [(1, [7]), (2, [8])] l = ([Ok 1, Err os_fail], l1) \<and>
     file_log_new (\<lambda>_. []) [] ''log'' (fl_fs l1) = (Ok l2, s2) \<and>
     map_of (entries (ml_events (fl_mem l2))) 1 = Some [7]"
proof -
  obtain l s0 l1 l2 s2 where run: "file_log_new (\<lambda>_. []) [] ''log'' torn_fs = (Ok l, s0)"
    "file_appends (\<lambda>_. []) [(1, [7]), (2, [8])] l = ([Ok 1, Err os_fail], l1)"
    "file_log_new (\<lambda>_. []) [] ''log'' (fl_fs l1) = (Ok l2, s2)" "stat_answers (sync_prepare [''log'']) (fl_fs l1)"
  proof -
    obtain r s0 where 1: "file_log_new (\<lambda>_. []) [] ''log'' torn_fs = (r, s0)"
      by (cases "file_log_new (\<lambda>_. []) [] ''log'' torn_fs")
    with torn_run obtain l where l: "r = Ok l" by (cases r) auto
    obtain rs l1 where 2: "file_appends (\<lambda>_. []) [(1, [7]), (2, [8])] l = (rs, l1)"
      by (cases "file_appends (\<lambda>_. []) [(1, [7]), (2, [8])] l")
    obtain r2 s2 where 3: "file_log_new (\<lambda>_. []) [] ''log'' (fl_fs l1) = (r2, s2)"
      by (cases "file_log_new (\<lambda>_. []) [] ''log'' (fl_fs l1)")
    from torn_run obtain l2 where "r2 = Ok l2" "rs = [Ok 1, Err os_fail]" "stat_answers (sync_prepare [''log'']) (fl_fs l1)"
      by (cases r2) (simp_all add: 1 2 3 l del: file_appends.simps)
    with 1 2 3 l that show thesis by blast
  qed
  have pc: "path_components ''log'' = [''log'']" by code_simp
  from file_log_durable [OF refl _ _ run(1-3)] run(4) have
    "map_of (entries (ml_events (fl_mem l2))) (fst ([(1, [7]), (2, [8])] ! 0)) = Some (snd ([(1 :: u64, [7]), (2, [8])] ! 0))"
    by (auto simp: torn_fs_def pc)
  with run show ?thesis by auto
qed

text \<open>
  As it is: the same log with its first record, reopened while the check of existence fails, is empty on disk and
  the opening reports success.
\<close>

definition reopened_unanswered :: "nat \<Rightarrow> file_log sync_result" where
  "reopened_unanswered k = (case file_log_new (\<lambda>_. []) [] ''log'' (torn_fs\<lparr> fs_faults := [] \<rparr>) of
     (Inl e, _) \<Rightarrow> Err e
   | (Inr l, _) \<Rightarrow> (case file_append_with_sequence (\<lambda>_. []) [7] 1 l of
       (Inl e, _) \<Rightarrow> Err e
     | (Inr _, l1) \<Rightarrow> fst (file_log_new (\<lambda>_. []) [] ''log'' ((fl_fs l1)\<lparr> fs_faults := replicate k None @ [Some 0] \<rparr>))))"

lemma unanswered_check_empties_log:
  "case reopened_unanswered 3 of Inr l \<Rightarrow> ml_events (fl_mem l) = [] | Inl _ \<Rightarrow> False"
  "case reopened_unanswered 99 of Inr l \<Rightarrow> entries (ml_events (fl_mem l)) = [(1, [7])] | Inl _ \<Rightarrow> False"
  by code_simp+

text \<open>
  C9. A snapshot of a well-formed log restores that log: in memory exactly; in a file log whatever call fails,
  the file holds its old records or those of the snapshot, and on success memory and file equal the snapshotted log.
\<close>

theorem snapshot_restore_roundtrip:
  assumes l: "log_ok sha l" "length (ml_events l) < 2 ^ 64" and f: "file_ok sha f"
    and r: "file_restore_snapshot sha (mem_create_snapshot sha l) f = (r, f')"
  shows "mem_restore_snapshot sha (mem_create_snapshot sha l) l0 = (Ok (), l) \<and>
    (opens_as sha (fl_fs f') (fl_path f) (file_view sha f) \<or>
     opens_as sha (fl_fs f') (fl_path f) (entries (ml_events l))) \<and>
    (r = Ok () \<longrightarrow> fl_mem f' = l \<and> file_ok sha f' \<and> file_view sha f' = entries (ml_events l))"
proof -
  let ?xs = "entries (ml_events l)"
  have ev: "ml_events l = chain sha 0 '''' ?xs" "valid_entries ?xs" "ml_sequence_indices l = sequence_indices (ml_events l)"
    using l(1) by (auto simp: log_ok_def)
  then have v: "validate_snapshot sha (mem_create_snapshot sha l) = Ok (chain sha 0 '''' ?xs)"
    using l(2) by (simp add: mem_create_snapshot_def validate_snapshot_Ok_iff)
  have l_eq: "l = \<lparr> ml_events = chain sha 0 '''' ?xs, ml_sequence_indices = sequence_indices (chain sha 0 '''' ?xs) \<rparr>"
    using ev by (cases l) simp
  then have "mem_restore_snapshot sha (mem_create_snapshot sha l) l0 = (Ok (), l)"
    by (simp add: mem_restore_snapshot_def v)
  with file_restore_snapshot_ok [OF f v ev(2) r] l_eq show ?thesis by auto
qed


definition one_log :: mem_log where
  "one_log = snd (push_record (\<lambda>_. []) [7] 3 mem_log_new)"

lemma empty_log_ok: "log_ok sha mem_log_new"
  by (simp add: log_ok_def mem_log_new_def entries_def valid_entries_def sequence_indices_def)

lemma one_log_ok: "log_ok (\<lambda>_. []) one_log" "ml_events one_log \<noteq> []" "length (ml_events one_log) = 1"
proof -
  show "log_ok (\<lambda>_. []) one_log" unfolding one_log_def
    by (rule push_record_ok(1) [OF empty_log_ok _ _ surjective_pairing])
      (simp_all add: MAX_REPLICATION_RECORD_BYTES_def mem_log_new_def entries_def)
qed (simp_all add: one_log_def push_record_def mem_log_new_def Let_def)

lemma snapshot_restore_roundtrip_witness:
  "\<exists>f. file_ok (\<lambda>_. []) f \<and> mem_restore_snapshot (\<lambda>_. []) (mem_create_snapshot (\<lambda>_. []) one_log) mem_log_new = (Ok (), one_log) \<and>
    (let f' = snd (file_restore_snapshot (\<lambda>_. []) (mem_create_snapshot (\<lambda>_. []) one_log) f) in
     opens_as (\<lambda>_. []) (fl_fs f') (fl_path f) (file_view (\<lambda>_. []) f) \<or>
     opens_as (\<lambda>_. []) (fl_fs f') (fl_path f) (entries (ml_events one_log)))"
proof -
  let ?sha = "\<lambda>_. [] :: bytes"
  obtain f s where f: "file_log_new ?sha [] ''log'' torn_fs = (Ok f, s)"
    using torn_run by (cases "file_log_new ?sha [] ''log'' torn_fs") (auto split: sum.splits)
  have "path_components ''log'' = [''log'']" by code_simp
  then have ok: "file_ok ?sha f"
    using file_log_new_ok(1) [OF f refl, of "[]"] by (simp add: opens_as_def torn_fs_def)
  from snapshot_restore_roundtrip [OF one_log_ok(1) _ ok surjective_pairing, of mem_log_new] ok
  show ?thesis by (auto simp: one_log_ok(3) Let_def)
qed


section \<open>Replication end to end\<close>

text \<open>
  C6. The follower's log has no gaps: start a receiver on an empty file log and an empty checkpoint
  file and feed it any messages, whatever calls fail underneath and whatever each message returns.
  Then every sequence up to a peer's checkpoint is in the log, no sequence is in it twice, and it
  holds only events of those messages at the sequences the messages gave them.
\<close>

theorem receiver_log_gap_free:
  assumes l: "file_ok sha l" "file_view sha l = []" and c: "checkpoint_file_ok p c" "checkpoint_view p c = Map.empty"
    and r: "r = receive_all sha (file_log_ops sha) (file_checkpoint_ops p) ms (receiver_new l c)"
  shows "valid_entries (file_view sha (rcv_log r)) \<and>
    (\<forall>peer s h q. checkpoint_view p (rcv_checkpoints r) peer = Some (s, h) \<and> 0 < q \<and> q \<le> s \<longrightarrow>
      map_of (file_view sha (rcv_log r)) q \<noteq> None) \<and>
    set (file_view sha (rcv_log r)) \<subseteq>
      (\<Union>m\<in>set ms. (\<lambda>i. (sm_sequence_start m + of_nat i, sm_events m ! i)) ` {..<length (sm_events m)})"
proof -
  let ?r0 = "receiver_new l c"
  have i: "file_receiver.rinv sha p ?r0" "file_receiver.gap_free sha p ?r0" "file_receiver.held sha ?r0 = []"
    using l c by (auto simp: receiver_new_def file_receiver.rinv_def file_receiver.gap_free_def
        file_receiver.held_def file_receiver.reached_def file_checkpoints.last_of_def)
  have ok: "file_receiver.rinv sha p r" "file_receiver.gap_free sha p r" "set (file_receiver.held sha r) \<subseteq> set (file_receiver.held sha ?r0) \<union>
      (\<Union>m\<in>set ms. (\<lambda>i. (sm_sequence_start m + of_nat i, sm_events m ! i)) ` {..<length (sm_events m)})"
    unfolding r by (rule file_receiver.receive_all_ok [OF i(1,2)])+
  have "valid_entries (file_view sha (rcv_log r))"
    using ok(1) file_log.valid_view by (simp add: file_receiver.rinv_def)
  moreover have "\<forall>peer s h q. checkpoint_view p (rcv_checkpoints r) peer = Some (s, h) \<and> 0 < q \<and> q \<le> s \<longrightarrow>
      map_of (file_view sha (rcv_log r)) q \<noteq> None"
  proof (intro allI impI)
    fix peer s h q
    assume "checkpoint_view p (rcv_checkpoints r) peer = Some (s, h) \<and> 0 < q \<and> q \<le> s"
    then show "map_of (file_view sha (rcv_log r)) q \<noteq> None"
      using ok(2) [unfolded file_receiver.gap_free_def, rule_format, of q peer]
      by (simp add: file_receiver.reached_def file_receiver.held_def file_checkpoints.last_of_def)
  qed
  ultimately show ?thesis using ok(3) i(3) by (simp add: file_receiver.held_def)
qed

text \<open>
  C7. An accepted batch is applied: when the receiver acknowledges a batch, the checkpoint of its source
  has reached the end of the batch, the acknowledgement names that checkpoint and counts every event; and when
  the checkpoint was behind, every event of the batch is in the log at its sequence.
\<close>

theorem receiver_applies_batch:
  assumes r: "log_ok sha (rcv_log r)" "checkpoints_ok (rcv_checkpoints r)"
    "\<forall>p q s h. map_of (rcv_checkpoints r) p = Some (s, h) \<and> 0 < q \<and> q \<le> s \<longrightarrow>
       map_of (entries (ml_events (rcv_log r))) q \<noteq> None"
    and a: "apply_sync_message sha (mem_log_ops sha) mem_checkpoint_ops m r = (Ok ack, r')"
  shows "\<exists>s h. map_of (rcv_checkpoints r') (sm_source_node_id m) = Some (s, h) \<and> sm_sequence_end m \<le> s \<and>
      ack_last_sequence ack = s \<and> ack_received ack + ack_skipped ack = length (sm_events m) \<and>
      ((\<exists>s0 h0. map_of (rcv_checkpoints r) (sm_source_node_id m) = Some (s0, h0) \<and> sm_sequence_end m \<le> s0) \<or>
       (\<forall>i<length (sm_events m).
         map_of (entries (ml_events (rcv_log r'))) (sm_sequence_start m + of_nat i) = Some (sm_events m ! i)))"
proof -
  let ?p = "sm_source_node_id m"
  have i: "mem_receiver.rinv sha r" using r by (simp add: mem_receiver.rinv_def)
  have g: "mem_receiver.gap_free r"
    using r(3) unfolding mem_receiver.gap_free_def mem_receiver.reached_def mem_receiver.held_def mem_checkpoints.last_of_def
    by (auto split: option.splits) (metis (no_types, lifting) case_prod_conv not_None_eq old.prod.exhaust)
  note ok = mem_receiver.apply_ok [OF i g a]
  have re: "sm_sequence_end m \<le> mem_receiver.reached r' ?p" "ack_last_sequence ack = mem_receiver.reached r' ?p"
    "ack_received ack + ack_skipped ack = length (sm_events m)" using ok(2) by auto
  have "validate_message sha (rcv_processed r) m = Ok ()"
    using a by (auto simp: apply_sync_message_def ebind_Ok_iff elift_def)
  from validate_message_Ok(1,2,4) [OF this] have "sm_sequence_end m \<noteq> 0" by (cases "sm_events m") (auto simp: word_less_nat_alt)
  then have "mem_receiver.reached r' ?p \<noteq> 0" using re(1) by auto
  then obtain s h where s: "map_of (rcv_checkpoints r') ?p = Some (s, h)" "mem_receiver.reached r' ?p = s"
    by (auto simp: mem_receiver.reached_def mem_checkpoints.last_of_def split: option.splits)
  have "(\<exists>s0 h0. map_of (rcv_checkpoints r) ?p = Some (s0, h0) \<and> sm_sequence_end m \<le> s0) \<or>
    (\<forall>i<length (sm_events m). map_of (entries (ml_events (rcv_log r'))) (sm_sequence_start m + of_nat i) = Some (sm_events m ! i))"
  proof (cases "mem_receiver.reached r ?p < sm_sequence_end m")
    case True
    then show ?thesis using ok(3) [OF refl] by (simp add: mem_receiver.held_def)
  next
    case False
    then have "mem_receiver.reached r ?p \<noteq> 0" using \<open>sm_sequence_end m \<noteq> 0\<close> by (auto simp: word_gt_0)
    then obtain s0 h0 where "map_of (rcv_checkpoints r) ?p = Some (s0, h0)" "mem_receiver.reached r ?p = s0"
      by (auto simp: mem_receiver.reached_def mem_checkpoints.last_of_def split: option.splits)
    moreover from this(2) False have "sm_sequence_end m \<le> s0" by simp
    ultimately show ?thesis by blast
  qed
  then show ?thesis using re s(1) unfolding s(2) by blast
qed

text \<open>
  C8. Flushing returns and keeps order: on a file outbox, whatever the transport does and whatever
  file system calls fail, a flush ends; the batches that left the outbox are, in order, the ones whose posts
  succeeded, except that the last delivered one may still be at the front because its removal failed; and a
  flush that reports success has emptied the outbox.
\<close>

theorem flush_in_order:
  assumes "outbox_ok to_json from_json (fc_outbox c)"
  shows "\<exists>r c' ms. flush_queue (file_outbox_ops to_json from_json) tops c = Some (r, c') \<and>
    outbox_ok to_json from_json (fc_outbox c') \<and> delivers tops (fc_transport c) ms (fc_transport c') \<and>
    flushed (outbox_view from_json (fc_outbox c)) ms (outbox_view from_json (fc_outbox c')) \<and>
    (r = Ok () \<longrightarrow> outbox_view from_json (fc_outbox c') = [])"
  using file_outbox.flush_ok [OF assms] by blast

text \<open>
  C10. A lost acknowledgement blocks the outbox: a batch that the receiver has applied is refused as a
  duplicate when it is sent again, so a client that still has it at the front of its outbox fails every flush
  and never gets past it, with the outbox and the receiver unchanged.
\<close>

theorem lost_ack_blocks_outbox:
  assumes a: "apply_sync_message sha lops cops m r = (Ok ack, r')"
    and new: "get_last_sequence cops (sm_source_node_id m) (rcv_checkpoints r) = (Ok lst, cs)" "lst < sm_sequence_end m"
    and p: "pb_ok (rcv_processed r)" and c: "fc_outbox c = m # rest" "fc_transport c = r'"
  shows "\<exists>e c'. flush_queue mem_outbox_ops (loopback sha lops cops) c = Some (Err e, c') \<and>
    fc_outbox c' = m # rest \<and> fc_transport c' = r'"
proof -
  let ?tops = "loopback sha lops cops"
  obtain s c1 where s: "try_send_with_retry ?tops m c = (s, c1)" by (cases "try_send_with_retry ?tops m c")
  have "tp_post_sync_events ?tops m r' = (Err (InvalidSyncMessage ''duplicate batch_id''), r')"
    by (simp add: loopback_def resend_refused [OF a new p] ebind_eval)
  from try_send_refused [OF _ this _ c(2) s [unfolded try_send_with_retry_def Let_def]]
  have s1: "\<exists>e. s = Err e" "fc_transport c1 = r'" "fc_outbox c1 = fc_outbox c" by (auto simp: loopback_def)
  have f: "on_outbox (ob_front mem_outbox_ops) c = (Ok (Some m), c)"
    using c(1) by (simp add: on_outbox_def mem_outbox_ops_def front_of_def)
  from s1 f s c(1) show ?thesis by (subst flush_queue.simps) (auto simp: mem_outbox_ops_def)
qed


section \<open>Witnesses\<close>

definition calm_fs :: fs where
  "calm_fs = \<lparr> fs_nodes = Map.empty, fs_faults = [], fs_temp_counter = 0, fs_pid = 1 \<rparr>"

definition no_hash :: hash_fun where "no_hash = (\<lambda>_. [])"

definition batch_one :: sync_message where
  "batch_one = sync_message_new no_hash ''b1'' ''node'' 1 1 0 None [[7]]"

lemma calm_log: "case file_log_new no_hash [] ''log'' calm_fs of (Inr l, _) \<Rightarrow> True | _ \<Rightarrow> False"
  by code_simp

lemma calm_checkpoints: "fst (file_checkpoint_store_new [''cp''] calm_fs) = Ok ()"
  by code_simp

lemma first_batch:
  "fst (apply_sync_message no_hash (mem_log_ops no_hash) mem_checkpoint_ops batch_one (receiver_new mem_log_new [])) =
     Ok \<lparr> ack_accepted = True, ack_received = 1, ack_skipped = 0, ack_last_sequence = 1 \<rparr>"
  by code_simp

lemma receiver_log_gap_free_witness:
  "\<exists>l c. file_ok no_hash l \<and> file_view no_hash l = [] \<and> checkpoint_file_ok [''cp''] c \<and> checkpoint_view [''cp''] c = Map.empty \<and>
    (let r = receive_all no_hash (file_log_ops no_hash) (file_checkpoint_ops [''cp'']) [batch_one] (receiver_new l c) in
     valid_entries (file_view no_hash (rcv_log r)) \<and> set (file_view no_hash (rcv_log r)) \<subseteq> {(1, [7])})"
proof -
  obtain l s where l: "file_log_new no_hash [] ''log'' calm_fs = (Ok l, s)"
    using calm_log by (cases "file_log_new no_hash [] ''log'' calm_fs") (auto split: sum.splits)
  have "path_components ''log'' = [''log'']" by code_simp
  then have ok: "file_ok no_hash l" "file_view no_hash l = []"
    using file_log_new_ok(1) [OF l refl, of "[]"] by (simp_all add: opens_as_def calm_fs_def)
  obtain c where c: "file_checkpoint_store_new [''cp''] calm_fs = (Ok (), c)"
    using calm_checkpoints by (cases "file_checkpoint_store_new [''cp''] calm_fs") auto
  have cp: "checkpoint_file_ok [''cp''] c" "checkpoint_view [''cp''] c = Map.empty"
    using file_checkpoint_store_new_ok [OF c] by (simp_all add: calm_fs_def checkpoint_view_def)
  have b: "sm_sequence_start batch_one = 1" "sm_events batch_one = [[7]]"
    by (simp_all add: batch_one_def sync_message_new_def)
  from receiver_log_gap_free [OF ok cp refl, of "[batch_one]"] ok cp b show ?thesis
    by (auto simp: Let_def lessThan_Suc)
qed

lemma receiver_applies_batch_witness:
  "\<exists>ack r'. apply_sync_message no_hash (mem_log_ops no_hash) mem_checkpoint_ops batch_one (receiver_new mem_log_new []) = (Ok ack, r') \<and>
    map_of (entries (ml_events (rcv_log r'))) 1 = Some [7]"
proof -
  let ?r = "receiver_new mem_log_new [] :: (mem_log, checkpoint_map) receiver"
  obtain ack r' where a: "apply_sync_message no_hash (mem_log_ops no_hash) mem_checkpoint_ops batch_one ?r = (Ok ack, r')"
    using first_batch by (cases "apply_sync_message no_hash (mem_log_ops no_hash) mem_checkpoint_ops batch_one ?r") auto
  have b: "sm_sequence_start batch_one = 1" "sm_events batch_one = [[7]]"
    by (simp_all add: batch_one_def sync_message_new_def)
  have i: "log_ok no_hash (rcv_log ?r)" "checkpoints_ok (rcv_checkpoints ?r)" "rcv_checkpoints ?r = []"
    by (simp_all add: receiver_new_def empty_log_ok checkpoints_ok_def)
  from receiver_applies_batch [OF i(1,2) _ a] i(3) b a show ?thesis by auto
qed

definition one_to_json :: json_encoder where
  "one_to_json m = (if m = batch_one then Some [123] else None)"

definition one_from_json :: json_decoder where
  "one_from_json bs = (if bs = [123] then Some batch_one else None)"

definition outbox_one :: file_outbox where
  "outbox_one = \<lparr> fo_fs = calm_fs\<lparr> fs_nodes := [[''ob''] \<mapsto> FileNode (text_bytes (outbox_text one_to_json [batch_one]))] \<rparr>,
     fo_path = [''ob''], fo_messages = [] \<rparr>"

lemma outbox_one_ok: "outbox_ok one_to_json one_from_json outbox_one" "outbox_view one_from_json outbox_one = [batch_one]"
proof -
  have "json_ok one_to_json one_from_json" by (simp add: json_ok_def one_to_json_def one_from_json_def)
  from outbox_okI [OF this, of outbox_one "[batch_one]"]
  show "outbox_ok one_to_json one_from_json outbox_one" "outbox_view one_from_json outbox_one = [batch_one]"
    by (simp_all add: outbox_one_def outbox_holds_def encodable_def one_to_json_def)
qed

definition client_one :: "(file_outbox, (mem_log, checkpoint_map) receiver) follower_client" where
  "client_one = with_outbox outbox_one (follower_client_new (receiver_new mem_log_new []))"

lemma flush_in_order_witness:
  "\<exists>r c' ms. flush_queue (file_outbox_ops one_to_json one_from_json)
      (loopback no_hash (mem_log_ops no_hash) mem_checkpoint_ops) client_one = Some (r, c') \<and>
    flushed [batch_one] ms (outbox_view one_from_json (fc_outbox c'))"
  using flush_in_order [of one_to_json one_from_json client_one "loopback no_hash (mem_log_ops no_hash) mem_checkpoint_ops"]
    outbox_one_ok by (auto simp: client_one_def with_outbox_def follower_client_new_def)

lemma lost_ack_blocks_outbox_witness:
  "\<exists>ack r' e c'. apply_sync_message no_hash (mem_log_ops no_hash) mem_checkpoint_ops batch_one (receiver_new mem_log_new []) = (Ok ack, r') \<and>
     flush_queue mem_outbox_ops (loopback no_hash (mem_log_ops no_hash) mem_checkpoint_ops)
       (with_outbox [batch_one] (follower_client_new r')) = Some (Err e, c') \<and> fc_outbox c' = [batch_one]"
proof -
  let ?r = "receiver_new mem_log_new [] :: (mem_log, checkpoint_map) receiver"
  obtain ack r' where a: "apply_sync_message no_hash (mem_log_ops no_hash) mem_checkpoint_ops batch_one ?r = (Ok ack, r')"
    using first_batch by (cases "apply_sync_message no_hash (mem_log_ops no_hash) mem_checkpoint_ops batch_one ?r") auto
  have g: "get_last_sequence mem_checkpoint_ops (sm_source_node_id batch_one) (rcv_checkpoints ?r) = (Ok 0, [])" by code_simp
  have e: "(0 :: u64) < sm_sequence_end batch_one" by (simp add: batch_one_def sync_message_new_def)
  have p: "pb_ok (rcv_processed ?r)" by (simp add: pb_ok_def receiver_new_def)
  from lost_ack_blocks_outbox [OF a g e p, of "with_outbox [batch_one] (follower_client_new r')" "[]"] a
  show ?thesis by (auto simp: with_outbox_def follower_client_new_def)
qed

end
