(* ===== verification/Rpc_Nonce.thy ===== *)
theory Rpc_Nonce
  imports File_System
begin

text \<open>
  Replay protection of \<open>appcore-peer-rpc\<close>: the nonce store in memory (\<open>nonce.rs\<close>) and the bounded replay store
  (\<open>replay.rs\<close>). The interface \<open>nonce_store\<close> says what the validator relies on: an accepted nonce is
  recorded, and until its recorded expiry it is kept and refused. Both stores keep it.
\<close>

datatype peer_rpc_error =
  PayloadTooLarge | Unauthorized | Forbidden | EndpointUnavailable | TenantMismatch | ClusterMismatch
  | TargetMismatch | ProtocolMismatch | Expired | NonceReplay | NonceCacheFull | InvalidBodyHash
  | InvalidResponse string | Transport string | InvalidEnvelope string

type_synonym 'a rpc_result = "peer_rpc_error + 'a"

type_synonym 's nonce_check = "string \<Rightarrow> u64 \<Rightarrow> u64 \<Rightarrow> ('s, peer_rpc_error, unit) eff"

definition MAX_NONCE_CACHE_ENTRIES :: nat where "MAX_NONCE_CACHE_ENTRIES = 65536"

section \<open>The interface\<close>

text \<open>\<open>live\<close> is the expiry a store has recorded; \<open>hold\<close> is the expiry it records for a requested one.\<close>

locale nonce_store =
  fixes check :: "'s nonce_check" and inv :: "'s \<Rightarrow> bool" and live :: "'s \<Rightarrow> string \<Rightarrow> u64 option"
    and hold :: "u64 \<Rightarrow> u64 \<Rightarrow> u64"
  assumes check_keeps: "inv s \<Longrightarrow> check n e now s = (r, s') \<Longrightarrow>
      inv s' \<and> (\<forall>m x. live s m = Some x \<and> now < x \<longrightarrow> live s' m = Some x)"
    and check_refuses: "inv s \<Longrightarrow> live s n = Some x \<Longrightarrow> now < x \<Longrightarrow> check n e now s = (r, s') \<Longrightarrow> r \<noteq> Ok ()"
    and check_records: "inv s \<Longrightarrow> check n e now s = (Ok (), s') \<Longrightarrow> live s' n = Some (hold e now)"

section \<open>The store in memory\<close>

record nonce_memory =
  nm_seen :: "(string, u64) omap"
  nm_order :: "string list"

definition nonce_memory_default :: nonce_memory where
  "nonce_memory_default = \<lparr> nm_seen = [], nm_order = [] \<rparr>"

fun retain_loop :: "u64 \<Rightarrow> (string, u64) omap \<Rightarrow> string list \<Rightarrow> (string, u64) omap \<times> string list" where
  "retain_loop now_ms seen [] = (seen, [])"
| "retain_loop now_ms seen (front # rest) =
     (if (case map_of seen front of Some expires_at_ms \<Rightarrow> expires_at_ms \<le> now_ms | None \<Rightarrow> True)
      then retain_loop now_ms (om_del front seen) rest
      else (seen, front # rest))"

definition retain_memory :: "u64 \<Rightarrow> nonce_memory \<Rightarrow> nonce_memory" where
  "retain_memory now_ms s = (case retain_loop now_ms (nm_seen s) (nm_order s) of (seen, order) \<Rightarrow>
     \<lparr> nm_seen = seen, nm_order = order \<rparr>)"

definition mem_check_and_record :: "nonce_memory nonce_check" where
  "mem_check_and_record nonce expires_at_ms now_ms s =
     (let s = retain_memory now_ms s
      in if om_has (nm_seen s) nonce then (Err NonceReplay, s)
         else if MAX_NONCE_CACHE_ENTRIES \<le> length (nm_seen s) then (Err NonceCacheFull, s)
         else (Ok (), \<lparr> nm_seen = om_put nonce expires_at_ms (nm_seen s), nm_order = nm_order s @ [nonce] \<rparr>))"

definition nonce_memory_ok :: "nonce_memory \<Rightarrow> bool" where
  "nonce_memory_ok s \<longleftrightarrow> omap_ok (nm_seen s) \<and> set (nm_order s) = dom (map_of (nm_seen s)) \<and> distinct (nm_order s) \<and>
     length (nm_seen s) \<le> MAX_NONCE_CACHE_ENTRIES"

lemma om_del_length_le: "length (om_del k m) \<le> length m"
  by (simp add: om_del_def)

lemma retain_loop_ok:
  assumes "omap_ok seen" "set order = dom (map_of seen)" "distinct order" "retain_loop now seen order = (seen', order')"
  shows "omap_ok seen' \<and> set order' = dom (map_of seen') \<and> distinct order' \<and> length seen' \<le> length seen \<and>
    (\<forall>m x. map_of seen m = Some x \<and> now < x \<longrightarrow> map_of seen' m = Some x)"
  using assms
proof (induction now seen order rule: retain_loop.induct)
  case (2 now seen front rest)
  let ?gone = "case map_of seen front of Some e \<Rightarrow> e \<le> now | None \<Rightarrow> True"
  show ?case
  proof (cases ?gone)
    case True
    have "dom (map_of (om_del front seen)) = set (front # rest) - {front}"
      unfolding 2(3) by simp
    then have "set rest = dom (map_of (om_del front seen))" using 2(4) by simp
    from "2.IH" [OF True omap_ok_del [OF 2(2)] this] 2(4,5) True
    have IH: "omap_ok seen' \<and> set order' = dom (map_of seen') \<and> distinct order' \<and> length seen' \<le> length (om_del front seen) \<and>
      (\<forall>m x. map_of (om_del front seen) m = Some x \<and> now < x \<longrightarrow> map_of seen' m = Some x)" by simp
    have "map_of seen' m = Some x" if "map_of seen m = Some x" "now < x" for m x
    proof -
      have "m \<noteq> front" using True that by auto
      then show ?thesis using IH that by simp
    qed
    then show ?thesis using IH om_del_length_le [of front seen] by simp
  next
    case False
    then show ?thesis using 2(2-5) by auto
  qed
qed auto

lemma retain_memory_ok:
  assumes "nonce_memory_ok s"
  shows "nonce_memory_ok (retain_memory now s)"
    "map_of (nm_seen s) m = Some x \<Longrightarrow> now < x \<Longrightarrow> map_of (nm_seen (retain_memory now s)) m = Some x"
proof -
  obtain seen order where r: "retain_loop now (nm_seen s) (nm_order s) = (seen, order)"
    by (cases "retain_loop now (nm_seen s) (nm_order s)")
  have s: "omap_ok (nm_seen s)" "set (nm_order s) = dom (map_of (nm_seen s))" "distinct (nm_order s)"
    using assms by (simp_all add: nonce_memory_ok_def)
  note k = retain_loop_ok [OF s r]
  have eq: "retain_memory now s = \<lparr> nm_seen = seen, nm_order = order \<rparr>" by (simp add: retain_memory_def r)
  show "nonce_memory_ok (retain_memory now s)" using k assms unfolding eq nonce_memory_ok_def by auto
  show "map_of (nm_seen s) m = Some x \<Longrightarrow> now < x \<Longrightarrow> map_of (nm_seen (retain_memory now s)) m = Some x"
    using k unfolding eq by simp
qed

interpretation mem_nonces: nonce_store mem_check_and_record nonce_memory_ok "\<lambda>s. map_of (nm_seen s)" "\<lambda>e now. e"
proof
  fix s :: nonce_memory and n e now r s'
  assume s: "nonce_memory_ok s" and c: "mem_check_and_record n e now s = (r, s')"
  note k = retain_memory_ok [OF s, where now = now]
  let ?s = "retain_memory now s"
  have om: "omap_ok (nm_seen ?s)" using k(1) by (simp add: nonce_memory_ok_def)
  consider (same) "s' = ?s" "r \<noteq> Ok ()"
    | (added) "\<not> om_has (nm_seen ?s) n" "length (nm_seen ?s) < MAX_NONCE_CACHE_ENTRIES" "r = Ok ()"
        "s' = \<lparr> nm_seen = om_put n e (nm_seen ?s), nm_order = nm_order ?s @ [n] \<rparr>"
    using c by (auto simp: mem_check_and_record_def Let_def split: if_splits)
  then show "nonce_memory_ok s' \<and> (\<forall>m x. map_of (nm_seen s) m = Some x \<and> now < x \<longrightarrow> map_of (nm_seen s') m = Some x)"
  proof cases
    case added
    then have "nonce_memory_ok s'"
      using k(1) om by (auto simp: nonce_memory_ok_def om_has_def om_put_length)
    moreover have "map_of (nm_seen ?s) n = None" using added(1) by (simp add: om_has_def)
    ultimately show ?thesis using added(4) k(2) om by auto
  qed (use k in auto)
next
  fix s :: nonce_memory and n x now e r s'
  assume "nonce_memory_ok s" "map_of (nm_seen s) n = Some x" "now < x" "mem_check_and_record n e now s = (r, s')"
  then show "r \<noteq> Ok ()" using retain_memory_ok(2) [of s n x now]
    by (auto simp: mem_check_and_record_def Let_def om_has_def split: if_splits)
next
  fix s :: nonce_memory and n e now s'
  assume "nonce_memory_ok s" "mem_check_and_record n e now s = (Ok (), s')"
  then show "map_of (nm_seen s') n = Some e" using retain_memory_ok(1) [of s now]
    by (auto simp: mem_check_and_record_def Let_def nonce_memory_ok_def split: if_splits)
qed

section \<open>The bounded replay store\<close>

record replay_store_config =
  rc_max_entries :: nat
  rc_ttl_ms :: u64
  rc_cleanup_interval_ms :: u64

definition replay_store_config_new :: "nat \<Rightarrow> u64 \<Rightarrow> u64 \<Rightarrow> replay_store_config rpc_result" where
  "replay_store_config_new max_entries ttl_ms cleanup_interval_ms =
     (if max_entries = 0 \<or> ttl_ms = 0 \<or> cleanup_interval_ms = 0
      then Err (InvalidEnvelope ''replay_store_policy_invalid'')
      else Ok \<lparr> rc_max_entries = max_entries, rc_ttl_ms = ttl_ms, rc_cleanup_interval_ms = cleanup_interval_ms \<rparr>)"

definition replay_store_config_default :: replay_store_config where
  "replay_store_config_default = \<lparr> rc_max_entries = MAX_NONCE_CACHE_ENTRIES, rc_ttl_ms = 60000, rc_cleanup_interval_ms = 1000 \<rparr>"

record replay_store_metrics =
  rm_entries :: nat
  rm_accepted :: u64
  rm_replays :: u64
  rm_expired :: u64
  rm_capacity_rejections :: u64
  rm_cleanups :: u64

record replay_state =
  rs_entries :: "(string, u64) omap"
  rs_lru :: "string list"
  rs_last_cleanup_ms :: u64
  rs_metrics :: replay_store_metrics

definition replay_state_default :: replay_state where
  "replay_state_default = \<lparr> rs_entries = [], rs_lru = [], rs_last_cleanup_ms = 0,
     rs_metrics = \<lparr> rm_entries = 0, rm_accepted = 0, rm_replays = 0, rm_expired = 0, rm_capacity_rejections = 0, rm_cleanups = 0 \<rparr> \<rparr>"

definition cleanup_locked :: "u64 \<Rightarrow> replay_state \<Rightarrow> nat \<times> replay_state" where
  "cleanup_locked now_ms s =
     (let before = length (rs_entries s);
          entries = om_retain (\<lambda>_ expiry. now_ms < expiry) (rs_entries s);
          lru = filter (om_has entries) (rs_lru s);
          removed = before - length entries;
          m = rs_metrics s
      in (removed, \<lparr> rs_entries = entries, rs_lru = lru, rs_last_cleanup_ms = now_ms,
           rs_metrics = m\<lparr> rm_expired := sat_add (rm_expired m) (of_nat removed),
             rm_cleanups := sat_add (rm_cleanups m) 1, rm_entries := length entries \<rparr> \<rparr>))"

definition cleanup_if_due :: "replay_store_config \<Rightarrow> u64 \<Rightarrow> replay_state \<Rightarrow> replay_state" where
  "cleanup_if_due cfg now_ms s =
     (if rc_cleanup_interval_ms cfg \<le> sat_sub now_ms (rs_last_cleanup_ms s) then snd (cleanup_locked now_ms s) else s)"

definition touch_lru :: "string \<Rightarrow> replay_state \<Rightarrow> replay_state" where
  "touch_lru identity s = s\<lparr> rs_lru := remove1 identity (rs_lru s) @ [identity] \<rparr>"

definition bounded_check_and_record :: "replay_store_config \<Rightarrow> replay_state nonce_check" where
  "bounded_check_and_record cfg nonce expires_at_ms now_ms s =
     (if nonce = '''' \<or> expires_at_ms \<le> now_ms then (Err (InvalidEnvelope ''replay_identity_invalid''), s)
      else let s = cleanup_if_due cfg now_ms s
        in if om_has (rs_entries s) nonce
           then let s = touch_lru nonce s
             in (Err NonceReplay, s\<lparr> rs_metrics := (rs_metrics s)\<lparr> rm_replays := sat_add (rm_replays (rs_metrics s)) 1 \<rparr> \<rparr>)
           else let s = (if rc_max_entries cfg \<le> length (rs_entries s) then snd (cleanup_locked now_ms s) else s)
             in if rc_max_entries cfg \<le> length (rs_entries s)
                then (Err NonceCacheFull, s\<lparr> rs_metrics := (rs_metrics s)\<lparr>
                   rm_capacity_rejections := sat_add (rm_capacity_rejections (rs_metrics s)) 1 \<rparr> \<rparr>)
                else let ttl_expiry = sat_add now_ms (rc_ttl_ms cfg);
                         entries = om_put nonce (min expires_at_ms ttl_expiry) (rs_entries s)
                  in (Ok (), s\<lparr> rs_entries := entries, rs_lru := rs_lru s @ [nonce],
                       rs_metrics := (rs_metrics s)\<lparr> rm_accepted := sat_add (rm_accepted (rs_metrics s)) 1,
                         rm_entries := length entries \<rparr> \<rparr>))"

definition replay_cleanup :: "u64 \<Rightarrow> (replay_state, peer_rpc_error, nat) eff" where
  "replay_cleanup now_ms s = (case cleanup_locked now_ms s of (removed, s') \<Rightarrow> (Ok removed, s'))"

definition replay_metrics :: "replay_state \<Rightarrow> replay_store_metrics" where
  "replay_metrics s = rs_metrics s"

definition replay_ok :: "replay_store_config \<Rightarrow> replay_state \<Rightarrow> bool" where
  "replay_ok cfg s \<longleftrightarrow> omap_ok (rs_entries s) \<and> length (rs_entries s) \<le> rc_max_entries cfg \<and>
     distinct (rs_lru s) \<and> set (rs_lru s) = dom (map_of (rs_entries s)) \<and> rm_entries (rs_metrics s) = length (rs_entries s)"

lemma cleanup_ok:
  assumes "replay_ok cfg s"
  shows "replay_ok cfg (snd (cleanup_locked now s))"
    "map_of (rs_entries (snd (cleanup_locked now s))) m =
       (case map_of (rs_entries s) m of Some x \<Rightarrow> if now < x then Some x else None | None \<Rightarrow> None)"
proof -
  have om: "omap_ok (rs_entries s)" using assms by (simp add: replay_ok_def)
  show look: "map_of (rs_entries (snd (cleanup_locked now s))) m =
       (case map_of (rs_entries s) m of Some x \<Rightarrow> if now < x then Some x else None | None \<Rightarrow> None)" for m
    using om by (simp add: cleanup_locked_def Let_def map_of_om_retain split: option.splits)
  have "length (om_retain (\<lambda>_ expiry. now < expiry) (rs_entries s)) \<le> rc_max_entries cfg"
    using assms om_retain_length_le [of "\<lambda>_ expiry. now < expiry" "rs_entries s"] by (simp add: replay_ok_def)
  moreover have "set (filter (om_has (om_retain (\<lambda>_ expiry. now < expiry) (rs_entries s))) (rs_lru s)) =
      dom (map_of (om_retain (\<lambda>_ expiry. now < expiry) (rs_entries s)))"
    using assms om by (auto simp: replay_ok_def om_has_def map_of_om_retain split: option.splits if_splits)
  ultimately show "replay_ok cfg (snd (cleanup_locked now s))"
    using assms om by (auto simp: replay_ok_def cleanup_locked_def Let_def)
qed

lemma cleanup_if_due_ok:
  assumes "replay_ok cfg s"
  shows "replay_ok cfg (cleanup_if_due cfg now s)"
    "map_of (rs_entries s) m = Some x \<Longrightarrow> now < x \<Longrightarrow> map_of (rs_entries (cleanup_if_due cfg now s)) m = Some x"
  using cleanup_ok [OF assms, where now = now] assms by (auto simp: cleanup_if_due_def)

lemma bounded_check_cases:
  assumes s: "replay_ok cfg s" and c: "bounded_check_and_record cfg n e now s = (r, s')"
  obtains (refused) "r \<noteq> Ok ()" "replay_ok cfg s'" "\<forall>m x. map_of (rs_entries s) m = Some x \<and> now < x \<longrightarrow> map_of (rs_entries s') m = Some x"
  | (accepted) s1 where "r = Ok ()" "replay_ok cfg s'" "replay_ok cfg s1"
      "\<forall>m x. map_of (rs_entries s) m = Some x \<and> now < x \<longrightarrow> map_of (rs_entries s1) m = Some x"
      "map_of (rs_entries s1) n = None" "rs_entries s' = om_put n (min e (sat_add now (rc_ttl_ms cfg))) (rs_entries s1)"
proof -
  let ?s1 = "cleanup_if_due cfg now s"
  note k1 = cleanup_if_due_ok [OF s, where now = now]
  let ?s2 = "if rc_max_entries cfg \<le> length (rs_entries ?s1) then snd (cleanup_locked now ?s1) else ?s1"
  have k2: "replay_ok cfg ?s2" using cleanup_ok(1) [OF k1(1), where now = now] k1(1) by simp
  have l2: "\<forall>m x. map_of (rs_entries s) m = Some x \<and> now < x \<longrightarrow> map_of (rs_entries ?s2) m = Some x"
    using k1(2) cleanup_ok(2) [OF k1(1), where now = now] by auto
  show thesis
  proof (cases "n = '''' \<or> e \<le> now \<or> om_has (rs_entries ?s1) n \<or> rc_max_entries cfg \<le> length (rs_entries ?s2)")
    case True
    then have "r \<noteq> Ok () \<and> (s' = s \<or> (\<exists>m. s' = (touch_lru n ?s1)\<lparr> rs_metrics := m \<rparr> \<and> om_has (rs_entries ?s1) n \<and>
        rm_entries m = rm_entries (rs_metrics ?s1)) \<or>
      (\<exists>m. s' = ?s2\<lparr> rs_metrics := m \<rparr> \<and> rm_entries m = rm_entries (rs_metrics ?s2)))"
      using c unfolding bounded_check_and_record_def Let_def touch_lru_def by (auto split: if_splits)
    moreover have "replay_ok cfg ((touch_lru n ?s1)\<lparr> rs_metrics := m \<rparr>)"
      if "om_has (rs_entries ?s1) n" "rm_entries m = rm_entries (rs_metrics ?s1)" for m
      using k1(1) that by (auto simp: replay_ok_def touch_lru_def om_has_def)
    ultimately show thesis using s k1 k2 l2
      by (intro refused) (auto simp: replay_ok_def touch_lru_def)
  next
    case False
    let ?entries = "om_put n (min e (sat_add now (rc_ttl_ms cfg))) (rs_entries ?s2)"
    have none: "map_of (rs_entries ?s2) n = None"
      using False cleanup_ok(2) [OF k1(1), where now = now and m = n] by (auto simp: om_has_def)
    have res: "r = Ok ()" "rs_entries s' = ?entries" "rs_lru s' = rs_lru ?s2 @ [n]" "rm_entries (rs_metrics s') = length ?entries"
      using c False unfolding bounded_check_and_record_def Let_def by (auto split: if_splits)
    have "replay_ok cfg s'"
      using res k2 none False by (auto simp: replay_ok_def om_put_length om_has_def)
    then show thesis using accepted [of ?s2] res k2 l2 none by blast
  qed
qed

interpretation bounded_nonces: nonce_store "bounded_check_and_record cfg" "replay_ok cfg" "\<lambda>s. map_of (rs_entries s)"
  "\<lambda>e now. min e (sat_add now (rc_ttl_ms cfg))"
proof
  fix s n e now r s'
  assume s: "replay_ok cfg s" and c: "bounded_check_and_record cfg n e now s = (r, s')"
  show "replay_ok cfg s' \<and> (\<forall>m x. map_of (rs_entries s) m = Some x \<and> now < x \<longrightarrow> map_of (rs_entries s') m = Some x)"
    using s c
  proof (cases rule: bounded_check_cases)
    case (accepted s1)
    then show ?thesis by (auto simp: replay_ok_def)
  qed auto
  show "r \<noteq> Ok ()" if "map_of (rs_entries s) n = Some x" "now < x" for x
    using s c that by (cases rule: bounded_check_cases) auto
next
  fix s n e now s'
  assume s: "replay_ok cfg s" and c: "bounded_check_and_record cfg n e now s = (Ok (), s')"
  then show "map_of (rs_entries s') n = Some (min e (sat_add now (rc_ttl_ms cfg)))"
    by (cases rule: bounded_check_cases) (auto simp: replay_ok_def)
qed

end
