(* ===== verification/Peer_Rpc.thy ===== *)
theory Peer_Rpc
  imports Rpc_Nonce Identity Text_Format
begin

text \<open>
  Direct calls between Cores: the wire contract (\<open>appcore-distributed-contracts\<close>, \<open>peer_rpc/v1.rs\<close>), and of \<open>appcore-peer-rpc\<close> the validator, the request handling of the host
  and the retrying client (\<open>validation.rs\<close>, \<open>host.rs\<close>, \<open>client.rs\<close>, \<open>transport.rs\<close>). The nonce store is a
  parameter that keeps the interface of \<open>Rpc_Nonce\<close>; SHA-256, JSON, gzip, the token provider, the
  dispatcher, the clock and the network are parameters as well.
\<close>

section \<open>Envelopes\<close>

record peer_rpc_envelope =
  pe_request_id :: string
  pe_trace_id :: string
  pe_protocol_version :: u16
  pe_source_core_id :: string
  pe_target_core_id :: string
  pe_tenant_id :: string
  pe_cluster_id :: string
  pe_timestamp_ms :: u64
  pe_expires_at_ms :: u64
  pe_nonce :: string
  pe_capability :: string
  pe_payload :: bytes
  pe_idempotency_key :: "string option"
  pe_body_hash :: string
  pe_trace :: "trace_context option"

type_synonym digest = "bytes \<Rightarrow> bytes"

definition payload_hash :: "digest \<Rightarrow> bytes \<Rightarrow> string" where
  "payload_hash sha payload = bytes_to_hex (sha payload)"

definition peer_rpc_envelope_new ::
    "digest \<Rightarrow> string \<Rightarrow> string \<Rightarrow> string \<Rightarrow> string \<Rightarrow> string \<Rightarrow> string \<Rightarrow> u64 \<Rightarrow> u64 \<Rightarrow> string \<Rightarrow> string \<Rightarrow> bytes \<Rightarrow>
     string option \<Rightarrow> trace_context option \<Rightarrow> peer_rpc_envelope" where
  "peer_rpc_envelope_new sha request_id trace_id source_core_id target_core_id tenant_id cluster_id timestamp_ms
     expires_at_ms nonce capability payload idempotency_key trace =
     \<lparr> pe_request_id = request_id, pe_trace_id = trace_id, pe_protocol_version = 1, pe_source_core_id = source_core_id,
       pe_target_core_id = target_core_id, pe_tenant_id = tenant_id, pe_cluster_id = cluster_id,
       pe_timestamp_ms = timestamp_ms, pe_expires_at_ms = expires_at_ms, pe_nonce = nonce, pe_capability = capability,
       pe_payload = payload, pe_idempotency_key = idempotency_key, pe_body_hash = payload_hash sha payload, pe_trace = trace \<rparr>"

record peer_rpc_response =
  pr_ok :: bool
  pr_request_id :: string
  pr_payload :: bytes
  pr_error :: "string option"

definition response_ok :: "string \<Rightarrow> bytes \<Rightarrow> peer_rpc_response" where
  "response_ok request_id payload = \<lparr> pr_ok = True, pr_request_id = request_id, pr_payload = payload, pr_error = None \<rparr>"

definition response_rejected :: "string \<Rightarrow> string \<Rightarrow> peer_rpc_response" where
  "response_rejected request_id err = \<lparr> pr_ok = False, pr_request_id = request_id, pr_payload = [], pr_error = Some err \<rparr>"

datatype peer_rpc_call_kind = Query | Command

record peer_rpc_outbound_request =
  po_request_id :: string
  po_target_core_id :: string
  po_capability :: string
  po_payload :: bytes
  po_idempotency_key :: "string option"
  po_trace :: "trace_context option"

section \<open>The validator\<close>

definition MAX_ENVELOPE_OVERHEAD_BYTES :: nat where "MAX_ENVELOPE_OVERHEAD_BYTES = 65536"

record validation_config =
  vc_local_tenant_id :: string
  vc_local_cluster_id :: string
  vc_local_core_id :: string
  vc_max_payload_bytes :: nat
  vc_nonce_window_ms :: u64

record validator =
  va_config :: validation_config
  va_protocol_version :: u16

definition validator_new :: "validation_config \<Rightarrow> validator" where
  "validator_new config = \<lparr> va_config = config, va_protocol_version = 1 \<rparr>"

definition with_protocol_version :: "u16 \<Rightarrow> validator \<Rightarrow> validator" where
  "with_protocol_version v va = va\<lparr> va_protocol_version := v \<rparr>"

text \<open>\<open>usize\<close> saturates at 64 bits.\<close>

definition max_peer_envelope_bytes :: "validator \<Rightarrow> nat" where
  "max_peer_envelope_bytes va =
     min (2 ^ 64 - 1) (min (2 ^ 64 - 1) (vc_max_payload_bytes (va_config va) * 4) + MAX_ENVELOPE_OVERHEAD_BYTES)"

fun validate_all :: "string \<Rightarrow> (identifier_error + unit) list \<Rightarrow> unit rpc_result" where
  "validate_all reason [] = Ok ()"
| "validate_all reason (r # rest) = rbind (map_err (\<lambda>_. InvalidEnvelope reason) r) (\<lambda>_. validate_all reason rest)"

definition validate_envelope_identifiers :: "peer_rpc_envelope \<Rightarrow> unit rpc_result" where
  "validate_envelope_identifiers e =
     rbind (validate_all ''invalid_identifier''
       [validate_identifier (pe_request_id e), validate_identifier (pe_trace_id e), validate_identifier (pe_nonce e)]) (\<lambda>_.
     rbind (case pe_idempotency_key e of
         Some k \<Rightarrow> map_err (\<lambda>_. InvalidEnvelope ''invalid_idempotency_key'') (validate_identifier k) | None \<Rightarrow> Ok ()) (\<lambda>_.
     validate_all ''invalid_identifier''
       [validate_distributed_identifier (pe_source_core_id e), validate_distributed_identifier (pe_target_core_id e),
        validate_distributed_identifier (pe_tenant_id e), validate_distributed_identifier (pe_cluster_id e),
        validate_identifier (pe_capability e)]))"

definition envelope_current :: "u64 \<Rightarrow> peer_rpc_envelope \<Rightarrow> u64 \<Rightarrow> bool" where
  "envelope_current window_ms e now_ms \<longleftrightarrow>
     \<not> (pe_expires_at_ms e \<le> pe_timestamp_ms e \<or> pe_expires_at_ms e \<le> now_ms \<or>
        sat_add now_ms window_ms < pe_timestamp_ms e \<or> sat_add (pe_timestamp_ms e) window_ms < now_ms)"

definition trace_matches :: "peer_rpc_envelope \<Rightarrow> bool" where
  "trace_matches e = (case pe_trace e of None \<Rightarrow> True | Some trace \<Rightarrow>
     tr_trace_id trace = pe_trace_id e \<and> tr_tenant_id trace = pe_tenant_id e \<and> tr_current_core_id trace = pe_source_core_id e)"

definition validate ::
    "digest \<Rightarrow> 's nonce_check \<Rightarrow> validator \<Rightarrow> peer_rpc_envelope \<Rightarrow> u64 \<Rightarrow> ('s, peer_rpc_error, unit) eff" where
  "validate sha check va e now_ms =
     ebind (elift (\<lambda>_. validate_envelope_identifiers e)) (\<lambda>_.
       if vc_max_payload_bytes (va_config va) < length (pe_payload e) then efail PayloadTooLarge
       else if pe_tenant_id e \<noteq> vc_local_tenant_id (va_config va) then efail TenantMismatch
       else if pe_cluster_id e \<noteq> vc_local_cluster_id (va_config va) then efail ClusterMismatch
       else if pe_target_core_id e \<noteq> vc_local_core_id (va_config va) then efail TargetMismatch
       else if va_protocol_version va \<noteq> pe_protocol_version e then efail ProtocolMismatch
       else let window_ms = max (vc_nonce_window_ms (va_config va)) 1
         in if \<not> envelope_current window_ms e now_ms then efail Expired
            else if pe_body_hash e \<noteq> payload_hash sha (pe_payload e) then efail InvalidBodyHash
            else if \<not> trace_matches e then efail (InvalidEnvelope ''trace_context_mismatch'')
            else check (pe_nonce e) (min (pe_expires_at_ms e) (sat_add now_ms window_ms)) now_ms)"

section \<open>What a token signs\<close>

definition hash_field :: "bytes \<Rightarrow> bytes" where
  "hash_field bs = u64_be (of_nat (length bs)) @ bs"

definition hash_optional_field :: "string option \<Rightarrow> bytes" where
  "hash_optional_field v = (case v of Some s \<Rightarrow> [1] @ hash_field (text_bytes s) | None \<Rightarrow> [0])"

definition signing_input :: "peer_rpc_envelope \<Rightarrow> bytes" where
  "signing_input e =
     hash_field (text_bytes (pe_request_id e)) @ hash_field (text_bytes (pe_trace_id e)) @ u16_be (pe_protocol_version e) @
     hash_field (text_bytes (pe_source_core_id e)) @ hash_field (text_bytes (pe_target_core_id e)) @
     hash_field (text_bytes (pe_tenant_id e)) @ hash_field (text_bytes (pe_cluster_id e)) @
     u64_be (pe_timestamp_ms e) @ u64_be (pe_expires_at_ms e) @ hash_field (text_bytes (pe_nonce e)) @
     hash_field (text_bytes (pe_capability e)) @ hash_field (text_bytes (pe_body_hash e)) @
     hash_optional_field (pe_idempotency_key e) @
     (case pe_trace e of
        Some t \<Rightarrow> [1] @ hash_field (text_bytes (tr_trace_id t)) @ hash_field (text_bytes (tr_span_id t)) @
          hash_optional_field (tr_parent_span_id t) @ hash_field (text_bytes (tr_originating_core_id t)) @
          hash_field (text_bytes (tr_current_core_id t)) @ hash_field (text_bytes (tr_tenant_id t)) @
          hash_optional_field (tr_command_id t)
      | None \<Rightarrow> [0])"

definition envelope_signing_hash :: "digest \<Rightarrow> peer_rpc_envelope \<Rightarrow> string" where
  "envelope_signing_hash sha e = bytes_to_hex (sha (signing_input e))"

section \<open>The host\<close>

text \<open>
  The request handling of the HTTP host: the content-encoding header and the bearer token are what the handler
  reads of the headers; \<open>gunzip\<close> is the bounded decompressor, \<open>from_json\<close> the decoder, \<open>authenticate\<close> the configured
  authenticator and \<open>dispatch\<close> the application, which may panic (\<open>None\<close>).
\<close>

definition eq_ignore_ascii_case :: "string \<Rightarrow> string \<Rightarrow> bool" where
  "eq_ignore_ascii_case a b \<longleftrightarrow> map (\<lambda>c. if is_ascii_uppercase c then char_of (byte_of c + 32) else c) a =
     map (\<lambda>c. if is_ascii_uppercase c then char_of (byte_of c + 32) else c) b"

definition decode_peer_envelope ::
    "(bytes \<Rightarrow> nat \<Rightarrow> bytes rpc_result) \<Rightarrow> (bytes \<Rightarrow> string + peer_rpc_envelope) \<Rightarrow> validator \<Rightarrow> string option \<Rightarrow> bytes \<Rightarrow>
     peer_rpc_envelope rpc_result" where
  "decode_peer_envelope gunzip from_json va content_encoding body =
     (let max_bytes = max_peer_envelope_bytes va
      in rbind (case content_encoding of
           None \<Rightarrow> if max_bytes < length body then Err PayloadTooLarge else Ok body
         | Some value \<Rightarrow> if eq_ignore_ascii_case value ''gzip'' then gunzip body max_bytes
             else Err (InvalidEnvelope ''unsupported_content_encoding'')) (\<lambda>decoded.
         map_err InvalidEnvelope (from_json decoded)))"

definition peer_error_status :: "peer_rpc_error \<Rightarrow> nat" where
  "peer_error_status err = (case err of
     Unauthorized \<Rightarrow> 401 | Forbidden \<Rightarrow> 403 | EndpointUnavailable \<Rightarrow> 503 | PayloadTooLarge \<Rightarrow> 413
   | ProtocolMismatch \<Rightarrow> 409 | NonceCacheFull \<Rightarrow> 503
   | TenantMismatch \<Rightarrow> 400 | ClusterMismatch \<Rightarrow> 400 | TargetMismatch \<Rightarrow> 400 | Expired \<Rightarrow> 400 | NonceReplay \<Rightarrow> 400
   | InvalidBodyHash \<Rightarrow> 400 | InvalidResponse _ \<Rightarrow> 400 | Transport _ \<Rightarrow> 400 | InvalidEnvelope _ \<Rightarrow> 400)"

definition peer_error_code :: "peer_rpc_error \<Rightarrow> string" where
  "peer_error_code err = (case err of
     PayloadTooLarge \<Rightarrow> ''payload_too_large'' | Unauthorized \<Rightarrow> ''unauthorized'' | Forbidden \<Rightarrow> ''forbidden''
   | EndpointUnavailable \<Rightarrow> ''endpoint_unavailable'' | TenantMismatch \<Rightarrow> ''tenant_mismatch''
   | ClusterMismatch \<Rightarrow> ''cluster_mismatch'' | TargetMismatch \<Rightarrow> ''target_mismatch''
   | ProtocolMismatch \<Rightarrow> ''protocol_mismatch'' | Expired \<Rightarrow> ''expired'' | NonceReplay \<Rightarrow> ''nonce_replay''
   | NonceCacheFull \<Rightarrow> ''nonce_cache_full'' | InvalidBodyHash \<Rightarrow> ''invalid_body_hash''
   | InvalidResponse _ \<Rightarrow> ''invalid_response'' | Transport _ \<Rightarrow> ''transport'' | InvalidEnvelope _ \<Rightarrow> ''invalid_envelope'')"

definition peer_error_response :: "string \<Rightarrow> peer_rpc_error \<Rightarrow> nat \<times> peer_rpc_response" where
  "peer_error_response request_id err = (peer_error_status err, response_rejected request_id (peer_error_code err))"

type_synonym ('s, 'd) host = "'s \<times> 'd"

definition handle_peer_envelope ::
    "digest \<Rightarrow> 's nonce_check \<Rightarrow> validator \<Rightarrow> (string option \<Rightarrow> string option \<Rightarrow> u64 \<Rightarrow> unit rpc_result) \<Rightarrow>
     (peer_rpc_call_kind \<Rightarrow> peer_rpc_envelope \<Rightarrow> 'd \<Rightarrow> (peer_rpc_response rpc_result) option \<times> 'd) \<Rightarrow>
     string option \<Rightarrow> peer_rpc_envelope \<Rightarrow> peer_rpc_call_kind \<Rightarrow> u64 \<Rightarrow> ('s, 'd) host \<Rightarrow> (nat \<times> peer_rpc_response) \<times> ('s, 'd) host" where
  "handle_peer_envelope sha check va authenticate dispatch bearer e kind now h = (case h of (s, d) \<Rightarrow>
     (case authenticate bearer (Some (envelope_signing_hash sha e)) now of
        Inl err \<Rightarrow> (peer_error_response (pe_request_id e) err, (s, d))
      | Inr _ \<Rightarrow>
          (case validate sha check va e now s of
             (Inl err, s1) \<Rightarrow> (peer_error_response (pe_request_id e) err, (s1, d))
           | (Inr _, s1) \<Rightarrow>
               (case dispatch kind e d of (outcome, d1) \<Rightarrow>
                  (case (case outcome of Some r \<Rightarrow> r | None \<Rightarrow> Err (Transport ''peer dispatcher panicked'')) of
                     Inr response \<Rightarrow> ((200, response), (s1, d1))
                   | Inl err \<Rightarrow> (peer_error_response (pe_request_id e) err, (s1, d1)))))))"

section \<open>The client\<close>

record peer_retry_policy =
  pp_max_attempts :: nat
  pp_initial_backoff_ms :: u64
  pp_max_backoff_ms :: u64

definition peer_retry_policy_default :: peer_retry_policy where
  "peer_retry_policy_default = \<lparr> pp_max_attempts = 2, pp_initial_backoff_ms = 50, pp_max_backoff_ms = 500 \<rparr>"

record peer_client_config =
  pc_request_timeout_ms :: u64
  pc_envelope_ttl_ms :: u64
  pc_max_response_bytes :: nat
  pc_retry_policy :: peer_retry_policy

definition peer_client_config_default :: peer_client_config where
  "peer_client_config_default = \<lparr> pc_request_timeout_ms = 5000, pc_envelope_ttl_ms = 60000,
     pc_max_response_bytes = 1048576, pc_retry_policy = peer_retry_policy_default \<rparr>"

record peer_http_request =
  ph_method :: string
  ph_path :: string
  ph_body :: bytes
  ph_bearer_token :: "string option"
  ph_timeout_ms :: u64
  ph_max_response_bytes :: nat

record peer_http_response =
  hr_status_code :: nat
  hr_body :: bytes

definition http_status_error :: "nat \<Rightarrow> peer_rpc_error" where
  "http_status_error status_code =
     (if status_code = 401 then Unauthorized else if status_code = 403 then Forbidden
      else if status_code = 409 then ProtocolMismatch else if status_code = 413 then PayloadTooLarge
      else if status_code = 408 \<or> status_code = 429 \<or> 500 \<le> status_code \<and> status_code \<le> 599 then EndpointUnavailable
      else InvalidResponse (''http_status='' @ nat_dec status_code))"

text \<open>
  The world of a client: the clock, the process, the nonce counter and the network. \<open>cw_send\<close> is one request;
  \<open>cw_is_cancelled\<close> and \<open>cw_wait\<close> read the cancellation token, which other threads set.
\<close>

record 'w client_world =
  cw_now_ms :: "'w \<Rightarrow> u64 \<times> 'w"
  cw_process_id :: nat
  cw_next_counter :: "'w \<Rightarrow> u64 \<times> 'w"
  cw_send :: "string \<Rightarrow> peer_http_request \<Rightarrow> 'w \<Rightarrow> peer_http_response rpc_result \<times> 'w"
  cw_is_cancelled :: "'w \<Rightarrow> bool \<times> 'w"
  cw_wait :: "u64 \<Rightarrow> 'w \<Rightarrow> bool \<times> 'w"
  cw_issue_token :: "string \<Rightarrow> string option \<Rightarrow> u64 \<Rightarrow> u64 \<Rightarrow> string rpc_result"

record peer_client =
  pcl_identity :: core_identity
  pcl_config :: peer_client_config

definition next_outbound_nonce :: "'w client_world \<Rightarrow> string \<Rightarrow> u64 \<Rightarrow> 'w \<Rightarrow> string \<times> 'w" where
  "next_outbound_nonce cw request_id now w = (case cw_next_counter cw w of (counter, w1) \<Rightarrow>
     (request_id @ ''-'' @ u64_string now @ ''-'' @ nat_dec (cw_process_id cw) @ ''-'' @ u64_string counter, w1))"

definition build_envelope :: "digest \<Rightarrow> 'w client_world \<Rightarrow> peer_client \<Rightarrow> peer_rpc_outbound_request \<Rightarrow> 'w \<Rightarrow> peer_rpc_envelope \<times> 'w" where
  "build_envelope sha cw c request w =
     (case cw_now_ms cw w of (now, w1) \<Rightarrow>
       (case next_outbound_nonce cw (po_request_id request) now w1 of (nonce, w2) \<Rightarrow>
         ((peer_rpc_envelope_new sha (po_request_id request)
            (case po_trace request of Some t \<Rightarrow> tr_trace_id t | None \<Rightarrow> po_request_id request)
            (ci_core_id (pcl_identity c)) (po_target_core_id request) (ci_tenant_id (pcl_identity c)) (ci_cluster_id (pcl_identity c))
            now (sat_add now (max (pc_envelope_ttl_ms (pcl_config c)) 1)) nonce (po_capability request) (po_payload request)
            (po_idempotency_key request) (po_trace request))
          \<lparr> pe_protocol_version := ci_protocol_version (pcl_identity c) \<rparr>, w2)))"

definition PEER_QUERY_PATH :: string where "PEER_QUERY_PATH = ''/v1/peer/query''"
definition PEER_COMMAND_PATH :: string where "PEER_COMMAND_PATH = ''/v1/peer/command''"

definition send_cancellable :: "'w client_world \<Rightarrow> string \<Rightarrow> peer_http_request \<Rightarrow> 'w \<Rightarrow> peer_http_response rpc_result \<times> 'w" where
  "send_cancellable cw url request w = (case cw_is_cancelled cw w of (cancelled, w1) \<Rightarrow>
     if cancelled then (Err EndpointUnavailable, w1) else cw_send cw url request w1)"

definition is_success :: "nat \<Rightarrow> bool" where
  "is_success status \<longleftrightarrow> 200 \<le> status \<and> status < 300"

definition call_peer_once ::
    "digest \<Rightarrow> (peer_rpc_envelope \<Rightarrow> string + bytes) \<Rightarrow> (bytes \<Rightarrow> string + peer_rpc_response) \<Rightarrow> 'w client_world \<Rightarrow> peer_client \<Rightarrow>
     string \<Rightarrow> peer_rpc_call_kind \<Rightarrow> peer_rpc_outbound_request \<Rightarrow> 'w \<Rightarrow> peer_rpc_response rpc_result \<times> 'w" where
  "call_peer_once sha to_json from_json cw c url kind request w =
     (case build_envelope sha cw c request w of (e, w1) \<Rightarrow>
     (case cw_now_ms cw w1 of (now, w2) \<Rightarrow>
       (case cw_issue_token cw (pe_request_id e) (Some (envelope_signing_hash sha e)) now (pc_envelope_ttl_ms (pcl_config c)) of
          Inl err \<Rightarrow> (Err err, w2)
        | Inr token \<Rightarrow>
            (case to_json e of
               Inl reason \<Rightarrow> (Err (InvalidEnvelope reason), w2)
             | Inr body \<Rightarrow>
                 (case send_cancellable cw url
                    \<lparr> ph_method = ''POST'', ph_path = (case kind of Query \<Rightarrow> PEER_QUERY_PATH | Command \<Rightarrow> PEER_COMMAND_PATH),
                      ph_body = body, ph_bearer_token = Some token, ph_timeout_ms = pc_request_timeout_ms (pcl_config c),
                      ph_max_response_bytes = pc_max_response_bytes (pcl_config c) \<rparr> w2 of
                    (Inl err, w3) \<Rightarrow> (Err err, w3)
                  | (Inr response, w3) \<Rightarrow>
                      if \<not> is_success (hr_status_code response) then (Err (http_status_error (hr_status_code response)), w3)
                      else (case from_json (hr_body response) of
                          Inl reason \<Rightarrow> (Err (InvalidResponse reason), w3)
                        | Inr r \<Rightarrow>
                            if pr_request_id r \<noteq> po_request_id request
                            then (Err (InvalidResponse ''peer response request_id mismatch''), w3) else (Ok r, w3)))))))"

definition peer_error_is_retryable :: "peer_rpc_error \<Rightarrow> bool" where
  "peer_error_is_retryable err = (case err of EndpointUnavailable \<Rightarrow> True | Transport _ \<Rightarrow> True | _ \<Rightarrow> False)"

definition sat_mul2 :: "u64 \<Rightarrow> u64" where
  "sat_mul2 v = sat_add v v"

fun call_attempts ::
    "('w \<Rightarrow> peer_rpc_response rpc_result \<times> 'w) \<Rightarrow> 'w client_world \<Rightarrow> u64 \<Rightarrow> nat \<Rightarrow> u64 \<Rightarrow> peer_rpc_error \<Rightarrow> 'w \<Rightarrow>
     peer_rpc_response rpc_result \<times> 'w" where
  "call_attempts once cw max_backoff 0 backoff last_error w = (Err last_error, w)"
| "call_attempts once cw max_backoff (Suc left) backoff last_error w =
     (case cw_is_cancelled cw w of (cancelled, w1) \<Rightarrow>
        if cancelled then (Err EndpointUnavailable, w1)
        else case once w1 of
            (Inr response, w2) \<Rightarrow> (Ok response, w2)
          | (Inl err, w2) \<Rightarrow>
              if \<not> peer_error_is_retryable err then (Err err, w2)
              else if left > 0
              then (case cw_wait cw backoff w2 of (woken, w3) \<Rightarrow>
                if woken then (Err EndpointUnavailable, w3)
                else call_attempts once cw max_backoff left (min (sat_mul2 backoff) max_backoff) err w3)
              else call_attempts once cw max_backoff left backoff err w2)"

definition call_peer ::
    "digest \<Rightarrow> (peer_rpc_envelope \<Rightarrow> string + bytes) \<Rightarrow> (bytes \<Rightarrow> string + peer_rpc_response) \<Rightarrow> 'w client_world \<Rightarrow> peer_client \<Rightarrow>
     string \<Rightarrow> peer_rpc_call_kind \<Rightarrow> peer_rpc_outbound_request \<Rightarrow> 'w \<Rightarrow> peer_rpc_response rpc_result \<times> 'w" where
  "call_peer sha to_json from_json cw c url kind request w =
     (let policy = pc_retry_policy (pcl_config c);
          configured_attempts = max (pp_max_attempts policy) 1;
          attempts = (if kind = Command \<and> po_idempotency_key request = None then 1 else configured_attempts)
      in call_attempts (call_peer_once sha to_json from_json cw c url kind request) cw (pp_max_backoff_ms policy)
           attempts (pp_initial_backoff_ms policy) EndpointUnavailable w)"

fun send_attempts ::
    "'w client_world \<Rightarrow> string \<Rightarrow> peer_http_request \<Rightarrow> u64 \<Rightarrow> nat \<Rightarrow> u64 \<Rightarrow> peer_rpc_error \<Rightarrow> 'w \<Rightarrow> peer_http_response rpc_result \<times> 'w" where
  "send_attempts cw url request max_backoff 0 backoff last_error w = (Err last_error, w)"
| "send_attempts cw url request max_backoff (Suc left) backoff last_error w =
     (case send_cancellable cw url request w of (r, w1) \<Rightarrow>
        (case (case r of Inr response \<Rightarrow> (if is_success (hr_status_code response) then Inr response
                  else Inl (http_status_error (hr_status_code response))) | Inl err \<Rightarrow> Inl err) of
           Inr response \<Rightarrow> (Ok response, w1)
         | Inl err \<Rightarrow>
             if left > 0
             then (case cw_wait cw backoff w1 of (woken, w2) \<Rightarrow>
               if woken then (Err EndpointUnavailable, w2)
               else send_attempts cw url request max_backoff left (min (sat_mul2 backoff) max_backoff) err w2)
             else send_attempts cw url request max_backoff left backoff err w1))"

definition send_with_retry :: "'w client_world \<Rightarrow> peer_client \<Rightarrow> string \<Rightarrow> peer_http_request \<Rightarrow> 'w \<Rightarrow> peer_http_response rpc_result \<times> 'w" where
  "send_with_retry cw c url request w =
     (let policy = pc_retry_policy (pcl_config c)
      in send_attempts cw url request (pp_max_backoff_ms policy) (max (pp_max_attempts policy) 1)
           (pp_initial_backoff_ms policy) EndpointUnavailable w)"

end
