(* ===== verification/Peer_Safety.thy ===== *)
theory Peer_Safety
  imports Peer_Rpc "HOL-Library.Code_Target_Nat"
begin

text \<open>
  What peer RPC guarantees: which envelopes the validator accepts, that an accepted request whose
  timestamp lies in the past is never dispatched again, what a token signs, and how often a client
  sends. The last section shows the window in which the nonce of a request from a fast clock is
  forgotten while the request is still valid.
\<close>

section \<open>An example host\<close>

text \<open>The witnesses below run a host on these values; the identity stands for SHA-256.\<close>

definition example_validator :: validator where
  "example_validator = validator_new \<lparr> vc_local_tenant_id = ''tenant'', vc_local_cluster_id = ''cluster'',
     vc_local_core_id = ''core-b'',
     vc_max_payload_bytes = 16, vc_nonce_window_ms = 100 \<rparr>"

definition example_envelope :: "string \<Rightarrow> u64 \<Rightarrow> u64 \<Rightarrow> peer_rpc_envelope" where
  "example_envelope nonce timestamp_ms expires_at_ms = peer_rpc_envelope_new id ''r'' ''r'' ''core-a'' ''core-b'' ''tenant'' ''cluster''
     timestamp_ms expires_at_ms nonce ''cap'' [1, 2] None None"

definition example_dispatch :: "peer_rpc_call_kind \<Rightarrow> peer_rpc_envelope \<Rightarrow> nat \<Rightarrow> (peer_rpc_response rpc_result) option \<times> nat" where
  "example_dispatch kind e n = (Some (Ok (response_ok (pe_request_id e) [])), n + 1)"

section \<open>Validation\<close>

lemma validate_cases:
  assumes "validate sha check va e now s = (r, s')"
  shows "(s' = s \<and> r \<noteq> Ok ()) \<or>
    envelope_current (max (vc_nonce_window_ms (va_config va)) 1) e now \<and>
      check (pe_nonce e) (min (pe_expires_at_ms e) (sat_add now (max (vc_nonce_window_ms (va_config va)) 1))) now s = (r, s')"
  using assms unfolding validate_def Let_def by (auto simp: ebind_eval efail_def split: sum.splits if_splits)

lemma validate_Ok_iff:
  "validate sha check va e now s = (Ok (), s') \<longleftrightarrow>
     validate_envelope_identifiers e = Ok () \<and> length (pe_payload e) \<le> vc_max_payload_bytes (va_config va) \<and>
     pe_tenant_id e = vc_local_tenant_id (va_config va) \<and> pe_cluster_id e = vc_local_cluster_id (va_config va) \<and>
     pe_target_core_id e = vc_local_core_id (va_config va) \<and> pe_protocol_version e = va_protocol_version va \<and>
     envelope_current (max (vc_nonce_window_ms (va_config va)) 1) e now \<and>
     pe_body_hash e = payload_hash sha (pe_payload e) \<and> trace_matches e \<and>
     check (pe_nonce e) (min (pe_expires_at_ms e) (sat_add now (max (vc_nonce_window_ms (va_config va)) 1))) now s = (Ok (), s')"
  unfolding validate_def Let_def by (auto simp: ebind_eval efail_def split: sum.splits if_splits)

section \<open>Replays\<close>

text \<open>A request that is current again is current before the recorded expiry of its nonce, if its timestamp was past.\<close>

lemma current_before_expiry:
  assumes "pe_timestamp_ms e < now0" "envelope_current w e now"
  shows "now < min (pe_expires_at_ms e) (sat_add now0 w)"
proof -
  have "unat (pe_expires_at_ms e) \<le> 2 ^ 64 - 1" using unsigned_less [of "pe_expires_at_ms e", where 'a = nat] by simp
  moreover have "now < pe_expires_at_ms e" "now \<le> sat_add (pe_timestamp_ms e) w"
    using assms(2) by (auto simp: envelope_current_def not_le not_less)
  ultimately have "now < sat_add now0 w" using assms(1)
    by (auto simp: word_less_nat_alt word_le_nat_alt unat_sat_add)
  then show ?thesis using \<open>now < pe_expires_at_ms e\<close> by simp
qed

context nonce_store
begin

lemma validate_keeps:
  assumes "inv s" "validate sha check va e now s = (r, s')"
  shows "inv s' \<and> (\<forall>m x. live s m = Some x \<and> now < x \<longrightarrow> live s' m = Some x)"
  using validate_cases [OF assms(2)] check_keeps [OF assms(1)] assms(1) by blast

lemma validate_refuses:
  assumes "inv s" "live s (pe_nonce e) = Some x" "now < x" "validate sha check va e now s = (r, s')"
  shows "r \<noteq> Ok ()"
  using validate_cases [OF assms(4)] check_refuses [OF assms(1-3)] by blast

lemma validate_records:
  assumes "inv s" "validate sha check va e now s = (Ok (), s')"
  shows "live s' (pe_nonce e) =
    Some (hold (min (pe_expires_at_ms e) (sat_add now (max (vc_nonce_window_ms (va_config va)) 1))) now)"
  using validate_cases [OF assms(2)] check_records [OF assms(1)] by blast

end

text \<open>A run of the host over a sequence of decoded requests, each with its bearer token, kind and arrival time.\<close>

type_synonym peer_arrival = "string option \<times> peer_rpc_envelope \<times> peer_rpc_call_kind \<times> u64"

fun handle_all ::
    "digest \<Rightarrow> 's nonce_check \<Rightarrow> validator \<Rightarrow> (string option \<Rightarrow> string option \<Rightarrow> u64 \<Rightarrow> unit rpc_result) \<Rightarrow>
     (peer_rpc_call_kind \<Rightarrow> peer_rpc_envelope \<Rightarrow> 'd \<Rightarrow> (peer_rpc_response rpc_result) option \<times> 'd) \<Rightarrow>
     peer_arrival list \<Rightarrow> ('s, 'd) host \<Rightarrow> ('s, 'd) host" where
  "handle_all sha check va auth dispatch [] h = h"
| "handle_all sha check va auth dispatch ((bearer, e, kind, now) # rest) h =
     handle_all sha check va auth dispatch rest (snd (handle_peer_envelope sha check va auth dispatch bearer e kind now h))"

lemma handle_store:
  assumes "handle_peer_envelope sha check va auth dispatch bearer e kind now (s, d) = (resp, (s', d'))"
  shows "s' = s \<or> s' = snd (validate sha check va e now s)"
  using assms by (auto simp: handle_peer_envelope_def split: sum.splits prod.splits option.splits)

lemma handle_accepted:
  assumes "auth bearer (Some (envelope_signing_hash sha e)) now = Ok ()" "fst (validate sha check va e now s) = Ok ()"
  shows "fst (snd (handle_peer_envelope sha check va auth dispatch bearer e kind now (s, d))) = snd (validate sha check va e now s)"
  using assms by (auto simp: handle_peer_envelope_def split: sum.splits prod.splits option.splits)

lemma peer_error_status_ne_200 [simp]: "peer_error_status err \<noteq> 200"
  by (cases err) (simp_all add: peer_error_status_def)

lemma handle_rejected:
  assumes "fst (validate sha check va e now s) \<noteq> Ok ()"
  shows "snd (snd (handle_peer_envelope sha check va auth dispatch bearer e kind now (s, d))) = d"
    "fst (fst (handle_peer_envelope sha check va auth dispatch bearer e kind now (s, d))) \<noteq> 200"
  using assms by (auto simp: handle_peer_envelope_def peer_error_response_def split: sum.splits prod.splits)

context nonce_store
begin

lemma handle_keeps:
  assumes "inv s" "live s m = Some x" "now < x"
  shows "inv (fst (snd (handle_peer_envelope sha check va auth dispatch bearer e kind now (s, d))))"
    "live (fst (snd (handle_peer_envelope sha check va auth dispatch bearer e kind now (s, d)))) m = Some x"
proof -
  obtain resp s' d' where h: "handle_peer_envelope sha check va auth dispatch bearer e kind now (s, d) = (resp, (s', d'))"
    by (metis prod_cases3)
  obtain r s1 where v: "validate sha check va e now s = (r, s1)" by (cases "validate sha check va e now s")
  from handle_store [OF h] v have "s' = s \<or> s' = s1" by simp
  then have "inv s' \<and> live s' m = Some x" using validate_keeps [OF assms(1) v] assms by blast
  then show "inv (fst (snd (handle_peer_envelope sha check va auth dispatch bearer e kind now (s, d))))"
    "live (fst (snd (handle_peer_envelope sha check va auth dispatch bearer e kind now (s, d)))) m = Some x"
    unfolding h by simp_all
qed

lemma handle_all_keeps:
  assumes "inv s" "live s m = Some x" "\<forall>(b, e, k, now) \<in> set arrivals. now < x"
  shows "inv (fst (handle_all sha check va auth dispatch arrivals (s, d))) \<and>
    live (fst (handle_all sha check va auth dispatch arrivals (s, d))) m = Some x"
  using assms
proof (induction arrivals arbitrary: s d)
  case (Cons a rest)
  obtain b e k now where a: "a = (b, e, k, now)" by (metis prod_cases4)
  obtain s1 d1 where h: "snd (handle_peer_envelope sha check va auth dispatch b e k now (s, d)) = (s1, d1)"
    by (cases "snd (handle_peer_envelope sha check va auth dispatch b e k now (s, d))")
  have "now < x" using Cons.prems(3) unfolding a by simp
  from handle_keeps [OF Cons.prems(1,2) this, of sha va auth dispatch b e k d] h
  have "inv s1" "live s1 m = Some x" by simp_all
  from Cons.IH [OF this] Cons.prems(3) h show ?case unfolding a by simp
qed simp

text \<open>The store records the expiry the validator asks for, and the request was past its own timestamp.\<close>

lemma replay_rejected:
  fixes va :: validator and e :: peer_rpc_envelope and now0 :: u64
  defines "w \<equiv> max (vc_nonce_window_ms (va_config va)) 1"
  assumes s: "inv s" and a: "auth bearer (Some (envelope_signing_hash sha e)) now0 = Ok ()"
    and v: "fst (validate sha check va e now0 s) = Ok ()" and ts: "pe_timestamp_ms e < now0"
    and hold: "hold (min (pe_expires_at_ms e) (sat_add now0 w)) now0 = min (pe_expires_at_ms e) (sat_add now0 w)"
    and times: "\<forall>(b, e', k, t) \<in> set arrivals. t \<le> now"
    and h: "handle_all sha check va auth dispatch arrivals
      (snd (handle_peer_envelope sha check va auth dispatch bearer e kind now0 (s, d))) = (s2, d2)"
  shows "fst (validate sha check va e now s2) \<noteq> Ok ()"
proof (cases "envelope_current w e now")
  case True
  let ?x = "min (pe_expires_at_ms e) (sat_add now0 w)"
  obtain s1 where v1: "validate sha check va e now0 s = (Ok (), s1)"
    using v by (cases "validate sha check va e now0 s") simp
  have s1: "inv s1" "live s1 (pe_nonce e) = Some ?x"
    using validate_keeps [OF s v1] validate_records [OF s v1] hold by (simp_all add: w_def)
  obtain d1 where h1: "snd (handle_peer_envelope sha check va auth dispatch bearer e kind now0 (s, d)) = (s1, d1)"
    using handle_accepted [where auth = auth and dispatch = dispatch and kind = kind and d = d, OF a v] v1
    by (metis prod.collapse snd_conv)
  have "now < ?x" using current_before_expiry [OF ts True] .
  with times have "\<forall>(b, e', k, t) \<in> set arrivals. t < ?x" by fastforce
  from handle_all_keeps [OF s1 this, of sha va auth dispatch d1] h h1
  have "inv s2" "live s2 (pe_nonce e) = Some ?x" by simp_all
  then show ?thesis using validate_refuses [of s2 e ?x now sha va] \<open>now < ?x\<close> by (metis prod.collapse)
next
  case False
  then show ?thesis using validate_Ok_iff [of sha check va e now s2 "snd (validate sha check va e now s2)"]
    by (auto simp: w_def prod_eq_iff)
qed

end

text \<open>
  C11. Replays are not dispatched: a request that the host has authenticated and accepted at a time after
  the request's own timestamp is never accepted again. Whatever requests the host has handled since, none of
  them later than \<open>now\<close>, handling the same envelope again at \<open>now\<close> leaves the application's state as it is and does
  not answer 200. The first acceptance may have ended in a dispatcher error or panic.
\<close>

theorem replayed_request_not_dispatched:
  assumes "nonce_memory_ok s" "auth bearer (Some (envelope_signing_hash sha e)) now0 = Ok ()"
    and "fst (validate sha mem_check_and_record va e now0 s) = Ok ()" "pe_timestamp_ms e < now0"
    and "\<forall>(b, e', k, t) \<in> set arrivals. t \<le> now"
    and "handle_all sha mem_check_and_record va auth dispatch arrivals
      (snd (handle_peer_envelope sha mem_check_and_record va auth dispatch bearer e kind now0 (s, d))) = (s2, d2)"
  shows "snd (snd (handle_peer_envelope sha mem_check_and_record va auth dispatch bearer' e kind' now (s2, d2))) = d2 \<and>
    fst (fst (handle_peer_envelope sha mem_check_and_record va auth dispatch bearer' e kind' now (s2, d2))) \<noteq> 200"
proof -
  have "fst (validate sha mem_check_and_record va e now s2) \<noteq> Ok ()"
    by (rule mem_nonces.replay_rejected [where auth = auth and dispatch = dispatch and bearer = bearer and kind = kind
        and d = d and arrivals = arrivals, OF assms(1-4) refl assms(5,6)])
  then show ?thesis by (simp add: handle_rejected)
qed

lemma replayed_request_not_dispatched_witness:
  "(let host = handle_peer_envelope id mem_check_and_record example_validator (\<lambda>_ _ _. Ok ()) example_dispatch;
        first = snd (host None (example_envelope ''n1'' 1000 1500) Command 1001 (nonce_memory_default, 0));
        h = handle_all id mem_check_and_record example_validator (\<lambda>_ _ _. Ok ()) example_dispatch
          [(None, example_envelope ''n2'' 1001 1500, Command, 1002)] first
    in snd first = 1 \<and> snd h = 2 \<and> snd (snd (host None (example_envelope ''n1'' 1000 1500) Command 1003 h)) = snd h)"
proof -
  let ?auth = "\<lambda>_ _ _. Ok ()" and ?e = "example_envelope ''n1'' 1000 1500"
  let ?first = "snd (handle_peer_envelope id mem_check_and_record example_validator ?auth example_dispatch None ?e Command 1001
    (nonce_memory_default, 0))"
  let ?arrivals = "[(None, example_envelope ''n2'' 1001 1500, Command, 1002)]"
  let ?h = "handle_all id mem_check_and_record example_validator ?auth example_dispatch ?arrivals ?first"
  have "nonce_memory_ok nonce_memory_default" by (simp add: nonce_memory_ok_def nonce_memory_default_def)
  moreover have "fst (validate id mem_check_and_record example_validator ?e 1001 nonce_memory_default) = Ok ()" by code_simp
  moreover have "pe_timestamp_ms ?e < 1001" by code_simp
  ultimately have "snd (snd (handle_peer_envelope id mem_check_and_record example_validator ?auth example_dispatch None ?e Command 1003
      (fst ?h, snd ?h))) = snd ?h"
    by (intro replayed_request_not_dispatched [where bearer = None and kind = Command and now = 1003 and
        arrivals = ?arrivals, THEN conjunct1]) auto
  moreover have "snd ?first = 1" by code_simp
  moreover have "snd ?h = 2" by code_simp
  ultimately show ?thesis unfolding Let_def prod.collapse by blast
qed

section \<open>The replay store\<close>

lemma sat_add_mono: "w \<le> w' \<Longrightarrow> sat_add a w \<le> sat_add a w'" for w w' :: u64
  by (auto simp: word_le_nat_alt unat_sat_add)

text \<open>
  The same holds for the bounded replay store if its time to live is at least the validator's window: the
  store then never shortens the expiry the validator asks for. With a smaller time to live the
  store forgets nonces of requests that are still current.
\<close>

lemma replayed_request_not_dispatched_bounded:
  assumes "replay_ok cfg s" "auth bearer (Some (envelope_signing_hash sha e)) now0 = Ok ()"
    and "fst (validate sha (bounded_check_and_record cfg) va e now0 s) = Ok ()" "pe_timestamp_ms e < now0"
    and "max (vc_nonce_window_ms (va_config va)) 1 \<le> rc_ttl_ms cfg"
    and "\<forall>(b, e', k, t) \<in> set arrivals. t \<le> now"
    and "handle_all sha (bounded_check_and_record cfg) va auth dispatch arrivals
      (snd (handle_peer_envelope sha (bounded_check_and_record cfg) va auth dispatch bearer e kind now0 (s, d))) = (s2, d2)"
  shows "snd (snd (handle_peer_envelope sha (bounded_check_and_record cfg) va auth dispatch bearer' e kind' now (s2, d2))) = d2 \<and>
    fst (fst (handle_peer_envelope sha (bounded_check_and_record cfg) va auth dispatch bearer' e kind' now (s2, d2))) \<noteq> 200"
proof -
  have "min (min x (sat_add now0 (max (vc_nonce_window_ms (va_config va)) 1))) (sat_add now0 (rc_ttl_ms cfg)) =
      min x (sat_add now0 (max (vc_nonce_window_ms (va_config va)) 1))" for x
    using sat_add_mono [OF assms(5), of now0] by (simp add: min.absorb1 min.coboundedI2)
  then have "fst (validate sha (bounded_check_and_record cfg) va e now s2) \<noteq> Ok ()"
    by (intro bounded_nonces.replay_rejected [where auth = auth and dispatch = dispatch and bearer = bearer and kind = kind
        and d = d and arrivals = arrivals, OF assms(1-4) _ assms(6,7)])
  then show ?thesis by (simp add: handle_rejected)
qed

lemma bounded_replay_example:
  "(let cfg = \<lparr> rc_max_entries = 2, rc_ttl_ms = 100, rc_cleanup_interval_ms = 1 \<rparr>;
        host = handle_peer_envelope id (bounded_check_and_record cfg) example_validator (\<lambda>_ _ _. Ok ()) example_dispatch;
        first = snd (host None (example_envelope ''n1'' 1000 1500) Command 1001 (replay_state_default, 0))
    in snd first = 1 \<and> snd (snd (host None (example_envelope ''n1'' 1000 1500) Command 1003 first)) = snd first)"
proof -
  let ?auth = "\<lambda>_ _ _. Ok ()" and ?e = "example_envelope ''n1'' 1000 1500"
  let ?cfg = "\<lparr> rc_max_entries = 2, rc_ttl_ms = 100, rc_cleanup_interval_ms = 1 \<rparr>"
  let ?first = "snd (handle_peer_envelope id (bounded_check_and_record ?cfg) example_validator ?auth example_dispatch None ?e Command 1001
    (replay_state_default, 0))"
  have "replay_ok ?cfg replay_state_default" by (simp add: replay_ok_def replay_state_default_def)
  moreover have "fst (validate id (bounded_check_and_record ?cfg) example_validator ?e 1001 replay_state_default) = Ok ()" by code_simp
  moreover have "pe_timestamp_ms ?e < 1001" by code_simp
  moreover have "max (vc_nonce_window_ms (va_config example_validator)) 1 \<le> rc_ttl_ms ?cfg" by code_simp
  ultimately have "snd (snd (handle_peer_envelope id (bounded_check_and_record ?cfg) example_validator ?auth example_dispatch None ?e Command 1003
      (fst ?first, snd ?first))) = snd ?first"
    by (intro replayed_request_not_dispatched_bounded [where bearer = None and kind = Command and now = 1003 and
        arrivals = "[]", THEN conjunct1]) auto
  moreover have "snd ?first = 1" by code_simp
  ultimately show ?thesis unfolding Let_def prod.collapse by blast
qed

section \<open>Requests from a fast clock\<close>

text \<open>
  C12. The nonce of a request is recorded until \<open>now + window\<close> while the request stays current until
  \<open>timestamp + window\<close>: a request that was accepted by a fresh host at a time that is not after its
  timestamp, and that does not expire before, is accepted a second time at \<open>now + window\<close>.
\<close>

theorem fast_clock_request_accepted_twice:
  fixes va :: validator
  defines "w \<equiv> max (vc_nonce_window_ms (va_config va)) 1"
  assumes first: "validate sha mem_check_and_record va e now nonce_memory_default = (Ok (), s)"
    and "now \<le> pe_timestamp_ms e" and "unat now + unat w < 2 ^ 64" and "now + w < pe_expires_at_ms e"
  shows "\<exists>s'. validate sha mem_check_and_record va e (now + w) s = (Ok (), s')"
proof -
  have sat: "sat_add now w = now + w" using assms(4) by (simp add: sat_add_def)
  have cur: "envelope_current w e now" using first unfolding validate_Ok_iff w_def by blast
  have rec: "s = \<lparr> nm_seen = [(pe_nonce e, now + w)], nm_order = [pe_nonce e] \<rparr>"
    using first assms(5) unfolding validate_Ok_iff w_def [symmetric] sat
    by (auto simp: mem_check_and_record_def nonce_memory_default_def retain_memory_def Let_def split: if_splits)
  have "unat (now + w) = unat now + unat w" using unat_sat_add [of now w] sat assms(4) by simp
  then have "now + w \<le> sat_add (pe_timestamp_ms e) w"
    using assms(3,4) by (simp add: word_le_nat_alt unat_sat_add)
  moreover have "pe_timestamp_ms e \<le> sat_add (now + w) w"
    using cur sat_add_ge [of "now + w" w] by (auto simp: envelope_current_def sat not_less intro: order_trans)
  ultimately have "envelope_current w e (now + w)" using cur assms(5) by (auto simp: envelope_current_def)
  moreover have "\<exists>s'. mem_check_and_record (pe_nonce e) x (now + w) s = (Ok (), s')" for x
    unfolding rec by (simp add: mem_check_and_record_def retain_memory_def MAX_NONCE_CACHE_ENTRIES_def om_has_def om_del_def)
  ultimately show ?thesis using first unfolding validate_Ok_iff w_def by blast
qed

lemma fast_clock_request_accepted_twice_witness:
  "\<exists>s'. validate id mem_check_and_record example_validator (example_envelope ''n1'' 1010 1500) 1100
     (snd (validate id mem_check_and_record example_validator (example_envelope ''n1'' 1010 1500) 1000 nonce_memory_default)) = (Ok (), s')"
proof -
  have w: "max (vc_nonce_window_ms (va_config example_validator)) 1 = 100" by code_simp
  have "fst (validate id mem_check_and_record example_validator (example_envelope ''n1'' 1010 1500) 1000 nonce_memory_default) = Ok ()"
    by code_simp
  then obtain s where s: "validate id mem_check_and_record example_validator (example_envelope ''n1'' 1010 1500) 1000 nonce_memory_default = (Ok (), s)"
    by (metis prod.collapse)
  have "1000 \<le> pe_timestamp_ms (example_envelope ''n1'' 1010 1500)" "1100 < pe_expires_at_ms (example_envelope ''n1'' 1010 1500)"
    by code_simp+
  with fast_clock_request_accepted_twice [OF s] show ?thesis unfolding w s by simp
qed

section \<open>What a token signs\<close>

lemma word_be_inject [simp]: "u16_be a = u16_be b \<longleftrightarrow> a = b" "u64_be c = u64_be d \<longleftrightarrow> c = d"
  by (metis word_be_roundtrip(1), metis word_be_roundtrip(3))

lemma text_bytes_inject [simp]: "text_bytes a = text_bytes b \<longleftrightarrow> a = b"
  by (metis bytes_text_bytes)

lemma word_be_append [simp]:
  "u16_be a @ x = u16_be b @ y \<longleftrightarrow> a = b \<and> x = y" "u64_be c @ x = u64_be d @ y \<longleftrightarrow> c = d \<and> x = y"
  by (simp_all add: append_eq_append_conv)

text \<open>A length-prefixed field is read back in one way, whatever follows.\<close>

lemma hash_field_append:
  assumes "length a < 2 ^ 64" "length b < 2 ^ 64"
  shows "hash_field (text_bytes a) @ x = hash_field (text_bytes b) @ y \<longleftrightarrow> a = b \<and> x = y"
proof
  assume h: "hash_field (text_bytes a) @ x = hash_field (text_bytes b) @ y"
  then have "(of_nat (length a) :: u64) = of_nat (length b)" "text_bytes a @ x = text_bytes b @ y"
    by (simp_all add: hash_field_def)
  moreover from this(1) have "length a = length b"
    using assms unat_eq_length_iff [of "of_nat (length a) :: u64" "length a"] unat_eq_length_iff [of "of_nat (length b) :: u64" "length b"]
    by simp
  ultimately show "a = b \<and> x = y" by (simp add: append_eq_append_conv)
qed auto

fun field_fits :: "string option \<Rightarrow> bool" where
  "field_fits None = True"
| "field_fits (Some s) = (length s < 2 ^ 64)"

lemma hash_optional_field_append:
  assumes "field_fits a" "field_fits b"
  shows "hash_optional_field a @ x = hash_optional_field b @ y \<longleftrightarrow> a = b \<and> x = y"
  using assms by (cases a; cases b) (auto simp: hash_optional_field_def hash_field_append)

text \<open>Every text of an envelope is shorter than \<open>2\<^sup>64\<close> bytes, as every value of a 64-bit program is.\<close>

definition trace_fits :: "trace_context \<Rightarrow> bool" where
  "trace_fits t \<longleftrightarrow> list_all (\<lambda>s. length s < 2 ^ 64) [tr_trace_id t, tr_span_id t, tr_originating_core_id t, tr_current_core_id t, tr_tenant_id t] \<and>
     field_fits (tr_parent_span_id t) \<and> field_fits (tr_command_id t)"

definition envelope_fits :: "peer_rpc_envelope \<Rightarrow> bool" where
  "envelope_fits e \<longleftrightarrow> list_all (\<lambda>s. length s < 2 ^ 64) [pe_request_id e, pe_trace_id e, pe_source_core_id e, pe_target_core_id e,
     pe_tenant_id e, pe_cluster_id e, pe_nonce e, pe_capability e, pe_body_hash e] \<and>
     field_fits (pe_idempotency_key e) \<and> (case pe_trace e of None \<Rightarrow> True | Some t \<Rightarrow> trace_fits t)"

definition trace_signing_input :: "trace_context option \<Rightarrow> bytes" where
  "trace_signing_input v = (case v of
        Some t \<Rightarrow> [1] @ hash_field (text_bytes (tr_trace_id t)) @ hash_field (text_bytes (tr_span_id t)) @
          hash_optional_field (tr_parent_span_id t) @ hash_field (text_bytes (tr_originating_core_id t)) @
          hash_field (text_bytes (tr_current_core_id t)) @ hash_field (text_bytes (tr_tenant_id t)) @
          hash_optional_field (tr_command_id t)
      | None \<Rightarrow> [0])"

lemma trace_signing_input_inject:
  assumes "case a of None \<Rightarrow> True | Some t \<Rightarrow> trace_fits t" "case b of None \<Rightarrow> True | Some t \<Rightarrow> trace_fits t"
    and "trace_signing_input a = trace_signing_input b"
  shows "a = b"
  using assms hash_optional_field_append [where x = "[]" and y = "[]"]
  by (cases a; cases b)
    (auto simp: trace_signing_input_def trace_fits_def hash_field_append hash_optional_field_append
      intro!: trace_context.equality)

text \<open>
  C15. A token binds the whole envelope: the bytes that are hashed for a token determine every field of the
  envelope except the payload itself, which they bind through its digest. No two envelopes that differ in any
  other field hash the same bytes, however their texts are cut into fields.
\<close>

theorem signing_input_binds_envelope:
  assumes "envelope_fits e" "envelope_fits e'" "signing_input e = signing_input e'"
  shows "e\<lparr> pe_payload := [] \<rparr> = e'\<lparr> pe_payload := [] \<rparr>"
proof -
  have "signing_input x =
     hash_field (text_bytes (pe_request_id x)) @ hash_field (text_bytes (pe_trace_id x)) @ u16_be (pe_protocol_version x) @
     hash_field (text_bytes (pe_source_core_id x)) @ hash_field (text_bytes (pe_target_core_id x)) @
     hash_field (text_bytes (pe_tenant_id x)) @ hash_field (text_bytes (pe_cluster_id x)) @
     u64_be (pe_timestamp_ms x) @ u64_be (pe_expires_at_ms x) @ hash_field (text_bytes (pe_nonce x)) @
     hash_field (text_bytes (pe_capability x)) @ hash_field (text_bytes (pe_body_hash x)) @
     hash_optional_field (pe_idempotency_key x) @ trace_signing_input (pe_trace x)" for x
    unfolding signing_input_def trace_signing_input_def ..
  note eq = assms(3) [unfolded this]
  show ?thesis using assms(1,2) eq unfolding envelope_fits_def
    by (auto simp: hash_field_append hash_optional_field_append intro!: peer_rpc_envelope.equality trace_signing_input_inject)
qed

lemma signing_input_binds_envelope_witness:
  "signing_input (example_envelope ''n1'' 1000 1500) \<noteq> signing_input (example_envelope ''n2'' 1000 1500)"
proof
  assume s: "signing_input (example_envelope ''n1'' 1000 1500) = signing_input (example_envelope ''n2'' 1000 1500)"
  have "envelope_fits (example_envelope ''n1'' 1000 1500)" "envelope_fits (example_envelope ''n2'' 1000 1500)"
    by code_simp+
  from signing_input_binds_envelope [OF this s]
  have "pe_nonce ((example_envelope ''n1'' 1000 1500)\<lparr> pe_payload := [] \<rparr>) = pe_nonce ((example_envelope ''n2'' 1000 1500)\<lparr> pe_payload := [] \<rparr>)"
    by simp
  then show False by (simp add: example_envelope_def peer_rpc_envelope_new_def)
qed

section \<open>How often a client sends\<close>

text \<open>\<open>sent\<close> counts the requests that have left for the network: only the transport's \<open>send\<close> adds to it, by one.\<close>

definition counts :: "'w client_world \<Rightarrow> ('w \<Rightarrow> nat) \<Rightarrow> bool" where
  "counts cw sent \<longleftrightarrow> (\<forall>w. sent (snd (cw_now_ms cw w)) = sent w \<and> sent (snd (cw_next_counter cw w)) = sent w \<and>
     sent (snd (cw_is_cancelled cw w)) = sent w \<and> (\<forall>d. sent (snd (cw_wait cw d w)) = sent w) \<and>
     (\<forall>url req. sent (snd (cw_send cw url req w)) = sent w + 1))"

lemma countsD:
  assumes "counts cw sent"
  shows "cw_now_ms cw w = (a, w1) \<Longrightarrow> sent w1 = sent w" "cw_next_counter cw w = (b, w1) \<Longrightarrow> sent w1 = sent w"
    "cw_is_cancelled cw w = (c, w1) \<Longrightarrow> sent w1 = sent w" "cw_wait cw d w = (c, w1) \<Longrightarrow> sent w1 = sent w"
    "cw_send cw url req w = (r, w1) \<Longrightarrow> sent w1 = sent w + 1"
  using assms unfolding counts_def by (metis snd_conv)+

lemma build_envelope_sent:
  assumes "counts cw sent" "build_envelope sha cw c request w = (e, w')"
  shows "sent w' = sent w"
  using assms(2) countsD [OF assms(1)]
  by (auto simp: build_envelope_def next_outbound_nonce_def split: prod.splits)

lemma send_cancellable_sent:
  assumes "counts cw sent" "send_cancellable cw url req w = (r, w')"
  shows "sent w \<le> sent w' \<and> sent w' \<le> sent w + 1" "r = Ok resp \<Longrightarrow> sent w' = sent w + 1"
  using assms(2) countsD [OF assms(1)] by (auto simp: send_cancellable_def split: prod.splits if_splits)

lemma call_peer_once_sent:
  assumes c: "counts cw sent" and k: "call_peer_once sha to_json from_json cw cl url kind request w = (r, w')"
  shows "sent w \<le> sent w' \<and> sent w' \<le> sent w + 1" "r = Ok resp \<Longrightarrow> sent w' = sent w + 1 \<and> pr_request_id resp = po_request_id request"
proof -
  obtain e w1 where b: "build_envelope sha cw cl request w = (e, w1)" by (cases "build_envelope sha cw cl request w")
  obtain now w2 where n: "cw_now_ms cw w1 = (now, w2)" by (cases "cw_now_ms cw w1")
  have w2: "sent w2 = sent w" using build_envelope_sent [OF c b] countsD(1) [OF c n] by simp
  note send = send_cancellable_sent [OF c, of url _ w2]
  show "sent w \<le> sent w' \<and> sent w' \<le> sent w + 1"
    using k w2 send(1) unfolding call_peer_once_def by (auto simp: b n split: sum.splits prod.splits if_splits)
  show "sent w' = sent w + 1 \<and> pr_request_id resp = po_request_id request" if "r = Ok resp"
    using k w2 send(2) that unfolding call_peer_once_def by (auto simp: b n split: sum.splits prod.splits if_splits)
qed

lemma call_attempts_sent:
  assumes c: "counts cw sent"
    and once: "\<And>w r w'. once w = (r, w') \<Longrightarrow> (sent w \<le> sent w' \<and> sent w' \<le> sent w + 1) \<and>
      (\<forall>resp. r = Ok resp \<longrightarrow> sent w' = sent w + 1 \<and> P resp)"
    and "call_attempts once cw mb n backoff err w = (r, w')"
  shows "sent w' \<le> sent w + n \<and> (\<forall>resp. r = Ok resp \<longrightarrow> sent w < sent w' \<and> P resp)"
  using assms(3)
proof (induction n arbitrary: backoff err w)
  case (Suc left)
  obtain b w1 where i: "cw_is_cancelled cw w = (b, w1)" by (cases "cw_is_cancelled cw w")
  obtain r1 w2 where o: "once w1 = (r1, w2)" by (cases "once w1")
  have w1: "sent w1 = sent w" using countsD(3) [OF c i] .
  note once = once [OF o]
  consider (cancelled) "b" "r = Err EndpointUnavailable" "w' = w1"
    | (answered) resp where "r1 = Ok resp" "r = Ok resp" "w' = w2"
    | (failed) e1 where "r = Err e1" "w' = w2"
    | (waited) d b1 w3 where "cw_wait cw d w2 = (b1, w3)" "r = Err EndpointUnavailable" "w' = w3"
    | (again) d b1 w3 bo e1 where "cw_wait cw d w2 = (b1, w3)" "call_attempts once cw mb left bo e1 w3 = (r, w')"
    | (last) bo e1 where "left = 0" "call_attempts once cw mb left bo e1 w2 = (r, w')"
    using Suc.prems by (auto simp: i o split: if_splits sum.splits prod.splits)
  then show ?case
  proof cases
    case (again d b1 w3 bo e1)
    then show ?thesis using Suc.IH [OF again(2)] countsD(4) [OF c again(1)] once w1 by auto
  next
    case (waited d b1 w3)
    then show ?thesis using countsD(4) [OF c waited(1)] once w1 by auto
  next
    case (last bo e1)
    then show ?thesis using Suc.IH [OF last(2)] once w1 by auto
  qed (use once w1 in auto)
qed auto

text \<open>
  Retries are bounded: a call sends at most one request per configured attempt, and a command without an
  idempotency key is sent at most once, whatever the peer answers and however the transport fails. A
  response that is returned comes from a request that was sent and carries the caller's request id.
\<close>

lemma call_peer_sends_at_most:
  assumes "counts cw sent" "call_peer sha to_json from_json cw c url kind request w = (r, w')"
  shows "sent w' \<le> sent w + (if kind = Command \<and> po_idempotency_key request = None then 1
      else max (pp_max_attempts (pc_retry_policy (pcl_config c))) 1) \<and>
    (\<forall>resp. r = Ok resp \<longrightarrow> sent w < sent w' \<and> pr_request_id resp = po_request_id request)"
proof -
  let ?once = "call_peer_once sha to_json from_json cw c url kind request"
  have "(sent w \<le> sent w' \<and> sent w' \<le> sent w + 1) \<and>
      (\<forall>resp. r = Ok resp \<longrightarrow> sent w' = sent w + 1 \<and> pr_request_id resp = po_request_id request)"
    if "?once w = (r, w')" for w r w'
    using call_peer_once_sent [OF assms(1) that] by blast
  from call_attempts_sent [OF assms(1) this assms(2) [unfolded call_peer_def Let_def]] show ?thesis .
qed

text \<open>A network that counts what it is sent and always fails.\<close>

definition dead_network :: "nat client_world" where
  "dead_network = \<lparr> cw_now_ms = (\<lambda>w. (1000, w)), cw_process_id = 7, cw_next_counter = (\<lambda>w. (of_nat w, w)),
     cw_send = (\<lambda>_ _ w. (Err (Transport ''down''), w + 1)), cw_is_cancelled = (\<lambda>w. (False, w)),
     cw_wait = (\<lambda>_ w. (False, w)), cw_issue_token = (\<lambda>_ _ _ _. Ok ''token'') \<rparr>"

definition example_client :: "core_identity \<Rightarrow> peer_client" where
  "example_client identity = \<lparr> pcl_identity = identity, pcl_config = peer_client_config_default \<rparr>"

definition example_command :: "string option \<Rightarrow> peer_rpc_outbound_request" where
  "example_command key = \<lparr> po_request_id = ''r'', po_target_core_id = ''core-b'', po_capability = ''cap'', po_payload = [],
     po_idempotency_key = key, po_trace = None \<rparr>"

lemma call_peer_sends_at_most_witness:
  "\<forall>identity. snd (call_peer id (\<lambda>_. Ok []) (\<lambda>_. Err ''no response'') dead_network (example_client identity) ''u'' Command (example_command None) 0) \<le> 0 + 1 \<and>
     snd (call_peer id (\<lambda>_. Ok []) (\<lambda>_. Err ''no response'') dead_network (example_client identity) ''u'' Command (example_command (Some ''k'')) 0) = 2"
proof
  fix identity
  have c: "counts dead_network (\<lambda>w. w)" by (simp add: counts_def dead_network_def)
  note call_peer_sends_at_most [OF c surjective_pairing, of id "\<lambda>_. Ok []" "\<lambda>_. Err ''no response''" "example_client identity" "''u''" Command
      "example_command None" 0]
  moreover have "snd (call_peer id (\<lambda>_. Ok []) (\<lambda>_. Err ''no response'') dead_network (example_client identity) ''u'' Command (example_command (Some ''k'')) 0) = 2"
    by (simp add: call_peer_def call_peer_once_def build_envelope_def next_outbound_nonce_def dead_network_def send_cancellable_def
        example_client_def example_command_def peer_client_config_default_def peer_retry_policy_default_def peer_error_is_retryable_def
        numeral_2_eq_2)
  ultimately show "snd (call_peer id (\<lambda>_. Ok []) (\<lambda>_. Err ''no response'') dead_network (example_client identity) ''u'' Command (example_command None) 0) \<le> 0 + 1 \<and>
     snd (call_peer id (\<lambda>_. Ok []) (\<lambda>_. Err ''no response'') dead_network (example_client identity) ''u'' Command (example_command (Some ''k'')) 0) = 2"
    by (simp add: example_command_def)
qed

end
