(* ===== verification/Fenced_Leases.thy ===== *)
theory Fenced_Leases
  imports Prelude
begin

text \<open>
  Leases with fencing epochs, as the lease repositories of \<open>appcore-provider\<close> and the control planes of
  \<open>appcore-control-plane\<close> hand them out. The interface \<open>fenced_leases\<close> fixes for every resource the current
  holder with its epoch and the highest epoch ever used; what it asks of a single operation is enough to
  order all grants of a run.
\<close>

locale fenced_leases =
  fixes step :: "'op \<Rightarrow> 's \<Rightarrow> 's" and inv :: "'s \<Rightarrow> bool"
    and held :: "'s \<Rightarrow> 'k \<Rightarrow> (string \<times> u64) option" and mark :: "'s \<Rightarrow> 'k \<Rightarrow> u64"
  assumes step_inv: "inv s \<Longrightarrow> inv (step op s)"
    and held_mark: "inv s \<Longrightarrow> held s k = Some (h, e) \<Longrightarrow> e \<le> mark s k"
    and step_mark: "inv s \<Longrightarrow> mark s k \<le> mark (step op s) k"
    and step_held: "inv s \<Longrightarrow> held (step op s) k = Some (h, e) \<Longrightarrow> held s k = Some (h, e) \<or> mark s k < e"
begin

definition run :: "'op list \<Rightarrow> 's \<Rightarrow> 's" where
  "run ops s = fold step ops s"

lemma run_Cons [simp]: "run [] s = s" "run (op # ops) s = run ops (step op s)"
  by (simp_all add: run_def)

lemma run_inv: "inv s \<Longrightarrow> inv (run ops s)"
  by (induction ops arbitrary: s) (simp_all add: step_inv)

lemma run_mark: "inv s \<Longrightarrow> mark s k \<le> mark (run ops s) k"
proof (induction ops arbitrary: s)
  case (Cons op ops)
  from Cons.IH [OF step_inv [OF Cons.prems]] show ?case
    using step_mark [OF Cons.prems] order_trans by (fastforce simp del: order_trans)
qed simp

text \<open>What is held after a run was held before it or is newer than everything before it.\<close>

lemma run_held:
  "inv s \<Longrightarrow> held (run ops s) k = Some (h, e) \<Longrightarrow> held s k = Some (h, e) \<or> mark s k < e"
proof (induction ops arbitrary: s)
  case (Cons op ops)
  from Cons.IH [OF step_inv [OF Cons.prems(1)]] Cons.prems(2)
  have "held (step op s) k = Some (h, e) \<or> mark (step op s) k < e" by simp
  then show ?case using step_held [OF Cons.prems(1)] step_mark [OF Cons.prems(1)] order_le_less_trans by blast
qed simp

text \<open>Epochs order the holders: a later holder has a higher epoch or is the same holder at the same epoch.\<close>

lemma epochs_ordered:
  assumes "inv s" "held s k = Some (h, e)" "held (run ops s) k = Some (h', e')"
  shows "e < e' \<or> (h' = h \<and> e' = e)"
  using run_held [OF assms(1,3)] held_mark [OF assms(1,2)] assms(2) by (auto dest: order_le_less_trans)

end

end
