(* ===== verification/Lease_File.thy ===== *)
theory Lease_File
  imports File_System Text_Format Fenced_Leases
begin

text \<open>
  Shared-resource leases in files (\<open>appcore-provider\<close>, \<open>shared_lease.rs\<close>, \<open>shared_lease_state.rs\<close>): policies, tokens, the
  durable texts of a lease and of the highest epoch, and the repository operations under the
  resource's file lock. The lock makes the processes that share the directory take turns, so a run is a
  sequence of whole operations; every file system call of an operation may fail. The text of an
  operating system error, which the source appends to a prefix, is one value.
\<close>

section \<open>Errors, owners, tokens and policies\<close>

datatype provider_role =
  PR_Storage | PR_ControlPlane | PR_CoordinationStore | PR_Job | PR_Secret | PR_Discovery | PR_PeerTransport
  | PR_CommandTransport | PR_Update | PR_Database | PR_Adapter

datatype provider_error =
  DuplicateFactory provider_role string | PE_Unavailable provider_role string | InvalidConfiguration string
  | SecretUnavailable string | Initialization string

type_synonym 'a provider_result = "provider_error + 'a"

definition lease_io :: provider_error where "lease_io = Initialization ''lease I/O failed''"

definition label_byte :: "char \<Rightarrow> bool" where
  "label_byte c \<longleftrightarrow> is_ascii_alphanumeric c \<or> c \<in> {CHR ''.'', CHR ''-'', CHR ''_''}"

definition validate_label :: "string \<Rightarrow> string \<Rightarrow> unit provider_result" where
  "validate_label field v =
     (if v = '''' \<or> 128 < length v \<or> \<not> list_all label_byte v then Err (InvalidConfiguration (''invalid '' @ field)) else Ok ())"

definition lease_owner_new :: "string \<Rightarrow> string provider_result" where
  "lease_owner_new v = rbind (validate_label ''lease owner'' v) (\<lambda>_. Ok v)"

record lease_token =
  lt_resource :: string
  lt_owner :: string
  lt_epoch :: u64

record shared_lease =
  sl_token :: lease_token
  sl_acquired_at_ms :: u64
  sl_heartbeat_at_ms :: u64
  sl_expires_at_ms :: u64

record lease_policy =
  lp_ttl_ms :: u64
  lp_heartbeat_ms :: u64
  lp_clock_skew_ms :: u64

definition lease_policy_validate :: "lease_policy \<Rightarrow> unit provider_result" where
  "lease_policy_validate p =
     (if lp_ttl_ms p = 0 \<or> lp_heartbeat_ms p = 0 \<or> lp_ttl_ms p \<le> lp_heartbeat_ms p \<or> lp_ttl_ms p \<le> lp_clock_skew_ms p
      then Err (InvalidConfiguration ''lease ttl must exceed heartbeat and clock skew'') else Ok ())"

definition lease_policy_new :: "u64 \<Rightarrow> u64 \<Rightarrow> u64 \<Rightarrow> lease_policy provider_result" where
  "lease_policy_new ttl_ms heartbeat_ms clock_skew_ms =
     (let p = \<lparr> lp_ttl_ms = ttl_ms, lp_heartbeat_ms = heartbeat_ms, lp_clock_skew_ms = clock_skew_ms \<rparr>
      in rbind (lease_policy_validate p) (\<lambda>_. Ok p))"

definition is_expired :: "shared_lease \<Rightarrow> u64 \<Rightarrow> lease_policy \<Rightarrow> bool" where
  "is_expired l now_ms p \<longleftrightarrow> sl_expires_at_ms l \<le> sat_sub now_ms (lp_clock_skew_ms p)"

datatype lease_decision = LD_Allowed | LD_NoLease | LD_Expired | LD_WrongOwner | LD_StaleEpoch

section \<open>The durable texts\<close>

definition MAX_STATE_BYTES :: nat where "MAX_STATE_BYTES = 4 * 1024"
definition LEASE_FORMAT :: string where "LEASE_FORMAT = ''appcore-shared-lease-v1''"
definition EPOCH_FORMAT :: string where "EPOCH_FORMAT = ''appcore-shared-lease-epoch-v1''"

definition field_line :: "string \<Rightarrow> string \<Rightarrow> string" where
  "field_line key v = key @ ''='' @ v @ [newline]"

definition lease_text :: "shared_lease \<Rightarrow> string" where
  "lease_text l = field_line ''format'' LEASE_FORMAT @ field_line ''resource'' (lt_resource (sl_token l)) @
     field_line ''owner'' (lt_owner (sl_token l)) @ field_line ''epoch'' (u64_string (lt_epoch (sl_token l))) @
     field_line ''acquired_at_ms'' (u64_string (sl_acquired_at_ms l)) @
     field_line ''heartbeat_at_ms'' (u64_string (sl_heartbeat_at_ms l)) @
     field_line ''expires_at_ms'' (u64_string (sl_expires_at_ms l))"

definition epoch_text :: "u64 \<Rightarrow> string" where
  "epoch_text e = field_line ''format'' EPOCH_FORMAT @ field_line ''epoch'' (u64_string e)"

definition malformed :: "string \<Rightarrow> provider_error" where
  "malformed what = InvalidConfiguration what"

definition lease_parse_u64 :: "string \<Rightarrow> u64 provider_result" where
  "lease_parse_u64 v = ok_or (malformed ''lease integer field is malformed'') (parse_u64 v)"

text \<open>The fields of a lease that \<open>parse_state\<close> has seen so far.\<close>

record lease_fields =
  lf_format_seen :: bool
  lf_resource :: "string option"
  lf_owner :: "string option"
  lf_epoch :: "u64 option"
  lf_acquired_at_ms :: "u64 option"
  lf_heartbeat_at_ms :: "u64 option"
  lf_expires_at_ms :: "u64 option"

definition lease_fields_empty :: lease_fields where
  "lease_fields_empty = \<lparr> lf_format_seen = False, lf_resource = None, lf_owner = None, lf_epoch = None, lf_acquired_at_ms = None,
     lf_heartbeat_at_ms = None, lf_expires_at_ms = None \<rparr>"

definition parse_lease_field :: "string \<Rightarrow> string \<Rightarrow> lease_fields \<Rightarrow> lease_fields provider_result" where
  "parse_lease_field key v f =
     (if key = ''format'' \<and> v = LEASE_FORMAT \<and> \<not> lf_format_seen f then Ok (f\<lparr> lf_format_seen := True \<rparr>)
      else if key = ''resource'' \<and> lf_resource f = None then Ok (f\<lparr> lf_resource := Some v \<rparr>)
      else if key = ''owner'' \<and> lf_owner f = None then rbind (lease_owner_new v) (\<lambda>w. Ok (f\<lparr> lf_owner := Some w \<rparr>))
      else if key = ''epoch'' \<and> lf_epoch f = None then rbind (lease_parse_u64 v) (\<lambda>n. Ok (f\<lparr> lf_epoch := Some n \<rparr>))
      else if key = ''acquired_at_ms'' \<and> lf_acquired_at_ms f = None
      then rbind (lease_parse_u64 v) (\<lambda>n. Ok (f\<lparr> lf_acquired_at_ms := Some n \<rparr>))
      else if key = ''heartbeat_at_ms'' \<and> lf_heartbeat_at_ms f = None
      then rbind (lease_parse_u64 v) (\<lambda>n. Ok (f\<lparr> lf_heartbeat_at_ms := Some n \<rparr>))
      else if key = ''expires_at_ms'' \<and> lf_expires_at_ms f = None
      then rbind (lease_parse_u64 v) (\<lambda>n. Ok (f\<lparr> lf_expires_at_ms := Some n \<rparr>))
      else Err (malformed ''lease state is malformed''))"

definition split_field :: "string \<Rightarrow> (string \<times> string) provider_result" where
  "split_field line = ok_or (malformed ''lease state is malformed'') (split_once (CHR ''='') line)"

fun parse_lease_lines :: "string list \<Rightarrow> lease_fields \<Rightarrow> lease_fields provider_result" where
  "parse_lease_lines [] f = Ok f"
| "parse_lease_lines (line # rest) f =
     rbind (split_field line) (\<lambda>(key, v). rbind (parse_lease_field key v f) (parse_lease_lines rest))"

definition parse_state :: "string \<Rightarrow> string \<Rightarrow> shared_lease provider_result" where
  "parse_state t expected_resource =
     rbind (parse_lease_lines (rust_lines t) lease_fields_empty) (\<lambda>f.
     if \<not> lf_format_seen f then Err (malformed ''lease state has unsupported format'')
     else rbind (ok_or (malformed ''lease state missing resource'') (lf_resource f)) (\<lambda>resource.
     if resource \<noteq> expected_resource then Err (malformed ''lease state resource mismatch'')
     else rbind (ok_or (malformed ''lease state missing owner'') (lf_owner f)) (\<lambda>owner.
     rbind (ok_or (malformed ''lease state missing epoch'') (lf_epoch f)) (\<lambda>epoch.
     rbind (ok_or (malformed ''lease state missing acquired_at_ms'') (lf_acquired_at_ms f)) (\<lambda>acquired.
     rbind (ok_or (malformed ''lease state missing heartbeat_at_ms'') (lf_heartbeat_at_ms f)) (\<lambda>heartbeat.
     rbind (ok_or (malformed ''lease state missing expires_at_ms'') (lf_expires_at_ms f)) (\<lambda>expires.
     Ok \<lparr> sl_token = \<lparr> lt_resource = resource, lt_owner = owner, lt_epoch = epoch \<rparr>, sl_acquired_at_ms = acquired,
          sl_heartbeat_at_ms = heartbeat, sl_expires_at_ms = expires \<rparr>)))))))"

fun parse_epoch_lines :: "string list \<Rightarrow> bool \<Rightarrow> u64 option \<Rightarrow> (bool \<times> u64 option) provider_result" where
  "parse_epoch_lines [] format_seen epoch = Ok (format_seen, epoch)"
| "parse_epoch_lines (line # rest) format_seen epoch =
     rbind (split_field line) (\<lambda>(key, v).
       if key = ''format'' \<and> v = EPOCH_FORMAT \<and> \<not> format_seen then parse_epoch_lines rest True epoch
       else if key = ''epoch'' \<and> epoch = None then rbind (lease_parse_u64 v) (\<lambda>n. parse_epoch_lines rest format_seen (Some n))
       else Err (malformed ''lease epoch state is malformed''))"

definition parse_epoch :: "string \<Rightarrow> u64 provider_result" where
  "parse_epoch t = rbind (parse_epoch_lines (rust_lines t) False None) (\<lambda>(format_seen, epoch).
     if \<not> format_seen then Err (malformed ''lease epoch state has unsupported format'')
     else ok_or (malformed ''lease epoch state missing epoch'') epoch)"

section \<open>Files\<close>

definition lease_reject_symlink :: "path \<Rightarrow> (fs, provider_error, unit) eff" where
  "lease_reject_symlink p s = (case fs_symlink_metadata p s of
     (Inr LinkNode, s') \<Rightarrow> (Err (InvalidConfiguration ''lease path symlink''), s')
   | (Inr _, s') \<Rightarrow> (Ok (), s')
   | (Inl IK_NotFound, s') \<Rightarrow> (Ok (), s')
   | (Inl IK_Other, s') \<Rightarrow> (Err lease_io, s'))"

definition read_optional_bounded :: "path \<Rightarrow> (fs, provider_error, string option) eff" where
  "read_optional_bounded p =
     ebind (lease_reject_symlink p) (\<lambda>_ s.
       case fs_open_read p s of
         (Inl IK_NotFound, s1) \<Rightarrow> (Ok None, s1)
       | (Inl IK_Other, s1) \<Rightarrow> (Err lease_io, s1)
       | (Inr (FileNode content), s1) \<Rightarrow>
           ebind (as_err lease_io (fs_read content (MAX_STATE_BYTES + 1))) (\<lambda>bs.
             if MAX_STATE_BYTES < length bs then efail (InvalidConfiguration ''lease state exceeds size limit'')
             else if \<not> valid_utf8 (map unat bs) then efail (InvalidConfiguration ''lease state is not UTF-8'')
             else eret (Some (bytes_text bs))) s1
       | (Inr _, s1) \<Rightarrow> (Err lease_io, s1))"

definition read_lease_state :: "path \<Rightarrow> string \<Rightarrow> (fs, provider_error, shared_lease option) eff" where
  "read_lease_state p expected_resource =
     ebind (read_optional_bounded p) (\<lambda>t. case t of None \<Rightarrow> eret None
       | Some t \<Rightarrow> elift (\<lambda>_. rbind (parse_state t expected_resource) (\<lambda>l. Ok (Some l))))"

definition read_epoch :: "path \<Rightarrow> (fs, provider_error, u64 option) eff" where
  "read_epoch p =
     ebind (read_optional_bounded p) (\<lambda>t. case t of None \<Rightarrow> eret None
       | Some t \<Rightarrow> elift (\<lambda>_. rbind (parse_epoch t) (\<lambda>e. Ok (Some e))))"

definition lease_temporary :: "path \<Rightarrow> (fs, 'e, path) eff" where
  "lease_temporary parent s =
     (Ok (parent @ [''.lease.'' @ nat_dec (fs_pid s) @ ''-'' @ u64_string (fs_temp_counter s) @ ''.tmp'']),
      s\<lparr> fs_temp_counter := fs_temp_counter s + 1 \<rparr>)"

definition lease_write_and_rename :: "path \<Rightarrow> path \<Rightarrow> path \<Rightarrow> bytes \<Rightarrow> (fs, provider_error, unit) eff" where
  "lease_write_and_rename temp p parent bs =
     ebind (lease_reject_symlink p) (\<lambda>_. write_and_rename lease_io temp p parent bs)"

definition lease_atomic_replace :: "path \<Rightarrow> bytes \<Rightarrow> (fs, provider_error, unit) eff" where
  "lease_atomic_replace p bs =
     ebind (lease_temporary (butlast p)) (\<lambda>temporary s.
       case lease_write_and_rename temporary p (butlast p) bs s of
         (Inr u, s') \<Rightarrow> (Ok u, s')
       | (Inl err, s') \<Rightarrow> (Err err, snd (fs_remove_file temporary s')))"

definition write_lease_state :: "path \<Rightarrow> shared_lease \<Rightarrow> (fs, provider_error, unit) eff" where
  "write_lease_state p l = lease_atomic_replace p (text_bytes (lease_text l))"

definition write_epoch :: "path \<Rightarrow> u64 \<Rightarrow> (fs, provider_error, unit) eff" where
  "write_epoch p e = lease_atomic_replace p (text_bytes (epoch_text e))"

definition remove_lease_state :: "path \<Rightarrow> (fs, provider_error, unit) eff" where
  "remove_lease_state p =
     ebind (lease_reject_symlink p) (\<lambda>_.
     ebind (as_err lease_io (fs_remove_file p)) (\<lambda>_.
     sync_parent lease_io (butlast p)))"

section \<open>The repository\<close>

record lease_repo =
  lr_root :: path
  lr_policy :: lease_policy

definition lease_repo_open :: "path \<Rightarrow> lease_policy \<Rightarrow> (fs, provider_error, lease_repo) eff" where
  "lease_repo_open root policy =
     ebind (elift (\<lambda>_. lease_policy_validate policy)) (\<lambda>_.
     ebind (lease_reject_symlink root) (\<lambda>_.
     ebind (as_err lease_io (fs_create_dir_all root)) (\<lambda>_.
     ebind (lease_reject_symlink root) (\<lambda>_ s.
       if \<not> is_dir s root then (Err (InvalidConfiguration ''lease root is not a directory''), s)
       else (Ok \<lparr> lr_root = root, lr_policy = policy \<rparr>, s)))))"

definition lease_lock_path :: "lease_repo \<Rightarrow> string \<Rightarrow> path" where
  "lease_lock_path r resource = lr_root r @ [resource @ ''.lock'']"

definition lease_state_path :: "lease_repo \<Rightarrow> string \<Rightarrow> path" where
  "lease_state_path r resource = lr_root r @ [resource @ ''.lease'']"

definition lease_epoch_path :: "lease_repo \<Rightarrow> string \<Rightarrow> path" where
  "lease_epoch_path r resource = lr_root r @ [resource @ ''.epoch'']"

definition with_lock :: "lease_repo \<Rightarrow> string \<Rightarrow> (path \<Rightarrow> (fs, provider_error, 'a) eff) \<Rightarrow> (fs, provider_error, 'a) eff" where
  "with_lock r resource operation =
     ebind (lease_reject_symlink (lr_root r)) (\<lambda>_.
     ebind (elift (\<lambda>_. validate_label ''lease resource'' resource)) (\<lambda>_.
     ebind (lease_reject_symlink (lease_lock_path r resource)) (\<lambda>_.
     ebind (as_err lease_io (fs_open_create (lease_lock_path r resource))) (\<lambda>_.
     ebind (as_err lease_io (sys_call (eret ()))) (\<lambda>_ s.
       case operation (lease_state_path r resource) s of (result, s1) \<Rightarrow>
         ebind (as_err (Initialization ''lease unlock failed'') (sys_call (eret ()))) (\<lambda>_ s2. (result, s2)) s1)))))"

definition lease_expiration :: "u64 \<Rightarrow> u64 \<Rightarrow> u64 provider_result" where
  "lease_expiration now_ms ttl_ms = ok_or (Initialization ''lease expiration timestamp overflow'') (checked_add now_ms ttl_ms)"

definition ensure_same_token :: "shared_lease \<Rightarrow> lease_token \<Rightarrow> unit provider_result" where
  "ensure_same_token current token =
     (if sl_token current \<noteq> token then Err (Initialization ''shared resource lease fencing token mismatch'') else Ok ())"

definition ensure_current :: "shared_lease \<Rightarrow> lease_token \<Rightarrow> u64 \<Rightarrow> lease_policy \<Rightarrow> unit provider_result" where
  "ensure_current current token now_ms policy =
     rbind (ensure_same_token current token) (\<lambda>_.
       if is_expired current now_ms policy then Err (Initialization ''shared resource lease has expired'') else Ok ())"

definition lease_acquire :: "lease_repo \<Rightarrow> string \<Rightarrow> string \<Rightarrow> u64 \<Rightarrow> (fs, provider_error, shared_lease) eff" where
  "lease_acquire r resource owner now_ms = with_lock r resource (\<lambda>state_path.
     ebind (read_lease_state state_path resource) (\<lambda>current.
     if (case current of Some c \<Rightarrow> \<not> is_expired c now_ms (lr_policy r) \<and> lt_owner (sl_token c) \<noteq> owner | None \<Rightarrow> False)
     then efail (Initialization ''shared resource lease is held by another owner'')
     else ebind (read_epoch (lease_epoch_path r resource)) (\<lambda>stored.
       let previous_epoch = max (case stored of Some e \<Rightarrow> e | None \<Rightarrow> 0)
             (case current of Some c \<Rightarrow> lt_epoch (sl_token c) | None \<Rightarrow> 0)
       in ebind (elift (\<lambda>_. ok_or (Initialization ''shared resource fencing epoch exhausted'') (checked_add previous_epoch 1))) (\<lambda>next_epoch.
          ebind (elift (\<lambda>_. lease_expiration now_ms (lp_ttl_ms (lr_policy r)))) (\<lambda>expires_at_ms.
          let lease = \<lparr> sl_token = \<lparr> lt_resource = resource, lt_owner = owner, lt_epoch = next_epoch \<rparr>, sl_acquired_at_ms = now_ms,
                sl_heartbeat_at_ms = now_ms, sl_expires_at_ms = expires_at_ms \<rparr>
          in ebind (write_epoch (lease_epoch_path r resource) next_epoch) (\<lambda>_.
             ebind (write_lease_state state_path lease) (\<lambda>_. eret lease)))))))"

definition lease_absent :: provider_error where
  "lease_absent = Initialization ''shared resource lease is absent''"

definition lease_heartbeat :: "lease_repo \<Rightarrow> lease_token \<Rightarrow> u64 \<Rightarrow> (fs, provider_error, shared_lease) eff" where
  "lease_heartbeat r token now_ms = with_lock r (lt_resource token) (\<lambda>state_path.
     ebind (read_lease_state state_path (lt_resource token)) (\<lambda>found.
     ebind (elift (\<lambda>_. ok_or lease_absent found)) (\<lambda>current.
     ebind (elift (\<lambda>_. ensure_current current token now_ms (lr_policy r))) (\<lambda>_.
     if now_ms < sl_heartbeat_at_ms current then efail (Initialization ''lease heartbeat clock moved backwards'')
     else ebind (elift (\<lambda>_. lease_expiration now_ms (lp_ttl_ms (lr_policy r)))) (\<lambda>expires_at_ms.
       let lease = current\<lparr> sl_heartbeat_at_ms := now_ms, sl_expires_at_ms := expires_at_ms \<rparr>
       in ebind (write_lease_state state_path lease) (\<lambda>_. eret lease))))))"

definition lease_release :: "lease_repo \<Rightarrow> lease_token \<Rightarrow> (fs, provider_error, unit) eff" where
  "lease_release r token = with_lock r (lt_resource token) (\<lambda>state_path.
     ebind (read_lease_state state_path (lt_resource token)) (\<lambda>found.
     ebind (elift (\<lambda>_. ok_or lease_absent found)) (\<lambda>current.
     ebind (elift (\<lambda>_. ensure_same_token current token)) (\<lambda>_.
     remove_lease_state state_path))))"

definition lease_current :: "lease_repo \<Rightarrow> string \<Rightarrow> (fs, provider_error, shared_lease option) eff" where
  "lease_current r resource = with_lock r resource (\<lambda>state_path. read_lease_state state_path resource)"

definition check_fence :: "lease_repo \<Rightarrow> lease_token \<Rightarrow> u64 \<Rightarrow> (fs, provider_error, lease_decision) eff" where
  "check_fence r token now_ms = with_lock r (lt_resource token) (\<lambda>state_path.
     ebind (read_lease_state state_path (lt_resource token)) (\<lambda>found. eret (case found of
       None \<Rightarrow> LD_NoLease
     | Some current \<Rightarrow>
         if is_expired current now_ms (lr_policy r) then LD_Expired
         else if lt_owner (sl_token current) \<noteq> lt_owner token then LD_WrongOwner
         else if lt_epoch (sl_token current) \<noteq> lt_epoch token then LD_StaleEpoch
         else LD_Allowed)))"

end
