(* ===== verification/Lease_Safety.thy ===== *)
theory Lease_Safety
  imports Lease_File "HOL-Library.Code_Target_Nat"
begin

text \<open>
  What the file leases guarantee under every sequence of file system faults: texts parse back,
  an operation touches only the files of its own resource, and the repository keeps the laws of \<open>fenced_leases\<close>.
  The witness evaluates the repository on an empty directory.
\<close>

section \<open>Texts\<close>

lemma label_byte_plain: "label_byte c \<Longrightarrow> c \<noteq> CHR ''='' \<and> c \<noteq> newline \<and> c \<noteq> carriage_return"
  by (auto simp: label_byte_def control_chars char_class_defs)

definition plain_text :: "string \<Rightarrow> bool" where
  "plain_text t \<longleftrightarrow> newline \<notin> set t \<and> carriage_return \<notin> set t"

lemma plain_text_label: "validate_label f v = Ok () \<Longrightarrow> plain_text v"
  using label_byte_plain by (auto simp: validate_label_def plain_text_def list_all_iff split: if_splits)

lemma plain_text_u64 [simp]: "plain_text (u64_string n)"
  by (simp add: plain_text_def control_not_in_u64_string)

lemma lines_field [simp]:
  assumes "plain_text k" "plain_text v"
  shows "rust_lines (field_line k v @ rest) = (k @ ''='' @ v) # rust_lines rest"
  using assms rust_lines_line [of "k @ ''='' @ v" rest]
  by (auto simp: field_line_def plain_text_def control_chars)

lemma lines_field_last [simp]:
  "plain_text k \<Longrightarrow> plain_text v \<Longrightarrow> rust_lines (field_line k v) = [k @ ''='' @ v]"
  using lines_field [of k v "[]"] by simp

lemma split_field_line [simp]: "CHR ''='' \<notin> set k \<Longrightarrow> split_field (k @ CHR ''='' # v) = Ok (k, v)"
  by (simp add: split_field_def split_once_append)

lemma plain_keys [simp]:
  "plain_text ''format''" "plain_text ''resource''" "plain_text ''owner''" "plain_text ''epoch''"
  "plain_text ''acquired_at_ms''" "plain_text ''heartbeat_at_ms''" "plain_text ''expires_at_ms''"
  "plain_text LEASE_FORMAT" "plain_text EPOCH_FORMAT"
  by (simp_all add: plain_text_def control_chars LEASE_FORMAT_def EPOCH_FORMAT_def)

lemma parse_epoch_text [simp]: "parse_epoch (epoch_text e) = Ok e"
  using split_field_line [of "''format''" EPOCH_FORMAT] split_field_line [of "''epoch''" "u64_string e"]
  by (simp add: parse_epoch_def epoch_text_def lease_parse_u64_def)

lemma parse_lease_text:
  assumes "validate_label a (lt_resource (sl_token l)) = Ok ()" "validate_label ''lease owner'' (lt_owner (sl_token l)) = Ok ()"
  shows "parse_state (lease_text l) (lt_resource (sl_token l)) = Ok l"
proof -
  note f = split_field_line [of "''format''" LEASE_FORMAT] split_field_line [of "''resource''" "lt_resource (sl_token l)"]
    split_field_line [of "''owner''" "lt_owner (sl_token l)"] split_field_line [of "''epoch''"] split_field_line [of "''acquired_at_ms''"]
    split_field_line [of "''heartbeat_at_ms''"] split_field_line [of "''expires_at_ms''"]
  show ?thesis using assms f plain_text_label [OF assms(1)] plain_text_label [OF assms(2)]
    by (simp add: parse_state_def lease_text_def parse_lease_field_def lease_fields_empty_def lease_owner_new_def lease_parse_u64_def)
qed

lemma parse_lease_field_owner:
  assumes "parse_lease_field k v f = Ok f'" "\<forall>w. lf_owner f = Some w \<longrightarrow> validate_label ''lease owner'' w = Ok ()"
  shows "\<forall>w. lf_owner f' = Some w \<longrightarrow> validate_label ''lease owner'' w = Ok ()"
  using assms by (auto simp: parse_lease_field_def lease_owner_new_def rbind_Inr_iff split: if_splits)

lemma parse_lease_lines_owner:
  assumes "parse_lease_lines ls f = Ok f'" "\<forall>w. lf_owner f = Some w \<longrightarrow> validate_label ''lease owner'' w = Ok ()"
  shows "\<forall>w. lf_owner f' = Some w \<longrightarrow> validate_label ''lease owner'' w = Ok ()"
  using assms
proof (induction ls f rule: parse_lease_lines.induct)
  case (2 line rest f)
  then obtain k v f1 where "split_field line = Ok (k, v)" "parse_lease_field k v f = Ok f1" "parse_lease_lines rest f1 = Ok f'"
    by (auto simp: rbind_Inr_iff)
  then show ?case using 2 parse_lease_field_owner by blast
qed simp

lemma parse_state_Ok:
  assumes "parse_state t k = Ok l"
  shows "lt_resource (sl_token l) = k" "validate_label ''lease owner'' (lt_owner (sl_token l)) = Ok ()"
proof -
  obtain f where f: "parse_lease_lines (rust_lines t) lease_fields_empty = Ok f"
    "lt_resource (sl_token l) = k" "lf_owner f = Some (lt_owner (sl_token l))"
    using assms by (auto simp: parse_state_def rbind_Inr_iff ok_or_def split: if_splits option.splits)
  then show "lt_resource (sl_token l) = k" by simp
  have "\<forall>w. lf_owner lease_fields_empty = Some w \<longrightarrow> validate_label ''lease owner'' w = Ok ()" by (simp add: lease_fields_empty_def)
  then show "validate_label ''lease owner'' (lt_owner (sl_token l)) = Ok ()"
    using parse_lease_lines_owner [OF f(1)] f(3) by blast
qed

section \<open>Files\<close>

lemma lease_reject_symlink_inspects: "inspects (lease_reject_symlink p)"
proof -
  have "inspects (fs_symlink_metadata p)" unfolding fs_symlink_metadata_def by (intro sys_call_inspects) simp
  then show ?thesis unfolding inspects_def lease_reject_symlink_def Let_def
    by (auto split: prod.splits sum.splits node.splits io_kind.splits) (metis snd_conv)+
qed

text \<open>What a read that succeeds has seen.\<close>

lemma read_optional_Ok:
  assumes "read_optional_bounded p s = (Ok t, s')"
  shows "fs_nodes s' = fs_nodes s"
    "t = None \<and> fs_nodes s p = None \<or> (\<exists>bs. fs_nodes s p = Some (FileNode bs) \<and> t = Some (bytes_text bs))"
proof -
  obtain s1 where 1: "lease_reject_symlink p s = (Ok (), s1)"
    and 2: "(case fs_open_read p s1 of
         (Inl IK_NotFound, s1) \<Rightarrow> (Ok None, s1) | (Inl IK_Other, s1) \<Rightarrow> (Err lease_io, s1)
       | (Inr (FileNode content), s1) \<Rightarrow>
           ebind (as_err lease_io (fs_read content (MAX_STATE_BYTES + 1))) (\<lambda>bs.
             if MAX_STATE_BYTES < length bs then efail (InvalidConfiguration ''lease state exceeds size limit'')
             else if \<not> valid_utf8 (map unat bs) then efail (InvalidConfiguration ''lease state is not UTF-8'')
             else eret (Some (bytes_text bs))) s1
       | (Inr _, s1) \<Rightarrow> (Err lease_io, s1)) = (Ok t, s')"
    using assms unfolding read_optional_bounded_def by (auto simp: ebind_Ok_iff)
  have n1: "fs_nodes s1 = fs_nodes s" using 1 by (rule inspectsD [OF lease_reject_symlink_inspects])
  obtain r2 s2 where o: "fs_open_read p s1 = (r2, s2)" by (cases "fs_open_read p s1")
  have n2: "fs_nodes s2 = fs_nodes s \<and> (r2 = Err IK_NotFound \<longrightarrow> fs_nodes s p = None) \<and> (\<forall>n. r2 = Ok n \<longrightarrow> fs_nodes s p = Some n)"
    using o unfolding fs_open_read_def
  proof (cases rule: sys_call_cases)
    case (runs s3)
    then show ?thesis using n1 by (auto split: option.splits node.splits)
  qed (use n1 in auto)
  have "fs_nodes s' = fs_nodes s \<and>
      (t = None \<and> fs_nodes s p = None \<or> (\<exists>bs. fs_nodes s p = Some (FileNode bs) \<and> t = Some (bytes_text bs)))"
  proof (cases r2)
    case (Inl k)
    then show ?thesis using 2 o n2 by (cases k) auto
  next
    case (Inr n)
    then obtain bs where n: "n = FileNode bs" using 2 o by (cases n) auto
    have rd: "fs_nodes s3 = fs_nodes s2 \<and> x = take (MAX_STATE_BYTES + 1) bs"
      if "fs_read bs (MAX_STATE_BYTES + 1) s2 = (Ok x, s3)" for x s3
      using that unfolding fs_read_def by (auto elim!: sys_call_cases)
    from 2 o Inr n show ?thesis using n2 rd
      by (auto simp: ebind_Ok_iff as_err_Ok split: if_splits)
  qed
  then show "fs_nodes s' = fs_nodes s"
    "t = None \<and> fs_nodes s p = None \<or> (\<exists>bs. fs_nodes s p = Some (FileNode bs) \<and> t = Some (bytes_text bs))" by auto
qed

definition lease_at :: "fs \<Rightarrow> path \<Rightarrow> string \<Rightarrow> shared_lease option" where
  "lease_at s p k = (case fs_nodes s p of
     Some (FileNode bs) \<Rightarrow> (case parse_state (bytes_text bs) k of Inr l \<Rightarrow> Some l | Inl _ \<Rightarrow> None) | _ \<Rightarrow> None)"

definition epoch_at :: "fs \<Rightarrow> path \<Rightarrow> u64 option" where
  "epoch_at s p = (case fs_nodes s p of
     Some (FileNode bs) \<Rightarrow> (case parse_epoch (bytes_text bs) of Inr e \<Rightarrow> Some e | Inl _ \<Rightarrow> None) | _ \<Rightarrow> None)"

lemma read_lease_state_Ok:
  assumes "read_lease_state p k s = (Ok x, s')"
  shows "fs_nodes s' = fs_nodes s" "x = lease_at s p k"
proof -
  obtain t where t: "read_optional_bounded p s = (Ok t, s')"
    "(case t of None \<Rightarrow> Ok None | Some t \<Rightarrow> rbind (parse_state t k) (\<lambda>l. Ok (Some l))) = (Ok x :: shared_lease option provider_result)"
    using assms unfolding read_lease_state_def by (auto simp: ebind_Ok_iff split: option.splits)
  from read_optional_Ok [OF t(1)] t(2) show "fs_nodes s' = fs_nodes s" "x = lease_at s p k"
    by (auto simp: lease_at_def rbind_Inr_iff)
qed

lemma read_epoch_Ok:
  assumes "read_epoch p s = (Ok x, s')"
  shows "fs_nodes s' = fs_nodes s" "x = epoch_at s p"
proof -
  obtain t where t: "read_optional_bounded p s = (Ok t, s')"
    "(case t of None \<Rightarrow> Ok None | Some t \<Rightarrow> rbind (parse_epoch t) (\<lambda>l. Ok (Some l))) = (Ok x :: u64 option provider_result)"
    using assms unfolding read_epoch_def by (auto simp: ebind_Ok_iff split: option.splits)
  from read_optional_Ok [OF t(1)] t(2) show "fs_nodes s' = fs_nodes s" "x = epoch_at s p"
    by (auto simp: epoch_at_def rbind_Inr_iff)
qed

definition temp_path :: "path \<Rightarrow> bool" where
  "temp_path q \<longleftrightarrow> suffix ''.tmp'' (last q)"

lemma lease_atomic_replace_nodes:
  assumes "lease_atomic_replace p bs s = (r, s')" "\<not> temp_path p"
  shows "fs_nodes s' p = fs_nodes s p \<or> fs_nodes s' p = Some (FileNode bs)" "r = Ok () \<Longrightarrow> fs_nodes s' p = Some (FileNode bs)"
    "q \<noteq> p \<Longrightarrow> \<not> temp_path q \<Longrightarrow> fs_nodes s' q = fs_nodes s q"
proof -
  define t where "t = butlast p @ [''.lease.'' @ nat_dec (fs_pid s) @ ''-'' @ u64_string (fs_temp_counter s) @ ''.tmp'']"
  let ?s = "s\<lparr> fs_temp_counter := fs_temp_counter s + 1 \<rparr>"
  have t: "temp_path t" by (simp add: t_def temp_path_def suffix_def)
  then have tp: "t \<noteq> p" using assms(2) by metis
  obtain r0 s0 where 0: "lease_reject_symlink p ?s = (r0, s0)" by (cases "lease_reject_symlink p ?s")
  have n0: "fs_nodes s0 = fs_nodes s" using inspectsD [OF lease_reject_symlink_inspects 0] by simp
  obtain r1 s1 where 1: "write_and_rename lease_io t p (butlast p) bs s0 = (r1, s1)"
    by (cases "write_and_rename lease_io t p (butlast p) bs s0")
  note w = write_and_rename_nodes [OF 1 tp]
  have res: "(r, s') = (case r0 of Inl e \<Rightarrow> (Err e, snd (fs_remove_file t s0))
      | Inr _ \<Rightarrow> (case r1 of Inr u \<Rightarrow> (Ok u, s1) | Inl e \<Rightarrow> (Err e, snd (fs_remove_file t s1))))"
    using assms(1) 0 1 unfolding t_def by (auto simp: lease_atomic_replace_def lease_temporary_def lease_write_and_rename_def ebind_eval split: sum.splits)
  have "(fs_nodes s' p = fs_nodes s p \<or> fs_nodes s' p = Some (FileNode bs)) \<and> (r = Ok () \<longrightarrow> fs_nodes s' p = Some (FileNode bs)) \<and>
      (q \<noteq> p \<and> \<not> temp_path q \<longrightarrow> fs_nodes s' q = fs_nodes s q)" for q
  proof -
    have "q \<noteq> t" if "\<not> temp_path q" using that t by blast
    then show ?thesis using res w n0 tp remove_file_nodes [of q t] remove_file_nodes [of p t]
      by (cases r0; cases r1) auto
  qed
  then show "fs_nodes s' p = fs_nodes s p \<or> fs_nodes s' p = Some (FileNode bs)" "r = Ok () \<Longrightarrow> fs_nodes s' p = Some (FileNode bs)"
    "q \<noteq> p \<Longrightarrow> \<not> temp_path q \<Longrightarrow> fs_nodes s' q = fs_nodes s q" by blast+
qed

lemma remove_lease_state_nodes:
  assumes "remove_lease_state p s = (r, s')"
  shows "fs_nodes s' p = fs_nodes s p \<or> fs_nodes s' p = None" "q \<noteq> p \<Longrightarrow> fs_nodes s' q = fs_nodes s q"
proof -
  obtain r0 s0 where 0: "lease_reject_symlink p s = (r0, s0)" by (cases "lease_reject_symlink p s")
  have n0: "fs_nodes s0 = fs_nodes s" by (rule inspectsD [OF lease_reject_symlink_inspects 0])
  obtain r1 s1 where 1: "fs_remove_file p s0 = (r1, s1)" by (cases "fs_remove_file p s0")
  have n1: "(fs_nodes s1 p = fs_nodes s p \<or> fs_nodes s1 p = None) \<and> (q \<noteq> p \<longrightarrow> fs_nodes s1 q = fs_nodes s q)" for q
    using 1 unfolding fs_remove_file_def
    by (cases rule: sys_call_cases) (use n0 in \<open>auto split: option.splits node.splits\<close>)
  obtain r2 s2 where 2: "sync_parent lease_io (butlast p) s1 = (r2, s2)" by (cases "sync_parent lease_io (butlast p) s1")
  have n2: "fs_nodes s2 = fs_nodes s1" by (rule sync_parent_nodes [OF 2])
  have "s' = s0 \<or> s' = s1 \<or> s' = s2"
    using assms 0 1 2 by (cases r0; cases r1) (auto simp: remove_lease_state_def ebind_eval as_err_def)
  then show "fs_nodes s' p = fs_nodes s p \<or> fs_nodes s' p = None" "q \<noteq> p \<Longrightarrow> fs_nodes s' q = fs_nodes s q"
    using n0 n1 n2 by auto
qed

text \<open>An operation under the lock runs on an equal file system, but for the lock file, and nothing happens after it.\<close>

lemma with_lock_cases:
  assumes "with_lock r k operation s = (x, s')"
  obtains (refused) "\<forall>q. q \<noteq> lease_lock_path r k \<longrightarrow> fs_nodes s' q = fs_nodes s q" "\<forall>y. x \<noteq> Ok y"
  | (runs) s1 y s2 where "validate_label ''lease resource'' k = Ok ()" "\<forall>q. q \<noteq> lease_lock_path r k \<longrightarrow> fs_nodes s1 q = fs_nodes s q"
      "operation (lease_state_path r k) s1 = (y, s2)" "fs_nodes s' = fs_nodes s2" "\<forall>z. x = Ok z \<longrightarrow> y = Ok z"
proof -
  let ?lock = "lease_lock_path r k"
  let ?call = "as_err lease_io (sys_call (eret ()))"
  have call: "fs_nodes t' = fs_nodes t" if "as_err e (sys_call (eret ())) t = (u, t')" for e :: provider_error and u :: "provider_error + unit" and t t'
    using that by (rule inspectsD [OF inspects_as_err [OF sys_call_inspects [OF inspects_pure(1)]]])
  obtain ra sa where a: "lease_reject_symlink (lr_root r) s = (ra, sa)" by (cases "lease_reject_symlink (lr_root r) s")
  obtain rb sb where b: "lease_reject_symlink ?lock sa = (rb, sb)" by (cases "lease_reject_symlink ?lock sa")
  obtain rc sc where c: "as_err lease_io (fs_open_create ?lock) sb = (rc, sc)" by (cases "as_err lease_io (fs_open_create ?lock) sb")
  obtain rd sd where d: "?call sc = (rd, sd)" by (cases "?call sc")
  have nb: "fs_nodes sa = fs_nodes s" "fs_nodes sb = fs_nodes s"
    using inspectsD [OF lease_reject_symlink_inspects a] inspectsD [OF lease_reject_symlink_inspects b] by simp_all
  have nc: "\<forall>q. q \<noteq> ?lock \<longrightarrow> fs_nodes sc q = fs_nodes s q"
    using c nb open_create_nodes by (auto simp: as_err_eval)
  have nd: "fs_nodes sd = fs_nodes sc" by (rule call [OF d])
  obtain y se where e: "operation (lease_state_path r k) sd = (y, se)" by (cases "operation (lease_state_path r k) sd")
  obtain rf sf where f: "as_err (Initialization ''lease unlock failed'') (sys_call (eret ())) se = (rf, sf)"
    by (cases "as_err (Initialization ''lease unlock failed'') (sys_call (eret ())) se")
  have nf: "fs_nodes sf = fs_nodes se" by (rule call [OF f])
  show thesis
  proof (cases "ra = Ok () \<and> validate_label ''lease resource'' k = Ok () \<and> rb = Ok () \<and> rc = Ok () \<and> rd = Ok ()")
    case True
    then have "(x, s') = (case rf of Inl err \<Rightarrow> (Err err, sf) | Inr _ \<Rightarrow> (y, sf))"
      using assms a b c d e f by (simp add: with_lock_def ebind_eval)
    then have "s' = sf" "\<forall>z. x = Ok z \<longrightarrow> y = Ok z" by (cases rf; simp)+
    then show thesis using runs [of sd y se] True nc nd e nf by simp
  next
    case False
    then have "s' \<in> {s, sa, sb, sc, sd} \<and> (\<forall>y. x \<noteq> Ok y)"
      using assms a b c d
      by (cases ra; cases "validate_label ''lease resource'' k"; cases rb; cases rc; cases rd) (auto simp: with_lock_def ebind_eval)
    then show thesis using refused nb nc nd by auto
  qed
qed

section \<open>Holder and highest epoch of a resource\<close>

definition lease_held :: "lease_repo \<Rightarrow> fs \<Rightarrow> string \<Rightarrow> (string \<times> u64) option" where
  "lease_held r s k = map_option (\<lambda>l. (lt_owner (sl_token l), lt_epoch (sl_token l))) (lease_at s (lease_state_path r k) k)"

definition lease_mark :: "lease_repo \<Rightarrow> fs \<Rightarrow> string \<Rightarrow> u64" where
  "lease_mark r s k = (case epoch_at s (lease_epoch_path r k) of Some e \<Rightarrow> e | None \<Rightarrow> 0)"

definition lease_inv :: "lease_repo \<Rightarrow> fs \<Rightarrow> bool" where
  "lease_inv r s \<longleftrightarrow> (\<forall>k h e. lease_held r s k = Some (h, e) \<longrightarrow> e \<le> lease_mark r s k)"

lemma lease_paths [simp]:
  "lease_state_path r k = lease_state_path r k' \<longleftrightarrow> k = k'" "lease_epoch_path r k = lease_epoch_path r k' \<longleftrightarrow> k = k'"
  "lease_state_path r k \<noteq> lease_epoch_path r k'" "lease_epoch_path r k' \<noteq> lease_state_path r k"
  "lease_state_path r k \<noteq> lease_lock_path r k'" "lease_epoch_path r k \<noteq> lease_lock_path r k'"
  "\<not> temp_path (lease_state_path r k)" "\<not> temp_path (lease_epoch_path r k)"
proof -
  show "lease_state_path r k \<noteq> lease_lock_path r k'" "lease_epoch_path r k \<noteq> lease_lock_path r k'"
    unfolding lease_state_path_def lease_epoch_path_def lease_lock_path_def
    by (auto dest: arg_cong [of _ _ last])
qed (simp_all add: lease_state_path_def lease_epoch_path_def temp_path_def suffix_def append_eq_append_conv2,
  (auto dest: arg_cong [of _ _ last] simp: append_eq_append_conv)?)

lemma lease_views_cong:
  "fs_nodes s' (lease_state_path r k) = fs_nodes s (lease_state_path r k) \<Longrightarrow> lease_held r s' k = lease_held r s k"
  "fs_nodes s' (lease_epoch_path r k) = fs_nodes s (lease_epoch_path r k) \<Longrightarrow> lease_mark r s' k = lease_mark r s k"
  by (simp_all add: lease_held_def lease_at_def lease_mark_def epoch_at_def)

lemma lease_views_written:
  "fs_nodes s (lease_epoch_path r k) = Some (FileNode (text_bytes (epoch_text e))) \<Longrightarrow> lease_mark r s k = e"
  "fs_nodes s (lease_state_path r k) = Some (FileNode (text_bytes (lease_text l))) \<Longrightarrow> lt_resource (sl_token l) = k \<Longrightarrow>
    validate_label f k = Ok () \<Longrightarrow> validate_label ''lease owner'' (lt_owner (sl_token l)) = Ok () \<Longrightarrow>
    lease_held r s k = Some (lt_owner (sl_token l), lt_epoch (sl_token l))"
  using parse_lease_text [of f l] by (auto simp: lease_held_def lease_at_def lease_mark_def epoch_at_def)

section \<open>The operations\<close>

text \<open>What an operation on resource \<open>k\<close> may do to holders and marks.\<close>

definition lease_effect :: "lease_repo \<Rightarrow> string \<Rightarrow> fs \<Rightarrow> fs \<Rightarrow> bool" where
  "lease_effect r k s s' \<longleftrightarrow> (\<forall>k'. k' \<noteq> k \<longrightarrow> lease_held r s' k' = lease_held r s k' \<and> lease_mark r s' k' = lease_mark r s k') \<and>
     lease_mark r s k \<le> lease_mark r s' k \<and>
     (lease_held r s' k = lease_held r s k \<or> lease_held r s' k = None \<or>
      (\<exists>h e. lease_held r s' k = Some (h, e) \<and> lease_mark r s k < e \<and> e \<le> lease_mark r s' k))"

lemma lease_views_same:
  assumes "\<forall>q. q \<noteq> lease_lock_path r k \<longrightarrow> fs_nodes s' q = fs_nodes s q"
  shows "lease_held r s' = lease_held r s" "lease_mark r s' = lease_mark r s"
  by (rule ext, rule lease_views_cong, rule assms [rule_format], rule lease_paths)+

lemma lease_effect_refl:
  "lease_held r s' = lease_held r s \<Longrightarrow> lease_mark r s' = lease_mark r s \<Longrightarrow> lease_effect r k s s'"
  by (simp add: lease_effect_def)

lemma write_lease_state_effect:
  assumes "write_lease_state (lease_state_path r k) l s = (x, s')"
  shows "lease_mark r s' = lease_mark r s" "k' \<noteq> k \<Longrightarrow> lease_held r s' k' = lease_held r s k'"
    "lt_resource (sl_token l) = k \<Longrightarrow> validate_label f k = Ok () \<Longrightarrow> validate_label ''lease owner'' (lt_owner (sl_token l)) = Ok () \<Longrightarrow>
     (lease_held r s' k = lease_held r s k \<or> lease_held r s' k = Some (lt_owner (sl_token l), lt_epoch (sl_token l))) \<and>
     (x = Ok () \<longrightarrow> lease_held r s' k = Some (lt_owner (sl_token l), lt_epoch (sl_token l)))"
proof -
  note n = lease_atomic_replace_nodes [OF assms [unfolded write_lease_state_def] lease_paths(7)]
  show "lease_mark r s' = lease_mark r s"
    by (rule ext, rule lease_views_cong, rule n(3)) simp_all
  show "lease_held r s' k' = lease_held r s k'" if "k' \<noteq> k"
    by (rule lease_views_cong, rule n(3)) (simp_all add: that)
  assume l: "lt_resource (sl_token l) = k" "validate_label f k = Ok ()" "validate_label ''lease owner'' (lt_owner (sl_token l)) = Ok ()"
  show "(lease_held r s' k = lease_held r s k \<or> lease_held r s' k = Some (lt_owner (sl_token l), lt_epoch (sl_token l))) \<and>
     (x = Ok () \<longrightarrow> lease_held r s' k = Some (lt_owner (sl_token l), lt_epoch (sl_token l)))"
    using n(1,2) lease_views_written(2) [OF _ l] lease_views_cong(1) by metis
qed

lemma write_epoch_effect:
  assumes "write_epoch (lease_epoch_path r k) e s = (x, s')"
  shows "lease_held r s' = lease_held r s" "k' \<noteq> k \<Longrightarrow> lease_mark r s' k' = lease_mark r s k'"
    "lease_mark r s' k = lease_mark r s k \<or> lease_mark r s' k = e" "x = Ok () \<Longrightarrow> lease_mark r s' k = e"
proof -
  note n = lease_atomic_replace_nodes [OF assms [unfolded write_epoch_def] lease_paths(8)]
  show "lease_held r s' = lease_held r s"
    by (rule ext, rule lease_views_cong, rule n(3)) simp_all
  show "lease_mark r s' k' = lease_mark r s k'" if "k' \<noteq> k"
    by (rule lease_views_cong, rule n(3)) (simp_all add: that)
  show "lease_mark r s' k = lease_mark r s k \<or> lease_mark r s' k = e" "x = Ok () \<Longrightarrow> lease_mark r s' k = e"
    using n(1,2) lease_views_written(1) lease_views_cong(2) by metis+
qed

text \<open>Reading leaves the file system as it is, whether it succeeds or not.\<close>

lemma reads_inspect: "inspects (read_optional_bounded p)" "inspects (read_lease_state p k)" "inspects (read_epoch p)"
proof -
  have o: "inspects (fs_open_read p)" unfolding fs_open_read_def by (intro sys_call_inspects inspects_pure)
  have r: "inspects (as_err lease_io (fs_read c n))" for c n
    unfolding fs_read_def by (intro inspects_as_err sys_call_inspects inspects_pure)
  let ?rest = "\<lambda>content. ebind (as_err lease_io (fs_read content (MAX_STATE_BYTES + 1))) (\<lambda>bs.
     if MAX_STATE_BYTES < length bs then efail (InvalidConfiguration ''lease state exceeds size limit'')
     else if \<not> valid_utf8 (map unat bs) then efail (InvalidConfiguration ''lease state is not UTF-8'')
     else eret (Some (bytes_text bs)))"
  have rest: "inspects (?rest c)" for c by (intro inspects_ebind r) (simp split: if_splits)
  have "inspects (\<lambda>s. case fs_open_read p s of
         (Inl IK_NotFound, s1) \<Rightarrow> (Ok None, s1) | (Inl IK_Other, s1) \<Rightarrow> (Err lease_io, s1)
       | (Inr (FileNode content), s1) \<Rightarrow> ?rest content s1 | (Inr _, s1) \<Rightarrow> (Err lease_io, s1))"
    using o rest unfolding inspects_def Let_def
    by (auto split: prod.split sum.split io_kind.split node.split) (metis snd_conv)+
  then show 1: "inspects (read_optional_bounded p)"
    unfolding read_optional_bounded_def by (intro inspects_ebind lease_reject_symlink_inspects)
  show "inspects (read_lease_state p k)" "inspects (read_epoch p)"
    unfolding read_lease_state_def read_epoch_def by (intro inspects_ebind 1; simp split: option.split)+
qed

lemma lease_views_nodes: "fs_nodes s' = fs_nodes s \<Longrightarrow> lease_held r s' = lease_held r s \<and> lease_mark r s' = lease_mark r s"
  by (intro conjI ext lease_views_cong) simp_all

text \<open>
  Acquiring: once the checks have passed, the epoch is written and then the lease, both above every epoch that
  the resource has used.
\<close>

lemma grant_effect:
  assumes "write_epoch (lease_epoch_path r k) e s = (u, s1)" "lease_mark r s k < e"
    and "u = Ok () \<Longrightarrow> write_lease_state (lease_state_path r k) l s1 = (u', s2)" "u \<noteq> Ok () \<Longrightarrow> s2 = s1"
    and l: "sl_token l = \<lparr> lt_resource = k, lt_owner = w, lt_epoch = e \<rparr>"
    and v: "validate_label f k = Ok ()" "validate_label ''lease owner'' w = Ok ()"
  shows "lease_effect r k s s2" "u = Ok () \<Longrightarrow> u' = Ok () \<Longrightarrow> lease_held r s2 k = Some (w, e)"
proof -
  note we = write_epoch_effect [OF assms(1)]
  have "lease_effect r k s s2 \<and> (u = Ok () \<and> u' = Ok () \<longrightarrow> lease_held r s2 k = Some (w, e))"
  proof (cases "u = Ok ()")
    case True
    note ws = write_lease_state_effect [OF assms(3) [OF True]]
    have h: "(lease_held r s2 k = lease_held r s1 k \<or> lease_held r s2 k = Some (w, e)) \<and> (u' = Ok () \<longrightarrow> lease_held r s2 k = Some (w, e))"
      using ws(3) [of f] l v by simp
    have "lease_mark r s2 k = e" using ws(1) we(4) True by simp
    then show ?thesis using h ws(1,2) we(1,2) assms(2) True unfolding lease_effect_def by auto
  next
    case False
    then show ?thesis using we assms(2,4) unfolding lease_effect_def by auto
  qed
  then show "lease_effect r k s s2" "u = Ok () \<Longrightarrow> u' = Ok () \<Longrightarrow> lease_held r s2 k = Some (w, e)" by auto
qed

lemma lease_effect_views:
  assumes "lease_effect r k s1 s2" "lease_held r s1 = lease_held r s" "lease_mark r s1 = lease_mark r s" "fs_nodes s' = fs_nodes s2"
  shows "lease_effect r k s s'"
  using assms lease_views_nodes [OF assms(4), of r] by (simp add: lease_effect_def)

lemma ebind_lift: "ebind (elift g) f s = (case g s of Inl e \<Rightarrow> (Inl e, s) | Inr x \<Rightarrow> f x s)"
  by (simp add: ebind_eval)

lemma lease_acquire_effect:
  assumes v: "validate_label ''lease owner'' w = Ok ()" and a: "lease_acquire r k w now s = (x, s')"
  shows "lease_effect r k s s' \<and> (\<forall>l. x = Ok l \<longrightarrow> lease_held r s' k = Some (w, lt_epoch (sl_token l)) \<and>
    lease_mark r s k < lt_epoch (sl_token l) \<and> lt_resource (sl_token l) = k \<and> lt_owner (sl_token l) = w)"
  using a unfolding lease_acquire_def
proof (cases rule: with_lock_cases)
  case refused
  then show ?thesis using lease_effect_refl [OF lease_views_same [OF refused(1)]] by simp
next
  case (runs s1 y s2)
  note v1 = lease_views_same [OF runs(2)]
  let ?sp = "lease_state_path r k" and ?ep = "lease_epoch_path r k"
  obtain rc sc where c: "read_lease_state ?sp k s1 = (rc, sc)" by (cases "read_lease_state ?sp k s1")
  obtain re se where e: "read_epoch ?ep sc = (re, se)" by (cases "read_epoch ?ep sc")
  have ns: "fs_nodes sc = fs_nodes s1" "fs_nodes se = fs_nodes s1"
    using inspectsD [OF reads_inspect(2) c] inspectsD [OF reads_inspect(3) e] by simp_all
  have ve: "lease_held r se = lease_held r s" "lease_mark r se = lease_mark r s" using lease_views_nodes [OF ns(2)] v1 by auto
  have step_c: "ebind (read_lease_state ?sp k) f s1 = (case rc of Inl err \<Rightarrow> (Inl err, sc) | Inr x \<Rightarrow> f x sc)"
    and step_e: "ebind (read_epoch ?ep) g sc = (case re of Inl err \<Rightarrow> (Inl err, se) | Inr x \<Rightarrow> g x se)"
    for f :: "shared_lease option \<Rightarrow> (fs, provider_error, shared_lease) eff" and g :: "u64 option \<Rightarrow> (fs, provider_error, shared_lease) eff"
    by (simp_all add: ebind_eval c e)
  let ?new = "\<lambda>n z. \<lparr> sl_token = \<lparr> lt_resource = k, lt_owner = w, lt_epoch = n \<rparr>, sl_acquired_at_ms = now,
     sl_heartbeat_at_ms = now, sl_expires_at_ms = z \<rparr>"
  consider (early) "fs_nodes s2 = fs_nodes s1" "\<forall>l. y \<noteq> Ok l"
    | (granting) n z current stored where "re = Ok stored"
        "checked_add (max (case stored of Some e \<Rightarrow> e | None \<Rightarrow> 0) (case (current :: shared_lease option) of Some c \<Rightarrow> lt_epoch (sl_token c) | None \<Rightarrow> 0)) 1 = Some n"
        "ebind (write_epoch ?ep n) (\<lambda>_. ebind (write_lease_state ?sp (?new n z)) (\<lambda>_. eret (?new n z))) se = (y, s2)"
  proof (cases rc)
    case (Inl err)
    then show thesis using early runs(3) ns by (auto simp: step_c)
  next
    case rc: (Inr current)
    show thesis
    proof (cases re)
      case (Inl err)
      then show thesis using early runs(3) ns rc by (auto simp: step_c step_e split: if_splits)
    next
      case re: (Inr stored)
      let ?n = "checked_add (max (case stored of Some e \<Rightarrow> e | None \<Rightarrow> 0) (case current of Some c \<Rightarrow> lt_epoch (sl_token c) | None \<Rightarrow> 0)) 1"
      show thesis
        using runs(3) ns rc re early granting [OF re, of current]
        by (cases ?n; cases "checked_add now (lp_ttl_ms (lr_policy r))")
          (auto simp: step_c step_e ebind_lift Let_def ok_or_def lease_expiration_def split: if_splits)
    qed
  qed
  then show ?thesis
  proof cases
    case early
    have "lease_effect r k s1 s2" by (rule lease_effect_refl) (use lease_views_nodes [OF early(1)] in auto)
    from lease_effect_views [OF this v1 runs(4)] show ?thesis using early(2) runs(5) by blast
  next
    case (granting n z current stored)
    have "stored = epoch_at sc ?ep" by (rule read_epoch_Ok [OF e [unfolded granting(1)]])
    then have "lease_mark r s k = (case stored of Some e \<Rightarrow> e | None \<Rightarrow> 0)"
      using lease_views_nodes [OF ns(1), of r] v1 by (simp add: lease_mark_def fun_eq_iff)
    then have "unat (lease_mark r s k) < unat n"
      using checked_add_SomeD [OF granting(2)] by (auto simp: max_def word_le_nat_alt split: if_splits)
    then have mark: "lease_mark r se k < n" using ve by (simp add: word_less_nat_alt)
    obtain u t1 where u: "write_epoch ?ep n se = (u, t1)" by (cases "write_epoch ?ep n se")
    obtain u' t2 where u': "write_lease_state ?sp (?new n z) t1 = (u', t2)" by (cases "write_lease_state ?sp (?new n z) t1")
    have "s2 = (if u = Ok () then t2 else t1)" "\<forall>l. y = Ok l \<longrightarrow> u = Ok () \<and> u' = Ok () \<and> l = ?new n z"
      using granting(3) u u' by (cases u; cases u'; auto simp: ebind_eval)+
    moreover note grant_effect [OF u mark _ _ _ runs(1) v, of "?new n z" u' s2]
    ultimately have g: "lease_effect r k se s2" "\<forall>l. y = Ok l \<longrightarrow> lease_held r s2 k = Some (w, n) \<and> l = ?new n z"
      using u' by auto
    have "lease_held r s' k = lease_held r s2 k" using lease_views_nodes [OF runs(4), of r] by simp
    then show ?thesis using lease_effect_views [OF g(1) ve runs(4)] g(2) runs(5) mark ve by auto
  qed
qed

text \<open>An operation that only reads under the lock.\<close>

lemma lease_read_effect:
  assumes "with_lock r k operation s = (x, s')" "inspects (operation (lease_state_path r k))"
  shows "lease_effect r k s s'" "x = Ok y \<Longrightarrow> \<exists>s1 s2. operation (lease_state_path r k) s1 = (Ok y, s2) \<and>
    lease_at s1 (lease_state_path r k) k = lease_at s (lease_state_path r k) k"
proof -
  have "lease_effect r k s s' \<and> (\<forall>y. x = Ok y \<longrightarrow> (\<exists>s1 s2. operation (lease_state_path r k) s1 = (Ok y, s2) \<and>
    lease_at s1 (lease_state_path r k) k = lease_at s (lease_state_path r k) k))"
    using assms(1)
  proof (cases rule: with_lock_cases)
    case refused
    then show ?thesis using lease_effect_refl [OF lease_views_same [OF refused(1)]] by simp
  next
    case (runs s1 y s2)
    have "fs_nodes s' = fs_nodes s1" using inspectsD [OF assms(2) runs(3)] runs(4) by simp
    with runs(2) have "lease_effect r k s s'" by (intro lease_effect_refl lease_views_same) auto
    moreover have "lease_at s1 (lease_state_path r k) k = lease_at s (lease_state_path r k) k"
      using runs(2) by (simp add: lease_at_def)
    ultimately show ?thesis using runs(3,5) by blast
  qed
  then show "lease_effect r k s s'" "x = Ok y \<Longrightarrow> \<exists>s1 s2. operation (lease_state_path r k) s1 = (Ok y, s2) \<and>
    lease_at s1 (lease_state_path r k) k = lease_at s (lease_state_path r k) k" by blast+
qed

lemma lease_current_effect: "lease_current r k s = (x, s') \<Longrightarrow> lease_effect r k s s'"
  unfolding lease_current_def by (erule lease_read_effect) (rule reads_inspect)

lemma check_fence_effect:
  assumes "check_fence r token now s = (x, s')"
  shows "lease_effect r (lt_resource token) s s'"
    "x = Ok LD_Allowed \<Longrightarrow> lease_held r s (lt_resource token) = Some (lt_owner token, lt_epoch token)"
proof -
  let ?k = "lt_resource token"
  let ?decide = "\<lambda>found. case found of None \<Rightarrow> LD_NoLease | Some current \<Rightarrow>
     if is_expired current now (lr_policy r) then LD_Expired
     else if lt_owner (sl_token current) \<noteq> lt_owner token then LD_WrongOwner
     else if lt_epoch (sl_token current) \<noteq> lt_epoch token then LD_StaleEpoch else LD_Allowed"
  let ?m = "ebind (read_lease_state (lease_state_path r ?k) ?k) (\<lambda>found. eret (?decide found))"
  have "inspects ?m" by (intro inspects_ebind reads_inspect) simp
  note e = lease_read_effect [OF assms [unfolded check_fence_def] this]
  show "lease_effect r ?k s s'" by (rule e(1))
  assume "x = Ok LD_Allowed"
  from e(2) [OF this] obtain s1 s2 where m: "?m s1 = (Ok LD_Allowed, s2)"
    and at: "lease_at s1 (lease_state_path r ?k) ?k = lease_at s (lease_state_path r ?k) ?k" by blast
  from m obtain found where f: "read_lease_state (lease_state_path r ?k) ?k s1 = (Ok found, s2)" "?decide found = LD_Allowed"
    by (auto simp: ebind_Ok_iff)
  have "found = lease_at s (lease_state_path r ?k) ?k" using read_lease_state_Ok(2) [OF f(1)] at by simp
  with f(2) show "lease_held r s ?k = Some (lt_owner token, lt_epoch token)"
    by (auto simp: lease_held_def split: option.splits if_splits)
qed

lemma lease_release_effect:
  assumes "lease_release r token s = (x, s')"
  shows "lease_effect r (lt_resource token) s s'"
  using assms unfolding lease_release_def
proof (cases rule: with_lock_cases)
  case refused
  then show ?thesis using lease_effect_refl [OF lease_views_same [OF refused(1)]] by simp
next
  case (runs s1 y s2)
  let ?k = "lt_resource token"
  let ?sp = "lease_state_path r ?k"
  obtain rc sc where c: "read_lease_state ?sp ?k s1 = (rc, sc)" by (cases "read_lease_state ?sp ?k s1")
  have nc: "fs_nodes sc = fs_nodes s1" by (rule inspectsD [OF reads_inspect(2) c])
  obtain rd sd where d: "remove_lease_state ?sp sc = (rd, sd)" by (cases "remove_lease_state ?sp sc")
  note n = remove_lease_state_nodes [OF d]
  have "s2 = sc \<or> s2 = sd"
    using runs(3) c d by (auto simp: ebind_eval ok_or_def ensure_same_token_def split: sum.splits option.splits if_splits)
  moreover have "lease_effect r ?k s1 sd"
  proof -
    have "lease_held r sd k' = lease_held r s1 k'" if "k' \<noteq> ?k" for k'
      by (rule lease_views_cong) (use n(2) nc that in simp)
    moreover have "lease_mark r sd = lease_mark r s1"
      by (rule ext, rule lease_views_cong) (use n(2) nc in simp)
    moreover have "lease_held r sd ?k = lease_held r s1 ?k \<or> lease_held r sd ?k = None"
      using n(1) nc by (auto simp: lease_held_def lease_at_def)
    ultimately show ?thesis by (auto simp: lease_effect_def)
  qed
  moreover have "lease_effect r ?k s1 sc" by (rule lease_effect_refl) (use lease_views_nodes [OF nc] in auto)
  ultimately have "lease_effect r ?k s1 s2" by auto
  from lease_effect_views [OF this lease_views_same [OF runs(2)] runs(4)] show ?thesis .
qed

lemma lease_heartbeat_effect:
  assumes "lease_heartbeat r token now s = (x, s')"
  shows "lease_effect r (lt_resource token) s s'"
  using assms unfolding lease_heartbeat_def
proof (cases rule: with_lock_cases)
  case refused
  then show ?thesis using lease_effect_refl [OF lease_views_same [OF refused(1)]] by simp
next
  case (runs s1 y s2)
  let ?k = "lt_resource token"
  let ?sp = "lease_state_path r ?k"
  obtain rc sc where c: "read_lease_state ?sp ?k s1 = (rc, sc)" by (cases "read_lease_state ?sp ?k s1")
  have nc: "fs_nodes sc = fs_nodes s1" by (rule inspectsD [OF reads_inspect(2) c])
  have same: "lease_effect r ?k s1 sc" by (rule lease_effect_refl) (use lease_views_nodes [OF nc] in auto)
  consider (early) "s2 = sc"
    | (wrote) l z u where "rc = Ok (Some l)"
        "write_lease_state ?sp (l\<lparr> sl_heartbeat_at_ms := now, sl_expires_at_ms := z \<rparr>) sc = (u, s2)"
    using runs(3) c
    by (cases rc) (auto simp: ebind_eval ok_or_def Let_def split: sum.splits option.splits if_splits prod.splits)
  then have "lease_effect r ?k s1 s2"
  proof cases
    case (wrote l z u)
    have "lease_at s1 ?sp ?k = Some l" using read_lease_state_Ok(2) [OF c [unfolded wrote(1)]] by simp
    then have l: "lease_held r s1 ?k = Some (lt_owner (sl_token l), lt_epoch (sl_token l))" "lt_resource (sl_token l) = ?k"
      "validate_label ''lease owner'' (lt_owner (sl_token l)) = Ok ()"
      using parse_state_Ok by (auto simp: lease_held_def lease_at_def split: option.splits node.splits sum.splits)
    note w = write_lease_state_effect [OF wrote(2)]
    have "lease_held r s2 ?k = lease_held r s1 ?k"
      using w(3) [of "''lease resource''"] l runs(1) lease_views_nodes [OF nc, of r] by auto
    then show ?thesis using w(1,2) lease_views_nodes [OF nc, of r] by (simp add: lease_effect_def)
  qed (use same in simp)
  from lease_effect_views [OF this lease_views_same [OF runs(2)] runs(4)] show ?thesis .
qed

section \<open>Runs\<close>

text \<open>
  The operations that the processes sharing the directory take turns in. An owner is a validated
  \<open>LeaseOwner\<close>: without one there is nothing to call \<open>acquire\<close> with.
\<close>

datatype lease_op =
  Op_Acquire string string u64 | Op_Heartbeat lease_token u64 | Op_Release lease_token | Op_Current string
  | Op_Check lease_token u64

fun lease_step :: "lease_repo \<Rightarrow> lease_op \<Rightarrow> fs \<Rightarrow> fs" where
  "lease_step r (Op_Acquire resource owner now) s =
     (case lease_owner_new owner of Inl _ \<Rightarrow> s | Inr w \<Rightarrow> snd (lease_acquire r resource w now s))"
| "lease_step r (Op_Heartbeat token now) s = snd (lease_heartbeat r token now s)"
| "lease_step r (Op_Release token) s = snd (lease_release r token s)"
| "lease_step r (Op_Current resource) s = snd (lease_current r resource s)"
| "lease_step r (Op_Check token now) s = snd (check_fence r token now s)"

lemma lease_step_effect: "\<exists>k. lease_effect r k s (lease_step r op s)"
proof (cases op)
  case (Op_Acquire k w now)
  show ?thesis
  proof (cases "validate_label ''lease owner'' w")
    case (Inr u)
    then have "lease_effect r k s (snd (lease_acquire r k w now s))"
      using lease_acquire_effect [where w = w and r = r and k = k and now = now and s = s, OF _ surjective_pairing] by simp
    with Inr show ?thesis using Op_Acquire by (intro exI [of _ k]) (simp add: lease_owner_new_def)
  qed (use Op_Acquire lease_effect_refl in \<open>auto simp: lease_owner_new_def\<close>)
qed (use lease_heartbeat_effect lease_release_effect lease_current_effect check_fence_effect(1) surjective_pairing
    in \<open>simp, meson\<close>)+

lemma lease_effect_held_mark:
  assumes "lease_effect r k s s'" "lease_inv r s"
  shows "lease_inv r s'" "lease_mark r s j \<le> lease_mark r s' j"
    "lease_held r s' j = Some (h, e) \<Longrightarrow> lease_held r s j = Some (h, e) \<or> lease_mark r s j < e"
proof -
  show 1: "lease_mark r s j \<le> lease_mark r s' j" for j using assms(1) by (cases "j = k") (auto simp: lease_effect_def)
  show "lease_held r s' j = Some (h, e) \<Longrightarrow> lease_held r s j = Some (h, e) \<or> lease_mark r s j < e"
    using assms(1) by (cases "j = k") (auto simp: lease_effect_def)
  show "lease_inv r s'" unfolding lease_inv_def
  proof (intro allI impI)
    fix j h e
    assume h: "lease_held r s' j = Some (h, e)"
    show "e \<le> lease_mark r s' j"
    proof (cases "lease_held r s j = Some (h, e)")
      case True
      then show ?thesis using assms(2) 1 [of j] by (auto simp: lease_inv_def intro: order_trans)
    next
      case False
      then show ?thesis using assms(1) h by (cases "j = k") (auto simp: lease_effect_def)
    qed
  qed
qed

interpretation file_leases: fenced_leases "lease_step r" "lease_inv r" "lease_held r" "lease_mark r"
proof
  fix s op k h e
  assume s: "lease_inv r s"
  obtain j where j: "lease_effect r j s (lease_step r op s)" using lease_step_effect by blast
  note e = lease_effect_held_mark [OF j s]
  show "lease_inv r (lease_step r op s)" "lease_mark r s k \<le> lease_mark r (lease_step r op s) k" by (rule e)+
  show "lease_held r (lease_step r op s) k = Some (h, e) \<Longrightarrow> lease_held r s k = Some (h, e) \<or> lease_mark r s k < e" by (rule e)
  show "lease_held r s k = Some (h, e) \<Longrightarrow> e \<le> lease_mark r s k" using s by (simp add: lease_inv_def)
qed

text \<open>
  C18. Leases are fenced, whatever file system calls fail in between: of two leases that \<open>acquire\<close> returned for one resource, to
  the same or to different owners and processes, the later one has the higher epoch, and after it was returned no
  operation that any of the processes performs makes the earlier token pass the fence check again.
\<close>

theorem shared_lease_fencing:
  assumes "lease_inv r s" "lease_owner_new w = Ok w" "lease_owner_new w' = Ok w'"
    and "lease_acquire r k w now s = (Ok l, s1)"
    and "lease_acquire r k w' now' (fold (lease_step r) ops s1) = (Ok l', s2)"
  shows "lt_epoch (sl_token l) < lt_epoch (sl_token l') \<and>
    fst (check_fence r (sl_token l) now'' (fold (lease_step r) ops' s2)) \<noteq> Ok LD_Allowed"
proof -
  have v: "validate_label ''lease owner'' w = Ok ()" "validate_label ''lease owner'' w' = Ok ()"
    using assms(2,3) by (auto simp: lease_owner_new_def rbind_Inr_iff)
  note a = lease_acquire_effect [OF v(1) assms(4)]
  let ?m = "fold (lease_step r) ops s1"
  have i1: "lease_inv r s1" using lease_effect_held_mark(1) [OF _ assms(1)] a by blast
  have im: "lease_inv r ?m" using file_leases.run_inv [OF i1, of ops] by (simp add: file_leases.run_def)
  note a' = lease_acquire_effect [OF v(2) assms(5)]
  have i2: "lease_inv r s2" using lease_effect_held_mark(1) [OF _ im] a' by blast
  have "lt_epoch (sl_token l) \<le> lease_mark r s1 k" using file_leases.held_mark [OF i1] a by blast
  also have "\<dots> \<le> lease_mark r ?m k" using file_leases.run_mark [OF i1, of k ops] by (simp add: file_leases.run_def)
  also have "\<dots> < lt_epoch (sl_token l')" using a' by blast
  finally have less: "lt_epoch (sl_token l) < lt_epoch (sl_token l')" .
  have "fst (check_fence r (sl_token l) now'' (fold (lease_step r) ops' s2)) \<noteq> Ok LD_Allowed"
  proof
    assume "fst (check_fence r (sl_token l) now'' (fold (lease_step r) ops' s2)) = Ok LD_Allowed"
    then have "lease_held r (fold (lease_step r) ops' s2) k = Some (lt_owner (sl_token l), lt_epoch (sl_token l))"
      using check_fence_effect(2) [OF surjective_pairing] a by fastforce
    then show False using file_leases.epochs_ordered [OF i2, of k w' "lt_epoch (sl_token l')" ops'] a' less
      by (auto simp: file_leases.run_def)
  qed
  with less show ?thesis by simp
qed

section \<open>A healthy directory\<close>

text \<open>Without faults every primitive succeeds, and a lease that is free, expired or the caller's own can be acquired.\<close>

declare sys_call_healthy [simp]

lemma reject_healthy: "fs_faults s = [] \<Longrightarrow> fs_nodes s p \<noteq> Some LinkNode \<Longrightarrow> lease_reject_symlink p s = (Ok (), s)"
  by (auto simp: lease_reject_symlink_def fs_symlink_metadata_def ok_or_def split: option.splits node.splits)

definition readable :: "string \<Rightarrow> bool" where
  "readable t \<longleftrightarrow> valid_utf8 (map unat (text_bytes t)) \<and> length t \<le> MAX_STATE_BYTES"

lemma read_healthy:
  assumes "fs_faults s = []" "fs_nodes s p = map_option (\<lambda>t. FileNode (text_bytes t)) f"
    and "\<forall>t. f = Some t \<longrightarrow> readable t"
  shows "read_optional_bounded p s = (Ok f, s)"
  using assms reject_healthy [of s p]
  by (cases f) (auto simp: readable_def read_optional_bounded_def ebind_eval fs_open_read_def fs_read_def as_err_def)

lemma replace_healthy:
  assumes "fs_faults s = []" "fs_nodes s p \<noteq> Some LinkNode" "fs_nodes s p \<noteq> Some DirNode" "is_dir s (butlast p)" "\<not> temp_path p"
    and "\<forall>q. temp_path q \<longrightarrow> fs_nodes s q = None"
  shows "lease_atomic_replace p bs s = (Ok (), s\<lparr> fs_nodes := (fs_nodes s)(p \<mapsto> FileNode bs), fs_temp_counter := fs_temp_counter s + 1 \<rparr>)"
proof -
  define t where "t = butlast p @ [''.lease.'' @ nat_dec (fs_pid s) @ ''-'' @ u64_string (fs_temp_counter s) @ ''.tmp'']"
  have t: "temp_path t" by (simp add: t_def temp_path_def suffix_def)
  then have tp: "t \<noteq> p" "fs_nodes s t = None" using assms(5,6) by auto
  have bt: "butlast t = butlast p" by (simp add: t_def)
  have 1: "lease_temporary (butlast p) s = (Ok t :: provider_error + path, s\<lparr> fs_temp_counter := fs_temp_counter s + 1 \<rparr>)"
    by (simp add: lease_temporary_def t_def)
  have upd: "(fs_nodes s)(t \<mapsto> FileNode [], t \<mapsto> FileNode bs, p \<mapsto> FileNode bs, t := None) = (fs_nodes s)(p \<mapsto> FileNode bs)"
    using tp by (auto simp: fun_eq_iff)
  show ?thesis
    using assms(1-4) tp upd
    by (simp add: lease_atomic_replace_def ebind_eval 1 lease_write_and_rename_def reject_healthy write_and_rename_def as_err_def
        fs_create_new_def bt is_dir_def fs_write_all_def next_fault_def fs_sync_def fs_rename_def sync_parent_def fun_upd_twist)
qed

definition lease_dir_ok :: "lease_repo \<Rightarrow> fs \<Rightarrow> bool" where
  "lease_dir_ok r s \<longleftrightarrow> fs_faults s = [] \<and> is_dir s (lr_root r) \<and> fs_nodes s (lr_root r) \<noteq> Some LinkNode \<and>
     (\<forall>q. temp_path q \<longrightarrow> fs_nodes s q = None) \<and>
     (\<forall>k. fs_nodes s (lease_lock_path r k) \<in> insert None (range (\<lambda>b. Some (FileNode b))))"

lemma lease_dir_ok_upd:
  assumes "lease_dir_ok r s" "\<not> temp_path p" "p \<noteq> lr_root r"
  shows "lease_dir_ok r (s\<lparr> fs_nodes := (fs_nodes s)(p \<mapsto> FileNode b), fs_temp_counter := n \<rparr>)"
    "lease_dir_ok r (s\<lparr> fs_nodes := (fs_nodes s)(p \<mapsto> FileNode b) \<rparr>)"
  using assms by (auto simp: lease_dir_ok_def is_dir_def)

lemma lease_path_root: "lease_state_path r k \<noteq> lr_root r" "lease_epoch_path r k \<noteq> lr_root r" "lease_lock_path r k \<noteq> lr_root r"
  "butlast (lease_state_path r k) = lr_root r" "butlast (lease_epoch_path r k) = lr_root r" "butlast (lease_lock_path r k) = lr_root r"
  "\<not> temp_path (lease_lock_path r k)"
  by (auto simp: lease_state_path_def lease_epoch_path_def lease_lock_path_def temp_path_def suffix_def dest: arg_cong [of _ _ last])

lemma with_lock_healthy:
  assumes "lease_dir_ok r s" "validate_label ''lease resource'' k = Ok ()"
  shows "\<exists>s1. lease_dir_ok r s1 \<and> (\<forall>q. q \<noteq> lease_lock_path r k \<longrightarrow> fs_nodes s1 q = fs_nodes s q) \<and>
    (\<forall>operation x s2. operation (lease_state_path r k) s1 = (x, s2) \<and> fs_faults s2 = [] \<longrightarrow> with_lock r k operation s = (x, s2))"
proof -
  let ?l = "lease_lock_path r k"
  let ?s1 = "if fs_nodes s ?l = None then s\<lparr> fs_nodes := (fs_nodes s)(?l \<mapsto> FileNode []) \<rparr> else s"
  have f: "fs_faults s = []" "fs_faults ?s1 = []" using assms(1) by (auto simp: lease_dir_ok_def)
  have node: "fs_nodes s ?l = None \<or> (\<exists>b. fs_nodes s ?l = Some (FileNode b))" using assms(1) by (auto simp: lease_dir_ok_def)
  have o: "fs_open_create ?l s = (Ok (), ?s1)"
    using f node assms(1) lease_path_root(6) [of r k] by (auto simp: fs_open_create_def lease_dir_ok_def)
  have j: "lease_reject_symlink (lr_root r) s = (Ok (), s)" "lease_reject_symlink ?l s = (Ok (), s)"
    using f node assms(1) by (auto intro!: reject_healthy simp: lease_dir_ok_def)
  have "lease_dir_ok r ?s1" using assms(1) lease_dir_ok_upd(2) [OF assms(1), of ?l "[]"] lease_path_root(3,7) [of r k] by simp
  moreover have "with_lock r k operation s = (x, s2)" if "operation (lease_state_path r k) ?s1 = (x, s2) \<and> fs_faults s2 = []" for operation :: "path \<Rightarrow> (fs, provider_error, 'a) eff" and x s2
    using that f o j assms(2) by (simp add: with_lock_def ebind_eval as_err_def)
  ultimately show ?thesis by (intro exI [of _ ?s1]) auto
qed

text \<open>A lease that is free, expired or the caller's own is granted.\<close>

lemma acquire_healthy:
  assumes d: "lease_dir_ok r s" and v: "validate_label ''lease resource'' k = Ok ()" "validate_label ''lease owner'' w = Ok ()"
    and sp: "fs_nodes s (lease_state_path r k) = map_option (\<lambda>l. FileNode (text_bytes (lease_text l))) c"
    and ep: "fs_nodes s (lease_epoch_path r k) = map_option (\<lambda>e. FileNode (text_bytes (epoch_text e))) stored"
    and c: "\<forall>l. c = Some l \<longrightarrow> readable (lease_text l) \<and> lt_resource (sl_token l) = k \<and>
        validate_label ''lease owner'' (lt_owner (sl_token l)) = Ok () \<and> (is_expired l now (lr_policy r) \<or> lt_owner (sl_token l) = w)"
    and e: "\<forall>e. stored = Some e \<longrightarrow> readable (epoch_text e)"
    and n: "checked_add (max (case stored of Some e \<Rightarrow> e | None \<Rightarrow> 0) (case c of Some l \<Rightarrow> lt_epoch (sl_token l) | None \<Rightarrow> 0)) 1 = Some n"
    and z: "checked_add now (lp_ttl_ms (lr_policy r)) = Some z"
    and new: "new = \<lparr> sl_token = \<lparr> lt_resource = k, lt_owner = w, lt_epoch = n \<rparr>, sl_acquired_at_ms = now,
       sl_heartbeat_at_ms = now, sl_expires_at_ms = z \<rparr>"
  obtains s' where "lease_acquire r k w now s = (Ok new, s')" "lease_dir_ok r s'"
    "fs_nodes s' (lease_state_path r k) = Some (FileNode (text_bytes (lease_text new)))"
    "fs_nodes s' (lease_epoch_path r k) = Some (FileNode (text_bytes (epoch_text n)))"
proof -
  let ?sp = "lease_state_path r k" and ?ep = "lease_epoch_path r k"
  obtain s1 where s1: "lease_dir_ok r s1" "\<forall>q. q \<noteq> lease_lock_path r k \<longrightarrow> fs_nodes s1 q = fs_nodes s q"
    and lock: "\<And>operation :: path \<Rightarrow> (fs, provider_error, shared_lease) eff. \<And>x s2. operation ?sp s1 = (x, s2) \<Longrightarrow> fs_faults s2 = [] \<Longrightarrow> with_lock r k operation s = (x, s2)"
    using with_lock_healthy [OF d v(1)] by blast
  have f: "fs_faults s1 = []" "is_dir s1 (lr_root r)" "\<forall>q. temp_path q \<longrightarrow> fs_nodes s1 q = None" using s1(1) by (auto simp: lease_dir_ok_def)
  have nodes: "fs_nodes s1 ?sp = map_option (\<lambda>t. FileNode (text_bytes t)) (map_option lease_text c)"
      "fs_nodes s1 ?ep = map_option (\<lambda>t. FileNode (text_bytes t)) (map_option epoch_text stored)"
    using s1(2) sp ep by (auto simp: option.map_comp o_def)
  have rs: "read_lease_state ?sp k s1 = (Ok c, s1)"
    using read_healthy [OF f(1) nodes(1)] c parse_lease_text [of "''lease resource''"] v(1)
    by (cases c) (auto simp: read_lease_state_def ebind_eval)
  have re: "read_epoch ?ep s1 = (Ok stored, s1)"
    using read_healthy [OF f(1) nodes(2)] e by (cases stored) (auto simp: read_epoch_def ebind_eval)
  let ?t = "s1\<lparr> fs_nodes := (fs_nodes s1)(?ep \<mapsto> FileNode (text_bytes (epoch_text n))), fs_temp_counter := fs_temp_counter s1 + 1 \<rparr>"
  have we: "write_epoch ?ep n s1 = (Ok (), ?t)"
    unfolding write_epoch_def by (rule replace_healthy) (use f nodes in \<open>auto simp: lease_path_root\<close>)
  have t: "lease_dir_ok r ?t" by (rule lease_dir_ok_upd [OF s1(1)]) (simp_all add: lease_path_root)
  let ?u = "?t\<lparr> fs_nodes := (fs_nodes ?t)(?sp \<mapsto> FileNode (text_bytes (lease_text new))), fs_temp_counter := fs_temp_counter ?t + 1 \<rparr>"
  have ws: "write_lease_state ?sp new ?t = (Ok (), ?u)"
    unfolding write_lease_state_def by (rule replace_healthy) (use f t nodes in \<open>auto simp: lease_path_root lease_dir_ok_def\<close>)
  have u: "lease_dir_ok r ?u" by (rule lease_dir_ok_upd [OF t]) (simp_all add: lease_path_root)
  have b: "\<not> (case c of Some l \<Rightarrow> \<not> is_expired l now (lr_policy r) \<and> lt_owner (sl_token l) \<noteq> w | None \<Rightarrow> False)"
    using c by (auto split: option.splits)
  have "lease_acquire r k w now s = (Ok new, ?u)"
    unfolding lease_acquire_def
    by (rule lock) (use rs re b n z we ws new f in \<open>simp_all add: ebind_eval Let_def ok_or_def lease_expiration_def\<close>)
  then show thesis using that u by simp
qed

text \<open>Owner \<open>a\<close> acquires at 5000 and, once that lease has expired, owner \<open>b\<close> at 7000, in an empty directory.\<close>

definition example_repo :: lease_repo where
  "example_repo = \<lparr> lr_root = [], lr_policy = \<lparr> lp_ttl_ms = 1000, lp_heartbeat_ms = 100, lp_clock_skew_ms = 10 \<rparr> \<rparr>"

definition example_fs :: fs where
  "example_fs = \<lparr> fs_nodes = Map.empty, fs_faults = [], fs_temp_counter = 0, fs_pid = 1 \<rparr>"

definition example_lease :: "string \<Rightarrow> u64 \<Rightarrow> u64 \<Rightarrow> shared_lease" where
  "example_lease w e now = \<lparr> sl_token = \<lparr> lt_resource = ''r'', lt_owner = w, lt_epoch = e \<rparr>, sl_acquired_at_ms = now,
     sl_heartbeat_at_ms = now, sl_expires_at_ms = now + 1000 \<rparr>"

lemma shared_lease_fencing_witness:
  "\<exists>l l' s1 s2. lease_acquire example_repo ''r'' ''a'' 5000 example_fs = (Ok l, s1) \<and>
     lease_acquire example_repo ''r'' ''b'' 7000 s1 = (Ok l', s2) \<and> lt_epoch (sl_token l) < lt_epoch (sl_token l') \<and>
     fst (check_fence example_repo (sl_token l) 7000 s2) \<noteq> Ok LD_Allowed"
proof -
  let ?r = example_repo
  have v: "validate_label ''lease resource'' ''r'' = Ok ()" "validate_label ''lease owner'' ''a'' = Ok ()" "validate_label ''lease owner'' ''b'' = Ok ()"
    "lease_owner_new ''a'' = Ok ''a''" "lease_owner_new ''b'' = Ok ''b''"
    by code_simp+
  have "lease_dir_ok ?r example_fs" by (simp add: lease_dir_ok_def example_fs_def example_repo_def is_dir_def)
  then obtain s1 where a: "lease_acquire ?r ''r'' ''a'' 5000 example_fs = (Ok (example_lease ''a'' 1 5000), s1)" and d: "lease_dir_ok ?r s1"
    and n: "fs_nodes s1 (lease_state_path ?r ''r'') = Some (FileNode (text_bytes (lease_text (example_lease ''a'' 1 5000))))"
      "fs_nodes s1 (lease_epoch_path ?r ''r'') = Some (FileNode (text_bytes (epoch_text 1)))"
    by (rule acquire_healthy [where k = "''r''" and w = "''a''" and c = None and stored = None and now = 5000 and n = 1 and z = 6000])
      (simp_all add: v example_fs_def example_lease_def checked_add_def example_repo_def)
  have r: "readable (lease_text (example_lease ''a'' 1 5000))" "readable (epoch_text 1)" by code_simp+
  obtain s2 where b: "lease_acquire ?r ''r'' ''b'' 7000 s1 = (Ok (example_lease ''b'' 2 7000), s2)"
    by (rule acquire_healthy [OF d v(1,3), where c = "Some (example_lease ''a'' 1 5000)" and stored = "Some 1" and now = 7000 and n = 2 and z = 8000])
      (use n r v in \<open>simp_all add: example_lease_def checked_add_def example_repo_def is_expired_def sat_sub_def\<close>)
  have "lease_inv ?r example_fs" by (simp add: lease_inv_def lease_held_def lease_at_def example_fs_def)
  from shared_lease_fencing [OF this v(4,5) a, where ops = "[]" and ops' = "[]" and now'' = 7000] a b
  show ?thesis by fastforce
qed

end
