(* ===== verification/Contracts.thy ===== *)
theory Contracts
  imports Identifiers "HOL-Library.List_Lexorder" "HOL-Library.Char_ord"
begin

text \<open>
  The contracts of \<open>appcore-contracts\<close>: application requirements and scheduling profiles (\<open>policy/\<close>), the manifest an
  application publishes (\<open>application.rs\<close>) and the one a runtime produces (\<open>runtime.rs\<close>). Identifier types are strings; that
  they were checked is what their constructors in \<open>Identifiers\<close> say. A manifest can only be reached through
  constructors, builders and checked deserialization; the last section shows that this makes every manifest valid.
\<close>

section \<open>Policies\<close>

datatype runtime_mode = RM_Standalone | RM_Cluster
datatype contract_capability_mode = CC_Query | CC_Command | CC_Stream
datatype contract_visibility = CC_Local | CC_Cluster | CC_Tenant
datatype capability_class = CC_Infrastructure | CC_Functional

record capability_declaration =
  cdl_id :: string
  cdl_class :: capability_class
  cdl_version :: string
  cdl_mode :: contract_capability_mode
  cdl_visibility :: contract_visibility
  cdl_requires_leader :: bool
  cdl_idempotency_required :: bool

definition capability_validate :: "capability_declaration \<Rightarrow> unit contract_result" where
  "capability_validate c = validate_text ''capability.version'' (cdl_version c) 64"

definition capability_declaration_new ::
    "string \<Rightarrow> string \<Rightarrow> contract_capability_mode \<Rightarrow> contract_visibility \<Rightarrow> capability_declaration contract_result" where
  "capability_declaration_new capability version mode visibility =
     (let d = \<lparr> cdl_id = capability, cdl_class = CC_Functional, cdl_version = version, cdl_mode = mode, cdl_visibility = visibility,
        cdl_requires_leader = False, cdl_idempotency_required = False \<rparr>
      in rbind (capability_validate d) (\<lambda>_. Ok d))"

definition with_class :: "capability_class \<Rightarrow> capability_declaration \<Rightarrow> capability_declaration" where
  "with_class class d = d\<lparr> cdl_class := class \<rparr>"

definition with_idempotency :: "bool \<Rightarrow> capability_declaration \<Rightarrow> capability_declaration" where
  "with_idempotency required d = d\<lparr> cdl_idempotency_required := required \<rparr>"

definition capability_with_leadership :: "bool \<Rightarrow> capability_declaration \<Rightarrow> capability_declaration" where
  "capability_with_leadership required d = d\<lparr> cdl_requires_leader := required \<rparr>"

record runtime_requirements =
  rq_minimum_runtime_version :: string
  rq_maximum_runtime_version :: "string option"
  rq_protocol_version :: string
  rq_required_features :: "string list"

definition runtime_requirements_validate :: "runtime_requirements \<Rightarrow> unit contract_result" where
  "runtime_requirements_validate r =
     rbind (validate_text ''runtime.minimum_version'' (rq_minimum_runtime_version r) 64) (\<lambda>_.
     rbind (validate_text ''runtime.protocol_version'' (rq_protocol_version r) 64) (\<lambda>_.
     case rq_maximum_runtime_version r of
       Some version \<Rightarrow> validate_text ''runtime.maximum_version'' version 64
     | None \<Rightarrow> Ok ()))"

definition runtime_requirements_new :: "string \<Rightarrow> string \<Rightarrow> runtime_requirements contract_result" where
  "runtime_requirements_new minimum protocol =
     (let r = \<lparr> rq_minimum_runtime_version = minimum, rq_maximum_runtime_version = None, rq_protocol_version = protocol,
        rq_required_features = [] \<rparr>
      in rbind (runtime_requirements_validate r) (\<lambda>_. Ok r))"

definition with_maximum_runtime_version :: "string \<Rightarrow> runtime_requirements \<Rightarrow> runtime_requirements contract_result" where
  "with_maximum_runtime_version version r =
     rbind (validate_text ''runtime.maximum_version'' version 64) (\<lambda>_. Ok (r\<lparr> rq_maximum_runtime_version := Some version \<rparr>))"

definition with_required_feature :: "string \<Rightarrow> runtime_requirements \<Rightarrow> runtime_requirements" where
  "with_required_feature feature r = r\<lparr> rq_required_features := insort_insert feature (rq_required_features r) \<rparr>"

record application_dependency =
  ad_application_id :: string
  ad_version_requirement :: string
  ad_optional :: bool

definition dependency_validate :: "application_dependency \<Rightarrow> unit contract_result" where
  "dependency_validate d = validate_text ''dependency.version_requirement'' (ad_version_requirement d) 128"

definition application_dependency_new :: "string \<Rightarrow> string \<Rightarrow> bool \<Rightarrow> application_dependency contract_result" where
  "application_dependency_new application_id version_requirement optional =
     (let d = \<lparr> ad_application_id = application_id, ad_version_requirement = version_requirement, ad_optional = optional \<rparr>
      in rbind (dependency_validate d) (\<lambda>_. Ok d))"

record health_requirements =
  hq_startup_grace_ms :: u64
  hq_heartbeat_interval_ms :: u64
  hq_failure_threshold :: u32

definition health_requirements_validate :: "health_requirements \<Rightarrow> unit contract_result" where
  "health_requirements_validate h =
     (if hq_heartbeat_interval_ms h = 0 \<or> hq_failure_threshold h = 0
      then Err (Contract_InvalidValue ''health'' ''heartbeat interval and failure threshold must be greater than zero'') else Ok ())"

definition health_requirements_new :: "u64 \<Rightarrow> u64 \<Rightarrow> u32 \<Rightarrow> health_requirements contract_result" where
  "health_requirements_new grace interval threshold =
     (if interval = 0 \<or> threshold = 0
      then Err (Contract_InvalidValue ''health'' ''heartbeat interval and failure threshold must be greater than zero'')
      else Ok \<lparr> hq_startup_grace_ms = grace, hq_heartbeat_interval_ms = interval, hq_failure_threshold = threshold \<rparr>)"

record job_policy =
  jp_enabled :: bool
  jp_max_concurrency :: u32
  jp_retry_limit :: u32

definition job_policy_validate :: "job_policy \<Rightarrow> unit contract_result" where
  "job_policy_validate j =
     (if jp_enabled j \<and> jp_max_concurrency j = 0
      then Err (Contract_InvalidValue ''jobs.max_concurrency'' ''must be greater than zero when jobs are enabled'') else Ok ())"

definition job_policy_new :: "bool \<Rightarrow> u32 \<Rightarrow> u32 \<Rightarrow> job_policy contract_result" where
  "job_policy_new enabled max_concurrency retry_limit =
     (if enabled \<and> max_concurrency = 0
      then Err (Contract_InvalidValue ''jobs.max_concurrency'' ''must be greater than zero when jobs are enabled'')
      else Ok \<lparr> jp_enabled = enabled, jp_max_concurrency = max_concurrency, jp_retry_limit = retry_limit \<rparr>)"

definition job_policy_disabled :: job_policy where
  "job_policy_disabled = \<lparr> jp_enabled = False, jp_max_concurrency = 0, jp_retry_limit = 0 \<rparr>"

datatype leadership_mode = LM_Disabled | LM_Preferred | LM_Required

record leadership_requirement =
  lr_service_id :: string
  lr_mode :: leadership_mode
  lr_lease_duration_ms :: u64

definition leadership_validate :: "leadership_requirement \<Rightarrow> unit contract_result" where
  "leadership_validate l =
     (if lr_mode l \<noteq> LM_Disabled \<and> lr_lease_duration_ms l = 0
      then Err (Contract_InvalidValue ''leadership.lease_duration_ms'' ''must be greater than zero when leadership is enabled'') else Ok ())"

definition leadership_requirement_new :: "string \<Rightarrow> leadership_mode \<Rightarrow> u64 \<Rightarrow> leadership_requirement contract_result" where
  "leadership_requirement_new service_id mode lease_duration_ms =
     (if mode \<noteq> LM_Disabled \<and> lease_duration_ms = 0
      then Err (Contract_InvalidValue ''leadership.lease_duration_ms'' ''must be greater than zero when leadership is enabled'')
      else Ok \<lparr> lr_service_id = service_id, lr_mode = mode, lr_lease_duration_ms = lease_duration_ms \<rparr>)"

record module_declaration =
  md_id :: string
  md_version :: string
  md_required :: bool

definition module_validate :: "module_declaration \<Rightarrow> unit contract_result" where
  "module_validate m = validate_text ''module.version'' (md_version m) 64"

definition module_declaration_new :: "string \<Rightarrow> string \<Rightarrow> bool \<Rightarrow> module_declaration contract_result" where
  "module_declaration_new module_id version required =
     (let m = \<lparr> md_id = module_id, md_version = version, md_required = required \<rparr> in rbind (module_validate m) (\<lambda>_. Ok m))"

record scheduler_requirements =
  sq_required :: bool
  sq_max_concurrency :: u32

definition scheduler_requirements_validate :: "scheduler_requirements \<Rightarrow> unit contract_result" where
  "scheduler_requirements_validate s =
     (if sq_required s \<and> sq_max_concurrency s = 0
      then Err (Contract_InvalidValue ''scheduler.max_concurrency'' ''must be greater than zero when a scheduler is required'') else Ok ())"

definition scheduler_requirements_new :: "bool \<Rightarrow> u32 \<Rightarrow> scheduler_requirements contract_result" where
  "scheduler_requirements_new required max_concurrency =
     (if required \<and> max_concurrency = 0
      then Err (Contract_InvalidValue ''scheduler.max_concurrency'' ''must be greater than zero when a scheduler is required'')
      else Ok \<lparr> sq_required = required, sq_max_concurrency = max_concurrency \<rparr>)"

datatype storage_durability = SD_Ephemeral | SD_Local | SD_Durable

record storage_requirements =
  stq_durability :: storage_durability
  stq_minimum_bytes :: u64
  stq_shared :: bool

definition storage_requirements_new :: "storage_durability \<Rightarrow> u64 \<Rightarrow> bool \<Rightarrow> storage_requirements" where
  "storage_requirements_new durability minimum_bytes shared =
     \<lparr> stq_durability = durability, stq_minimum_bytes = minimum_bytes, stq_shared = shared \<rparr>"

record update_policy =
  up_channel :: string
  up_automatic :: bool

definition update_policy_validate :: "update_policy \<Rightarrow> unit contract_result" where
  "update_policy_validate u = validate_text ''update.channel'' (up_channel u) 64"

definition update_policy_new :: "string \<Rightarrow> bool \<Rightarrow> update_policy contract_result" where
  "update_policy_new channel automatic =
     (let u = \<lparr> up_channel = channel, up_automatic = automatic \<rparr> in rbind (update_policy_validate u) (\<lambda>_. Ok u))"

section \<open>Core profiles\<close>

datatype core_role = CR_GeneralPurpose | CR_Control | CR_Worker | CR_Storage | CR_Compute | CR_Custom string

record resource_profile =
  rp_cpu_cores :: "u16 option"
  rp_memory_bytes :: "u64 option"
  rp_gpu_count :: u16

definition resource_profile_new :: "u16 option \<Rightarrow> u64 option \<Rightarrow> u16 \<Rightarrow> resource_profile" where
  "resource_profile_new cpu_cores memory_bytes gpu_count =
     \<lparr> rp_cpu_cores = cpu_cores, rp_memory_bytes = memory_bytes, rp_gpu_count = gpu_count \<rparr>"

definition resource_validate :: "resource_profile \<Rightarrow> unit contract_result" where
  "resource_validate r =
     (if rp_cpu_cores r = Some 0 \<or> rp_memory_bytes r = Some 0
      then Err (Contract_InvalidValue ''resources'' ''known CPU and memory values must be greater than zero'') else Ok ())"

datatype workload_class = WC_General | WC_Interactive | WC_Batch | WC_Compute | WC_Io

type_synonym i16 = "16 word"

record scheduling_profile =
  sp_weight :: u16
  sp_priority :: i16
  sp_max_concurrency :: u32
  sp_available :: bool
  sp_workload :: workload_class
  sp_affinity :: "string list"

definition scheduling_profile_new :: "u16 \<Rightarrow> i16 \<Rightarrow> u32 \<Rightarrow> workload_class \<Rightarrow> scheduling_profile contract_result" where
  "scheduling_profile_new weight priority max_concurrency workload =
     (if weight = 0 \<or> max_concurrency = 0
      then Err (Contract_InvalidValue ''scheduling'' ''weight and max concurrency must be greater than zero'')
      else Ok \<lparr> sp_weight = weight, sp_priority = priority, sp_max_concurrency = max_concurrency, sp_available = True,
        sp_workload = workload, sp_affinity = [] \<rparr>)"

definition with_availability :: "bool \<Rightarrow> scheduling_profile \<Rightarrow> scheduling_profile" where
  "with_availability available p = p\<lparr> sp_available := available \<rparr>"

text \<open>A \<open>BTreeSet\<close> is the list of its elements in ascending order.\<close>

definition with_affinity :: "string \<Rightarrow> scheduling_profile \<Rightarrow> scheduling_profile contract_result" where
  "with_affinity affinity p =
     rbind (validate_text ''scheduling.affinity'' affinity 128) (\<lambda>_. Ok (p\<lparr> sp_affinity := insort_insert affinity (sp_affinity p) \<rparr>))"

fun first_error :: "('a \<Rightarrow> unit contract_result) \<Rightarrow> 'a list \<Rightarrow> unit contract_result" where
  "first_error check [] = Ok ()"
| "first_error check (x # xs) = rbind (check x) (\<lambda>_. first_error check xs)"

definition scheduling_validate :: "scheduling_profile \<Rightarrow> unit contract_result" where
  "scheduling_validate p =
     (if sp_weight p = 0 \<or> sp_max_concurrency p = 0
      then Err (Contract_InvalidValue ''scheduling'' ''weight and max concurrency must be greater than zero'')
      else first_error (\<lambda>affinity. validate_text ''scheduling.affinity'' affinity 128) (sp_affinity p))"

record core_profile =
  cpf_role :: core_role
  cpf_service_id :: string
  cpf_capabilities :: "string list"
  cpf_leadership :: leadership_requirement
  cpf_resources :: resource_profile
  cpf_scheduling :: scheduling_profile

definition core_profile_validate :: "core_profile \<Rightarrow> unit contract_result" where
  "core_profile_validate p =
     rbind (case cpf_role p of CR_Custom role \<Rightarrow> validate_text ''core_profile.role'' role 128 | _ \<Rightarrow> Ok ()) (\<lambda>_.
     rbind (leadership_validate (cpf_leadership p)) (\<lambda>_.
     rbind (resource_validate (cpf_resources p)) (\<lambda>_.
     rbind (scheduling_validate (cpf_scheduling p)) (\<lambda>_.
     if lr_service_id (cpf_leadership p) \<noteq> cpf_service_id p
     then Err (Contract_InvalidValue ''core_profile.leadership'' ''leadership must be scoped to the profile service'') else Ok ()))))"

definition core_profile_new :: "core_role \<Rightarrow> string \<Rightarrow> string list \<Rightarrow> leadership_requirement \<Rightarrow> resource_profile \<Rightarrow>
    scheduling_profile \<Rightarrow> core_profile contract_result" where
  "core_profile_new role service_id capabilities leadership resources scheduling =
     (if lr_service_id leadership \<noteq> service_id
      then Err (Contract_InvalidValue ''core_profile.leadership'' ''leadership must be scoped to the profile service'')
      else let p = \<lparr> cpf_role = role, cpf_service_id = service_id, cpf_capabilities = fold insort_insert capabilities [],
             cpf_leadership = leadership, cpf_resources = resources, cpf_scheduling = scheduling \<rparr>
        in rbind (core_profile_validate p) (\<lambda>_. Ok p))"

section \<open>Runtime manifests\<close>

definition RUNTIME_MANIFEST_VERSION :: u16 where "RUNTIME_MANIFEST_VERSION = 1"

datatype runtime_health_status = RH_Healthy | RH_Degraded | RH_Unhealthy

record runtime_health =
  rh_status :: runtime_health_status
  rh_checked_at_ms :: u64
  rh_details :: "(string, string) omap"

definition runtime_health_new :: "runtime_health_status \<Rightarrow> u64 \<Rightarrow> runtime_health" where
  "runtime_health_new status checked_at_ms = \<lparr> rh_status = status, rh_checked_at_ms = checked_at_ms, rh_details = [] \<rparr>"

definition validate_health_detail :: "string \<Rightarrow> string \<Rightarrow> unit contract_result" where
  "validate_health_detail key v =
     rbind (validate_text ''health.detail.key'' key 128) (\<lambda>_.
     rbind (validate_text ''health.detail.value'' v 2048) (\<lambda>_.
     if is_sensitive_key key then Err (Contract_SecretValue (''health.details.'' @ key)) else Ok ()))"

definition with_detail :: "string \<Rightarrow> string \<Rightarrow> runtime_health \<Rightarrow> runtime_health contract_result" where
  "with_detail key v h =
     rbind (validate_health_detail key v) (\<lambda>_. Ok (h\<lparr> rh_details := om_put key v (rh_details h) \<rparr>))"

definition runtime_health_validate :: "runtime_health \<Rightarrow> unit contract_result" where
  "runtime_health_validate h = first_error (\<lambda>(key, v). validate_health_detail key v) (rh_details h)"

datatype runtime_operational_mode =
  Mode_Starting | Mode_Discovering | Mode_Syncing | Mode_ReadOnly | Mode_ReadWrite | Mode_Degraded | Mode_Isolated

definition allows_local_queries :: "runtime_operational_mode \<Rightarrow> bool" where
  "allows_local_queries m \<longleftrightarrow> m \<in> {Mode_ReadOnly, Mode_ReadWrite, Mode_Degraded, Mode_Isolated}"

definition allows_writes :: "runtime_operational_mode \<Rightarrow> bool" where
  "allows_writes m \<longleftrightarrow> m = Mode_ReadWrite"

definition mode_as_str :: "runtime_operational_mode \<Rightarrow> string" where
  "mode_as_str m = (case m of
     Mode_Starting \<Rightarrow> ''starting'' | Mode_Discovering \<Rightarrow> ''discovering'' | Mode_Syncing \<Rightarrow> ''syncing'' | Mode_ReadOnly \<Rightarrow> ''read_only''
   | Mode_ReadWrite \<Rightarrow> ''read_write'' | Mode_Degraded \<Rightarrow> ''degraded'' | Mode_Isolated \<Rightarrow> ''isolated'')"

definition mode_try_from :: "string \<Rightarrow> runtime_operational_mode contract_result" where
  "mode_try_from v =
     (if v = ''starting'' then Ok Mode_Starting else if v = ''discovering'' then Ok Mode_Discovering
      else if v = ''syncing'' then Ok Mode_Syncing else if v = ''read_only'' then Ok Mode_ReadOnly
      else if v = ''read_write'' then Ok Mode_ReadWrite
      else if v = ''readonly'' \<or> v = ''readwrite'' then Err (Contract_InvalidValue ''operational_mode'' ''NO MORE SUPPORTED PLEASE UPDATE'')
      else if v = ''degraded'' then Ok Mode_Degraded else if v = ''isolated'' then Ok Mode_Isolated
      else Err (Contract_InvalidValue ''operational_mode'' ''unsupported operational mode''))"

lemma mode_round_trip: "mode_try_from (mode_as_str m) = Ok m"
  by (cases m) (simp_all add: mode_try_from_def mode_as_str_def)

record runtime_manifest =
  rm_manifest_version :: u16
  rm_runtime_version :: string
  rm_protocol_version :: string
  rm_build_id :: string
  rm_features :: "string list"
  rm_node_id :: string
  rm_core_id :: string
  rm_mode :: runtime_mode
  rm_platform :: string
  rm_architecture :: string
  rm_storage_backend :: string
  rm_health :: runtime_health
  rm_operational_mode :: runtime_operational_mode
  rm_loaded_capabilities :: "string list"
  rm_core_profile :: core_profile

definition runtime_manifest_validate :: "runtime_manifest \<Rightarrow> unit contract_result" where
  "runtime_manifest_validate m =
     (if rm_manifest_version m \<noteq> RUNTIME_MANIFEST_VERSION
      then Err (Contract_InvalidValue ''manifest_version'' ''unsupported runtime manifest version'')
      else rbind (validate_text ''runtime_version'' (rm_runtime_version m) 64) (\<lambda>_.
        rbind (validate_text ''protocol_version'' (rm_protocol_version m) 64) (\<lambda>_.
        rbind (validate_text ''platform'' (rm_platform m) 128) (\<lambda>_.
        rbind (validate_text ''architecture'' (rm_architecture m) 128) (\<lambda>_.
        rbind (runtime_health_validate (rm_health m)) (\<lambda>_.
        rbind (core_profile_validate (rm_core_profile m)) (\<lambda>_.
        if \<not> set (rm_loaded_capabilities m) \<subseteq> set (cpf_capabilities (rm_core_profile m))
        then Err (Contract_InvalidValue ''loaded_capabilities'' ''loaded capabilities must be declared by the core profile'')
        else Ok ())))))))"

definition runtime_manifest_new :: "string \<Rightarrow> string \<Rightarrow> string \<Rightarrow> string \<Rightarrow> string \<Rightarrow> runtime_mode \<Rightarrow> string \<Rightarrow> string \<Rightarrow> string \<Rightarrow>
    runtime_health \<Rightarrow> core_profile \<Rightarrow> runtime_manifest contract_result" where
  "runtime_manifest_new runtime_version protocol_version build_id node_id core_id mode platform architecture storage_backend health profile =
     (let m = \<lparr> rm_manifest_version = RUNTIME_MANIFEST_VERSION, rm_runtime_version = runtime_version,
        rm_protocol_version = protocol_version, rm_build_id = build_id, rm_features = [], rm_node_id = node_id, rm_core_id = core_id,
        rm_mode = mode, rm_platform = platform, rm_architecture = architecture, rm_storage_backend = storage_backend,
        rm_health = health, rm_operational_mode = Mode_Starting, rm_loaded_capabilities = [], rm_core_profile = profile \<rparr>
      in rbind (runtime_manifest_validate m) (\<lambda>_. Ok m))"

definition with_feature :: "string \<Rightarrow> runtime_manifest \<Rightarrow> runtime_manifest" where
  "with_feature feature m = m\<lparr> rm_features := insort_insert feature (rm_features m) \<rparr>"

definition with_loaded_capability :: "string \<Rightarrow> runtime_manifest \<Rightarrow> runtime_manifest contract_result" where
  "with_loaded_capability capability m =
     (if capability \<notin> set (cpf_capabilities (rm_core_profile m))
      then Err (Contract_InvalidValue ''loaded_capabilities'' ''capability is not declared by the core profile'')
      else Ok (m\<lparr> rm_loaded_capabilities := insort_insert capability (rm_loaded_capabilities m) \<rparr>))"

definition with_health :: "runtime_health \<Rightarrow> runtime_manifest \<Rightarrow> runtime_manifest contract_result" where
  "with_health health m = rbind (runtime_health_validate health) (\<lambda>_. Ok (m\<lparr> rm_health := health \<rparr>))"

definition with_operational_mode :: "runtime_operational_mode \<Rightarrow> runtime_manifest \<Rightarrow> runtime_manifest" where
  "with_operational_mode mode m = m\<lparr> rm_operational_mode := mode \<rparr>"

text \<open>Checked deserialization moves the fields of \<open>RuntimeManifestData\<close> over and validates.\<close>

definition runtime_manifest_try_from :: "runtime_manifest \<Rightarrow> runtime_manifest contract_result" where
  "runtime_manifest_try_from data = rbind (runtime_manifest_validate data) (\<lambda>_. Ok data)"

section \<open>Application manifests\<close>

definition APPLICATION_MANIFEST_VERSION :: u16 where "APPLICATION_MANIFEST_VERSION = 1"

record application_manifest =
  am_manifest_version :: u16
  am_application_id :: string
  am_application_version :: string
  am_display_name :: string
  am_vendor :: string
  am_service_id :: string
  am_runtime :: runtime_requirements
  am_capabilities :: "capability_declaration list"
  am_leadership :: "leadership_requirement list"
  am_jobs :: job_policy
  am_dependencies :: "application_dependency list"
  am_storage :: storage_requirements
  am_scheduler :: scheduler_requirements
  am_health :: health_requirements
  am_update :: update_policy
  am_modules :: "module_declaration list"
  am_feature_flags :: "(string, bool) omap"
  am_metadata :: "(string, string) omap"

definition reject_reserved_capability_namespace :: "string \<Rightarrow> unit contract_result" where
  "reject_reserved_capability_namespace capability =
     (if list_ex (\<lambda>p. prefix p (to_ascii_lowercase capability)) [''appcore.'', ''runtime.'', ''infrastructure.'']
      then Err (Contract_InvalidValue ''capabilities.id'' ''application capability uses a reserved Runtime namespace'') else Ok ())"

fun ensure_unique_from :: "string \<Rightarrow> string set \<Rightarrow> string list \<Rightarrow> unit contract_result" where
  "ensure_unique_from field seen [] = Ok ()"
| "ensure_unique_from field seen (v # vs) =
     (if v \<in> seen then Err (Contract_Duplicate field v) else ensure_unique_from field (insert v seen) vs)"

definition ensure_unique :: "string \<Rightarrow> string list \<Rightarrow> unit contract_result" where
  "ensure_unique field vs = ensure_unique_from field {} vs"

fun split_parts :: "(char \<Rightarrow> bool) \<Rightarrow> string \<Rightarrow> string list" where
  "split_parts P [] = [[]]"
| "split_parts P (c # cs) = (if P c then [] # split_parts P cs
     else case split_parts P cs of part # parts \<Rightarrow> (c # part) # parts | [] \<Rightarrow> [[c]])"

definition validate_application_metadata :: "string \<Rightarrow> string \<Rightarrow> unit contract_result" where
  "validate_application_metadata key v =
     rbind (validate_text ''metadata.key'' key 128) (\<lambda>_.
     rbind (validate_text ''metadata.value'' v 2048) (\<lambda>_.
     if is_sensitive_key key then Err (Contract_SecretValue (''metadata.'' @ key))
     else if sublist ''path'' (to_ascii_lowercase key) \<or> looks_like_local_path v then Err (Contract_LocalPath (''metadata.'' @ key))
     else let is_location_key = list_ex (\<lambda>part. to_ascii_lowercase part \<in> {''url'', ''uri'', ''endpoint''})
            (split_parts (\<lambda>c. c \<in> set ''._-'') key)
       in if is_location_key \<or> looks_like_url v
          then Err (Contract_InvalidValue ''metadata'' ''installation-specific URLs belong to the deployment manifest'') else Ok ()))"

definition check_application_capability :: "capability_declaration \<Rightarrow> unit contract_result" where
  "check_application_capability c =
     rbind (capability_validate c) (\<lambda>_.
     rbind (reject_reserved_capability_namespace (cdl_id c)) (\<lambda>_.
     if cdl_class c \<noteq> CC_Functional
     then Err (Contract_InvalidValue ''capabilities.class'' ''application manifests may declare only functional capabilities'') else Ok ()))"

definition application_validate :: "application_manifest \<Rightarrow> unit contract_result" where
  "application_validate m =
     (if am_manifest_version m \<noteq> APPLICATION_MANIFEST_VERSION
      then Err (Contract_InvalidValue ''manifest_version'' ''unsupported application manifest version'')
      else rbind (validate_text ''application_version'' (am_application_version m) 64) (\<lambda>_.
        rbind (validate_text ''display_name'' (am_display_name m) 256) (\<lambda>_.
        rbind (validate_text ''vendor'' (am_vendor m) 256) (\<lambda>_.
        rbind (runtime_requirements_validate (am_runtime m)) (\<lambda>_.
        rbind (job_policy_validate (am_jobs m)) (\<lambda>_.
        rbind (scheduler_requirements_validate (am_scheduler m)) (\<lambda>_.
        rbind (health_requirements_validate (am_health m)) (\<lambda>_.
        rbind (update_policy_validate (am_update m)) (\<lambda>_.
        rbind (ensure_unique ''capability'' (map cdl_id (am_capabilities m))) (\<lambda>_.
        rbind (first_error check_application_capability (am_capabilities m)) (\<lambda>_.
        rbind (ensure_unique ''leadership.service_id'' (map lr_service_id (am_leadership m))) (\<lambda>_.
        rbind (first_error leadership_validate (am_leadership m)) (\<lambda>_.
        if list_ex cdl_requires_leader (am_capabilities m) \<and>
           \<not> list_ex (\<lambda>r. lr_service_id r = am_service_id m \<and> lr_mode r \<noteq> LM_Disabled) (am_leadership m)
        then Err (Contract_InvalidValue ''capabilities.requires_leader'' ''primary service leadership must be enabled'')
        else rbind (ensure_unique ''dependency.application_id'' (map ad_application_id (am_dependencies m))) (\<lambda>_.
          rbind (first_error dependency_validate (am_dependencies m)) (\<lambda>_.
          rbind (ensure_unique ''module'' (map md_id (am_modules m))) (\<lambda>_.
          rbind (first_error module_validate (am_modules m)) (\<lambda>_.
          first_error (\<lambda>(key, v). validate_application_metadata key v) (am_metadata m))))))))))))))))))"

definition checked_manifest :: "application_manifest \<Rightarrow> application_manifest contract_result" where
  "checked_manifest m = rbind (application_validate m) (\<lambda>_. Ok m)"

definition application_manifest_new ::
    "string \<Rightarrow> string \<Rightarrow> string \<Rightarrow> string \<Rightarrow> string \<Rightarrow> runtime_requirements \<Rightarrow> application_manifest contract_result" where
  "application_manifest_new application_id application_version display_name vendor service_id runtime =
     rbind (scheduler_requirements_new False 0) (\<lambda>scheduler.
     rbind (health_requirements_new 30000 10000 3) (\<lambda>health.
     rbind (update_policy_new ''stable'' False) (\<lambda>update.
     checked_manifest \<lparr> am_manifest_version = APPLICATION_MANIFEST_VERSION, am_application_id = application_id,
       am_application_version = application_version, am_display_name = display_name, am_vendor = vendor, am_service_id = service_id,
       am_runtime = runtime, am_capabilities = [], am_leadership = [], am_jobs = job_policy_disabled, am_dependencies = [],
       am_storage = storage_requirements_new SD_Local 0 False, am_scheduler = scheduler, am_health = health, am_update = update,
       am_modules = [], am_feature_flags = [], am_metadata = [] \<rparr>)))"

definition with_capability :: "capability_declaration \<Rightarrow> application_manifest \<Rightarrow> application_manifest contract_result" where
  "with_capability c m =
     (if list_ex (\<lambda>existing. cdl_id existing = cdl_id c) (am_capabilities m) then Err (Contract_Duplicate ''capability'' (cdl_id c))
      else checked_manifest (m\<lparr> am_capabilities := am_capabilities m @ [c] \<rparr>))"

definition with_leadership :: "leadership_requirement \<Rightarrow> application_manifest \<Rightarrow> application_manifest contract_result" where
  "with_leadership r m =
     (if list_ex (\<lambda>existing. lr_service_id existing = lr_service_id r) (am_leadership m)
      then Err (Contract_Duplicate ''leadership.service_id'' (lr_service_id r))
      else checked_manifest (m\<lparr> am_leadership := am_leadership m @ [r] \<rparr>))"

definition with_job_policy :: "job_policy \<Rightarrow> application_manifest \<Rightarrow> application_manifest contract_result" where
  "with_job_policy p m = checked_manifest (m\<lparr> am_jobs := p \<rparr>)"

definition with_dependency :: "application_dependency \<Rightarrow> application_manifest \<Rightarrow> application_manifest contract_result" where
  "with_dependency d m =
     (if list_ex (\<lambda>existing. ad_application_id existing = ad_application_id d) (am_dependencies m)
      then Err (Contract_Duplicate ''dependency.application_id'' (ad_application_id d))
      else checked_manifest (m\<lparr> am_dependencies := am_dependencies m @ [d] \<rparr>))"

definition with_storage_requirements :: "storage_requirements \<Rightarrow> application_manifest \<Rightarrow> application_manifest" where
  "with_storage_requirements r m = m\<lparr> am_storage := r \<rparr>"

definition with_scheduler_requirements :: "scheduler_requirements \<Rightarrow> application_manifest \<Rightarrow> application_manifest contract_result" where
  "with_scheduler_requirements r m = checked_manifest (m\<lparr> am_scheduler := r \<rparr>)"

definition with_health_requirements :: "health_requirements \<Rightarrow> application_manifest \<Rightarrow> application_manifest contract_result" where
  "with_health_requirements r m = checked_manifest (m\<lparr> am_health := r \<rparr>)"

definition with_update_policy :: "update_policy \<Rightarrow> application_manifest \<Rightarrow> application_manifest contract_result" where
  "with_update_policy p m = checked_manifest (m\<lparr> am_update := p \<rparr>)"

definition with_module :: "module_declaration \<Rightarrow> application_manifest \<Rightarrow> application_manifest contract_result" where
  "with_module d m =
     (if list_ex (\<lambda>existing. md_id existing = md_id d) (am_modules m) then Err (Contract_Duplicate ''module'' (md_id d))
      else checked_manifest (m\<lparr> am_modules := am_modules m @ [d] \<rparr>))"

definition with_feature_flag :: "string \<Rightarrow> bool \<Rightarrow> application_manifest \<Rightarrow> application_manifest" where
  "with_feature_flag feature enabled m = m\<lparr> am_feature_flags := om_put feature enabled (am_feature_flags m) \<rparr>"

definition with_metadata :: "string \<Rightarrow> string \<Rightarrow> application_manifest \<Rightarrow> application_manifest contract_result" where
  "with_metadata key v m =
     rbind (validate_application_metadata key v) (\<lambda>_. Ok (m\<lparr> am_metadata := om_put key v (am_metadata m) \<rparr>))"

definition application_try_from :: "application_manifest \<Rightarrow> application_manifest contract_result" where
  "application_try_from data = checked_manifest data"

section \<open>Every manifest is valid\<close>

text \<open>The manifests a program can hold: results of constructors, builders and checked deserialization.\<close>

inductive application_built :: "application_manifest \<Rightarrow> bool" where
  new: "application_manifest_new i v d n s r = Ok m \<Longrightarrow> application_built m"
| capability: "application_built m \<Longrightarrow> with_capability c m = Ok m' \<Longrightarrow> application_built m'"
| leadership: "application_built m \<Longrightarrow> with_leadership l m = Ok m' \<Longrightarrow> application_built m'"
| jobs: "application_built m \<Longrightarrow> with_job_policy j m = Ok m' \<Longrightarrow> application_built m'"
| dependency: "application_built m \<Longrightarrow> with_dependency p m = Ok m' \<Longrightarrow> application_built m'"
| storage: "application_built m \<Longrightarrow> application_built (with_storage_requirements q m)"
| scheduler: "application_built m \<Longrightarrow> with_scheduler_requirements k m = Ok m' \<Longrightarrow> application_built m'"
| health: "application_built m \<Longrightarrow> with_health_requirements h m = Ok m' \<Longrightarrow> application_built m'"
| update: "application_built m \<Longrightarrow> with_update_policy u m = Ok m' \<Longrightarrow> application_built m'"
| module: "application_built m \<Longrightarrow> with_module o' m = Ok m' \<Longrightarrow> application_built m'"
| feature_flag: "application_built m \<Longrightarrow> application_built (with_feature_flag f b m)"
| metadata: "application_built m \<Longrightarrow> with_metadata key val m = Ok m' \<Longrightarrow> application_built m'"
| deserialized: "application_try_from data = Ok m \<Longrightarrow> application_built m"

inductive runtime_built :: "runtime_manifest \<Rightarrow> bool" where
  new: "runtime_manifest_new v p b n c mode pl a sb h cp = Ok m \<Longrightarrow> runtime_built m"
| feature: "runtime_built m \<Longrightarrow> runtime_built (with_feature f m)"
| capability: "runtime_built m \<Longrightarrow> with_loaded_capability c m = Ok m' \<Longrightarrow> runtime_built m'"
| health: "runtime_built m \<Longrightarrow> with_health h m = Ok m' \<Longrightarrow> runtime_built m'"
| mode: "runtime_built m \<Longrightarrow> runtime_built (with_operational_mode o' m)"
| deserialized: "runtime_manifest_try_from data = Ok m \<Longrightarrow> runtime_built m"

lemma first_error_Ok_iff: "first_error check xs = Ok () \<longleftrightarrow> (\<forall>x\<in>set xs. check x = Ok ())"
  by (induction xs) (auto simp: rbind_Inr_iff)

lemma ensure_unique_from_Ok_iff:
  "ensure_unique_from field seen vs = Ok () \<longleftrightarrow> distinct vs \<and> set vs \<inter> seen = {}"
  by (induction vs arbitrary: seen) auto

lemma ensure_unique_Ok_iff: "ensure_unique field vs = Ok () \<longleftrightarrow> distinct vs"
  by (simp add: ensure_unique_def ensure_unique_from_Ok_iff)

lemma set_om_put_subset: "set (om_put k v m) \<subseteq> insert (k, v) (set m)"
  by (induction k v m rule: om_put.induct) auto

lemma checked_manifest_Ok_iff: "checked_manifest m = Ok m' \<longleftrightarrow> m' = m \<and> application_validate m = Ok ()"
  by (auto simp: checked_manifest_def rbind_Inr_iff)

lemmas checked_builders = with_capability_def with_leadership_def with_job_policy_def with_dependency_def
  with_scheduler_requirements_def with_health_requirements_def with_update_policy_def with_module_def
  application_try_from_def application_manifest_new_def checked_manifest_Ok_iff rbind_Inr_iff

lemma application_validate_Ok_iff:
  "application_validate m = Ok () \<longleftrightarrow> am_manifest_version m = APPLICATION_MANIFEST_VERSION \<and>
     validate_text ''application_version'' (am_application_version m) 64 = Ok () \<and> validate_text ''display_name'' (am_display_name m) 256 = Ok () \<and>
     validate_text ''vendor'' (am_vendor m) 256 = Ok () \<and> runtime_requirements_validate (am_runtime m) = Ok () \<and>
     job_policy_validate (am_jobs m) = Ok () \<and> scheduler_requirements_validate (am_scheduler m) = Ok () \<and>
     health_requirements_validate (am_health m) = Ok () \<and> update_policy_validate (am_update m) = Ok () \<and>
     distinct (map cdl_id (am_capabilities m)) \<and> (\<forall>c\<in>set (am_capabilities m). check_application_capability c = Ok ()) \<and>
     distinct (map lr_service_id (am_leadership m)) \<and> (\<forall>l\<in>set (am_leadership m). leadership_validate l = Ok ()) \<and>
     (list_ex cdl_requires_leader (am_capabilities m) \<longrightarrow>
        list_ex (\<lambda>r. lr_service_id r = am_service_id m \<and> lr_mode r \<noteq> LM_Disabled) (am_leadership m)) \<and>
     distinct (map ad_application_id (am_dependencies m)) \<and> (\<forall>d\<in>set (am_dependencies m). dependency_validate d = Ok ()) \<and>
     distinct (map md_id (am_modules m)) \<and> (\<forall>d\<in>set (am_modules m). module_validate d = Ok ()) \<and>
     (\<forall>(key, val)\<in>set (am_metadata m). validate_application_metadata key val = Ok ())"
  by (simp add: application_validate_def rbind_Inr_iff first_error_Ok_iff ensure_unique_Ok_iff case_prod_unfold)

lemma runtime_manifest_validate_Ok_iff:
  "runtime_manifest_validate m = Ok () \<longleftrightarrow> rm_manifest_version m = RUNTIME_MANIFEST_VERSION \<and>
     validate_text ''runtime_version'' (rm_runtime_version m) 64 = Ok () \<and> validate_text ''protocol_version'' (rm_protocol_version m) 64 = Ok () \<and>
     validate_text ''platform'' (rm_platform m) 128 = Ok () \<and> validate_text ''architecture'' (rm_architecture m) 128 = Ok () \<and>
     runtime_health_validate (rm_health m) = Ok () \<and> core_profile_validate (rm_core_profile m) = Ok () \<and>
     set (rm_loaded_capabilities m) \<subseteq> set (cpf_capabilities (rm_core_profile m))"
  by (simp add: runtime_manifest_validate_def rbind_Inr_iff)

lemma application_built_valid: "application_built m \<Longrightarrow> application_validate m = Ok ()"
proof (induction rule: application_built.induct)
  case (storage m q)
  then show ?case by (simp add: with_storage_requirements_def application_validate_Ok_iff)
next
  case (feature_flag m f b)
  then show ?case by (simp add: with_feature_flag_def application_validate_Ok_iff)
next
  case (metadata m key val m')
  then have "m' = m\<lparr> am_metadata := om_put key val (am_metadata m) \<rparr>" "validate_application_metadata key val = Ok ()"
    by (auto simp: with_metadata_def rbind_Inr_iff)
  moreover have "\<forall>(k, x)\<in>set (om_put key val (am_metadata m)). validate_application_metadata k x = Ok ()"
    using metadata calculation(2) set_om_put_subset [of key val "am_metadata m"] by (auto simp: application_validate_Ok_iff)
  ultimately show ?case using metadata.IH by (simp add: application_validate_Ok_iff)
qed (auto simp: checked_builders split: if_splits)

lemma runtime_built_valid: "runtime_built m \<Longrightarrow> runtime_manifest_validate m = Ok ()"
proof (induction rule: runtime_built.induct)
  case (capability m c m')
  then have "m' = m\<lparr> rm_loaded_capabilities := insort_insert c (rm_loaded_capabilities m) \<rparr>" "c \<in> set (cpf_capabilities (rm_core_profile m))"
    by (auto simp: with_loaded_capability_def split: if_splits)
  then show ?case using capability.IH by (simp add: runtime_manifest_validate_Ok_iff set_insort_insert)
next
  case (health m h m')
  then show ?case by (auto simp: with_health_def runtime_manifest_validate_Ok_iff rbind_Inr_iff)
qed (auto simp: runtime_manifest_new_def Let_def runtime_manifest_try_from_def with_feature_def with_operational_mode_def
    rbind_Inr_iff runtime_manifest_validate_Ok_iff)

text \<open>C23. Manifests cannot be made invalid. Whatever constructors, builders and deserializations produced them, an
  application manifest declares each capability, leadership, dependency and module once, only functional
  capabilities outside the reserved namespaces, leadership where a capability needs it, and metadata without secrets,
  paths or URLs; a runtime manifest loads only declared capabilities; and both survive checked deserialization unchanged.\<close>

theorem manifests_always_valid:
  assumes "application_built m" "runtime_built r"
  shows "application_try_from m = Ok m \<and> runtime_manifest_try_from r = Ok r \<and>
    distinct (map cdl_id (am_capabilities m)) \<and> distinct (map lr_service_id (am_leadership m)) \<and>
    distinct (map ad_application_id (am_dependencies m)) \<and> distinct (map md_id (am_modules m)) \<and>
    (\<forall>c\<in>set (am_capabilities m). cdl_class c = CC_Functional \<and> reject_reserved_capability_namespace (cdl_id c) = Ok () \<and>
      (cdl_requires_leader c \<longrightarrow> (\<exists>l\<in>set (am_leadership m). lr_service_id l = am_service_id m \<and> lr_mode l \<noteq> LM_Disabled \<and>
        lr_lease_duration_ms l \<noteq> 0))) \<and>
    (\<forall>(key, val)\<in>set (am_metadata m). \<not> is_sensitive_key key \<and> \<not> looks_like_local_path val \<and> \<not> looks_like_url val) \<and>
    set (rm_loaded_capabilities r) \<subseteq> set (cpf_capabilities (rm_core_profile r))"
proof -
  note a = application_built_valid [OF assms(1)] and b = runtime_built_valid [OF assms(2)]
  note v = a [unfolded application_validate_Ok_iff]
  have c: "\<forall>c\<in>set (am_capabilities m). check_application_capability c = Ok ()" "\<forall>l\<in>set (am_leadership m). leadership_validate l = Ok ()"
      "list_ex cdl_requires_leader (am_capabilities m) \<longrightarrow>
        list_ex (\<lambda>r. lr_service_id r = am_service_id m \<and> lr_mode r \<noteq> LM_Disabled) (am_leadership m)"
      "\<forall>(key, val)\<in>set (am_metadata m). validate_application_metadata key val = Ok ()"
    using v by blast+
  have d: "cdl_class x = CC_Functional \<and> reject_reserved_capability_namespace (cdl_id x) = Ok ()" if "x \<in> set (am_capabilities m)" for x
    using c(1) that by (auto simp: check_application_capability_def rbind_Inr_iff split: if_splits)
  have e: "lr_lease_duration_ms l \<noteq> 0" if "l \<in> set (am_leadership m)" "lr_mode l \<noteq> LM_Disabled" for l
    using c(2) that by (auto simp: leadership_validate_def split: if_splits)
  have f: "\<not> is_sensitive_key key \<and> \<not> looks_like_local_path val \<and> \<not> looks_like_url val" if "(key, val) \<in> set (am_metadata m)" for key val
    using c(4) that by (auto simp: validate_application_metadata_def rbind_Inr_iff Let_def split: if_splits)
  have g: "set (rm_loaded_capabilities r) \<subseteq> set (cpf_capabilities (rm_core_profile r))"
    using b by (simp add: runtime_manifest_validate_Ok_iff)
  have h: "\<exists>l\<in>set (am_leadership m). lr_service_id l = am_service_id m \<and> lr_mode l \<noteq> LM_Disabled \<and> lr_lease_duration_ms l \<noteq> 0"
    if "x \<in> set (am_capabilities m)" "cdl_requires_leader x" for x
    using c(3) that e by (auto simp: list_ex_iff)
  have t: "application_try_from m = Ok m" "runtime_manifest_try_from r = Ok r"
    using a b by (simp_all add: application_try_from_def checked_manifest_Ok_iff runtime_manifest_try_from_def)
  show ?thesis using t v d f g h by blast
qed

text \<open>An application with one leader-bound command, and a runtime that loads it.\<close>

definition example_manifest :: "application_manifest contract_result" where
  "example_manifest =
     rbind (runtime_requirements_new ''1.0'' ''1'') (\<lambda>r.
     rbind (application_manifest_new ''app.example'' ''1.0'' ''Example'' ''acme'' ''db'' r) (\<lambda>m.
     rbind (leadership_requirement_new ''db'' LM_Required 30000) (\<lambda>l.
     rbind (with_leadership l m) (\<lambda>m.
     rbind (capability_declaration_new ''example.write'' ''1'' CC_Command CC_Cluster) (\<lambda>c.
     with_capability (capability_with_leadership True c) m)))))"

definition example_runtime :: "runtime_manifest contract_result" where
  "example_runtime =
     rbind (leadership_requirement_new ''db'' LM_Required 30000) (\<lambda>l.
     rbind (scheduling_profile_new 10 1 8 WC_Compute) (\<lambda>s.
     rbind (core_profile_new CR_Compute ''db'' [''example.write''] l (resource_profile_new (Some 8) None 0) s) (\<lambda>p.
     rbind (runtime_manifest_new ''1.0'' ''1'' ''b1'' ''n1'' ''c1'' RM_Cluster ''linux'' ''x86'' ''file'' (runtime_health_new RH_Healthy 5) p) (\<lambda>m.
     with_loaded_capability ''example.write'' m))))"

lemma manifests_always_valid_witness:
  "\<exists>m r. example_manifest = Ok m \<and> example_runtime = Ok r \<and> application_try_from m = Ok m \<and>
     distinct (map cdl_id (am_capabilities m)) \<and> set (rm_loaded_capabilities r) \<subseteq> set (cpf_capabilities (rm_core_profile r))"
proof -
  have "\<not> isl example_manifest" "\<not> isl example_runtime" by code_simp+
  then obtain m r where mr: "example_manifest = Ok m" "example_runtime = Ok r" by (metis isl_def sum.exhaust)
  obtain q m0 l m1 c where built: "application_manifest_new ''app.example'' ''1.0'' ''Example'' ''acme'' ''db'' q = Ok m0"
      "with_leadership l m0 = Ok m1" "with_capability (capability_with_leadership True c) m1 = Ok m"
    using mr(1) unfolding example_manifest_def by (auto simp: rbind_Inr_iff)
  have "application_built m"
    by (rule application_built.capability [OF application_built.leadership [OF application_built.new [OF built(1)] built(2)] built(3)])
  moreover obtain p r0 where loaded: "runtime_manifest_new ''1.0'' ''1'' ''b1'' ''n1'' ''c1'' RM_Cluster ''linux'' ''x86'' ''file'' (runtime_health_new RH_Healthy 5) p = Ok r0"
      "with_loaded_capability ''example.write'' r0 = Ok r"
    using mr(2) unfolding example_runtime_def by (auto simp: rbind_Inr_iff)
  have "runtime_built r" by (rule runtime_built.capability [OF runtime_built.new [OF loaded(1)] loaded(2)])
  ultimately show ?thesis using mr manifests_always_valid [of m r] by blast
qed

end
