(* ===== verification/Control_Plane.thy ===== *)
theory Control_Plane
  imports Contracts File_System Identity Fenced_Leases "HOL-Library.List_Lexorder" "HOL-Library.Char_ord"
begin

text \<open>
  The control plane: the manifests that Cores register (\<open>appcore-types\<close>, \<open>manifest.rs\<close>), the wire contract (\<open>appcore-distributed-contracts\<close>, \<open>control_plane/v1.rs\<close>), and of
  \<open>appcore-control-plane\<close> the control plane in memory, its durable form in a file, the leadership guard, the heartbeat
  coordinator and the offline client. JSON is a parameter. The futures of the source run to completion under one
  lock, so each is one operation.
\<close>

section \<open>Core manifests\<close>

datatype capability_mode = CM_Query | CM_Command | CM_Stream
datatype capability_visibility = CV_Local | CV_Cluster | CV_Tenant

record capability_requirements =
  cr_requires_leader :: bool
  cr_read_only :: bool
  cr_idempotency_required :: bool

record capability_descriptor =
  cd_name :: string
  cd_version :: string
  cd_mode :: capability_mode
  cd_visibility :: capability_visibility
  cd_requirements :: capability_requirements

definition capability_descriptor_new :: "string \<Rightarrow> string \<Rightarrow> capability_mode \<Rightarrow> capability_visibility \<Rightarrow> capability_descriptor" where
  "capability_descriptor_new name version mode visibility =
     \<lparr> cd_name = name, cd_version = version, cd_mode = mode, cd_visibility = visibility,
       cd_requirements = \<lparr> cr_requires_leader = False, cr_read_only = False, cr_idempotency_required = False \<rparr> \<rparr>"

definition with_requirements :: "capability_requirements \<Rightarrow> capability_descriptor \<Rightarrow> capability_descriptor" where
  "with_requirements r d = d\<lparr> cd_requirements := r \<rparr>"

record peer_endpoint =
  pn_name :: string
  pn_url :: string
  pn_protocol :: string
  pn_metadata :: "(string, string) omap"

record distributed_core_manifest =
  dm_identity :: core_identity
  dm_app_name :: string
  dm_app_version :: string
  dm_runtime_min_version :: string
  dm_runtime_max_version :: "string option"
  dm_capabilities :: "capability_descriptor list"
  dm_endpoints :: "peer_endpoint list"
  dm_metadata :: "(string, string) omap"

definition from_application_declaration :: "capability_declaration \<Rightarrow> identifier_error + capability_descriptor" where
  "from_application_declaration d =
     (let mode = (case cdl_mode d of CC_Query \<Rightarrow> CM_Query | CC_Command \<Rightarrow> CM_Command | CC_Stream \<Rightarrow> CM_Stream);
          visibility = (case cdl_visibility d of CC_Local \<Rightarrow> CV_Local | CC_Cluster \<Rightarrow> CV_Cluster | CC_Tenant \<Rightarrow> CV_Tenant)
      in rbind (validate_identifier (cdl_id d)) (\<lambda>_. Ok (with_requirements
        \<lparr> cr_requires_leader = cdl_requires_leader d, cr_read_only = (cdl_mode d = CC_Query),
          cr_idempotency_required = cdl_idempotency_required d \<rparr>
        (capability_descriptor_new (cdl_id d) (cdl_version d) mode visibility))))"

fun descriptors_of :: "capability_declaration list \<Rightarrow> identifier_error + capability_descriptor list" where
  "descriptors_of [] = Ok []"
| "descriptors_of (d # ds) = rbind (from_application_declaration d) (\<lambda>x. rbind (descriptors_of ds) (\<lambda>xs. Ok (x # xs)))"

definition from_application_manifest :: "application_manifest \<Rightarrow> core_identity \<Rightarrow> identifier_error + distributed_core_manifest" where
  "from_application_manifest m identity =
     rbind (descriptors_of (am_capabilities m)) (\<lambda>capabilities. Ok \<lparr> dm_identity = identity, dm_app_name = am_display_name m,
       dm_app_version = am_application_version m, dm_runtime_min_version = rq_minimum_runtime_version (am_runtime m),
       dm_runtime_max_version = rq_maximum_runtime_version (am_runtime m), dm_capabilities = capabilities, dm_endpoints = [],
       dm_metadata = [] \<rparr>)"

definition supports_capability :: "distributed_core_manifest \<Rightarrow> string \<Rightarrow> bool" where
  "supports_capability m capability \<longleftrightarrow> list_ex (\<lambda>d. cd_name d = capability) (dm_capabilities m)"

definition capability_names :: "distributed_core_manifest \<Rightarrow> string list" where
  "capability_names m = map cd_name (dm_capabilities m)"

definition check_peer_compatibility ::
    "distributed_core_manifest \<Rightarrow> distributed_core_manifest \<Rightarrow> core_compatibility_policy \<Rightarrow> core_compatibility_status" where
  "check_peer_compatibility self peer policy =
     check_core_compatibility (dm_identity self) (dm_identity peer) policy (capability_names peer)"

section \<open>The wire contract\<close>

datatype control_plane_error =
  CP_Offline | CP_Timeout | CP_Rejected string | CP_Conflict string | CP_InvalidResponse string | CP_Transport string
  | CP_LeaseUnavailable

type_synonym 'a cp_result = "control_plane_error + 'a"

record core_registration =
  rg_manifest :: distributed_core_manifest
  rg_registered_at_ms :: u64
  rg_operation_mode :: runtime_operational_mode

record core_presence =
  pr_identity :: core_identity
  pr_operation_mode :: runtime_operational_mode
  pr_healthy :: bool
  pr_last_seen_ms :: u64

record heartbeat_request =
  hb_identity :: core_identity
  hb_operation_mode :: runtime_operational_mode
  hb_sent_at_ms :: u64

record heartbeat_response =
  hr_accepted :: bool
  hr_server_time_ms :: u64
  hr_operation_mode :: runtime_operational_mode

record peer_record =
  pk_identity :: core_identity
  pk_endpoints :: "peer_endpoint list"
  pk_capabilities :: "capability_descriptor list"
  pk_healthy :: bool
  pk_last_seen_ms :: u64
  pk_metadata :: "(string, string) omap"

record peer_directory =
  pd_tenant_id :: string
  pd_cluster_id :: "string option"
  pd_peers :: "peer_record list"
  pd_refreshed_at_ms :: u64

record service_leader_lease =
  sll_service_id :: string
  sll_tenant_id :: string
  sll_cluster_id :: string
  sll_holder_core_id :: string
  sll_epoch :: u64
  sll_acquired_at_ms :: u64
  sll_expires_at_ms :: u64

datatype leadership_decision = LG_Allowed | LG_NoLease | LG_Expired | LG_StaleEpoch | LG_WrongHolder

text \<open>The trait \<open>ControlPlaneProvider\<close>; the traced variants of the source pass the call on.\<close>

record 's control_plane_ops =
  cpo_register :: "core_registration \<Rightarrow> ('s, control_plane_error, core_presence) eff"
  cpo_heartbeat :: "heartbeat_request \<Rightarrow> ('s, control_plane_error, heartbeat_response) eff"
  cpo_discover_peers :: "core_identity \<Rightarrow> ('s, control_plane_error, peer_directory) eff"
  cpo_acquire :: "core_identity \<Rightarrow> string \<Rightarrow> u64 \<Rightarrow> u64 \<Rightarrow> ('s, control_plane_error, service_leader_lease) eff"
  cpo_release :: "service_leader_lease \<Rightarrow> ('s, control_plane_error, unit) eff"

section \<open>The control plane in memory\<close>

record service_lease_slot =
  ls_lease :: "service_leader_lease option"
  ls_last_epoch :: u64

definition slot_default :: service_lease_slot where
  "slot_default = \<lparr> ls_lease = None, ls_last_epoch = 0 \<rparr>"

record cp_state =
  cs_registrations :: "(string, core_registration) omap"
  cs_service_leases :: "(string, service_lease_slot) omap"

definition cp_state_default :: cp_state where
  "cp_state_default = \<lparr> cs_registrations = [], cs_service_leases = [] \<rparr>"

definition is_routable :: "runtime_operational_mode \<Rightarrow> bool" where
  "is_routable m \<longleftrightarrow> m \<in> {Mode_ReadWrite, Mode_ReadOnly, Mode_Syncing}"

definition instance_key :: "core_identity \<Rightarrow> string" where
  "instance_key i = ci_tenant_id i @ '':'' @ ci_cluster_id i @ '':'' @ ci_instance_id i"

definition service_lease_key :: "string \<Rightarrow> string \<Rightarrow> string \<Rightarrow> string" where
  "service_lease_key tenant_id cluster_id service_id = tenant_id @ '':'' @ cluster_id @ '':'' @ service_id"

definition cp_lease_expiration :: "u64 \<Rightarrow> u64 \<Rightarrow> u64 cp_result" where
  "cp_lease_expiration now_ms ttl_ms =
     (if ttl_ms = 0 then Err (CP_Rejected ''lease ttl must be greater than zero'')
      else ok_or (CP_Rejected ''lease expiration exceeds the clock range'') (checked_add now_ms ttl_ms))"

definition registrations_len :: "cp_state \<Rightarrow> nat" where
  "registrations_len s = length (cs_registrations s)"

definition prune_registrations :: "u64 \<Rightarrow> cp_state \<Rightarrow> nat \<times> cp_state" where
  "prune_registrations cutoff_ms s =
     (let kept = om_retain (\<lambda>_ r. cutoff_ms \<le> rg_registered_at_ms r) (cs_registrations s)
      in (length (cs_registrations s) - length kept, s\<lparr> cs_registrations := kept \<rparr>))"

definition cp_register :: "core_registration \<Rightarrow> (cp_state, control_plane_error, core_presence) eff" where
  "cp_register registration s =
     (let identity = dm_identity (rg_manifest registration);
          presence = \<lparr> pr_identity = identity, pr_operation_mode = rg_operation_mode registration,
            pr_healthy = is_routable (rg_operation_mode registration), pr_last_seen_ms = rg_registered_at_ms registration \<rparr>
      in (Ok presence, s\<lparr> cs_registrations := om_put (instance_key identity) registration (cs_registrations s) \<rparr>))"

definition cp_heartbeat :: "heartbeat_request \<Rightarrow> (cp_state, control_plane_error, heartbeat_response) eff" where
  "cp_heartbeat request s =
     (let key = instance_key (hb_identity request);
          s' = (case map_of (cs_registrations s) key of
             Some registration \<Rightarrow> s\<lparr> cs_registrations := om_put key (registration\<lparr> rg_registered_at_ms := hb_sent_at_ms request,
               rg_operation_mode := hb_operation_mode request \<rparr>) (cs_registrations s) \<rparr>
           | None \<Rightarrow> s)
      in (Ok \<lparr> hr_accepted = True, hr_server_time_ms = hb_sent_at_ms request, hr_operation_mode = hb_operation_mode request \<rparr>, s'))"

definition cp_discover_peers :: "core_identity \<Rightarrow> (cp_state, control_plane_error, peer_directory) eff" where
  "cp_discover_peers identity s =
     (let registrations = filter (\<lambda>r. let i = dm_identity (rg_manifest r) in ci_tenant_id i = ci_tenant_id identity \<and>
            ci_cluster_id i = ci_cluster_id identity \<and> ci_instance_id i \<noteq> ci_instance_id identity) (map snd (cs_registrations s));
          peers = map (\<lambda>r. \<lparr> pk_identity = dm_identity (rg_manifest r), pk_endpoints = dm_endpoints (rg_manifest r),
            pk_capabilities = dm_capabilities (rg_manifest r), pk_healthy = is_routable (rg_operation_mode r),
            pk_last_seen_ms = rg_registered_at_ms r, pk_metadata = dm_metadata (rg_manifest r) \<rparr>) registrations
      in (Ok \<lparr> pd_tenant_id = ci_tenant_id identity, pd_cluster_id = Some (ci_cluster_id identity), pd_peers = peers,
           pd_refreshed_at_ms = 0 \<rparr>, s))"

text \<open>\<open>entry(key).or_default()\<close> leaves an empty slot behind when the lease is refused.\<close>

definition cp_acquire_or_renew :: "core_identity \<Rightarrow> string \<Rightarrow> u64 \<Rightarrow> u64 \<Rightarrow> (cp_state, control_plane_error, service_leader_lease) eff" where
  "cp_acquire_or_renew identity service_id ttl_ms now_ms =
     ebind (elift (\<lambda>_. cp_lease_expiration now_ms ttl_ms)) (\<lambda>expires_at_ms s.
       let key = service_lease_key (ci_tenant_id identity) (ci_cluster_id identity) service_id;
           slot = (case map_of (cs_service_leases s) key of Some slot \<Rightarrow> slot | None \<Rightarrow> slot_default);
           with_slot = (\<lambda>slot. s\<lparr> cs_service_leases := om_put key slot (cs_service_leases s) \<rparr>);
           decided = (case ls_lease slot of
             Some current \<Rightarrow>
               if now_ms < sll_expires_at_ms current
               then if sll_holder_core_id current = ci_core_id identity then Ok (current\<lparr> sll_expires_at_ms := expires_at_ms \<rparr>)
                 else Err CP_LeaseUnavailable
               else rbind (ok_or (CP_Conflict ''service lease fencing epoch exhausted'') (checked_add (ls_last_epoch slot) 1)) (\<lambda>epoch.
                 Ok \<lparr> sll_service_id = service_id, sll_tenant_id = ci_tenant_id identity, sll_cluster_id = ci_cluster_id identity,
                      sll_holder_core_id = ci_core_id identity, sll_epoch = epoch, sll_acquired_at_ms = now_ms, sll_expires_at_ms = expires_at_ms \<rparr>)
           | None \<Rightarrow> rbind (ok_or (CP_Conflict ''service lease fencing epoch exhausted'') (checked_add (ls_last_epoch slot) 1)) (\<lambda>epoch.
                 Ok \<lparr> sll_service_id = service_id, sll_tenant_id = ci_tenant_id identity, sll_cluster_id = ci_cluster_id identity,
                      sll_holder_core_id = ci_core_id identity, sll_epoch = epoch, sll_acquired_at_ms = now_ms, sll_expires_at_ms = expires_at_ms \<rparr>))
       in case decided of
            Inl err \<Rightarrow> (Err err, with_slot slot)
          | Inr lease \<Rightarrow> (Ok lease, with_slot \<lparr> ls_lease = Some lease, ls_last_epoch = max (ls_last_epoch slot) (sll_epoch lease) \<rparr>))"

definition cp_release :: "service_leader_lease \<Rightarrow> (cp_state, control_plane_error, unit) eff" where
  "cp_release lease s =
     (let key = service_lease_key (sll_tenant_id lease) (sll_cluster_id lease) (sll_service_id lease)
      in case map_of (cs_service_leases s) key of
           None \<Rightarrow> (Ok (), s)
         | Some slot \<Rightarrow>
             if \<not> (case ls_lease slot of Some current \<Rightarrow>
                  sll_holder_core_id current = sll_holder_core_id lease \<and> sll_epoch current = sll_epoch lease | None \<Rightarrow> False)
             then (Err (CP_Conflict ''service lease release does not match current epoch and holder''), s)
             else (Ok (), s\<lparr> cs_service_leases := om_put key (slot\<lparr> ls_lease := None \<rparr>) (cs_service_leases s) \<rparr>))"

definition memory_control_plane :: "cp_state control_plane_ops" where
  "memory_control_plane = \<lparr> cpo_register = cp_register, cpo_heartbeat = cp_heartbeat, cpo_discover_peers = cp_discover_peers,
     cpo_acquire = cp_acquire_or_renew, cpo_release = cp_release \<rparr>"

section \<open>Offline client and coordinator\<close>

definition offline_control_plane :: "'s control_plane_ops" where
  "offline_control_plane = \<lparr> cpo_register = (\<lambda>_. efail CP_Offline), cpo_heartbeat = (\<lambda>_. efail CP_Offline),
     cpo_discover_peers = (\<lambda>_. efail CP_Offline), cpo_acquire = (\<lambda>_ _ _ _. efail CP_Offline), cpo_release = (\<lambda>_. efail CP_Offline) \<rparr>"

definition heartbeat_once :: "'s control_plane_ops \<Rightarrow> bool \<Rightarrow> heartbeat_request \<Rightarrow> ('s, control_plane_error, runtime_operational_mode) eff" where
  "heartbeat_once ops allow_degraded_on_offline request s = (case cpo_heartbeat ops request s of
     (Inr response, s') \<Rightarrow> (Ok (hr_operation_mode response), s')
   | (Inl err, s') \<Rightarrow> if err = CP_Offline \<and> allow_degraded_on_offline then (Ok Mode_Degraded, s') else (Err err, s'))"

section \<open>The leadership guard\<close>

type_synonym leadership_guard = "(string, service_leader_lease) omap"

definition leadership_guard_new :: "service_leader_lease list \<Rightarrow> leadership_guard" where
  "leadership_guard_new leases = fold (\<lambda>l. om_put (sll_service_id l) l) leases []"

definition set_service_lease :: "string \<Rightarrow> service_leader_lease option \<Rightarrow> (leadership_guard, control_plane_error, unit) eff" where
  "set_service_lease service_id lease g =
     (if (case lease of Some l \<Rightarrow> sll_service_id l \<noteq> service_id | None \<Rightarrow> False)
      then (Err (CP_Conflict ''service lease identity mismatch''), g)
      else case (map_of g service_id, lease) of
          (Some existing, Some replacement) \<Rightarrow>
            let same_scope = sll_tenant_id existing = sll_tenant_id replacement \<and> sll_cluster_id existing = sll_cluster_id replacement
            in if same_scope \<and> sll_epoch replacement < sll_epoch existing then (Err (CP_Conflict ''stale lease epoch''), g)
               else if same_scope \<and> sll_epoch replacement = sll_epoch existing \<and> sll_holder_core_id replacement \<noteq> sll_holder_core_id existing
               then (Err (CP_Conflict ''lease epoch holder conflict''), g)
               else (Ok (), om_put service_id replacement g)
        | (_, Some l) \<Rightarrow> (Ok (), om_put service_id l g)
        | (_, None) \<Rightarrow> (Ok (), om_del service_id g))"

definition current_service_lease :: "leadership_guard \<Rightarrow> string \<Rightarrow> service_leader_lease option" where
  "current_service_lease g service_id = map_of g service_id"

definition check_service_write_permission ::
    "leadership_guard \<Rightarrow> string \<Rightarrow> string \<Rightarrow> string \<Rightarrow> string \<Rightarrow> u64 option \<Rightarrow> u64 \<Rightarrow> leadership_decision" where
  "check_service_write_permission g service_id tenant_id cluster_id core_id min_epoch now_ms =
     (case current_service_lease g service_id of
        None \<Rightarrow> LG_NoLease
      | Some lease \<Rightarrow>
          if sll_expires_at_ms lease \<le> now_ms then LG_Expired
          else if sll_service_id lease \<noteq> service_id \<or> sll_tenant_id lease \<noteq> tenant_id \<or> sll_cluster_id lease \<noteq> cluster_id \<or>
            sll_holder_core_id lease \<noteq> core_id then LG_WrongHolder
          else if (case min_epoch of Some epoch \<Rightarrow> sll_epoch lease < epoch | None \<Rightarrow> False) then LG_StaleEpoch
          else LG_Allowed)"

section \<open>The control plane in a file\<close>

definition STATE_FORMAT_VERSION :: u16 where "STATE_FORMAT_VERSION = 1"
definition STATE_FILE :: string where "STATE_FILE = ''control-plane-state-v1.json''"
definition LOCK_FILE :: string where "LOCK_FILE = ''control-plane-state.lock''"
definition MAX_CONTROL_PLANE_STATE_BYTES :: nat where "MAX_CONTROL_PLANE_STATE_BYTES = 16 * 1024 * 1024"

record state_envelope =
  sv_format_version :: u16
  sv_state :: cp_state

text \<open>\<open>serde_json\<close> on envelopes: the encoder may fail with a message, the decoder refuses with \<open>None\<close>.\<close>

record cp_json =
  cj_to :: "state_envelope \<Rightarrow> string + bytes"
  cj_from :: "bytes \<Rightarrow> state_envelope option"

definition cp_io :: control_plane_error where "cp_io = CP_Transport ''control-plane I/O failed''"

definition no_more_supported :: control_plane_error where
  "no_more_supported = CP_InvalidResponse ''NO MORE SUPPORTED PLEASE UPDATE''"

definition encode_envelope :: "cp_json \<Rightarrow> state_envelope \<Rightarrow> bytes cp_result" where
  "encode_envelope j e = rbind (map_err CP_InvalidResponse (cj_to j e)) (\<lambda>bs.
     if MAX_CONTROL_PLANE_STATE_BYTES < length bs then Err (CP_Rejected ''control-plane state exceeds configured limit'') else Ok bs)"

definition decode_envelope :: "cp_json \<Rightarrow> bytes \<Rightarrow> state_envelope cp_result" where
  "decode_envelope j bs = rbind (ok_or no_more_supported (cj_from j bs)) (\<lambda>e.
     if sv_format_version e \<noteq> STATE_FORMAT_VERSION then Err no_more_supported else Ok e)"

definition cp_reject_symlink :: "path \<Rightarrow> (fs, control_plane_error, unit) eff" where
  "cp_reject_symlink p s = (case fs_symlink_metadata p s of
     (Inr LinkNode, s') \<Rightarrow> (Err (CP_Rejected ''control-plane path cannot be a symlink''), s')
   | (Inr _, s') \<Rightarrow> (Ok (), s')
   | (Inl IK_NotFound, s') \<Rightarrow> (Ok (), s')
   | (Inl IK_Other, s') \<Rightarrow> (Err cp_io, s'))"

definition cp_read_bounded :: "path \<Rightarrow> (fs, control_plane_error, bytes) eff" where
  "cp_read_bounded p =
     ebind (cp_reject_symlink p) (\<lambda>_.
     ebind (as_err cp_io (fs_open_read p)) (\<lambda>file.
     case file of
       FileNode content \<Rightarrow> ebind (as_err cp_io (fs_read content (MAX_CONTROL_PLANE_STATE_BYTES + 1))) (\<lambda>encoded.
         if MAX_CONTROL_PLANE_STATE_BYTES < length encoded then efail (CP_Rejected ''control-plane state exceeds configured limit'')
         else eret encoded)
     | _ \<Rightarrow> efail cp_io))"

definition cp_temporary :: "path \<Rightarrow> (fs, 'e, path) eff" where
  "cp_temporary parent s =
     (Ok (parent @ [''.control-plane.'' @ nat_dec (fs_pid s) @ ''.'' @ nat_dec (unat (fs_temp_counter s)) @ ''.tmp'']),
      s\<lparr> fs_temp_counter := fs_temp_counter s + 1 \<rparr>)"

definition cp_write_atomic :: "path \<Rightarrow> bytes \<Rightarrow> (fs, control_plane_error, unit) eff" where
  "cp_write_atomic p bs =
     ebind (as_err cp_io (fs_create_dir_all (butlast p))) (\<lambda>_.
     ebind (cp_temporary (butlast p)) (\<lambda>temp s.
       case write_and_rename cp_io temp p (butlast p) bs s of
         (Inr u, s') \<Rightarrow> (Ok u, s')
       | (Inl err, s') \<Rightarrow> (Err err, snd (fs_remove_file temp s'))))"

record file_control_plane =
  fc_root :: path
  fc_retention_ms :: u64
  fc_json :: cp_json

definition fc_state_path :: "file_control_plane \<Rightarrow> path" where "fc_state_path c = fc_root c @ [STATE_FILE]"
definition fc_lock_path :: "file_control_plane \<Rightarrow> path" where "fc_lock_path c = fc_root c @ [LOCK_FILE]"

definition fc_lock_exclusive :: "file_control_plane \<Rightarrow> (fs, control_plane_error, unit) eff" where
  "fc_lock_exclusive c =
     ebind (cp_reject_symlink (fc_lock_path c)) (\<lambda>_.
     ebind (as_err cp_io (fs_open_create (fc_lock_path c))) (\<lambda>_.
     as_err cp_io (sys_call (eret ()))))"

definition fc_load_envelope :: "file_control_plane \<Rightarrow> (fs, control_plane_error, state_envelope) eff" where
  "fc_load_envelope c =
     ebind (cp_reject_symlink (fc_state_path c)) (\<lambda>_.
     ebind (cp_read_bounded (fc_state_path c)) (\<lambda>encoded. elift (\<lambda>_. decode_envelope (fc_json c) encoded)))"

definition fc_load_control :: "file_control_plane \<Rightarrow> (fs, control_plane_error, cp_state) eff" where
  "fc_load_control c = ebind (fc_load_envelope c) (\<lambda>e. eret (sv_state e))"

definition fc_save_control :: "file_control_plane \<Rightarrow> cp_state \<Rightarrow> (fs, control_plane_error, unit) eff" where
  "fc_save_control c control =
     ebind (elift (\<lambda>_. encode_envelope (fc_json c) \<lparr> sv_format_version = STATE_FORMAT_VERSION, sv_state = control \<rparr>)) (\<lambda>bs.
       cp_write_atomic (fc_state_path c) bs)"

definition fc_prune :: "file_control_plane \<Rightarrow> u64 \<Rightarrow> cp_state \<Rightarrow> cp_state" where
  "fc_prune c now_ms control = snd (prune_registrations (sat_sub now_ms (fc_retention_ms c)) control)"

text \<open>The shape of every operation: lock, load, run the operation in memory, save what it left unless it failed.\<close>

definition fc_run :: "file_control_plane \<Rightarrow> (cp_state, control_plane_error, 'a) eff \<Rightarrow> (fs, control_plane_error, 'a) eff" where
  "fc_run c operation =
     ebind (fc_lock_exclusive c) (\<lambda>_.
     ebind (fc_load_control c) (\<lambda>control.
       case operation control of
         (Inl err, _) \<Rightarrow> efail err
       | (Inr x, control') \<Rightarrow> ebind (fc_save_control c control') (\<lambda>_. eret x)))"

definition fc_initialize :: "file_control_plane \<Rightarrow> (fs, control_plane_error, unit) eff" where
  "fc_initialize c =
     ebind (fc_lock_exclusive c) (\<lambda>_.
     ebind (path_exists (fc_state_path c)) (\<lambda>found.
       if found then ebind (fc_load_envelope c) (\<lambda>_. eret ()) else fc_save_control c cp_state_default))"

definition fc_with_clock :: "path \<Rightarrow> u64 \<Rightarrow> cp_json \<Rightarrow> (fs, control_plane_error, file_control_plane) eff" where
  "fc_with_clock root retention_ms j =
     (if retention_ms = 0 then efail (CP_Rejected ''control-plane retention must be greater than zero'')
      else let c = \<lparr> fc_root = root, fc_retention_ms = retention_ms, fc_json = j \<rparr>
        in ebind (cp_reject_symlink root) (\<lambda>_.
           ebind (as_err cp_io (fs_create_dir_all root)) (\<lambda>_.
           ebind (as_err cp_io (sys_call (eret ()))) (\<lambda>_.
           ebind (fc_initialize c) (\<lambda>_. eret c)))))"

definition fc_register :: "file_control_plane \<Rightarrow> u64 \<Rightarrow> core_registration \<Rightarrow> (fs, control_plane_error, core_presence) eff" where
  "fc_register c now_ms registration =
     fc_run c (\<lambda>control. cp_register (registration\<lparr> rg_registered_at_ms := now_ms \<rparr>) (fc_prune c now_ms control))"

definition fc_heartbeat :: "file_control_plane \<Rightarrow> u64 \<Rightarrow> heartbeat_request \<Rightarrow> (fs, control_plane_error, heartbeat_response) eff" where
  "fc_heartbeat c now_ms request =
     fc_run c (\<lambda>control. cp_heartbeat (request\<lparr> hb_sent_at_ms := now_ms \<rparr>) (fc_prune c now_ms control))"

definition fc_discover_peers :: "file_control_plane \<Rightarrow> u64 \<Rightarrow> core_identity \<Rightarrow> (fs, control_plane_error, peer_directory) eff" where
  "fc_discover_peers c now_ms identity =
     fc_run c (ebind (emod (fc_prune c now_ms)) (\<lambda>_. ebind (cp_discover_peers identity) (\<lambda>d. eret (d\<lparr> pd_refreshed_at_ms := now_ms \<rparr>))))"

definition fc_acquire_or_renew :: "file_control_plane \<Rightarrow> u64 \<Rightarrow> core_identity \<Rightarrow> string \<Rightarrow> u64 \<Rightarrow> (fs, control_plane_error, service_leader_lease) eff" where
  "fc_acquire_or_renew c now_ms identity service_id ttl_ms = fc_run c (cp_acquire_or_renew identity service_id ttl_ms now_ms)"

definition fc_release :: "file_control_plane \<Rightarrow> service_leader_lease \<Rightarrow> (fs, control_plane_error, unit) eff" where
  "fc_release c lease = fc_run c (cp_release lease)"

definition fc_backup_to :: "file_control_plane \<Rightarrow> path \<Rightarrow> (fs, control_plane_error, unit) eff" where
  "fc_backup_to c destination =
     ebind (fc_lock_exclusive c) (\<lambda>_.
     ebind (fc_load_envelope c) (\<lambda>e.
     ebind (elift (\<lambda>_. encode_envelope (fc_json c) e)) (\<lambda>encoded. cp_write_atomic destination encoded)))"

definition fc_restore_from :: "file_control_plane \<Rightarrow> path \<Rightarrow> (fs, control_plane_error, unit) eff" where
  "fc_restore_from c source =
     ebind (cp_reject_symlink source) (\<lambda>_.
     ebind (cp_read_bounded source) (\<lambda>encoded.
     ebind (elift (\<lambda>_. decode_envelope (fc_json c) encoded)) (\<lambda>_.
     ebind (fc_lock_exclusive c) (\<lambda>_. cp_write_atomic (fc_state_path c) encoded))))"

end
