(* ===== verification/Control_Safety.thy ===== *)
theory Control_Safety
  imports Control_Plane Text_Format "HOL-Library.Code_Target_Nat"
begin

text \<open>
  Service leadership. The control plane in memory keeps the laws of \<open>fenced_leases\<close>; every operation on the file is
  an operation in memory on the state the file holds, or leaves that state alone, so the laws carry over to the
  file under every sequence of faults; and the leadership guard turns the order of epochs into refused writes.
\<close>

section \<open>Leases in memory\<close>

datatype cp_op = CO_Register core_registration | CO_Heartbeat heartbeat_request | CO_Discover core_identity
  | CO_Acquire core_identity string u64 u64 | CO_Release service_leader_lease | CO_Prune u64

text \<open>Runs are over identities whose tenant and cluster pass their checks; a service identifier may contain colons.\<close>

definition scope_ok :: "string \<Rightarrow> string \<Rightarrow> bool" where
  "scope_ok tenant cluster \<longleftrightarrow> validate_distributed_identifier tenant = Ok () \<and> validate_distributed_identifier cluster = Ok ()"

definition identity_ok :: "core_identity \<Rightarrow> bool" where
  "identity_ok i \<longleftrightarrow> scope_ok (ci_tenant_id i) (ci_cluster_id i)"

definition cp_step :: "cp_op \<Rightarrow> cp_state \<Rightarrow> cp_state" where
  "cp_step op s = (case op of
     CO_Register r \<Rightarrow> snd (cp_register r s) | CO_Heartbeat r \<Rightarrow> snd (cp_heartbeat r s) | CO_Discover i \<Rightarrow> snd (cp_discover_peers i s)
   | CO_Acquire i sid ttl now \<Rightarrow> if identity_ok i then snd (cp_acquire_or_renew i sid ttl now s) else s | CO_Release l \<Rightarrow> snd (cp_release l s)
   | CO_Prune cutoff \<Rightarrow> snd (prune_registrations cutoff s))"

definition slot_at :: "cp_state \<Rightarrow> string \<Rightarrow> service_lease_slot" where
  "slot_at s k = (case map_of (cs_service_leases s) k of Some slot \<Rightarrow> slot | None \<Rightarrow> slot_default)"

definition cp_held :: "cp_state \<Rightarrow> string \<Rightarrow> (string \<times> u64) option" where
  "cp_held s k = map_option (\<lambda>l. (sll_holder_core_id l, sll_epoch l)) (ls_lease (slot_at s k))"

definition cp_mark :: "cp_state \<Rightarrow> string \<Rightarrow> u64" where
  "cp_mark s k = ls_last_epoch (slot_at s k)"

definition lease_key :: "service_leader_lease \<Rightarrow> string" where
  "lease_key l = service_lease_key (sll_tenant_id l) (sll_cluster_id l) (sll_service_id l)"

definition cp_inv :: "cp_state \<Rightarrow> bool" where
  "cp_inv s \<longleftrightarrow> omap_ok (cs_service_leases s) \<and>
     (\<forall>k l. ls_lease (slot_at s k) = Some l \<longrightarrow> sll_epoch l \<le> ls_last_epoch (slot_at s k) \<and> lease_key l = k \<and>
       scope_ok (sll_tenant_id l) (sll_cluster_id l))"

lemma slot_at_put [simp]:
  "omap_ok (cs_service_leases s) \<Longrightarrow>
    slot_at (s\<lparr> cs_service_leases := om_put k v (cs_service_leases s) \<rparr>) k' = (if k' = k then v else slot_at s k')"
  by (simp add: slot_at_def)

lemma slot_at_registrations [simp]: "slot_at (s\<lparr> cs_registrations := r \<rparr>) k = slot_at s k"
  by (simp add: slot_at_def)

lemma slot_at_unregistered [simp]:
  "slot_at (snd (cp_register r s)) k = slot_at s k" "slot_at (snd (cp_heartbeat h s)) k = slot_at s k"
  "slot_at (snd (cp_discover_peers i s)) k = slot_at s k" "slot_at (snd (prune_registrations c s)) k = slot_at s k"
  by (simp_all add: cp_register_def cp_heartbeat_def cp_discover_peers_def prune_registrations_def Let_def split: option.split)

lemma leases_unregistered [simp]:
  "cs_service_leases (snd (cp_register r s)) = cs_service_leases s" "cs_service_leases (snd (cp_heartbeat h s)) = cs_service_leases s"
  "cs_service_leases (snd (cp_discover_peers i s)) = cs_service_leases s"
  "cs_service_leases (snd (prune_registrations c s)) = cs_service_leases s"
  by (simp_all add: cp_register_def cp_heartbeat_def cp_discover_peers_def prune_registrations_def Let_def split: option.split)

text \<open>The three ways an acquisition ends: refused, renewed by its holder, or granted under a fresh epoch.\<close>

definition identity_key :: "core_identity \<Rightarrow> string \<Rightarrow> string" where
  "identity_key i sid = service_lease_key (ci_tenant_id i) (ci_cluster_id i) sid"

lemma checked_add_1: "checked_add (x :: u64) 1 = Some y \<Longrightarrow> x < y"
  by (drule checked_add_SomeD) (simp add: word_less_nat_alt)

lemma acquire_cases:
  assumes "cp_acquire_or_renew i sid ttl now s = (r, s')"
  obtains (refused) e where "r = Err e" "s' = s \<or> s' = s\<lparr> cs_service_leases := om_put (identity_key i sid) (slot_at s (identity_key i sid)) (cs_service_leases s) \<rparr>"
  | (renewed) current z where "ls_lease (slot_at s (identity_key i sid)) = Some current" "now < sll_expires_at_ms current"
      "sll_holder_core_id current = ci_core_id i" "r = Ok (current\<lparr> sll_expires_at_ms := z \<rparr>)"
      "s' = s\<lparr> cs_service_leases := om_put (identity_key i sid) \<lparr> ls_lease = Some (current\<lparr> sll_expires_at_ms := z \<rparr>),
        ls_last_epoch = max (ls_last_epoch (slot_at s (identity_key i sid))) (sll_epoch current) \<rparr> (cs_service_leases s) \<rparr>"
  | (granted) l where "\<forall>c. ls_lease (slot_at s (identity_key i sid)) = Some c \<longrightarrow> sll_expires_at_ms c \<le> now" "r = Ok l"
      "ls_last_epoch (slot_at s (identity_key i sid)) < sll_epoch l" "sll_holder_core_id l = ci_core_id i" "lease_key l = identity_key i sid"
      "sll_tenant_id l = ci_tenant_id i" "sll_cluster_id l = ci_cluster_id i"
      "s' = s\<lparr> cs_service_leases := om_put (identity_key i sid) \<lparr> ls_lease = Some l, ls_last_epoch = sll_epoch l \<rparr> (cs_service_leases s) \<rparr>"
proof -
  let ?k = "identity_key i sid"
  have slot: "(case map_of (cs_service_leases s) ?k of Some slot \<Rightarrow> slot | None \<Rightarrow> slot_default) = slot_at s ?k" by (simp add: slot_at_def)
  note def = cp_acquire_or_renew_def ebind_eval elift_def Let_def identity_key_def [symmetric] slot
  show thesis
  proof (cases "cp_lease_expiration now ttl")
    case (Inl e)
    then show thesis using assms refused by (auto simp: def)
  next
    case z: (Inr z)
    let ?fresh = "\<lambda>e. \<lparr> sll_service_id = sid, sll_tenant_id = ci_tenant_id i, sll_cluster_id = ci_cluster_id i,
      sll_holder_core_id = ci_core_id i, sll_epoch = e, sll_acquired_at_ms = now, sll_expires_at_ms = z \<rparr>"
    have fresh: thesis if "\<forall>c. ls_lease (slot_at s ?k) = Some c \<longrightarrow> sll_expires_at_ms c \<le> now"
    proof (cases "checked_add (ls_last_epoch (slot_at s ?k)) 1")
      case None
      then show thesis using assms z that refused by (auto simp: def ok_or_def not_less [symmetric] split: option.splits)
    next
      case (Some e)
      have lt: "ls_last_epoch (slot_at s ?k) < e" by (rule checked_add_1 [OF Some])
      show thesis
        by (rule granted [of "?fresh e"])
          (use assms z that Some lt in \<open>auto simp: def ok_or_def max_def lease_key_def not_less [symmetric] split: option.splits\<close>)
    qed
    show thesis
    proof (cases "ls_lease (slot_at s ?k)")
      case None
      then show thesis by (intro fresh) simp
    next
      case (Some c)
      consider "\<not> now < sll_expires_at_ms c" | "now < sll_expires_at_ms c" "sll_holder_core_id c = ci_core_id i"
        | "now < sll_expires_at_ms c" "sll_holder_core_id c \<noteq> ci_core_id i" by blast
      then show thesis
      proof cases
        case 1
        then show thesis using Some by (intro fresh) auto
      next
        case 2
        show thesis by (rule renewed [OF Some 2, of z]) (use assms z Some 2 in \<open>auto simp: def\<close>)
      next
        case 3
        then show thesis using assms z Some refused by (auto simp: def)
      qed
    qed
  qed
qed

lemma release_cases:
  assumes "cp_release l s = (r, s')"
  shows "s' = s \<or> (\<exists>slot. map_of (cs_service_leases s) (lease_key l) = Some slot \<and>
    s' = s\<lparr> cs_service_leases := om_put (lease_key l) (slot\<lparr> ls_lease := None \<rparr>) (cs_service_leases s) \<rparr>)"
  using assms by (auto simp: cp_release_def Let_def lease_key_def split: option.splits if_splits)

lemma cp_inv_put:
  assumes "cp_inv s" "\<forall>l. ls_lease v = Some l \<longrightarrow> sll_epoch l \<le> ls_last_epoch v \<and> lease_key l = k \<and>
    scope_ok (sll_tenant_id l) (sll_cluster_id l)"
  shows "cp_inv (s\<lparr> cs_service_leases := om_put k v (cs_service_leases s) \<rparr>)"
  using assms unfolding cp_inv_def by (auto simp: omap_ok_put)

lemma cp_inv_unregistered [simp]:
  "cp_inv (snd (cp_register r s)) = cp_inv s" "cp_inv (snd (cp_heartbeat h s)) = cp_inv s"
  "cp_inv (snd (cp_discover_peers i s)) = cp_inv s" "cp_inv (snd (prune_registrations c s)) = cp_inv s"
  by (simp_all add: cp_inv_def)

lemma cp_inv_slot: "cp_inv s \<Longrightarrow> ls_lease (slot_at s k) = Some l \<Longrightarrow>
    sll_epoch l \<le> ls_last_epoch (slot_at s k) \<and> lease_key l = k \<and> scope_ok (sll_tenant_id l) (sll_cluster_id l)"
  by (simp add: cp_inv_def)

text \<open>What an acquisition does to the slots.\<close>

lemma acquire_slots:
  assumes "cp_inv s" "cp_acquire_or_renew i sid ttl now s = (r, s')" "identity_ok i"
  shows "cp_inv s' \<and> cp_mark s k \<le> cp_mark s' k \<and>
    (cp_held s' k = Some (h, e) \<longrightarrow> cp_held s k = Some (h, e) \<or> cp_mark s k < e)"
  using assms(2)
proof (cases rule: acquire_cases)
  case (refused err)
  have "cp_inv s'" using refused(2) assms(1) cp_inv_put cp_inv_slot by metis
  moreover have "slot_at s' k = slot_at s k" using refused(2) assms(1) by (auto simp: cp_inv_def)
  ultimately show ?thesis by (simp add: cp_mark_def cp_held_def)
next
  case (renewed current z)
  note c = cp_inv_slot [OF assms(1) renewed(1)]
  have key: "lease_key (current\<lparr> sll_expires_at_ms := z \<rparr>) = lease_key current" by (simp add: lease_key_def)
  have "cp_inv s'" unfolding renewed(5) by (rule cp_inv_put [OF assms(1)]) (use c key in auto)
  then show ?thesis using renewed(1,5) assms(1) c by (auto simp: cp_mark_def cp_held_def cp_inv_def max_def)
next
  case (granted l)
  have "cp_inv s'" unfolding granted(8) by (rule cp_inv_put [OF assms(1)]) (use granted assms(3) in \<open>auto simp: identity_ok_def\<close>)
  then show ?thesis using granted assms(1) by (auto simp: cp_mark_def cp_held_def cp_inv_def)
qed

lemma release_slots:
  assumes "cp_inv s" "cp_release l s = (r, s')"
  shows "cp_inv s' \<and> cp_mark s' k = cp_mark s k \<and> (cp_held s' k = Some x \<longrightarrow> cp_held s k = Some x)"
proof -
  have "cp_inv (s\<lparr> cs_service_leases := om_put q (slot\<lparr> ls_lease := None \<rparr>) (cs_service_leases s) \<rparr>)" for q slot
    by (rule cp_inv_put [OF assms(1)]) simp
  moreover have "slot_at s q = slot" if "map_of (cs_service_leases s) q = Some slot" for q slot
    using that by (simp add: slot_at_def)
  ultimately show ?thesis
    using release_cases [OF assms(2)] assms(1) by (auto simp: cp_mark_def cp_held_def cp_inv_def split: if_splits)
qed

lemma cp_step_slots:
  assumes "cp_inv s"
  shows "cp_inv (cp_step op s) \<and> cp_mark s k \<le> cp_mark (cp_step op s) k \<and>
    (cp_held (cp_step op s) k = Some (h, e) \<longrightarrow> cp_held s k = Some (h, e) \<or> cp_mark s k < e)"
proof (cases op)
  case (CO_Acquire i sid ttl now)
  then show ?thesis using acquire_slots [OF assms surjective_pairing] assms by (simp add: cp_step_def)
next
  case (CO_Release l)
  then show ?thesis using release_slots [OF assms surjective_pairing] by (simp add: cp_step_def)
qed (use assms in \<open>simp_all add: cp_step_def cp_mark_def cp_held_def\<close>)

lemma cp_held_mark: "cp_inv s \<Longrightarrow> cp_held s k = Some (h, e) \<Longrightarrow> e \<le> cp_mark s k"
  by (auto simp: cp_inv_def cp_held_def cp_mark_def)

interpretation memory_leases: fenced_leases cp_step cp_inv cp_held cp_mark
  by unfold_locales (use cp_step_slots cp_held_mark in \<open>blast+\<close>)

lemma acquire_holds:
  assumes "cp_inv s" "cp_acquire_or_renew i sid ttl now s = (Ok l, s')"
  shows "cp_held s' (identity_key i sid) = Some (ci_core_id i, sll_epoch l)" "sll_holder_core_id l = ci_core_id i"
    "lease_key l = identity_key i sid" "ls_lease (slot_at s' (identity_key i sid)) = Some l"
    "\<forall>c. ls_lease (slot_at s (identity_key i sid)) = Some c \<and> sll_holder_core_id c \<noteq> ci_core_id i \<longrightarrow> sll_expires_at_ms c \<le> now"
proof -
  have ok: "omap_ok (cs_service_leases s)" using assms(1) by (simp add: cp_inv_def)
  have "cp_held s' (identity_key i sid) = Some (ci_core_id i, sll_epoch l) \<and> sll_holder_core_id l = ci_core_id i \<and>
    lease_key l = identity_key i sid \<and> ls_lease (slot_at s' (identity_key i sid)) = Some l \<and>
    (\<forall>c. ls_lease (slot_at s (identity_key i sid)) = Some c \<and> sll_holder_core_id c \<noteq> ci_core_id i \<longrightarrow> sll_expires_at_ms c \<le> now)"
    using assms(2)
  proof (cases rule: acquire_cases)
    case (renewed current z)
    then show ?thesis using cp_inv_slot [OF assms(1) renewed(1)] ok by (auto simp: cp_held_def lease_key_def)
  next
    case (granted l')
    then show ?thesis using ok by (auto simp: cp_held_def)
  qed simp
  then show "cp_held s' (identity_key i sid) = Some (ci_core_id i, sll_epoch l)" "sll_holder_core_id l = ci_core_id i"
    "lease_key l = identity_key i sid" "ls_lease (slot_at s' (identity_key i sid)) = Some l"
    "\<forall>c. ls_lease (slot_at s (identity_key i sid)) = Some c \<and> sll_holder_core_id c \<noteq> ci_core_id i \<longrightarrow> sll_expires_at_ms c \<le> now"
    by blast+
qed

section \<open>Leases in a file\<close>

lemma cp_reject_symlink_inspects: "inspects (cp_reject_symlink p)"
proof -
  have "inspects (fs_symlink_metadata p)" unfolding fs_symlink_metadata_def by (intro sys_call_inspects) simp
  then show ?thesis unfolding inspects_def cp_reject_symlink_def Let_def
    by (auto split: prod.splits sum.splits node.splits io_kind.splits) (metis snd_conv)+
qed

lemma cp_read_bounded_inspects: "inspects (cp_read_bounded p)"
  unfolding cp_read_bounded_def fs_open_read_def fs_read_def
  by (intro inspects_ebind cp_reject_symlink_inspects inspects_as_err sys_call_inspects inspects_pure)
    (auto intro!: inspects_ebind inspects_as_err sys_call_inspects inspects_pure split: node.split)

lemma cp_read_bounded_Ok:
  assumes "cp_read_bounded p s = (Ok bs, s')"
  shows "fs_nodes s p = Some (FileNode bs)"
proof -
  obtain u s1 n s2 where 1: "cp_reject_symlink p s = (Ok u, s1)" and 2: "fs_open_read p s1 = (Ok n, s2)"
    and 3: "(case n of FileNode content \<Rightarrow> ebind (as_err cp_io (fs_read content (MAX_CONTROL_PLANE_STATE_BYTES + 1))) (\<lambda>encoded.
         if MAX_CONTROL_PLANE_STATE_BYTES < length encoded then efail (CP_Rejected ''control-plane state exceeds configured limit'')
         else eret encoded) | _ \<Rightarrow> efail cp_io) s2 = (Ok bs, s')"
    using assms unfolding cp_read_bounded_def ebind_Ok_iff as_err_Ok by fast
  have n: "fs_nodes s p = Some n"
    using 2 inspectsD [OF cp_reject_symlink_inspects 1] unfolding fs_open_read_def
    by (cases rule: sys_call_cases) (auto split: option.splits node.splits)
  obtain content where c: "n = FileNode content" using 3 by (cases n) auto
  obtain s3 where r: "fs_read content (MAX_CONTROL_PLANE_STATE_BYTES + 1) s2 = (Ok bs, s3)" "length bs \<le> MAX_CONTROL_PLANE_STATE_BYTES"
    using 3 c by (auto simp: ebind_Ok_iff as_err_Ok split: if_splits)
  have "bs = take (MAX_CONTROL_PLANE_STATE_BYTES + 1) content"
    using r(1) unfolding fs_read_def by (cases rule: sys_call_cases) auto
  then have "bs = content" using r(2) by (simp add: min_def split: if_splits)
  then show ?thesis using n c by simp
qed

text \<open>The state a file holds. A file that cannot be decoded refuses every operation, so it counts as empty.\<close>

definition fc_state :: "file_control_plane \<Rightarrow> fs \<Rightarrow> cp_state" where
  "fc_state c s = (case fs_nodes s (fc_state_path c) of
     Some (FileNode bs) \<Rightarrow> (case decode_envelope (fc_json c) bs of Inr e \<Rightarrow> sv_state e | Inl _ \<Rightarrow> cp_state_default)
   | _ \<Rightarrow> cp_state_default)"

lemma fc_state_cong: "fs_nodes s' (fc_state_path c) = fs_nodes s (fc_state_path c) \<Longrightarrow> fc_state c s' = fc_state c s"
  by (simp add: fc_state_def)

lemma fc_load_envelope_inspects: "inspects (fc_load_envelope c)"
  unfolding fc_load_envelope_def by (intro inspects_ebind cp_reject_symlink_inspects cp_read_bounded_inspects inspects_pure)

lemma fc_load_envelope_Ok:
  assumes "fc_load_envelope c s = (Ok e, s')"
  shows "fs_nodes s' = fs_nodes s" "sv_state e = fc_state c s" "sv_format_version e = STATE_FORMAT_VERSION"
    "\<exists>bs. fs_nodes s (fc_state_path c) = Some (FileNode bs)"
proof -
  obtain u s1 bs s2 where 1: "cp_reject_symlink (fc_state_path c) s = (Ok u, s1)" and 2: "cp_read_bounded (fc_state_path c) s1 = (Ok bs, s2)"
    and 3: "decode_envelope (fc_json c) bs = Ok e"
    using assms unfolding fc_load_envelope_def ebind_Ok_iff elift_def by fast
  have n: "fs_nodes s (fc_state_path c) = Some (FileNode bs)"
    using cp_read_bounded_Ok [OF 2] inspectsD [OF cp_reject_symlink_inspects 1] by simp
  show "fs_nodes s' = fs_nodes s" by (rule inspectsD [OF fc_load_envelope_inspects assms])
  show "sv_state e = fc_state c s" using n 3 by (simp add: fc_state_def)
  show "sv_format_version e = STATE_FORMAT_VERSION" using 3 by (auto simp: decode_envelope_def rbind_Inr_iff split: if_splits)
  show "\<exists>bs. fs_nodes s (fc_state_path c) = Some (FileNode bs)" using n by blast
qed

lemma fc_lock_nodes:
  assumes "fc_lock_exclusive c s = (r, s')" "p \<noteq> fc_lock_path c"
  shows "fs_nodes s' p = fs_nodes s p"
proof -
  obtain r1 s1 where 1: "cp_reject_symlink (fc_lock_path c) s = (r1, s1)" by (cases "cp_reject_symlink (fc_lock_path c) s")
  obtain r2 s2 where 2: "fs_open_create (fc_lock_path c) s1 = (r2, s2)" by (cases "fs_open_create (fc_lock_path c) s1")
  let ?call = "as_err cp_io (sys_call (eret ()))"
  obtain r3 s3 where 3: "?call s2 = (r3, s3)" by (cases "?call s2")
  have n: "fs_nodes s1 = fs_nodes s" "fs_nodes s2 p = fs_nodes s1 p" "fs_nodes s3 = fs_nodes s2"
    using inspectsD [OF cp_reject_symlink_inspects 1] open_create_nodes [OF 2 assms(2)]
      inspectsD [OF inspects_as_err [OF sys_call_inspects [OF inspects_pure(1)]] 3] by simp_all
  have "s' = s1 \<or> s' = s2 \<or> s' = s3"
    using assms(1) 1 2 3 by (cases r1; cases r2) (auto simp: fc_lock_exclusive_def ebind_eval as_err_def)
  then show ?thesis using n by auto
qed

lemma fc_paths [simp]: "fc_state_path c \<noteq> fc_lock_path c" "\<not> suffix ''.tmp'' (last (fc_state_path c))"
  "butlast (fc_state_path c) = fc_root c" "fc_state_path c \<noteq> []"
  by (simp_all add: fc_state_path_def fc_lock_path_def STATE_FILE_def LOCK_FILE_def suffix_def)

lemma fc_lock_state: "fc_lock_exclusive c s = (r, s') \<Longrightarrow> fc_state c s' = fc_state c s"
  by (rule fc_state_cong, erule fc_lock_nodes, rule fc_paths(1))

text \<open>Replacing a file reaches every other file that exists, but for temporary ones, unchanged.\<close>

lemma cp_write_atomic_nodes:
  assumes "cp_write_atomic p bs s = (r, s')" "\<not> suffix ''.tmp'' (last p)" "\<not> suffix ''.tmp'' (last q)" "fs_nodes s q \<noteq> None \<or> \<not> prefix q (butlast p)"
  shows "fs_nodes s' q = fs_nodes s q \<or> (q = p \<and> fs_nodes s' q = Some (FileNode bs))" "r = Ok () \<Longrightarrow> q = p \<Longrightarrow> fs_nodes s' q = Some (FileNode bs)"
proof -
  let ?d = "as_err cp_io (fs_create_dir_all (butlast p))"
  obtain r0 s0 where 0: "?d s = (r0, s0)" by (cases "?d s")
  have d0: "dirs_only (butlast p) s s0" by (rule keepsD [OF create_dir_all_dirs_only _ 0]) simp
  have n0: "fs_nodes s0 q = fs_nodes s q" using d0 assms(4) by (auto simp: dirs_only_def)
  define t where "t = butlast p @ [''.control-plane.'' @ nat_dec (fs_pid s0) @ ''.'' @ nat_dec (unat (fs_temp_counter s0)) @ ''.tmp'']"
  have t: "suffix ''.tmp'' (last t)" by (simp add: t_def suffix_def)
  let ?s = "s0\<lparr> fs_temp_counter := fs_temp_counter s0 + 1 \<rparr>"
  obtain r1 s1 where 1: "write_and_rename cp_io t p (butlast p) bs ?s = (r1, s1)" by (cases "write_and_rename cp_io t p (butlast p) bs ?s")
  have qt: "q \<noteq> t" "t \<noteq> p" using t assms(2,3) by metis+
  have res: "(r, s') = (case r0 of Inl e \<Rightarrow> (Err e, s0)
      | Inr _ \<Rightarrow> (case r1 of Inr u \<Rightarrow> (Ok u, s1) | Inl e \<Rightarrow> (Err e, snd (fs_remove_file t s1))))"
    using assms(1) 0 1 by (auto simp: cp_write_atomic_def cp_temporary_def t_def ebind_eval split: sum.splits)
  have w: "fs_nodes s1 q = fs_nodes s q \<or> (q = p \<and> fs_nodes s1 q = Some (FileNode bs))" "r1 = Ok () \<Longrightarrow> q = p \<Longrightarrow> fs_nodes s1 q = Some (FileNode bs)"
    using write_and_rename_nodes [OF 1 qt(2)] qt n0 by auto
  have rm: "fs_nodes (snd (fs_remove_file t s1)) q = fs_nodes s1 q" by (rule remove_file_nodes [OF qt(1)])
  show "fs_nodes s' q = fs_nodes s q \<or> (q = p \<and> fs_nodes s' q = Some (FileNode bs))"
    using res w rm n0 by (cases r0; cases r1) simp_all
  show "fs_nodes s' q = Some (FileNode bs)" if "r = Ok ()" "q = p"
    using res w(2) that by (cases r0; cases r1) simp_all
qed

text \<open>The law of \<open>serde_json\<close> that durability rests on: what is written is read back.\<close>

definition json_ok :: "cp_json \<Rightarrow> bool" where
  "json_ok j \<longleftrightarrow> (\<forall>e bs. cj_to j e = Ok bs \<longrightarrow> cj_from j bs = Some e)"

lemma encode_decode:
  "json_ok j \<Longrightarrow> encode_envelope j e = Ok bs \<Longrightarrow> sv_format_version e = STATE_FORMAT_VERSION \<Longrightarrow> decode_envelope j bs = Ok e"
  by (auto simp: json_ok_def encode_envelope_def decode_envelope_def rbind_Inr_iff ok_or_def map_err_def split: if_splits sum.splits)

lemma fc_save_state:
  assumes "json_ok (fc_json c)" "fc_save_control c st s = (r, s')"
  shows "fc_state c s' = fc_state c s \<or> fc_state c s' = st" "r = Ok () \<Longrightarrow> fc_state c s' = st"
proof -
  let ?p = "fc_state_path c" and ?e = "\<lparr> sv_format_version = STATE_FORMAT_VERSION, sv_state = st \<rparr>"
  have "(fc_state c s' = fc_state c s \<or> fc_state c s' = st) \<and> (r = Ok () \<longrightarrow> fc_state c s' = st)"
  proof (cases "encode_envelope (fc_json c) ?e")
    case (Inl e)
    then show ?thesis using assms(2) by (auto simp: fc_save_control_def ebind_eval elift_def)
  next
    case (Inr bs)
    then have w: "cp_write_atomic ?p bs s = (r, s')" using assms(2) by (simp add: fc_save_control_def ebind_eval elift_def)
    have np: "\<not> prefix ?p (butlast ?p)" by (auto simp: prefix_def fc_state_path_def)
    note n = cp_write_atomic_nodes [OF w fc_paths(2) fc_paths(2) disjI2 [OF np]]
    have "decode_envelope (fc_json c) bs = Ok ?e" by (rule encode_decode [OF assms(1) Inr]) simp
    then have "fs_nodes s' ?p = Some (FileNode bs) \<Longrightarrow> fc_state c s' = st" by (simp add: fc_state_def)
    then show ?thesis using n fc_state_cong by blast
  qed
  then show "fc_state c s' = fc_state c s \<or> fc_state c s' = st" "r = Ok () \<Longrightarrow> fc_state c s' = st" by blast+
qed

lemma fc_run_refines:
  assumes j: "json_ok (fc_json c)" and run: "fc_run c operation s = (r, s')"
  shows "(fc_state c s' = fc_state c s \<or> (\<exists>x. operation (fc_state c s) = (Ok x, fc_state c s'))) \<and>
    (\<forall>x. r = Ok x \<longrightarrow> operation (fc_state c s) = (Ok x, fc_state c s'))"
proof -
  obtain r1 s1 where 1: "fc_lock_exclusive c s = (r1, s1)" by (cases "fc_lock_exclusive c s")
  obtain r2 s2 where 2: "fc_load_envelope c s1 = (r2, s2)" by (cases "fc_load_envelope c s1")
  have n1: "fc_state c s1 = fc_state c s" by (rule fc_lock_state [OF 1])
  have n2: "fc_state c s2 = fc_state c s" using inspectsD [OF fc_load_envelope_inspects 2] n1 by (simp add: fc_state_def)
  show ?thesis
  proof (cases "\<exists>u e. r1 = Ok u \<and> r2 = Ok e")
    case False
    then have "(s' = s1 \<or> s' = s2) \<and> (\<forall>x. r \<noteq> Ok x)"
      using run 1 2 by (cases r1; cases r2) (auto simp: fc_run_def fc_load_control_def ebind_eval)
    then show ?thesis using n1 n2 by auto
  next
    case True
    then obtain u e where ok: "r1 = Ok u" "r2 = Ok e" by blast
    have e: "sv_state e = fc_state c s" using fc_load_envelope_Ok(2) [OF 2 [unfolded ok(2)]] n1 by simp
    obtain x st where x: "operation (fc_state c s) = (x, st)" by (cases "operation (fc_state c s)")
    show ?thesis
    proof (cases x)
      case (Inl err)
      then have "s' = s2 \<and> r = Err err" using run 1 2 ok e x by (simp add: fc_run_def fc_load_control_def ebind_eval)
      then show ?thesis using n2 by simp
    next
      case (Inr y)
      obtain r3 s3 where 3: "fc_save_control c st s2 = (r3, s3)" by (cases "fc_save_control c st s2")
      have "s' = s3 \<and> (\<forall>z. r = Ok z \<longrightarrow> z = y \<and> r3 = Ok ())"
        using run 1 2 3 ok e x Inr by (cases r3) (auto simp: fc_run_def fc_load_control_def ebind_eval)
      then show ?thesis using fc_save_state [OF j 3] n2 x Inr by auto
    qed
  qed
qed

text \<open>
  Operations on the file, by any process and at any clock reading; opening the control plane initializes it again.
\<close>

datatype fc_op = FO_Initialize | FO_Register u64 core_registration | FO_Heartbeat u64 heartbeat_request | FO_Discover u64 core_identity
  | FO_Acquire u64 core_identity string u64 | FO_Release service_leader_lease | FO_Backup path | FO_Restore path

definition fc_step :: "file_control_plane \<Rightarrow> fc_op \<Rightarrow> fs \<Rightarrow> fs" where
  "fc_step c op s = (case op of
     FO_Initialize \<Rightarrow> snd (fc_initialize c s) | FO_Register now r \<Rightarrow> snd (fc_register c now r s)
   | FO_Heartbeat now r \<Rightarrow> snd (fc_heartbeat c now r s) | FO_Discover now i \<Rightarrow> snd (fc_discover_peers c now i s)
   | FO_Acquire now i sid ttl \<Rightarrow> snd (fc_acquire_or_renew c now i sid ttl s) | FO_Release l \<Rightarrow> snd (fc_release c l s)
   | FO_Backup destination \<Rightarrow> snd (fc_backup_to c destination s) | FO_Restore source \<Rightarrow> snd (fc_restore_from c source s))"

text \<open>
  What fencing asks of an operation: no state is restored from a backup; an existing file is opened with the check of its
  existence answered; identities have a valid tenant and cluster; a backup is not named like a temporary file.
\<close>

definition fc_keeps :: "file_control_plane \<Rightarrow> fc_op \<Rightarrow> fs \<Rightarrow> bool" where
  "fc_keeps c op s = (case op of
     FO_Initialize \<Rightarrow> fs_nodes s (fc_state_path c) = None \<or> stat_answers (fc_lock_exclusive c) s
   | FO_Acquire now i sid ttl \<Rightarrow> identity_ok i | FO_Backup destination \<Rightarrow> \<not> suffix ''.tmp'' (last destination)
   | FO_Restore source \<Rightarrow> False | _ \<Rightarrow> True)"

definition fc_kept_step :: "file_control_plane \<Rightarrow> fc_op \<Rightarrow> fs \<Rightarrow> fs" where
  "fc_kept_step c op s = (if fc_keeps c op s then fc_step c op s else s)"

definition fc_inv :: "file_control_plane \<Rightarrow> fs \<Rightarrow> bool" where
  "fc_inv c s \<longleftrightarrow> json_ok (fc_json c) \<and> cp_inv (fc_state c s)"

definition slots_advance :: "cp_state \<Rightarrow> cp_state \<Rightarrow> bool" where
  "slots_advance st st' \<longleftrightarrow> cp_inv st' \<and> (\<forall>k. cp_mark st k \<le> cp_mark st' k \<and>
     (\<forall>h e. cp_held st' k = Some (h, e) \<longrightarrow> cp_held st k = Some (h, e) \<or> cp_mark st k < e))"

lemma slots_advance_refl: "cp_inv st \<Longrightarrow> slots_advance st st"
  by (simp add: slots_advance_def)

lemma slots_advance_same:
  "cp_inv st \<Longrightarrow> cs_service_leases st' = cs_service_leases st \<Longrightarrow> slots_advance st st'"
  by (simp add: slots_advance_def cp_inv_def cp_mark_def cp_held_def slot_at_def)

lemma fc_run_advances:
  assumes "fc_inv c s" and "\<And>st. cp_inv st \<Longrightarrow> slots_advance st (snd (operation st))"
  shows "slots_advance (fc_state c s) (fc_state c (snd (fc_run c operation s)))"
proof -
  have j: "json_ok (fc_json c)" "cp_inv (fc_state c s)" using assms(1) by (simp_all add: fc_inv_def)
  from fc_run_refines [OF j(1) surjective_pairing, of operation s]
  have "fc_state c (snd (fc_run c operation s)) = fc_state c s \<or>
      (\<exists>x. operation (fc_state c s) = (Ok x, fc_state c (snd (fc_run c operation s))))" by blast
  then show ?thesis using assms(2) [OF j(2)] slots_advance_refl [OF j(2)] by (metis snd_conv)
qed

lemma fc_initialize_state:
  assumes "json_ok (fc_json c)" "fs_nodes s (fc_state_path c) = None \<or> stat_answers (fc_lock_exclusive c) s"
  shows "fc_state c (snd (fc_initialize c s)) = fc_state c s"
proof -
  let ?p = "fc_state_path c"
  obtain r1 s1 where 1: "fc_lock_exclusive c s = (r1, s1)" by (cases "fc_lock_exclusive c s")
  obtain rf s2 where 2: "path_exists ?p s1 = (rf :: control_plane_error + bool, s2)" by (cases "path_exists ?p s1 :: (control_plane_error + bool) \<times> fs")
  obtain found where found: "rf = Ok found" using path_exists_Ok(2) [OF 2] by auto
  obtain r3 s3 where 3: "fc_load_envelope c s2 = (r3, s3)" by (cases "fc_load_envelope c s2")
  obtain r4 s4 where 4: "fc_save_control c cp_state_default s2 = (r4, s4)" by (cases "fc_save_control c cp_state_default s2")
  have n: "fc_state c s1 = fc_state c s" "fs_nodes s2 = fs_nodes s1" "fc_state c s3 = fc_state c s2"
    using fc_lock_state [OF 1] path_exists_Ok(1) [OF 2] inspectsD [OF fc_load_envelope_inspects 3] by (simp_all add: fc_state_def)
  have n1: "fs_nodes s1 ?p = fs_nodes s ?p" by (rule fc_lock_nodes [OF 1 fc_paths(1)])
  have "snd (fc_initialize c s) \<in> {s1, s3} \<or> snd (fc_initialize c s) = s4 \<and> r1 = Ok () \<and> \<not> found"
    using 1 2 3 4 found by (cases r1; cases r3) (auto simp: fc_initialize_def ebind_eval)
  moreover have "fc_state c s4 = fc_state c s" if "r1 = Ok ()" "\<not> found"
  proof -
    have "fs_nodes s ?p = None"
      using assms(2) that path_exists_answered [of "fc_lock_exclusive c" s, OF 1 [unfolded that(1)] 2 [unfolded found]] n1 by auto
    then have "fs_nodes s2 ?p = None" using n(2) n1 by simp
    then show ?thesis using fc_save_state(1) [OF assms(1) 4] n by (auto simp: fc_state_def)
  qed
  moreover have "fc_state c s2 = fc_state c s" using n(1,2) by (simp add: fc_state_def)
  ultimately show ?thesis using n by auto
qed

text \<open>A backup leaves the state as it is, also one written over the file itself.\<close>

lemma fc_backup_state:
  assumes "json_ok (fc_json c)" "\<not> suffix ''.tmp'' (last d)"
  shows "fc_state c (snd (fc_backup_to c d s)) = fc_state c s"
proof -
  let ?p = "fc_state_path c"
  obtain r1 s1 where 1: "fc_lock_exclusive c s = (r1, s1)" by (cases "fc_lock_exclusive c s")
  obtain r2 s2 where 2: "fc_load_envelope c s1 = (r2, s2)" by (cases "fc_load_envelope c s1")
  have n: "fc_state c s1 = fc_state c s" "fs_nodes s2 = fs_nodes s1" "fc_state c s2 = fc_state c s1"
    using fc_lock_state [OF 1] inspectsD [OF fc_load_envelope_inspects 2] by (simp_all add: fc_state_def)
  show ?thesis
  proof (cases "\<exists>e bs. r1 = Ok () \<and> r2 = Ok e \<and> encode_envelope (fc_json c) e = Ok bs")
    case False
    then have "snd (fc_backup_to c d s) \<in> {s1, s2}"
      using 1 2 by (cases r1; cases r2; cases "encode_envelope (fc_json c) (projr r2)") (auto simp: fc_backup_to_def ebind_eval elift_def)
    then show ?thesis using n by auto
  next
    case True
    then obtain e bs where e: "r1 = Ok ()" "r2 = Ok e" "encode_envelope (fc_json c) e = Ok bs" by blast
    note loaded = fc_load_envelope_Ok [OF 2 [unfolded e(2)]]
    obtain r3 s3 where 3: "cp_write_atomic d bs s2 = (r3, s3)" by (cases "cp_write_atomic d bs s2")
    have "snd (fc_backup_to c d s) = s3" using 1 2 3 e by (simp add: fc_backup_to_def ebind_eval elift_def)
    moreover have "decode_envelope (fc_json c) bs = Ok e" using encode_decode [OF assms(1) e(3)] loaded by simp
    moreover have "fs_nodes s2 ?p \<noteq> None" using loaded n(2) by auto
    from cp_write_atomic_nodes(1) [OF 3 assms(2) fc_paths(2) disjI1 [OF this]]
    have "fs_nodes s3 ?p = fs_nodes s2 ?p \<or> fs_nodes s3 ?p = Some (FileNode bs)" by blast
    ultimately show ?thesis using loaded n fc_state_cong [of s3 c s2] by (auto simp: fc_state_def)
  qed
qed

lemma fc_step_advances:
  assumes "fc_inv c s" "fc_keeps c op s"
  shows "slots_advance (fc_state c s) (fc_state c (fc_step c op s))"
proof (cases op)
  case FO_Initialize
  then show ?thesis using assms fc_initialize_state slots_advance_refl by (simp add: fc_step_def fc_inv_def fc_keeps_def)
next
  case (FO_Backup d)
  then show ?thesis using assms fc_backup_state slots_advance_refl by (simp add: fc_step_def fc_inv_def fc_keeps_def)
next
  case (FO_Restore src)
  with assms(2) show ?thesis by (simp add: fc_keeps_def)
next
  case (FO_Register now r)
  show ?thesis unfolding FO_Register fc_step_def fc_op.case fc_register_def
    by (rule fc_run_advances [OF assms(1)], rule slots_advance_same) (simp_all add: fc_prune_def)
next
  case (FO_Heartbeat now r)
  show ?thesis unfolding FO_Heartbeat fc_step_def fc_op.case fc_heartbeat_def
    by (rule fc_run_advances [OF assms(1)], rule slots_advance_same) (simp_all add: fc_prune_def)
next
  case (FO_Discover now i)
  show ?thesis unfolding FO_Discover fc_step_def fc_op.case fc_discover_peers_def
    by (rule fc_run_advances [OF assms(1)], rule slots_advance_same)
      (simp_all add: fc_prune_def ebind_eval emod_def cp_discover_peers_def prune_registrations_def Let_def)
next
  case (FO_Acquire now i sid ttl)
  then have "identity_ok i" using assms(2) by (simp add: fc_keeps_def)
  then have "slots_advance st (snd (cp_acquire_or_renew i sid ttl now st))" if "cp_inv st" for st
    using acquire_slots [OF that surjective_pairing] by (simp add: slots_advance_def)
  then show ?thesis unfolding FO_Acquire fc_step_def fc_op.case fc_acquire_or_renew_def by (rule fc_run_advances [OF assms(1)])
next
  case (FO_Release l)
  have "slots_advance st (snd (cp_release l st))" if "cp_inv st" for st
    using release_slots [OF that surjective_pairing] by (simp add: slots_advance_def)
  then show ?thesis unfolding FO_Release fc_step_def fc_op.case fc_release_def by (rule fc_run_advances [OF assms(1)])
qed

lemma fc_kept_step_advances: "fc_inv c s \<Longrightarrow> slots_advance (fc_state c s) (fc_state c (fc_kept_step c op s))"
  using fc_step_advances by (simp add: fc_kept_step_def slots_advance_refl fc_inv_def)

interpretation file_plane: fenced_leases "fc_kept_step c" "fc_inv c" "\<lambda>s. cp_held (fc_state c s)" "\<lambda>s. cp_mark (fc_state c s)" for c
  by unfold_locales (use fc_kept_step_advances [of c] cp_held_mark in \<open>auto simp: slots_advance_def fc_inv_def\<close>)

definition fc_run_ops :: "file_control_plane \<Rightarrow> fc_op list \<Rightarrow> fs \<Rightarrow> fs" where
  "fc_run_ops c ops s = fold (fc_step c) ops s"

fun fc_run_keeps :: "file_control_plane \<Rightarrow> fc_op list \<Rightarrow> fs \<Rightarrow> bool" where
  "fc_run_keeps c [] s = True"
| "fc_run_keeps c (op # ops) s = (fc_keeps c op s \<and> fc_run_keeps c ops (fc_step c op s))"

lemma kept_run: "fc_run_keeps c ops s \<Longrightarrow> fc_run_ops c ops s = file_plane.run c ops s"
  by (induction ops arbitrary: s) (simp_all add: fc_run_ops_def fc_kept_step_def)

text \<open>
  As it is: restoring puts back the epochs of the backup, whatever has been granted since; and opening an existing file
  while the check of its existence fails writes the initial state over it, with every epoch back at its start.
\<close>

lemma restore_puts_back:
  assumes "fc_restore_from c src s = (Ok (), s')" "fs_nodes s src = Some (FileNode bs)"
  shows "\<exists>e. decode_envelope (fc_json c) bs = Ok e \<and> fc_state c s' = sv_state e"
proof -
  obtain s1 enc s2 e s3 where 1: "cp_reject_symlink src s = (Ok (), s1)" and 2: "cp_read_bounded src s1 = (Ok enc, s2)"
      and e: "decode_envelope (fc_json c) enc = Ok e" and 3: "fc_lock_exclusive c s2 = (Ok (), s3)"
      and 4: "cp_write_atomic (fc_state_path c) enc s3 = (Ok (), s')"
    using assms(1) unfolding fc_restore_from_def by (auto simp: ebind_Ok_iff elift_def)
  have "fs_nodes s1 = fs_nodes s" using inspectsD [OF cp_reject_symlink_inspects 1] .
  then have "enc = bs" using cp_read_bounded_Ok [OF 2] assms(2) by simp
  moreover have "\<not> prefix (fc_state_path c) (butlast (fc_state_path c))" by (auto simp: prefix_def fc_state_path_def)
  then have "fs_nodes s' (fc_state_path c) = Some (FileNode enc)"
    using cp_write_atomic_nodes(2) [OF 4 fc_paths(2) fc_paths(2)] by blast
  ultimately show ?thesis using e by (simp add: fc_state_def)
qed

lemma unanswered_initialize_resets:
  assumes "json_ok (fc_json c)" "fc_initialize c s = (Ok (), s')" "\<not> stat_answers (fc_lock_exclusive c) s"
  shows "fc_state c s' = cp_state_default"
proof -
  obtain s1 where 1: "fc_lock_exclusive c s = (Ok (), s1)" "case_list False (\<lambda>f _. f \<noteq> None) (fs_faults s1)"
    using assms(3) by (cases "fc_lock_exclusive c s"; cases "fst (fc_lock_exclusive c s)") (auto simp: stat_answers_def split: list.splits)
  have "path_exists (fc_state_path c) s1 = (Ok False :: control_plane_error + bool, s1\<lparr> fs_faults := tl (fs_faults s1) \<rparr>)"
    using 1(2) by (auto simp: path_exists_def fs_symlink_metadata_def sys_call_def ebind_eval next_fault_def efail_def split: list.splits)
  then have "fc_save_control c cp_state_default (s1\<lparr> fs_faults := tl (fs_faults s1) \<rparr>) = (Ok (), s')"
    using assms(2) 1(1) by (simp add: fc_initialize_def ebind_eval)
  then show ?thesis using fc_save_state(2) [OF assms(1)] by blast
qed

text \<open>Keys of leases can be taken apart, since tenants and clusters are free of colons.\<close>

lemma service_lease_key_inject:
  assumes "service_lease_key t c v = service_lease_key t' c' v'" "scope_ok t c" "scope_ok t' c'"
  shows "t' = t \<and> c' = c \<and> v' = v"
proof -
  have n: "CHR '':'' \<notin> set x" if "x \<in> {t, c, t', c'}" for x
    using that assms(2,3) by (auto simp: scope_ok_def dest: distributed_id_no_colon)
  have eq: "t @ CHR '':'' # (c @ CHR '':'' # v) = t' @ CHR '':'' # (c' @ CHR '':'' # v')" using assms(1) by (simp add: service_lease_key_def)
  have "t' = t" "c' @ CHR '':'' # v' = c @ CHR '':'' # v"
    using arg_cong [OF eq, of "split_once (CHR '':'')"] n by (simp_all add: split_once_append)
  moreover from arg_cong [OF this(2), of "split_once (CHR '':'')"] have "c' = c" "v' = v"
    using n by (simp_all add: split_once_append)
  ultimately show ?thesis by simp
qed

text \<open>C17. The control plane in a file refines the one in memory: whatever file system calls fail, the file holds the
  old state or the state the operation leaves in memory, and an operation that succeeds returns what
  it returns in memory and has stored its state.\<close>

theorem file_control_plane_refines_memory:
  assumes "json_ok (fc_json c)" "fc_run c operation s = (r, s')"
  shows "(fc_state c s' = fc_state c s \<or> (\<exists>x. operation (fc_state c s) = (Ok x, fc_state c s'))) \<and>
    (\<forall>x. r = Ok x \<longrightarrow> operation (fc_state c s) = (Ok x, fc_state c s'))"
  by (rule fc_run_refines [OF assms])

text \<open>The guard after the newer of two leases of the same service.\<close>

lemma guard_fences:
  assumes g: "set_service_lease sid (Some l') g = (Ok (), g')" and ok: "omap_ok g"
    and scope: "sll_tenant_id l = sll_tenant_id l'" "sll_cluster_id l = sll_cluster_id l'" "sll_service_id l = sid"
    and epoch: "sll_epoch l < sll_epoch l'" and h: "sll_holder_core_id l \<noteq> sll_holder_core_id l'"
  shows "set_service_lease sid (Some l) g' = (Err (CP_Conflict ''stale lease epoch''), g')"
    "check_service_write_permission g' sid t cl (sll_holder_core_id l) min_epoch now \<noteq> LG_Allowed"
proof -
  have "map_of g' sid = Some l'"
    using g ok by (auto simp: set_service_lease_def Let_def split: if_splits option.splits)
  then show "set_service_lease sid (Some l) g' = (Err (CP_Conflict ''stale lease epoch''), g')"
    "check_service_write_permission g' sid t cl (sll_holder_core_id l) min_epoch now \<noteq> LG_Allowed"
    using scope epoch h
    by (auto simp: set_service_lease_def check_service_write_permission_def current_service_lease_def)
qed

text \<open>C16. Service leadership is fenced. Two leases granted from the file for the same tenant, cluster and service, with any
  operations of any Cores and any file system faults between them, have ascending epochs or the same epoch and holder;
  the second can go to another Core only if what was held until then had expired; and once a guard has been given the
  second lease, it refuses to go back to the first and denies its holder every write. The operations in between may be
  backups, but not the restoring of one, which puts back the epochs of the backup; an opening of the
  existing file in between has the check of its existence answered, since the code takes a failing check for a missing
  file and starts over; the Cores have valid tenants and clusters, and no backup is named like a temporary file.\<close>

theorem service_leadership_fenced:
  assumes inv: "fc_inv c s"
    and ids: "identity_ok i"
    and same: "ci_tenant_id i' = ci_tenant_id i" "ci_cluster_id i' = ci_cluster_id i"
    and a: "fc_acquire_or_renew c now i sid ttl s = (Ok l, s1)"
    and kept: "fc_run_keeps c ops s1"
    and b: "fc_acquire_or_renew c now' i' sid ttl' (fc_run_ops c ops s1) = (Ok l', s2)"
  shows "(sll_epoch l < sll_epoch l' \<or> sll_epoch l' = sll_epoch l \<and> sll_holder_core_id l' = sll_holder_core_id l) \<and>
      (\<forall>stored. ls_lease (slot_at (fc_state c (fc_run_ops c ops s1)) (lease_key l)) = Some stored \<and>
        sll_holder_core_id stored \<noteq> sll_holder_core_id l' \<longrightarrow> sll_expires_at_ms stored \<le> now') \<and>
      (\<forall>g g'. omap_ok g \<and> set_service_lease sid (Some l') g = (Ok (), g') \<and> sll_holder_core_id l \<noteq> sll_holder_core_id l' \<longrightarrow>
        set_service_lease sid (Some l) g' = (Err (CP_Conflict ''stale lease epoch''), g') \<and>
        (\<forall>t cl min_epoch at. check_service_write_permission g' sid t cl (sll_holder_core_id l) min_epoch at \<noteq> LG_Allowed))"
proof -
  let ?t = "fc_run_ops c ops s1"
  have j: "json_ok (fc_json c)" "cp_inv (fc_state c s)" using inv by (simp_all add: fc_inv_def)
  have ids': "identity_ok i'" using ids same by (simp add: identity_ok_def)
  have s1: "s1 = fc_kept_step c (FO_Acquire now i sid ttl) s" and s2: "s2 = fc_kept_step c (FO_Acquire now' i' sid ttl') ?t"
    using a b ids ids' by (simp_all add: fc_kept_step_def fc_keeps_def fc_step_def)
  have t: "?t = file_plane.run c ops s1" by (rule kept_run [OF kept])
  have inv1: "fc_inv c s1" unfolding s1 by (rule file_plane.step_inv [OF inv])
  have invt: "fc_inv c ?t" unfolding t by (rule file_plane.run_inv [OF inv1])
  have A: "cp_acquire_or_renew i sid ttl now (fc_state c s) = (Ok l, fc_state c s1)"
    using fc_run_refines [OF j(1) a [unfolded fc_acquire_or_renew_def]] by simp
  have B: "cp_acquire_or_renew i' sid ttl' now' (fc_state c ?t) = (Ok l', fc_state c s2)"
    using fc_run_refines [OF j(1) b [unfolded fc_acquire_or_renew_def]] by simp
  have jt: "cp_inv (fc_state c ?t)" using invt by (simp add: fc_inv_def)
  note la = acquire_holds [OF j(2) A] and lb = acquire_holds [OF jt B]
  have key: "identity_key i' sid = identity_key i sid" using same by (simp add: identity_key_def)
  have s2': "s2 = file_plane.run c (ops @ [FO_Acquire now' i' sid ttl']) s1"
    unfolding s2 t by (simp add: file_plane.run_def)
  have "cp_held (fc_state c s2) (identity_key i sid) = Some (sll_holder_core_id l', sll_epoch l')" using lb(1,2) key by simp
  then have ord: "sll_epoch l < sll_epoch l' \<or> (sll_holder_core_id l' = sll_holder_core_id l \<and> sll_epoch l' = sll_epoch l)"
    using file_plane.epochs_ordered [OF inv1 la(1)] la(2) s2' by metis
  have expired: "\<forall>stored. ls_lease (slot_at (fc_state c ?t) (lease_key l)) = Some stored \<and>
      sll_holder_core_id stored \<noteq> sll_holder_core_id l' \<longrightarrow> sll_expires_at_ms stored \<le> now'"
    using lb(2,5) key la(3) by simp
  have j1: "cp_inv (fc_state c s1)" "cp_inv (fc_state c s2)"
    using inv1 file_plane.step_inv [OF invt, of "FO_Acquire now' i' sid ttl'"] s2 by (simp_all add: fc_inv_def)
  have "scope_ok (sll_tenant_id l) (sll_cluster_id l)" "scope_ok (sll_tenant_id l') (sll_cluster_id l')"
    using cp_inv_slot [OF j1(1) la(4)] cp_inv_slot [OF j1(2) lb(4)] by simp_all
  then have scope: "sll_tenant_id x = ci_tenant_id i \<and> sll_cluster_id x = ci_cluster_id i \<and> sll_service_id x = sid" if "x \<in> {l, l'}" for x
    using that la(3) lb(3) key ids unfolding lease_key_def identity_key_def identity_ok_def
    by (auto dest: service_lease_key_inject)
  have sc: "sll_tenant_id l = sll_tenant_id l'" "sll_cluster_id l = sll_cluster_id l'" "sll_service_id l = sid"
    using scope [of l] scope [of l'] by simp_all
  have "\<forall>g g'. omap_ok g \<and> set_service_lease sid (Some l') g = (Ok (), g') \<and> sll_holder_core_id l \<noteq> sll_holder_core_id l' \<longrightarrow>
      set_service_lease sid (Some l) g' = (Err (CP_Conflict ''stale lease epoch''), g') \<and>
      (\<forall>t cl min_epoch at. check_service_write_permission g' sid t cl (sll_holder_core_id l) min_epoch at \<noteq> LG_Allowed)"
    using guard_fences [OF _ _ sc] ord by metis
  then show ?thesis using ord expired by blast
qed

text \<open>A run without faults in the root directory of the file system.\<close>

declare sys_call_healthy [simp]

definition plane_ready :: "file_control_plane \<Rightarrow> bytes \<Rightarrow> fs \<Rightarrow> bool" where
  "plane_ready c bs s \<longleftrightarrow> fc_root c = [] \<and> fs_faults s = [] \<and> length bs \<le> MAX_CONTROL_PLANE_STATE_BYTES \<and>
     fs_nodes s (fc_state_path c) = Some (FileNode bs) \<and> fs_nodes s (fc_lock_path c) \<in> {None, Some (FileNode [])} \<and>
     (\<forall>q. suffix ''.tmp'' (last q) \<longrightarrow> fs_nodes s q = None)"

lemma cp_reject_ready: "fs_faults s = [] \<Longrightarrow> fs_nodes s p \<noteq> Some LinkNode \<Longrightarrow> cp_reject_symlink p s = (Ok (), s)"
  by (auto simp: cp_reject_symlink_def fs_symlink_metadata_def ok_or_def split: option.splits node.splits)

lemma lock_ready:
  assumes "plane_ready c bs s"
  obtains s1 where "fc_lock_exclusive c s = (Ok (), s1)" "plane_ready c bs s1"
proof
  let ?l = "fc_lock_path c"
  let ?s1 = "if fs_nodes s ?l = None then s\<lparr> fs_nodes := (fs_nodes s)(?l \<mapsto> FileNode []) \<rparr> else s"
  have l: "\<not> suffix ''.tmp'' (last ?l)" "butlast ?l = fc_root c" by (simp_all add: fc_lock_path_def LOCK_FILE_def suffix_def)
  have p: "fs_faults s = []" "fs_nodes s ?l = None \<or> fs_nodes s ?l = Some (FileNode [])" "fc_root c = []"
    using assms by (auto simp: plane_ready_def)
  have "fs_open_create ?l s = (Ok (), ?s1)" using p l by (auto simp: fs_open_create_def is_dir_def)
  moreover have "cp_reject_symlink ?l s = (Ok (), s)" using p by (intro cp_reject_ready) auto
  ultimately show "fc_lock_exclusive c s = (Ok (), ?s1)"
    using p by (auto simp: fc_lock_exclusive_def ebind_eval as_err_def)
  show "plane_ready c bs ?s1" using assms l by (auto simp: plane_ready_def)
qed

lemma load_ready:
  assumes "plane_ready c bs s" "decode_envelope (fc_json c) bs = Ok e"
  shows "fc_load_control c s = (Ok (sv_state e), s)"
proof -
  have p: "fs_faults s = []" "fs_nodes s (fc_state_path c) = Some (FileNode bs)" "length bs \<le> MAX_CONTROL_PLANE_STATE_BYTES"
    using assms(1) by (auto simp: plane_ready_def)
  have "cp_reject_symlink (fc_state_path c) s = (Ok (), s)" using p by (intro cp_reject_ready) auto
  then show ?thesis using p assms(2)
    by (simp add: fc_load_control_def fc_load_envelope_def ebind_eval cp_read_bounded_def fs_open_read_def fs_read_def as_err_def)
qed

lemma save_ready:
  assumes "plane_ready c bs s" "encode_envelope (fc_json c) \<lparr> sv_format_version = STATE_FORMAT_VERSION, sv_state = st \<rparr> = Ok bs'"
  obtains s' where "fc_save_control c st s = (Ok (), s')" "plane_ready c bs' s'"
proof
  let ?p = "fc_state_path c"
  let ?s' = "s\<lparr> fs_nodes := (fs_nodes s)(?p \<mapsto> FileNode bs'), fs_temp_counter := fs_temp_counter s + 1 \<rparr>"
  define t where "t = [''.control-plane.'' @ nat_dec (fs_pid s) @ ''.'' @ nat_dec (unat (fs_temp_counter s)) @ ''.tmp'']"
  have p: "fs_faults s = []" "fc_root c = []" "fs_nodes s ?p = Some (FileNode bs)" using assms(1) by (auto simp: plane_ready_def)
  have len: "length bs' \<le> MAX_CONTROL_PLANE_STATE_BYTES"
    using assms(2) by (auto simp: encode_envelope_def rbind_Inr_iff split: if_splits)
  have "suffix ''.tmp'' (last t)" by (simp add: t_def suffix_def)
  then have t: "fs_nodes s t = None" "t \<noteq> ?p" using assms(1) fc_paths(2) [of c] unfolding plane_ready_def by metis+
  have upd: "(fs_nodes s)(t \<mapsto> FileNode [], t \<mapsto> FileNode bs', ?p \<mapsto> FileNode bs', t := None) = (fs_nodes s)(?p \<mapsto> FileNode bs')"
    using t by (auto simp: fun_eq_iff)
  have temp: "cp_temporary [] s = (Ok t :: control_plane_error + path, s\<lparr> fs_temp_counter := fs_temp_counter s + 1 \<rparr>)"
    by (simp add: cp_temporary_def t_def)
  have bt: "butlast t = []" by (simp add: t_def)
  have "cp_write_atomic ?p bs' s = (Ok (), ?s')"
    using p t upd
    by (simp add: cp_write_atomic_def fs_create_dir_all_def ebind_eval temp write_and_rename_def as_err_def
        fs_create_new_def bt is_dir_def fs_write_all_def next_fault_def fs_sync_def fs_rename_def sync_parent_def fun_upd_twist)
  then show "fc_save_control c st s = (Ok (), ?s')" using assms(2) by (simp add: fc_save_control_def ebind_eval)
  have "\<not> suffix ''.tmp'' (last ?p)" "fc_lock_path c \<noteq> ?p" using fc_paths(1,2) [of c] by metis+
  then show "plane_ready c bs' ?s'" using assms(1) len by (auto simp: plane_ready_def)
qed

lemma run_ready:
  assumes "plane_ready c bs s" "decode_envelope (fc_json c) bs = Ok e" "operation (sv_state e) = (Ok x, st)"
    "encode_envelope (fc_json c) \<lparr> sv_format_version = STATE_FORMAT_VERSION, sv_state = st \<rparr> = Ok bs'"
  obtains s' where "fc_run c operation s = (Ok x, s')" "plane_ready c bs' s'"
proof -
  obtain s1 where 1: "fc_lock_exclusive c s = (Ok (), s1)" "plane_ready c bs s1" by (rule lock_ready [OF assms(1)])
  obtain s2 where 2: "fc_save_control c st s1 = (Ok (), s2)" "plane_ready c bs' s2" by (rule save_ready [OF 1(2) assms(4)])
  have "fc_run c operation s = (Ok x, s2)"
    using 1 2 load_ready [OF 1(2) assms(2)] assms(3) by (simp add: fc_run_def ebind_eval)
  then show thesis using that 2(2) by blast
qed

section \<open>An example\<close>

text \<open>Two Cores of one cluster and a file that holds the initial state; \<open>example_plane\<close> writes each of the three states
  that occur as one byte.\<close>

definition example_core :: "string \<Rightarrow> core_identity" where
  "example_core n = \<lparr> ci_tenant_id = ''acme'', ci_cluster_id = ''eu'', ci_core_id = n, ci_instance_id = n, ci_kind = ''core'',
     ci_protocol_version = 1, ci_runtime = \<lparr> ri_app_id = ''app'', ri_app_family = ''app'', ri_sync_group = ''app'',
       ri_runtime_contract = 1, ri_node_id = n \<rparr> \<rparr>"

definition example_states :: "cp_state list" where
  "example_states = (let s1 = snd (cp_acquire_or_renew (example_core ''a'') ''db'' 1000 5000 cp_state_default)
     in [cp_state_default, s1, snd (cp_acquire_or_renew (example_core ''b'') ''db'' 1000 7000 s1)])"

definition example_envelope :: "nat \<Rightarrow> state_envelope" where
  "example_envelope n = \<lparr> sv_format_version = STATE_FORMAT_VERSION, sv_state = example_states ! n \<rparr>"

definition example_plane :: file_control_plane where
  "example_plane = \<lparr> fc_root = [], fc_retention_ms = 1000, fc_json =
     \<lparr> cj_to = (\<lambda>e. if e = example_envelope 0 then Ok [0] else if e = example_envelope 1 then Ok [1]
          else if e = example_envelope 2 then Ok [2] else Err ''unknown''),
       cj_from = (\<lambda>bs. if bs = [0] then Some (example_envelope 0) else if bs = [1] then Some (example_envelope 1)
          else if bs = [2] then Some (example_envelope 2) else None) \<rparr> \<rparr>"

definition example_files :: fs where
  "example_files = \<lparr> fs_nodes = [[STATE_FILE] \<mapsto> FileNode [0]], fs_faults = [], fs_temp_counter = 0, fs_pid = 1 \<rparr>"

lemma example_inv: "fc_inv example_plane example_files"
proof -
  have "json_ok (fc_json example_plane)" by (simp add: json_ok_def example_plane_def split: if_splits)
  moreover have "fc_state example_plane example_files = cp_state_default" by code_simp
  ultimately show ?thesis by (simp add: fc_inv_def cp_inv_def cp_state_default_def slot_at_def slot_default_def)
qed

definition example_leader :: "string \<Rightarrow> u64 \<Rightarrow> u64 \<Rightarrow> service_leader_lease" where
  "example_leader n e now = \<lparr> sll_service_id = ''db'', sll_tenant_id = ''acme'', sll_cluster_id = ''eu'', sll_holder_core_id = n, sll_epoch = e,
     sll_acquired_at_ms = now, sll_expires_at_ms = now + 1000 \<rparr>"

lemma example_states_eval:
  "cp_acquire_or_renew (example_core ''a'') ''db'' 1000 5000 (example_states ! 0) = (Ok (example_leader ''a'' 1 5000), example_states ! 1)"
  "cp_acquire_or_renew (example_core ''b'') ''db'' 1000 7000 (example_states ! 1) = (Ok (example_leader ''b'' 2 7000), example_states ! 2)"
  by code_simp+

lemma example_distinct:
  "example_envelope 1 \<noteq> example_envelope 0" "example_envelope 2 \<noteq> example_envelope 0" "example_envelope 2 \<noteq> example_envelope 1"
  by code_simp+

lemma example_codec:
  "decode_envelope (fc_json example_plane) [0] = Ok (example_envelope 0)" "decode_envelope (fc_json example_plane) [1] = Ok (example_envelope 1)"
  "encode_envelope (fc_json example_plane) (example_envelope 1) = Ok [1]" "encode_envelope (fc_json example_plane) (example_envelope 2) = Ok [2]"
  using example_distinct
  by (simp_all add: decode_envelope_def encode_envelope_def example_plane_def MAX_CONTROL_PLANE_STATE_BYTES_def)
    (simp_all add: example_envelope_def)

lemma example_ready: "plane_ready example_plane [0] example_files"
  by (auto simp: plane_ready_def example_plane_def example_files_def MAX_CONTROL_PLANE_STATE_BYTES_def fc_state_path_def fc_lock_path_def
      STATE_FILE_def LOCK_FILE_def suffix_def)

lemma example_acquire:
  obtains s1 s2 where
    "fc_acquire_or_renew example_plane 5000 (example_core ''a'') ''db'' 1000 example_files = (Ok (example_leader ''a'' 1 5000), s1)"
    "fc_acquire_or_renew example_plane 7000 (example_core ''b'') ''db'' 1000 s1 = (Ok (example_leader ''b'' 2 7000), s2)"
proof -
  note e = example_states_eval example_codec
  obtain s1 where 1: "fc_acquire_or_renew example_plane 5000 (example_core ''a'') ''db'' 1000 example_files = (Ok (example_leader ''a'' 1 5000), s1)"
      "plane_ready example_plane [1] s1"
    unfolding fc_acquire_or_renew_def
    by (rule run_ready [OF example_ready e(3), where operation = "cp_acquire_or_renew (example_core ''a'') ''db'' 1000 5000" and x = "example_leader ''a'' 1 5000" and st = "example_states ! 1"])
      (use e(1,5) in \<open>simp_all add: example_envelope_def\<close>)
  obtain s2 where "fc_acquire_or_renew example_plane 7000 (example_core ''b'') ''db'' 1000 s1 = (Ok (example_leader ''b'' 2 7000), s2)"
    unfolding fc_acquire_or_renew_def
    by (rule run_ready [OF 1(2) e(4), where operation = "cp_acquire_or_renew (example_core ''b'') ''db'' 1000 7000" and x = "example_leader ''b'' 2 7000" and st = "example_states ! 2"])
      (use e(2,6) in \<open>simp_all add: example_envelope_def\<close>)
  then show thesis using that 1 by blast
qed

lemma file_control_plane_refines_memory_witness:
  "\<exists>s1. fc_acquire_or_renew example_plane 5000 (example_core ''a'') ''db'' 1000 example_files = (Ok (example_leader ''a'' 1 5000), s1) \<and>
     cp_acquire_or_renew (example_core ''a'') ''db'' 1000 5000 (fc_state example_plane example_files) =
       (Ok (example_leader ''a'' 1 5000), fc_state example_plane s1)"
proof -
  obtain s1 where a: "fc_acquire_or_renew example_plane 5000 (example_core ''a'') ''db'' 1000 example_files = (Ok (example_leader ''a'' 1 5000), s1)"
    using example_acquire by blast
  have "json_ok (fc_json example_plane)" using example_inv by (simp add: fc_inv_def)
  from file_control_plane_refines_memory [OF this a [unfolded fc_acquire_or_renew_def]] a show ?thesis by blast
qed

lemma service_leadership_fenced_witness:
  "\<exists>s1 s2 g. fc_acquire_or_renew example_plane 5000 (example_core ''a'') ''db'' 1000 example_files = (Ok (example_leader ''a'' 1 5000), s1) \<and>
     fc_acquire_or_renew example_plane 7000 (example_core ''b'') ''db'' 1000 s1 = (Ok (example_leader ''b'' 2 7000), s2) \<and>
     set_service_lease ''db'' (Some (example_leader ''b'' 2 7000)) [] = (Ok (), g) \<and>
     check_service_write_permission g ''db'' ''acme'' ''eu'' ''a'' None 7100 \<noteq> LG_Allowed"
proof -
  have ids: "identity_ok (example_core ''a'')"
    by code_simp
  obtain s1 s2 where a: "fc_acquire_or_renew example_plane 5000 (example_core ''a'') ''db'' 1000 example_files = (Ok (example_leader ''a'' 1 5000), s1)"
    and b: "fc_acquire_or_renew example_plane 7000 (example_core ''b'') ''db'' 1000 s1 = (Ok (example_leader ''b'' 2 7000), s2)"
    by (rule example_acquire)
  have kept: "fc_run_keeps example_plane [] s1" by simp
  have b': "fc_acquire_or_renew example_plane 7000 (example_core ''b'') ''db'' 1000 (fc_run_ops example_plane [] s1) =
      (Ok (example_leader ''b'' 2 7000), s2)" using b by (simp add: fc_run_ops_def)
  have same: "ci_tenant_id (example_core ''b'') = ci_tenant_id (example_core ''a'')" "ci_cluster_id (example_core ''b'') = ci_cluster_id (example_core ''a'')"
    by (simp_all add: example_core_def)
  have g: "set_service_lease ''db'' (Some (example_leader ''b'' 2 7000)) [] = (Ok (), [(''db'', example_leader ''b'' 2 7000)])"
    by (simp add: set_service_lease_def example_leader_def)
  have h: "sll_holder_core_id (example_leader n e now) = n" for n e now by (simp add: example_leader_def)
  have "check_service_write_permission [(''db'', example_leader ''b'' 2 7000)] ''db'' ''acme'' ''eu'' ''a'' None 7100 \<noteq> LG_Allowed"
    using service_leadership_fenced [OF example_inv ids same a kept b', THEN conjunct2, THEN conjunct2, rule_format, of "[]"] g by (simp add: h)
  then show ?thesis using a b g by blast
qed

end
