(* ===== verification/Placement.thy ===== *)
theory Placement
  imports Contracts "HOL-Library.Multiset"
begin

text \<open>
  Placement of capability invocations (\<open>appcore-scheduler\<close>, \<open>placement.rs\<close>): hard constraints with the first one that
  fails as the reason, a score for what is left, and the choice of the best candidate. Scores are \<open>i64\<close> in the source;
  \<open>placement_score_fits\<close> shows that the integers here stay in that range.
\<close>

record resource_request =
  rr_cpu_cores :: "u16 option"
  rr_memory_bytes :: "u64 option"
  rr_gpu_count :: u16

record placement_request =
  pq_capability :: string
  pq_service_id :: string
  pq_runtime_mode :: runtime_mode
  pq_requires_write :: bool
  pq_requires_leader :: bool
  pq_workload :: workload_class
  pq_affinity :: "string list"
  pq_resources :: resource_request

record placement_candidate =
  pc_core_id :: string
  pc_runtime_mode :: runtime_mode
  pc_operational_mode :: runtime_operational_mode
  pc_health :: runtime_health_status
  pc_current_load :: u32
  pc_leader_services :: "string list"
  pc_profile :: core_profile

datatype placement_rejection =
  CapabilityUnavailable | RuntimeModeMismatch | PR_Unhealthy | OperationalMode | PR_Unavailable | LeadershipRequired
  | AtCapacity | AffinityMismatch | InsufficientCpu | InsufficientMemory | InsufficientGpu

record placement_evaluation =
  pe_core_id :: string
  pe_eligible :: bool
  pe_score :: int
  pe_rejection :: "placement_rejection option"

record placement_decision =
  pd_selected_core_id :: "string option"
  pd_evaluations :: "placement_evaluation list"

text \<open>\<open>is_some_and\<close> over \<open>is_none_or\<close>: a known requirement that the profile does not cover.\<close>

definition lacks :: "'a::linorder option \<Rightarrow> 'a option \<Rightarrow> bool" where
  "lacks required available \<longleftrightarrow> (case required of None \<Rightarrow> False | Some r \<Rightarrow> (case available of None \<Rightarrow> True | Some a \<Rightarrow> a < r))"

definition rejection_reason :: "placement_request \<Rightarrow> placement_candidate \<Rightarrow> placement_rejection option" where
  "rejection_reason q c =
     (let profile = pc_profile c; scheduling = cpf_scheduling profile; resources = cpf_resources profile in
      if pq_capability q \<notin> set (cpf_capabilities profile) then Some CapabilityUnavailable
      else if pc_runtime_mode c \<noteq> pq_runtime_mode q then Some RuntimeModeMismatch
      else if pc_health c = RH_Unhealthy then Some PR_Unhealthy
      else if \<not> allows_local_queries (pc_operational_mode c) \<or> pq_requires_write q \<and> \<not> allows_writes (pc_operational_mode c)
      then Some OperationalMode
      else if \<not> sp_available scheduling then Some PR_Unavailable
      else if pq_requires_leader q \<and> pq_service_id q \<notin> set (pc_leader_services c) then Some LeadershipRequired
      else if sp_max_concurrency scheduling \<le> pc_current_load c then Some AtCapacity
      else if \<not> set (pq_affinity q) \<subseteq> set (sp_affinity scheduling) then Some AffinityMismatch
      else if lacks (rr_cpu_cores (pq_resources q)) (rp_cpu_cores resources) then Some InsufficientCpu
      else if lacks (rr_memory_bytes (pq_resources q)) (rp_memory_bytes resources) then Some InsufficientMemory
      else if rp_gpu_count resources < rr_gpu_count (pq_resources q) then Some InsufficientGpu
      else None)"

definition placement_score :: "placement_request \<Rightarrow> placement_candidate \<Rightarrow> int" where
  "placement_score q c =
     (let scheduling = cpf_scheduling (pc_profile c);
          health_score = (case pc_health c of RH_Healthy \<Rightarrow> 2000 | RH_Degraded \<Rightarrow> 250 | RH_Unhealthy \<Rightarrow> 0);
          workload_score = (if sp_workload scheduling = pq_workload q then 1000 else 0);
          affinity_score = (if int (length (pq_affinity q)) < 2 ^ 63 then int (length (pq_affinity q)) else (2 ^ 63 - 1) div 100) * 100;
          spare_capacity = sat_sub (sp_max_concurrency scheduling) (pc_current_load c)
      in sint (sp_priority scheduling) * 10000 + uint (sp_weight scheduling) * 100 + uint spare_capacity * 10
         + health_score + workload_score + affinity_score)"

definition evaluate_candidate :: "placement_request \<Rightarrow> placement_candidate \<Rightarrow> placement_evaluation" where
  "evaluate_candidate q c = (case rejection_reason q c of
     Some r \<Rightarrow> \<lparr> pe_core_id = pc_core_id c, pe_eligible = False, pe_score = - (2 ^ 63), pe_rejection = Some r \<rparr>
   | None \<Rightarrow> \<lparr> pe_core_id = pc_core_id c, pe_eligible = True, pe_score = placement_score q c, pe_rejection = None \<rparr>)"

text \<open>\<open>Iterator::max_by\<close> keeps the last of several maxima.\<close>

fun max_by :: "('a \<Rightarrow> 'a \<Rightarrow> bool) \<Rightarrow> 'a list \<Rightarrow> 'a option" where
  "max_by gt [] = None"
| "max_by gt (x # xs) = Some (fold (\<lambda>y best. if gt best y then best else y) xs x)"

definition better :: "placement_evaluation \<Rightarrow> placement_evaluation \<Rightarrow> bool" where
  "better left right \<longleftrightarrow> pe_score right < pe_score left \<or> pe_score left = pe_score right \<and> pe_core_id left < pe_core_id right"

definition placement_select :: "placement_request \<Rightarrow> placement_candidate list \<Rightarrow> placement_decision" where
  "placement_select q candidates =
     (let evaluations = sort_key pe_core_id (map (evaluate_candidate q) candidates);
          selected = map_option pe_core_id (max_by better (filter pe_eligible evaluations))
      in \<lparr> pd_selected_core_id = selected, pd_evaluations = evaluations \<rparr>)"

section \<open>Properties\<close>

lemma placement_score_fits:
  assumes "length (pq_affinity q) < 2 ^ 40"
  shows "- (2 ^ 63) < placement_score q c" "placement_score q c < 2 ^ 63"
proof -
  let ?s = "cpf_scheduling (pc_profile c)"
  have p: "- (2 ^ 15) \<le> sint (sp_priority ?s)" "sint (sp_priority ?s) < 2 ^ 15"
    using sint_ge [of "sp_priority ?s"] sint_lt [of "sp_priority ?s"] by simp_all
  have w: "0 \<le> uint (sp_weight ?s)" "uint (sp_weight ?s) < 2 ^ 16" using uint_lt2p [of "sp_weight ?s"] by simp_all
  have l: "0 \<le> uint (sat_sub (sp_max_concurrency ?s) (pc_current_load c))" "uint (sat_sub (sp_max_concurrency ?s) (pc_current_load c)) < 2 ^ 32"
    using uint_lt2p [of "sat_sub (sp_max_concurrency ?s) (pc_current_load c)"] by simp_all
  have "int (length (pq_affinity q)) < int (2 ^ 40)" using assms by (simp only: of_nat_less_iff)
  then have a: "int (length (pq_affinity q)) < 2 ^ 40" by simp
  define h :: int where "h = (case pc_health c of RH_Healthy \<Rightarrow> 2000 | RH_Degraded \<Rightarrow> 250 | RH_Unhealthy \<Rightarrow> 0)"
  define k :: int where "k = (if sp_workload ?s = pq_workload q then 1000 else 0)"
  have hk: "0 \<le> h" "h \<le> 2000" "0 \<le> k" "k \<le> 1000" by (auto simp: h_def k_def split: runtime_health_status.split)
  have "placement_score q c = sint (sp_priority ?s) * 10000 + uint (sp_weight ?s) * 100 +
      uint (sat_sub (sp_max_concurrency ?s) (pc_current_load c)) * 10 + h + k + int (length (pq_affinity q)) * 100"
    using a by (simp add: placement_score_def Let_def h_def k_def)
  moreover have e: "(2 :: int) ^ 15 = 32768" "(2 :: int) ^ 16 = 65536" "(2 :: int) ^ 32 = 4294967296" "(2 :: int) ^ 40 = 1099511627776"
    "(2 :: int) ^ 63 = 9223372036854775808" by simp_all
  ultimately show "- (2 ^ 63) < placement_score q c" "placement_score q c < 2 ^ 63"
    using p w l a hk unfolding e by linarith+
qed

lemma not_better_iff:
  "\<not> better a b \<longleftrightarrow> pe_score a < pe_score b \<or> pe_score a = pe_score b \<and> pe_core_id b \<le> pe_core_id a"
  by (auto simp: better_def)

lemma not_better_trans: "\<not> better a b \<Longrightarrow> \<not> better b c \<Longrightarrow> \<not> better a c"
  unfolding not_better_iff by (elim disjE conjE) (force intro: less_trans order_trans)+

lemma max_by_fold:
  "fold (\<lambda>y best. if better best y then best else y) xs x \<in> set (x # xs) \<and>
   (\<forall>y\<in>set (x # xs). \<not> better y (fold (\<lambda>y best. if better best y then best else y) xs x))"
proof (induction xs arbitrary: x)
  case (Cons y ys)
  let ?b = "if better x y then x else y"
  have "\<not> better x ?b" "\<not> better y ?b" by (auto simp: better_def)
  then have "\<not> better x (fold (\<lambda>y best. if better best y then best else y) ys ?b)"
      "\<not> better y (fold (\<lambda>y best. if better best y then best else y) ys ?b)"
    using Cons.IH [of ?b] not_better_trans by (meson list.set_intros(1))+
  then show ?case using Cons.IH [of ?b] by (auto split: if_splits)
qed (simp add: better_def)

lemma max_by_None [simp]: "max_by gt xs = None \<longleftrightarrow> xs = []"
  by (cases xs) auto

lemma max_by_SomeD: "max_by better xs = Some r \<Longrightarrow> r \<in> set xs \<and> (\<forall>y\<in>set xs. \<not> better y r)"
  using max_by_fold by (cases xs) fastforce+

lemma eligible_iff: "pe_eligible (evaluate_candidate q c) \<longleftrightarrow> rejection_reason q c = None"
  by (simp add: evaluate_candidate_def split: option.split)

lemma evaluate_core [simp]: "pe_core_id (evaluate_candidate q c) = pc_core_id c"
  by (simp add: evaluate_candidate_def split: option.split)

lemma evaluate_score: "rejection_reason q c = None \<Longrightarrow> pe_score (evaluate_candidate q c) = placement_score q c"
  by (simp add: evaluate_candidate_def)

text \<open>
  The hard constraints on their own, without an order: what a Core must offer to serve the request, and what each
  rejection says is missing.
\<close>

definition covers :: "'a::linorder option \<Rightarrow> 'a option \<Rightarrow> bool" where
  "covers available required \<longleftrightarrow> (case (required, available) of
     (None, _) \<Rightarrow> True | (Some r, Some a) \<Rightarrow> r \<le> a | (Some r, None) \<Rightarrow> False)"

definition meets_constraints :: "placement_request \<Rightarrow> placement_candidate \<Rightarrow> bool" where
  "meets_constraints q c \<longleftrightarrow>
     pq_capability q \<in> set (cpf_capabilities (pc_profile c)) \<and> pc_runtime_mode c = pq_runtime_mode q \<and>
     pc_health c \<in> {RH_Healthy, RH_Degraded} \<and>
     pc_operational_mode c \<in> (if pq_requires_write q then {Mode_ReadWrite} else {Mode_ReadOnly, Mode_ReadWrite, Mode_Degraded, Mode_Isolated}) \<and>
     sp_available (cpf_scheduling (pc_profile c)) \<and>
     (pq_requires_leader q \<longrightarrow> pq_service_id q \<in> set (pc_leader_services c)) \<and>
     pc_current_load c < sp_max_concurrency (cpf_scheduling (pc_profile c)) \<and>
     set (pq_affinity q) \<subseteq> set (sp_affinity (cpf_scheduling (pc_profile c))) \<and>
     covers (rp_cpu_cores (cpf_resources (pc_profile c))) (rr_cpu_cores (pq_resources q)) \<and>
     covers (rp_memory_bytes (cpf_resources (pc_profile c))) (rr_memory_bytes (pq_resources q)) \<and>
     rr_gpu_count (pq_resources q) \<le> rp_gpu_count (cpf_resources (pc_profile c))"

fun violates :: "placement_request \<Rightarrow> placement_candidate \<Rightarrow> placement_rejection \<Rightarrow> bool" where
  "violates q c CapabilityUnavailable = (pq_capability q \<notin> set (cpf_capabilities (pc_profile c)))"
| "violates q c RuntimeModeMismatch = (pc_runtime_mode c \<noteq> pq_runtime_mode q)"
| "violates q c PR_Unhealthy = (pc_health c = RH_Unhealthy)"
| "violates q c OperationalMode = (pc_operational_mode c \<notin> (if pq_requires_write q then {Mode_ReadWrite}
     else {Mode_ReadOnly, Mode_ReadWrite, Mode_Degraded, Mode_Isolated}))"
| "violates q c PR_Unavailable = (\<not> sp_available (cpf_scheduling (pc_profile c)))"
| "violates q c LeadershipRequired = (pq_requires_leader q \<and> pq_service_id q \<notin> set (pc_leader_services c))"
| "violates q c AtCapacity = (\<not> pc_current_load c < sp_max_concurrency (cpf_scheduling (pc_profile c)))"
| "violates q c AffinityMismatch = (\<not> set (pq_affinity q) \<subseteq> set (sp_affinity (cpf_scheduling (pc_profile c))))"
| "violates q c InsufficientCpu = (\<not> covers (rp_cpu_cores (cpf_resources (pc_profile c))) (rr_cpu_cores (pq_resources q)))"
| "violates q c InsufficientMemory = (\<not> covers (rp_memory_bytes (cpf_resources (pc_profile c))) (rr_memory_bytes (pq_resources q)))"
| "violates q c InsufficientGpu = (\<not> rr_gpu_count (pq_resources q) \<le> rp_gpu_count (cpf_resources (pc_profile c)))"

lemma lacks_covers: "lacks required available \<longleftrightarrow> \<not> covers available required"
  by (auto simp: lacks_def covers_def split: option.splits)

lemma mode_serves:
  "\<not> allows_local_queries m \<or> w \<and> \<not> allows_writes m \<longleftrightarrow>
     m \<notin> (if w then {Mode_ReadWrite} else {Mode_ReadOnly, Mode_ReadWrite, Mode_Degraded, Mode_Isolated})"
  by (cases m) (auto simp: allows_local_queries_def allows_writes_def)

lemma rejection_reason_None_iff: "rejection_reason q c = None \<longleftrightarrow> meets_constraints q c"
proof -
  have "pc_health c \<in> {RH_Healthy, RH_Degraded} \<longleftrightarrow> pc_health c \<noteq> RH_Unhealthy" by (cases "pc_health c") auto
  then show ?thesis
    unfolding rejection_reason_def Let_def meets_constraints_def mode_serves lacks_covers
    by (simp add: not_le not_less del: insert_iff)
qed

lemma rejection_reason_violated: "rejection_reason q c = Some r \<Longrightarrow> violates q c r"
  unfolding rejection_reason_def Let_def mode_serves lacks_covers
  by (auto simp: not_le not_less simp del: insert_iff split: if_splits)

text \<open>
  An order on candidates that does not add up points: one is as good as another if it is in no respect that the request
  leaves open worse. The score respects it.
\<close>

definition health_rank :: "runtime_health_status \<Rightarrow> nat" where
  "health_rank h = (case h of RH_Healthy \<Rightarrow> 2 | RH_Degraded \<Rightarrow> 1 | RH_Unhealthy \<Rightarrow> 0)"

definition spare_capacity :: "placement_candidate \<Rightarrow> u32" where
  "spare_capacity c = sat_sub (sp_max_concurrency (cpf_scheduling (pc_profile c))) (pc_current_load c)"

definition as_good_as :: "placement_request \<Rightarrow> placement_candidate \<Rightarrow> placement_candidate \<Rightarrow> bool" where
  "as_good_as q c c' \<longleftrightarrow> health_rank (pc_health c') \<le> health_rank (pc_health c) \<and>
     (sp_workload (cpf_scheduling (pc_profile c')) = pq_workload q \<longrightarrow> sp_workload (cpf_scheduling (pc_profile c)) = pq_workload q) \<and>
     sint (sp_priority (cpf_scheduling (pc_profile c'))) \<le> sint (sp_priority (cpf_scheduling (pc_profile c))) \<and>
     sp_weight (cpf_scheduling (pc_profile c')) \<le> sp_weight (cpf_scheduling (pc_profile c)) \<and> spare_capacity c' \<le> spare_capacity c"

lemma score_respects:
  assumes "as_good_as q c c'"
  shows "placement_score q c' \<le> placement_score q c" "\<not> as_good_as q c' c \<Longrightarrow> placement_score q c' < placement_score q c"
proof -
  let ?h = "\<lambda>c. case pc_health c of RH_Healthy \<Rightarrow> 2000 | RH_Degraded \<Rightarrow> 250 | RH_Unhealthy \<Rightarrow> (0 :: int)"
  let ?w = "\<lambda>c. if sp_workload (cpf_scheduling (pc_profile c)) = pq_workload q then 1000 else (0 :: int)"
  let ?p = "\<lambda>c. sint (sp_priority (cpf_scheduling (pc_profile c)))" let ?g = "\<lambda>c. uint (sp_weight (cpf_scheduling (pc_profile c)))"
  let ?s = "\<lambda>c. uint (spare_capacity c)"
  obtain k where "\<And>c. placement_score q c = ?p c * 10000 + ?g c * 100 + ?s c * 10 + ?h c + ?w c + k"
    by (simp add: placement_score_def Let_def spare_capacity_def)
  note score = this
  have h: "(?h c' \<le> ?h c) = (health_rank (pc_health c') \<le> health_rank (pc_health c))" for c c'
    by (cases "pc_health c"; cases "pc_health c'") (simp_all add: health_rank_def)
  have w: "(?w c' \<le> ?w c) = (sp_workload (cpf_scheduling (pc_profile c')) = pq_workload q \<longrightarrow> sp_workload (cpf_scheduling (pc_profile c)) = pq_workload q)" for c c'
    by simp
  have good: "as_good_as q c c' \<longleftrightarrow> ?h c' \<le> ?h c \<and> ?w c' \<le> ?w c \<and> ?p c' \<le> ?p c \<and> ?g c' \<le> ?g c \<and> ?s c' \<le> ?s c" for c c'
    unfolding as_good_as_def h w by (simp add: word_le_def)
  show "placement_score q c' \<le> placement_score q c" "\<not> as_good_as q c' c \<Longrightarrow> placement_score q c' < placement_score q c"
    using assms unfolding good score by linarith+
qed

lemma select_Some:
  assumes "pd_selected_core_id (placement_select q cs) = Some i"
  shows "\<exists>c\<in>set cs. pc_core_id c = i \<and> rejection_reason q c = None \<and>
    (\<forall>c'\<in>set cs. rejection_reason q c' = None \<longrightarrow>
      placement_score q c' < placement_score q c \<or> placement_score q c' = placement_score q c \<and> i \<le> pc_core_id c')"
proof -
  obtain r where r: "max_by better (filter pe_eligible (sort_key pe_core_id (map (evaluate_candidate q) cs))) = Some r" "pe_core_id r = i"
    using assms by (auto simp: placement_select_def Let_def)
  note m = max_by_SomeD [OF r(1)]
  then obtain c where c: "c \<in> set cs" "r = evaluate_candidate q c" "rejection_reason q c = None" by (auto simp: eligible_iff)
  have "placement_score q c' < placement_score q c \<or> placement_score q c' = placement_score q c \<and> i \<le> pc_core_id c'"
    if "c' \<in> set cs" "rejection_reason q c' = None" for c'
  proof -
    have "\<not> better (evaluate_candidate q c') r" using m that by (auto simp: eligible_iff)
    then show ?thesis using c r(2) evaluate_score [OF that(2)] evaluate_score [OF c(3)] by (auto simp: better_def not_less)
  qed
  then show ?thesis using c r(2) by auto
qed

lemma select_None_iff: "pd_selected_core_id (placement_select q cs) = None \<longleftrightarrow> (\<forall>c\<in>set cs. rejection_reason q c \<noteq> None)"
  by (auto simp: placement_select_def Let_def filter_empty_conv eligible_iff)

lemma select_perm:
  assumes "set cs' = set cs"
  shows "pd_selected_core_id (placement_select q cs') = pd_selected_core_id (placement_select q cs)"
proof (cases "pd_selected_core_id (placement_select q cs)")
  case None
  then show ?thesis using assms select_None_iff by metis
next
  case (Some i)
  then have "pd_selected_core_id (placement_select q cs') \<noteq> None" using assms select_None_iff by (metis option.distinct(1))
  then obtain j where j: "pd_selected_core_id (placement_select q cs') = Some j" by blast
  from select_Some [OF Some] select_Some [OF j] assms have "i = j" by fastforce
  with Some j show ?thesis by simp
qed

text \<open>C21. Placement is explainable and deterministic: no Core is selected exactly if none meets all the hard constraints
  (capability, runtime mode, health, operational mode, availability, leadership, spare capacity, affinity, CPU, memory and GPU);
  a selected Core meets all of them, no other Core that does scores higher, ties going to the smallest Core id, and none that
  does is as good in health, workload class, priority, weight and spare capacity and better in one of them; the choice
  depends only on which candidates there are, not on their order; the decision lists the evaluation of each candidate, in Core
  order; a candidate is eligible in it exactly if it meets the constraints, with its score, and otherwise the reason given is
  one it violates.\<close>

theorem placement_selects_best:
  "(pd_selected_core_id (placement_select q cs) = None \<longleftrightarrow> (\<forall>c\<in>set cs. \<not> meets_constraints q c)) \<and>
   (\<forall>i. pd_selected_core_id (placement_select q cs) = Some i \<longrightarrow> (\<exists>c\<in>set cs. pc_core_id c = i \<and> meets_constraints q c \<and>
      (\<forall>c'\<in>set cs. meets_constraints q c' \<longrightarrow>
        (placement_score q c' < placement_score q c \<or> placement_score q c' = placement_score q c \<and> i \<le> pc_core_id c') \<and>
        (as_good_as q c' c \<longrightarrow> as_good_as q c c')))) \<and>
   (\<forall>cs'. set cs' = set cs \<longrightarrow> pd_selected_core_id (placement_select q cs') = pd_selected_core_id (placement_select q cs)) \<and>
   sorted (map pe_core_id (pd_evaluations (placement_select q cs))) \<and>
   mset (pd_evaluations (placement_select q cs)) = image_mset (evaluate_candidate q) (mset cs) \<and>
   (\<forall>c\<in>set cs. pe_core_id (evaluate_candidate q c) = pc_core_id c \<and> (pe_eligible (evaluate_candidate q c) \<longleftrightarrow> meets_constraints q c) \<and>
      (case pe_rejection (evaluate_candidate q c) of
         None \<Rightarrow> meets_constraints q c \<and> pe_score (evaluate_candidate q c) = placement_score q c | Some r \<Rightarrow> violates q c r))"
proof (intro conjI allI impI)
  show "\<exists>c\<in>set cs. pc_core_id c = i \<and> meets_constraints q c \<and>
      (\<forall>c'\<in>set cs. meets_constraints q c' \<longrightarrow>
        (placement_score q c' < placement_score q c \<or> placement_score q c' = placement_score q c \<and> i \<le> pc_core_id c') \<and>
        (as_good_as q c' c \<longrightarrow> as_good_as q c c'))"
    if sel: "pd_selected_core_id (placement_select q cs) = Some i" for i
  proof -
    obtain c where c: "c \<in> set cs" "pc_core_id c = i" "meets_constraints q c" "\<forall>c'\<in>set cs. meets_constraints q c' \<longrightarrow>
        placement_score q c' < placement_score q c \<or> placement_score q c' = placement_score q c \<and> i \<le> pc_core_id c'"
      using select_Some [OF sel] unfolding rejection_reason_None_iff by blast
    have "as_good_as q c c'" if "c' \<in> set cs" "meets_constraints q c'" "as_good_as q c' c" for c'
      using c(4) that score_respects(2) [OF that(3)] by fastforce
    with c show ?thesis by blast
  qed
  show "(pd_selected_core_id (placement_select q cs) = None) = (\<forall>c\<in>set cs. \<not> meets_constraints q c)"
    using select_None_iff by (simp add: rejection_reason_None_iff)
  show "pd_selected_core_id (placement_select q cs') = pd_selected_core_id (placement_select q cs)" if "set cs' = set cs" for cs'
    by (rule select_perm [OF that])
  show "\<forall>c\<in>set cs. pe_core_id (evaluate_candidate q c) = pc_core_id c \<and> (pe_eligible (evaluate_candidate q c) \<longleftrightarrow> meets_constraints q c) \<and>
      (case pe_rejection (evaluate_candidate q c) of
         None \<Rightarrow> meets_constraints q c \<and> pe_score (evaluate_candidate q c) = placement_score q c | Some r \<Rightarrow> violates q c r)"
    using rejection_reason_violated
    by (auto simp: evaluate_candidate_def rejection_reason_None_iff [symmetric] split: option.split)
qed (simp_all add: placement_select_def Let_def)

definition example_candidate :: "string \<Rightarrow> u16 \<Rightarrow> u32 \<Rightarrow> placement_candidate" where
  "example_candidate core weight load = \<lparr> pc_core_id = core, pc_runtime_mode = RM_Cluster, pc_operational_mode = Mode_ReadWrite,
     pc_health = RH_Healthy, pc_current_load = load, pc_leader_services = [''doc''],
     pc_profile = \<lparr> cpf_role = CR_Compute, cpf_service_id = ''doc'', cpf_capabilities = [''doc.extract''],
       cpf_leadership = \<lparr> lr_service_id = ''doc'', lr_mode = LM_Required, lr_lease_duration_ms = 30000 \<rparr>,
       cpf_resources = \<lparr> rp_cpu_cores = Some 8, rp_memory_bytes = Some 16000, rp_gpu_count = 1 \<rparr>,
       cpf_scheduling = \<lparr> sp_weight = weight, sp_priority = 1, sp_max_concurrency = 8, sp_available = True,
         sp_workload = WC_Compute, sp_affinity = [''region.local''] \<rparr> \<rparr> \<rparr>"

definition example_request :: placement_request where
  "example_request = \<lparr> pq_capability = ''doc.extract'', pq_service_id = ''doc'', pq_runtime_mode = RM_Cluster, pq_requires_write = True,
     pq_requires_leader = True, pq_workload = WC_Compute, pq_affinity = [''region.local''],
     pq_resources = \<lparr> rr_cpu_cores = Some 4, rr_memory_bytes = Some 8000, rr_gpu_count = 1 \<rparr> \<rparr>"

lemma placement_selects_best_witness:
  "let cs = [example_candidate ''core-a'' 10 7, example_candidate ''core-b'' 20 1] in
     pd_selected_core_id (placement_select example_request cs) = Some ''core-b'' \<and>
     placement_score example_request (cs ! 0) < placement_score example_request (cs ! 1) \<and>
     pd_selected_core_id (placement_select example_request (rev cs)) = Some ''core-b''"
proof -
  let ?cs = "[example_candidate ''core-a'' 10 7, example_candidate ''core-b'' 20 1]"
  have s: "pd_selected_core_id (placement_select example_request ?cs) = Some ''core-b''" by code_simp
  have p: "placement_score example_request (?cs ! 0) < placement_score example_request (?cs ! 1)" by code_simp
  have "\<forall>cs'. set cs' = set ?cs \<longrightarrow> pd_selected_core_id (placement_select example_request cs') = pd_selected_core_id (placement_select example_request ?cs)"
    using placement_selects_best [of example_request ?cs] by blast
  then have "pd_selected_core_id (placement_select example_request (rev ?cs)) = Some ''core-b''" using s by (metis set_rev)
  then show ?thesis using s p by (simp add: Let_def)
qed

end
