(* ===== verification/Redaction.thy ===== *)
theory Redaction
  imports Identifiers Wire_Bytes "HOL-Library.Code_Target_Nat"
begin

text \<open>
  Redaction of operational text (\<open>appcore-core\<close>, \<open>redaction.rs\<close>). Strings are their UTF-8 bytes. The marker loop advances a
  cursor through the text and is a partial function, so that it returns is something to prove.
\<close>

definition REDACTED :: string where "REDACTED = ''[REDACTED]''"
definition TRUNCATED :: string where "TRUNCATED = ''[TRUNCATED]''"
definition MAX_OPERATIONAL_TEXT_BYTES :: nat where "MAX_OPERATIONAL_TEXT_BYTES = 8192"

text \<open>The length of the white-space character or other delimiter that starts a text, if one does.\<close>

definition secret_delimiter_at :: "string \<Rightarrow> bool" where
  "secret_delimiter_at v = (case map byte_of (take 3 v) of
     [] \<Rightarrow> False
   | b # bs \<Rightarrow> 9 \<le> b \<and> b \<le> 13 \<or> b = 32 \<or> hd v \<in> {CHR '','', CHR '';'', CHR ''&'', CHR 0x22, CHR 0x27} \<or>
       (case bs of b1 # bs1 \<Rightarrow> b = 194 \<and> (b1 = 133 \<or> b1 = 160) \<or>
          (case bs1 of b2 # _ \<Rightarrow> b = 225 \<and> b1 = 154 \<and> b2 = 128 \<or>
             b = 226 \<and> b1 = 128 \<and> (128 \<le> b2 \<and> b2 \<le> 138 \<or> b2 = 168 \<or> b2 = 169 \<or> b2 = 175) \<or>
             b = 226 \<and> b1 = 129 \<and> b2 = 159 \<or> b = 227 \<and> b1 = 128 \<and> b2 = 128 | [] \<Rightarrow> False)
        | [] \<Rightarrow> False))"

text \<open>\<open>str::find\<close>: the first offset where a text or a predicate on the remaining text matches.\<close>

fun find_offset :: "('a list \<Rightarrow> bool) \<Rightarrow> 'a list \<Rightarrow> nat option" where
  "find_offset P xs = (if P xs then Some 0 else case xs of [] \<Rightarrow> None | _ # ys \<Rightarrow> map_option Suc (find_offset P ys))"

partial_function (option) redact_marker_loop :: "string \<Rightarrow> string \<Rightarrow> string \<Rightarrow> nat \<Rightarrow> string \<Rightarrow> string option" where
  "redact_marker_loop input lowercase marker cursor output =
     (case find_offset (prefix marker) (drop cursor lowercase) of
        None \<Rightarrow> Some (output @ drop cursor input)
      | Some relative \<Rightarrow>
          let marker_start = cursor + relative;
              value_start = marker_start + length marker;
              output = output @ take (value_start - cursor) (drop cursor input);
              value_end = (case find_offset secret_delimiter_at (drop value_start input) of Some offset \<Rightarrow> value_start + offset | None \<Rightarrow> length input);
              output = (if value_start < value_end then output @ REDACTED else output)
          in if value_end = length input then Some (output @ drop value_end input)
             else redact_marker_loop input lowercase marker value_end output)"

declare redact_marker_loop.simps [code]

definition redact_marker :: "string \<Rightarrow> string \<Rightarrow> string option" where
  "redact_marker input marker = redact_marker_loop input (to_ascii_lowercase input) marker 0 []"

definition is_char_boundary :: "string \<Rightarrow> nat \<Rightarrow> bool" where
  "is_char_boundary v i \<longleftrightarrow> i = 0 \<or> i = length v \<or> i < length v \<and> \<not> (128 \<le> byte_of (v ! i) \<and> byte_of (v ! i) < 192)"

fun floor_char_boundary_from :: "string \<Rightarrow> nat \<Rightarrow> nat" where
  "floor_char_boundary_from v 0 = 0"
| "floor_char_boundary_from v (Suc i) = (if is_char_boundary v (Suc i) then Suc i else floor_char_boundary_from v i)"

definition floor_char_boundary :: "string \<Rightarrow> nat \<Rightarrow> nat" where
  "floor_char_boundary v i = floor_char_boundary_from v (min i (length v))"

definition truncate_text :: "string \<Rightarrow> nat \<Rightarrow> bool \<Rightarrow> string" where
  "truncate_text v max_bytes input_was_truncated =
     (if \<not> input_was_truncated \<and> length v \<le> max_bytes then v
      else let content_limit = max_bytes - length TRUNCATED; end_at = floor_char_boundary v (min content_limit (length v))
        in take end_at v @ TRUNCATED)"

definition redaction_markers :: "string list" where
  "redaction_markers = [''authorization:'', ''bearer '', ''token='', ''secret='', ''password='', ''api_key='', ''apikey='']"

fun redact_markers :: "string list \<Rightarrow> string \<Rightarrow> string option" where
  "redact_markers [] output = Some output"
| "redact_markers (m # ms) output = (case redact_marker output m of None \<Rightarrow> None | Some output \<Rightarrow> redact_markers ms output)"

definition redact_text_with_limit :: "string \<Rightarrow> nat \<Rightarrow> string option" where
  "redact_text_with_limit input max_bytes =
     (let max_bytes = max max_bytes (length TRUNCATED);
          scan_limit = min (max_bytes + 1024) (length input);
          scan_end = floor_char_boundary input scan_limit
      in map_option (\<lambda>output. truncate_text output max_bytes (scan_end < length input)) (redact_markers redaction_markers (take scan_end input)))"

definition redact_text :: "string \<Rightarrow> string option" where
  "redact_text input = redact_text_with_limit input MAX_OPERATIONAL_TEXT_BYTES"

section \<open>The loop returns and masks\<close>

declare find_offset.simps [simp del]

definition lower_char :: "char \<Rightarrow> char" where
  "lower_char c = (if is_ascii_uppercase c then char_of (byte_of c + 32) else c)"

lemma to_ascii_lowercase_map: "to_ascii_lowercase v = map lower_char v"
  by (simp add: to_ascii_lowercase_def lower_char_def)

text \<open>An occurrence of a marker, whatever the case of the text.\<close>

definition occurs_at :: "string \<Rightarrow> string \<Rightarrow> nat \<Rightarrow> bool" where
  "occurs_at m v i \<longleftrightarrow> prefix m (drop i (to_ascii_lowercase v))"

text \<open>What may follow a marker: no value, or the mask and nothing else up to the next delimiter.\<close>

definition ends_value :: "string \<Rightarrow> bool" where
  "ends_value rest \<longleftrightarrow> rest = [] \<or> secret_delimiter_at rest"

definition followed :: "string \<Rightarrow> bool" where
  "followed rest \<longleftrightarrow> ends_value rest \<or> prefix REDACTED rest \<and> ends_value (drop (length REDACTED) rest)"

definition masked :: "string \<Rightarrow> string \<Rightarrow> bool" where
  "masked m v \<longleftrightarrow> (\<forall>i. occurs_at m v i \<longrightarrow> followed (drop (i + length m) v))"

text \<open>
  What redacting one marker makes of a text, without a cursor: a text without the marker stays; otherwise everything up to the
  end of its first occurrence stays, the value, which is what follows up to the next delimiter, is replaced by the mask, and the
  rest is treated alike.
\<close>

inductive masks :: "string \<Rightarrow> string \<Rightarrow> string \<Rightarrow> bool" for m where
  clean: "\<forall>i. \<not> occurs_at m v i \<Longrightarrow> masks m v v"
| hit: "occurs_at m before (length before - length m) \<Longrightarrow> \<forall>i. occurs_at m (before @ val @ rest) i \<longrightarrow> length before \<le> i + length m \<Longrightarrow>
    \<forall>i<length val. \<not> secret_delimiter_at (drop i (val @ rest)) \<Longrightarrow> ends_value rest \<Longrightarrow> masks m rest rest' \<Longrightarrow>
    masks m (before @ val @ rest) (before @ (if val = [] then [] else REDACTED) @ rest')"

text \<open>One marker after the other, each on what the last one left.\<close>

fun masks_all :: "string list \<Rightarrow> string \<Rightarrow> string \<Rightarrow> bool" where
  "masks_all [] v w \<longleftrightarrow> w = v"
| "masks_all (m # ms) v w \<longleftrightarrow> (\<exists>u. masks m v u \<and> masks_all ms u w)"

definition marker_ok :: "string \<Rightarrow> bool" where
  "marker_ok m \<longleftrightarrow> 3 \<le> length m \<and> last m \<notin> set (butlast m) \<and> last m \<notin> set (to_ascii_lowercase REDACTED) \<and> CHR '']'' \<notin> set m \<and>
     byte_of (last m) < 128"

lemma occurs_at_iff:
  assumes "m \<noteq> []"
  shows "occurs_at m v i \<longleftrightarrow> i + length m \<le> length v \<and> (\<forall>j<length m. lower_char (v ! (i + j)) = m ! j)"
proof -
  let ?d = "drop i (map lower_char v)"
  have "prefix m ?d \<longleftrightarrow> length m \<le> length ?d \<and> (\<forall>j<length m. ?d ! j = m ! j)"
  proof
    assume "prefix m ?d"
    then obtain zs where "?d = m @ zs" by (auto simp: prefix_def)
    then show "length m \<le> length ?d \<and> (\<forall>j<length m. ?d ! j = m ! j)" by (simp only: length_append nth_append) simp
  next
    assume "length m \<le> length ?d \<and> (\<forall>j<length m. ?d ! j = m ! j)"
    then have "take (length m) ?d = m" by (intro nth_equalityI) simp_all
    then show "prefix m ?d" by (metis take_is_prefix)
  qed
  moreover have "0 < length m" using assms by simp
  then have "length m \<le> length v - i \<longleftrightarrow> i + length m \<le> length v" by linarith
  ultimately show ?thesis by (auto simp: occurs_at_def to_ascii_lowercase_map)
qed

lemma find_offset_None: "find_offset P xs = None \<Longrightarrow> i \<le> length xs \<Longrightarrow> \<not> P (drop i xs)"
proof (induction xs arbitrary: i)
  case Nil
  then show ?case by (simp add: find_offset.simps [of P "[]"] split: if_splits)
next
  case (Cons x xs)
  then show ?case by (cases i) (simp_all add: find_offset.simps [of P "x # xs"] split: if_splits)
qed

lemma find_offset_Some:
  "find_offset P xs = Some n \<Longrightarrow> n \<le> length xs \<and> P (drop n xs) \<and> (\<forall>i<n. \<not> P (drop i xs))"
proof (induction xs arbitrary: n)
  case Nil
  then show ?case by (simp add: find_offset.simps [of P "[]"] split: if_splits)
next
  case (Cons x xs)
  show ?case
  proof (cases "P (x # xs)")
    case True
    then show ?thesis using Cons.prems by (simp add: find_offset.simps [of P "x # xs"])
  next
    case False
    then obtain k where k: "find_offset P xs = Some k" "n = Suc k" using Cons.prems by (auto simp: find_offset.simps [of P "x # xs"])
    from Cons.IH [OF k(1)] k(2) False show ?thesis by (auto simp: less_Suc_eq_0_disj)
  qed
qed

lemma REDACTED_nth: "length REDACTED = 10" "REDACTED ! 9 = CHR '']''" "lower_char (CHR '']'') = CHR '']''"
  by (simp_all add: REDACTED_def lower_char_def is_ascii_uppercase_def byte_of_def)

text \<open>Masking is kept when a text that ends inside no marker is put before a mask or nothing.\<close>

lemma masked_join:
  assumes ok: "marker_ok m" and seg: "seg \<noteq> []" "lower_char (last seg) \<notin> set (butlast m)"
    and inside: "\<forall>i. occurs_at m seg i \<longrightarrow> followed (drop (i + length m) (seg @ mid @ tail))" and tail: "masked m tail"
    and mid: "mid = REDACTED \<or> mid = []"
  shows "masked m (seg @ mid @ tail)"
  unfolding masked_def
proof (intro allI impI)
  fix i
  assume occ: "occurs_at m (seg @ mid @ tail) i"
  have m: "m \<noteq> []" using ok by (auto simp: marker_ok_def)
  note iff = occurs_at_iff [OF m]
  have all: "i + length m \<le> length (seg @ mid @ tail)" "\<forall>j<length m. lower_char ((seg @ mid @ tail) ! (i + j)) = m ! j"
    using occ by (simp_all add: iff)
  let ?goal = "followed (drop (i + length m) (seg @ mid @ tail))"
  have in_tail: ?goal if "length (seg @ mid) \<le> i"
  proof -
    let ?k = "i - length (seg @ mid)"
    have "occurs_at m tail ?k" unfolding iff
    proof (intro conjI allI impI)
      show "?k + length m \<le> length tail" using all(1) that by simp
      fix j assume "j < length m"
      then have "lower_char ((seg @ mid @ tail) ! (i + j)) = m ! j" using all(2) by blast
      then show "lower_char (tail ! (?k + j)) = m ! j" using that by (auto simp: nth_append split: if_splits)
    qed
    moreover have "drop (i + length m) (seg @ mid @ tail) = drop (?k + length m) tail" using that by simp
    ultimately show ?thesis using tail by (simp add: masked_def)
  qed
  consider "i + length m \<le> length seg" | "i < length seg" "length seg < i + length m" | "length seg \<le> i" by linarith
  then show ?goal
  proof cases
    case 1
    then have "occurs_at m seg i" using all by (auto simp: iff nth_append)
    then show ?thesis using inside by blast
  next
    case 2
    let ?j = "length seg - 1 - i"
    have j: "?j < length (butlast m)" "?j < length m" "i + ?j = length seg - 1" "length seg - 1 < length seg" using 2 seg(1) by auto
    have "lower_char (last seg) = m ! ?j"
      using all(2) [rule_format, OF j(2)] j seg(1) by (simp add: nth_append last_conv_nth)
    then have "lower_char (last seg) = butlast m ! ?j" using j by (simp add: nth_butlast)
    then show ?thesis using seg(2) j by (metis nth_mem)
  next
    case 3
    show ?thesis
    proof (cases "length (seg @ mid) \<le> i")
      case False
      then have mid': "mid = REDACTED" using mid 3 by auto
      let ?k = "i - length seg"
      have k: "?k < 10" using False mid' by (simp add: REDACTED_nth)
      have at: "lower_char (REDACTED ! (?k + j)) = m ! j" if "j < length m" "?k + j < 10" for j
        using all(2) [rule_format, OF that(1)] that(2) 3 mid' by (simp add: nth_append REDACTED_nth)
      have "length m \<ge> 3" using ok by (simp add: marker_ok_def)
      show ?thesis
      proof (cases "?k + length m \<le> 10")
        case True
        have lt: "?k + (length m - 1) < 10" "length m - 1 < length m" using True m by (cases m; simp)+
        have "m ! (length m - 1) = lower_char (REDACTED ! (?k + (length m - 1)))" using at [OF lt(2,1)] by simp
        moreover have "?k + (length m - 1) < length REDACTED" using lt(1) REDACTED_nth(1) by simp
        ultimately have "last m \<in> set (to_ascii_lowercase REDACTED)" using m
          by (auto simp: to_ascii_lowercase_map last_conv_nth intro!: imageI)
        then show ?thesis using ok by (simp add: marker_ok_def)
      next
        case False
        have "m ! (9 - ?k) = CHR '']''" using at [of "9 - ?k"] False k by (simp add: REDACTED_nth)
        moreover have "9 - ?k < length m" using False k by linarith
        ultimately have "CHR '']'' \<in> set m" by (metis nth_mem)
        then show ?thesis using ok by (simp add: marker_ok_def)
      qed
    qed (rule in_tail)
  qed
qed

lemma secret_delimiter_take: "take 3 v = take 3 w \<Longrightarrow> v \<noteq> [] \<Longrightarrow> secret_delimiter_at v = secret_delimiter_at w"
proof -
  assume a: "take 3 v = take 3 w" "v \<noteq> []"
  then have h: "hd v = hd w" by (cases v; cases w; simp)
  show ?thesis unfolding secret_delimiter_at_def a(1) h by (rule refl)
qed

lemma secret_delimiter_local:
  assumes "secret_delimiter_at (x @ y)" "x \<noteq> []" "byte_of (last x) < 128"
  shows "secret_delimiter_at (x @ y')"
proof -
  consider a where "x = [a]" | a b where "x = [a, b]" | a b c x' where "x = a # b # c # x'"
    using assms(2) by (metis list.exhaust)
  then show ?thesis
  proof cases
    case 1
    then show ?thesis using assms by (auto simp: secret_delimiter_at_def split: list.splits)
  next
    case 2
    then show ?thesis using assms by (auto simp: secret_delimiter_at_def split: list.splits)
  next
    case 3
    then show ?thesis using assms(1) secret_delimiter_take [of "x @ y" "x @ y'"] by simp
  qed
qed

lemma prefix_REDACTED_local:
  assumes "prefix REDACTED (x @ y)" "x \<noteq> []" "lower_char (last x) \<notin> set (to_ascii_lowercase REDACTED)"
  shows "\<exists>z. x = REDACTED @ z \<and> z \<noteq> []"
proof -
  have "\<not> length x \<le> length REDACTED"
  proof
    assume "length x \<le> length REDACTED"
    then have "prefix x REDACTED" using assms(1) by (metis append_eq_append_conv_if prefix_def prefix_length_prefix prefix_order.refl)
    then have "last x \<in> set REDACTED" using assms(2) by (metis last_in_set prefix_def set_append UnI1)
    then show False using assms(3) by (simp add: to_ascii_lowercase_map)
  qed
  moreover from this have "prefix REDACTED x" using assms(1) by (metis nat_le_linear prefix_length_prefix prefixI)
  ultimately show ?thesis by (auto simp: prefix_def)
qed

lemma followed_local:
  assumes "followed (x @ y)" "x \<noteq> []" "lower_char (last x) \<notin> set (to_ascii_lowercase REDACTED)" "byte_of (last x) < 128"
  shows "followed (x @ y')"
proof (cases "ends_value (x @ y)")
  case True
  then show ?thesis using secret_delimiter_local [OF _ assms(2,4), of y y'] assms(2) by (simp add: followed_def ends_value_def)
next
  case False
  then have r: "prefix REDACTED (x @ y)" "ends_value (drop (length REDACTED) (x @ y))" using assms(1) by (auto simp: followed_def)
  obtain z where z: "x = REDACTED @ z" "z \<noteq> []" using prefix_REDACTED_local [OF r(1) assms(2,3)] by blast
  then have "secret_delimiter_at (z @ y')"
    using secret_delimiter_local [of z y y'] r(2) assms(4) by (simp add: ends_value_def)
  then show ?thesis by (simp add: z(1) followed_def ends_value_def)
qed

lemma lower_char_ascii: "byte_of (lower_char c) < 128 \<Longrightarrow> byte_of c < 128"
  by (auto simp: lower_char_def is_ascii_uppercase_def split: if_splits)

lemma masked_drop: "masked m v \<Longrightarrow> masked m (drop n v)"
  by (auto simp: masked_def occurs_at_def to_ascii_lowercase_map drop_map add.commute add.left_commute)

lemma followed_mid: "mid = REDACTED \<or> mid = [] \<Longrightarrow> ends_value tail \<Longrightarrow> followed (mid @ tail)"
  by (auto simp: followed_def)

text \<open>A segment that ends with its only marker, and what is put after it: the marker itself is masked, and so is every other
  marker that was masked in the text the segment comes from.\<close>

lemma masked_segment:
  assumes ok: "marker_ok m" and seg: "seg \<noteq> []" "lower_char (last seg) = last m"
    and only: "\<forall>i. occurs_at m seg i \<longrightarrow> i + length m = length seg"
    and mid: "mid = REDACTED \<or> mid = []" "ends_value tail" and tail: "masked m tail"
  shows "masked m (seg @ mid @ tail)"
proof (rule masked_join [OF ok seg(1) _ _ tail])
  show "\<forall>i. occurs_at m seg i \<longrightarrow> followed (drop (i + length m) (seg @ mid @ tail))" using only followed_mid [OF mid] by auto
  show "lower_char (last seg) \<notin> set (butlast m)" using seg(2) ok by (simp add: marker_ok_def)
  show "mid = REDACTED \<or> mid = []" by (rule mid(1))
qed

lemma masked_other:
  assumes ok: "marker_ok m" and seg: "seg \<noteq> []" "lower_char (last seg) = last m"
    and mid: "mid = REDACTED \<or> mid = []" "ends_value tail"
    and k: "marker_ok k" "last m \<notin> set (butlast k)" "masked k (seg @ rest)" "masked k tail"
  shows "masked k (seg @ mid @ tail)"
proof (rule masked_join [OF k(1) seg(1) _ _ k(4)])
  have asc: "byte_of (last seg) < 128" by (rule lower_char_ascii) (use seg(2) ok in \<open>simp add: marker_ok_def\<close>)
  have kn: "k \<noteq> []" using k by (auto simp: marker_ok_def)
  show "\<forall>i. occurs_at k seg i \<longrightarrow> followed (drop (i + length k) (seg @ mid @ tail))"
  proof (intro allI impI)
    fix i assume o: "occurs_at k seg i"
    then have p: "i + length k \<le> length seg" by (simp add: occurs_at_iff [OF kn])
    have "occurs_at k (seg @ rest) i" using o by (auto simp: occurs_at_iff [OF kn] nth_append)
    then have "followed (drop (i + length k) (seg @ rest))" using k(3) unfolding masked_def by blast
    then have f: "followed (drop (i + length k) seg @ rest)" using p by simp
    show "followed (drop (i + length k) (seg @ mid @ tail))"
    proof (cases "i + length k = length seg")
      case True
      then show ?thesis using followed_mid [OF mid] by simp
    next
      case False
      let ?x = "drop (i + length k) seg"
      have x: "?x \<noteq> []" "last ?x = last seg" using False p by auto
      have "lower_char (last ?x) \<notin> set (to_ascii_lowercase REDACTED)" using x(2) seg(2) ok by (simp add: marker_ok_def)
      from followed_local [OF f x(1) this] have "followed (?x @ mid @ tail)" using x(2) asc by simp
      then show ?thesis using p by simp
    qed
  qed
  show "lower_char (last seg) \<notin> set (butlast k)" using seg(2) k(2) by simp
  show "mid = REDACTED \<or> mid = []" by (rule mid(1))
qed

text \<open>The segment up to the first marker.\<close>

lemma first_segment:
  assumes "marker_ok m" "find_offset (prefix m) (to_ascii_lowercase d) = Some rel"
  defines "seg \<equiv> take (rel + length m) d"
  shows "rel + length m \<le> length d" "seg \<noteq> []" "lower_char (last seg) = last m" "\<forall>i. occurs_at m seg i \<longrightarrow> i + length m = length seg"
proof -
  have m: "m \<noteq> []" using assms(1) by (auto simp: marker_ok_def)
  note f = find_offset_Some [OF assms(2)] and iff = occurs_at_iff [OF m]
  have occ: "occurs_at m d rel" using f by (simp add: occurs_at_def)
  then show len: "rel + length m \<le> length d" by (simp add: iff)
  then have ls: "length seg = rel + length m" by (simp add: seg_def)
  then show "seg \<noteq> []" using m by auto
  have "length m - 1 < length m" "rel + (length m - 1) = length seg - 1" using ls m by (cases m; simp)+
  moreover have "\<forall>j<length m. lower_char (seg ! (rel + j)) = m ! j" using occ len by (simp add: iff seg_def)
  ultimately show "lower_char (last seg) = last m" using m \<open>seg \<noteq> []\<close> by (metis last_conv_nth)
  show "\<forall>i. occurs_at m seg i \<longrightarrow> i + length m = length seg"
  proof (intro allI impI)
    fix i assume "occurs_at m seg i"
    then have i: "i + length m \<le> length seg" "occurs_at m d i" using len by (auto simp: iff seg_def)
    then have "\<not> i < rel" using f by (auto simp: occurs_at_def)
    then show "i + length m = length seg" using i(1) ls by simp
  qed
qed

lemma value_end_bounds:
  assumes "vs \<le> length input"
  defines "ve \<equiv> (case find_offset secret_delimiter_at (drop vs input) of Some offset \<Rightarrow> vs + offset | None \<Rightarrow> length input)"
  shows "vs \<le> ve" "ve \<le> length input" "ends_value (drop ve input)" "\<forall>i<ve - vs. \<not> secret_delimiter_at (drop i (drop vs input))"
  using assms(1) find_offset_Some [of secret_delimiter_at "drop vs input"] find_offset_None [of secret_delimiter_at "drop vs input"]
  unfolding ve_def by (auto simp: add.commute ends_value_def split: option.splits)

lemma masked_Nil: "marker_ok k \<Longrightarrow> masked k []"
  by (auto simp: marker_ok_def masked_def followed_def ends_value_def)

definition keeps_masked :: "string \<Rightarrow> string \<Rightarrow> string \<Rightarrow> bool" where
  "keeps_masked m v w \<longleftrightarrow> (\<forall>k. marker_ok k \<and> last m \<notin> set (butlast k) \<and> masked k v \<longrightarrow> masked k w)"

lemma redact_marker_loop_returns:
  assumes ok: "marker_ok m"
  shows "cursor \<le> length input \<Longrightarrow> \<exists>tail. (\<forall>output. redact_marker_loop input (to_ascii_lowercase input) m cursor output = Some (output @ tail)) \<and>
    masked m tail \<and> take 3 tail = take 3 (drop cursor input) \<and> keeps_masked m (drop cursor input) tail \<and> masks m (drop cursor input) tail"
proof (induction "length input - cursor" arbitrary: cursor rule: less_induct)
  case less
  have m: "m \<noteq> []" "3 \<le> length m" using ok by (auto simp: marker_ok_def)
  let ?d = "drop cursor input"
  have low: "drop cursor (to_ascii_lowercase input) = to_ascii_lowercase ?d" by (simp add: to_ascii_lowercase_map drop_map)
  show ?case
  proof (cases "find_offset (prefix m) (to_ascii_lowercase ?d)")
    case None
    have n: "\<forall>i. \<not> occurs_at m ?d i"
    proof
      fix i show "\<not> occurs_at m ?d i"
        using find_offset_None [OF None, of i] m(1) by (cases "i \<le> length ?d") (auto simp: occurs_at_def to_ascii_lowercase_map)
    qed
    then have "masked m ?d" by (simp add: masked_def)
    then show ?thesis using None low masks.clean [OF n] by (intro exI [of _ ?d]) (simp add: redact_marker_loop.simps keeps_masked_def)
  next
    case (Some rel)
    define vs where "vs = cursor + rel + length m"
    define seg where "seg = take (rel + length m) ?d"
    define ve where "ve = (case find_offset secret_delimiter_at (drop vs input) of Some offset \<Rightarrow> vs + offset | None \<Rightarrow> length input)"
    define mid where "mid = (if vs < ve then REDACTED else [])"
    define val where "val = take (ve - vs) (drop vs input)"
    note s = first_segment [OF ok Some, folded seg_def]
    have vs: "vs \<le> length input" "cursor < vs" using s(1) less.prems m(1) by (auto simp: vs_def)
    note ve = value_end_bounds [OF vs(1), folded ve_def]
    have tk: "take (vs - cursor) ?d = seg" by (simp add: seg_def vs_def)
    have step: "redact_marker_loop input (to_ascii_lowercase input) m cursor out =
        (if ve = length input then Some (out @ seg @ mid @ drop ve input)
         else redact_marker_loop input (to_ascii_lowercase input) m ve (out @ seg @ mid))" for out
      unfolding redact_marker_loop.simps [of input _ m cursor out] low Some option.case Let_def vs_def [symmetric] ve_def [symmetric] tk
      by (simp add: mid_def)
    have "drop (rel + length m) ?d = drop vs input" unfolding vs_def drop_drop by (simp add: ac_simps)
    then have d: "?d = seg @ drop vs input" unfolding seg_def by (metis append_take_drop_id)
    have "drop vs input = val @ drop (ve - vs) (drop vs input)" unfolding val_def by (rule append_take_drop_id [symmetric])
    then have v: "drop vs input = val @ drop ve input" using ve(1) by simp
    have mid: "mid = (if val = [] then [] else REDACTED)" using ve(1,2) vs by (auto simp: mid_def val_def)
    have t3: "take 3 (seg @ rest) = take 3 ?d" for rest using m(2) s(1) by (simp add: seg_def min_def)
    obtain tail where tail: "\<And>out. redact_marker_loop input (to_ascii_lowercase input) m cursor out = Some (out @ seg @ mid @ tail)"
        "masked m tail" "ends_value tail" "keeps_masked m ?d tail" "masks m (drop ve input) tail"
    proof (cases "ve = length input")
      case True
      have "masks m [] []" by (rule masks.clean) (use m(1) in \<open>simp add: occurs_at_iff\<close>)
      then show thesis using step True by (intro that [of "[]"]) (auto simp: masked_Nil [OF ok] ends_value_def keeps_masked_def masked_Nil)
    next
      case False
      have "length input - ve < length input - cursor" using ve False vs by linarith
      from less.hyps [OF this ve(2)] obtain tail where t: "\<And>out. redact_marker_loop input (to_ascii_lowercase input) m ve out = Some (out @ tail)"
          "masked m tail" "take 3 tail = take 3 (drop ve input)" "keeps_masked m (drop ve input) tail" "masks m (drop ve input) tail" by blast
      have "drop ve input \<noteq> []" using False ve(2) by simp
      then have "ends_value tail" using secret_delimiter_take [OF t(3) [symmetric]] ve(3) False by (simp add: ends_value_def)
      moreover have "drop ve input = drop (ve - cursor) ?d" using ve(1) vs(2) by simp
      then have "keeps_masked m ?d tail" using t(4) masked_drop unfolding keeps_masked_def by metis
      ultimately show thesis using step False t(1,2,5) by (intro that [of tail]) simp_all
    qed
    have m': "mid = REDACTED \<or> mid = []" by (simp add: mid_def)
    have "masked m (seg @ mid @ tail)" by (rule masked_segment [OF ok s(2-4) m' tail(3,2)])
    moreover have "keeps_masked m ?d (seg @ mid @ tail)"
      using masked_other [OF ok s(2,3) m' tail(3)] tail(4) d unfolding keeps_masked_def by metis
    moreover have "masks m ?d (seg @ mid @ tail)"
    proof -
      note f = find_offset_Some [OF Some]
      have len: "length seg = rel + length m" using s(1) by (simp add: seg_def)
      have "occurs_at m ?d rel" using f by (simp add: occurs_at_def)
      then have "occurs_at m seg (length seg - length m)" using s(1) by (simp add: occurs_at_iff [OF m(1)] len) (simp add: seg_def)
      moreover have "\<forall>i. occurs_at m (seg @ val @ drop ve input) i \<longrightarrow> length seg \<le> i + length m"
        using f unfolding v [symmetric] d [symmetric] len by (auto simp: occurs_at_def not_less [symmetric])
      moreover have "\<forall>i<length val. \<not> secret_delimiter_at (drop i (val @ drop ve input))"
        using ve(4) unfolding v [symmetric] by (simp add: val_def)
      ultimately show ?thesis unfolding d v mid using ve(3) tail(5) by (rule masks.hit)
    qed
    ultimately show ?thesis using tail(1) t3 [of "mid @ tail"] by (intro exI [of _ "seg @ mid @ tail"]) simp
  qed
qed

lemma redact_marker_returns:
  assumes "marker_ok m"
  obtains out where "redact_marker input m = Some out" "masked m out" "masks m input out"
    "\<And>k. marker_ok k \<Longrightarrow> last m \<notin> set (butlast k) \<Longrightarrow> masked k input \<Longrightarrow> masked k out"
proof -
  obtain tail where "\<forall>output. redact_marker_loop input (to_ascii_lowercase input) m 0 output = Some (output @ tail)" "masked m tail"
      "keeps_masked m input tail" "masks m input tail"
    using redact_marker_loop_returns [OF assms, of 0 input] by auto
  then show thesis using that [of tail] by (simp add: redact_marker_def keeps_masked_def)
qed

lemma redact_markers_returns:
  assumes "\<forall>a\<in>set ms. marker_ok a \<and> (\<forall>b\<in>set (kept @ ms). last a \<notin> set (butlast b))"
    and "\<forall>k\<in>set kept. marker_ok k \<and> masked k v"
  shows "\<exists>out. redact_markers ms v = Some out \<and> masks_all ms v out \<and> (\<forall>k\<in>set (kept @ ms). masked k out)"
  using assms
proof (induction ms arbitrary: kept v)
  case (Cons m ms)
  obtain out where out: "redact_marker v m = Some out" "masked m out" "masks m v out"
      "\<And>k. marker_ok k \<Longrightarrow> last m \<notin> set (butlast k) \<Longrightarrow> masked k v \<Longrightarrow> masked k out"
    using redact_marker_returns [of m v] Cons.prems by auto
  have "\<forall>k\<in>set (kept @ [m]). marker_ok k \<and> masked k out" using out Cons.prems by auto
  from Cons.IH [OF _ this] Cons.prems(1) out(1,3) show ?case by auto
qed simp

lemma redaction_markers_ok: "\<forall>a\<in>set redaction_markers. marker_ok a \<and> (\<forall>b\<in>set redaction_markers. last a \<notin> set (butlast b))"
  by code_simp

text \<open>The last character boundary of a text that is not beyond a limit.\<close>

definition last_boundary :: "string \<Rightarrow> nat \<Rightarrow> nat \<Rightarrow> bool" where
  "last_boundary v limit e \<longleftrightarrow> e \<le> limit \<and> e \<le> length v \<and> is_char_boundary v e \<and>
     (\<forall>i. e < i \<and> i \<le> limit \<and> i \<le> length v \<longrightarrow> \<not> is_char_boundary v i)"

lemma floor_char_boundary_last: "last_boundary v i (floor_char_boundary v i)"
proof -
  have "n \<le> length v \<Longrightarrow> floor_char_boundary_from v n \<le> n \<and> is_char_boundary v (floor_char_boundary_from v n) \<and>
      (\<forall>k. floor_char_boundary_from v n < k \<and> k \<le> n \<longrightarrow> \<not> is_char_boundary v k)" for n
  proof (induction n)
    case 0
    show ?case by (auto simp: is_char_boundary_def)
  next
    case (Suc n)
    then show ?case by (auto simp: le_Suc_eq)
  qed
  from this [of "min i (length v)"] show ?thesis by (simp add: last_boundary_def floor_char_boundary_def)
qed

lemma truncate_text_cut:
  assumes "11 \<le> n"
  obtains e where "last_boundary v (n - 11) e" "truncate_text v n t = (if t \<or> n < length v then take e v @ TRUNCATED else v)"
proof
  have t: "length TRUNCATED = 11" by (simp add: TRUNCATED_def)
  let ?e = "floor_char_boundary v (n - 11)"
  show "last_boundary v (n - 11) ?e" by (rule floor_char_boundary_last)
  have "floor_char_boundary v (min (n - 11) (length v)) = ?e" by (simp add: floor_char_boundary_def)
  then show "truncate_text v n t = (if t \<or> n < length v then take ?e v @ TRUNCATED else v)"
    by (simp add: truncate_text_def Let_def t not_le)
qed

text \<open>C22. Redaction returns for every text and limit. It looks at the text up to the last character that ends within
  1024 bytes beyond the limit, and masks each credential marker in turn, in any case: what follows an occurrence up to the
  next delimiter is replaced by the mask, and everything else stays. In what that leaves, each marker is followed by the end,
  a delimiter, or the mask alone. The result is that text, if nothing was left out and it fits the limit, and
  otherwise its last whole characters that leave room for the truncation mark, then that mark; the limit is at least the
  length of the mark, eleven bytes, and the result never exceeds it.\<close>

theorem redaction_returns_masked:
  "\<exists>out scanned clean cut. redact_text_with_limit input max_bytes = Some out \<and>
     last_boundary input (max max_bytes 11 + 1024) scanned \<and> masks_all redaction_markers (take scanned input) clean \<and>
     (\<forall>m\<in>set redaction_markers. masked m clean) \<and> last_boundary clean (max max_bytes 11 - 11) cut \<and>
     out = (if scanned < length input \<or> max max_bytes 11 < length clean then take cut clean @ TRUNCATED else clean) \<and>
     length out \<le> max max_bytes 11"
proof -
  define n where "n = max max_bytes (length TRUNCATED)"
  define e where "e = floor_char_boundary input (min (n + 1024) (length input))"
  have n: "n = max max_bytes 11" by (simp add: n_def TRUNCATED_def)
  have e: "last_boundary input (n + 1024) e"
    using floor_char_boundary_last [of input "min (n + 1024) (length input)"] by (simp add: e_def last_boundary_def)
  obtain clean where c: "redact_markers redaction_markers (take e input) = Some clean" "masks_all redaction_markers (take e input) clean"
      "\<forall>m\<in>set redaction_markers. masked m clean"
    using redact_markers_returns [of redaction_markers "[]" "take e input"] redaction_markers_ok by auto
  obtain cut where cut: "last_boundary clean (n - 11) cut"
      "truncate_text clean n (e < length input) = (if e < length input \<or> n < length clean then take cut clean @ TRUNCATED else clean)"
    using truncate_text_cut [of n clean "e < length input"] n by auto
  have out: "redact_text_with_limit input max_bytes = Some (truncate_text clean n (e < length input))"
    using c(1) by (simp add: redact_text_with_limit_def n_def [symmetric] e_def [symmetric] Let_def)
  have "length (truncate_text clean n (e < length input)) \<le> n"
    using cut(1) n unfolding cut(2) by (auto simp: last_boundary_def TRUNCATED_def)
  with out e c(2,3) cut show ?thesis unfolding n by blast
qed

lemma redaction_returns_masked_witness:
  "\<exists>scanned clean. redact_text_with_limit ''Token=abc, ok'' 100 = Some ''Token=[REDACTED], ok'' \<and>
     masks_all redaction_markers (take scanned ''Token=abc, ok'') clean \<and> masked ''token='' clean \<and> clean = ''Token=[REDACTED], ok''"
proof -
  have o: "redact_text_with_limit ''Token=abc, ok'' 100 = Some ''Token=[REDACTED], ok''" by code_simp
  obtain out scanned clean cut where r: "redact_text_with_limit ''Token=abc, ok'' 100 = Some out"
    "masks_all redaction_markers (take scanned ''Token=abc, ok'') clean" "\<forall>m\<in>set redaction_markers. masked m clean"
    "out = (if scanned < length ''Token=abc, ok'' \<or> max 100 11 < length clean then take cut clean @ TRUNCATED else clean)"
    using redaction_returns_masked [of "''Token=abc, ok''" 100] by blast
  have "''token='' \<in> set redaction_markers" by (simp add: redaction_markers_def)
  then have c: "masks_all redaction_markers (take scanned ''Token=abc, ok'') clean" "masked ''token='' clean"
      "''Token=[REDACTED], ok'' = (if scanned < length ''Token=abc, ok'' \<or> max 100 11 < length clean then take cut clean @ TRUNCATED else clean)"
    using r o by (blast, blast, metis option.inject)
  have "\<not> (scanned < length ''Token=abc, ok'' \<or> max 100 11 < length clean)"
  proof
    assume "scanned < length ''Token=abc, ok'' \<or> max 100 11 < length clean"
    with c(3) have "''Token=[REDACTED], ok'' = take cut clean @ TRUNCATED" by (simp only: if_True)
    from arg_cong [OF this, of last] show False by (simp add: TRUNCATED_def)
  qed
  then have "clean = ''Token=[REDACTED], ok''" using c(3) by (simp only: if_False)
  with o c(1,2) show ?thesis by blast
qed

text \<open>The value of a header is masked only if it follows the colon directly; with the customary space it stays.\<close>

lemma authorization_header_kept:
  "redact_text ''Authorization: Basic dXNlcjpwYXNz'' = Some ''Authorization: Basic dXNlcjpwYXNz''"
  by code_simp

end
