(* ===== verification/Scheduler.thy ===== *)
theory Scheduler
  imports Identity Redaction "HOL-Library.Product_Lexorder" "HOL-Library.List_Lexorder" "HOL-Library.Char_ord"
begin

text \<open>
  The local scheduler (\<open>appcore-scheduler\<close>, \<open>task.rs\<close> and \<open>runtime.rs\<close>). A coordinator thread scans for due tasks and spawns a
  worker per execution; both are program counters, and one step is one access to shared state. The map of tasks is only
  accessed under its lock, the other fields are atomics. Cancellation flags are shared between a task and the handles and
  contexts that refer to it, so they are addresses into \<open>sch_flags\<close>. A callback is known by a number; what
  it returns is an input of the step in which it ends. \<open>cron\<close> with \<open>chrono\<close> is a parameter; \<open>SystemTime\<close> is a number of
  nanoseconds since the epoch.
\<close>

section \<open>Tasks\<close>

datatype scheduler_error =
  SE_InvalidConfig string | SE_InvalidTaskId | SE_InvalidSchedule string | SE_InvalidCron string | SE_DuplicateTask string
  | SE_CapacityExceeded nat | SE_Shutdown | SE_WorkerPanicked

record scheduler_config =
  sc_max_tasks :: nat
  sc_max_concurrent_tasks :: nat
  sc_poll_interval :: duration

definition scheduler_config_default :: scheduler_config where
  "scheduler_config_default = \<lparr> sc_max_tasks = 1024, sc_max_concurrent_tasks = 4, sc_poll_interval = from_millis 25 \<rparr>"

definition validate_config :: "scheduler_config \<Rightarrow> scheduler_error + unit" where
  "validate_config c =
     (if sc_max_tasks c = 0 then Err (SE_InvalidConfig ''max_tasks must be positive'')
      else if sc_max_concurrent_tasks c = 0 then Err (SE_InvalidConfig ''max_concurrent_tasks must be positive'')
      else if sc_poll_interval c = 0 then Err (SE_InvalidConfig ''poll_interval must be positive'') else Ok ())"

type_synonym system_time = int

text \<open>\<open>SystemTime::checked_add\<close>: seconds are an \<open>i64\<close>.\<close>

definition time_checked_add :: "system_time \<Rightarrow> duration \<Rightarrow> system_time option" where
  "time_checked_add t d = (if (t + int d) div 10 ^ 9 < 2 ^ 63 then Some (t + int d) else None)"

datatype task_schedule = TS_Once system_time | TS_Interval duration "system_time option" | TS_Cron string

record retry_policy =
  rt_max_attempts :: u32
  rt_initial_backoff :: duration
  rt_max_backoff :: duration
  rt_multiplier :: u32
  rt_jitter :: duration

definition retry_policy_default :: retry_policy where
  "retry_policy_default = \<lparr> rt_max_attempts = 1, rt_initial_backoff = from_millis 100, rt_max_backoff = from_secs 30,
     rt_multiplier = 2, rt_jitter = 0 \<rparr>"

record scheduled_task =
  stk_id :: string
  stk_schedule :: task_schedule
  stk_retry :: retry_policy
  stk_priority :: u8
  stk_trace :: "trace_context option"

record 'c cron_ops =
  cron_parse :: "string \<Rightarrow> string + 'c"
  cron_after :: "'c \<Rightarrow> system_time \<Rightarrow> system_time option"

definition MAX_TASK_ID_BYTES :: nat where "MAX_TASK_ID_BYTES = 128"

definition validate_task_id :: "string \<Rightarrow> scheduler_error + unit" where
  "validate_task_id v =
     (if v = [] \<or> MAX_TASK_ID_BYTES < length v \<or> \<not> list_all (\<lambda>c. is_ascii_alphanumeric c \<or> c \<in> set ''._-'') v
      then Err SE_InvalidTaskId else Ok ())"

definition validate_retry :: "retry_policy \<Rightarrow> scheduler_error + unit" where
  "validate_retry p =
     (if rt_max_attempts p = 0 then Err (SE_InvalidSchedule ''max_attempts must be positive'')
      else if rt_multiplier p = 0 then Err (SE_InvalidSchedule ''retry multiplier must be positive'')
      else if rt_max_backoff p < rt_initial_backoff p then Err (SE_InvalidSchedule ''initial_backoff exceeds max_backoff'') else Ok ())"

definition validate_schedule :: "'c cron_ops \<Rightarrow> task_schedule \<Rightarrow> scheduler_error + unit" where
  "validate_schedule cron t = (case t of
     TS_Once _ \<Rightarrow> Ok ()
   | TS_Interval every _ \<Rightarrow> if every = 0 then Err (SE_InvalidSchedule ''zero interval'') else Ok ()
   | TS_Cron expression \<Rightarrow> rbind (map_err SE_InvalidCron (cron_parse cron expression)) (\<lambda>_. Ok ()))"

definition task_validate :: "'c cron_ops \<Rightarrow> scheduled_task \<Rightarrow> scheduler_error + unit" where
  "task_validate cron t =
     rbind (validate_task_id (stk_id t)) (\<lambda>_. rbind (validate_retry (stk_retry t)) (\<lambda>_. validate_schedule cron (stk_schedule t)))"

datatype 'c parsed_schedule = PS_Once | PS_Interval duration | PS_Cron 'c

definition parse_schedule :: "'c cron_ops \<Rightarrow> system_time \<Rightarrow> task_schedule \<Rightarrow> scheduler_error + ('c parsed_schedule \<times> system_time)" where
  "parse_schedule cron now t = (case t of
     TS_Once run_at \<Rightarrow> Ok (PS_Once, run_at)
   | TS_Interval every start_at \<Rightarrow>
       if every = 0 then Err (SE_InvalidSchedule ''zero interval'')
       else rbind (case start_at of Some start \<Rightarrow> Ok start
           | None \<Rightarrow> ok_or (SE_InvalidSchedule ''interval exceeds clock range'') (time_checked_add now every)) (\<lambda>next_run.
         Ok (PS_Interval every, next_run))
   | TS_Cron expression \<Rightarrow>
       rbind (map_err SE_InvalidCron (cron_parse cron expression)) (\<lambda>c.
       rbind (ok_or (SE_InvalidSchedule ''cron has no next occurrence'') (cron_after cron c now)) (\<lambda>next_run. Ok (PS_Cron c, next_run))))"

definition schedule_next :: "'c cron_ops \<Rightarrow> 'c parsed_schedule \<Rightarrow> system_time \<Rightarrow> system_time option" where
  "schedule_next cron p now = (case p of
     PS_Once \<Rightarrow> None | PS_Interval every \<Rightarrow> time_checked_add now every | PS_Cron c \<Rightarrow> cron_after cron c now)"

section \<open>State\<close>

record 'c task_entry =
  te_schedule :: "'c parsed_schedule"
  te_retry :: retry_policy
  te_priority :: u8
  te_callback :: nat
  te_cancelled :: nat
  te_next_run :: system_time
  te_running :: bool
  te_attempts :: u32
  te_order :: u64
  te_last_error :: "string option"
  te_trace :: "trace_context option"

record task_context =
  tc_task_id :: string
  tc_attempt :: u32
  tc_cancelled :: nat
  tc_trace :: "trace_context option"

record task_handle =
  th_id :: string
  th_cancelled :: nat

datatype sched_thread =
  Th_Callback nat task_context | Th_Complete task_context "string + unit" | Th_Release | Th_Finished

datatype coordinator =
  Co_Check | Co_Reap | Co_Load | Co_Plan nat | Co_Spawn "string list" | Co_Active nat task_context "string list"
  | Co_Start nat task_context "string list" | Co_Failed task_context "string list" | Co_FailedRelease "string list" | Co_Wait
  | Co_Take | Co_Join "nat list" | Co_Clear | Co_Exited

record 'c scheduler =
  sch_config :: scheduler_config
  sch_tasks :: "(string, 'c task_entry) omap"
  sch_flags :: "bool list"
  sch_shutdown :: bool
  sch_active :: nat
  sch_sequence :: u64
  sch_jitter_state :: u64
  sch_threads :: "sched_thread list"
  sch_handles :: "nat list"
  sch_coordinator :: coordinator

definition flag_set :: "'c scheduler \<Rightarrow> nat \<Rightarrow> bool" where
  "flag_set s a \<longleftrightarrow> a < length (sch_flags s) \<and> sch_flags s ! a"

definition context_is_cancelled :: "'c scheduler \<Rightarrow> task_context \<Rightarrow> bool" where
  "context_is_cancelled s c \<longleftrightarrow> flag_set s (tc_cancelled c) \<or> sch_shutdown s"

text \<open>\<open>seed\<close> is the clock reading that \<open>now_seed\<close> turns into a state that is not zero.\<close>

definition scheduler_new :: "scheduler_config \<Rightarrow> u64 \<Rightarrow> scheduler_error + 'c scheduler" where
  "scheduler_new config seed =
     rbind (validate_config config) (\<lambda>_. Ok \<lparr> sch_config = config, sch_tasks = [], sch_flags = [], sch_shutdown = False, sch_active = 0,
       sch_sequence = 1, sch_jitter_state = max seed 1, sch_threads = [], sch_handles = [], sch_coordinator = Co_Check \<rparr>)"

section \<open>Operations\<close>

text \<open>The part of \<open>schedule\<close> under the lock.\<close>

definition schedule_insert :: "scheduled_task \<Rightarrow> nat \<Rightarrow> 'c parsed_schedule \<Rightarrow> system_time \<Rightarrow> ('c scheduler, scheduler_error, task_handle) eff" where
  "schedule_insert task callback parsed next_run s =
     (if sch_shutdown s then (Err SE_Shutdown, s)
      else if map_of (sch_tasks s) (stk_id task) \<noteq> None then (Err (SE_DuplicateTask (stk_id task)), s)
      else if sc_max_tasks (sch_config s) \<le> length (sch_tasks s) then (Err (SE_CapacityExceeded (sc_max_tasks (sch_config s))), s)
      else let flag = length (sch_flags s);
               entry = \<lparr> te_schedule = parsed, te_retry = stk_retry task, te_priority = stk_priority task, te_callback = callback,
                 te_cancelled = flag, te_next_run = next_run, te_running = False, te_attempts = 0, te_order = sch_sequence s,
                 te_last_error = None, te_trace = stk_trace task \<rparr>
        in (Ok \<lparr> th_id = stk_id task, th_cancelled = flag \<rparr>,
            s\<lparr> sch_tasks := om_put (stk_id task) entry (sch_tasks s), sch_flags := sch_flags s @ [False], sch_sequence := sch_sequence s + 1 \<rparr>))"

definition scheduler_schedule :: "'c cron_ops \<Rightarrow> system_time \<Rightarrow> scheduled_task \<Rightarrow> nat \<Rightarrow> ('c scheduler, scheduler_error, task_handle) eff" where
  "scheduler_schedule cron now task callback =
     ebind (\<lambda>s. if sch_shutdown s then (Err SE_Shutdown, s) else (Ok (), s)) (\<lambda>_.
     ebind (elift (\<lambda>_. task_validate cron task)) (\<lambda>_.
     ebind (elift (\<lambda>_. parse_schedule cron now (stk_schedule task))) (\<lambda>(parsed, next_run).
       schedule_insert task callback parsed next_run)))"

definition set_flag :: "nat \<Rightarrow> 'c scheduler \<Rightarrow> 'c scheduler" where
  "set_flag a s = s\<lparr> sch_flags := (sch_flags s)[a := True] \<rparr>"

definition scheduler_cancel :: "string \<Rightarrow> 'c scheduler \<Rightarrow> bool \<times> 'c scheduler" where
  "scheduler_cancel task_id s = (case map_of (sch_tasks s) task_id of
     None \<Rightarrow> (False, s) | Some task \<Rightarrow> (True, set_flag (te_cancelled task) s))"

definition handle_cancel :: "task_handle \<Rightarrow> 'c scheduler \<Rightarrow> 'c scheduler" where
  "handle_cancel h s = set_flag (th_cancelled h) s"

record task_snapshot =
  tsn_id :: string
  tsn_priority :: u8
  tsn_running :: bool
  tsn_attempts :: u32
  tsn_next_run :: system_time
  tsn_last_error :: "string option"
  tsn_trace :: "trace_context option"

record scheduler_snapshot =
  ssn_shutdown :: bool
  ssn_active_tasks :: nat
  ssn_tasks :: "task_snapshot list"

definition snapshot_of :: "'c scheduler \<Rightarrow> scheduler_snapshot" where
  "snapshot_of s = \<lparr> ssn_shutdown = sch_shutdown s, ssn_active_tasks = sch_active s,
     ssn_tasks = sort_key tsn_id (map (\<lambda>(task_id, t). \<lparr> tsn_id = task_id, tsn_priority = te_priority t, tsn_running = te_running t,
       tsn_attempts = te_attempts t, tsn_next_run = te_next_run t, tsn_last_error = te_last_error t, tsn_trace = te_trace t \<rparr>) (sch_tasks s)) \<rparr>"

text \<open>\<open>shutdown\<close> raises the flag, then cancels what is registered, and then waits for the coordinator.\<close>

definition shutdown_flag :: "'c scheduler \<Rightarrow> 'c scheduler" where
  "shutdown_flag s = s\<lparr> sch_shutdown := True \<rparr>"

definition shutdown_cancel :: "'c scheduler \<Rightarrow> 'c scheduler" where
  "shutdown_cancel s = fold (\<lambda>(_, t). set_flag (te_cancelled t)) (sch_tasks s) s"

text \<open>Exponential backoff in \<open>u128\<close> milliseconds with xorshift jitter.\<close>

definition u128_max :: nat where "u128_max = 2 ^ 128 - 1"

unbundle bit_operations_syntax

definition next_random :: "u64 \<Rightarrow> u64" where
  "next_random current =
     (let n1 = current XOR push_bit 13 current; n2 = n1 XOR drop_bit 7 n1 in n2 XOR push_bit 17 n2)"

definition draw_jitter :: "duration \<Rightarrow> 'c scheduler \<Rightarrow> u64 \<times> 'c scheduler" where
  "draw_jitter bound s =
     (let jitter_max = (of_nat (min (bound div 10 ^ 6) (2 ^ 64 - 1)) :: u64); drawn = next_random (sch_jitter_state s)
      in if jitter_max = 0 then (0, s) else (drawn mod sat_add jitter_max 1, s\<lparr> sch_jitter_state := drawn \<rparr>))"

definition retry_delay :: "retry_policy \<Rightarrow> u32 \<Rightarrow> 'c scheduler \<Rightarrow> duration \<times> 'c scheduler" where
  "retry_delay p attempt s =
     (let exponent = min (unat (sat_sub attempt 1)) 31;
          factor = min (unat (rt_multiplier p) ^ exponent) u128_max;
          base_ms = min (rt_initial_backoff p div 10 ^ 6 * factor) u128_max;
          capped_ms = min base_ms (rt_max_backoff p div 10 ^ 6);
          (jitter, s') = draw_jitter (rt_jitter p) s
      in (from_millis (of_nat (min (min capped_ms (2 ^ 64 - 1) + unat jitter) (2 ^ 64 - 1))), s'))"

section \<open>Threads\<close>

definition put_task :: "string \<Rightarrow> 'c task_entry \<Rightarrow> 'c scheduler \<Rightarrow> 'c scheduler" where
  "put_task task_id t s = s\<lparr> sch_tasks := om_put task_id t (sch_tasks s) \<rparr>"

definition remove_task :: "string \<Rightarrow> 'c scheduler \<Rightarrow> 'c scheduler" where
  "remove_task task_id s = s\<lparr> sch_tasks := om_del task_id (sch_tasks s) \<rparr>"

text \<open>\<open>complete_task\<close> up to the release of the lock; the active count is lowered in a step of its own.\<close>

definition complete_task :: "'c cron_ops \<Rightarrow> system_time \<Rightarrow> string \<Rightarrow> string + unit \<Rightarrow> 'c scheduler \<Rightarrow> 'c scheduler" where
  "complete_task cron now task_id result s = (case map_of (sch_tasks s) task_id of
     None \<Rightarrow> s
   | Some entry \<Rightarrow>
       let task = entry\<lparr> te_running := False \<rparr>;
           next_cycle = (\<lambda>task. case schedule_next cron (te_schedule task) now of
             Some next_run \<Rightarrow> put_task task_id (task\<lparr> te_attempts := 0, te_next_run := next_run \<rparr>) s
           | None \<Rightarrow> remove_task task_id s)
       in if sch_shutdown s \<or> flag_set s (te_cancelled task) then remove_task task_id s
          else case result of
            Inl err \<Rightarrow>
              let task = task\<lparr> te_last_error := redact_text err \<rparr> in
              if te_attempts task < rt_max_attempts (te_retry task) then
                let (delay, s') = retry_delay (te_retry task) (te_attempts task) s in
                (case time_checked_add now delay of
                   Some next_run \<Rightarrow> put_task task_id (task\<lparr> te_next_run := next_run \<rparr>) s'
                 | None \<Rightarrow> remove_task task_id s')
              else next_cycle task
          | Inr _ \<Rightarrow> next_cycle (task\<lparr> te_last_error := None \<rparr>))"

definition release_active :: "'c scheduler \<Rightarrow> 'c scheduler" where
  "release_active s = s\<lparr> sch_active := sch_active s - 1 \<rparr>"

text \<open>The scan under the lock: cancelled tasks go, due ones are ordered by priority, time and registration, and as many as
  there is room for are marked running.\<close>

definition due_key :: "string \<times> 'c task_entry \<Rightarrow> nat \<times> int \<times> nat" where
  "due_key p = (255 - unat (te_priority (snd p)), te_next_run (snd p), unat (te_order (snd p)))"

definition due_tasks :: "system_time \<Rightarrow> nat \<Rightarrow> (string, 'c task_entry) omap \<Rightarrow> string list" where
  "due_tasks now available tasks =
     map fst (take available (sort_key due_key (filter (\<lambda>(_, t). \<not> te_running t \<and> te_next_run t \<le> now) tasks)))"

definition mark_running :: "string \<Rightarrow> (string, 'c task_entry) omap \<Rightarrow> (string, 'c task_entry) omap" where
  "mark_running task_id tasks = (case map_of tasks task_id of
     Some t \<Rightarrow> om_put task_id (t\<lparr> te_running := True, te_attempts := sat_add (te_attempts t) 1 \<rparr>) tasks | None \<Rightarrow> tasks)"

definition plan_due :: "system_time \<Rightarrow> nat \<Rightarrow> 'c scheduler \<Rightarrow> string list \<times> 'c scheduler" where
  "plan_due now available s =
     (let kept = om_retain (\<lambda>_ t. te_running t \<or> \<not> flag_set s (te_cancelled t)) (sch_tasks s);
          due = due_tasks now available kept
      in (due, s\<lparr> sch_tasks := fold mark_running due kept \<rparr>))"

definition thread_finished :: "'c scheduler \<Rightarrow> nat \<Rightarrow> bool" where
  "thread_finished s i \<longleftrightarrow> i < length (sch_threads s) \<and> sch_threads s ! i = Th_Finished"

definition task_context_of :: "string \<Rightarrow> 'c task_entry \<Rightarrow> task_context" where
  "task_context_of task_id t = \<lparr> tc_task_id = task_id, tc_attempt = te_attempts t, tc_cancelled = te_cancelled t, tc_trace = te_trace t \<rparr>"

text \<open>One step of the coordinator. \<open>now\<close> is the clock if it is read, \<open>spawned\<close> says whether the system could create the thread. Waiting
  for the wake-up and joining a thread that has not finished leave the state as it is.\<close>

definition coordinator_step :: "'c cron_ops \<Rightarrow> system_time \<Rightarrow> bool \<Rightarrow> 'c scheduler \<Rightarrow> 'c scheduler" where
  "coordinator_step cron now spawned s =
     (let goto = (\<lambda>pc s. s\<lparr> sch_coordinator := pc \<rparr>) in
      case sch_coordinator s of
        Co_Check \<Rightarrow> goto (if sch_shutdown s then Co_Take else Co_Reap) s
      | Co_Reap \<Rightarrow> goto Co_Load (s\<lparr> sch_handles := filter (\<lambda>i. \<not> thread_finished s i) (sch_handles s) \<rparr>)
      | Co_Load \<Rightarrow> goto (Co_Plan (sc_max_concurrent_tasks (sch_config s) - sch_active s)) s
      | Co_Plan available \<Rightarrow> (case plan_due now available s of (due, s') \<Rightarrow> goto (Co_Spawn due) s')
      | Co_Spawn [] \<Rightarrow> goto Co_Wait s
      | Co_Spawn (task_id # rest) \<Rightarrow> (case map_of (sch_tasks s) task_id of
            None \<Rightarrow> goto (Co_Spawn rest) s
          | Some t \<Rightarrow> goto (Co_Active (te_callback t) (task_context_of task_id t) rest) s)
      | Co_Active callback context rest \<Rightarrow> goto (Co_Start callback context rest) (s\<lparr> sch_active := sch_active s + 1 \<rparr>)
      | Co_Start callback context rest \<Rightarrow>
          if spawned then goto (Co_Spawn rest) (s\<lparr> sch_threads := sch_threads s @ [Th_Callback callback context],
            sch_handles := sch_handles s @ [length (sch_threads s)] \<rparr>)
          else goto (Co_Failed context rest) s
      | Co_Failed context rest \<Rightarrow>
          goto (Co_FailedRelease rest) (complete_task cron now (tc_task_id context) (Inl ''worker could not start'') s)
      | Co_FailedRelease rest \<Rightarrow> goto (Co_Spawn rest) (release_active s)
      | Co_Wait \<Rightarrow> goto Co_Check s
      | Co_Take \<Rightarrow> goto (Co_Join (sch_handles s)) (s\<lparr> sch_handles := [] \<rparr>)
      | Co_Join [] \<Rightarrow> goto Co_Clear s
      | Co_Join (i # rest) \<Rightarrow> if thread_finished s i then goto (Co_Join rest) s else s
      | Co_Clear \<Rightarrow> goto Co_Exited (s\<lparr> sch_tasks := [] \<rparr>)
      | Co_Exited \<Rightarrow> s)"

text \<open>One step of a worker; \<open>result\<close> is what its callback returned, a panic being an error.\<close>

definition thread_step :: "'c cron_ops \<Rightarrow> system_time \<Rightarrow> string + unit \<Rightarrow> nat \<Rightarrow> 'c scheduler \<Rightarrow> 'c scheduler" where
  "thread_step cron now result i s =
     (let goto = (\<lambda>pc s. s\<lparr> sch_threads := (sch_threads s)[i := pc] \<rparr>) in
      if length (sch_threads s) \<le> i then s
      else case sch_threads s ! i of
        Th_Callback _ context \<Rightarrow> goto (Th_Complete context result) s
      | Th_Complete context returned \<Rightarrow> goto Th_Release (complete_task cron now (tc_task_id context) returned s)
      | Th_Release \<Rightarrow> goto Th_Finished (release_active s)
      | Th_Finished \<Rightarrow> s)"

text \<open>What the program can do next: clients, the coordinator and the workers, in any order.\<close>

inductive sched_step :: "'c cron_ops \<Rightarrow> 'c scheduler \<Rightarrow> 'c scheduler \<Rightarrow> bool" for cron where
  schedule: "task_validate cron task = Ok () \<Longrightarrow> parse_schedule cron now (stk_schedule task) = Ok (parsed, next_run) \<Longrightarrow>
    sched_step cron s (snd (schedule_insert task callback parsed next_run s))"
| cancel: "sched_step cron s (snd (scheduler_cancel task_id s))"
| cancel_handle: "sched_step cron s (handle_cancel h s)"
| shutdown_flag: "sched_step cron s (shutdown_flag s)"
| shutdown_cancel: "sch_shutdown s \<Longrightarrow> sched_step cron s (shutdown_cancel s)"
| coordinator: "sched_step cron s (coordinator_step cron now spawned s)"
| thread: "sched_step cron s (thread_step cron now result i s)"

inductive sched_reachable :: "'c cron_ops \<Rightarrow> 'c scheduler \<Rightarrow> bool" for cron where
  start: "scheduler_new config seed = Ok s \<Longrightarrow> sched_reachable cron s"
| step: "sched_reachable cron s \<Longrightarrow> sched_step cron s s' \<Longrightarrow> sched_reachable cron s'"

end
