(* ===== verification/Scheduler_Safety.thy ===== *)
theory Scheduler_Safety
  imports Scheduler "HOL-Library.Multiset"
begin

text \<open>
  The scheduler under every interleaving of clients, coordinator and workers: who owns a running task, how many
  executions there are, and what is left when the coordinator has returned.
\<close>

section \<open>Tasks and their owners\<close>

definition task_ok :: "'c task_entry \<Rightarrow> bool" where
  "task_ok t \<longleftrightarrow> te_attempts t \<le> rt_max_attempts (te_retry t) \<and> 0 < rt_max_attempts (te_retry t) \<and>
     (if te_running t then 0 < te_attempts t else te_attempts t < rt_max_attempts (te_retry t))"

definition running_task :: "(string, 'c task_entry) omap \<Rightarrow> string \<Rightarrow> bool" where
  "running_task tasks x \<longleftrightarrow> (\<exists>t. map_of tasks x = Some t \<and> te_running t)"

text \<open>A running task has exactly one owner: an execution that has its context, or the coordinator that is about to start it.\<close>

definition tasks_inv :: "nat \<Rightarrow> (string, 'c task_entry) omap \<Rightarrow> task_context multiset \<Rightarrow> string multiset \<Rightarrow> bool" where
  "tasks_inv n tasks C W \<longleftrightarrow> omap_ok tasks \<and> length tasks \<le> n \<and> (\<forall>x t. map_of tasks x = Some t \<longrightarrow> task_ok t) \<and>
     (\<forall>x. count (image_mset tc_task_id C + W) x = of_bool (running_task tasks x)) \<and>
     (\<forall>c\<in>#C. \<exists>t. map_of tasks (tc_task_id c) = Some t \<and> te_attempts t = tc_attempt c)"

lemma length_om_put: "omap_ok m \<Longrightarrow> length (om_put k v m) = (if map_of m k = None then Suc (length m) else length m)"
proof (induction m)
  case (Cons p m)
  obtain k' v' where p: "p = (k', v')" by (cases p)
  have gt: "\<forall>x\<in>fst ` set m. k' < x" and ok: "omap_ok m" using Cons.prems p by (auto simp: omap_ok_Cons)
  have "map_of m k = None" if "k < k'" using gt that by (force simp: map_of_eq_None_iff)
  then show ?case using Cons.IH [OF ok] p by auto
qed simp

lemma length_om_del: "length (om_del k m) \<le> length m"
  by (simp add: om_del_def)

lemma running_put: "omap_ok m \<Longrightarrow> running_task (om_put k t m) x = (if x = k then te_running t else running_task m x)"
  by (auto simp: running_task_def)

lemma running_del: "running_task (om_del k m) x \<longleftrightarrow> x \<noteq> k \<and> running_task m x"
  by (auto simp: running_task_def)

lemma tasks_inv_owner:
  assumes "tasks_inv n tasks C W" "k \<in># image_mset tc_task_id C + W"
  shows "running_task tasks k"
proof -
  have "count (image_mset tc_task_id C + W) k = of_bool (running_task tasks k)" using assms(1) unfolding tasks_inv_def by blast
  moreover have "0 < count (image_mset tc_task_id C + W) k" using assms(2) by (simp only: count_greater_zero_iff)
  ultimately show ?thesis by (cases "running_task tasks k") simp_all
qed

lemma context_owned: "c \<in># C \<Longrightarrow> tc_task_id c \<in># image_mset tc_task_id C + W"
  by (metis image_eqI set_image_mset union_iff)

lemma tasks_inv_insert:
  assumes "tasks_inv n tasks C W" "map_of tasks k = None" "length tasks < n" "task_ok e" "\<not> te_running e"
  shows "tasks_inv n (om_put k e tasks) C W"
proof -
  have ok: "omap_ok tasks" using assms(1) by (simp add: tasks_inv_def)
  have "running_task (om_put k e tasks) x = running_task tasks x" for x
    using assms(2,5) by (cases "x = k") (simp_all add: running_put [OF ok], simp add: running_task_def)
  moreover have "tc_task_id c \<noteq> k" if "c \<in># C" for c using assms(1,2) that by (auto simp: tasks_inv_def)
  ultimately show ?thesis using assms ok by (auto simp: tasks_inv_def length_om_put)
qed

text \<open>The end of an execution gives up its task, which is removed or waits again.\<close>

lemma tasks_inv_finish:
  assumes inv: "tasks_inv n tasks (add_mset c C) W"
    and tasks': "tasks' = om_del (tc_task_id c) tasks \<or> (\<exists>t. tasks' = om_put (tc_task_id c) t tasks \<and> task_ok t \<and> \<not> te_running t)"
  shows "tasks_inv n tasks' C W"
proof -
  let ?k = "tc_task_id c"
  have ok: "omap_ok tasks" "length tasks \<le> n" using inv by (simp_all add: tasks_inv_def)
  have cnt: "count (image_mset tc_task_id (add_mset c C) + W) x = of_bool (running_task tasks x)" for x
    using inv by (simp add: tasks_inv_def)
  obtain t0 where t0: "map_of tasks ?k = Some t0" using inv by (auto simp: tasks_inv_def)
  have one: "count (image_mset tc_task_id C + W) ?k = 0" using cnt [of ?k] by (auto simp: of_bool_def split: if_splits)
  have run: "running_task tasks' x \<longleftrightarrow> x \<noteq> ?k \<and> running_task tasks x" for x
    using tasks' by (auto simp: running_put [OF ok(1)] running_del split: if_splits)
  have cnt': "count (image_mset tc_task_id C + W) x = of_bool (running_task tasks' x)" for x
    using cnt [of x] one by (cases "x = ?k") (auto simp: run)
  have other: "tc_task_id c' \<noteq> ?k" if "c' \<in># C" for c'
  proof
    assume "tc_task_id c' = ?k"
    then have "?k \<in># image_mset tc_task_id C + W" using context_owned [OF that] by metis
    then show False using one by (simp add: not_in_iff [symmetric])
  qed
  have look: "map_of tasks' x = map_of tasks x" if "x \<noteq> ?k" for x using tasks' that ok(1) by auto
  have t': "\<forall>x t. map_of tasks' x = Some t \<longrightarrow> task_ok t"
    using tasks' inv ok(1) by (auto simp: tasks_inv_def split: if_splits)
  have len: "length tasks' \<le> n" "omap_ok tasks'"
    using tasks' ok t0 length_om_del [of ?k tasks] by (auto simp: length_om_put)
  have "\<exists>t. map_of tasks' (tc_task_id c') = Some t \<and> te_attempts t = tc_attempt c'" if "c' \<in># C" for c'
    using inv that look [OF other [OF that]] by (simp add: tasks_inv_def)
  then show ?thesis using len t' cnt' by (simp add: tasks_inv_def)
qed

lemma tasks_inv_start:
  assumes "tasks_inv n tasks C (add_mset k W)"
  obtains t where "map_of tasks k = Some t" "tasks_inv n tasks (add_mset (task_context_of k t) C) W"
proof -
  have "running_task tasks k" by (rule tasks_inv_owner [OF assms]) simp
  then obtain t where t: "map_of tasks k = Some t" by (auto simp: running_task_def)
  have "tasks_inv n tasks (add_mset (task_context_of k t) C) W"
    using assms t by (auto simp: tasks_inv_def task_context_of_def)
  then show thesis using that t by blast
qed

lemma tasks_inv_clear: "tasks_inv n tasks {#} {#} \<Longrightarrow> tasks_inv n [] {#} {#}"
  by (simp add: tasks_inv_def running_task_def)

text \<open>The scan: what it drops is not running, what it takes becomes running and waits for its start.\<close>

lemma tasks_inv_retain:
  assumes "tasks_inv n tasks C W" "\<forall>x t. te_running t \<longrightarrow> P x t"
  shows "tasks_inv n (om_retain P tasks) C W"
proof -
  have ok: "omap_ok tasks" using assms(1) by (simp add: tasks_inv_def)
  have d: "distinct (map fst tasks)" using omap_ok_distinct [OF ok] by (simp add: om_keys_def)
  have look: "map_of (om_retain P tasks) x = (case map_of tasks x of Some t \<Rightarrow> if P x t then Some t else None | None \<Rightarrow> None)" for x
    using d by (induction tasks) (auto simp: om_retain_def split: option.splits dest: map_of_SomeD intro: rev_image_eqI)
  have "running_task (om_retain P tasks) x = running_task tasks x" for x
    using assms(2) by (auto simp: running_task_def look split: option.splits)
  moreover have "te_running t" if "c \<in># C" "map_of tasks (tc_task_id c) = Some t" for c t
  proof -
    have "running_task tasks (tc_task_id c)" by (rule tasks_inv_owner [OF assms(1) context_owned [OF that(1)]])
    then show ?thesis using that(2) by (simp add: running_task_def)
  qed
  moreover have "length (om_retain P tasks) \<le> length tasks" by (simp add: om_retain_def)
  ultimately show ?thesis using assms ok unfolding tasks_inv_def
    by (auto simp: look omap_ok_retain split: option.splits if_splits)
qed

lemma mark_running_inv:
  assumes "tasks_inv n tasks C W" "map_of tasks k = Some t" "\<not> te_running t"
  shows "tasks_inv n (mark_running k tasks) C (add_mset k W)"
proof -
  let ?t = "t\<lparr> te_running := True, te_attempts := sat_add (te_attempts t) 1 \<rparr>"
  have ok: "omap_ok tasks" and t: "task_ok t" using assms by (auto simp: tasks_inv_def)
  have lt: "te_attempts t < rt_max_attempts (te_retry t)" using t assms(3) by (simp add: task_ok_def)
  have "unat (te_attempts t) + 1 < 2 ^ 32" using lt unsigned_less [of "rt_max_attempts (te_retry t)", where ?'a = nat] by (simp add: word_less_nat_alt)
  then have "unat (sat_add (te_attempts t) 1) = unat (te_attempts t) + 1" by (simp add: sat_add_def unat_word_ariths)
  then have "task_ok ?t" using t lt by (auto simp: task_ok_def word_less_nat_alt word_le_nat_alt)
  moreover have "tc_task_id c \<noteq> k" if "c \<in># C" for c
  proof
    assume "tc_task_id c = k"
    then have "running_task tasks k" using tasks_inv_owner [OF assms(1)] context_owned [OF that] by blast
    then show False using assms(2,3) by (simp add: running_task_def)
  qed
  moreover have "count (image_mset tc_task_id C + add_mset k W) x = of_bool (running_task (om_put k ?t tasks) x)" for x
  proof -
    have "count (image_mset tc_task_id C + W) x = of_bool (running_task tasks x)" using assms(1) unfolding tasks_inv_def by blast
    then show ?thesis using assms(2,3) by (cases "x = k") (simp_all add: running_put [OF ok] running_task_def [of tasks k])
  qed
  ultimately show ?thesis using assms ok unfolding tasks_inv_def
    by (auto simp: mark_running_def length_om_put)
qed

lemma fold_mark_running_inv:
  assumes "tasks_inv n tasks C W" "distinct ks" "\<forall>k\<in>set ks. \<exists>t. map_of tasks k = Some t \<and> \<not> te_running t"
  shows "tasks_inv n (fold mark_running ks tasks) C (mset ks + W)"
  using assms
proof (induction ks arbitrary: tasks W)
  case (Cons k ks)
  then obtain t where t: "map_of tasks k = Some t" "\<not> te_running t" by auto
  have ok: "omap_ok tasks" using Cons.prems(1) by (simp add: tasks_inv_def)
  have "\<forall>k'\<in>set ks. \<exists>t. map_of (mark_running k tasks) k' = Some t \<and> \<not> te_running t"
    using Cons.prems(2,3) t ok by (auto simp: mark_running_def)
  from Cons.IH [OF mark_running_inv [OF Cons.prems(1) t] _ this] Cons.prems(2) show ?case by simp
qed simp

lemma due_tasks_props:
  assumes "omap_ok tasks"
  shows "distinct (due_tasks now a tasks)" "length (due_tasks now a tasks) \<le> a"
    "\<forall>k\<in>set (due_tasks now a tasks). \<exists>t. map_of tasks k = Some t \<and> \<not> te_running t"
proof -
  let ?f = "filter (\<lambda>(_, t). \<not> te_running t \<and> te_next_run t \<le> now) tasks"
  have d: "distinct (map fst tasks)" using omap_ok_distinct [OF assms] by (simp add: om_keys_def)
  have "distinct ?f" "inj_on fst (set ?f)"
    using distinct_map_filter [OF d, of "\<lambda>(_, t). \<not> te_running t \<and> te_next_run t \<le> now"] unfolding distinct_map by blast+
  then have "distinct (map fst (sort_key due_key ?f))" unfolding distinct_map distinct_sort set_sort by blast
  then show "distinct (due_tasks now a tasks)" unfolding due_tasks_def take_map [symmetric] by (rule distinct_take)
  show "length (due_tasks now a tasks) \<le> a" by (simp add: due_tasks_def)
  show "\<forall>k\<in>set (due_tasks now a tasks). \<exists>t. map_of tasks k = Some t \<and> \<not> te_running t"
  proof
    fix k assume "k \<in> set (due_tasks now a tasks)"
    then obtain t where "(k, t) \<in> set (take a (sort_key due_key ?f))" by (auto simp: due_tasks_def)
    then have "(k, t) \<in> set (sort_key due_key ?f)" by (rule in_set_takeD)
    then have "(k, t) \<in> set ?f" by simp
    then show "\<exists>t. map_of tasks k = Some t \<and> \<not> te_running t" using d by auto
  qed
qed

section \<open>Threads\<close>

fun thread_contexts :: "sched_thread \<Rightarrow> task_context multiset" where
  "thread_contexts (Th_Callback _ c) = {#c#}"
| "thread_contexts (Th_Complete c _) = {#c#}"
| "thread_contexts _ = {#}"

fun co_contexts :: "coordinator \<Rightarrow> task_context multiset" where
  "co_contexts (Co_Active _ c _) = {#c#}"
| "co_contexts (Co_Start _ c _) = {#c#}"
| "co_contexts (Co_Failed c _) = {#c#}"
| "co_contexts _ = {#}"

fun co_waiting :: "coordinator \<Rightarrow> string list" where
  "co_waiting (Co_Spawn ks) = ks"
| "co_waiting (Co_Active _ _ ks) = ks"
| "co_waiting (Co_Start _ _ ks) = ks"
| "co_waiting (Co_Failed _ ks) = ks"
| "co_waiting (Co_FailedRelease ks) = ks"
| "co_waiting _ = []"

fun co_busy :: "coordinator \<Rightarrow> nat" where
  "co_busy (Co_Start _ _ _) = 1"
| "co_busy (Co_Failed _ _) = 1"
| "co_busy (Co_FailedRelease _) = 1"
| "co_busy _ = 0"

fun co_room :: "coordinator \<Rightarrow> nat" where
  "co_room (Co_Plan a) = a"
| "co_room (Co_Active _ _ ks) = Suc (length ks)"
| "co_room pc = length (co_waiting pc)"

fun co_joining :: "coordinator \<Rightarrow> nat list" where
  "co_joining (Co_Join is) = is"
| "co_joining _ = []"

fun co_closing :: "coordinator \<Rightarrow> bool" where
  "co_closing Co_Take = True"
| "co_closing (Co_Join _) = True"
| "co_closing Co_Clear = True"
| "co_closing Co_Exited = True"
| "co_closing _ = False"

definition contexts_of :: "sched_thread multiset \<Rightarrow> task_context multiset" where
  "contexts_of T = \<Sum>\<^sub># (image_mset thread_contexts T)"

definition busy_of :: "sched_thread multiset \<Rightarrow> nat" where
  "busy_of T = size (filter_mset (\<lambda>t. t \<noteq> Th_Finished) T)"

lemma contexts_of_simps [simp]: "contexts_of {#} = {#}" "contexts_of (add_mset t T) = thread_contexts t + contexts_of T"
  by (simp_all add: contexts_of_def)

lemma busy_of_simps [simp]: "busy_of {#} = 0" "busy_of (add_mset t T) = (if t = Th_Finished then 0 else 1) + busy_of T"
  by (simp_all add: busy_of_def)

definition sched_inv :: "'c scheduler \<Rightarrow> bool" where
  "sched_inv s \<longleftrightarrow>
     tasks_inv (sc_max_tasks (sch_config s)) (sch_tasks s)
       (contexts_of (mset (sch_threads s)) + co_contexts (sch_coordinator s)) (mset (co_waiting (sch_coordinator s))) \<and>
     sch_active s = busy_of (mset (sch_threads s)) + co_busy (sch_coordinator s) \<and>
     sch_active s + co_room (sch_coordinator s) \<le> sc_max_concurrent_tasks (sch_config s) \<and>
     (\<forall>i<length (sch_threads s). sch_threads s ! i \<noteq> Th_Finished \<longrightarrow> i \<in> set (sch_handles s) \<union> set (co_joining (sch_coordinator s))) \<and>
     (co_closing (sch_coordinator s) \<longrightarrow> sch_shutdown s) \<and>
     (sch_coordinator s \<in> {Co_Clear, Co_Exited} \<longrightarrow> sch_handles s = []) \<and>
     ((\<exists>is. sch_coordinator s = Co_Join is) \<longrightarrow> sch_handles s = []) \<and>
     (sch_coordinator s = Co_Exited \<longrightarrow> sch_tasks s = [])"

lemma retry_delay_state: "\<exists>d j. retry_delay p a s = (d, s\<lparr> sch_jitter_state := j \<rparr>)"
proof -
  have "\<exists>x j. draw_jitter b s = (x, s\<lparr> sch_jitter_state := j \<rparr>)" for b
  proof (cases "draw_jitter b s = (0, s)")
    case True
    then show ?thesis by (intro exI [of _ 0] exI [of _ "sch_jitter_state s"]) simp
  next
    case False
    then show ?thesis unfolding draw_jitter_def Let_def by (metis (no_types))
  qed
  then obtain x j where "draw_jitter (rt_jitter p) s = (x, s\<lparr> sch_jitter_state := j \<rparr>)" by blast
  then show ?thesis unfolding retry_delay_def Let_def by (simp only: prod.case) blast
qed

text \<open>What \<open>complete_task\<close> leaves: the task is gone, or it waits again within its attempts.\<close>

lemma complete_task_cases:
  assumes t: "map_of (sch_tasks s) k = Some t" "task_ok t"
  shows "\<exists>X j. complete_task cron now k r s = s\<lparr> sch_tasks := X, sch_jitter_state := j \<rparr> \<and>
    (X = om_del k (sch_tasks s) \<or> (\<exists>t. X = om_put k t (sch_tasks s) \<and> task_ok t \<and> \<not> te_running t))"
    (is "\<exists>X j. _ = _ \<and> ?waits X")
proof -
  let ?P = "\<lambda>s'. \<exists>X j. s' = s\<lparr> sch_tasks := X, sch_jitter_state := j \<rparr> \<and> ?waits X"
  have pos: "0 < rt_max_attempts (te_retry t)" using t(2) by (simp add: task_ok_def)
  have rem: "?P (remove_task k (s\<lparr> sch_jitter_state := j \<rparr>))" for j
    unfolding remove_task_def by (rule exI [of _ "om_del k (sch_tasks s)"], rule exI [of _ j]) simp
  have put: "?P (put_task k x (s\<lparr> sch_jitter_state := j \<rparr>))" if "task_ok x" "\<not> te_running x" for x j
    unfolding put_task_def by (rule exI [of _ "om_put k x (sch_tasks s)"], rule exI [of _ j]) (use that in auto)
  have same: "s\<lparr> sch_jitter_state := sch_jitter_state s \<rparr> = s" by simp
  note rem0 = rem [of "sch_jitter_state s", unfolded same] and put0 = put [of _ "sch_jitter_state s", unfolded same]
  have cycle: "?P (case nxt of Some n \<Rightarrow> put_task k (x\<lparr> te_attempts := 0, te_next_run := n \<rparr>) s | None \<Rightarrow> remove_task k s)"
    if "te_retry x = te_retry t" "\<not> te_running x" for nxt x
    using that rem0 put0 [of "x\<lparr> te_attempts := 0, te_next_run := the nxt \<rparr>"] pos by (cases nxt) (simp_all add: task_ok_def)
  obtain d j where rd: "retry_delay (te_retry t) (te_attempts t) s = (d, s\<lparr> sch_jitter_state := j \<rparr>)"
    using retry_delay_state by blast
  have retry: "?P (case time_checked_add now d of
        Some n \<Rightarrow> put_task k (t\<lparr> te_running := False, te_last_error := e, te_next_run := n \<rparr>) (s\<lparr> sch_jitter_state := j \<rparr>)
      | None \<Rightarrow> remove_task k (s\<lparr> sch_jitter_state := j \<rparr>))" if "te_attempts t < rt_max_attempts (te_retry t)" for e
    using that rem [of j] put [of _ j] pos by (cases "time_checked_add now d") (simp_all add: task_ok_def)
  show ?thesis
    using rem0 retry cycle [of "t\<lparr> te_running := False, te_last_error := None \<rparr>"] cycle [of "t\<lparr> te_running := False, te_last_error := redact_text e \<rparr>" for e]
    by (cases r) (simp_all add: complete_task_def t Let_def rd)
qed

lemma mset_update_at:
  assumes "i < length ts"
  obtains R where "mset ts = add_mset (ts ! i) R" "\<And>x. mset (ts[i := x]) = add_mset x R"
  using assms that [of "mset ts - {#ts ! i#}"] by (simp add: mset_update)

lemma sched_inv_thread: "sched_inv s \<Longrightarrow> sched_inv (thread_step cron now r i s)"
proof (cases "i < length (sch_threads s)")
  case i: True
  assume inv: "sched_inv s"
  obtain R where R: "mset (sch_threads s) = add_mset (sch_threads s ! i) R" "\<And>x. mset ((sch_threads s)[i := x]) = add_mset x R"
    by (rule mset_update_at [OF i]) blast
  have handles: "\<forall>j<length (sch_threads s). (sch_threads s)[i := x] ! j \<noteq> Th_Finished \<longrightarrow> j \<in> set (sch_handles s) \<union> set (co_joining (sch_coordinator s))"
    if "sch_threads s ! i \<noteq> Th_Finished" for x
    using inv that i by (auto simp: sched_inv_def nth_list_update split: if_splits)
  have alive: "sch_coordinator s \<noteq> Co_Exited" if "sch_threads s ! i \<noteq> Th_Finished"
    using inv that i by (auto simp: sched_inv_def)
  show ?thesis
  proof (cases "sch_threads s ! i")
    case (Th_Callback cb c)
    then show ?thesis using inv R i handles by (simp add: thread_step_def sched_inv_def Let_def)
  next
    case (Th_Complete c res)
    let ?W = "mset (co_waiting (sch_coordinator s))"
    have ti: "tasks_inv (sc_max_tasks (sch_config s)) (sch_tasks s) (add_mset c (contexts_of R + co_contexts (sch_coordinator s))) ?W"
      using inv R Th_Complete by (simp add: sched_inv_def)
    then obtain t where t: "map_of (sch_tasks s) (tc_task_id c) = Some t" "task_ok t" by (auto simp: tasks_inv_def)
    obtain X j where X: "complete_task cron now (tc_task_id c) res s = s\<lparr> sch_tasks := X, sch_jitter_state := j \<rparr>"
        "X = om_del (tc_task_id c) (sch_tasks s) \<or> (\<exists>t. X = om_put (tc_task_id c) t (sch_tasks s) \<and> task_ok t \<and> \<not> te_running t)"
      using complete_task_cases [OF t] by blast
    have "tasks_inv (sc_max_tasks (sch_config s)) X (contexts_of R + co_contexts (sch_coordinator s)) ?W"
      by (rule tasks_inv_finish [OF ti X(2)])
    then show ?thesis using inv R i handles alive Th_Complete X(1) by (simp add: thread_step_def sched_inv_def Let_def)
  next
    case Th_Release
    then show ?thesis using inv R i handles by (simp add: thread_step_def sched_inv_def Let_def release_active_def)
  next
    case Th_Finished
    then show ?thesis using inv by (simp add: thread_step_def Let_def)
  qed
qed (simp add: thread_step_def)

lemma sched_inv_plan:
  assumes inv: "sched_inv s" and pc: "sch_coordinator s = Co_Plan a" and plan: "plan_due now a s = (due, s')"
  shows "sched_inv (s'\<lparr> sch_coordinator := Co_Spawn due \<rparr>)"
proof -
  let ?n = "sc_max_tasks (sch_config s)" and ?C = "contexts_of (mset (sch_threads s))"
  let ?kept = "om_retain (\<lambda>_ t. te_running t \<or> \<not> flag_set s (te_cancelled t)) (sch_tasks s)"
  have s': "due = due_tasks now a ?kept" "s' = s\<lparr> sch_tasks := fold mark_running due ?kept \<rparr>"
    using plan by (auto simp: plan_due_def Let_def)
  have k: "tasks_inv ?n ?kept ?C {#}"
    by (rule tasks_inv_retain) (use inv pc in \<open>auto simp: sched_inv_def\<close>)
  then have ok: "omap_ok ?kept" by (simp add: tasks_inv_def)
  note d = due_tasks_props [OF ok, of now a, folded s'(1)]
  have "tasks_inv ?n (fold mark_running due ?kept) ?C (mset due)" using fold_mark_running_inv [OF k d(1,3)] by simp
  then show ?thesis using inv pc d(2) by (simp add: s'(2) sched_inv_def)
qed

lemma sched_inv_failed:
  assumes inv: "sched_inv s" and pc: "sch_coordinator s = Co_Failed c ks"
  shows "sched_inv (complete_task cron now (tc_task_id c) r s\<lparr> sch_coordinator := Co_FailedRelease ks \<rparr>)"
proof -
  let ?n = "sc_max_tasks (sch_config s)" and ?C = "contexts_of (mset (sch_threads s))"
  have ti: "tasks_inv ?n (sch_tasks s) (add_mset c ?C) (mset ks)" using inv pc by (simp add: sched_inv_def)
  then obtain t where t: "map_of (sch_tasks s) (tc_task_id c) = Some t" "task_ok t" by (auto simp: tasks_inv_def)
  obtain X j where X: "complete_task cron now (tc_task_id c) r s = s\<lparr> sch_tasks := X, sch_jitter_state := j \<rparr>"
      "X = om_del (tc_task_id c) (sch_tasks s) \<or> (\<exists>t. X = om_put (tc_task_id c) t (sch_tasks s) \<and> task_ok t \<and> \<not> te_running t)"
    using complete_task_cases [OF t] by blast
  show ?thesis using inv pc tasks_inv_finish [OF ti X(2)] by (simp add: X(1) sched_inv_def)
qed

lemma sched_inv_spawned:
  assumes inv: "sched_inv s" and pc: "sch_coordinator s = Co_Start cb c ks"
  shows "sched_inv (s\<lparr> sch_threads := sch_threads s @ [Th_Callback cb c], sch_handles := sch_handles s @ [length (sch_threads s)],
    sch_coordinator := Co_Spawn ks \<rparr>)"
  using inv pc by (auto simp: sched_inv_def nth_append less_Suc_eq)

lemma sched_inv_joining:
  assumes inv: "sched_inv s" and pc: "sch_coordinator s = Co_Join (i # is)" and done': "thread_finished s i"
  shows "sched_inv (s\<lparr> sch_coordinator := Co_Join is \<rparr>)"
  using inv pc done' by (auto simp: sched_inv_def thread_finished_def)

lemma contexts_of_finished: "\<forall>t\<in>set ts. t = Th_Finished \<Longrightarrow> contexts_of (mset ts) = {#} \<and> busy_of (mset ts) = 0"
  by (induction ts) auto

lemma sched_inv_clear:
  assumes inv: "sched_inv s" and pc: "sch_coordinator s = Co_Clear"
  shows "sched_inv (s\<lparr> sch_tasks := [], sch_coordinator := Co_Exited \<rparr>)"
proof -
  have "\<forall>t\<in>set (sch_threads s). t = Th_Finished" using inv pc by (auto simp: sched_inv_def in_set_conv_nth)
  then have "contexts_of (mset (sch_threads s)) = {#}" using contexts_of_finished by blast
  then show ?thesis using inv pc tasks_inv_clear by (auto simp: sched_inv_def)
qed

lemma sched_inv_coordinator: "sched_inv s \<Longrightarrow> sched_inv (coordinator_step cron now spawned s)"
proof (cases "sch_coordinator s")
  case (Co_Plan a)
  assume "sched_inv s"
  with Co_Plan show ?thesis using sched_inv_plan [of s a] by (simp add: coordinator_step_def split: prod.split)
next
  case (Co_Spawn ks)
  assume inv: "sched_inv s"
  show ?thesis
  proof (cases ks)
    case Nil
    then show ?thesis using inv Co_Spawn by (simp add: coordinator_step_def sched_inv_def)
  next
    case (Cons k rest)
    have "tasks_inv (sc_max_tasks (sch_config s)) (sch_tasks s) (contexts_of (mset (sch_threads s))) (add_mset k (mset rest))"
      using inv Co_Spawn Cons by (simp add: sched_inv_def)
    then obtain t where "map_of (sch_tasks s) k = Some t"
        "tasks_inv (sc_max_tasks (sch_config s)) (sch_tasks s) (add_mset (task_context_of k t) (contexts_of (mset (sch_threads s)))) (mset rest)"
      by (rule tasks_inv_start)
    then show ?thesis using inv Co_Spawn Cons by (simp add: coordinator_step_def sched_inv_def)
  qed
next
  case (Co_Start cb c ks)
  assume inv: "sched_inv s"
  show ?thesis using sched_inv_spawned [OF inv Co_Start] inv Co_Start by (simp add: coordinator_step_def sched_inv_def [of "s\<lparr>sch_coordinator := _\<rparr>"] sched_inv_def [of s])
next
  case (Co_Failed c ks)
  assume "sched_inv s"
  with Co_Failed show ?thesis using sched_inv_failed by (simp add: coordinator_step_def)
next
  case (Co_Join hs)
  assume inv: "sched_inv s"
  then show ?thesis using Co_Join sched_inv_joining [OF inv]
    by (cases hs) (auto simp: coordinator_step_def sched_inv_def [of "s\<lparr>sch_coordinator := Co_Clear\<rparr>"] sched_inv_def [of s])
next
  case Co_Clear
  assume "sched_inv s"
  with Co_Clear show ?thesis using sched_inv_clear by (simp add: coordinator_step_def)
next
  case Co_Reap
  assume "sched_inv s"
  with Co_Reap show ?thesis by (auto simp: coordinator_step_def sched_inv_def thread_finished_def)
next
  case Co_Take
  assume "sched_inv s"
  with Co_Take show ?thesis by (auto simp: coordinator_step_def sched_inv_def)
qed (auto simp: coordinator_step_def sched_inv_def release_active_def)

section \<open>Reachable states\<close>

lemma sched_inv_flags [simp]: "sched_inv (s\<lparr> sch_flags := f \<rparr>) = sched_inv s"
  by (simp add: sched_inv_def)

lemma set_flag_flags: "\<exists>f. fold (\<lambda>(_, t). set_flag (te_cancelled t)) ts s = s\<lparr> sch_flags := f \<rparr>"
proof (induction ts arbitrary: s)
  case Nil
  show ?case by (intro exI [of _ "sch_flags s"]) simp
next
  case (Cons p ts)
  obtain x t where p: "p = (x, t)" by (cases p)
  obtain f where "fold (\<lambda>(_, t). set_flag (te_cancelled t)) ts (set_flag (te_cancelled t) s) = (set_flag (te_cancelled t) s)\<lparr> sch_flags := f \<rparr>"
    using Cons.IH by blast
  moreover have "(set_flag (te_cancelled t) s)\<lparr> sch_flags := f \<rparr> = s\<lparr> sch_flags := f \<rparr>" by (simp add: set_flag_def)
  ultimately show ?case unfolding p by (intro exI [of _ f]) simp
qed

lemma sched_inv_insert:
  assumes inv: "sched_inv s" and v: "task_validate cron task = Ok ()"
  shows "sched_inv (snd (schedule_insert task cb p n s))"
proof -
  let ?refused = "sch_shutdown s \<or> map_of (sch_tasks s) (stk_id task) \<noteq> None \<or> sc_max_tasks (sch_config s) \<le> length (sch_tasks s)"
  have pos: "0 < rt_max_attempts (stk_retry task)"
    using v by (auto simp: task_validate_def validate_retry_def rbind_Inr_iff word_gt_0 split: if_splits)
  show ?thesis
  proof (cases ?refused)
    case True
    then show ?thesis using inv by (auto simp: schedule_insert_def)
  next
    case False
    then show ?thesis using inv pos
      by (auto simp: schedule_insert_def Let_def sched_inv_def task_ok_def intro!: tasks_inv_insert)
  qed
qed

lemma sched_inv_step: "sched_step cron s s' \<Longrightarrow> sched_inv s \<Longrightarrow> sched_inv s'"
proof (induction rule: sched_step.induct)
  case (shutdown_cancel s)
  obtain f where "shutdown_cancel s = s\<lparr> sch_flags := f \<rparr>" using set_flag_flags unfolding shutdown_cancel_def by blast
  then show ?case using shutdown_cancel by simp
next
  case (shutdown_flag s)
  then show ?case by (simp add: shutdown_flag_def sched_inv_def)
qed (simp_all add: sched_inv_insert sched_inv_coordinator sched_inv_thread scheduler_cancel_def handle_cancel_def set_flag_def split: option.split)

lemma sched_reachable_inv: "sched_reachable cron s \<Longrightarrow> sched_inv s"
proof (induction rule: sched_reachable.induct)
  case (start config seed s)
  then show ?case by (auto simp: scheduler_new_def rbind_Inr_iff sched_inv_def tasks_inv_def running_task_def)
qed (rule sched_inv_step)

lemma distinct_if_count: "(\<And>x. count (mset xs) x \<le> 1) \<Longrightarrow> distinct xs"
proof (induction xs)
  case (Cons a xs)
  have "count (mset xs) a = 0" using Cons.prems [of a] by simp
  then have "a \<notin> set xs" by (metis count_eq_zero_iff set_mset_mset)
  moreover have "count (mset xs) x \<le> count (mset (a # xs)) x" for x by simp
  then have "count (mset xs) x \<le> 1" for x using Cons.prems [of x] order_trans by blast
  ultimately show ?case using Cons.IH by simp
qed simp

fun callback_context :: "sched_thread \<Rightarrow> task_context option" where
  "callback_context (Th_Callback _ c) = Some c"
| "callback_context _ = None"

definition running_contexts :: "'c scheduler \<Rightarrow> task_context list" where
  "running_contexts s = List.map_filter callback_context (sch_threads s)"

lemma running_contexts_owned:
  "mset (List.map_filter callback_context ts) \<subseteq># contexts_of (mset ts) \<and> length (List.map_filter callback_context ts) \<le> busy_of (mset ts)"
proof (induction ts)
  case (Cons t ts)
  then show ?case by (cases t) (auto simp: map_filter_simps intro: subset_mset.order_trans)
qed (simp add: map_filter_simps)

text \<open>C20. The scheduler keeps its bounds under every interleaving of clients, coordinator and workers: at most the configured
  number of callbacks run at once, at most the configured number of tasks is registered, no task ever has two
  callbacks running, each running callback belongs to a registered task and is one of its allowed attempts, and
  once the coordinator has returned, which is what shutdown waits for, no callback runs and no task is left.\<close>

theorem scheduler_bounded:
  assumes "sched_reachable cron s"
  shows "length (running_contexts s) \<le> sch_active s \<and> sch_active s \<le> sc_max_concurrent_tasks (sch_config s) \<and>
    length (sch_tasks s) \<le> sc_max_tasks (sch_config s) \<and> distinct (map tc_task_id (running_contexts s)) \<and>
    (\<forall>c\<in>set (running_contexts s). \<exists>t. map_of (sch_tasks s) (tc_task_id c) = Some t \<and> te_running t \<and>
      0 < tc_attempt c \<and> tc_attempt c \<le> rt_max_attempts (te_retry t)) \<and>
    (sch_coordinator s = Co_Exited \<longrightarrow> running_contexts s = [] \<and> sch_active s = 0 \<and> sch_tasks s = [])"
proof -
  let ?C = "contexts_of (mset (sch_threads s)) + co_contexts (sch_coordinator s)" and ?W = "mset (co_waiting (sch_coordinator s))"
  have inv: "sched_inv s" by (rule sched_reachable_inv [OF assms])
  then have ti: "tasks_inv (sc_max_tasks (sch_config s)) (sch_tasks s) ?C ?W" by (simp add: sched_inv_def)
  have sub: "mset (running_contexts s) \<subseteq># ?C" "length (running_contexts s) \<le> busy_of (mset (sch_threads s))"
    using running_contexts_owned [of "sch_threads s"] by (auto simp: running_contexts_def intro: subset_mset.order_trans)
  have "mset (map tc_task_id (running_contexts s)) \<subseteq># image_mset tc_task_id ?C + ?W"
    using image_mset_subseteq_mono [OF sub(1), of tc_task_id] by (simp add: subset_mset.add_increasing2)
  then have "count (mset (map tc_task_id (running_contexts s))) x \<le> count (image_mset tc_task_id ?C + ?W) x" for x
    by (rule mset_subset_eq_count)
  moreover have "count (image_mset tc_task_id ?C + ?W) x \<le> 1" for x
    using ti unfolding tasks_inv_def by (metis of_bool_eq(1,2) le_numeral_extra(4) zero_le_one)
  ultimately have d: "distinct (map tc_task_id (running_contexts s))"
    by (intro distinct_if_count) (meson order_trans)
  have each: "\<exists>t. map_of (sch_tasks s) (tc_task_id c) = Some t \<and> te_running t \<and> 0 < tc_attempt c \<and> tc_attempt c \<le> rt_max_attempts (te_retry t)"
    if "c \<in> set (running_contexts s)" for c
  proof -
    have c: "c \<in># ?C" using sub(1) that by (metis mset_subset_eqD set_mset_mset)
    then obtain t where t: "map_of (sch_tasks s) (tc_task_id c) = Some t" "te_attempts t = tc_attempt c" "task_ok t"
      using ti unfolding tasks_inv_def by blast
    have "running_task (sch_tasks s) (tc_task_id c)" by (rule tasks_inv_owner [OF ti context_owned [OF c]])
    then have "te_running t" using t(1) by (simp add: running_task_def)
    then show ?thesis using t by (auto simp: task_ok_def)
  qed
  have exited: "running_contexts s = [] \<and> sch_active s = 0 \<and> sch_tasks s = []" if "sch_coordinator s = Co_Exited"
  proof -
    have "\<forall>t\<in>set (sch_threads s). t = Th_Finished" using inv that by (auto simp: sched_inv_def in_set_conv_nth)
    then have "busy_of (mset (sch_threads s)) = 0" using contexts_of_finished by blast
    then show ?thesis using inv that sub(2) by (simp add: sched_inv_def)
  qed
  have "length (running_contexts s) \<le> sch_active s" "sch_active s \<le> sc_max_concurrent_tasks (sch_config s)"
      "length (sch_tasks s) \<le> sc_max_tasks (sch_config s)"
    using inv sub(2) ti by (auto simp: sched_inv_def tasks_inv_def)
  then show ?thesis using d each exited by blast
qed

text \<open>One task, due at once, up to the moment its callback runs.\<close>

definition example_cron :: "unit cron_ops" where
  "example_cron = \<lparr> cron_parse = (\<lambda>_. Err ''no cron''), cron_after = (\<lambda>_ _. None) \<rparr>"

definition example_task :: scheduled_task where
  "example_task = \<lparr> stk_id = ''t1'', stk_schedule = TS_Once 5, stk_retry = retry_policy_default, stk_priority = 1, stk_trace = None \<rparr>"

definition example_state :: "coordinator \<Rightarrow> bool \<Rightarrow> u32 \<Rightarrow> nat \<Rightarrow> sched_thread list \<Rightarrow> unit scheduler" where
  "example_state pc run attempts active threads = \<lparr> sch_config = scheduler_config_default,
     sch_tasks = [(''t1'', \<lparr> te_schedule = PS_Once, te_retry = retry_policy_default, te_priority = 1, te_callback = 0, te_cancelled = 0,
       te_next_run = 5, te_running = run, te_attempts = attempts, te_order = 1, te_last_error = None, te_trace = None \<rparr>)],
     sch_flags = [False], sch_shutdown = False, sch_active = active, sch_sequence = 2, sch_jitter_state = 7, sch_threads = threads,
     sch_handles = [0..<length threads], sch_coordinator = pc \<rparr>"

definition example_context :: task_context where
  "example_context = \<lparr> tc_task_id = ''t1'', tc_attempt = 1, tc_cancelled = 0, tc_trace = None \<rparr>"

lemma example_steps:
  "snd (schedule_insert example_task 0 PS_Once 5 (projr (scheduler_new scheduler_config_default 7))) = example_state Co_Check False 0 0 []"
  "coordinator_step example_cron 10 True (example_state Co_Check False 0 0 []) = example_state Co_Reap False 0 0 []"
  "coordinator_step example_cron 10 True (example_state Co_Reap False 0 0 []) = example_state Co_Load False 0 0 []"
  "coordinator_step example_cron 10 True (example_state Co_Load False 0 0 []) = example_state (Co_Plan 4) False 0 0 []"
  "coordinator_step example_cron 10 True (example_state (Co_Plan 4) False 0 0 []) = example_state (Co_Spawn [''t1'']) True 1 0 []"
  "coordinator_step example_cron 10 True (example_state (Co_Spawn [''t1'']) True 1 0 []) = example_state (Co_Active 0 example_context []) True 1 0 []"
  "coordinator_step example_cron 10 True (example_state (Co_Active 0 example_context []) True 1 0 []) = example_state (Co_Start 0 example_context []) True 1 1 []"
  "coordinator_step example_cron 10 True (example_state (Co_Start 0 example_context []) True 1 1 []) =
     example_state (Co_Spawn []) True 1 1 [Th_Callback 0 example_context]"
  by code_simp+

lemma scheduler_bounded_witness:
  "\<exists>s. sched_reachable example_cron s \<and> running_contexts s = [example_context] \<and> sch_active s \<le> sc_max_concurrent_tasks (sch_config s) \<and>
     distinct (map tc_task_id (running_contexts s))"
proof -
  let ?s = "example_state (Co_Spawn []) True 1 1 [Th_Callback 0 example_context]"
  let ?start = "projr (scheduler_new scheduler_config_default 7) :: unit scheduler"
  have "\<not> isl (scheduler_new scheduler_config_default 7 :: scheduler_error + unit scheduler)" by code_simp
  then have "scheduler_new scheduler_config_default 7 = Ok ?start" by (metis sum.collapse(2))
  then have "sched_reachable example_cron ?start" by (rule sched_reachable.start)
  moreover have "task_validate example_cron example_task = Ok ()" by code_simp
  moreover have "parse_schedule example_cron 10 (stk_schedule example_task) = Ok (PS_Once, 5)" by code_simp
  ultimately have "sched_reachable example_cron (snd (schedule_insert example_task 0 PS_Once 5 ?start))"
    using sched_reachable.step sched_step.schedule by metis
  moreover have co: "sched_reachable example_cron (coordinator_step example_cron 10 True s)" if "sched_reachable example_cron s" for s
    by (rule sched_reachable.step [OF that sched_step.coordinator])
  ultimately have r: "sched_reachable example_cron ?s" unfolding example_steps(1) by (metis co example_steps(2-8))
  have "running_contexts ?s = [example_context]" by code_simp
  then show ?thesis using r scheduler_bounded [OF r] by (intro exI [of _ ?s]) blast
qed

end
