(* ===== verification/Core_Types.thy ===== *)
theory Core_Types
  imports Identity Contracts Redaction
begin

text \<open>
  The passive parts of \<open>appcore-core\<close>: errors (\<open>appcore-types/error.rs\<close>), command and event envelopes, command
  results, name registries, the generic state machine, the process lifecycle built on it, the decision
  engine and the command bus. Handlers and decision nodes belong to the application; they are functions with an effect on a world of type \<open>'w\<close>. The lemmas show that the
  lifecycle, a table of name pairs in the code, is the state machine its enums describe, and which
  node of the decision engine and which handler decide about a command.
\<close>

section \<open>Errors\<close>

datatype runtime_error =
  RE_InvalidStateTransition | RE_DuplicateStateTransition | RE_Unauthorized | RE_Forbidden | RE_InvalidAppIdentity
  | RE_IncompatibleRuntimeContract | RE_StorageUnavailable | RE_VaultLocked | RE_SyncRejected | RE_CommandRejected
  | RE_HandlerAlreadyRegistered string | RE_HandlerNotFound string | RE_PluginAlreadyRegistered | RE_MissingManifest
  | RE_EmptyCommandId | RE_EmptyEventId | RE_InvalidIdentifier string string identifier_error
  | RE_InvalidRequest string string | RE_LockPoisoned string | RE_RegistryItemAlreadyRegistered string string
  | RE_RegistryItemNotFound string string | RE_MissingConfiguration string | RE_IncompatibleIdentity compatibility_status
  | RE_IncompatibleCoreIdentity core_compatibility_status | RE_MissingCapabilityNamed string | RE_RegistryError string
  | RE_DuplicateRegistryItem string | RE_InvalidIdempotencyKey string | RE_IdempotencyStoreIo string string
  | RE_IdempotencyConflict string | RE_IdempotencyPending string | RE_OperationalJournalIo string string

type_synonym 'a runtime_result = "runtime_error + 'a"

definition check_identifier :: "string \<Rightarrow> string \<Rightarrow> unit runtime_result" where
  "check_identifier kind v = map_err (RE_InvalidIdentifier kind v) (validate_identifier v)"

lemma check_identifier_Ok [simp]: "check_identifier kind v = Ok () \<longleftrightarrow> validate_identifier v = Ok ()"
  by (cases "validate_identifier v") (auto simp: check_identifier_def)

section \<open>Envelopes and results\<close>

record command_envelope =
  ce_command_name :: string
  ce_command_id :: string
  ce_app_id :: string
  ce_node_id :: string
  ce_issued_at_ms :: u64
  ce_idempotency_key :: "string option"
  ce_payload :: bytes
  ce_trace :: "trace_context option"

definition command_envelope_new ::
    "string \<Rightarrow> string \<Rightarrow> string \<Rightarrow> string \<Rightarrow> u64 \<Rightarrow> string option \<Rightarrow> bytes \<Rightarrow> command_envelope runtime_result" where
  "command_envelope_new command_name command_id app_id node_id issued_at_ms idempotency_key payload =
     rbind (check_identifier ''CommandId'' command_id) (\<lambda>_.
     rbind (case idempotency_key of Some key \<Rightarrow> check_identifier ''IdempotencyKey'' key | None \<Rightarrow> Ok ()) (\<lambda>_.
     rbind (check_identifier ''CommandName'' command_name) (\<lambda>_.
     rbind (check_identifier ''AppId'' app_id) (\<lambda>_.
     rbind (check_identifier ''NodeId'' node_id) (\<lambda>_.
     Ok \<lparr> ce_command_name = command_name, ce_command_id = command_id, ce_app_id = app_id, ce_node_id = node_id,
          ce_issued_at_ms = issued_at_ms, ce_idempotency_key = idempotency_key, ce_payload = payload, ce_trace = None \<rparr>)))))"

definition command_with_trace :: "trace_context \<Rightarrow> command_envelope \<Rightarrow> command_envelope" where
  "command_with_trace trace c = c\<lparr> ce_trace := Some trace \<rparr>"

record event_envelope =
  ee_event_name :: string
  ee_event_id :: string
  ee_app_id :: string
  ee_node_id :: string
  ee_occurred_at_ms :: u64
  ee_payload :: bytes
  ee_trace :: "trace_context option"

definition event_envelope_new :: "string \<Rightarrow> string \<Rightarrow> string \<Rightarrow> string \<Rightarrow> u64 \<Rightarrow> bytes \<Rightarrow> event_envelope runtime_result" where
  "event_envelope_new event_name event_id app_id node_id occurred_at_ms payload =
     rbind (check_identifier ''EventId'' event_id) (\<lambda>_.
     rbind (check_identifier ''EventName'' event_name) (\<lambda>_.
     rbind (check_identifier ''AppId'' app_id) (\<lambda>_.
     rbind (check_identifier ''NodeId'' node_id) (\<lambda>_.
     Ok \<lparr> ee_event_name = event_name, ee_event_id = event_id, ee_app_id = app_id, ee_node_id = node_id,
          ee_occurred_at_ms = occurred_at_ms, ee_payload = payload, ee_trace = None \<rparr>))))"

definition event_with_trace :: "trace_context \<Rightarrow> event_envelope \<Rightarrow> event_envelope" where
  "event_with_trace trace e = e\<lparr> ee_trace := Some trace \<rparr>"

record command_result =
  cr_accepted :: bool
  cr_events :: "event_envelope list"
  cr_message :: "string option"

definition result_accepted :: "event_envelope list \<Rightarrow> command_result" where
  "result_accepted events = \<lparr> cr_accepted = True, cr_events = events, cr_message = None \<rparr>"

definition result_rejected :: "string \<Rightarrow> command_result" where
  "result_rejected message = \<lparr> cr_accepted = False, cr_events = [], cr_message = Some message \<rparr>"

section \<open>Registries\<close>

text \<open>\<open>NameRegistry\<close> and the registries that wrap it for commands, events, states and decisions.\<close>

type_synonym name_registry = "string list"

definition registry_register :: "string \<Rightarrow> string \<Rightarrow> (name_registry, runtime_error, unit) eff" where
  "registry_register item kind items =
     (if item \<in> set items then (Err (RE_DuplicateRegistryItem kind), items) else (Ok (), items @ [item]))"

definition register_command :: "string \<Rightarrow> (name_registry, runtime_error, unit) eff" where
  "register_command name = registry_register name ''command''"

definition register_event :: "string \<Rightarrow> (name_registry, runtime_error, unit) eff" where
  "register_event name = registry_register name ''event''"

definition register_state :: "string \<Rightarrow> (name_registry, runtime_error, unit) eff" where
  "register_state name = registry_register name ''state''"

definition register_decision_name :: "string \<Rightarrow> (name_registry, runtime_error, unit) eff" where
  "register_decision_name name = registry_register name ''decision''"

lemma registry_distinct: "distinct items \<Longrightarrow> distinct (snd (registry_register item kind items))"
  by (simp add: registry_register_def)

section \<open>The state machine\<close>

record state_transition =
  stt_from :: string
  stt_event :: string
  stt_to :: string

record state_machine =
  sm_current :: string
  sm_transitions :: "state_transition list"

definition state_machine_new :: "string \<Rightarrow> state_machine" where
  "state_machine_new initial = \<lparr> sm_current = initial, sm_transitions = [] \<rparr>"

definition add_transition :: "state_transition \<Rightarrow> (state_machine, runtime_error, unit) eff" where
  "add_transition t m =
     (if list_ex (\<lambda>existing. stt_from existing = stt_from t \<and> stt_event existing = stt_event t) (sm_transitions m)
      then (Err RE_DuplicateStateTransition, m)
      else (Ok (), m\<lparr> sm_transitions := sm_transitions m @ [t] \<rparr>))"

definition can_apply :: "state_machine \<Rightarrow> string \<Rightarrow> bool" where
  "can_apply m event \<longleftrightarrow> list_ex (\<lambda>t. stt_from t = sm_current m \<and> stt_event t = event) (sm_transitions m)"

definition machine_apply :: "string \<Rightarrow> (state_machine, runtime_error, string) eff" where
  "machine_apply event m =
     (case find (\<lambda>t. stt_from t = sm_current m \<and> stt_event t = event) (sm_transitions m) of
        None \<Rightarrow> (Err RE_InvalidStateTransition, m)
      | Some t \<Rightarrow> (Ok (stt_to t), m\<lparr> sm_current := stt_to t \<rparr>))"

lemma can_apply_iff: "can_apply m event \<longleftrightarrow> is_ok (fst (machine_apply event m))"
proof -
  have "list_ex P xs \<longleftrightarrow> find P xs \<noteq> None" for P and xs :: "state_transition list" by (induction xs) auto
  then show ?thesis by (auto simp: can_apply_def machine_apply_def split: option.split)
qed

section \<open>The process lifecycle\<close>

datatype lifecycle_state =
  LS_Booting | LS_LoadingConfig | LS_CheckingSecurity | LS_OpeningStorage | LS_StartingApi | LS_Running | LS_Degraded
  | LS_Restricted | LS_ShuttingDown | LS_Stopped

datatype lifecycle_event =
  LE_ConfigLoaded | LE_SecurityChecked | LE_StorageOpened | LE_ApiStarted | LE_DegradedDetected | LE_RestrictedDetected
  | LE_ShutdownRequested | LE_ShutdownCompleted | LE_RecoveryCompleted

fun as_state_name :: "lifecycle_state \<Rightarrow> string" where
  "as_state_name LS_Booting = ''Booting''"
| "as_state_name LS_LoadingConfig = ''LoadingConfig''"
| "as_state_name LS_CheckingSecurity = ''CheckingSecurity''"
| "as_state_name LS_OpeningStorage = ''OpeningStorage''"
| "as_state_name LS_StartingApi = ''StartingApi''"
| "as_state_name LS_Running = ''Running''"
| "as_state_name LS_Degraded = ''Degraded''"
| "as_state_name LS_Restricted = ''Restricted''"
| "as_state_name LS_ShuttingDown = ''ShuttingDown''"
| "as_state_name LS_Stopped = ''Stopped''"

definition from_state_name :: "string \<Rightarrow> lifecycle_state runtime_result" where
  "from_state_name s =
     (if s = ''Booting'' then Ok LS_Booting else if s = ''LoadingConfig'' then Ok LS_LoadingConfig
      else if s = ''CheckingSecurity'' then Ok LS_CheckingSecurity else if s = ''OpeningStorage'' then Ok LS_OpeningStorage
      else if s = ''StartingApi'' then Ok LS_StartingApi else if s = ''Running'' then Ok LS_Running
      else if s = ''Degraded'' then Ok LS_Degraded else if s = ''Restricted'' then Ok LS_Restricted
      else if s = ''ShuttingDown'' then Ok LS_ShuttingDown else if s = ''Stopped'' then Ok LS_Stopped
      else Err RE_InvalidStateTransition)"

fun as_event_name :: "lifecycle_event \<Rightarrow> string" where
  "as_event_name LE_ConfigLoaded = ''ConfigLoaded''"
| "as_event_name LE_SecurityChecked = ''SecurityChecked''"
| "as_event_name LE_StorageOpened = ''StorageOpened''"
| "as_event_name LE_ApiStarted = ''ApiStarted''"
| "as_event_name LE_DegradedDetected = ''DegradedDetected''"
| "as_event_name LE_RestrictedDetected = ''RestrictedDetected''"
| "as_event_name LE_ShutdownRequested = ''ShutdownRequested''"
| "as_event_name LE_ShutdownCompleted = ''ShutdownCompleted''"
| "as_event_name LE_RecoveryCompleted = ''RecoveryCompleted''"

definition lifecycle_transitions :: "(lifecycle_state \<times> lifecycle_event \<times> lifecycle_state) list" where
  "lifecycle_transitions =
    [(LS_Booting, LE_ConfigLoaded, LS_CheckingSecurity), (LS_CheckingSecurity, LE_SecurityChecked, LS_OpeningStorage),
     (LS_OpeningStorage, LE_StorageOpened, LS_StartingApi), (LS_StartingApi, LE_ApiStarted, LS_Running),
     (LS_Running, LE_DegradedDetected, LS_Degraded), (LS_Running, LE_RestrictedDetected, LS_Restricted),
     (LS_Degraded, LE_RecoveryCompleted, LS_Running), (LS_Restricted, LE_RecoveryCompleted, LS_Running),
     (LS_Running, LE_ShutdownRequested, LS_ShuttingDown), (LS_Degraded, LE_ShutdownRequested, LS_ShuttingDown),
     (LS_Restricted, LE_ShutdownRequested, LS_ShuttingDown), (LS_ShuttingDown, LE_ShutdownCompleted, LS_Stopped)]"

definition lifecycle_new :: state_machine where
  "lifecycle_new = fold (\<lambda>(a, e, b) m. snd (add_transition
       \<lparr> stt_from = as_state_name a, stt_event = as_event_name e, stt_to = as_state_name b \<rparr> m))
     lifecycle_transitions (state_machine_new (as_state_name LS_Booting))"

definition lifecycle_current :: "state_machine \<Rightarrow> lifecycle_state" where
  "lifecycle_current m = (case from_state_name (sm_current m) of Inr state \<Rightarrow> state | Inl _ \<Rightarrow> LS_Booting)"

definition lifecycle_apply :: "lifecycle_event \<Rightarrow> (state_machine, runtime_error, lifecycle_state) eff" where
  "lifecycle_apply event = ebind (machine_apply (as_event_name event)) (\<lambda>next_state. elift (\<lambda>_. from_state_name next_state))"

text \<open>The machine the enums describe.\<close>

definition lifecycle_next :: "lifecycle_state \<Rightarrow> lifecycle_event \<Rightarrow> lifecycle_state option" where
  "lifecycle_next a e = map_option (snd \<circ> snd) (find (\<lambda>t. fst t = a \<and> fst (snd t) = e) lifecycle_transitions)"

definition lifecycle_ok :: "state_machine \<Rightarrow> bool" where
  "lifecycle_ok m \<longleftrightarrow> (\<exists>a. sm_current m = as_state_name a) \<and> sm_transitions m = sm_transitions lifecycle_new"

lemma from_as_state_name [simp]: "from_state_name (as_state_name a) = Ok a"
  by (cases a) (simp_all add: from_state_name_def)

lemma as_state_name_inject [simp]: "as_state_name a = as_state_name b \<longleftrightarrow> a = b"
  by (metis from_as_state_name Inr_inject)

lemma as_event_name_inject [simp]: "as_event_name a = as_event_name b \<longleftrightarrow> a = b"
  by (cases a; cases b) simp_all

lemma lifecycle_new_transitions: "sm_transitions lifecycle_new = map (\<lambda>(a, e, b).
    \<lparr> stt_from = as_state_name a, stt_event = as_event_name e, stt_to = as_state_name b \<rparr>) lifecycle_transitions"
  by (simp add: lifecycle_new_def lifecycle_transitions_def add_transition_def state_machine_new_def)

lemma lifecycle_new_ok [simp]: "lifecycle_ok lifecycle_new" "lifecycle_current lifecycle_new = LS_Booting"
  by (simp_all add: lifecycle_ok_def lifecycle_current_def lifecycle_new_def lifecycle_transitions_def add_transition_def
      state_machine_new_def from_state_name_def) (metis as_state_name.simps(1))

lemma find_map: "find P (map f xs) = map_option f (find (P \<circ> f) xs)"
  by (induction xs) auto

lemma lifecycle_apply_next:
  assumes "lifecycle_ok m"
  shows "lifecycle_apply e m = (case lifecycle_next (lifecycle_current m) e of
      None \<Rightarrow> (Err RE_InvalidStateTransition, m) | Some b \<Rightarrow> (Ok b, m\<lparr> sm_current := as_state_name b \<rparr>))"
proof -
  obtain a where a: "sm_current m = as_state_name a" "sm_transitions m = sm_transitions lifecycle_new"
    using assms by (auto simp: lifecycle_ok_def)
  have f: "find (\<lambda>t. stt_from t = as_state_name a \<and> stt_event t = as_event_name e) (sm_transitions lifecycle_new) =
      map_option (\<lambda>(a, e, b). \<lparr> stt_from = as_state_name a, stt_event = as_event_name e, stt_to = as_state_name b \<rparr>)
        (find (\<lambda>t. fst t = a \<and> fst (snd t) = e) lifecycle_transitions)"
    by (simp add: lifecycle_new_transitions find_map comp_def case_prod_beta)
  show ?thesis
    using f by (simp add: lifecycle_apply_def machine_apply_def a lifecycle_current_def lifecycle_next_def ebind_eval
        split: option.split prod.splits)
qed

lemma lifecycle_apply_ok: "lifecycle_ok m \<Longrightarrow> lifecycle_ok (snd (lifecycle_apply e m))"
  by (auto simp: lifecycle_apply_next lifecycle_ok_def split: option.splits)

lemma lifecycle_current_set [simp]: "lifecycle_current (m\<lparr> sm_current := as_state_name b \<rparr>) = b"
  by (simp add: lifecycle_current_def)

text \<open>Once shutdown was requested the runtime only stops, and a stopped runtime stays stopped.\<close>

lemma lifecycle_shutdown_final:
  assumes "lifecycle_ok m" "lifecycle_current m \<in> {LS_ShuttingDown, LS_Stopped}"
  shows "lifecycle_current (snd (lifecycle_apply e m)) \<in> {lifecycle_current m, LS_Stopped}"
  using assms(2) unfolding lifecycle_apply_next [OF assms(1)]
  by (cases e) (auto simp: lifecycle_next_def lifecycle_transitions_def simp del: as_state_name.simps)

section \<open>Decisions and handlers\<close>

datatype decision_outcome = DO_Allow | DO_Deny string | DO_Defer string

type_synonym runtime_context = runtime_identity

record 'w decision_node =
  dn_name :: string
  dn_decide :: "command_envelope \<Rightarrow> runtime_context \<Rightarrow> ('w, runtime_error, decision_outcome) eff"

record 'w decision_engine =
  de_nodes :: "'w decision_node list"
  de_node_names :: "string list"

definition register_node :: "'w decision_node \<Rightarrow> 'w decision_engine \<Rightarrow> 'w decision_engine" where
  "register_node node d = d\<lparr> de_nodes := de_nodes d @ [node], de_node_names := de_node_names d @ [dn_name node] \<rparr>"

fun evaluate_nodes :: "'w decision_node list \<Rightarrow> command_envelope \<Rightarrow> runtime_context \<Rightarrow> ('w, runtime_error, decision_outcome) eff" where
  "evaluate_nodes [] command context = eret DO_Allow"
| "evaluate_nodes (node # nodes) command context =
     ebind (dn_decide node command context) (\<lambda>outcome. case outcome of
         DO_Allow \<Rightarrow> evaluate_nodes nodes command context
       | DO_Deny message \<Rightarrow> eret (DO_Deny message)
       | DO_Defer message \<Rightarrow> eret (DO_Defer message))"

definition evaluate :: "'w decision_engine \<Rightarrow> command_envelope \<Rightarrow> runtime_context \<Rightarrow> ('w, runtime_error, decision_outcome) eff" where
  "evaluate d command context = (if de_nodes d = [] then eret DO_Allow else evaluate_nodes (de_nodes d) command context)"

record 'w command_handler =
  ch_command_name :: string
  ch_handle :: "command_envelope \<Rightarrow> runtime_context \<Rightarrow> ('w, runtime_error, command_result) eff"

type_synonym 'w command_bus = "string \<rightharpoonup> 'w command_handler"

definition register_handler :: "'w command_handler \<Rightarrow> ('w command_bus, runtime_error, unit) eff" where
  "register_handler h bus = (let name = ch_command_name h in
     if bus name \<noteq> None then (Err (RE_HandlerAlreadyRegistered name), bus) else (Ok (), bus(name \<mapsto> h)))"

definition bus_dispatch :: "'w command_bus \<Rightarrow> command_envelope \<Rightarrow> runtime_context \<Rightarrow> ('w, runtime_error, command_result) eff" where
  "bus_dispatch bus command context = (case bus (ce_command_name command) of
     None \<Rightarrow> efail (RE_HandlerNotFound (ce_command_name command)) | Some h \<Rightarrow> ch_handle h command context)"

text \<open>Every handler of the bus is registered under its own name.\<close>

definition bus_ok :: "'w command_bus \<Rightarrow> bool" where
  "bus_ok bus \<longleftrightarrow> (\<forall>name h. bus name = Some h \<longrightarrow> ch_command_name h = name)"

lemma register_handler_ok: "bus_ok bus \<Longrightarrow> bus_ok (snd (register_handler h bus))"
  by (auto simp: register_handler_def bus_ok_def Let_def)

lemma evaluate_nodes_allow:
  assumes "evaluate_nodes nodes command context w = (Ok DO_Allow, w')"
  shows "\<forall>node\<in>set nodes. \<exists>v v'. dn_decide node command context v = (Ok DO_Allow, v')"
  using assms
proof (induction nodes arbitrary: w)
  case (Cons node nodes)
  obtain r v where r: "dn_decide node command context w = (r, v)" by (cases "dn_decide node command context w")
  then have "r = Ok DO_Allow" and rest: "evaluate_nodes nodes command context v = (Ok DO_Allow, w')"
    using Cons.prems by (auto simp: ebind_eval split: sum.splits decision_outcome.splits)
  with r Cons.IH [OF rest] show ?case by auto
qed simp

end
