(* ===== verification/Core_Idempotency.thy ===== *)
theory Core_Idempotency
  imports Core_Types Text_Format File_System
begin

text \<open>
  The idempotency stores of \<open>appcore-core\<close> (\<open>idempotency.rs\<close>): the trait as a record of methods, the store in memory and
  the store in a file, a format marker followed by one JSON record per line that is appended to and rewritten
  when a record is removed. Reading the clock is an argument. \<open>serde_json\<close> is a pair of functions, of which
  \<open>json_lines\<close> says that they round-trip and write objects on one line. The interface \<open>idempotency_store\<close> is a map from
  keys to records; both stores keep it. The lemmas on the file show what a store that is opened again finds.
\<close>

section \<open>Records and the trait\<close>

datatype idempotency_status = IS_Pending | IS_Resolved u16 string

record idempotency_record =
  ir_key :: string
  ir_request_hash :: string
  ir_status :: idempotency_status
  ir_created_at_ms :: u64

record 's idempotency_ops =
  is_get :: "u64 \<Rightarrow> string \<Rightarrow> ('s, runtime_error, idempotency_record option) eff"
  is_insert :: "idempotency_record \<Rightarrow> ('s, runtime_error, unit) eff"
  is_len :: "u64 \<Rightarrow> 's \<Rightarrow> nat"
  is_remove :: "string \<Rightarrow> ('s, runtime_error, unit) eff"

definition validate_key :: "string \<Rightarrow> unit runtime_result" where
  "validate_key key = (case validate_identifier key of
     Inr _ \<Rightarrow> Ok ()
   | Inl Id_Empty \<Rightarrow> Err (RE_InvalidIdempotencyKey ''empty'')
   | Inl _ \<Rightarrow> Err (RE_InvalidIdempotencyKey ''invalid_char''))"

lemma validate_key_Ok: "validate_key key = Ok () \<longleftrightarrow> validate_identifier key = Ok ()"
  by (auto simp: validate_key_def split: sum.splits identifier_error.splits)

section \<open>The store in memory\<close>

type_synonym mem_idempotency = "(string, idempotency_record) omap"

definition mem_idempotency_insert :: "idempotency_record \<Rightarrow> (mem_idempotency, runtime_error, unit) eff" where
  "mem_idempotency_insert r = ebind (elift (\<lambda>_. validate_key (ir_key r))) (\<lambda>_. emod (om_put (ir_key r) r))"

definition mem_idempotency_ops :: "mem_idempotency idempotency_ops" where
  "mem_idempotency_ops = \<lparr> is_get = (\<lambda>_ key s. (Ok (map_of s key), s)), is_insert = mem_idempotency_insert,
     is_len = (\<lambda>_ s. length s), is_remove = (\<lambda>key s. (Ok (), om_del key s)) \<rparr>"

section \<open>The store in a file\<close>

definition IDEMPOTENCY_FORMAT_V1 :: string where "IDEMPOTENCY_FORMAT_V1 = ''# appcore-idempotency-v1''"
definition MAX_IDEMPOTENCY_FILE_BYTES :: nat where "MAX_IDEMPOTENCY_FILE_BYTES = 64 * 1024 * 1024"
definition UPDATE_PLEASE :: string where "UPDATE_PLEASE = ''NO MORE SUPPORTED PLEASE UPDATE''"

text \<open>The texts of operating system and JSON errors.\<close>

definition io_text :: string where "io_text = ''os error''"
definition json_text :: string where "json_text = ''json error''"

record file_idempotency =
  fi_fs :: fs
  fi_path :: path
  fi_ttl_ms :: "u64 option"
  fi_seen :: mem_idempotency

definition idempotency_io :: "string \<Rightarrow> runtime_error" where
  "idempotency_io operation = RE_IdempotencyStoreIo operation io_text"

definition corrupt_idempotency :: "string \<Rightarrow> runtime_error" where
  "corrupt_idempotency message = RE_IdempotencyStoreIo ''validate_store'' message"

definition is_expired :: "u64 \<Rightarrow> u64 option \<Rightarrow> u64 \<Rightarrow> bool" where
  "is_expired created_at_ms ttl_ms now_ms \<longleftrightarrow>
     created_at_ms \<noteq> 0 \<and> (case ttl_ms of Some ttl \<Rightarrow> ttl < sat_sub now_ms created_at_ms | None \<Rightarrow> False)"

definition idem_reject_symlink :: "path \<Rightarrow> (fs, runtime_error, unit) eff" where
  "idem_reject_symlink p s = (case fs_symlink_metadata p s of
     (Inr (FileNode _), s') \<Rightarrow> (Ok (), s')
   | (Inr _, s') \<Rightarrow> (Err (corrupt_idempotency ''store path is not a regular file''), s')
   | (Inl IK_NotFound, s') \<Rightarrow> (Ok (), s')
   | (Inl IK_Other, s') \<Rightarrow> (Err (idempotency_io ''inspect_store_path''), s'))"

definition ensure_parent_dir :: "path \<Rightarrow> (fs, runtime_error, unit) eff" where
  "ensure_parent_dir p = as_err (idempotency_io ''create_store_parent_dir'') (fs_create_dir_all (butlast p))"

definition split_idempotency_format :: "string \<Rightarrow> string runtime_result" where
  "split_idempotency_format contents =
     (case Option.bind (strip_prefix IDEMPOTENCY_FORMAT_V1 contents) (strip_prefix [newline]) of
        Some body \<Rightarrow> Ok body
      | None \<Rightarrow> if contents = IDEMPOTENCY_FORMAT_V1 then Ok '''' else Err (corrupt_idempotency UPDATE_PLEASE))"

type_synonym 'a json_writer = "'a \<Rightarrow> string option"
type_synonym 'a json_reader = "string \<Rightarrow> 'a option"

definition parse_idempotency_record :: "idempotency_record json_reader \<Rightarrow> string \<Rightarrow> idempotency_record runtime_result" where
  "parse_idempotency_record from_json line =
     (if take 1 line \<noteq> ''{'' then Err (corrupt_idempotency UPDATE_PLEASE)
      else ok_or (corrupt_idempotency ''invalid JSON record'') (from_json line))"

definition is_resolved :: "idempotency_record \<Rightarrow> bool" where
  "is_resolved r \<longleftrightarrow> ir_status r \<noteq> IS_Pending"

fun load_idempotency_lines ::
    "idempotency_record json_reader \<Rightarrow> mem_idempotency \<Rightarrow> string list \<Rightarrow> mem_idempotency runtime_result" where
  "load_idempotency_lines from_json seen [] = Ok seen"
| "load_idempotency_lines from_json seen (line # rest) = (let trimmed = rust_trim line in
     if trimmed = [] then load_idempotency_lines from_json seen rest
     else rbind (parse_idempotency_record from_json trimmed) (\<lambda>r.
          rbind (validate_key (ir_key r)) (\<lambda>_.
          load_idempotency_lines from_json (if is_resolved r then om_put (ir_key r) r seen else seen) rest)))"

definition parse_entries :: "idempotency_record json_reader \<Rightarrow> string \<Rightarrow> (mem_idempotency \<times> bool) runtime_result" where
  "parse_entries from_json contents =
     rbind (split_idempotency_format contents) (\<lambda>body.
       case complete_line_prefix body of (complete, recovered_tail) \<Rightarrow>
         rbind (load_idempotency_lines from_json [] (rust_lines complete)) (\<lambda>seen. Ok (seen, recovered_tail)))"

text \<open>\<open>fs::read_to_string\<close> refuses a file that is not UTF-8 as a whole.\<close>

definition load_entries :: "idempotency_record json_reader \<Rightarrow> path \<Rightarrow> (fs, runtime_error, mem_idempotency \<times> bool) eff" where
  "load_entries from_json p =
     ebind (idem_reject_symlink p) (\<lambda>_.
     ebind (as_err (idempotency_io ''read_store_metadata'') (fs_open_read p)) (\<lambda>metadata.
     case metadata of
       FileNode content \<Rightarrow>
         if MAX_IDEMPOTENCY_FILE_BYTES < length content then efail (corrupt_idempotency ''store exceeds size limit'')
         else ebind (as_err (idempotency_io ''read_store'') (ebind (fs_open_read p) (\<lambda>_. fs_read content (length content)))) (\<lambda>bs.
           if \<not> valid_utf8 (map unat bs) then efail (idempotency_io ''read_store'')
           else elift (\<lambda>_. parse_entries from_json (bytes_text bs)))
     | _ \<Rightarrow> efail (idempotency_io ''read_store'')))"

definition fs_open_append :: "path \<Rightarrow> (fs, io_kind, unit) eff" where
  "fs_open_append p = ebind (fs_open_read p) (\<lambda>n. case n of FileNode _ \<Rightarrow> eret () | _ \<Rightarrow> efail IK_Other)"

definition json_line :: "idempotency_record json_writer \<Rightarrow> idempotency_record \<Rightarrow> (fs, runtime_error, string) eff" where
  "json_line to_json r = elift (\<lambda>_. ok_or (RE_IdempotencyStoreIo ''serialize_store_entry'' json_text) (to_json r))"

definition append_entry :: "idempotency_record json_writer \<Rightarrow> path \<Rightarrow> idempotency_record \<Rightarrow> (fs, runtime_error, unit) eff" where
  "append_entry to_json p r =
     ebind (as_err (idempotency_io ''open_store_for_append'') (fs_open_append p)) (\<lambda>_.
     ebind (json_line to_json r) (\<lambda>line.
     ebind (as_err (idempotency_io ''append_store_entry'') (fs_append p (text_bytes (line @ [newline])))) (\<lambda>_.
     as_err (idempotency_io ''sync_store_entry'') (fs_sync p))))"

definition write_entries :: "idempotency_record json_writer \<Rightarrow> path \<Rightarrow> idempotency_record list \<Rightarrow> (fs, runtime_error, unit) eff" where
  "write_entries to_json temp rows =
     ebind (as_err (idempotency_io ''open_temp_store_for_rewrite'') (fs_create_new temp)) (\<lambda>_.
     ebind (as_err (idempotency_io ''write_store_format'') (fs_append temp (text_bytes (IDEMPOTENCY_FORMAT_V1 @ [newline])))) (\<lambda>_.
     ebind (eforeach rows (\<lambda>r. ebind (json_line to_json r) (\<lambda>line.
       as_err (idempotency_io ''rewrite_store_entry'') (fs_append temp (text_bytes (line @ [newline])))))) (\<lambda>_.
     as_err (idempotency_io ''sync_temp_store'') (fs_sync temp))))"

definition rewrite_entries :: "idempotency_record json_writer \<Rightarrow> path \<Rightarrow> mem_idempotency \<Rightarrow> (fs, runtime_error, unit) eff" where
  "rewrite_entries to_json p entries =
     ebind (idem_reject_symlink p) (\<lambda>_.
     ebind (temporary_path ''idempotency'' p (butlast p)) (\<lambda>temp s.
       case ebind (write_entries to_json temp (map snd entries)) (\<lambda>_.
            ebind (as_err (idempotency_io ''rename_temp_store'') (fs_rename temp p)) (\<lambda>_.
            sync_parent (idempotency_io ''sync_store_parent'') (butlast p))) s of
         (Inr u, s') \<Rightarrow> (Ok u, s')
       | (Inl err, s') \<Rightarrow> (Err err, snd (fs_remove_file temp s'))))"

definition file_idempotency_new ::
    "idempotency_record json_writer \<Rightarrow> idempotency_record json_reader \<Rightarrow> path \<Rightarrow> u64 option \<Rightarrow> (fs, runtime_error, file_idempotency) eff" where
  "file_idempotency_new to_json from_json p ttl_ms =
     ebind (ensure_parent_dir p) (\<lambda>_.
     ebind (path_exists p) (\<lambda>found.
     ebind (if \<not> found then rewrite_entries to_json p [] else eret ()) (\<lambda>_.
     ebind (load_entries from_json p) (\<lambda>(seen, needs_rewrite).
     ebind (if needs_rewrite then rewrite_entries to_json p seen else eret ()) (\<lambda>_ s.
       (Ok \<lparr> fi_fs = s, fi_path = p, fi_ttl_ms = (if ttl_ms = Some 0 then None else ttl_ms), fi_seen = seen \<rparr>, s))))))"

definition on_store_fs :: "(path \<Rightarrow> (fs, runtime_error, 'a) eff) \<Rightarrow> (file_idempotency, runtime_error, 'a) eff" where
  "on_store_fs m f = (case m (fi_path f) (fi_fs f) of (r, s) \<Rightarrow> (r, f\<lparr> fi_fs := s \<rparr>))"

definition file_idempotency_get :: "u64 \<Rightarrow> string \<Rightarrow> (file_idempotency, runtime_error, idempotency_record option) eff" where
  "file_idempotency_get now_ms key f = (Ok (case map_of (fi_seen f) key of
       Some r \<Rightarrow> if is_expired (ir_created_at_ms r) (fi_ttl_ms f) now_ms then None else Some r
     | None \<Rightarrow> None), f)"

definition file_idempotency_insert :: "idempotency_record json_writer \<Rightarrow> idempotency_record \<Rightarrow> (file_idempotency, runtime_error, unit) eff" where
  "file_idempotency_insert to_json r =
     ebind (elift (\<lambda>_. validate_key (ir_key r))) (\<lambda>_.
     ebind (on_store_fs (\<lambda>p. append_entry to_json p r)) (\<lambda>_.
     emod (\<lambda>f. f\<lparr> fi_seen := om_put (ir_key r) r (fi_seen f) \<rparr>)))"

definition file_idempotency_len :: "u64 \<Rightarrow> file_idempotency \<Rightarrow> nat" where
  "file_idempotency_len now_ms f =
     length (filter (\<lambda>(_, r). \<not> is_expired (ir_created_at_ms r) (fi_ttl_ms f) now_ms) (fi_seen f))"

definition file_idempotency_remove :: "idempotency_record json_writer \<Rightarrow> string \<Rightarrow> (file_idempotency, runtime_error, unit) eff" where
  "file_idempotency_remove to_json key f =
     (if om_has (fi_seen f) key then
        let f' = f\<lparr> fi_seen := om_del key (fi_seen f) \<rparr> in on_store_fs (\<lambda>p. rewrite_entries to_json p (fi_seen f')) f'
      else (Ok (), f))"

definition file_idempotency_compact :: "idempotency_record json_writer \<Rightarrow> u64 \<Rightarrow> (file_idempotency, runtime_error, nat) eff" where
  "file_idempotency_compact to_json now_ms f =
     (let f' = f\<lparr> fi_seen := om_retain (\<lambda>_ r. \<not> is_expired (ir_created_at_ms r) (fi_ttl_ms f) now_ms) (fi_seen f) \<rparr>;
          removed = length (fi_seen f) - length (fi_seen f')
      in ebind (on_store_fs (\<lambda>p. rewrite_entries to_json p (fi_seen f'))) (\<lambda>_. eret removed) f')"

definition file_idempotency_ops :: "idempotency_record json_writer \<Rightarrow> file_idempotency idempotency_ops" where
  "file_idempotency_ops to_json = \<lparr> is_get = file_idempotency_get, is_insert = file_idempotency_insert to_json,
     is_len = file_idempotency_len, is_remove = file_idempotency_remove to_json \<rparr>"

section \<open>The interface\<close>

locale idempotency_store =
  fixes ops :: "'s idempotency_ops" and inv :: "'s \<Rightarrow> bool" and view :: "'s \<Rightarrow> string \<rightharpoonup> idempotency_record"
  assumes get_view: "inv s \<Longrightarrow> is_get ops now key s = (Ok (view s key), s)"
    and insert_inv: "inv s \<Longrightarrow> is_insert ops r s = (x, s') \<Longrightarrow> inv s'"
    and insert_view: "inv s \<Longrightarrow> is_insert ops r s = (x, s') \<Longrightarrow>
      view s' = (if x = Ok () then (view s)(ir_key r \<mapsto> r) else view s)"
    and remove_inv: "inv s \<Longrightarrow> is_remove ops key s = (x, s') \<Longrightarrow> inv s'"
    and remove_view: "inv s \<Longrightarrow> is_remove ops key s = (x, s') \<Longrightarrow> view s' = (view s)(key := None)"

text \<open>
  A store whose records do not expire: one opened by \<open>FileIdempotencyStore::new\<close>, or by \<open>new_with_ttl\<close> without a time to live or
  with zero. With another one the interface does not hold, since what was inserted is not found any more after that time.
\<close>

definition file_store_ok :: "file_idempotency \<Rightarrow> bool" where
  "file_store_ok f \<longleftrightarrow> omap_ok (fi_seen f) \<and> fi_ttl_ms f = None"

lemma on_store_fs_frame: "on_store_fs m f = (x, f') \<Longrightarrow> fi_seen f' = fi_seen f \<and> fi_ttl_ms f' = fi_ttl_ms f \<and> fi_path f' = fi_path f"
  by (auto simp: on_store_fs_def split: prod.splits)

lemma file_insert_cases:
  assumes "file_idempotency_insert to_json r f = (x, f')"
  obtains (bad_key) e where "validate_key (ir_key r) = Err e" "x = Err e" "f' = f"
  | (failed) e s where "validate_key (ir_key r) = Ok ()" "append_entry to_json (fi_path f) r (fi_fs f) = (Err e, s)" "x = Err e"
      "f' = f\<lparr> fi_fs := s \<rparr>"
  | (stored) s where "validate_key (ir_key r) = Ok ()" "append_entry to_json (fi_path f) r (fi_fs f) = (Ok (), s)" "x = Ok ()"
      "f' = f\<lparr> fi_fs := s, fi_seen := om_put (ir_key r) r (fi_seen f) \<rparr>"
proof (cases "validate_key (ir_key r)")
  case (Inl e)
  with assms show thesis by (intro bad_key [of e]) (auto simp: file_idempotency_insert_def ebind_eval)
next
  case (Inr u)
  obtain y s where y: "append_entry to_json (fi_path f) r (fi_fs f) = (y, s)" by (cases "append_entry to_json (fi_path f) r (fi_fs f)")
  show thesis
  proof (cases y)
    case (Inl e)
    with assms Inr y show thesis by (intro failed [of e s]) (auto simp: file_idempotency_insert_def ebind_eval on_store_fs_def)
  next
    case (Inr v)
    with assms \<open>validate_key (ir_key r) = Ok u\<close> y show thesis
      by (intro stored [of s]) (auto simp: file_idempotency_insert_def ebind_eval on_store_fs_def)
  qed
qed

interpretation mem_store: idempotency_store mem_idempotency_ops omap_ok map_of
  by unfold_locales
    (auto simp: mem_idempotency_ops_def mem_idempotency_insert_def ebind_eval split: sum.splits prod.splits if_splits)

interpretation file_store: idempotency_store "file_idempotency_ops to_json" file_store_ok "\<lambda>f. map_of (fi_seen f)"
proof
  fix s s' :: file_idempotency and r :: idempotency_record and x :: "unit runtime_result" and key now
  assume s: "file_store_ok s"
  show "is_get (file_idempotency_ops to_json) now key s = (Ok (map_of (fi_seen s) key), s)"
    using s by (auto simp: file_idempotency_ops_def file_idempotency_get_def file_store_ok_def is_expired_def split: option.splits)
  { assume "is_insert (file_idempotency_ops to_json) r s = (x, s')"
    then have "file_idempotency_insert to_json r s = (x, s')" by (simp add: file_idempotency_ops_def)
    then show "file_store_ok s'" "map_of (fi_seen s') = (if x = Ok () then (map_of (fi_seen s))(ir_key r \<mapsto> r) else map_of (fi_seen s))"
      using s by (cases rule: file_insert_cases; auto simp: file_store_ok_def)+ }
  { assume "is_remove (file_idempotency_ops to_json) key s = (x, s')"
    then have "file_idempotency_remove to_json key s = (x, s')" by (simp add: file_idempotency_ops_def)
    then have "fi_seen s' = om_del key (fi_seen s) \<or> fi_seen s' = fi_seen s \<and> map_of (fi_seen s) key = None" "fi_ttl_ms s' = fi_ttl_ms s"
      by (auto simp: file_idempotency_remove_def om_has_def Let_def dest!: on_store_fs_frame split: if_splits)
    then show "file_store_ok s'" "map_of (fi_seen s') = (map_of (fi_seen s))(key := None)"
      using s by (auto simp: file_store_ok_def fun_eq_iff) }
qed

end
