(* ===== verification/Core_Durable.thy ===== *)
theory Core_Durable
  imports Core_Idempotency "HOL-Library.Code_Target_Nat"
begin

text \<open>
  What the idempotency file holds while operations succeed, and what opening it again finds after one that
  did not. The file is the marker, the lines of a list of records, and possibly the beginning of one more line.
\<close>

section \<open>The text of a store\<close>

definition json_lines :: "'a json_writer \<Rightarrow> 'a json_reader \<Rightarrow> bool" where
  "json_lines to_json from_json \<longleftrightarrow> (\<forall>x l. to_json x = Some l \<longrightarrow>
     from_json l = Some x \<and> l \<noteq> [] \<and> hd l = CHR ''{'' \<and> last l = CHR ''}'' \<and> line_ok l)"

definition put_resolved :: "idempotency_record \<Rightarrow> mem_idempotency \<Rightarrow> mem_idempotency" where
  "put_resolved r m = (if is_resolved r then om_put (ir_key r) r m else m)"

definition disk_view :: "idempotency_record list \<Rightarrow> mem_idempotency" where
  "disk_view rs = fold put_resolved rs []"

definition store_text :: "string list \<Rightarrow> string \<Rightarrow> string" where
  "store_text ls tail = IDEMPOTENCY_FORMAT_V1 @ [newline] @ line_text ls @ tail"

lemma store_text_tail: "store_text ls tail = store_text ls [] @ tail"
  by (simp add: store_text_def)

lemma decode_cases:
  assumes "if A then X else case bs of [] \<Rightarrow> False | b1 # bs1 \<Rightarrow> if B b1 then Y bs1
      else (case bs1 of [] \<Rightarrow> False | b2 # bs2 \<Rightarrow> if C b1 b2 then Z bs2 else False)"
  shows "A \<and> X \<or> (\<exists>b1 bs1. bs = b1 # bs1 \<and> B b1 \<and> Y bs1) \<or> (\<exists>b1 b2 bs2. bs = b1 # b2 # bs2 \<and> C b1 b2 \<and> Z bs2)"
  using assms by (auto split: if_splits list.splits)

lemma blank_bytes_last: "blank_bytes bs \<Longrightarrow> bs \<noteq> [] \<Longrightarrow> last bs \<noteq> 125"
proof (induction bs rule: length_induct)
  case (1 bs)
  then obtain b cs where bs: "bs = b # cs" by (cases bs) auto
  have IH: "ys \<noteq> [] \<Longrightarrow> last ys \<noteq> 125" if "blank_bytes ys" "length ys < length bs" for ys using 1(1) that by blast
  from decode_cases [OF 1(2) [unfolded bs blank_bytes.simps]]
  have "b \<noteq> 125 \<and> blank_bytes cs \<or> (\<exists>b1 bs1. cs = b1 # bs1 \<and> b1 \<noteq> 125 \<and> blank_bytes bs1) \<or>
      (\<exists>b1 b2 bs2. cs = b1 # b2 # bs2 \<and> b2 \<noteq> 125 \<and> blank_bytes bs2)"
    by (elim disjE exE conjE; simp; blast?)
  then show ?case
  proof (elim disjE exE conjE)
    assume "b \<noteq> 125" "blank_bytes cs"
    then show ?thesis using IH [of cs] bs by (cases cs) auto
  next
    fix b1 bs1 assume "cs = b1 # bs1" "b1 \<noteq> 125" "blank_bytes bs1"
    then show ?thesis using IH [of bs1] bs by (cases bs1) auto
  next
    fix b1 b2 bs2 assume "cs = b1 # b2 # bs2" "b2 \<noteq> 125" "blank_bytes bs2"
    then show ?thesis using IH [of bs2] bs by (cases bs2) auto
  qed
qed

lemma trim_end_bytes_id: "bs \<noteq> [] \<Longrightarrow> last bs = 125 \<Longrightarrow> trim_end_bytes bs = bs"
proof (induction bs)
  case (Cons b bs)
  then have "\<not> blank_bytes (b # bs)" using blank_bytes_last [of "b # bs"] by blast
  with Cons show ?case by (cases bs) (simp_all del: blank_bytes.simps)
qed simp

lemma rust_trim_id: "l \<noteq> [] \<Longrightarrow> hd l = CHR ''{'' \<Longrightarrow> last l = CHR ''}'' \<Longrightarrow> rust_trim l = l"
proof -
  assume l: "l \<noteq> []" "hd l = CHR ''{''" "last l = CHR ''}''"
  then have "trim_start_bytes (map byte_of l) = map byte_of l"
    by (cases l) (auto simp: byte_of_def split: list.splits)
  moreover have "trim_end_bytes (map byte_of l) = map byte_of l"
    using l by (intro trim_end_bytes_id) (auto simp: last_map byte_of_def)
  ultimately show ?thesis by (simp add: rust_trim_def byte_of_def comp_def)
qed

lemma load_idempotency_lines_ok:
  assumes "json_lines to_json from_json" "map to_json rs = map Some ls" "\<forall>r\<in>set rs. validate_key (ir_key r) = Ok ()"
  shows "load_idempotency_lines from_json seen ls = Ok (fold put_resolved rs seen)"
  using assms(2,3)
proof (induction rs arbitrary: ls seen)
  case (Cons r rs)
  then obtain l ls' where ls: "ls = l # ls'" "to_json r = Some l" "map to_json rs = map Some ls'" by auto
  have l: "from_json l = Some r" "l \<noteq> []" "hd l = CHR ''{''" "last l = CHR ''}''"
    using assms(1) ls(2) by (auto simp: json_lines_def)
  then have "take 1 l = ''{''" "rust_trim l = l" by (cases l; simp) (rule rust_trim_id [OF l(2-4)])
  then have "load_idempotency_lines from_json seen ls = load_idempotency_lines from_json (put_resolved r seen) ls'"
    using Cons.prems(2) l ls(1) by (simp add: Let_def parse_idempotency_record_def put_resolved_def)
  with Cons.IH [OF ls(3)] Cons.prems(2) show ?case by simp
qed simp

lemma parse_entries_ok:
  assumes "json_lines to_json from_json" "map to_json rs = map Some ls" "\<forall>r\<in>set rs. validate_key (ir_key r) = Ok ()"
    "newline \<notin> set tail"
  shows "parse_entries from_json (store_text ls tail) = Ok (disk_view rs, tail \<noteq> [])"
proof -
  have "\<exists>r. to_json r = Some l" if "l \<in> set ls" for l
    using assms(2) that by (metis in_set_conv_nth length_map nth_map)
  then have "\<forall>l\<in>set ls. line_ok l" using assms(1) by (auto simp: json_lines_def)
  then show ?thesis
    using load_idempotency_lines_ok [OF assms(1-3), of "[]"] strip_prefix_append [of IDEMPOTENCY_FORMAT_V1 "newline # line_text ls @ tail"]
    by (simp add: parse_entries_def split_idempotency_format_def store_text_def complete_line_prefix_torn [OF assms(4)]
        rust_lines_line_text disk_view_def)
qed

section \<open>What the file holds\<close>

definition holds_entries :: "idempotency_record json_writer \<Rightarrow> fs \<Rightarrow> path \<Rightarrow> idempotency_record list \<Rightarrow> string \<Rightarrow> bool" where
  "holds_entries to_json s p rs tail \<longleftrightarrow> (\<exists>ls. map to_json rs = map Some ls \<and>
     fs_nodes s p = Some (FileNode (text_bytes (store_text ls tail))) \<and> (\<forall>l\<in>set ls. ascii_text l) \<and>
     ascii_text tail \<and> newline \<notin> set tail \<and> (\<forall>r\<in>set rs. validate_key (ir_key r) = Ok ()))"

definition writable :: "idempotency_record json_writer \<Rightarrow> idempotency_record \<Rightarrow> bool" where
  "writable to_json r \<longleftrightarrow> (\<forall>l. to_json r = Some l \<longrightarrow> ascii_text l)"

lemma holds_entries_cong: "fs_nodes s p = fs_nodes s' p \<Longrightarrow> holds_entries to_json s p rs tail = holds_entries to_json s' p rs tail"
  by (simp add: holds_entries_def)

lemma ascii_store_text: "\<forall>l\<in>set ls. ascii_text l \<Longrightarrow> ascii_text tail \<Longrightarrow> ascii_text (store_text ls tail)"
  using ascii_line_text [of ls] by (simp add: store_text_def ascii_text_def IDEMPOTENCY_FORMAT_V1_def byte_of_def newline_def)

lemma fs_open_append_nodes: "fs_open_append p s = (x, s') \<Longrightarrow> fs_nodes s' = fs_nodes s"
  unfolding fs_open_append_def fs_open_read_def
  by (auto simp: ebind_eval split: prod.splits sum.splits node.splits elim!: sys_call_cases)

lemma append_entry_nodes:
  assumes a: "append_entry to_json p r s = (x, s')" and old: "fs_nodes s p = Some (FileNode old)"
  obtains (nothing) "fs_nodes s' = fs_nodes s" "x \<noteq> Ok ()"
  | (some) l n where "to_json r = Some l" "fs_nodes s' = (fs_nodes s)(p \<mapsto> FileNode (old @ take n (text_bytes (l @ [newline]))))"
      "x = Ok () \<longrightarrow> take n (text_bytes (l @ [newline])) = text_bytes (l @ [newline])"
proof -
  let ?open = "as_err (idempotency_io ''open_store_for_append'') (fs_open_append p)"
  obtain x1 s1 where 1: "?open s = (x1, s1)" by (cases "?open s")
  have n1: "fs_nodes s1 = fs_nodes s" using 1 fs_open_append_nodes by (auto simp: as_err_eval)
  show thesis
  proof (cases "is_ok x1 \<and> to_json r \<noteq> None")
    case False
    then have "s' = s1 \<and> x \<noteq> Ok ()"
      using a 1 by (cases x1; cases "to_json r") (auto simp: append_entry_def json_line_def ebind_eval)
    with n1 have "fs_nodes s' = fs_nodes s" "x \<noteq> Ok ()" by simp_all
    then show thesis by (rule nothing)
  next
    case True
    then obtain l where l: "to_json r = Some l" by blast
    let ?append = "as_err (idempotency_io ''append_store_entry'') (fs_append p (text_bytes (l @ [newline])))"
    let ?sync = "as_err (idempotency_io ''sync_store_entry'') (fs_sync p)"
    obtain x2 s2 where 2: "?append s1 = (x2, s2)" by (cases "?append s1")
    obtain n where n: "fs_nodes s2 = (fs_nodes s)(p \<mapsto> FileNode (old @ take n (text_bytes (l @ [newline]))))"
        "x2 = Ok () \<longrightarrow> take n (text_bytes (l @ [newline])) = text_bytes (l @ [newline])"
    proof -
      obtain y where y: "fs_append p (text_bytes (l @ [newline])) s1 = (y, s2)" "x2 = map_err (\<lambda>_. idempotency_io ''append_store_entry'') y"
        using 2 by (auto simp: as_err_eval)
      from fs_append_nodes [OF y(1), of old] n1 old obtain n where
        "fs_nodes s2 = (fs_nodes s)(p \<mapsto> FileNode (old @ take n (text_bytes (l @ [newline]))))"
        "y = Ok () \<longrightarrow> take n (text_bytes (l @ [newline])) = text_bytes (l @ [newline])" by metis
      with y(2) show thesis by (intro that [of n]) (cases y; simp)+
    qed
    have "x2 = Ok () \<Longrightarrow> ?sync s2 = (x, s')" "x2 \<noteq> Ok () \<Longrightarrow> s' = s2 \<and> x \<noteq> Ok ()"
      using a True 1 2 l by (cases x1; cases x2; auto simp: append_entry_def json_line_def ebind_eval)+
    moreover have "inspects ?sync" unfolding fs_sync_def by (intro inspects_as_err sys_call_inspects inspects_pure)
    ultimately have "fs_nodes s' = fs_nodes s2" by (cases "x2 = Ok ()") (auto dest: inspectsD)
    with n l \<open>x2 \<noteq> Ok () \<Longrightarrow> s' = s2 \<and> x \<noteq> Ok ()\<close> show thesis by (intro some [of l n]) auto
  qed
qed

lemma append_entry_holds:
  assumes j: "json_lines to_json from_json" and h: "holds_entries to_json s p rs []"
    and v: "validate_key (ir_key r) = Ok ()" and w: "writable to_json r" and a: "append_entry to_json p r s = (x, s')"
  shows "(\<exists>tail. holds_entries to_json s' p rs tail) \<and> x \<noteq> Ok () \<or> holds_entries to_json s' p (rs @ [r]) []"
proof -
  obtain ls where ls: "map to_json rs = map Some ls" "fs_nodes s p = Some (FileNode (text_bytes (store_text ls [])))"
    "\<forall>l\<in>set ls. ascii_text l" "\<forall>r\<in>set rs. validate_key (ir_key r) = Ok ()" using h by (auto simp: holds_entries_def)
  from a ls(2) show ?thesis
  proof (cases rule: append_entry_nodes)
    case nothing
    then show ?thesis using h holds_entries_cong by (metis (full_types))
  next
    case (some l n)
    have l: "line_ok l" "ascii_text l" using j w some(1) by (auto simp: json_lines_def writable_def)
    have p: "fs_nodes s' p = Some (FileNode (text_bytes (store_text ls (take n (l @ [newline])))))"
      using some(2) by (simp add: store_text_tail [of ls "take n (l @ [newline])"] text_bytes_take [symmetric] del: take_append)
    from l(1) show ?thesis
    proof (cases rule: take_line_cases [where n = n])
      case whole
      have "holds_entries to_json s' p (rs @ [r]) []"
        unfolding holds_entries_def using ls some(1) l(2) p v whole by (intro exI [of _ "ls @ [l]"]) (auto simp: store_text_def)
      then show ?thesis by blast
    next
      case torn
      then have "x \<noteq> Ok ()" using some(3) by (metis in_set_conv_decomp length_text_bytes text_bytes_take bytes_text_bytes)
      moreover have "holds_entries to_json s' p rs (take n l)"
        unfolding holds_entries_def using ls p torn ascii_take [OF l(2)] by (intro exI [of _ ls]) simp
      ultimately show ?thesis by blast
    qed
  qed
qed

lemma append_entry_other:
  assumes "append_entry to_json p r s = (x, s')" "fs_nodes s p = Some (FileNode old)" "q \<noteq> p"
  shows "fs_nodes s' q = fs_nodes s q"
  using assms by (cases rule: append_entry_nodes) auto

section \<open>Rewriting\<close>

definition only_touches :: "path \<Rightarrow> fs \<Rightarrow> fs \<Rightarrow> bool" where
  "only_touches t s s' \<longleftrightarrow> (\<forall>q. q \<noteq> t \<longrightarrow> fs_nodes s' q = fs_nodes s q)"

lemma only_touches_rt: "reflp (only_touches t)" "transp (only_touches t)"
  by (auto simp: only_touches_def reflp_def transp_def)

lemma keeps_inspects: "inspects m \<Longrightarrow> keeps (\<lambda>_. True) (only_touches t) m"
  by (auto simp: keeps_def only_touches_def inspects_def Let_def)

lemma append_only_touches: "keeps (\<lambda>_. True) (only_touches t) (fs_append t bs)"
proof (rule keepsI)
  fix s
  obtain f s1 where f: "next_fault s = (Ok f, s1)" "fs_nodes s1 = fs_nodes s"
    using next_fault_nodes [of s] by (cases "next_fault s") blast
  then show "only_touches t s (snd (fs_append t bs s))"
    by (auto simp: fs_append_def ebind_eval only_touches_def split: option.splits node.splits)
qed

lemma create_new_only_touches: "keeps (\<lambda>_. True) (only_touches t) (fs_create_new t)"
proof (rule keepsI)
  fix s show "only_touches t s (snd (fs_create_new t s))"
    using create_new_nodes [of t s "fst (fs_create_new t s)" "snd (fs_create_new t s)"] by (auto simp: only_touches_def)
qed

lemma write_entries_only_touches: "keeps (\<lambda>_. True) (only_touches t) (write_entries to_json t rows)"
  unfolding write_entries_def json_line_def fs_sync_def
  by (intro keeps_ebind keeps_eforeach only_touches_rt TrueI keeps_as_err append_only_touches create_new_only_touches keeps_inspects
      inspects_as_err sys_call_inspects inspects_pure)

lemma append_rows_content:
  assumes "eforeach rows (\<lambda>r. ebind (json_line to_json r) (\<lambda>line. as_err e (fs_append t (text_bytes (line @ [newline]))))) s = (Ok (), s')"
    "fs_nodes s t = Some (FileNode c)"
  shows "\<exists>ls. map to_json rows = map Some ls \<and> fs_nodes s' t = Some (FileNode (c @ text_bytes (line_text ls)))"
  using assms
proof (induction rows arbitrary: s c)
  case (Cons r rows)
  let ?step = "\<lambda>r. ebind (json_line to_json r) (\<lambda>line. as_err e (fs_append t (text_bytes (line @ [newline]))))"
  from Cons.prems(1) obtain s1 where 1: "?step r s = (Ok (), s1)" and rest: "eforeach rows ?step s1 = (Ok (), s')"
    unfolding eforeach.simps ebind_Ok_iff [of "?step r"] by auto
  from 1 obtain l where l: "to_json r = Some l" "fs_append t (text_bytes (l @ [newline])) s = (Ok (), s1)"
    by (cases "to_json r") (auto simp: ebind_Ok_iff json_line_def as_err_Ok)
  from fs_append_nodes [OF l(2) Cons.prems(2)] have "fs_nodes s1 t = Some (FileNode (c @ text_bytes (l @ [newline])))" by auto
  from Cons.IH [OF rest this] obtain ls where "map to_json rows = map Some ls"
      "fs_nodes s' t = Some (FileNode (c @ text_bytes (l @ [newline]) @ text_bytes (line_text ls)))" by auto
  with l(1) show ?case by (intro exI [of _ "l # ls"]) (simp add: text_bytes_def)
qed (simp add: text_bytes_def)

lemma write_entries_content:
  assumes "write_entries to_json t rows s = (Ok (), s')"
  shows "\<exists>ls. map to_json rows = map Some ls \<and> fs_nodes s' t = Some (FileNode (text_bytes (store_text ls [])))"
proof -
  let ?step = "\<lambda>r. ebind (json_line to_json r) (\<lambda>line. as_err (idempotency_io ''rewrite_store_entry'') (fs_append t (text_bytes (line @ [newline]))))"
  obtain s1 s2 s3 where 1: "fs_create_new t s = (Ok (), s1)"
      and 2: "fs_append t (text_bytes (IDEMPOTENCY_FORMAT_V1 @ [newline])) s1 = (Ok (), s2)"
      and 3: "eforeach rows ?step s2 = (Ok (), s3)" and 4: "fs_sync t s3 = (Ok (), s')"
    using assms unfolding write_entries_def ebind_Ok_iff as_err_Ok by auto
  have "fs_nodes s1 t = Some (FileNode [])"
    using 1 unfolding fs_create_new_def by (auto elim!: sys_call_cases split: if_splits)
  from fs_append_nodes [OF 2 this] have "fs_nodes s2 t = Some (FileNode (text_bytes (IDEMPOTENCY_FORMAT_V1 @ [newline])))" by auto
  from append_rows_content [OF 3 this] obtain ls where "map to_json rows = map Some ls"
      "fs_nodes s3 t = Some (FileNode (text_bytes (store_text ls [])))" by (auto simp: store_text_def text_bytes_def)
  moreover have "fs_nodes s' = fs_nodes s3" using 4 unfolding fs_sync_def by (auto elim!: sys_call_cases)
  ultimately show ?thesis by auto
qed

lemma idem_reject_symlink_inspects: "inspects (idem_reject_symlink p)"
proof -
  have "inspects (fs_symlink_metadata p)" unfolding fs_symlink_metadata_def by (intro sys_call_inspects inspects_pure)
  then show ?thesis
    unfolding inspects_def idem_reject_symlink_def Let_def
    by (auto split: prod.splits sum.splits node.splits io_kind.splits) (metis snd_conv)+
qed

lemma rewrite_entries_stages:
  assumes r: "rewrite_entries to_json p m s = (x, s')" and p: "p \<noteq> []"
  obtains (early) "fs_nodes s' = fs_nodes s" "x \<noteq> Ok ()"
  | (unwritten) "\<forall>q. q \<noteq> temporary_of s p \<longrightarrow> fs_nodes s' q = fs_nodes s q" "x \<noteq> Ok ()"
  | (written) ls where "map to_json (map snd m) = map Some ls" "fs_nodes s' p = Some (FileNode (text_bytes (store_text ls [])))"
      "\<forall>q. q \<noteq> temporary_of s p \<and> q \<noteq> p \<longrightarrow> fs_nodes s' q = fs_nodes s q"
proof -
  let ?t = "temporary_of s p"
  obtain x0 s0 where 0: "idem_reject_symlink p s = (x0, s0)" by (cases "idem_reject_symlink p s")
  have f0: "fs_nodes s0 = fs_nodes s" "fs_temp_counter s0 = fs_temp_counter s" "fs_pid s0 = fs_pid s"
    using 0 idem_reject_symlink_inspects [of p] unfolding inspects_def Let_def by (metis snd_conv)+
  let ?s1 = "s0\<lparr> fs_temp_counter := fs_temp_counter s0 + 1 \<rparr>"
  have t: "temporary_path ''idempotency'' p (butlast p) s0 = (Ok ?t :: runtime_error + path, ?s1)"
    using f0 p by (simp add: temporary_path_def temporary_of_def file_name_def)
  show thesis
  proof (cases x0)
    case (Inl e)
    with r 0 f0 show thesis by (intro early) (auto simp: rewrite_entries_def ebind_eval)
  next
    case x0: (Inr u)
    obtain x2 s2 where 2: "write_entries to_json ?t (map snd m) ?s1 = (x2, s2)" by (cases "write_entries to_json ?t (map snd m) ?s1")
    from keepsD [OF write_entries_only_touches _ this] f0(1)
    have n2: "q \<noteq> ?t \<Longrightarrow> fs_nodes s2 q = fs_nodes s q" for q by (simp add: only_touches_def)
    let ?rename = "as_err (idempotency_io ''rename_temp_store'') (fs_rename ?t p)"
    let ?sync = "sync_parent (idempotency_io ''sync_store_parent'') (butlast p)"
    obtain x3 s3 where 3: "?rename s2 = (x3, s3)" by (cases "?rename s2")
    have n3: "x3 \<noteq> Ok () \<and> fs_nodes s3 = fs_nodes s2 \<or> x3 = Ok () \<and> fs_nodes s3 = (fs_nodes s2)(p := fs_nodes s2 ?t, ?t := None)"
    proof -
      obtain y where "fs_rename ?t p s2 = (y, s3)" "x3 = map_err (\<lambda>_. idempotency_io ''rename_temp_store'') y" using 3 by (auto simp: as_err_eval)
      then show ?thesis using rename_nodes [of ?t p s2 y s3] by (cases y) auto
    qed
    obtain x4 s4 where 4: "?sync s3 = (x4, s4)" by (cases "?sync s3")
    have n4: "fs_nodes s4 = fs_nodes s3" using 4 by (rule sync_parent_nodes)
    have rm: "fs_nodes (snd (fs_remove_file ?t z)) q = fs_nodes z q" if "q \<noteq> ?t" for q z using that by (rule remove_file_nodes)
    show thesis
    proof (cases "x2 = Ok () \<and> x3 = Ok ()")
      case False
      then have "(s' = snd (fs_remove_file ?t s2) \<or> s' = snd (fs_remove_file ?t s3) \<and> x3 \<noteq> Ok ()) \<and> x \<noteq> Ok ()"
        using r 0 x0 t 2 3 by (cases x2; cases x3) (auto simp: rewrite_entries_def ebind_eval)
      then show thesis using n2 n3 rm by (intro unwritten) auto
    next
      case True
      from write_entries_content [of to_json ?t "map snd m" ?s1 s2] 2 True obtain ls where
        ls: "map to_json (map snd m) = map Some ls" "fs_nodes s2 ?t = Some (FileNode (text_bytes (store_text ls [])))" by auto
      have "s' = s4 \<or> s' = snd (fs_remove_file ?t s4)"
        using r 0 x0 t 2 3 4 True by (cases x4) (auto simp: rewrite_entries_def ebind_eval)
      then have "q \<noteq> ?t \<Longrightarrow> fs_nodes s' q = fs_nodes s3 q" for q using n4 rm by auto
      then show thesis using ls n2 n3 True temporary_of_neq [OF p, of s] by (intro written [of ls]) auto
    qed
  qed
qed

section \<open>Disk and memory\<close>

lemma disk_view_snoc: "disk_view (rs @ [r]) = put_resolved r (disk_view rs)"
  by (simp add: disk_view_def)

lemma disk_view_ok: "omap_ok (disk_view rs) \<and> (\<forall>k r. map_of (disk_view rs) k = Some r \<longrightarrow> r \<in> set rs \<and> ir_key r = k \<and> is_resolved r)"
proof (induction rs rule: rev_induct)
  case (snoc r rs)
  then show ?case by (auto simp: disk_view_snoc put_resolved_def split: if_splits)
qed (simp add: disk_view_def)

definition keyed :: "mem_idempotency \<Rightarrow> bool" where
  "keyed m \<longleftrightarrow> (\<forall>k r. map_of m k = Some r \<longrightarrow> ir_key r = k)"

lemma disk_view_rows:
  assumes "distinct (map fst m)" "\<forall>(k, r)\<in>set m. ir_key r = k"
  shows "map_of (disk_view (map snd m)) k = (case map_of m k of Some r \<Rightarrow> if is_resolved r then Some r else None | None \<Rightarrow> None)"
  using assms
proof (induction m rule: rev_induct)
  case (snoc a m)
  obtain key r where a: "a = (key, r)" by (cases a)
  have k: "ir_key r = key" using snoc.prems(2) a by auto
  have none: "map_of m key = None" using snoc.prems(1) a by (auto simp: map_of_eq_None_iff)
  have IH: "map_of (disk_view (map snd m)) k = (case map_of m k of Some r \<Rightarrow> if is_resolved r then Some r else None | None \<Rightarrow> None)"
    using snoc by auto
  show ?case
    using IH none k disk_view_ok [of "map snd m"] by (auto simp: a disk_view_snoc put_resolved_def map_add_def split: option.splits)
qed (simp add: disk_view_def)

lemma disk_view_seen:
  assumes "omap_ok m" "keyed m" "map_of m k = Some r" "is_resolved r"
  shows "map_of (disk_view (map snd m)) k = Some r"
proof -
  have "distinct (map fst m)" using omap_ok_distinct [OF assms(1)] by (simp add: om_keys_def)
  moreover have "\<forall>(k, r)\<in>set m. ir_key r = k" using assms(2) calculation by (auto simp: keyed_def)
  ultimately show ?thesis using assms(3,4) by (simp add: disk_view_rows)
qed

definition seen_ok :: "idempotency_record json_writer \<Rightarrow> mem_idempotency \<Rightarrow> bool" where
  "seen_ok to_json m \<longleftrightarrow> omap_ok m \<and> (\<forall>k r. map_of m k = Some r \<longrightarrow> ir_key r = k \<and> validate_key k = Ok () \<and> writable to_json r)"

lemma seen_ok_keyed: "seen_ok to_json m \<Longrightarrow> keyed m \<and> omap_ok m"
  by (auto simp: seen_ok_def keyed_def)

lemma written_holds:
  assumes "seen_ok to_json m" "map to_json (map snd m) = map Some ls" "fs_nodes s p = Some (FileNode (text_bytes (store_text ls [])))"
  shows "holds_entries to_json s p (map snd m) []"
proof -
  have d: "distinct (map fst m)" using assms(1) omap_ok_distinct [of m] by (simp add: seen_ok_def om_keys_def)
  then have m: "ir_key r = k \<and> validate_key k = Ok () \<and> writable to_json r" if "(k, r) \<in> set m" for k r
    using assms(1) that by (auto simp: seen_ok_def)
  have "ascii_text l" if "l \<in> set ls" for l
  proof -
    have "Some l \<in> set (map to_json (map snd m))" using assms(2) that by simp
    then obtain k r where "(k, r) \<in> set m" "to_json r = Some l" by auto
    with m show ?thesis by (auto simp: writable_def)
  qed
  with assms(2,3) m show ?thesis by (auto simp: holds_entries_def)
qed

lemma disk_view_seen_ok:
  assumes "holds_entries to_json s p rs tail"
  shows "seen_ok to_json (disk_view rs)"
proof -
  obtain ls where ls: "map to_json rs = map Some ls" "\<forall>l\<in>set ls. ascii_text l" "\<forall>r\<in>set rs. validate_key (ir_key r) = Ok ()"
    using assms by (auto simp: holds_entries_def)
  have "writable to_json r" if "r \<in> set rs" for r
  proof -
    have "to_json r \<in> set (map Some ls)" unfolding ls(1) [symmetric] using that by simp
    then show ?thesis using ls(2) by (auto simp: writable_def)
  qed
  then show ?thesis using disk_view_ok [of rs] ls(3) by (auto simp: seen_ok_def)
qed

section \<open>Opening\<close>

lemma load_entries_inspects: "inspects (load_entries from_json p)"
  unfolding load_entries_def fs_open_read_def fs_read_def
  by (intro inspects_ebind idem_reject_symlink_inspects inspects_as_err sys_call_inspects inspects_pure) (auto split: node.splits
    intro!: inspects_ebind inspects_as_err sys_call_inspects)

lemma load_entries_Ok:
  assumes j: "json_lines to_json from_json" and h: "holds_entries to_json s p rs tail"
    and l: "load_entries from_json p s = (Ok (seen, torn), s')"
  shows "seen = disk_view rs \<and> torn = (tail \<noteq> [])"
proof -
  obtain ls where ls: "map to_json rs = map Some ls" "fs_nodes s p = Some (FileNode (text_bytes (store_text ls tail)))"
    "\<forall>l\<in>set ls. ascii_text l" "ascii_text tail" "newline \<notin> set tail" "\<forall>r\<in>set rs. validate_key (ir_key r) = Ok ()"
    using h by (auto simp: holds_entries_def)
  obtain s1 node s2 where 1: "idem_reject_symlink p s = (Ok (), s1)" and 2: "fs_open_read p s1 = (Ok node, s2)"
    using l unfolding load_entries_def ebind_Ok_iff as_err_Ok by auto
  have "fs_nodes s1 = fs_nodes s" using inspectsD [OF idem_reject_symlink_inspects 1] .
  with 2 ls(2) have node: "node = FileNode (text_bytes (store_text ls tail))"
    unfolding fs_open_read_def by (auto elim!: sys_call_cases)
  let ?c = "text_bytes (store_text ls tail)"
  have "ebind (as_err (idempotency_io ''read_store'') (ebind (fs_open_read p) (\<lambda>_. fs_read ?c (length ?c)))) (\<lambda>bs.
      if \<not> valid_utf8 (map unat bs) then efail (idempotency_io ''read_store'')
      else elift (\<lambda>_. parse_entries from_json (bytes_text bs))) s2 = (Ok (seen, torn), s')"
    using l 1 2 node by (simp add: load_entries_def ebind_eval [of "idem_reject_symlink p"] ebind_eval [of "as_err e m" for e m] as_err_def
        split: if_splits)
  then obtain bs s3 s4 where 4: "fs_read ?c (length ?c) s3 = (Ok bs, s4)" and 5: "parse_entries from_json (bytes_text bs) = Ok (seen, torn)"
    unfolding ebind_Ok_iff as_err_Ok by (auto split: if_splits)
  then have "bs = ?c" unfolding fs_read_def by (auto elim!: sys_call_cases)
  with 5 parse_entries_ok [OF j ls(1,6,5)] show ?thesis by simp
qed

text \<open>Without faults, opening succeeds.\<close>

lemma fs_append_healthy:
  "fs_faults s = [] \<Longrightarrow> fs_nodes s p = Some (FileNode old) \<Longrightarrow>
     fs_append p bs s = (Ok (), s\<lparr> fs_nodes := (fs_nodes s)(p \<mapsto> FileNode (old @ bs)) \<rparr>)"
  by (simp add: fs_append_def ebind_eval next_fault_def)

lemma append_rows_healthy:
  assumes "fs_faults s = []" "fs_nodes s t = Some (FileNode c)" "\<forall>r\<in>set rows. to_json r \<noteq> None"
  shows "\<exists>s'. eforeach rows (\<lambda>r. ebind (json_line to_json r) (\<lambda>line. as_err e (fs_append t (text_bytes (line @ [newline]))))) s = (Ok (), s') \<and>
    fs_faults s' = []"
  using assms
proof (induction rows arbitrary: s c)
  case (Cons r rows)
  let ?step = "\<lambda>r. ebind (json_line to_json r) (\<lambda>line. as_err e (fs_append t (text_bytes (line @ [newline]))))"
  obtain l where l: "to_json r = Some l" using Cons.prems(3) by auto
  let ?s = "s\<lparr> fs_nodes := (fs_nodes s)(t \<mapsto> FileNode (c @ text_bytes (l @ [newline]))) \<rparr>"
  have "?step r s = (Ok (), ?s)"
    using Cons.prems l by (simp add: ebind_eval json_line_def as_err_def fs_append_healthy)
  moreover have "\<exists>s'. eforeach rows ?step ?s = (Ok (), s') \<and> fs_faults s' = []" using Cons.prems by (intro Cons.IH) auto
  ultimately show ?case unfolding eforeach.simps ebind_Ok_iff [of "?step r"] by blast
qed simp

lemma write_entries_healthy:
  assumes "fs_faults s = []" "fs_nodes s t = None" "is_dir s (butlast t)" "\<forall>r\<in>set rows. to_json r \<noteq> None"
  shows "\<exists>s'. write_entries to_json t rows s = (Ok (), s') \<and> fs_faults s' = []"
proof -
  let ?c = "text_bytes (IDEMPOTENCY_FORMAT_V1 @ [newline])"
  let ?s1 = "s\<lparr> fs_nodes := (fs_nodes s)(t \<mapsto> FileNode []) \<rparr>" and ?s2 = "s\<lparr> fs_nodes := (fs_nodes s)(t \<mapsto> FileNode ?c) \<rparr>"
  have 1: "fs_create_new t s = (Ok (), ?s1)" using assms(1-3) by (simp add: fs_create_new_def sys_call_healthy)
  have 2: "fs_append t ?c ?s1 = (Ok (), ?s2)" using assms(1) fs_append_healthy [of ?s1 t "[]" ?c] by simp
  obtain s3 where 3: "eforeach rows (\<lambda>r. ebind (json_line to_json r) (\<lambda>line. as_err (idempotency_io ''rewrite_store_entry'')
      (fs_append t (text_bytes (line @ [newline]))))) ?s2 = (Ok (), s3)" "fs_faults s3 = []"
    using append_rows_healthy [of ?s2 t ?c rows to_json] assms(1,4) by auto
  then have "write_entries to_json t rows s = (Ok (), s3)"
    unfolding write_entries_def ebind_Ok_iff as_err_Ok using 1 2 by (auto simp: fs_sync_def sys_call_healthy as_err_Ok)
  with 3(2) show ?thesis by blast
qed

lemma rewrite_entries_healthy:
  assumes "fs_faults s = []" "p \<noteq> []" "is_dir s (butlast p)" "\<forall>c. fs_nodes s p \<noteq> Some DirNode \<and> fs_nodes s p \<noteq> Some LinkNode"
    "fs_nodes s (temporary_of s p) = None" "\<forall>r\<in>set (map snd m). to_json r \<noteq> None"
  shows "\<exists>s'. rewrite_entries to_json p m s = (Ok (), s')"
proof -
  let ?t = "temporary_of s p" and ?s1 = "s\<lparr> fs_temp_counter := fs_temp_counter s + 1 \<rparr>"
  have 0: "idem_reject_symlink p s = (Ok (), s)"
    using assms(1,4) by (cases "fs_nodes s p")
      (auto simp: idem_reject_symlink_def fs_symlink_metadata_def sys_call_healthy split: node.splits)
  have t: "temporary_path ''idempotency'' p (butlast p) s = (Ok ?t :: runtime_error + path, ?s1)"
    using assms(2) by (simp add: temporary_path_def temporary_of_def file_name_def)
  have b: "butlast ?t = butlast p" by (simp add: temporary_of_def)
  obtain s2 where 2: "write_entries to_json ?t (map snd m) ?s1 = (Ok (), s2)" "fs_faults s2 = []"
    using write_entries_healthy [of ?s1 ?t "map snd m" to_json] assms b by (auto simp: is_dir_def)
  have n: "fs_nodes s2 ?t \<noteq> None" using write_entries_content [OF 2(1)] by auto
  have "fs_nodes s2 p = fs_nodes s p"
    using keepsD [OF write_entries_only_touches _ 2(1)] temporary_of_neq [OF assms(2), of s] by (auto simp: only_touches_def)
  then have 3: "fs_rename ?t p s2 = (Ok (), s2\<lparr> fs_nodes := (fs_nodes s2)(p := fs_nodes s2 ?t, ?t := None) \<rparr>)"
    using 2(2) n assms(4) by (simp add: fs_rename_def sys_call_healthy)
  show ?thesis
    using 0 t 2 3 by (simp add: rewrite_entries_def ebind_eval as_err_def sync_parent_def fs_sync_def sys_call_healthy)
qed

definition dirs_ok :: "fs \<Rightarrow> path \<Rightarrow> bool" where
  "dirs_ok s p \<longleftrightarrow> (\<forall>n < length p. is_dir s (take n p))"

lemma ensure_parent_dir_ok: "dirs_ok s p \<Longrightarrow> ensure_parent_dir p s = (Ok (), s)"
proof -
  assume d: "dirs_ok s p"
  have "eforeach qs fs_create_dir s = (Ok (), s)" if "\<forall>q\<in>set qs. is_dir s q" for qs
    using that by (induction qs) (simp_all add: ebind_eval fs_create_dir_def)
  moreover have "\<forall>q\<in>set (map (\<lambda>n. take n (butlast p)) [1 ..< Suc (length (butlast p))]). is_dir s q"
    using d by (auto simp: dirs_ok_def butlast_conv_take min_def)
  ultimately show ?thesis by (simp add: ensure_parent_dir_def fs_create_dir_all_def as_err_Ok)
qed

lemma load_entries_healthy:
  assumes j: "json_lines to_json from_json" and h: "holds_entries to_json s p rs tail" and f: "fs_faults s = []"
    and size: "\<forall>c. fs_nodes s p = Some (FileNode c) \<longrightarrow> length c \<le> MAX_IDEMPOTENCY_FILE_BYTES"
  shows "load_entries from_json p s = (Ok (disk_view rs, tail \<noteq> []), s)"
proof -
  obtain ls where ls: "map to_json rs = map Some ls" "fs_nodes s p = Some (FileNode (text_bytes (store_text ls tail)))"
    "\<forall>l\<in>set ls. ascii_text l" "ascii_text tail" "newline \<notin> set tail" "\<forall>r\<in>set rs. validate_key (ir_key r) = Ok ()"
    using h by (auto simp: holds_entries_def)
  have "idem_reject_symlink p s = (Ok (), s)"
    using f ls(2) by (simp add: idem_reject_symlink_def fs_symlink_metadata_def sys_call_healthy)
  moreover have "fs_open_read p s = (Ok (FileNode (text_bytes (store_text ls tail))), s)"
    using f ls(2) by (simp add: fs_open_read_def sys_call_healthy)
  moreover have "fs_read (text_bytes (store_text ls tail)) (length (store_text ls tail)) s = (Ok (text_bytes (store_text ls tail)), s)"
    using f by (simp add: fs_read_def sys_call_healthy)
  moreover have "valid_utf8 (map unat (text_bytes (store_text ls tail)))"
    using ls(3,4) by (intro ascii_utf8 ascii_store_text)
  ultimately show ?thesis
    using size ls(2) parse_entries_ok [OF j ls(1,6,5)] by (simp add: load_entries_def ebind_eval as_err_def not_less)
qed

section \<open>Operations and restarts\<close>

datatype store_op = SO_Insert idempotency_record | SO_Remove string | SO_Compact u64

fun run_store_op :: "idempotency_record json_writer \<Rightarrow> store_op \<Rightarrow> (file_idempotency, runtime_error, unit) eff" where
  "run_store_op to_json (SO_Insert r) = file_idempotency_insert to_json r"
| "run_store_op to_json (SO_Remove key) = file_idempotency_remove to_json key"
| "run_store_op to_json (SO_Compact now) = ebind (file_idempotency_compact to_json now) (\<lambda>_. eret ())"

fun store_op_writes :: "idempotency_record json_writer \<Rightarrow> store_op \<Rightarrow> bool" where
  "store_op_writes to_json (SO_Insert r) = writable to_json r"
| "store_op_writes to_json _ = True"

text \<open>Which record an operation replaces or drops.\<close>

fun store_op_drops :: "file_idempotency \<Rightarrow> store_op \<Rightarrow> idempotency_record \<Rightarrow> bool" where
  "store_op_drops f (SO_Insert r) old = (ir_key r = ir_key old)"
| "store_op_drops f (SO_Remove key) old = (key = ir_key old)"
| "store_op_drops f (SO_Compact now) old = is_expired (ir_created_at_ms old) (fi_ttl_ms f) now"

definition durable :: "idempotency_record json_writer \<Rightarrow> file_idempotency \<Rightarrow> bool" where
  "durable to_json f \<longleftrightarrow> (\<exists>rs. holds_entries to_json (fi_fs f) (fi_path f) rs [] \<and> seen_ok to_json (fi_seen f) \<and>
     fi_path f \<noteq> [] \<and> dirs_ok (fi_fs f) (fi_path f) \<and>
     (\<forall>k r. map_of (fi_seen f) k = Some r \<and> is_resolved r \<longrightarrow> map_of (disk_view rs) k = Some r))"

definition recovers :: "idempotency_record json_writer \<Rightarrow> fs \<Rightarrow> path \<Rightarrow> idempotency_record \<Rightarrow> bool" where
  "recovers to_json s p r \<longleftrightarrow> (\<exists>rs tail. holds_entries to_json s p rs tail \<and> map_of (disk_view rs) (ir_key r) = Some r)"

lemma dirs_ok_frame:
  assumes "dirs_ok s p" "\<forall>q. length q < length p \<longrightarrow> fs_nodes s' q = fs_nodes s q"
  shows "dirs_ok s' p"
  using assms by (auto simp: dirs_ok_def is_dir_def)

lemma temporary_length: "p \<noteq> [] \<Longrightarrow> length (temporary_of s p) = length p"
  by (simp add: temporary_of_def)

lemma append_entry_seen:
  assumes j: "json_lines to_json from_json" and d: "durable to_json f" and v: "validate_key (ir_key r) = Ok ()" and w: "writable to_json r"
    and a: "append_entry to_json (fi_path f) r (fi_fs f) = (x, s)"
  shows "x = Ok () \<Longrightarrow> durable to_json (f\<lparr> fi_fs := s, fi_seen := om_put (ir_key r) r (fi_seen f) \<rparr>)"
    and "(\<exists>rs tail. holds_entries to_json s (fi_path f) rs tail \<and>
      (\<forall>k r'. k \<noteq> ir_key r \<and> map_of (fi_seen f) k = Some r' \<and> is_resolved r' \<longrightarrow> map_of (disk_view rs) k = Some r')) \<and> dirs_ok s (fi_path f)"
proof -
  obtain rs where d: "holds_entries to_json (fi_fs f) (fi_path f) rs []" "seen_ok to_json (fi_seen f)" "fi_path f \<noteq> []"
      "dirs_ok (fi_fs f) (fi_path f)" "\<And>k r. map_of (fi_seen f) k = Some r \<Longrightarrow> is_resolved r \<Longrightarrow> map_of (disk_view rs) k = Some r"
    using d by (auto simp: durable_def)
  have o: "omap_ok (disk_view rs)" using disk_view_ok by blast
  have "fs_nodes s q = fs_nodes (fi_fs f) q" if "q \<noteq> fi_path f" for q
    using d(1) append_entry_other [OF a _ that] by (auto simp: holds_entries_def)
  then have dirs: "dirs_ok s (fi_path f)" by (intro dirs_ok_frame [OF d(4)]) (metis order_less_irrefl)
  note h = append_entry_holds [OF j d(1) v w a]
  have snoc: "k \<noteq> ir_key r \<or> r' = r \<Longrightarrow> is_resolved r' \<Longrightarrow> map_of ((fi_seen f)) k = Some r' \<or> k = ir_key r \<and> r' = r \<Longrightarrow>
      map_of (disk_view (rs @ [r])) k = Some r'" for k r'
    using d(5) o by (auto simp: disk_view_snoc put_resolved_def)
  show "durable to_json (f\<lparr> fi_fs := s, fi_seen := om_put (ir_key r) r (fi_seen f) \<rparr>)" if "x = Ok ()"
    unfolding durable_def using h d(2,3) dirs snoc that v w by (intro exI [of _ "rs @ [r]"]) (auto simp: seen_ok_def split: if_splits)
  show "(\<exists>rs tail. holds_entries to_json s (fi_path f) rs tail \<and>
      (\<forall>k r'. k \<noteq> ir_key r \<and> map_of (fi_seen f) k = Some r' \<and> is_resolved r' \<longrightarrow> map_of (disk_view rs) k = Some r')) \<and> dirs_ok s (fi_path f)"
    using h d(5) snoc dirs by (metis (no_types, lifting))
qed

lemma rewrite_entries_seen:
  assumes d: "durable to_json f" and m: "seen_ok to_json m" "\<forall>k r. map_of m k = Some r \<longrightarrow> map_of (fi_seen f) k = Some r"
    and a: "rewrite_entries to_json (fi_path f) m (fi_fs f) = (x, s)"
  shows "x = Ok () \<Longrightarrow> durable to_json (f\<lparr> fi_fs := s, fi_seen := m \<rparr>)"
    and "(\<exists>rs tail. holds_entries to_json s (fi_path f) rs tail \<and>
      (\<forall>k r'. map_of m k = Some r' \<and> is_resolved r' \<longrightarrow> map_of (disk_view rs) k = Some r')) \<and> dirs_ok s (fi_path f)"
proof -
  let ?p = "fi_path f"
  obtain rs where d: "holds_entries to_json (fi_fs f) ?p rs []" "?p \<noteq> []" "dirs_ok (fi_fs f) ?p"
      "\<And>k r. map_of (fi_seen f) k = Some r \<Longrightarrow> is_resolved r \<Longrightarrow> map_of (disk_view rs) k = Some r"
    using d by (auto simp: durable_def)
  have m': "map_of m k = Some r \<Longrightarrow> is_resolved r \<Longrightarrow> map_of (disk_view rs) k = Some r" for k r using d(4) m(2) by metis
  have same: "(\<exists>rs tail. holds_entries to_json s ?p rs tail \<and>
      (\<forall>k r'. map_of m k = Some r' \<and> is_resolved r' \<longrightarrow> map_of (disk_view rs) k = Some r')) \<and> dirs_ok s ?p"
    if "holds_entries to_json s ?p rs []" "dirs_ok s ?p"
    using that m' by (intro conjI exI [of _ rs] exI [of _ "[]"]) auto
  have both: "(x = Ok () \<longrightarrow> durable to_json (f\<lparr> fi_fs := s, fi_seen := m \<rparr>)) \<and> (\<exists>rs tail. holds_entries to_json s ?p rs tail \<and>
      (\<forall>k r'. map_of m k = Some r' \<and> is_resolved r' \<longrightarrow> map_of (disk_view rs) k = Some r')) \<and> dirs_ok s ?p"
    using a d(2)
  proof (cases rule: rewrite_entries_stages)
    case early
    then have "holds_entries to_json s ?p rs []" "dirs_ok s ?p" using d(1,3) by (simp_all add: holds_entries_def dirs_ok_def is_dir_def)
    then show ?thesis using early(2) same by simp
  next
    case unwritten
    then have "fs_nodes s ?p = fs_nodes (fi_fs f) ?p" using temporary_of_neq [OF d(2)] by metis
    then have "holds_entries to_json s ?p rs []" using d(1) by (auto simp: holds_entries_def)
    moreover have "dirs_ok s ?p" using unwritten(1) temporary_length [OF d(2)] by (intro dirs_ok_frame [OF d(3)]) (metis order_less_irrefl)
    ultimately show ?thesis using unwritten(2) same by simp
  next
    case (written ls)
    have "dirs_ok s ?p" using written(3) temporary_length [OF d(2)] by (intro dirs_ok_frame [OF d(3)]) (metis order_less_irrefl)
    moreover have "holds_entries to_json s ?p (map snd m) []" by (rule written_holds [OF m(1) written(1,2)])
    moreover have "map_of (disk_view (map snd m)) k = Some r" if "map_of m k = Some r" "is_resolved r" for k r
      using disk_view_seen that seen_ok_keyed [OF m(1)] by blast
    ultimately show ?thesis using d(2) m(1) by (auto simp: durable_def)
  qed
  from both show "x = Ok () \<Longrightarrow> durable to_json (f\<lparr> fi_fs := s, fi_seen := m \<rparr>)"
    and "(\<exists>rs tail. holds_entries to_json s ?p rs tail \<and>
      (\<forall>k r'. map_of m k = Some r' \<and> is_resolved r' \<longrightarrow> map_of (disk_view rs) k = Some r')) \<and> dirs_ok s ?p" by blast+
qed

lemma seen_ok_sub:
  assumes "seen_ok to_json m" "omap_ok m'" "\<forall>k r. map_of m' k = Some r \<longrightarrow> map_of m k = Some r"
  shows "seen_ok to_json m'"
  using assms by (auto simp: seen_ok_def)

text \<open>
  Whatever an operation on a durable store returns, the records it does not drop can be read back; if it succeeds
  the store is durable again.
\<close>

lemma run_store_op_cases:
  assumes j: "json_lines to_json from_json" and d: "durable to_json f" and w: "store_op_writes to_json op"
    and r: "run_store_op to_json op f = (x, f')"
  shows "x = Ok () \<Longrightarrow> durable to_json f'" and "fi_path f' = fi_path f" and "fi_ttl_ms f' = fi_ttl_ms f"
    and "dirs_ok (fi_fs f') (fi_path f)"
    and "\<exists>rs tail. holds_entries to_json (fi_fs f') (fi_path f) rs tail \<and>
      (\<forall>k r. map_of (fi_seen f) k = Some r \<and> is_resolved r \<and> \<not> store_op_drops f op r \<longrightarrow> map_of (disk_view rs) k = Some r)"
proof -
  let ?p = "fi_path f"
  have s: "seen_ok to_json (fi_seen f)" "dirs_ok (fi_fs f) ?p" using d by (auto simp: durable_def)
  have key: "map_of (fi_seen f) k = Some r \<Longrightarrow> ir_key r = k" for k r using s(1) by (auto simp: seen_ok_def)
  have idle: "\<exists>rs tail. holds_entries to_json (fi_fs f) ?p rs tail \<and>
      (\<forall>k r. map_of (fi_seen f) k = Some r \<and> is_resolved r \<and> \<not> store_op_drops f op r \<longrightarrow> map_of (disk_view rs) k = Some r)"
    using d unfolding durable_def by blast
  define goal where "goal g y \<longleftrightarrow> (y = Ok () \<longrightarrow> durable to_json g) \<and> fi_path g = ?p \<and> fi_ttl_ms g = fi_ttl_ms f \<and> dirs_ok (fi_fs g) ?p \<and>
      (\<exists>rs tail. holds_entries to_json (fi_fs g) ?p rs tail \<and>
      (\<forall>k r. map_of (fi_seen f) k = Some r \<and> is_resolved r \<and> \<not> store_op_drops f op r \<longrightarrow> map_of (disk_view rs) k = Some r))"
    for g :: file_idempotency and y :: "unit runtime_result"
  have keep: "goal f y" for y using idle s d by (simp add: goal_def)
  have rewrite: "goal (f\<lparr> fi_fs := t, fi_seen := m \<rparr>) y"
    if "rewrite_entries to_json ?p m (fi_fs f) = (y, t)" "omap_ok m" "\<forall>k r. map_of m k = Some r \<longrightarrow> map_of (fi_seen f) k = Some r"
      "\<forall>k r. map_of (fi_seen f) k = Some r \<and> \<not> store_op_drops f op r \<longrightarrow> map_of m k = Some r" for m y t
  proof -
    note e = rewrite_entries_seen [OF d seen_ok_sub [OF s(1) that(2,3)] that(3,1)]
    from e(2) obtain rs tail where h: "holds_entries to_json t ?p rs tail" "dirs_ok t ?p"
      "\<forall>k r'. map_of m k = Some r' \<and> is_resolved r' \<longrightarrow> map_of (disk_view rs) k = Some r'" by blast
    with e(1) that(4) show ?thesis unfolding goal_def by (auto intro!: exI [of _ rs] exI [of _ tail])
  qed
  have "goal f' x"
  proof (cases op)
    case (SO_Insert r)
    with assms(4) have "file_idempotency_insert to_json r f = (x, f')" by simp
    then show ?thesis
    proof (cases rule: file_insert_cases)
      case (failed e t)
      from append_entry_seen(2) [OF j d failed(1) _ failed(2)] w SO_Insert obtain rs tail where
        h: "holds_entries to_json t ?p rs tail" "dirs_ok t ?p"
          "\<forall>k r'. k \<noteq> ir_key r \<and> map_of (fi_seen f) k = Some r' \<and> is_resolved r' \<longrightarrow> map_of (disk_view rs) k = Some r'" by auto
      with failed key SO_Insert show ?thesis unfolding goal_def by (auto intro!: exI [of _ rs] exI [of _ tail])
    next
      case (stored t)
      from append_entry_seen [OF j d stored(1) _ stored(2)] w SO_Insert obtain rs tail where
        h: "durable to_json f'" "holds_entries to_json t ?p rs tail" "dirs_ok t ?p"
          "\<forall>k r'. k \<noteq> ir_key r \<and> map_of (fi_seen f) k = Some r' \<and> is_resolved r' \<longrightarrow> map_of (disk_view rs) k = Some r'"
        using stored(4) by auto
      with stored key SO_Insert show ?thesis unfolding goal_def by (auto intro!: exI [of _ rs] exI [of _ tail])
    qed (use keep in simp)
  next
    case (SO_Remove key')
    let ?m = "om_del key' (fi_seen f)"
    obtain y t where t: "rewrite_entries to_json ?p ?m (fi_fs f) = (y, t)" by (cases "rewrite_entries to_json ?p ?m (fi_fs f)")
    have "goal (f\<lparr> fi_fs := t, fi_seen := ?m \<rparr>) y"
      using s(1) key SO_Remove by (intro rewrite [OF t]) (auto simp: seen_ok_def split: if_splits)
    moreover have "f' = f \<or> f' = f\<lparr> fi_fs := t, fi_seen := ?m \<rparr> \<and> x = y"
      using assms(4) SO_Remove t by (auto simp: file_idempotency_remove_def on_store_fs_def Let_def split: if_splits)
    ultimately show ?thesis using keep by auto
  next
    case (SO_Compact now)
    let ?m = "om_retain (\<lambda>_ r. \<not> is_expired (ir_created_at_ms r) (fi_ttl_ms f) now) (fi_seen f)"
    obtain y t where t: "rewrite_entries to_json ?p ?m (fi_fs f) = (y, t)" by (cases "rewrite_entries to_json ?p ?m (fi_fs f)")
    have o: "omap_ok (fi_seen f)" using s(1) by (simp add: seen_ok_def)
    have "goal (f\<lparr> fi_fs := t, fi_seen := ?m \<rparr>) y"
      using o SO_Compact by (intro rewrite [OF t]) (auto simp: map_of_om_retain split: option.splits if_splits)
    moreover have "f' = f\<lparr> fi_fs := t, fi_seen := ?m \<rparr> \<and> (x = Ok () \<longleftrightarrow> y = Ok ())"
      using assms(4) SO_Compact t by (cases y) (auto simp: file_idempotency_compact_def on_store_fs_def Let_def ebind_eval)
    ultimately show ?thesis by (auto simp: goal_def)
  qed
  then show "x = Ok () \<Longrightarrow> durable to_json f'" and "fi_path f' = ?p" and "fi_ttl_ms f' = fi_ttl_ms f" and "dirs_ok (fi_fs f') ?p"
    and "\<exists>rs tail. holds_entries to_json (fi_fs f') ?p rs tail \<and>
      (\<forall>k r. map_of (fi_seen f) k = Some r \<and> is_resolved r \<and> \<not> store_op_drops f op r \<longrightarrow> map_of (disk_view rs) k = Some r)"
    unfolding goal_def by blast+
qed

lemma create_dir_is_dir:
  assumes "fs_create_dir q s = (Ok (), s')"
  shows "is_dir s' q" "is_dir s q' \<Longrightarrow> is_dir s' q'"
proof -
  obtain f s1 where f: "next_fault s = (Ok f, s1)" "fs_nodes s1 = fs_nodes s"
    using next_fault_nodes [of s] by (cases "next_fault s") blast
  then show "is_dir s' q" "is_dir s q' \<Longrightarrow> is_dir s' q'"
    using assms by (auto simp: fs_create_dir_def sys_call_def ebind_eval is_dir_def split: if_splits)
qed

lemma create_dirs_are_dirs:
  assumes "eforeach qs fs_create_dir s = (Ok (), s')"
  shows "(\<forall>q\<in>set qs. is_dir s' q) \<and> (\<forall>q. is_dir s q \<longrightarrow> is_dir s' q)"
  using assms
proof (induction qs arbitrary: s)
  case (Cons q qs)
  then obtain s1 where 1: "fs_create_dir q s = (Ok (), s1)" and 2: "eforeach qs fs_create_dir s1 = (Ok (), s')"
    by (auto simp: ebind_Ok_iff)
  from Cons.IH [OF 2] create_dir_is_dir [OF 1] show ?case by auto
qed simp

lemma ensure_parent_dir_dirs:
  assumes "ensure_parent_dir p s = (Ok (), s')"
  shows "dirs_ok s' p"
proof -
  have "\<forall>q\<in>set (map (\<lambda>n. take n (butlast p)) [1 ..< Suc (length (butlast p))]). is_dir s' q"
    using assms create_dirs_are_dirs unfolding ensure_parent_dir_def fs_create_dir_all_def as_err_Ok by blast
  moreover have "take n p \<in> set (map (\<lambda>n. take n (butlast p)) [1 ..< Suc (length (butlast p))])" if "n < length p" "n \<noteq> 0" for n
    using that take_butlast [of n p] by (auto intro!: image_eqI [of _ _ n])
  ultimately have "is_dir s' (take n p)" if "n < length p" "n \<noteq> 0" for n using that by metis
  moreover have "is_dir s' (take 0 p)" by (simp add: is_dir_def)
  ultimately show ?thesis unfolding dirs_ok_def by metis
qed

lemma ensure_parent_dir_node:
  assumes "ensure_parent_dir p s = (x, s')" "p \<noteq> []"
  shows "fs_nodes s' p = fs_nodes s p"
proof -
  have "dirs_only (butlast p) s s'"
    using keepsD [OF create_dir_all_dirs_only _ assms(1) [unfolded ensure_parent_dir_def]] by simp
  moreover have "\<not> prefix p (butlast p)" using assms(2) prefix_length_le [of p "butlast p"] by (cases p) auto
  ultimately show ?thesis by (auto simp: dirs_only_def)
qed

text \<open>The steps of an opening that succeeds. The file is taken to exist exactly when it does, if that check is answered.\<close>

lemma file_new_steps:
  assumes n: "file_idempotency_new to_json from_json p ttl s = (Ok f, s')" and p: "p \<noteq> []"
  obtains s1 s2 seen torn s3 s4 found where "fs_nodes s1 p = fs_nodes s p" "dirs_ok s1 p"
    "(if \<not> found then rewrite_entries to_json p [] else eret ()) s1 = (Ok (), s2)"
    "load_entries from_json p s2 = (Ok (seen, torn), s3)" "(if torn then rewrite_entries to_json p seen else eret ()) s3 = (Ok (), s4)"
    "f = \<lparr> fi_fs = s4, fi_path = p, fi_ttl_ms = (if ttl = Some 0 then None else ttl), fi_seen = seen \<rparr>"
    "found \<longrightarrow> fs_nodes s p \<noteq> None" "stat_answers (ensure_parent_dir p) s \<longrightarrow> found = (fs_nodes s p \<noteq> None)"
proof -
  obtain s0 s1 s2 seen torn s3 s4 found where 0: "ensure_parent_dir p s = (Ok (), s0)"
      and 1: "path_exists p s0 = (Ok found :: runtime_error + bool, s1)"
      and 2: "(if \<not> found then rewrite_entries to_json p [] else eret ()) s1 = (Ok (), s2)"
      and 3: "load_entries from_json p s2 = (Ok (seen, torn), s3)"
      and 4: "(if torn then rewrite_entries to_json p seen else eret ()) s3 = (Ok (), s4)"
      and f: "f = \<lparr> fi_fs = s4, fi_path = p, fi_ttl_ms = (if ttl = Some 0 then None else ttl), fi_seen = seen \<rparr>"
    using n unfolding file_idempotency_new_def by (auto simp: ebind_Ok_iff simp del: if_not_P)
  have n1: "fs_nodes s1 = fs_nodes s0" using path_exists_Ok(1) [OF 1] .
  have n0: "fs_nodes s0 p = fs_nodes s p" using ensure_parent_dir_node [OF 0 p] .
  have "dirs_ok s1 p" using ensure_parent_dir_dirs [OF 0] n1 by (auto simp: dirs_ok_def is_dir_def)
  moreover have "found \<longrightarrow> fs_nodes s p \<noteq> None" using path_exists_Ok(3) [OF 1] n0 by auto
  moreover have "stat_answers (ensure_parent_dir p) s \<longrightarrow> found = (fs_nodes s p \<noteq> None)"
    using path_exists_answered [of "ensure_parent_dir p" s, OF 0 1] n0 by simp
  moreover have "fs_nodes s1 p = fs_nodes s p" using n1 n0 by simp
  ultimately show thesis using that 2 3 4 f by blast
qed

text \<open>
  What was on disk is there again; a check of existence that is not answered leaves an empty store instead. Either
  way memory and disk agree.
\<close>

lemma file_new_durable:
  assumes j: "json_lines to_json from_json" and p: "p \<noteq> []" and n: "file_idempotency_new to_json from_json p ttl s = (Ok f, s')"
    and h: "fs_nodes s p = None \<and> rs = [] \<or> holds_entries to_json s p rs tail"
  shows "durable to_json f \<and> fi_path f = p \<and> (fi_seen f = disk_view rs \<or> fi_seen f = [] \<and> \<not> stat_answers (ensure_parent_dir p) s)"
proof -
  obtain s1 s2 seen torn s3 s4 found where n1: "fs_nodes s1 p = fs_nodes s p" and d1: "dirs_ok s1 p"
    and 2: "(if \<not> found then rewrite_entries to_json p [] else eret ()) s1 = (Ok (), s2)"
    and 3: "load_entries from_json p s2 = (Ok (seen, torn), s3)" and 4: "(if torn then rewrite_entries to_json p seen else eret ()) s3 = (Ok (), s4)"
    and f: "f = \<lparr> fi_fs = s4, fi_path = p, fi_ttl_ms = (if ttl = Some 0 then None else ttl), fi_seen = seen \<rparr>"
    and found: "found \<longrightarrow> fs_nodes s p \<noteq> None" "stat_answers (ensure_parent_dir p) s \<longrightarrow> found = (fs_nodes s p \<noteq> None)"
    using file_new_steps [OF n p] .
  have short: "length q < length p \<Longrightarrow> q \<noteq> temporary_of z p \<and> q \<noteq> p" for q z using temporary_length [OF p, of z] by auto
  obtain qs tail' where h2: "holds_entries to_json s2 p qs tail'" and d2: "dirs_ok s2 p"
    and qs: "qs = rs \<or> qs = [] \<and> \<not> stat_answers (ensure_parent_dir p) s"
  proof (cases found)
    case False
    then have "[] = rs \<or> \<not> stat_answers (ensure_parent_dir p) s" using h found by (auto simp: holds_entries_def)
    moreover from 2 False have "rewrite_entries to_json p [] s1 = (Ok (), s2)" by simp
    from this p have "holds_entries to_json s2 p [] [] \<and> dirs_ok s2 p"
      by (cases rule: rewrite_entries_stages) (use short in \<open>auto intro!: dirs_ok_frame [OF d1] simp: holds_entries_def\<close>)
    ultimately show thesis by (intro that [of "[]" "[]"]) auto
  next
    case True
    with 2 h n1 d1 found(1) show thesis by (intro that [of rs tail]) (auto simp: holds_entries_def)
  qed
  have seen: "seen = disk_view qs" "torn = (tail' \<noteq> [])" using load_entries_Ok [OF j h2 3] by auto
  have view: "seen = disk_view rs \<or> seen = [] \<and> \<not> stat_answers (ensure_parent_dir p) s" using qs seen(1) by (auto simp: disk_view_def)
  have ok: "seen_ok to_json seen" unfolding seen by (rule disk_view_seen_ok [OF h2])
  have n3: "fs_nodes s3 = fs_nodes s2" using inspectsD [OF load_entries_inspects 3] .
  have d3: "dirs_ok s3 p" "holds_entries to_json s3 p qs tail'" using d2 h2 n3 by (auto simp: dirs_ok_def is_dir_def holds_entries_def)
  show ?thesis
  proof (cases torn)
    case False
    then show ?thesis using 4 d3 seen ok p view by (auto simp: f durable_def)
  next
    case True
    from 4 True have "rewrite_entries to_json p seen s3 = (Ok (), s4)" by simp
    from this p show ?thesis
    proof (cases rule: rewrite_entries_stages)
      case (written ls)
      have "dirs_ok s4 p" using written(3) short by (intro dirs_ok_frame [OF d3(1)]) auto
      moreover have "holds_entries to_json s4 p (map snd seen) []" by (rule written_holds [OF ok written(1,2)])
      moreover have "map_of seen k = Some r \<Longrightarrow> is_resolved r \<Longrightarrow> map_of (disk_view (map snd seen)) k = Some r" for k r
        using disk_view_seen seen_ok_keyed [OF ok] by metis
      ultimately have "durable to_json f" unfolding durable_def f using p ok by (intro exI [of _ "map snd seen"]) simp
      then show ?thesis using view by (simp add: f)
    qed auto
  qed
qed

lemma file_new_healthy:
  assumes j: "json_lines to_json from_json" and p: "p \<noteq> []" and h: "holds_entries to_json s p rs tail" and f: "fs_faults s = []"
    and d: "dirs_ok s p" and t: "fs_nodes s (temporary_of s p) = None"
    and size: "\<forall>c. fs_nodes s p = Some (FileNode c) \<longrightarrow> length c \<le> MAX_IDEMPOTENCY_FILE_BYTES"
  shows "\<exists>f s'. file_idempotency_new to_json from_json p ttl s = (Ok f, s')"
proof -
  obtain ls c where ls: "map to_json rs = map Some ls" "fs_nodes s p = Some (FileNode c)" using h by (auto simp: holds_entries_def)
  have "to_json r \<noteq> None" if r: "r \<in> set (map snd (disk_view rs))" for r
  proof -
    have "distinct (map fst (disk_view rs))" using disk_view_ok [of rs] omap_ok_distinct [of "disk_view rs"] by (simp add: om_keys_def)
    moreover obtain k where "(k, r) \<in> set (disk_view rs)" using r by auto
    ultimately have "map_of (disk_view rs) k = Some r" by (rule map_of_is_SomeI)
    then have "r \<in> set rs" using disk_view_ok [of rs] by (elim conjE) metis
    then have "to_json r \<in> set (map Some ls)" unfolding ls(1) [symmetric] by simp
    then show ?thesis by auto
  qed
  moreover have "is_dir s (butlast p)" using d p by (auto simp: dirs_ok_def butlast_conv_take)
  ultimately obtain s' where "rewrite_entries to_json p (disk_view rs) s = (Ok (), s')"
    using rewrite_entries_healthy [of s p "disk_view rs" to_json] f p t ls(2) by auto
  then show ?thesis
    using ensure_parent_dir_ok [OF d] ls(2) load_entries_healthy [OF j h f size]
    by (simp add: file_idempotency_new_def ebind_eval path_exists_healthy [OF f])
qed

text \<open>A store in use: created in a missing file, operated on, and opened again after an operation that may have failed.\<close>

inductive store_run :: "idempotency_record json_writer \<Rightarrow> idempotency_record json_reader \<Rightarrow> path \<Rightarrow> u64 option \<Rightarrow> file_idempotency \<Rightarrow> bool"
  for to_json from_json p ttl where
  create: "fs_nodes s p = None \<Longrightarrow> file_idempotency_new to_json from_json p ttl s = (Ok f, s') \<Longrightarrow> store_run to_json from_json p ttl f"
| operate: "store_run to_json from_json p ttl f \<Longrightarrow> store_op_writes to_json op \<Longrightarrow> run_store_op to_json op f = (Ok (), f') \<Longrightarrow>
    store_run to_json from_json p ttl f'"
| restart: "store_run to_json from_json p ttl f \<Longrightarrow> store_op_writes to_json op \<Longrightarrow> run_store_op to_json op f = (x, f') \<Longrightarrow>
    fs_nodes s = fs_nodes (fi_fs f') \<Longrightarrow> file_idempotency_new to_json from_json p ttl s = (Ok f'', s') \<Longrightarrow> store_run to_json from_json p ttl f''"

lemma store_run_durable:
  assumes "store_run to_json from_json p ttl f" "json_lines to_json from_json" "p \<noteq> []"
  shows "durable to_json f \<and> fi_path f = p"
  using assms(1)
proof induction
  case (create s f s')
  then show ?case using file_new_durable [OF assms(2,3) create(2), of "[]"] by auto
next
  case (operate f op f')
  then show ?case using run_store_op_cases(1,2) [OF assms(2) _ operate(2,3)] by auto
next
  case (restart f op x f' s f'' s')
  then obtain rs tail where "holds_entries to_json (fi_fs f') p rs tail"
    using run_store_op_cases(5) [OF assms(2) _ restart(2,3)] by auto
  then have "holds_entries to_json s p rs tail" using restart(4) by (simp add: holds_entries_def)
  then show ?case using file_new_durable [OF assms(2,3) restart(5)] by blast
qed

text \<open>
  After an operation that ended in any way, the store opens again, holds every resolved record that the
  operation did not drop, and no reservation of a command that had not finished.
\<close>

lemma store_reopens:
  assumes j: "json_lines to_json from_json" and p: "p \<noteq> []" and run: "store_run to_json from_json p ttl f"
    and op: "store_op_writes to_json op" "run_store_op to_json op f = (x, f')" and s: "fs_nodes s = fs_nodes (fi_fs f')" "fs_faults s = []"
    and t: "fs_nodes s (temporary_of s p) = None"
    and size: "\<forall>c. fs_nodes s p = Some (FileNode c) \<longrightarrow> length c \<le> MAX_IDEMPOTENCY_FILE_BYTES"
  shows "\<exists>f'' s'. file_idempotency_new to_json from_json p ttl s = (Ok f'', s') \<and>
    (\<forall>k r. map_of (fi_seen f) k = Some r \<and> is_resolved r \<and> \<not> store_op_drops f op r \<longrightarrow> map_of (fi_seen f'') k = Some r) \<and>
    (\<forall>k r. map_of (fi_seen f'') k = Some r \<longrightarrow> is_resolved r)"
proof -
  have d: "durable to_json f" "fi_path f = p" using store_run_durable [OF run j p] by auto
  obtain rs tail where h: "holds_entries to_json (fi_fs f') p rs tail"
      "\<forall>k r. map_of (fi_seen f) k = Some r \<and> is_resolved r \<and> \<not> store_op_drops f op r \<longrightarrow> map_of (disk_view rs) k = Some r"
    using run_store_op_cases(5) [OF j d(1) op] d(2) by auto
  have h': "holds_entries to_json s p rs tail" "dirs_ok s p"
    using h(1) s(1) run_store_op_cases(4) [OF j d(1) op] d(2) by (auto simp: holds_entries_def dirs_ok_def is_dir_def)
  obtain f'' s' where n: "file_idempotency_new to_json from_json p ttl s = (Ok f'', s')"
    using file_new_healthy [OF j p h'(1) s(2) h'(2) t size] by blast
  have "stat_answers (ensure_parent_dir p) s" using ensure_parent_dir_ok [OF h'(2)] s(2) by (simp add: stat_answers_def)
  then have seen: "fi_seen f'' = disk_view rs" using file_new_durable [OF j p n] h'(1) by blast
  have "\<forall>k r. map_of (fi_seen f'') k = Some r \<longrightarrow> is_resolved r" unfolding seen using disk_view_ok [of rs] by (elim conjE) metis
  then show ?thesis using n h(2) [folded seen] by (intro exI conjI)
qed

section \<open>After a failed append\<close>

lemma load_lines_append:
  "load_idempotency_lines from_json seen (ls @ ls') =
     rbind (load_idempotency_lines from_json seen ls) (\<lambda>seen'. load_idempotency_lines from_json seen' ls')"
proof (induction ls arbitrary: seen)
  case (Cons l ls)
  then show ?case
    by (cases "parse_idempotency_record from_json (rust_trim l)"; cases "validate_key (ir_key (projr (parse_idempotency_record from_json (rust_trim l))))")
      (auto simp: Let_def)
qed simp

lemma load_entries_parses:
  assumes "load_entries from_json p s = (Ok x, s')" "fs_nodes s p = Some (FileNode c)"
  shows "parse_entries from_json (bytes_text c) = Ok x" and "valid_utf8 (map unat c)"
proof -
  obtain s1 node s2 where 1: "idem_reject_symlink p s = (Ok (), s1)" and 2: "fs_open_read p s1 = (Ok node, s2)"
    using assms(1) unfolding load_entries_def ebind_Ok_iff as_err_Ok by auto
  have "fs_nodes s1 = fs_nodes s" using inspectsD [OF idem_reject_symlink_inspects 1] .
  with 2 assms(2) have node: "node = FileNode c" unfolding fs_open_read_def by (auto elim!: sys_call_cases)
  have "ebind (as_err (idempotency_io ''read_store'') (ebind (fs_open_read p) (\<lambda>_. fs_read c (length c)))) (\<lambda>bs.
      if \<not> valid_utf8 (map unat bs) then efail (idempotency_io ''read_store'')
      else elift (\<lambda>_. parse_entries from_json (bytes_text bs))) s2 = (Ok x, s')"
    using assms(1) 1 2 node by (simp add: load_entries_def ebind_eval [of "idem_reject_symlink p"]
        ebind_eval [of "as_err e m" for e m] as_err_def split: if_splits)
  then obtain bs s3 s4 where bs: "fs_read c (length c) s3 = (Ok bs, s4)" "parse_entries from_json (bytes_text bs) = Ok x"
      "valid_utf8 (map unat bs)"
    unfolding ebind_Ok_iff as_err_Ok by (auto split: if_splits)
  then have "bs = c" unfolding fs_read_def by (auto elim!: sys_call_cases)
  with bs(2,3) show "parse_entries from_json (bytes_text c) = Ok x" "valid_utf8 (map unat c)" by simp_all
qed

text \<open>
  An append that was cut off inside a character of several bytes leaves a file that is no UTF-8 text, which is
  refused before the incomplete line is looked at.
\<close>

lemma torn_character_refused:
  "fs_nodes s p = Some (FileNode c) \<Longrightarrow> \<not> valid_utf8 (map unat c) \<Longrightarrow> \<not> is_ok (fst (load_entries from_json p s))"
  using load_entries_parses(2) [of from_json p s] by (cases "load_entries from_json p s"; cases "fst (load_entries from_json p s)") auto

lemma file_new_parses:
  assumes n: "file_idempotency_new to_json from_json p ttl s = (Ok f, s')" "fs_nodes s p = Some (FileNode c)" "p \<noteq> []"
    and j: "json_lines to_json from_json"
  shows "is_ok (parse_entries from_json (bytes_text c)) \<or> \<not> stat_answers (ensure_parent_dir p) s \<and> fi_seen f = []"
proof -
  obtain s1 s2 seen torn s3 s4 found where n1: "fs_nodes s1 p = fs_nodes s p"
    and 2: "(if \<not> found then rewrite_entries to_json p [] else eret ()) s1 = (Ok (), s2)"
    and 3: "load_entries from_json p s2 = (Ok (seen, torn), s3)"
    and f: "f = \<lparr> fi_fs = s4, fi_path = p, fi_ttl_ms = (if ttl = Some 0 then None else ttl), fi_seen = seen \<rparr>"
    and found: "stat_answers (ensure_parent_dir p) s \<longrightarrow> found = (fs_nodes s p \<noteq> None)"
    using file_new_steps [OF n(1,3)] .
  show ?thesis
  proof (cases found)
    case True
    then have "s2 = s1" "fs_nodes s1 p = Some (FileNode c)" using 2 n1 n(2) by auto
    with 3 load_entries_parses(1) [of from_json p s1 "(seen, torn)" s3] show ?thesis by simp
  next
    case False
    from 2 False have "rewrite_entries to_json p [] s1 = (Ok (), s2)" by simp
    from this n(3) have "holds_entries to_json s2 p [] []"
      by (cases rule: rewrite_entries_stages) (auto simp: holds_entries_def)
    from load_entries_Ok [OF j this 3] have "seen = []" by (simp add: disk_view_def)
    with False found n(2) show ?thesis by (simp add: f)
  qed
qed

lemma glued_line_refused:
  assumes j: "json_lines to_json from_json" and ls: "map to_json rs = map Some ls" "\<forall>r\<in>set rs. validate_key (ir_key r) = Ok ()"
    and r: "to_json r1 = Some l1" "to_json r2 = Some l2" "0 < n" "from_json (take n l1 @ l2) = None"
  shows "\<not> is_ok (parse_entries from_json (store_text (ls @ [take n l1 @ l2]) []))"
proof -
  let ?glued = "take n l1 @ l2"
  have lines: "line_ok l1" "line_ok l2" "hd l1 = CHR ''{''" "l1 \<noteq> []" "l2 \<noteq> []" "last l2 = CHR ''}''"
    using j r(1,2) by (auto simp: json_lines_def)
  have lok: "\<forall>l\<in>set (ls @ [?glued]). line_ok l"
  proof -
    have "\<exists>r. to_json r = Some l" if "l \<in> set ls" for l using ls(1) that by (metis in_set_conv_nth length_map nth_map)
    then have "\<forall>l\<in>set ls. line_ok l" using j by (auto simp: json_lines_def)
    moreover have "line_ok ?glued" using lines(1,2) in_set_takeD [of _ n l1] by (auto simp: line_ok_def)
    ultimately show ?thesis by simp
  qed
  have t: "rust_trim ?glued = ?glued" "take 1 ?glued = ''{''" "?glued \<noteq> []"
    using lines r(3) by (auto intro!: rust_trim_id simp: hd_append take_Cons' split: if_splits) (cases l1; cases n; auto)+
  have "load_idempotency_lines from_json [] (ls @ [?glued]) = Err (corrupt_idempotency ''invalid JSON record'')"
    using load_idempotency_lines_ok [OF j ls] t r(4)
    by (simp add: load_lines_append Let_def parse_idempotency_record_def)
  then show ?thesis
    using rust_lines_line_text [OF lok] complete_line_prefix_torn [of "[]" "ls @ [?glued]"]
      strip_prefix_append [of IDEMPOTENCY_FORMAT_V1 "newline # line_text (ls @ [?glued])"]
    by (simp add: parse_entries_def split_idempotency_format_def store_text_def)
qed

text \<open>C26. As the code is, a failed append is not repaired. If the system writes only a part of a line and reports an
  error, the insertion fails and the store goes on; the next insertion succeeds but its line continues the
  broken one, and from then on the file, with every result acknowledged before, cannot be opened, unless the check
  of its existence fails, and then it is opened as an empty store.\<close>

theorem torn_insert_poisons_store:
  assumes "json_lines to_json from_json" "p \<noteq> []" "store_run to_json from_json p ttl f"
    "fs_faults (fi_fs f) = [None, Some n]" "to_json r1 = Some l1" "to_json r2 = Some l2" "0 < n" "n \<le> length l1"
    "validate_key (ir_key r1) = Ok ()" "validate_key (ir_key r2) = Ok ()" "from_json (take n l1 @ l2) = None"
  shows "\<exists>e f1 f2. file_idempotency_insert to_json r1 f = (Err e, f1) \<and> file_idempotency_insert to_json r2 f1 = (Ok (), f2) \<and>
    (\<forall>ttl' s. fs_nodes s = fs_nodes (fi_fs f2) \<longrightarrow> (case fst (file_idempotency_new to_json from_json p ttl' s) of
       Inl _ \<Rightarrow> True | Inr g \<Rightarrow> \<not> stat_answers (ensure_parent_dir p) s \<and> fi_seen g = []))"
proof -
  note j = assms(1) and p = assms(2)
  have d: "durable to_json f" "fi_path f = p" using store_run_durable [OF assms(3) j p] by auto
  then obtain rs ls where ls: "map to_json rs = map Some ls" "fs_nodes (fi_fs f) p = Some (FileNode (text_bytes (store_text ls [])))"
    "\<forall>r\<in>set rs. validate_key (ir_key r) = Ok ()" by (auto simp: durable_def holds_entries_def)
  let ?glued = "take n l1 @ l2" and ?fs = "fi_fs f"
  define c where "c = text_bytes (store_text ls [])"
  let ?s1 = "?fs\<lparr> fs_faults := [], fs_nodes := (fs_nodes ?fs)(p \<mapsto> FileNode (c @ take n (text_bytes (l1 @ [newline])))) \<rparr>"
  let ?s2 = "?s1\<lparr> fs_nodes := (fs_nodes ?s1)(p \<mapsto> FileNode (c @ take n (text_bytes (l1 @ [newline])) @ text_bytes (l2 @ [newline]))) \<rparr>"
  have a1: "append_entry to_json p r1 ?fs = (Err (idempotency_io ''append_store_entry''), ?s1)"
    using assms(4,5) ls(2) by (simp add: append_entry_def fs_open_append_def fs_open_read_def json_line_def sys_call_def next_fault_def
        ebind_eval as_err_def fs_append_def c_def)
  have a2: "append_entry to_json p r2 ?s1 = (Ok (), ?s2)"
    using assms(6) by (simp add: append_entry_def fs_open_append_def fs_open_read_def json_line_def sys_call_healthy
        ebind_eval as_err_def fs_append_healthy fs_sync_def)
  let ?f1 = "f\<lparr> fi_fs := ?s1 \<rparr>"
  have i1: "file_idempotency_insert to_json r1 f = (Err (idempotency_io ''append_store_entry''), ?f1)"
    using a1 assms(9) d(2) by (simp add: file_idempotency_insert_def ebind_eval on_store_fs_def)
  have i2: "file_idempotency_insert to_json r2 ?f1 = (Ok (), ?f1\<lparr> fi_fs := ?s2, fi_seen := om_put (ir_key r2) r2 (fi_seen f) \<rparr>)"
    using a2 assms(10) d(2) by (simp add: file_idempotency_insert_def ebind_eval on_store_fs_def)
  have glued: "take n (text_bytes (l1 @ [newline])) @ text_bytes (l2 @ [newline]) = text_bytes (line_text [?glued])"
    using assms(8) by (simp add: text_bytes_def take_map)
  note refused = glued_line_refused [OF j ls(1,3) assms(5,6,7,11)]
  have node: "fs_nodes ?s2 p = Some (FileNode (text_bytes (store_text (ls @ [?glued]) [])))"
    using glued by (simp add: c_def store_text_def text_bytes_def)
  have bad: "case fst (file_idempotency_new to_json from_json p ttl' s) of
      Inl _ \<Rightarrow> True | Inr g \<Rightarrow> \<not> stat_answers (ensure_parent_dir p) s \<and> fi_seen g = []" if s: "fs_nodes s = fs_nodes ?s2" for ttl' s
  proof (cases "fst (file_idempotency_new to_json from_json p ttl' s)")
    case (Inr g)
    then obtain s' where "file_idempotency_new to_json from_json p ttl' s = (Ok g, s')"
      by (cases "file_idempotency_new to_json from_json p ttl' s") auto
    moreover have "fs_nodes s p = Some (FileNode (text_bytes (store_text (ls @ [?glued]) [])))" unfolding s by (rule node)
    ultimately have "\<not> stat_answers (ensure_parent_dir p) s \<and> fi_seen g = []"
      using file_new_parses [OF _ _ p j, of ttl' s g s'] refused bytes_text_bytes by metis
    then show ?thesis unfolding Inr by simp
  qed simp
  show ?thesis by (intro exI conjI allI impI, rule i1, rule i2, rule bad) simp
qed

definition sample_record :: "string \<Rightarrow> idempotency_record" where
  "sample_record key = \<lparr> ir_key = key, ir_request_hash = ''h'', ir_status = IS_Pending, ir_created_at_ms = 1 \<rparr>"

definition sample_to_json :: "idempotency_record json_writer" where
  "sample_to_json r = (if r = sample_record ''a'' then Some ''{a}'' else if r = sample_record ''b'' then Some ''{b}'' else None)"

definition sample_from_json :: "idempotency_record json_reader" where
  "sample_from_json l = (if l = ''{a}'' then Some (sample_record ''a'') else if l = ''{b}'' then Some (sample_record ''b'') else None)"

lemma sample_json_lines: "json_lines sample_to_json sample_from_json"
  by (auto simp: json_lines_def sample_to_json_def sample_from_json_def line_ok_def control_chars sample_record_def split: if_splits)

definition sample_fs :: "nat option list \<Rightarrow> fs" where
  "sample_fs faults = \<lparr> fs_nodes = Map.empty, fs_faults = faults, fs_temp_counter = 0, fs_pid = 1 \<rparr>"

definition sample_open :: "nat option list \<Rightarrow> file_idempotency runtime_result" where
  "sample_open faults = fst (file_idempotency_new sample_to_json sample_from_json [''store''] None (sample_fs faults))"

text \<open>Creating a store makes twelve calls that can fail; the next two open the file and append to it.\<close>

abbreviation sample_faults :: "nat option list" where
  "sample_faults \<equiv> replicate 12 None @ [None, Some 2]"

lemma sample_open_ok:
  "is_ok (sample_open sample_faults)" "fs_faults (fi_fs (projr (sample_open sample_faults))) = [None, Some 2]"
  by code_simp+

lemma torn_insert_poisons_store_witness:
  "\<exists>f e f1 f2. sample_open sample_faults = Ok f \<and> file_idempotency_insert sample_to_json (sample_record ''a'') f = (Err e, f1) \<and>
    file_idempotency_insert sample_to_json (sample_record ''b'') f1 = (Ok (), f2) \<and>
    (case fst (file_idempotency_new sample_to_json sample_from_json [''store''] None (fi_fs f2)) of
       Inl _ \<Rightarrow> True | Inr g \<Rightarrow> \<not> stat_answers (ensure_parent_dir [''store'']) (fi_fs f2) \<and> fi_seen g = [])"
proof -
  obtain f s' where f: "file_idempotency_new sample_to_json sample_from_json [''store''] None (sample_fs sample_faults) = (Ok f, s')"
    using sample_open_ok(1) unfolding sample_open_def
    by (cases "file_idempotency_new sample_to_json sample_from_json [''store''] None (sample_fs sample_faults)";
        cases "fst (file_idempotency_new sample_to_json sample_from_json [''store''] None (sample_fs sample_faults))") auto
  then have o: "sample_open sample_faults = Ok f" by (simp add: sample_open_def)
  have run: "store_run sample_to_json sample_from_json [''store''] None f" by (rule store_run.create [OF _ f]) (simp add: sample_fs_def)
  have faults: "fs_faults (fi_fs f) = [None, Some 2]" using sample_open_ok(2) unfolding o by simp
  have keys: "validate_key (ir_key (sample_record ''a'')) = Ok ()" "validate_key (ir_key (sample_record ''b'')) = Ok ()" by code_simp+
  have json: "sample_to_json (sample_record ''a'') = Some ''{a}''" "sample_to_json (sample_record ''b'') = Some ''{b}''"
      "sample_from_json (take 2 ''{a}'' @ ''{b}'') = None" by code_simp+
  have "\<exists>e f1 f2. file_idempotency_insert sample_to_json (sample_record ''a'') f = (Err e, f1) \<and>
    file_idempotency_insert sample_to_json (sample_record ''b'') f1 = (Ok (), f2) \<and>
    (\<forall>ttl' s. fs_nodes s = fs_nodes (fi_fs f2) \<longrightarrow> (case fst (file_idempotency_new sample_to_json sample_from_json [''store''] ttl' s) of
       Inl _ \<Rightarrow> True | Inr g \<Rightarrow> \<not> stat_answers (ensure_parent_dir [''store'']) s \<and> fi_seen g = []))"
    by (rule torn_insert_poisons_store [OF sample_json_lines _ run faults json(1,2) _ _ keys json(3)]) simp_all
  with o show ?thesis by (elim exE conjE) (intro exI conjI, assumption+, elim allE impE, rule refl)
qed

end
