(* ===== verification/Core_Journal.thy ===== *)
theory Core_Journal
  imports Core_Durable
begin

text \<open>
  The operational journal of \<open>appcore-core\<close> (\<open>operational_journal.rs\<close>): audit entries and events in a file, one JSON
  envelope per line, each with its sequence and the hash that chains it to the one before. SHA-256 and \<open>serde_json\<close> are
  the functions of a codec; \<open>codec_ok\<close> says that envelopes round-trip and are written on one line. The lemmas show
  that a journal is opened as it was left, that it stays within its bound of records, and that the hash of the last
  line depends on all records.
\<close>

section \<open>Records\<close>

datatype audit_outcome = AO_Accepted | AO_Rejected | AO_Error

datatype audit_category = AC_Command | AC_Query | AC_Event | AC_Scheduler | AC_ControlPlane | AC_PeerRpc | AC_Runtime

record audit_entry =
  ae_category :: audit_category
  ae_operation_id :: string
  ae_operation_name :: string
  ae_app_id :: "string option"
  ae_node_id :: "string option"
  ae_started_at_ms :: u64
  ae_completed_at_ms :: u64
  ae_latency_ms :: u64
  ae_outcome :: audit_outcome
  ae_message :: "string option"
  ae_trace :: "trace_context option"

datatype journal_record = OJ_Audit audit_entry | OJ_Event event_envelope

record journal_envelope =
  je_sequence :: u64
  je_previous_hash :: string
  je_hash :: string
  je_record :: journal_record

record journal_codec =
  jc_sha :: "bytes \<Rightarrow> bytes"
  jc_record_to_json :: "journal_record \<Rightarrow> bytes option"
  jc_envelope_to_json :: "journal_envelope \<Rightarrow> string option"
  jc_envelope_from_json :: "string \<Rightarrow> journal_envelope option"
  jc_audit_to_json :: "audit_entry \<Rightarrow> string option"

record journal_state =
  js_records :: "journal_record list"
  js_sequence :: u64
  js_last_hash :: string

record file_journal =
  fj_fs :: fs
  fj_path :: path
  fj_max_records :: nat
  fj_max_bytes :: u64
  fj_state :: journal_state

definition OPERATIONAL_JOURNAL_FORMAT_V1 :: string where "OPERATIONAL_JOURNAL_FORMAT_V1 = ''# appcore-operational-journal-v1''"
definition MAX_JOURNAL_RECORD_BYTES :: nat where "MAX_JOURNAL_RECORD_BYTES = 1024 * 1024"

definition journal_message :: "string \<Rightarrow> string \<Rightarrow> runtime_error" where
  "journal_message operation message = RE_OperationalJournalIo operation message"

definition journal_io :: "string \<Rightarrow> runtime_error" where
  "journal_io operation = journal_message operation ''os error''"

definition journal_json :: "string \<Rightarrow> runtime_error" where
  "journal_json operation = journal_message operation ''json error''"

section \<open>Envelopes\<close>

definition record_hash :: "journal_codec \<Rightarrow> u64 \<Rightarrow> string \<Rightarrow> bytes \<Rightarrow> string" where
  "record_hash c sequence previous_hash bs =
     bytes_to_hex (jc_sha c (text_bytes OPERATIONAL_JOURNAL_FORMAT_V1 @ u64_be sequence @ u64_be (of_nat (length previous_hash))
       @ text_bytes previous_hash @ u64_be (of_nat (length bs)) @ bs))"

definition validate_envelope :: "journal_codec \<Rightarrow> journal_envelope \<Rightarrow> u64 \<Rightarrow> string \<Rightarrow> unit runtime_result" where
  "validate_envelope c envelope expected_sequence expected_previous =
     rbind (ok_or (journal_json ''serialize_record'') (jc_record_to_json c (je_record envelope))) (\<lambda>bs.
       let expected_hash = record_hash c (je_sequence envelope) expected_previous bs in
       if je_sequence envelope \<noteq> expected_sequence \<or> je_previous_hash envelope \<noteq> expected_previous \<or> je_hash envelope \<noteq> expected_hash
       then Err (journal_message ''validate_hash_chain'' ''operational journal hash chain mismatch'') else Ok ())"

fun encode_records_loop ::
    "journal_codec \<Rightarrow> string \<Rightarrow> u64 \<Rightarrow> string \<Rightarrow> journal_record list \<Rightarrow> (string \<times> u64 \<times> string) runtime_result" where
  "encode_records_loop c out sequence last_hash [] = Ok (out, sequence, last_hash)"
| "encode_records_loop c out sequence last_hash (r # rs) = (let sequence = sat_add sequence 1 in
     rbind (ok_or (journal_json ''serialize_record'') (jc_record_to_json c r)) (\<lambda>bs.
     let hash = record_hash c sequence last_hash bs;
         envelope = \<lparr> je_sequence = sequence, je_previous_hash = last_hash, je_hash = hash, je_record = r \<rparr> in
     rbind (ok_or (journal_json ''serialize_envelope'') (jc_envelope_to_json c envelope)) (\<lambda>line.
     encode_records_loop c (out @ line @ [newline]) sequence hash rs)))"

definition encode_records :: "journal_codec \<Rightarrow> journal_record list \<Rightarrow> (string \<times> u64 \<times> string) runtime_result" where
  "encode_records c rs = encode_records_loop c (OPERATIONAL_JOURNAL_FORMAT_V1 @ [newline]) 0 '''' rs"

fun load_envelopes :: "journal_codec \<Rightarrow> journal_state \<Rightarrow> string list \<Rightarrow> journal_state runtime_result" where
  "load_envelopes c st [] = Ok st"
| "load_envelopes c st (line # rest) =
     (if line = [] then load_envelopes c st rest
      else rbind (ok_or (journal_json ''parse_record'') (jc_envelope_from_json c line)) (\<lambda>envelope.
           rbind (validate_envelope c envelope (sat_add (js_sequence st) 1) (js_last_hash st)) (\<lambda>_.
           load_envelopes c \<lparr> js_records = js_records st @ [je_record envelope], js_sequence = je_sequence envelope,
             js_last_hash = je_hash envelope \<rparr> rest)))"

definition empty_journal :: journal_state where
  "empty_journal = \<lparr> js_records = [], js_sequence = 0, js_last_hash = '''' \<rparr>"

definition parse_journal :: "journal_codec \<Rightarrow> string \<Rightarrow> (journal_state \<times> bool) runtime_result" where
  "parse_journal c contents =
     rbind (ok_or (journal_message ''validate_format'' ''unsupported operational journal format'')
       (Option.bind (strip_prefix OPERATIONAL_JOURNAL_FORMAT_V1 contents) (strip_prefix [newline]))) (\<lambda>body.
       case complete_line_prefix body of (complete, recovered_tail) \<Rightarrow>
         rbind (load_envelopes c empty_journal (rust_lines complete)) (\<lambda>st. Ok (st, recovered_tail)))"

section \<open>Files\<close>

definition journal_reject_symlink :: "path \<Rightarrow> (fs, runtime_error, unit) eff" where
  "journal_reject_symlink p s = (case fs_symlink_metadata p s of
     (Inr (FileNode _), s') \<Rightarrow> (Ok (), s')
   | (Inr _, s') \<Rightarrow> (Err (journal_message ''validate_path'' ''journal path is unsafe''), s')
   | (Inl IK_NotFound, s') \<Rightarrow> (Ok (), s')
   | (Inl IK_Other, s') \<Rightarrow> (Err (journal_io ''inspect_path''), s'))"

definition set_private_file :: "(fs, runtime_error, unit) eff" where
  "set_private_file = as_err (journal_io ''set_permissions'') (sys_call (eret ()))"

definition journal_open_lock :: "path \<Rightarrow> (fs, runtime_error, unit) eff" where
  "journal_open_lock p =
     ebind (journal_reject_symlink p) (\<lambda>_.
     ebind (as_err (journal_io ''open_lock'') (fs_open_create p)) (\<lambda>_. set_private_file))"

definition journal_read_bounded :: "path \<Rightarrow> u64 \<Rightarrow> (fs, runtime_error, string) eff" where
  "journal_read_bounded p max_bytes =
     ebind (journal_reject_symlink p) (\<lambda>_.
     ebind (as_err (journal_io ''open_read'') (fs_open_read p)) (\<lambda>file.
     ebind (as_err (journal_io ''read_metadata'') (sys_call (eret file))) (\<lambda>metadata.
     case metadata of
       FileNode content \<Rightarrow>
         if unat max_bytes < length content then efail (journal_message ''validate_size'' ''journal exceeds size limit'')
         else ebind (as_err (journal_io ''read'') (fs_read content (unat (sat_add max_bytes 1)))) (\<lambda>bs.
           if valid_utf8 (map unat bs) then eret (bytes_text bs) else efail (journal_io ''read''))
     | _ \<Rightarrow> efail (journal_io ''read''))))"

definition load_state :: "journal_codec \<Rightarrow> path \<Rightarrow> u64 \<Rightarrow> (fs, runtime_error, journal_state \<times> bool) eff" where
  "load_state c p max_bytes = ebind (journal_read_bounded p max_bytes) (\<lambda>contents. elift (\<lambda>_. parse_journal c contents))"

definition journal_temporary :: "path \<Rightarrow> (fs, runtime_error, path) eff" where
  "journal_temporary p s = (Ok (butlast p @ [temporary_name ''operational-journal'' (fs_pid s) (fs_temp_counter s)]),
     s\<lparr> fs_temp_counter := fs_temp_counter s + 1 \<rparr>)"

definition journal_atomic_write :: "path \<Rightarrow> bytes \<Rightarrow> (fs, runtime_error, unit) eff" where
  "journal_atomic_write p bs =
     ebind (journal_temporary p) (\<lambda>temporary s.
       case ebind (as_err (journal_io ''open_temporary'') (fs_create_new temporary)) (\<lambda>_.
            ebind set_private_file (\<lambda>_.
            ebind (as_err (journal_io ''write_temporary'') (ebind (fs_write_all temporary bs) (\<lambda>_. fs_sync temporary))) (\<lambda>_.
            ebind (as_err (journal_io ''replace'') (fs_rename temporary p)) (\<lambda>_.
            sync_parent (journal_io ''sync_parent'') (butlast p))))) s of
         (Inr u, s') \<Rightarrow> (Ok u, s')
       | (Inl err, s') \<Rightarrow> (Err err, snd (fs_remove_file temporary s')))"

definition append_envelope :: "journal_codec \<Rightarrow> path \<Rightarrow> journal_envelope \<Rightarrow> (fs, runtime_error, unit) eff" where
  "append_envelope c p envelope =
     ebind (elift (\<lambda>_. ok_or (journal_json ''serialize_envelope'') (jc_envelope_to_json c envelope))) (\<lambda>line.
     ebind (as_err (journal_io ''open_append'') (ebind (fs_open_read p) (\<lambda>n. case n of FileNode _ \<Rightarrow> eret () | _ \<Rightarrow> efail IK_Other))) (\<lambda>_.
     ebind (as_err (journal_io ''append_record'') (fs_append p (text_bytes (line @ [newline])))) (\<lambda>_.
     as_err (journal_io ''sync_record'') (fs_sync p))))"

section \<open>The journal\<close>

definition on_journal_fs :: "(path \<Rightarrow> (fs, runtime_error, 'a) eff) \<Rightarrow> (file_journal, runtime_error, 'a) eff" where
  "on_journal_fs m j = (case m (fj_path j) (fj_fs j) of (r, s) \<Rightarrow> (r, j\<lparr> fj_fs := s \<rparr>))"

text \<open>\<open>fs::metadata\<close> with the answer to use when it fails.\<close>

definition exceeds_bytes :: "bool \<Rightarrow> (file_journal, runtime_error, bool) eff" where
  "exceeds_bytes on_error j = (case fs_open_read (fj_path j) (fj_fs j) of
     (Inr (FileNode content), s) \<Rightarrow> (Ok (unat (fj_max_bytes j) < length content), j\<lparr> fj_fs := s \<rparr>)
   | (_, s) \<Rightarrow> (Ok on_error, j\<lparr> fj_fs := s \<rparr>))"

definition put_state :: "journal_state \<Rightarrow> file_journal \<Rightarrow> file_journal" where
  "put_state st j = j\<lparr> fj_state := st \<rparr>"

definition rewrite_locked :: "journal_codec \<Rightarrow> (file_journal, runtime_error, unit) eff" where
  "rewrite_locked c j =
     ebind (elift (\<lambda>j. encode_records c (js_records (fj_state j)))) (\<lambda>(contents, sequence, last_hash).
     ebind (on_journal_fs (\<lambda>p. journal_atomic_write p (text_bytes contents))) (\<lambda>_.
     emod (\<lambda>j. put_state ((fj_state j)\<lparr> js_sequence := sequence, js_last_hash := last_hash \<rparr>) j))) j"

text \<open>Dropping the oldest record and rewriting until the file is small enough or one record is left.\<close>

fun shrink_loop :: "journal_codec \<Rightarrow> journal_record list \<Rightarrow> (file_journal, runtime_error, unit) eff" where
  "shrink_loop c (r # r' # rs) =
     ebind (exceeds_bytes False) (\<lambda>big. if big then
         ebind (emod (\<lambda>j. put_state ((fj_state j)\<lparr> js_records := r' # rs \<rparr>) j)) (\<lambda>_.
         ebind (rewrite_locked c) (\<lambda>_. shrink_loop c (r' # rs)))
       else eret ())"
| "shrink_loop c [r] = ebind (exceeds_bytes False) (\<lambda>_. eret ())"
| "shrink_loop c [] = ebind (exceeds_bytes False) (\<lambda>_. eret ())"

definition compact_locked :: "journal_codec \<Rightarrow> (file_journal, runtime_error, unit) eff" where
  "compact_locked c j = (let kept = drop (length (js_records (fj_state j)) - fj_max_records j) (js_records (fj_state j)) in
     ebind (emod (put_state ((fj_state j)\<lparr> js_records := kept \<rparr>))) (\<lambda>_.
     ebind (rewrite_locked c) (\<lambda>_. shrink_loop c kept)) j)"

definition journal_append :: "journal_codec \<Rightarrow> journal_record \<Rightarrow> (file_journal, runtime_error, unit) eff" where
  "journal_append c r j =
     ebind (elift (\<lambda>_. ok_or (journal_json ''serialize_record'') (jc_record_to_json c r))) (\<lambda>bs.
     if MAX_JOURNAL_RECORD_BYTES < length bs then efail (journal_message ''validate_record'' ''record exceeds size limit'')
     else let st = fj_state j; sequence = sat_add (js_sequence st) 1; hash = record_hash c sequence (js_last_hash st) bs in
       ebind (on_journal_fs (\<lambda>p. append_envelope c p
         \<lparr> je_sequence = sequence, je_previous_hash = js_last_hash st, je_hash = hash, je_record = r \<rparr>)) (\<lambda>_.
       ebind (emod (put_state \<lparr> js_records = js_records st @ [r], js_sequence = sequence, js_last_hash = hash \<rparr>)) (\<lambda>_.
       ebind (\<lambda>j. if fj_max_records j < length (js_records (fj_state j)) then (Ok True, j) else exceeds_bytes True j) (\<lambda>full.
       if full then compact_locked c else eret ())))) j"

definition append_audit :: "journal_codec \<Rightarrow> audit_entry \<Rightarrow> (file_journal, runtime_error, unit) eff" where
  "append_audit c entry = journal_append c (OJ_Audit entry)"

definition append_event :: "journal_codec \<Rightarrow> event_envelope \<Rightarrow> (file_journal, runtime_error, unit) eff" where
  "append_event c event = journal_append c (OJ_Event event)"

definition audit_entries :: "file_journal \<Rightarrow> audit_entry list" where
  "audit_entries j = List.map_filter (\<lambda>r. case r of OJ_Audit entry \<Rightarrow> Some entry | OJ_Event _ \<Rightarrow> None) (js_records (fj_state j))"

definition journal_events :: "file_journal \<Rightarrow> event_envelope list" where
  "journal_events j = List.map_filter (\<lambda>r. case r of OJ_Audit _ \<Rightarrow> None | OJ_Event event \<Rightarrow> Some event) (js_records (fj_state j))"

fun export_jsonl :: "journal_codec \<Rightarrow> string \<Rightarrow> audit_entry list \<Rightarrow> string runtime_result" where
  "export_jsonl c out [] = Ok out"
| "export_jsonl c out (e # es) = rbind (ok_or (journal_json ''serialize_export'') (jc_audit_to_json c e)) (\<lambda>line.
     export_jsonl c (out @ line @ [newline]) es)"

definition export_audit_jsonl :: "journal_codec \<Rightarrow> file_journal \<Rightarrow> string runtime_result" where
  "export_audit_jsonl c j = export_jsonl c '''' (audit_entries j)"

definition recovery_max_bytes :: "u64 \<Rightarrow> u64" where
  "recovery_max_bytes configured = sat_add (sat_add configured (of_nat MAX_JOURNAL_RECORD_BYTES)) 65536"

text \<open>What opening does before it asks whether the file exists.\<close>

definition journal_prepare :: "path \<Rightarrow> (fs, runtime_error, unit) eff" where
  "journal_prepare p =
     ebind (as_err (journal_io ''create_parent'') (fs_create_dir_all (butlast p))) (\<lambda>_.
     ebind (journal_reject_symlink p) (\<lambda>_.
     ebind (journal_open_lock (with_extension p ''journal.lock'')) (\<lambda>_.
     as_err (journal_io ''lock'') (sys_call (eret ())))))"

definition journal_open :: "journal_codec \<Rightarrow> path \<Rightarrow> nat \<Rightarrow> u64 \<Rightarrow> (fs, runtime_error, file_journal) eff" where
  "journal_open c p max_records max_bytes =
     (let configured_max_bytes = max max_bytes 1 in
     ebind (journal_prepare p) (\<lambda>_.
     ebind (path_exists p) (\<lambda>found.
     ebind (if \<not> found then journal_atomic_write p (text_bytes (OPERATIONAL_JOURNAL_FORMAT_V1 @ [newline])) else eret ()) (\<lambda>_.
     ebind (load_state c p (recovery_max_bytes configured_max_bytes)) (\<lambda>(st, recovered_tail) s.
       let j = \<lparr> fj_fs = s, fj_path = p, fj_max_records = max max_records 1, fj_max_bytes = configured_max_bytes, fj_state = st \<rparr> in
       case ebind (\<lambda>j. if fj_max_records j < length (js_records st) then (Ok True, j) else exceeds_bytes True j) (\<lambda>exceeds_limits.
            if recovered_tail \<or> exceeds_limits then compact_locked c else eret ()) j of
         (Inr _, j') \<Rightarrow> (Ok j', fj_fs j')
       | (Inl e, j') \<Rightarrow> (Err e, fj_fs j'))))))"

section \<open>The chain\<close>

fun journal_chain :: "journal_codec \<Rightarrow> u64 \<Rightarrow> string \<Rightarrow> journal_record list \<Rightarrow> (string list \<times> u64 \<times> string) option" where
  "journal_chain c q h [] = Some ([], q, h)"
| "journal_chain c q h (r # rs) = (case jc_record_to_json c r of None \<Rightarrow> None | Some bs \<Rightarrow>
     let q1 = sat_add q 1; h1 = record_hash c q1 h bs in
     (case jc_envelope_to_json c \<lparr> je_sequence = q1, je_previous_hash = h, je_hash = h1, je_record = r \<rparr> of None \<Rightarrow> None
      | Some l \<Rightarrow> map_option (\<lambda>(ls, q', h'). (l # ls, q', h')) (journal_chain c q1 h1 rs)))"

definition codec_ok :: "journal_codec \<Rightarrow> bool" where
  "codec_ok c \<longleftrightarrow> (\<forall>e l. jc_envelope_to_json c e = Some l \<longrightarrow>
     jc_envelope_from_json c l = Some e \<and> l \<noteq> [] \<and> line_ok l \<and> valid_utf8 (map unat (text_bytes l)))"

lemma encode_records_loop_chain:
  "encode_records_loop c out q h rs = Ok (t, q', h') \<longleftrightarrow> (\<exists>ls. journal_chain c q h rs = Some (ls, q', h') \<and> t = out @ line_text ls)"
proof (induction rs arbitrary: out q h)
  case (Cons r rs)
  show ?case
  proof (cases "jc_record_to_json c r")
    case (Some bs)
    let ?q = "sat_add q 1" let ?h = "record_hash c ?q h bs"
    show ?thesis
      by (cases "jc_envelope_to_json c \<lparr> je_sequence = ?q, je_previous_hash = h, je_hash = ?h, je_record = r \<rparr>")
        (auto simp: Some Let_def Cons.IH)
  qed (simp add: Let_def)
qed auto

lemma journal_chain_append:
  "journal_chain c q h (rs @ [r]) = (case journal_chain c q h rs of None \<Rightarrow> None | Some (ls, q', h') \<Rightarrow>
     map_option (\<lambda>(ls', q'', h''). (ls @ ls', q'', h'')) (journal_chain c q' h' [r]))"
proof (induction rs arbitrary: q h)
  case Nil
  show ?case by (simp add: option.map_id0 [unfolded id_def] split: option.split) (simp add: Let_def split: option.splits)
next
  case (Cons a rs)
  then show ?case by (auto simp: Let_def split: option.splits)
qed

lemma load_chain:
  assumes "codec_ok c" "journal_chain c (js_sequence st) (js_last_hash st) rs = Some (ls, q, h)"
  shows "load_envelopes c st ls = Ok \<lparr> js_records = js_records st @ rs, js_sequence = q, js_last_hash = h \<rparr>"
  using assms(2)
proof (induction rs arbitrary: st ls)
  case (Cons r rs)
  from Cons.prems obtain bs where bs: "jc_record_to_json c r = Some bs" by (cases "jc_record_to_json c r") auto
  let ?q = "sat_add (js_sequence st) 1" let ?h = "record_hash c ?q (js_last_hash st) bs"
  let ?e = "\<lparr> je_sequence = ?q, je_previous_hash = js_last_hash st, je_hash = ?h, je_record = r \<rparr>"
  from Cons.prems bs obtain l ls' where l: "jc_envelope_to_json c ?e = Some l" "ls = l # ls'" "journal_chain c ?q ?h rs = Some (ls', q, h)"
    by (auto simp: Let_def split: option.splits)
  have "jc_envelope_from_json c l = Some ?e" "l \<noteq> []" using assms(1) l(1) by (auto simp: codec_ok_def)
  with bs l(2) Cons.IH [of "\<lparr> js_records = js_records st @ [r], js_sequence = ?q, js_last_hash = ?h \<rparr>" ls'] l(3)
  show ?case by (simp add: validate_envelope_def Let_def)
qed (cases st; simp)

text \<open>The hash a journal is accepted with is the chain over all its records.\<close>

fun chain_head :: "journal_codec \<Rightarrow> u64 \<Rightarrow> string \<Rightarrow> journal_record list \<Rightarrow> (u64 \<times> string) option" where
  "chain_head c q h [] = Some (q, h)"
| "chain_head c q h (r # rs) = Option.bind (jc_record_to_json c r) (\<lambda>bs.
     let q1 = sat_add q 1 in chain_head c q1 (record_hash c q1 h bs) rs)"

lemma load_envelopes_head:
  assumes "load_envelopes c st ls = Ok st'"
  shows "\<exists>rs. js_records st' = js_records st @ rs \<and>
    chain_head c (js_sequence st) (js_last_hash st) rs = Some (js_sequence st', js_last_hash st')"
  using assms
proof (induction ls arbitrary: st)
  case (Cons l ls)
  show ?case
  proof (cases "l = []")
    case False
    with Cons.prems obtain e where e: "jc_envelope_from_json c l = Some e" "validate_envelope c e (sat_add (js_sequence st) 1) (js_last_hash st) = Ok ()"
        "load_envelopes c \<lparr> js_records = js_records st @ [je_record e], js_sequence = je_sequence e, js_last_hash = je_hash e \<rparr> ls = Ok st'"
      by (cases "jc_envelope_from_json c l") (auto simp: rbind_Inr_iff)
    then obtain bs where "jc_record_to_json c (je_record e) = Some bs" "je_sequence e = sat_add (js_sequence st) 1"
        "je_hash e = record_hash c (sat_add (js_sequence st) 1) (js_last_hash st) bs"
      by (cases "jc_record_to_json c (je_record e)") (auto simp: validate_envelope_def Let_def split: if_splits)
    moreover obtain rs where "js_records st' = js_records st @ je_record e # rs"
        "chain_head c (je_sequence e) (je_hash e) rs = Some (js_sequence st', js_last_hash st')"
      using Cons.IH [OF e(3)] by auto
    ultimately show ?thesis by (intro exI [of _ "je_record e # rs"]) (simp add: Let_def)
  qed (use Cons in simp)
qed simp

section \<open>What the file of a journal holds\<close>

definition journal_text :: "string list \<Rightarrow> string" where
  "journal_text ls = OPERATIONAL_JOURNAL_FORMAT_V1 @ newline # line_text ls"

definition state_text :: "journal_codec \<Rightarrow> journal_state \<Rightarrow> string \<Rightarrow> bool" where
  "state_text c st t \<longleftrightarrow> (\<exists>ls. journal_chain c 0 '''' (js_records st) = Some (ls, js_sequence st, js_last_hash st) \<and> t = journal_text ls)"

definition journal_holds :: "journal_codec \<Rightarrow> file_journal \<Rightarrow> bool" where
  "journal_holds c j \<longleftrightarrow> (\<exists>t. state_text c (fj_state j) t \<and> fs_nodes (fj_fs j) (fj_path j) = Some (FileNode (text_bytes t)))"

definition same_journal :: "file_journal \<Rightarrow> file_journal \<Rightarrow> bool" where
  "same_journal j j' \<longleftrightarrow> fj_path j' = fj_path j \<and> fj_max_records j' = fj_max_records j \<and> fj_max_bytes j' = fj_max_bytes j"

lemma chain_lines:
  assumes "codec_ok c" "journal_chain c q h rs = Some (ls, q', h')"
  shows "\<forall>l\<in>set ls. l \<noteq> [] \<and> line_ok l \<and> valid_utf8 (map unat (text_bytes l))"
  using assms(2)
proof (induction rs arbitrary: q h ls)
  case (Cons r rs)
  then show ?case using assms(1) by (fastforce simp: codec_ok_def Let_def split: option.splits)
qed simp

lemma parse_journal_torn:
  assumes "codec_ok c" "state_text c st t" "newline \<notin> set tail"
  shows "parse_journal c (t @ tail) = Ok (st, tail \<noteq> [])"
proof -
  obtain ls where ls: "journal_chain c 0 '''' (js_records st) = Some (ls, js_sequence st, js_last_hash st)" "t = journal_text ls"
    using assms(2) by (auto simp: state_text_def)
  have "\<forall>l\<in>set ls. line_ok l" using chain_lines [OF assms(1) ls(1)] by blast
  moreover have "load_envelopes c empty_journal ls = Ok st"
    using load_chain [OF assms(1), of empty_journal "js_records st" ls] ls(1) by (simp add: empty_journal_def)
  ultimately show ?thesis
    using strip_prefix_append [of OPERATIONAL_JOURNAL_FORMAT_V1 "newline # line_text ls @ tail"]
    by (simp add: ls(2) journal_text_def parse_journal_def complete_line_prefix_torn [OF assms(3)] rust_lines_line_text)
qed

lemma encode_records_text:
  "encode_records c rs = Ok (t, q, h) \<longleftrightarrow> (\<exists>ls. journal_chain c 0 '''' rs = Some (ls, q, h) \<and> t = journal_text ls)"
  by (auto simp: encode_records_def encode_records_loop_chain journal_text_def)

text \<open>A journal is not named like the temporary files that replace it.\<close>

definition journal_path_ok :: "path \<Rightarrow> bool" where
  "journal_path_ok p \<longleftrightarrow> p \<noteq> [] \<and> \<not> prefix ''.operational-journal.'' (last p)"

definition journal_temp :: "path \<Rightarrow> fs \<Rightarrow> path" where
  "journal_temp p s = butlast p @ [temporary_name ''operational-journal'' (fs_pid s) (fs_temp_counter s)]"

lemma journal_temp_neq: "journal_path_ok p \<Longrightarrow> journal_temp p s \<noteq> p"
  by (auto simp: journal_path_ok_def journal_temp_def temporary_name_def) (metis append_Cons append_Nil last_snoc prefixI)

lemma journal_atomic_write_Ok:
  assumes "journal_atomic_write p bs s = (Ok (), s')" "journal_path_ok p"
  shows "fs_nodes s' p = Some (FileNode bs)"
proof -
  define t where "t = journal_temp p s"
  let ?s = "s\<lparr> fs_temp_counter := fs_temp_counter s + 1 \<rparr>"
  let ?m = "ebind (as_err (journal_io ''open_temporary'') (fs_create_new t)) (\<lambda>_.
            ebind set_private_file (\<lambda>_.
            ebind (as_err (journal_io ''write_temporary'') (ebind (fs_write_all t bs) (\<lambda>_. fs_sync t))) (\<lambda>_.
            ebind (as_err (journal_io ''replace'') (fs_rename t p)) (\<lambda>_.
            sync_parent (journal_io ''sync_parent'') (butlast p)))))"
  have "journal_temporary p s = (Ok t :: runtime_error + path, ?s)" by (simp add: journal_temporary_def t_def journal_temp_def)
  then have "?m ?s = (Ok (), s')"
    using assms(1) unfolding journal_atomic_write_def ebind_eval [of "journal_temporary p"]
    by (cases "?m ?s"; cases "fst (?m ?s)") auto
  then obtain s2 s3 s4 where 2: "ebind (fs_write_all t bs) (\<lambda>_. fs_sync t) s2 = (Ok (), s3)" and 3: "fs_rename t p s3 = (Ok (), s4)"
      and 4: "sync_parent (journal_io ''sync_parent'') (butlast p) s4 = (Ok (), s')"
    unfolding ebind_Ok_iff [of "as_err e m" for e m] ebind_Ok_iff [of set_private_file] as_err_Ok by auto
  have "fs_nodes s3 t = Some (FileNode bs)" using write_sync_nodes [OF 2] by auto
  moreover have "fs_nodes s4 = (fs_nodes s3)(p := fs_nodes s3 t, t := None)" using rename_nodes [OF 3] by auto
  moreover have "p \<noteq> t" using journal_temp_neq [OF assms(2), of s] by (simp add: t_def)
  ultimately show ?thesis using sync_parent_nodes [OF 4] by auto
qed

section \<open>Operations\<close>

lemma same_journal_rt: "same_journal j j" "same_journal j j' \<Longrightarrow> same_journal j' j'' \<Longrightarrow> same_journal j j''"
  by (simp_all add: same_journal_def)

lemma exceeds_bytes_frame:
  assumes "exceeds_bytes b j = (x, j')"
  shows "fs_nodes (fj_fs j') = fs_nodes (fj_fs j) \<and> fj_state j' = fj_state j \<and> same_journal j j' \<and> (\<exists>big. x = Ok big)"
proof -
  obtain y s where y: "fs_open_read (fj_path j) (fj_fs j) = (y, s)" by (cases "fs_open_read (fj_path j) (fj_fs j)")
  have "inspects (fs_open_read q)" for q unfolding fs_open_read_def by (intro sys_call_inspects inspects_pure)
  from inspectsD [OF this y] assms y show ?thesis
    by (auto simp: exceeds_bytes_def same_journal_def split: sum.splits node.splits)
qed

lemma holds_frame:
  "journal_holds c j \<Longrightarrow> fs_nodes (fj_fs j') = fs_nodes (fj_fs j) \<Longrightarrow> fj_state j' = fj_state j \<Longrightarrow> same_journal j j' \<Longrightarrow> journal_holds c j'"
  by (simp add: journal_holds_def same_journal_def)

lemma rewrite_locked_Ok:
  assumes "rewrite_locked c j = (Ok (), j')" "journal_path_ok (fj_path j)"
  shows "journal_holds c j' \<and> js_records (fj_state j') = js_records (fj_state j) \<and> same_journal j j'"
proof -
  obtain t q h s where e: "encode_records c (js_records (fj_state j)) = Ok (t, q, h)"
      and w: "journal_atomic_write (fj_path j) (text_bytes t) (fj_fs j) = (Ok (), s)"
      and j': "j' = put_state ((fj_state j)\<lparr> js_sequence := q, js_last_hash := h \<rparr>) (j\<lparr> fj_fs := s \<rparr>)"
  proof -
    obtain t q h where e: "encode_records c (js_records (fj_state j)) = Ok (t, q, h)"
      using assms(1) by (cases "encode_records c (js_records (fj_state j))") (auto simp: rewrite_locked_def ebind_eval)
    obtain x s where w: "journal_atomic_write (fj_path j) (text_bytes t) (fj_fs j) = (x, s)"
      by (cases "journal_atomic_write (fj_path j) (text_bytes t) (fj_fs j)")
    show thesis using assms(1) e w by (intro that [OF e, of s]; cases x) (auto simp: rewrite_locked_def ebind_eval on_journal_fs_def)
  qed
  from journal_atomic_write_Ok [OF w assms(2)] e show ?thesis
    unfolding j' by (auto simp: journal_holds_def state_text_def put_state_def same_journal_def encode_records_text)
qed

lemma shrink_loop_Ok:
  assumes "shrink_loop c rs j = (Ok (), j')" "journal_holds c j" "js_records (fj_state j) = rs" "journal_path_ok (fj_path j)"
  shows "journal_holds c j' \<and> same_journal j j' \<and> (\<exists>n. js_records (fj_state j') = drop n rs \<and> (rs \<noteq> [] \<longrightarrow> n < length rs))"
  using assms
proof (induction c rs arbitrary: j rule: shrink_loop.induct)
  case (1 c r r' rs)
  obtain big j1 where b: "exceeds_bytes False j = (Ok big, j1)" using exceeds_bytes_frame by (metis surj_pair)
  note f = exceeds_bytes_frame [OF b]
  show ?case
  proof (cases big)
    case False
    with 1(2) b have "j' = j1" by (simp add: ebind_eval)
    with f 1(3,4) holds_frame [OF 1(3)] show ?thesis by (auto intro: exI [of _ 0])
  next
    case True
    let ?j = "put_state ((fj_state j1)\<lparr> js_records := r' # rs \<rparr>) j1"
    from 1(2) b True obtain j2 where 2: "rewrite_locked c ?j = (Ok (), j2)" and 3: "shrink_loop c (r' # rs) j2 = (Ok (), j')"
      by (auto simp: ebind_eval [of "exceeds_bytes False"] ebind_eval [of "emod g" for g] ebind_Ok_iff [of "rewrite_locked c"])
    have p: "journal_path_ok (fj_path ?j)" using f 1(5) by (simp add: put_state_def same_journal_def)
    note r = rewrite_locked_Ok [OF 2 p]
    have IH: "journal_holds c j' \<and> same_journal j2 j' \<and> (\<exists>n. js_records (fj_state j') = drop n (r' # rs) \<and> (r' # rs \<noteq> [] \<longrightarrow> n < length (r' # rs)))"
      using 1(1) [OF True 3] r p by (auto simp: put_state_def same_journal_def)
    then obtain n where "js_records (fj_state j') = drop n (r' # rs)" "n < length (r' # rs)" by auto
    then have "js_records (fj_state j') = drop (Suc n) (r # r' # rs) \<and> Suc n < length (r # r' # rs)" by simp
    moreover have "same_journal j ?j" using f by (simp add: put_state_def same_journal_def)
    ultimately show ?thesis using IH r same_journal_rt(2) by blast
  qed
next
  case (2 c r)
  then obtain big j1 where "exceeds_bytes False j = (Ok big, j1)" "j' = j1" by (auto simp: ebind_Ok_iff)
  with exceeds_bytes_frame [of False j] holds_frame [OF 2(2)] 2(3) show ?case by (auto intro!: exI [of _ 0])
next
  case (3 c)
  then obtain big j1 where "exceeds_bytes False j = (Ok big, j1)" "j' = j1" by (auto simp: ebind_Ok_iff)
  with exceeds_bytes_frame [of False j] holds_frame [OF 3(2)] 3(3) show ?case by auto
qed

lemma compact_locked_Ok:
  assumes "compact_locked c j = (Ok (), j')" "journal_path_ok (fj_path j)" "1 \<le> fj_max_records j"
  shows "journal_holds c j' \<and> same_journal j j' \<and> length (js_records (fj_state j')) \<le> fj_max_records j \<and>
    (\<exists>n. js_records (fj_state j') = drop n (js_records (fj_state j)) \<and> (js_records (fj_state j) \<noteq> [] \<longrightarrow> n < length (js_records (fj_state j))))"
proof -
  let ?rs = "js_records (fj_state j)" let ?m = "length ?rs - fj_max_records j" let ?kept = "drop ?m ?rs"
  let ?j = "put_state ((fj_state j)\<lparr> js_records := ?kept \<rparr>) j"
  obtain j2 where 2: "rewrite_locked c ?j = (Ok (), j2)" and 3: "shrink_loop c ?kept j2 = (Ok (), j')"
    using assms(1) by (auto simp: compact_locked_def Let_def ebind_eval [of "emod g" for g] ebind_Ok_iff [of "rewrite_locked c"])
  have p: "journal_path_ok (fj_path ?j)" using assms(2) by (simp add: put_state_def)
  note r = rewrite_locked_Ok [OF 2 p]
  have "journal_holds c j' \<and> same_journal j2 j' \<and> (\<exists>n. js_records (fj_state j') = drop n ?kept \<and> (?kept \<noteq> [] \<longrightarrow> n < length ?kept))"
    using r p by (intro shrink_loop_Ok [OF 3]) (auto simp: put_state_def same_journal_def)
  then obtain n where n: "journal_holds c j'" "same_journal j2 j'" "js_records (fj_state j') = drop n ?kept" "?kept \<noteq> [] \<longrightarrow> n < length ?kept" by blast
  have "same_journal j j'" using r n(2) by (simp add: put_state_def same_journal_def)
  moreover have "js_records (fj_state j') = drop (n + ?m) ?rs \<and> (?rs \<noteq> [] \<longrightarrow> n + ?m < length ?rs)"
  proof (cases "?rs = []")
    case False
    then obtain k where k: "length ?rs = Suc k" by (cases ?rs) auto
    then have "n < length ?kept" using n(4) assms(3) by (intro mp [OF n(4)]) (auto simp flip: length_0_conv)
    with n(3) show ?thesis by (simp add: less_diff_conv)
  qed (use n(3) in simp)
  moreover have "length (js_records (fj_state j')) \<le> fj_max_records j" using n(3) by simp
  ultimately show ?thesis using n(1) by blast
qed

lemma append_envelope_Ok:
  assumes "append_envelope c p e s = (Ok (), s')" "fs_nodes s p = Some (FileNode old)"
  shows "\<exists>l. jc_envelope_to_json c e = Some l \<and> fs_nodes s' p = Some (FileNode (old @ text_bytes (l @ [newline])))"
proof -
  obtain l s1 s2 s3 where l: "jc_envelope_to_json c e = Some l"
      and 1: "ebind (fs_open_read p) (\<lambda>n. case n of FileNode _ \<Rightarrow> eret () | _ \<Rightarrow> efail IK_Other) s = (Ok (), s1)"
      and 2: "fs_append p (text_bytes (l @ [newline])) s1 = (Ok (), s2)" and 3: "fs_sync p s2 = (Ok (), s')"
    using assms(1) unfolding append_envelope_def ebind_Ok_iff [of "elift g" for g] ebind_Ok_iff [of "as_err e m" for e m] as_err_Ok
    by (cases "jc_envelope_to_json c e") auto
  have "inspects (ebind (fs_open_read p) (\<lambda>n. case n of FileNode _ \<Rightarrow> eret () | _ \<Rightarrow> efail IK_Other))"
    unfolding fs_open_read_def by (intro inspects_ebind sys_call_inspects inspects_pure) (auto split: node.splits)
  from inspectsD [OF this 1] assms(2) have "fs_nodes s1 p = Some (FileNode old)" by simp
  from fs_append_nodes [OF 2 this] have "fs_nodes s2 p = Some (FileNode (old @ text_bytes (l @ [newline])))" by auto
  moreover have "fs_nodes s' = fs_nodes s2" using 3 unfolding fs_sync_def by (auto elim!: sys_call_cases)
  ultimately show ?thesis using l by auto
qed

lemma journal_append_Ok:
  assumes a: "journal_append c r j = (Ok (), j')" and h: "journal_holds c j" and p: "journal_path_ok (fj_path j)" and m: "1 \<le> fj_max_records j"
  shows "journal_holds c j' \<and> same_journal j j' \<and> length (js_records (fj_state j')) \<le> fj_max_records j \<and>
    (\<exists>n \<le> length (js_records (fj_state j)). js_records (fj_state j') = drop n (js_records (fj_state j) @ [r]))"
proof -
  let ?st = "fj_state j" let ?q = "sat_add (js_sequence ?st) 1"
  obtain bs where bs: "jc_record_to_json c r = Some bs" "length bs \<le> MAX_JOURNAL_RECORD_BYTES"
    using a by (cases "jc_record_to_json c r") (auto simp: journal_append_def ebind_eval split: if_splits)
  let ?h = "record_hash c ?q (js_last_hash ?st) bs"
  let ?e = "\<lparr> je_sequence = ?q, je_previous_hash = js_last_hash ?st, je_hash = ?h, je_record = r \<rparr>"
  let ?st' = "\<lparr> js_records = js_records ?st @ [r], js_sequence = ?q, js_last_hash = ?h \<rparr>"
  let ?full = "\<lambda>j. if fj_max_records j < length (js_records (fj_state j)) then (Ok True, j) else exceeds_bytes True j"
  obtain s full j2 where 1: "append_envelope c (fj_path j) ?e (fj_fs j) = (Ok (), s)"
      and 2: "?full (put_state ?st' (j\<lparr> fj_fs := s \<rparr>)) = (Ok full, j2)"
      and 3: "(if full then compact_locked c else eret ()) j2 = (Ok (), j')"
    using a bs unfolding journal_append_def ebind_eval [of "elift g" for g]
    by (auto simp: not_less Let_def ebind_Ok_iff on_journal_fs_def simp del: if_split split: prod.splits)
  obtain t ls where t: "journal_chain c 0 '''' (js_records ?st) = Some (ls, js_sequence ?st, js_last_hash ?st)"
      "fs_nodes (fj_fs j) (fj_path j) = Some (FileNode (text_bytes (journal_text ls)))"
    using h by (auto simp: journal_holds_def state_text_def)
  obtain l where l: "jc_envelope_to_json c ?e = Some l" "fs_nodes s (fj_path j) = Some (FileNode (text_bytes (journal_text ls) @ text_bytes (l @ [newline])))"
    using append_envelope_Ok [OF 1 t(2)] by blast
  let ?j1 = "put_state ?st' (j\<lparr> fj_fs := s \<rparr>)"
  have "journal_chain c 0 '''' (js_records ?st @ [r]) = Some (ls @ [l], ?q, ?h)"
    using t(1) bs(1) l(1) by (simp add: journal_chain_append Let_def)
  moreover have "text_bytes (journal_text ls) @ text_bytes (l @ [newline]) = text_bytes (journal_text (ls @ [l]))"
    by (simp add: journal_text_def text_bytes_def)
  ultimately have h1: "journal_holds c ?j1"
    using l(2) unfolding journal_holds_def state_text_def put_state_def
    by (intro exI [of _ "journal_text (ls @ [l])"] conjI exI [of _ "ls @ [l]"]) simp_all
  have s1: "same_journal j ?j1" by (simp add: same_journal_def put_state_def)
  have j2: "journal_holds c j2 \<and> same_journal j j2 \<and> fj_state j2 = ?st' \<and> (\<not> full \<longrightarrow> length (js_records ?st') \<le> fj_max_records j)"
  proof (cases "fj_max_records j < length (js_records ?st')")
    case True
    with 2 have "full" "j2 = ?j1" by (auto simp: put_state_def)
    with h1 s1 show ?thesis by (simp add: put_state_def)
  next
    case False
    with 2 have "exceeds_bytes True ?j1 = (Ok full, j2)" by (auto simp: put_state_def)
    from exceeds_bytes_frame [OF this] holds_frame [OF h1] False s1 show ?thesis
      by (auto simp: put_state_def same_journal_def)
  qed
  show ?thesis
  proof (cases full)
    case False
    with 3 j2 show ?thesis by (auto intro!: exI [of _ 0])
  next
    case True
    with 3 have c: "compact_locked c j2 = (Ok (), j')" by simp
    have p2: "journal_path_ok (fj_path j2)" "1 \<le> fj_max_records j2" using j2 p m by (auto simp: same_journal_def)
    note cc = compact_locked_Ok [OF c p2]
    then obtain n where n: "js_records (fj_state j') = drop n (js_records (fj_state j2))"
        "js_records (fj_state j2) \<noteq> [] \<longrightarrow> n < length (js_records (fj_state j2))" by blast
    have R: "js_records (fj_state j2) = js_records ?st @ [r]" using j2 by simp
    have "n \<le> length (js_records ?st)" using n(2) unfolding R by simp
    then show ?thesis using cc j2 n(1) [unfolded R] by (auto simp: same_journal_def intro!: exI [of _ n])
  qed
qed

section \<open>Opening again\<close>

lemma valid_utf8_append: "valid_utf8 xs \<Longrightarrow> valid_utf8 ys \<Longrightarrow> valid_utf8 (xs @ ys)"
proof (induction xs rule: valid_utf8.induct)
  case (2 a bs)
  show ?case
  proof (cases "a < 128")
    case True
    with 2 show ?thesis by simp
  next
    case a: False
    with 2(5) obtain b cs where b: "bs = b # cs" by (cases bs) auto
    show ?thesis
    proof (cases "194 \<le> a \<and> a < 224")
      case True
      with 2 a b show ?thesis by simp
    next
      case a2: False
      with 2(5) a b obtain c ds where c: "cs = c # ds" by (cases cs) auto
      show ?thesis
      proof (cases "224 \<le> a \<and> a < 240")
        case True
        with 2 a a2 b c show ?thesis by simp
      next
        case a3: False
        with 2(5) a a2 b c obtain d es where d: "ds = d # es" by (cases ds) auto
        with 2 a a2 a3 b c show ?thesis by simp
      qed
    qed
  qed
qed simp

lemma valid_utf8_rest: "valid_utf8 xs \<Longrightarrow> valid_utf8 (xs @ ys) \<Longrightarrow> valid_utf8 ys"
proof (induction xs rule: valid_utf8.induct)
  case (2 a bs)
  show ?case
  proof (cases "a < 128")
    case True
    with 2 show ?thesis by simp
  next
    case a: False
    with 2(5) obtain b cs where b: "bs = b # cs" by (cases bs) auto
    show ?thesis
    proof (cases "194 \<le> a \<and> a < 224")
      case True
      with 2 a b show ?thesis by simp
    next
      case a2: False
      with 2(5) a b obtain c ds where c: "cs = c # ds" by (cases cs) auto
      show ?thesis
      proof (cases "224 \<le> a \<and> a < 240")
        case True
        with 2 a a2 b c show ?thesis by simp
      next
        case a3: False
        with 2(5) a a2 b c obtain d es where d: "ds = d # es" by (cases ds) auto
        with 2 a a2 a3 b c show ?thesis by simp
      qed
    qed
  qed
qed simp

lemma valid_utf8_line_text:
  "\<forall>l\<in>set ls. valid_utf8 (map unat (text_bytes l)) \<Longrightarrow> valid_utf8 (map unat (text_bytes (line_text ls)))"
proof (induction ls)
  case (Cons l ls)
  have "valid_utf8 (map unat (text_bytes [newline]))" by (simp add: text_bytes_def control_chars byte_of_def)
  moreover have "map unat (text_bytes (line_text (l # ls))) =
      map unat (text_bytes l) @ map unat (text_bytes [newline]) @ map unat (text_bytes (line_text ls))" by (simp add: text_bytes_def)
  ultimately show ?case using Cons valid_utf8_append by (metis list.set_intros(1,2))
qed (simp add: text_bytes_def)

lemma state_text_utf8:
  assumes "codec_ok c" "state_text c st t"
  shows "valid_utf8 (map unat (text_bytes t))"
proof -
  obtain ls where ls: "journal_chain c 0 '''' (js_records st) = Some (ls, js_sequence st, js_last_hash st)" "t = journal_text ls"
    using assms(2) by (auto simp: state_text_def)
  have "valid_utf8 (map unat (text_bytes (OPERATIONAL_JOURNAL_FORMAT_V1 @ [newline])))"
    by (rule valid_utf8_text) (simp add: OPERATIONAL_JOURNAL_FORMAT_V1_def newline_def byte_of_def)
  moreover have "valid_utf8 (map unat (text_bytes (line_text ls)))"
    using chain_lines [OF assms(1) ls(1)] by (intro valid_utf8_line_text) blast
  moreover have "map unat (text_bytes t) = map unat (text_bytes (OPERATIONAL_JOURNAL_FORMAT_V1 @ [newline])) @ map unat (text_bytes (line_text ls))"
    by (simp add: ls(2) journal_text_def text_bytes_def)
  ultimately show ?thesis using valid_utf8_append by metis
qed

lemma journal_atomic_write_healthy:
  assumes "fs_faults s = []" "journal_path_ok p" "is_dir s (butlast p)" "fs_nodes s p \<noteq> Some DirNode" "fs_nodes s (journal_temp p s) = None"
  shows "journal_atomic_write p bs s =
    (Ok (), s\<lparr> fs_nodes := (fs_nodes s)(p \<mapsto> FileNode bs), fs_temp_counter := fs_temp_counter s + 1 \<rparr>)"
proof -
  let ?t = "journal_temp p s" let ?s = "s\<lparr> fs_temp_counter := fs_temp_counter s + 1 \<rparr>"
  have t: "journal_temporary p s = (Ok ?t :: runtime_error + path, ?s)" by (simp add: journal_temporary_def journal_temp_def)
  have b: "butlast ?t = butlast p" by (simp add: journal_temp_def)
  have n: "?t \<noteq> p" by (rule journal_temp_neq [OF assms(2)])
  have "(fs_nodes s)(?t \<mapsto> FileNode bs, p \<mapsto> FileNode bs, ?t := None) = (fs_nodes s)(p \<mapsto> FileNode bs)"
    using n assms(5) by (auto simp: fun_eq_iff)
  then show ?thesis
    using assms t b n by (simp add: journal_atomic_write_def ebind_eval as_err_def fs_create_new_def set_private_file_def fs_write_all_def
        next_fault_def fs_sync_def fs_rename_def sync_parent_def sys_call_healthy is_dir_def)
qed

lemma journal_reject_symlink_healthy:
  "fs_faults s = [] \<Longrightarrow> (\<exists>y. fs_nodes s q = Some (FileNode y)) \<or> fs_nodes s q = None \<Longrightarrow> journal_reject_symlink q s = (Ok (), s)"
  by (auto simp: journal_reject_symlink_def fs_symlink_metadata_def sys_call_healthy)

lemma load_state_healthy:
  assumes "codec_ok c" "state_text c st t" "newline \<notin> set tail" "valid_utf8 (map unat (text_bytes tail))" "fs_faults s = []"
    "fs_nodes s p = Some (FileNode (text_bytes (t @ tail)))" "length (t @ tail) \<le> unat m"
  shows "load_state c p m s = (Ok (st, tail \<noteq> []), s)"
proof -
  have utf8: "valid_utf8 (map unat (text_bytes (t @ tail)))"
    using valid_utf8_append [OF state_text_utf8 [OF assms(1,2)] assms(4)] by simp
  have take: "take (unat (sat_add m 1)) (text_bytes (t @ tail)) = text_bytes (t @ tail)"
    using assms(7) sat_add_ge [of m 1] by (intro take_all) (simp add: word_nat)
  show ?thesis
    using journal_reject_symlink_healthy [of s p] assms(5-7) utf8 take parse_journal_torn [OF assms(1,2,3)]
    by (simp add: load_state_def journal_read_bounded_def ebind_eval as_err_def fs_open_read_def fs_read_def sys_call_healthy not_less
        del: text_bytes_append take_append map_append)
qed

lemma load_state_cut:
  assumes "codec_ok c" "state_text c st t" "\<not> valid_utf8 (map unat (text_bytes tail))" "fs_faults s = []"
    "fs_nodes s p = Some (FileNode (text_bytes (t @ tail)))" "length (t @ tail) \<le> unat m"
  shows "load_state c p m s = (Err (journal_io ''read''), s)"
proof -
  have utf8: "\<not> valid_utf8 (map unat (text_bytes (t @ tail)))"
    using valid_utf8_rest [OF state_text_utf8 [OF assms(1,2)]] assms(3) by auto
  have take: "take (unat (sat_add m 1)) (text_bytes (t @ tail)) = text_bytes (t @ tail)"
    using assms(6) sat_add_ge [of m 1] by (intro take_all) (simp add: word_nat)
  show ?thesis
    using journal_reject_symlink_healthy [of s p] assms(4-6) utf8 take
    by (simp add: load_state_def journal_read_bounded_def ebind_eval as_err_def fs_open_read_def fs_read_def sys_call_healthy not_less
        del: text_bytes_append take_append map_append)
qed

lemma exceeds_bytes_healthy:
  "fs_faults (fj_fs j) = [] \<Longrightarrow> fs_nodes (fj_fs j) (fj_path j) = Some (FileNode content) \<Longrightarrow> length content \<le> unat (fj_max_bytes j) \<Longrightarrow>
    exceeds_bytes b j = (Ok False, j)"
  by (simp add: exceeds_bytes_def fs_open_read_def sys_call_healthy not_less)

lemma shrink_loop_small:
  "exceeds_bytes False j = (Ok False, j) \<Longrightarrow> shrink_loop c rs j = (Ok (), j)"
  by (cases "(c, rs)" rule: shrink_loop.cases) (simp_all add: ebind_eval)

lemma compact_locked_healthy:
  assumes "fs_faults (fj_fs j) = []" "journal_path_ok (fj_path j)" "is_dir (fj_fs j) (butlast (fj_path j))"
    "fs_nodes (fj_fs j) (fj_path j) = Some (FileNode old)" "fs_nodes (fj_fs j) (journal_temp (fj_path j) (fj_fs j)) = None"
    "state_text c (fj_state j) t" "length t \<le> unat (fj_max_bytes j)" "length (js_records (fj_state j)) \<le> fj_max_records j"
  shows "\<exists>j'. compact_locked c j = (Ok (), j') \<and> fj_state j' = fj_state j \<and> same_journal j j' \<and>
    fs_nodes (fj_fs j') (fj_path j) = Some (FileNode (text_bytes t))"
proof -
  let ?st = "fj_state j"
  obtain s' where w: "journal_atomic_write (fj_path j) (text_bytes t) (fj_fs j) = (Ok (), s')" "fs_faults s' = []"
    using journal_atomic_write_healthy [OF assms(1-3) _ assms(5)] assms(1,4) by simp
  have n: "fs_nodes s' (fj_path j) = Some (FileNode (text_bytes t))" by (rule journal_atomic_write_Ok [OF w(1) assms(2)])
  have e: "encode_records c (js_records ?st) = Ok (t, js_sequence ?st, js_last_hash ?st)"
    using assms(6) by (auto simp: encode_records_text state_text_def)
  have "rewrite_locked c j = (Ok (), j\<lparr> fj_fs := s' \<rparr>)"
    using e w(1) by (simp add: rewrite_locked_def ebind_eval on_journal_fs_def put_state_def)
  moreover have "shrink_loop c (js_records ?st) (j\<lparr> fj_fs := s' \<rparr>) = (Ok (), j\<lparr> fj_fs := s' \<rparr>)"
    using w(2) n assms(7) by (intro shrink_loop_small exceeds_bytes_healthy [of _ "text_bytes t"]) simp_all
  ultimately have "compact_locked c j = (Ok (), j\<lparr> fj_fs := s' \<rparr>)"
    using assms(8) by (simp add: compact_locked_def Let_def ebind_eval put_state_def)
  then show ?thesis using n by (auto simp: same_journal_def)
qed

text \<open>With the directory, the lock and the file in place, opening goes on to read the file.\<close>

lemma journal_open_reads:
  assumes s: "fs_faults s = []" "fs_nodes s p = Some (FileNode bs)" "dirs_ok s p"
      "fs_nodes s (with_extension p ''journal.lock'') = Some (FileNode x)"
  shows "journal_open c p max_records max_bytes s =
    ebind (load_state c p (recovery_max_bytes (max max_bytes 1))) (\<lambda>(st, recovered_tail) s.
       let j = \<lparr> fj_fs = s, fj_path = p, fj_max_records = max max_records 1, fj_max_bytes = max max_bytes 1, fj_state = st \<rparr> in
       case ebind (\<lambda>j. if fj_max_records j < length (js_records st) then (Ok True, j) else exceeds_bytes True j) (\<lambda>exceeds_limits.
            if recovered_tail \<or> exceeds_limits then compact_locked c else eret ()) j of
         (Inr _, j') \<Rightarrow> (Ok j', fj_fs j')
       | (Inl e, j') \<Rightarrow> (Err e, fj_fs j')) s"
proof -
  have dirs: "as_err (journal_io ''create_parent'') (fs_create_dir_all (butlast p)) s = (Ok (), s)"
    using ensure_parent_dir_ok [OF s(3)] by (simp add: ensure_parent_dir_def as_err_Ok)
  have sym: "journal_reject_symlink q s = (Ok (), s)" if "fs_nodes s q = Some (FileNode y)" for q y
    using journal_reject_symlink_healthy [OF s(1)] that by simp
  have lock: "journal_open_lock (with_extension p ''journal.lock'') s = (Ok (), s)"
    using sym [OF s(4)] s(1,4) by (simp add: journal_open_lock_def ebind_eval as_err_def fs_open_create_def set_private_file_def sys_call_healthy)
  have "journal_prepare p s = (Ok (), s)"
    using s(1) by (simp add: journal_prepare_def ebind_eval dirs sym [OF s(2)] lock as_err_def [of _ "sys_call m" for m] sys_call_healthy)
  then show ?thesis
    unfolding journal_open_def Let_def ebind_eval [of "journal_prepare p"] ebind_eval [of "path_exists p"]
    using s(1,2) by (simp add: path_exists_healthy ebind_eval [of "eret x" for x])
qed

lemma journal_opens:
  assumes c: "codec_ok c" and t: "state_text c st t" and tail: "newline \<notin> set tail" "valid_utf8 (map unat (text_bytes tail))"
    and s: "fs_faults s = []" "fs_nodes s p = Some (FileNode (text_bytes (t @ tail)))" "dirs_ok s p"
      "fs_nodes s (with_extension p ''journal.lock'') = Some (FileNode x)" "fs_nodes s (journal_temp p s) = None" and p: "journal_path_ok p"
    and size: "length (js_records st) \<le> max max_records 1" "length t \<le> unat (max max_bytes 1)"
      "length (t @ tail) \<le> unat (recovery_max_bytes (max max_bytes 1))"
  shows "\<exists>j s'. journal_open c p max_records max_bytes s = (Ok j, s') \<and> fj_state j = st \<and> journal_holds c j"
proof -
  have par: "is_dir s (butlast p)" using s(3) p by (auto simp: dirs_ok_def butlast_conv_take journal_path_ok_def)
  note pre = journal_open_reads [OF s(1-4), of c max_records max_bytes]
  note load = load_state_healthy [OF c t tail s(1,2) size(3)]
  let ?j = "\<lparr> fj_fs = s, fj_path = p, fj_max_records = max max_records 1, fj_max_bytes = max max_bytes 1, fj_state = st \<rparr>"
  show ?thesis
  proof (cases "tail = []")
    case True
    have "exceeds_bytes True ?j = (Ok False, ?j)"
      using s(1,2) True size(2) by (intro exceeds_bytes_healthy [of _ "text_bytes t"]) simp_all
    then have "journal_open c p max_records max_bytes s = (Ok ?j, s)"
      unfolding pre ebind_eval [of "load_state a b d" for a b d] load Let_def using size(1) True by (auto simp: ebind_eval le_max_iff_disj)
    moreover have "journal_holds c ?j" using t s(2) True by (auto simp: journal_holds_def)
    ultimately show ?thesis by auto
  next
    case False
    have ex: "\<exists>big j1. (if fj_max_records ?j < length (js_records st) then (Ok True, ?j) else exceeds_bytes True ?j) = (Ok big, ?j)"
      using size(1) s(1,2) by (auto simp: exceeds_bytes_def fs_open_read_def sys_call_healthy le_max_iff_disj)
    obtain j' where j': "compact_locked c ?j = (Ok (), j')" "fj_state j' = st" "same_journal ?j j'"
        "fs_nodes (fj_fs j') p = Some (FileNode (text_bytes t))"
      using compact_locked_healthy [of ?j "text_bytes (t @ tail)" c t] s(1,2,5) p par t size(1,2) by auto
    have "journal_open c p max_records max_bytes s = (Ok j', fj_fs j')"
      unfolding pre ebind_eval [of "load_state a b d" for a b d] load Let_def using ex j'(1) False by (auto simp: ebind_eval)
    moreover have "journal_holds c j'" using t j'(2-4) by (auto simp: journal_holds_def same_journal_def)
    ultimately show ?thesis using j'(2) by blast
  qed
qed

lemma lock_neq: "p \<noteq> [] \<Longrightarrow> with_extension p ''journal.lock'' \<noteq> p"
proof
  assume p: "p \<noteq> []" "with_extension p ''journal.lock'' = p"
  then have n: "file_stem (last p) @ ''.journal.lock'' = last p" by (auto simp: with_extension_def) (metis last_snoc)
  from file_stem_cases [of "last p"] show False
  proof
    assume "file_stem (last p) = last p"
    with n show False by (metis append_self_conv list.distinct(1))
  next
    assume "\<exists>ext. last p = file_stem (last p) @ CHR ''.'' # ext \<and> CHR ''.'' \<notin> set ext"
    then obtain ext where "file_stem (last p) @ ''.journal.lock'' = file_stem (last p) @ CHR ''.'' # ext" "CHR ''.'' \<notin> set ext" using n by metis
    then show False by auto
  qed
qed

lemma journal_reject_symlink_inspects: "inspects (journal_reject_symlink p)"
proof -
  have "inspects (fs_symlink_metadata p)" unfolding fs_symlink_metadata_def by (intro sys_call_inspects inspects_pure)
  then show ?thesis
    unfolding inspects_def journal_reject_symlink_def Let_def
    by (auto split: prod.splits sum.splits node.splits io_kind.splits) (metis snd_conv)+
qed

lemma set_private_inspects: "inspects set_private_file"
  unfolding set_private_file_def by (intro inspects_as_err sys_call_inspects inspects_pure)

lemma load_state_Ok:
  assumes "load_state c p n s = (Ok x, s')" "fs_nodes s p = Some (FileNode content)"
  shows "parse_journal c (bytes_text content) = Ok x \<and> fs_nodes s' = fs_nodes s"
proof -
  have look: "inspects (fs_open_read q)" "inspects (fs_read bs k)" "inspects (sys_call (eret y))" for q bs k and y :: node
    unfolding fs_open_read_def fs_read_def by (intro sys_call_inspects inspects_pure)+
  obtain contents where rb: "journal_read_bounded p n s = (Ok contents, s')" and parse: "parse_journal c contents = Ok x"
    using assms(1) by (auto simp: load_state_def ebind_Ok_iff)
  obtain s1 node s2 md s3 where 1: "journal_reject_symlink p s = (Ok (), s1)" and 2: "fs_open_read p s1 = (Ok node, s2)"
      and 3: "sys_call (eret node) s2 = (Ok md, s3)"
      and 4: "(case md of
         FileNode content \<Rightarrow>
           if unat n < length content then efail (journal_message ''validate_size'' ''journal exceeds size limit'')
           else ebind (as_err (journal_io ''read'') (fs_read content (unat (sat_add n 1)))) (\<lambda>bs.
             if valid_utf8 (map unat bs) then eret (bytes_text bs) else efail (journal_io ''read''))
       | _ \<Rightarrow> efail (journal_io ''read'')) s3 = (Ok contents, s')"
    using rb unfolding journal_read_bounded_def ebind_Ok_iff [of "journal_reject_symlink p"]
      ebind_Ok_iff [of "as_err (journal_io ''open_read'') m" for m] ebind_Ok_iff [of "as_err (journal_io ''read_metadata'') m" for m] as_err_Ok
    by auto
  have n: "fs_nodes s1 = fs_nodes s" "fs_nodes s2 = fs_nodes s1" "fs_nodes s3 = fs_nodes s2"
    using inspectsD [OF journal_reject_symlink_inspects 1] inspectsD [OF look(1) 2] inspectsD [OF look(3) 3] by auto
  have "md = FileNode content" using 2 3 assms(2) n(1) unfolding fs_open_read_def by (auto elim!: sys_call_cases)
  with 4 obtain bs s4 where len: "length content \<le> unat n" and 5: "fs_read content (unat (sat_add n 1)) s3 = (Ok bs, s4)"
      and 6: "contents = bytes_text bs" "s' = s4"
    by (auto simp: ebind_Ok_iff as_err_Ok not_less split: if_splits)
  have "bs = take (unat (sat_add n 1)) content" using 5 unfolding fs_read_def by (auto elim!: sys_call_cases)
  moreover have "unat n \<le> unat (sat_add n 1)" using sat_add_ge [of n 1] by (simp add: word_nat)
  ultimately show ?thesis using len parse 6 n inspectsD [OF look(2) 5] by simp
qed

lemma journal_prepare_node:
  assumes "journal_prepare p s = (Ok (), s')" "p \<noteq> []"
  shows "fs_nodes s' p = fs_nodes s p"
proof -
  let ?l = "with_extension p ''journal.lock''"
  obtain s1 s2 a b s3 where 1: "fs_create_dir_all (butlast p) s = (Ok (), s1)" and 2: "journal_reject_symlink p s1 = (Ok (), s2)"
      and 3: "journal_reject_symlink ?l s2 = (Ok (), a)" "fs_open_create ?l a = (Ok (), b)" "set_private_file b = (Ok (), s3)"
      and 4: "sys_call (eret ()) s3 = (Ok (), s')"
    using assms(1) unfolding journal_prepare_def journal_open_lock_def by (auto simp: ebind_Ok_iff as_err_Ok)
  have "fs_nodes s1 p = fs_nodes s p"
    using ensure_parent_dir_node [of p s "Ok ()" s1] 1 assms(2) by (simp add: ensure_parent_dir_def as_err_Ok)
  moreover have "fs_nodes s2 = fs_nodes s1" by (rule inspectsD [OF journal_reject_symlink_inspects 2])
  moreover have "fs_nodes a = fs_nodes s2" by (rule inspectsD [OF journal_reject_symlink_inspects 3(1)])
  moreover have "fs_nodes b p = fs_nodes a p" by (rule open_create_nodes [OF 3(2) not_sym [OF lock_neq [OF assms(2)]]])
  moreover have "fs_nodes s3 = fs_nodes b" by (rule inspectsD [OF set_private_inspects 3(3)])
  moreover have "fs_nodes s' = fs_nodes s3" using inspectsD [OF sys_call_inspects [OF inspects_pure(1)] 4] .
  ultimately show ?thesis by simp
qed

lemma journal_open_Ok:
  assumes c: "codec_ok c" and p: "journal_path_ok p" and o: "journal_open c p max_records max_bytes s = (Ok j, s')"
    and h: "fs_nodes s p = None \<and> st = empty_journal \<and> tail = [] \<or>
      fs_nodes s p = Some (FileNode (text_bytes (t @ tail))) \<and> stat_answers (journal_prepare p) s"
    and t: "state_text c st t" "newline \<notin> set tail"
  shows "journal_holds c j \<and> fj_path j = p \<and> fj_max_records j = max max_records 1 \<and> fj_max_bytes j = max max_bytes 1 \<and>
    length (js_records (fj_state j)) \<le> max max_records 1 \<and>
    (\<exists>n. js_records (fj_state j) = drop n (js_records st) \<and> (js_records st \<noteq> [] \<longrightarrow> n < length (js_records st)))"
proof -
  obtain s1 found s4 s5 s6 torn st' where 1: "journal_prepare p s = (Ok (), s1)"
      and ex: "path_exists p s1 = (Ok found :: runtime_error + bool, s4)"
      and 5: "(if \<not> found then journal_atomic_write p (text_bytes (OPERATIONAL_JOURNAL_FORMAT_V1 @ [newline])) else eret ()) s4 = (Ok (), s5)"
      and 6: "load_state c p (recovery_max_bytes (max max_bytes 1)) s5 = (Ok (st', torn), s6)"
      and 7: "(let j = \<lparr> fj_fs = s6, fj_path = p, fj_max_records = max max_records 1, fj_max_bytes = max max_bytes 1, fj_state = st' \<rparr> in
        case ebind (\<lambda>j. if fj_max_records j < length (js_records st') then (Ok True, j) else exceeds_bytes True j) (\<lambda>exceeds_limits.
            if torn \<or> exceeds_limits then compact_locked c else eret ()) j of
          (Inr _, j') \<Rightarrow> (Ok j', fj_fs j') | (Inl e, j') \<Rightarrow> (Err e, fj_fs j')) = (Ok j, s')"
    using o unfolding journal_open_def Let_def ebind_Ok_iff [of "journal_prepare q" for q] ebind_Ok_iff [of "path_exists q" for q]
      ebind_Ok_iff [of "if b then m else eret ()" for b m] ebind_Ok_iff [of "load_state a b d" for a b d]
    by auto
  define j0 where "j0 = \<lparr> fj_fs = s6, fj_path = p, fj_max_records = max max_records 1, fj_max_bytes = max max_bytes 1, fj_state = st' \<rparr>"
  let ?check = "\<lambda>j. if fj_max_records j < length (js_records st') then (Ok True, j) else exceeds_bytes True j"
  have ne: "p \<noteq> []" using p by (simp add: journal_path_ok_def)
  have n4: "fs_nodes s4 p = fs_nodes s p" using journal_prepare_node [OF 1 ne] path_exists_Ok(1) [OF ex] by simp
  have found: "found = (fs_nodes s p \<noteq> None)"
    using h path_exists_answered [of "journal_prepare p" s, OF 1 ex] path_exists_Ok(1,3) [OF ex] n4 by (cases found) auto
  have n5: "fs_nodes s5 p = Some (FileNode (text_bytes (t @ tail)))"
  proof (cases found)
    case False
    then have "st = empty_journal" "tail = []" using False found h n4 by auto
    moreover have "t = OPERATIONAL_JOURNAL_FORMAT_V1 @ [newline]"
      using t(1) calculation(1) by (auto simp: state_text_def empty_journal_def journal_text_def)
    moreover have "fs_nodes s5 p = Some (FileNode (text_bytes (OPERATIONAL_JOURNAL_FORMAT_V1 @ [newline])))"
      using 5 False journal_atomic_write_Ok [OF _ p] by auto
    ultimately show ?thesis by simp
  next
    case True
    then have "s5 = s4" using 5 by (auto split: if_splits)
    with True found h n4 show ?thesis by auto
  qed
  from load_state_Ok [OF 6 n5, unfolded bytes_text_bytes] parse_journal_torn [OF c t] have st: "st' = st" "torn = (tail \<noteq> [])" and n6: "fs_nodes s6 = fs_nodes s5" by auto
  obtain big j1 where big: "?check j0 = (Ok big, j1)"
  proof (cases "fj_max_records j0 < length (js_records st')")
    case False
    moreover obtain big j1 where "exceeds_bytes True j0 = (Ok big, j1)" using exceeds_bytes_frame by (metis surj_pair)
    ultimately show thesis by (intro that [of big j1]) simp
  qed (use that [of True j0] in simp)
  have j1: "fs_nodes (fj_fs j1) = fs_nodes s6" "fj_state j1 = st" "same_journal j0 j1"
    "\<not> big \<longrightarrow> length (js_records st) \<le> max max_records 1"
    using big exceeds_bytes_frame [of True j0 "Ok big" j1] st by (auto simp: j0_def same_journal_def split: if_splits)
  have 8: "(if torn \<or> big then compact_locked c else eret ()) j1 = (Ok (), j)"
    using 7 big unfolding Let_def j0_def [symmetric] ebind_eval
    by (cases "(if torn \<or> big then compact_locked c else eret ()) j1") (auto split: sum.splits)
  have path: "fj_path j1 = p" "fj_max_records j1 = max max_records 1" "fj_max_bytes j1 = max max_bytes 1" using j1(3) by (simp_all add: same_journal_def j0_def)
  show ?thesis
  proof (cases "torn \<or> big")
    case True
    with 8 have "compact_locked c j1 = (Ok (), j)" by simp
    from compact_locked_Ok [OF this] path p j1(2) show ?thesis by (auto simp: same_journal_def)
  next
    case False
    with 8 have "j = j1" by simp
    moreover have "journal_holds c j1" using n5 n6 j1(1,2) path t(1) False st(2) by (auto simp: journal_holds_def text_bytes_def)
    ultimately show ?thesis using j1 path False by (auto intro: exI [of _ 0])
  qed
qed

text \<open>
  A journal in use: created where no file was, appended to, and opened again, perhaps after a crash that left the
  beginning of another line behind what the file held.
\<close>

inductive journal_run :: "journal_codec \<Rightarrow> path \<Rightarrow> nat \<Rightarrow> u64 \<Rightarrow> journal_record list \<Rightarrow> file_journal \<Rightarrow> bool"
  for c p max_records max_bytes where
  created: "fs_nodes s p = None \<Longrightarrow> journal_open c p max_records max_bytes s = (Ok j, s') \<Longrightarrow> journal_run c p max_records max_bytes [] j"
| appended: "journal_run c p max_records max_bytes rs j \<Longrightarrow> journal_append c r j = (Ok (), j') \<Longrightarrow>
    journal_run c p max_records max_bytes (rs @ [r]) j'"
| reopened: "journal_run c p max_records max_bytes rs j \<Longrightarrow> fs_nodes (fj_fs j) p = Some (FileNode content) \<Longrightarrow>
    fs_nodes s p = Some (FileNode (content @ text_bytes tail)) \<Longrightarrow> newline \<notin> set tail \<Longrightarrow> stat_answers (journal_prepare p) s \<Longrightarrow>
    journal_open c p max_records max_bytes s = (Ok j', s') \<Longrightarrow> journal_run c p max_records max_bytes rs j'"

lemma drop_last_kept:
  assumes "xs = drop n rs" "rs \<noteq> [] \<longrightarrow> n < length rs" "ys = drop m xs" "xs \<noteq> [] \<longrightarrow> m < length xs"
  shows "\<exists>k. ys = drop k rs \<and> (rs \<noteq> [] \<longrightarrow> k < length rs)"
  using assms by (cases "rs = []") (auto intro!: exI [of _ "m + n"])

lemma journal_run_holds:
  assumes "journal_run c p max_records max_bytes rs j" "codec_ok c" "journal_path_ok p"
  shows "journal_holds c j \<and> fj_path j = p \<and> fj_max_records j = max max_records 1 \<and> fj_max_bytes j = max max_bytes 1 \<and>
    length (js_records (fj_state j)) \<le> max max_records 1 \<and> (\<exists>n. js_records (fj_state j) = drop n rs \<and> (rs \<noteq> [] \<longrightarrow> n < length rs))"
  using assms(1)
proof induction
  case (created s j s')
  have "state_text c empty_journal (journal_text [])" by (auto simp: state_text_def empty_journal_def)
  from journal_open_Ok [OF assms(2,3) created(2) _ this, of "[]"] created(1) show ?case by (auto simp: empty_journal_def)
next
  case (appended rs j r j')
  then obtain k where "js_records (fj_state j) = drop k rs" by blast
  then obtain n where n: "js_records (fj_state j) = drop n rs" "n \<le> length rs" by (cases "k \<le> length rs") auto
  have "journal_path_ok (fj_path j)" "1 \<le> fj_max_records j" using appended.IH assms(3) by auto
  from journal_append_Ok [OF appended.hyps(2) _ this] appended.IH obtain m where
    m: "journal_holds c j'" "same_journal j j'" "length (js_records (fj_state j')) \<le> fj_max_records j"
      "m \<le> length (drop n rs)" "js_records (fj_state j') = drop m (drop n rs @ [r])" using n(1) by auto
  have "drop m (drop n rs @ [r]) = drop (m + n) (rs @ [r]) \<and> m + n < length (rs @ [r])"
    using m(4) n(2) by auto
  with m appended.IH show ?case by (auto simp: same_journal_def)
next
  case (reopened rs j content s tail j' s')
  then obtain t where "state_text c (fj_state j) t" "fs_nodes (fj_fs j) p = Some (FileNode (text_bytes t))"
    unfolding journal_holds_def by blast
  then have t: "state_text c (fj_state j) t" "fs_nodes s p = Some (FileNode (text_bytes (t @ tail)))"
    using reopened(2,3) by simp_all
  from journal_open_Ok [OF assms(2,3) reopened(6) disjI2 [OF conjI [OF t(2) reopened(5)]] t(1) reopened(4)] reopened.IH drop_last_kept
  show ?case by metis
qed

lemma journal_holds_head:
  assumes "codec_ok c" "state_text c st t"
  shows "chain_head c 0 '''' (js_records st) = Some (js_sequence st, js_last_hash st)"
proof -
  obtain ls where "journal_chain c 0 '''' (js_records st) = Some (ls, js_sequence st, js_last_hash st)"
    using assms(2) by (auto simp: state_text_def)
  then have "load_envelopes c empty_journal ls = Ok st"
    using load_chain [OF assms(1), of empty_journal "js_records st" ls] by (simp add: empty_journal_def)
  from load_envelopes_head [OF this] show ?thesis by (auto simp: empty_journal_def)
qed

text \<open>C27. The journal keeps what it acknowledged. After any run of successful appends and openings it holds the newest
  records, the last one always among them, at most the configured number of them, and a hash that is the chain over
  all of them. Take its file, of at most the configured number of bytes (a single record may be longer), with what a
  crash left of another line behind it, and open it again with no call failing. If the rest is whole characters,
  the journal has exactly the same records and the same hash. If it was cut inside a character of several bytes, the
  code refuses the journal with a read error and leaves the file alone: nothing is lost, and nothing can be read.\<close>

theorem journal_reopens:
  assumes "codec_ok c" "journal_path_ok p" "journal_run c p max_records max_bytes rs j"
    "fs_nodes (fj_fs j) p = Some (FileNode content)" "fs_nodes s p = Some (FileNode (content @ text_bytes tail))"
    "newline \<notin> set tail" "fs_faults s = []" "dirs_ok s p"
    "fs_nodes s (with_extension p ''journal.lock'') = Some (FileNode x)" "fs_nodes s (journal_temp p s) = None"
    "length content \<le> unat (max max_bytes 1)" "length content + length tail \<le> unat (recovery_max_bytes (max max_bytes 1))"
  shows "length (js_records (fj_state j)) \<le> max max_records 1 \<and>
    (\<exists>n. js_records (fj_state j) = drop n rs \<and> (rs \<noteq> [] \<longrightarrow> n < length rs)) \<and>
    chain_head c 0 '''' (js_records (fj_state j)) = Some (js_sequence (fj_state j), js_last_hash (fj_state j)) \<and>
    (if valid_utf8 (map unat (text_bytes tail))
     then \<exists>j' s'. journal_open c p max_records max_bytes s = (Ok j', s') \<and> fj_state j' = fj_state j \<and> journal_holds c j'
     else journal_open c p max_records max_bytes s = (Err (journal_io ''read''), s))"
proof -
  note run = journal_run_holds [OF assms(3,1,2)]
  then obtain t where "state_text c (fj_state j) t" "fs_nodes (fj_fs j) p = Some (FileNode (text_bytes t))"
    unfolding journal_holds_def by blast
  then have t: "state_text c (fj_state j) t" "fs_nodes s p = Some (FileNode (text_bytes (t @ tail)))" "length t = length content"
    using assms(4,5) by (simp_all add: text_bytes_def)
  have size: "length (t @ tail) \<le> unat (recovery_max_bytes (max max_bytes 1))" using assms(12) t(3) by simp
  have "\<exists>j' s'. journal_open c p max_records max_bytes s = (Ok j', s') \<and> fj_state j' = fj_state j \<and> journal_holds c j'"
    if "valid_utf8 (map unat (text_bytes tail))"
    using run assms(11) t(3) size by (intro journal_opens [OF assms(1) t(1) assms(6) that assms(7) t(2) assms(8,9,10,2)]) simp_all
  moreover have "journal_open c p max_records max_bytes s = (Err (journal_io ''read''), s)"
    if "\<not> valid_utf8 (map unat (text_bytes tail))"
    using load_state_cut [OF assms(1) t(1) that assms(7) t(2) size] journal_open_reads [OF assms(7) t(2) assms(8,9)]
    by (simp add: ebind_eval)
  ultimately show ?thesis using run journal_holds_head [OF assms(1) t(1)] by simp
qed

definition sample_event :: event_envelope where
  "sample_event = \<lparr> ee_event_name = ''e'', ee_event_id = ''1'', ee_app_id = ''a'', ee_node_id = ''n'', ee_occurred_at_ms = 1,
     ee_payload = [], ee_trace = None \<rparr>"

definition sample_envelope :: journal_envelope where
  "sample_envelope = \<lparr> je_sequence = 1, je_previous_hash = '''', je_hash = '''', je_record = OJ_Event sample_event \<rparr>"

definition sample_codec :: journal_codec where
  "sample_codec = \<lparr> jc_sha = (\<lambda>_. []), jc_record_to_json = (\<lambda>_. Some []),
     jc_envelope_to_json = (\<lambda>e. if e = sample_envelope then Some ''{}'' else None),
     jc_envelope_from_json = (\<lambda>l. if l = ''{}'' then Some sample_envelope else None), jc_audit_to_json = (\<lambda>_. None) \<rparr>"

definition sample_opened :: file_journal where
  "sample_opened = \<lparr> fj_fs = \<lparr> fs_nodes = [[''ops.journal.lock''] \<mapsto> FileNode [], [''ops''] \<mapsto> FileNode (text_bytes (journal_text []))],
     fs_faults = [], fs_temp_counter = 1, fs_pid = 1 \<rparr>, fj_path = [''ops''], fj_max_records = 5, fj_max_bytes = 1000, fj_state = empty_journal \<rparr>"

lemma sample_codec_ok: "codec_ok sample_codec"
proof -
  have "line_ok ''{}''" "valid_utf8 (map unat (text_bytes ''{}''))" by code_simp+
  then show ?thesis by (auto simp: codec_ok_def sample_codec_def)
qed

lemma sample_paths:
  "with_extension [''ops''] ''journal.lock'' = [''ops.journal.lock'']" "journal_path_ok [''ops'']"
  "journal_temp [''ops''] s \<noteq> [''ops.journal.lock'']"
  subgoal by code_simp
  subgoal by code_simp
  by (simp add: journal_temp_def temporary_name_def)

lemma sample_journal_opens: "journal_open sample_codec [''ops''] 5 1000 (sample_fs []) = (Ok sample_opened, fj_fs sample_opened)"
proof -
  let ?s = "sample_fs []" let ?l = "[''ops.journal.lock'']" let ?t = "OPERATIONAL_JOURNAL_FORMAT_V1 @ [newline]"
  let ?s1 = "?s\<lparr> fs_nodes := [?l \<mapsto> FileNode []] \<rparr>" let ?s2 = "fj_fs sample_opened"
  have t: "journal_text [] = ?t" "state_text sample_codec empty_journal (journal_text [])"
    by (auto simp: journal_text_def state_text_def empty_journal_def)
  have size: "length (journal_text []) \<le> unat (recovery_max_bytes 1000)" "length (journal_text []) \<le> 1000" by code_simp+
  have utf8: "valid_utf8 (map unat (text_bytes []))" by code_simp
  have 1: "journal_reject_symlink [''ops''] ?s = (Ok (), ?s)" by (rule journal_reject_symlink_healthy) (simp_all add: sample_fs_def)
  have "journal_reject_symlink ?l ?s = (Ok (), ?s)" by (rule journal_reject_symlink_healthy) (simp_all add: sample_fs_def)
  then have 2: "journal_open_lock ?l ?s = (Ok (), ?s1)"
    by (simp add: journal_open_lock_def ebind_eval as_err_def fs_open_create_def set_private_file_def sys_call_healthy is_dir_def sample_fs_def)
  have 3: "journal_atomic_write [''ops''] (text_bytes ?t) ?s1 = (Ok (), ?s2)"
    using journal_atomic_write_healthy [of ?s1 "[''ops'']" "text_bytes ?t"] sample_paths
    by (simp add: is_dir_def sample_fs_def sample_opened_def t(1))
  have 4: "load_state sample_codec [''ops''] (recovery_max_bytes 1000) ?s2 = (Ok (empty_journal, False), ?s2)"
    using load_state_healthy [OF sample_codec_ok t(2), of "[]" ?s2 "[''ops'']" "recovery_max_bytes 1000"] size(1) utf8
    by (simp add: sample_opened_def)
  have "exceeds_bytes True sample_opened = (Ok False, sample_opened)"
    using size(2) by (intro exceeds_bytes_healthy [of _ "text_bytes (journal_text [])"]) (simp_all add: sample_opened_def)
  moreover have "sample_opened = \<lparr> fj_fs = ?s2, fj_path = [''ops''], fj_max_records = 5, fj_max_bytes = 1000, fj_state = empty_journal \<rparr>"
    by (simp add: sample_opened_def)
  ultimately have 5: "exceeds_bytes True \<lparr> fj_fs = ?s2, fj_path = [''ops''], fj_max_records = 5, fj_max_bytes = 1000, fj_state = empty_journal \<rparr>
      = (Ok False, sample_opened)" by simp
  have 6: "fs_faults ?s1 = []" "fs_nodes ?s1 [''ops''] = None" by (simp_all add: sample_fs_def)
  have 7: "js_records empty_journal = []" "max 5 (1::nat) = 5" "max 1000 (1::u64) = 1000" by (simp_all add: empty_journal_def)
  have 8: "as_err (journal_io ''create_parent'') (fs_create_dir_all (butlast [''ops''])) ?s = (Ok (), ?s)"
    by (simp add: fs_create_dir_all_def as_err_def)
  have 9: "as_err (journal_io ''lock'') (sys_call (eret ())) ?s1 = (Ok (), ?s1)" using 6(1) by (simp add: as_err_def sys_call_healthy)
  have 10: "journal_prepare [''ops''] ?s = (Ok (), ?s1)" unfolding journal_prepare_def sample_paths(1) ebind_eval 8 prod.case sum.case 1 2 9 ..
  have 11: "path_exists [''ops''] ?s1 = (Ok False :: runtime_error + bool, ?s1)" using path_exists_healthy [OF 6(1), of "[''ops'']"] 6(2) by simp
  show ?thesis
    unfolding journal_open_def Let_def 7(2,3) ebind_eval 10 11 prod.case sum.case if_True simp_thms 3 4
    using 7(1) 5 by simp
qed

definition sample_appended :: file_journal where
  "sample_appended = sample_opened\<lparr> fj_fs := (fj_fs sample_opened)\<lparr> fs_nodes := (fs_nodes (fj_fs sample_opened))([''ops''] \<mapsto>
       FileNode (text_bytes (journal_text [] @ ''{}'' @ [newline]))) \<rparr>,
     fj_state := \<lparr> js_records = [OJ_Event sample_event], js_sequence = 1, js_last_hash = '''' \<rparr> \<rparr>"

lemma sample_journal_appends: "journal_append sample_codec (OJ_Event sample_event) sample_opened = (Ok (), sample_appended)"
proof -
  let ?s = "fj_fs sample_opened" let ?t = "text_bytes (journal_text [])" let ?l = "text_bytes (''{}'' @ [newline])"
  have healthy: "fs_faults ?s = []" "fs_nodes ?s [''ops''] = Some (FileNode ?t)" "fj_path sample_opened = [''ops'']"
    "fj_state sample_opened = empty_journal" "fj_max_records sample_opened = 5" by (simp_all add: sample_opened_def)
  have hash: "record_hash sample_codec 1 '''' [] = ''''" by code_simp
  have line: "jc_envelope_to_json sample_codec \<lparr> je_sequence = 1, je_previous_hash = '''', je_hash = '''', je_record = OJ_Event sample_event \<rparr> = Some ''{}''"
    by (simp add: sample_codec_def sample_envelope_def)
  have one: "sat_add 0 1 = (1 :: u64)" by code_simp
  have 1: "append_envelope sample_codec [''ops''] \<lparr> je_sequence = 1, je_previous_hash = '''', je_hash = '''', je_record = OJ_Event sample_event \<rparr> ?s
      = (Ok (), fj_fs sample_appended)"
    using healthy(1,2) by (simp add: append_envelope_def line ebind_eval as_err_def fs_open_read_def fs_append_def next_fault_def fs_sync_def
        sys_call_healthy sample_appended_def text_bytes_def)
  have "length (journal_text [] @ ''{}'' @ [newline]) \<le> 1000" by code_simp
  then have 2: "exceeds_bytes True sample_appended = (Ok False, sample_appended)"
    by (intro exceeds_bytes_healthy [of _ "text_bytes (journal_text [] @ ''{}'' @ [newline])"]) (simp_all add: sample_appended_def sample_opened_def)
  have 3: "put_state \<lparr> js_records = [OJ_Event sample_event], js_sequence = 1, js_last_hash = '''' \<rparr> (sample_opened\<lparr> fj_fs := fj_fs sample_appended \<rparr>) = sample_appended"
    by (simp add: put_state_def sample_appended_def)
  have 4: "js_records (fj_state sample_appended) = [OJ_Event sample_event]" "fj_max_records sample_appended = 5"
    by (simp_all add: sample_appended_def sample_opened_def)
  have 5: "jc_record_to_json sample_codec r = Some []" for r by (simp add: sample_codec_def)
  show ?thesis
    using healthy(3-5) by (simp add: journal_append_def ebind_eval 5 empty_journal_def one hash on_journal_fs_def 1 3 2 4 Let_def)
qed

lemma journal_reopens_witness:
  "\<exists>s cut j' s'. journal_run sample_codec [''ops''] 5 1000 [OJ_Event sample_event] sample_appended \<and>
    fs_nodes s [''ops''] = Some (FileNode (text_bytes (journal_text [] @ ''{}'' @ [newline]) @ text_bytes ''{'')) \<and>
    journal_open sample_codec [''ops''] 5 1000 s = (Ok j', s') \<and> js_records (fj_state j') = [OJ_Event sample_event] \<and>
    fs_nodes cut [''ops''] = Some (FileNode (text_bytes (journal_text [] @ ''{}'' @ [newline]) @ [195])) \<and>
    journal_open sample_codec [''ops''] 5 1000 cut = (Err (journal_io ''read''), cut)"
proof -
  let ?content = "text_bytes (journal_text [] @ ''{}'' @ [newline])" let ?f = "fj_fs sample_appended"
  let ?s = "\<lambda>tail. ?f\<lparr> fs_nodes := (fs_nodes ?f)([''ops''] \<mapsto> FileNode (?content @ text_bytes tail)) \<rparr>"
  have "journal_run sample_codec [''ops''] 5 1000 [] sample_opened"
    by (rule journal_run.created [OF _ sample_journal_opens]) (simp add: sample_fs_def)
  from journal_run.appended [OF this sample_journal_appends]
  have run: "journal_run sample_codec [''ops''] 5 1000 [OJ_Event sample_event] sample_appended" by simp
  have n: "fs_nodes ?f [''ops''] = Some (FileNode ?content)" "fs_nodes (?s tail) [''ops''] = Some (FileNode (?content @ text_bytes tail))"
    "fs_nodes (?s tail) (with_extension [''ops''] ''journal.lock'') = Some (FileNode [])" "fs_faults (?s tail) = []" "dirs_ok (?s tail) [''ops'']"
    "fs_nodes (?s tail) (journal_temp [''ops''] (?s tail)) = None" for tail
    using sample_paths(3) journal_temp_neq [OF sample_paths(2)]
    by (simp_all add: sample_paths(1) sample_appended_def sample_opened_def dirs_ok_def is_dir_def)
  have tail: "newline \<notin> set ''{''" "valid_utf8 (map unat (text_bytes ''{''))"
    "newline \<notin> set (bytes_text [195])" "\<not> valid_utf8 (map unat (text_bytes (bytes_text [195])))" by code_simp+
  have size: "length ?content \<le> unat (max 1000 1 :: u64)" "length ?content + length ''{'' \<le> unat (recovery_max_bytes (max 1000 1))"
    "length ?content + length (bytes_text [195]) \<le> unat (recovery_max_bytes (max 1000 1))" by code_simp+
  have st: "js_records (fj_state sample_appended) = [OJ_Event sample_event]" by (simp add: sample_appended_def)
  note reopen = journal_reopens [OF sample_codec_ok sample_paths(2) run n(1) n(2) _ n(4,5,3,6) size(1)]
  from reopen [OF tail(1) size(2)] tail(2) st obtain j' s' where
    o: "journal_open sample_codec [''ops''] 5 1000 (?s ''{'') = (Ok j', s')" "js_records (fj_state j') = [OJ_Event sample_event]" by auto
  from reopen [OF tail(3) size(3)] tail(4) have c: "journal_open sample_codec [''ops''] 5 1000 (?s (bytes_text [195])) = (Err (journal_io ''read''), ?s (bytes_text [195]))"
    by auto
  have e: "fs_nodes (?s (bytes_text [195])) [''ops''] = Some (FileNode (?content @ [195]))" using n(2) [of "bytes_text [195]"] by simp
  show ?thesis
    by (rule exI [of _ "?s ''{''"], rule exI [of _ "?s (bytes_text [195])"], rule exI [of _ j'], rule exI [of _ s'], intro conjI run n(2) o e c)
qed

end
