(* ===== verification/Core_Controller.thy ===== *)
theory Core_Controller
  imports Core_Journal
begin

text \<open>
  The host of an application in \<open>appcore-core\<close>: the audit log (\<open>audit.rs\<close>), the event bus (\<open>event_bus.rs\<close>), the builder
  (\<open>builder.rs\<close>, \<open>plugin.rs\<close>), the instance (\<open>runtime.rs\<close>) and the controller (\<open>controller.rs\<close>), which admits a command, runs
  its handler and records the outcome. A journal shared by log and bus is a reference into a table of journals. The
  HTTP layer runs the three parts of a dispatch without holding the controller, so commands overlap: \<open>controller_run\<close>
  interleaves them. The lemmas on it are proved for any \<open>idempotency_store\<close>. The clock does not advance within one step.
\<close>

section \<open>The audit log and the event bus\<close>

record host_env =
  he_codec :: journal_codec
  he_debug :: "runtime_error \<Rightarrow> string"
  he_result_to_json :: "command_result json_writer"
  he_result_from_json :: "command_result json_reader"

type_synonym journals = "nat \<rightharpoonup> file_journal"

definition MAX_AUDIT_RECORDS :: nat where "MAX_AUDIT_RECORDS = 10000"
definition MAX_EVENTS :: nat where "MAX_EVENTS = 10000"

definition redacted :: "string \<Rightarrow> string" where
  "redacted v = the (redact_text v)"

record audit_record =
  ar_command_id :: string
  ar_command_name :: string
  ar_app_id :: string
  ar_node_id :: string
  ar_timestamp_ms :: u64
  ar_outcome :: audit_outcome
  ar_message :: "string option"
  ar_trace :: "trace_context option"

definition audit_entry_new :: "audit_category \<Rightarrow> string \<Rightarrow> string \<Rightarrow> u64 \<Rightarrow> u64 \<Rightarrow> audit_outcome \<Rightarrow> audit_entry" where
  "audit_entry_new category operation_id operation_name started_at_ms completed_at_ms outcome =
     \<lparr> ae_category = category, ae_operation_id = operation_id, ae_operation_name = operation_name, ae_app_id = None, ae_node_id = None,
       ae_started_at_ms = started_at_ms, ae_completed_at_ms = completed_at_ms,
       ae_latency_ms = sat_sub completed_at_ms started_at_ms, ae_outcome = outcome, ae_message = None, ae_trace = None \<rparr>"

definition with_runtime_scope :: "string \<Rightarrow> string \<Rightarrow> audit_entry \<Rightarrow> audit_entry" where
  "with_runtime_scope app_id node_id e = e\<lparr> ae_app_id := Some app_id, ae_node_id := Some node_id \<rparr>"

definition entry_with_message :: "string option \<Rightarrow> audit_entry \<Rightarrow> audit_entry" where
  "entry_with_message message e = e\<lparr> ae_message := map_option redacted message \<rparr>"

definition entry_with_trace :: "trace_context option \<Rightarrow> audit_entry \<Rightarrow> audit_entry" where
  "entry_with_trace trace e = e\<lparr> ae_trace := trace \<rparr>"

record audit_log =
  al_records :: "audit_record list"
  al_entries :: "audit_entry list"
  al_journal :: "nat option"
  al_journal_error :: "string option"

definition audit_log_new :: audit_log where
  "audit_log_new = \<lparr> al_records = [], al_entries = [], al_journal = None, al_journal_error = None \<rparr>"

text \<open>A write through the reference; a failure is kept as its redacted debug text.\<close>

definition journal_write ::
    "host_env \<Rightarrow> (file_journal, runtime_error, unit) eff \<Rightarrow> nat option \<Rightarrow> journals \<Rightarrow> string option \<times> journals" where
  "journal_write env m journal js = (case journal of
     None \<Rightarrow> (None, js)
   | Some k \<Rightarrow> (case js k of
       None \<Rightarrow> (None, js)
     | Some j \<Rightarrow> (case m j of
         (Inl e, j') \<Rightarrow> (Some (redacted (he_debug env e)), js(k \<mapsto> j'))
       | (Inr _, j') \<Rightarrow> (None, js(k \<mapsto> j')))))"

definition push_bounded :: "nat \<Rightarrow> 'a \<Rightarrow> 'a list \<Rightarrow> 'a list" where
  "push_bounded bound x xs = drop (Suc (length xs) - bound) xs @ [x]"

definition attach_audit_journal :: "nat \<Rightarrow> file_journal \<Rightarrow> audit_log \<Rightarrow> audit_log" where
  "attach_audit_journal k j l = (let entries = audit_entries j in
     l\<lparr> al_entries := drop (length entries - MAX_AUDIT_RECORDS) entries, al_journal := Some k, al_journal_error := None \<rparr>)"

definition push_entry :: "host_env \<Rightarrow> audit_entry \<Rightarrow> audit_log \<times> journals \<Rightarrow> audit_log \<times> journals" where
  "push_entry env entry l_js = (case l_js of (l, js) \<Rightarrow>
     let entry = entry\<lparr> ae_message := map_option redacted (ae_message entry) \<rparr> in
     case journal_write env (append_audit (he_codec env) entry) (al_journal l) js of (failure, js') \<Rightarrow>
       (l\<lparr> al_journal_error := (if failure = None then al_journal_error l else failure),
           al_entries := push_bounded MAX_AUDIT_RECORDS entry (al_entries l) \<rparr>, js'))"

definition audit_push :: "host_env \<Rightarrow> u64 \<Rightarrow> audit_record \<Rightarrow> audit_log \<times> journals \<Rightarrow> audit_log \<times> journals" where
  "audit_push env now_ms r l_js = (case l_js of (l, js) \<Rightarrow>
     let r = r\<lparr> ar_message := map_option redacted (ar_message r) \<rparr>;
         entry = entry_with_trace (ar_trace r) (entry_with_message (ar_message r) (with_runtime_scope (ar_app_id r) (ar_node_id r)
           (audit_entry_new AC_Command (ar_command_id r) (ar_command_name r) (ar_timestamp_ms r) now_ms (ar_outcome r))))
     in push_entry env entry (l\<lparr> al_records := push_bounded MAX_AUDIT_RECORDS r (al_records l) \<rparr>, js))"

definition audit_export_jsonl :: "host_env \<Rightarrow> audit_log \<Rightarrow> string option" where
  "audit_export_jsonl env l = (case export_jsonl (he_codec env) '''' (al_entries l) of Inr t \<Rightarrow> Some t | Inl _ \<Rightarrow> None)"

record event_bus =
  eb_events :: "event_envelope list"
  eb_journal :: "nat option"
  eb_journal_error :: "string option"

definition event_bus_new :: event_bus where
  "event_bus_new = \<lparr> eb_events = [], eb_journal = None, eb_journal_error = None \<rparr>"

definition attach_event_journal :: "nat \<Rightarrow> file_journal \<Rightarrow> event_bus \<Rightarrow> event_bus" where
  "attach_event_journal k j b = (let events = journal_events j in
     b\<lparr> eb_events := drop (length events - MAX_EVENTS) events, eb_journal := Some k, eb_journal_error := None \<rparr>)"

definition persist_event :: "host_env \<Rightarrow> event_envelope \<Rightarrow> event_bus \<times> journals \<Rightarrow> event_bus \<times> journals" where
  "persist_event env event b_js = (case b_js of (b, js) \<Rightarrow>
     case journal_write env (append_event (he_codec env) event) (eb_journal b) js of (failure, js') \<Rightarrow>
       (b\<lparr> eb_journal_error := (if failure = None then eb_journal_error b else failure) \<rparr>, js'))"

definition emit_event :: "host_env \<Rightarrow> event_envelope \<Rightarrow> event_bus \<times> journals \<Rightarrow> event_bus \<times> journals" where
  "emit_event env event b_js = (case persist_event env event b_js of (b, js) \<Rightarrow>
     let events = eb_events b;
         kept = (if 10000 \<le> length events then drop (length events - 9999) events else events)
     in (b\<lparr> eb_events := kept @ [event] \<rparr>, js))"

definition emit_many :: "host_env \<Rightarrow> event_envelope list \<Rightarrow> event_bus \<times> journals \<Rightarrow> event_bus \<times> journals" where
  "emit_many env events b_js = (case fold (persist_event env) events b_js of (b, js) \<Rightarrow>
     let all = eb_events b @ events in (b\<lparr> eb_events := drop (length all - 10000) all \<rparr>, js))"

definition clear_events :: "event_bus \<Rightarrow> event_bus" where
  "clear_events b = b\<lparr> eb_events := [] \<rparr>"

section \<open>The instance and its builder\<close>

record 'w runtime_instance =
  rt_application_manifest :: application_manifest
  rt_identity :: runtime_identity
  rt_command_registry :: name_registry
  rt_event_registry :: name_registry
  rt_state_registry :: name_registry
  rt_decision_registry :: name_registry
  rt_decision_engine :: "'w decision_engine"
  rt_command_bus :: "'w command_bus"
  rt_event_bus :: event_bus
  rt_audit_log :: audit_log
  rt_lifecycle :: state_machine

record 'w app_plugin =
  ap_application_manifest :: application_manifest
  ap_identity :: "string \<Rightarrow> runtime_identity"
  ap_register_commands :: "(name_registry, runtime_error, unit) eff"
  ap_register_events :: "(name_registry, runtime_error, unit) eff"
  ap_register_states :: "(name_registry, runtime_error, unit) eff"
  ap_register_decisions :: "(name_registry, runtime_error, unit) eff"
  ap_register_decision_nodes :: "('w decision_engine, runtime_error, unit) eff"
  ap_register_handlers :: "('w command_bus, runtime_error, unit) eff"

record 'w runtime_builder =
  rb_application_manifest :: "application_manifest option"
  rb_identity :: "runtime_identity option"
  rb_command_registry :: name_registry
  rb_event_registry :: name_registry
  rb_state_registry :: name_registry
  rb_decision_registry :: name_registry
  rb_decision_engine :: "'w decision_engine"
  rb_command_bus :: "'w command_bus"
  rb_event_bus :: event_bus
  rb_audit_log :: audit_log
  rb_lifecycle :: state_machine

definition runtime_builder_new :: "'w runtime_builder" where
  "runtime_builder_new = \<lparr> rb_application_manifest = None, rb_identity = None, rb_command_registry = [], rb_event_registry = [],
     rb_state_registry = [], rb_decision_registry = [], rb_decision_engine = \<lparr> de_nodes = [], de_node_names = [] \<rparr>,
     rb_command_bus = Map.empty, rb_event_bus = event_bus_new, rb_audit_log = audit_log_new, rb_lifecycle = lifecycle_new \<rparr>"

text \<open>A method of the plugin on one field of the builder.\<close>

definition on_field :: "('b \<Rightarrow> 'f) \<Rightarrow> (('f \<Rightarrow> 'f) \<Rightarrow> 'b \<Rightarrow> 'b) \<Rightarrow> ('f, 'e, 'a) eff \<Rightarrow> ('b, 'e, 'a) eff" where
  "on_field get_field upd m b = (case m (get_field b) of (r, f) \<Rightarrow> (r, upd (\<lambda>_. f) b))"

definition sync_decision_registry_with_engine :: "('w runtime_builder, runtime_error, unit) eff" where
  "sync_decision_registry_with_engine b =
     eforeach (de_node_names (rb_decision_engine b)) (\<lambda>name. on_field rb_decision_registry rb_decision_registry_update
       (\<lambda>registry. if name \<in> set registry then (Ok (), registry) else register_decision_name name registry)) b"

definition with_additional_plugin :: "'w app_plugin \<Rightarrow> ('w runtime_builder, runtime_error, unit) eff" where
  "with_additional_plugin plugin =
     ebind (on_field rb_command_registry rb_command_registry_update (ap_register_commands plugin)) (\<lambda>_.
     ebind (on_field rb_event_registry rb_event_registry_update (ap_register_events plugin)) (\<lambda>_.
     ebind (on_field rb_state_registry rb_state_registry_update (ap_register_states plugin)) (\<lambda>_.
     ebind (on_field rb_decision_registry rb_decision_registry_update (ap_register_decisions plugin)) (\<lambda>_.
     ebind (on_field rb_decision_engine rb_decision_engine_update (ap_register_decision_nodes plugin)) (\<lambda>_.
     ebind sync_decision_registry_with_engine (\<lambda>_.
     on_field rb_command_bus rb_command_bus_update (ap_register_handlers plugin)))))))"

definition with_plugin :: "'w app_plugin \<Rightarrow> string \<Rightarrow> ('w runtime_builder, runtime_error, unit) eff" where
  "with_plugin plugin node_id b =
     (if rb_application_manifest b \<noteq> None then (Err RE_PluginAlreadyRegistered, b)
      else ebind (with_additional_plugin plugin) (\<lambda>_. emod (\<lambda>b. b\<lparr> rb_application_manifest := Some (ap_application_manifest plugin),
        rb_identity := Some (ap_identity plugin node_id) \<rparr>)) b)"

definition runtime_build :: "'w runtime_builder \<Rightarrow> 'w runtime_instance runtime_result" where
  "runtime_build b =
     rbind (ok_or RE_MissingManifest (rb_application_manifest b)) (\<lambda>application_manifest.
     rbind (ok_or RE_MissingManifest (rb_identity b)) (\<lambda>identity.
     Ok \<lparr> rt_application_manifest = application_manifest, rt_identity = identity, rt_command_registry = rb_command_registry b,
       rt_event_registry = rb_event_registry b, rt_state_registry = rb_state_registry b, rt_decision_registry = rb_decision_registry b,
       rt_decision_engine = rb_decision_engine b, rt_command_bus = rb_command_bus b, rt_event_bus = rb_event_bus b,
       rt_audit_log = rb_audit_log b, rt_lifecycle = rb_lifecycle b \<rparr>))"

definition runtime_dispatch_command ::
    "'w runtime_instance \<Rightarrow> command_envelope \<Rightarrow> runtime_context \<Rightarrow> ('w, runtime_error, command_result) eff" where
  "runtime_dispatch_command rt command context =
     ebind (evaluate (rt_decision_engine rt) command context) (\<lambda>outcome. case outcome of
         DO_Allow \<Rightarrow> bus_dispatch (rt_command_bus rt) command context
       | DO_Deny message \<Rightarrow> eret (result_rejected message)
       | DO_Defer message \<Rightarrow> eret (result_rejected message))"

definition runtime_ensure_compatible :: "'w runtime_instance \<Rightarrow> runtime_identity \<Rightarrow> unit runtime_result" where
  "runtime_ensure_compatible rt other = map_err RE_IncompatibleIdentity (ensure_runtime_compatible (rt_identity rt) other)"

section \<open>The controller\<close>

record ('w, 's) controller =
  rc_instance :: "'w runtime_instance"
  rc_idempotency :: 's
  rc_journals :: journals

definition controller_new :: "'w runtime_instance \<Rightarrow> 's \<Rightarrow> ('w, 's) controller" where
  "controller_new rt store = \<lparr> rc_instance = rt, rc_idempotency = store, rc_journals = Map.empty \<rparr>"

definition on_store :: "('s, runtime_error, 'a) eff \<Rightarrow> (('w, 's) controller, runtime_error, 'a) eff" where
  "on_store = on_field rc_idempotency rc_idempotency_update"

definition on_audit :: "(audit_log \<times> journals \<Rightarrow> audit_log \<times> journals) \<Rightarrow> ('w, 's) controller \<Rightarrow> ('w, 's) controller" where
  "on_audit f k = (case f (rt_audit_log (rc_instance k), rc_journals k) of (l, js) \<Rightarrow>
     k\<lparr> rc_instance := (rc_instance k)\<lparr> rt_audit_log := l \<rparr>, rc_journals := js \<rparr>)"

definition on_events :: "(event_bus \<times> journals \<Rightarrow> event_bus \<times> journals) \<Rightarrow> ('w, 's) controller \<Rightarrow> ('w, 's) controller" where
  "on_events f k = (case f (rt_event_bus (rc_instance k), rc_journals k) of (b, js) \<Rightarrow>
     k\<lparr> rc_instance := (rc_instance k)\<lparr> rt_event_bus := b \<rparr>, rc_journals := js \<rparr>)"

definition apply_lifecycle_event :: "lifecycle_event \<Rightarrow> (('w, 's) controller, runtime_error, lifecycle_state) eff" where
  "apply_lifecycle_event event =
     on_field rc_instance rc_instance_update (on_field rt_lifecycle rt_lifecycle_update (lifecycle_apply event))"

definition idempotency_len :: "'s idempotency_ops \<Rightarrow> u64 \<Rightarrow> ('w, 's) controller \<Rightarrow> nat" where
  "idempotency_len ops now_ms k = is_len ops now_ms (rc_idempotency k)"

definition idempotency_contains :: "'s idempotency_ops \<Rightarrow> u64 \<Rightarrow> string \<Rightarrow> (('w, 's) controller, runtime_error, bool) eff" where
  "idempotency_contains ops now_ms key = ebind (on_store (is_get ops now_ms key)) (\<lambda>r. eret (r \<noteq> None))"

definition check_lifecycle_readiness :: "('w, 's) controller \<Rightarrow> command_result option" where
  "check_lifecycle_readiness k = (case lifecycle_current (rt_lifecycle (rc_instance k)) of
     LS_Running \<Rightarrow> None
   | LS_Degraded \<Rightarrow> None
   | LS_Restricted \<Rightarrow> Some (result_rejected ''runtime is restricted'')
   | _ \<Rightarrow> Some (result_rejected ''runtime is not ready''))"

definition dispatch_record :: "host_env \<Rightarrow> command_envelope \<Rightarrow> command_result runtime_result \<Rightarrow> audit_record" where
  "dispatch_record env command dispatch_result =
     (case dispatch_result of
        Inr result \<Rightarrow>
          \<lparr> ar_command_id = ce_command_id command, ar_command_name = ce_command_name command, ar_app_id = ce_app_id command,
            ar_node_id = ce_node_id command, ar_timestamp_ms = ce_issued_at_ms command,
            ar_outcome = (if cr_accepted result then AO_Accepted else AO_Rejected), ar_message = cr_message result, ar_trace = ce_trace command \<rparr>
      | Inl error \<Rightarrow>
          \<lparr> ar_command_id = ce_command_id command, ar_command_name = ce_command_name command, ar_app_id = ce_app_id command,
            ar_node_id = ce_node_id command, ar_timestamp_ms = ce_issued_at_ms command,
            ar_outcome = AO_Error, ar_message = Some (he_debug env error), ar_trace = ce_trace command \<rparr>)"

definition record_audit ::
    "host_env \<Rightarrow> u64 \<Rightarrow> command_envelope \<Rightarrow> command_result runtime_result \<Rightarrow> ('w, 's) controller \<Rightarrow> ('w, 's) controller" where
  "record_audit env now_ms command dispatch_result = on_audit (audit_push env now_ms (dispatch_record env command dispatch_result))"

definition with_command_trace :: "command_envelope \<Rightarrow> event_envelope \<Rightarrow> event_envelope" where
  "with_command_trace command event =
     (if ee_trace event = None then (case ce_trace command of Some trace \<Rightarrow> event_with_trace trace event | None \<Rightarrow> event) else event)"

definition event_entry :: "u64 \<Rightarrow> event_envelope \<Rightarrow> audit_entry" where
  "event_entry now_ms event = entry_with_trace (ee_trace event) (with_runtime_scope (ee_app_id event) (ee_node_id event)
     (audit_entry_new AC_Event (ee_event_id event) (ee_event_name event) (ee_occurred_at_ms event) now_ms AO_Accepted))"

definition emit_events_and_audit ::
    "host_env \<Rightarrow> u64 \<Rightarrow> command_envelope \<Rightarrow> command_result runtime_result \<Rightarrow> ('w, 's) controller \<Rightarrow> ('w, 's) controller" where
  "emit_events_and_audit env now_ms command dispatch_result k =
     record_audit env now_ms command dispatch_result
       (case dispatch_result of
          Inr result \<Rightarrow> if cr_accepted result then
              let events = map (with_command_trace command) (cr_events result)
              in on_events (emit_many env events) (fold (\<lambda>event. on_audit (push_entry env (event_entry now_ms event))) events k)
            else k
        | Inl _ \<Rightarrow> k)"

definition hash_payload :: "host_env \<Rightarrow> bytes \<Rightarrow> string" where
  "hash_payload env payload = bytes_to_hex (jc_sha (he_codec env) payload)"

definition audited_error ::
    "host_env \<Rightarrow> u64 \<Rightarrow> command_envelope \<Rightarrow> runtime_error \<Rightarrow> (('w, 's) controller, runtime_error, 'a) eff" where
  "audited_error env now_ms command e = ebind (emod (record_audit env now_ms command (Err e))) (\<lambda>_. efail e)"

definition replay_result :: "host_env \<Rightarrow> string \<Rightarrow> command_result runtime_result" where
  "replay_result env response_body =
     (if response_body = [] then Ok (result_accepted [])
      else ok_or (RE_IdempotencyStoreIo ''deserialize_replay'' json_text) (he_result_from_json env response_body))"

definition pre_dispatch ::
    "host_env \<Rightarrow> 's idempotency_ops \<Rightarrow> u64 \<Rightarrow> command_envelope
      \<Rightarrow> (('w, 's) controller, runtime_error, command_result runtime_result option) eff" where
  "pre_dispatch env ops now_ms command k =
     (case check_lifecycle_readiness k of
        Some rejection \<Rightarrow> (Ok (Some (Ok rejection)), record_audit env now_ms command (Ok rejection) k)
      | None \<Rightarrow> (case ce_idempotency_key command of
          None \<Rightarrow> (Ok None, k)
        | Some key \<Rightarrow>
            ebind (on_store (is_get ops now_ms key)) (\<lambda>found. case found of
                None \<Rightarrow> ebind (on_store (is_insert ops \<lparr> ir_key = key, ir_request_hash = hash_payload env (ce_payload command),
                    ir_status = IS_Pending, ir_created_at_ms = now_ms \<rparr>)) (\<lambda>_. eret None)
              | Some r \<Rightarrow>
                  if ir_request_hash r \<noteq> hash_payload env (ce_payload command)
                  then audited_error env now_ms command (RE_IdempotencyConflict key)
                  else (case ir_status r of
                      IS_Pending \<Rightarrow> audited_error env now_ms command (RE_IdempotencyPending key)
                    | IS_Resolved response_status response_body \<Rightarrow>
                        if 400 \<le> response_status then ebind (on_store (is_remove ops key)) (\<lambda>_. eret None)
                        else ebind (elift (\<lambda>_. replay_result env response_body)) (\<lambda>result.
                             ebind (emod (record_audit env now_ms command (Ok result))) (\<lambda>_.
                             eret (Some (Ok result)))))) k))"

definition post_dispatch ::
    "host_env \<Rightarrow> 's idempotency_ops \<Rightarrow> u64 \<Rightarrow> command_envelope \<Rightarrow> command_result runtime_result
      \<Rightarrow> (('w, 's) controller, runtime_error, unit) eff" where
  "post_dispatch env ops now_ms command dispatch_result =
     ebind (case ce_idempotency_key command of
         None \<Rightarrow> eret ()
       | Some key \<Rightarrow> (case dispatch_result of
           Inr result \<Rightarrow>
             ebind (elift (\<lambda>_. ok_or (RE_IdempotencyStoreIo ''serialize_response'' json_text) (he_result_to_json env result))) (\<lambda>response_body.
             on_store (is_insert ops \<lparr> ir_key = key, ir_request_hash = hash_payload env (ce_payload command),
               ir_status = IS_Resolved 200 response_body, ir_created_at_ms = now_ms \<rparr>))
         | Inl _ \<Rightarrow> on_store (is_remove ops key))) (\<lambda>_.
     emod (emit_events_and_audit env now_ms command dispatch_result))"

text \<open>The three parts in one call; the handler sees the world.\<close>

definition dispatch_command ::
    "host_env \<Rightarrow> 's idempotency_ops \<Rightarrow> u64 \<Rightarrow> command_envelope \<Rightarrow> runtime_context
      \<Rightarrow> (('w, 's) controller \<times> 'w, runtime_error, command_result) eff" where
  "dispatch_command env ops now_ms command context kw =
     (case kw of (k, w) \<Rightarrow> (case pre_dispatch env ops now_ms command k of
        (Inl e, k1) \<Rightarrow> (Err e, (k1, w))
      | (Inr (Some answer), k1) \<Rightarrow> (answer, (k1, w))
      | (Inr None, k1) \<Rightarrow> (case runtime_dispatch_command (rc_instance k1) command context w of
          (result, w1) \<Rightarrow> (case post_dispatch env ops now_ms command result k1 of
              (Inl e, k2) \<Rightarrow> (Err e, (k2, w1))
            | (Inr _, k2) \<Rightarrow> (result, (k2, w1))))))"

section \<open>Overlapping commands\<close>

text \<open>Commands that were admitted and whose outcome is not recorded yet are \<open>running\<close>; \<open>started\<close> and \<open>failed\<close> are the commands whose
  handler was started, and those of them that ended in an error.\<close>

inductive controller_run :: "host_env \<Rightarrow> 's idempotency_ops \<Rightarrow> ('w, 's) controller
    \<Rightarrow> command_envelope list \<Rightarrow> command_envelope list \<Rightarrow> command_envelope list \<Rightarrow> ('w, 's) controller \<Rightarrow> bool"
  for env ops k0 where
  begun: "controller_run env ops k0 [] [] [] k0"
| admitted: "controller_run env ops k0 running started failed k \<Longrightarrow> pre_dispatch env ops now command k = (Ok None, k') \<Longrightarrow>
    controller_run env ops k0 (command # running) (command # started) failed k'"
| answered: "controller_run env ops k0 running started failed k \<Longrightarrow> pre_dispatch env ops now command k = (x, k') \<Longrightarrow> x \<noteq> Ok None \<Longrightarrow>
    controller_run env ops k0 running started failed k'"
| finished: "controller_run env ops k0 running started failed k \<Longrightarrow> command \<in> set running \<Longrightarrow>
    post_dispatch env ops now command result k = (x, k') \<Longrightarrow>
    controller_run env ops k0 (remove1 command running) started (if is_ok result then failed else command # failed) k'"
| lifecycle: "controller_run env ops k0 running started failed k \<Longrightarrow> apply_lifecycle_event event k = (x, k') \<Longrightarrow>
    controller_run env ops k0 running started failed k'"

definition with_key :: "string \<Rightarrow> command_envelope list \<Rightarrow> command_envelope list" where
  "with_key key = filter (\<lambda>c. ce_idempotency_key c = Some key)"

definition replayable :: "idempotency_record option \<Rightarrow> bool" where
  "replayable r \<longleftrightarrow> (\<forall>x status body. r = Some x \<longrightarrow> ir_status x = IS_Resolved status body \<longrightarrow> status < 400)"

lemma with_key_simps [simp]:
  "with_key key [] = []" "ce_idempotency_key c = Some key \<Longrightarrow> with_key key (c # cs) = c # with_key key cs"
  "ce_idempotency_key c \<noteq> Some key \<Longrightarrow> with_key key (c # cs) = with_key key cs"
  by (simp_all add: with_key_def)

lemma with_key_remove1:
  "with_key key (remove1 c cs) = (if ce_idempotency_key c = Some key then remove1 c (with_key key cs) else with_key key cs)"
  by (induction cs) (auto simp: with_key_def)

lemma on_audit_store [simp]: "rc_idempotency (on_audit f k) = rc_idempotency k"
  by (simp add: on_audit_def split: prod.splits)

lemma on_events_store [simp]: "rc_idempotency (on_events f k) = rc_idempotency k"
  by (simp add: on_events_def split: prod.splits)

lemma record_audit_store [simp]: "rc_idempotency (record_audit env now c r k) = rc_idempotency k"
  by (simp add: record_audit_def)

lemma fold_on_audit_store [simp]: "rc_idempotency (fold (\<lambda>x. on_audit (f x)) xs k) = rc_idempotency k"
  by (induction xs arbitrary: k) simp_all

lemma emit_store [simp]: "rc_idempotency (emit_events_and_audit env now c r k) = rc_idempotency k"
  by (simp add: emit_events_and_audit_def Let_def split: sum.splits)

lemma lifecycle_store: "apply_lifecycle_event event k = (x, k') \<Longrightarrow> rc_idempotency k' = rc_idempotency k"
  by (auto simp: apply_lifecycle_event_def on_field_def split: prod.splits)

lemma on_store_eq: "on_store m k = (case m (rc_idempotency k) of (r, s) \<Rightarrow> (r, k\<lparr> rc_idempotency := s \<rparr>))"
  by (simp add: on_store_def on_field_def)

context idempotency_store
begin

lemma pre_dispatch_keyless:
  "ce_idempotency_key c = None \<Longrightarrow> pre_dispatch env ops now c k = (x, k') \<Longrightarrow> rc_idempotency k' = rc_idempotency k"
  by (auto simp: pre_dispatch_def split: option.splits)

lemma pre_dispatch_keyed:
  assumes "inv (rc_idempotency k)" "ce_idempotency_key c = Some key" "pre_dispatch env ops now c k = (x, k')"
    "replayable (view (rc_idempotency k) key)"
  obtains (kept) "x \<noteq> Ok None" "rc_idempotency k' = rc_idempotency k"
  | (refused) s e where "view (rc_idempotency k) key = None" "x = Err e" "rc_idempotency k' = s" "inv s" "view s = view (rc_idempotency k)"
  | (admitted) s r where "view (rc_idempotency k) key = None" "x = Ok None" "rc_idempotency k' = s" "inv s"
      "view s = (view (rc_idempotency k))(key \<mapsto> r)" "ir_status r = IS_Pending"
proof (cases "check_lifecycle_readiness k")
  case (Some rejection)
  with assms show thesis by (intro kept) (auto simp: pre_dispatch_def)
next
  case None
  let ?s = "rc_idempotency k"
  note d = assms(3) [unfolded pre_dispatch_def, simplified None assms(2) option.case on_store_eq ebind_eval get_view [OF assms(1)] prod.case sum.case]
  show thesis
  proof (cases "view ?s key")
    case None
    let ?r = "\<lparr> ir_key = key, ir_request_hash = hash_payload env (ce_payload c), ir_status = IS_Pending, ir_created_at_ms = now \<rparr>"
    obtain y s where y: "is_insert ops ?r ?s = (y, s)" by (cases "is_insert ops ?r ?s")
    have s: "inv s" "view s = (if y = Ok () then (view ?s)(key \<mapsto> ?r) else view ?s)"
      using insert_inv [OF assms(1) y] insert_view [OF assms(1) y] by simp_all
    show thesis
    proof (cases y)
      case (Inl e)
      with d None y s show thesis by (intro refused [of e s]) (auto simp: ebind_eval on_store_eq)
    next
      case (Inr u)
      with d None y s show thesis by (intro admitted [of s ?r]) (auto simp: ebind_eval on_store_eq)
    qed
  next
    case (Some r)
    with assms(4) have "ir_status r = IS_Resolved status body \<Longrightarrow> status < 400" for status body by (auto simp: replayable_def)
    then show thesis using d Some
      by (intro kept) (auto simp: audited_error_def ebind_eval linorder_not_le [symmetric] split: if_splits idempotency_status.splits sum.splits)
  qed
qed

lemma post_dispatch_keyless:
  "ce_idempotency_key c = None \<Longrightarrow> post_dispatch env ops now c r k = (x, k') \<Longrightarrow> rc_idempotency k' = rc_idempotency k"
  by (auto simp: post_dispatch_def ebind_eval)

lemma post_dispatch_keyed:
  assumes "inv (rc_idempotency k)" "ce_idempotency_key c = Some key" "post_dispatch env ops now c r k = (x, k')"
  shows "inv (rc_idempotency k')"
    "r = Err e \<Longrightarrow> view (rc_idempotency k') = (view (rc_idempotency k))(key := None)"
    "r = Ok result \<Longrightarrow> view (rc_idempotency k') = view (rc_idempotency k) \<and> x \<noteq> Ok () \<or>
      (\<exists>body created. he_result_to_json env result = Some body \<and> view (rc_idempotency k') = (view (rc_idempotency k))(key \<mapsto>
        \<lparr> ir_key = key, ir_request_hash = hash_payload env (ce_payload c), ir_status = IS_Resolved 200 body, ir_created_at_ms = created \<rparr>))"
proof -
  let ?s = "rc_idempotency k"
  have "inv (rc_idempotency k') \<and> (\<forall>e. r = Err e \<longrightarrow> view (rc_idempotency k') = (view ?s)(key := None)) \<and>
     (\<forall>result. r = Ok result \<longrightarrow> view (rc_idempotency k') = view ?s \<and> x \<noteq> Ok () \<or>
      (\<exists>body created. he_result_to_json env result = Some body \<and> view (rc_idempotency k') = (view ?s)(key \<mapsto>
        \<lparr> ir_key = key, ir_request_hash = hash_payload env (ce_payload c), ir_status = IS_Resolved 200 body, ir_created_at_ms = created \<rparr>)))"
  proof (cases r)
    case (Inl e)
    obtain y s where y: "is_remove ops key ?s = (y, s)" by (cases "is_remove ops key ?s")
    then have "rc_idempotency k' = s" using assms(2,3) Inl
      by (cases y) (auto simp: post_dispatch_def ebind_eval on_store_eq)
    then show ?thesis using remove_inv [OF assms(1) y] remove_view [OF assms(1) y] Inl by simp
  next
    case (Inr result)
    show ?thesis
    proof (cases "he_result_to_json env result")
      case None
      with assms Inr show ?thesis by (auto simp: post_dispatch_def ebind_eval)
    next
      case (Some body)
      let ?r = "\<lparr> ir_key = key, ir_request_hash = hash_payload env (ce_payload c), ir_status = IS_Resolved 200 body, ir_created_at_ms = now \<rparr>"
      obtain y s where y: "is_insert ops ?r ?s = (y, s)" by (cases "is_insert ops ?r ?s")
      have "rc_idempotency k' = s" "y \<noteq> Ok () \<longrightarrow> x \<noteq> Ok ()" using assms(2,3) Inr Some y
        by (cases y; auto simp: post_dispatch_def ebind_eval on_store_eq)+
      then show ?thesis using insert_inv [OF assms(1) y] insert_view [OF assms(1) y] Inr Some by (auto split: if_splits)
    qed
  qed
  then show "inv (rc_idempotency k')"
    "r = Err e \<Longrightarrow> view (rc_idempotency k') = (view ?s)(key := None)"
    "r = Ok result \<Longrightarrow> view (rc_idempotency k') = view ?s \<and> x \<noteq> Ok () \<or>
      (\<exists>body created. he_result_to_json env result = Some body \<and> view (rc_idempotency k') = (view ?s)(key \<mapsto>
        \<lparr> ir_key = key, ir_request_hash = hash_payload env (ce_payload c), ir_status = IS_Resolved 200 body, ir_created_at_ms = created \<rparr>))"
    by simp_all
qed

end

text \<open>What a run keeps for one key.\<close>

definition key_guard :: "string \<Rightarrow> idempotency_record option \<Rightarrow> command_envelope list \<Rightarrow> command_envelope list \<Rightarrow> command_envelope list \<Rightarrow> bool" where
  "key_guard key r running started failed \<longleftrightarrow>
     replayable r \<and> length (with_key key running) \<le> 1 \<and>
     (with_key key running \<noteq> [] \<longrightarrow> (\<exists>x. r = Some x \<and> ir_status x = IS_Pending)) \<and>
     length (with_key key started) \<le> length (with_key key failed) + (if r = None then 0 else 1)"

context idempotency_store
begin

lemma admitted_guard:
  assumes "inv (rc_idempotency k)" "\<And>key. key_guard key (view (rc_idempotency k) key) running started failed"
    "pre_dispatch env ops now c k = (x, k')"
  shows "inv (rc_idempotency k') \<and> (x = Ok None \<longrightarrow> key_guard key (view (rc_idempotency k') key) (c # running) (c # started) failed) \<and>
    (x \<noteq> Ok None \<longrightarrow> key_guard key (view (rc_idempotency k') key) running started failed)"
proof (cases "ce_idempotency_key c")
  case None
  then show ?thesis using pre_dispatch_keyless [OF None assms(3)] assms(1) assms(2) [of key] by (auto simp: key_guard_def split: if_splits)
next
  case (Some q)
  have "replayable (view (rc_idempotency k) q)" using assms(2) [of q] by (simp add: key_guard_def)
  from assms(1) Some assms(3) this show ?thesis
  proof (cases rule: pre_dispatch_keyed)
    case kept
    then show ?thesis using assms(1) assms(2) [of key] by simp
  next
    case (refused s e)
    then show ?thesis using assms(2) [of key] by simp
  next
    case (admitted s r)
    then show ?thesis using assms(2) [of key] Some
      by (cases "key = q") (auto simp: key_guard_def replayable_def)
  qed
qed

lemma finished_guard:
  assumes "inv (rc_idempotency k)" "\<And>key. key_guard key (view (rc_idempotency k) key) running started failed" "c \<in> set running"
    "post_dispatch env ops now c r k = (x, k')"
  shows "inv (rc_idempotency k') \<and>
    key_guard key (view (rc_idempotency k') key) (remove1 c running) started (if is_ok r then failed else c # failed)"
proof (cases "ce_idempotency_key c")
  case None
  then show ?thesis using post_dispatch_keyless [OF None assms(4)] assms(1) assms(2) [of key]
    by (auto simp: key_guard_def with_key_remove1 split: if_splits)
next
  case (Some q)
  note p = post_dispatch_keyed [OF assms(1) Some assms(4)]
  have c: "c \<in> set (with_key q running)" using assms(3) Some by (simp add: with_key_def)
  then obtain y where y: "view (rc_idempotency k) q = Some y" "ir_status y = IS_Pending" using assms(2) [of q]
    by (auto simp: key_guard_def)
  have "length (with_key q running) \<le> 1" using assms(2) [of q] by (simp add: key_guard_def)
  then have one: "with_key q running = [c]" using c by (cases "with_key q running") auto
  show ?thesis
  proof (cases "key = q")
    case False
    then have "view (rc_idempotency k') key = view (rc_idempotency k) key" using p(2,3) by (cases r) fastforce+
    then show ?thesis using p(1) assms(2) [of key] False Some by (auto simp: key_guard_def with_key_remove1 split: if_splits)
  next
    case True
    have rem: "with_key q (remove1 c running) = []" using one Some by (simp add: with_key_remove1)
    show ?thesis
    proof (cases r)
      case (Inl e)
      then show ?thesis using p(1,2) assms(2) [of q] True rem Some y by (auto simp: key_guard_def replayable_def)
    next
      case (Inr result)
      from p(3) [OF this] show ?thesis using p(1) assms(2) [of q] True rem y Inr
        by (auto simp: key_guard_def replayable_def)
    qed
  qed
qed

lemma controller_run_guard:
  assumes "controller_run env ops k0 running started failed k" "inv (rc_idempotency k0)"
    "\<And>key. replayable (view (rc_idempotency k0) key)"
  shows "inv (rc_idempotency k) \<and> (\<forall>key. key_guard key (view (rc_idempotency k) key) running started failed)"
  using assms(1)
proof induction
  case begun
  then show ?case using assms(2,3) by (simp add: key_guard_def)
next
  case (admitted running started failed k now command k')
  then show ?case using admitted_guard [of k running started failed env now command "Ok None" k'] by blast
next
  case (answered running started failed k now command x k')
  then show ?case using admitted_guard [of k running started failed env now command x k'] by blast
next
  case (finished running started failed k command now result x k')
  then show ?case using finished_guard [of k running started failed command env now result x k'] by blast
next
  case (lifecycle running started failed k event x k')
  then show ?case using lifecycle_store [OF lifecycle.hyps(2)] by simp
qed

text \<open>A resolved record stays, and no command with its key starts.\<close>

lemma resolved_stays:
  assumes "controller_run env ops k0 running started failed k" "inv (rc_idempotency k0)"
    "\<And>key. replayable (view (rc_idempotency k0) key)"
    "view (rc_idempotency k0) key = Some r" "ir_status r \<noteq> IS_Pending"
  shows "view (rc_idempotency k) key = Some r \<and> with_key key running = [] \<and> with_key key started = []"
  using assms(1)
proof induction
  case begun
  then show ?case using assms(4) by simp
next
  case (admitted running started failed k now command k')
  note g = controller_run_guard [OF admitted.hyps(1) assms(2,3)]
  show ?case
  proof (cases "ce_idempotency_key command")
    case None
    then show ?thesis using pre_dispatch_keyless [OF None admitted.hyps(2)] admitted.IH by simp
  next
    case (Some q)
    have "replayable (view (rc_idempotency k) q)" using g by (simp add: key_guard_def)
    from g [THEN conjunct1] Some admitted.hyps(2) this show ?thesis
      by (cases rule: pre_dispatch_keyed) (use admitted.IH Some in auto)
  qed
next
  case (answered running started failed k now command x k')
  note g = controller_run_guard [OF answered.hyps(1) assms(2,3)]
  show ?case
  proof (cases "ce_idempotency_key command")
    case None
    then show ?thesis using pre_dispatch_keyless [OF None answered.hyps(2)] answered.IH by simp
  next
    case (Some q)
    have "replayable (view (rc_idempotency k) q)" using g by (simp add: key_guard_def)
    from g [THEN conjunct1] Some answered.hyps(2) this show ?thesis
      by (cases rule: pre_dispatch_keyed) (use answered.IH answered.hyps(3) in auto)
  qed
next
  case (finished running started failed k command now result x k')
  note g = controller_run_guard [OF finished.hyps(1) assms(2,3), THEN conjunct1]
  have other: "ce_idempotency_key command \<noteq> Some key" using finished.hyps(2) finished.IH by (auto simp: with_key_def filter_empty_conv)
  then have "view (rc_idempotency k') key = view (rc_idempotency k) key"
  proof (cases "ce_idempotency_key command")
    case None
    then show ?thesis using post_dispatch_keyless [OF None finished.hyps(3)] by simp
  next
    case (Some q)
    with other post_dispatch_keyed(2,3) [OF g Some finished.hyps(3)] show ?thesis by (cases result) fastforce+
  qed
  then show ?case using finished.IH other by (simp add: with_key_remove1)
next
  case (lifecycle running started failed k event x k')
  then show ?case using lifecycle_store [OF lifecycle.hyps(2)] by simp
qed

lemma replays:
  assumes "inv (rc_idempotency k)" "ce_idempotency_key c = Some key" "check_lifecycle_readiness k = None"
    "view (rc_idempotency k) key = Some r" "ir_request_hash r = hash_payload env (ce_payload c)"
    "ir_status r = IS_Resolved 200 body" "body \<noteq> []" "he_result_from_json env body = Some result"
  shows "pre_dispatch env ops now c k = (Ok (Some (Ok result)), record_audit env now c (Ok result) k)"
  using assms by (simp add: pre_dispatch_def on_store_eq ebind_eval get_view replay_result_def)

end

section \<open>Properties\<close>

lemma redact_text_returns: "redact_text v = Some (redacted v)"
proof -
  obtain clean where "redact_markers redaction_markers (take (floor_char_boundary v (min (max MAX_OPERATIONAL_TEXT_BYTES (length TRUNCATED) + 1024) (length v))) v) = Some clean"
    using redact_markers_returns [of redaction_markers "[]"] redaction_markers_ok by force
  then have "\<exists>out. redact_text v = Some out" by (auto simp: redact_text_def redact_text_with_limit_def Let_def)
  then show ?thesis by (auto simp: redacted_def)
qed

text \<open>The engine's nodes are in the catalogue of decisions, whatever a plugin registers.\<close>

lemma sync_names:
  "eforeach names (\<lambda>name. on_field rb_decision_registry rb_decision_registry_update
     (\<lambda>registry. if name \<in> set registry then (Ok (), registry) else register_decision_name name registry)) b = (Ok (), b') \<Longrightarrow>
   set names \<subseteq> set (rb_decision_registry b') \<and> set (rb_decision_registry b) \<subseteq> set (rb_decision_registry b') \<and>
   rb_decision_engine b' = rb_decision_engine b"
proof (induction names arbitrary: b)
  case (Cons name names)
  then obtain b1 where b1: "on_field rb_decision_registry rb_decision_registry_update
      (\<lambda>registry. if name \<in> set registry then (Ok (), registry) else register_decision_name name registry) b = (Ok (), b1)"
    and rest: "eforeach names (\<lambda>name. on_field rb_decision_registry rb_decision_registry_update
     (\<lambda>registry. if name \<in> set registry then (Ok (), registry) else register_decision_name name registry)) b1 = (Ok (), b')"
    by (auto simp: ebind_Ok_iff)
  have "set (rb_decision_registry b1) = insert name (set (rb_decision_registry b)) \<and> rb_decision_engine b1 = rb_decision_engine b"
    using b1 by (auto simp: on_field_def register_decision_name_def registry_register_def split: if_splits)
  with Cons.IH [OF rest] show ?case by auto
qed simp

lemma plugin_decisions_listed:
  assumes "with_additional_plugin plugin b = (Ok (), b')"
  shows "set (de_node_names (rb_decision_engine b')) \<subseteq> set (rb_decision_registry b')"
proof -
  obtain b1 b2 where "sync_decision_registry_with_engine b1 = (Ok (), b2)" "on_field rb_command_bus rb_command_bus_update (ap_register_handlers plugin) b2 = (Ok (), b')"
    using assms by (auto simp: with_additional_plugin_def ebind_Ok_iff)
  then show ?thesis using sync_names [of "de_node_names (rb_decision_engine b1)" b1 b2]
    by (auto simp: sync_decision_registry_with_engine_def on_field_def split: prod.splits)
qed

text \<open>The retained records never exceed their bounds.\<close>

lemma push_bounded_length: "0 < n \<Longrightarrow> length (push_bounded n x xs) \<le> max n (length xs) \<and> length (push_bounded n x xs) \<le> n"
  by (auto simp: push_bounded_def)

lemma emit_many_bounded: "length (eb_events (fst (emit_many env events b_js))) \<le> 10000"
  by (cases "fold (persist_event env) events b_js") (simp add: emit_many_def Let_def; arith)

text \<open>A whole dispatch is a part of a run.\<close>

lemma dispatch_in_run:
  assumes "controller_run env ops k0 running started failed k" "dispatch_command env ops now command context (k, w) = (x, k', w')"
  shows "\<exists>started' failed'. controller_run env ops k0 running started' failed' k'"
proof -
  obtain y k1 where y: "pre_dispatch env ops now command k = (y, k1)" by (cases "pre_dispatch env ops now command k")
  show ?thesis
  proof (cases "y = Ok None")
    case False
    then have "k' = k1" using assms(2) y by (auto simp: dispatch_command_def split: sum.splits option.splits prod.splits)
    then show ?thesis using controller_run.answered [OF assms(1) y False] by blast
  next
    case True
    obtain r w1 where r: "runtime_dispatch_command (rc_instance k1) command context w = (r, w1)"
      by (cases "runtime_dispatch_command (rc_instance k1) command context w")
    obtain z k2 where z: "post_dispatch env ops now command r k1 = (z, k2)" by (cases "post_dispatch env ops now command r k1")
    have "k' = k2" using assms(2) y True r z by (auto simp: dispatch_command_def split: sum.splits)
    moreover have "controller_run env ops k0 (command # running) (command # started) failed k1"
      using controller_run.admitted [OF assms(1)] y True by simp
    from controller_run.finished [OF this _ z] have "\<exists>failed'. controller_run env ops k0 running (command # started) failed' k2" by auto
    ultimately show ?thesis by blast
  qed
qed

text \<open>C24. With a store that keeps its records for good, one opened without a time to live, a command with an idempotency key is
  never run twice. However commands, outcomes, lifecycle changes and failures of the store interleave, at most one command with the
  key runs at a time; every start of its handler but one is matched by a run that ended in an error; and a key whose
  outcome was recorded before is never run again. The records the store starts with are ones that the controller replays: a
  resolved one has a status below 400, the only ones the controller writes. With a time to live the guarantee ends when a record
  expires (\<open>expired_key_admitted\<close>).\<close>

theorem keyed_command_runs_once:
  fixes to_json :: "idempotency_record json_writer" and k0 :: "('w, file_idempotency) controller"
  assumes "controller_run env (file_idempotency_ops to_json) k0 running started failed k"
    "file_store_ok (rc_idempotency k0)" "\<forall>key. replayable (map_of (fi_seen (rc_idempotency k0)) key)"
  shows "length (with_key key running) \<le> 1 \<and> length (with_key key started) \<le> length (with_key key failed) + 1 \<and>
    ((\<exists>r. map_of (fi_seen (rc_idempotency k0)) key = Some r \<and> is_resolved r) \<longrightarrow> with_key key started = [])"
proof -
  have "key_guard key (map_of (fi_seen (rc_idempotency k)) key) running started failed"
    using file_store.controller_run_guard [OF assms(1,2)] assms(3) by blast
  then have "length (with_key key running) \<le> 1" "length (with_key key started) \<le> length (with_key key failed) + 1"
    by (auto simp: key_guard_def split: if_splits)
  moreover have "with_key key started = []" if "map_of (fi_seen (rc_idempotency k0)) key = Some r" "is_resolved r" for r
    using file_store.resolved_stays [OF assms(1,2) _ that(1)] assms(3) that(2) by (auto simp: is_resolved_def)
  ultimately show ?thesis by blast
qed

text \<open>C25. Once the outcome of a command is recorded in a store that keeps its records for good, one opened without a time to live,
  every later command with its key and payload is answered with the recorded result and its handler does not run, whatever
  happened in between. The result has a text that the JSON functions read back, the host is ready when the later command comes,
  and the store starts with records that are replayed, as above. As the code is, the name of the command takes no
  part in it: another command that reuses key and payload gets the first one's result.\<close>

theorem recorded_outcome_replayed:
  fixes to_json :: "idempotency_record json_writer" and k :: "('w, file_idempotency) controller"
  assumes "file_store_ok (rc_idempotency k)" "\<forall>key. replayable (map_of (fi_seen (rc_idempotency k)) key)"
    "ce_idempotency_key c = Some key" "post_dispatch env (file_idempotency_ops to_json) now c (Ok result) k = (Ok (), k1)"
    "he_result_to_json env result = Some body" "body \<noteq> []" "he_result_from_json env body = Some result"
    "controller_run env (file_idempotency_ops to_json) k1 running started failed k2"
    "ce_idempotency_key c' = Some key" "ce_payload c' = ce_payload c" "check_lifecycle_readiness k2 = None"
  shows "with_key key started = [] \<and>
    pre_dispatch env (file_idempotency_ops to_json) now' c' k2 = (Ok (Some (Ok result)), record_audit env now' c' (Ok result) k2)"
proof -
  let ?view = "\<lambda>k. map_of (fi_seen (rc_idempotency k))"
  note post = file_store.post_dispatch_keyed [OF assms(1,3,4)]
  obtain created where v: "?view k1 = (?view k)(key \<mapsto> \<lparr> ir_key = key, ir_request_hash = hash_payload env (ce_payload c),
      ir_status = IS_Resolved 200 body, ir_created_at_ms = created \<rparr>)" (is "_ = (?view k)(key \<mapsto> ?r)")
    using post(3) assms(5) by auto
  have "replayable (?view k1 q)" for q using assms(2) v by (auto simp: replayable_def)
  then have s: "?view k2 key = Some ?r" "with_key key started = []" "file_store_ok (rc_idempotency k2)"
    using file_store.resolved_stays [OF assms(8) post(1), of key ?r] file_store.controller_run_guard [OF assms(8) post(1)] v by simp_all
  have "pre_dispatch env (file_idempotency_ops to_json) now' c' k2 = (Ok (Some (Ok result)), record_audit env now' c' (Ok result) k2)"
    by (rule file_store.replays [OF s(3) assms(9,11) s(1) _ _ assms(6,7)]) (simp_all add: assms(10))
  with s(2) show ?thesis by simp
qed

text \<open>As it is: in a store with a time to live an expired record does not count, pending or resolved, so a second command with its
  key is admitted, also while the first one still runs.\<close>

lemma expired_key_admitted:
  assumes "check_lifecycle_readiness k = None" "ce_idempotency_key c = Some key" "map_of (fi_seen (rc_idempotency k)) key = Some r"
    "is_expired (ir_created_at_ms r) (fi_ttl_ms (rc_idempotency k)) now"
    "file_idempotency_insert to_json \<lparr> ir_key = key, ir_request_hash = hash_payload env (ce_payload c), ir_status = IS_Pending,
       ir_created_at_ms = now \<rparr> (rc_idempotency k) = (Ok (), s)"
  shows "pre_dispatch env (file_idempotency_ops to_json) now c k = (Ok None, k\<lparr> rc_idempotency := s \<rparr>)"
  using assms by (simp add: pre_dispatch_def on_store_eq ebind_eval file_idempotency_ops_def file_idempotency_get_def)

text \<open>A concrete host.\<close>

definition sample_env :: host_env where
  "sample_env = \<lparr> he_codec = sample_codec, he_debug = (\<lambda>_. ''error''), he_result_to_json = (\<lambda>_. Some ''{}''),
     he_result_from_json = (\<lambda>_. Some (result_accepted [])) \<rparr>"

definition sample_store :: file_idempotency where
  "sample_store = \<lparr> fi_fs = \<lparr> fs_nodes = [[''store''] \<mapsto> FileNode []], fs_faults = [], fs_temp_counter = 0, fs_pid = 1 \<rparr>,
     fi_path = [''store''], fi_ttl_ms = None, fi_seen = [] \<rparr>"

definition sample_keyed_command :: "string \<Rightarrow> command_envelope" where
  "sample_keyed_command name = \<lparr> ce_command_name = name, ce_command_id = ''1'', ce_app_id = ''a'', ce_node_id = ''n'', ce_issued_at_ms = 1,
     ce_idempotency_key = Some ''k'', ce_payload = [], ce_trace = None \<rparr>"

definition sample_host :: "(unit, file_idempotency) controller" where
  "sample_host = controller_new \<lparr> rt_application_manifest = projr (application_manifest_new ''app'' ''1.0.0'' ''App'' ''vendor'' ''service''
       \<lparr> rq_minimum_runtime_version = ''1.0.0'', rq_maximum_runtime_version = None, rq_protocol_version = ''1'', rq_required_features = [] \<rparr>),
     rt_identity = \<lparr> ri_app_id = ''a'', ri_app_family = ''f'', ri_sync_group = ''g'', ri_runtime_contract = 1, ri_node_id = ''n'' \<rparr>, rt_command_registry = [],
     rt_event_registry = [], rt_state_registry = [], rt_decision_registry = [],
     rt_decision_engine = \<lparr> de_nodes = [], de_node_names = [] \<rparr>, rt_command_bus = Map.empty, rt_event_bus = event_bus_new,
     rt_audit_log = audit_log_new, rt_lifecycle = lifecycle_new\<lparr> sm_current := ''Running'' \<rparr> \<rparr> sample_store"

lemma sample_insert:
  assumes "ir_key r = ''k''"
  shows "\<exists>s. file_idempotency_insert (\<lambda>_. Some ''{}'') r sample_store = (Ok (), sample_store\<lparr> fi_fs := s, fi_seen := [(''k'', r)] \<rparr>)"
proof -
  have "validate_key ''k'' = Ok ()" by code_simp
  then show ?thesis
    using assms by (simp add: file_idempotency_insert_def append_entry_def fs_open_append_def fs_open_read_def json_line_def sys_call_healthy
        ebind_eval as_err_def fs_append_healthy fs_sync_def on_store_fs_def sample_store_def)
qed

lemma readiness_audit [simp]: "check_lifecycle_readiness (on_audit f k) = check_lifecycle_readiness k"
  by (simp add: check_lifecycle_readiness_def on_audit_def split: prod.splits)

lemma readiness_events [simp]: "check_lifecycle_readiness (on_events f k) = check_lifecycle_readiness k"
  by (simp add: check_lifecycle_readiness_def on_events_def split: prod.splits)

lemma readiness_emit [simp]: "check_lifecycle_readiness (emit_events_and_audit env now c r k) = check_lifecycle_readiness k"
proof -
  have "check_lifecycle_readiness (fold (\<lambda>x. on_audit (f x)) xs k) = check_lifecycle_readiness k" for f and xs :: "event_envelope list"
    by (induction xs arbitrary: k) simp_all
  then show ?thesis by (simp add: emit_events_and_audit_def record_audit_def Let_def split: sum.splits)
qed

lemma sample_host_simps:
  "rc_idempotency sample_host = sample_store" "check_lifecycle_readiness (sample_host\<lparr> rc_idempotency := s \<rparr>) = None"
  "check_lifecycle_readiness sample_host = None" "file_store_ok sample_store" "map_of (fi_seen sample_store) key = None"
  by (simp_all add: sample_host_def controller_new_def check_lifecycle_readiness_def lifecycle_current_def from_state_name_def
      file_store_ok_def sample_store_def)

lemma keyed_command_runs_once_witness:
  "\<exists>k. controller_run sample_env (file_idempotency_ops (\<lambda>_. Some ''{}'')) sample_host
      [sample_keyed_command ''c''] [sample_keyed_command ''c''] [] k \<and> length (with_key ''k'' [sample_keyed_command ''c'']) \<le> 1"
proof -
  let ?ops = "file_idempotency_ops (\<lambda>_. Some ''{}'')" let ?c = "sample_keyed_command ''c''"
  let ?r = "\<lparr> ir_key = ''k'', ir_request_hash = hash_payload sample_env [], ir_status = IS_Pending, ir_created_at_ms = 1 \<rparr>"
  obtain s where "file_idempotency_insert (\<lambda>_. Some ''{}'') ?r sample_store = (Ok (), sample_store\<lparr> fi_fs := s, fi_seen := [(''k'', ?r)] \<rparr>)"
    using sample_insert [of ?r] by auto
  then have "\<exists>k. pre_dispatch sample_env ?ops 1 ?c sample_host = (Ok None, k)"
    using file_store.get_view [OF sample_host_simps(4), of "\<lambda>_. Some ''{}''" 1 "''k''"] sample_host_simps(5) [of "''k''"]
    by (simp add: pre_dispatch_def sample_host_simps(1,3) sample_keyed_command_def on_store_eq ebind_eval)
      (simp add: file_idempotency_ops_def)
  then obtain k where "pre_dispatch sample_env ?ops 1 ?c sample_host = (Ok None, k)" by blast
  then have run: "controller_run sample_env ?ops sample_host [?c] [?c] [] k" by (rule controller_run.admitted [OF controller_run.begun])
  from keyed_command_runs_once [OF this, of "''k''"] have "length (with_key ''k'' [?c]) \<le> 1"
    by (simp add: sample_host_simps replayable_def)
  with run show ?thesis by blast
qed

lemma recorded_outcome_replayed_witness:
  "\<exists>k1 k3. post_dispatch sample_env (file_idempotency_ops (\<lambda>_. Some ''{}'')) 1 (sample_keyed_command ''c'') (Ok (result_accepted [])) sample_host = (Ok (), k1) \<and>
     pre_dispatch sample_env (file_idempotency_ops (\<lambda>_. Some ''{}'')) 2 (sample_keyed_command ''other'') k1 = (Ok (Some (Ok (result_accepted []))), k3)"
proof -
  let ?ops = "file_idempotency_ops (\<lambda>_. Some ''{}'')" let ?c = "sample_keyed_command ''c''"
  let ?r = "\<lparr> ir_key = ''k'', ir_request_hash = hash_payload sample_env [], ir_status = IS_Resolved 200 ''{}'', ir_created_at_ms = 1 \<rparr>"
  obtain s where s: "file_idempotency_insert (\<lambda>_. Some ''{}'') ?r sample_store = (Ok (), sample_store\<lparr> fi_fs := s, fi_seen := [(''k'', ?r)] \<rparr>)"
    using sample_insert [of ?r] by auto
  define k1 where "k1 = emit_events_and_audit sample_env 1 ?c (Ok (result_accepted []))
      (sample_host\<lparr> rc_idempotency := sample_store\<lparr> fi_fs := s, fi_seen := [(''k'', ?r)] \<rparr> \<rparr>)"
  have json: "he_result_to_json sample_env x = Some ''{}''" "he_result_from_json sample_env ''{}'' = Some (result_accepted [])" for x
    by (simp_all add: sample_env_def)
  have c: "ce_idempotency_key (sample_keyed_command name) = Some ''k''" "ce_payload (sample_keyed_command name) = []" for name
    by (simp_all add: sample_keyed_command_def)
  have post: "post_dispatch sample_env ?ops 1 ?c (Ok (result_accepted [])) sample_host = (Ok (), k1)"
    using s by (simp add: post_dispatch_def c json on_store_eq ebind_eval sample_host_simps(1) k1_def) (simp add: file_idempotency_ops_def)
  have ready: "check_lifecycle_readiness k1 = None" by (simp add: k1_def sample_host_simps(2))
  from recorded_outcome_replayed [OF _ _ c(1) post json(1) _ json(2) controller_run.begun c(1) _ ready, of "''other''" 2]
  have "pre_dispatch sample_env ?ops 2 (sample_keyed_command ''other'') k1 =
      (Ok (Some (Ok (result_accepted []))), record_audit sample_env 2 (sample_keyed_command ''other'') (Ok (result_accepted [])) k1)"
    by (simp add: sample_host_simps replayable_def c(2))
  with post show ?thesis by blast
qed

end
