(* ===== verification/Update_Artifact.thy ===== *)
theory Update_Artifact
  imports Text_Format File_System Identifiers
begin

text \<open>
  Artifacts of \<open>appcore-update\<close>: errors (\<open>error.rs\<close>), descriptors (\<open>artifact.rs\<close>), their authenticity (\<open>authenticity.rs\<close>), the
  bounded file read (\<open>filesystem.rs\<close>), checksums (\<open>integrity.rs\<close>) and the provider over a JSON index (\<open>provider.rs\<close>). The crates \<open>semver\<close>,
  \<open>ed25519_dalek\<close>, \<open>sha2\<close> and \<open>serde_json\<close> are parameters. The verifier of unsigned artifacts, a development feature that is off by
  default, is left out, and so are the causes and versions that error texts quote. The lemmas show what a descriptor's signature covers and which candidate a provider picks.
\<close>

section \<open>Errors and descriptors\<close>

datatype update_fault_point = FP_AfterSelection | FP_AfterVerification | FP_AfterStaging | FP_AfterActivation | FP_BeforeCommit

datatype update_error =
  UE_InvalidArtifact string | UE_Incompatible string | UE_Provider string | UE_ArtifactTooLarge nat | UE_ChecksumMismatch
  | UE_Authenticity string | UE_Store string | UE_Health string | UE_InjectedFault update_fault_point
  | UE_RollbackFailed update_error update_error

type_synonym 'a update_result = "update_error + 'a"

record artifact =
  af_application_id :: string
  af_application_version :: string
  af_build_id :: string
  af_channel :: string
  af_runtime_requirement :: string
  af_protocol_version :: string
  af_artifact_reference :: string
  af_sha256 :: string
  af_size_bytes :: u64
  af_signing_key_id :: "string option"
  af_ed25519_signature :: "string option"

record 'v semver =
  sv_version :: "string \<Rightarrow> 'v option"
  sv_requirement :: "string \<Rightarrow> ('v \<Rightarrow> bool) option"

definition bad_text :: "string \<Rightarrow> nat \<Rightarrow> bool" where
  "bad_text v max_len \<longleftrightarrow> rust_trim v = [] \<or> max_len < length v \<or> has_control v"

definition check_text :: "string \<Rightarrow> string \<Rightarrow> nat \<Rightarrow> unit update_result" where
  "check_text name v max_len =
     (if bad_text v max_len then Err (UE_InvalidArtifact (name @ '' is empty, too long or contains control characters'')) else Ok ())"

definition lower_hex :: "nat \<Rightarrow> string \<Rightarrow> bool" where
  "lower_hex n v \<longleftrightarrow> length v = n \<and> list_all hex_char v"

definition validate_signature_fields :: "artifact \<Rightarrow> unit update_result" where
  "validate_signature_fields a =
     (case (af_signing_key_id a, af_ed25519_signature a) of
        (None, None) \<Rightarrow> Ok ()
      | (Some key_id, Some signature) \<Rightarrow>
          if bad_text key_id 128 then Err (UE_InvalidArtifact ''signing_key_id is empty, too long or contains control characters'')
          else if \<not> lower_hex 128 signature then Err (UE_InvalidArtifact ''ed25519_signature must be 128 lowercase hexadecimal characters'')
          else Ok ()
      | _ \<Rightarrow> Err (UE_InvalidArtifact ''signing_key_id and ed25519_signature must be provided together''))"

definition artifact_validate :: "'v semver \<Rightarrow> artifact \<Rightarrow> unit update_result" where
  "artifact_validate sv a =
     rbind (check_text ''application_version'' (af_application_version a) 64) (\<lambda>_.
     rbind (check_text ''channel'' (af_channel a) 64) (\<lambda>_.
     rbind (check_text ''runtime_requirement'' (af_runtime_requirement a) 128) (\<lambda>_.
     rbind (check_text ''protocol_version'' (af_protocol_version a) 64) (\<lambda>_.
     rbind (check_text ''artifact_reference'' (af_artifact_reference a) 2048) (\<lambda>_.
     rbind (ok_or (UE_InvalidArtifact ''invalid application version'') (sv_version sv (af_application_version a))) (\<lambda>_.
     rbind (ok_or (UE_InvalidArtifact ''invalid runtime requirement'') (sv_requirement sv (af_runtime_requirement a))) (\<lambda>_.
     if af_size_bytes a = 0 then Err (UE_InvalidArtifact ''size_bytes must be greater than zero'')
     else if \<not> lower_hex 64 (af_sha256 a) then Err (UE_InvalidArtifact ''sha256 must be 64 lowercase hexadecimal characters'')
     else validate_signature_fields a)))))))"

definition artifact_new ::
    "'v semver \<Rightarrow> string \<Rightarrow> string \<Rightarrow> string \<Rightarrow> string \<Rightarrow> string \<Rightarrow> string \<Rightarrow> string \<Rightarrow> string \<Rightarrow> u64 \<Rightarrow> artifact update_result" where
  "artifact_new sv application_id application_version build_id channel runtime_requirement protocol_version artifact_reference sha256 size_bytes =
     (let a = \<lparr> af_application_id = application_id, af_application_version = application_version, af_build_id = build_id, af_channel = channel,
        af_runtime_requirement = runtime_requirement, af_protocol_version = protocol_version, af_artifact_reference = artifact_reference,
        af_sha256 = sha256, af_size_bytes = size_bytes, af_signing_key_id = None, af_ed25519_signature = None \<rparr>
      in rbind (artifact_validate sv a) (\<lambda>_. Ok a))"

definition with_ed25519_signature :: "'v semver \<Rightarrow> string \<Rightarrow> string \<Rightarrow> artifact \<Rightarrow> artifact update_result" where
  "with_ed25519_signature sv signing_key_id signature a =
     (let a = a\<lparr> af_signing_key_id := Some signing_key_id, af_ed25519_signature := Some signature \<rparr>
      in rbind (artifact_validate sv a) (\<lambda>_. Ok a))"

definition artifact_ensure_compatible :: "'v semver \<Rightarrow> string \<Rightarrow> string \<Rightarrow> artifact \<Rightarrow> unit update_result" where
  "artifact_ensure_compatible sv runtime_version protocol_version a =
     rbind (ok_or (UE_Incompatible ''invalid runtime version'') (sv_version sv runtime_version)) (\<lambda>runtime.
     rbind (ok_or (UE_InvalidArtifact ''invalid runtime requirement'') (sv_requirement sv (af_runtime_requirement a))) (\<lambda>requirement.
     if \<not> requirement runtime then Err (UE_Incompatible (''runtime does not satisfy '' @ af_runtime_requirement a))
     else if af_protocol_version a \<noteq> protocol_version
     then Err (UE_Incompatible (''protocol '' @ af_protocol_version a @ '' is required, host provides '' @ protocol_version))
     else Ok ()))"

section \<open>Authenticity\<close>

text \<open>\<open>u8::from_str_radix\<close> takes a sign: \<open>+\<close> and one digit are a byte, too.\<close>

definition hex_pair :: "char \<Rightarrow> char \<Rightarrow> u8 option" where
  "hex_pair h l = (if h = CHR ''+'' then from_hex_char l
     else (case (from_hex_char h, from_hex_char l) of (Some a, Some b) \<Rightarrow> Some (a * 16 + b) | _ \<Rightarrow> None))"

fun decode_pairs :: "string \<Rightarrow> bytes option" where
  "decode_pairs (h # l # cs) = (case (hex_pair h l, decode_pairs cs) of (Some b, Some bs) \<Rightarrow> Some (b # bs) | _ \<Rightarrow> None)"
| "decode_pairs _ = Some []"

definition decode_hex :: "nat \<Rightarrow> string \<Rightarrow> bytes update_result" where
  "decode_hex n v =
     (if length v \<noteq> n * 2 then Err (UE_Authenticity ''signature has an invalid length'')
      else ok_or (UE_Authenticity ''signature is not hexadecimal'') (decode_pairs v))"

definition signing_field :: "string \<Rightarrow> string \<Rightarrow> bytes" where
  "signing_field name v = text_bytes name @ text_bytes [CHR ''=''] @ text_bytes v @ text_bytes [newline]"

definition artifact_signing_payload :: "artifact \<Rightarrow> bytes" where
  "artifact_signing_payload a = concat (map (\<lambda>(name, v). signing_field name v)
     [(''application_id'', af_application_id a), (''application_version'', af_application_version a), (''build_id'', af_build_id a),
      (''channel'', af_channel a), (''runtime_requirement'', af_runtime_requirement a), (''protocol_version'', af_protocol_version a),
      (''artifact_reference'', af_artifact_reference a), (''sha256'', af_sha256 a), (''size_bytes'', u64_string (af_size_bytes a))])"

datatype signing_key_status = SK_Active | SK_Deprecated | SK_Revoked

record trusted_signing_key =
  tk_key :: bytes
  tk_status :: signing_key_status

type_synonym ed25519_verifier = "(string, trusted_signing_key) omap"

record ed25519 =
  ed_valid_key :: "bytes \<Rightarrow> bool"
  ed_verify :: "bytes \<Rightarrow> bytes \<Rightarrow> bytes \<Rightarrow> bool"

definition validate_key_id :: "string \<Rightarrow> unit update_result" where
  "validate_key_id key_id = (if bad_text key_id 128 then Err (UE_Authenticity ''trust root key identity is invalid'') else Ok ())"

definition add_trust_root :: "ed25519 \<Rightarrow> string \<Rightarrow> bytes \<Rightarrow> (ed25519_verifier, update_error, unit) eff" where
  "add_trust_root ed key_id public_key =
     ebind (elift (\<lambda>_. validate_key_id key_id)) (\<lambda>_.
     if \<not> ed_valid_key ed public_key then efail (UE_Authenticity ''invalid public key'')
     else emod (om_put key_id \<lparr> tk_key = public_key, tk_status = SK_Active \<rparr>))"

definition add_trust_root_hex :: "ed25519 \<Rightarrow> string \<Rightarrow> string \<Rightarrow> (ed25519_verifier, update_error, unit) eff" where
  "add_trust_root_hex ed key_id public_key = ebind (elift (\<lambda>_. decode_hex 32 public_key)) (add_trust_root ed key_id)"

definition set_trust_root_status :: "string \<Rightarrow> signing_key_status \<Rightarrow> (ed25519_verifier, update_error, unit) eff" where
  "set_trust_root_status key_id status v = (case map_of v key_id of
     None \<Rightarrow> (Err (UE_Authenticity (''signing key `'' @ key_id @ ''` is not configured'')), v)
   | Some key \<Rightarrow> (Ok (), om_put key_id (key\<lparr> tk_status := status \<rparr>) v))"

definition ed25519_artifact_verify :: "ed25519 \<Rightarrow> ed25519_verifier \<Rightarrow> artifact \<Rightarrow> unit update_result" where
  "ed25519_artifact_verify ed v a =
     rbind (ok_or (UE_Authenticity ''signed artifact metadata is required'') (af_signing_key_id a)) (\<lambda>key_id.
     rbind (ok_or (UE_Authenticity ''signed artifact metadata is required'') (af_ed25519_signature a)) (\<lambda>signature.
     rbind (ok_or (UE_Authenticity (''signing key `'' @ key_id @ ''` is not trusted'')) (map_of v key_id)) (\<lambda>trusted_key.
     if tk_status trusted_key = SK_Revoked then Err (UE_Authenticity (''signing key `'' @ key_id @ ''` is revoked''))
     else rbind (decode_hex 64 signature) (\<lambda>signature_bytes.
       if ed_verify ed (tk_key trusted_key) (artifact_signing_payload a) signature_bytes then Ok ()
       else Err (UE_Authenticity ''signature is invalid'')))))"

record artifact_trust_policy =
  tp_allowed_channels :: "string list"
  tp_allowed_origins :: "string list"

definition artifact_trust_policy_new :: artifact_trust_policy where
  "artifact_trust_policy_new = \<lparr> tp_allowed_channels = [], tp_allowed_origins = [] \<rparr>"

definition validate_policy_value :: "string \<Rightarrow> string \<Rightarrow> unit update_result" where
  "validate_policy_value name v =
     (if bad_text v 2048 then Err (UE_Authenticity (''artifact policy '' @ name @ '' is invalid'')) else Ok ())"

definition artifact_origin :: "string \<Rightarrow> string update_result" where
  "artifact_origin reference =
     rbind (ok_or (UE_Authenticity ''artifact reference has no scheme'') (split_once CHR '':'' reference)) (\<lambda>(scheme, rest).
     if scheme = ''file'' then Ok ''file:''
     else if scheme = ''https'' then
       rbind (ok_or (UE_Authenticity ''HTTPS artifact reference has no authority'') (strip_prefix ''//'' rest)) (\<lambda>authority.
       let authority = hd (split_on CHR ''/'' authority) in
       if authority = [] \<or> CHR ''@'' \<in> set authority then Err (UE_Authenticity ''HTTPS artifact authority is invalid'')
       else Ok (''https://'' @ to_ascii_lowercase authority))
     else Err (UE_Authenticity (''artifact scheme `'' @ scheme @ ''` is not production-supported'')))"

definition trim_end_slashes :: "string \<Rightarrow> string" where
  "trim_end_slashes v = rev (dropWhile (\<lambda>c. c = CHR ''/'') (rev v))"

definition normalize_origin :: "string \<Rightarrow> string update_result" where
  "normalize_origin origin =
     rbind (validate_policy_value ''origin'' origin) (\<lambda>_.
     if origin = ''file:'' then Ok origin
     else rbind (artifact_origin origin) (\<lambda>normalized.
       if normalized \<noteq> to_ascii_lowercase (trim_end_slashes origin)
       then Err (UE_Authenticity ''allowed origin must contain only scheme and authority'') else Ok normalized))"

definition allow_channel :: "string \<Rightarrow> artifact_trust_policy \<Rightarrow> artifact_trust_policy update_result" where
  "allow_channel channel p = rbind (validate_policy_value ''channel'' channel) (\<lambda>_.
     Ok (p\<lparr> tp_allowed_channels := List.insert channel (tp_allowed_channels p) \<rparr>))"

definition allow_origin :: "string \<Rightarrow> artifact_trust_policy \<Rightarrow> artifact_trust_policy update_result" where
  "allow_origin origin p = rbind (normalize_origin origin) (\<lambda>origin.
     Ok (p\<lparr> tp_allowed_origins := List.insert origin (tp_allowed_origins p) \<rparr>))"

definition trust_policy_verify :: "artifact_trust_policy \<Rightarrow> artifact \<Rightarrow> unit update_result" where
  "trust_policy_verify p a =
     (if af_channel a \<notin> set (tp_allowed_channels p) then Err (UE_Authenticity (''update channel `'' @ af_channel a @ ''` is not allowed''))
      else rbind (artifact_origin (af_artifact_reference a)) (\<lambda>origin.
        if origin \<notin> set (tp_allowed_origins p) then Err (UE_Authenticity (''artifact origin `'' @ origin @ ''` is not allowed'')) else Ok ()))"

definition policy_artifact_verify ::
    "artifact_trust_policy \<Rightarrow> (artifact \<Rightarrow> unit update_result) \<Rightarrow> artifact \<Rightarrow> unit update_result" where
  "policy_artifact_verify p verifier a = rbind (trust_policy_verify p a) (\<lambda>_. verifier a)"

section \<open>Files and checksums\<close>

datatype file_read_error = FR_NotFound | FR_TooLarge | FR_Other

definition read_kind :: "(fs, io_kind, 'a) eff \<Rightarrow> (fs, file_read_error, 'a) eff" where
  "read_kind m s = (case m s of (r, s') \<Rightarrow> (map_err (\<lambda>k. case k of IK_NotFound \<Rightarrow> FR_NotFound | IK_Other \<Rightarrow> FR_Other) r, s'))"

text \<open>The saturating addition matters only for limits beyond what a file can hold.\<close>

definition read_regular_file_bounded :: "path \<Rightarrow> nat \<Rightarrow> (fs, file_read_error, bytes) eff" where
  "read_regular_file_bounded p max_bytes =
     ebind (read_kind (fs_symlink_metadata p)) (\<lambda>metadata.
     if metadata = LinkNode then efail FR_Other
     else ebind (read_kind (fs_open_read p)) (\<lambda>file.
       ebind (read_kind (sys_call (eret file))) (\<lambda>metadata.
       case metadata of
         FileNode content \<Rightarrow>
           ebind (read_kind (fs_read content (max_bytes + 1))) (\<lambda>bs.
           if max_bytes < length bs then efail FR_TooLarge else eret bs)
       | _ \<Rightarrow> efail FR_Other)))"

definition sha256_hex :: "(bytes \<Rightarrow> bytes) \<Rightarrow> bytes \<Rightarrow> string" where
  "sha256_hex sha bs = bytes_to_hex (sha bs)"

section \<open>Providers\<close>

record update_request =
  uq_application_id :: string
  uq_current_version :: string
  uq_channel :: string

record 's update_provider =
  up_latest :: "update_request \<Rightarrow> ('s, update_error, artifact option) eff"
  up_fetch :: "artifact \<Rightarrow> nat \<Rightarrow> ('s, update_error, bytes) eff"

definition on_read_error :: "(file_read_error \<Rightarrow> 'e) \<Rightarrow> (fs, file_read_error, 'a) eff \<Rightarrow> (fs, 'e, 'a) eff" where
  "on_read_error f m s = (case m s of (r, s') \<Rightarrow> (map_err f r, s'))"

definition provider_failed :: update_error where
  "provider_failed = UE_Provider ''os error''"

definition read_provider_file :: "path \<Rightarrow> nat \<Rightarrow> (fs, update_error, bytes) eff" where
  "read_provider_file p max_bytes = on_read_error (\<lambda>_. provider_failed) (read_regular_file_bounded p max_bytes)"

fun validate_artifacts :: "'v semver \<Rightarrow> artifact list \<Rightarrow> unit update_result" where
  "validate_artifacts sv [] = Ok ()"
| "validate_artifacts sv (a # as) = rbind (artifact_validate sv a) (\<lambda>_. validate_artifacts sv as)"

definition read_index ::
    "'v semver \<Rightarrow> (bytes \<Rightarrow> artifact list option) \<Rightarrow> path \<Rightarrow> (fs, update_error, artifact list) eff" where
  "read_index sv from_json index_path =
     ebind (read_provider_file index_path 1048576) (\<lambda>bs.
     ebind (elift (\<lambda>_. ok_or (UE_Provider ''json error'') (from_json bs))) (\<lambda>artifacts.
     ebind (elift (\<lambda>_. validate_artifacts sv artifacts)) (\<lambda>_. eret artifacts)))"

text \<open>\<open>sort_by\<close> with the order reversed is stable: the first of several artifacts with the highest version is taken.\<close>

definition eligible_artifacts ::
    "('v::linorder) semver \<Rightarrow> update_request \<Rightarrow> 'v \<Rightarrow> artifact list \<Rightarrow> ('v \<times> artifact) list" where
  "eligible_artifacts sv request current artifacts =
     List.map_filter (\<lambda>a. case sv_version sv (af_application_version a) of
         Some version \<Rightarrow> if current < version then Some (version, a) else None
       | None \<Rightarrow> None)
     (filter (\<lambda>a. af_application_id a = uq_application_id request \<and> af_channel a = uq_channel request) artifacts)"

definition newest :: "('v::linorder \<times> artifact) list \<Rightarrow> artifact option" where
  "newest eligible = (case rev (sort_key fst (rev eligible)) of [] \<Rightarrow> None | (_, a) # _ \<Rightarrow> Some a)"

definition file_provider_latest ::
    "('v::linorder) semver \<Rightarrow> (bytes \<Rightarrow> artifact list option) \<Rightarrow> path \<Rightarrow> update_request \<Rightarrow> (fs, update_error, artifact option) eff" where
  "file_provider_latest sv from_json index_path request =
     ebind (elift (\<lambda>_. ok_or (UE_Provider ''invalid installed application version'') (sv_version sv (uq_current_version request)))) (\<lambda>current.
     ebind (read_index sv from_json index_path) (\<lambda>artifacts.
     eret (newest (eligible_artifacts sv request current artifacts))))"

text \<open>\<open>path_of\<close> reads a path from its text.\<close>

definition file_provider_fetch :: "(string \<Rightarrow> path) \<Rightarrow> artifact \<Rightarrow> nat \<Rightarrow> (fs, update_error, bytes) eff" where
  "file_provider_fetch path_of a max_bytes =
     ebind (elift (\<lambda>_. ok_or (UE_Provider ''file-update artifact reference must use file:'')
       (strip_prefix ''file:'' (af_artifact_reference a)))) (\<lambda>p.
     on_read_error (\<lambda>k. if k = FR_TooLarge then UE_ArtifactTooLarge max_bytes else provider_failed)
       (read_regular_file_bounded (path_of p) max_bytes))"

definition file_update_provider ::
    "('v::linorder) semver \<Rightarrow> (bytes \<Rightarrow> artifact list option) \<Rightarrow> (string \<Rightarrow> path) \<Rightarrow> path \<Rightarrow> fs update_provider" where
  "file_update_provider sv from_json path_of index_path =
     \<lparr> up_latest = file_provider_latest sv from_json index_path, up_fetch = file_provider_fetch path_of \<rparr>"

section \<open>What providers do\<close>

lemma inspects_read_kind: "inspects m \<Longrightarrow> inspects (read_kind m)"
  unfolding inspects_def read_kind_def Let_def by (auto split: prod.splits) (metis snd_conv)+

lemma inspects_on_read_error: "inspects m \<Longrightarrow> inspects (on_read_error f m)"
  unfolding inspects_def on_read_error_def Let_def by (auto split: prod.splits) (metis snd_conv)+

lemma read_regular_inspects: "inspects (read_regular_file_bounded p n)"
proof -
  have "inspects (fs_symlink_metadata p)" "inspects (fs_open_read p)" "inspects (fs_read c k)" "inspects (sys_call (eret x))"
    for c k and x :: node
    unfolding fs_symlink_metadata_def fs_open_read_def fs_read_def by (intro sys_call_inspects inspects_pure)+
  then show ?thesis
    unfolding read_regular_file_bounded_def
    by (auto intro!: inspects_ebind inspects_read_kind split: node.split)
qed

lemma read_kind_Ok: "read_kind m s = (Ok x, s') \<longleftrightarrow> m s = (Ok x, s')"
  by (auto simp: read_kind_def split: prod.splits)

lemma read_regular_Ok:
  assumes "read_regular_file_bounded p n s = (Ok bs, s')"
  shows "fs_nodes s p = Some (FileNode bs) \<and> length bs \<le> n"
proof -
  obtain md s1 node s2 md' s3 where 1: "fs_symlink_metadata p s = (Ok md, s1)" and 2: "fs_open_read p s1 = (Ok node, s2)"
      and 3: "sys_call (eret node) s2 = (Ok md', s3)"
      and 4: "(case md' of FileNode content \<Rightarrow> ebind (read_kind (fs_read content (n + 1))) (\<lambda>bs.
           if n < length bs then efail FR_TooLarge else eret bs) | _ \<Rightarrow> efail FR_Other) s3 = (Ok bs, s')"
    using assms unfolding read_regular_file_bounded_def ebind_Ok_iff [of "read_kind (fs_symlink_metadata p)"] read_kind_Ok
    by (fastforce simp: ebind_Ok_iff [of "read_kind (fs_open_read p)"] ebind_Ok_iff [of "read_kind (sys_call (eret x))" for x]
        read_kind_Ok simp del: One_nat_def add_Suc_right split: if_splits)
  have "inspects (fs_symlink_metadata p)" unfolding fs_symlink_metadata_def by (intro sys_call_inspects inspects_pure)
  from inspectsD [OF this 1] have n1: "fs_nodes s1 = fs_nodes s" .
  have md: "md' = node" using 3 by (auto elim!: sys_call_cases)
  obtain content where c: "node = FileNode content" using 4 md by (cases node) auto
  then have "fs_nodes s1 p = Some (FileNode content)" using 2 unfolding fs_open_read_def
    by (auto elim!: sys_call_cases split: option.splits node.splits)
  moreover obtain s4 where "fs_read content (n + 1) s3 = (Ok bs, s4)" "length bs \<le> n"
    using 4 md c by (auto simp: ebind_Ok_iff read_kind_Ok not_less split: if_splits)
  then have "bs = take (n + 1) content" unfolding fs_read_def by (auto elim!: sys_call_cases)
  ultimately show ?thesis using n1 \<open>length bs \<le> n\<close> by auto
qed

lemma file_provider_inspects:
  "inspects (up_latest (file_update_provider sv from_json path_of index_path) request)"
  "inspects (up_fetch (file_update_provider sv from_json path_of index_path) a n)"
  by (auto simp: file_update_provider_def file_provider_latest_def file_provider_fetch_def read_index_def read_provider_file_def
      intro!: inspects_ebind inspects_on_read_error read_regular_inspects)

lemma newest_Some:
  assumes "newest xs = Some a"
  shows "\<exists>v. (v, a) \<in> set xs \<and> (\<forall>(w, b)\<in>set xs. w \<le> v)"
proof -
  obtain v ys where ys: "rev (sort_key fst (rev xs)) = (v, a) # ys" using assms by (auto simp: newest_def split: list.splits)
  then have "sort_key fst (rev xs) = rev ys @ [(v, a)]" by (metis rev.simps(2) rev_rev_ident)
  moreover have "sorted (map fst (sort_key fst (rev xs)))" by simp
  moreover have "set (sort_key fst (rev xs)) = set xs" by simp
  ultimately show ?thesis by (fastforce simp: sorted_append)
qed

lemma newest_None: "newest xs = None \<longleftrightarrow> xs = []"
  by (auto simp: newest_def split: list.splits) (metis length_rev length_sort list.size(3) length_0_conv)

text \<open>Trust roots need not be lowercase hexadecimal: upper case and signs pass.\<close>

lemma decode_hex_lenient: "decode_hex 2 ''AB+f'' = Ok [171, 15]"
  by code_simp

section \<open>What a signature covers\<close>

definition artifact_ok :: "'v semver \<Rightarrow> artifact \<Rightarrow> bool" where
  "artifact_ok sv a \<longleftrightarrow> artifact_validate sv a = Ok () \<and> contract_validate_identifier ''application_id'' (af_application_id a) = Ok () \<and>
     contract_validate_identifier ''build_id'' (af_build_id a) = Ok ()"

lemma check_text_Ok: "check_text name v n = Ok () \<longleftrightarrow> \<not> bad_text v n"
  by (simp add: check_text_def)

lemma bad_text_newline: "\<not> bad_text v n \<Longrightarrow> newline \<notin> set v"
proof -
  have "has_control v" if "newline \<in> set v" for v using that by (induction v) (auto simp: control_chars byte_of_def)
  then show "\<not> bad_text v n \<Longrightarrow> newline \<notin> set v" by (auto simp: bad_text_def)
qed

lemma hex_text_newline: "lower_hex n v \<Longrightarrow> newline \<notin> set v"
  by (auto simp: lower_hex_def list_all_iff hex_char_def control_chars char_class_defs)

lemma contract_identifier_newline: "contract_validate_identifier field v = Ok () \<Longrightarrow> newline \<notin> set v"
proof
  assume "contract_validate_identifier field v = Ok ()" "newline \<in> set v"
  then have "contract_id_char newline" using contract_validate_identifier_Ok by (auto simp: list_all_iff)
  then show False by (simp add: contract_id_char_def control_chars char_class_defs)
qed

lemma artifact_ok_newline:
  assumes "artifact_ok sv a"
  shows "newline \<notin> set (af_application_id a)" "newline \<notin> set (af_application_version a)" "newline \<notin> set (af_build_id a)"
    "newline \<notin> set (af_channel a)" "newline \<notin> set (af_runtime_requirement a)" "newline \<notin> set (af_protocol_version a)"
    "newline \<notin> set (af_artifact_reference a)" "newline \<notin> set (af_sha256 a)"
  using assms
  by (auto simp: artifact_ok_def artifact_validate_def rbind_Inr_iff check_text_Ok split: if_splits
      dest!: bad_text_newline hex_text_newline contract_identifier_newline)

lemma signing_field_append:
  assumes "signing_field name v @ xs = signing_field name w @ ys" "newline \<notin> set v" "newline \<notin> set w"
  shows "v = w \<and> xs = ys"
proof -
  have "text_bytes (v @ newline # bytes_text xs) = text_bytes (w @ newline # bytes_text ys)"
    using assms(1) text_bytes_text [of xs] text_bytes_text [of ys] by (simp add: signing_field_def text_bytes_def)
  from arg_cong [OF this, of bytes_text] have "v @ newline # bytes_text xs = w @ newline # bytes_text ys" by (simp only: bytes_text_bytes)
  from arg_cong [OF this, of "split_once newline"] have e: "v = w \<and> bytes_text xs = bytes_text ys"
    by (simp only: split_once_append [OF assms(2)] split_once_append [OF assms(3)] option.inject prod.inject)
  from arg_cong [OF e [THEN conjunct2], of text_bytes] have "xs = ys" by (simp only: text_bytes_text)
  with e show ?thesis by blast
qed

lemma u64_string_inject: "u64_string a = u64_string b \<Longrightarrow> a = b"
  by (metis option.inject parse_u64_string)

text \<open>C14. The payload of a signature determines every field of a descriptor but the key and the signature themselves: two
  valid descriptors with the same payload are the same artifact, so a verified signature cannot be moved to another one.\<close>

theorem signing_payload_binds_artifact:
  assumes "artifact_ok sv a" "artifact_ok sv b" "artifact_signing_payload a = artifact_signing_payload b"
  shows "b = a\<lparr> af_signing_key_id := af_signing_key_id b, af_ed25519_signature := af_ed25519_signature b \<rparr>"
proof -
  note n = artifact_ok_newline [OF assms(1)] artifact_ok_newline [OF assms(2)] control_not_in_u64_string(1)
  note p = assms(3) [unfolded artifact_signing_payload_def, simplified list.map concat.simps append_Nil2 prod.case]
  note f1 = signing_field_append [OF p n(1,9)]
  note f2 = signing_field_append [OF f1 [THEN conjunct2] n(2,10)]
  note f3 = signing_field_append [OF f2 [THEN conjunct2] n(3,11)]
  note f4 = signing_field_append [OF f3 [THEN conjunct2] n(4,12)]
  note f5 = signing_field_append [OF f4 [THEN conjunct2] n(5,13)]
  note f6 = signing_field_append [OF f5 [THEN conjunct2] n(6,14)]
  note f7 = signing_field_append [OF f6 [THEN conjunct2] n(7,15)]
  note f8 = signing_field_append [OF f7 [THEN conjunct2] n(8,16)]
  have "u64_string (af_size_bytes a) = u64_string (af_size_bytes b)"
    using signing_field_append [of "''size_bytes''" "u64_string (af_size_bytes a)" "[]" "u64_string (af_size_bytes b)" "[]"] f8 n(17) by simp
  then have "af_size_bytes a = af_size_bytes b" by (rule u64_string_inject)
  with f1 f2 f3 f4 f5 f6 f7 f8 show ?thesis by simp
qed

definition sample_semver :: "nat semver" where
  "sample_semver = \<lparr> sv_version = (\<lambda>v. Some (length v)), sv_requirement = (\<lambda>_. Some (\<lambda>_. True)) \<rparr>"

definition sample_artifact :: artifact where
  "sample_artifact = \<lparr> af_application_id = ''app'', af_application_version = ''1.0.0'', af_build_id = ''b1'', af_channel = ''stable'',
     af_runtime_requirement = ''*'', af_protocol_version = ''1'', af_artifact_reference = ''file:app'', af_sha256 = replicate 64 CHR ''0'',
     af_size_bytes = 1, af_signing_key_id = None, af_ed25519_signature = None \<rparr>"

definition sample_signed :: artifact where
  "sample_signed = sample_artifact\<lparr> af_signing_key_id := Some ''k'', af_ed25519_signature := Some (replicate 128 CHR ''0'') \<rparr>"

lemma signing_payload_binds_artifact_witness:
  "artifact_ok sample_semver sample_artifact \<and> artifact_ok sample_semver sample_signed \<and>
   sample_signed = sample_artifact\<lparr> af_signing_key_id := Some ''k'', af_ed25519_signature := Some (replicate 128 CHR ''0'') \<rparr>"
proof -
  have ok: "artifact_ok sample_semver sample_artifact" "artifact_ok sample_semver sample_signed" by code_simp+
  have "artifact_signing_payload sample_artifact = artifact_signing_payload sample_signed"
    by (simp add: artifact_signing_payload_def sample_signed_def)
  from signing_payload_binds_artifact [OF ok this] ok show ?thesis by (simp add: sample_signed_def)
qed

end
