(* ===== verification/Update_Store.thy ===== *)
theory Update_Store
  imports Update_Artifact
begin

text \<open>
  Activation of artifacts in \<open>appcore-update\<close>: the trait of artifact stores and the store in a directory (\<open>store.rs\<close>), and the
  coordinator (\<open>coordinator.rs\<close>). The directory holds staged and installed artifacts and three JSON files: a pointer to the active
  artifact, one to the previous one, and the receipt of an activation that is not committed yet. A staging reference, the
  text of a path in the code, is the path. A hard link copies the content, which is never written in place. The
  fault points of the store, compiled for tests only, are left out: here every file system call may fail. What remains of an
  error's text in another error is that error.
\<close>

section \<open>The trait\<close>

definition UPDATE_METADATA_FORMAT_VERSION :: u16 where "UPDATE_METADATA_FORMAT_VERSION = 1"

record staged_artifact =
  sta_descriptor :: artifact
  sta_reference :: path

record activation_receipt =
  arc_activated :: artifact
  arc_previous :: "artifact option"

record 's artifact_store =
  st_recover :: "('s, update_error, unit) eff"
  st_current :: "('s, update_error, artifact option) eff"
  st_stage :: "artifact \<Rightarrow> bytes \<Rightarrow> ('s, update_error, staged_artifact) eff"
  st_discard_staged :: "staged_artifact \<Rightarrow> ('s, update_error, unit) eff"
  st_activate :: "staged_artifact \<Rightarrow> ('s, update_error, activation_receipt) eff"
  st_rollback :: "activation_receipt \<Rightarrow> ('s, update_error, unit) eff"
  st_commit :: "activation_receipt \<Rightarrow> ('s, update_error, unit) eff"

section \<open>The store in a directory\<close>

record artifact_pointer =
  pt_format_version :: u16
  pt_descriptor :: artifact

record pending_activation_record =
  pd_format_version :: u16
  pd_receipt :: activation_receipt

record 'v update_env =
  en_semver :: "'v semver"
  en_sha :: "bytes \<Rightarrow> bytes"
  en_pointer_to_json :: "artifact_pointer \<Rightarrow> bytes option"
  en_pointer_from_json :: "bytes \<Rightarrow> artifact_pointer option"
  en_pending_to_json :: "pending_activation_record \<Rightarrow> bytes option"
  en_pending_from_json :: "bytes \<Rightarrow> pending_activation_record option"

definition store_failed :: update_error where "store_failed = UE_Store ''os error''"
definition store_json :: update_error where "store_json = UE_Store ''json error''"
definition store_outdated :: update_error where "store_outdated = UE_Store ''NO MORE SUPPORTED PLEASE UPDATE''"

definition artifact_path :: "path \<Rightarrow> string \<Rightarrow> path" where
  "artifact_path root build_id = root @ [''artifacts'', build_id @ ''.artifact'']"

definition staged_path :: "path \<Rightarrow> string \<Rightarrow> path" where
  "staged_path root build_id = root @ [''staged'', build_id @ ''.artifact'']"

definition active_pointer :: "path \<Rightarrow> path" where "active_pointer root = root @ [''active.json'']"
definition previous_pointer :: "path \<Rightarrow> path" where "previous_pointer root = root @ [''previous.json'']"
definition pending_activation :: "path \<Rightarrow> path" where "pending_activation root = root @ [''pending-activation.json'']"

definition reject_directory :: "path \<Rightarrow> (fs, update_error, unit) eff" where
  "reject_directory p = ebind (as_err store_failed (fs_symlink_metadata p)) (\<lambda>metadata.
     if metadata = DirNode then eret () else efail (UE_Store ''update root is not a regular directory''))"

definition reject_optional_regular_file :: "path \<Rightarrow> (fs, update_error, unit) eff" where
  "reject_optional_regular_file p s = (case fs_symlink_metadata p s of
     (Inr (FileNode _), s') \<Rightarrow> (Ok (), s')
   | (Inr _, s') \<Rightarrow> (Err (UE_Store ''update path is not a regular file''), s')
   | (Inl IK_NotFound, s') \<Rightarrow> (Ok (), s')
   | (Inl IK_Other, s') \<Rightarrow> (Err store_failed, s'))"

definition remove_if_exists :: "path \<Rightarrow> (fs, update_error, unit) eff" where
  "remove_if_exists p s = (case fs_remove_file p s of
     (Inr _, s') \<Rightarrow> sync_parent store_failed (butlast p) s'
   | (Inl IK_NotFound, s') \<Rightarrow> (Ok (), s')
   | (Inl IK_Other, s') \<Rightarrow> (Err store_failed, s'))"

definition update_temporary :: "path \<Rightarrow> (fs, update_error, path) eff" where
  "update_temporary p s =
     (Ok (with_extension p (''tmp-'' @ nat_dec (fs_pid s) @ ''-'' @ nat_dec (unat (fs_temp_counter s)))),
      s\<lparr> fs_temp_counter := fs_temp_counter s + 1 \<rparr>)"

definition update_atomic_write :: "path \<Rightarrow> bytes \<Rightarrow> (fs, update_error, unit) eff" where
  "update_atomic_write p bs =
     ebind (as_err store_failed (fs_create_dir_all (butlast p))) (\<lambda>_.
     ebind (reject_directory (butlast p)) (\<lambda>_.
     ebind (reject_optional_regular_file p) (\<lambda>_.
     ebind (update_temporary p) (\<lambda>temporary s.
       case write_and_rename store_failed temporary p (butlast p) bs s of
         (Inr u, s') \<Rightarrow> (Ok u, s')
       | (Inl err, s') \<Rightarrow> (Err err, snd (fs_remove_file temporary s'))))))"

definition store_initialize :: "path \<Rightarrow> (fs, update_error, unit) eff" where
  "store_initialize root =
     ebind (as_err store_failed (ebind (fs_create_dir_all (root @ [''artifacts''])) (\<lambda>_. fs_create_dir_all (root @ [''staged''])))) (\<lambda>_.
     ebind (reject_directory root) (\<lambda>_.
     ebind (reject_directory (root @ [''artifacts''])) (\<lambda>_.
     reject_directory (root @ [''staged'']))))"

definition read_optional_file :: "path \<Rightarrow> nat \<Rightarrow> (fs, update_error, bytes option) eff" where
  "read_optional_file p max_bytes s = (case read_regular_file_bounded p max_bytes s of
     (Inr bs, s') \<Rightarrow> (Ok (Some bs), s')
   | (Inl FR_NotFound, s') \<Rightarrow> (Ok None, s')
   | (Inl _, s') \<Rightarrow> (Err store_failed, s'))"

definition decode_pointer :: "'v update_env \<Rightarrow> bytes \<Rightarrow> artifact update_result" where
  "decode_pointer env bs =
     rbind (ok_or store_json (en_pointer_from_json env bs)) (\<lambda>pointer.
     if pt_format_version pointer \<noteq> UPDATE_METADATA_FORMAT_VERSION then Err (UE_Store ''unsupported artifact pointer format'')
     else rbind (artifact_validate (en_semver env) (pt_descriptor pointer)) (\<lambda>_. Ok (pt_descriptor pointer)))"

definition read_pointer :: "'v update_env \<Rightarrow> path \<Rightarrow> (fs, update_error, artifact option) eff" where
  "read_pointer env p = ebind (read_optional_file p 1048576) (\<lambda>found. case found of
     None \<Rightarrow> eret None | Some bs \<Rightarrow> elift (\<lambda>_. rbind (decode_pointer env bs) (\<lambda>d. Ok (Some d))))"

definition write_pointer :: "'v update_env \<Rightarrow> path \<Rightarrow> artifact \<Rightarrow> (fs, update_error, unit) eff" where
  "write_pointer env p descriptor =
     ebind (elift (\<lambda>_. ok_or store_json (en_pointer_to_json env
       \<lparr> pt_format_version = UPDATE_METADATA_FORMAT_VERSION, pt_descriptor = descriptor \<rparr>))) (update_atomic_write p)"

definition decode_pending :: "'v update_env \<Rightarrow> bytes \<Rightarrow> activation_receipt update_result" where
  "decode_pending env bs =
     rbind (ok_or store_outdated (en_pending_from_json env bs)) (\<lambda>r.
     if pd_format_version r \<noteq> UPDATE_METADATA_FORMAT_VERSION then Err store_outdated
     else rbind (artifact_validate (en_semver env) (arc_activated (pd_receipt r))) (\<lambda>_.
          rbind (case arc_previous (pd_receipt r) of Some previous \<Rightarrow> artifact_validate (en_semver env) previous | None \<Rightarrow> Ok ()) (\<lambda>_.
          Ok (pd_receipt r))))"

definition read_pending_activation :: "'v update_env \<Rightarrow> path \<Rightarrow> (fs, update_error, activation_receipt option) eff" where
  "read_pending_activation env root = ebind (read_optional_file (pending_activation root) 1048576) (\<lambda>found. case found of
     None \<Rightarrow> eret None | Some bs \<Rightarrow> elift (\<lambda>_. rbind (decode_pending env bs) (\<lambda>r. Ok (Some r))))"

definition write_pending_activation :: "'v update_env \<Rightarrow> path \<Rightarrow> activation_receipt \<Rightarrow> (fs, update_error, unit) eff" where
  "write_pending_activation env root receipt =
     ebind (elift (\<lambda>_. ok_or store_json (en_pending_to_json env
       \<lparr> pd_format_version = UPDATE_METADATA_FORMAT_VERSION, pd_receipt = receipt \<rparr>))) (update_atomic_write (pending_activation root))"

definition store_current :: "'v update_env \<Rightarrow> path \<Rightarrow> (fs, update_error, artifact option) eff" where
  "store_current env root = read_pointer env (active_pointer root)"

definition matches_descriptor :: "'v update_env \<Rightarrow> artifact \<Rightarrow> bytes \<Rightarrow> bool" where
  "matches_descriptor env d bs \<longleftrightarrow> length bs = unat (af_size_bytes d) \<and> sha256_hex (en_sha env) bs = af_sha256 d"

definition verify_artifact :: "'v update_env \<Rightarrow> path \<Rightarrow> artifact \<Rightarrow> (fs, update_error, unit) eff" where
  "verify_artifact env p d =
     ebind (on_read_error (\<lambda>_. store_failed) (read_regular_file_bounded p (unat (af_size_bytes d)))) (\<lambda>bs.
     if matches_descriptor env d bs then eret () else efail UE_ChecksumMismatch)"

text \<open>\<open>fs::hard_link\<close>; the answer is whether the target was made, or exists already.\<close>

definition fs_hard_link :: "path \<Rightarrow> path \<Rightarrow> (fs, io_kind, bool) eff" where
  "fs_hard_link p q = sys_call (\<lambda>s.
     if fs_nodes s q \<noteq> None then (Ok False, s)
     else (case fs_nodes s p of
         Some (FileNode content) \<Rightarrow>
           if is_dir s (butlast q) then (Ok True, s\<lparr> fs_nodes := (fs_nodes s)(q \<mapsto> FileNode content) \<rparr>) else (Err IK_NotFound, s)
       | Some _ \<Rightarrow> (Err IK_Other, s)
       | None \<Rightarrow> (Err IK_NotFound, s)))"

definition install_artifact :: "'v update_env \<Rightarrow> path \<Rightarrow> path \<Rightarrow> artifact \<Rightarrow> (fs, update_error, unit) eff" where
  "install_artifact env staged target d =
     ebind (as_err store_failed (fs_hard_link staged target)) (\<lambda>linked.
     ebind (if linked then eret () else verify_artifact env target d) (\<lambda>_.
     remove_if_exists staged))"

definition store_stage :: "'v update_env \<Rightarrow> path \<Rightarrow> artifact \<Rightarrow> bytes \<Rightarrow> (fs, update_error, staged_artifact) eff" where
  "store_stage env root descriptor bs =
     ebind (store_initialize root) (\<lambda>_.
     if \<not> matches_descriptor env descriptor bs then efail UE_ChecksumMismatch
     else let p = staged_path root (af_build_id descriptor) in
       ebind (update_atomic_write p bs) (\<lambda>_. eret \<lparr> sta_descriptor = descriptor, sta_reference = p \<rparr>))"

definition store_discard_staged :: "path \<Rightarrow> staged_artifact \<Rightarrow> (fs, update_error, unit) eff" where
  "store_discard_staged root staged =
     (let expected = staged_path root (af_build_id (sta_descriptor staged)) in
     if sta_reference staged \<noteq> expected then efail (UE_Store ''staged artifact reference does not belong to this store'')
     else remove_if_exists expected)"

definition store_activate :: "'v update_env \<Rightarrow> path \<Rightarrow> staged_artifact \<Rightarrow> (fs, update_error, activation_receipt) eff" where
  "store_activate env root staged =
     (let descriptor = sta_descriptor staged; expected = staged_path root (af_build_id descriptor);
          target = artifact_path root (af_build_id descriptor) in
     ebind (store_initialize root) (\<lambda>_.
     if sta_reference staged \<noteq> expected then efail (UE_Store ''staging reference does not belong to this store'')
     else ebind (store_current env root) (\<lambda>previous.
       ebind (verify_artifact env expected descriptor) (\<lambda>_.
       ebind (install_artifact env expected target descriptor) (\<lambda>_.
       ebind (sync_parent store_failed (butlast target)) (\<lambda>_.
       ebind (case previous of Some p \<Rightarrow> write_pointer env (previous_pointer root) p | None \<Rightarrow> remove_if_exists (previous_pointer root)) (\<lambda>_.
       let receipt = \<lparr> arc_activated = descriptor, arc_previous = previous \<rparr> in
       ebind (write_pending_activation env root receipt) (\<lambda>_.
       ebind (write_pointer env (active_pointer root) descriptor) (\<lambda>_. eret receipt)))))))))"

definition store_rollback :: "'v update_env \<Rightarrow> path \<Rightarrow> activation_receipt \<Rightarrow> (fs, update_error, unit) eff" where
  "store_rollback env root receipt =
     ebind (store_current env root) (\<lambda>found. case found of
       None \<Rightarrow> efail (UE_Store ''cannot rollback without an active artifact'')
     | Some current \<Rightarrow>
         if af_build_id current \<noteq> af_build_id (arc_activated receipt) then efail (UE_Store ''active artifact changed after activation'')
         else ebind (case arc_previous receipt of
               Some previous \<Rightarrow> write_pointer env (active_pointer root) previous | None \<Rightarrow> remove_if_exists (active_pointer root)) (\<lambda>_.
           ebind (remove_if_exists (previous_pointer root)) (\<lambda>_.
           remove_if_exists (pending_activation root))))"

definition store_commit :: "'v update_env \<Rightarrow> path \<Rightarrow> activation_receipt \<Rightarrow> (fs, update_error, unit) eff" where
  "store_commit env root receipt =
     ebind (store_current env root) (\<lambda>found. case found of
       None \<Rightarrow> efail (UE_Store ''cannot commit without an active artifact'')
     | Some current \<Rightarrow>
         if af_build_id current \<noteq> af_build_id (arc_activated receipt) then efail (UE_Store ''active artifact changed before commit'')
         else ebind (remove_if_exists (previous_pointer root)) (\<lambda>_. remove_if_exists (pending_activation root)))"

definition store_recover :: "'v update_env \<Rightarrow> path \<Rightarrow> (fs, update_error, unit) eff" where
  "store_recover env root =
     ebind (read_pending_activation env root) (\<lambda>found. case found of
       None \<Rightarrow> remove_if_exists (previous_pointer root)
     | Some receipt \<Rightarrow> ebind (store_current env root) (\<lambda>current.
         if (case current of Some c \<Rightarrow> af_build_id c = af_build_id (arc_activated receipt) | None \<Rightarrow> False)
         then store_rollback env root receipt
         else ebind (remove_if_exists (previous_pointer root)) (\<lambda>_. remove_if_exists (pending_activation root))))"

definition file_artifact_store :: "'v update_env \<Rightarrow> path \<Rightarrow> fs artifact_store" where
  "file_artifact_store env root =
     \<lparr> st_recover = store_recover env root, st_current = store_current env root, st_stage = store_stage env root,
       st_discard_staged = store_discard_staged root, st_activate = store_activate env root, st_rollback = store_rollback env root,
       st_commit = store_commit env root \<rparr>"

section \<open>The coordinator\<close>

datatype update_outcome = UO_NoUpdate | UO_Applied artifact | UO_RolledBack artifact update_error
datatype update_preparation = UP_NoUpdate | UP_AwaitingHealth artifact
datatype update_staging = US_NoUpdate | US_Staged staged_artifact

record 's update_coordinator =
  uc_provider :: "'s update_provider"
  uc_store :: "'s artifact_store"
  uc_health :: "(artifact \<Rightarrow> unit update_result) option"
  uc_authenticity :: "artifact \<Rightarrow> unit update_result"
  uc_max_artifact_bytes :: nat

definition coordinator_with ::
    "'s update_provider \<Rightarrow> 's artifact_store \<Rightarrow> (artifact \<Rightarrow> unit update_result) option \<Rightarrow> (artifact \<Rightarrow> unit update_result) \<Rightarrow> nat
      \<Rightarrow> 's update_coordinator update_result" where
  "coordinator_with provider store health authenticity max_artifact_bytes =
     (if max_artifact_bytes = 0 then Err (UE_InvalidArtifact ''max_artifact_bytes must be greater than zero'')
      else Ok \<lparr> uc_provider = provider, uc_store = store, uc_health = health, uc_authenticity = authenticity,
        uc_max_artifact_bytes = max_artifact_bytes \<rparr>)"

definition new_with_authenticity ::
    "'s update_provider \<Rightarrow> 's artifact_store \<Rightarrow> (artifact \<Rightarrow> unit update_result) \<Rightarrow> (artifact \<Rightarrow> unit update_result) \<Rightarrow> nat
      \<Rightarrow> 's update_coordinator update_result" where
  "new_with_authenticity provider store health = coordinator_with provider store (Some health)"

definition new_for_preparation ::
    "'s update_provider \<Rightarrow> 's artifact_store \<Rightarrow> (artifact \<Rightarrow> unit update_result) \<Rightarrow> nat \<Rightarrow> 's update_coordinator update_result" where
  "new_for_preparation provider store = coordinator_with provider store None"

definition ensure_upgrade ::
    "('v::linorder) update_env \<Rightarrow> 's update_coordinator \<Rightarrow> update_request \<Rightarrow> artifact \<Rightarrow> ('s, update_error, unit) eff" where
  "ensure_upgrade env c request candidate =
     ebind (elift (\<lambda>_. ok_or (UE_Incompatible ''invalid installed application version'') (sv_version (en_semver env) (uq_current_version request)))) (\<lambda>installed.
     ebind (elift (\<lambda>_. ok_or (UE_InvalidArtifact ''invalid candidate application version'') (sv_version (en_semver env) (af_application_version candidate)))) (\<lambda>candidate_version.
     if candidate_version \<le> installed then efail (UE_Incompatible ''candidate version does not advance installed version'')
     else ebind (st_current (uc_store c)) (\<lambda>found. case found of
         None \<Rightarrow> eret ()
       | Some active \<Rightarrow>
           if af_application_id active \<noteq> af_application_id candidate
           then efail (UE_Incompatible ''active artifact application identity differs from the candidate'')
           else if af_build_id active = af_build_id candidate then efail (UE_Incompatible ''candidate reuses the active build identity'')
           else ebind (elift (\<lambda>_. ok_or (UE_Store ''active artifact version is invalid'') (sv_version (en_semver env) (af_application_version active)))) (\<lambda>active_version.
             if candidate_version \<le> active_version then efail (UE_Incompatible ''candidate version does not advance active version'') else eret ()))))"

definition select_candidate ::
    "('v::linorder) update_env \<Rightarrow> 's update_coordinator \<Rightarrow> update_request \<Rightarrow> string \<Rightarrow> string \<Rightarrow> ('s, update_error, artifact option) eff" where
  "select_candidate env c request runtime_version protocol_version =
     ebind (up_latest (uc_provider c) request) (\<lambda>found. case found of
       None \<Rightarrow> eret None
     | Some candidate \<Rightarrow>
         if af_application_id candidate \<noteq> uq_application_id request
         then efail (UE_Incompatible ''artifact application identity differs from the request'')
         else if af_channel candidate \<noteq> uq_channel request then efail (UE_Incompatible ''artifact update channel differs from the request'')
         else ebind (ensure_upgrade env c request candidate) (\<lambda>_.
              ebind (elift (\<lambda>_. artifact_ensure_compatible (en_semver env) runtime_version protocol_version candidate)) (\<lambda>_.
              eret (Some candidate))))"

definition fetch_verified :: "'v update_env \<Rightarrow> 's update_coordinator \<Rightarrow> artifact \<Rightarrow> ('s, update_error, artifact \<times> bytes) eff" where
  "fetch_verified env c candidate =
     (let declared_size = unat (af_size_bytes candidate); max_bytes = uc_max_artifact_bytes c in
     if max_bytes < declared_size then efail (UE_ArtifactTooLarge max_bytes)
     else ebind (up_fetch (uc_provider c) candidate max_bytes) (\<lambda>bs.
       if max_bytes < length bs \<or> length bs \<noteq> declared_size then efail (UE_ArtifactTooLarge max_bytes)
       else if sha256_hex (en_sha env) bs \<noteq> af_sha256 candidate then efail UE_ChecksumMismatch
       else ebind (elift (\<lambda>_. uc_authenticity c candidate)) (\<lambda>_. eret (candidate, bs))))"

definition stage_candidate ::
    "('v::linorder) update_env \<Rightarrow> 's update_coordinator \<Rightarrow> update_request \<Rightarrow> string \<Rightarrow> string \<Rightarrow> ('s, update_error, update_staging) eff" where
  "stage_candidate env c request runtime_version protocol_version =
     ebind (st_recover (uc_store c)) (\<lambda>_.
     ebind (select_candidate env c request runtime_version protocol_version) (\<lambda>found. case found of
       None \<Rightarrow> eret US_NoUpdate
     | Some candidate \<Rightarrow>
         ebind (fetch_verified env c candidate) (\<lambda>(descriptor, bs).
         ebind (st_stage (uc_store c) descriptor bs) (\<lambda>staged. eret (US_Staged staged)))))"

definition prepare_update ::
    "('v::linorder) update_env \<Rightarrow> 's update_coordinator \<Rightarrow> update_request \<Rightarrow> string \<Rightarrow> string \<Rightarrow> ('s, update_error, update_preparation) eff" where
  "prepare_update env c request runtime_version protocol_version =
     ebind (stage_candidate env c request runtime_version protocol_version) (\<lambda>staging. case staging of
       US_NoUpdate \<Rightarrow> eret UP_NoUpdate
     | US_Staged staged \<Rightarrow> ebind (st_activate (uc_store c) staged) (\<lambda>receipt. eret (UP_AwaitingHealth (arc_activated receipt))))"

type_synonym update_faults = "update_fault_point \<Rightarrow> unit update_result"

definition no_update_faults :: update_faults where
  "no_update_faults = (\<lambda>_. Ok ())"

definition stage_and_activate ::
    "'s update_coordinator \<Rightarrow> artifact \<times> bytes \<Rightarrow> update_faults \<Rightarrow> ('s, update_error, artifact \<times> activation_receipt) eff" where
  "stage_and_activate c verified faults =
     ebind (st_stage (uc_store c) (fst verified) (snd verified)) (\<lambda>staged.
     ebind (elift (\<lambda>_. faults FP_AfterStaging)) (\<lambda>_.
     ebind (st_activate (uc_store c) staged) (\<lambda>receipt. eret (fst verified, receipt))))"

definition rollback_after_failure ::
    "'s update_coordinator \<Rightarrow> artifact \<times> activation_receipt \<Rightarrow> update_error \<Rightarrow> ('s, update_error, update_outcome) eff" where
  "rollback_after_failure c activated cause s = (case st_rollback (uc_store c) (snd activated) s of
     (Inr _, s') \<Rightarrow> (Ok (UO_RolledBack (fst activated) cause), s')
   | (Inl rollback, s') \<Rightarrow> (Err (UE_RollbackFailed cause rollback), s'))"

definition finish_activation ::
    "'s update_coordinator \<Rightarrow> artifact \<times> activation_receipt \<Rightarrow> update_faults \<Rightarrow> ('s, update_error, update_outcome) eff" where
  "finish_activation c activated faults =
     ebind (elift (\<lambda>_. ok_or (UE_Health ''activation health check is not configured'') (uc_health c))) (\<lambda>health s.
       case ebind (elift (\<lambda>_. faults FP_AfterActivation)) (\<lambda>_.
            ebind (elift (\<lambda>_. health (fst activated))) (\<lambda>_.
            ebind (elift (\<lambda>_. faults FP_BeforeCommit)) (\<lambda>_.
            st_commit (uc_store c) (snd activated)))) s of
         (Inr _, s') \<Rightarrow> (Ok (UO_Applied (fst activated)), s')
       | (Inl cause, s') \<Rightarrow> rollback_after_failure c activated cause s')"

definition apply_with_faults ::
    "('v::linorder) update_env \<Rightarrow> 's update_coordinator \<Rightarrow> update_request \<Rightarrow> string \<Rightarrow> string \<Rightarrow> update_faults
      \<Rightarrow> ('s, update_error, update_outcome) eff" where
  "apply_with_faults env c request runtime_version protocol_version faults =
     ebind (st_recover (uc_store c)) (\<lambda>_.
     ebind (select_candidate env c request runtime_version protocol_version) (\<lambda>found. case found of
       None \<Rightarrow> eret UO_NoUpdate
     | Some candidate \<Rightarrow>
         ebind (elift (\<lambda>_. faults FP_AfterSelection)) (\<lambda>_.
         ebind (fetch_verified env c candidate) (\<lambda>verified.
         ebind (elift (\<lambda>_. faults FP_AfterVerification)) (\<lambda>_.
         ebind (stage_and_activate c verified faults) (\<lambda>activated.
         finish_activation c activated faults))))))"

definition apply_update ::
    "('v::linorder) update_env \<Rightarrow> 's update_coordinator \<Rightarrow> update_request \<Rightarrow> string \<Rightarrow> string \<Rightarrow> ('s, update_error, update_outcome) eff" where
  "apply_update env c request runtime_version protocol_version =
     apply_with_faults env c request runtime_version protocol_version no_update_faults"

end
