(* ===== verification/Update_Safety.thy ===== *)
theory Update_Safety
  imports Update_Store
begin

text \<open>
  Updates are reversible. The interface \<open>reversible_store\<close> says what the coordinator needs of an artifact store whose calls may
  fail anywhere: \<open>act\<close> is the active artifact, \<open>pend\<close> the receipt of an activation that is not committed, and \<open>settles\<close>
  the artifact that recovery will leave active. The store in a directory keeps it, and the coordinator's property follows
  for every pattern of failing calls, a crash among them (all calls after it fail).
\<close>

section \<open>Reversible stores\<close>

definition same_build :: "artifact option \<Rightarrow> artifact \<Rightarrow> bool" where
  "same_build found a \<longleftrightarrow> (case found of Some c \<Rightarrow> af_build_id c = af_build_id a | None \<Rightarrow> False)"

definition settles :: "artifact option \<Rightarrow> activation_receipt option \<Rightarrow> artifact option" where
  "settles active pending = (case pending of
     Some r \<Rightarrow> if same_build active (arc_activated r) then arc_previous r else active | None \<Rightarrow> active)"

lemma same_build_simps [simp]: "same_build (Some c) a \<longleftrightarrow> af_build_id c = af_build_id a" "\<not> same_build None a"
  by (simp_all add: same_build_def)

lemma settles_simps [simp]:
  "settles a None = a" "same_build a (arc_activated r) \<Longrightarrow> settles a (Some r) = arc_previous r"
  "\<not> same_build a (arc_activated r) \<Longrightarrow> settles a (Some r) = a"
  by (simp_all add: settles_def)

locale reversible_store =
  fixes ops :: "'s artifact_store" and inv :: "'s \<Rightarrow> bool" and act :: "'s \<Rightarrow> artifact option"
    and pend :: "'s \<Rightarrow> activation_receipt option" and held :: "'s \<Rightarrow> artifact \<Rightarrow> bool" and valid :: "artifact \<Rightarrow> bool"
  assumes act_held: "inv s \<Longrightarrow> act s = Some a \<Longrightarrow> held s a"
    and recover_law: "inv s \<Longrightarrow> st_recover ops s = (x, s') \<Longrightarrow>
      inv s' \<and> settles (act s') (pend s') = settles (act s) (pend s) \<and> (x = Ok () \<longrightarrow> pend s' = None)"
    and current_law: "inv s \<Longrightarrow> st_current ops s = (y, s') \<Longrightarrow>
      inv s' \<and> act s' = act s \<and> pend s' = pend s \<and> (\<forall>a. y = Ok a \<longrightarrow> a = act s)"
    and stage_law: "inv s \<Longrightarrow> st_stage ops d bs s = (z, s') \<Longrightarrow>
      inv s' \<and> act s' = act s \<and> pend s' = pend s \<and> (\<forall>st. z = Ok st \<longrightarrow> sta_descriptor st = d)"
    and activate_law: "inv s \<Longrightarrow> valid (sta_descriptor st) \<Longrightarrow> pend s = None \<Longrightarrow> \<not> same_build (act s) (sta_descriptor st) \<Longrightarrow>
      st_activate ops st s = (w, s') \<Longrightarrow> inv s' \<and> settles (act s') (pend s') = act s \<and>
      (\<forall>a. held s a \<longrightarrow> held s' a) \<and> (\<forall>r. w = Ok r \<longrightarrow>
        r = \<lparr> arc_activated = sta_descriptor st, arc_previous = act s \<rparr> \<and> act s' = Some (sta_descriptor st) \<and> pend s' = Some r)"
    and rollback_law: "inv s \<Longrightarrow> same_build (act s) (arc_activated r) \<Longrightarrow> pend s = Some r \<or> pend s = None \<Longrightarrow>
      \<not> same_build (arc_previous r) (arc_activated r) \<Longrightarrow> (\<And>p. arc_previous r = Some p \<Longrightarrow> held s p) \<Longrightarrow>
      st_rollback ops r s = (x, s') \<Longrightarrow> inv s' \<and> (settles (act s') (pend s') = settles (act s) (pend s) \<or>
        settles (act s') (pend s') = arc_previous r) \<and> (x = Ok () \<longrightarrow> act s' = arc_previous r \<and> pend s' = None)"
    and commit_law: "inv s \<Longrightarrow> act s = Some (arc_activated r) \<Longrightarrow> pend s = Some r \<Longrightarrow> st_commit ops r s = (x, s') \<Longrightarrow>
      inv s' \<and> act s' = act s \<and> (pend s' = Some r \<or> pend s' = None) \<and> (\<forall>a. held s a \<longrightarrow> held s' a) \<and> (x = Ok () \<longrightarrow> pend s' = None)"

text \<open>A provider answers without touching the store, with valid descriptors.\<close>

definition provider_reads :: "('s \<Rightarrow> bool) \<Rightarrow> ('s \<Rightarrow> artifact option) \<Rightarrow> ('s \<Rightarrow> activation_receipt option) \<Rightarrow> (artifact \<Rightarrow> bool)
    \<Rightarrow> 's update_provider \<Rightarrow> bool" where
  "provider_reads ok act pend valid p \<longleftrightarrow>
     (\<forall>q s x s'. ok s \<longrightarrow> up_latest p q s = (x, s') \<longrightarrow>
        ok s' \<and> act s' = act s \<and> pend s' = pend s \<and> (\<forall>a. x = Ok (Some a) \<longrightarrow> valid a)) \<and>
     (\<forall>a n s x s'. ok s \<longrightarrow> up_fetch p a n s = (x, s') \<longrightarrow> ok s' \<and> act s' = act s \<and> pend s' = pend s)"

lemma provider_latest:
  "provider_reads ok act pend valid p \<Longrightarrow> ok s \<Longrightarrow> up_latest p q s = (x, s') \<Longrightarrow>
    ok s' \<and> act s' = act s \<and> pend s' = pend s \<and> (\<forall>a. x = Ok (Some a) \<longrightarrow> valid a)"
  unfolding provider_reads_def by blast

lemma provider_fetch:
  "provider_reads ok act pend valid p \<Longrightarrow> ok s \<Longrightarrow> up_fetch p a n s = (x, s') \<Longrightarrow> ok s' \<and> act s' = act s \<and> pend s' = pend s"
  unfolding provider_reads_def by blast

text \<open>What an artifact has passed before it may stay active.\<close>

definition approved :: "('v::linorder) update_env \<Rightarrow> 's update_coordinator \<Rightarrow> update_request \<Rightarrow> string \<Rightarrow> string \<Rightarrow> artifact \<Rightarrow> bool" where
  "approved env c request runtime_version protocol_version d \<longleftrightarrow>
     uc_authenticity c d = Ok () \<and> (\<exists>health. uc_health c = Some health \<and> health d = Ok ()) \<and>
     af_application_id d = uq_application_id request \<and> af_channel d = uq_channel request \<and>
     unat (af_size_bytes d) \<le> uc_max_artifact_bytes c \<and>
     artifact_ensure_compatible (en_semver env) runtime_version protocol_version d = Ok () \<and>
     (\<exists>v w. sv_version (en_semver env) (uq_current_version request) = Some v \<and> sv_version (en_semver env) (af_application_version d) = Some w \<and> v < w)"

lemma ebind_runE:
  assumes "ebind m f s = (x, s')"
  obtains (failed) e where "m s = (Err e, s')" "x = Err e" | (ran) y s1 where "m s = (Ok y, s1)" "f y s1 = (x, s')"
  using assms by (cases "m s"; cases "fst (m s)") (auto simp: ebind_eval)

lemma ebind_elift_runE:
  assumes "ebind (elift g) f s = (x, s')"
  obtains (failed) e where "g s = Err e" "x = Err e" "s' = s" | (ran) y where "g s = Ok y" "f y s = (x, s')"
  using assms by (cases "g s") (auto simp: ebind_eval)

context reversible_store
begin

lemma ensure_upgrade_run:
  assumes "inv s" "uc_store c = ops" "ensure_upgrade env c request d s = (x, s')"
  shows "(inv s' \<and> act s' = act s \<and> pend s' = pend s) \<and> (x = Ok () \<longrightarrow> \<not> same_build (act s) d \<and> (\<exists>v w. sv_version (en_semver env) (uq_current_version request) = Some v \<and>
    sv_version (en_semver env) (af_application_version d) = Some w \<and> v < w))"
  using assms(3) unfolding ensure_upgrade_def
proof (cases rule: ebind_elift_runE)
  case (failed e)
  then show ?thesis using assms(1) by simp
next
  case (ran v)
  from ran(2) show ?thesis
  proof (cases rule: ebind_elift_runE)
    case (failed e)
    then show ?thesis using assms(1) by simp
  next
    case ran2: (ran w)
    have v: "sv_version (en_semver env) (uq_current_version request) = Some v" "sv_version (en_semver env) (af_application_version d) = Some w"
      using ran(1) ran2(1) by (simp_all add: ok_or_def split: option.splits)
    show ?thesis
    proof (cases "w \<le> v")
      case True
      then show ?thesis using ran2(2) assms(1) by auto
    next
      case False
      from ran2(2) [simplified False if_False assms(2)] show ?thesis
      proof (cases rule: ebind_runE)
        case (failed e)
        then show ?thesis using current_law [OF assms(1) failed(1)] by simp
      next
        case cur: (ran y s1)
        note law = current_law [OF assms(1) cur(1)]
        show ?thesis
        proof (cases "act s")
          case None
          then show ?thesis using cur(2) law v False by (auto simp: not_le)
        next
          case (Some b)
          then have y: "y = Some b" using law by simp
          show ?thesis
          proof (cases "af_application_id b \<noteq> af_application_id d \<or> af_build_id b = af_build_id d")
            case True
            then show ?thesis using cur(2) law y by (auto split: if_splits)
          next
            case ok: False
            from cur(2) [simplified y option.case] ok
            have "ebind (elift (\<lambda>_. ok_or (UE_Store ''active artifact version is invalid'') (sv_version (en_semver env) (af_application_version b))))
                (\<lambda>active_version. if w \<le> active_version then efail (UE_Incompatible ''candidate version does not advance active version'') else eret ()) s1 = (x, s')"
              by simp
            then have "s' = s1" by (cases rule: ebind_elift_runE) (auto split: if_splits)
            then show ?thesis using law ok v False Some by (auto simp: not_le)
          qed
        qed
      qed
    qed
  qed
qed

lemma select_candidate_run:
  assumes "inv s" "uc_store c = ops" "provider_reads inv act pend valid (uc_provider c)"
    "select_candidate env c request rv pv s = (x, s')"
  shows "(inv s' \<and> act s' = act s \<and> pend s' = pend s) \<and> (\<forall>d. x = Ok (Some d) \<longrightarrow> valid d \<and> \<not> same_build (act s) d \<and>
    af_application_id d = uq_application_id request \<and> af_channel d = uq_channel request \<and>
    artifact_ensure_compatible (en_semver env) rv pv d = Ok () \<and>
    (\<exists>v w. sv_version (en_semver env) (uq_current_version request) = Some v \<and> sv_version (en_semver env) (af_application_version d) = Some w \<and> v < w))"
  using assms(4) unfolding select_candidate_def
proof (cases rule: ebind_runE)
  case (failed e)
  then show ?thesis using provider_latest [OF assms(3,1) failed(1)] by simp
next
  case (ran found s1)
  have p: "inv s1" "act s1 = act s" "pend s1 = pend s" "found = Some d \<Longrightarrow> valid d" for d
    using provider_latest [OF assms(3,1) ran(1)] by simp_all
  show ?thesis
  proof (cases found)
    case None
    then show ?thesis using ran(2) p by auto
  next
    case (Some d)
    show ?thesis
    proof (cases "af_application_id d \<noteq> uq_application_id request \<or> af_channel d \<noteq> uq_channel request")
      case True
      then show ?thesis using ran(2) p Some by (auto split: if_splits)
    next
      case ok: False
      with ran(2) Some have "ebind (ensure_upgrade env c request d) (\<lambda>_.
          ebind (elift (\<lambda>_. artifact_ensure_compatible (en_semver env) rv pv d)) (\<lambda>_. eret (Some d))) s1 = (x, s')" by simp
      then show ?thesis
      proof (cases rule: ebind_runE)
        case (failed e)
        then show ?thesis using ensure_upgrade_run [OF p(1) assms(2) failed(1)] p by simp
      next
        case up: (ran u s2)
        note e = ensure_upgrade_run [OF p(1) assms(2) up(1)]
        from up(2) show ?thesis
        proof (cases rule: ebind_elift_runE)
          case (failed k)
          then show ?thesis using e p(1-3) by simp
        next
          case (ran u')
          then have "x = Ok (Some d)" "s' = s2" by simp_all
          then show ?thesis using e p(1-3) p(4) [OF Some] ok ran(1) by simp
        qed
      qed
    qed
  qed
qed

lemma fetch_verified_run:
  assumes "inv s" "provider_reads inv act pend valid (uc_provider c)" "fetch_verified env c d s = (x, s')"
  shows "(inv s' \<and> act s' = act s \<and> pend s' = pend s) \<and> (\<forall>y. x = Ok y \<longrightarrow> fst y = d \<and> uc_authenticity c d = Ok () \<and>
    unat (af_size_bytes d) \<le> uc_max_artifact_bytes c \<and> matches_descriptor env d (snd y))"
proof (cases "uc_max_artifact_bytes c < unat (af_size_bytes d)")
  case True
  then show ?thesis using assms by (auto simp: fetch_verified_def Let_def)
next
  case False
  let ?f = "\<lambda>bs. if uc_max_artifact_bytes c < length bs \<or> length bs \<noteq> unat (af_size_bytes d) then efail (UE_ArtifactTooLarge (uc_max_artifact_bytes c))
       else if sha256_hex (en_sha env) bs \<noteq> af_sha256 d then efail UE_ChecksumMismatch
       else ebind (elift (\<lambda>_. uc_authenticity c d)) (\<lambda>_. eret (d, bs))"
  from assms(3) False have "ebind (up_fetch (uc_provider c) d (uc_max_artifact_bytes c)) ?f s = (x, s')"
    by (simp add: fetch_verified_def Let_def)
  then show ?thesis
  proof (cases rule: ebind_runE)
    case (failed e)
    then show ?thesis using provider_fetch [OF assms(2,1) failed(1)] by simp
  next
    case (ran bs s1)
    have p: "inv s1" "act s1 = act s" "pend s1 = pend s" using provider_fetch [OF assms(2,1) ran(1)] by simp_all
    show ?thesis
    proof (cases "uc_max_artifact_bytes c < length bs \<or> length bs \<noteq> unat (af_size_bytes d) \<or> sha256_hex (en_sha env) bs \<noteq> af_sha256 d")
      case True
      then show ?thesis using ran(2) p by (auto split: if_splits)
    next
      case ok: False
      with ran(2) have "ebind (elift (\<lambda>_. uc_authenticity c d)) (\<lambda>_. eret (d, bs)) s1 = (x, s')" by simp
      then show ?thesis
        by (cases rule: ebind_elift_runE) (use p False ok in \<open>auto simp: matches_descriptor_def\<close>)
    qed
  qed
qed

text \<open>After an activation: commit, or roll back.\<close>

lemma rollback_after_failure_run:
  assumes "inv s" "uc_store c = ops" "act s = Some (arc_activated r)" "pend s = Some r \<or> pend s = None"
    "\<not> same_build (arc_previous r) (arc_activated r)" "\<And>p. arc_previous r = Some p \<Longrightarrow> held s p"
    "rollback_after_failure c (d, r) cause s = (x, s')"
  shows "inv s' \<and> (settles (act s') (pend s') = settles (act s) (pend s) \<or> settles (act s') (pend s') = arc_previous r) \<and>
    (x = Ok (UO_RolledBack d cause) \<and> act s' = arc_previous r \<and> pend s' = None \<or> (\<exists>e. x = Err e))"
proof -
  obtain y s1 where y: "st_rollback ops r s = (y, s1)" by (cases "st_rollback ops r s")
  have b: "same_build (act s) (arc_activated r)" using assms(3) by simp
  have law: "inv s1 \<and> (settles (act s1) (pend s1) = settles (act s) (pend s) \<or> settles (act s1) (pend s1) = arc_previous r) \<and>
      (y = Ok () \<longrightarrow> act s1 = arc_previous r \<and> pend s1 = None)"
    by (rule rollback_law [OF assms(1) b assms(4,5,6) y])
  have run: "(case y of Inr _ \<Rightarrow> (Ok (UO_RolledBack d cause), s1) | Inl e \<Rightarrow> (Err (UE_RollbackFailed cause e), s1)) = (x, s')"
    using assms(7) y unfolding rollback_after_failure_def assms(2) snd_conv fst_conv y prod.case by (cases y) simp_all
  show ?thesis
  proof (cases y)
    case (Inl e)
    then have "x = Err (UE_RollbackFailed cause e)" "s' = s1" using run by simp_all
    then show ?thesis using law by simp
  next
    case (Inr u)
    then have "x = Ok (UO_RolledBack d cause)" "s' = s1" "y = Ok ()" using run by simp_all
    then show ?thesis using law by simp
  qed
qed

lemma finish_activation_run:
  assumes "inv s" "uc_store c = ops" "act s = Some d" "pend s = Some r" "arc_activated r = d"
    "\<not> same_build (arc_previous r) d" "\<And>p. arc_previous r = Some p \<Longrightarrow> held s p" "finish_activation c (d, r) faults s = (x, s')"
  shows "inv s' \<and>
    (settles (act s') (pend s') = arc_previous r \<or>
      settles (act s') (pend s') = Some d \<and> (\<exists>health. uc_health c = Some health \<and> health d = Ok ())) \<and>
    (case x of Inr UO_NoUpdate \<Rightarrow> False
     | Inr (UO_Applied b) \<Rightarrow> b = d \<and> act s' = Some d \<and> pend s' = None \<and> (\<exists>health. uc_health c = Some health \<and> health d = Ok ())
     | Inr (UO_RolledBack b e) \<Rightarrow> b = d \<and> act s' = arc_previous r \<and> pend s' = None
     | Inl _ \<Rightarrow> True)"
proof (cases "uc_health c")
  case None
  then show ?thesis using assms by (auto simp: finish_activation_def ebind_eval)
next
  case (Some health)
  let ?m = "ebind (elift (\<lambda>_. faults FP_AfterActivation)) (\<lambda>_. ebind (elift (\<lambda>_. health d)) (\<lambda>_. ebind (elift (\<lambda>_. faults FP_BeforeCommit)) (\<lambda>_.
      st_commit ops r)))"
  obtain y s1 where y: "?m s = (y, s1)" by (cases "?m s")
  have run: "(case y of Inr _ \<Rightarrow> (Ok (UO_Applied d), s1) | Inl cause \<Rightarrow> rollback_after_failure c (d, r) cause s1) = (x, s')"
    using assms(2,8) Some y by (auto simp: finish_activation_def ebind_eval split: sum.splits)
  have "(s1 = s \<and> y \<noteq> Ok ()) \<or> (health d = Ok () \<and> st_commit ops r s = (y, s1))"
    using y by (auto simp: ebind_eval split: sum.splits)
  then show ?thesis
  proof
    assume early: "s1 = s \<and> y \<noteq> Ok ()"
    then obtain cause where c: "y = Err cause" by (cases y) auto
    with run early have "rollback_after_failure c (d, r) cause s = (x, s')" by simp
    from rollback_after_failure_run [OF assms(1,2) _ _ _ _ this] assms(3-7) show ?thesis by auto
  next
    assume late: "health d = Ok () \<and> st_commit ops r s = (y, s1)"
    have a: "act s = Some (arc_activated r)" using assms(3,5) by simp
    note law = commit_law [OF assms(1) a assms(4) conjunct2 [OF late]]
    show ?thesis
    proof (cases y)
      case (Inr u)
      then have "x = Ok (UO_Applied d)" "s' = s1" using run by simp_all
      then show ?thesis using law Inr assms(3,5) late Some by simp
    next
      case (Inl cause)
      with run have "rollback_after_failure c (d, r) cause s1 = (x, s')" by simp
      from rollback_after_failure_run [OF _ assms(2) _ _ _ _ this] law assms(3-7) late Some show ?thesis by auto
    qed
  qed
qed

lemma stage_and_activate_run:
  assumes "inv s" "uc_store c = ops" "valid (fst v)" "pend s = None" "\<not> same_build (act s) (fst v)" "stage_and_activate c v faults s = (x, s')"
  shows "inv s' \<and> settles (act s') (pend s') = act s \<and> (\<forall>y. x = Ok y \<longrightarrow> y = (fst v, \<lparr> arc_activated = fst v, arc_previous = act s \<rparr>) \<and>
    act s' = Some (fst v) \<and> pend s' = Some (snd y) \<and> (\<forall>p. act s = Some p \<longrightarrow> held s' p))"
  using assms(6) unfolding stage_and_activate_def assms(2)
proof (cases rule: ebind_runE)
  case (failed e)
  then show ?thesis using stage_law [OF assms(1) failed(1)] assms(4) by simp
next
  case st: (ran staged s1)
  have s1: "inv s1" "act s1 = act s" "pend s1 = None" "sta_descriptor staged = fst v"
    using stage_law [OF assms(1) st(1)] assms(4) by simp_all
  from st(2) show ?thesis
  proof (cases rule: ebind_elift_runE)
    case (failed e)
    then show ?thesis using s1 by simp
  next
    case (ran u)
    have new: "valid (sta_descriptor staged)" "\<not> same_build (act s1) (sta_descriptor staged)" using s1 assms(3,5) by simp_all
    from ran(2) show ?thesis
    proof (cases rule: ebind_runE)
      case (failed e)
      then show ?thesis using activate_law [OF s1(1) new(1) s1(3) new(2) failed(1)] s1(2) by simp
    next
      case (ran r s2)
      have "x = Ok (fst v, r)" "s' = s2" using ran(2) by simp_all
      moreover have "held s1 p" if "act s = Some p" for p using act_held [OF s1(1), of p] s1(2) that by simp
      ultimately show ?thesis using activate_law [OF s1(1) new(1) s1(3) new(2) ran(1)] s1(2,4) by simp
    qed
  qed
qed

lemma apply_run:
  assumes "inv s" "uc_store c = ops" "provider_reads inv act pend valid (uc_provider c)"
    "apply_with_faults env c request rv pv faults s = (x, s')"
  defines "before \<equiv> settles (act s) (pend s)"
  shows "inv s' \<and>
    (settles (act s') (pend s') = before \<or> (\<exists>d. settles (act s') (pend s') = Some d \<and> approved env c request rv pv d)) \<and>
    (case x of Inr UO_NoUpdate \<Rightarrow> act s' = before \<and> pend s' = None
     | Inr (UO_Applied d) \<Rightarrow> act s' = Some d \<and> pend s' = None \<and> approved env c request rv pv d
     | Inr (UO_RolledBack d e) \<Rightarrow> act s' = before \<and> pend s' = None
     | Inl _ \<Rightarrow> True)"
  using assms(4) unfolding apply_with_faults_def assms(2)
proof (cases rule: ebind_runE)
  case (failed e)
  then show ?thesis using recover_law [OF assms(1) failed(1)] by (simp add: before_def)
next
  case rec: (ran u s1)
  have r: "st_recover ops s = (Ok (), s1)" using rec(1) by simp
  have s1: "inv s1" "pend s1 = None" "settles (act s1) (pend s1) = before"
    unfolding before_def using recover_law [OF assms(1) r] by blast+
  then have s1: "inv s1" "pend s1 = None" "act s1 = before" by simp_all
  have kept: ?thesis if "x = Err e" "inv s'" "act s' = act s1" "pend s' = pend s1" for e
    using that s1 by simp
  from rec(2) show ?thesis
  proof (cases rule: ebind_runE)
    case (failed e)
    then show ?thesis using kept select_candidate_run [OF s1(1) assms(2,3) failed(1)] by simp
  next
    case sel: (ran found s2)
    note sel' = select_candidate_run [OF s1(1) assms(2,3) sel(1)]
    show ?thesis
    proof (cases found)
      case None
      then have "x = Ok UO_NoUpdate" "s' = s2" using sel(2) by simp_all
      then show ?thesis using sel' s1 by simp
    next
      case (Some d)
      have d: "valid d" "\<not> same_build before d" using sel' Some s1(3) by simp_all
      from sel(2) [simplified Some option.case] show ?thesis
      proof (cases rule: ebind_elift_runE)
        case (failed e)
        then show ?thesis using kept sel' by simp
      next
        case (ran u1)
        from ran(2) show ?thesis
        proof (cases rule: ebind_runE)
          case (failed e)
          then show ?thesis using kept sel' fetch_verified_run [OF conjunct1 [OF conjunct1 [OF sel']] assms(3) failed(1)] by simp
        next
          case fet: (ran verified s3)
          note fet' = fetch_verified_run [OF conjunct1 [OF conjunct1 [OF sel']] assms(3) fet(1)]
          have v: "fst verified = d" using fet' by simp
          from fet(2) show ?thesis
          proof (cases rule: ebind_elift_runE)
            case (failed e)
            then show ?thesis using kept sel' fet' by simp
          next
            case (ran u2)
            have s3: "inv s3" "pend s3 = None" "act s3 = before" using sel' fet' s1 by simp_all
            have new: "valid (fst verified)" "\<not> same_build (act s3) (fst verified)" using d v s3(3) by simp_all
            from ran(2) show ?thesis
            proof (cases rule: ebind_runE)
              case (failed e)
              then show ?thesis using stage_and_activate_run [OF s3(1) assms(2) new(1) s3(2) new(2) failed(1)] s3(3) by simp
            next
              case sta: (ran activated s4)
              let ?r = "\<lparr> arc_activated = d, arc_previous = before \<rparr>"
              have a: "activated = (d, ?r)" "inv s4" "act s4 = Some d" "pend s4 = Some ?r" "\<And>p. before = Some p \<Longrightarrow> held s4 p"
                using stage_and_activate_run [OF s3(1) assms(2) new(1) s3(2) new(2) sta(1)] s3(3) v by simp_all
              have ok: "approved env c request rv pv d" if "\<exists>health. uc_health c = Some health \<and> health d = Ok ()"
                unfolding approved_def using sel' Some fet' that by simp
              have "finish_activation c (d, ?r) faults s4 = (x, s')" using sta(2) a(1) by simp
              from finish_activation_run [OF a(2) assms(2) a(3,4) _ _ _ this] a(5) d(2) ok show ?thesis
                by (cases x) (auto split: update_outcome.splits)
            qed
          qed
        qed
      qed
    qed
  qed
qed

text \<open>A candidate that is only prepared awaits its health check: recovery would undo it.\<close>

lemma stage_candidate_run:
  assumes "inv s" "uc_store c = ops" "provider_reads inv act pend valid (uc_provider c)"
    "stage_candidate env c request rv pv s = (x, s')"
  defines "before \<equiv> settles (act s) (pend s)"
  shows "inv s' \<and> settles (act s') (pend s') = before \<and> (\<forall>y. x = Ok y \<longrightarrow> act s' = before \<and> pend s' = None) \<and>
    (\<forall>st. x = Ok (US_Staged st) \<longrightarrow> valid (sta_descriptor st) \<and> \<not> same_build before (sta_descriptor st))"
  using assms(4) unfolding stage_candidate_def assms(2)
proof (cases rule: ebind_runE)
  case (failed e)
  then show ?thesis using recover_law [OF assms(1) failed(1)] by (simp add: before_def)
next
  case rec: (ran u s1)
  have r: "st_recover ops s = (Ok (), s1)" using rec(1) by simp
  have "inv s1" "pend s1 = None" "settles (act s1) (pend s1) = before"
    unfolding before_def using recover_law [OF assms(1) r] by blast+
  then have s1: "inv s1" "pend s1 = None" "act s1 = before" by simp_all
  from rec(2) show ?thesis
  proof (cases rule: ebind_runE)
    case (failed e)
    then show ?thesis using select_candidate_run [OF s1(1) assms(2,3) failed(1)] s1 by simp
  next
    case sel: (ran found s2)
    note sel' = select_candidate_run [OF s1(1) assms(2,3) sel(1)]
    show ?thesis
    proof (cases found)
      case None
      then have "x = Ok US_NoUpdate" "s' = s2" using sel(2) by simp_all
      then show ?thesis using sel' s1 by simp
    next
      case (Some d)
      have d: "valid d" "\<not> same_build before d" using sel' Some s1(3) by simp_all
      have s2: "inv s2" using sel' by simp
      from sel(2) [simplified Some option.case] show ?thesis
      proof (cases rule: ebind_runE)
        case (failed e)
        then show ?thesis using fetch_verified_run [OF s2 assms(3) failed(1)] sel' s1 by simp
      next
        case fet: (ran verified s3)
        note fet' = fetch_verified_run [OF s2 assms(3) fet(1)]
        have s3: "inv s3" "fst verified = d" using fet' by simp_all
        have "ebind (st_stage ops (fst verified) (snd verified)) (\<lambda>staged. eret (US_Staged staged)) s3 = (x, s')"
          using fet(2) by (cases verified) simp
        then show ?thesis
        proof (cases rule: ebind_runE)
          case (failed e)
          then show ?thesis using stage_law [OF s3(1) failed(1)] fet' sel' s1 by simp
        next
          case (ran staged s4)
          then have "x = Ok (US_Staged staged)" "s' = s4" by simp_all
          then show ?thesis using stage_law [OF s3(1) ran(1)] fet' sel' s1 s3(2) d by simp
        qed
      qed
    qed
  qed
qed

lemma prepare_run:
  assumes "inv s" "uc_store c = ops" "provider_reads inv act pend valid (uc_provider c)"
    "prepare_update env c request rv pv s = (x, s')"
  defines "before \<equiv> settles (act s) (pend s)"
  shows "inv s' \<and> settles (act s') (pend s') = before \<and>
    (\<forall>d. x = Ok (UP_AwaitingHealth d) \<longrightarrow> act s' = Some d \<and> pend s' = Some \<lparr> arc_activated = d, arc_previous = before \<rparr>)"
  using assms(4) unfolding prepare_update_def
proof (cases rule: ebind_runE)
  case (failed e)
  then show ?thesis using stage_candidate_run [OF assms(1-3) failed(1)] by (simp add: before_def)
next
  case sta: (ran staging s1)
  note s1 = stage_candidate_run [OF assms(1-3) sta(1), folded before_def]
  show ?thesis
  proof (cases staging)
    case US_NoUpdate
    then have "x = Ok UP_NoUpdate" "s' = s1" using sta(2) by simp_all
    then show ?thesis using s1 by simp
  next
    case (US_Staged st)
    have new: "inv s1" "valid (sta_descriptor st)" "pend s1 = None" "\<not> same_build (act s1) (sta_descriptor st)" "act s1 = before"
      using s1 US_Staged by auto
    from sta(2) [unfolded US_Staged update_staging.case assms(2)] show ?thesis
    proof (cases rule: ebind_runE)
      case (failed e)
      then show ?thesis using activate_law [OF new(1-4) failed(1)] new(5) by simp
    next
      case (ran r s2)
      then have "x = Ok (UP_AwaitingHealth (arc_activated r))" "s' = s2" by simp_all
      then show ?thesis using activate_law [OF new(1-4) ran(1)] new(5) by simp
    qed
  qed
qed

end

end
