(* ===== verification/Update_Files.thy ===== *)
theory Update_Files
  imports Update_Safety
begin

text \<open>
  The store in a directory is a reversible store. Its state is read from the files: the active pointer, the pending receipt and
  the installed artifacts (\<open>guarded\<close> paths). Every operation either leaves them alone or replaces one of them as a whole.
\<close>

section \<open>Paths of the store\<close>

definition guarded :: "path \<Rightarrow> path \<Rightarrow> bool" where
  "guarded root q \<longleftrightarrow> q = active_pointer root \<or> q = pending_activation root \<or> (\<exists>b. q = artifact_path root b)"

definition untouched :: "path \<Rightarrow> fs \<Rightarrow> fs \<Rightarrow> bool" where
  "untouched root s s' \<longleftrightarrow> (\<forall>q. guarded root q \<longrightarrow> fs_nodes s' q = fs_nodes s q)"

definition temporary_like :: "path \<Rightarrow> path \<Rightarrow> bool" where
  "temporary_like p q \<longleftrightarrow> (\<exists>m n. q = with_extension p (''tmp-'' @ nat_dec m @ ''-'' @ nat_dec n))"

definition plain_name :: "path \<Rightarrow> bool" where
  "plain_name p \<longleftrightarrow> p \<noteq> [] \<and> last p \<noteq> [] \<and> \<not> is_ascii_digit (last (last p))"

lemma plain_not_temporary:
  assumes "plain_name p" "temporary_like q t"
  shows "t \<noteq> p"
proof
  assume e: "t = p"
  obtain m n where t: "t = with_extension q (''tmp-'' @ nat_dec m @ ''-'' @ nat_dec n)" using assms(2) by (auto simp: temporary_like_def)
  have "q \<noteq> []" using t e assms(1) by (auto simp: with_extension_def plain_name_def)
  then have "last (last t) = last (nat_dec n)" using t by (simp add: with_extension_def)
  moreover have "is_ascii_digit (last (nat_dec n))" using nat_dec_digits [of n] by (simp add: list_all_iff)
  ultimately show False using assms(1) e by (simp add: plain_name_def)
qed

lemma plain_names [simp]:
  "plain_name (active_pointer root)" "plain_name (previous_pointer root)" "plain_name (pending_activation root)"
  "plain_name (artifact_path root b)" "plain_name (staged_path root b)"
  by (simp_all add: plain_name_def active_pointer_def previous_pointer_def pending_activation_def artifact_path_def staged_path_def
      is_ascii_digit_def byte_of_def)

lemma guarded_plain: "guarded root q \<Longrightarrow> plain_name q"
  by (auto simp: guarded_def)

lemma plain_not_prefix: "plain_name p \<Longrightarrow> \<not> prefix p (butlast p)"
  using prefix_length_le [of p "butlast p"] by (cases p) (auto simp: plain_name_def)

lemma guarded_no_prefix:
  assumes "guarded root q"
  shows "\<not> prefix q root" "\<not> prefix q (root @ [''artifacts''])" "\<not> prefix q (root @ [''staged''])"
  using assms by (auto simp: guarded_def active_pointer_def pending_activation_def artifact_path_def dest: prefix_length_le)

lemma guarded_other:
  "guarded root q \<Longrightarrow> q \<noteq> previous_pointer root" "guarded root q \<Longrightarrow> q \<noteq> staged_path root b"
  "active_pointer root \<noteq> pending_activation root" "active_pointer root \<noteq> artifact_path root b" "pending_activation root \<noteq> artifact_path root b"
  by (auto simp: guarded_def active_pointer_def previous_pointer_def pending_activation_def artifact_path_def staged_path_def)

lemma guarded_simps [simp]:
  "guarded root (active_pointer root)" "guarded root (pending_activation root)" "guarded root (artifact_path root b)"
  by (auto simp: guarded_def)

lemma parents:
  "butlast (active_pointer root) = root" "butlast (previous_pointer root) = root" "butlast (pending_activation root) = root"
  "butlast (artifact_path root b) = root @ [''artifacts'']" "butlast (staged_path root b) = root @ [''staged'']"
  by (simp_all add: active_pointer_def previous_pointer_def pending_activation_def artifact_path_def staged_path_def butlast_append)

section \<open>What the file operations touch\<close>

lemma untouched_rt: "reflp (untouched root)" "transp (untouched root)"
  by (auto simp: untouched_def reflp_def transp_def)

lemma untouched_inspects: "inspects m \<Longrightarrow> keeps (\<lambda>_. True) (untouched root) m"
  by (auto simp: keeps_def untouched_def inspects_def Let_def)

lemma inspects_same:
  assumes "inspects k" "\<And>s x s'. m s = (x, s') \<Longrightarrow> \<exists>r. k s = (r, s')"
  shows "inspects m"
  unfolding inspects_def Let_def
proof
  fix s
  obtain x s' where m: "m s = (x, s')" by (cases "m s")
  then obtain r where "k s = (r, s')" using assms(2) by blast
  then show "fs_nodes (snd (m s)) = fs_nodes s \<and> fs_temp_counter (snd (m s)) = fs_temp_counter s \<and> fs_pid (snd (m s)) = fs_pid s"
    using assms(1) m unfolding inspects_def Let_def by (metis snd_conv)
qed

lemma reject_inspects: "inspects (reject_directory p)" "inspects (reject_optional_regular_file p)"
proof -
  have i: "inspects (fs_symlink_metadata p)" unfolding fs_symlink_metadata_def by (intro sys_call_inspects inspects_pure)
  show "inspects (reject_directory p)" unfolding reject_directory_def by (intro inspects_ebind inspects_as_err i) auto
  show "inspects (reject_optional_regular_file p)"
    by (rule inspects_same [OF i])
      (auto simp: reject_optional_regular_file_def split: prod.splits sum.splits io_kind.splits node.splits)
qed

lemma read_optional_inspects: "inspects (read_optional_file p n)"
  by (rule inspects_same [OF read_regular_inspects])
    (auto simp: read_optional_file_def split: prod.splits sum.splits file_read_error.splits)

lemma read_pointer_inspects: "inspects (read_pointer env p)" "inspects (store_current env root)" "inspects (read_pending_activation env root)"
  unfolding read_pointer_def store_current_def read_pending_activation_def
  by (auto intro!: inspects_ebind read_optional_inspects split: option.split)

lemma verify_inspects: "inspects (verify_artifact env p d)"
  unfolding verify_artifact_def by (auto intro!: inspects_ebind inspects_on_read_error read_regular_inspects)

text \<open>A file is replaced as a whole or stays, and nothing else of the store changes.\<close>

lemma update_atomic_write_nodes:
  assumes "update_atomic_write p bs s = (r, s')" "plain_name p"
  shows "(\<forall>q. plain_name q \<and> q \<noteq> p \<and> \<not> prefix q (butlast p) \<longrightarrow> fs_nodes s' q = fs_nodes s q) \<and>
    (fs_nodes s' p = fs_nodes s p \<or> fs_nodes s' p = Some (FileNode bs)) \<and> (r = Ok () \<longrightarrow> fs_nodes s' p = Some (FileNode bs))"
  using assms(1) unfolding update_atomic_write_def
proof (cases rule: ebind_runE)
  case (failed e)
  have "dirs_only (butlast p) s s'" by (rule keepsD [OF create_dir_all_dirs_only _ failed(1)]) simp
  moreover have "\<not> prefix p (butlast p)" by (rule plain_not_prefix [OF assms(2)])
  ultimately show ?thesis using failed(2) by (simp add: dirs_only_def)
next
  case (ran u s1)
  have d: "dirs_only (butlast p) s s1" by (rule keepsD [OF create_dir_all_dirs_only _ ran(1)]) simp
  have p: "\<not> prefix p (butlast p)" by (rule plain_not_prefix [OF assms(2)])
  have same: ?thesis if "fs_nodes s' = fs_nodes s1" "r \<noteq> Ok ()" using d p that by (simp add: dirs_only_def)
  from ran(2) show ?thesis
  proof (cases rule: ebind_runE)
    case (failed e)
    then show ?thesis using inspectsD [OF reject_inspects(1) failed(1)] same by simp
  next
    case dir: (ran u2 s2)
    have n2: "fs_nodes s2 = fs_nodes s1" by (rule inspectsD [OF reject_inspects(1) dir(1)])
    from dir(2) show ?thesis
    proof (cases rule: ebind_runE)
      case (failed e)
      then show ?thesis using inspectsD [OF reject_inspects(2) failed(1)] n2 same by simp
    next
      case reg: (ran u3 s3)
      have n3: "fs_nodes s3 = fs_nodes s1" using inspectsD [OF reject_inspects(2) reg(1)] n2 by simp
      from reg(2) show ?thesis
      proof (cases rule: ebind_runE)
        case (failed e)
        then show ?thesis by (simp add: update_temporary_def)
      next
        case tmp: (ran t s4)
        have t: "temporary_like p t" "fs_nodes s4 = fs_nodes s1" using tmp(1) n3 by (auto simp: update_temporary_def temporary_like_def)
        have tp: "t \<noteq> p" by (rule plain_not_temporary [OF assms(2) t(1)])
        have tq: "t \<noteq> q" if "plain_name q" for q by (rule plain_not_temporary [OF that t(1)])
        obtain x s5 where w: "write_and_rename store_failed t p (butlast p) bs s4 = (x, s5)"
          by (cases "write_and_rename store_failed t p (butlast p) bs s4")
        note n5 = write_and_rename_nodes [OF w tp]
        have f: "\<forall>q. plain_name q \<longrightarrow> fs_nodes s' q = fs_nodes s5 q" "r = Ok () \<longrightarrow> x = Ok ()"
          using tmp(2) w tq remove_file_nodes by (auto split: sum.splits) (metis snd_conv)
        have other: "fs_nodes s' q = fs_nodes s q" if q: "plain_name q" "q \<noteq> p" "\<not> prefix q (butlast p)" for q
        proof -
          have "fs_nodes s' q = fs_nodes s5 q" using f(1) q(1) by blast
          also have "\<dots> = fs_nodes s1 q" using n5 q(2) tq [OF q(1)] t(2) by auto
          also have "\<dots> = fs_nodes s q" using d q(3) by (simp add: dirs_only_def)
          finally show ?thesis .
        qed
        have "fs_nodes s' p = fs_nodes s5 p" "fs_nodes s4 p = fs_nodes s p" using f(1) assms(2) d p t(2) by (simp_all add: dirs_only_def)
        then show ?thesis using n5 f(2) other by auto
      qed
    qed
  qed
qed

lemma update_write_guarded:
  assumes "update_atomic_write p bs s = (r, s')" "plain_name p" "butlast p \<in> {root, root @ [''artifacts''], root @ [''staged'']}"
    "guarded root q" "q \<noteq> p"
  shows "fs_nodes s' q = fs_nodes s q"
  using update_atomic_write_nodes [OF assms(1,2)] assms(3-5) guarded_plain [OF assms(4)] guarded_no_prefix [OF assms(4)] by auto

lemma update_write_untouched:
  assumes "plain_name p" "butlast p \<in> {root, root @ [''artifacts''], root @ [''staged'']}" "\<not> guarded root p"
  shows "keeps (\<lambda>_. True) (untouched root) (update_atomic_write p bs)"
proof (rule keepsI)
  fix s
  obtain r s' where w: "update_atomic_write p bs s = (r, s')" by (cases "update_atomic_write p bs s")
  have "q \<noteq> p" if "guarded root q" for q using assms(3) that by blast
  then show "untouched root s (snd (update_atomic_write p bs s))"
    using update_write_guarded [OF w assms(1,2)] w by (simp add: untouched_def)
qed

lemma remove_if_exists_nodes:
  assumes "remove_if_exists p s = (r, s')"
  shows "(\<forall>q. q \<noteq> p \<longrightarrow> fs_nodes s' q = fs_nodes s q) \<and> (fs_nodes s' p = fs_nodes s p \<or> fs_nodes s' p = None) \<and>
    (r = Ok () \<longrightarrow> fs_nodes s' p = None)"
proof -
  obtain x s1 where x: "fs_remove_file p s = (x, s1)" by (cases "fs_remove_file p s")
  have n1: "(\<forall>q. q \<noteq> p \<longrightarrow> fs_nodes s1 q = fs_nodes s q) \<and> (fs_nodes s1 p = fs_nodes s p \<or> fs_nodes s1 p = None) \<and>
      (x = Ok () \<or> x = Err IK_NotFound \<longrightarrow> fs_nodes s1 p = None)"
    using x unfolding fs_remove_file_def by (auto elim!: sys_call_cases split: option.splits node.splits)
  have "fs_nodes s' = fs_nodes s1 \<and> (r = Ok () \<longrightarrow> x = Ok () \<or> x = Err IK_NotFound)"
    using assms x sync_parent_nodes unfolding remove_if_exists_def by (auto split: sum.splits io_kind.splits)
  then show ?thesis using n1 by auto
qed

lemma remove_untouched: "\<not> guarded root p \<Longrightarrow> keeps (\<lambda>_. True) (untouched root) (remove_if_exists p)"
proof (rule keepsI)
  fix s assume "\<not> guarded root p"
  moreover obtain r s' where "remove_if_exists p s = (r, s')" by (cases "remove_if_exists p s")
  ultimately show "untouched root s (snd (remove_if_exists p s))"
    using remove_if_exists_nodes [of p s r s'] unfolding untouched_def by (metis snd_conv)
qed

lemma not_guarded [simp]: "\<not> guarded root (previous_pointer root)" "\<not> guarded root (staged_path root b)"
  using guarded_other(1,2) by blast+

section \<open>The state of the store, read from its files\<close>

definition decoded :: "(bytes \<Rightarrow> 'a update_result) \<Rightarrow> fs \<Rightarrow> path \<Rightarrow> 'a option" where
  "decoded decode s p = (case fs_nodes s p of
     Some (FileNode bs) \<Rightarrow> (case decode bs of Inr d \<Rightarrow> Some d | Inl _ \<Rightarrow> None) | _ \<Rightarrow> None)"

definition readable :: "(bytes \<Rightarrow> 'a update_result) \<Rightarrow> ('a \<Rightarrow> bool) \<Rightarrow> fs \<Rightarrow> path \<Rightarrow> bool" where
  "readable decode P s p \<longleftrightarrow> (case fs_nodes s p of
     None \<Rightarrow> True | Some (FileNode bs) \<Rightarrow> length bs \<le> 1048576 \<and> (\<exists>d. decode bs = Ok d \<and> P d) | _ \<Rightarrow> False)"

definition active_of :: "'v update_env \<Rightarrow> path \<Rightarrow> fs \<Rightarrow> artifact option" where
  "active_of env root s = decoded (decode_pointer env) s (active_pointer root)"

definition pending_of :: "'v update_env \<Rightarrow> path \<Rightarrow> fs \<Rightarrow> activation_receipt option" where
  "pending_of env root s = decoded (decode_pending env) s (pending_activation root)"

definition held_in :: "'v update_env \<Rightarrow> path \<Rightarrow> fs \<Rightarrow> artifact \<Rightarrow> bool" where
  "held_in env root s d \<longleftrightarrow> artifact_ok (en_semver env) d \<and>
     (\<exists>bs. fs_nodes s (artifact_path root (af_build_id d)) = Some (FileNode bs) \<and> matches_descriptor env d bs)"

definition receipt_ok :: "'v update_env \<Rightarrow> path \<Rightarrow> fs \<Rightarrow> activation_receipt \<Rightarrow> bool" where
  "receipt_ok env root s r \<longleftrightarrow> held_in env root s (arc_activated r) \<and> (\<forall>p. arc_previous r = Some p \<longrightarrow> held_in env root s p) \<and>
     \<not> same_build (arc_previous r) (arc_activated r)"

text \<open>What the store relies on of \<open>serde_json\<close>: what it prints of valid descriptors, it reads back, and it fits the limit.\<close>

definition update_json_ok :: "'v update_env \<Rightarrow> bool" where
  "update_json_ok env \<longleftrightarrow>
     (\<forall>d bs. artifact_ok (en_semver env) d \<longrightarrow>
        en_pointer_to_json env \<lparr> pt_format_version = UPDATE_METADATA_FORMAT_VERSION, pt_descriptor = d \<rparr> = Some bs \<longrightarrow>
        en_pointer_from_json env bs = Some \<lparr> pt_format_version = UPDATE_METADATA_FORMAT_VERSION, pt_descriptor = d \<rparr> \<and> length bs \<le> 1048576) \<and>
     (\<forall>r bs. artifact_ok (en_semver env) (arc_activated r) \<longrightarrow> (\<forall>p. arc_previous r = Some p \<longrightarrow> artifact_ok (en_semver env) p) \<longrightarrow>
        en_pending_to_json env \<lparr> pd_format_version = UPDATE_METADATA_FORMAT_VERSION, pd_receipt = r \<rparr> = Some bs \<longrightarrow>
        en_pending_from_json env bs = Some \<lparr> pd_format_version = UPDATE_METADATA_FORMAT_VERSION, pd_receipt = r \<rparr> \<and> length bs \<le> 1048576)"

definition update_inv :: "'v update_env \<Rightarrow> path \<Rightarrow> fs \<Rightarrow> bool" where
  "update_inv env root s \<longleftrightarrow> update_json_ok env \<and>
     readable (decode_pointer env) (held_in env root s) s (active_pointer root) \<and>
     readable (decode_pending env) (receipt_ok env root s) s (pending_activation root)"

lemma decoded_readable: "readable decode P s p \<Longrightarrow> decoded decode s p = Some d \<Longrightarrow> P d"
  by (auto simp: readable_def decoded_def split: option.splits node.splits)

lemma readable_node [simp]:
  "fs_nodes s p = None \<Longrightarrow> readable decode P s p" "fs_nodes s p = None \<Longrightarrow> decoded decode s p = None"
  "fs_nodes s p = Some (FileNode bs) \<Longrightarrow> length bs \<le> 1048576 \<Longrightarrow> decode bs = Ok d \<Longrightarrow> P d \<Longrightarrow> readable decode P s p"
  "fs_nodes s p = Some (FileNode bs) \<Longrightarrow> decode bs = Ok d \<Longrightarrow> decoded decode s p = Some d"
  by (auto simp: readable_def decoded_def)

lemma readable_cong: "fs_nodes s' p = fs_nodes s p \<Longrightarrow> readable decode P s' p = readable decode P s p"
  by (simp add: readable_def split: option.split node.split)

lemma removed_readable: "readable decode P s p \<Longrightarrow> fs_nodes s' p = fs_nodes s p \<or> fs_nodes s' p = None \<Longrightarrow> readable decode P s' p"
  by (auto simp: readable_def)

lemma decoded_cong: "fs_nodes s' p = fs_nodes s p \<Longrightarrow> decoded decode s' p = decoded decode s p"
  by (simp add: decoded_def)

lemma held_mono:
  assumes "\<And>b. fs_nodes s (artifact_path root b) \<noteq> None \<Longrightarrow> fs_nodes s' (artifact_path root b) = fs_nodes s (artifact_path root b)"
  shows "held_in env root s d \<Longrightarrow> held_in env root s' d" "receipt_ok env root s r \<Longrightarrow> receipt_ok env root s' r"
  using assms unfolding receipt_ok_def held_in_def by (metis option.distinct(1))+

lemma held_same:
  assumes "\<And>b. fs_nodes s' (artifact_path root b) = fs_nodes s (artifact_path root b)"
  shows "held_in env root s' = held_in env root s" "receipt_ok env root s' = receipt_ok env root s"
  by (simp_all add: fun_eq_iff receipt_ok_def held_in_def assms)

lemma untouched_view:
  assumes "untouched root s s'"
  shows "active_of env root s' = active_of env root s" "pending_of env root s' = pending_of env root s"
    "held_in env root s' = held_in env root s" "update_inv env root s' = update_inv env root s"
proof -
  have n: "fs_nodes s' (active_pointer root) = fs_nodes s (active_pointer root)"
      "fs_nodes s' (pending_activation root) = fs_nodes s (pending_activation root)"
      "fs_nodes s' (artifact_path root b) = fs_nodes s (artifact_path root b)" for b
    using assms by (simp_all add: untouched_def)
  show "active_of env root s' = active_of env root s" "pending_of env root s' = pending_of env root s"
    unfolding active_of_def pending_of_def by (rule decoded_cong [OF n(1)], rule decoded_cong [OF n(2)])
  show h: "held_in env root s' = held_in env root s" by (rule held_same(1) [OF n(3)])
  show "update_inv env root s' = update_inv env root s"
    unfolding update_inv_def h held_same(2) [of s' root s, OF n(3)]
    unfolding readable_cong [OF n(1)] readable_cong [OF n(2)] by (rule refl)
qed

lemma keeps_view:
  assumes "keeps (\<lambda>_. True) (untouched root) m" "m s = (x, s')"
  shows "active_of env root s' = active_of env root s" "pending_of env root s' = pending_of env root s"
    "held_in env root s' = held_in env root s" "update_inv env root s' = update_inv env root s"
  using untouched_view [OF keepsD [OF assms(1) _ assms(2)]] by simp_all

text \<open>Replacing or removing the active pointer and the pending receipt.\<close>

lemma active_changed:
  assumes "update_inv env root s" "\<And>q. guarded root q \<Longrightarrow> q \<noteq> active_pointer root \<Longrightarrow> fs_nodes s' q = fs_nodes s q"
    "readable (decode_pointer env) (held_in env root s) s' (active_pointer root)"
  shows "update_inv env root s'" "pending_of env root s' = pending_of env root s" "held_in env root s' = held_in env root s"
proof -
  have n: "fs_nodes s' (pending_activation root) = fs_nodes s (pending_activation root)"
      "fs_nodes s' (artifact_path root b) = fs_nodes s (artifact_path root b)" for b
    using assms(2) guarded_other(3,4) by (metis guarded_simps(2), metis guarded_simps(3))
  show "pending_of env root s' = pending_of env root s" unfolding pending_of_def by (rule decoded_cong [OF n(1)])
  show h: "held_in env root s' = held_in env root s" by (rule held_same(1) [OF n(2)])
  show "update_inv env root s'"
    unfolding update_inv_def h held_same(2) [of s' root s, OF n(2)]
    unfolding readable_cong [OF n(1)] using assms(1,3) unfolding update_inv_def by blast
qed

lemma pending_changed:
  assumes "update_inv env root s" "\<And>q. guarded root q \<Longrightarrow> q \<noteq> pending_activation root \<Longrightarrow> fs_nodes s' q = fs_nodes s q"
    "readable (decode_pending env) (receipt_ok env root s) s' (pending_activation root)"
  shows "update_inv env root s'" "active_of env root s' = active_of env root s" "held_in env root s' = held_in env root s"
proof -
  have n: "fs_nodes s' (active_pointer root) = fs_nodes s (active_pointer root)"
      "fs_nodes s' (artifact_path root b) = fs_nodes s (artifact_path root b)" for b
    using assms(2) guarded_other(3,5) by (metis guarded_simps(1), metis guarded_simps(3))
  show "active_of env root s' = active_of env root s" unfolding active_of_def by (rule decoded_cong [OF n(1)])
  show h: "held_in env root s' = held_in env root s" by (rule held_same(1) [OF n(2)])
  show "update_inv env root s'"
    unfolding update_inv_def h held_same(2) [of s' root s, OF n(2)]
    unfolding readable_cong [OF n(1)] using assms(1,3) unfolding update_inv_def by blast
qed

section \<open>What the operations do to that state\<close>

lemma read_kind_NotFound: "read_kind m s = (Err FR_NotFound, s') \<longleftrightarrow> m s = (Err IK_NotFound, s')"
  by (auto simp: read_kind_def map_err_def split: prod.splits sum.splits io_kind.splits)

lemma read_regular_NotFound:
  assumes "read_regular_file_bounded p n s = (Err FR_NotFound, s')"
  shows "fs_nodes s p = None"
  using assms unfolding read_regular_file_bounded_def
proof (cases rule: ebind_runE)
  case (failed e)
  then have "fs_symlink_metadata p s = (Err IK_NotFound, s')" using read_kind_NotFound by fastforce
  then show ?thesis unfolding fs_symlink_metadata_def by (auto simp: ok_or_def elim!: sys_call_cases split: option.splits)
next
  case (ran md s1)
  have i: "inspects (fs_symlink_metadata p)" unfolding fs_symlink_metadata_def by (intro sys_call_inspects inspects_pure)
  have n1: "fs_nodes s1 = fs_nodes s" by (rule inspectsD [OF inspects_read_kind [OF i] ran(1)])
  have md: "(md = LinkNode) = False" using ran(2) by auto
  from ran(2) [unfolded md if_False] show ?thesis
  proof (cases rule: ebind_runE)
    case (failed e)
    then have "fs_open_read p s1 = (Err IK_NotFound, s')" using read_kind_NotFound by fastforce
    then show ?thesis using n1 unfolding fs_open_read_def by (auto elim!: sys_call_cases split: option.splits node.splits)
  next
    case op: (ran f s2)
    from op(2) show ?thesis
    proof (cases rule: ebind_runE)
      case (failed e)
      then have "sys_call (eret f) s2 = (Err IK_NotFound, s')" using read_kind_NotFound by fastforce
      then show ?thesis by (auto elim!: sys_call_cases)
    next
      case md: (ran md' s3)
      then obtain content where "ebind (read_kind (fs_read content (n + 1))) (\<lambda>bs. if n < length bs then efail FR_TooLarge else eret bs) s3
          = (Err FR_NotFound, s')" by (cases md') auto
      then show ?thesis
      proof (cases rule: ebind_runE)
        case (failed e)
        then have "fs_read content (n + 1) s3 = (Err IK_NotFound, s')" using read_kind_NotFound by fastforce
        then show ?thesis unfolding fs_read_def by (auto elim!: sys_call_cases)
      next
        case (ran bs s4)
        then show ?thesis by (auto split: if_splits)
      qed
    qed
  qed
qed

lemma optional_read_Ok:
  assumes "read_optional_file p n s = (Ok x, s')"
  shows "fs_nodes s p = map_option FileNode x"
  using assms read_regular_NotFound [of p n s] read_regular_Ok [of p n s]
  by (cases "read_regular_file_bounded p n s")
    (auto simp: read_optional_file_def split: sum.splits file_read_error.splits)

lemma read_decoded:
  assumes "ebind (read_optional_file p n) (\<lambda>found. case found of
      None \<Rightarrow> eret None | Some bs \<Rightarrow> elift (\<lambda>_. rbind (decode bs) (\<lambda>d. Ok (Some d)))) s = (Ok x, s')"
  shows "x = decoded decode s p"
  using assms
proof (cases rule: ebind_runE)
  case (ran found s1)
  then show ?thesis using optional_read_Ok [OF ran(1)] by (cases found) (auto simp: decoded_def rbind_Inr_iff)
qed simp

lemma store_reads:
  "store_current env root s = (Ok x, s') \<Longrightarrow> x = active_of env root s"
  "read_pending_activation env root s = (Ok r, s') \<Longrightarrow> r = pending_of env root s"
  unfolding store_current_def read_pointer_def read_pending_activation_def active_of_def pending_of_def by (erule read_decoded)+

lemmas current_view = keeps_view [OF untouched_inspects [OF read_pointer_inspects(2)]]
lemmas pending_view = keeps_view [OF untouched_inspects [OF read_pointer_inspects(3)]]

lemma write_active_run:
  assumes "update_inv env root s" "held_in env root s d" "write_pointer env (active_pointer root) d s = (r, s')"
  shows "update_inv env root s' \<and> pending_of env root s' = pending_of env root s \<and> held_in env root s' = held_in env root s \<and>
    (active_of env root s' = active_of env root s \<or> active_of env root s' = Some d) \<and> (r = Ok () \<longrightarrow> active_of env root s' = Some d)"
  using assms(3) unfolding write_pointer_def
proof (cases rule: ebind_elift_runE)
  case (failed e)
  then show ?thesis using assms(1) by simp
next
  case (ran bs)
  have "artifact_ok (en_semver env) d" using assms(2) by (simp add: held_in_def)
  moreover have "en_pointer_to_json env \<lparr> pt_format_version = UPDATE_METADATA_FORMAT_VERSION, pt_descriptor = d \<rparr> = Some bs"
    using ran(1) by (simp add: ok_or_def split: option.splits)
  ultimately have j: "en_pointer_from_json env bs = Some \<lparr> pt_format_version = UPDATE_METADATA_FORMAT_VERSION, pt_descriptor = d \<rparr>"
      "length bs \<le> 1048576" "artifact_validate (en_semver env) d = Ok ()"
    using assms(1) unfolding update_inv_def update_json_ok_def artifact_ok_def by blast+
  have dec: "decode_pointer env bs = Ok d" using j by (simp add: decode_pointer_def)
  note w = update_atomic_write_nodes [OF ran(2) plain_names(1)]
  have other: "fs_nodes s' q = fs_nodes s q" if "guarded root q" "q \<noteq> active_pointer root" for q
    by (rule update_write_guarded [OF ran(2) plain_names(1) _ that]) (simp add: parents)
  have red: "readable (decode_pointer env) (held_in env root s) s' (active_pointer root)"
  proof (cases "fs_nodes s' (active_pointer root) = Some (FileNode bs)")
    case True
    then show ?thesis using j(2) dec assms(2) by simp
  next
    case False
    then have "fs_nodes s' (active_pointer root) = fs_nodes s (active_pointer root)" using w by blast
    from readable_cong [OF this] show ?thesis using assms(1) unfolding update_inv_def by blast
  qed
  note c = active_changed [OF assms(1) other red]
  have "active_of env root s' = active_of env root s" if "fs_nodes s' (active_pointer root) = fs_nodes s (active_pointer root)"
    unfolding active_of_def by (rule decoded_cong [OF that])
  moreover have "active_of env root s' = Some d" if "fs_nodes s' (active_pointer root) = Some (FileNode bs)"
    unfolding active_of_def by (simp add: decoded_def that dec)
  ultimately show ?thesis using c w by blast
qed

lemma write_pending_run:
  assumes "update_inv env root s" "receipt_ok env root s t" "write_pending_activation env root t s = (r, s')"
  shows "update_inv env root s' \<and> active_of env root s' = active_of env root s \<and> held_in env root s' = held_in env root s \<and>
    (pending_of env root s' = pending_of env root s \<or> pending_of env root s' = Some t) \<and> (r = Ok () \<longrightarrow> pending_of env root s' = Some t)"
  using assms(3) unfolding write_pending_activation_def
proof (cases rule: ebind_elift_runE)
  case (failed e)
  then show ?thesis using assms(1) by simp
next
  case (ran bs)
  have ok: "artifact_ok (en_semver env) (arc_activated t)" "\<forall>p. arc_previous t = Some p \<longrightarrow> artifact_ok (en_semver env) p"
    using assms(2) by (simp_all add: receipt_ok_def held_in_def)
  have "en_pending_to_json env \<lparr> pd_format_version = UPDATE_METADATA_FORMAT_VERSION, pd_receipt = t \<rparr> = Some bs"
    using ran(1) by (simp add: ok_or_def split: option.splits)
  then have j: "en_pending_from_json env bs = Some \<lparr> pd_format_version = UPDATE_METADATA_FORMAT_VERSION, pd_receipt = t \<rparr>"
      "length bs \<le> 1048576"
    using assms(1) ok unfolding update_inv_def update_json_ok_def by blast+
  have dec: "decode_pending env bs = Ok t" using j ok by (auto simp: decode_pending_def artifact_ok_def split: option.splits)
  note w = update_atomic_write_nodes [OF ran(2) plain_names(3)]
  have other: "fs_nodes s' q = fs_nodes s q" if "guarded root q" "q \<noteq> pending_activation root" for q
    by (rule update_write_guarded [OF ran(2) plain_names(3) _ that]) (simp add: parents)
  have red: "readable (decode_pending env) (receipt_ok env root s) s' (pending_activation root)"
  proof (cases "fs_nodes s' (pending_activation root) = Some (FileNode bs)")
    case True
    then show ?thesis using j(2) dec assms(2) by simp
  next
    case False
    then have "fs_nodes s' (pending_activation root) = fs_nodes s (pending_activation root)" using w by blast
    from readable_cong [OF this] show ?thesis using assms(1) unfolding update_inv_def by blast
  qed
  note c = pending_changed [OF assms(1) other red]
  have "pending_of env root s' = pending_of env root s" if "fs_nodes s' (pending_activation root) = fs_nodes s (pending_activation root)"
    unfolding pending_of_def by (rule decoded_cong [OF that])
  moreover have "pending_of env root s' = Some t" if "fs_nodes s' (pending_activation root) = Some (FileNode bs)"
    unfolding pending_of_def by (simp add: decoded_def that dec)
  ultimately show ?thesis using c w by blast
qed

lemma remove_active_run:
  assumes "update_inv env root s" "remove_if_exists (active_pointer root) s = (r, s')"
  shows "update_inv env root s' \<and> pending_of env root s' = pending_of env root s \<and> held_in env root s' = held_in env root s \<and>
    (active_of env root s' = active_of env root s \<or> active_of env root s' = None) \<and> (r = Ok () \<longrightarrow> active_of env root s' = None)"
proof -
  note w = remove_if_exists_nodes [OF assms(2)]
  have red: "readable (decode_pointer env) (held_in env root s) s' (active_pointer root)"
    using assms(1) w removed_readable unfolding update_inv_def by blast
  have other: "fs_nodes s' q = fs_nodes s q" if "guarded root q" "q \<noteq> active_pointer root" for q using w that(2) by blast
  note c = active_changed [OF assms(1) other red]
  have "active_of env root s' = active_of env root s" if "fs_nodes s' (active_pointer root) = fs_nodes s (active_pointer root)"
    unfolding active_of_def by (rule decoded_cong [OF that])
  moreover have "active_of env root s' = None" if "fs_nodes s' (active_pointer root) = None"
    unfolding active_of_def by (rule readable_node(2) [OF that])
  ultimately show ?thesis using c conjunct2 [OF w] by metis
qed

lemma remove_pending_run:
  assumes "update_inv env root s" "remove_if_exists (pending_activation root) s = (r, s')"
  shows "update_inv env root s' \<and> active_of env root s' = active_of env root s \<and> held_in env root s' = held_in env root s \<and>
    (pending_of env root s' = pending_of env root s \<or> pending_of env root s' = None) \<and> (r = Ok () \<longrightarrow> pending_of env root s' = None)"
proof -
  note w = remove_if_exists_nodes [OF assms(2)]
  have red: "readable (decode_pending env) (receipt_ok env root s) s' (pending_activation root)"
    using assms(1) w removed_readable unfolding update_inv_def by blast
  have other: "fs_nodes s' q = fs_nodes s q" if "guarded root q" "q \<noteq> pending_activation root" for q using w that(2) by blast
  note c = pending_changed [OF assms(1) other red]
  have "pending_of env root s' = pending_of env root s" if "fs_nodes s' (pending_activation root) = fs_nodes s (pending_activation root)"
    unfolding pending_of_def by (rule decoded_cong [OF that])
  moreover have "pending_of env root s' = None" if "fs_nodes s' (pending_activation root) = None"
    unfolding pending_of_def by (rule readable_node(2) [OF that])
  ultimately show ?thesis using c conjunct2 [OF w] by metis
qed

lemma create_dirs_untouched:
  assumes "p \<in> {root, root @ [''artifacts''], root @ [''staged'']}"
  shows "keeps (\<lambda>_. True) (untouched root) (fs_create_dir_all p)"
proof (rule keepsI)
  fix s
  obtain r s' where m: "fs_create_dir_all p s = (r, s')" by (cases "fs_create_dir_all p s")
  then have a: "as_err store_failed (fs_create_dir_all p) s = (map_err (\<lambda>_. store_failed) r, s')" by (simp add: as_err_def)
  have "dirs_only p s s'" by (rule keepsD [OF create_dir_all_dirs_only _ a]) simp
  then show "untouched root s (snd (fs_create_dir_all p s))"
    using assms guarded_no_prefix [of root] m by (auto simp: dirs_only_def untouched_def)
qed

lemma untouched_bind:
  assumes "keeps (\<lambda>_. True) (untouched root) m" "\<And>x. keeps (\<lambda>_. True) (untouched root) (f x)"
  shows "keeps (\<lambda>_. True) (untouched root) (ebind m f)"
  by (rule keeps_ebind [OF untouched_rt(2) _ assms]) simp

lemma initialize_untouched: "keeps (\<lambda>_. True) (untouched root) (store_initialize root)"
  unfolding store_initialize_def
  by (intro untouched_bind keeps_as_err create_dirs_untouched untouched_inspects reject_inspects) simp_all

lemma stage_untouched: "keeps (\<lambda>_. True) (untouched root) (store_stage env root d bs)"
proof -
  note pure = keeps_pure [OF untouched_rt(1)]
  have "keeps (\<lambda>_. True) (untouched root) (update_atomic_write (staged_path root b) bs)" for b
    by (rule update_write_untouched) (simp_all add: parents)
  then show ?thesis unfolding store_stage_def Let_def
    by (auto intro!: untouched_bind initialize_untouched pure)
qed

lemma stage_Ok: "store_stage env root d bs s = (Ok st, s') \<Longrightarrow> sta_descriptor st = d"
  unfolding store_stage_def by (auto simp: ebind_Ok_iff Let_def split: if_splits)

lemma write_previous_untouched: "keeps (\<lambda>_. True) (untouched root) (write_pointer env (previous_pointer root) d)"
  unfolding write_pointer_def
  by (intro untouched_bind keeps_pure(3) [OF untouched_rt(1)] update_write_untouched) (simp_all add: parents)

lemmas remove_previous_view = keeps_view [OF remove_untouched [OF not_guarded(1)]]

lemma hard_link_nodes:
  assumes "fs_hard_link p q s = (r, s')"
  shows "fs_nodes s' = fs_nodes s \<and> r \<noteq> Ok True \<or>
    (\<exists>content. r = Ok True \<and> fs_nodes s p = Some (FileNode content) \<and> fs_nodes s q = None \<and> fs_nodes s' = (fs_nodes s)(q \<mapsto> FileNode content))"
  using assms unfolding fs_hard_link_def by (auto elim!: sys_call_cases split: if_splits option.splits node.splits)

lemma verify_Ok:
  assumes "verify_artifact env p d s = (Ok u, s')"
  shows "\<exists>bs. fs_nodes s p = Some (FileNode bs) \<and> matches_descriptor env d bs"
  using assms unfolding verify_artifact_def
proof (cases rule: ebind_runE)
  case (ran bs s1)
  then have "read_regular_file_bounded p (unat (af_size_bytes d)) s = (Ok bs, s1)"
    by (auto simp: on_read_error_def split: prod.splits)
  from read_regular_Ok [OF this] ran(2) show ?thesis by (auto split: if_splits)
qed simp

text \<open>Installing adds the artifact and overwrites nothing.\<close>

lemma install_nodes:
  assumes "install_artifact env (staged_path root b) (artifact_path root (af_build_id d)) d s = (r, s')" "artifact_ok (en_semver env) d"
    "fs_nodes s (staged_path root b) = Some (FileNode bs)" "matches_descriptor env d bs"
  shows "(\<forall>q. guarded root q \<and> (fs_nodes s q \<noteq> None \<or> q \<noteq> artifact_path root (af_build_id d)) \<longrightarrow> fs_nodes s' q = fs_nodes s q) \<and>
    (r = Ok () \<longrightarrow> held_in env root s' d)"
proof -
  let ?target = "artifact_path root (af_build_id d)"
  have rest: "untouched root s1 s2" if "remove_if_exists (staged_path root b) s1 = (r', s2)" for s1 r' s2
    by (rule keepsD [OF remove_untouched [OF not_guarded(2)] _ that]) simp
  show ?thesis using assms(1) unfolding install_artifact_def
  proof (cases rule: ebind_runE)
    case (failed e)
    then have "fs_nodes s' = fs_nodes s" using hard_link_nodes by (fastforce simp: as_err_eval)
    then show ?thesis using failed by simp
  next
    case (ran linked s1)
    have l: "fs_hard_link (staged_path root b) ?target s = (Ok linked, s1)" using ran(1) by (simp add: as_err_Ok)
    show ?thesis
    proof (cases linked)
      case True
      have n: "fs_nodes s ?target = None" "fs_nodes s1 = (fs_nodes s)(?target \<mapsto> FileNode bs)" using hard_link_nodes [OF l] True assms(3) by auto
      have "remove_if_exists (staged_path root b) s1 = (r, s')" using ran(2) True by (simp add: ebind_eval)
      note u = rest [OF this]
      have "fs_nodes s' ?target = Some (FileNode bs)" using u n(2) by (simp add: untouched_def)
      then have "held_in env root s' d" using assms(2,4) by (auto simp: held_in_def)
      moreover have "fs_nodes s' q = fs_nodes s q" if "guarded root q" "fs_nodes s q \<noteq> None \<or> q \<noteq> ?target" for q
        using u n that by (auto simp: untouched_def)
      ultimately show ?thesis by blast
    next
      case False
      have n: "fs_nodes s1 = fs_nodes s" using hard_link_nodes [OF l] False by auto
      from ran(2) [unfolded if_not_P [OF False]] show ?thesis
      proof (cases rule: ebind_runE)
        case (failed e)
        then show ?thesis using inspectsD [OF verify_inspects failed(1)] n by simp
      next
        case ver: (ran u s2)
        have n2: "fs_nodes s2 = fs_nodes s" using inspectsD [OF verify_inspects ver(1)] n by simp
        obtain bs' where f: "fs_nodes s ?target = Some (FileNode bs')" "matches_descriptor env d bs'" using verify_Ok [OF ver(1)] n by auto
        have u: "fs_nodes s' q = fs_nodes s q" if "guarded root q" for q using rest [OF ver(2)] n2 that by (simp add: untouched_def)
        have "held_in env root s' d" using f u [of ?target] assms(2) by (auto simp: held_in_def)
        then show ?thesis using u by blast
      qed
    qed
  qed
qed

lemma install_run:
  assumes "install_artifact env (staged_path root b) (artifact_path root (af_build_id d)) d s = (r, s')" "artifact_ok (en_semver env) d"
    "fs_nodes s (staged_path root b) = Some (FileNode bs)" "matches_descriptor env d bs" "update_inv env root s"
  shows "update_inv env root s'" "active_of env root s' = active_of env root s" "pending_of env root s' = pending_of env root s"
    "held_in env root s a \<Longrightarrow> held_in env root s' a" "r = Ok () \<Longrightarrow> held_in env root s' d"
proof -
  note n = install_nodes [OF assms(1-4)]
  have p: "fs_nodes s' (active_pointer root) = fs_nodes s (active_pointer root)"
      "fs_nodes s' (pending_activation root) = fs_nodes s (pending_activation root)"
    using n guarded_other(4,5) [of root] by simp_all
  have a: "fs_nodes s (artifact_path root c) \<noteq> None \<Longrightarrow> fs_nodes s' (artifact_path root c) = fs_nodes s (artifact_path root c)" for c
    using n by simp
  note mono = held_mono [OF a]
  have weaken: "readable decode P s' q" if "readable decode Q s q" "fs_nodes s' q = fs_nodes s q" "\<And>x. Q x \<Longrightarrow> P x" for decode q
      and P Q :: "'c \<Rightarrow> bool"
    using that by (auto simp: readable_def split: option.splits node.splits)
  show "update_inv env root s'"
    using assms(5) p mono unfolding update_inv_def by (blast intro: weaken)
  show "active_of env root s' = active_of env root s" "pending_of env root s' = pending_of env root s"
    unfolding active_of_def pending_of_def by (rule decoded_cong [OF p(1)], rule decoded_cong [OF p(2)])
  show "held_in env root s a \<Longrightarrow> held_in env root s' a" by (rule mono(1))
  show "r = Ok () \<Longrightarrow> held_in env root s' d" using n by blast
qed

section \<open>The store is reversible\<close>

lemma activate_tail:
  assumes "update_inv env root s" "pending_of env root s = None" "\<not> same_build (active_of env root s) d" "held_in env root s d"
    "previous = active_of env root s" "receipt = \<lparr> arc_activated = d, arc_previous = previous \<rparr>"
    "ebind (case previous of Some p \<Rightarrow> write_pointer env (previous_pointer root) p | None \<Rightarrow> remove_if_exists (previous_pointer root)) (\<lambda>_.
       ebind (write_pending_activation env root receipt) (\<lambda>_.
       ebind (write_pointer env (active_pointer root) d) (\<lambda>_. eret receipt))) s = (w, s')"
  shows "update_inv env root s' \<and> settles (active_of env root s') (pending_of env root s') = active_of env root s \<and>
    held_in env root s' = held_in env root s \<and> (\<forall>r. w = Ok r \<longrightarrow> r = receipt \<and> active_of env root s' = Some d \<and> pending_of env root s' = Some r)"
proof -
  let ?prev = "case previous of Some p \<Rightarrow> write_pointer env (previous_pointer root) p | None \<Rightarrow> remove_if_exists (previous_pointer root)"
  have k: "keeps (\<lambda>_. True) (untouched root) ?prev"
    by (cases previous) (simp_all add: write_previous_untouched remove_untouched)
  from assms(7) show ?thesis
  proof (cases rule: ebind_runE)
    case (failed e)
    then show ?thesis using keeps_view [OF k failed(1), where env = env] assms(1-3) by simp
  next
    case (ran u s1)
    note v1 = keeps_view [OF k ran(1), where env = env]
    have i1: "update_inv env root s1" using v1(4) assms(1) by simp
    have "held_in env root s p" if "active_of env root s = Some p" for p
      using assms(1) that unfolding update_inv_def active_of_def by (blast dest: decoded_readable)
    then have r1: "receipt_ok env root s1 receipt" using assms(3-6) v1(3) by (simp add: receipt_ok_def)
    from ran(2) show ?thesis
    proof (cases rule: ebind_runE)
      case (failed e)
      note p = write_pending_run [OF i1 r1 failed(1)]
      then have "settles (active_of env root s') (pending_of env root s') = active_of env root s"
        using v1(1,2) assms(2,3,6) by (auto simp: settles_def)
      then show ?thesis using p v1(3) failed(2) by simp
    next
      case pen: (ran u2 s2)
      have p: "write_pending_activation env root receipt s1 = (Ok (), s2)" using pen(1) by simp
      have i2: "update_inv env root s2" "active_of env root s2 = active_of env root s" "held_in env root s2 = held_in env root s"
          "pending_of env root s2 = Some receipt"
        using write_pending_run [OF i1 r1 p] v1(1,3) by simp_all
      have d2: "held_in env root s2 d" using i2(3) assms(4) by simp
      have settled: "settles (active_of env root x) (pending_of env root x) = active_of env root s"
        if "pending_of env root x = Some receipt" "active_of env root x = active_of env root s \<or> active_of env root x = Some d" for x
        using that assms(3,5,6) by (auto simp: settles_def)
      from pen(2) show ?thesis
      proof (cases rule: ebind_runE)
        case (failed e)
        note a = write_active_run [OF i2(1) d2 failed(1)]
        then have "settles (active_of env root s') (pending_of env root s') = active_of env root s"
          using i2(2,4) by (intro settled) simp_all
        then show ?thesis using a i2(3) failed(2) by simp
      next
        case act: (ran u3 s3)
        have a: "write_pointer env (active_pointer root) d s2 = (Ok (), s3)" using act(1) by simp
        note a' = write_active_run [OF i2(1) d2 a]
        have e: "w = Ok receipt" "s' = s3" using act(2) by simp_all
        have "settles (active_of env root s') (pending_of env root s') = active_of env root s"
          unfolding e(2) using a' i2(4) by (intro settled) simp_all
        then show ?thesis using a' i2(3,4) e by simp
      qed
    qed
  qed
qed

lemma file_activate_law:
  assumes "update_inv env root s" "artifact_ok (en_semver env) (sta_descriptor st)" "pending_of env root s = None"
    "\<not> same_build (active_of env root s) (sta_descriptor st)" "store_activate env root st s = (w, s')"
  shows "update_inv env root s' \<and> settles (active_of env root s') (pending_of env root s') = active_of env root s \<and>
    (\<forall>a. held_in env root s a \<longrightarrow> held_in env root s' a) \<and> (\<forall>r. w = Ok r \<longrightarrow>
      r = \<lparr> arc_activated = sta_descriptor st, arc_previous = active_of env root s \<rparr> \<and>
      active_of env root s' = Some (sta_descriptor st) \<and> pending_of env root s' = Some r)"
  (is "?goal s' w")
proof -
  have early: "?goal s' w" if "update_inv env root s'" "active_of env root s' = active_of env root s" "pending_of env root s' = pending_of env root s"
      "\<And>a. held_in env root s a \<Longrightarrow> held_in env root s' a" "w = Err e" for e
    using that assms(3) by simp
  let ?d = "sta_descriptor st"
  from assms(5) show ?thesis unfolding store_activate_def Let_def
  proof (cases rule: ebind_runE)
    case (failed e)
    then show ?thesis using keeps_view [OF initialize_untouched failed(1), where env = env] assms(1) by (intro early) simp_all
  next
    case ini: (ran u s1)
    note v1 = keeps_view [OF initialize_untouched ini(1), where env = env]
    show ?thesis
    proof (cases "sta_reference st = staged_path root (af_build_id ?d)")
      case False
      then have "w = Err (UE_Store ''staging reference does not belong to this store'')" "s' = s1" using ini(2) by simp_all
      then show ?thesis using v1 assms(1) by (intro early) simp_all
    next
      case True
      then have "(sta_reference st \<noteq> staged_path root (af_build_id ?d)) = False" by simp
      from ini(2) [unfolded this if_False] show ?thesis
      proof (cases rule: ebind_runE)
        case (failed e)
        then show ?thesis using current_view [OF failed(1), where env = env and root = root] v1 assms(1) by (intro early) simp_all
      next
        case cur: (ran previous s2)
        have prev: "previous = active_of env root s" using store_reads(1) [OF cur(1)] v1(1) by simp
        note v2 = current_view [OF cur(1), where env = env and root = root, unfolded v1]
        from cur(2) show ?thesis
        proof (cases rule: ebind_runE)
          case (failed e)
          then show ?thesis using keeps_view [OF untouched_inspects [OF verify_inspects] failed(1), where env = env and root = root] v2 assms(1) by (intro early) simp_all
        next
          case ver: (ran u2 s3)
          obtain bs where bs: "fs_nodes s3 (staged_path root (af_build_id ?d)) = Some (FileNode bs)" "matches_descriptor env ?d bs"
            using verify_Ok [OF ver(1)] inspectsD [OF verify_inspects ver(1)] by auto
          note v3 = keeps_view [OF untouched_inspects [OF verify_inspects] ver(1), where env = env and root = root, unfolded v2]
          have i3: "update_inv env root s3" using v3(4) assms(1) by simp
          from ver(2) show ?thesis
          proof (cases rule: ebind_runE)
            case (failed e)
            show ?thesis using install_run [OF failed(1) assms(2) bs i3] v3 failed(2) by (intro early) simp_all
          next
            case ins: (ran u3 s4)
            note n4 = install_run [OF ins(1) assms(2) bs i3]
            have held4: "held_in env root s4 ?d" using n4(5) by simp
            from ins(2) show ?thesis
            proof (cases rule: ebind_runE)
              case (failed e)
              have "untouched root s4 s'" using sync_parent_nodes [OF failed(1)] by (simp add: untouched_def)
              from untouched_view [OF this, where env = env] show ?thesis using n4 v3 failed(2) by (intro early) simp_all
            next
              case syn: (ran u4 s5)
              have "untouched root s4 s5" using sync_parent_nodes [OF syn(1)] by (simp add: untouched_def)
              note v5 = untouched_view [OF this, where env = env]
              have i5: "update_inv env root s5" "pending_of env root s5 = None" "\<not> same_build (active_of env root s5) ?d" "held_in env root s5 ?d"
                  "previous = active_of env root s5"
                using v5 n4 v3 assms(3,4) held4 prev by simp_all
              from activate_tail [OF i5 refl syn(2)] show ?thesis using v5 n4 v3 prev by simp
            qed
          qed
        qed
      qed
    qed
  qed
qed

text \<open>The end of a commit, and of a rollback: the previous pointer goes, then the receipt.\<close>

lemma forget_run:
  assumes "update_inv env root s"
    "ebind (remove_if_exists (previous_pointer root)) (\<lambda>_. remove_if_exists (pending_activation root)) s = (x, s')"
  shows "update_inv env root s' \<and> active_of env root s' = active_of env root s \<and> held_in env root s' = held_in env root s \<and>
    (pending_of env root s' = pending_of env root s \<or> pending_of env root s' = None) \<and> (x = Ok () \<longrightarrow> pending_of env root s' = None)"
  using assms(2)
proof (cases rule: ebind_runE)
  case (failed e)
  then show ?thesis using remove_previous_view [OF failed(1), where env = env] assms(1) by simp
next
  case (ran u s1)
  note v = remove_previous_view [OF ran(1), where env = env]
  have "update_inv env root s1" using v assms(1) by simp
  from remove_pending_run [OF this ran(2)] show ?thesis unfolding v .
qed

lemma file_rollback_law:
  assumes "update_inv env root s" "same_build (active_of env root s) (arc_activated r)"
    "pending_of env root s = Some r \<or> pending_of env root s = None" "\<not> same_build (arc_previous r) (arc_activated r)"
    "\<And>p. arc_previous r = Some p \<Longrightarrow> held_in env root s p" "store_rollback env root r s = (x, s')"
  shows "update_inv env root s' \<and> (settles (active_of env root s') (pending_of env root s') = settles (active_of env root s) (pending_of env root s) \<or>
      settles (active_of env root s') (pending_of env root s') = arc_previous r) \<and>
    (x = Ok () \<longrightarrow> active_of env root s' = arc_previous r \<and> pending_of env root s' = None)"
  using assms(6) unfolding store_rollback_def
proof (cases rule: ebind_runE)
  case (failed e)
  then show ?thesis using current_view [OF failed(1), where env = env and root = root] assms(1) by simp
next
  case cur: (ran found s1)
  note v = current_view [OF cur(1), where env = env and root = root]
  obtain c where c: "found = Some c" "af_build_id c = af_build_id (arc_activated r)"
    using store_reads(1) [OF cur(1)] assms(2) by (cases found) (auto simp: same_build_def split: option.splits)
  have i1: "update_inv env root s1" using v assms(1) by simp
  have no: "(af_build_id c \<noteq> af_build_id (arc_activated r)) = False" using c by simp
  have ends: "settles (active_of env root z) (pending_of env root z) = arc_previous r"
    if "active_of env root z = arc_previous r" "pending_of env root z = Some r \<or> pending_of env root z = None" for z
    using that assms(4) by (auto simp: settles_def)
  from cur(2) [unfolded c(1) option.case no if_False] show ?thesis
  proof (cases rule: ebind_runE)
    case (failed e)
    have "update_inv env root s' \<and> pending_of env root s' = pending_of env root s \<and>
        (active_of env root s' = active_of env root s \<or> active_of env root s' = arc_previous r)"
    proof (cases "arc_previous r")
      case None
      with failed(1) have "remove_if_exists (active_pointer root) s1 = (Err e, s')" by simp
      from remove_active_run [OF i1 this] show ?thesis using v None by simp
    next
      case (Some p)
      with failed(1) have "write_pointer env (active_pointer root) p s1 = (Err e, s')" by simp
      from write_active_run [OF i1 _ this] show ?thesis using v Some assms(5) [OF Some] by simp
    qed
    moreover from this have "settles (active_of env root s') (pending_of env root s') = settles (active_of env root s) (pending_of env root s) \<or>
        settles (active_of env root s') (pending_of env root s') = arc_previous r"
      using assms(3) by (elim conjE disjE) (simp_all add: assms(4))
    ultimately show ?thesis using failed(2) by simp
  next
    case act: (ran u s2)
    have a: "update_inv env root s2 \<and> pending_of env root s2 = pending_of env root s \<and> active_of env root s2 = arc_previous r"
    proof (cases "arc_previous r")
      case None
      with act(1) have "remove_if_exists (active_pointer root) s1 = (Ok (), s2)" by simp
      from remove_active_run [OF i1 this] show ?thesis using v None by simp
    next
      case (Some p)
      with act(1) have "write_pointer env (active_pointer root) p s1 = (Ok (), s2)" by simp
      from write_active_run [OF i1 _ this] show ?thesis using v Some assms(5) [OF Some] by simp
    qed
    then have i2: "update_inv env root s2" by simp
    note f = forget_run [OF i2 act(2)]
    then have "active_of env root s' = arc_previous r" "pending_of env root s' = Some r \<or> pending_of env root s' = None"
      using a assms(3) by auto
    then show ?thesis using f ends by simp
  qed
qed

lemma file_commit_law:
  assumes "update_inv env root s" "active_of env root s = Some (arc_activated r)" "pending_of env root s = Some r"
    "store_commit env root r s = (x, s')"
  shows "update_inv env root s' \<and> active_of env root s' = active_of env root s \<and>
    (pending_of env root s' = Some r \<or> pending_of env root s' = None) \<and>
    (\<forall>a. held_in env root s a \<longrightarrow> held_in env root s' a) \<and> (x = Ok () \<longrightarrow> pending_of env root s' = None)"
  using assms(4) unfolding store_commit_def
proof (cases rule: ebind_runE)
  case (failed e)
  then show ?thesis using current_view [OF failed(1), where env = env and root = root] assms(1,3) by simp
next
  case (ran found s1)
  note v = current_view [OF ran(1), where env = env and root = root]
  have c: "found = Some (arc_activated r)" using store_reads(1) [OF ran(1)] assms(2) by simp
  have i1: "update_inv env root s1" using v assms(1) by simp
  have no: "(af_build_id (arc_activated r) \<noteq> af_build_id (arc_activated r)) = False" by simp
  from forget_run [OF i1 ran(2) [unfolded c option.case no if_False]] show ?thesis using v assms(3) by simp
qed

lemma file_recover_law:
  assumes "update_inv env root s" "store_recover env root s = (x, s')"
  shows "update_inv env root s' \<and> settles (active_of env root s') (pending_of env root s') = settles (active_of env root s) (pending_of env root s) \<and>
    (x = Ok () \<longrightarrow> pending_of env root s' = None)"
  using assms(2) unfolding store_recover_def
proof (cases rule: ebind_runE)
  case (failed e)
  then show ?thesis using pending_view [OF failed(1), where env = env and root = root] assms(1) by simp
next
  case pen: (ran found s1)
  note v1 = pending_view [OF pen(1), where env = env and root = root]
  have p: "found = pending_of env root s" by (rule store_reads(2) [OF pen(1)])
  show ?thesis
  proof (cases found)
    case None
    with pen(2) have r: "remove_if_exists (previous_pointer root) s1 = (x, s')" by simp
    show ?thesis using remove_previous_view [OF r, where env = env] v1 p None assms(1) by simp
  next
    case (Some r)
    have p': "pending_of env root s = Some r" using p Some by simp
    have ok: "receipt_ok env root s r"
      using assms(1) p Some unfolding update_inv_def pending_of_def by (metis decoded_readable)
    from pen(2) [unfolded Some option.case] show ?thesis
    proof (cases rule: ebind_runE)
      case (failed e)
      then show ?thesis using current_view [OF failed(1), where env = env and root = root] v1 assms(1) by simp
    next
      case cur: (ran current s2)
      note v2 = current_view [OF cur(1), where env = env and root = root, unfolded v1]
      have a: "current = active_of env root s" using store_reads(1) [OF cur(1)] v1 by simp
      have i2: "update_inv env root s2" "pending_of env root s2 = Some r" using v2 assms(1) p Some by simp_all
      have run: "(if same_build (active_of env root s) (arc_activated r) then store_rollback env root r
          else ebind (remove_if_exists (previous_pointer root)) (\<lambda>_. remove_if_exists (pending_activation root))) s2 = (x, s')"
        using cur(2) a by (simp add: same_build_def)
      show ?thesis
      proof (cases "same_build (active_of env root s) (arc_activated r)")
        case True
        have b: "same_build (active_of env root s2) (arc_activated r)" "pending_of env root s2 = Some r \<or> pending_of env root s2 = None"
            "\<not> same_build (arc_previous r) (arc_activated r)" and h: "\<And>q. arc_previous r = Some q \<Longrightarrow> held_in env root s2 q"
          using True v2 i2 ok by (simp_all add: receipt_ok_def)
        have "store_rollback env root r s2 = (x, s')" using run True by simp
        from file_rollback_law [OF i2(1) b h this]
        show ?thesis using v2 i2(2) p' True by auto
      next
        case False
        then have "ebind (remove_if_exists (previous_pointer root)) (\<lambda>_. remove_if_exists (pending_activation root)) s2 = (x, s')" using run by simp
        from forget_run [OF i2(1) this] show ?thesis using v2 i2(2) p' False by auto
      qed
    qed
  qed
qed

interpretation file_update: reversible_store "file_artifact_store env root" "update_inv env root" "active_of env root" "pending_of env root"
  "held_in env root" "artifact_ok (en_semver env)"
  for env :: "('v::linorder) update_env" and root
proof (unfold_locales, unfold file_artifact_store_def artifact_store.simps)
  fix s a assume "update_inv env root s" "active_of env root s = Some a"
  then show "held_in env root s a" unfolding update_inv_def active_of_def by (blast dest: decoded_readable)
next
  fix s s' d bs and z :: "update_error + staged_artifact" assume a: "update_inv env root s" "store_stage env root d bs s = (z, s')"
  show "update_inv env root s' \<and> active_of env root s' = active_of env root s \<and> pending_of env root s' = pending_of env root s \<and>
      (\<forall>st. z = Ok st \<longrightarrow> sta_descriptor st = d)"
    using keeps_view [OF stage_untouched a(2), where env = env] a stage_Ok by auto
next
  fix s s' and y :: "update_error + artifact option" assume a: "update_inv env root s" "store_current env root s = (y, s')"
  show "update_inv env root s' \<and> active_of env root s' = active_of env root s \<and> pending_of env root s' = pending_of env root s \<and>
      (\<forall>a. y = Ok a \<longrightarrow> a = active_of env root s)"
    using current_view [OF a(2), where env = env and root = root] a store_reads(1) by auto
qed (rule file_recover_law file_activate_law file_rollback_law file_commit_law; assumption)+

section \<open>Updates are all or nothing\<close>

text \<open>What the provider relies on of \<open>serde_json\<close>: identifiers are checked when they are read.\<close>

definition index_json_ok :: "(bytes \<Rightarrow> artifact list option) \<Rightarrow> bool" where
  "index_json_ok from_json \<longleftrightarrow> (\<forall>bs artifacts. from_json bs = Some artifacts \<longrightarrow> (\<forall>a\<in>set artifacts.
     contract_validate_identifier ''application_id'' (af_application_id a) = Ok () \<and>
     contract_validate_identifier ''build_id'' (af_build_id a) = Ok ()))"

lemma validate_artifacts_Ok: "validate_artifacts sv as = Ok () \<longleftrightarrow> (\<forall>a\<in>set as. artifact_validate sv a = Ok ())"
  by (induction as) (auto simp: rbind_Inr_iff)

lemma latest_valid:
  assumes "index_json_ok from_json" "file_provider_latest sv from_json index_path request s = (Ok (Some a), s')"
  shows "artifact_ok sv a"
proof -
  obtain current artifacts bs where r: "from_json bs = Some artifacts" "validate_artifacts sv artifacts = Ok ()"
      "newest (eligible_artifacts sv request current artifacts) = Some a"
    using assms(2) unfolding file_provider_latest_def read_index_def
    by (auto simp: ebind_Ok_iff ok_or_def split: option.splits)
  obtain v where "(v, a) \<in> set (eligible_artifacts sv request current artifacts)" using newest_Some [OF r(3)] by blast
  then have "a \<in> set artifacts" by (auto simp: eligible_artifacts_def List.map_filter_def split: option.splits if_splits)
  then show ?thesis using r(1,2) assms(1) by (simp add: artifact_ok_def validate_artifacts_Ok index_json_ok_def)
qed

lemma file_provider_reads:
  assumes "index_json_ok from_json"
  shows "provider_reads (update_inv env root) (active_of env root) (pending_of env root) (artifact_ok (en_semver env))
    (file_update_provider (en_semver env) from_json path_of index_path)"
  unfolding provider_reads_def
proof (intro conjI allI impI)
  fix q s x s' assume i: "update_inv env root s"
    and r: "up_latest (file_update_provider (en_semver env) from_json path_of index_path) q s = (x, s')"
  note v = keeps_view [OF untouched_inspects [OF file_provider_inspects(1)] r, where env = env and root = root]
  show "update_inv env root s'" "active_of env root s' = active_of env root s" "pending_of env root s' = pending_of env root s"
    using v i by simp_all
  fix a assume "x = Ok (Some a)"
  then show "artifact_ok (en_semver env) a" using r latest_valid [OF assms] by (simp add: file_update_provider_def)
next
  fix a n s x s' assume i: "update_inv env root s"
    and r: "up_fetch (file_update_provider (en_semver env) from_json path_of index_path) a n s = (x, s')"
  note v = keeps_view [OF untouched_inspects [OF file_provider_inspects(2)] r, where env = env and root = root]
  show "update_inv env root s'" "active_of env root s' = active_of env root s" "pending_of env root s' = pending_of env root s"
    using v i by simp_all
qed

definition settled :: "'v update_env \<Rightarrow> path \<Rightarrow> fs \<Rightarrow> artifact option" where
  "settled env root s = settles (active_of env root s) (pending_of env root s)"

lemma update_inv_faults: "update_inv env root (s\<lparr> fs_faults := fs \<rparr>) = update_inv env root s"
  "active_of env root (s\<lparr> fs_faults := fs \<rparr>) = active_of env root s" "pending_of env root (s\<lparr> fs_faults := fs \<rparr>) = pending_of env root s"
  by (rule untouched_view, simp add: untouched_def)+

lemma recovery_settles:
  assumes "update_inv env root s" "store_recover env root (s\<lparr> fs_faults := fs \<rparr>) = (Ok (), t)"
  shows "active_of env root t = settled env root s \<and> pending_of env root t = None \<and> (\<forall>a. active_of env root t = Some a \<longrightarrow> held_in env root t a)"
proof -
  have i: "update_inv env root (s\<lparr> fs_faults := fs \<rparr>)" using assms(1) by (simp add: update_inv_faults)
  note r = file_recover_law [OF i assms(2)]
  then have "held_in env root t a" if "active_of env root t = Some a" for a
    using that unfolding update_inv_def active_of_def by (blast dest: decoded_readable)
  then show ?thesis using r by (auto simp: settled_def update_inv_faults)
qed

lemma prepared_update_reversible:
  assumes "update_inv env root s" "index_json_ok from_json" "uc_store c = file_artifact_store env root"
    "uc_provider c = file_update_provider (en_semver env) from_json path_of index_path"
    "prepare_update env c request runtime_version protocol_version s = (x, s')"
  shows "settled env root s' = settled env root s \<and> (\<forall>d. x = Ok (UP_AwaitingHealth d) \<longrightarrow> active_of env root s' = Some d)"
proof -
  have p: "provider_reads (update_inv env root) (active_of env root) (pending_of env root) (artifact_ok (en_semver env)) (uc_provider c)"
    unfolding assms(4) by (rule file_provider_reads [OF assms(2)])
  show ?thesis using file_update.prepare_run [OF assms(1,3) p assms(5), folded settled_def] by blast
qed

text \<open>C13. An update over files is all or nothing: wherever its file system calls fail, or the process stops, the recovery that comes
  first at the next start leaves active either the artifact it would have left before, or one that the provider offered for the
  request and that passed the signature, the checksum, the size, the version and the health checks. What it leaves active is
  installed with the right content. An update that returns has settled: applied, or the old artifact is back.\<close>

theorem update_all_or_nothing:
  assumes "update_inv env root s" "index_json_ok from_json" "uc_store c = file_artifact_store env root"
    "uc_provider c = file_update_provider (en_semver env) from_json path_of index_path"
    "apply_with_faults env c request runtime_version protocol_version faults s = (x, s')"
  shows "(settled env root s' = settled env root s \<or>
      (\<exists>d. settled env root s' = Some d \<and> approved env c request runtime_version protocol_version d)) \<and>
    (\<forall>fs t. store_recover env root (s'\<lparr> fs_faults := fs \<rparr>) = (Ok (), t) \<longrightarrow>
      active_of env root t = settled env root s' \<and> pending_of env root t = None \<and>
      (\<forall>a. active_of env root t = Some a \<longrightarrow> held_in env root t a)) \<and>
    (case x of
       Inr UO_NoUpdate \<Rightarrow> active_of env root s' = settled env root s \<and> pending_of env root s' = None
     | Inr (UO_Applied d) \<Rightarrow> active_of env root s' = Some d \<and> pending_of env root s' = None \<and>
         approved env c request runtime_version protocol_version d
     | Inr (UO_RolledBack d e) \<Rightarrow> active_of env root s' = settled env root s \<and> pending_of env root s' = None
     | Inl _ \<Rightarrow> True)"
proof -
  have p: "provider_reads (update_inv env root) (active_of env root) (pending_of env root) (artifact_ok (en_semver env)) (uc_provider c)"
    unfolding assms(4) by (rule file_provider_reads [OF assms(2)])
  note run = file_update.apply_run [OF assms(1,3) p assms(5), folded settled_def]
  show ?thesis using run recovery_settles by blast
qed

definition sample_env :: "nat update_env" where
  "sample_env = \<lparr> en_semver = sample_semver, en_sha = (\<lambda>_. replicate 32 0),
     en_pointer_to_json = (\<lambda>p. if pt_descriptor p = sample_artifact then Some [1] else None),
     en_pointer_from_json = (\<lambda>bs. if bs = [1] then Some \<lparr> pt_format_version = 1, pt_descriptor = sample_artifact \<rparr> else None),
     en_pending_to_json = (\<lambda>p. if pd_receipt p = \<lparr> arc_activated = sample_artifact, arc_previous = None \<rparr> then Some [2] else None),
     en_pending_from_json = (\<lambda>bs. if bs = [2] then Some \<lparr> pd_format_version = 1,
       pd_receipt = \<lparr> arc_activated = sample_artifact, arc_previous = None \<rparr> \<rparr> else None) \<rparr>"

definition sample_index :: "bytes \<Rightarrow> artifact list option" where
  "sample_index bs = (if bs = [7] then Some [sample_artifact] else None)"

definition sample_updater :: "fs update_coordinator" where
  "sample_updater = \<lparr> uc_provider = file_update_provider sample_semver sample_index (\<lambda>p. [p]) [''index''],
     uc_store = file_artifact_store sample_env [''u''], uc_health = Some (\<lambda>_. Ok ()), uc_authenticity = (\<lambda>_. Ok ()), uc_max_artifact_bytes = 10 \<rparr>"

text \<open>A run without faults, on a file system given by its nodes and the temporary counter.\<close>

definition files_at :: "(path \<rightharpoonup> node) \<Rightarrow> u64 \<Rightarrow> fs" where
  "files_at m n = \<lparr> fs_nodes = m, fs_faults = [], fs_temp_counter = n, fs_pid = 1 \<rparr>"

lemma files_at_simps [simp]:
  "fs_nodes (files_at m n) = m" "fs_faults (files_at m n) = []" "fs_temp_counter (files_at m n) = n" "fs_pid (files_at m n) = 1"
  "fs_nodes_update f (files_at m n) = files_at (f m) n" "fs_temp_counter_update g (files_at m n) = files_at m (g n)"
  by (simp_all add: files_at_def)

lemma files_at_calls:
  "sys_call k (files_at m n) = k (files_at m n)" "next_fault (files_at m n) = (Ok None, files_at m n)"
  by (simp_all add: sys_call_healthy next_fault_def)

lemma as_err_run: "as_err e k s = (map_err (\<lambda>_. e) (fst (k s)), snd (k s))"
  by (simp add: as_err_def split: prod.split)

lemma healthy_read:
  "m p = None \<Longrightarrow> read_optional_file p k (files_at m n) = (Ok None, files_at m n)"
  "m p = Some (FileNode bs) \<Longrightarrow> length bs \<le> k \<Longrightarrow> read_regular_file_bounded p k (files_at m n) = (Ok bs, files_at m n)"
  "m p = Some (FileNode bs) \<Longrightarrow> length bs \<le> k \<Longrightarrow> read_optional_file p k (files_at m n) = (Ok (Some bs), files_at m n)"
  by (simp_all add: read_optional_file_def read_regular_file_bounded_def ebind_eval read_kind_def fs_symlink_metadata_def fs_open_read_def
      fs_read_def files_at_calls)

lemma healthy_remove:
  "m p = None \<Longrightarrow> remove_if_exists p (files_at m n) = (Ok (), files_at m n)"
  "m p = Some (FileNode bs) \<Longrightarrow> remove_if_exists p (files_at m n) = (Ok (), files_at (m(p := None)) n)"
  by (simp_all add: remove_if_exists_def fs_remove_file_def files_at_calls sync_parent_def fs_sync_def as_err_run ebind_eval)

definition dirs_at :: "(path \<rightharpoonup> node) \<Rightarrow> path \<Rightarrow> bool" where
  "dirs_at m p \<longleftrightarrow> list_all (\<lambda>q. m q = Some DirNode) (map (\<lambda>k. take k p) [1 ..< Suc (length p)])"

lemma healthy_dirs:
  assumes "dirs_at m p"
  shows "fs_create_dir_all p (files_at m n) = (Ok (), files_at m n)"
proof -
  have "eforeach ps fs_create_dir (files_at m n) = (Ok (), files_at m n)" if "list_all (\<lambda>q. m q = Some DirNode) ps" for ps
    using that by (induction ps) (simp_all add: ebind_eval fs_create_dir_def is_dir_def)
  then show ?thesis using assms unfolding fs_create_dir_all_def dirs_at_def .
qed

lemma healthy_write:
  assumes "dirs_at m (butlast p)" "m (butlast p) = Some DirNode" "m p = None \<or> (\<exists>x. m p = Some (FileNode x))"
    "plain_name p" "m (with_extension p (''tmp-'' @ nat_dec 1 @ ''-'' @ nat_dec (unat n))) = None"
  shows "update_atomic_write p bs (files_at m n) = (Ok (), files_at (m(p \<mapsto> FileNode bs)) (n + 1))"
proof -
  let ?t = "with_extension p (''tmp-'' @ nat_dec 1 @ ''-'' @ nat_dec (unat n))"
  have p: "p \<noteq> []" using assms(4) by (simp add: plain_name_def)
  have tp: "?t \<noteq> p" by (rule plain_not_temporary [OF assms(4)]) (auto simp: temporary_like_def)
  have bt: "butlast ?t = butlast p" using p by (simp add: with_extension_def)
  note dir = assms(2)
  have reg: "reject_optional_regular_file p (files_at m n) = (Ok (), files_at m n)"
    using assms(3) by (auto simp: reject_optional_regular_file_def fs_symlink_metadata_def files_at_calls)
  have w: "write_and_rename store_failed ?t p (butlast p) bs (files_at m (n + 1)) = (Ok (), files_at (m(p \<mapsto> FileNode bs)) (n + 1))"
    using assms(3,5) tp dir bt
    by (auto simp: write_and_rename_def ebind_eval as_err_run files_at_calls fs_create_new_def fs_write_all_def fs_sync_def fs_rename_def
        sync_parent_def is_dir_def fun_upd_twist fun_upd_idem)
  show ?thesis
    unfolding update_atomic_write_def
    by (simp add: ebind_eval as_err_run healthy_dirs [OF assms(1)] reject_directory_def fs_symlink_metadata_def files_at_calls dir reg
        update_temporary_def w [simplified])
qed

definition sample_nodes :: "path \<rightharpoonup> node" where
  "sample_nodes = [[''index''] \<mapsto> FileNode [7], [''app''] \<mapsto> FileNode [5], [''u''] \<mapsto> DirNode, [''u'', ''artifacts''] \<mapsto> DirNode,
     [''u'', ''staged''] \<mapsto> DirNode]"

definition sample_request :: update_request where
  "sample_request = \<lparr> uq_application_id = ''app'', uq_current_version = ''1.0'', uq_channel = ''stable'' \<rparr>"

definition sample_update :: "(update_error + update_outcome) \<times> fs" where
  "sample_update = apply_with_faults sample_env sample_updater sample_request ''1'' ''1'' no_update_faults (files_at sample_nodes 0)"

lemma updater_paths:
  "active_pointer [''u''] = [''u'', ''active.json'']" "previous_pointer [''u''] = [''u'', ''previous.json'']"
  "pending_activation [''u''] = [''u'', ''pending-activation.json'']" "artifact_path [''u''] ''b1'' = [''u'', ''artifacts'', ''b1.artifact'']"
  "staged_path [''u''] ''b1'' = [''u'', ''staged'', ''b1.artifact'']"
  by (simp_all add: active_pointer_def previous_pointer_def pending_activation_def artifact_path_def staged_path_def)

lemma sample_stems:
  "file_stem ''active.json'' = ''active''" "file_stem ''pending-activation.json'' = ''pending-activation''" "file_stem ''b1.artifact'' = ''b1''"
  "nat_dec 0 = ''0''" "nat_dec 1 = ''1''" "nat_dec 2 = ''2''"
  by code_simp+

lemma updater_fields: "af_build_id sample_artifact = ''b1''" "af_size_bytes sample_artifact = 1" "af_application_version sample_artifact = ''1.0.0''"
  "af_application_id sample_artifact = ''app''" "af_channel sample_artifact = ''stable''" "af_artifact_reference sample_artifact = ''file:app''"
  by (simp_all add: sample_artifact_def)

lemma sample_checks:
  "matches_descriptor sample_env sample_artifact [5]" "sha256_hex (en_sha sample_env) [5] = af_sha256 sample_artifact"
  "artifact_validate sample_semver sample_artifact = Ok ()"
  "artifact_ensure_compatible sample_semver ''1'' ''1'' sample_artifact = Ok ()"
  "newest (eligible_artifacts sample_semver sample_request (Suc (Suc (Suc 0))) [sample_artifact]) = Some sample_artifact"
  by code_simp+

lemmas sample_eval = ebind_eval healthy_read healthy_remove updater_paths sample_nodes_def

lemma sample_env_semver: "en_semver sample_env = sample_semver"
  by (simp add: sample_env_def)

lemma sample_recover: "store_recover sample_env [''u''] (files_at sample_nodes 0) = (Ok (), files_at sample_nodes 0)"
  by (simp add: store_recover_def read_pending_activation_def sample_eval)

lemma sample_current: "m [''u'', ''active.json''] = None \<Longrightarrow> store_current sample_env [''u''] (files_at m n) = (Ok None, files_at m n)"
  by (simp add: store_current_def read_pointer_def sample_eval)

lemma sample_select:
  "select_candidate sample_env sample_updater sample_request ''1'' ''1'' (files_at sample_nodes 0) = (Ok (Some sample_artifact), files_at sample_nodes 0)"
proof -
  have "read_provider_file [''index''] 1048576 (files_at sample_nodes 0) = (Ok [7], files_at sample_nodes 0)"
    by (simp add: read_provider_file_def on_read_error_def sample_eval)
  then have "file_provider_latest sample_semver sample_index [''index''] sample_request (files_at sample_nodes 0) = (Ok (Some sample_artifact), files_at sample_nodes 0)"
    using sample_checks(3,5)
    by (simp add: file_provider_latest_def read_index_def ebind_eval sample_index_def sample_request_def sample_semver_def)
  moreover have "ensure_upgrade sample_env sample_updater sample_request sample_artifact (files_at sample_nodes 0) = (Ok (), files_at sample_nodes 0)"
    by (simp add: ensure_upgrade_def ebind_eval sample_updater_def file_artifact_store_def sample_current sample_nodes_def
        sample_env_semver sample_semver_def sample_request_def updater_fields)
  ultimately show ?thesis using sample_checks(4)
    by (simp add: select_candidate_def ebind_eval sample_updater_def file_update_provider_def sample_request_def updater_fields sample_env_semver)
qed

lemma sample_fetch:
  "fetch_verified sample_env sample_updater sample_artifact (files_at sample_nodes 0) = (Ok (sample_artifact, [5]), files_at sample_nodes 0)"
proof -
  have "file_provider_fetch (\<lambda>p. [p]) sample_artifact 10 (files_at sample_nodes 0) = (Ok [5], files_at sample_nodes 0)"
    by (simp add: file_provider_fetch_def on_read_error_def updater_fields sample_eval)
  then show ?thesis using sample_checks(2)
    by (simp add: fetch_verified_def ebind_eval sample_updater_def file_update_provider_def updater_fields Let_def)
qed

definition sample_dirs :: "(path \<rightharpoonup> node) \<Rightarrow> bool" where
  "sample_dirs m \<longleftrightarrow> m [''u''] = Some DirNode \<and> m [''u'', ''artifacts''] = Some DirNode \<and> m [''u'', ''staged''] = Some DirNode"

lemma sample_initialize: "sample_dirs m \<Longrightarrow> store_initialize [''u''] (files_at m n) = (Ok (), files_at m n)"
  by (simp add: store_initialize_def ebind_eval as_err_run healthy_dirs dirs_at_def sample_dirs_def reject_directory_def
      fs_symlink_metadata_def files_at_calls)

lemma updater_write:
  assumes "sample_dirs m" "p \<in> {[''u'', ''active.json''], [''u'', ''pending-activation.json''], [''u'', ''staged'', ''b1.artifact'']}" "m p = None"
    "m (with_extension p (''tmp-'' @ nat_dec 1 @ ''-'' @ nat_dec (unat n))) = None"
  shows "update_atomic_write p bs (files_at m n) = (Ok (), files_at (m(p \<mapsto> FileNode bs)) (n + 1))"
proof -
  have "plain_name p" using assms(2) by (auto simp: plain_name_def is_ascii_digit_def byte_of_def)
  moreover have "dirs_at m (butlast p)" "m (butlast p) = Some DirNode" using assms(1,2) by (auto simp: dirs_at_def sample_dirs_def)
  ultimately show ?thesis using assms(3,4) by (intro healthy_write) simp_all
qed

abbreviation sample_staged :: "path \<rightharpoonup> node" where "sample_staged \<equiv> sample_nodes([''u'', ''staged'', ''b1.artifact''] \<mapsto> FileNode [5])"
abbreviation sample_installed :: "path \<rightharpoonup> node" where "sample_installed \<equiv> sample_nodes([''u'', ''artifacts'', ''b1.artifact''] \<mapsto> FileNode [5])"
abbreviation sample_pending :: "path \<rightharpoonup> node" where "sample_pending \<equiv> sample_installed([''u'', ''pending-activation.json''] \<mapsto> FileNode [2])"
abbreviation sample_active :: "path \<rightharpoonup> node" where "sample_active \<equiv> sample_pending([''u'', ''active.json''] \<mapsto> FileNode [1])"

abbreviation sample_receipt :: "activation_receipt" where "sample_receipt \<equiv> \<lparr> arc_activated = sample_artifact, arc_previous = None \<rparr>"

lemma sample_all_dirs: "sample_dirs sample_nodes" "sample_dirs sample_staged" "sample_dirs sample_installed" "sample_dirs sample_pending"
  by (simp_all add: sample_dirs_def sample_nodes_def)

lemma sample_stage:
  "store_stage sample_env [''u''] sample_artifact [5] (files_at sample_nodes 0) =
    (Ok \<lparr> sta_descriptor = sample_artifact, sta_reference = [''u'', ''staged'', ''b1.artifact''] \<rparr>, files_at sample_staged 1)"
proof -
  have "update_atomic_write [''u'', ''staged'', ''b1.artifact''] [5] (files_at sample_nodes 0) = (Ok (), files_at sample_staged (0 + 1))"
    by (rule updater_write [OF sample_all_dirs(1)]) (simp_all add: with_extension_def sample_stems sample_nodes_def)
  then show ?thesis
    by (simp add: store_stage_def ebind_eval sample_initialize sample_all_dirs sample_checks(1) updater_fields updater_paths Let_def)
qed

lemma sample_activate:
  "store_activate sample_env [''u''] \<lparr> sta_descriptor = sample_artifact, sta_reference = [''u'', ''staged'', ''b1.artifact''] \<rparr>
    (files_at sample_staged 1) = (Ok sample_receipt, files_at sample_active 3)"
proof -
  have ver: "verify_artifact sample_env [''u'', ''staged'', ''b1.artifact''] sample_artifact (files_at sample_staged 1) = (Ok (), files_at sample_staged 1)"
    using sample_checks(1) by (simp add: verify_artifact_def ebind_eval on_read_error_def healthy_read updater_fields)
  have ins: "install_artifact sample_env [''u'', ''staged'', ''b1.artifact''] [''u'', ''artifacts'', ''b1.artifact''] sample_artifact (files_at sample_staged 1) =
      (Ok (), files_at sample_installed 1)"
    by (simp add: install_artifact_def ebind_eval as_err_run fs_hard_link_def files_at_calls is_dir_def sample_nodes_def healthy_remove fun_upd_twist)
  have syn: "sync_parent store_failed p (files_at m n) = (Ok (), files_at m n)" for p m n
    by (simp add: sync_parent_def fs_sync_def as_err_run ebind_eval files_at_calls)
  have "update_atomic_write [''u'', ''pending-activation.json''] [2] (files_at sample_installed 1) = (Ok (), files_at sample_pending (1 + 1))"
    by (rule updater_write [OF sample_all_dirs(3)]) (simp_all add: with_extension_def sample_stems sample_nodes_def)
  then have pen: "write_pending_activation sample_env [''u''] sample_receipt (files_at sample_installed 1) = (Ok (), files_at sample_pending 2)"
    by (simp add: write_pending_activation_def ebind_eval sample_env_def updater_paths)
  have "update_atomic_write [''u'', ''active.json''] [1] (files_at sample_pending 2) = (Ok (), files_at sample_active (2 + 1))"
    by (rule updater_write [OF sample_all_dirs(4)]) (simp_all add: with_extension_def sample_stems sample_nodes_def)
  then have act: "write_pointer sample_env [''u'', ''active.json''] sample_artifact (files_at sample_pending 2) = (Ok (), files_at sample_active 3)"
    by (simp add: write_pointer_def ebind_eval sample_env_def)
  have cur: "store_current sample_env [''u''] (files_at sample_staged 1) = (Ok None, files_at sample_staged 1)"
    by (rule sample_current) (simp add: sample_nodes_def)
  have rem: "remove_if_exists [''u'', ''previous.json''] (files_at sample_installed 1) = (Ok (), files_at sample_installed 1)"
    by (rule healthy_remove) (simp add: sample_nodes_def)
  show ?thesis
    by (simp add: store_activate_def ebind_eval sample_initialize sample_all_dirs updater_fields updater_paths cur ver ins syn rem pen act Let_def)
qed

lemma sample_commit:
  "store_commit sample_env [''u''] sample_receipt (files_at sample_active 3) = (Ok (), files_at (sample_active([''u'', ''pending-activation.json''] := None)) 3)"
proof -
  have dec: "decode_pointer sample_env [1] = Ok sample_artifact"
    using sample_checks(3) by (simp add: decode_pointer_def sample_env_def UPDATE_METADATA_FORMAT_VERSION_def)
  have rem: "remove_if_exists [''u'', ''previous.json''] (files_at sample_active 3) = (Ok (), files_at sample_active 3)"
    by (rule healthy_remove) (simp add: sample_nodes_def)
  show ?thesis
    by (simp add: store_commit_def store_current_def read_pointer_def ebind_eval healthy_read updater_paths dec rem healthy_remove)
qed

lemma sample_update_applies:
  "sample_update = (Ok (UO_Applied sample_artifact), files_at (sample_active([''u'', ''pending-activation.json''] := None)) 3)"
proof -
  have ops: "uc_store sample_updater = file_artifact_store sample_env [''u'']" "uc_health sample_updater = Some (\<lambda>_. Ok ())"
    by (simp_all add: sample_updater_def)
  show ?thesis
    by (simp add: sample_update_def apply_with_faults_def stage_and_activate_def finish_activation_def no_update_faults_def ebind_eval
        ops file_artifact_store_def sample_recover sample_select sample_fetch sample_stage sample_activate sample_commit)
qed

lemma sample_update_inv: "update_inv sample_env [''u''] (files_at sample_nodes 0)" "index_json_ok sample_index"
proof -
  show "index_json_ok sample_index" unfolding index_json_ok_def sample_index_def by (auto split: if_splits) code_simp+
  have "readable f P (files_at sample_nodes 0) (active_pointer [''u''])" "readable g Q (files_at sample_nodes 0) (pending_activation [''u''])"
    for f :: "bytes \<Rightarrow> artifact update_result" and g :: "bytes \<Rightarrow> activation_receipt update_result" and P Q
    by (simp_all add: updater_paths sample_nodes_def)
  then show "update_inv sample_env [''u''] (files_at sample_nodes 0)"
    by (auto simp: update_inv_def update_json_ok_def sample_env_def UPDATE_METADATA_FORMAT_VERSION_def)
qed

lemma update_all_or_nothing_witness:
  "fst sample_update = Ok (UO_Applied sample_artifact) \<and> active_of sample_env [''u''] (snd sample_update) = Some sample_artifact \<and>
   pending_of sample_env [''u''] (snd sample_update) = None"
proof -
  have c: "uc_store sample_updater = file_artifact_store sample_env [''u'']"
      "uc_provider sample_updater = file_update_provider (en_semver sample_env) sample_index (\<lambda>p. [p]) [''index'']"
    by (simp_all add: sample_updater_def sample_env_def)
  from update_all_or_nothing [OF sample_update_inv c sample_update_applies [unfolded sample_update_def]]
  show ?thesis by (simp add: sample_update_applies)
qed

end
