(* ===== verification/Spec2Isabelle.thy ===== *)
theory Spec2Isabelle
  imports Sup_Safety Sup_Concurrency Dnt_Io Sync_Safety Peer_Safety Lease_Safety Control_Safety
    Placement Scheduler_Safety Core_Controller Update_Files
begin

text \<open>
  A verification library for the AppCore runtime (Rust workspace under \<open>src/crates\<close>).

  \<^bold>\<open>The program and its parts.\<close> AppCore is a set of crates for long-running applications. The
  crates that carry its logic are modelled here. \<open>appcore-supervisor\<close> keeps the services of a process alive: it orders
  them by dependency, starts, watches and restarts them under a budget, quarantines what cannot be
  stopped, and shuts them down in reverse order. \<open>appcore-dnt\<close> is the sealed file format in which
  secrets and state are stored: a canonical header, authenticated encryption bound to it, and atomic files.
  \<open>appcore-sync\<close> replicates events from a leader to followers: the leader queues batches in an outbox and pushes
  them, the follower checks them and appends them to a hash-chained log with a checkpoint per peer.
  \<open>appcore-peer-rpc\<close> carries calls between runtimes: the client retries signed envelopes, the host checks their
  window, signature and nonce before it dispatches them. \<open>appcore-control-plane\<close> keeps the directory of
  Cores and grants service leases with fencing epochs, in memory or in a file; \<open>appcore-provider\<close> grants leases on
  shared resources through files. \<open>appcore-scheduler\<close> places work on Cores and runs tasks on worker
  threads with retries. \<open>appcore-contracts\<close> holds the validated manifests all of them exchange. \<open>appcore-core\<close> hosts an application: envelopes,
  registries, a lifecycle, a decision engine and a command bus, stores that make commands idempotent, a hash-chained
  operational journal, and the redaction of what is logged. \<open>appcore-update\<close> replaces the application: a coordinator picks a signed
  artifact from a provider, stages, activates and commits it in a store, and rolls back what fails. The crates share the identifiers and identities of \<open>appcore-types\<close>.

  \<^bold>\<open>How code becomes definitions.\<close> A struct is a record, an enum a datatype, a trait object a record
  of its methods over a state. A method that takes \<open>&mut self\<close> and returns \<open>Result\<close> is an effect, a
  function from a state to a result and a state (\<open>('s, 'e, 'a) eff\<close> of \<open>Prelude\<close>), so what was written before
  an error stays written. \<open>u16\<close>, \<open>u32\<close> and \<open>u64\<close> are words with the source's saturating or checked
  operations, \<open>usize\<close> is \<open>nat\<close>, a \<open>String\<close> is the list of its UTF-8 bytes, \<open>BTreeMap\<close> an association list in key
  order. A mutex that is held for a whole call makes the call one step; where a call waits without
  holding it (service adapters, the restart executor, the task scheduler, command dispatch), the call is split there and the steps of several
  callers interleave. The calls and the workers of the restart executor are split at every access to its shared state.

  \<^bold>\<open>Theories.\<close>
  \<^item> \<open>Prelude\<close>: words, results, effects and what they keep, ordered maps, durations, characters,
    decimal numerals. \<open>Wire_Bytes\<close>: big-endian integers, UTF-8, byte cursors. \<open>Text_Format\<close>: splitting, lines, number
    parsing, hexadecimal (\<open>sync/codec.rs\<close>). \<open>Identifiers\<close>: \<open>appcore-types/ids.rs\<close>, \<open>appcore-contracts/identifiers.rs\<close>.
    \<open>Identity\<close>: \<open>appcore-types/identity.rs\<close>, \<open>trace.rs\<close>. \<open>Redaction\<close>: \<open>appcore-core/redaction.rs\<close>.
  \<^item> Contracts. \<open>Contracts\<close>: \<open>error.rs\<close>, \<open>policy/*.rs\<close>, \<open>runtime.rs\<close>, \<open>application.rs\<close> of \<open>appcore-contracts\<close>, and what
    their constructors, builders and deserialization can produce.
  \<^item> Core. \<open>Core_Types\<close>: \<open>appcore-types/error.rs\<close>; \<open>envelope.rs\<close>, \<open>handler.rs\<close>, \<open>registry.rs\<close> and the registries over it,
    \<open>state.rs\<close>, \<open>lifecycle.rs\<close>, \<open>decision.rs\<close>, \<open>bus.rs\<close> of \<open>appcore-core\<close>. \<open>Core_Idempotency\<close>: \<open>idempotency.rs\<close>, the stores in
    memory and in a file. \<open>Core_Durable\<close>: what that file holds while calls fail. \<open>Core_Journal\<close>: \<open>operational_journal.rs\<close>.
    \<open>Core_Controller\<close>: \<open>audit.rs\<close>, \<open>event_bus.rs\<close>, \<open>plugin.rs\<close>, \<open>builder.rs\<close>, \<open>runtime.rs\<close>, \<open>controller.rs\<close> and the runs of overlapping commands.
  \<^item> Supervisor. \<open>Sup_Service\<close>: the data model (\<open>health.rs\<close>, \<open>policy.rs\<close>, \<open>service.rs\<close>, \<open>error.rs\<close>, \<open>events.rs\<close>).
    \<open>Sup_Graph\<close>: \<open>graph.rs\<close>, the depth-first ordering with its termination proof. \<open>Sup_Watchdog\<close>: \<open>watchdog.rs\<close>.
    \<open>Sup_Executor\<close>: \<open>restart_executor.rs\<close>, worker and calling threads as program counters. \<open>Sup_Concurrency\<close>: any number
    of those threads interleaved. \<open>Sup_Adapters\<close>: \<open>adapters.rs\<close>.
    \<open>Supervisor\<close>: \<open>supervisor.rs\<close>, \<open>supervisor_lifecycle.rs\<close>, \<open>supervisor_restart.rs\<close>, \<open>supervisor_diagnostics.rs\<close>, \<open>snapshot.rs\<close>.
    \<open>Sup_Frame\<close>: which operation touches what. \<open>Sup_Safety\<close>: invariants and properties of runs.
  \<^item> DNT. \<open>Dnt_Format\<close>: \<open>header.rs\<close>, \<open>flags.rs\<close>, \<open>ids.rs\<close>, \<open>error.rs\<close> at byte level. \<open>Dnt_Envelope\<close>: \<open>model.rs\<close>, \<open>model_types.rs\<close>,
    \<open>plaintext.rs\<close>, \<open>compression.rs\<close>, \<open>cipher.rs\<close>, \<open>crypto.rs\<close>, \<open>codec.rs\<close>, \<open>migration.rs\<close>. \<open>Dnt_Safety\<close>: its properties.
    \<open>File_System\<close>: the calls of \<open>std::fs\<close> that the crates use, with faults, and the atomic replacement of a file.
    \<open>Dnt_Io\<close>: \<open>io.rs\<close>.
  \<^item> Sync. \<open>Sync_Log\<close>: the replication log in memory and snapshots (\<open>log.rs\<close>, \<open>snapshot.rs\<close>). \<open>Sync_File\<close>: the
    log in a file (\<open>log.rs\<close>, \<open>persistence.rs\<close>). \<open>Sync_Durable\<close>: what is on disk while calls fail. \<open>Sync_Checkpoint\<close>:
    \<open>checkpoint.rs\<close>. \<open>Sync_Receiver\<close>: \<open>types.rs\<close>, \<open>wire.rs\<close>, \<open>receiver.rs\<close>. \<open>Sync_Outbox\<close>: \<open>outbox.rs\<close>. \<open>Sync_Client\<close>:
    \<open>client.rs\<close>, \<open>retry.rs\<close>. \<open>Sync_Safety\<close>: their properties.
  \<^item> Peer RPC. \<open>Rpc_Nonce\<close>: the nonce stores (\<open>nonce.rs\<close>, \<open>replay.rs\<close>). \<open>Peer_Rpc\<close>: envelopes (\<open>peer_rpc/v1.rs\<close>),
    \<open>validation.rs\<close>, \<open>host.rs\<close>, \<open>client.rs\<close>. \<open>Peer_Safety\<close>: its properties.
  \<^item> Leases. \<open>Fenced_Leases\<close>: what fencing promises. \<open>Lease_File\<close>: \<open>shared_lease.rs\<close>, \<open>shared_lease_state.rs\<close> of
    \<open>appcore-provider\<close>. \<open>Lease_Safety\<close>: its properties.
  \<^item> Control plane. \<open>Control_Plane\<close>: the contract (\<open>control_plane/v1.rs\<close>), Core manifests (\<open>appcore-types/manifest.rs\<close>), \<open>memory.rs\<close>,
    \<open>file.rs\<close>, \<open>leadership.rs\<close>, \<open>coordinator.rs\<close>, \<open>offline.rs\<close>. \<open>Control_Safety\<close>: its properties.
  \<^item> Update. \<open>Update_Artifact\<close>: \<open>artifact.rs\<close>, \<open>authenticity.rs\<close>, \<open>error.rs\<close>, \<open>filesystem.rs\<close>, \<open>integrity.rs\<close>, \<open>provider.rs\<close> of
    \<open>appcore-update\<close>. \<open>Update_Store\<close>: \<open>store.rs\<close>, \<open>coordinator.rs\<close>. \<open>Update_Safety\<close>: the coordinator over any reversible store.
    \<open>Update_Files\<close>: the store in a directory is reversible, and the property of updates over files.
  \<^item> Scheduler. \<open>Placement\<close>: \<open>placement.rs\<close> and its properties. \<open>Scheduler\<close>: \<open>task.rs\<close>, \<open>runtime.rs\<close>, coordinator and
    workers as program counters. \<open>Scheduler_Safety\<close>: the invariant of all interleavings.

  \<^bold>\<open>Interfaces.\<close> \<open>dnt_codec\<close> (payload codecs), \<open>replication_log\<close>, \<open>checkpoint_store\<close>, \<open>outbox\<close> and \<open>idempotency_store\<close> are the
  traits of the code with the laws their users need; each is interpreted on the in-memory and on
  the file implementation. \<open>sync_receiver\<close> combines a log with a checkpoint store; what it proves holds
  for both pairs. \<open>fenced_leases\<close> states what a grant of a lease promises about later grants; it is interpreted
  on the shared file leases and on the control plane in memory and in a file. \<open>reversible_store\<close> is the trait of artifact
  stores with what recovery, activation, rollback and commit promise when they fail; it is interpreted on the store in a directory.

  \<^bold>\<open>What is shown.\<close> Supervisor: the order returned is a topological order and exists exactly for
  acyclic graphs; buffers and histories stay bounded; quarantine is permanent; the trimmed restart history decides
  like an unbounded sliding window; starts need their dependencies; reconciliation only schedules; a successful
  shutdown has run the stop callback of every enabled service once, dependents first, and nothing else; the restart executor keeps
  its bounds under every interleaving of single accesses, and its counter is exact but for the one command being scheduled; adapters run one lifecycle
  callback at a time; the watchdog reports exactly the stalls. DNT: headers round-trip and are canonical; sealing and opening round-trip; in-place opening equals opening; opening implies the
  requested context; writing a file is all or nothing wherever it fails, and reads
  back. Sync: no acknowledged record is lost as long as a reopening can tell that the file exists, and recovery from torn appends is exact; the follower's log has no gaps and
  no duplicates; acknowledged batches are applied; flushing terminates and delivers in order; snapshots restore;
  and, as the code is, a batch whose acknowledgement was lost blocks the outbox. Peer RPC: an accepted request is not
  dispatched again unless it came before its own timestamp, in which case it is; the signed bytes bind the envelope; the number of
  requests a call sends is bounded. Leases: grants of one resource or service have ascending epochs whatever fails between them, and
  a stale holder is refused; for services this excludes the restoring of a backup and a reopening that cannot tell that the file
  exists, which as the code is put back or drop the epochs. Control plane: the file refines the memory. Contracts: manifests cannot be made
  invalid. Scheduler: placement is optimal, order-independent and explained; tasks, callbacks and attempts stay
  within their limits under every interleaving, and shutdown leaves nothing running. Redaction replaces exactly the values of the credential markers in what it scans, and its result is bounded.
  Core: with a store without expiry a command with an idempotency key
  runs once until it fails, and its recorded outcome is replayed, whatever overlaps and fails (as the code is, also to another command with the
  same key and payload); a journal reopens with the records it acknowledged and their hash chain, unless a torn line ends inside
  a character, when it is refused; and, as the code is, an insert that fails half way poisons the
  idempotency store. Where the code does less than a reader may expect, a lemma named in the text of the property shows it:
  \<open>unanswered_check_empties_log\<close>, \<open>unanswered_initialize_resets\<close>, \<open>restore_puts_back\<close>, \<open>expired_key_admitted\<close>, \<open>load_state_cut\<close>. Update: the artifact that recovery leaves active is the old one or one that passed every check, wherever
  an update fails; a signature covers every field of a descriptor.

  \<^bold>\<open>Parameters and bounds.\<close> AEAD, HMAC, zlib, SHA-256, Ed25519, semantic versions, JSON, token verification and cron expressions are functions given to the definitions, with
  their documented laws as named hypotheses where a property needs them; no collision freedom is
  assumed. Files: every call consumes one entry of a list of faults, and a write that fails has written a
  prefix, so a property for all fault lists covers every crash point. \<open>Path::exists\<close> is such a call too: when it fails it answers no
  (\<open>path_exists\<close>), and \<open>stat_answers\<close> says that it did not fail. \<open>flush_queue\<close> and \<open>redact_marker_loop\<close> are partial functions proved
  to return; all other loops are total functions. Clocks, ids and thread schedules are arguments.

  \<^bold>\<open>Not modelled.\<close> Lock poisoning, panics of user callbacks outside the adapters, \<open>Display\<close> and serde
  implementations, and concurrent writers of one file (the process lock is a call that succeeds or fails). Of \<open>appcore-sync\<close>:
  the HTTP transport and DNS discovery. Of \<open>appcore-update\<close>: the verifier of unsigned local artifacts. Of \<open>appcore-peer-rpc\<close>: the nonce store in a file, token signing, the health and manifest
  endpoints and the HTTP transport. Of \<open>appcore-control-plane\<close>: the HTTP client and its background thread. Deployment manifests, \<open>-api\<close>, \<open>-args\<close>, \<open>-capabilities\<close>, \<open>-ops\<close>, \<open>-security\<close>, \<open>-storage\<close>; \<open>-gateway\<close>,
  \<open>-transport\<close>, \<open>-provider-vercel-neon\<close> are network I/O, \<open>-bin\<close> re-exports.
\<close>

end
